(* ===== verification/Rust_Std.thy ===== *)
theory Rust_Std
  imports Main "HOL-Library.Word" "HOL-Library.List_Lexorder" "HOL-Library.Char_ord"
begin

text \<open>
  The part of Rust's standard library the modelled crates use, and the generic lemmas every
  component theory shares:
  \<^item> \<open>String\<close> as the list of its Unicode scalar values, with the UTF-8 length, the byte
    offsets of \<open>char_indices\<close>, \<open>trim\<close>, character classes and truncation at a
    character boundary;
  \<^item> \<open>Result\<close> as a sum (\<open>Inl\<close> the error), its \<open>?\<close> operator, and the same
    operator for code that mutates a state before it fails;
  \<^item> saturating and checked increments on machine words;
  \<^item> \<open>BTreeMap\<close> and \<open>BTreeSet\<close> as lists sorted by key, so that iteration order is
    the order the code iterates in;
  \<^item> the interface of an ordered map and the contract of a component whose operations all keep
    an invariant, as locales.
\<close>

section \<open>Machine integers\<close>

type_synonym u8 = "8 word"
type_synonym u16 = "16 word"
type_synonym u32 = "32 word"
type_synonym u64 = "64 word"

definition sat_inc :: "'a::len word \<Rightarrow> 'a word" where
  "sat_inc w = (if w = - 1 then w else w + 1)"

definition checked_inc :: "'a::len word \<Rightarrow> 'a word option" where
  "checked_inc w = (if w = - 1 then None else Some (w + 1))"

section \<open>Strings\<close>

type_synonym rchar = nat
type_synonym rstring = "rchar list"

definition lit :: "string \<Rightarrow> rstring" where
  "lit s = map of_char s"

definition ch :: "char \<Rightarrow> rchar" where
  "ch c = of_char c"

definition utf8_width :: "rchar \<Rightarrow> nat" where
  "utf8_width c = (if c < 0x80 then 1 else if c < 0x800 then 2 else if c < 0x10000 then 3 else 4)"

definition str_len :: "rstring \<Rightarrow> nat" where
  "str_len s = sum_list (map utf8_width s)"

fun char_indices_from :: "nat \<Rightarrow> rstring \<Rightarrow> (nat \<times> rchar) list" where
  "char_indices_from i [] = []"
| "char_indices_from i (c # s) = (i, c) # char_indices_from (i + utf8_width c) s"

definition char_indices :: "rstring \<Rightarrow> (nat \<times> rchar) list" where
  "char_indices s = char_indices_from 0 s"

definition is_ascii :: "rchar \<Rightarrow> bool" where
  "is_ascii c \<longleftrightarrow> c < 128"

definition is_ascii_lowercase :: "rchar \<Rightarrow> bool" where
  "is_ascii_lowercase c \<longleftrightarrow> 97 \<le> c \<and> c \<le> 122"

definition is_ascii_uppercase :: "rchar \<Rightarrow> bool" where
  "is_ascii_uppercase c \<longleftrightarrow> 65 \<le> c \<and> c \<le> 90"

definition is_ascii_digit :: "rchar \<Rightarrow> bool" where
  "is_ascii_digit c \<longleftrightarrow> 48 \<le> c \<and> c \<le> 57"

definition is_ascii_alphanumeric :: "rchar \<Rightarrow> bool" where
  "is_ascii_alphanumeric c \<longleftrightarrow> is_ascii_lowercase c \<or> is_ascii_uppercase c \<or> is_ascii_digit c"

definition is_control :: "rchar \<Rightarrow> bool" where
  "is_control c \<longleftrightarrow> c < 32 \<or> (127 \<le> c \<and> c < 160)"

definition is_whitespace :: "rchar \<Rightarrow> bool" where
  "is_whitespace c \<longleftrightarrow>
     (9 \<le> c \<and> c \<le> 13) \<or> c = 32 \<or> c = 0x85 \<or> c = 0xA0 \<or> c = 0x1680 \<or>
     (0x2000 \<le> c \<and> c \<le> 0x200A) \<or> c = 0x2028 \<or> c = 0x2029 \<or> c = 0x202F \<or> c = 0x205F \<or> c = 0x3000"

definition trim :: "rstring \<Rightarrow> rstring" where
  "trim s = rev (dropWhile is_whitespace (rev (dropWhile is_whitespace s)))"

definition blank :: "rstring \<Rightarrow> bool" where
  "blank s \<longleftrightarrow> trim s = []"

fun show_nat :: "nat \<Rightarrow> rstring" where
  "show_nat n = (if n < 10 then [48 + n] else show_nat (n div 10) @ [48 + n mod 10])"

declare show_nat.simps [simp del]

definition show_int :: "int \<Rightarrow> rstring" where
  "show_int i = (if i < 0 then 45 # show_nat (nat (- i)) else show_nat (nat i))"

definition quoted :: "rstring \<Rightarrow> rstring" where
  "quoted s = lit ''`'' @ s @ lit ''`''"

fun join :: "rstring \<Rightarrow> rstring list \<Rightarrow> rstring" where
  "join sep [] = []"
| "join sep [x] = x"
| "join sep (x # y # xs) = x @ sep @ join sep (y # xs)"

fun split_on :: "rchar \<Rightarrow> rstring \<Rightarrow> rstring list" where
  "split_on d [] = [[]]"
| "split_on d (c # s) =
     (if c = d then [] # split_on d s
      else (case split_on d s of [] \<Rightarrow> [[c]] | w # ws \<Rightarrow> (c # w) # ws))"

text \<open>
  Truncation, written as the code writes it: step back from the byte limit to a character
  boundary, then keep the characters before it. Offset 0 is always a boundary, so the loop ends.
\<close>

definition is_char_boundary :: "rstring \<Rightarrow> nat \<Rightarrow> bool" where
  "is_char_boundary s i \<longleftrightarrow> i = str_len s \<or> i \<in> fst ` set (char_indices s)"

fun floor_boundary :: "rstring \<Rightarrow> nat \<Rightarrow> nat" where
  "floor_boundary s 0 = 0"
| "floor_boundary s (Suc e) = (if is_char_boundary s (Suc e) then Suc e else floor_boundary s e)"

definition str_prefix :: "rstring \<Rightarrow> nat \<Rightarrow> rstring" where
  "str_prefix s e = map snd (filter (\<lambda>(i, c). i < e) (char_indices s))"

definition truncate_bytes :: "rstring \<Rightarrow> nat \<Rightarrow> rstring" where
  "truncate_bytes s maximum =
     (if str_len s \<le> maximum then s else str_prefix s (floor_boundary s maximum))"

section \<open>Results and stateful results\<close>

type_synonym ('e, 'a) res = "'e + 'a"

fun res_bind :: "('e, 'a) res \<Rightarrow> ('a \<Rightarrow> ('e, 'b) res) \<Rightarrow> ('e, 'b) res" where
  "res_bind (Inl e) f = Inl e"
| "res_bind (Inr x) f = f x"

fun map_err :: "('e \<Rightarrow> 'f) \<Rightarrow> ('e, 'a) res \<Rightarrow> ('f, 'a) res" where
  "map_err f (Inl e) = Inl (f e)"
| "map_err f (Inr x) = Inr x"

definition ensure :: "bool \<Rightarrow> 'e \<Rightarrow> ('e, unit) res" where
  "ensure b e = (if b then Inr () else Inl e)"

definition is_ok :: "('e, 'a) res \<Rightarrow> bool" where
  "is_ok r = (case r of Inl e \<Rightarrow> False | Inr x \<Rightarrow> True)"

type_synonym ('s, 'e, 'a) act = "'s \<Rightarrow> ('e, 'a) res \<times> 's"

definition ret :: "'a \<Rightarrow> ('s, 'e, 'a) act" where
  "ret x = (\<lambda>s. (Inr x, s))"

definition throw :: "'e \<Rightarrow> ('s, 'e, 'a) act" where
  "throw e = (\<lambda>s. (Inl e, s))"

definition act_bind :: "('s, 'e, 'a) act \<Rightarrow> ('a \<Rightarrow> ('s, 'e, 'b) act) \<Rightarrow> ('s, 'e, 'b) act" where
  "act_bind m f = (\<lambda>s. case m s of (Inl e, s') \<Rightarrow> (Inl e, s') | (Inr x, s') \<Rightarrow> f x s')"

definition act_then :: "('s, 'e, unit) act \<Rightarrow> ('s, 'e, 'b) act \<Rightarrow> ('s, 'e, 'b) act" where
  "act_then m n = act_bind m (\<lambda>_. n)"

definition lift_res :: "('e, 'a) res \<Rightarrow> ('s, 'e, 'a) act" where
  "lift_res r = (\<lambda>s. (r, s))"

section \<open>Ordered maps and sets\<close>

type_synonym ('k, 'v) btmap = "('k \<times> 'v) list"

abbreviation bt_get :: "('k, 'v) btmap \<Rightarrow> 'k \<Rightarrow> 'v option" where
  "bt_get m k \<equiv> map_of m k"

fun bt_insert :: "'k::linorder \<Rightarrow> 'v \<Rightarrow> ('k, 'v) btmap \<Rightarrow> ('k, 'v) btmap" where
  "bt_insert k v [] = [(k, v)]"
| "bt_insert k v ((k', v') # m) =
     (if k < k' then (k, v) # (k', v') # m
      else if k = k' then (k, v) # m
      else (k', v') # bt_insert k v m)"

definition bt_remove :: "'k \<Rightarrow> ('k, 'v) btmap \<Rightarrow> ('k, 'v) btmap" where
  "bt_remove k m = filter (\<lambda>(k', v). k' \<noteq> k) m"

definition bt_update :: "'k \<Rightarrow> ('v \<Rightarrow> 'v) \<Rightarrow> ('k, 'v) btmap \<Rightarrow> ('k, 'v) btmap" where
  "bt_update k f m = map (\<lambda>(k', v). (k', if k' = k then f v else v)) m"

definition bt_map :: "('k \<Rightarrow> 'v \<Rightarrow> 'w) \<Rightarrow> ('k, 'v) btmap \<Rightarrow> ('k, 'w) btmap" where
  "bt_map f m = map (\<lambda>(k, v). (k, f k v)) m"

definition bt_has :: "('k, 'v) btmap \<Rightarrow> 'k \<Rightarrow> bool" where
  "bt_has m k \<longleftrightarrow> map_of m k \<noteq> None"

definition bt_keys :: "('k, 'v) btmap \<Rightarrow> 'k list" where
  "bt_keys m = map fst m"

definition bt_values :: "('k, 'v) btmap \<Rightarrow> 'v list" where
  "bt_values m = map snd m"

definition bt_wf :: "('k::linorder, 'v) btmap \<Rightarrow> bool" where
  "bt_wf m \<longleftrightarrow> sorted_wrt (<) (map fst m)"

fun bs_insert :: "'k::linorder \<Rightarrow> 'k list \<Rightarrow> 'k list" where
  "bs_insert k [] = [k]"
| "bs_insert k (x # xs) = (if k < x then k # x # xs else if k = x then x # xs else x # bs_insert k xs)"

definition bs_remove :: "'k \<Rightarrow> 'k list \<Rightarrow> 'k list" where
  "bs_remove k xs = filter (\<lambda>x. x \<noteq> k) xs"

definition bs_wf :: "'k::linorder list \<Rightarrow> bool" where
  "bs_wf xs \<longleftrightarrow> sorted_wrt (<) xs"

definition bs_of_list :: "'k::linorder list \<Rightarrow> 'k list" where
  "bs_of_list xs = foldl (\<lambda>s x. bs_insert x s) [] xs"

text \<open>The first element that already occurred: what \<open>!set.insert(x)\<close> in a loop detects.\<close>

fun first_dup_from :: "'a list \<Rightarrow> 'a list \<Rightarrow> 'a option" where
  "first_dup_from seen [] = None"
| "first_dup_from seen (x # xs) = (if x \<in> set seen then Some x else first_dup_from (x # seen) xs)"

definition first_dup :: "'a list \<Rightarrow> 'a option" where
  "first_dup xs = first_dup_from [] xs"

section \<open>Lemmas on words\<close>

lemma sat_inc_ge [simp]: "w \<le> sat_inc w"
proof (cases "w = - 1")
  case False
  then have "unat (1 + w) = Suc (unat w)"
    by (intro unatSuc) (metis add.commute add_eq_0_iff)
  then show ?thesis by (simp add: sat_inc_def word_le_nat_alt add.commute)
qed (simp add: sat_inc_def)

lemma unat_inc: "w \<noteq> - 1 \<Longrightarrow> unat (w + 1) = Suc (unat w)" for w :: "'a::len word"
  by (metis add.commute add_eq_0_iff unatSuc)

lemma sat_inc_gt: "w < sat_inc w \<longleftrightarrow> w \<noteq> - 1"
  by (auto simp: sat_inc_def word_less_nat_alt unat_inc)

lemma inc_gt [simp]: "w \<noteq> - 1 \<Longrightarrow> w < w + 1" for w :: "'a::len word"
  by (simp add: word_less_nat_alt unat_inc)

lemma less_not_max: "w < v \<Longrightarrow> w \<noteq> - 1" for w v :: "'a::len word"
  by (metis linorder_not_le word_n1_ge)

lemma unat_of_nat_64 [simp]: "n < 2 ^ 64 \<Longrightarrow> unat (of_nat n :: u64) = n"
  by (simp add: unat_of_nat take_bit_nat_eq_self)

lemma sat_inc_below: "w < m \<Longrightarrow> sat_inc w \<le> m \<and> unat (sat_inc w) = Suc (unat w)" for w m :: "'a::len word"
  using unat_inc [of w] less_not_max [of w m]
  by (auto simp: sat_inc_def word_le_nat_alt word_less_nat_alt)

lemma checked_inc_Some: "checked_inc w = Some v \<longleftrightarrow> w \<noteq> - 1 \<and> v = w + 1"
  by (auto simp: checked_inc_def)

section \<open>Lemmas on strings\<close>

lemma str_len_Nil [simp]: "str_len [] = 0"
  by (simp add: str_len_def)

lemma str_len_Cons [simp]: "str_len (c # s) = utf8_width c + str_len s"
  by (simp add: str_len_def)

lemma str_len_append [simp]: "str_len (s @ t) = str_len s + str_len t"
  by (simp add: str_len_def)

lemma utf8_width_pos [simp]: "0 < utf8_width c"
  by (simp add: utf8_width_def)

lemma utf8_width_le4: "utf8_width c \<le> 4"
  by (simp add: utf8_width_def)

lemma length_le_str_len: "length s \<le> str_len s"
proof (induction s)
  case (Cons c s)
  then show ?case
    using utf8_width_pos [of c] unfolding str_len_Cons length_Cons by linarith
qed simp

lemma str_len_zero [simp]: "str_len s = 0 \<longleftrightarrow> s = []"
  using length_le_str_len [of s] by auto

lemma char_indices_from_bound: "(i, c) \<in> set (char_indices_from k s) \<Longrightarrow> k \<le> i \<and> i < k + str_len s"
proof (induction k s rule: char_indices_from.induct)
  case (2 k d s)
  have pos: "0 < utf8_width d" by simp
  from "2.prems" consider "i = k" | "(i, c) \<in> set (char_indices_from (k + utf8_width d) s)"
    by auto
  then show ?case
  proof cases
    case 1
    then show ?thesis using pos unfolding str_len_Cons by linarith
  next
    case 2
    then have "k + utf8_width d \<le> i \<and> i < k + utf8_width d + str_len s" by (rule "2.IH")
    then show ?thesis by simp
  qed
qed simp

lemma snd_char_indices_from [simp]: "map snd (char_indices_from k s) = s"
  by (induction k s rule: char_indices_from.induct) auto

lemma snd_char_indices [simp]: "map snd (char_indices s) = s"
  by (simp add: char_indices_def)

lemma set_snd_char_indices: "snd ` set (char_indices s) = set s"
  by (metis list.set_map snd_char_indices)

lemma char_indices_from_append:
  "char_indices_from k (s @ t) = char_indices_from k s @ char_indices_from (k + str_len s) t"
  by (induction k s rule: char_indices_from.induct) (auto simp: add.assoc)

text \<open>The longest prefix of whole characters that fits: what the truncation loop computes.\<close>

fun take_chars :: "nat \<Rightarrow> rstring \<Rightarrow> rstring" where
  "take_chars n [] = []"
| "take_chars n (c # s) = (if utf8_width c \<le> n then c # take_chars (n - utf8_width c) s else [])"

lemma str_len_take_chars: "str_len (take_chars n s) \<le> n"
  by (induction n s rule: take_chars.induct) auto

lemma take_chars_prefix: "\<exists>t. s = take_chars n s @ t"
  by (induction n s rule: take_chars.induct) auto

lemma take_chars_all: "str_len s \<le> n \<Longrightarrow> take_chars n s = s"
  by (induction n s rule: take_chars.induct) auto

lemma floor_boundary_le: "floor_boundary s e \<le> e"
  by (induction s e rule: floor_boundary.induct) auto

lemma is_char_boundary_0: "is_char_boundary s 0"
  by (cases s) (auto simp: is_char_boundary_def char_indices_def)

lemma floor_boundary_is: "is_char_boundary s (floor_boundary s e)"
  by (induction s e rule: floor_boundary.induct) (auto simp: is_char_boundary_0)

lemma floor_boundary_max: "is_char_boundary s i \<Longrightarrow> i \<le> e \<Longrightarrow> i \<le> floor_boundary s e"
  by (induction s e rule: floor_boundary.induct) (auto simp: le_Suc_eq)

lemma is_char_boundary_append: "is_char_boundary (s @ t) (str_len s)"
proof (cases t)
  case (Cons c u)
  have "str_len s \<in> fst ` set (char_indices (s @ c # u))"
    by (simp add: char_indices_def char_indices_from_append)
  with Cons show ?thesis by (simp add: is_char_boundary_def)
qed (simp add: is_char_boundary_def)

lemma is_char_boundary_split:
  assumes "is_char_boundary s i"
  shows "\<exists>t u. s = t @ u \<and> str_len t = i"
proof -
  have gen: "(\<exists>c. (i, c) \<in> set (char_indices_from k s)) \<Longrightarrow> \<exists>t u. s = t @ u \<and> k + str_len t = i" for k
  proof (induction k s rule: char_indices_from.induct)
    case (2 k d s)
    show ?case
    proof (cases "i = k")
      case True
      then show ?thesis by (intro exI [of _ "[]"] exI [of _ "d # s"]) simp
    next
      case False
      with "2.prems" have "\<exists>c. (i, c) \<in> set (char_indices_from (k + utf8_width d) s)" by auto
      then obtain t u where "s = t @ u" "k + utf8_width d + str_len t = i" using "2.IH" by blast
      then show ?thesis by (intro exI [of _ "d # t"] exI [of _ u]) auto
    qed
  qed simp
  show ?thesis
  proof (cases "i = str_len s")
    case True
    then show ?thesis by (intro exI [of _ s] exI [of _ "[]"]) simp
  next
    case False
    with assms have "\<exists>c. (i, c) \<in> set (char_indices_from 0 s)"
      by (force simp: is_char_boundary_def char_indices_def)
    then show ?thesis using gen [of 0] by simp
  qed
qed

lemma str_prefix_append: "str_prefix (s @ t) (str_len s) = s"
proof -
  have "filter (\<lambda>(i, c). i < str_len s) (char_indices_from 0 s) = char_indices_from 0 s"
    by (auto simp: filter_id_conv dest: char_indices_from_bound)
  moreover have "filter (\<lambda>(i, c). i < str_len s) (char_indices_from (str_len s) t) = []"
    by (auto simp: filter_empty_conv dest: char_indices_from_bound)
  ultimately show ?thesis
    by (simp add: str_prefix_def char_indices_def char_indices_from_append)
qed

lemma take_chars_maximal:
  "s = t @ u \<Longrightarrow> str_len t \<le> n \<Longrightarrow> str_len t \<le> str_len (take_chars n s)"
proof (induction n s arbitrary: t rule: take_chars.induct)
  case (2 n c s)
  show ?case
  proof (cases t)
    case (Cons d t')
    with "2.prems" have "s = t' @ u" "c = d" "utf8_width c \<le> n" "str_len t' \<le> n - utf8_width c"
      by auto
    with "2.IH" Cons show ?thesis by simp
  qed simp
qed simp

lemma str_prefix_floor: "str_prefix s (floor_boundary s n) = take_chars n s"
proof -
  obtain u where u: "s = take_chars n s @ u" using take_chars_prefix by blast
  have "is_char_boundary s (str_len (take_chars n s))"
    using is_char_boundary_append [of "take_chars n s" u] u by simp
  then have le: "str_len (take_chars n s) \<le> floor_boundary s n"
    by (rule floor_boundary_max) (rule str_len_take_chars)
  obtain t v where tv: "s = t @ v" "str_len t = floor_boundary s n"
    using is_char_boundary_split [OF floor_boundary_is] by blast
  have "str_len t \<le> str_len (take_chars n s)"
    using take_chars_maximal [OF tv(1)] tv(2) floor_boundary_le by simp
  with le tv have "floor_boundary s n = str_len (take_chars n s)" by simp
  then show ?thesis using str_prefix_append [of "take_chars n s" u] u by simp
qed

lemma truncate_bytes_eq: "truncate_bytes s n = take_chars n s"
  by (simp add: truncate_bytes_def str_prefix_floor take_chars_all)

lemma str_len_truncate: "str_len (truncate_bytes s n) \<le> n"
  by (simp add: truncate_bytes_eq str_len_take_chars)

lemma blank_iff: "blank s \<longleftrightarrow> (\<forall>c \<in> set s. is_whitespace c)"
proof
  assume "blank s"
  then have "\<forall>c \<in> set (dropWhile is_whitespace s). is_whitespace c"
    by (simp add: blank_def trim_def)
  moreover have "set s = set (takeWhile is_whitespace s) \<union> set (dropWhile is_whitespace s)"
    by (metis set_append takeWhile_dropWhile_id)
  ultimately show "\<forall>c \<in> set s. is_whitespace c" by (auto dest: set_takeWhileD)
next
  assume "\<forall>c \<in> set s. is_whitespace c"
  then have "dropWhile is_whitespace s = []" by (metis dropWhile_eq_Nil_conv)
  then show "blank s" by (metis blank_def trim_def dropWhile.simps(1) rev.simps(1))
qed

lemma find_chars_none:
  "find (\<lambda>(i, c). \<not> P c) (char_indices s) = None \<longleftrightarrow> (\<forall>c \<in> set s. P c)"
  unfolding set_snd_char_indices [symmetric] by (auto simp: find_None_iff)

lemma ascii_len: "\<forall>c \<in> set s. c < 128 \<Longrightarrow> str_len s = length s"
  by (induction s) (auto simp: utf8_width_def)

lemmas ascii_classes = is_ascii_alphanumeric_def is_ascii_lowercase_def is_ascii_uppercase_def is_ascii_digit_def

text \<open>Decimal numerals can be read back, so they are distinct.\<close>

definition read_digits :: "rstring \<Rightarrow> nat" where
  "read_digits s = foldl (\<lambda>n c. 10 * n + (c - 48)) 0 s"

lemma read_show_nat: "read_digits (show_nat n) = n"
proof (induction n rule: show_nat.induct)
  case (1 n)
  then show ?case by (subst show_nat.simps) (auto simp: read_digits_def)
qed

lemma show_nat_inject [simp]: "show_nat m = show_nat n \<longleftrightarrow> m = n"
  by (metis read_show_nat)

lemma split_on_ne [simp]: "split_on d s \<noteq> []"
  by (induction s) (auto split: list.splits)

lemma join_split: "join [d] (split_on d s) = s"
proof (induction s)
  case (Cons c s)
  obtain w ws where w: "split_on d s = w # ws" by (cases "split_on d s") auto
  then show ?case using Cons by (cases ws) auto
qed simp

lemma split_on_parts: "w \<in> set (split_on d s) \<Longrightarrow> d \<notin> set w \<and> set w \<subseteq> set s"
proof (induction s arbitrary: w)
  case (Cons c s)
  obtain v vs where v: "split_on d s = v # vs" by (cases "split_on d s") auto
  have "d \<notin> set v \<and> set v \<subseteq> set s" using Cons.IH [of v] v by simp
  then show ?case using v Cons.prems Cons.IH by (fastforce split: if_splits)
qed auto

lemma split_on_word: "d \<notin> set w \<Longrightarrow> split_on d w = [w]"
  by (induction w) auto

lemma split_on_append: "d \<notin> set w \<Longrightarrow> split_on d (w @ d # s) = w # split_on d s"
  by (induction w) auto

lemma split_join: "ws \<noteq> [] \<Longrightarrow> \<forall>w \<in> set ws. d \<notin> set w \<Longrightarrow> split_on d (join [d] ws) = ws"
proof (induction "[d]" ws rule: join.induct)
  case (3 x y xs)
  then show ?case by (simp add: split_on_append)
qed (auto simp: split_on_word)

lemma set_join: "set (join sep ws) \<subseteq> \<Union> (set ` set ws) \<union> set sep"
  by (induction sep ws rule: join.induct) auto

section \<open>Lemmas on results\<close>

lemma res_bind_Inr [simp]: "res_bind m f = Inr y \<longleftrightarrow> (\<exists>x. m = Inr x \<and> f x = Inr y)"
  by (cases m) auto

lemma res_bind_Inl: "res_bind m f = Inl e \<longleftrightarrow> m = Inl e \<or> (\<exists>x. m = Inr x \<and> f x = Inl e)"
  by (cases m) auto

lemma map_err_Inr [simp]: "map_err f m = Inr x \<longleftrightarrow> m = Inr x"
  by (cases m) auto

lemma map_err_Inl: "map_err f m = Inl e \<longleftrightarrow> (\<exists>d. m = Inl d \<and> e = f d)"
  by (cases m) auto

lemma ensure_Inr [simp]: "ensure b e = Inr u \<longleftrightarrow> b"
  by (auto simp: ensure_def)

lemma ensure_Inl [simp]: "ensure b e = Inl d \<longleftrightarrow> \<not> b \<and> d = e"
  by (auto simp: ensure_def)

lemma is_ok_simps [simp]: "is_ok (Inl e) = False" "is_ok (Inr x) = True"
  by (simp_all add: is_ok_def)

lemma act_bind_split:
  "act_bind m f s = (r, s'') \<longleftrightarrow>
     (\<exists>e s'. m s = (Inl e, s') \<and> r = Inl e \<and> s'' = s') \<or>
     (\<exists>x s'. m s = (Inr x, s') \<and> f x s' = (r, s''))"
  by (auto simp: act_bind_def split: prod.splits sum.splits)

section \<open>Lemmas on ordered maps and sets\<close>

lemma bt_get_insert [simp]: "bt_get (bt_insert k v m) = (bt_get m)(k \<mapsto> v)"
  by (induction k v m rule: bt_insert.induct) (auto simp: fun_eq_iff)

lemma bt_get_remove [simp]: "bt_get (bt_remove k m) = (bt_get m)(k := None)"
  unfolding bt_remove_def by (induction m) (auto simp: fun_eq_iff)

lemma bt_get_update [simp]: "bt_get (bt_update k f m) = (bt_get m)(k := map_option f (bt_get m k))"
  unfolding bt_update_def by (induction m) (auto simp: fun_eq_iff)

lemma bt_get_map [simp]: "bt_get (bt_map f m) k = map_option (f k) (bt_get m k)"
  unfolding bt_map_def by (induction m) auto

lemma keys_update [simp]: "map fst (bt_update k f m) = map fst m"
  by (auto simp: bt_update_def)

lemma keys_map [simp]: "map fst (bt_map f m) = map fst m"
  by (auto simp: bt_map_def)

lemma set_keys_insert [simp]: "fst ` set (bt_insert k v m) = insert k (fst ` set m)"
  by (induction k v m rule: bt_insert.induct) auto

lemma bt_wf_Nil [simp]: "bt_wf []"
  by (simp add: bt_wf_def)

lemma bt_wf_insert [simp]: "bt_wf m \<Longrightarrow> bt_wf (bt_insert k v m)"
  unfolding bt_wf_def
proof (induction k v m rule: bt_insert.induct)
  case (2 k v k' v' m)
  then show ?case by (auto simp: image_iff dest: order.strict_trans)
qed simp

lemma bt_wf_remove [simp]: "bt_wf m \<Longrightarrow> bt_wf (bt_remove k m)"
  unfolding bt_wf_def bt_remove_def by (induction m) auto

lemma bt_wf_update [simp]: "bt_wf (bt_update k f m) \<longleftrightarrow> bt_wf m"
  by (simp add: bt_wf_def)

lemma bt_wf_map [simp]: "bt_wf (bt_map f m) \<longleftrightarrow> bt_wf m"
  by (simp add: bt_wf_def)

lemma bt_wf_distinct: "bt_wf m \<Longrightarrow> distinct (map fst m)"
  by (simp add: bt_wf_def strict_sorted_iff)

lemma bt_get_in_set: "bt_wf m \<Longrightarrow> bt_get m k = Some v \<longleftrightarrow> (k, v) \<in> set m"
  by (simp add: bt_wf_distinct)

lemma bt_ext:
  assumes "bt_wf m" "bt_wf m'" "bt_get m = bt_get m'"
  shows "m = m'"
proof -
  have "set m = set m'" using assms by (auto simp flip: bt_get_in_set)
  moreover have "inj_on fst (set m)" using assms(1) bt_wf_distinct distinct_map by blast
  ultimately show ?thesis
    using assms(1,2) by (intro map_sorted_distinct_set_unique [where f = fst])
      (auto simp: bt_wf_def strict_sorted_iff)
qed

lemma bt_has_insert [simp]: "bt_has (bt_insert k v m) j \<longleftrightarrow> j = k \<or> bt_has m j"
  by (simp add: bt_has_def)

lemma bt_has_remove [simp]: "bt_has (bt_remove k m) j \<longleftrightarrow> j \<noteq> k \<and> bt_has m j"
  by (simp add: bt_has_def)

lemma bt_has_update [simp]: "bt_has (bt_update k f m) j \<longleftrightarrow> bt_has m j"
  by (auto simp: bt_has_def)

lemma length_bt_insert_Suc: "length (bt_insert k v m) \<le> Suc (length m)"
  by (induction k v m rule: bt_insert.induct) auto

lemma length_bt_insert_le: "length m < n \<Longrightarrow> length (bt_insert k v m) \<le> n"
  using length_bt_insert_Suc [of k v m] by linarith

lemma length_bt_remove: "length (bt_remove k m) \<le> length m"
  by (simp add: bt_remove_def)

lemma length_bt_update [simp]: "length (bt_update k f m) = length m"
  by (simp add: bt_update_def)

lemma length_bt_insert_has: "bt_wf m \<Longrightarrow> bt_has m k \<Longrightarrow> length (bt_insert k v m) = length m"
proof -
  assume "bt_wf m" "bt_has m k"
  then have "card (fst ` set (bt_insert k v m)) = card (fst ` set m)"
    by (simp add: bt_has_def insert_absorb map_of_eq_None_iff)
  moreover have "card (fst ` set n) = length n" if "bt_wf n" for n :: "('a, 'b) btmap"
    using distinct_card [OF bt_wf_distinct [OF that]] by simp
  ultimately show ?thesis using bt_wf_insert [OF \<open>bt_wf m\<close>, of k v] \<open>bt_wf m\<close> by metis
qed

lemma bt_remove_absent: "bt_get m k = None \<Longrightarrow> bt_remove k m = m"
  unfolding bt_remove_def by (force simp: map_of_eq_None_iff filter_id_conv)

lemma set_bs_insert [simp]: "set (bs_insert k xs) = insert k (set xs)"
  by (induction k xs rule: bs_insert.induct) auto

lemma bs_wf_insert [simp]: "bs_wf xs \<Longrightarrow> bs_wf (bs_insert k xs)"
  unfolding bs_wf_def
proof (induction k xs rule: bs_insert.induct)
  case (2 k x xs)
  then show ?case by (auto dest: order.strict_trans)
qed simp

lemma set_bs_remove [simp]: "set (bs_remove k xs) = set xs - {k}"
  by (auto simp: bs_remove_def)

lemma bs_wf_remove [simp]: "bs_wf xs \<Longrightarrow> bs_wf (bs_remove k xs)"
  unfolding bs_wf_def bs_remove_def by (induction xs) auto

lemma bs_wf_Nil [simp]: "bs_wf []"
  by (simp add: bs_wf_def)

lemma bs_wf_single [simp]: "bs_wf [x]"
  by (simp add: bs_wf_def)

lemma bs_ext: "bs_wf xs \<Longrightarrow> bs_wf ys \<Longrightarrow> set xs = set ys \<Longrightarrow> xs = ys"
  by (simp add: bs_wf_def strict_sorted_iff sorted_distinct_set_unique)

lemma bs_of_list_gen:
  "set (foldl (\<lambda>s x. bs_insert x s) a xs) = set a \<union> set xs \<and>
   (bs_wf a \<longrightarrow> bs_wf (foldl (\<lambda>s x. bs_insert x s) a xs))"
  by (induction xs arbitrary: a) auto

lemma set_bs_of_list [simp]: "set (bs_of_list xs) = set xs"
  by (simp add: bs_of_list_def bs_of_list_gen)

lemma bs_wf_of_list [simp]: "bs_wf (bs_of_list xs)"
  by (simp add: bs_of_list_def bs_of_list_gen)

lemma bs_of_list_eq_iff: "bs_of_list xs = bs_of_list ys \<longleftrightarrow> set xs = set ys"
  by (metis bs_ext bs_wf_of_list set_bs_of_list)

lemma first_dup_from_None: "first_dup_from seen xs = None \<longleftrightarrow> distinct xs \<and> set seen \<inter> set xs = {}"
  by (induction seen xs rule: first_dup_from.induct) auto

lemma first_dup_None [simp]: "first_dup xs = None \<longleftrightarrow> distinct xs"
  by (simp add: first_dup_def first_dup_from_None)

lemma first_dup_Some: "first_dup xs = Some x \<Longrightarrow> x \<in> set xs \<and> \<not> distinct xs"
proof -
  have "first_dup_from seen xs = Some x \<Longrightarrow> x \<in> set xs" for seen
    by (induction seen xs rule: first_dup_from.induct) (auto split: if_splits)
  then show "first_dup xs = Some x \<Longrightarrow> x \<in> set xs \<and> \<not> distinct xs"
    using first_dup_None [of xs] by (auto simp: first_dup_def)
qed

section \<open>The ordered-map interface\<close>

text \<open>
  What the clients of \<open>BTreeMap\<close> rely on: \<open>get\<close> after each operation, the invariant
  every operation keeps, and that a well-formed map is determined by its lookups (so that code
  that undoes its own insertions restores the very same map).
\<close>

locale ordered_map =
  fixes empty :: 'm
    and get :: "'m \<Rightarrow> 'k \<Rightarrow> 'v option"
    and put :: "'k \<Rightarrow> 'v \<Rightarrow> 'm \<Rightarrow> 'm"
    and del :: "'k \<Rightarrow> 'm \<Rightarrow> 'm"
    and wf :: "'m \<Rightarrow> bool"
  assumes wf_empty: "wf empty"
    and wf_put: "wf m \<Longrightarrow> wf (put k v m)"
    and wf_del: "wf m \<Longrightarrow> wf (del k m)"
    and get_empty: "get empty = Map.empty"
    and get_put: "get (put k v m) = (get m)(k \<mapsto> v)"
    and get_del: "get (del k m) = (get m)(k := None)"
    and extensional: "wf m \<Longrightarrow> wf m' \<Longrightarrow> get m = get m' \<Longrightarrow> m = m'"
begin

lemma del_put: "wf m \<Longrightarrow> get m k = None \<Longrightarrow> del k (put k v m) = m"
  by (rule extensional) (auto simp: wf_put wf_del get_put get_del)

lemma put_put: "wf m \<Longrightarrow> put k v (put k w m) = put k v m"
  by (rule extensional) (auto simp: wf_put get_put)

lemma put_commute: "wf m \<Longrightarrow> j \<noteq> k \<Longrightarrow> put k v (put j w m) = put j w (put k v m)"
  by (rule extensional) (auto simp: wf_put get_put)

lemma del_commute: "wf m \<Longrightarrow> del k (del j m) = del j (del k m)"
  by (rule extensional) (auto simp: wf_del get_del)

end

interpretation btree: ordered_map "[] :: ('k::linorder, 'v) btmap" bt_get bt_insert bt_remove bt_wf
  by unfold_locales (auto intro: bt_ext)

section \<open>Components whose operations keep an invariant\<close>

inductive reach :: "('s \<Rightarrow> bool) \<Rightarrow> ('s \<Rightarrow> 's \<Rightarrow> bool) \<Rightarrow> 's \<Rightarrow> bool"
  for start :: "'s \<Rightarrow> bool" and step :: "'s \<Rightarrow> 's \<Rightarrow> bool" where
  reach_start: "start s \<Longrightarrow> reach start step s"
| reach_step: "reach start step s \<Longrightarrow> step s t \<Longrightarrow> reach start step t"

lemma reach_one: "start s \<Longrightarrow> step s t \<Longrightarrow> reach start step t"
  by (rule reach_step, rule reach_start)

locale component =
  fixes start :: "'s \<Rightarrow> bool"
    and step :: "'s \<Rightarrow> 's \<Rightarrow> bool"
    and inv :: "'s \<Rightarrow> bool"
  assumes start_inv: "start s \<Longrightarrow> inv s"
    and step_inv: "inv s \<Longrightarrow> step s t \<Longrightarrow> inv t"
begin

lemma reach_inv: "reach start step s \<Longrightarrow> inv s"
  by (induction rule: reach.induct) (auto intro: start_inv step_inv)

lemma reach_rtranclp: "reach start step s \<Longrightarrow> step\<^sup>*\<^sup>* s t \<Longrightarrow> inv t"
proof -
  assume s: "reach start step s" and "step\<^sup>*\<^sup>* s t"
  from this(2) have "reach start step t"
    by (induction rule: rtranclp_induct) (auto intro: s reach_step)
  then show "inv t" by (rule reach_inv)
qed

end

end
