(* ===== verification/Plugin_Kernel.thy ===== *)
theory Plugin_Kernel
  imports Rust_Std
begin

text \<open>
  The L0 process kernel, crate \<open>yunxi-kernel\<close>: plugin identity
  (\<open>plugin/id.rs\<close>), launch data (\<open>plugin/command.rs\<close>, \<open>plugin/spec.rs\<close>),
  lifecycle states (\<open>plugin/state.rs\<close>), errors (\<open>error.rs\<close>), the supervisor thread
  (\<open>supervision/process.rs\<close>) and the registry and lifecycle coordinator
  (\<open>runtime/kernel.rs\<close>).

  The kernel talks to threads, channels and the operating system. What they answer during one
  call is the argument \<open>kernel_env\<close> of that call (does a thread spawn, is the other end of a
  channel still there, has a worker finished, did it panic, which events arrived while joining),
  and every theorem holds for every answer. What the kernel asks of its supervisors is recorded in
  \<open>k_trace\<close>. The supervisor thread itself is the function \<open>supervise_process\<close> over the
  answers of its polls.
\<close>

section \<open>Plugin identity\<close>

definition KERNEL_MAX_PLUGIN_ID_BYTES :: nat where
  "KERNEL_MAX_PLUGIN_ID_BYTES = 128"

datatype plugin_id = PluginId (pid_str: rstring)

instantiation plugin_id :: linorder
begin

definition less_eq_plugin_id :: "plugin_id \<Rightarrow> plugin_id \<Rightarrow> bool" where
  "less_eq_plugin_id a b \<longleftrightarrow> pid_str a \<le> pid_str b"

definition less_plugin_id :: "plugin_id \<Rightarrow> plugin_id \<Rightarrow> bool" where
  "less_plugin_id a b \<longleftrightarrow> pid_str a < pid_str b"

instance
  by standard (auto simp: less_eq_plugin_id_def less_plugin_id_def plugin_id.expand)

end

datatype plugin_id_error =
    PidEmpty
  | PidTooLong nat nat
  | PidInvalidCharacter nat rchar

definition plugin_id_char :: "rchar \<Rightarrow> bool" where
  "plugin_id_char c \<longleftrightarrow> is_ascii_alphanumeric c \<or> c = ch CHR ''-'' \<or> c = ch CHR ''_'' \<or> c = ch CHR ''.''"

definition plugin_id_new :: "rstring \<Rightarrow> (plugin_id_error, plugin_id) res" where
  "plugin_id_new value =
     (if value = [] then Inl PidEmpty
      else if str_len value > KERNEL_MAX_PLUGIN_ID_BYTES
        then Inl (PidTooLong (str_len value) KERNEL_MAX_PLUGIN_ID_BYTES)
      else case find (\<lambda>(i, c). \<not> plugin_id_char c) (char_indices value) of
        Some (i, c) \<Rightarrow> Inl (PidInvalidCharacter i c)
      | None \<Rightarrow> Inr (PluginId value))"

fun show_plugin_id_error :: "plugin_id_error \<Rightarrow> rstring" where
  "show_plugin_id_error PidEmpty = lit ''plugin id cannot be empty''"
| "show_plugin_id_error (PidTooLong l m) =
     lit ''plugin id is '' @ show_nat l @ lit '' bytes; maximum is '' @ show_nat m"
| "show_plugin_id_error (PidInvalidCharacter i c) =
     lit ''plugin id contains unsupported character '' @ quoted [c] @ lit '' at byte '' @ show_nat i"

section \<open>Launch data\<close>

record plugin_command =
  cmd_program :: rstring
  cmd_arguments :: "rstring list"
  cmd_environment :: "(rstring, rstring) btmap"
  cmd_current_dir :: "rstring option"
  cmd_clear_environment :: bool

definition command_new :: "rstring \<Rightarrow> plugin_command" where
  "command_new program =
     \<lparr>cmd_program = program, cmd_arguments = [], cmd_environment = [],
      cmd_current_dir = None, cmd_clear_environment = False\<rparr>"

definition command_arg :: "rstring \<Rightarrow> plugin_command \<Rightarrow> plugin_command" where
  "command_arg a c = c\<lparr>cmd_arguments := cmd_arguments c @ [a]\<rparr>"

definition command_args :: "rstring list \<Rightarrow> plugin_command \<Rightarrow> plugin_command" where
  "command_args as c = c\<lparr>cmd_arguments := cmd_arguments c @ as\<rparr>"

definition command_env :: "rstring \<Rightarrow> rstring \<Rightarrow> plugin_command \<Rightarrow> plugin_command" where
  "command_env k v c = c\<lparr>cmd_environment := bt_insert k v (cmd_environment c)\<rparr>"

definition command_current_dir :: "rstring \<Rightarrow> plugin_command \<Rightarrow> plugin_command" where
  "command_current_dir p c = c\<lparr>cmd_current_dir := Some p\<rparr>"

definition command_clear_environment :: "plugin_command \<Rightarrow> plugin_command" where
  "command_clear_environment c = c\<lparr>cmd_clear_environment := True\<rparr>"

text \<open>The environment the child starts with, given the host's own environment.\<close>

definition child_environment :: "(rstring, rstring) btmap \<Rightarrow> plugin_command \<Rightarrow> (rstring, rstring) btmap" where
  "child_environment inherited c =
     foldl (\<lambda>e (k, v). bt_insert k v e) (if cmd_clear_environment c then [] else inherited) (cmd_environment c)"

record plugin_spec =
  spec_id :: plugin_id
  spec_display_name :: rstring
  spec_command :: plugin_command

definition spec_new :: "plugin_id \<Rightarrow> plugin_command \<Rightarrow> plugin_spec" where
  "spec_new i c = \<lparr>spec_id = i, spec_display_name = pid_str i, spec_command = c\<rparr>"

definition spec_with_display_name :: "rstring \<Rightarrow> plugin_spec \<Rightarrow> plugin_spec" where
  "spec_with_display_name n s = (if \<not> blank n then s\<lparr>spec_display_name := n\<rparr> else s)"

section \<open>Lifecycle states\<close>

datatype plugin_failure =
    FSpawn rstring
  | FUnexpectedExit "int option"
  | FProtocol rstring
  | FMonitor rstring
  | FSupervisor rstring

fun show_plugin_failure :: "plugin_failure \<Rightarrow> rstring" where
  "show_plugin_failure (FSpawn m) = lit ''process failed to start: '' @ m"
| "show_plugin_failure (FUnexpectedExit (Some code)) =
     lit ''process exited unexpectedly with code '' @ show_int code"
| "show_plugin_failure (FUnexpectedExit None) =
     lit ''process exited unexpectedly without an exit code''"
| "show_plugin_failure (FProtocol m) = lit ''protocol failed: '' @ m"
| "show_plugin_failure (FMonitor m) = lit ''process monitor failed: '' @ m"
| "show_plugin_failure (FSupervisor m) = lit ''supervisor failed: '' @ m"

datatype plugin_state =
    Registered
  | Starting
  | Running u32
  | Stopping
  | Stopped
  | Failed plugin_failure

fun is_active :: "plugin_state \<Rightarrow> bool" where
  "is_active Starting = True"
| "is_active (Running p) = True"
| "is_active Stopping = True"
| "is_active _ = False"

fun is_failed :: "plugin_state \<Rightarrow> bool" where
  "is_failed (Failed f) = True"
| "is_failed _ = False"

fun is_terminal :: "plugin_state \<Rightarrow> bool" where
  "is_terminal Stopped = True"
| "is_terminal (Failed f) = True"
| "is_terminal _ = False"

fun show_plugin_state :: "plugin_state \<Rightarrow> rstring" where
  "show_plugin_state Registered = lit ''registered''"
| "show_plugin_state Starting = lit ''starting''"
| "show_plugin_state (Running p) = lit ''running as process '' @ show_nat (unat p)"
| "show_plugin_state Stopping = lit ''stopping''"
| "show_plugin_state Stopped = lit ''stopped''"
| "show_plugin_state (Failed f) = lit ''failed: '' @ show_plugin_failure f"

record plugin_snapshot =
  snap_id :: plugin_id
  snap_display_name :: rstring
  snap_state :: plugin_state
  snap_generation :: u64

datatype kernel_error =
    NotRunning
  | KDuplicatePlugin plugin_id
  | KUnknownPlugin plugin_id
  | PluginBusy plugin_id plugin_state
  | SupervisorThread plugin_id rstring
  | SupervisorUnavailable plugin_id

fun show_kernel_error :: "kernel_error \<Rightarrow> rstring" where
  "show_kernel_error NotRunning = lit ''the YunXi kernel is not running''"
| "show_kernel_error (KDuplicatePlugin i) =
     lit ''plugin '' @ quoted (pid_str i) @ lit '' is already registered''"
| "show_kernel_error (KUnknownPlugin i) =
     lit ''plugin '' @ quoted (pid_str i) @ lit '' is not registered''"
| "show_kernel_error (PluginBusy i s) =
     lit ''plugin '' @ quoted (pid_str i) @ lit '' cannot start while it is '' @ show_plugin_state s"
| "show_kernel_error (SupervisorThread i m) =
     lit ''failed to create supervisor for plugin '' @ quoted (pid_str i) @ lit '': '' @ m"
| "show_kernel_error (SupervisorUnavailable i) =
     lit ''plugin '' @ quoted (pid_str i) @ lit '' supervisor is unavailable''"

section \<open>The supervisor thread\<close>

record sup_event =
  ev_id :: plugin_id
  ev_generation :: u64
  ev_state :: plugin_state

datatype recv_answer = RecvStop | RecvDisconnected | RecvTimeout

datatype wait_answer = WaitExited "int option" | WaitRunning | WaitError rstring

text \<open>
  One run of \<open>supervise_process\<close>: the events it sends, whether it has returned, and whether it
  killed the child. The list holds, per loop iteration, the answer of \<open>recv_timeout\<close> and, after
  a timeout, the answer of \<open>try_wait\<close>; when the list ends the thread is still polling.
\<close>

record sup_run =
  run_events :: "sup_event list"
  run_returned :: bool
  run_killed :: bool

definition sup_event_of :: "plugin_id \<Rightarrow> u64 \<Rightarrow> plugin_state \<Rightarrow> sup_event" where
  "sup_event_of i g s = \<lparr>ev_id = i, ev_generation = g, ev_state = s\<rparr>"

fun supervise_loop :: "plugin_id \<Rightarrow> u64 \<Rightarrow> (recv_answer \<times> wait_answer) list \<Rightarrow> sup_run" where
  "supervise_loop i g [] = \<lparr>run_events = [], run_returned = False, run_killed = False\<rparr>"
| "supervise_loop i g ((RecvStop, w) # ps) =
     \<lparr>run_events = [sup_event_of i g Stopped], run_returned = True, run_killed = True\<rparr>"
| "supervise_loop i g ((RecvDisconnected, w) # ps) =
     \<lparr>run_events = [sup_event_of i g Stopped], run_returned = True, run_killed = True\<rparr>"
| "supervise_loop i g ((RecvTimeout, WaitExited code) # ps) =
     \<lparr>run_events = [sup_event_of i g (Failed (FUnexpectedExit code))], run_returned = True, run_killed = False\<rparr>"
| "supervise_loop i g ((RecvTimeout, WaitRunning) # ps) = supervise_loop i g ps"
| "supervise_loop i g ((RecvTimeout, WaitError m) # ps) =
     \<lparr>run_events = [sup_event_of i g (Failed (FMonitor m))], run_returned = True, run_killed = True\<rparr>"

definition supervise_process ::
  "(rstring, u32) res \<Rightarrow> bool \<Rightarrow> plugin_id \<Rightarrow> u64 \<Rightarrow> (recv_answer \<times> wait_answer) list \<Rightarrow> sup_run" where
  "supervise_process spawned receiver_alive i g polls =
     (case spawned of
        Inl m \<Rightarrow> \<lparr>run_events = [sup_event_of i g (Failed (FSpawn m))], run_returned = True, run_killed = False\<rparr>
      | Inr pid \<Rightarrow>
          if receiver_alive
          then (let r = supervise_loop i g polls
                in r\<lparr>run_events := sup_event_of i g (Running pid) # run_events r\<rparr>)
          else \<lparr>run_events = [], run_returned = True, run_killed = True\<rparr>)"

section \<open>The kernel\<close>

datatype kernel_state = KRunning | KShuttingDown | KStopped

fun show_kernel_state :: "kernel_state \<Rightarrow> rstring" where
  "show_kernel_state KRunning = lit ''running''"
| "show_kernel_state KShuttingDown = lit ''shutting down''"
| "show_kernel_state KStopped = lit ''stopped''"

text \<open>
  The sender and the join handle of a supervisor are both named by what it was spawned for. Joining
  a worker that \<open>is_finished\<close> is \<open>ReapWorker\<close>; \<open>JoinWorker\<close> is the join that may
  have to wait.
\<close>

type_synonym sup_handle = "plugin_id \<times> u64"

datatype sup_action =
    SpawnSupervisor sup_handle
  | SendStop sup_handle
  | DropSender sup_handle
  | ReapWorker sup_handle
  | JoinWorker sup_handle

record plugin_slot =
  slot_spec :: plugin_spec
  slot_state :: plugin_state
  slot_generation :: u64
  slot_commands :: "sup_handle option"
  slot_worker :: "sup_handle option"
  slot_forced_failure :: "plugin_failure option"

definition slot_new :: "plugin_spec \<Rightarrow> plugin_slot" where
  "slot_new spec =
     \<lparr>slot_spec = spec, slot_state = Registered, slot_generation = 0,
      slot_commands = None, slot_worker = None, slot_forced_failure = None\<rparr>"

definition slot_snapshot :: "plugin_slot \<Rightarrow> plugin_snapshot" where
  "slot_snapshot s =
     \<lparr>snap_id = spec_id (slot_spec s), snap_display_name = spec_display_name (slot_spec s),
      snap_state = slot_state s, snap_generation = slot_generation s\<rparr>"

record kernel =
  k_state :: kernel_state
  k_plugins :: "(plugin_id, plugin_slot) btmap"
  k_events :: "sup_event list"
  k_trace :: "sup_action list"

record kernel_env =
  env_spawn :: "sup_handle \<Rightarrow> rstring option"
  env_alive :: "sup_handle \<Rightarrow> bool"
  env_finished :: "sup_handle \<Rightarrow> bool"
  env_panics :: "sup_handle \<Rightarrow> bool"
  env_late :: "sup_handle \<Rightarrow> sup_event list"

definition kernel_new :: kernel where
  "kernel_new = \<lparr>k_state = KRunning, k_plugins = [], k_events = [], k_trace = []\<rparr>"

definition kernel_is_healthy :: "kernel \<Rightarrow> bool" where
  "kernel_is_healthy k \<longleftrightarrow> k_state k = KRunning"

definition log_action :: "sup_action \<Rightarrow> kernel \<Rightarrow> kernel" where
  "log_action a k = k\<lparr>k_trace := k_trace k @ [a]\<rparr>"

definition log_drop :: "sup_handle option \<Rightarrow> kernel \<Rightarrow> kernel" where
  "log_drop c k = (case c of None \<Rightarrow> k | Some h \<Rightarrow> log_action (DropSender h) k)"

definition put_slot :: "plugin_id \<Rightarrow> plugin_slot \<Rightarrow> kernel \<Rightarrow> kernel" where
  "put_slot i s k = k\<lparr>k_plugins := bt_update i (\<lambda>_. s) (k_plugins k)\<rparr>"

definition join_worker :: "(sup_handle \<Rightarrow> sup_action) \<Rightarrow> kernel_env \<Rightarrow> sup_handle \<Rightarrow> kernel \<Rightarrow> kernel" where
  "join_worker a env h k = (log_action (a h) k)\<lparr>k_events := k_events k @ env_late env h\<rparr>"

definition ensure_running :: "(kernel, kernel_error, unit) act" where
  "ensure_running = (\<lambda>k. (if k_state k = KRunning then Inr () else Inl NotRunning, k))"

definition apply_event :: "kernel \<times> plugin_snapshot list \<Rightarrow> sup_event \<Rightarrow> kernel \<times> plugin_snapshot list" where
  "apply_event kc ev = (case kc of (k, changed) \<Rightarrow>
     (case bt_get (k_plugins k) (ev_id ev) of
        None \<Rightarrow> (k, changed)
      | Some slot \<Rightarrow>
          if slot_generation slot \<noteq> ev_generation ev then (k, changed)
          else
            let st = (case slot_forced_failure slot of Some f \<Rightarrow> Failed f | None \<Rightarrow> ev_state ev);
                slot1 = slot\<lparr>slot_state := st\<rparr>;
                slot2 = (if is_terminal st then slot1\<lparr>slot_commands := None\<rparr> else slot1);
                k1 = (if is_terminal st then log_drop (slot_commands slot) k else k)
            in (put_slot (ev_id ev) slot2 k1, changed @ [slot_snapshot slot2])))"

definition reap_one :: "kernel_env \<Rightarrow> kernel \<Rightarrow> plugin_id \<Rightarrow> kernel" where
  "reap_one env k i =
     (case bt_get (k_plugins k) i of
        None \<Rightarrow> k
      | Some slot \<Rightarrow>
          (case slot_worker slot of
             None \<Rightarrow> k
           | Some h \<Rightarrow>
               let k1 = join_worker ReapWorker env h (put_slot i (slot\<lparr>slot_worker := None\<rparr>) k)
               in if env_panics env h
                  then put_slot i (slot\<lparr>slot_worker := None, slot_commands := None,
                         slot_state := Failed (FSupervisor (lit ''supervisor thread panicked''))\<rparr>)
                         (log_drop (slot_commands slot) k1)
                  else k1))"

definition worker_finished :: "kernel_env \<Rightarrow> plugin_slot \<Rightarrow> bool" where
  "worker_finished env s = (case slot_worker s of None \<Rightarrow> False | Some h \<Rightarrow> env_finished env h)"

definition reap_finished_workers :: "kernel_env \<Rightarrow> kernel \<Rightarrow> kernel" where
  "reap_finished_workers env k =
     foldl (reap_one env) k (map fst (filter (\<lambda>(i, s). worker_finished env s) (k_plugins k)))"

definition drain_events :: "kernel \<Rightarrow> kernel \<times> plugin_snapshot list" where
  "drain_events k = foldl apply_event (k\<lparr>k_events := []\<rparr>, []) (k_events k)"

definition refresh :: "kernel_env \<Rightarrow> kernel \<Rightarrow> kernel \<times> plugin_snapshot list" where
  "refresh env k = (case drain_events k of (k1, changed) \<Rightarrow> (reap_finished_workers env k1, changed))"

definition register :: "plugin_spec \<Rightarrow> (kernel, kernel_error, unit) act" where
  "register spec = act_then ensure_running (\<lambda>k.
     if bt_has (k_plugins k) (spec_id spec) then (Inl (KDuplicatePlugin (spec_id spec)), k)
     else (Inr (), k\<lparr>k_plugins := bt_insert (spec_id spec) (slot_new spec) (k_plugins k)\<rparr>))"

definition start :: "kernel_env \<Rightarrow> plugin_id \<Rightarrow> (kernel, kernel_error, unit) act" where
  "start env i = act_then ensure_running (\<lambda>k0.
     let k = fst (refresh env k0) in
     case bt_get (k_plugins k) i of
       None \<Rightarrow> (Inl (KUnknownPlugin i), k)
     | Some slot \<Rightarrow>
         if is_active (slot_state slot) then (Inl (PluginBusy i (slot_state slot)), k)
         else
           let g = sat_inc (slot_generation slot);
               slot1 = slot\<lparr>slot_commands := None, slot_forced_failure := None, slot_worker := None,
                            slot_generation := g, slot_state := Starting\<rparr>;
               k1 = put_slot i slot1 (log_drop (slot_commands slot) k);
               k2 = (case slot_worker slot of None \<Rightarrow> k1 | Some h \<Rightarrow> join_worker JoinWorker env h k1)
           in case env_spawn env (i, g) of
                Some m \<Rightarrow> (Inl (SupervisorThread i m), put_slot i (slot1\<lparr>slot_state := Failed (FSupervisor m)\<rparr>) k2)
              | None \<Rightarrow> (Inr (), log_action (SpawnSupervisor (i, g))
                   (put_slot i (slot1\<lparr>slot_commands := Some (i, g), slot_worker := Some (i, g)\<rparr>) k2)))"

definition stop :: "kernel_env \<Rightarrow> plugin_id \<Rightarrow> (kernel, kernel_error, unit) act" where
  "stop env i = act_then ensure_running (\<lambda>k0.
     let k = fst (refresh env k0) in
     case bt_get (k_plugins k) i of
       None \<Rightarrow> (Inl (KUnknownPlugin i), k)
     | Some slot \<Rightarrow>
         (if slot_state slot = Registered then (Inr (), put_slot i (slot\<lparr>slot_state := Stopped\<rparr>) k)
          else if is_active (slot_state slot) then
            let k1 = put_slot i (slot\<lparr>slot_state := Stopping\<rparr>) k in
            (case slot_commands slot of
               None \<Rightarrow> (Inl (SupervisorUnavailable i), k1)
             | Some h \<Rightarrow> (if env_alive env h then Inr () else Inl (SupervisorUnavailable i),
                          log_action (SendStop h) k1))
          else (Inr (), k)))"

definition fail :: "kernel_env \<Rightarrow> plugin_id \<Rightarrow> plugin_failure \<Rightarrow> (kernel, kernel_error, unit) act" where
  "fail env i f = act_then ensure_running (\<lambda>k0.
     let k = fst (refresh env k0) in
     case bt_get (k_plugins k) i of
       None \<Rightarrow> (Inl (KUnknownPlugin i), k)
     | Some slot \<Rightarrow>
         let k1 = (case slot_commands slot of
                     Some h \<Rightarrow> if is_active (slot_state slot) then log_action (SendStop h) k else k
                   | None \<Rightarrow> k)
         in (Inr (), put_slot i (slot\<lparr>slot_forced_failure := Some f, slot_state := Failed f\<rparr>) k1))"

definition kernel_plugin :: "plugin_id \<Rightarrow> kernel \<Rightarrow> plugin_snapshot option" where
  "kernel_plugin i k = map_option slot_snapshot (bt_get (k_plugins k) i)"

record kernel_snapshot =
  ks_state :: kernel_state
  ks_plugins :: "plugin_snapshot list"

definition kernel_snapshot_of :: "kernel \<Rightarrow> kernel_snapshot" where
  "kernel_snapshot_of k = \<lparr>ks_state = k_state k, ks_plugins = map slot_snapshot (bt_values (k_plugins k))\<rparr>"

definition running_plugin_count :: "kernel_snapshot \<Rightarrow> nat" where
  "running_plugin_count s = length (filter (\<lambda>p. case snap_state p of Running _ \<Rightarrow> True | _ \<Rightarrow> False) (ks_plugins s))"

definition failed_plugin_count :: "kernel_snapshot \<Rightarrow> nat" where
  "failed_plugin_count s = length (filter (\<lambda>p. is_failed (snap_state p)) (ks_plugins s))"

text \<open>Shutdown: ask every live supervisor to stop, join them all, settle what is left.\<close>

definition shutdown_asks :: "plugin_slot \<Rightarrow> bool" where
  "shutdown_asks s \<longleftrightarrow> is_active (slot_state s) \<or> (slot_forced_failure s \<noteq> None \<and> slot_worker s \<noteq> None)"

definition shutdown_mark :: "plugin_slot \<Rightarrow> plugin_slot" where
  "shutdown_mark s =
     (if shutdown_asks s
      then (if slot_forced_failure s = None then s\<lparr>slot_state := Stopping\<rparr> else s)
      else if slot_state s = Registered then s\<lparr>slot_state := Stopped\<rparr> else s)"

definition shutdown_sends :: "kernel \<Rightarrow> sup_action list" where
  "shutdown_sends k =
     concat (map (\<lambda>s. if shutdown_asks s then (case slot_commands s of Some h \<Rightarrow> [SendStop h] | None \<Rightarrow> []) else [])
       (bt_values (k_plugins k)))"

definition shutdown_join :: "kernel_env \<Rightarrow> kernel \<Rightarrow> plugin_id \<Rightarrow> kernel" where
  "shutdown_join env k i =
     (case bt_get (k_plugins k) i of
        None \<Rightarrow> k
      | Some slot \<Rightarrow>
          (case slot_worker slot of
             None \<Rightarrow> k
           | Some h \<Rightarrow>
               let k1 = join_worker JoinWorker env h (put_slot i (slot\<lparr>slot_worker := None\<rparr>) k)
               in if env_panics env h
                  then put_slot i (slot\<lparr>slot_worker := None, slot_state :=
                         Failed (FSupervisor (lit ''supervisor thread panicked during shutdown''))\<rparr>) k1
                  else k1))"

definition shutdown_settle :: "plugin_slot \<Rightarrow> plugin_slot" where
  "shutdown_settle s =
     (let s1 = s\<lparr>slot_commands := None\<rparr> in
      if is_active (slot_state s1)
      then s1\<lparr>slot_state := Failed (FSupervisor (lit ''supervisor stopped without a terminal state''))\<rparr>
      else s1)"

definition shutdown_drops :: "kernel \<Rightarrow> sup_action list" where
  "shutdown_drops k =
     concat (map (\<lambda>s. case slot_commands s of Some h \<Rightarrow> [DropSender h] | None \<Rightarrow> []) (bt_values (k_plugins k)))"

definition shutdown :: "kernel_env \<Rightarrow> kernel_env \<Rightarrow> kernel_env \<Rightarrow> kernel \<Rightarrow> kernel" where
  "shutdown e1 e2 e3 k0 =
     (if k_state k0 = KStopped then k0
      else
        let k1 = (fst (refresh e1 k0))\<lparr>k_state := KShuttingDown\<rparr>;
            k2 = k1\<lparr>k_plugins := bt_map (\<lambda>_. shutdown_mark) (k_plugins k1),
                    k_trace := k_trace k1 @ shutdown_sends k1\<rparr>;
            k3 = foldl (shutdown_join e2) k2 (bt_keys (k_plugins k2));
            k4 = fst (refresh e3 k3);
            k5 = k4\<lparr>k_plugins := bt_map (\<lambda>_. shutdown_settle) (k_plugins k4),
                    k_trace := k_trace k4 @ shutdown_drops k4\<rparr>
        in k5\<lparr>k_state := KStopped\<rparr>)"

text \<open>The operations as labels, each carrying the environment's answers, and their runs.\<close>

datatype kernel_op =
    OpRegister plugin_spec
  | OpStart kernel_env plugin_id
  | OpStop kernel_env plugin_id
  | OpFail kernel_env plugin_id plugin_failure
  | OpRefresh kernel_env
  | OpShutdown kernel_env kernel_env kernel_env
  | OpDeliver sup_event

fun kernel_exec :: "kernel \<Rightarrow> kernel_op \<Rightarrow> kernel" where
  "kernel_exec k (OpRegister spec) = snd (register spec k)"
| "kernel_exec k (OpStart env i) = snd (start env i k)"
| "kernel_exec k (OpStop env i) = snd (stop env i k)"
| "kernel_exec k (OpFail env i f) = snd (fail env i f k)"
| "kernel_exec k (OpRefresh env) = fst (refresh env k)"
| "kernel_exec k (OpShutdown e1 e2 e3) = shutdown e1 e2 e3 k"
| "kernel_exec k (OpDeliver ev) = k\<lparr>k_events := k_events k @ [ev]\<rparr>"

end
