(* ===== verification/Plugin_Kernel_Props.thy ===== *)
theory Plugin_Kernel_Props
  imports Plugin_Kernel
begin

text \<open>
  What the process kernel guarantees: events of an older generation change nothing; each plugin's
  slot evolves from its own events only; a failure the Host forced stays until the next start; a
  join that may wait is only ever issued after its supervisor has been told to stop; shutdown
  settles every slot. The bridge is \<open>refresh_slot\<close>: the registry-wide loop of \<open>refresh\<close>
  is, plugin by plugin, the fold of \<open>slot_event\<close> over that plugin's own events.
\<close>

section \<open>One plugin's view of a refresh\<close>

definition slot_event :: "plugin_slot \<Rightarrow> sup_event \<Rightarrow> plugin_slot" where
  "slot_event s ev =
     (if slot_generation s \<noteq> ev_generation ev then s
      else let st = (case slot_forced_failure s of Some f \<Rightarrow> Failed f | None \<Rightarrow> ev_state ev)
           in s\<lparr>slot_state := st, slot_commands := (if is_terminal st then None else slot_commands s)\<rparr>)"

definition slot_reap :: "kernel_env \<Rightarrow> plugin_slot \<Rightarrow> plugin_slot" where
  "slot_reap env s =
     (case slot_worker s of
        None \<Rightarrow> s
      | Some h \<Rightarrow> if env_panics env h
          then s\<lparr>slot_worker := None, slot_commands := None,
                 slot_state := Failed (FSupervisor (lit ''supervisor thread panicked''))\<rparr>
          else s\<lparr>slot_worker := None\<rparr>)"

definition slot_refresh :: "kernel_env \<Rightarrow> sup_event list \<Rightarrow> plugin_slot \<Rightarrow> plugin_slot" where
  "slot_refresh env es s =
     (let s1 = foldl slot_event s es in if worker_finished env s1 then slot_reap env s1 else s1)"

definition events_for :: "plugin_id \<Rightarrow> u64 \<Rightarrow> sup_event list \<Rightarrow> sup_event list" where
  "events_for i g es = filter (\<lambda>e. ev_id e = i \<and> ev_generation e = g) es"

named_theorems slot_defs

lemmas [slot_defs] = put_slot_def log_action_def log_drop_def join_worker_def

section \<open>Lemmas on the primitives\<close>

lemma ensure_running_eq [simp]:
  "act_then ensure_running f k = (if k_state k = KRunning then f k else (Inl NotRunning, k))"
  by (simp add: act_then_def act_bind_def ensure_running_def)

lemma log_simps [simp]:
  "k_plugins (log_action a k) = k_plugins k" "k_state (log_action a k) = k_state k"
  "k_events (log_action a k) = k_events k" "k_trace (log_action a k) = k_trace k @ [a]"
  "k_plugins (log_drop c k) = k_plugins k" "k_state (log_drop c k) = k_state k"
  "k_events (log_drop c k) = k_events k"
  "k_trace (log_drop c k) = k_trace k @ (case c of None \<Rightarrow> [] | Some h \<Rightarrow> [DropSender h])"
  by (auto simp: log_action_def log_drop_def split: option.splits)

lemma put_slot_simps [simp]:
  "k_plugins (put_slot i s k) = bt_update i (\<lambda>_. s) (k_plugins k)"
  "k_state (put_slot i s k) = k_state k" "k_events (put_slot i s k) = k_events k"
  "k_trace (put_slot i s k) = k_trace k"
  by (simp_all add: put_slot_def)

lemma join_simps [simp]:
  "k_plugins (join_worker a env h k) = k_plugins k" "k_state (join_worker a env h k) = k_state k"
  "k_events (join_worker a env h k) = k_events k @ env_late env h"
  "k_trace (join_worker a env h k) = k_trace k @ [a h]"
  by (simp_all add: join_worker_def)

lemma slot_event_frame [simp]:
  "slot_generation (slot_event s e) = slot_generation s" "slot_worker (slot_event s e) = slot_worker s"
  "slot_forced_failure (slot_event s e) = slot_forced_failure s" "slot_spec (slot_event s e) = slot_spec s"
  by (simp_all add: slot_event_def Let_def)

lemma slot_events_frame [simp]:
  "slot_generation (foldl slot_event s es) = slot_generation s"
  "slot_worker (foldl slot_event s es) = slot_worker s"
  "slot_forced_failure (foldl slot_event s es) = slot_forced_failure s"
  "slot_spec (foldl slot_event s es) = slot_spec s"
  by (induction es arbitrary: s) simp_all

lemma slot_reap_frame [simp]:
  "slot_generation (slot_reap env s) = slot_generation s"
  "slot_worker (slot_reap env s) = None"
  "slot_forced_failure (slot_reap env s) = slot_forced_failure s"
  "slot_spec (slot_reap env s) = slot_spec s"
  by (simp_all add: slot_reap_def split: option.splits)

lemma slot_refresh_frame [simp]:
  "slot_generation (slot_refresh env es s) = slot_generation s"
  "slot_forced_failure (slot_refresh env es s) = slot_forced_failure s"
  "slot_spec (slot_refresh env es s) = slot_spec s"
  by (simp_all add: slot_refresh_def Let_def)

lemma slot_event_stale: "ev_generation e \<noteq> slot_generation s \<Longrightarrow> slot_event s e = s"
  by (simp add: slot_event_def)

lemma slot_events_filter:
  "foldl slot_event s es = foldl slot_event s (filter (\<lambda>e. ev_generation e = slot_generation s) es)"
  by (induction es arbitrary: s) (auto simp: slot_event_stale)

lemma slot_reap_idem [simp]: "slot_reap env (slot_reap env s) = slot_reap env s"
  by (auto simp: slot_reap_def split: option.splits)

lemma apply_event_get:
  "bt_get (k_plugins (fst (apply_event (k, c) e))) i =
     map_option (\<lambda>s. if ev_id e = i then slot_event s e else s) (bt_get (k_plugins k) i)"
  by (cases "bt_get (k_plugins k) i")
     (auto simp: apply_event_def slot_event_def Let_def split: option.splits)

lemma apply_event_frame [simp]:
  "k_state (fst (apply_event kc e)) = k_state (fst kc)"
  "k_events (fst (apply_event kc e)) = k_events (fst kc)"
  "map fst (k_plugins (fst (apply_event kc e))) = map fst (k_plugins (fst kc))"
  by (cases kc; auto simp: apply_event_def Let_def split: option.splits)+

lemma apply_events_frame [simp]:
  "k_state (fst (foldl apply_event kc es)) = k_state (fst kc)"
  "k_events (fst (foldl apply_event kc es)) = k_events (fst kc)"
  "map fst (k_plugins (fst (foldl apply_event kc es))) = map fst (k_plugins (fst kc))"
  by (induction es arbitrary: kc) simp_all

lemma apply_events_get:
  "bt_get (k_plugins (fst (foldl apply_event kc es))) i =
     map_option (\<lambda>s. foldl slot_event s (filter (\<lambda>e. ev_id e = i) es)) (bt_get (k_plugins (fst kc)) i)"
proof (induction es arbitrary: kc)
  case Nil
  then show ?case by (simp add: option.map_ident)
next
  case (Cons e es)
  obtain k c where "kc = (k, c)" by (cases kc)
  with Cons show ?case
    by (cases "bt_get (k_plugins k) i") (auto simp: apply_event_get)
qed

lemma reap_one_get:
  "bt_get (k_plugins (reap_one env k j)) i =
     map_option (\<lambda>s. if i = j then slot_reap env s else s) (bt_get (k_plugins k) i)"
  by (cases "bt_get (k_plugins k) i")
     (auto simp: reap_one_def slot_reap_def Let_def split: option.splits)

lemma reap_one_frame [simp]:
  "k_state (reap_one env k j) = k_state k"
  "map fst (k_plugins (reap_one env k j)) = map fst (k_plugins k)"
  by (auto simp: reap_one_def Let_def split: option.splits)

lemma reap_all_frame [simp]:
  "k_state (foldl (reap_one env) k js) = k_state k"
  "map fst (k_plugins (foldl (reap_one env) k js)) = map fst (k_plugins k)"
  by (induction js arbitrary: k) simp_all

lemma reap_all_get:
  "bt_get (k_plugins (foldl (reap_one env) k js)) i =
     map_option (\<lambda>s. if i \<in> set js then slot_reap env s else s) (bt_get (k_plugins k) i)"
proof (induction js arbitrary: k)
  case Nil
  then show ?case by (simp add: option.map_ident)
next
  case (Cons j js)
  then show ?case by (cases "bt_get (k_plugins k) i") (auto simp: reap_one_get)
qed

lemma finished_keys:
  "bt_wf m \<Longrightarrow> bt_get m i = Some s \<Longrightarrow>
     i \<in> set (map fst (filter (\<lambda>(i, s). worker_finished env s) m)) \<longleftrightarrow> worker_finished env s"
  by (auto simp: bt_get_in_set image_iff dest: bt_wf_distinct eq_key_imp_eq_value)

lemma bt_wf_keys: "map fst m = map fst m' \<Longrightarrow> bt_wf m \<longleftrightarrow> bt_wf m'"
  by (simp add: bt_wf_def)

lemma refresh_frame [simp]:
  "k_state (fst (refresh env k)) = k_state k"
  "map fst (k_plugins (fst (refresh env k))) = map fst (k_plugins k)"
  by (simp_all add: refresh_def drain_events_def reap_finished_workers_def split: prod.split)
     (metis (no_types, lifting) apply_events_frame(1,3) fst_conv kernel.select_convs(1,2) kernel.surjective
        kernel.update_convs(3))+

lemma refresh_wf [simp]: "bt_wf (k_plugins (fst (refresh env k))) \<longleftrightarrow> bt_wf (k_plugins k)"
  by (rule bt_wf_keys) simp

text \<open>The whole of \<open>refresh\<close>, seen from one plugin.\<close>

lemma refresh_slot:
  assumes "bt_wf (k_plugins k)"
  shows "bt_get (k_plugins (fst (refresh env k))) i =
     map_option (\<lambda>s. slot_refresh env (events_for i (slot_generation s) (k_events k)) s) (bt_get (k_plugins k) i)"
proof -
  let ?k1 = "fst (drain_events k)"
  have keys: "map fst (k_plugins ?k1) = map fst (k_plugins k)" by (simp add: drain_events_def)
  have wf: "bt_wf (k_plugins ?k1)" using assms bt_wf_keys [OF keys] by simp
  have drained: "bt_get (k_plugins ?k1) i =
      map_option (\<lambda>s. foldl slot_event s (filter (\<lambda>e. ev_id e = i) (k_events k))) (bt_get (k_plugins k) i)"
    by (simp add: drain_events_def apply_events_get)
  have same: "foldl slot_event s (filter (\<lambda>e. ev_id e = i) (k_events k)) =
      foldl slot_event s (events_for i (slot_generation s) (k_events k))" for s
    by (subst slot_events_filter) (simp add: events_for_def conj_commute)
  have "fst (refresh env k) = reap_finished_workers env ?k1"
    by (simp add: refresh_def split: prod.split)
  then show ?thesis
    using finished_keys [OF wf, of i] drained
    by (cases "bt_get (k_plugins k) i")
       (simp_all add: reap_finished_workers_def reap_all_get same slot_refresh_def Let_def)
qed

section \<open>Signals and joins\<close>

text \<open>
  Which supervisors have been told to stop since they were spawned: by a \<open>Stop\<close> command, or by
  dropping the command sender (the supervisor then sees \<open>Disconnected\<close>). \<open>joins_ok\<close> says
  that each join that may wait is of such a supervisor.
\<close>

fun signal :: "sup_handle list \<Rightarrow> sup_action \<Rightarrow> sup_handle list" where
  "signal hs (SpawnSupervisor h) = removeAll h hs"
| "signal hs (SendStop h) = h # hs"
| "signal hs (DropSender h) = h # hs"
| "signal hs (ReapWorker h) = hs"
| "signal hs (JoinWorker h) = hs"

abbreviation signalled :: "sup_action list \<Rightarrow> sup_handle list" where
  "signalled as \<equiv> foldl signal [] as"

fun joins_ok :: "sup_handle list \<Rightarrow> sup_action list \<Rightarrow> bool" where
  "joins_ok hs [] = True"
| "joins_ok hs (a # as) = ((case a of JoinWorker h \<Rightarrow> h \<in> set hs | _ \<Rightarrow> True) \<and> joins_ok (signal hs a) as)"

text \<open>The states a supervisor reports; \<open>from_supervisor\<close> is proved of \<open>supervise_process\<close> below.\<close>

definition from_supervisor :: "sup_event \<Rightarrow> bool" where
  "from_supervisor e \<longleftrightarrow> is_terminal (ev_state e) \<or> (\<exists>p. ev_state e = Running p)"

definition env_ok :: "kernel_env \<Rightarrow> bool" where
  "env_ok env \<longleftrightarrow> (\<forall>h. \<forall>e \<in> set (env_late env h). from_supervisor e)"

fun op_ok :: "kernel_op \<Rightarrow> bool" where
  "op_ok (OpRegister spec) = True"
| "op_ok (OpStart env i) = env_ok env"
| "op_ok (OpStop env i) = env_ok env"
| "op_ok (OpFail env i f) = env_ok env"
| "op_ok (OpRefresh env) = env_ok env"
| "op_ok (OpShutdown e1 e2 e3) = (env_ok e1 \<and> env_ok e2 \<and> env_ok e3)"
| "op_ok (OpDeliver ev) = from_supervisor ev"

inductive kernel_step :: "kernel \<Rightarrow> kernel \<Rightarrow> bool" where
  kernel_stepI: "op_ok op \<Longrightarrow> kernel_step k (kernel_exec k op)"

inductive_cases kernel_stepE: "kernel_step k k'"

definition slot_inv :: "sup_handle list \<Rightarrow> plugin_id \<Rightarrow> plugin_slot \<Rightarrow> bool" where
  "slot_inv sig i s \<longleftrightarrow>
     spec_id (slot_spec s) = i \<and>
     (\<forall>h. slot_commands s = Some h \<longrightarrow> h = (i, slot_generation s) \<and> (is_active (slot_state s) \<or> slot_forced_failure s \<noteq> None)) \<and>
     (\<forall>h. slot_worker s = Some h \<longrightarrow> h = (i, slot_generation s) \<and> (slot_commands s = Some h \<or> h \<in> set sig)) \<and>
     (slot_forced_failure s \<noteq> None \<longrightarrow> is_failed (slot_state s))"

definition kernel_inv :: "kernel \<Rightarrow> bool" where
  "kernel_inv k \<longleftrightarrow>
     bt_wf (k_plugins k) \<and>
     (\<forall>i s. bt_get (k_plugins k) i = Some s \<longrightarrow> slot_inv (signalled (k_trace k)) i s) \<and>
     (\<forall>e \<in> set (k_events k). from_supervisor e) \<and>
     joins_ok [] (k_trace k)"

lemma joins_ok_append [simp]: "joins_ok hs (as @ bs) \<longleftrightarrow> joins_ok hs as \<and> joins_ok (foldl signal hs as) bs"
  by (induction as arbitrary: hs) auto

lemma joins_ok_split: "joins_ok hs (pre @ JoinWorker h # post) \<Longrightarrow> h \<in> set (foldl signal hs pre)"
  by simp

lemma failed_not_active [simp]: "is_failed s \<Longrightarrow> \<not> is_active s"
  by (cases s) auto

lemma failed_terminal [simp]: "is_failed s \<Longrightarrow> is_terminal s"
  by (cases s) auto

lemma kernel_invD:
  assumes "kernel_inv k"
  shows "bt_wf (k_plugins k)" "joins_ok [] (k_trace k)" "e \<in> set (k_events k) \<Longrightarrow> from_supervisor e"
    "bt_get (k_plugins k) i = Some s \<Longrightarrow> slot_inv (signalled (k_trace k)) i s"
  using assms by (auto simp: kernel_inv_def)

lemma signal_keeps1: "a \<noteq> SpawnSupervisor h \<Longrightarrow> h \<in> set hs \<Longrightarrow> h \<in> set (signal hs a)"
  by (cases a) auto

lemma signal_keeps:
  "SpawnSupervisor h \<notin> set as \<Longrightarrow> h \<in> set hs \<Longrightarrow> h \<in> set (foldl signal hs as)"
  by (induction as arbitrary: hs) (fastforce simp: signal_keeps1)+

text \<open>One slot replaced, a few actions logged: what every operation does to the invariant.\<close>

lemma kernel_inv_put:
  assumes k: "kernel_inv k" and plugins: "k_plugins k' = bt_update i (\<lambda>_. s') (k_plugins k)"
    and trace: "k_trace k' = k_trace k @ as" and own: "\<And>h. SpawnSupervisor h \<in> set as \<Longrightarrow> fst h = i"
    and joins: "joins_ok (signalled (k_trace k)) as" and slot: "slot_inv (signalled (k_trace k')) i s'"
    and events: "\<And>e. e \<in> set (k_events k') \<Longrightarrow> from_supervisor e"
  shows "kernel_inv k'"
proof -
  have "slot_inv (signalled (k_trace k')) j s" if get: "bt_get (k_plugins k') j = Some s" for j s
  proof (cases "j = i")
    case True
    with get slot plugins show ?thesis by auto
  next
    case False
    with get plugins have inv: "slot_inv (signalled (k_trace k)) j s" using kernel_invD(4) [OF k] by simp
    have "h \<in> set (signalled (k_trace k'))" if "h \<in> set (signalled (k_trace k))" "fst h = j" for h
    proof -
      have "SpawnSupervisor h \<notin> set as" using own that(2) False by blast
      then show ?thesis using that(1) trace by (simp add: signal_keeps)
    qed
    then show ?thesis using inv unfolding slot_inv_def by fastforce
  qed
  then show ?thesis
    using kernel_invD [OF k] plugins trace joins events by (simp add: kernel_inv_def)
qed

text \<open>The log of dropping a sender, and what it does to the signals.\<close>

abbreviation drops_of :: "plugin_slot \<Rightarrow> sup_action list" where
  "drops_of s \<equiv> (case slot_commands s of None \<Rightarrow> [] | Some h \<Rightarrow> [DropSender h])"

lemma slot_inv_event:
  assumes "slot_inv sig i s" "from_supervisor e" "slot_generation s = ev_generation e"
  shows "slot_inv (if is_terminal (slot_state (slot_event s e)) then foldl signal sig (drops_of s) else sig) i (slot_event s e)"
  using assms
  by (cases "slot_forced_failure s"; cases "slot_commands s"; cases "slot_worker s")
     (auto simp: slot_event_def slot_inv_def from_supervisor_def Let_def)

lemma kernel_inv_apply_event:
  assumes k: "kernel_inv k" and e: "from_supervisor e"
  shows "kernel_inv (fst (apply_event (k, c) e))"
proof (cases "bt_get (k_plugins k) (ev_id e)")
  case (Some s)
  show ?thesis
  proof (cases "slot_generation s = ev_generation e")
    case True
    let ?as = "if is_terminal (slot_state (slot_event s e)) then drops_of s else []"
    let ?k' = "fst (apply_event (k, c) e)"
    have inv: "slot_inv (signalled (k_trace k)) (ev_id e) s" using kernel_invD(4) [OF k Some] .
    have k': "k_plugins ?k' = bt_update (ev_id e) (\<lambda>_. slot_event s e) (k_plugins k)"
        "k_trace ?k' = k_trace k @ ?as" "k_events ?k' = k_events k"
      using Some True by (simp_all add: apply_event_def slot_event_def Let_def)
    show ?thesis
    proof (rule kernel_inv_put [OF k k'(1,2)])
      show "slot_inv (signalled (k_trace ?k')) (ev_id e) (slot_event s e)"
        using slot_inv_event [OF inv e True] unfolding k'(2) by (simp split: if_splits)
      show "joins_ok (signalled (k_trace k)) ?as" by (cases "slot_commands s") auto
      show "SpawnSupervisor h \<in> set ?as \<Longrightarrow> fst h = ev_id e" for h
        by (cases "slot_commands s"; cases "is_terminal (slot_state (slot_event s e))") auto
      show "d \<in> set (k_events ?k') \<Longrightarrow> from_supervisor d" for d
        using k'(3) kernel_invD(3) [OF k] by simp
    qed
  qed (use k Some in \<open>simp add: apply_event_def\<close>)
qed (use k in \<open>simp add: apply_event_def\<close>)

lemma kernel_inv_events:
  "kernel_inv k \<Longrightarrow> (\<And>e. e \<in> set es \<Longrightarrow> from_supervisor e) \<Longrightarrow> kernel_inv (k\<lparr>k_events := es\<rparr>)"
  by (simp add: kernel_inv_def)

lemma kernel_inv_drain:
  assumes "kernel_inv k"
  shows "kernel_inv (fst (drain_events k))"
proof -
  have "kernel_inv (fst kc) \<Longrightarrow> (\<And>e. e \<in> set es \<Longrightarrow> from_supervisor e) \<Longrightarrow>
      kernel_inv (fst (foldl apply_event kc es))" for kc es
  proof (induction es arbitrary: kc)
    case (Cons e es)
    then show ?case by (cases kc) (simp add: kernel_inv_apply_event)
  qed simp
  then show ?thesis
    unfolding drain_events_def using assms kernel_invD(3) [OF assms] kernel_inv_events [OF assms, of "[]"] by simp
qed

lemma kernel_inv_join:
  assumes k: "kernel_inv k" and get: "bt_get (k_plugins k) i = Some s" and w: "slot_worker s = Some h"
    and env: "env_ok env" and as: "as = [] \<or> as = drops_of s"
    and k': "k_plugins k' = bt_update i (\<lambda>_. s') (k_plugins k)"
      "k_trace k' = k_trace k @ a h # as" "k_events k' = k_events k @ env_late env h"
    and a: "a = ReapWorker \<or> a = JoinWorker \<and> h \<in> set (signalled (k_trace k))"
    and slot: "slot_inv (signalled (k_trace k')) i s'"
  shows "kernel_inv k'"
proof (rule kernel_inv_put [OF k k'(1,2)])
  show "joins_ok (signalled (k_trace k)) (a h # as)" using as a by (auto split: option.splits)
  show "SpawnSupervisor j \<in> set (a h # as) \<Longrightarrow> fst j = i" for j using as a by (auto split: option.splits)
  show "d \<in> set (k_events k') \<Longrightarrow> from_supervisor d" for d
    using k'(3) kernel_invD(3) [OF k] env by (cases h) (auto simp: env_ok_def)
qed (rule slot)

lemma slot_inv_no_worker:
  "slot_inv sig i s \<Longrightarrow> slot_inv sig' i (s\<lparr>slot_worker := None\<rparr>)"
  by (simp add: slot_inv_def)

lemma slot_inv_panicked:
  "slot_inv sig i s \<Longrightarrow> slot_inv sig' i (s\<lparr>slot_worker := None, slot_commands := None, slot_state := Failed f\<rparr>)"
  by (simp add: slot_inv_def)

lemma kernel_inv_reap_one:
  assumes k: "kernel_inv k" and env: "env_ok env"
  shows "kernel_inv (reap_one env k i)"
proof (cases "bt_get (k_plugins k) i")
  case (Some s)
  note inv = kernel_invD(4) [OF k Some]
  show ?thesis
  proof (cases "slot_worker s")
    case (Some h)
    note w = \<open>bt_get (k_plugins k) i = Some s\<close> Some
    show ?thesis
    proof (cases "env_panics env h")
      case True
      then show ?thesis
        by (intro kernel_inv_join [OF k w env, where a = ReapWorker and as = "drops_of s"
              and s' = "slot_reap env s"])
           (use w inv in \<open>auto simp: reap_one_def slot_reap_def Let_def bt_update_def slot_inv_panicked\<close>)
    next
      case False
      then show ?thesis
        by (intro kernel_inv_join [OF k w env, where a = ReapWorker and as = "[]"
              and s' = "s\<lparr>slot_worker := None\<rparr>"])
           (use w inv in \<open>auto simp: reap_one_def Let_def intro: slot_inv_no_worker\<close>)
    qed
  qed (use k Some in \<open>simp add: reap_one_def\<close>)
qed (use k in \<open>simp add: reap_one_def\<close>)

lemma kernel_inv_refresh:
  assumes "kernel_inv k" "env_ok env"
  shows "kernel_inv (fst (refresh env k))"
proof -
  have "kernel_inv k' \<Longrightarrow> kernel_inv (foldl (reap_one env) k' js)" for k' js
    using assms(2) by (induction js arbitrary: k') (simp_all add: kernel_inv_reap_one)
  then show ?thesis
    using kernel_inv_drain [OF assms(1)]
    by (simp add: refresh_def reap_finished_workers_def split: prod.split) (metis fst_conv)
qed

section \<open>Every operation keeps the invariant\<close>

lemma kernel_inv_register: "kernel_inv k \<Longrightarrow> kernel_inv (snd (register spec k))"
  by (auto simp: register_def kernel_inv_def slot_new_def slot_inv_def)

lemma kernel_inv_quiet:
  "kernel_inv k \<Longrightarrow> bt_get (k_plugins k) i = Some s \<Longrightarrow> slot_inv (signalled (k_trace k)) i s' \<Longrightarrow>
     kernel_inv (put_slot i s' k)"
  by (rule kernel_inv_put [where as = "[]"]) (auto dest: kernel_invD(3))

lemma kernel_inv_send:
  "kernel_inv k \<Longrightarrow> bt_get (k_plugins k) i = Some s \<Longrightarrow> slot_inv (signalled (k_trace k)) i s' \<Longrightarrow>
     kernel_inv (log_action (SendStop h) (put_slot i s' k))"
  by (rule kernel_inv_put [where as = "[SendStop h]" and i = i and s' = s'])
     (auto simp: slot_inv_def dest: kernel_invD(3))

lemma kernel_inv_stop:
  assumes "kernel_inv k" "env_ok env"
  shows "kernel_inv (snd (stop env i k))"
proof -
  let ?k = "fst (refresh env k)"
  have k: "kernel_inv ?k" using kernel_inv_refresh [OF assms] .
  show ?thesis
  proof (cases "bt_get (k_plugins ?k) i")
    case (Some s)
    note get = Some and inv = kernel_invD(4) [OF k Some]
    show ?thesis
      using inv kernel_inv_quiet [OF k get] kernel_inv_send [OF k get] k get assms(1)
      by (cases "slot_commands s"; cases "slot_state s")
         (auto simp: stop_def Let_def slot_inv_def)
  qed (use k assms(1) in \<open>simp add: stop_def\<close>)
qed

lemma kernel_inv_fail:
  assumes "kernel_inv k" "env_ok env"
  shows "kernel_inv (snd (fail env i f k))"
proof -
  let ?k = "fst (refresh env k)"
  have k: "kernel_inv ?k" using kernel_inv_refresh [OF assms] .
  show ?thesis
  proof (cases "bt_get (k_plugins ?k) i")
    case (Some s)
    note get = Some
    let ?s = "s\<lparr>slot_forced_failure := Some f, slot_state := Failed f\<rparr>"
    have inv: "slot_inv (signalled (k_trace ?k)) i ?s"
      using kernel_invD(4) [OF k get] by (simp add: slot_inv_def)
    have swap: "put_slot i ?s (log_action a ?k) = log_action a (put_slot i ?s ?k)" for a
      by (simp add: put_slot_def log_action_def)
    show ?thesis
      using kernel_inv_quiet [OF k get inv] kernel_inv_send [OF k get inv] get assms(1)
      by (auto simp: fail_def Let_def swap split: option.split)
  qed (use k assms(1) in \<open>simp add: fail_def\<close>)
qed

text \<open>
  \<open>start\<close> drops the old sender before it joins the old worker, so a worker whose sender was
  still there has been signalled when the join starts.
\<close>

lemma kernel_inv_start:
  assumes "kernel_inv k0" "env_ok env"
  shows "kernel_inv (snd (start env i k0))"
proof -
  let ?k = "fst (refresh env k0)"
  have k: "kernel_inv ?k" using kernel_inv_refresh [OF assms] .
  show ?thesis
  proof (cases "bt_get (k_plugins ?k) i")
    case (Some s)
    note get = Some and inv = kernel_invD(4) [OF k Some]
    let ?g = "sat_inc (slot_generation s)"
    let ?joins = "case slot_worker s of None \<Rightarrow> [] | Some h \<Rightarrow> [JoinWorker h]"
    let ?spawn = "case env_spawn env (i, ?g) of None \<Rightarrow> [SpawnSupervisor (i, ?g)] | Some m \<Rightarrow> []"
    let ?s = "case env_spawn env (i, ?g) of
        None \<Rightarrow> s\<lparr>slot_commands := Some (i, ?g), slot_forced_failure := None, slot_worker := Some (i, ?g),
                  slot_generation := ?g, slot_state := Starting\<rparr>
      | Some m \<Rightarrow> s\<lparr>slot_commands := None, slot_forced_failure := None, slot_worker := None,
                  slot_generation := ?g, slot_state := Failed (FSupervisor m)\<rparr>"
    let ?k' = "snd (start env i k0)"
    show ?thesis
    proof (cases "k_state k0 = KRunning \<and> \<not> is_active (slot_state s)")
      case True
      have k': "k_plugins ?k' = bt_update i (\<lambda>_. ?s) (k_plugins ?k)"
          "k_trace ?k' = k_trace ?k @ drops_of s @ ?joins @ ?spawn"
          "k_events ?k' = k_events ?k @ (case slot_worker s of None \<Rightarrow> [] | Some h \<Rightarrow> env_late env h)"
        using True get
        by (auto simp: start_def Let_def bt_update_def comp_def case_prod_beta split: option.split)
      show ?thesis
      proof (rule kernel_inv_put [OF k k'(1,2)])
        show "slot_inv (signalled (k_trace ?k')) i ?s"
          using inv by (simp add: slot_inv_def split: option.split)
        show "joins_ok (signalled (k_trace ?k)) (drops_of s @ ?joins @ ?spawn)"
          using inv by (auto simp: slot_inv_def split: option.split)
        show "SpawnSupervisor h \<in> set (drops_of s @ ?joins @ ?spawn) \<Longrightarrow> fst h = i" for h
          by (cases "slot_commands s"; cases "slot_worker s"; cases "env_spawn env (i, ?g)") auto
        have "d \<in> set (k_events ?k) \<Longrightarrow> from_supervisor d" for d using kernel_invD(3) [OF k] .
        then show "d \<in> set (k_events ?k') \<Longrightarrow> from_supervisor d" for d
          using assms(2) unfolding k'(3) by (cases "slot_worker s") (auto simp: env_ok_def)
      qed
    qed (use k get assms(1) in \<open>auto simp: start_def Let_def\<close>)
  qed (use k assms(1) in \<open>simp add: start_def\<close>)
qed

section \<open>Shutdown\<close>

text \<open>
  While shutting down, a supervisor that panicked leaves its sender in a failed slot until the
  final pass, so the invariant is weaker there; in exchange every worker left has been signalled.
\<close>

definition slot_halting :: "sup_handle list \<Rightarrow> plugin_id \<Rightarrow> plugin_slot \<Rightarrow> bool" where
  "slot_halting sig i s \<longleftrightarrow>
     spec_id (slot_spec s) = i \<and> (\<forall>h \<in> set_option (slot_worker s). h \<in> set sig) \<and>
     (slot_forced_failure s \<noteq> None \<longrightarrow> is_failed (slot_state s))"

definition kernel_halting :: "kernel \<Rightarrow> bool" where
  "kernel_halting k \<longleftrightarrow>
     bt_wf (k_plugins k) \<and>
     (\<forall>i s. bt_get (k_plugins k) i = Some s \<longrightarrow> slot_halting (signalled (k_trace k)) i s) \<and>
     (\<forall>e \<in> set (k_events k). from_supervisor e) \<and>
     joins_ok [] (k_trace k)"

definition soft_action :: "sup_action \<Rightarrow> bool" where
  "soft_action a \<longleftrightarrow> (\<exists>h. a = SendStop h \<or> a = DropSender h \<or> a = ReapWorker h)"

lemma soft_simps [simp]:
  "soft_action (SendStop h)" "soft_action (DropSender h)" "soft_action (ReapWorker h)"
  "\<not> soft_action (SpawnSupervisor h)" "\<not> soft_action (JoinWorker h)"
  by (auto simp: soft_action_def)

lemma soft_joins_ok: "\<forall>a \<in> set as. soft_action a \<Longrightarrow> joins_ok hs as"
  by (induction as arbitrary: hs) (auto split: sup_action.split)

lemma soft_grow: "\<forall>a \<in> set as. soft_action a \<Longrightarrow> h \<in> set hs \<Longrightarrow> h \<in> set (foldl signal hs as)"
  by (rule signal_keeps) auto

lemma soft_added:
  "\<forall>a \<in> set as. soft_action a \<Longrightarrow> SendStop h \<in> set as \<or> DropSender h \<in> set as \<Longrightarrow> h \<in> set (foldl signal hs as)"
proof (induction as arbitrary: hs)
  case (Cons a as)
  show ?case
  proof (cases "a = SendStop h \<or> a = DropSender h")
    case True
    then have "h \<in> set (signal hs a)" by auto
    with Cons.prems(1) show ?thesis by (simp add: soft_grow)
  qed (use Cons in auto)
qed simp

lemma sends_soft: "\<forall>a \<in> set (shutdown_sends k). soft_action a"
  by (auto simp: shutdown_sends_def split: if_splits option.splits)

lemma drops_soft: "\<forall>a \<in> set (shutdown_drops k). soft_action a"
  by (auto simp: shutdown_drops_def split: option.splits)

lemma sends_member:
  assumes "bt_get (k_plugins k) i = Some s" "shutdown_asks s" "slot_commands s = Some h"
  shows "SendStop h \<in> set (shutdown_sends k)"
proof -
  have "s \<in> set (bt_values (k_plugins k))" using map_of_SomeD [OF assms(1)] by (force simp: bt_values_def)
  then show ?thesis using assms(2,3) unfolding shutdown_sends_def by (cases h) (auto intro!: bexI [of _ s])
qed

definition shutdown_marked :: "kernel \<Rightarrow> kernel" where
  "shutdown_marked k = k\<lparr>k_plugins := bt_map (\<lambda>_. shutdown_mark) (k_plugins k), k_trace := k_trace k @ shutdown_sends k\<rparr>"

definition shutdown_settled :: "kernel \<Rightarrow> kernel" where
  "shutdown_settled k = k\<lparr>k_plugins := bt_map (\<lambda>_. shutdown_settle) (k_plugins k), k_trace := k_trace k @ shutdown_drops k\<rparr>"

lemma mark_frame [simp]:
  "slot_worker (shutdown_mark s) = slot_worker s" "slot_spec (shutdown_mark s) = slot_spec s"
  "slot_forced_failure (shutdown_mark s) = slot_forced_failure s"
  by (simp_all add: shutdown_mark_def)

lemma mark_failed: "is_failed (slot_state s) \<Longrightarrow> slot_forced_failure s \<noteq> None \<Longrightarrow> is_failed (slot_state (shutdown_mark s))"
  by (cases "slot_state s") (auto simp: shutdown_mark_def)

lemma slot_inv_unsignalled:
  assumes "slot_inv sig i s" "slot_worker s = Some h" "h \<notin> set sig"
  shows "slot_commands s = Some h" "is_active (slot_state s) \<or> slot_forced_failure s \<noteq> None"
  using assms unfolding slot_inv_def by metis+

lemma halting_marked:
  assumes k: "kernel_inv k"
  shows "kernel_halting (shutdown_marked k)"
proof -
  let ?k = "shutdown_marked k"
  have tr: "k_trace ?k = k_trace k @ shutdown_sends k" by (simp add: shutdown_marked_def)
  have sig: "h \<in> set (signalled (k_trace ?k))"
    if get: "bt_get (k_plugins k) i = Some s" and w: "slot_worker s = Some h" for i s h
  proof (cases "h \<in> set (signalled (k_trace k))")
    case False
    note live = slot_inv_unsignalled [OF kernel_invD(4) [OF k get] w False]
    with w have "SendStop h \<in> set (shutdown_sends k)" by (intro sends_member [OF get]) (auto simp: shutdown_asks_def)
    then show ?thesis unfolding tr foldl_append using soft_added [OF sends_soft] by blast
  qed (unfold tr foldl_append, rule soft_grow [OF sends_soft])
  have "slot_halting (signalled (k_trace ?k)) i (shutdown_mark s)" if get: "bt_get (k_plugins k) i = Some s" for i s
    using kernel_invD(4) [OF k get] sig [OF get] mark_failed [of s] unfolding slot_halting_def slot_inv_def
    by (metis mark_frame elem_set)
  then show ?thesis
    using kernel_invD [OF k] soft_joins_ok [OF sends_soft]
    by (auto simp: kernel_halting_def shutdown_marked_def)
qed

lemma join_frame:
  "map fst (k_plugins (shutdown_join env k i)) = map fst (k_plugins k)"
  "k_state (shutdown_join env k i) = k_state k"
  by (auto simp: shutdown_join_def Let_def split: option.split)

lemma joins_frame [simp]:
  "map fst (k_plugins (foldl (shutdown_join env) k js)) = map fst (k_plugins k)"
  "k_state (foldl (shutdown_join env) k js) = k_state k"
  by (induction js arbitrary: k) (simp_all add: join_frame)

lemma join_get:
  "bt_get (k_plugins (shutdown_join env k j)) i = (case bt_get (k_plugins k) i of
     None \<Rightarrow> None
   | Some s \<Rightarrow> Some (if i = j then (case slot_worker s of None \<Rightarrow> s
       | Some h \<Rightarrow> if env_panics env h
           then s\<lparr>slot_worker := None, slot_state := Failed (FSupervisor (lit ''supervisor thread panicked during shutdown''))\<rparr>
           else s\<lparr>slot_worker := None\<rparr>) else s))"
  by (cases "bt_get (k_plugins k) i")
     (auto simp: shutdown_join_def Let_def split: option.splits)

lemma halting_join:
  assumes k: "kernel_halting k" and env: "env_ok env"
  shows "kernel_halting (shutdown_join env k i)"
proof -
  let ?k' = "shutdown_join env k i"
  have wf: "bt_wf (k_plugins ?k')" using k bt_wf_keys [OF join_frame(1)] by (auto simp: kernel_halting_def)
  have sig: "signalled (k_trace ?k') = signalled (k_trace k)"
    by (auto simp: shutdown_join_def Let_def split: option.split)
  have joins: "joins_ok [] (k_trace ?k')"
    using k by (auto simp: shutdown_join_def Let_def kernel_halting_def slot_halting_def split: option.split)
  have events: "\<forall>e \<in> set (k_events ?k'). from_supervisor e"
    using k env by (auto simp: shutdown_join_def Let_def kernel_halting_def env_ok_def split: option.split)
  have "slot_halting (signalled (k_trace ?k')) j s" if "bt_get (k_plugins ?k') j = Some s" for j s
    using that k unfolding sig
    by (cases "bt_get (k_plugins k) j")
       (auto simp: join_get kernel_halting_def slot_halting_def split: if_splits option.splits)
  with wf joins events show ?thesis by (simp add: kernel_halting_def)
qed

lemma join_worker_none:
  "bt_get (k_plugins (foldl (shutdown_join env) k js)) i = Some s \<Longrightarrow> i \<in> set js \<Longrightarrow> slot_worker s = None"
proof (induction js arbitrary: k)
  case (Cons j js)
  have keeps: "bt_get (k_plugins (foldl (shutdown_join env) k' js)) i = Some s \<Longrightarrow>
      (\<forall>s'. bt_get (k_plugins k') i = Some s' \<longrightarrow> slot_worker s' = None) \<Longrightarrow> slot_worker s = None" for k' js
  proof (induction js arbitrary: k')
    case (Cons j js)
    then show ?case
      by (auto simp: join_get intro!: Cons.IH [of "shutdown_join env k' j"] split: option.splits if_splits)
  qed auto
  show ?case
  proof (cases "i = j")
    case True
    with Cons.prems show ?thesis
      by (auto intro!: keeps [of "shutdown_join env k j" js] simp: join_get split: option.splits if_splits)
  qed (use Cons in auto)
qed simp

lemma halting_joins: "kernel_halting k \<Longrightarrow> env_ok env \<Longrightarrow> kernel_halting (foldl (shutdown_join env) k js)"
  by (induction js arbitrary: k) (simp_all add: halting_join)

text \<open>What \<open>refresh\<close> logs is soft.\<close>

definition soft_ext :: "kernel \<Rightarrow> kernel \<Rightarrow> bool" where
  "soft_ext k k' \<longleftrightarrow> (\<exists>as. k_trace k' = k_trace k @ as \<and> (\<forall>a \<in> set as. soft_action a))"

lemma soft_ext_refl [simp]: "k_trace k' = k_trace k \<Longrightarrow> soft_ext k k'"
  by (simp add: soft_ext_def)

lemma soft_ext_trans: "soft_ext k k' \<Longrightarrow> soft_ext k' k'' \<Longrightarrow> soft_ext k k''"
  unfolding soft_ext_def by (metis append.assoc Un_iff set_append)

lemma soft_ext_apply_event: "soft_ext (fst kc) (fst (apply_event kc e))"
  by (cases kc) (auto simp: soft_ext_def apply_event_def Let_def split: option.split)

lemma soft_ext_reap_one: "soft_ext k (reap_one env k j)"
  by (auto simp: soft_ext_def reap_one_def Let_def split: option.split)

lemma soft_ext_refresh: "soft_ext k (fst (refresh env k))"
proof -
  have ev: "soft_ext (fst kc) (fst (foldl apply_event kc es))" for kc es
  proof (induction es arbitrary: kc)
    case (Cons e es)
    show ?case using soft_ext_trans [OF soft_ext_apply_event Cons.IH] by simp
  qed simp
  have reap: "soft_ext k (foldl (reap_one env) k js)" for k js
  proof (induction js arbitrary: k)
    case (Cons j js)
    show ?case using soft_ext_trans [OF soft_ext_reap_one Cons.IH] by simp
  qed simp
  have "soft_ext k (fst (drain_events k))"
    using ev [of "(k\<lparr>k_events := []\<rparr>, [])" "k_events k"] by (simp add: drain_events_def soft_ext_def)
  moreover have "fst (refresh env k) = reap_finished_workers env (fst (drain_events k))"
    by (simp add: refresh_def split: prod.split)
  ultimately show ?thesis
    unfolding reap_finished_workers_def using soft_ext_trans [OF _ reap] by simp
qed

lemma refresh_events:
  "env_ok env \<Longrightarrow> e \<in> set (k_events (fst (refresh env k))) \<Longrightarrow> from_supervisor e"
proof -
  assume env: "env_ok env" and e: "e \<in> set (k_events (fst (refresh env k)))"
  have reap: "(\<forall>e \<in> set (k_events k). from_supervisor e) \<Longrightarrow>
      \<forall>e \<in> set (k_events (foldl (reap_one env) k js)). from_supervisor e" for k js
  proof (induction js arbitrary: k)
    case (Cons j js)
    have "\<forall>e \<in> set (k_events (reap_one env k j)). from_supervisor e"
      using Cons.prems env by (auto simp: reap_one_def Let_def env_ok_def split: option.split)
    then show ?case using Cons.IH by simp
  qed simp
  have "k_events (fst (drain_events k)) = []" by (simp add: drain_events_def)
  then have "\<forall>e \<in> set (k_events (reap_finished_workers env (fst (drain_events k)))). from_supervisor e"
    unfolding reap_finished_workers_def by (intro reap) simp
  moreover have "fst (refresh env k) = reap_finished_workers env (fst (drain_events k))"
    by (simp add: refresh_def split: prod.split)
  ultimately show ?thesis using e by simp
qed

lemma kernel_inv_state [simp]: "kernel_inv (k\<lparr>k_state := s\<rparr>) \<longleftrightarrow> kernel_inv k"
  by (simp add: kernel_inv_def)

lemma shutdown_unfold:
  "k_state k \<noteq> KStopped \<Longrightarrow> shutdown e1 e2 e3 k =
     (let k1 = shutdown_marked ((fst (refresh e1 k))\<lparr>k_state := KShuttingDown\<rparr>);
          k2 = foldl (shutdown_join e2) k1 (bt_keys (k_plugins k1))
      in (shutdown_settled (fst (refresh e3 k2)))\<lparr>k_state := KStopped\<rparr>)"
  by (simp add: shutdown_def shutdown_marked_def shutdown_settled_def Let_def)

text \<open>Before the last refresh every worker has been joined; the last pass then settles the slots.\<close>

definition kernel_joined :: "kernel \<Rightarrow> bool" where
  "kernel_joined k \<longleftrightarrow> kernel_halting k \<and> (\<forall>i s. bt_get (k_plugins k) i = Some s \<longrightarrow> slot_worker s = None)"

lemma joined_joins:
  assumes "kernel_halting k" "env_ok env"
  shows "kernel_joined (foldl (shutdown_join env) k (bt_keys (k_plugins k)))"
proof -
  let ?k = "foldl (shutdown_join env) k (bt_keys (k_plugins k))"
  have "slot_worker s = None" if get: "bt_get (k_plugins ?k) i = Some s" for i s
  proof (rule join_worker_none [OF get])
    have "i \<in> set (map fst (k_plugins ?k))" using get by (metis domI dom_map_of_conv_image_fst list.set_map)
    then show "i \<in> set (bt_keys (k_plugins k))" unfolding joins_frame bt_keys_def .
  qed
  with halting_joins [OF assms] show ?thesis by (simp add: kernel_joined_def)
qed

lemma slot_events_forced:
  "slot_forced_failure s \<noteq> None \<Longrightarrow> is_failed (slot_state s) \<Longrightarrow> is_failed (slot_state (foldl slot_event s es))"
proof (induction es arbitrary: s)
  case (Cons e es)
  then show ?case by (auto simp: slot_event_def Let_def)
qed simp

lemma slot_refresh_no_worker:
  "slot_worker s = None \<Longrightarrow> slot_refresh env es s = foldl slot_event s es"
  by (simp add: slot_refresh_def worker_finished_def)

lemma joined_refresh:
  assumes k: "kernel_joined k" and env: "env_ok env"
  shows "kernel_joined (fst (refresh env k))"
proof -
  let ?k = "fst (refresh env k)"
  have wf: "bt_wf (k_plugins k)" using k by (simp add: kernel_joined_def kernel_halting_def)
  have slots: "slot_halting sig i s \<and> slot_worker s = None" if "bt_get (k_plugins ?k) i = Some s" for i s sig
    using that k unfolding refresh_slot [OF wf]
    by (auto simp: kernel_joined_def kernel_halting_def slot_halting_def slot_refresh_no_worker slot_events_forced)
  obtain as where as: "k_trace ?k = k_trace k @ as" "\<forall>a \<in> set as. soft_action a"
    using soft_ext_refresh unfolding soft_ext_def by blast
  then have "joins_ok [] (k_trace ?k)"
    using k soft_joins_ok by (auto simp: kernel_joined_def kernel_halting_def)
  then show ?thesis
    using slots wf refresh_events [OF env] by (auto simp: kernel_joined_def kernel_halting_def)
qed

lemma settle_inactive [simp]: "\<not> is_active (slot_state (shutdown_settle s))"
  by (simp add: shutdown_settle_def Let_def)

lemma settle_frame [simp]:
  "slot_commands (shutdown_settle s) = None" "slot_worker (shutdown_settle s) = slot_worker s"
  "slot_forced_failure (shutdown_settle s) = slot_forced_failure s" "slot_spec (shutdown_settle s) = slot_spec s"
  "slot_generation (shutdown_settle s) = slot_generation s"
  by (simp_all add: shutdown_settle_def Let_def)

lemma settle_failed [simp]: "is_failed (slot_state s) \<Longrightarrow> shutdown_settle s = s\<lparr>slot_commands := None\<rparr>"
  by (simp add: shutdown_settle_def Let_def)

lemma settled_inv:
  assumes "kernel_joined k"
  shows "kernel_inv (shutdown_settled k)"
proof -
  have "slot_inv sig i (shutdown_settle s)" if "bt_get (k_plugins k) i = Some s" for i s sig
    using assms that by (auto simp: kernel_joined_def kernel_halting_def slot_halting_def slot_inv_def)
  then show ?thesis
    using assms soft_joins_ok [OF drops_soft]
    by (auto simp: kernel_inv_def kernel_joined_def kernel_halting_def shutdown_settled_def)
qed

lemma shutdown_joined:
  assumes "kernel_inv k" "env_ok e1" "env_ok e2" "env_ok e3" "k_state k \<noteq> KStopped"
  shows "\<exists>k'. kernel_joined k' \<and> shutdown e1 e2 e3 k = (shutdown_settled k')\<lparr>k_state := KStopped\<rparr>"
proof -
  let ?k1 = "shutdown_marked ((fst (refresh e1 k))\<lparr>k_state := KShuttingDown\<rparr>)"
  let ?k2 = "foldl (shutdown_join e2) ?k1 (bt_keys (k_plugins ?k1))"
  have "kernel_halting ?k1"
    using kernel_inv_refresh [OF assms(1,2)] by (intro halting_marked) simp
  then have "kernel_joined (fst (refresh e3 ?k2))"
    using assms(3,4) by (intro joined_refresh joined_joins)
  then show ?thesis using assms(5) by (auto simp: shutdown_unfold Let_def)
qed

lemma kernel_inv_shutdown:
  "kernel_inv k \<Longrightarrow> env_ok e1 \<Longrightarrow> env_ok e2 \<Longrightarrow> env_ok e3 \<Longrightarrow> kernel_inv (shutdown e1 e2 e3 k)"
  using shutdown_joined [of k e1 e2 e3] settled_inv by (cases "k_state k = KStopped") (auto simp: shutdown_def)

lemma kernel_inv_exec: "kernel_inv k \<Longrightarrow> op_ok op \<Longrightarrow> kernel_inv (kernel_exec k op)"
  by (cases op) (auto simp: kernel_inv_register kernel_inv_start kernel_inv_stop kernel_inv_fail
      kernel_inv_refresh kernel_inv_shutdown intro!: kernel_inv_events dest: kernel_invD(3))

interpretation process_kernel: component "\<lambda>k. k = kernel_new" kernel_step kernel_inv
proof unfold_locales
  show "kernel_inv k" if "k = kernel_new" for k using that by (simp add: kernel_new_def kernel_inv_def)
  show "kernel_inv k'" if "kernel_inv k" "kernel_step k k'" for k k'
    using that by (auto elim!: kernel_stepE intro: kernel_inv_exec)
qed

end
