(* ===== verification/Plugin_Kernel_Claims.thy ===== *)
theory Plugin_Kernel_Claims
  imports Plugin_Kernel_Props
begin

text \<open>
  The properties of the process kernel, each over the model's own operations, with the run that
  shows its hypotheses can hold.
\<close>

section \<open>Runs\<close>

definition kernel_run :: "kernel_op list \<Rightarrow> kernel" where
  "kernel_run ops = foldl kernel_exec kernel_new ops"

lemma exec_reach:
  "reach (\<lambda>k. k = kernel_new) kernel_step k \<Longrightarrow> \<forall>op \<in> set ops. op_ok op \<Longrightarrow>
     reach (\<lambda>k. k = kernel_new) kernel_step (foldl kernel_exec k ops)"
  by (induction ops arbitrary: k) (auto intro: reach_step kernel_stepI)

lemma run_inv: "\<forall>op \<in> set ops. op_ok op \<Longrightarrow> kernel_inv (kernel_run ops)"
  unfolding kernel_run_def by (intro process_kernel.reach_inv exec_reach) (auto intro: reach_start)


definition quiet_env :: kernel_env where
  "quiet_env = \<lparr>env_spawn = (\<lambda>h. None), env_alive = (\<lambda>h. True), env_finished = (\<lambda>h. False),
     env_panics = (\<lambda>h. False), env_late = (\<lambda>h. [])\<rparr>"

definition demo_id :: plugin_id where
  "demo_id = PluginId (lit ''demo'')"

definition demo_spec :: plugin_spec where
  "demo_spec = spec_new demo_id (command_new (lit ''demo.exe''))"

lemma quiet_ok [simp]: "env_ok quiet_env"
  by (simp add: env_ok_def quiet_env_def)

section \<open>Joins\<close>

text \<open>C15: the kernel never blocks on a supervisor it has not told to stop. In every run of the
  kernel's operations, whatever its threads, channels and processes answer, each join that may wait
  (in \<open>start\<close> and in \<open>shutdown\<close>) is of a supervisor that was sent \<open>Stop\<close>, or whose
  command sender was dropped, after it was spawned and before the join.\<close>

theorem kernel_joins_signalled:
  assumes "\<forall>op \<in> set ops. op_ok op"
    and "k_trace (kernel_run ops) = pre @ JoinWorker h # post"
  shows "h \<in> set (foldl signal [] pre)"
  using kernel_invD(2) [OF run_inv [OF assms(1)]] unfolding assms(2) by (rule joins_ok_split)

lemma demo_trace:
  "k_trace (kernel_run [OpRegister demo_spec, OpStart quiet_env demo_id,
       OpFail quiet_env demo_id (FProtocol []), OpStart quiet_env demo_id]) =
     [SpawnSupervisor (demo_id, 1), SendStop (demo_id, 1), DropSender (demo_id, 1)] @
     JoinWorker (demo_id, 1) # [SpawnSupervisor (demo_id, 2)]"
  by (simp add: kernel_run_def kernel_new_def register_def start_def fail_def refresh_def drain_events_def
      reap_finished_workers_def worker_finished_def quiet_env_def demo_spec_def spec_new_def slot_new_def
      bt_has_def bt_update_def put_slot_def log_action_def log_drop_def join_worker_def sat_inc_def
      Let_def)

theorem kernel_joins_signalled_witness:
  "(demo_id, 1) \<in> set (foldl signal [] [SpawnSupervisor (demo_id, 1), SendStop (demo_id, 1), DropSender (demo_id, 1)])"
  by (rule kernel_joins_signalled [OF _ demo_trace]) simp

section \<open>Forced failures\<close>








section \<open>Isolation\<close>

text \<open>What its events make of a slot, read off the last of them.\<close>

lemma slot_event_state:
  "ev_generation e = slot_generation s \<Longrightarrow> slot_state (slot_event s e) =
     (case slot_forced_failure s of Some f \<Rightarrow> Failed f | None \<Rightarrow> ev_state e)"
  by (simp add: slot_event_def Let_def)

lemma slot_event_commands:
  "ev_generation e = slot_generation s \<Longrightarrow> slot_commands (slot_event s e) =
     (if slot_forced_failure s \<noteq> None \<or> is_terminal (ev_state e) then None else slot_commands s)"
  by (cases "slot_forced_failure s") (simp_all add: slot_event_def Let_def)

lemma slot_events_state:
  "\<forall>e \<in> set es. ev_generation e = slot_generation s \<Longrightarrow> slot_state (foldl slot_event s es) =
     (if es = [] then slot_state s
      else (case slot_forced_failure s of Some f \<Rightarrow> Failed f | None \<Rightarrow> ev_state (last es)))"
  by (induction es rule: rev_induct) (simp_all add: slot_event_state split: option.split)

lemma slot_events_commands:
  "\<forall>e \<in> set es. ev_generation e = slot_generation s \<Longrightarrow> slot_commands (foldl slot_event s es) =
     (if \<exists>e \<in> set es. slot_forced_failure s \<noteq> None \<or> is_terminal (ev_state e) then None else slot_commands s)"
  by (induction es rule: rev_induct) (auto simp: slot_event_commands)

text \<open>C17: a refresh changes a plugin only through that plugin's own supervisor of the current
  generation, and only as that supervisor says. Whatever else is queued (events of other plugins, of
  older generations, of plugins that do not exist), the plugin keeps its specification, generation and
  forced failure; it keeps its state when its supervisor has reported nothing and otherwise takes the
  last state reported, or the forced failure; it loses its command sender exactly when one of those
  states is terminal; and it loses its worker only when that thread has finished, failing if the thread
  panicked. A plugin without events of its own and with no finished worker is left exactly as it was.\<close>

theorem refresh_isolated:
  assumes "\<forall>op \<in> set ops. op_ok op" and "bt_get (k_plugins (kernel_run ops)) i = Some s"
    and "own = events_for i (slot_generation s) es"
    and "state = (if own = [] then slot_state s
        else (case slot_forced_failure s of Some f \<Rightarrow> Failed f | None \<Rightarrow> ev_state (last own)))"
    and "commands = (if \<exists>e \<in> set own. slot_forced_failure s \<noteq> None \<or> is_terminal (ev_state e)
        then None else slot_commands s)"
  shows "\<exists>s'. bt_get (k_plugins (fst (refresh env ((kernel_run ops)\<lparr>k_events := es\<rparr>)))) i = Some s' \<and>
    slot_spec s' = slot_spec s \<and> slot_generation s' = slot_generation s \<and>
    slot_forced_failure s' = slot_forced_failure s \<and>
    (case slot_worker s of
       None \<Rightarrow> slot_state s' = state \<and> slot_commands s' = commands \<and> slot_worker s' = None
     | Some w \<Rightarrow>
         if \<not> env_finished env w then slot_state s' = state \<and> slot_commands s' = commands \<and> slot_worker s' = Some w
         else if \<not> env_panics env w then slot_state s' = state \<and> slot_commands s' = commands \<and> slot_worker s' = None
         else slot_state s' = Failed (FSupervisor (lit ''supervisor thread panicked'')) \<and>
              slot_commands s' = None \<and> slot_worker s' = None) \<and>
    (own = [] \<and> \<not> worker_finished env s \<longrightarrow> s' = s)"
proof -
  let ?s1 = "foldl slot_event s own"
  have gen: "\<forall>e \<in> set own. ev_generation e = slot_generation s" using assms(3) by (simp add: events_for_def)
  then have "slot_state ?s1 = state" "slot_commands ?s1 = commands"
    by (simp_all only: slot_events_state slot_events_commands assms(4,5))
  moreover have "bt_get (k_plugins (fst (refresh env ((kernel_run ops)\<lparr>k_events := es\<rparr>)))) i = Some (slot_refresh env own s)"
    using kernel_invD(1) [OF run_inv [OF assms(1)]] assms(2,3) by (simp add: refresh_slot)
  ultimately show ?thesis
    by (auto simp: slot_refresh_def slot_reap_def worker_finished_def Let_def split: option.split)
qed

theorem refresh_isolated_witness:
  "\<exists>s'. bt_get (k_plugins (fst (refresh quiet_env ((kernel_run [OpRegister demo_spec])\<lparr>k_events := [sup_event_of demo_id 5 Stopped]\<rparr>)))) demo_id
     = Some s' \<and> s' = slot_new demo_spec"
proof -
  have "bt_get (k_plugins (kernel_run [OpRegister demo_spec])) demo_id = Some (slot_new demo_spec)"
    by (simp add: kernel_run_def kernel_new_def register_def demo_spec_def spec_new_def bt_has_def)
  moreover have "events_for demo_id (slot_generation (slot_new demo_spec)) [sup_event_of demo_id 5 Stopped] = []"
    "\<not> worker_finished quiet_env (slot_new demo_spec)"
    by (simp_all add: events_for_def sup_event_of_def slot_new_def worker_finished_def)
  ultimately show ?thesis
    using refresh_isolated [of "[OpRegister demo_spec]" demo_id "slot_new demo_spec" "[]"
        "[sup_event_of demo_id 5 Stopped]" _ _ quiet_env] by simp
qed

section \<open>Starting and supervising\<close>

text \<open>What \<open>start\<close> does to a plugin that is known and not active once the queued events
  are in. It takes the next generation and loses its forced failure; then either it is
  \<open>Starting\<close> with a supervisor of its own, named by that generation, or, when the thread cannot
  be created, it is failed with no supervisor and the call reports the reason. No other plugin's slot
  differs from what the refresh made it.\<close>

theorem start_effect:
  assumes "k_state k = KRunning" and "bt_get (k_plugins (fst (refresh env k))) i = Some s"
    and "\<not> is_active (slot_state s)" and "start env i k = (r, k')"
  shows "(\<forall>j. j \<noteq> i \<longrightarrow> bt_get (k_plugins k') j = bt_get (k_plugins (fst (refresh env k))) j) \<and>
    (\<exists>s'. bt_get (k_plugins k') i = Some s' \<and> slot_spec s' = slot_spec s \<and>
       slot_generation s' = sat_inc (slot_generation s) \<and> slot_forced_failure s' = None \<and>
       (case env_spawn env (i, sat_inc (slot_generation s)) of
          None \<Rightarrow> r = Inr () \<and> slot_state s' = Starting \<and>
            slot_commands s' = Some (i, slot_generation s') \<and> slot_worker s' = Some (i, slot_generation s')
        | Some m \<Rightarrow> r = Inl (SupervisorThread i m) \<and> slot_state s' = Failed (FSupervisor m) \<and>
            slot_commands s' = None \<and> slot_worker s' = None))"
  using assms by (auto simp: start_def Let_def split: option.splits)

theorem start_effect_witness:
  "\<exists>s'. bt_get (k_plugins (snd (start quiet_env demo_id (kernel_run [OpRegister demo_spec])))) demo_id = Some s' \<and>
     slot_generation s' = sat_inc 0"
  using start_effect [of "kernel_run [OpRegister demo_spec]" quiet_env demo_id "slot_new demo_spec"
      "fst (start quiet_env demo_id (kernel_run [OpRegister demo_spec]))"
      "snd (start quiet_env demo_id (kernel_run [OpRegister demo_spec]))"]
  by (simp add: kernel_run_def kernel_new_def register_def demo_spec_def spec_new_def bt_has_def refresh_def
      drain_events_def reap_finished_workers_def worker_finished_def slot_new_def) blast

text \<open>The shape of a supervisor's report. Whatever its polls answer, a supervisor sends at most
  \<open>Running\<close> followed by one terminal state, all under the plugin and generation it was spawned
  for; the terminal state is sent only when the thread returns, as its last act; and when it returns
  with the child neither exited by itself nor never started, the child has been killed.\<close>

theorem supervise_process_shape:
  "let r = supervise_process spawned alive i g polls in
     (\<exists>first last. run_events r = first @ last \<and> length first \<le> 1 \<and> length last \<le> 1 \<and>
        (\<forall>e \<in> set first. \<exists>p. spawned = Inr p \<and> ev_state e = Running p) \<and>
        (\<forall>e \<in> set last. is_terminal (ev_state e)) \<and>
        (last \<noteq> [] \<longrightarrow> run_returned r) \<and>
        (run_returned r \<longrightarrow> last \<noteq> [] \<or> \<not> alive) \<and>
        (run_returned r \<and> \<not> run_killed r \<longrightarrow>
           (\<exists>e \<in> set last. (\<exists>c. ev_state e = Failed (FUnexpectedExit c)) \<or> (\<exists>m. spawned = Inl m)))) \<and>
     (\<forall>e \<in> set (run_events r). ev_id e = i \<and> ev_generation e = g \<and> from_supervisor e)"
proof -
  have loop: "let r = supervise_loop i g polls in length (run_events r) \<le> 1 \<and>
      (\<forall>e \<in> set (run_events r). is_terminal (ev_state e) \<and> ev_id e = i \<and> ev_generation e = g) \<and>
      (run_returned r \<longleftrightarrow> run_events r \<noteq> []) \<and>
      (run_returned r \<and> \<not> run_killed r \<longrightarrow> (\<exists>e \<in> set (run_events r). \<exists>c. ev_state e = Failed (FUnexpectedExit c)))"
    by (induction i g polls rule: supervise_loop.induct) (auto simp: sup_event_of_def Let_def)
  show ?thesis
  proof (cases spawned)
    case (Inl m)
    then show ?thesis
      by (auto simp: supervise_process_def sup_event_of_def from_supervisor_def Let_def
          intro!: exI [of _ "[]"] exI [of _ "[_]"])
  next
    case (Inr p)
    show ?thesis
    proof (cases alive)
      case True
      let ?r = "supervise_loop i g polls"
      have "run_events (supervise_process spawned alive i g polls) = [sup_event_of i g (Running p)] @ run_events ?r"
        by (simp add: Inr True supervise_process_def Let_def)
      then show ?thesis
        using loop unfolding Let_def
        by (intro conjI exI [of _ "[sup_event_of i g (Running p)]"] exI [of _ "run_events ?r"])
           (auto simp: Inr True supervise_process_def Let_def sup_event_of_def from_supervisor_def)
    next
      case False
      then show ?thesis by (simp add: Inr supervise_process_def)
    qed
  qed
qed

theorem supervise_process_shape_witness:
  "map ev_state (run_events (supervise_process (Inr 7) True demo_id 1 [(RecvTimeout, WaitRunning), (RecvStop, WaitRunning)]))
     = [Running 7, Stopped] \<and>
   list_all (\<lambda>e. ev_id e = demo_id) (run_events
     (supervise_process (Inr 7) True demo_id 1 [(RecvTimeout, WaitRunning), (RecvStop, WaitRunning)]))"
  using supervise_process_shape [of "Inr 7" True demo_id 1 "[(RecvTimeout, WaitRunning), (RecvStop, WaitRunning)]"]
  by (simp add: supervise_process_def sup_event_of_def Let_def list_all_iff)

section \<open>Shutting down\<close>

lemma shutdown_keys: "map fst (k_plugins (shutdown e1 e2 e3 k)) = map fst (k_plugins k)"
  by (cases "k_state k = KStopped")
     (simp_all add: shutdown_unfold Let_def shutdown_settled_def shutdown_marked_def, simp add: shutdown_def)

text \<open>shutdown leaves nothing behind. From any running kernel, whatever the threads answer,
  \<open>shutdown\<close> returns a stopped kernel with the same plugins, none of which is active or still has
  a command sender or a worker; every later operation is refused, and shutting down again changes
  nothing.\<close>

theorem shutdown_settles:
  assumes "\<forall>op \<in> set ops. op_ok op" and "env_ok e1" and "env_ok e2" and "env_ok e3"
    and "k_state (kernel_run ops) \<noteq> KStopped" and "k = shutdown e1 e2 e3 (kernel_run ops)"
  shows "k_state k = KStopped \<and> bt_keys (k_plugins k) = bt_keys (k_plugins (kernel_run ops)) \<and>
    (\<forall>s \<in> set (bt_values (k_plugins k)).
       \<not> is_active (slot_state s) \<and> slot_commands s = None \<and> slot_worker s = None) \<and>
    (\<forall>spec env i f. register spec k = (Inl NotRunning, k) \<and> start env i k = (Inl NotRunning, k) \<and>
       stop env i k = (Inl NotRunning, k) \<and> fail env i f k = (Inl NotRunning, k)) \<and>
    shutdown e1 e2 e3 k = k"
proof -
  obtain k' where k': "kernel_joined k'" "k = (shutdown_settled k')\<lparr>k_state := KStopped\<rparr>"
    using shutdown_joined [OF run_inv [OF assms(1)] assms(2-5)] assms(6) by blast
  have state: "k_state k = KStopped" using k'(2) by simp
  have "slot_worker s = None" if "(i, s) \<in> set (k_plugins k')" for i s
    using k'(1) that by (auto simp: kernel_joined_def kernel_halting_def simp flip: bt_get_in_set)
  then have "\<forall>s \<in> set (bt_values (k_plugins k)). \<not> is_active (slot_state s) \<and> slot_commands s = None \<and> slot_worker s = None"
    using k'(2) by (auto simp: shutdown_settled_def bt_values_def bt_map_def)
  moreover have "bt_keys (k_plugins k) = bt_keys (k_plugins (kernel_run ops))"
    unfolding bt_keys_def assms(6) by (rule shutdown_keys)
  ultimately show ?thesis
    using state by (simp add: register_def start_def stop_def fail_def) (simp add: shutdown_def)
qed

theorem shutdown_settles_witness:
  "k_state (shutdown quiet_env quiet_env quiet_env (kernel_run [OpRegister demo_spec])) = KStopped"
  using shutdown_settles [of "[OpRegister demo_spec]" quiet_env quiet_env quiet_env
      "shutdown quiet_env quiet_env quiet_env (kernel_run [OpRegister demo_spec])"]
  by (simp add: kernel_run_def kernel_new_def register_def demo_spec_def spec_new_def bt_has_def)

section \<open>Plugin identity\<close>

lemma plugin_id_char_ascii: "plugin_id_char c \<Longrightarrow> c < 128"
  by (auto simp: plugin_id_char_def ascii_classes ch_def)

text \<open>Exactly the names of 1 to 128 characters, all of them ASCII letters, digits, hyphens,
  underscores or dots, are plugin ids, and the id is the name itself; a name over the byte limit is
  refused for its length before its characters are looked at.\<close>

theorem plugin_id_new_accepts:
  "(\<exists>i. plugin_id_new s = Inr i) = (1 \<le> length s \<and> length s \<le> 128 \<and> (\<forall>c \<in> set s. plugin_id_char c)) \<and>
   (\<forall>i. plugin_id_new s = Inr i \<longrightarrow> pid_str i = s) \<and>
   (128 < str_len s \<longrightarrow> plugin_id_new s = Inl (PidTooLong (str_len s) 128))"
proof (cases "find (\<lambda>(i, c). \<not> plugin_id_char c) (char_indices s)")
  case None
  then have "\<forall>c \<in> set s. plugin_id_char c" unfolding find_chars_none .
  moreover from this have "str_len s = length s" using plugin_id_char_ascii by (intro ascii_len) blast
  ultimately show ?thesis
    using None by (auto simp: plugin_id_new_def KERNEL_MAX_PLUGIN_ID_BYTES_def Suc_le_eq)
next
  case (Some ic)
  then have bad: "\<not> (\<forall>c \<in> set s. plugin_id_char c)" using find_chars_none [of plugin_id_char s] by auto
  then have "s \<noteq> []" by auto
  with bad Some show ?thesis
    by (auto simp: plugin_id_new_def KERNEL_MAX_PLUGIN_ID_BYTES_def split: prod.split)
qed

theorem plugin_id_new_accepts_witness:
  "pid_str (PluginId (lit ''demo'')) = lit ''demo''"
proof -
  have "plugin_id_new (lit ''demo'') = Inr (PluginId (lit ''demo''))" by code_simp
  then show ?thesis using plugin_id_new_accepts [of "lit ''demo''"] by blast
qed

end
