(* ===== verification/Retry_Control.thy ===== *)
theory Retry_Control
  imports Rust_Std
begin

text \<open>
  The retry policy of supervised plugin hosts, \<open>yunxi-plugin-host/src/retry.rs\<close>: a generation
  fence and a bounded restart budget for one enable cycle. The locale \<open>failure_budget\<close> is what
  the process host relies on: a failure is only consumed for the accepted generation, at most once,
  and every consumed failure spends from a finite budget that only an explicit restart refills.
\<close>

section \<open>Policy and controller\<close>

definition MAX_AUTOMATIC_RESTARTS :: u8 where
  "MAX_AUTOMATIC_RESTARTS = 3"

record retry_policy =
  rp_max :: u8

definition retry_policy_new :: "u8 \<Rightarrow> retry_policy" where
  "retry_policy_new n = \<lparr>rp_max = min n MAX_AUTOMATIC_RESTARTS\<rparr>"

definition retry_policy_default :: retry_policy where
  "retry_policy_default = retry_policy_new MAX_AUTOMATIC_RESTARTS"

datatype retry_action = Restart u8 | Disable

fun is_restart :: "retry_action \<Rightarrow> bool" where
  "is_restart (Restart n) = True"
| "is_restart Disable = False"

fun attempt_of :: "retry_action \<Rightarrow> u8 option" where
  "attempt_of (Restart n) = Some n"
| "attempt_of Disable = None"

record retry_snapshot =
  rs_enabled :: bool
  rs_generation :: "u64 option"
  rs_automatic_restarts :: u8
  rs_max_automatic_restarts :: u8

definition exhausted :: "retry_snapshot \<Rightarrow> bool" where
  "exhausted s \<longleftrightarrow> \<not> rs_enabled s \<and> rs_max_automatic_restarts s \<le> rs_automatic_restarts s"

record retry_controller =
  rc_policy :: retry_policy
  rc_enabled :: bool
  rc_generation :: "u64 option"
  rc_restarts :: u8
  rc_handled :: "u64 option"

definition retry_new :: "retry_policy \<Rightarrow> retry_controller" where
  "retry_new p = \<lparr>rc_policy = p, rc_enabled = True, rc_generation = None, rc_restarts = 0, rc_handled = None\<rparr>"

definition retry_default :: retry_controller where
  "retry_default = retry_new retry_policy_default"

definition observe_generation :: "u64 \<Rightarrow> retry_controller \<Rightarrow> bool \<times> retry_controller" where
  "observe_generation g c =
     (if \<not> rc_enabled c then (False, c)
      else case rc_generation c of
        Some current \<Rightarrow>
          if g < current then (False, c)
          else if g = current then (True, c)
          else (True, c\<lparr>rc_generation := Some g, rc_handled := None\<rparr>)
      | None \<Rightarrow> (True, c\<lparr>rc_generation := Some g, rc_handled := None\<rparr>))"

definition accepts_generation :: "retry_controller \<Rightarrow> u64 \<Rightarrow> bool" where
  "accepts_generation c g \<longleftrightarrow> rc_enabled c \<and> rc_generation c = Some g"

definition on_failure :: "u64 \<Rightarrow> retry_controller \<Rightarrow> retry_action option \<times> retry_controller" where
  "on_failure g c =
     (if \<not> accepts_generation c g \<or> rc_handled c = Some g then (None, c)
      else
        let c1 = c\<lparr>rc_handled := Some g\<rparr> in
        if rc_restarts c1 < rp_max (rc_policy c1)
        then let n = rc_restarts c1 + 1 in (Some (Restart n), c1\<lparr>rc_restarts := n\<rparr>)
        else (Some Disable, c1\<lparr>rc_enabled := False\<rparr>))"

definition manual_restart :: "retry_controller \<Rightarrow> retry_controller" where
  "manual_restart c = c\<lparr>rc_enabled := True, rc_generation := None, rc_restarts := 0, rc_handled := None\<rparr>"

definition retry_disable :: "retry_controller \<Rightarrow> retry_controller" where
  "retry_disable c = c\<lparr>rc_enabled := False, rc_generation := None, rc_handled := None\<rparr>"

definition retry_snapshot_of :: "retry_controller \<Rightarrow> retry_snapshot" where
  "retry_snapshot_of c =
     \<lparr>rs_enabled = rc_enabled c, rs_generation = rc_generation c,
      rs_automatic_restarts = rc_restarts c, rs_max_automatic_restarts = rp_max (rc_policy c)\<rparr>"

section \<open>The controller's operations as labels\<close>

datatype retry_op = ObserveGeneration u64 | OnFailure u64 | ManualRestart | DisableCycle

type_synonym retry_out = "(u64 \<times> retry_action) list"

fun retry_exec :: "retry_controller \<Rightarrow> retry_op \<Rightarrow> retry_out \<times> retry_controller" where
  "retry_exec c (ObserveGeneration g) = ([], snd (observe_generation g c))"
| "retry_exec c (OnFailure g) =
     (case on_failure g c of (None, c') \<Rightarrow> ([], c') | (Some a, c') \<Rightarrow> ([(g, a)], c'))"
| "retry_exec c ManualRestart = ([], manual_restart c)"
| "retry_exec c DisableCycle = ([], retry_disable c)"

fun retry_run :: "retry_controller \<Rightarrow> retry_op list \<Rightarrow> retry_out \<times> retry_controller" where
  "retry_run c [] = ([], c)"
| "retry_run c (op # ops) =
     (let (out, c1) = retry_exec c op; (outs, c2) = retry_run c1 ops in (out @ outs, c2))"

inductive retry_step :: "retry_controller \<Rightarrow> retry_controller \<Rightarrow> bool" where
  retry_stepI: "retry_step c (snd (retry_exec c op))"

inductive_cases retry_stepE: "retry_step c c'"

definition retry_inv :: "retry_controller \<Rightarrow> bool" where
  "retry_inv c \<longleftrightarrow>
     rp_max (rc_policy c) \<le> MAX_AUTOMATIC_RESTARTS \<and> rc_restarts c \<le> rp_max (rc_policy c) \<and>
     (\<forall>g. rc_handled c = Some g \<longrightarrow> rc_generation c = Some g)"

section \<open>Lemmas\<close>

named_theorems retry_defs

lemmas [retry_defs] = observe_generation_def on_failure_def manual_restart_def retry_disable_def
  accepts_generation_def Let_def

lemma restarts_inc: "rc_restarts c < rp_max p \<Longrightarrow> unat (rc_restarts c + 1) = Suc (unat (rc_restarts c))"
  by (rule unat_inc) (erule less_not_max)

lemma restarts_inc_le: "rc_restarts c < rp_max p \<Longrightarrow> rc_restarts c + 1 \<le> rp_max p"
  by (simp add: word_le_nat_alt word_less_nat_alt restarts_inc Suc_le_eq)

lemma retry_inv_exec: "retry_inv c \<Longrightarrow> retry_inv (snd (retry_exec c op))"
  by (cases op)
     (auto simp: retry_inv_def retry_defs restarts_inc_le split: option.split)

lemma retry_inv_new: "retry_inv (retry_new (retry_policy_new n))"
  by (simp add: retry_inv_def retry_new_def retry_policy_new_def)

interpretation retry_c: component "\<lambda>c. \<exists>n. c = retry_new (retry_policy_new n)" retry_step retry_inv
  by unfold_locales (auto elim!: retry_stepE intro: retry_inv_exec retry_inv_new)

section \<open>The budget as an interface\<close>

text \<open>
  \<open>rank\<close> bounds how many restarts can still be ordered before an explicit one by the user. The
  client lemmas count the restarts that any interleaving of observations and failure reports orders.
\<close>

datatype fence_op = FObserve u64 | FFailure u64 | FDisable

locale failure_budget =
  fixes accepts :: "'c \<Rightarrow> u64 \<Rightarrow> bool"
    and observe :: "u64 \<Rightarrow> 'c \<Rightarrow> bool \<times> 'c"
    and failure :: "u64 \<Rightarrow> 'c \<Rightarrow> 'a option \<times> 'c"
    and off :: "'c \<Rightarrow> 'c"
    and restarts :: "'a \<Rightarrow> bool"
    and rank :: "'c \<Rightarrow> nat"
  assumes fenced: "\<not> accepts c g \<Longrightarrow> failure g c = (None, c)"
    and ignored: "failure g c = (None, c') \<Longrightarrow> c' = c"
    and once: "failure g c = (Some a, c') \<Longrightarrow> fst (failure g c') = None"
    and spends: "failure g c = (Some a, c') \<Longrightarrow> restarts a \<Longrightarrow> rank c' < rank c"
    and failure_free: "failure g c = (Some a, c') \<Longrightarrow> rank c' \<le> rank c"
    and observe_free: "rank (snd (observe g c)) = rank c"
    and off_free: "rank (off c) = 0"
begin

fun fence_exec :: "'c \<Rightarrow> fence_op \<Rightarrow> nat \<times> 'c" where
  "fence_exec c (FObserve g) = (0, snd (observe g c))"
| "fence_exec c (FFailure g) =
     (case failure g c of (None, c') \<Rightarrow> (0, c') | (Some a, c') \<Rightarrow> (if restarts a then 1 else 0, c'))"
| "fence_exec c FDisable = (0, off c)"

fun ordered :: "'c \<Rightarrow> fence_op list \<Rightarrow> nat" where
  "ordered c [] = 0"
| "ordered c (op # ops) = fst (fence_exec c op) + ordered (snd (fence_exec c op)) ops"

lemma fence_rank: "fst (fence_exec c op) + rank (snd (fence_exec c op)) \<le> rank c"
proof (cases op)
  case (FFailure g)
  obtain r c' where rc: "failure g c = (r, c')" by (cases "failure g c")
  then show ?thesis
    using FFailure spends [of g c] ignored [of g c] failure_free [of g c] by (cases r) (auto simp: Suc_le_eq)
qed (simp_all add: observe_free off_free)

lemma ordered_bound: "ordered c ops \<le> rank c"
proof (induction ops arbitrary: c)
  case (Cons op ops)
  show ?case
    using fence_rank [of c op] Cons.IH [of "snd (fence_exec c op)"] by simp
qed simp

lemma failure_once: "failure g c = (Some a, c') \<Longrightarrow> accepts c g \<and> failure g c' = (None, c')"
  using fenced [of c g] once [of g c a c'] ignored [of g c'] by (metis option.distinct(1) prod.collapse prod.inject)

lemma failure_le: "rank (snd (failure g c)) \<le> rank c"
  using ignored failure_free by (cases "failure g c"; cases "fst (failure g c)") auto

end

definition retry_rank :: "retry_controller \<Rightarrow> nat" where
  "retry_rank c = (if rc_enabled c then unat (rp_max (rc_policy c)) - unat (rc_restarts c) else 0)"

interpretation retry_budget:
  failure_budget accepts_generation observe_generation on_failure retry_disable is_restart retry_rank
proof unfold_locales
  show "on_failure g c = (None, c)" if "\<not> accepts_generation c g" for c g
    using that by (simp add: on_failure_def)
  show "c' = c" if "on_failure g c = (None, c')" for g c c'
    using that by (auto simp: on_failure_def Let_def split: if_splits)
  show "fst (on_failure g c') = None" if "on_failure g c = (Some a, c')" for g c a c'
    using that by (auto simp: on_failure_def Let_def accepts_generation_def split: if_splits)
  show "retry_rank c' < retry_rank c" if "on_failure g c = (Some a, c')" "is_restart a" for g c a c'
    using that
    by (auto simp: on_failure_def Let_def accepts_generation_def retry_rank_def restarts_inc word_less_nat_alt
        split: if_splits)
  show "retry_rank c' \<le> retry_rank c" if "on_failure g c = (Some a, c')" for g c a c'
    using that
    by (auto simp: on_failure_def Let_def accepts_generation_def retry_rank_def restarts_inc word_less_nat_alt
        split: if_splits)
  show "retry_rank (snd (observe_generation g c)) = retry_rank c" for g c
    by (simp add: observe_generation_def retry_rank_def split: option.split)
  show "retry_rank (retry_disable c) = 0" for c
    by (simp add: retry_disable_def retry_rank_def)
qed

lemma retry_rank_le: "retry_inv c \<Longrightarrow> retry_rank c \<le> 3"
proof -
  assume "retry_inv c"
  then have "unat (rp_max (rc_policy c)) \<le> unat MAX_AUTOMATIC_RESTARTS"
    by (simp add: retry_inv_def word_le_nat_alt)
  then show ?thesis by (auto simp: retry_rank_def MAX_AUTOMATIC_RESTARTS_def)
qed

section \<open>One enable cycle\<close>

text \<open>
  The actions one enable cycle may take when \<open>r\<close> restarts are spent of \<open>m\<close>: numbered
  restarts while the budget lasts, and a single \<open>Disable\<close> as the last action, only when it is
  spent.
\<close>

fun cycle_ok :: "nat \<Rightarrow> nat \<Rightarrow> retry_action list \<Rightarrow> bool" where
  "cycle_ok m r [] = True"
| "cycle_ok m r (Restart n # as) = (r < m \<and> unat n = Suc r \<and> cycle_ok m (Suc r) as)"
| "cycle_ok m r (Disable # as) = (r = m \<and> as = [])"

lemma cycle_ok_length: "cycle_ok m r as \<Longrightarrow> r \<le> m \<Longrightarrow> length as \<le> Suc (m - r)"
  by (induction m r as rule: cycle_ok.induct) auto

lemma on_failure_cases:
  assumes "on_failure g c = (Some a, c')"
  shows "accepts_generation c g" "rc_handled c \<noteq> Some g" "rc_handled c' = Some g" "rc_generation c' = Some g"
    "rc_policy c' = rc_policy c"
    "a = Restart (rc_restarts c + 1) \<and> rc_restarts c < rp_max (rc_policy c) \<and> rc_restarts c' = rc_restarts c + 1 \<and> rc_enabled c' \<or>
     a = Disable \<and> \<not> rc_restarts c < rp_max (rc_policy c) \<and> \<not> rc_enabled c'"
  using assms by (auto simp: on_failure_def accepts_generation_def Let_def split: if_splits)

lemma disabled_exec:
  "\<not> rc_enabled c \<Longrightarrow> op \<noteq> ManualRestart \<Longrightarrow> fst (retry_exec c op) = [] \<and> \<not> rc_enabled (snd (retry_exec c op))"
  by (cases op) (auto simp: retry_defs)

lemma run_Cons:
  "fst (retry_run c (op # ops)) = fst (retry_exec c op) @ fst (retry_run (snd (retry_exec c op)) ops)"
  "snd (retry_run c (op # ops)) = snd (retry_run (snd (retry_exec c op)) ops)"
  by (simp_all add: Let_def case_prod_beta)

lemma disabled_run: "\<not> rc_enabled c \<Longrightarrow> ManualRestart \<notin> set ops \<Longrightarrow> fst (retry_run c ops) = []"
proof (induction ops arbitrary: c)
  case (Cons op ops)
  have op: "op \<noteq> ManualRestart" and ops: "ManualRestart \<notin> set ops" using Cons.prems(2) by auto
  show ?case using disabled_exec [OF Cons.prems(1) op] Cons.IH [OF _ ops] unfolding run_Cons by simp
qed simp

text \<open>What is not yet consumed lies above the fence.\<close>

definition above_fence :: "retry_controller \<Rightarrow> u64 \<Rightarrow> bool" where
  "above_fence c g \<longleftrightarrow>
     (\<forall>g0. rc_generation c = Some g0 \<longrightarrow> g0 \<le> g) \<and> (\<forall>g0. rc_handled c = Some g0 \<longrightarrow> g0 < g)"

lemma above_fence_exec:
  "retry_inv c \<Longrightarrow> rc_enabled c \<Longrightarrow> rc_enabled (snd (retry_exec c op)) \<Longrightarrow> op \<noteq> ManualRestart \<Longrightarrow>
     above_fence (snd (retry_exec c op)) g \<Longrightarrow> above_fence c g"
  by (cases op)
     (auto simp: above_fence_def retry_defs retry_inv_def split: option.splits if_splits)

lemma cycle_run:
  assumes "retry_inv c" "ManualRestart \<notin> set ops"
  shows "cycle_ok (unat (rp_max (rc_policy c))) (unat (rc_restarts c)) (map snd (fst (retry_run c ops))) \<and>
         sorted_wrt (<) (map fst (fst (retry_run c ops))) \<and>
         (\<forall>g \<in> set (map fst (fst (retry_run c ops))). above_fence c g)"
  using assms
proof (induction ops arbitrary: c)
  case (Cons op ops)
  define c' where "c' = snd (retry_exec c op)"
  have op: "op \<noteq> ManualRestart" and ops: "ManualRestart \<notin> set ops" using Cons.prems(2) by auto
  have inv': "retry_inv c'" using retry_inv_exec [OF Cons.prems(1)] by (simp add: c'_def)
  note IH = Cons.IH [OF inv' ops]
  show ?case
  proof (cases "fst (retry_exec c op)")
    case Nil
    show ?thesis
    proof (cases "rc_enabled c \<and> rc_enabled c'")
      case True
      have "rc_policy c' = rc_policy c \<and> rc_restarts c' = rc_restarts c"
        using Nil op True unfolding c'_def
        by (cases op) (auto simp: retry_defs split: option.splits if_splits)
      moreover have "above_fence c' g \<Longrightarrow> above_fence c g" for g
        using above_fence_exec [OF Cons.prems(1), of op g] True op by (auto simp: c'_def)
      ultimately show ?thesis using IH Nil unfolding run_Cons c'_def by auto
    next
      case False
      then have "\<not> rc_enabled c'" using disabled_exec [OF _ op] by (auto simp: c'_def)
      then show ?thesis using disabled_run [OF _ ops] Nil unfolding run_Cons c'_def by simp
    qed
  next
    case (Cons ga rest)
    then obtain g a where ga: "op = OnFailure g" "on_failure g c = (Some a, c')" "fst (retry_exec c op) = [(g, a)]"
      by (cases op) (auto simp: c'_def split: prod.splits option.splits)
    note f = on_failure_cases [OF ga(2)]
    have "rc_handled c = None"
      using f(1,2) Cons.prems(1) by (cases "rc_handled c") (auto simp: accepts_generation_def retry_inv_def)
    then have fence: "above_fence c g" "above_fence c' h \<Longrightarrow> above_fence c h" "above_fence c' h \<Longrightarrow> g < h" for h
      using f(1,3,4) by (auto simp: above_fence_def accepts_generation_def)
    from f(6) show ?thesis
    proof
      assume a: "a = Disable \<and> \<not> rc_restarts c < rp_max (rc_policy c) \<and> \<not> rc_enabled c'"
      then have "rc_restarts c = rp_max (rc_policy c)" using Cons.prems(1) unfolding retry_inv_def by (metis linorder_neqE not_le)
      then show ?thesis
        using a fence(1) disabled_run [OF _ ops, of c'] unfolding run_Cons ga(3) c'_def [symmetric] by simp
    next
      assume "a = Restart (rc_restarts c + 1) \<and> rc_restarts c < rp_max (rc_policy c) \<and>
        rc_restarts c' = rc_restarts c + 1 \<and> rc_enabled c'"
      then show ?thesis
        using IH fence f(5) restarts_inc unfolding run_Cons ga(3) c'_def [symmetric]
        by (auto simp: word_less_nat_alt)
    qed
  qed
qed simp

text \<open>one enable cycle of the retry controller, from any state it can be in when the user enables
  the plugin. Whatever generations are observed and whatever failures are reported, in any order and
  however often, the automatic actions are restarts numbered 1, 2, ... up to at most the policy's
  maximum, which is at most three, followed by at most one \<open>Disable\<close>, taken only when the budget
  is spent and never followed by another action; and each action is for a strictly newer generation
  than the one before, so no generation is acted on twice.\<close>

theorem retry_cycle_bounded:
  assumes "ManualRestart \<notin> set ops" and "c = snd (retry_run (retry_new (retry_policy_new n)) before)"
  shows "let acts = fst (retry_run (manual_restart c) ops) in
     cycle_ok (unat (rp_max (rc_policy c))) 0 (map snd acts) \<and> unat (rp_max (rc_policy c)) \<le> 3 \<and>
     length acts \<le> 4 \<and> sorted_wrt (<) (map fst acts)"
proof -
  have run: "retry_inv c0 \<Longrightarrow> retry_inv (snd (retry_run c0 xs))" for c0 xs
    by (induction xs arbitrary: c0) (simp_all add: run_Cons retry_inv_exec del: retry_run.simps(2))
  have inv: "retry_inv c" unfolding assms(2) by (rule run, rule retry_inv_new)
  then have "retry_inv (manual_restart c)" using retry_inv_exec [of c ManualRestart] by simp
  note cyc = cycle_run [OF this assms(1)]
  have "unat (rp_max (rc_policy c)) \<le> unat MAX_AUTOMATIC_RESTARTS"
    using inv by (simp add: retry_inv_def word_le_nat_alt)
  then have "unat (rp_max (rc_policy c)) \<le> 3" by (simp add: MAX_AUTOMATIC_RESTARTS_def)
  moreover from cyc have "cycle_ok (unat (rp_max (rc_policy c))) 0 (map snd (fst (retry_run (manual_restart c) ops)))"
    by (simp add: manual_restart_def)
  ultimately show ?thesis using cyc cycle_ok_length by (fastforce simp: Let_def)
qed

theorem retry_cycle_bounded_witness:
  "length (fst (retry_run (manual_restart (retry_new (retry_policy_new 9)))
     [ObserveGeneration 1, OnFailure 1, OnFailure 1, ObserveGeneration 2, OnFailure 1, OnFailure 2])) \<le> 4"
  using retry_cycle_bounded [of "[ObserveGeneration 1, OnFailure 1, OnFailure 1, ObserveGeneration 2, OnFailure 1, OnFailure 2]"
      "retry_new (retry_policy_new 9)" 9 "[]"] by (simp add: Let_def del: retry_run.simps(2))

end
