(* ===== verification/Wire_Transport.thy ===== *)
theory Wire_Transport
  imports Rust_Std
begin

text \<open>
  The newline-delimited transport of the plugin protocol, \<open>yunxi-protocol/src/transport.rs\<close>.
  The socket is its answers: each read of the stream gives some bytes (none at the end of the
  stream) or an I/O error, and \<open>BufReader\<close> keeps what has not been consumed yet. The JSON codec
  is a library: encoding and decoding are arguments.
\<close>

section \<open>Errors and state\<close>

definition DEFAULT_MAX_FRAME_BYTES :: nat where
  "DEFAULT_MAX_FRAME_BYTES = 16 * 1024 * 1024"

datatype protocol_error =
    PIo rstring
  | PEncode rstring
  | PDecode rstring
  | ConnectionClosed
  | FrameTooLarge nat
  | Handshake rstring

fun show_protocol_error :: "protocol_error \<Rightarrow> rstring" where
  "show_protocol_error (PIo e) = lit ''protocol I/O failed: '' @ e"
| "show_protocol_error (PEncode e) = lit ''failed to encode protocol message: '' @ e"
| "show_protocol_error (PDecode e) = lit ''failed to decode protocol message: '' @ e"
| "show_protocol_error ConnectionClosed = lit ''plugin connection closed''"
| "show_protocol_error (FrameTooLarge n) = lit ''protocol frame exceeded '' @ show_nat n @ lit '' bytes''"
| "show_protocol_error (Handshake m) = lit ''plugin handshake failed: '' @ m"

type_synonym bytes = "u8 list"

record reader =
  rd_buf :: bytes
  rd_source :: "(rstring, bytes) res list"

definition fill_buf :: "reader \<Rightarrow> (rstring, bytes) res \<times> reader" where
  "fill_buf r =
     (if rd_buf r \<noteq> [] then (Inr (rd_buf r), r)
      else case rd_source r of
        [] \<Rightarrow> (Inr [], r)
      | Inl e # src \<Rightarrow> (Inl e, r\<lparr>rd_source := src\<rparr>)
      | Inr bs # src \<Rightarrow> (Inr bs, r\<lparr>rd_buf := bs, rd_source := src\<rparr>))"

definition consume :: "nat \<Rightarrow> reader \<Rightarrow> reader" where
  "consume n r = r\<lparr>rd_buf := drop n (rd_buf r)\<rparr>"

fun position :: "('a \<Rightarrow> bool) \<Rightarrow> 'a list \<Rightarrow> nat option" where
  "position P [] = None"
| "position P (x # xs) = (if P x then Some 0 else map_option Suc (position P xs))"

section \<open>Reading and writing frames\<close>

lemma fill_buf_source:
  "fill_buf r = (Inr bs, r') \<Longrightarrow> bs \<noteq> [] \<Longrightarrow> rd_buf r' = bs \<and>
     length (rd_source r') + (if rd_buf r = [] then 1 else 0) = length (rd_source r)"
  by (auto simp: fill_buf_def split: if_splits list.splits sum.splits)

function read_loop :: "nat \<Rightarrow> bytes \<Rightarrow> reader \<Rightarrow> (protocol_error, bytes) res \<times> reader" where
  "read_loop maximum frame r =
     (case fill_buf r of
        (Inl e, r1) \<Rightarrow> (Inl (PIo e), r1)
      | (Inr available, r1) \<Rightarrow>
          if available = [] then (Inl ConnectionClosed, r1)
          else
            let delimiter = position (\<lambda>b. b = 10) available;
                n = (case delimiter of None \<Rightarrow> length available | Some i \<Rightarrow> i + 1)
            in if length frame + n > maximum then (Inl (FrameTooLarge maximum), r1)
               else
                 let frame1 = frame @ take n available; r2 = consume n r1
                 in if delimiter \<noteq> None then (Inr frame1, r2) else read_loop maximum frame1 r2)"
  by pat_completeness auto

termination
  by (relation "measure (\<lambda>(m, f, r). 2 * length (rd_source r) + (if rd_buf r = [] then 0 else 1))")
     (auto simp: consume_def dest!: fill_buf_source [OF sym] split: if_splits)

declare read_loop.simps [simp del]

definition pop_byte :: "u8 \<Rightarrow> bytes \<Rightarrow> bytes" where
  "pop_byte b frame = (if frame \<noteq> [] \<and> last frame = b then butlast frame else frame)"

definition read_frame :: "nat \<Rightarrow> reader \<Rightarrow> (protocol_error, bytes) res \<times> reader" where
  "read_frame maximum r =
     (case read_loop maximum [] r of
        (Inl e, r1) \<Rightarrow> (Inl e, r1)
      | (Inr frame, r1) \<Rightarrow> (Inr (pop_byte 13 (pop_byte 10 frame)), r1))"

definition receive :: "(bytes \<Rightarrow> (rstring, 'm) res) \<Rightarrow> nat \<Rightarrow> reader \<Rightarrow> (protocol_error, 'm) res \<times> reader" where
  "receive decode maximum r =
     (case read_frame maximum r of
        (Inl e, r1) \<Rightarrow> (Inl e, r1)
      | (Inr frame, r1) \<Rightarrow> (map_err PDecode (decode frame), r1))"

text \<open>
  Sending: the encoder gives the bytes it wrote and possibly an error; a write may fail after some
  of the bytes have gone out.
\<close>

definition send ::
  "('m \<Rightarrow> bytes \<times> rstring option) \<Rightarrow> (nat \<times> rstring) option \<Rightarrow> 'm \<Rightarrow> bytes \<Rightarrow> (protocol_error, unit) res \<times> bytes" where
  "send encode fault m out =
     (case encode m of
        (bs, Some e) \<Rightarrow> (Inl (PEncode e), out @ bs)
      | (bs, None) \<Rightarrow>
          (case fault of
             Some (n, e) \<Rightarrow> (Inl (PIo e), out @ take n (bs @ [10]))
           | None \<Rightarrow> (Inr (), out @ bs @ [10])))"

definition with_max_frame_bytes :: "nat \<Rightarrow> nat" where
  "with_max_frame_bytes n = max n 1"

fun send_all :: "('m \<Rightarrow> bytes \<times> rstring option) \<Rightarrow> 'm list \<Rightarrow> bytes \<Rightarrow> bytes" where
  "send_all encode [] out = out"
| "send_all encode (m # ms) out = send_all encode ms (snd (send encode None m out))"

fun receive_all :: "(bytes \<Rightarrow> (rstring, 'm) res) \<Rightarrow> nat \<Rightarrow> nat \<Rightarrow> reader \<Rightarrow> (protocol_error, 'm list) res \<times> reader" where
  "receive_all decode maximum 0 r = (Inr [], r)"
| "receive_all decode maximum (Suc n) r =
     (case receive decode maximum r of
        (Inl e, r1) \<Rightarrow> (Inl e, r1)
      | (Inr m, r1) \<Rightarrow>
          (case receive_all decode maximum n r1 of
             (Inl e, r2) \<Rightarrow> (Inl e, r2)
           | (Inr ms, r2) \<Rightarrow> (Inr (m # ms), r2)))"

section \<open>What a frame is, chunking aside\<close>

text \<open>
  The abstract view of a reader whose reads all succeed: the bytes still to come. \<open>frame_of\<close>
  is what reading a frame means on that byte sequence.
\<close>

definition stream :: "reader \<Rightarrow> bytes" where
  "stream r = rd_buf r @ concat (map (\<lambda>x. case x of Inl e \<Rightarrow> [] | Inr bs \<Rightarrow> bs) (rd_source r))"

definition flowing :: "reader \<Rightarrow> bool" where
  "flowing r \<longleftrightarrow> (\<forall>x \<in> set (rd_source r). case x of Inl e \<Rightarrow> False | Inr bs \<Rightarrow> bs \<noteq> [])"

definition frame_of :: "nat \<Rightarrow> bytes \<Rightarrow> (protocol_error, bytes) res" where
  "frame_of maximum s =
     (case position (\<lambda>b. b = 10) s of
        Some i \<Rightarrow> if i + 1 > maximum then Inl (FrameTooLarge maximum) else Inr (pop_byte 13 (take i s))
      | None \<Rightarrow> Inl (if length s > maximum then FrameTooLarge maximum else ConnectionClosed))"

lemma position_append:
  "position P (xs @ ys) = (case position P xs of Some i \<Rightarrow> Some i | None \<Rightarrow> map_option ((+) (length xs)) (position P ys))"
  by (induction xs; cases "position P ys") (auto split: option.splits)

lemma position_less: "position P xs = Some i \<Longrightarrow> i < length xs"
  by (induction xs arbitrary: i) (auto split: if_splits)

lemma position_None: "position P xs = None \<longleftrightarrow> (\<forall>x \<in> set xs. \<not> P x)"
  by (induction xs) auto

lemma position_hit: "\<forall>x \<in> set xs. \<not> P x \<Longrightarrow> P y \<Longrightarrow> position P (xs @ y # ys) = Some (length xs)"
  by (induction xs) auto

lemma position_nth: "position P xs = Some i \<Longrightarrow> P (xs ! i)"
  by (induction xs arbitrary: i) (auto split: if_splits)

lemma fill_buf_flowing:
  assumes "flowing r"
  shows "\<exists>r1. fill_buf r = (Inr (rd_buf r1), r1) \<and> flowing r1 \<and> stream r1 = stream r \<and>
     (rd_buf r1 = [] \<longleftrightarrow> stream r = [])"
  using assms
  by (cases "rd_source r"; cases "rd_buf r = []")
     (auto simp: fill_buf_def flowing_def stream_def split: sum.splits)

text \<open>
  The loop, chunk by chunk, against the whole stream: \<open>frame\<close> is what has been consumed of it.
\<close>

lemma read_loop_stream:
  assumes "flowing r" "10 \<notin> set frame" "length frame \<le> maximum"
  shows "\<exists>r'. flowing r' \<and> read_loop maximum frame r =
     (case position (\<lambda>b. b = 10) (frame @ stream r) of
        Some i \<Rightarrow> if i + 1 > maximum then (Inl (FrameTooLarge maximum), r') else (Inr (take (i + 1) (frame @ stream r)), r')
      | None \<Rightarrow> (Inl (if length (frame @ stream r) > maximum then FrameTooLarge maximum else ConnectionClosed), r')) \<and>
     (\<forall>i. position (\<lambda>b. b = 10) (frame @ stream r) = Some i \<longrightarrow> i + 1 \<le> maximum \<longrightarrow>
        stream r' = drop (i + 1) (frame @ stream r))"
  using assms
proof (induction maximum frame r rule: read_loop.induct)
  case (1 maximum frame r)
  obtain r1 where r1: "fill_buf r = (Inr (rd_buf r1), r1)" "flowing r1" "stream r1 = stream r"
      "rd_buf r1 = [] \<longleftrightarrow> stream r = []"
    using fill_buf_flowing [OF "1.prems"(1)] by blast
  have pf: "position (\<lambda>b. b = 10) frame = None" using "1.prems"(2) by (auto simp: position_None)
  let ?rest = "concat (map (\<lambda>x. case x of Inl e \<Rightarrow> [] | Inr bs \<Rightarrow> bs) (rd_source r1))"
  have s: "stream r = rd_buf r1 @ ?rest" using r1(3) by (simp add: stream_def)
  show ?case
  proof (cases "rd_buf r1 = []")
    case True
    then show ?thesis
      using r1 pf "1.prems"(3) by (intro exI [of _ r1]) (simp add: read_loop.simps)
  next
    case False
    show ?thesis
    proof (cases "position (\<lambda>b. b = 10) (rd_buf r1)")
      case (Some i)
      have i: "i < length (rd_buf r1)" using position_less [OF Some] .
      have pos: "position (\<lambda>b. b = 10) (frame @ stream r) = Some (length frame + i)"
        using pf Some by (simp add: s position_append)
      let ?r' = "if length frame + (i + 1) > maximum then r1 else consume (i + 1) r1"
      have "flowing ?r'" using r1(2) by (simp add: flowing_def consume_def)
      moreover have "length frame + (i + 1) \<le> maximum \<Longrightarrow> stream (consume (i + 1) r1) = drop (i + 1) (stream r)"
        using i unfolding s unfolding consume_def stream_def by simp
      ultimately show ?thesis
        using r1 False Some pos i
        by (intro exI [of _ ?r']) (simp add: read_loop.simps Let_def s)
    next
      case None
      show ?thesis
      proof (cases "length frame + length (rd_buf r1) > maximum")
        case True
        then have big: "length (frame @ stream r) > maximum" by (simp add: s)
        have "i + 1 > maximum" if "position (\<lambda>b. b = 10) (frame @ stream r) = Some i" for i
          using that pf None True by (auto simp: s position_append split: option.splits)
        then show ?thesis
          using r1 False None True big
          by (intro exI [of _ r1]) (fastforce simp: read_loop.simps Let_def split: option.split)
      next
        case False
        let ?r2 = "consume (length (rd_buf r1)) r1" and ?f = "frame @ rd_buf r1"
        have r2: "flowing ?r2" "?f @ stream ?r2 = frame @ stream r" "10 \<notin> set ?f" "length ?f \<le> maximum"
          using r1(2) "1.prems"(2) None False unfolding s
          by (auto simp: flowing_def consume_def stream_def position_None)
        have loop: "read_loop maximum frame r = read_loop maximum ?f ?r2"
          using r1 False None \<open>rd_buf r1 \<noteq> []\<close> by (subst read_loop.simps) (simp add: Let_def)
        have n: "length (rd_buf r1) = (case None of None \<Rightarrow> length (rd_buf r1) | Some i \<Rightarrow> i + 1)" by simp
        have f: "?f = frame @ take (length (rd_buf r1)) (rd_buf r1)" by simp
        have stop: "\<not> (None :: nat option) \<noteq> None" by simp
        show ?thesis
          unfolding loop r2(2) [symmetric]
          by (rule "1.IH" [OF r1(1) [symmetric] refl \<open>rd_buf r1 \<noteq> []\<close> None [symmetric] n False f refl stop r2(1,3,4)])
      qed
    qed
  qed
qed

lemma read_frame_stream:
  assumes "flowing r"
  shows "fst (read_frame maximum r) = frame_of maximum (stream r) \<and>
     (is_ok (frame_of maximum (stream r)) \<longrightarrow>
        flowing (snd (read_frame maximum r)) \<and>
        stream (snd (read_frame maximum r)) = drop (Suc (the (position (\<lambda>b. b = 10) (stream r)))) (stream r))"
proof -
  have "10 \<notin> set ([] :: bytes)" "length ([] :: bytes) \<le> maximum" by simp_all
  from read_loop_stream [OF assms this, unfolded append_Nil]
  obtain r' where r': "flowing r'" "read_loop maximum [] r =
     (case position (\<lambda>b. b = 10) (stream r) of
        Some i \<Rightarrow> if i + 1 > maximum then (Inl (FrameTooLarge maximum), r') else (Inr (take (i + 1) (stream r)), r')
      | None \<Rightarrow> (Inl (if length (stream r) > maximum then FrameTooLarge maximum else ConnectionClosed), r'))"
     "\<forall>i. position (\<lambda>b. b = 10) (stream r) = Some i \<longrightarrow> i + 1 \<le> maximum \<longrightarrow> stream r' = drop (i + 1) (stream r)"
    by blast
  have pop: "pop_byte 10 (take (Suc i) (stream r)) = take i (stream r)" if "position (\<lambda>b. b = 10) (stream r) = Some i" for i
  proof -
    have "i < length (stream r)" "stream r ! i = 10" using position_less [OF that] position_nth [OF that] by auto
    then show ?thesis by (simp add: take_Suc_conv_app_nth pop_byte_def)
  qed
  show ?thesis
    using r' pop by (auto simp: read_frame_def frame_of_def split: option.splits)
qed

section \<open>Properties\<close>

text \<open>framing does not depend on how the socket chops the stream. For any two readers whose reads
  succeed and deliver the same bytes, whatever the chunk boundaries and whatever is already buffered,
  reading a frame gives the same frame or the same error: the bytes before the first newline (less one
  trailing carriage return) when they fit the limit with their newline, the size error when they do
  not, and the closed-connection error when the stream ends first.\<close>

theorem read_frame_chunking:
  assumes "flowing r" and "flowing r'" and "stream r = stream r'"
  shows "fst (read_frame maximum r) = fst (read_frame maximum r') \<and>
         fst (read_frame maximum r) = frame_of maximum (stream r)"
  using read_frame_stream [OF assms(1)] read_frame_stream [OF assms(2)] assms(3) by simp

theorem read_frame_chunking_witness:
  "fst (read_frame 8 \<lparr>rd_buf = [104], rd_source = [Inr [105, 13], Inr [10, 33]]\<rparr>) =
   fst (read_frame 8 \<lparr>rd_buf = [], rd_source = [Inr [104, 105, 13, 10, 33]]\<rparr>)"
  by (rule read_frame_chunking [THEN conjunct1]) (simp_all add: flowing_def stream_def)

lemma receive_line:
  assumes "flowing r" "stream r = line @ 10 # rest" "10 \<notin> set line" "line = [] \<or> last line \<noteq> 13"
    "length line < maximum"
  shows "\<exists>r'. receive decode maximum r = (map_err PDecode (decode line), r') \<and> flowing r' \<and> stream r' = rest"
proof -
  have pos: "position (\<lambda>b. b = 10) (stream r) = Some (length line)"
    unfolding assms(2) using assms(3) by (intro position_hit) auto
  have frame: "frame_of maximum (stream r) = Inr line"
    using assms(2,4,5) pos by (auto simp: frame_of_def pop_byte_def)
  obtain f r' where fr: "read_frame maximum r = (f, r')" by (cases "read_frame maximum r")
  then have "f = Inr line" "flowing r'" "stream r' = rest"
    using read_frame_stream [OF assms(1), of maximum] frame pos assms(2) by auto
  then show ?thesis using fr by (intro exI [of _ r']) (simp add: receive_def)
qed

text \<open>The bytes of a sequence of messages, each on its own line.\<close>

lemma send_all_bytes:
  "\<forall>m \<in> set ms. encode m = (enc m, None) \<Longrightarrow> send_all encode ms out = out @ concat (map (\<lambda>m. enc m @ [10]) ms)"
  by (induction encode ms out rule: send_all.induct) (auto simp: send_def)

text \<open>C38: messages survive the wire. If each message encodes without error to bytes that contain no
  newline, do not end in a carriage return, decode back to it and fit the frame limit (what the JSON
  encoder promises), then receiving from the bytes the sender wrote gives back exactly the messages
  sent, in order, however the socket splits them into reads.\<close>

theorem transport_roundtrip:
  assumes "\<forall>m \<in> set ms. encode m = (enc m, None) \<and> 10 \<notin> set (enc m) \<and> (enc m = [] \<or> last (enc m) \<noteq> 13) \<and>
      length (enc m) < maximum \<and> decode (enc m) = Inr m"
    and "flowing r" and "stream r = send_all encode ms []"
  shows "fst (receive_all decode maximum (length ms) r) = Inr ms"
proof -
  have "stream r = concat (map (\<lambda>m. enc m @ [10]) ms) \<Longrightarrow> flowing r \<Longrightarrow>
      fst (receive_all decode maximum (length ms) r) = Inr ms"
    using assms(1)
  proof (induction ms arbitrary: r)
    case (Cons m ms)
    have "stream r = enc m @ 10 # concat (map (\<lambda>m. enc m @ [10]) ms)" using Cons.prems(1) by simp
    then obtain r' where r': "receive decode maximum r = (map_err PDecode (decode (enc m)), r')" "flowing r'"
        "stream r' = concat (map (\<lambda>m. enc m @ [10]) ms)"
      using receive_line [OF Cons.prems(2), of "enc m" _ maximum decode] Cons.prems(3) by auto
    have "fst (receive_all decode maximum (length ms) r') = Inr ms"
      using Cons.IH [OF r'(3,2)] Cons.prems(3) by simp
    then show ?case using r'(1) Cons.prems(3) by (auto split: prod.splits)
  qed simp
  then show ?thesis using assms send_all_bytes [of ms encode enc "[]"] by simp
qed

theorem transport_roundtrip_witness:
  "fst (receive_all (\<lambda>bs. Inr bs) 4 (length [[1, 2], [3 :: u8]])
     \<lparr>rd_buf = [], rd_source = [Inr [1], Inr [2, 10, 3], Inr [10]]\<rparr>) = Inr [[1, 2], [3]]"
  by (rule transport_roundtrip [where encode = "\<lambda>m. (m, None)" and enc = id])
     (simp_all add: flowing_def stream_def send_def)

end
