(* ===== verification/Wire_Contract.thy ===== *)
theory Wire_Contract
  imports Wire_Transport
begin

text \<open>
  What a plugin says about itself on the wire: capability identifiers and descriptors
  (\<open>yunxi-protocol/src/capability.rs\<close>), the manifest with its grants and placement hints
  (\<open>manifest.rs\<close>), the invocation envelopes (\<open>invocation.rs\<close>) and the messages of the two
  sides (\<open>message.rs\<close>). JSON values are an arbitrary type \<open>'v\<close>.
\<close>

section \<open>Capabilities\<close>

definition MAX_CAPABILITY_ID_BYTES :: nat where
  "MAX_CAPABILITY_ID_BYTES = 128"

datatype capability_id = CapabilityId (cap_str: rstring)

instantiation capability_id :: linorder
begin

definition less_eq_capability_id :: "capability_id \<Rightarrow> capability_id \<Rightarrow> bool" where
  "less_eq_capability_id a b \<longleftrightarrow> cap_str a \<le> cap_str b"

definition less_capability_id :: "capability_id \<Rightarrow> capability_id \<Rightarrow> bool" where
  "less_capability_id a b \<longleftrightarrow> cap_str a < cap_str b"

instance
  by standard (auto simp: less_eq_capability_id_def less_capability_id_def capability_id.expand)

end

datatype capability_id_error =
    CidEmpty
  | CidTooLong nat nat
  | CidMissingNamespace
  | CidEmptySegment
  | CidInvalidSegmentStart rstring
  | CidInvalidSegmentEnd rstring
  | CidInvalidCharacter nat rchar

fun show_capability_id_error :: "capability_id_error \<Rightarrow> rstring" where
  "show_capability_id_error CidEmpty = lit ''capability id cannot be empty''"
| "show_capability_id_error (CidTooLong l m) =
     lit ''capability id is '' @ show_nat l @ lit '' bytes; maximum is '' @ show_nat m"
| "show_capability_id_error CidMissingNamespace =
     lit ''capability id must contain at least two dot-separated segments''"
| "show_capability_id_error CidEmptySegment = lit ''capability id contains an empty segment''"
| "show_capability_id_error (CidInvalidSegmentStart s) =
     lit ''capability id segment '' @ quoted s @ lit '' must start with a lowercase ASCII letter''"
| "show_capability_id_error (CidInvalidSegmentEnd s) =
     lit ''capability id segment '' @ quoted s @ lit '' must not end with a hyphen''"
| "show_capability_id_error (CidInvalidCharacter i c) =
     lit ''capability id contains unsupported character '' @ quoted [c] @ lit '' at byte '' @ show_nat i"

definition starts_lowercase :: "rstring \<Rightarrow> bool" where
  "starts_lowercase s = (case s of [] \<Rightarrow> False | c # _ \<Rightarrow> is_ascii_lowercase c)"

definition ends_with_char :: "rstring \<Rightarrow> rchar \<Rightarrow> bool" where
  "ends_with_char s c \<longleftrightarrow> s \<noteq> [] \<and> last s = c"

definition capability_char :: "rchar \<Rightarrow> bool" where
  "capability_char c \<longleftrightarrow> is_ascii_lowercase c \<or> is_ascii_digit c \<or> c = ch CHR ''.'' \<or> c = ch CHR ''-''"

fun validate_segments :: "rstring list \<Rightarrow> (capability_id_error, unit) res" where
  "validate_segments [] = Inr ()"
| "validate_segments (s # ss) =
     (if \<not> starts_lowercase s then Inl (CidInvalidSegmentStart s)
      else if ends_with_char s (ch CHR ''-'') then Inl (CidInvalidSegmentEnd s)
      else validate_segments ss)"

definition validate_capability_id :: "rstring \<Rightarrow> (capability_id_error, unit) res" where
  "validate_capability_id value =
     (if value = [] then Inl CidEmpty
      else if str_len value > MAX_CAPABILITY_ID_BYTES
        then Inl (CidTooLong (str_len value) MAX_CAPABILITY_ID_BYTES)
      else
        let segments = split_on (ch CHR ''.'') value in
        if length segments < 2 then Inl CidMissingNamespace
        else if \<exists>s \<in> set segments. s = [] then Inl CidEmptySegment
        else res_bind (validate_segments segments) (\<lambda>_.
          case find (\<lambda>(i, c). \<not> capability_char c) (char_indices value) of
            Some (i, c) \<Rightarrow> Inl (CidInvalidCharacter i c)
          | None \<Rightarrow> Inr ()))"

definition capability_id_new :: "rstring \<Rightarrow> (capability_id_error, capability_id) res" where
  "capability_id_new value = res_bind (validate_capability_id value) (\<lambda>_. Inr (CapabilityId value))"

record capability =
  cap_id :: capability_id
  cap_version :: u32

datatype capability_error = CapInvalidId capability_id_error | ZeroVersion

fun show_capability_error :: "capability_error \<Rightarrow> rstring" where
  "show_capability_error (CapInvalidId e) = show_capability_id_error e"
| "show_capability_error ZeroVersion = lit ''capability version must be greater than zero''"

definition capability_from_id :: "capability_id \<Rightarrow> u32 \<Rightarrow> (capability_error, capability) res" where
  "capability_from_id i v = (if v = 0 then Inl ZeroVersion else Inr \<lparr>cap_id = i, cap_version = v\<rparr>)"

definition capability_new :: "rstring \<Rightarrow> u32 \<Rightarrow> (capability_error, capability) res" where
  "capability_new s v = res_bind (map_err CapInvalidId (capability_id_new s)) (\<lambda>i. capability_from_id i v)"

text \<open>Decoding checks the wire fields again: the id is parsed by \<open>CapabilityId::new\<close>.\<close>

definition capability_from_wire :: "rstring \<times> u32 \<Rightarrow> (rstring, capability) res" where
  "capability_from_wire w =
     res_bind (map_err show_capability_id_error (capability_id_new (fst w)))
       (\<lambda>i. map_err show_capability_error (capability_from_id i (snd w)))"

definition capability_to_wire :: "capability \<Rightarrow> rstring \<times> u32" where
  "capability_to_wire c = (cap_str (cap_id c), cap_version c)"

definition builtin_capabilities :: "rstring list" where
  "builtin_capabilities = map lit
     [''model.chat'', ''context.compose'', ''persona.context'', ''memory.recall'', ''memory.write'',
      ''companion.decide'', ''companion.mailbox'', ''scheduler.proactive'', ''storage.sessions'',
      ''tool.shell'', ''tool.patch'', ''tool.files'', ''tool.mcp'', ''tool.skills'',
      ''tool.multi-agent'', ''channel.weixin'', ''voice.transcribe'', ''voice.synthesize'']"

section \<open>The manifest\<close>

definition MANIFEST_SCHEMA_VERSION :: u32 where "MANIFEST_SCHEMA_VERSION = 1"
definition MAX_HOST_GROUP_BYTES :: nat where "MAX_HOST_GROUP_BYTES = 64"
definition MAX_MANIFEST_METADATA_BYTES :: nat where "MAX_MANIFEST_METADATA_BYTES = 128"
definition MAX_MANIFEST_CAPABILITIES :: nat where "MAX_MANIFEST_CAPABILITIES = 64"
definition MAX_MANIFEST_GRANTS :: nat where "MAX_MANIFEST_GRANTS = 32"

datatype grant_kind =
    Approval | WorkspaceRead | WorkspaceWrite | Network | Secret | Device | ProviderCredential | AgentDelegation

text \<open>The derived order is that of the declaration.\<close>

fun grant_rank :: "grant_kind \<Rightarrow> nat" where
  "grant_rank Approval = 0"
| "grant_rank WorkspaceRead = 1"
| "grant_rank WorkspaceWrite = 2"
| "grant_rank Network = 3"
| "grant_rank Secret = 4"
| "grant_rank Device = 5"
| "grant_rank ProviderCredential = 6"
| "grant_rank AgentDelegation = 7"

lemma grant_rank_inject: "grant_rank a = grant_rank b \<longleftrightarrow> a = b"
  by (cases a; cases b) auto

instantiation grant_kind :: linorder
begin

definition less_eq_grant_kind :: "grant_kind \<Rightarrow> grant_kind \<Rightarrow> bool" where
  "less_eq_grant_kind a b \<longleftrightarrow> grant_rank a \<le> grant_rank b"

definition less_grant_kind :: "grant_kind \<Rightarrow> grant_kind \<Rightarrow> bool" where
  "less_grant_kind a b \<longleftrightarrow> grant_rank a < grant_rank b"

instance
  by standard (auto simp: less_eq_grant_kind_def less_grant_kind_def grant_rank_inject)

end

fun show_grant_kind :: "grant_kind \<Rightarrow> rstring" where
  "show_grant_kind Approval = lit ''approval''"
| "show_grant_kind WorkspaceRead = lit ''workspace_read''"
| "show_grant_kind WorkspaceWrite = lit ''workspace_write''"
| "show_grant_kind Network = lit ''network''"
| "show_grant_kind Secret = lit ''secret''"
| "show_grant_kind Device = lit ''device''"
| "show_grant_kind ProviderCredential = lit ''provider_credential''"
| "show_grant_kind AgentDelegation = lit ''agent_delegation''"

datatype risk_level = Safe | External | HighRisk

fun default_enabled :: "risk_level \<Rightarrow> bool" where
  "default_enabled Safe = True"
| "default_enabled _ = False"

fun show_risk_level :: "risk_level \<Rightarrow> rstring" where
  "show_risk_level Safe = lit ''safe''"
| "show_risk_level External = lit ''external''"
| "show_risk_level HighRisk = lit ''high''"

record runtime_metadata =
  rm_host_group :: rstring
  rm_risk :: risk_level

definition default_runtime_metadata :: runtime_metadata where
  "default_runtime_metadata = \<lparr>rm_host_group = lit ''default'', rm_risk = Safe\<rparr>"

datatype grant_requirement = Required grant_kind | Optional grant_kind

fun grant_kind_of :: "grant_requirement \<Rightarrow> grant_kind" where
  "grant_kind_of (Required k) = k"
| "grant_kind_of (Optional k) = k"

fun is_required :: "grant_requirement \<Rightarrow> bool" where
  "is_required (Required k) = True"
| "is_required (Optional k) = False"

record manifest =
  mf_schema_version :: u32
  mf_plugin_id :: rstring
  mf_display_name :: rstring
  mf_plugin_version :: rstring
  mf_capabilities :: "capability list"
  mf_grants :: "grant_requirement list"
  mf_runtime :: "runtime_metadata option"

definition manifest_new :: "rstring \<Rightarrow> rstring \<Rightarrow> rstring \<Rightarrow> capability list \<Rightarrow> manifest" where
  "manifest_new i n v caps =
     \<lparr>mf_schema_version = MANIFEST_SCHEMA_VERSION, mf_plugin_id = i, mf_display_name = n,
      mf_plugin_version = v, mf_capabilities = caps, mf_grants = [], mf_runtime = None\<rparr>"

definition manifest_with_grants :: "grant_requirement list \<Rightarrow> manifest \<Rightarrow> manifest" where
  "manifest_with_grants gs m = m\<lparr>mf_grants := gs\<rparr>"

definition manifest_with_runtime :: "runtime_metadata \<Rightarrow> manifest \<Rightarrow> manifest" where
  "manifest_with_runtime r m = m\<lparr>mf_runtime := Some r\<rparr>"

datatype manifest_error =
    UnsupportedSchema u32 u32
  | EmptyField rstring
  | FieldTooLong rstring nat nat
  | NoCapabilities
  | TooManyCapabilities nat nat
  | MfDuplicateCapability rstring
  | TooManyGrants nat nat
  | DuplicateGrant grant_kind
  | EmptyHostGroup
  | HostGroupTooLong nat nat

fun show_manifest_error :: "manifest_error \<Rightarrow> rstring" where
  "show_manifest_error (UnsupportedSchema v e) =
     lit ''manifest schema '' @ show_nat (unat v) @ lit '' is unsupported; expected '' @ show_nat (unat e)"
| "show_manifest_error (EmptyField f) = lit ''manifest '' @ f @ lit '' cannot be empty''"
| "show_manifest_error (FieldTooLong f l m) =
     lit ''manifest '' @ f @ lit '' is '' @ show_nat l @ lit '' bytes; maximum is '' @ show_nat m"
| "show_manifest_error NoCapabilities = lit ''manifest must announce at least one capability''"
| "show_manifest_error (TooManyCapabilities c m) =
     lit ''manifest announces '' @ show_nat c @ lit '' capabilities; maximum is '' @ show_nat m"
| "show_manifest_error (MfDuplicateCapability c) =
     lit ''manifest announces capability '' @ quoted c @ lit '' more than once''"
| "show_manifest_error (TooManyGrants c m) =
     lit ''manifest declares '' @ show_nat c @ lit '' grants; maximum is '' @ show_nat m"
| "show_manifest_error (DuplicateGrant g) =
     lit ''manifest declares grant '' @ quoted (show_grant_kind g) @ lit '' more than once''"
| "show_manifest_error EmptyHostGroup = lit ''manifest host group cannot be empty''"
| "show_manifest_error (HostGroupTooLong l m) =
     lit ''manifest host group is '' @ show_nat l @ lit '' bytes; maximum is '' @ show_nat m"

definition validate_runtime :: "runtime_metadata \<Rightarrow> (manifest_error, unit) res" where
  "validate_runtime r =
     (if blank (rm_host_group r) then Inl EmptyHostGroup
      else if str_len (rm_host_group r) > MAX_HOST_GROUP_BYTES
        then Inl (HostGroupTooLong (str_len (rm_host_group r)) MAX_HOST_GROUP_BYTES)
      else Inr ())"

definition validate_metadata :: "rstring \<Rightarrow> rstring \<Rightarrow> (manifest_error, unit) res" where
  "validate_metadata field value =
     (if blank value then Inl (EmptyField field)
      else if str_len value > MAX_MANIFEST_METADATA_BYTES
        then Inl (FieldTooLong field (str_len value) MAX_MANIFEST_METADATA_BYTES)
      else Inr ())"

definition declares_required_grant :: "manifest \<Rightarrow> grant_kind \<Rightarrow> bool" where
  "declares_required_grant m k \<longleftrightarrow> (\<exists>r \<in> set (mf_grants m). grant_kind_of r = k \<and> is_required r)"

definition validate_manifest :: "manifest \<Rightarrow> (manifest_error, unit) res" where
  "validate_manifest m =
     (if mf_schema_version m \<noteq> MANIFEST_SCHEMA_VERSION
        then Inl (UnsupportedSchema (mf_schema_version m) MANIFEST_SCHEMA_VERSION)
      else
        res_bind (validate_metadata (lit ''plugin id'') (mf_plugin_id m)) (\<lambda>_.
        res_bind (validate_metadata (lit ''display name'') (mf_display_name m)) (\<lambda>_.
        res_bind (validate_metadata (lit ''plugin version'') (mf_plugin_version m)) (\<lambda>_.
        if mf_capabilities m = [] then Inl NoCapabilities
        else if length (mf_capabilities m) > MAX_MANIFEST_CAPABILITIES
          then Inl (TooManyCapabilities (length (mf_capabilities m)) MAX_MANIFEST_CAPABILITIES)
        else case first_dup (map (\<lambda>c. cap_str (cap_id c)) (mf_capabilities m)) of
          Some c \<Rightarrow> Inl (MfDuplicateCapability c)
        | None \<Rightarrow>
            if length (mf_grants m) > MAX_MANIFEST_GRANTS
              then Inl (TooManyGrants (length (mf_grants m)) MAX_MANIFEST_GRANTS)
            else case first_dup (map grant_kind_of (mf_grants m)) of
              Some g \<Rightarrow> Inl (DuplicateGrant g)
            | None \<Rightarrow> (case mf_runtime m of None \<Rightarrow> Inr () | Some r \<Rightarrow> validate_runtime r)))))"

section \<open>Invocations and messages\<close>

definition MAX_OPERATION_BYTES :: nat where "MAX_OPERATION_BYTES = 64"
definition PROTOCOL_VERSION :: u32 where "PROTOCOL_VERSION = 2"

datatype codec_error =
    ZeroRequestId
  | EmptyOperation
  | OperationTooLong nat nat
  | InvalidOperationCharacter nat rchar
  | CodecSerialize rstring
  | CodecDeserialize rstring

fun show_codec_error :: "codec_error \<Rightarrow> rstring" where
  "show_codec_error ZeroRequestId = lit ''request id must be greater than zero''"
| "show_codec_error EmptyOperation = lit ''operation cannot be empty''"
| "show_codec_error (OperationTooLong l m) =
     lit ''operation is '' @ show_nat l @ lit '' bytes; maximum is '' @ show_nat m"
| "show_codec_error (InvalidOperationCharacter i c) =
     lit ''operation contains unsupported character '' @ quoted [c] @ lit '' at byte '' @ show_nat i"
| "show_codec_error (CodecSerialize e) = lit ''failed to encode invocation payload: '' @ e"
| "show_codec_error (CodecDeserialize e) = lit ''failed to decode invocation payload: '' @ e"

definition validate_request_id :: "u64 \<Rightarrow> (codec_error, unit) res" where
  "validate_request_id r = (if r = 0 then Inl ZeroRequestId else Inr ())"

definition operation_char :: "rchar \<Rightarrow> bool" where
  "operation_char c \<longleftrightarrow> is_ascii_lowercase c \<or> is_ascii_digit c \<or>
     c = ch CHR ''.'' \<or> c = ch CHR ''-'' \<or> c = ch CHR ''_''"

definition validate_operation :: "rstring \<Rightarrow> (codec_error, unit) res" where
  "validate_operation operation =
     (if operation = [] then Inl EmptyOperation
      else if str_len operation > MAX_OPERATION_BYTES
        then Inl (OperationTooLong (str_len operation) MAX_OPERATION_BYTES)
      else case find (\<lambda>(i, c). \<not> operation_char c) (char_indices operation) of
        Some (i, c) \<Rightarrow> Inl (InvalidOperationCharacter i c)
      | None \<Rightarrow> Inr ())"

record 'v invocation_request =
  ir_request_id :: u64
  ir_capability :: capability
  ir_operation :: rstring
  ir_payload :: 'v

definition invocation_encode ::
  "('p \<Rightarrow> (rstring, 'v) res) \<Rightarrow> u64 \<Rightarrow> capability \<Rightarrow> rstring \<Rightarrow> 'p \<Rightarrow> (codec_error, 'v invocation_request) res" where
  "invocation_encode to_value request_id cap operation payload =
     res_bind (validate_request_id request_id) (\<lambda>_.
     res_bind (validate_operation operation) (\<lambda>_.
     res_bind (map_err CodecSerialize (to_value payload)) (\<lambda>v.
     Inr \<lparr>ir_request_id = request_id, ir_capability = cap, ir_operation = operation, ir_payload = v\<rparr>)))"

record 'v invocation_response =
  is_request_id :: u64
  is_payload :: 'v

definition response_encode ::
  "('p \<Rightarrow> (rstring, 'v) res) \<Rightarrow> u64 \<Rightarrow> 'p \<Rightarrow> (codec_error, 'v invocation_response) res" where
  "response_encode to_value request_id payload =
     res_bind (validate_request_id request_id) (\<lambda>_.
     res_bind (map_err CodecSerialize (to_value payload)) (\<lambda>v.
     Inr \<lparr>is_request_id = request_id, is_payload = v\<rparr>))"

definition request_payload :: "('v \<Rightarrow> (rstring, 'p) res) \<Rightarrow> 'v invocation_request \<Rightarrow> (codec_error, 'p) res" where
  "request_payload from_value r = map_err CodecDeserialize (from_value (ir_payload r))"

definition response_payload :: "('v \<Rightarrow> (rstring, 'p) res) \<Rightarrow> 'v invocation_response \<Rightarrow> (codec_error, 'p) res" where
  "response_payload from_value r = map_err CodecDeserialize (from_value (is_payload r))"

text \<open>What the deserializers of the two envelopes check of the wire fields.\<close>

definition request_from_wire :: "'v invocation_request \<Rightarrow> (rstring, 'v invocation_request) res" where
  "request_from_wire r =
     res_bind (map_err show_codec_error (validate_request_id (ir_request_id r))) (\<lambda>_.
     res_bind (map_err show_codec_error (validate_operation (ir_operation r))) (\<lambda>_. Inr r))"

definition response_from_wire :: "'v invocation_response \<Rightarrow> (rstring, 'v invocation_response) res" where
  "response_from_wire r =
     res_bind (map_err show_codec_error (validate_request_id (is_request_id r))) (\<lambda>_. Inr r)"

record hello =
  hl_protocol_version :: u32
  hl_plugin_id :: rstring
  hl_connection_token :: rstring
  hl_display_name :: rstring
  hl_plugin_version :: rstring
  hl_capabilities :: "capability list"
  hl_manifest :: "manifest option"

datatype 'v host_message =
    Welcome u32
  | Invoke "'v invocation_request"
  | Shutdown

datatype 'v plugin_message =
    Hello hello
  | Ready
  | InvocationCompleted "'v invocation_response"
  | InvocationFailed u64 rstring rstring bool

end
