(* ===== verification/Wire_Handshake.thy ===== *)
theory Wire_Handshake
  imports Wire_Contract
begin

text \<open>
  The readiness handshake, \<open>yunxi-protocol/src/handshake.rs\<close>: the host's acceptor and the
  plugin's side of the connection. Sockets, clocks and the environment of the plugin process are
  answers in a record; the text of a received message in an error (\<open>{message:?}\<close>) is an
  argument. Waiting for the connection polls every ten milliseconds up to a deadline, so the number
  of polls is bounded by the timeout.
\<close>

section \<open>Declarations\<close>

definition MAX_PLUGIN_METADATA_BYTES :: nat where "MAX_PLUGIN_METADATA_BYTES = 128"
definition MAX_PLUGIN_CAPABILITIES :: nat where "MAX_PLUGIN_CAPABILITIES = 64"
definition ACCEPT_POLL_MILLIS :: nat where "ACCEPT_POLL_MILLIS = 10"

record connection_info =
  ci_plugin_id :: rstring
  ci_display_name :: rstring
  ci_plugin_version :: rstring
  ci_capabilities :: "capability list"
  ci_manifest :: "manifest option"

definition supports :: "connection_info \<Rightarrow> rstring \<Rightarrow> u32 \<Rightarrow> bool" where
  "supports ci c v \<longleftrightarrow> (\<exists>d \<in> set (ci_capabilities ci). cap_str (cap_id d) = c \<and> cap_version d = v)"

fun validate_declaration_fields :: "(rstring \<times> rstring) list \<Rightarrow> (protocol_error, unit) res" where
  "validate_declaration_fields [] = Inr ()"
| "validate_declaration_fields ((field, value) # fs) =
     (if blank value then Inl (Handshake (lit ''plugin '' @ field @ lit '' cannot be empty''))
      else if str_len value > MAX_PLUGIN_METADATA_BYTES
        then Inl (Handshake (lit ''plugin '' @ field @ lit '' exceeds '' @ show_nat MAX_PLUGIN_METADATA_BYTES @ lit '' bytes''))
      else validate_declaration_fields fs)"

definition validate_declaration :: "rstring \<Rightarrow> rstring \<Rightarrow> capability list \<Rightarrow> (protocol_error, unit) res" where
  "validate_declaration display_name plugin_version caps =
     res_bind (validate_declaration_fields
         [(lit ''display name'', display_name), (lit ''plugin version'', plugin_version)]) (\<lambda>_.
       if caps = [] then Inl (Handshake (lit ''plugin must announce at least one capability''))
       else if length caps > MAX_PLUGIN_CAPABILITIES
         then Inl (Handshake (lit ''plugin announces more than '' @ show_nat MAX_PLUGIN_CAPABILITIES @ lit '' capabilities''))
       else case first_dup (map (\<lambda>c. cap_str (cap_id c)) caps) of
         Some c \<Rightarrow> Inl (Handshake (lit ''plugin announces capability '' @ quoted c @ lit '' more than once''))
       | None \<Rightarrow> Inr ())"

definition capability_pair :: "capability \<Rightarrow> rstring \<times> u32" where
  "capability_pair c = (cap_str (cap_id c), cap_version c)"

definition same_capabilities :: "capability list \<Rightarrow> capability list \<Rightarrow> bool" where
  "same_capabilities xs ys \<longleftrightarrow> set (map capability_pair xs) = set (map capability_pair ys)"

fun validate_identity_fields :: "(rstring \<times> rstring \<times> rstring) list \<Rightarrow> (protocol_error, unit) res" where
  "validate_identity_fields [] = Inr ()"
| "validate_identity_fields ((field, expected, received) # fs) =
     (if expected \<noteq> received
      then Inl (Handshake (lit ''manifest '' @ field @ lit '' '' @ quoted received @ lit '' does not match hello '' @ quoted expected))
      else validate_identity_fields fs)"

definition validate_manifest_identity ::
  "manifest \<Rightarrow> rstring \<Rightarrow> rstring \<Rightarrow> rstring \<Rightarrow> capability list \<Rightarrow> (protocol_error, unit) res" where
  "validate_manifest_identity m plugin_id display_name plugin_version caps =
     res_bind (validate_identity_fields
        [(lit ''plugin id'', plugin_id, mf_plugin_id m),
         (lit ''display name'', display_name, mf_display_name m),
         (lit ''plugin version'', plugin_version, mf_plugin_version m)]) (\<lambda>_.
       if \<not> same_capabilities caps (mf_capabilities m)
       then Inl (Handshake (lit ''manifest capabilities do not match hello capabilities''))
       else Inr ())"

section \<open>The host's side\<close>

definition check_hello :: "rstring \<Rightarrow> rstring \<Rightarrow> hello \<Rightarrow> (protocol_error, connection_info) res" where
  "check_hello token expected h =
     (if hl_protocol_version h \<noteq> PROTOCOL_VERSION
        then Inl (Handshake (lit ''plugin uses protocol '' @ show_nat (unat (hl_protocol_version h)) @
               lit ''; host uses '' @ show_nat (unat PROTOCOL_VERSION)))
      else if hl_plugin_id h \<noteq> expected
        then Inl (Handshake (lit ''expected plugin '' @ quoted expected @ lit '', received '' @ quoted (hl_plugin_id h)))
      else if hl_connection_token h \<noteq> token
        then Inl (Handshake (lit ''connection token did not match the launched plugin''))
      else
        res_bind (validate_declaration (hl_display_name h) (hl_plugin_version h) (hl_capabilities h)) (\<lambda>_.
        res_bind (case hl_manifest h of
            None \<Rightarrow> Inr ()
          | Some m \<Rightarrow>
              res_bind (map_err (\<lambda>e. Handshake (show_manifest_error e)) (validate_manifest m)) (\<lambda>_.
                validate_manifest_identity m (hl_plugin_id h) (hl_display_name h) (hl_plugin_version h) (hl_capabilities h))) (\<lambda>_.
        Inr \<lparr>ci_plugin_id = hl_plugin_id h, ci_display_name = hl_display_name h,
             ci_plugin_version = hl_plugin_version h, ci_capabilities = hl_capabilities h,
             ci_manifest = hl_manifest h\<rparr>)))"

datatype poll_answer = PollAccepted "rstring option" | PollWouldBlock bool | PollFailed rstring

text \<open>\<open>left\<close> polls may still find the deadline ahead: after it the clock must have passed it.\<close>

fun accept_stream :: "(nat \<Rightarrow> poll_answer) \<Rightarrow> nat \<Rightarrow> nat \<Rightarrow> rstring \<Rightarrow> nat \<Rightarrow> (protocol_error, unit) res" where
  "accept_stream poll timeout left expected n =
     (case poll n of
        PollAccepted None \<Rightarrow> Inr ()
      | PollAccepted (Some e) \<Rightarrow> Inl (PIo e)
      | PollFailed e \<Rightarrow> Inl (PIo e)
      | PollWouldBlock late \<Rightarrow>
          (let gone = Inl (Handshake (lit ''timed out after '' @ show_nat timeout @ lit '' ms waiting for '' @ quoted expected))
           in case left of
                0 \<Rightarrow> gone
              | Suc left' \<Rightarrow> if late then gone else accept_stream poll timeout left' expected (n + 1)))"

declare accept_stream.simps [simp del]

record 'v accept_env =
  ae_poll :: "nat \<Rightarrow> poll_answer"
  ae_transport :: "(protocol_error, unit) res"
  ae_first :: "(protocol_error, 'v plugin_message) res"
  ae_welcome :: "(protocol_error, unit) res"
  ae_second :: "(protocol_error, 'v plugin_message) res"
  ae_finish :: "(protocol_error, unit) res"

record acceptor =
  ac_address :: rstring
  ac_token :: rstring

text \<open>
  The messages the acceptor sends are returned beside the result: \<open>Welcome\<close> goes out only to a
  plugin whose hello has been checked.
\<close>

definition accept_sends :: "rstring \<Rightarrow> rstring \<Rightarrow> ('v plugin_message \<Rightarrow> rstring) \<Rightarrow> (protocol_error, 'v plugin_message) res \<Rightarrow> (protocol_error, connection_info) res" where
  "accept_sends token expected debug first =
     res_bind first (\<lambda>message. case message of
        Hello h \<Rightarrow> check_hello token expected h
      | _ \<Rightarrow> Inl (Handshake (lit ''expected hello, received '' @ debug message)))"

definition acceptor_accept ::
  "acceptor \<Rightarrow> rstring \<Rightarrow> nat \<Rightarrow> ('v plugin_message \<Rightarrow> rstring) \<Rightarrow> 'v accept_env \<Rightarrow>
     (protocol_error, connection_info) res \<times> 'v host_message list" where
  "acceptor_accept ac expected timeout debug env =
     (case res_bind (accept_stream (ae_poll env) timeout (timeout div ACCEPT_POLL_MILLIS + 1) expected 0) (\<lambda>_.
           res_bind (ae_transport env) (\<lambda>_.
           accept_sends (ac_token ac) expected debug (ae_first env))) of
        Inl e \<Rightarrow> (Inl e, [])
      | Inr info \<Rightarrow>
          (res_bind (ae_welcome env) (\<lambda>_.
           res_bind (ae_second env) (\<lambda>message.
           if message = Ready then res_bind (ae_finish env) (\<lambda>_. Inr info)
           else Inl (Handshake (lit ''expected ready, received '' @ debug message)))),
           [Welcome PROTOCOL_VERSION]))"

section \<open>The plugin's side\<close>

record 'v connect_env =
  ce_address :: "rstring option"
  ce_parse :: "rstring \<Rightarrow> (rstring, unit) res"
  ce_token :: "rstring option"
  ce_stream :: "(protocol_error, unit) res"
  ce_hello_sent :: "(protocol_error, unit) res"
  ce_welcome :: "(protocol_error, 'v host_message) res"
  ce_ready_sent :: "(protocol_error, unit) res"
  ce_finish :: "(protocol_error, unit) res"

definition hello_of :: "manifest \<Rightarrow> rstring \<Rightarrow> hello" where
  "hello_of m token =
     \<lparr>hl_protocol_version = PROTOCOL_VERSION, hl_plugin_id = mf_plugin_id m, hl_connection_token = token,
      hl_display_name = mf_display_name m, hl_plugin_version = mf_plugin_version m,
      hl_capabilities = mf_capabilities m, hl_manifest = Some m\<rparr>"

text \<open>Everything before the socket: what \<open>connect_plugin_with_manifest\<close> would send.\<close>

definition connect_hello :: "manifest \<Rightarrow> 'v connect_env \<Rightarrow> (protocol_error, hello) res" where
  "connect_hello m env =
     res_bind (map_err (\<lambda>e. Handshake (show_manifest_error e)) (validate_manifest m)) (\<lambda>_.
     res_bind (validate_declaration (mf_display_name m) (mf_plugin_version m) (mf_capabilities m)) (\<lambda>_.
     res_bind (case ce_address env of
         None \<Rightarrow> Inl (Handshake (lit ''environment variable YUNXI_PLUGIN_CONNECT_ADDRESS is missing''))
       | Some a \<Rightarrow> map_err (\<lambda>e. Handshake (lit ''invalid plugin connection address: '' @ e)) (ce_parse env a)) (\<lambda>_.
     case ce_token env of
         None \<Rightarrow> Inl (Handshake (lit ''environment variable YUNXI_PLUGIN_CONNECT_TOKEN is missing''))
       | Some token \<Rightarrow> Inr (hello_of m token))))"

definition connect_plugin_with_manifest ::
  "manifest \<Rightarrow> ('v host_message \<Rightarrow> rstring) \<Rightarrow> 'v connect_env \<Rightarrow> (protocol_error, unit) res \<times> 'v plugin_message list" where
  "connect_plugin_with_manifest m debug env =
     (case res_bind (connect_hello m env) (\<lambda>h. res_bind (ce_stream env) (\<lambda>_. Inr h)) of
        Inl e \<Rightarrow> (Inl e, [])
      | Inr h \<Rightarrow>
          (case res_bind (ce_hello_sent env) (\<lambda>_. res_bind (ce_welcome env) (\<lambda>message.
              case message of
                Welcome v \<Rightarrow>
                  if v = PROTOCOL_VERSION then Inr ()
                  else Inl (Handshake (lit ''host selected protocol '' @ show_nat (unat v) @
                         lit ''; plugin uses '' @ show_nat (unat PROTOCOL_VERSION)))
              | _ \<Rightarrow> Inl (Handshake (lit ''expected welcome, received '' @ debug message)))) of
             Inl e \<Rightarrow> (Inl e, [Hello h])
           | Inr _ \<Rightarrow> (res_bind (ce_ready_sent env) (\<lambda>_. ce_finish env), [Hello h, Ready])))"

definition connect_plugin_with_grants ::
  "rstring \<Rightarrow> rstring \<Rightarrow> rstring \<Rightarrow> capability list \<Rightarrow> grant_requirement list \<Rightarrow>
     ('v host_message \<Rightarrow> rstring) \<Rightarrow> 'v connect_env \<Rightarrow> (protocol_error, unit) res \<times> 'v plugin_message list" where
  "connect_plugin_with_grants i n v caps grants debug env =
     connect_plugin_with_manifest (manifest_with_grants grants (manifest_new i n v caps)) debug env"

definition connect_plugin ::
  "rstring \<Rightarrow> rstring \<Rightarrow> rstring \<Rightarrow> capability list \<Rightarrow>
     ('v host_message \<Rightarrow> rstring) \<Rightarrow> 'v connect_env \<Rightarrow> (protocol_error, unit) res \<times> 'v plugin_message list" where
  "connect_plugin i n v caps debug env = connect_plugin_with_grants i n v caps [] debug env"

section \<open>Capability identifiers\<close>

lemma capability_char_ascii: "capability_char c \<Longrightarrow> c < 128"
  by (auto simp: capability_char_def ascii_classes ch_def)

lemma validate_segments_ok:
  "validate_segments ss = Inr () \<longleftrightarrow> (\<forall>s \<in> set ss. starts_lowercase s \<and> \<not> ends_with_char s (ch CHR ''-''))"
  by (induction ss) auto

text \<open>One segment of a capability id: letters, digits and hyphens, a letter first, no hyphen last.\<close>

definition capability_segment :: "rstring \<Rightarrow> bool" where
  "capability_segment s \<longleftrightarrow> starts_lowercase s \<and> \<not> ends_with_char s (ch CHR ''-'') \<and>
     (\<forall>c \<in> set s. is_ascii_lowercase c \<or> is_ascii_digit c \<or> c = ch CHR ''-'')"

lemma segment_no_dot: "capability_segment s \<Longrightarrow> ch CHR ''.'' \<notin> set s"
  by (auto simp: capability_segment_def ascii_classes ch_def)

lemma segments_ne: "starts_lowercase s \<Longrightarrow> s \<noteq> []"
  by (auto simp: starts_lowercase_def)

lemma validate_capability_id_ok:
  "validate_capability_id s = Inr () \<longleftrightarrow>
     length s \<le> 128 \<and> 2 \<le> length (split_on (ch CHR ''.'') s) \<and> (\<forall>w \<in> set (split_on (ch CHR ''.'') s). capability_segment w)"
proof (cases "\<forall>c \<in> set s. capability_char c")
  case True
  then have "str_len s = length s" using capability_char_ascii by (intro ascii_len) blast
  moreover have "find (\<lambda>(i, c). \<not> capability_char c) (char_indices s) = None"
    unfolding find_chars_none using True .
  moreover have "c \<in> set w \<Longrightarrow> is_ascii_lowercase c \<or> is_ascii_digit c \<or> c = ch CHR ''-''"
    if "w \<in> set (split_on (ch CHR ''.'') s)" for w c
    using split_on_parts [OF that] True by (auto simp: capability_char_def)
  ultimately show ?thesis
    by (auto simp: validate_capability_id_def MAX_CAPABILITY_ID_BYTES_def Let_def validate_segments_ok
        capability_segment_def dest: segments_ne)
next
  case False
  then have "find (\<lambda>(i, c). \<not> capability_char c) (char_indices s) \<noteq> None" unfolding find_chars_none .
  moreover have "\<exists>w \<in> set (split_on (ch CHR ''.'') s). \<not> capability_segment w"
  proof (rule ccontr)
    assume "\<not> ?thesis"
    moreover have "set s \<subseteq> \<Union> (set ` set (split_on (ch CHR ''.'') s)) \<union> {ch CHR ''.''}"
      using set_join [of "[ch CHR ''.'']" "split_on (ch CHR ''.'') s"] by (simp add: join_split)
    ultimately have "\<forall>c \<in> set s. capability_char c"
      by (fastforce simp: capability_segment_def capability_char_def)
    with False show False by simp
  qed
  ultimately show ?thesis
    by (auto simp: validate_capability_id_def Let_def split: prod.splits)
qed

text \<open>The grammar of capability ids. A string is accepted exactly when it is at most 128 characters
  long and is two or more segments joined by dots, each made of lowercase ASCII letters, digits and
  hyphens, starting with a letter and not ending with a hyphen; the id is then the string itself.\<close>

theorem capability_id_grammar:
  "capability_id_new s = Inr i \<longleftrightarrow>
     i = CapabilityId s \<and> length s \<le> 128 \<and>
     (\<exists>ws. 2 \<le> length ws \<and> s = join [ch CHR ''.''] ws \<and> list_all capability_segment ws)"
proof -
  have "2 \<le> length (split_on (ch CHR ''.'') s) \<and> (\<forall>w \<in> set (split_on (ch CHR ''.'') s). capability_segment w) \<longleftrightarrow>
      (\<exists>ws. 2 \<le> length ws \<and> s = join [ch CHR ''.''] ws \<and> list_all capability_segment ws)" (is "?l \<longleftrightarrow> ?r")
  proof
    assume ?l
    then show ?r by (intro exI [of _ "split_on (ch CHR ''.'') s"]) (auto simp: join_split list_all_iff)
  next
    assume ?r
    then obtain ws where ws: "2 \<le> length ws" "s = join [ch CHR ''.''] ws" "list_all capability_segment ws" by blast
    then have "split_on (ch CHR ''.'') s = ws"
      using segment_no_dot by (auto simp: list_all_iff intro!: split_join)
    with ws show ?l by (simp add: list_all_iff)
  qed
  then show ?thesis
    using validate_capability_id_ok [of s] by (auto simp: capability_id_new_def)
qed

text \<open>Every built-in capability name is a valid capability id and no name is listed twice.\<close>

theorem builtin_capabilities_valid:
  "list_all (\<lambda>s. capability_id_new s = Inr (CapabilityId s)) builtin_capabilities \<and> distinct builtin_capabilities"
  by code_simp

section \<open>The handshake\<close>

lemma declaration_ok:
  "validate_declaration n v caps = Inr () \<longleftrightarrow>
     \<not> blank n \<and> str_len n \<le> 128 \<and> \<not> blank v \<and> str_len v \<le> 128 \<and>
     caps \<noteq> [] \<and> length caps \<le> 64 \<and> distinct (map cap_id caps)"
proof -
  have "distinct (map (\<lambda>c. cap_str (cap_id c)) caps) \<longleftrightarrow> distinct (map cap_id caps)"
    by (simp add: distinct_map inj_on_def capability_id.expand) (metis capability_id.expand)
  then show ?thesis
    by (auto simp: validate_declaration_def MAX_PLUGIN_METADATA_BYTES_def MAX_PLUGIN_CAPABILITIES_def
        simp flip: first_dup_None split: option.splits)
qed

lemma identity_ok:
  "validate_manifest_identity m i n v caps = Inr () \<longleftrightarrow>
     mf_plugin_id m = i \<and> mf_display_name m = n \<and> mf_plugin_version m = v \<and> same_capabilities caps (mf_capabilities m)"
  by (auto simp: validate_manifest_identity_def)

lemma check_hello_ok:
  "check_hello token expected h = Inr info \<longleftrightarrow>
     hl_protocol_version h = PROTOCOL_VERSION \<and> hl_plugin_id h = expected \<and> hl_connection_token h = token \<and>
     validate_declaration (hl_display_name h) (hl_plugin_version h) (hl_capabilities h) = Inr () \<and>
     (\<forall>m. hl_manifest h = Some m \<longrightarrow> validate_manifest m = Inr () \<and>
        validate_manifest_identity m (hl_plugin_id h) (hl_display_name h) (hl_plugin_version h) (hl_capabilities h) = Inr ()) \<and>
     info = \<lparr>ci_plugin_id = expected, ci_display_name = hl_display_name h, ci_plugin_version = hl_plugin_version h,
             ci_capabilities = hl_capabilities h, ci_manifest = hl_manifest h\<rparr>"
  by (auto simp: check_hello_def split: option.splits)

text \<open>C39: whom the host lets in. If the acceptor returns a session, the peer's first message was a hello
  of this protocol version that named the expected plugin and carried the acceptor's own token, its
  second message was \<open>Ready\<close>, and the session's description is that hello: a non-blank name and
  version, 1 to 64 capabilities without repetition, and any manifest valid and agreeing with the hello
  on identity and capabilities. A peer whose hello fails is never sent \<open>Welcome\<close>.\<close>

theorem acceptor_admits:
  assumes "acceptor_accept ac expected timeout debug env = (Inr info, sent)"
  shows "\<exists>h. ae_first env = Inr (Hello h) \<and> hl_protocol_version h = PROTOCOL_VERSION \<and>
     hl_plugin_id h = expected \<and> hl_connection_token h = ac_token ac \<and> ae_second env = Inr Ready \<and>
     ci_plugin_id info = expected \<and> ci_capabilities info = hl_capabilities h \<and>
     \<not> blank (ci_display_name info) \<and> \<not> blank (ci_plugin_version info) \<and>
     ci_capabilities info \<noteq> [] \<and> length (ci_capabilities info) \<le> 64 \<and> distinct (map cap_id (ci_capabilities info)) \<and>
     (case ci_manifest info of None \<Rightarrow> True | Some m \<Rightarrow>
        validate_manifest m = Inr () \<and> mf_plugin_id m = expected \<and>
        same_capabilities (ci_capabilities info) (mf_capabilities m)) \<and>
     sent = [Welcome PROTOCOL_VERSION]"
proof -
  obtain msg where msg: "ae_first env = Inr msg" "accept_sends (ac_token ac) expected debug (ae_first env) = Inr info"
      "ae_second env = Inr Ready" "sent = [Welcome PROTOCOL_VERSION]"
    using assms by (auto simp: acceptor_accept_def accept_sends_def split: sum.splits if_splits)
  then obtain h where h: "msg = Hello h" "check_hello (ac_token ac) expected h = Inr info"
    by (auto simp: accept_sends_def split: plugin_message.splits)
  show ?thesis
    using h(2) msg h(1) unfolding check_hello_ok declaration_ok identity_ok
    by (intro exI [of _ h]) (auto split: option.split)
qed

text \<open>the two ends of the handshake agree. What a plugin sends once its manifest, its address and
  its token have passed the plugin-side checks is a hello that the host accepts, when the token is the
  acceptor's and the manifest names the plugin the host launched; the host then sees exactly the
  plugin's manifest.\<close>

theorem handshake_interop:
  assumes "connect_hello m env = Inr h" and "ce_token env = Some token"
  shows "check_hello token (mf_plugin_id m) h =
     Inr \<lparr>ci_plugin_id = mf_plugin_id m, ci_display_name = mf_display_name m,
          ci_plugin_version = mf_plugin_version m, ci_capabilities = mf_capabilities m, ci_manifest = Some m\<rparr>"
proof -
  have "h = hello_of m token" "validate_manifest m = Inr ()"
      "validate_declaration (mf_display_name m) (mf_plugin_version m) (mf_capabilities m) = Inr ()"
    using assms by (auto simp: connect_hello_def split: option.splits)
  then show ?thesis by (simp add: check_hello_ok hello_of_def identity_ok same_capabilities_def)
qed

definition demo_manifest :: manifest where
  "demo_manifest = manifest_new (lit ''yunxi.demo'') (lit ''Demo'') (lit ''1.0'')
     [\<lparr>cap_id = CapabilityId (lit ''model.chat''), cap_version = 1\<rparr>]"

definition demo_connect :: "nat connect_env" where
  "demo_connect = \<lparr>ce_address = Some (lit ''127.0.0.1:9''), ce_parse = (\<lambda>_. Inr ()), ce_token = Some (lit ''t''),
     ce_stream = Inr (), ce_hello_sent = Inr (), ce_welcome = Inr (Welcome PROTOCOL_VERSION),
     ce_ready_sent = Inr (), ce_finish = Inr ()\<rparr>"

definition demo_accept :: "nat accept_env" where
  "demo_accept = \<lparr>ae_poll = (\<lambda>n. if n = 0 then PollWouldBlock False else PollAccepted None), ae_transport = Inr (),
     ae_first = Inr (Hello (hello_of demo_manifest (lit ''t''))), ae_welcome = Inr (), ae_second = Inr Ready,
     ae_finish = Inr ()\<rparr>"

lemma demo_valid:
  "validate_manifest demo_manifest = Inr ()"
  "validate_declaration (mf_display_name demo_manifest) (mf_plugin_version demo_manifest) (mf_capabilities demo_manifest) = Inr ()"
  by (simp_all add: demo_manifest_def manifest_new_def validate_manifest_def declaration_ok validate_metadata_def
      blank_iff lit_def utf8_width_def is_whitespace_def first_dup_def MAX_MANIFEST_METADATA_BYTES_def
      MAX_MANIFEST_CAPABILITIES_def MAX_MANIFEST_GRANTS_def)

lemma demo_hello: "connect_hello demo_manifest demo_connect = Inr (hello_of demo_manifest (lit ''t''))"
  by (simp add: connect_hello_def demo_valid demo_connect_def)

theorem handshake_interop_witness:
  "is_ok (check_hello (lit ''t'') (mf_plugin_id demo_manifest) (hello_of demo_manifest (lit ''t'')))"
  using handshake_interop [OF demo_hello, of "lit ''t''"] by (simp add: demo_connect_def)

lemma demo_accepts:
  "is_ok (fst (acceptor_accept \<lparr>ac_address = [], ac_token = lit ''t''\<rparr> (lit ''yunxi.demo'') 100 (\<lambda>_. []) demo_accept))"
proof -
  have "mf_plugin_id demo_manifest = lit ''yunxi.demo''" by (simp add: demo_manifest_def manifest_new_def)
  then have "\<exists>info. check_hello (lit ''t'') (lit ''yunxi.demo'') (hello_of demo_manifest (lit ''t'')) = Inr info"
    using demo_valid unfolding check_hello_ok by (simp add: hello_of_def identity_ok same_capabilities_def)
  moreover have "accept_stream (ae_poll demo_accept) 100 11 (lit ''yunxi.demo'') 0 = Inr ()"
    by (simp add: demo_accept_def accept_stream.simps eval_nat_numeral)
  ultimately show ?thesis
    by (auto simp: acceptor_accept_def accept_sends_def demo_accept_def ACCEPT_POLL_MILLIS_def is_ok_def split: sum.splits)
qed

theorem acceptor_admits_witness:
  "\<exists>info sent. acceptor_accept \<lparr>ac_address = [], ac_token = lit ''t''\<rparr> (lit ''yunxi.demo'') 100 (\<lambda>_. []) demo_accept =
     (Inr info, sent) \<and> ci_plugin_id info = lit ''yunxi.demo''"
proof -
  obtain info sent where run: "acceptor_accept \<lparr>ac_address = [], ac_token = lit ''t''\<rparr> (lit ''yunxi.demo'') 100 (\<lambda>_. []) demo_accept = (Inr info, sent)"
    using demo_accepts by (cases "acceptor_accept \<lparr>ac_address = [], ac_token = lit ''t''\<rparr> (lit ''yunxi.demo'') 100 (\<lambda>_. []) demo_accept")
      (auto simp: is_ok_def split: sum.splits)
  then show ?thesis using acceptor_admits [OF run] by blast
qed

end
