(* ===== verification/Capability_Catalog.thy ===== *)
theory Capability_Catalog
  imports Plugin_Kernel Wire_Handshake
begin

text \<open>
  The capability index of the plugin host, \<open>yunxi-plugin-host/src/catalog.rs\<close>: the registered
  plugins and, for every capability id, the set of plugins that announce it. The invariant is that
  the index is exactly the inverse of the records. \<open>route_table\<close> states what the process host
  relies on when it routes an invocation.
\<close>

section \<open>State and errors\<close>

record plugin_record =
  pr_id :: plugin_id
  pr_display_name :: rstring
  pr_version :: rstring
  pr_capabilities :: "capability list"
  pr_manifest :: "manifest option"

record catalog =
  cat_plugins :: "(plugin_id, plugin_record) btmap"
  cat_providers :: "(capability_id, plugin_id list) btmap"

definition catalog_new :: catalog where
  "catalog_new = \<lparr>cat_plugins = [], cat_providers = []\<rparr>"

datatype catalog_error =
    InvalidPluginId plugin_id_error
  | CDuplicatePlugin plugin_id
  | CDuplicateCapability plugin_id capability_id
  | MissingCapability rstring u32
  | AmbiguousCapability rstring u32 "plugin_id list"

definition show_route :: "rstring \<Rightarrow> u32 \<Rightarrow> rstring" where
  "show_route c v = quoted (c @ lit ''@'' @ show_nat (unat v))"

fun show_catalog_error :: "catalog_error \<Rightarrow> rstring" where
  "show_catalog_error (InvalidPluginId e) = lit ''invalid plugin id: '' @ show_plugin_id_error e"
| "show_catalog_error (CDuplicatePlugin i) = lit ''plugin '' @ quoted (pid_str i) @ lit '' is already registered''"
| "show_catalog_error (CDuplicateCapability i c) =
     lit ''plugin '' @ quoted (pid_str i) @ lit '' declares capability '' @ quoted (cap_str c) @ lit '' more than once''"
| "show_catalog_error (MissingCapability c v) = lit ''no plugin provides capability '' @ show_route c v"
| "show_catalog_error (AmbiguousCapability c v ps) =
     lit ''capability '' @ show_route c v @ lit '' has multiple providers: '' @ join (lit '', '') (map pid_str ps)"

section \<open>Operations\<close>

definition add_provider :: "plugin_id \<Rightarrow> (capability_id, plugin_id list) btmap \<Rightarrow> capability \<Rightarrow> (capability_id, plugin_id list) btmap" where
  "add_provider i m c =
     bt_insert (cap_id c) (bs_insert i (case bt_get m (cap_id c) of None \<Rightarrow> [] | Some ps \<Rightarrow> ps)) m"

definition register_with_manifest ::
  "plugin_id \<Rightarrow> rstring \<Rightarrow> rstring \<Rightarrow> capability list \<Rightarrow> manifest option \<Rightarrow> (catalog, catalog_error, unit) act" where
  "register_with_manifest i display_name version caps m = (\<lambda>cat.
     if bt_has (cat_plugins cat) i then (Inl (CDuplicatePlugin i), cat)
     else case first_dup (map cap_id caps) of
       Some c \<Rightarrow> (Inl (CDuplicateCapability i c), cat)
     | None \<Rightarrow>
         (Inr (), \<lparr>cat_plugins = bt_insert i \<lparr>pr_id = i, pr_display_name = display_name, pr_version = version,
                     pr_capabilities = caps, pr_manifest = m\<rparr> (cat_plugins cat),
                   cat_providers = foldl (add_provider i) (cat_providers cat) caps\<rparr>))"

definition catalog_register :: "plugin_id \<Rightarrow> rstring \<Rightarrow> rstring \<Rightarrow> capability list \<Rightarrow> (catalog, catalog_error, unit) act" where
  "catalog_register i n v caps = register_with_manifest i n v caps None"

definition register_connection :: "connection_info \<Rightarrow> (catalog, catalog_error, plugin_id) act" where
  "register_connection ci = act_bind (lift_res (map_err InvalidPluginId (plugin_id_new (ci_plugin_id ci)))) (\<lambda>i.
     act_bind (register_with_manifest i (ci_display_name ci) (ci_plugin_version ci) (ci_capabilities ci) (ci_manifest ci))
       (\<lambda>_. ret i))"

definition drop_provider :: "plugin_id \<Rightarrow> (capability_id, plugin_id list) btmap \<Rightarrow> capability \<Rightarrow> (capability_id, plugin_id list) btmap" where
  "drop_provider i m c =
     (case bt_get m (cap_id c) of
        None \<Rightarrow> m
      | Some ps \<Rightarrow>
          let ps' = bs_remove i ps; m' = bt_update (cap_id c) (\<lambda>_. ps') m
          in if ps' = [] then bt_remove (cap_id c) m' else m')"

definition unregister :: "plugin_id \<Rightarrow> catalog \<Rightarrow> plugin_record option \<times> catalog" where
  "unregister i cat =
     (case bt_get (cat_plugins cat) i of
        None \<Rightarrow> (None, cat)
      | Some r \<Rightarrow>
          (Some r, \<lparr>cat_plugins = bt_remove i (cat_plugins cat),
                    cat_providers = foldl (drop_provider i) (cat_providers cat) (pr_capabilities r)\<rparr>))"

definition catalog_plugin :: "plugin_id \<Rightarrow> catalog \<Rightarrow> plugin_record option" where
  "catalog_plugin i cat = bt_get (cat_plugins cat) i"

definition announces :: "plugin_record \<Rightarrow> rstring \<Rightarrow> u32 \<Rightarrow> bool" where
  "announces r c v \<longleftrightarrow> (\<exists>d \<in> set (pr_capabilities r). cap_str (cap_id d) = c \<and> cap_version d = v)"

definition providers :: "rstring \<Rightarrow> u32 \<Rightarrow> catalog \<Rightarrow> plugin_record list" where
  "providers c v cat =
     filter (\<lambda>r. announces r c v)
       (List.map_filter (bt_get (cat_plugins cat))
          (case bt_get (cat_providers cat) (CapabilityId c) of None \<Rightarrow> [] | Some ps \<Rightarrow> ps))"

definition resolve_unique :: "rstring \<Rightarrow> u32 \<Rightarrow> catalog \<Rightarrow> (catalog_error, plugin_record) res" where
  "resolve_unique c v cat =
     (case providers c v cat of
        [] \<Rightarrow> Inl (MissingCapability c v)
      | [r] \<Rightarrow> Inr r
      | rs \<Rightarrow> Inl (AmbiguousCapability c v (map pr_id rs)))"

definition plugin_count :: "catalog \<Rightarrow> nat" where
  "plugin_count cat = length (cat_plugins cat)"

definition capability_count :: "catalog \<Rightarrow> nat" where
  "capability_count cat = length (cat_providers cat)"

inductive catalog_step :: "catalog \<Rightarrow> catalog \<Rightarrow> bool" where
  step_register: "catalog_step cat (snd (register_with_manifest i n v caps m cat))"
| step_unregister: "catalog_step cat (snd (unregister i cat))"

inductive_cases catalog_stepE: "catalog_step cat cat'"

section \<open>The index invariant\<close>

definition provided_by :: "catalog \<Rightarrow> capability_id \<Rightarrow> plugin_id set" where
  "provided_by cat c = {i. \<exists>r. bt_get (cat_plugins cat) i = Some r \<and> c \<in> cap_id ` set (pr_capabilities r)}"

definition index_of :: "(capability_id, plugin_id list) btmap \<Rightarrow> capability_id \<Rightarrow> plugin_id set" where
  "index_of m c = (case bt_get m c of None \<Rightarrow> {} | Some ps \<Rightarrow> set ps)"

definition index_wf :: "(capability_id, plugin_id list) btmap \<Rightarrow> bool" where
  "index_wf m \<longleftrightarrow> bt_wf m \<and> (\<forall>c ps. bt_get m c = Some ps \<longrightarrow> bs_wf ps \<and> ps \<noteq> [])"

definition catalog_inv :: "catalog \<Rightarrow> bool" where
  "catalog_inv cat \<longleftrightarrow>
     bt_wf (cat_plugins cat) \<and> index_wf (cat_providers cat) \<and>
     (\<forall>i r. bt_get (cat_plugins cat) i = Some r \<longrightarrow> pr_id r = i \<and> distinct (map cap_id (pr_capabilities r))) \<and>
     (\<forall>c. index_of (cat_providers cat) c = provided_by cat c)"

lemma index_ext:
  assumes "index_wf m" "index_wf m'" "index_of m = index_of m'"
  shows "m = m'"
proof (rule bt_ext)
  show "bt_wf m" "bt_wf m'" using assms(1,2) by (simp_all add: index_wf_def)
  have "bt_get m c = bt_get m' c" for c
  proof -
    have eq: "index_of m c = index_of m' c" using assms(3) by simp
    show ?thesis
    proof (cases "bt_get m c")
      case None
      with eq assms(2) show ?thesis by (cases "bt_get m' c") (auto simp: index_of_def index_wf_def)
    next
      case (Some ps)
      then have "set ps = index_of m' c" "ps \<noteq> []"
        using eq assms(1) by (auto simp: index_of_def index_wf_def)
      then obtain ps' where "bt_get m' c = Some ps'" "set ps = set ps'"
        by (cases "bt_get m' c") (auto simp: index_of_def)
      with Some assms(1,2) show ?thesis by (auto simp: index_wf_def intro: bs_ext)
    qed
  qed
  then show "bt_get m = bt_get m'" by blast
qed

lemma bs_insert_ne [simp]: "bs_insert x xs \<noteq> []"
  by (cases xs) auto

lemma add_provider_spec:
  assumes "index_wf m"
  shows "index_wf (add_provider i m c) \<and>
    index_of (add_provider i m c) d = (if d = cap_id c then insert i (index_of m d) else index_of m d)"
  using assms by (cases "bt_get m (cap_id c)") (auto simp: add_provider_def index_wf_def index_of_def)

lemma add_providers_spec:
  "index_wf m \<Longrightarrow> index_wf (foldl (add_provider i) m cs) \<and>
     index_of (foldl (add_provider i) m cs) d =
       (if d \<in> cap_id ` set cs then insert i (index_of m d) else index_of m d)"
proof (induction cs arbitrary: m)
  case (Cons c cs)
  then show ?case using add_provider_spec [OF Cons.prems] by auto
qed simp

lemma drop_provider_spec:
  assumes "index_wf m"
  shows "index_wf (drop_provider i m c) \<and>
    index_of (drop_provider i m c) d = (if d = cap_id c then index_of m d - {i} else index_of m d)"
proof (cases "bt_get m (cap_id c)")
  case (Some ps)
  then have "bs_wf ps" using assms by (simp add: index_wf_def)
  moreover have "bs_remove i ps = [] \<Longrightarrow> set ps - {i} = {}" by (metis set_bs_remove set_empty)
  ultimately show ?thesis
    using assms Some by (auto simp: drop_provider_def index_wf_def index_of_def Let_def)
qed (use assms in \<open>auto simp: drop_provider_def index_of_def\<close>)

lemma drop_providers_spec:
  "index_wf m \<Longrightarrow> index_wf (foldl (drop_provider i) m cs) \<and>
     index_of (foldl (drop_provider i) m cs) d =
       (if d \<in> cap_id ` set cs then index_of m d - {i} else index_of m d)"
proof (induction cs arbitrary: m)
  case (Cons c cs)
  then show ?case using drop_provider_spec [OF Cons.prems] by auto
qed simp

lemma register_ok:
  "register_with_manifest i n v caps m cat = (Inr (), cat') \<longleftrightarrow>
     bt_get (cat_plugins cat) i = None \<and> distinct (map cap_id caps) \<and>
     cat' = \<lparr>cat_plugins = bt_insert i \<lparr>pr_id = i, pr_display_name = n, pr_version = v, pr_capabilities = caps, pr_manifest = m\<rparr>
               (cat_plugins cat), cat_providers = foldl (add_provider i) (cat_providers cat) caps\<rparr>"
  by (auto simp: register_with_manifest_def bt_has_def simp flip: first_dup_None split: option.split)

lemma register_error: "register_with_manifest i n v caps m cat = (Inl e, cat') \<Longrightarrow> cat' = cat"
  by (auto simp: register_with_manifest_def split: if_splits option.splits)

lemma register_inv:
  assumes "catalog_inv cat"
  shows "catalog_inv (snd (register_with_manifest i n v caps m cat))"
proof (cases "fst (register_with_manifest i n v caps m cat)")
  case (Inl e)
  then show ?thesis using register_error [of i n v caps m cat e] assms by (metis prod.collapse)
next
  case (Inr u)
  then have "register_with_manifest i n v caps m cat = (Inr (), snd (register_with_manifest i n v caps m cat))"
    by (metis old.unit.exhaust prod.collapse)
  from this [unfolded register_ok] show ?thesis
    using assms add_providers_spec [of "cat_providers cat" i caps]
    by (auto simp: catalog_inv_def provided_by_def)
qed

lemma unregister_inv: "catalog_inv cat \<Longrightarrow> catalog_inv (snd (unregister i cat))"
proof (cases "bt_get (cat_plugins cat) i")
  case (Some r)
  assume inv: "catalog_inv cat"
  have "index_of (foldl (drop_provider i) (cat_providers cat) (pr_capabilities r)) c =
      provided_by \<lparr>cat_plugins = bt_remove i (cat_plugins cat),
        cat_providers = foldl (drop_provider i) (cat_providers cat) (pr_capabilities r)\<rparr> c" for c
    using inv Some drop_providers_spec [of "cat_providers cat" i "pr_capabilities r" c]
    by (auto simp: catalog_inv_def provided_by_def split: if_splits)
  then show ?thesis
    using inv Some drop_providers_spec [of "cat_providers cat" i "pr_capabilities r"]
    by (auto simp: unregister_def catalog_inv_def)
qed (simp add: unregister_def)

lemma catalog_new_inv [simp]: "catalog_inv catalog_new"
  by (simp add: catalog_inv_def catalog_new_def index_wf_def index_of_def provided_by_def)

interpretation catalog_c: component "\<lambda>cat. cat = catalog_new" catalog_step catalog_inv
  by unfold_locales (auto elim!: catalog_stepE intro: register_inv unregister_inv)

section \<open>Routing as an interface\<close>

text \<open>
  What a router relies on: registering and removing keep the table well formed, a route leads to a
  registered plugin that announces the capability, a removed plugin is on no route, and removing one
  plugin does not change who else is registered.
\<close>

locale route_table =
  fixes inv :: "'c \<Rightarrow> bool"
    and known :: "'c \<Rightarrow> 'p \<Rightarrow> bool"
    and remove :: "'p \<Rightarrow> 'c \<Rightarrow> 'c"
    and route :: "'k \<Rightarrow> 'c \<Rightarrow> 'p option"
    and offers :: "'c \<Rightarrow> 'p \<Rightarrow> 'k \<Rightarrow> bool"
  assumes remove_inv: "inv c \<Longrightarrow> inv (remove p c)"
    and remove_known: "inv c \<Longrightarrow> known (remove p c) q \<longleftrightarrow> q \<noteq> p \<and> known c q"
    and route_known: "inv c \<Longrightarrow> route k c = Some p \<Longrightarrow> known c p"
    and route_offers: "inv c \<Longrightarrow> route k c = Some p \<Longrightarrow> offers c p k"
    and route_unique: "inv c \<Longrightarrow> route k c = Some p \<Longrightarrow> offers c q k \<Longrightarrow> q = p"
begin

lemma removed_unrouted: "inv c \<Longrightarrow> route k (remove p c) \<noteq> Some p"
  using remove_inv remove_known route_known by blast

lemma remove_all_inv: "inv c \<Longrightarrow> inv (foldl (\<lambda>c p. remove p c) c ps)"
  by (induction ps arbitrary: c) (auto intro: remove_inv)

lemma remove_all_known:
  "inv c \<Longrightarrow> known (foldl (\<lambda>c p. remove p c) c ps) q \<longleftrightarrow> q \<notin> set ps \<and> known c q"
  by (induction ps arbitrary: c) (auto simp: remove_known remove_inv)

end

definition listed :: "catalog \<Rightarrow> capability_id \<Rightarrow> plugin_id list" where
  "listed cat c = (case bt_get (cat_providers cat) c of None \<Rightarrow> [] | Some ps \<Rightarrow> ps)"

lemma listed_spec:
  assumes "catalog_inv cat"
  shows "set (listed cat c) = provided_by cat c" "distinct (listed cat c)"
proof -
  have "set (listed cat c) = index_of (cat_providers cat) c" by (simp add: listed_def index_of_def split: option.split)
  then show "set (listed cat c) = provided_by cat c" using assms by (simp add: catalog_inv_def)
  show "distinct (listed cat c)"
    using assms by (auto simp: listed_def catalog_inv_def index_wf_def bs_wf_def strict_sorted_iff split: option.split)
qed

lemma map_filter_set:
  "set (List.map_filter f xs) = {y. \<exists>x \<in> set xs. f x = Some y}"
  by (induction xs) (auto simp: map_filter_simps split: option.splits)

lemma map_filter_distinct:
  "distinct xs \<Longrightarrow> (\<And>x y z. f x = Some z \<Longrightarrow> f y = Some z \<Longrightarrow> x = y) \<Longrightarrow> distinct (List.map_filter f xs)"
  by (induction xs) (auto simp: map_filter_simps map_filter_set split: option.split)

lemma providers_spec:
  assumes "catalog_inv cat"
  shows "set (providers c v cat) = {r. bt_get (cat_plugins cat) (pr_id r) = Some r \<and> announces r c v}"
    and "distinct (providers c v cat)"
proof -
  note ps = listed_spec [OF assms, of "CapabilityId c"]
  have ids: "bt_get (cat_plugins cat) i = Some r \<Longrightarrow> pr_id r = i" for i r using assms by (auto simp: catalog_inv_def)
  have ann: "announces r c v \<Longrightarrow> CapabilityId c \<in> cap_id ` set (pr_capabilities r)" for r
    by (metis announces_def capability_id.collapse imageI)
  show "set (providers c v cat) = {r. bt_get (cat_plugins cat) (pr_id r) = Some r \<and> announces r c v}"
    using ps(1) ids ann by (fastforce simp: providers_def map_filter_set provided_by_def simp flip: listed_def)
  show "distinct (providers c v cat)"
    unfolding providers_def listed_def [symmetric] using ps(2) ids by (intro distinct_filter map_filter_distinct) auto
qed

lemma resolve_ok:
  assumes "catalog_inv cat"
  shows "resolve_unique c v cat = Inr r \<longleftrightarrow>
     {q. bt_get (cat_plugins cat) (pr_id q) = Some q \<and> announces q c v} = {r}"
proof -
  have "resolve_unique c v cat = Inr r \<longleftrightarrow> providers c v cat = [r]"
    by (auto simp: resolve_unique_def split: list.splits)
  also have "\<dots> \<longleftrightarrow> set (providers c v cat) = {r}"
    using providers_spec(2) [OF assms, of c v] distinct_card [of "providers c v cat"]
    by (cases "providers c v cat"; cases "tl (providers c v cat)") auto
  finally show ?thesis by (simp add: providers_spec(1) [OF assms])
qed

lemma unregister_get:
  "bt_get (cat_plugins (snd (unregister i cat))) = (bt_get (cat_plugins cat))(i := None)"
  by (cases "bt_get (cat_plugins cat) i") (auto simp: unregister_def fun_upd_idem)

definition route_of :: "rstring \<times> u32 \<Rightarrow> catalog \<Rightarrow> plugin_id option" where
  "route_of k cat = (case resolve_unique (fst k) (snd k) cat of Inl e \<Rightarrow> None | Inr r \<Rightarrow> Some (pr_id r))"

definition registered :: "catalog \<Rightarrow> plugin_id \<Rightarrow> bool" where
  "registered cat i \<longleftrightarrow> bt_get (cat_plugins cat) i \<noteq> None"

definition offers :: "catalog \<Rightarrow> plugin_id \<Rightarrow> rstring \<times> u32 \<Rightarrow> bool" where
  "offers cat i k \<longleftrightarrow> (\<exists>r. bt_get (cat_plugins cat) i = Some r \<and> announces r (fst k) (snd k))"

lemma route_of_Some:
  assumes "catalog_inv cat" "route_of k cat = Some i"
  shows "\<exists>r. bt_get (cat_plugins cat) i = Some r \<and> announces r (fst k) (snd k) \<and>
     (\<forall>j q. bt_get (cat_plugins cat) j = Some q \<longrightarrow> announces q (fst k) (snd k) \<longrightarrow> j = i)"
proof -
  obtain r where r: "resolve_unique (fst k) (snd k) cat = Inr r" "pr_id r = i"
    using assms(2) by (auto simp: route_of_def split: sum.splits)
  note set = r(1) [unfolded resolve_ok [OF assms(1)]]
  have ids: "bt_get (cat_plugins cat) j = Some q \<Longrightarrow> pr_id q = j" for j q using assms(1) by (auto simp: catalog_inv_def)
  have r': "bt_get (cat_plugins cat) (pr_id r) = Some r" "announces r (fst k) (snd k)" using set by blast+
  have "j = i" if "bt_get (cat_plugins cat) j = Some q" "announces q (fst k) (snd k)" for j q
  proof -
    have "q = r" using set that ids [OF that(1)] by blast
    then show ?thesis using ids [OF that(1)] r(2) by simp
  qed
  then show ?thesis using r' r(2) by blast
qed

interpretation catalog_routes: route_table catalog_inv registered "\<lambda>i cat. snd (unregister i cat)" route_of offers
proof unfold_locales
  show "catalog_inv (snd (unregister p c))" if "catalog_inv c" for c p using unregister_inv that .
  show "registered (snd (unregister p c)) q = (q \<noteq> p \<and> registered c q)" for c p q
    by (simp add: registered_def unregister_get)
  show "registered c p" if "catalog_inv c" "route_of k c = Some p" for c k p
    using route_of_Some [OF that] by (auto simp: registered_def)
  show "offers c p k" if "catalog_inv c" "route_of k c = Some p" for c k p
    using route_of_Some [OF that] by (auto simp: offers_def)
  show "q = p" if "catalog_inv c" "route_of k c = Some p" "offers c q k" for c k p q
    using route_of_Some [OF that(1,2)] that(3) by (auto simp: offers_def)
qed

section \<open>Properties\<close>

abbreviation catalog_reachable :: "catalog \<Rightarrow> bool" where
  "catalog_reachable \<equiv> reach (\<lambda>cat. cat = catalog_new) catalog_step"

text \<open>An invocation is routed exactly when there is one plugin to route it to. In every catalog the
  host can build by registering and removing plugins, resolving a capability and version returns a
  plugin exactly when that plugin is registered, announces that version of that capability, and no
  other registered plugin does.\<close>

theorem resolve_unique_exact:
  assumes "catalog_reachable cat"
  shows "resolve_unique c v cat = Inr r \<longleftrightarrow>
    {q. catalog_plugin (pr_id q) cat = Some q \<and> announces q c v} = {r}"
  using resolve_ok [OF catalog_c.reach_inv [OF assms]] by (simp add: catalog_plugin_def)

definition demo_cap :: capability where
  "demo_cap = \<lparr>cap_id = CapabilityId (lit ''model.chat''), cap_version = 1\<rparr>"

definition demo_catalog :: catalog where
  "demo_catalog = snd (catalog_register (PluginId (lit ''p'')) [] [] [demo_cap] catalog_new)"

lemma demo_catalog_reachable: "catalog_reachable demo_catalog"
  unfolding demo_catalog_def catalog_register_def
proof (rule reach_step)
  show "catalog_reachable catalog_new" by (rule reach_start) simp
qed (rule step_register)

theorem resolve_unique_exact_witness:
  "\<exists>r. resolve_unique (lit ''model.chat'') 1 demo_catalog = Inr r \<and> pr_id r = PluginId (lit ''p'')"
proof -
  have "{q. catalog_plugin (pr_id q) demo_catalog = Some q \<and> announces q (lit ''model.chat'') 1} =
      {\<lparr>pr_id = PluginId (lit ''p''), pr_display_name = [], pr_version = [], pr_capabilities = [demo_cap], pr_manifest = None\<rparr>}"
    by (auto simp: demo_catalog_def catalog_register_def register_with_manifest_def catalog_new_def bt_has_def
        first_dup_def catalog_plugin_def announces_def demo_cap_def split: if_splits)
  then show ?thesis using resolve_unique_exact [OF demo_catalog_reachable] by fastforce
qed

text \<open>Removing what was just registered leaves no trace. In every reachable catalog, if a plugin can
  be registered, then unregistering it returns its record and restores the very catalog there was
  before, index included; and a registration that is refused changes nothing.\<close>

theorem register_unregister_inverse:
  assumes "catalog_reachable cat"
  shows "(case register_with_manifest i n v caps m cat of
      (Inr _, cat') \<Rightarrow> unregister i cat' =
         (Some \<lparr>pr_id = i, pr_display_name = n, pr_version = v, pr_capabilities = caps, pr_manifest = m\<rparr>, cat)
    | (Inl _, cat') \<Rightarrow> cat' = cat)"
proof (cases "fst (register_with_manifest i n v caps m cat)")
  case (Inl e)
  then show ?thesis using register_error [of i n v caps m cat e] by (auto split: prod.split)
next
  case (Inr u)
  let ?cat' = "snd (register_with_manifest i n v caps m cat)"
  let ?r = "\<lparr>pr_id = i, pr_display_name = n, pr_version = v, pr_capabilities = caps, pr_manifest = m\<rparr>"
  have inv: "catalog_inv cat" using catalog_c.reach_inv [OF assms] .
  have ok: "register_with_manifest i n v caps m cat = (Inr (), ?cat')" using Inr by (metis old.unit.exhaust prod.collapse)
  note cat' = ok [unfolded register_ok]
  let ?idx = "foldl (drop_provider i) (foldl (add_provider i) (cat_providers cat) caps) caps"
  have wf: "index_wf (cat_providers cat)" "bt_wf (cat_plugins cat)" using inv by (auto simp: catalog_inv_def)
  have "i \<notin> index_of (cat_providers cat) c" for c using inv cat' by (auto simp: catalog_inv_def provided_by_def)
  then have "?idx = cat_providers cat"
    using add_providers_spec [OF wf(1), of i caps] drop_providers_spec [of "foldl (add_provider i) (cat_providers cat) caps" i caps] wf(1)
    by (intro index_ext) (auto simp: fun_eq_iff)
  moreover have "bt_remove i (bt_insert i ?r (cat_plugins cat)) = cat_plugins cat"
    using cat' wf(2) by (intro btree.del_put) auto
  ultimately have "unregister i ?cat' = (Some ?r, cat)" using cat' by (simp add: unregister_def)
  then show ?thesis by (subst ok) simp
qed

theorem register_unregister_inverse_witness:
  "snd (unregister (PluginId (lit ''q'')) (snd (catalog_register (PluginId (lit ''q'')) [] [] [demo_cap] demo_catalog))) = demo_catalog"
proof -
  have "fst (catalog_register (PluginId (lit ''q'')) [] [] [demo_cap] demo_catalog) = Inr ()"
    by (simp add: demo_catalog_def catalog_register_def register_with_manifest_def catalog_new_def bt_has_def
        first_dup_def lit_def)
  then show ?thesis
    using register_unregister_inverse [OF demo_catalog_reachable, of "PluginId (lit ''q'')" "[]" "[]" "[demo_cap]" None]
    by (auto simp: catalog_register_def split: prod.splits)
qed

end
