(* ===== verification/Plugin_Host.thy ===== *)
theory Plugin_Host
  imports Retry_Control Capability_Catalog "HOL-Library.Product_Lexorder"
begin

text \<open>
  The process plugin host, \<open>yunxi-plugin-host/src/runtime.rs\<close>: it launches plugins under the
  kernel, shakes hands with them, routes invocations over the catalog and restarts what fails.

  The world outside the host is the sequence \<open>E\<close> of answers it gives: the \<open>n\<close>-th time the
  host turns to the kernel, a socket or the clock it reads \<open>E n\<close>, and \<open>h_tick\<close> counts. What
  the supervisors have queued by then (\<open>he_arrivals\<close>) reaches the kernel's queue first. Every
  theorem holds for every such sequence. Waiting for a plugin to stop polls every ten milliseconds
  against a two-second deadline, so it takes at most 200 polls.
\<close>

section \<open>Launch contracts\<close>

definition DEFAULT_HANDSHAKE_MILLIS :: nat where "DEFAULT_HANDSHAKE_MILLIS = 5000"
definition DEFAULT_WRITE_MILLIS :: nat where "DEFAULT_WRITE_MILLIS = 10000"
definition STOP_WAIT_MILLIS :: nat where "STOP_WAIT_MILLIS = 2000"
definition STOP_POLL_MILLIS :: nat where "STOP_POLL_MILLIS = 10"

record plugin_launch =
  pl_id :: plugin_id
  pl_display_name :: rstring
  pl_command :: plugin_command
  pl_handshake_timeout :: nat
  pl_read_timeout :: "nat option"
  pl_write_timeout :: "nat option"
  pl_required_grants :: "grant_kind list"
  pl_expected_capabilities :: "capability list option"

definition launch_new :: "plugin_id \<Rightarrow> plugin_command \<Rightarrow> plugin_launch" where
  "launch_new i c =
     \<lparr>pl_id = i, pl_display_name = pid_str i, pl_command = c, pl_handshake_timeout = DEFAULT_HANDSHAKE_MILLIS,
      pl_read_timeout = None, pl_write_timeout = Some DEFAULT_WRITE_MILLIS, pl_required_grants = [],
      pl_expected_capabilities = None\<rparr>"

definition launch_with_display_name :: "rstring \<Rightarrow> plugin_launch \<Rightarrow> plugin_launch" where
  "launch_with_display_name n l = (if \<not> blank n then l\<lparr>pl_display_name := n\<rparr> else l)"

definition launch_with_handshake_timeout :: "nat \<Rightarrow> plugin_launch \<Rightarrow> plugin_launch" where
  "launch_with_handshake_timeout t l = l\<lparr>pl_handshake_timeout := t\<rparr>"

definition launch_with_io_timeouts :: "nat option \<Rightarrow> nat option \<Rightarrow> plugin_launch \<Rightarrow> plugin_launch" where
  "launch_with_io_timeouts r w l = l\<lparr>pl_read_timeout := r, pl_write_timeout := w\<rparr>"

definition launch_with_required_grants :: "grant_kind list \<Rightarrow> plugin_launch \<Rightarrow> plugin_launch" where
  "launch_with_required_grants gs l = l\<lparr>pl_required_grants := remdups_adj (sort gs)\<rparr>"

definition launch_with_expected_capabilities :: "capability list \<Rightarrow> plugin_launch \<Rightarrow> plugin_launch" where
  "launch_with_expected_capabilities caps l =
     l\<lparr>pl_expected_capabilities := Some (remdups_adj (sort_key capability_pair caps))\<rparr>"

fun declared_grants :: "rstring \<Rightarrow> manifest \<Rightarrow> grant_kind list \<Rightarrow> (protocol_error, unit) res" where
  "declared_grants plugin m [] = Inr ()"
| "declared_grants plugin m (g # gs) =
     (if \<not> declares_required_grant m g
      then Inl (Handshake (lit ''plugin '' @ quoted plugin @ lit '' manifest does not declare required grant '' @ quoted (show_grant_kind g)))
      else declared_grants plugin m gs)"

definition validate_required_grants :: "connection_info \<Rightarrow> grant_kind list \<Rightarrow> (protocol_error, unit) res" where
  "validate_required_grants ci gs =
     (if gs = [] then Inr ()
      else case ci_manifest ci of
        None \<Rightarrow> Inl (Handshake (lit ''plugin '' @ quoted (ci_plugin_id ci) @
                  lit '' must provide a manifest declaring required grants: '' @ join (lit '', '') (map show_grant_kind gs)))
      | Some m \<Rightarrow> declared_grants (ci_plugin_id ci) m gs)"

definition format_capability_keys :: "(rstring \<times> u32) list \<Rightarrow> rstring" where
  "format_capability_keys ks =
     (if ks = [] then lit ''<none>''
      else join (lit '', '') (map (\<lambda>(i, v). i @ lit ''@'' @ show_nat (unat v)) ks))"

definition validate_expected_capabilities :: "connection_info \<Rightarrow> capability list option \<Rightarrow> (protocol_error, unit) res" where
  "validate_expected_capabilities ci expected =
     (case expected of
        None \<Rightarrow> Inr ()
      | Some caps \<Rightarrow>
          let want = bs_of_list (map capability_pair caps);
              got = bs_of_list (map capability_pair (ci_capabilities ci))
          in if want = got then Inr ()
             else Inl (Handshake (lit ''plugin '' @ quoted (ci_plugin_id ci) @
                    lit '' announced capabilities outside its launch contract (expected: '' @
                    format_capability_keys want @ lit ''; received: '' @ format_capability_keys got @ lit '')'')))"

section \<open>State, errors and the outside world\<close>

datatype host_error =
    HKernel kernel_error
  | HCatalog catalog_error
  | HProtocol protocol_error
  | HPanic

fun show_host_error :: "host_error \<Rightarrow> rstring" where
  "show_host_error (HKernel e) = lit ''kernel operation failed: '' @ show_kernel_error e"
| "show_host_error (HCatalog e) = lit ''capability catalog failed: '' @ show_catalog_error e"
| "show_host_error (HProtocol e) = lit ''plugin protocol failed: '' @ show_protocol_error e"
| "show_host_error HPanic = []"

datatype call_error =
    Route catalog_error
  | Codec codec_error
  | Unavailable plugin_id rstring
  | Rejected plugin_id rstring rstring bool
  | ProtocolViolation plugin_id rstring

fun show_call_error :: "call_error \<Rightarrow> rstring" where
  "show_call_error (Route e) = show_catalog_error e"
| "show_call_error (Codec e) = show_codec_error e"
| "show_call_error (Unavailable i m) = lit ''plugin '' @ quoted (pid_str i) @ lit '' is unavailable: '' @ m"
| "show_call_error (Rejected i c m retryable) =
     lit ''plugin '' @ quoted (pid_str i) @ lit '' rejected the request ('' @ c @ lit ''): '' @ m @
     (if retryable then lit '' [retryable]'' else [])"
| "show_call_error (ProtocolViolation i m) =
     lit ''plugin '' @ quoted (pid_str i) @ lit '' violated the protocol: '' @ m"

record host_slot =
  hs_launch :: plugin_launch
  hs_acceptor :: acceptor
  hs_retry :: retry_controller

definition host_slot_new :: "plugin_launch \<Rightarrow> acceptor \<Rightarrow> host_slot" where
  "host_slot_new l a = \<lparr>hs_launch = l, hs_acceptor = a, hs_retry = retry_default\<rparr>"

text \<open>\<open>cn_session\<close> names the socket: the one accepted for that generation of that plugin.\<close>

record connection =
  cn_generation :: u64
  cn_info :: connection_info
  cn_session :: sup_handle

record 'v host =
  h_kernel :: kernel
  h_catalog :: catalog
  h_conns :: "(plugin_id, connection) btmap"
  h_slots :: "(plugin_id, host_slot) btmap"
  h_next :: u64
  h_tick :: nat
  h_sent :: "(sup_handle \<times> 'v host_message) list"

record 'v host_env =
  he_kernel :: kernel_env
  he_arrivals :: "sup_event list"
  he_bind :: "(protocol_error, acceptor) res"
  he_accept :: "'v accept_env"
  he_timeouts :: "(protocol_error, unit) res"
  he_send :: "sup_handle \<Rightarrow> (protocol_error, unit) res"
  he_receive :: "sup_handle \<Rightarrow> (protocol_error, 'v plugin_message) res"
  he_late :: bool

type_synonym 'v outside = "nat \<Rightarrow> 'v host_env"

definition host_new :: "'v host" where
  "host_new = \<lparr>h_kernel = kernel_new, h_catalog = catalog_new, h_conns = [], h_slots = [], h_next = 1,
               h_tick = 0, h_sent = []\<rparr>"

section \<open>Reaching the kernel and the sockets\<close>

definition deliver :: "sup_event list \<Rightarrow> kernel \<Rightarrow> kernel" where
  "deliver es k = k\<lparr>k_events := k_events k @ es\<rparr>"

definition with_kernel :: "'v outside \<Rightarrow> (kernel_env \<Rightarrow> kernel \<Rightarrow> 'r \<times> kernel) \<Rightarrow> 'v host \<Rightarrow> 'r \<times> 'v host" where
  "with_kernel E f h =
     (let env = E (h_tick h) in
      case f (he_kernel env) (deliver (he_arrivals env) (h_kernel h)) of
        (r, k) \<Rightarrow> (r, h\<lparr>h_kernel := k, h_tick := h_tick h + 1\<rparr>))"

definition h_refresh :: "'v outside \<Rightarrow> 'v host \<Rightarrow> 'v host" where
  "h_refresh E h = snd (with_kernel E (\<lambda>env k. ((), fst (refresh env k))) h)"

definition ask :: "'v outside \<Rightarrow> ('v host_env \<Rightarrow> 'r) \<Rightarrow> 'v host \<Rightarrow> 'r \<times> 'v host" where
  "ask E f h = (f (E (h_tick h)), h\<lparr>h_tick := h_tick h + 1\<rparr>)"

definition send_to :: "'v outside \<Rightarrow> connection \<Rightarrow> 'v host_message \<Rightarrow> 'v host \<Rightarrow> (protocol_error, unit) res \<times> 'v host" where
  "send_to E c m h = ask E (\<lambda>env. he_send env (cn_session c)) (h\<lparr>h_sent := h_sent h @ [(cn_session c, m)]\<rparr>)"

definition receive_from :: "'v outside \<Rightarrow> connection \<Rightarrow> 'v host \<Rightarrow> (protocol_error, 'v plugin_message) res \<times> 'v host" where
  "receive_from E c = ask E (\<lambda>env. he_receive env (cn_session c))"

definition ensure_slot :: "plugin_id \<Rightarrow> 'v host \<Rightarrow> (host_error, unit) res" where
  "ensure_slot i h = (if bt_has (h_slots h) i then Inr () else Inl (HKernel (KUnknownPlugin i)))"

definition detach_connection :: "plugin_id \<Rightarrow> 'v host \<Rightarrow> 'v host" where
  "detach_connection i h =
     h\<lparr>h_conns := bt_remove i (h_conns h), h_catalog := snd (unregister i (h_catalog h))\<rparr>"

definition set_retry :: "plugin_id \<Rightarrow> retry_controller \<Rightarrow> 'v host \<Rightarrow> 'v host" where
  "set_retry i c h = h\<lparr>h_slots := bt_update i (\<lambda>s. s\<lparr>hs_retry := c\<rparr>) (h_slots h)\<rparr>"

definition disable_retry :: "plugin_id \<Rightarrow> 'v host \<Rightarrow> 'v host" where
  "disable_retry i h =
     (case bt_get (h_slots h) i of None \<Rightarrow> h | Some s \<Rightarrow> set_retry i (retry_disable (hs_retry s)) h)"

definition should_detach :: "plugin_id \<Rightarrow> u64 option \<Rightarrow> 'v host \<Rightarrow> bool" where
  "should_detach i generation h =
     (case generation of
        Some g \<Rightarrow> (case bt_get (h_conns h) i of None \<Rightarrow> True | Some c \<Rightarrow> cn_generation c = g)
      | None \<Rightarrow> True)"

definition fail_current :: "'v outside \<Rightarrow> plugin_id \<Rightarrow> u64 option \<Rightarrow> rstring \<Rightarrow> 'v host \<Rightarrow> 'v host" where
  "fail_current E i generation message h =
     (case kernel_plugin i (h_kernel h) of
        None \<Rightarrow> h
      | Some s \<Rightarrow>
          let failure_generation = (case generation of Some g \<Rightarrow> g | None \<Rightarrow> snap_generation s) in
          if snap_generation s \<noteq> failure_generation then h
          else h_refresh E
            (if \<not> is_failed (snap_state s) \<and> (is_active (snap_state s) \<or> snap_state s = Registered)
             then snd (with_kernel E (\<lambda>env. fail env i (FProtocol message)) h) else h))"

definition fail_connection :: "'v outside \<Rightarrow> plugin_id \<Rightarrow> u64 option \<Rightarrow> rstring \<Rightarrow> 'v host \<Rightarrow> 'v host" where
  "fail_connection E i generation message h =
     fail_current E i generation message
       (h_refresh E (if should_detach i generation h then detach_connection i h else h))"

section \<open>Starting and stopping a generation\<close>

text \<open>The steps between the kernel's start and the routed connection: each may end the attempt.\<close>

definition admit_connection ::
  "('v plugin_message \<Rightarrow> rstring) \<Rightarrow> 'v outside \<Rightarrow> plugin_id \<Rightarrow> u64 \<Rightarrow> host_slot \<Rightarrow> ('v host, host_error, unit) act" where
  "admit_connection debug E i g s =
     act_bind (\<lambda>h. (case ask E (\<lambda>env. fst (acceptor_accept (hs_acceptor s) (pid_str i)
         (pl_handshake_timeout (hs_launch s)) debug (he_accept env))) h of (r, h') \<Rightarrow> (map_err HProtocol r, h'))) (\<lambda>info.
     act_then (lift_res (map_err HProtocol (validate_expected_capabilities info (pl_expected_capabilities (hs_launch s)))))
    (act_then (lift_res (map_err HProtocol (validate_required_grants info (pl_required_grants (hs_launch s)))))
    (act_then (\<lambda>h. case ask E he_timeouts h of (r, h') \<Rightarrow> (map_err HProtocol r, h'))
     (\<lambda>h. case register_connection info (h_catalog h) of
        (Inl e, cat) \<Rightarrow> (Inl (HCatalog e), h\<lparr>h_catalog := cat\<rparr>)
      | (Inr _, cat) \<Rightarrow>
          (Inr (), h\<lparr>h_catalog := cat, h_conns :=
             bt_insert i \<lparr>cn_generation = g, cn_info = info, cn_session = (i, g)\<rparr> (h_conns h)\<rparr>)))))"

fun show_cause :: "host_error \<Rightarrow> rstring" where
  "show_cause (HKernel e) = show_kernel_error e"
| "show_cause (HCatalog e) = show_catalog_error e"
| "show_cause (HProtocol e) = show_protocol_error e"
| "show_cause HPanic = []"

definition observe_started :: "plugin_id \<Rightarrow> u64 \<Rightarrow> 'v host \<Rightarrow> bool \<times> 'v host" where
  "observe_started i g h =
     (case bt_get (h_slots h) i of
        None \<Rightarrow> (False, h)
      | Some s \<Rightarrow> (case observe_generation g (hs_retry s) of (b, c) \<Rightarrow> (b, set_retry i c h)))"

definition start_generation :: "('v plugin_message \<Rightarrow> rstring) \<Rightarrow> 'v outside \<Rightarrow> plugin_id \<Rightarrow> ('v host, host_error, unit) act" where
  "start_generation debug E i h =
     (case ensure_slot i h of
        Inl e \<Rightarrow> (Inl e, h)
      | Inr _ \<Rightarrow>
     (case with_kernel E (\<lambda>env. start env i) (h_refresh E (detach_connection i h)) of
        (Inl e, h1) \<Rightarrow> (Inl (HKernel e), h1)
      | (Inr _, h1) \<Rightarrow>
     (case kernel_plugin i (h_kernel h1) of
        None \<Rightarrow> (Inl (HKernel (KUnknownPlugin i)), h1)
      | Some snap \<Rightarrow>
     (let g = snap_generation snap in
      case observe_started i g h1 of
        (False, h2) \<Rightarrow>
          (Inl (HProtocol (Handshake (lit ''plugin enable cycle is disabled''))),
           fail_connection E i (Some g) (lit ''plugin enable cycle is disabled'') h2)
      | (True, h2) \<Rightarrow>
     (case bt_get (h_slots h2) i of
        None \<Rightarrow> (Inl HPanic, h2)
      | Some s \<Rightarrow>
     (case admit_connection debug E i g s h2 of
        (Inl e, h3) \<Rightarrow> (Inl e, fail_connection E i (Some g) (show_cause e) h3)
      | (Inr _, h3) \<Rightarrow> (Inr (), h3)))))))"

fun stop_wait :: "'v outside \<Rightarrow> plugin_id \<Rightarrow> nat \<Rightarrow> ('v host, host_error, unit) act" where
  "stop_wait E i left h =
     (let h1 = h_refresh E h in
      case kernel_plugin i (h_kernel h1) of
        None \<Rightarrow> (Inl (HKernel (KUnknownPlugin i)), h1)
      | Some s \<Rightarrow>
          if \<not> is_active (snap_state s) then (Inr (), h1)
          else
            let (late, h2) = ask E he_late h1;
                give_up = (\<lambda>hh. (Inr (), h_refresh E (snd (with_kernel E (\<lambda>env. fail env i
                   (FMonitor (lit ''timed out waiting for plugin supervisor to stop''))) hh))))
            in case left of
                 0 \<Rightarrow> give_up h2
               | Suc left' \<Rightarrow> if late then give_up h2 else stop_wait E i left' h2)"

declare stop_wait.simps [simp del]

definition stop_current :: "'v outside \<Rightarrow> plugin_id \<Rightarrow> ('v host, host_error, unit) act" where
  "stop_current E i h =
     (case ensure_slot i h of
        Inl e \<Rightarrow> (Inl e, h)
      | Inr _ \<Rightarrow>
          let h1 = (case bt_get (h_conns h) i of Some c \<Rightarrow> snd (send_to E c Shutdown h) | None \<Rightarrow> h);
              h2 = h_refresh E (detach_connection i h1)
          in case kernel_plugin i (h_kernel h2) of
               None \<Rightarrow> (Inl (HKernel (KUnknownPlugin i)), h2)
             | Some s \<Rightarrow>
                 (case (if is_active (snap_state s) then with_kernel E (\<lambda>env. stop env i) h2 else (Inr (), h2)) of
                    (Inl e, h3) \<Rightarrow> (Inl (HKernel e), h3)
                  | (Inr _, h3) \<Rightarrow> stop_wait E i (STOP_WAIT_MILLIS div STOP_POLL_MILLIS) h3))"

section \<open>Recovery\<close>

definition disable_failed_plugin :: "'v outside \<Rightarrow> plugin_id \<Rightarrow> 'v host \<Rightarrow> 'v host" where
  "disable_failed_plugin E i h = detach_connection i (snd (stop_current E i (disable_retry i h)))"

definition recover_failed_plugin ::
  "('v plugin_message \<Rightarrow> rstring) \<Rightarrow> 'v outside \<Rightarrow> plugin_id \<Rightarrow> u64 \<Rightarrow> 'v host \<Rightarrow> bool \<times> 'v host" where
  "recover_failed_plugin debug E i g h =
     (case bt_get (h_slots h) i of
        None \<Rightarrow> (False, h)
      | Some s \<Rightarrow>
          (case observe_generation g (hs_retry s) of
             (False, c) \<Rightarrow> (False, set_retry i c h)
           | (True, c) \<Rightarrow>
               (case on_failure g c of (action, c') \<Rightarrow>
                  let h1 = set_retry i c' h in
                  case action of
                    None \<Rightarrow> (False, h1)
                  | Some (Restart n) \<Rightarrow>
                      (case start_generation debug E i (detach_connection i h1) of
                         (Inr _, h2) \<Rightarrow> (True, h2)
                       | (Inl e, h2) \<Rightarrow>
                           let h3 = h_refresh E h2;
                               newer = (case kernel_plugin i (h_kernel h3) of
                                  None \<Rightarrow> False
                                | Some snap \<Rightarrow> snap_generation snap > g \<and> is_failed (snap_state snap))
                           in (True, if newer then h3 else disable_failed_plugin E i h3))
                  | Some Disable \<Rightarrow> (True, disable_failed_plugin E i h1))))"

definition failures :: "kernel \<Rightarrow> (plugin_id \<times> u64) list" where
  "failures k = map (\<lambda>s. (snap_id s, snap_generation s))
     (filter (\<lambda>s. is_failed (snap_state s)) (ks_plugins (kernel_snapshot_of k)))"

fun recover_each ::
  "('v plugin_message \<Rightarrow> rstring) \<Rightarrow> 'v outside \<Rightarrow> (plugin_id \<times> u64) list \<Rightarrow> bool \<Rightarrow> 'v host \<Rightarrow> bool \<times> 'v host" where
  "recover_each debug E [] progressed h = (progressed, h)"
| "recover_each debug E ((i, g) # fs) progressed h =
     (case recover_failed_plugin debug E i g h of
        (p, h') \<Rightarrow> recover_each debug E fs (progressed \<or> p) h')"

primrec recover_rounds :: "('v plugin_message \<Rightarrow> rstring) \<Rightarrow> 'v outside \<Rightarrow> nat \<Rightarrow> 'v host \<Rightarrow> 'v host" where
  "recover_rounds debug E 0 h = h"
| "recover_rounds debug E (Suc n) h =
     (let h1 = h_refresh E h; fs = failures (h_kernel h1) in
      if fs = [] then h1
      else case recover_each debug E fs False h1 of
        (progressed, h2) \<Rightarrow> if progressed then recover_rounds debug E n h2 else h2)"

definition recover_failed_plugins :: "('v plugin_message \<Rightarrow> rstring) \<Rightarrow> 'v outside \<Rightarrow> 'v host \<Rightarrow> 'v host" where
  "recover_failed_plugins debug E h = recover_rounds debug E (unat MAX_AUTOMATIC_RESTARTS + 1) h"

definition plugin_inactive :: "kernel \<Rightarrow> plugin_id \<Rightarrow> bool" where
  "plugin_inactive k i = (case kernel_plugin i k of None \<Rightarrow> True | Some s \<Rightarrow> \<not> is_active (snap_state s))"

definition prune_inactive_connections :: "'v host \<Rightarrow> 'v host" where
  "prune_inactive_connections h =
     foldl (\<lambda>hh i. detach_connection i hh) h (filter (plugin_inactive (h_kernel h)) (bt_keys (h_conns h)))"

definition host_refresh :: "('v plugin_message \<Rightarrow> rstring) \<Rightarrow> 'v outside \<Rightarrow> 'v host \<Rightarrow> 'v host" where
  "host_refresh debug E h =
     prune_inactive_connections (h_refresh E (recover_failed_plugins debug E (h_refresh E h)))"

section \<open>The public operations\<close>

definition host_launch :: "('v plugin_message \<Rightarrow> rstring) \<Rightarrow> 'v outside \<Rightarrow> plugin_launch \<Rightarrow> ('v host, host_error, plugin_id) act" where
  "host_launch debug E l h =
     (case ask E he_bind h of
        (Inl e, h1) \<Rightarrow> (Inl (HProtocol e), h1)
      | (Inr ac, h1) \<Rightarrow>
          let command = command_env (lit ''YUNXI_PLUGIN_CONNECT_TOKEN'') (ac_token ac)
                (command_env (lit ''YUNXI_PLUGIN_CONNECT_ADDRESS'') (ac_address ac) (pl_command l));
              spec = spec_with_display_name (pl_display_name l) (spec_new (pl_id l) command)
          in case register spec (h_kernel h1) of
               (Inl e, k) \<Rightarrow> (Inl (HKernel e), h1\<lparr>h_kernel := k\<rparr>)
             | (Inr _, k) \<Rightarrow>
                 (case start_generation debug E (pl_id l) (h1\<lparr>h_kernel := k,
                         h_slots := bt_insert (pl_id l) (host_slot_new l ac) (h_slots h1)\<rparr>) of
                    (Inl e, h2) \<Rightarrow> (Inl e, disable_retry (pl_id l) h2)
                  | (Inr _, h2) \<Rightarrow> (Inr (pl_id l), h2)))"

definition host_disable :: "'v outside \<Rightarrow> plugin_id \<Rightarrow> ('v host, host_error, unit) act" where
  "host_disable E i h =
     (case ensure_slot i h of Inl e \<Rightarrow> (Inl e, h) | Inr _ \<Rightarrow> stop_current E i (disable_retry i h))"

definition host_stop :: "'v outside \<Rightarrow> plugin_id \<Rightarrow> 'v host \<Rightarrow> 'v host" where
  "host_stop E i h = snd (host_disable E i h)"

definition manual_start :: "('v plugin_message \<Rightarrow> rstring) \<Rightarrow> 'v outside \<Rightarrow> plugin_id \<Rightarrow> ('v host, host_error, plugin_id) act" where
  "manual_start debug E i h =
     (case ensure_slot i h of
        Inl e \<Rightarrow> (Inl e, h)
      | Inr _ \<Rightarrow>
          (case stop_current E i h of
             (Inl e, h1) \<Rightarrow> (Inl e, h1)
           | (Inr _, h1) \<Rightarrow>
               let h2 = (case bt_get (h_slots h1) i of
                   None \<Rightarrow> h1 | Some s \<Rightarrow> set_retry i (manual_restart (hs_retry s)) h1)
               in case start_generation debug E i h2 of
                    (Inr _, h3) \<Rightarrow> (Inr i, h3)
                  | (Inl e, h3) \<Rightarrow> (Inl e, disable_retry i h3)))"

definition invoke ::
  "('p \<Rightarrow> (rstring, 'v) res) \<Rightarrow> ('v \<Rightarrow> (rstring, 'q) res) \<Rightarrow> ('v plugin_message \<Rightarrow> rstring) \<Rightarrow> 'v outside \<Rightarrow>
     capability \<Rightarrow> rstring \<Rightarrow> 'p \<Rightarrow> ('v host, call_error, 'q) act" where
  "invoke to_value from_value debug E cap operation payload h =
     (case resolve_unique (cap_str (cap_id cap)) (cap_version cap) (h_catalog h) of
        Inl e \<Rightarrow> (Inl (Route e), h)
      | Inr record \<Rightarrow>
          let i = pr_id record;
              request_id = h_next h;
              h1 = h\<lparr>h_next := (case checked_inc (h_next h) of Some n \<Rightarrow> n | None \<Rightarrow> 1)\<rparr>
          in case invocation_encode to_value request_id cap operation payload of
               Inl e \<Rightarrow> (Inl (Codec e), h1)
             | Inr request \<Rightarrow>
                 let generation = map_option cn_generation (bt_get (h_conns h1) i);
                     unavailable = (\<lambda>m hh. (Inl (Unavailable i m), fail_connection E i generation m hh));
                     violation = (\<lambda>m hh. (Inl (ProtocolViolation i m), fail_connection E i generation m hh))
                 in case bt_get (h_conns h1) i of
                      None \<Rightarrow> unavailable (lit ''plugin connection is not available'') h1
                    | Some c \<Rightarrow> (case send_to E c (Invoke request) h1 of
                      (Inl e, h2) \<Rightarrow> unavailable (show_protocol_error e) h2
                    | (Inr _, h2) \<Rightarrow> (case bt_get (h_conns h2) i of
                        None \<Rightarrow> unavailable (lit ''plugin connection closed after request send'') h2
                      | Some c2 \<Rightarrow> (case receive_from E c2 h2 of
                          (Inl e, h3) \<Rightarrow> unavailable (show_protocol_error e) h3
                        | (Inr message, h3) \<Rightarrow>
                            let other = violation (lit ''expected response for request '' @ show_nat (unat request_id) @
                                  lit '', received '' @ debug message) h3
                            in case message of
                                 InvocationCompleted response \<Rightarrow>
                                   if is_request_id response = request_id
                                   then case response_payload from_value response of
                                          Inr r \<Rightarrow> (Inr r, h3)
                                        | Inl e \<Rightarrow> violation (show_codec_error e) h3
                                   else other
                               | InvocationFailed response_id code m retryable \<Rightarrow>
                                   if response_id = request_id then (Inl (Rejected i code m retryable), h3) else other
                               | _ \<Rightarrow> other))))"

definition send_shutdowns :: "'v outside \<Rightarrow> plugin_id list \<Rightarrow> 'v host \<Rightarrow> 'v host" where
  "send_shutdowns E is h =
     foldl (\<lambda>hh i. case bt_get (h_conns hh) i of Some c \<Rightarrow> snd (send_to E c Shutdown hh) | None \<Rightarrow> hh) h is"

definition host_shutdown :: "'v outside \<Rightarrow> 'v host \<Rightarrow> 'v host" where
  "host_shutdown E h =
     (let h1 = h\<lparr>h_slots := bt_map (\<lambda>_ s. s\<lparr>hs_retry := retry_disable (hs_retry s)\<rparr>) (h_slots h)\<rparr>;
          ids = bt_keys (h_conns h1);
          h2 = (send_shutdowns E ids h1)\<lparr>h_conns := []\<rparr>;
          h3 = h2\<lparr>h_catalog := foldl (\<lambda>cat i. snd (unregister i cat)) (h_catalog h2) ids\<rparr>;
          t = h_tick h3
      in h3\<lparr>h_kernel := shutdown (he_kernel (E t)) (he_kernel (E (t + 1))) (he_kernel (E (t + 2)))
                          (deliver (he_arrivals (E t)) (h_kernel h3)),
            h_tick := t + 3, h_slots := []\<rparr>)"

definition host_plugin :: "('v plugin_message \<Rightarrow> rstring) \<Rightarrow> 'v outside \<Rightarrow> plugin_id \<Rightarrow> 'v host \<Rightarrow> plugin_snapshot option \<times> 'v host" where
  "host_plugin debug E i h = (let h1 = host_refresh debug E h in (kernel_plugin i (h_kernel h1), h1))"

definition host_snapshot :: "('v plugin_message \<Rightarrow> rstring) \<Rightarrow> 'v outside \<Rightarrow> 'v host \<Rightarrow> kernel_snapshot \<times> 'v host" where
  "host_snapshot debug E h = (let h1 = host_refresh debug E h in (kernel_snapshot_of (h_kernel h1), h1))"

definition host_retry_snapshot :: "('v plugin_message \<Rightarrow> rstring) \<Rightarrow> 'v outside \<Rightarrow> plugin_id \<Rightarrow> 'v host \<Rightarrow> retry_snapshot option \<times> 'v host" where
  "host_retry_snapshot debug E i h =
     (let h1 = host_refresh debug E h in (map_option (\<lambda>s. retry_snapshot_of (hs_retry s)) (bt_get (h_slots h1) i), h1))"

definition connection_count :: "'v host \<Rightarrow> nat" where
  "connection_count h = length (h_conns h)"

end
