(* ===== verification/Plugin_Host_Props.thy ===== *)
theory Plugin_Host_Props
  imports Plugin_Host Plugin_Kernel_Props
begin

text \<open>
  What the process host guarantees. Every host operation is a composition of a few primitive moves
  (ask the kernel, detach a plugin, update a retry controller, admit a connection); the relation
  \<open>hop\<close> collects what such a move may do to the state, it is transitive, and each operation is
  shown to be one. The invariant ties the live connections to the catalog and to the launch contracts.
\<close>

section \<open>What the kernel calls may do\<close>

fun spawns_of :: "plugin_id \<Rightarrow> sup_action \<Rightarrow> bool" where
  "spawns_of i (SpawnSupervisor h) = (fst h = i)"
| "spawns_of i _ = False"

definition spawn_count :: "plugin_id \<Rightarrow> kernel \<Rightarrow> nat" where
  "spawn_count i k = length (filter (spawns_of i) (k_trace k))"

definition kcalm :: "kernel \<Rightarrow> kernel \<Rightarrow> bool" where
  "kcalm k k' \<longleftrightarrow> (kernel_inv k \<longrightarrow> kernel_inv k') \<and> map fst (k_plugins k') = map fst (k_plugins k) \<and>
     (\<forall>i. spawn_count i k' = spawn_count i k)"

lemma kcalm_refl [simp]: "kcalm k k"
  by (simp add: kcalm_def)

lemma kcalm_trans: "kcalm k k' \<Longrightarrow> kcalm k' k'' \<Longrightarrow> kcalm k k''"
  by (simp add: kcalm_def)

lemma spawn_count_soft: "soft_ext k k' \<Longrightarrow> spawn_count i k' = spawn_count i k"
proof -
  assume "soft_ext k k'"
  then obtain as where as: "k_trace k' = k_trace k @ as" "\<forall>a \<in> set as. soft_action a" by (auto simp: soft_ext_def)
  then have "filter (spawns_of i) as = []" by (fastforce simp: filter_empty_conv soft_action_def)
  with as show ?thesis by (simp add: spawn_count_def)
qed

lemma kcalm_deliver: "\<forall>e \<in> set es. from_supervisor e \<Longrightarrow> kcalm k (deliver es k)"
  by (auto simp: kcalm_def deliver_def spawn_count_def intro!: kernel_inv_events dest: kernel_invD(3))

lemma kcalm_refresh: "env_ok env \<Longrightarrow> kcalm k (fst (refresh env k))"
  by (simp add: kcalm_def kernel_inv_refresh spawn_count_soft [OF soft_ext_refresh])

lemma soft_ext_stop: "soft_ext k (snd (stop env i k))"
proof -
  have "soft_ext (fst (refresh env k)) (snd (stop env i k))" if "k_state k = KRunning"
    using that
    by (auto simp: stop_def Let_def soft_ext_def split: option.split)
  moreover have "snd (stop env i k) = k" if "k_state k \<noteq> KRunning" using that by (simp add: stop_def)
  ultimately show ?thesis using soft_ext_trans [OF soft_ext_refresh] by (cases "k_state k = KRunning") auto
qed

lemma soft_ext_fail: "soft_ext k (snd (fail env i f k))"
proof -
  have "soft_ext (fst (refresh env k)) (snd (fail env i f k))" if "k_state k = KRunning"
    using that
    by (auto simp: fail_def Let_def soft_ext_def split: option.split)
  moreover have "snd (fail env i f k) = k" if "k_state k \<noteq> KRunning" using that by (simp add: fail_def)
  ultimately show ?thesis using soft_ext_trans [OF soft_ext_refresh] by (cases "k_state k = KRunning") auto
qed

lemma keys_stop: "map fst (k_plugins (snd (stop env i k))) = map fst (k_plugins k)"
  by (auto simp: stop_def Let_def split: option.split)

lemma keys_fail: "map fst (k_plugins (snd (fail env i f k))) = map fst (k_plugins k)"
  by (auto simp: fail_def Let_def split: option.split)

lemma keys_start: "map fst (k_plugins (snd (start env i k))) = map fst (k_plugins k)"
  by (auto simp: start_def Let_def split: option.split)

lemma kcalm_stop: "env_ok env \<Longrightarrow> kcalm k (snd (stop env i k))"
  by (simp add: kcalm_def kernel_inv_stop spawn_count_soft [OF soft_ext_stop] keys_stop)

lemma kcalm_fail: "env_ok env \<Longrightarrow> kcalm k (snd (fail env i f k))"
  by (simp add: kcalm_def kernel_inv_fail spawn_count_soft [OF soft_ext_fail] keys_fail)

lemma start_spawns: "spawn_count j (snd (start env i k)) \<le> spawn_count j k + (if j = i then 1 else 0)"
proof (cases "k_state k = KRunning")
  case True
  have "spawn_count j (fst (refresh env k)) = spawn_count j k" by (rule spawn_count_soft [OF soft_ext_refresh])
  then show ?thesis using True by (auto simp: start_def Let_def spawn_count_def split: option.split)
qed (simp add: start_def)

lemma shutdown_spawns: "spawn_count i (shutdown e1 e2 e3 k) = spawn_count i k"
proof (cases "k_state k = KStopped")
  case False
  have soft: "spawn_count i k' = spawn_count i k" if "k_trace k' = k_trace k @ as" "\<forall>a \<in> set as. soft_action a" for k k' as
    using that by (intro spawn_count_soft) (auto simp: soft_ext_def)
  have marked: "spawn_count i (shutdown_marked k) = spawn_count i k" for k
    by (rule soft [OF _ sends_soft]) (simp add: shutdown_marked_def)
  have settled: "spawn_count i (shutdown_settled k) = spawn_count i k" for k
    by (rule soft [OF _ drops_soft]) (simp add: shutdown_settled_def)
  have join: "spawn_count i (shutdown_join e2 k j) = spawn_count i k" for k j
    by (auto simp: shutdown_join_def Let_def spawn_count_def split: option.split)
  have joins: "spawn_count i (foldl (shutdown_join e2) k js) = spawn_count i k" for k js
    by (induction js arbitrary: k) (simp_all add: join)
  have state: "spawn_count i (k\<lparr>k_state := s\<rparr>) = spawn_count i k" for k s by (simp add: spawn_count_def)
  show ?thesis using False
    by (simp add: shutdown_unfold Let_def state settled marked joins spawn_count_soft [OF soft_ext_refresh])
qed (simp add: shutdown_def)

section \<open>The host's invariant\<close>

definition contract_ok :: "plugin_launch \<Rightarrow> connection_info \<Rightarrow> bool" where
  "contract_ok l ci \<longleftrightarrow>
     validate_expected_capabilities ci (pl_expected_capabilities l) = Inr () \<and>
     validate_required_grants ci (pl_required_grants l) = Inr ()"

definition connection_ok :: "(plugin_id, host_slot) btmap \<Rightarrow> catalog \<Rightarrow> plugin_id \<Rightarrow> connection \<Rightarrow> bool" where
  "connection_ok slots cat i c \<longleftrightarrow>
     (\<exists>s r. bt_get slots i = Some s \<and> bt_get (cat_plugins cat) i = Some r \<and>
        pr_capabilities r = ci_capabilities (cn_info c) \<and> pr_manifest r = ci_manifest (cn_info c) \<and>
        contract_ok (hs_launch s) (cn_info c)) \<and> cn_session c = (i, cn_generation c)"

definition routes_inv :: "(plugin_id, host_slot) btmap \<Rightarrow> catalog \<Rightarrow> (plugin_id, connection) btmap \<Rightarrow> bool" where
  "routes_inv slots cat conns \<longleftrightarrow>
     catalog_inv cat \<and> bt_wf conns \<and> (\<forall>i. registered cat i \<longleftrightarrow> bt_has conns i) \<and>
     (\<forall>i c. bt_get conns i = Some c \<longrightarrow> connection_ok slots cat i c)"

definition host_inv :: "'v host \<Rightarrow> bool" where
  "host_inv h \<longleftrightarrow>
     kernel_inv (h_kernel h) \<and> routes_inv (h_slots h) (h_catalog h) (h_conns h) \<and> bt_wf (h_slots h) \<and>
     (\<forall>i s. bt_get (h_slots h) i = Some s \<longrightarrow> retry_inv (hs_retry s) \<and> bt_has (k_plugins (h_kernel h)) i)"

definition outside_ok :: "'v outside \<Rightarrow> bool" where
  "outside_ok E \<longleftrightarrow> (\<forall>n. env_ok (he_kernel (E n)) \<and> (\<forall>e \<in> set (he_arrivals (E n)). from_supervisor e))"

definition rank_of :: "'v host \<Rightarrow> plugin_id \<Rightarrow> nat" where
  "rank_of h i = (case bt_get (h_slots h) i of None \<Rightarrow> 0 | Some s \<Rightarrow> retry_rank (hs_retry s))"

text \<open>A plugin that is switched off: no automatic start, no connection.\<close>

definition off :: "'v host \<Rightarrow> plugin_id \<Rightarrow> bool" where
  "off h i \<longleftrightarrow> (\<forall>s. bt_get (h_slots h) i = Some s \<longrightarrow> \<not> rc_enabled (hs_retry s)) \<and> bt_get (h_conns h) i = None"

definition hop :: "plugin_id set \<Rightarrow> 'v host \<Rightarrow> 'v host \<Rightarrow> bool" where
  "hop S h h' \<longleftrightarrow> (host_inv h \<longrightarrow> host_inv h' \<and>
     (\<forall>j. j \<notin> S \<longrightarrow>
        spawn_count j (h_kernel h') + rank_of h' j \<le> spawn_count j (h_kernel h) + rank_of h j \<and>
        (off h j \<longrightarrow> off h' j)))"

lemma hop_refl [simp]: "hop S h h"
  by (simp add: hop_def)

lemma hop_trans: "hop S h h' \<Longrightarrow> hop S h' h'' \<Longrightarrow> hop S h h''"
  unfolding hop_def by (meson le_trans)

lemma hop_mono: "hop S h h' \<Longrightarrow> S \<subseteq> S' \<Longrightarrow> hop S' h h'"
  unfolding hop_def by blast

lemma bt_has_keys: "map fst m = map fst m' \<Longrightarrow> bt_has m i \<longleftrightarrow> bt_has m' i"
  unfolding bt_has_def by (metis list.set_map map_of_eq_None_iff)

text \<open>
  A quiet move: the kernel only calmed, controllers untouched, and routes either untouched or with one
  plugin detached.
\<close>

definition hquiet :: "plugin_id \<Rightarrow> 'v host \<Rightarrow> 'v host \<Rightarrow> bool" where
  "hquiet i h h' \<longleftrightarrow> kcalm (h_kernel h) (h_kernel h') \<and> h_slots h' = h_slots h \<and>
     ((h_conns h' = h_conns h \<and> h_catalog h' = h_catalog h) \<or>
      (h_conns h' = bt_remove i (h_conns h) \<and> h_catalog h' = snd (unregister i (h_catalog h))))"

lemma hquiet_refl [simp]: "hquiet i h h"
  by (simp add: hquiet_def)

lemma bt_remove_twice [simp]: "bt_remove i (bt_remove i m) = bt_remove i m"
  by (simp add: bt_remove_def)

lemma unregister_twice [simp]: "snd (unregister i (snd (unregister i cat))) = snd (unregister i cat)"
  by (cases "bt_get (cat_plugins cat) i") (simp_all add: unregister_def)

lemma hquiet_trans: "hquiet i h h' \<Longrightarrow> hquiet i h' h'' \<Longrightarrow> hquiet i h h''"
  unfolding hquiet_def by (auto intro: kcalm_trans)

lemma routes_detach:
  assumes "routes_inv slots cat conns"
  shows "routes_inv slots (snd (unregister i cat)) (bt_remove i conns)"
proof -
  have inv: "catalog_inv cat" and wf: "bt_wf conns" and reg: "\<And>j. registered cat j = bt_has conns j"
    and ok: "\<And>j c. bt_get conns j = Some c \<Longrightarrow> connection_ok slots cat j c"
    using assms by (auto simp: routes_inv_def)
  have "connection_ok slots (snd (unregister i cat)) j c" if "bt_get (bt_remove i conns) j = Some c" for j c
    using ok [of j c] that by (auto simp: connection_ok_def unregister_get split: if_splits)
  then show ?thesis
    unfolding routes_inv_def
    using catalog_routes.remove_inv [OF inv] catalog_routes.remove_known [OF inv] wf reg by simp
qed

lemma hquiet_inv:
  assumes h: "host_inv h" and q: "hquiet i h h'"
  shows "host_inv h'"
proof -
  have "map fst (k_plugins (h_kernel h')) = map fst (k_plugins (h_kernel h))" using q by (simp add: hquiet_def kcalm_def)
  note keys = bt_has_keys [OF this]
  have "routes_inv (h_slots h) (h_catalog h') (h_conns h')"
    using h q routes_detach [of "h_slots h" "h_catalog h" "h_conns h" i] by (auto simp: hquiet_def host_inv_def)
  then show ?thesis
    using h q keys by (simp add: hquiet_def kcalm_def host_inv_def)
qed

lemma hquiet_hop: "hquiet i h h' \<Longrightarrow> hop S h h'"
  using hquiet_inv unfolding hop_def
  by (auto simp: hquiet_def kcalm_def rank_of_def off_def)

section \<open>Primitive moves are quiet\<close>

lemma with_kernel_quiet:
  assumes "outside_ok E" "\<And>env k. env_ok env \<Longrightarrow> kcalm k (snd (f env k))"
  shows "hquiet i h (snd (with_kernel E f h))"
proof -
  let ?env = "E (h_tick h)"
  have "kcalm (h_kernel h) (deliver (he_arrivals ?env) (h_kernel h))"
    using assms(1) by (intro kcalm_deliver) (simp add: outside_ok_def)
  moreover have "kcalm (deliver (he_arrivals ?env) (h_kernel h)) (snd (f (he_kernel ?env) (deliver (he_arrivals ?env) (h_kernel h))))"
    using assms by (simp add: outside_ok_def)
  ultimately show ?thesis
    by (auto simp: hquiet_def with_kernel_def Let_def intro: kcalm_trans split: prod.split)
qed

lemma refresh_quiet: "outside_ok E \<Longrightarrow> hquiet i h (h_refresh E h)"
  unfolding h_refresh_def by (erule with_kernel_quiet) (simp add: kcalm_refresh)

lemma stop_quiet: "outside_ok E \<Longrightarrow> hquiet j h (snd (with_kernel E (\<lambda>env. stop env i) h))"
  by (erule with_kernel_quiet) (simp add: kcalm_stop)

lemma fail_quiet: "outside_ok E \<Longrightarrow> hquiet j h (snd (with_kernel E (\<lambda>env. fail env i f) h))"
  by (erule with_kernel_quiet) (simp add: kcalm_fail)

lemma ask_quiet [simp]: "hquiet i h (snd (ask E f h))"
  by (simp add: ask_def hquiet_def)

lemma send_quiet [simp]: "hquiet i h (snd (send_to E c m h))"
  by (simp add: send_to_def ask_def hquiet_def)

lemma detach_quiet [simp]: "hquiet i h (detach_connection i h)"
  by (simp add: detach_connection_def hquiet_def)

lemmas quiet_moves = refresh_quiet stop_quiet fail_quiet ask_quiet send_quiet detach_quiet

lemma hquiet_if: "hquiet i h a \<Longrightarrow> hquiet i h b \<Longrightarrow> hquiet i h (if c then a else b)"
  by simp

lemma fail_current_quiet: "outside_ok E \<Longrightarrow> hquiet i h (fail_current E i g m h)"
  unfolding fail_current_def
  by (auto simp: Let_def split: option.split intro!: refresh_quiet
      hquiet_trans [OF fail_quiet refresh_quiet])

lemma fail_connection_quiet: "outside_ok E \<Longrightarrow> hquiet i h (fail_connection E i g m h)"
  unfolding fail_connection_def
  by (intro hquiet_trans [OF _ fail_current_quiet] hquiet_trans [OF _ refresh_quiet] hquiet_if) simp_all

lemma stop_wait_quiet: "outside_ok E \<Longrightarrow> hquiet i h (snd (stop_wait E i left h))"
proof (induction E i left h rule: stop_wait.induct)
  case (1 E i left h)
  let ?h1 = "h_refresh E h"
  let ?h2 = "snd (ask E he_late ?h1)"
  let ?f = "FMonitor (lit ''timed out waiting for plugin supervisor to stop'')"
  have h1: "hquiet i h ?h1" using refresh_quiet [OF "1.prems"] .
  have h2: "hquiet i h ?h2" by (rule hquiet_trans [OF h1 ask_quiet])
  have up: "hquiet i h (h_refresh E (snd (with_kernel E (\<lambda>env. fail env i ?f) ?h2)))"
    by (rule hquiet_trans [OF h2 hquiet_trans [OF fail_quiet refresh_quiet]]) (rule "1.prems")+
  show ?case
  proof (cases "kernel_plugin i (h_kernel ?h1)")
    case None
    then show ?thesis using h1 by (simp add: stop_wait.simps)
  next
    case (Some s)
    show ?thesis
    proof (cases "is_active (snap_state s)")
      case True
      have again: "hquiet i h (snd (stop_wait E i n ?h2))" if "left = Suc n" "\<not> fst (ask E he_late ?h1)" for n
        using "1.IH" [OF refl Some _ _ _ refl that(1) that(2) "1.prems"] True
        by (metis hquiet_trans h2 prod.collapse)
      show ?thesis
        using Some True up again
        by (cases left) (auto simp: stop_wait.simps [of E i _ h] Let_def case_prod_beta)
    qed (use Some h1 in \<open>simp add: stop_wait.simps\<close>)
  qed
qed

lemma stop_current_quiet:
  assumes E: "outside_ok E"
  shows "hquiet i h (snd (stop_current E i h))"
proof -
  let ?h1 = "case bt_get (h_conns h) i of Some c \<Rightarrow> snd (send_to E c Shutdown h) | None \<Rightarrow> h"
  let ?h2 = "h_refresh E (detach_connection i ?h1)"
  have h2: "hquiet i h ?h2"
    by (intro hquiet_trans [OF _ refresh_quiet [OF E]] hquiet_trans [OF _ detach_quiet]) (simp split: option.split)
  have h3: "hquiet i h (snd (if c then with_kernel E (\<lambda>env. stop env i) ?h2 else (Inr (), ?h2)))" for c
    using h2 hquiet_trans [OF h2 stop_quiet [OF E]] by simp
  have h4: "hquiet i h (snd (stop_wait E i n (snd (if c then with_kernel E (\<lambda>env. stop env i) ?h2 else (Inr (), ?h2)))))" for c n
    by (rule hquiet_trans [OF h3 stop_wait_quiet [OF E]])
  show ?thesis
  proof (cases "ensure_slot i h")
    case (Inr u)
    show ?thesis
    proof (cases "kernel_plugin i (h_kernel ?h2)")
      case (Some s)
      let ?r = "if is_active (snap_state s) then with_kernel E (\<lambda>env. stop env i) ?h2 else (Inr (), ?h2)"
      have eq: "snd (stop_current E i h) =
          (case fst ?r of Inl e \<Rightarrow> snd ?r | Inr _ \<Rightarrow> snd (stop_wait E i (STOP_WAIT_MILLIS div STOP_POLL_MILLIS) (snd ?r)))"
        using Inr Some by (auto simp: stop_current_def Let_def split: prod.split sum.split)
      show ?thesis
        unfolding eq using h3 [of "is_active (snap_state s)"] h4 [of _ "is_active (snap_state s)"]
        by (cases "fst ?r") (simp_all only: sum.case)
    qed (use Inr h2 in \<open>simp add: stop_current_def Let_def\<close>)
  qed (simp add: stop_current_def)
qed

section \<open>Moves on a controller\<close>

lemma set_retry_hop:
  assumes "bt_get (h_slots h) i = Some s" "retry_inv (hs_retry s) \<Longrightarrow> retry_inv c"
    "i \<notin> S \<Longrightarrow> retry_rank c \<le> retry_rank (hs_retry s)" "i \<notin> S \<Longrightarrow> rc_enabled c \<Longrightarrow> rc_enabled (hs_retry s)"
  shows "hop S h (set_retry i c h)"
proof -
  have conn: "connection_ok (h_slots h) cat j cn \<Longrightarrow> connection_ok (h_slots (set_retry i c h)) cat j cn" for cat j cn
    using assms(1) by (auto simp: connection_ok_def set_retry_def)
  have "host_inv h \<Longrightarrow> host_inv (set_retry i c h)"
    using assms(1,2) conn by (auto simp: host_inv_def routes_inv_def set_retry_def)
  then show ?thesis
    using assms(1,3,4) by (auto simp: hop_def set_retry_def rank_of_def off_def)
qed

lemma observe_enabled: "rc_enabled (snd (observe_generation g c)) = rc_enabled c"
  by (simp add: observe_generation_def split: option.split)

lemma observe_inv: "retry_inv c \<Longrightarrow> retry_inv (snd (observe_generation g c))"
  using retry_inv_exec [of c "ObserveGeneration g"] by simp

lemma failure_inv: "retry_inv c \<Longrightarrow> retry_inv (snd (on_failure g c))"
  using retry_inv_exec [of c "OnFailure g"] by (auto split: prod.splits option.splits)

lemma failure_enabled: "rc_enabled (snd (on_failure g c)) \<Longrightarrow> rc_enabled c"
  by (auto simp: on_failure_def Let_def split: if_splits)

lemma disable_retry_hop: "hop S h (disable_retry i h)"
proof (cases "bt_get (h_slots h) i")
  case (Some s)
  have "retry_inv (hs_retry s) \<Longrightarrow> retry_inv (retry_disable (hs_retry s))"
    using retry_inv_exec [of "hs_retry s" DisableCycle] by simp
  moreover have "\<not> rc_enabled (retry_disable (hs_retry s))" by (simp add: retry_disable_def)
  ultimately show ?thesis
    using Some by (auto simp: disable_retry_def retry_budget.off_free intro!: set_retry_hop)
qed (simp add: disable_retry_def)

lemma observe_started_hop: "hop S h (snd (observe_started i g h))"
proof (cases "bt_get (h_slots h) i")
  case (Some s)
  then show ?thesis
    using set_retry_hop [OF Some, of "snd (observe_generation g (hs_retry s))" S]
    by (simp add: observe_started_def observe_inv observe_enabled retry_budget.observe_free split: prod.split)
      (metis observe_enabled observe_inv retry_budget.observe_free order_refl snd_conv)
qed (simp add: observe_started_def)

section \<open>Starting a generation\<close>

lemma register_connection_ok:
  assumes "register_connection ci cat = (Inr j, cat')"
  shows "plugin_id_new (ci_plugin_id ci) = Inr j \<and>
    register_with_manifest j (ci_display_name ci) (ci_plugin_version ci) (ci_capabilities ci) (ci_manifest ci) cat = (Inr (), cat')"
  using assms unfolding register_connection_def act_bind_def lift_res_def ret_def
  by (auto split: sum.splits prod.splits)

lemma register_connection_error:
  "register_connection ci cat = (Inl e, cat') \<Longrightarrow> cat' = cat"
  unfolding register_connection_def act_bind_def lift_res_def ret_def
  by (auto split: sum.splits prod.splits dest: register_error)

lemma plugin_id_new_str: "plugin_id_new s = Inr j \<Longrightarrow> pid_str j = s"
  by (auto simp: plugin_id_new_def split: if_splits option.splits)

lemma accepted_id:
  "fst (acceptor_accept ac expected t debug env) = Inr info \<Longrightarrow> ci_plugin_id info = expected"
  by (auto simp: acceptor_accept_def accept_sends_def check_hello_ok split: sum.splits if_splits plugin_message.splits)

text \<open>An admitted connection: the plugin was not connected, its contract holds, and it is now routed.\<close>

lemma admit_ok:
  assumes "admit_connection debug E i g s h = (Inr (), h')"
  shows "\<exists>info cat. contract_ok (hs_launch s) info \<and> ci_plugin_id info = pid_str i \<and>
     register_with_manifest i (ci_display_name info) (ci_plugin_version info) (ci_capabilities info) (ci_manifest info)
       (h_catalog h) = (Inr (), cat) \<and>
     h_kernel h' = h_kernel h \<and> h_slots h' = h_slots h \<and> h_catalog h' = cat \<and>
     h_conns h' = bt_insert i \<lparr>cn_generation = g, cn_info = info, cn_session = (i, g)\<rparr> (h_conns h)"
proof -
  obtain info where acc: "fst (acceptor_accept (hs_acceptor s) (pid_str i) (pl_handshake_timeout (hs_launch s)) debug
      (he_accept (E (h_tick h)))) = Inr info"
    and rest: "validate_expected_capabilities info (pl_expected_capabilities (hs_launch s)) = Inr ()"
      "validate_required_grants info (pl_required_grants (hs_launch s)) = Inr ()"
      "\<exists>j cat. register_connection info (h_catalog h) = (Inr j, cat) \<and> h_kernel h' = h_kernel h \<and>
         h_slots h' = h_slots h \<and> h_catalog h' = cat \<and>
         h_conns h' = bt_insert i \<lparr>cn_generation = g, cn_info = info, cn_session = (i, g)\<rparr> (h_conns h)"
    using assms unfolding admit_connection_def act_then_def act_bind_def lift_res_def ask_def
    by (auto split: sum.splits prod.splits)
  obtain j cat where reg: "register_connection info (h_catalog h) = (Inr j, cat)" "h_kernel h' = h_kernel h"
      "h_slots h' = h_slots h" "h_catalog h' = cat"
      "h_conns h' = bt_insert i \<lparr>cn_generation = g, cn_info = info, cn_session = (i, g)\<rparr> (h_conns h)"
    using rest(3) by blast
  have "pid_str j = pid_str i" using register_connection_ok [OF reg(1)] plugin_id_new_str accepted_id [OF acc] by auto
  then have "j = i" by (rule plugin_id.expand)
  with reg rest(1,2) register_connection_ok [OF reg(1)] accepted_id [OF acc] show ?thesis
    by (auto simp: contract_ok_def)
qed

lemma admit_error:
  assumes "admit_connection debug E i g s h = (Inl e, h')"
  shows "h_kernel h' = h_kernel h \<and> h_slots h' = h_slots h \<and> h_catalog h' = h_catalog h \<and> h_conns h' = h_conns h"
  using assms unfolding admit_connection_def act_then_def act_bind_def lift_res_def ask_def
  by (auto split: sum.splits prod.splits dest: register_connection_error)

lemma admit_hop:
  assumes "bt_get (h_slots h) i = Some s" "i \<in> S"
  shows "hop S h (snd (admit_connection debug E i g s h))"
proof (cases "admit_connection debug E i g s h")
  case (Pair r h')
  show ?thesis
  proof (cases r)
    case (Inl e)
    with Pair admit_error [of debug E i g s h e h'] show ?thesis
      by (auto simp: hop_def host_inv_def rank_of_def off_def)
  next
    case (Inr u)
    then have "admit_connection debug E i g s h = (Inr (), h')" using Pair by simp
    from admit_ok [OF this] obtain info cat where a:
      "contract_ok (hs_launch s) info"
      "register_with_manifest i (ci_display_name info) (ci_plugin_version info) (ci_capabilities info) (ci_manifest info)
         (h_catalog h) = (Inr (), cat)"
      "h_kernel h' = h_kernel h" "h_slots h' = h_slots h" "h_catalog h' = cat"
      "h_conns h' = bt_insert i \<lparr>cn_generation = g, cn_info = info, cn_session = (i, g)\<rparr> (h_conns h)"
      by blast
    note reg = a(2) [unfolded register_ok]
    have "routes_inv (h_slots h) (h_catalog h) (h_conns h) \<Longrightarrow> routes_inv (h_slots h) cat (h_conns h')"
      using assms(1) a(1,6) reg register_inv [of "h_catalog h" i "ci_display_name info" "ci_plugin_version info" "ci_capabilities info" "ci_manifest info"] a(2)
      by (auto simp: routes_inv_def registered_def bt_has_def connection_ok_def)
    then show ?thesis
      using Pair a(3-6) assms(2) by (auto simp: hop_def host_inv_def rank_of_def off_def)
  qed
qed

lemma with_kernel_simps [simp]:
  "h_kernel (snd (with_kernel E f h)) = snd (f (he_kernel (E (h_tick h))) (deliver (he_arrivals (E (h_tick h))) (h_kernel h)))"
  "h_slots (snd (with_kernel E f h)) = h_slots h" "h_conns (snd (with_kernel E f h)) = h_conns h"
  "h_catalog (snd (with_kernel E f h)) = h_catalog h"
  by (simp_all add: with_kernel_def Let_def split: prod.split)

lemma spawns_started:
  assumes "outside_ok E"
  shows "spawn_count j (h_kernel (snd (with_kernel E (\<lambda>env. start env i) h))) \<le> spawn_count j (h_kernel h) + (if j = i then 1 else 0)"
proof -
  have "kcalm (h_kernel h) (deliver (he_arrivals (E (h_tick h))) (h_kernel h))"
    using assms by (intro kcalm_deliver) (simp add: outside_ok_def)
  then show ?thesis
    using start_spawns [of j "he_kernel (E (h_tick h))" i "deliver (he_arrivals (E (h_tick h))) (h_kernel h)"]
    by (simp add: kcalm_def)
qed

lemma start_hop:
  assumes E: "outside_ok E" and i: "i \<in> S"
  shows "hop S h (snd (with_kernel E (\<lambda>env. start env i) h))"
proof -
  let ?h' = "snd (with_kernel E (\<lambda>env. start env i) h)"
  have k: "kcalm (h_kernel h) (deliver (he_arrivals (E (h_tick h))) (h_kernel h))"
    using E by (intro kcalm_deliver) (simp add: outside_ok_def)
  have inv: "kernel_inv (h_kernel h) \<Longrightarrow> kernel_inv (h_kernel ?h')"
    using k E by (simp add: kcalm_def kernel_inv_start outside_ok_def)
  have keys: "bt_has (k_plugins (h_kernel ?h')) j = bt_has (k_plugins (h_kernel h)) j" for j
    using k by (intro bt_has_keys) (simp add: keys_start kcalm_def)
  have spawns: "j \<noteq> i \<Longrightarrow> spawn_count j (h_kernel ?h') \<le> spawn_count j (h_kernel h)" for j
    using spawns_started [OF E, of j i h] by simp
  have "host_inv h \<Longrightarrow> host_inv ?h'" unfolding host_inv_def using inv keys by (simp del: with_kernel_simps(1))
  moreover have "j \<notin> S \<Longrightarrow> j \<noteq> i" for j using i by blast
  ultimately show ?thesis using spawns unfolding hop_def rank_of_def off_def by (simp del: with_kernel_simps(1))
qed

lemma h_refresh_slots [simp]: "h_slots (h_refresh E h) = h_slots h"
  by (simp add: h_refresh_def)

lemma detach_slots [simp]: "h_slots (detach_connection i h) = h_slots h"
  by (simp add: detach_connection_def)

lemma observe_started_slot:
  "bt_get (h_slots h) i = Some s \<Longrightarrow> \<exists>s'. bt_get (h_slots (snd (observe_started i g h))) i = Some s' \<and> hs_launch s' = hs_launch s"
  by (simp add: observe_started_def set_retry_def split: prod.split)

lemma observe_started_kernel [simp]: "h_kernel (snd (observe_started i g h)) = h_kernel h"
  by (simp add: observe_started_def set_retry_def split: option.split prod.split)

text \<open>The four ways a start can end, as one case rule over its intermediate states.\<close>

lemma start_generation_cases:
  obtains
    (unknown) e where "start_generation debug E i h = (Inl e, h)" "bt_get (h_slots h) i = None" "e \<noteq> HPanic"
  | (refused) e h1 where "bt_get (h_slots h) i \<noteq> None" "h1 = snd (with_kernel E (\<lambda>env. start env i) (h_refresh E (detach_connection i h)))"
      "start_generation debug E i h = (Inl e, h1)" "e \<noteq> HPanic"
  | (ended) e h1 g m where "bt_get (h_slots h) i \<noteq> None" "h1 = snd (with_kernel E (\<lambda>env. start env i) (h_refresh E (detach_connection i h)))"
      "start_generation debug E i h = (Inl e, fail_connection E i (Some g) m (snd (observe_started i g h1)))" "e \<noteq> HPanic"
  | (tried) s h1 h2 g r h3 where "h1 = snd (with_kernel E (\<lambda>env. start env i) (h_refresh E (detach_connection i h)))"
      "h2 = snd (observe_started i g h1)" "bt_get (h_slots h2) i = Some s" "admit_connection debug E i g s h2 = (r, h3)"
      "start_generation debug E i h = (case r of Inl e \<Rightarrow> (Inl e, fail_connection E i (Some g) (show_cause e) h3) | Inr u \<Rightarrow> (Inr (), h3))"
proof -
  let ?h1 = "snd (with_kernel E (\<lambda>env. start env i) (h_refresh E (detach_connection i h)))"
  show thesis
  proof (cases "bt_get (h_slots h) i")
    case None
    then show thesis by (intro unknown) (auto simp: start_generation_def ensure_slot_def bt_has_def)
  next
    case (Some s0)
    have slot: "bt_get (h_slots h) i \<noteq> None" using Some by simp
    have ens: "ensure_slot i h = Inr ()" using Some by (simp add: ensure_slot_def bt_has_def)
    show thesis
    proof (cases "with_kernel E (\<lambda>env. start env i) (h_refresh E (detach_connection i h))")
      case (Pair r h1)
      then have h1: "h1 = ?h1" by simp
      show thesis
      proof (cases r)
        case (Inl e)
        then show thesis using Pair ens by (intro refused [OF slot h1]) (auto simp: start_generation_def)
      next
        case (Inr u)
        show thesis
        proof (cases "kernel_plugin i (h_kernel h1)")
          case None
          then show thesis using Pair Inr ens by (intro refused [OF slot h1]) (auto simp: start_generation_def)
        next
          case (Some snap)
          let ?g = "snap_generation snap"
          have step: "start_generation debug E i h = (case observe_started i ?g h1 of
             (False, h2) \<Rightarrow> (Inl (HProtocol (Handshake (lit ''plugin enable cycle is disabled''))),
                fail_connection E i (Some ?g) (lit ''plugin enable cycle is disabled'') h2)
           | (True, h2) \<Rightarrow> (case bt_get (h_slots h2) i of
                None \<Rightarrow> (Inl HPanic, h2)
              | Some s \<Rightarrow> (case admit_connection debug E i ?g s h2 of
                   (Inl e, h3) \<Rightarrow> (Inl e, fail_connection E i (Some ?g) (show_cause e) h3)
                 | (Inr _, h3) \<Rightarrow> (Inr (), h3))))"
            using Pair Inr ens Some by (simp add: start_generation_def Let_def)
          have slot2: "\<exists>s'. bt_get (h_slots (snd (observe_started i ?g h1))) i = Some s'"
            using observe_started_slot [of h1 i s0 ?g] \<open>bt_get (h_slots h) i = Some s0\<close> h1 by auto
          show thesis
          proof (cases "observe_started i ?g h1")
            case (Pair ok h2)
            obtain s' where s': "bt_get (h_slots h2) i = Some s'" using slot2 Pair by auto
            show thesis
            proof (cases ok)
              case True
              then show thesis
                using Pair s' step
                by (intro tried [OF h1, where ?h2.0 = h2 and g = ?g and s = s'
                      and r = "fst (admit_connection debug E i ?g s' h2)" and ?h3.0 = "snd (admit_connection debug E i ?g s' h2)"])
                  (auto split: prod.splits sum.splits)
            next
              case False
              then show thesis using Pair step by (intro ended [OF slot h1, where g = ?g and m = "lit ''plugin enable cycle is disabled''"]) auto
            qed
          qed
        qed
      qed
    qed
  qed
qed

lemma start_generation_hop:
  assumes E: "outside_ok E" and i: "i \<in> S"
  shows "hop S h (snd (start_generation debug E i h))"
proof -
  have pre: "hop S h (snd (with_kernel E (\<lambda>env. start env i) (h_refresh E (detach_connection i h))))"
    by (intro hop_trans [OF _ start_hop [OF E i]] hquiet_hop [where i = i] hquiet_trans [OF detach_quiet refresh_quiet [OF E]])
  note failed = hquiet_hop [OF fail_connection_quiet [OF E, of i]]
  show ?thesis
  proof (cases rule: start_generation_cases [of debug E i h])
    case unknown
    then show ?thesis by simp
  next
    case refused
    then show ?thesis using pre by simp
  next
    case ended
    then show ?thesis using hop_trans [OF hop_trans [OF pre observe_started_hop] failed] by simp
  next
    case (tried s h1 h2 g r h3)
    have h2: "hop S h h2" using hop_trans [OF pre observe_started_hop] tried(1,2) by simp
    have h3: "hop S h h3" using hop_trans [OF h2 admit_hop [OF tried(3) i]] tried(4) by (metis snd_conv)
    show ?thesis
      using h3 hop_trans [OF h3 failed] unfolding tried(5) by (cases r) simp_all
  qed
qed

text \<open>A start spawns at most one supervisor and never gives the controller more restarts.\<close>

lemma hquiet_spawns: "hquiet i h h' \<Longrightarrow> spawn_count j (h_kernel h') = spawn_count j (h_kernel h) \<and> h_slots h' = h_slots h"
  by (simp add: hquiet_def kcalm_def)

lemma observe_started_rank: "rank_of (snd (observe_started i g h)) j = rank_of h j"
proof (cases "bt_get (h_slots h) i")
  case (Some s)
  have "rank_of (set_retry i (snd (observe_generation g (hs_retry s))) h) j = rank_of h j"
    using Some by (simp add: set_retry_def rank_of_def retry_budget.observe_free)
  then show ?thesis using Some by (simp add: observe_started_def split: prod.split) (metis snd_conv)
qed (simp add: observe_started_def)

lemma admit_frame: "h_kernel (snd (admit_connection debug E i g s h)) = h_kernel h \<and> h_slots (snd (admit_connection debug E i g s h)) = h_slots h"
proof (cases "admit_connection debug E i g s h")
  case (Pair r h')
  then show ?thesis
    using admit_ok [of debug E i g s h h'] admit_error [of debug E i g s h _ h'] by (cases r) auto
qed

lemma start_generation_spend:
  assumes E: "outside_ok E"
  shows "spawn_count i (h_kernel (snd (start_generation debug E i h))) \<le> spawn_count i (h_kernel h) + 1 \<and>
    rank_of (snd (start_generation debug E i h)) i = rank_of h i"
proof -
  let ?h1 = "snd (with_kernel E (\<lambda>env. start env i) (h_refresh E (detach_connection i h)))"
  have q: "hquiet i h (h_refresh E (detach_connection i h))"
    by (rule hquiet_trans [OF detach_quiet refresh_quiet [OF E]])
  have h1: "spawn_count i (h_kernel ?h1) \<le> spawn_count i (h_kernel h) + 1" "rank_of ?h1 i = rank_of h i"
    using spawns_started [OF E, of i i "h_refresh E (detach_connection i h)"] hquiet_spawns [OF q, of i] by (auto simp: rank_of_def)
  have failed: "spawn_count i (h_kernel (fail_connection E i g m hh)) = spawn_count i (h_kernel hh)"
      "rank_of (fail_connection E i g m hh) i = rank_of hh i" for g m hh
    using hquiet_spawns [OF fail_connection_quiet [OF E]] by (auto simp: rank_of_def)
  show ?thesis
  proof (cases rule: start_generation_cases [of debug E i h])
    case (tried s h1' h2 g r h3)
    have "spawn_count i (h_kernel h3) = spawn_count i (h_kernel ?h1)" "rank_of h3 i = rank_of ?h1 i"
      using admit_frame [of debug E i g s h2] tried(1,2,4) observe_started_rank [of i g ?h1 i]
      by (auto simp: rank_of_def)
    then show ?thesis using h1 failed unfolding tried(5) by (cases r) auto
  next
    case (ended e h1' g m)
    have "rank_of (snd (observe_started i g ?h1)) i = rank_of h i" using h1(2) by (simp only: observe_started_rank)
    then show ?thesis using h1(1) failed unfolding ended(2,3) by (simp only: snd_conv observe_started_kernel)
  qed (use h1 in auto)
qed

lemma start_generation_no_panic: "fst (start_generation debug E i h) \<noteq> Inl HPanic"
proof -
  have "fst (admit_connection debug E i g s hh) \<noteq> Inl HPanic" for g s hh
    unfolding admit_connection_def act_then_def act_bind_def lift_res_def ask_def
    by (auto split: sum.splits prod.splits simp: map_err_Inl)
  then show ?thesis
    by (cases rule: start_generation_cases [of debug E i h]) (auto split: sum.splits, metis fst_conv)
qed

section \<open>Recovery\<close>

lemma hop_discharge:
  assumes "hop {i} h h'"
    "spawn_count i (h_kernel h') + rank_of h' i \<le> spawn_count i (h_kernel h) + rank_of h i" "\<not> off h i"
  shows "hop S h h'"
  using assms unfolding hop_def by (metis singletonD)

lemma refresh_hop: "outside_ok E \<Longrightarrow> hop S h (h_refresh E h)"
  by (rule hquiet_hop [OF refresh_quiet])

lemma detach_hop: "hop S h (detach_connection i h)"
  by (rule hquiet_hop [OF detach_quiet])

lemma stop_current_hop: "outside_ok E \<Longrightarrow> hop S h (snd (stop_current E i h))"
  by (rule hquiet_hop [OF stop_current_quiet])

lemma disable_failed_hop: "outside_ok E \<Longrightarrow> hop S h (disable_failed_plugin E i h)"
  unfolding disable_failed_plugin_def
  by (intro hop_trans [OF _ detach_hop] hop_trans [OF disable_retry_hop stop_current_hop])

lemmas move_hops = refresh_hop detach_hop stop_current_hop disable_failed_hop disable_retry_hop observe_started_hop

text \<open>
  The one automatic start: it happens only when the controller has ordered a restart, which has cost
  it one unit of its budget.
\<close>

lemma restart_hop:
  assumes E: "outside_ok E" and s: "bt_get (h_slots h) i = Some s"
    and obs: "observe_generation g (hs_retry s) = (True, c)" and act: "on_failure g c = (Some (Restart n), c')"
  shows "hop S h (snd (start_generation debug E i (detach_connection i (set_retry i c' h))))"
proof (rule hop_discharge)
  let ?h1 = "set_retry i c' h" and ?h2 = "detach_connection i (set_retry i c' h)"
  have inv: "retry_inv (hs_retry s) \<Longrightarrow> retry_inv c'"
    using observe_inv [of "hs_retry s" g] failure_inv [of c g] obs act by simp
  have "rc_enabled c" using on_failure_cases(1) [OF act] by (simp add: accepts_generation_def)
  then have enabled: "rc_enabled (hs_retry s)" using observe_enabled [of g "hs_retry s"] obs by simp
  have "hop {i} h ?h1" using s inv by (intro set_retry_hop) simp_all
  then show "hop {i} h (snd (start_generation debug E i ?h2))"
    by (intro hop_trans [OF _ start_generation_hop [OF E]] hop_trans [OF _ detach_hop]) simp_all
  have "retry_rank c' < retry_rank c" using retry_budget.spends [OF act] by simp
  moreover have "retry_rank c = retry_rank (hs_retry s)" using retry_budget.observe_free [of g "hs_retry s"] obs by simp
  moreover have "rank_of ?h2 i = retry_rank c'" using s by (simp add: rank_of_def set_retry_def)
  moreover have "spawn_count i (h_kernel ?h2) = spawn_count i (h_kernel h)" by (simp add: detach_connection_def set_retry_def)
  ultimately show "spawn_count i (h_kernel (snd (start_generation debug E i ?h2))) + rank_of (snd (start_generation debug E i ?h2)) i
      \<le> spawn_count i (h_kernel h) + rank_of h i"
    using start_generation_spend [OF E, of i debug ?h2] s by (simp add: rank_of_def)
  show "\<not> off h i" using s enabled by (simp add: off_def)
qed

lemma recover_failed_plugin_hop:
  assumes E: "outside_ok E"
  shows "hop S h (snd (recover_failed_plugin debug E i g h))"
proof (cases "bt_get (h_slots h) i")
  case (Some s)
  obtain b c where obs: "observe_generation g (hs_retry s) = (b, c)" by fastforce
  obtain act c' where act: "on_failure g c = (act, c')" by fastforce
  have c: "retry_inv (hs_retry s) \<Longrightarrow> retry_inv c" "retry_rank c = retry_rank (hs_retry s)"
      "rc_enabled c \<Longrightarrow> rc_enabled (hs_retry s)"
    using observe_inv [of "hs_retry s" g] retry_budget.observe_free [of g "hs_retry s"] observe_enabled [of g "hs_retry s"] obs
    by simp_all
  have c': "retry_inv c \<Longrightarrow> retry_inv c'" "retry_rank c' \<le> retry_rank c" "rc_enabled c' \<Longrightarrow> rc_enabled c"
    using failure_inv [of c g] retry_budget.failure_le [of g c] failure_enabled [of g c] act by simp_all
  have h1: "hop S h (set_retry i c' h)" using Some c c' by (intro set_retry_hop) auto
  show ?thesis
  proof (cases b)
    case False
    then show ?thesis using Some obs c by (auto simp: recover_failed_plugin_def intro!: set_retry_hop)
  next
    case True
    with obs have obs: "observe_generation g (hs_retry s) = (True, c)" by simp
    show ?thesis
    proof (cases "act")
      case None
      then show ?thesis using Some obs act h1 by (simp add: recover_failed_plugin_def)
    next
      case (Some a)
      show ?thesis
      proof (cases a)
        case Disable
        then show ?thesis using \<open>bt_get (h_slots h) i = Some s\<close> Some obs act hop_trans [OF h1 disable_failed_hop [OF E]]
          by (simp add: recover_failed_plugin_def)
      next
        case (Restart n)
        let ?r = "start_generation debug E i (detach_connection i (set_retry i c' h))"
        have r: "hop S h (snd ?r)"
          using restart_hop [OF E \<open>bt_get (h_slots h) i = Some s\<close> obs] act Some Restart by simp
        have end1: "hop S h (h_refresh E (snd ?r))" by (rule hop_trans [OF r refresh_hop [OF E]])
        have end2: "hop S h (disable_failed_plugin E i (h_refresh E (snd ?r)))"
          by (rule hop_trans [OF end1 disable_failed_hop [OF E]])
        have eq: "snd (recover_failed_plugin debug E i g h) = (case fst ?r of
             Inr _ \<Rightarrow> snd ?r
           | Inl e \<Rightarrow> if (case kernel_plugin i (h_kernel (h_refresh E (snd ?r))) of None \<Rightarrow> False
                | Some snap \<Rightarrow> snap_generation snap > g \<and> is_failed (snap_state snap))
              then h_refresh E (snd ?r) else disable_failed_plugin E i (h_refresh E (snd ?r)))"
          using \<open>bt_get (h_slots h) i = Some s\<close> Some Restart obs act
          by (simp add: recover_failed_plugin_def Let_def split: prod.split sum.split)
        show ?thesis unfolding eq using r end1 end2 by (simp split: sum.split)
      qed
    qed
  qed
qed (simp add: recover_failed_plugin_def)

lemma recover_each_hop: "outside_ok E \<Longrightarrow> hop S h (snd (recover_each debug E fs p h))"
proof (induction debug E fs p h rule: recover_each.induct)
  case (2 debug E i g fs p h)
  obtain q h' where r: "recover_failed_plugin debug E i g h = (q, h')" by fastforce
  then have "hop S h h'" using recover_failed_plugin_hop [OF "2.prems", of S h debug i g] by simp
  then show ?case using r hop_trans [OF _ "2.IH" [OF r [symmetric] "2.prems"]] by simp
qed simp

lemma recover_rounds_hop: "outside_ok E \<Longrightarrow> hop S h (recover_rounds debug E n h)"
proof (induction n arbitrary: h)
  case (Suc n)
  let ?h1 = "h_refresh E h"
  have h1: "hop S h ?h1" by (rule refresh_hop [OF Suc.prems])
  let ?r = "recover_each debug E (failures (h_kernel ?h1)) False ?h1"
  have h2: "hop S h (snd ?r)" by (rule hop_trans [OF h1 recover_each_hop [OF Suc.prems]])
  have h3: "hop S h (recover_rounds debug E n (snd ?r))" by (rule hop_trans [OF h2 Suc.IH [OF Suc.prems]])
  show ?case using h1 h2 h3 by (simp add: Let_def split: prod.split) (metis prod.collapse prod.inject)
qed simp

lemma prune_hop: "hop S h (prune_inactive_connections h)"
proof -
  have "hop S h (foldl (\<lambda>hh i. detach_connection i hh) h is)" for "is"
  proof (induction "is" arbitrary: h)
    case (Cons i "is")
    show ?case using hop_trans [OF detach_hop Cons.IH] by simp
  qed simp
  then show ?thesis by (simp add: prune_inactive_connections_def)
qed

lemma host_refresh_hop:
  assumes "outside_ok E"
  shows "hop S h (host_refresh debug E h)"
  unfolding host_refresh_def recover_failed_plugins_def
  by (intro hop_trans [OF _ prune_hop] hop_trans [OF _ refresh_hop [OF assms]] hop_trans [OF _ recover_rounds_hop [OF assms]] refresh_hop [OF assms])

section \<open>The public operations\<close>

lemma host_disable_hop: "outside_ok E \<Longrightarrow> hop S h (snd (host_disable E i h))"
  unfolding host_disable_def
  by (cases "ensure_slot i h") (auto intro: hop_trans [OF disable_retry_hop stop_current_hop])

lemma manual_start_hop:
  assumes E: "outside_ok E"
  shows "hop {i} h (snd (manual_start debug E i h))"
proof (cases "ensure_slot i h")
  case (Inr u)
  obtain r h1 where r: "stop_current E i h = (r, h1)" by fastforce
  have h1: "hop {i} h h1" using stop_current_hop [OF E, of "{i}" h i] r by simp
  let ?h2 = "case bt_get (h_slots h1) i of None \<Rightarrow> h1 | Some s \<Rightarrow> set_retry i (manual_restart (hs_retry s)) h1"
  have "hop {i} h1 ?h2"
  proof (cases "bt_get (h_slots h1) i")
    case (Some s)
    have "retry_inv (hs_retry s) \<Longrightarrow> retry_inv (manual_restart (hs_retry s))"
      using retry_inv_exec [of "hs_retry s" ManualRestart] by simp
    then show ?thesis using Some by (auto intro!: set_retry_hop)
  qed simp
  then have h2: "hop {i} h ?h2" by (rule hop_trans [OF h1])
  obtain q h3 where q: "start_generation debug E i ?h2 = (q, h3)" by fastforce
  have h3: "hop {i} h h3" using hop_trans [OF h2 start_generation_hop [OF E, of i "{i}"]] q by (metis singletonI snd_conv)
  have h4: "hop {i} h (disable_retry i h3)" by (rule hop_trans [OF h3 disable_retry_hop])
  show ?thesis using Inr r q h1 h3 h4
    by (cases r; cases q) (simp_all add: manual_start_def Let_def)
qed (simp add: manual_start_def)

lemma retry_default_inv: "retry_inv retry_default"
  by (simp add: retry_default_def retry_policy_default_def retry_inv_new)

lemma launch_slot_hop:
  assumes "register spec (h_kernel h) = (Inr (), k)" "spec_id spec = i" "i \<in> S"
  shows "hop S h (h\<lparr>h_kernel := k, h_slots := bt_insert i (host_slot_new l ac) (h_slots h)\<rparr>)"
proof -
  have fresh: "\<not> bt_has (k_plugins (h_kernel h)) i" and k: "k = (h_kernel h)\<lparr>k_plugins := bt_insert i (slot_new spec) (k_plugins (h_kernel h))\<rparr>"
    using assms(1,2) by (auto simp: register_def split: if_splits)
  have "connection_ok (h_slots h) (h_catalog h) j c \<Longrightarrow> j \<noteq> i \<Longrightarrow>
      connection_ok (bt_insert i (host_slot_new l ac) (h_slots h)) (h_catalog h) j c" for j c
    by (simp add: connection_ok_def)
  moreover have "host_inv h \<Longrightarrow> connection_ok (h_slots h) (h_catalog h) i c \<Longrightarrow> False" for c
    using fresh by (auto simp: host_inv_def connection_ok_def)
  moreover have "kernel_inv (h_kernel h) \<Longrightarrow> kernel_inv k"
    using kernel_inv_register [of "h_kernel h" spec] assms(1) by simp
  moreover have "bt_has (k_plugins k) j \<longleftrightarrow> j = i \<or> bt_has (k_plugins (h_kernel h)) j" for j by (simp add: k)
  ultimately have "host_inv h \<Longrightarrow> host_inv (h\<lparr>h_kernel := k, h_slots := bt_insert i (host_slot_new l ac) (h_slots h)\<rparr>)"
    by (auto simp: host_inv_def routes_inv_def host_slot_new_def retry_default_inv) metis+
  moreover have "j \<noteq> i \<Longrightarrow> spawn_count j k = spawn_count j (h_kernel h)" for j by (simp add: k spawn_count_def)
  ultimately show ?thesis using assms(3) by (auto simp: hop_def rank_of_def off_def)
qed

end
