(* ===== verification/Plugin_Host_Claims.thy ===== *)
theory Plugin_Host_Claims
  imports Plugin_Host_Props
begin

text \<open>
  Runs of the process host and the properties of every run: routes follow live connections and
  launch contracts, a switched-off plugin stays off, automatic restarts are bounded, errors of an old
  connection do not reach a newer one.
\<close>

section \<open>Runs\<close>

datatype 'p host_op =
    OpLaunch plugin_launch
  | OpInvoke capability rstring 'p
  | OpDisable plugin_id
  | OpEnable plugin_id
  | OpHostRefresh
  | OpHostShutdown

fun host_exec ::
  "('p \<Rightarrow> (rstring, 'v) res) \<Rightarrow> ('v \<Rightarrow> (rstring, 'q) res) \<Rightarrow> ('v plugin_message \<Rightarrow> rstring) \<Rightarrow> 'v outside \<Rightarrow>
     'v host \<Rightarrow> 'p host_op \<Rightarrow> 'v host" where
  "host_exec enc dec debug E h (OpLaunch l) = snd (host_launch debug E l h)"
| "host_exec enc dec debug E h (OpInvoke cap operation p) = snd (invoke enc dec debug E cap operation p h)"
| "host_exec enc dec debug E h (OpDisable i) = snd (host_disable E i h)"
| "host_exec enc dec debug E h (OpEnable i) = snd (manual_start debug E i h)"
| "host_exec enc dec debug E h OpHostRefresh = host_refresh debug E h"
| "host_exec enc dec debug E h OpHostShutdown = host_shutdown E h"

definition host_run ::
  "('p \<Rightarrow> (rstring, 'v) res) \<Rightarrow> ('v \<Rightarrow> (rstring, 'q) res) \<Rightarrow> ('v plugin_message \<Rightarrow> rstring) \<Rightarrow> 'v outside \<Rightarrow>
     'v host \<Rightarrow> 'p host_op list \<Rightarrow> 'v host" where
  "host_run enc dec debug E h ops = foldl (host_exec enc dec debug E) h ops"

fun starts :: "plugin_id \<Rightarrow> 'p host_op \<Rightarrow> bool" where
  "starts i (OpLaunch l) = (pl_id l = i)"
| "starts i (OpEnable j) = (j = i)"
| "starts i _ = False"

section \<open>Each operation is a move\<close>

lemma spec_with_display_name_id [simp]: "spec_id (spec_with_display_name n s) = spec_id s"
  by (simp add: spec_with_display_name_def)

lemma register_error_kernel: "register spec k = (Inl e, k') \<Longrightarrow> k' = k"
  by (auto simp: register_def split: if_splits)

lemma ask_hop: "hop S h (snd (ask E f h))"
  by (rule hquiet_hop [OF ask_quiet])

lemma host_launch_hop:
  assumes E: "outside_ok E"
  shows "hop {pl_id l} h (snd (host_launch debug E l h))"
proof -
  obtain b h1 where b: "ask E he_bind h = (b, h1)" by fastforce
  have h1: "hop {pl_id l} h h1" using ask_hop [of "{pl_id l}" h E he_bind] b by simp
  show ?thesis
  proof (cases b)
    case (Inl e)
    then show ?thesis using b h1 by (simp add: host_launch_def)
  next
    case (Inr ac)
    let ?spec = "spec_with_display_name (pl_display_name l) (spec_new (pl_id l)
        (command_env (lit ''YUNXI_PLUGIN_CONNECT_TOKEN'') (ac_token ac)
          (command_env (lit ''YUNXI_PLUGIN_CONNECT_ADDRESS'') (ac_address ac) (pl_command l))))"
    obtain r k where r: "register ?spec (h_kernel h1) = (r, k)" by fastforce
    show ?thesis
    proof (cases r)
      case (Inl e)
      then have "k = h_kernel h1" using register_error_kernel r by blast
      then have "h1\<lparr>h_kernel := k\<rparr> = h1" by simp
      then show ?thesis using b Inr r Inl h1 by (simp add: host_launch_def Let_def)
    next
      case (Inr u)
      let ?h2 = "h1\<lparr>h_kernel := k, h_slots := bt_insert (pl_id l) (host_slot_new l ac) (h_slots h1)\<rparr>"
      have "hop {pl_id l} h1 ?h2"
        using r Inr by (intro launch_slot_hop) (auto simp: spec_new_def)
      then have h2: "hop {pl_id l} h ?h2" by (rule hop_trans [OF h1])
      obtain q h3 where q: "start_generation debug E (pl_id l) ?h2 = (q, h3)" by fastforce
      have h3: "hop {pl_id l} h h3"
        using hop_trans [OF h2 start_generation_hop [OF E, of "pl_id l" "{pl_id l}"]] q by (metis singletonI snd_conv)
      have h4: "hop {pl_id l} h (disable_retry (pl_id l) h3)" by (rule hop_trans [OF h3 disable_retry_hop])
      show ?thesis using b \<open>b = Inr ac\<close> r Inr q h3 h4
        by (cases q) (simp_all add: host_launch_def Let_def)
    qed
  qed
qed

lemma next_hop: "hop S h (h\<lparr>h_next := n\<rparr>)"
  by (simp add: hop_def host_inv_def rank_of_def off_def)

lemma invoke_hop:
  assumes E: "outside_ok E"
  shows "hop S h (snd (invoke enc dec debug E cap operation p h))"
proof (cases "resolve_unique (cap_str (cap_id cap)) (cap_version cap) (h_catalog h)")
  case (Inr rec)
  define h1 where "h1 = h\<lparr>h_next := (case checked_inc (h_next h) of Some n \<Rightarrow> n | None \<Rightarrow> 1)\<rparr>"
  have h1: "hop S h h1" unfolding h1_def by (rule next_hop)
  note failed = hop_trans [OF _ hquiet_hop [OF fail_connection_quiet [OF E]]]
  show ?thesis
  proof (cases "invocation_encode enc (h_next h) cap operation p")
    case (Inl e)
    then show ?thesis using \<open>resolve_unique _ _ _ = Inr rec\<close> h1 by (simp add: invoke_def h1_def Let_def)
  next
    case (Inr request)
    let ?i = "pr_id rec"
    note eq = invoke_def \<open>resolve_unique _ _ _ = Inr rec\<close> sum.case Let_def Inr h1_def [symmetric]
    show ?thesis
    proof (cases "bt_get (h_conns h1) ?i")
      case None
      then show ?thesis unfolding eq by (auto intro: failed [OF h1])
    next
      case (Some c)
      obtain s h2 where s: "send_to E c (Invoke request) h1 = (s, h2)" by fastforce
      have h2: "hop S h h2" using hop_trans [OF h1 hquiet_hop [OF send_quiet]] s by (metis snd_conv)
      have h3: "hop S h (snd (receive_from E d h2))" for d
        unfolding receive_from_def by (rule hop_trans [OF h2 ask_hop])
      show ?thesis
        unfolding eq Some option.case s prod.case case_prod_beta
        by (auto intro: failed [OF h2] failed [OF h3] h3 split: sum.split plugin_message.split option.split)
    qed
  qed
qed (simp add: invoke_def)

lemma send_shutdowns_frame:
  "h_kernel (send_shutdowns E is h) = h_kernel h" "h_catalog (send_shutdowns E is h) = h_catalog h"
  "h_slots (send_shutdowns E is h) = h_slots h" "h_conns (send_shutdowns E is h) = h_conns h"
proof -
  have "h_kernel (send_shutdowns E is h) = h_kernel h \<and> h_catalog (send_shutdowns E is h) = h_catalog h \<and>
      h_slots (send_shutdowns E is h) = h_slots h \<and> h_conns (send_shutdowns E is h) = h_conns h"
    unfolding send_shutdowns_def by (induction "is" arbitrary: h) (auto simp: send_to_def ask_def split: option.split)
  then show "h_kernel (send_shutdowns E is h) = h_kernel h" "h_catalog (send_shutdowns E is h) = h_catalog h"
    "h_slots (send_shutdowns E is h) = h_slots h" "h_conns (send_shutdowns E is h) = h_conns h" by auto
qed

lemma bt_has_in_keys: "bt_has m i \<longleftrightarrow> i \<in> set (bt_keys m)"
  unfolding bt_has_def bt_keys_def by (metis list.set_map map_of_eq_None_iff)

lemma host_shutdown_hop:
  assumes E: "outside_ok E"
  shows "hop S h (host_shutdown E h)"
proof -
  let ?h' = "host_shutdown E h"
  have fields: "h_slots ?h' = []" "h_conns ?h' = []"
      "h_catalog ?h' = foldl (\<lambda>cat i. snd (unregister i cat)) (h_catalog h) (bt_keys (h_conns h))"
    by (simp_all add: host_shutdown_def Let_def send_shutdowns_frame)
  have kernel: "\<exists>e1 e2 e3 es. h_kernel ?h' = shutdown e1 e2 e3 (deliver es (h_kernel h)) \<and>
      env_ok e1 \<and> env_ok e2 \<and> env_ok e3 \<and> (\<forall>e \<in> set es. from_supervisor e)"
  proof -
    let ?t = "h_tick (send_shutdowns E (bt_keys (h_conns h))
        (h\<lparr>h_slots := bt_map (\<lambda>_ s. s\<lparr>hs_retry := retry_disable (hs_retry s)\<rparr>) (h_slots h)\<rparr>))"
    have "h_kernel ?h' = shutdown (he_kernel (E ?t)) (he_kernel (E (?t + 1))) (he_kernel (E (?t + 2)))
        (deliver (he_arrivals (E ?t)) (h_kernel h))"
      by (simp add: host_shutdown_def Let_def send_shutdowns_frame)
    then show ?thesis using E unfolding outside_ok_def by blast
  qed
  then have inv: "kernel_inv (h_kernel h) \<Longrightarrow> kernel_inv (h_kernel ?h')"
    using kcalm_deliver kernel_inv_shutdown by (metis kcalm_def)
  have spawns: "spawn_count j (h_kernel ?h') = spawn_count j (h_kernel h)" for j
    using kernel kcalm_deliver shutdown_spawns by (metis kcalm_def)
  have "routes_inv (h_slots h) (h_catalog h) (h_conns h) \<Longrightarrow> routes_inv [] (h_catalog ?h') []"
  proof -
    assume r: "routes_inv (h_slots h) (h_catalog h) (h_conns h)"
    then have cat: "catalog_inv (h_catalog h)" and reg: "\<And>i. registered (h_catalog h) i = bt_has (h_conns h) i"
      by (auto simp: routes_inv_def)
    show ?thesis
      unfolding fields routes_inv_def
      using catalog_routes.remove_all_inv [OF cat] catalog_routes.remove_all_known [OF cat] reg
      by (auto simp: bt_has_in_keys bt_keys_def)
  qed
  then show ?thesis using inv spawns by (auto simp: hop_def host_inv_def rank_of_def off_def fields)
qed

lemma host_exec_hop:
  assumes E: "outside_ok E" and S: "\<And>i. starts i op \<Longrightarrow> i \<in> S"
  shows "hop S h (host_exec enc dec debug E h op)"
proof (cases op)
  case (OpLaunch l)
  then show ?thesis using hop_mono [OF host_launch_hop [OF E]] S by simp
next
  case (OpEnable i)
  then show ?thesis using hop_mono [OF manual_start_hop [OF E]] S by simp
qed (simp_all add: invoke_hop [OF E] host_disable_hop [OF E] host_refresh_hop [OF E] host_shutdown_hop [OF E])

lemma host_new_inv: "host_inv host_new"
  by (simp add: host_inv_def host_new_def kernel_new_def kernel_inv_def routes_inv_def registered_def
      bt_has_def) (simp add: catalog_new_def)

lemma host_run_hop:
  assumes "outside_ok E" "\<And>i op. op \<in> set ops \<Longrightarrow> starts i op \<Longrightarrow> i \<in> S"
  shows "hop S h (host_run enc dec debug E h ops)"
  unfolding host_run_def using assms(2)
proof (induction ops arbitrary: h)
  case (Cons op ops)
  have "hop S h (host_exec enc dec debug E h op)" using Cons.prems by (intro host_exec_hop [OF assms(1)]) auto
  then show ?case using Cons hop_trans by fastforce
qed simp

inductive host_step ::
  "('p \<Rightarrow> (rstring, 'v) res) \<Rightarrow> ('v \<Rightarrow> (rstring, 'q) res) \<Rightarrow> ('v plugin_message \<Rightarrow> rstring) \<Rightarrow> 'v outside \<Rightarrow>
     'v host \<Rightarrow> 'v host \<Rightarrow> bool" for enc dec debug E where
  host_stepI: "outside_ok E \<Longrightarrow> host_step enc dec debug E h (host_exec enc dec debug E h op)"

inductive_cases host_stepE: "host_step enc dec debug E h h'"

interpretation process_host: component "\<lambda>h. h = host_new" "host_step enc dec debug E" host_inv
proof unfold_locales
  show "host_inv h" if "h = host_new" for h :: "'a host" using that host_new_inv by blast
  show "host_inv h'" if "host_inv h" "host_step enc dec debug E h h'" for h h' :: "'a host"
    using that host_exec_hop [of E _ UNIV h enc dec debug] unfolding hop_def by (auto elim!: host_stepE)
qed

lemma host_run_reach:
  assumes "outside_ok E"
  shows "reach (\<lambda>h. h = host_new) (host_step enc dec debug E) (host_run enc dec debug E host_new ops)"
proof -
  have "reach (\<lambda>h. h = host_new) (host_step enc dec debug E) h \<Longrightarrow>
      reach (\<lambda>h. h = host_new) (host_step enc dec debug E) (host_run enc dec debug E h ops)" for h
    unfolding host_run_def
    by (induction ops arbitrary: h) (auto intro: reach_step host_stepI [OF assms])
  then show ?thesis by (simp add: reach_start)
qed

lemmas host_run_inv = process_host.reach_inv [OF host_run_reach]

section \<open>Properties\<close>

text \<open>C3: the routing table is the set of live connections. After every run of host operations, whatever
  the processes, sockets and clocks answer, a plugin is in the catalog exactly when the host holds a
  connection to it; that connection's announcement satisfied the plugin's launch contract (exactly the
  expected capabilities, every required grant declared as required); and what the catalog routes to it
  is what the connection announced.\<close>

theorem host_routes_are_connections:
  assumes "outside_ok E" and "h = host_run enc dec debug E host_new ops"
  shows "(catalog_plugin i (h_catalog h) \<noteq> None) = (bt_get (h_conns h) i \<noteq> None) \<and>
    (\<forall>c. bt_get (h_conns h) i = Some c \<longrightarrow>
       (\<exists>s r. bt_get (h_slots h) i = Some s \<and> catalog_plugin i (h_catalog h) = Some r \<and>
          validate_expected_capabilities (cn_info c) (pl_expected_capabilities (hs_launch s)) = Inr () \<and>
          validate_required_grants (cn_info c) (pl_required_grants (hs_launch s)) = Inr () \<and>
          pr_capabilities r = ci_capabilities (cn_info c)))"
proof -
  have "routes_inv (h_slots h) (h_catalog h) (h_conns h)"
    using host_run_inv [OF assms(1)] unfolding assms(2) host_inv_def by blast
  then show ?thesis
    by (auto simp: routes_inv_def registered_def bt_has_def connection_ok_def contract_ok_def catalog_plugin_def) fastforce+
qed

text \<open>C1: automatic restarts are bounded. Take any run of the host, and then any further operations none
  of which launches or enables plugin \<open>j\<close> (refreshes, invocations, failures and crashes of any
  kind, operations on other plugins). In that further run the host starts \<open>j\<close> at most three
  times.\<close>

theorem host_restarts_bounded:
  assumes "outside_ok E" and "h = host_run enc dec debug E host_new before"
    and "\<forall>op \<in> set ops. \<not> starts j op"
  shows "spawn_count j (h_kernel (host_run enc dec debug E h ops)) \<le> spawn_count j (h_kernel h) + 3"
proof -
  have inv: "host_inv h" unfolding assms(2) by (rule host_run_inv [OF assms(1)])
  have "hop {i. i \<noteq> j} h (host_run enc dec debug E h ops)"
    using assms(3) by (intro host_run_hop [OF assms(1)]) auto
  then have "spawn_count j (h_kernel (host_run enc dec debug E h ops)) + rank_of (host_run enc dec debug E h ops) j \<le>
      spawn_count j (h_kernel h) + rank_of h j"
    using inv by (simp add: hop_def)
  moreover have "rank_of h j \<le> 3"
    using inv retry_rank_le by (auto simp: rank_of_def host_inv_def split: option.split)
  ultimately show ?thesis by simp
qed

lemma off_stays:
  assumes "outside_ok E" "host_inv h" "off h j" "\<forall>op \<in> set ops. \<not> starts j op"
  shows "off (host_run enc dec debug E h ops) j \<and> host_inv (host_run enc dec debug E h ops) \<and>
    spawn_count j (h_kernel (host_run enc dec debug E h ops)) \<le> spawn_count j (h_kernel h)"
proof -
  have "hop {i. i \<noteq> j} h (host_run enc dec debug E h ops)"
    using assms(4) by (intro host_run_hop [OF assms(1)]) auto
  moreover have "rank_of h j = 0" using assms(3) by (auto simp: off_def rank_of_def retry_rank_def split: option.split)
  ultimately show ?thesis using assms(2,3) by (auto simp: hop_def)
qed

lemma disable_off:
  assumes E: "outside_ok E" and h: "host_inv h" and has: "bt_get (h_slots h) i \<noteq> None"
  shows "off (snd (host_disable E i h)) i \<and> host_inv (snd (host_disable E i h))"
proof -
  obtain s where s: "bt_get (h_slots h) i = Some s" using has by blast
  let ?h1 = "disable_retry i h"
  have slots: "h_slots (snd (stop_current E i ?h1)) = h_slots ?h1"
    using hquiet_spawns [OF stop_current_quiet [OF E]] by blast
  have ens: "ensure_slot i ?h1 = Inr ()" using s by (simp add: ensure_slot_def bt_has_def disable_retry_def set_retry_def)
  have "bt_get (h_conns (snd (stop_current E i ?h1))) i = None"
  proof -
    let ?a = "case bt_get (h_conns ?h1) i of Some c \<Rightarrow> snd (send_to E c Shutdown ?h1) | None \<Rightarrow> ?h1"
    let ?h2 = "h_refresh E (detach_connection i ?a)"
    have none: "bt_get (h_conns hh) i = None \<Longrightarrow> hquiet i hh hh' \<Longrightarrow> bt_get (h_conns hh') i = None" for hh hh' :: "'a host"
      by (auto simp: hquiet_def)
    have h2: "bt_get (h_conns ?h2) i = None" by (rule none [OF _ refresh_quiet [OF E]]) (simp add: detach_connection_def)
    show ?thesis
    proof (cases "kernel_plugin i (h_kernel ?h2)")
      case (Some snap)
      let ?r = "if is_active (snap_state snap) then with_kernel E (\<lambda>env. stop env i) ?h2 else (Inr (), ?h2)"
      have r: "bt_get (h_conns (snd ?r)) i = None" using h2 by simp
      have w: "bt_get (h_conns (snd (stop_wait E i n (snd ?r)))) i = None" for n
        by (rule none [OF r stop_wait_quiet [OF E]])
      have eq: "snd (stop_current E i ?h1) =
          (case fst ?r of Inl e \<Rightarrow> snd ?r | Inr _ \<Rightarrow> snd (stop_wait E i (STOP_WAIT_MILLIS div STOP_POLL_MILLIS) (snd ?r)))"
        using ens Some by (auto simp: stop_current_def Let_def split: prod.split sum.split)
      show ?thesis unfolding eq using r w by (cases "fst ?r") (simp_all only: sum.case)
    qed (use ens h2 in \<open>simp add: stop_current_def Let_def\<close>)
  qed
  moreover have "host_disable E i h = stop_current E i ?h1"
    using s by (simp add: host_disable_def ensure_slot_def bt_has_def)
  ultimately have "off (snd (host_disable E i h)) i"
    using slots s by (auto simp: off_def disable_retry_def set_retry_def retry_disable_def)
  moreover have "host_inv (snd (host_disable E i h))"
    using host_disable_hop [OF E, of UNIV h i] h by (simp add: hop_def)
  ultimately show ?thesis by blast
qed

text \<open>C2: off means off. Once a launched plugin has been disabled, and until it is launched or enabled
  again, no later sequence of operations starts a process for it, and no capability is routed to it,
  whatever happens and even if stopping the process had timed out.\<close>

theorem disabled_stays_off:
  assumes "outside_ok E" and "h = host_run enc dec debug E host_new before" and "bt_get (h_slots h) i \<noteq> None"
    and "\<forall>op \<in> set ops. \<not> starts i op"
    and "h' = host_run enc dec debug E (snd (host_disable E i h)) ops"
  shows "spawn_count i (h_kernel h') \<le> spawn_count i (h_kernel h) \<and>
    (\<forall>c v r. resolve_unique c v (h_catalog h') = Inr r \<longrightarrow> pr_id r \<noteq> i)"
proof -
  let ?d = "snd (host_disable E i h)"
  have inv: "host_inv h" unfolding assms(2) by (rule host_run_inv [OF assms(1)])
  note d = disable_off [OF assms(1) inv assms(3)]
  have stop: "spawn_count i (h_kernel ?d) \<le> spawn_count i (h_kernel h)"
    using hquiet_spawns [OF stop_current_quiet [OF assms(1)], of i i "disable_retry i h"]
    by (simp add: host_disable_def ensure_slot_def disable_retry_def set_retry_def split: option.split)
  note run = off_stays [OF assms(1) conjunct2 [OF d] conjunct1 [OF d] assms(4), where enc = enc and dec = dec and debug = debug]
  have cat: "catalog_inv (h_catalog h')" "\<not> registered (h_catalog h') i"
    using run unfolding assms(5) by (auto simp: host_inv_def routes_inv_def off_def bt_has_def)
  have "pr_id r \<noteq> i" if "resolve_unique c v (h_catalog h') = Inr r" for c v r
    using catalog_routes.route_known [OF cat(1), of "(c, v)" i] cat(2) that by (auto simp: route_of_def)
  then show ?thesis using run stop unfolding assms(5) by auto
qed

text \<open>after a refresh, whatever the catalog routes to is running. In every run, once \<open>refresh\<close>
  has returned, each plugin a capability resolves to is one whose process the kernel holds as starting,
  running or stopping, never failed or stopped.\<close>

theorem refreshed_routes_active:
  assumes "outside_ok (E :: 'v outside)" and "h = host_refresh debug E (host_run enc dec debug E host_new ops)"
    and "resolve_unique c v (h_catalog h) = Inr r"
  shows "\<exists>s. kernel_plugin (pr_id r) (h_kernel h) = Some s \<and> is_active (snap_state s)"
proof -
  let ?h0 = "h_refresh E (recover_failed_plugins debug E (h_refresh E (host_run enc dec debug E host_new ops)))"
  have h: "h = prune_inactive_connections ?h0" using assms(2) by (simp add: host_refresh_def)
  have detach: "h_kernel (foldl (\<lambda>hh i. detach_connection i hh) hh is) = h_kernel hh \<and>
      (\<forall>i. bt_has (h_conns (foldl (\<lambda>hh i. detach_connection i hh) hh is)) i \<longleftrightarrow> i \<notin> set is \<and> bt_has (h_conns hh) i)" for hh :: "'v host" and "is"
    by (induction "is" arbitrary: hh) (auto simp: detach_connection_def)
  have "host_inv h"
    using host_run_inv [OF assms(1), of enc dec debug ops] host_refresh_hop [OF assms(1), of UNIV _ debug]
    unfolding assms(2) hop_def by blast
  then have cat: "catalog_inv (h_catalog h)" and reg: "registered (h_catalog h) i = bt_has (h_conns h) i" for i
    by (auto simp: host_inv_def routes_inv_def)
  have "registered (h_catalog h) (pr_id r)"
    using catalog_routes.route_known [OF cat, of "(c, v)"] assms(3) by (simp add: route_of_def)
  then have "bt_has (h_conns h) (pr_id r)" by (simp add: reg)
  then have "\<not> plugin_inactive (h_kernel h) (pr_id r)"
    unfolding h prune_inactive_connections_def using detach [of ?h0 "filter (plugin_inactive (h_kernel ?h0)) (bt_keys (h_conns ?h0))"]
    by (simp add: bt_has_in_keys)
  then show ?thesis by (auto simp: plugin_inactive_def split: option.splits)
qed

text \<open>an error of an old connection does not reach the plugin's newer generation. If the host holds a
  connection of another generation than the error's, the route and the connection stay; if the
  kernel, too, is past that generation, reporting the error does nothing but take in the kernel's queued
  events.\<close>

theorem stale_error_ignored:
  assumes "bt_get (h_conns h) i = Some c" and "cn_generation c \<noteq> g"
  shows "h_conns (fail_connection E i (Some g) m h) = h_conns h \<and>
    h_catalog (fail_connection E i (Some g) m h) = h_catalog h \<and>
    (\<forall>s. kernel_plugin i (h_kernel (h_refresh E h)) = Some s \<and> snap_generation s \<noteq> g \<longrightarrow>
       fail_connection E i (Some g) m h = h_refresh E h)"
  using assms
  by (auto simp: fail_connection_def should_detach_def fail_current_def h_refresh_def Let_def split: option.split)

text \<open>C20: an invocation talks to the plugin that offers the capability and answers with its reply to this
  request. In any run of the host, if \<open>invoke\<close> returns a value, exactly one registered plugin announces
  the capability; the request went, under the host's next request number, over the socket the host
  accepted from that plugin, and nothing else was sent; the message read from that same socket carried
  the same number, and the value is its decoded payload; connections, catalog and kernel are unchanged
  and the next request number is not zero.\<close>

theorem invoke_correlates:
  assumes "outside_ok E" and "h = host_run enc dec debug E host_new ops"
    and "invoke enc dec debug E cap operation p h = (Inr q, h')"
  shows "\<exists>i r c request response.
     {x. catalog_plugin (pr_id x) (h_catalog h) = Some x \<and> announces x (cap_str (cap_id cap)) (cap_version cap)} = {r} \<and>
     pr_id r = i \<and> bt_get (h_conns h) i = Some c \<and> cn_session c = (i, cn_generation c) \<and>
     pr_capabilities r = ci_capabilities (cn_info c) \<and>
     invocation_encode enc (h_next h) cap operation p = Inr request \<and> ir_request_id request = h_next h \<and>
     h_sent h' = h_sent h @ [((i, cn_generation c), Invoke request)] \<and>
     he_receive (E (Suc (h_tick h))) (i, cn_generation c) = Inr (InvocationCompleted response) \<and>
     is_request_id response = h_next h \<and> dec (is_payload response) = Inr q \<and>
     h_conns h' = h_conns h \<and> h_catalog h' = h_catalog h \<and> h_kernel h' = h_kernel h \<and> h_next h' \<noteq> 0"
proof -
  have number: "(case checked_inc n of Some n \<Rightarrow> n | None \<Rightarrow> 1) \<noteq> 0" for n :: u64
    by (auto simp: checked_inc_def word_unat_eq_iff unat_inc simp del: unat_eq_zero split: option.split)
  have wrap: "checked_inc n \<noteq> Some 0" for n :: u64
    using number [of n] by auto
  have "\<exists>r c request response.
     resolve_unique (cap_str (cap_id cap)) (cap_version cap) (h_catalog h) = Inr r \<and>
     bt_get (h_conns h) (pr_id r) = Some c \<and>
     invocation_encode enc (h_next h) cap operation p = Inr request \<and>
     ir_request_id request = h_next h \<and>
     h_sent h' = h_sent h @ [(cn_session c, Invoke request)] \<and>
     he_receive (E (Suc (h_tick h))) (cn_session c) = Inr (InvocationCompleted response) \<and>
     is_request_id response = h_next h \<and>
     dec (is_payload response) = Inr q \<and>
     h_conns h' = h_conns h \<and>
     h_catalog h' = h_catalog h \<and>
     h_kernel h' = h_kernel h \<and>
     h_next h' \<noteq> 0"
    using assms(3) wrap
    by (auto simp: invoke_def Let_def send_to_def receive_from_def ask_def response_payload_def invocation_encode_def
        split: sum.splits if_splits plugin_message.splits option.splits)
  then obtain r c request response where run:
    "resolve_unique (cap_str (cap_id cap)) (cap_version cap) (h_catalog h) = Inr r" "bt_get (h_conns h) (pr_id r) = Some c"
    "invocation_encode enc (h_next h) cap operation p = Inr request" "ir_request_id request = h_next h"
    "h_sent h' = h_sent h @ [(cn_session c, Invoke request)]"
    "he_receive (E (Suc (h_tick h))) (cn_session c) = Inr (InvocationCompleted response)"
    "is_request_id response = h_next h" "dec (is_payload response) = Inr q"
    "h_conns h' = h_conns h" "h_catalog h' = h_catalog h" "h_kernel h' = h_kernel h" "h_next h' \<noteq> 0"
    by blast
  have inv: "routes_inv (h_slots h) (h_catalog h) (h_conns h)"
    using host_run_inv [OF assms(1)] unfolding assms(2) host_inv_def by blast
  then have "connection_ok (h_slots h) (h_catalog h) (pr_id r) c" using run(2) by (simp add: routes_inv_def)
  moreover have only: "{x. catalog_plugin (pr_id x) (h_catalog h) = Some x \<and>
      announces x (cap_str (cap_id cap)) (cap_version cap)} = {r}"
    using resolve_ok [of "h_catalog h"] run(1) inv by (simp add: routes_inv_def catalog_plugin_def)
  moreover have "catalog_plugin (pr_id r) (h_catalog h) = Some r" using only by blast
  ultimately show ?thesis using run unfolding connection_ok_def catalog_plugin_def by fastforce
qed

section \<open>A concrete run\<close>

text \<open>One plugin that connects at the second poll, announces what it is launched for and answers.\<close>

definition demo_kernel_env :: kernel_env where
  "demo_kernel_env = \<lparr>env_spawn = (\<lambda>h. None), env_alive = (\<lambda>h. True), env_finished = (\<lambda>h. False),
     env_panics = (\<lambda>h. False), env_late = (\<lambda>h. [])\<rparr>"

definition demo_plugin :: plugin_id where
  "demo_plugin = PluginId (lit ''yunxi.demo'')"

definition demo_world :: "nat outside" where
  "demo_world n = \<lparr>he_kernel = demo_kernel_env, he_arrivals = [], he_bind = Inr \<lparr>ac_address = [], ac_token = lit ''t''\<rparr>,
     he_accept = demo_accept, he_timeouts = Inr (), he_send = (\<lambda>c. Inr ()),
     he_receive = (\<lambda>c. if c = (demo_plugin, 1) then Inr (InvocationCompleted \<lparr>is_request_id = 1, is_payload = 5\<rparr>)
       else Inl (Handshake [])), he_late = True\<rparr>"

definition demo_launch :: plugin_launch where
  "demo_launch = launch_with_expected_capabilities [demo_cap] (launch_new demo_plugin (command_new (lit ''demo.exe'')))"

definition demo_info :: connection_info where
  "demo_info = \<lparr>ci_plugin_id = lit ''yunxi.demo'', ci_display_name = lit ''Demo'', ci_plugin_version = lit ''1.0'',
     ci_capabilities = [demo_cap], ci_manifest = Some demo_manifest\<rparr>"

lemma demo_world_ok [simp]: "outside_ok demo_world"
  by (simp add: outside_ok_def demo_world_def env_ok_def demo_kernel_env_def)

lemma demo_accepted:
  "fst (acceptor_accept \<lparr>ac_address = [], ac_token = lit ''t''\<rparr> (lit ''yunxi.demo'') 5000 debug demo_accept) = Inr demo_info"
proof -
  have "check_hello (lit ''t'') (lit ''yunxi.demo'') (hello_of demo_manifest (lit ''t'')) = Inr demo_info"
    unfolding check_hello_ok using demo_valid
    by (simp add: hello_of_def identity_ok same_capabilities_def demo_info_def demo_manifest_def manifest_new_def demo_cap_def)
  moreover have "accept_stream (ae_poll demo_accept) 5000 501 (lit ''yunxi.demo'') 0 = Inr ()"
    by (simp add: demo_accept_def accept_stream.simps eval_nat_numeral)
  ultimately show ?thesis
    by (simp add: acceptor_accept_def accept_sends_def demo_accept_def ACCEPT_POLL_MILLIS_def)
qed

definition demo_record :: plugin_record where
  "demo_record = \<lparr>pr_id = demo_plugin, pr_display_name = lit ''Demo'', pr_version = lit ''1.0'',
     pr_capabilities = [demo_cap], pr_manifest = Some demo_manifest\<rparr>"

lemma demo_name: "plugin_id_new (lit ''yunxi.demo'') = Inr demo_plugin"
  by (simp add: demo_plugin_def plugin_id_new_def lit_def utf8_width_def KERNEL_MAX_PLUGIN_ID_BYTES_def char_indices_def
      plugin_id_char_def ascii_classes ch_def)

definition demo_host :: "nat host" where
  "demo_host = host_run (\<lambda>p. Inr p) (\<lambda>v. Inr v) (\<lambda>_. []) demo_world host_new [OpLaunch demo_launch :: nat host_op]"

lemma demo_admitted:
  assumes "hs_launch s = demo_launch" "hs_acceptor s = \<lparr>ac_address = [], ac_token = lit ''t''\<rparr>"
    "h_catalog h = catalog_new" "h_conns h = []"
  shows "admit_connection debug demo_world demo_plugin g s h = (Inr (),
     h\<lparr>h_tick := h_tick h + 2, h_catalog := \<lparr>cat_plugins = [(demo_plugin, demo_record)], cat_providers = [(cap_id demo_cap, [demo_plugin])]\<rparr>,
       h_conns := [(demo_plugin, \<lparr>cn_generation = g, cn_info = demo_info, cn_session = (demo_plugin, g)\<rparr>)]\<rparr>)"
proof -
  have contract: "validate_expected_capabilities demo_info (pl_expected_capabilities demo_launch) = Inr ()"
      "validate_required_grants demo_info (pl_required_grants demo_launch) = Inr ()"
    by (simp_all add: demo_launch_def launch_with_expected_capabilities_def launch_new_def demo_info_def
        validate_expected_capabilities_def validate_required_grants_def Let_def)
  have reg: "register_connection demo_info catalog_new =
      (Inr demo_plugin, \<lparr>cat_plugins = [(demo_plugin, demo_record)], cat_providers = [(cap_id demo_cap, [demo_plugin])]\<rparr>)"
    using demo_name
    by (simp add: register_connection_def act_bind_def lift_res_def ret_def register_with_manifest_def catalog_new_def
        demo_info_def bt_has_def first_dup_def add_provider_def demo_record_def)
  have "pl_handshake_timeout demo_launch = 5000"
    by (simp add: demo_launch_def launch_with_expected_capabilities_def launch_new_def DEFAULT_HANDSHAKE_MILLIS_def)
  then show ?thesis
    using assms contract reg demo_accepted [of debug]
    by (simp add: admit_connection_def act_then_def act_bind_def lift_res_def ask_def demo_world_def demo_plugin_def)
qed

lemma demo_launch_id [simp]: "pl_id demo_launch = demo_plugin"
  by (simp add: demo_launch_def launch_with_expected_capabilities_def launch_new_def)

lemma demo_world_kernel: "he_kernel (demo_world n) = demo_kernel_env" "he_arrivals (demo_world n) = []"
  by (simp_all add: demo_world_def)

text \<open>The launched host: one slot, one connection of generation 1, one route.\<close>

lemma demo_host_state:
  "\<exists>s. h_slots demo_host = [(demo_plugin, s)]"
  "h_conns demo_host = [(demo_plugin, \<lparr>cn_generation = 1, cn_info = demo_info, cn_session = (demo_plugin, 1)\<rparr>)]"
  "h_catalog demo_host = \<lparr>cat_plugins = [(demo_plugin, demo_record)], cat_providers = [(cap_id demo_cap, [demo_plugin])]\<rparr>"
  "h_next demo_host = 1"
  "\<exists>slot tr. h_kernel demo_host = \<lparr>k_state = KRunning, k_plugins = [(demo_plugin, slot)], k_events = [], k_trace = tr\<rparr> \<and>
     slot_state slot = Starting \<and> slot_worker slot = Some (demo_plugin, 1) \<and> spec_id (slot_spec slot) = demo_plugin"
  by (simp_all add: demo_host_def host_run_def host_launch_def ask_def demo_world_def [of 0] host_new_def register_def
      kernel_new_def bt_has_def Let_def spec_new_def start_generation_def ensure_slot_def detach_connection_def
      unregister_def catalog_new_def with_kernel_def h_refresh_def deliver_def refresh_def drain_events_def
      reap_finished_workers_def worker_finished_def slot_new_def start_def put_slot_def log_action_def log_drop_def
      join_worker_def kernel_plugin_def slot_snapshot_def observe_started_def observe_generation_def set_retry_def
      host_slot_new_def retry_default_def retry_new_def retry_policy_default_def bt_update_def bt_remove_def sat_inc_def
      demo_kernel_env_def demo_world_kernel demo_admitted)

text \<open>A refresh finds the plugin starting and changes nothing but the clock.\<close>

lemma demo_h_refresh:
  assumes "h_kernel h = h_kernel demo_host"
  shows "h_refresh demo_world h = h\<lparr>h_tick := h_tick h + 1\<rparr>"
proof -
  obtain slot tr where k: "h_kernel demo_host = \<lparr>k_state = KRunning, k_plugins = [(demo_plugin, slot)], k_events = [], k_trace = tr\<rparr>"
      "slot_worker slot = Some (demo_plugin, 1)" using demo_host_state(5) by blast
  show ?thesis using k assms
    by (simp add: h_refresh_def with_kernel_def Let_def demo_world_kernel deliver_def refresh_def drain_events_def
        reap_finished_workers_def worker_finished_def demo_kernel_env_def)
qed

lemma demo_refreshed: "host_refresh debug demo_world demo_host = demo_host\<lparr>h_tick := h_tick demo_host + 3\<rparr>"
proof -
  obtain slot tr where k: "h_kernel demo_host = \<lparr>k_state = KRunning, k_plugins = [(demo_plugin, slot)], k_events = [], k_trace = tr\<rparr>"
      "slot_state slot = Starting" "spec_id (slot_spec slot) = demo_plugin" using demo_host_state(5) by blast
  have "failures (h_kernel demo_host) = []" "\<not> plugin_inactive (h_kernel demo_host) demo_plugin"
    using k by (simp_all add: failures_def kernel_snapshot_of_def bt_values_def slot_snapshot_def plugin_inactive_def kernel_plugin_def)
  then show ?thesis
    by (simp add: host_refresh_def recover_failed_plugins_def MAX_AUTOMATIC_RESTARTS_def eval_nat_numeral Let_def
        demo_h_refresh prune_inactive_connections_def demo_host_state bt_keys_def)
qed

theorem host_routes_are_connections_witness:
  "(catalog_plugin demo_plugin (h_catalog demo_host) \<noteq> None) = (bt_get (h_conns demo_host) demo_plugin \<noteq> None)"
  by (rule host_routes_are_connections [OF demo_world_ok demo_host_def, THEN conjunct1])

theorem host_restarts_bounded_witness:
  "spawn_count demo_plugin (h_kernel (host_run (\<lambda>p. Inr p) (\<lambda>v. Inr v) (\<lambda>_. []) demo_world demo_host
     [OpHostRefresh, OpInvoke demo_cap (lit ''run'') (7 :: nat), OpHostRefresh])) \<le> spawn_count demo_plugin (h_kernel demo_host) + 3"
  by (rule host_restarts_bounded [OF demo_world_ok demo_host_def]) simp

theorem disabled_stays_off_witness:
  "spawn_count demo_plugin (h_kernel (host_run (\<lambda>p. Inr p) (\<lambda>v. Inr v) (\<lambda>_. []) demo_world
     (snd (host_disable demo_world demo_plugin demo_host)) [OpHostRefresh :: nat host_op])) \<le> spawn_count demo_plugin (h_kernel demo_host)"
proof -
  have "bt_get (h_slots demo_host) demo_plugin \<noteq> None" using demo_host_state(1) by auto
  from disabled_stays_off [OF demo_world_ok demo_host_def this _ refl, of "[OpHostRefresh]"]
  show ?thesis by simp
qed

lemma demo_resolves: "resolve_unique (lit ''model.chat'') 1 (h_catalog demo_host) = Inr demo_record"
proof -
  have "CapabilityId (lit ''model.chat'') = cap_id demo_cap" "announces demo_record (lit ''model.chat'') 1"
    by (simp_all add: demo_cap_def announces_def demo_record_def)
  then have "providers (lit ''model.chat'') 1 (h_catalog demo_host) = [demo_record]"
    by (simp add: providers_def demo_host_state map_filter_simps)
  then show ?thesis by (simp add: resolve_unique_def)
qed

theorem refreshed_routes_active_witness:
  "\<exists>s. kernel_plugin demo_plugin (h_kernel (host_refresh (\<lambda>_. []) demo_world demo_host)) = Some s \<and> is_active (snap_state s)"
proof -
  have "resolve_unique (lit ''model.chat'') 1 (h_catalog (host_refresh (\<lambda>_. []) demo_world demo_host)) = Inr demo_record"
    by (simp add: demo_refreshed demo_resolves)
  from refreshed_routes_active [OF demo_world_ok _ this, where enc = "\<lambda>p. Inr p" and dec = "\<lambda>v. Inr v" and debug = "\<lambda>_. []"
      and ops = "[OpLaunch demo_launch :: nat host_op]"]
  show ?thesis by (simp add: demo_host_def demo_record_def)
qed

theorem stale_error_ignored_witness:
  "h_conns (fail_connection demo_world demo_plugin (Some 0) [] demo_host) = h_conns demo_host"
  by (rule stale_error_ignored [where c = "\<lparr>cn_generation = 1, cn_info = demo_info, cn_session = (demo_plugin, 1)\<rparr>", THEN conjunct1])
     (simp_all add: demo_host_state)

theorem invoke_correlates_witness:
  "\<exists>h' request. invoke (\<lambda>p. Inr p) (\<lambda>v. Inr v) (\<lambda>_. []) demo_world demo_cap (lit ''run'') (7 :: nat) demo_host = (Inr 5, h') \<and>
     h_sent h' = h_sent demo_host @ [((demo_plugin, 1), Invoke request)]"
proof -
  have op: "validate_operation (lit ''run'') = Inr ()"
    by (simp add: validate_operation_def lit_def utf8_width_def MAX_OPERATION_BYTES_def char_indices_def operation_char_def
        ascii_classes ch_def)
  have cap: "cap_str (cap_id demo_cap) = lit ''model.chat''" "cap_version demo_cap = 1" by (simp_all add: demo_cap_def)
  have "\<exists>h'. invoke (\<lambda>p. Inr p) (\<lambda>v. Inr v) (\<lambda>_. []) demo_world demo_cap (lit ''run'') (7 :: nat) demo_host = (Inr 5, h')"
    by (simp add: invoke_def cap demo_resolves demo_host_state(2,4) invocation_encode_def validate_request_id_def op
        demo_record_def bt_has_def Let_def send_to_def receive_from_def ask_def demo_world_def response_payload_def)
  then obtain h' where run: "invoke (\<lambda>p. Inr p) (\<lambda>v. Inr v) (\<lambda>_. []) demo_world demo_cap (lit ''run'') (7 :: nat) demo_host = (Inr 5, h')"
    by blast
  show ?thesis
    using invoke_correlates [OF demo_world_ok demo_host_def run] run
    by (auto simp: demo_host_state(2) split: if_splits)
qed

end
