(* ===== verification/Event_Bus.thy ===== *)
theory Event_Bus
  imports Rust_Std
begin

text \<open>
  The typed event bus of \<open>yunxi-cordis-core\<close> (\<open>event.rs\<close>, and the name check of
  \<open>service.rs\<close>).

  Type-erased payloads are \<open>any_val\<close>, a value tagged with its \<open>TypeId\<close>; a
  callback downcasts by comparing tags, as \<open>Any\<close> does. A handler is a function over a world
  \<open>'w\<close>, the state its closure can reach, and ends by returning or by panicking. The code
  clones the handler list under the lock and calls the handlers after releasing it, so a dispatch
  reads the bus once and the world may hold the bus itself. A parallel worker runs while others do:
  the world it sees is an argument, as are the answers of spawning and joining it.
\<close>

section \<open>Names, modes, errors\<close>

definition MAX_EVENT_DEFINITIONS :: nat where
  "MAX_EVENT_DEFINITIONS = 256"

definition MAX_EVENT_HANDLERS :: nat where
  "MAX_EVENT_HANDLERS = 256"

definition MAX_PARALLEL_WORKERS :: nat where
  "MAX_PARALLEL_WORKERS = 32"

definition MAX_HANDLER_ERROR_BYTES :: nat where
  "MAX_HANDLER_ERROR_BYTES = 4096"

definition MAX_SERVICE_NAME_BYTES :: nat where
  "MAX_SERVICE_NAME_BYTES = 128"

datatype identifier_kind = KindService | KindEvent

datatype identifier_error = InvalidIdentifier identifier_kind rstring

definition validate_name :: "rstring \<Rightarrow> identifier_kind \<Rightarrow> (identifier_error, unit) res" where
  "validate_name name kind =
     (if name = [] \<or> MAX_SERVICE_NAME_BYTES < str_len name \<or> \<not> list_all is_ascii name \<or>
         list_ex (\<lambda>c. is_control c \<or> is_whitespace c) name
      then Inl (InvalidIdentifier kind name) else Inr ())"

record rust_type =
  rt_id :: nat
  rt_name :: rstring

record event_key =
  key_name :: rstring
  key_type :: rust_type

datatype event_mode = MEmit | MWaterfall | MParallel | MSerial | MBail

fun show_event_mode :: "event_mode \<Rightarrow> rstring" where
  "show_event_mode MEmit = lit ''emit''"
| "show_event_mode MWaterfall = lit ''waterfall''"
| "show_event_mode MParallel = lit ''parallel''"
| "show_event_mode MSerial = lit ''serial''"
| "show_event_mode MBail = lit ''bail''"

definition show_handler_id :: "u64 \<Rightarrow> rstring" where
  "show_handler_id i = lit ''handler-'' @ show_nat (unat i)"

definition bounded_message :: "rstring \<Rightarrow> rstring" where
  "bounded_message value = truncate_bytes value MAX_HANDLER_ERROR_BYTES"

datatype handler_error = HandlerError (he_message: rstring)

definition handler_error_new :: "rstring \<Rightarrow> handler_error" where
  "handler_error_new m = HandlerError (bounded_message m)"

datatype bail_decision = BailContinue | BailHandled

datatype bail_result = BailUnhandled | BailHandledBy u64

datatype event_error =
    InvalidName rstring
  | TypeConflict rstring rstring rstring
  | ModeConflict rstring event_mode event_mode
  | HandlerFailed rstring u64 rstring
  | HandlerPanicked rstring u64
  | HandlerLimit rstring nat
  | EventLimit nat
  | ThreadSpawn rstring rstring
  | EventPoisoned

fun show_event_error :: "event_error \<Rightarrow> rstring" where
  "show_event_error (InvalidName n) = lit ''invalid event identifier '' @ quoted n"
| "show_event_error (TypeConflict n reg req) =
     lit ''event '' @ quoted n @ lit '' already uses '' @ quoted reg @ lit '', not '' @ quoted req"
| "show_event_error (ModeConflict n reg req) =
     lit ''event '' @ quoted n @ lit '' uses '' @ show_event_mode reg @ lit '' dispatch, not '' @ show_event_mode req"
| "show_event_error (HandlerFailed ev i m) =
     lit ''handler '' @ show_handler_id i @ lit '' for '' @ quoted ev @ lit '' failed: '' @ m"
| "show_event_error (HandlerPanicked ev i) =
     lit ''handler '' @ show_handler_id i @ lit '' for '' @ quoted ev @ lit '' panicked''"
| "show_event_error (HandlerLimit ev n) =
     lit ''event '' @ quoted ev @ lit '' already has the maximum of '' @ show_nat n @ lit '' handlers''"
| "show_event_error (EventLimit n) =
     lit ''event bus already has the maximum of '' @ show_nat n @ lit '' events''"
| "show_event_error (ThreadSpawn ev m) =
     lit ''could not spawn a handler for '' @ quoted ev @ lit '': '' @ m"
| "show_event_error EventPoisoned = lit ''event bus lock is poisoned''"

section \<open>Payloads and callbacks\<close>

datatype 'v any_val = Any (any_type: nat) (any_value: 'v)

text \<open>How a call under \<open>catch_unwind\<close> ends.\<close>

datatype 'a call_end = Returned "(handler_error, 'a) res" | Panicked

type_synonym ('w, 'a) closure = "'w \<Rightarrow> 'a call_end \<times> 'w"

type_synonym ('v, 'w) mut_closure = "'v \<Rightarrow> 'w \<Rightarrow> (unit call_end \<times> 'v) \<times> 'w"

datatype ('v, 'w) registered_handler =
    HEmit (handler_id: u64) "'v any_val \<Rightarrow> ('w, unit) closure"
  | HWaterfall (handler_id: u64) "'v any_val \<Rightarrow> ('w, 'v any_val) closure"
  | HParallel (handler_id: u64) "'v any_val \<Rightarrow> ('w, unit) closure"
  | HSerial (handler_id: u64) "('v any_val, 'w) mut_closure"
  | HBail (handler_id: u64) "'v any_val \<Rightarrow> ('w, bail_decision) closure"

definition payload_mismatch :: "'a call_end" where
  "payload_mismatch = Returned (Inl (handler_error_new (lit ''event payload type mismatch'')))"

definition erase_ref :: "nat \<Rightarrow> ('v \<Rightarrow> ('w, 'a) closure) \<Rightarrow> 'v any_val \<Rightarrow> ('w, 'a) closure" where
  "erase_ref t h p w = (if any_type p = t then h (any_value p) w else (payload_mismatch, w))"

definition erase_box :: "nat \<Rightarrow> ('v \<Rightarrow> ('w, 'v) closure) \<Rightarrow> 'v any_val \<Rightarrow> ('w, 'v any_val) closure" where
  "erase_box t h p w =
     (if any_type p = t
      then (case h (any_value p) w of
              (Returned (Inr v), w') \<Rightarrow> (Returned (Inr (Any t v)), w')
            | (Returned (Inl e), w') \<Rightarrow> (Returned (Inl e), w')
            | (Panicked, w') \<Rightarrow> (Panicked, w'))
      else (payload_mismatch, w))"

definition erase_mut :: "nat \<Rightarrow> ('v, 'w) mut_closure \<Rightarrow> ('v any_val, 'w) mut_closure" where
  "erase_mut t h p w =
     (if any_type p = t then (case h (any_value p) w of ((r, v), w') \<Rightarrow> ((r, Any t v), w'))
      else ((payload_mismatch, p), w))"

section \<open>The bus\<close>

record ('v, 'w) event_definition =
  def_type :: rust_type
  def_mode :: event_mode
  def_handlers :: "('v, 'w) registered_handler list"

record ('v, 'w) event_bus =
  bus_next :: u64
  bus_definitions :: "(rstring, ('v, 'w) event_definition) btmap"
  bus_poisoned :: bool

definition bus_new :: "('v, 'w) event_bus" where
  "bus_new = \<lparr>bus_next = 0, bus_definitions = [], bus_poisoned = False\<rparr>"

record subscription =
  sub_event :: rstring
  sub_handler :: u64
  sub_active :: bool

definition next_handler_id :: "('v, 'w) event_bus \<Rightarrow> u64 \<times> ('v, 'w) event_bus" where
  "next_handler_id b = (bus_next b, b\<lparr>bus_next := bus_next b + 1\<rparr>)"

definition register_handler ::
  "event_key \<Rightarrow> event_mode \<Rightarrow> ('v, 'w) registered_handler \<Rightarrow> (('v, 'w) event_bus, event_error, subscription) act" where
  "register_handler key mode handler b =
     (let name = key_name key;
          ok = Inr \<lparr>sub_event = name, sub_handler = handler_id handler, sub_active = True\<rparr>
      in case validate_name name KindEvent of
           Inl _ \<Rightarrow> (Inl (InvalidName name), b)
         | Inr _ \<Rightarrow>
           if bus_poisoned b then (Inl EventPoisoned, b)
           else (case bt_get (bus_definitions b) name of
             Some d \<Rightarrow>
               if rt_id (def_type d) \<noteq> rt_id (key_type key)
               then (Inl (TypeConflict name (rt_name (def_type d)) (rt_name (key_type key))), b)
               else if def_mode d \<noteq> mode then (Inl (ModeConflict name (def_mode d) mode), b)
               else if MAX_EVENT_HANDLERS \<le> length (def_handlers d)
               then (Inl (HandlerLimit name MAX_EVENT_HANDLERS), b)
               else (ok, b\<lparr>bus_definitions :=
                       bt_update name (\<lambda>d. d\<lparr>def_handlers := def_handlers d @ [handler]\<rparr>) (bus_definitions b)\<rparr>)
           | None \<Rightarrow>
               if MAX_EVENT_DEFINITIONS \<le> length (bus_definitions b)
               then (Inl (EventLimit MAX_EVENT_DEFINITIONS), b)
               else (ok, b\<lparr>bus_definitions :=
                       bt_insert name \<lparr>def_type = key_type key, def_mode = mode, def_handlers = [handler]\<rparr>
                         (bus_definitions b)\<rparr>)))"

definition on_emit :: "event_key \<Rightarrow> ('v \<Rightarrow> ('w, unit) closure) \<Rightarrow> (('v, 'w) event_bus, event_error, subscription) act" where
  "on_emit key h b = (case next_handler_id b of (i, b') \<Rightarrow>
     register_handler key MEmit (HEmit i (erase_ref (rt_id (key_type key)) h)) b')"

definition on_waterfall :: "event_key \<Rightarrow> ('v \<Rightarrow> ('w, 'v) closure) \<Rightarrow> (('v, 'w) event_bus, event_error, subscription) act" where
  "on_waterfall key h b = (case next_handler_id b of (i, b') \<Rightarrow>
     register_handler key MWaterfall (HWaterfall i (erase_box (rt_id (key_type key)) h)) b')"

definition on_parallel :: "event_key \<Rightarrow> ('v \<Rightarrow> ('w, unit) closure) \<Rightarrow> (('v, 'w) event_bus, event_error, subscription) act" where
  "on_parallel key h b = (case next_handler_id b of (i, b') \<Rightarrow>
     register_handler key MParallel (HParallel i (erase_ref (rt_id (key_type key)) h)) b')"

definition on_serial :: "event_key \<Rightarrow> ('v, 'w) mut_closure \<Rightarrow> (('v, 'w) event_bus, event_error, subscription) act" where
  "on_serial key h b = (case next_handler_id b of (i, b') \<Rightarrow>
     register_handler key MSerial (HSerial i (erase_mut (rt_id (key_type key)) h)) b')"

definition on_bail :: "event_key \<Rightarrow> ('v \<Rightarrow> ('w, bail_decision) closure) \<Rightarrow> (('v, 'w) event_bus, event_error, subscription) act" where
  "on_bail key h b = (case next_handler_id b of (i, b') \<Rightarrow>
     register_handler key MBail (HBail i (erase_ref (rt_id (key_type key)) h)) b')"

definition bus_handlers ::
  "event_key \<Rightarrow> event_mode \<Rightarrow> ('v, 'w) event_bus \<Rightarrow> (event_error, ('v, 'w) registered_handler list) res" where
  "bus_handlers key mode b =
     (let name = key_name key in
      case validate_name name KindEvent of
        Inl _ \<Rightarrow> Inl (InvalidName name)
      | Inr _ \<Rightarrow>
        if bus_poisoned b then Inl EventPoisoned
        else (case bt_get (bus_definitions b) name of
          None \<Rightarrow> Inr []
        | Some d \<Rightarrow>
            if rt_id (def_type d) \<noteq> rt_id (key_type key)
            then Inl (TypeConflict name (rt_name (def_type d)) (rt_name (key_type key)))
            else if def_mode d \<noteq> mode then Inl (ModeConflict name (def_mode d) mode)
            else Inr (def_handlers d)))"

section \<open>Unsubscribing\<close>

definition bus_remove :: "rstring \<Rightarrow> u64 \<Rightarrow> (('v, 'w) event_bus, event_error, unit) act" where
  "bus_remove name i b =
     (if bus_poisoned b then (Inl EventPoisoned, b)
      else (case bt_get (bus_definitions b) name of
        None \<Rightarrow> (Inr (), b)
      | Some d \<Rightarrow>
          let hs = filter (\<lambda>h. handler_id h \<noteq> i) (def_handlers d)
          in (Inr (), b\<lparr>bus_definitions :=
                (if hs = [] then bt_remove name (bus_definitions b)
                 else bt_update name (\<lambda>d. d\<lparr>def_handlers := hs\<rparr>) (bus_definitions b))\<rparr>)))"

text \<open>\<open>alive\<close> is the answer of \<open>Weak::upgrade\<close>.\<close>

definition unsubscribe ::
  "bool \<Rightarrow> subscription \<times> ('v, 'w) event_bus \<Rightarrow> (event_error, unit) res \<times> subscription \<times> ('v, 'w) event_bus" where
  "unsubscribe alive = (\<lambda>(s, b).
     if \<not> sub_active s then (Inr (), s, b)
     else if \<not> alive then (Inr (), s\<lparr>sub_active := False\<rparr>, b)
     else (case bus_remove (sub_event s) (sub_handler s) b of
             (Inl e, b') \<Rightarrow> (Inl e, s, b')
           | (Inr _, b') \<Rightarrow> (Inr (), s\<lparr>sub_active := False\<rparr>, b')))"

definition drop_subscription :: "bool \<Rightarrow> subscription \<Rightarrow> ('v, 'w) event_bus \<Rightarrow> ('v, 'w) event_bus" where
  "drop_subscription alive s b = (if alive then snd (bus_remove (sub_event s) (sub_handler s) b) else b)"

section \<open>Dispatch\<close>

fun call_failure :: "rstring \<Rightarrow> u64 \<Rightarrow> 'a call_end \<Rightarrow> (event_error, 'a) res" where
  "call_failure ev i (Returned (Inr x)) = Inr x"
| "call_failure ev i (Returned (Inl e)) = Inl (HandlerFailed ev i (he_message e))"
| "call_failure ev i Panicked = Inl (HandlerPanicked ev i)"

definition invoke_immutable ::
  "('v any_val \<Rightarrow> ('w, unit) closure) \<Rightarrow> rstring \<Rightarrow> u64 \<Rightarrow> 'v any_val \<Rightarrow> 'w \<Rightarrow> (event_error, unit) res \<times> 'w" where
  "invoke_immutable cb ev i p w = (case cb p w of (r, w') \<Rightarrow> (call_failure ev i r, w'))"

definition invoke_waterfall ::
  "('v any_val \<Rightarrow> ('w, 'v any_val) closure) \<Rightarrow> rstring \<Rightarrow> u64 \<Rightarrow> 'v any_val \<Rightarrow> 'w \<Rightarrow> (event_error, 'v any_val) res \<times> 'w" where
  "invoke_waterfall cb ev i p w = (case cb p w of (r, w') \<Rightarrow> (call_failure ev i r, w'))"

definition keep_first :: "event_error option \<Rightarrow> (event_error, unit) res \<Rightarrow> event_error option" where
  "keep_first first r = (case r of Inl e \<Rightarrow> (if first = None then Some e else first) | Inr _ \<Rightarrow> first)"

definition first_result :: "event_error option \<Rightarrow> (event_error, unit) res" where
  "first_result first = (case first of None \<Rightarrow> Inr () | Some e \<Rightarrow> Inl e)"

fun emit_loop ::
  "rstring \<Rightarrow> 'v any_val \<Rightarrow> ('v, 'w) registered_handler list \<Rightarrow> event_error option \<Rightarrow> 'w \<Rightarrow> event_error option \<times> 'w" where
  "emit_loop ev p [] first w = (first, w)"
| "emit_loop ev p (h # hs) first w =
     (case h of
        HEmit i cb \<Rightarrow> (case invoke_immutable cb ev i p w of (r, w') \<Rightarrow> emit_loop ev p hs (keep_first first r) w')
      | _ \<Rightarrow> emit_loop ev p hs first w)"

definition emit :: "event_key \<Rightarrow> 'v \<Rightarrow> ('v, 'w) event_bus \<Rightarrow> 'w \<Rightarrow> (event_error, unit) res \<times> 'w" where
  "emit key payload b w =
     (case bus_handlers key MEmit b of
        Inl e \<Rightarrow> (Inl e, w)
      | Inr hs \<Rightarrow>
          (case emit_loop (key_name key) (Any (rt_id (key_type key)) payload) hs None w of
             (first, w') \<Rightarrow> (first_result first, w')))"

fun waterfall_loop ::
  "rstring \<Rightarrow> ('v, 'w) registered_handler list \<Rightarrow> 'v any_val \<Rightarrow> 'w \<Rightarrow> (event_error, 'v any_val) res \<times> 'w" where
  "waterfall_loop ev [] p w = (Inr p, w)"
| "waterfall_loop ev (h # hs) p w =
     (case h of
        HWaterfall i cb \<Rightarrow>
          (case invoke_waterfall cb ev i p w of
             (Inl e, w') \<Rightarrow> (Inl e, w')
           | (Inr p', w') \<Rightarrow> waterfall_loop ev hs p' w')
      | _ \<Rightarrow> waterfall_loop ev hs p w)"

definition waterfall :: "event_key \<Rightarrow> 'v \<Rightarrow> ('v, 'w) event_bus \<Rightarrow> 'w \<Rightarrow> (event_error, 'v) res \<times> 'w" where
  "waterfall key payload b w =
     (case bus_handlers key MWaterfall b of
        Inl e \<Rightarrow> (Inl e, w)
      | Inr hs \<Rightarrow>
          (case waterfall_loop (key_name key) hs (Any (rt_id (key_type key)) payload) w of
             (Inl e, w') \<Rightarrow> (Inl e, w')
           | (Inr p, w') \<Rightarrow>
               (if any_type p = rt_id (key_type key) then Inr (any_value p)
                else Inl (HandlerFailed (key_name key) 0 (lit ''event payload type mismatch'')), w')))"

fun serial_loop ::
  "rstring \<Rightarrow> ('v, 'w) registered_handler list \<Rightarrow> 'v any_val \<Rightarrow> 'w \<Rightarrow> (event_error, unit) res \<times> 'v any_val \<times> 'w" where
  "serial_loop ev [] p w = (Inr (), p, w)"
| "serial_loop ev (h # hs) p w =
     (case h of
        HSerial i cb \<Rightarrow>
          (case cb p w of
             ((r, p'), w') \<Rightarrow>
               (case call_failure ev i r of Inl e \<Rightarrow> (Inl e, p', w') | Inr _ \<Rightarrow> serial_loop ev hs p' w'))
      | _ \<Rightarrow> serial_loop ev hs p w)"

definition serial :: "event_key \<Rightarrow> 'v \<Rightarrow> ('v, 'w) event_bus \<Rightarrow> 'w \<Rightarrow> (event_error, unit) res \<times> 'v \<times> 'w" where
  "serial key payload b w =
     (case bus_handlers key MSerial b of
        Inl e \<Rightarrow> (Inl e, payload, w)
      | Inr hs \<Rightarrow>
          (case serial_loop (key_name key) hs (Any (rt_id (key_type key)) payload) w of
             (r, p, w') \<Rightarrow> (r, any_value p, w')))"

fun bail_loop ::
  "rstring \<Rightarrow> 'v any_val \<Rightarrow> ('v, 'w) registered_handler list \<Rightarrow> 'w \<Rightarrow> (event_error, bail_result) res \<times> 'w" where
  "bail_loop ev p [] w = (Inr BailUnhandled, w)"
| "bail_loop ev p (h # hs) w =
     (case h of
        HBail i cb \<Rightarrow>
          (case cb p w of
             (r, w') \<Rightarrow>
               (case call_failure ev i r of
                  Inl e \<Rightarrow> (Inl e, w')
                | Inr BailContinue \<Rightarrow> bail_loop ev p hs w'
                | Inr BailHandled \<Rightarrow> (Inr (BailHandledBy i), w')))
      | _ \<Rightarrow> bail_loop ev p hs w)"

definition bail :: "event_key \<Rightarrow> 'v \<Rightarrow> ('v, 'w) event_bus \<Rightarrow> 'w \<Rightarrow> (event_error, bail_result) res \<times> 'w" where
  "bail key payload b w =
     (case bus_handlers key MBail b of
        Inl e \<Rightarrow> (Inl e, w)
      | Inr hs \<Rightarrow> bail_loop (key_name key) (Any (rt_id (key_type key)) payload) hs w)"

section \<open>Parallel dispatch\<close>

text \<open>
  The answers of one parallel dispatch, by the index of the worker: the error of a failed spawn, the
  world the worker sees while it runs, and whether joining it reports that it died.
\<close>

record 'w parallel_env =
  spawn_error :: "nat \<Rightarrow> rstring option"
  world_seen :: "nat \<Rightarrow> 'w"
  join_died :: "nat \<Rightarrow> bool"

type_synonym ('v, 'w) worker = "nat \<times> u64 \<times> ('v any_val \<Rightarrow> ('w, unit) closure)"

record parallel_run =
  par_result :: "(event_error, unit) res"
  par_spawned :: "nat list"
  par_joined :: "nat list"

definition worker_answer :: "'w parallel_env \<Rightarrow> rstring \<Rightarrow> 'v any_val \<Rightarrow> ('v, 'w) worker \<Rightarrow> (event_error, unit) res" where
  "worker_answer env ev p = (\<lambda>(n, i, cb).
     if join_died env n then Inl (HandlerPanicked ev i)
     else call_failure ev i (fst (cb p (world_seen env n))))"

fun spawn_batch :: "'w parallel_env \<Rightarrow> ('v, 'w) worker list \<Rightarrow> rstring option \<times> ('v, 'w) worker list" where
  "spawn_batch env [] = (None, [])"
| "spawn_batch env (x # xs) =
     (case spawn_error env (fst x) of
        Some m \<Rightarrow> (Some m, [])
      | None \<Rightarrow> (case spawn_batch env xs of (e, joins) \<Rightarrow> (e, x # joins)))"

fun join_batch :: "'w parallel_env \<Rightarrow> rstring \<Rightarrow> 'v any_val \<Rightarrow> ('v, 'w) worker list \<Rightarrow> event_error option \<Rightarrow> event_error option" where
  "join_batch env ev p [] first = first"
| "join_batch env ev p (x # xs) first =
     join_batch env ev p xs (keep_first first (worker_answer env ev p x))"

function parallel_loop ::
  "'w parallel_env \<Rightarrow> rstring \<Rightarrow> 'v any_val \<Rightarrow> ('v, 'w) worker list \<Rightarrow> event_error option \<Rightarrow> parallel_run" where
  "parallel_loop env ev p pending first =
     (if pending = [] then \<lparr>par_result = first_result first, par_spawned = [], par_joined = []\<rparr>
      else (case spawn_batch env (take MAX_PARALLEL_WORKERS pending) of
        (Some m, joins) \<Rightarrow>
          \<lparr>par_result = Inl (ThreadSpawn ev m), par_spawned = map fst joins, par_joined = map fst joins\<rparr>
      | (None, joins) \<Rightarrow>
          (let r = parallel_loop env ev p (drop MAX_PARALLEL_WORKERS pending) (join_batch env ev p joins first)
           in r\<lparr>par_spawned := map fst joins @ par_spawned r, par_joined := map fst joins @ par_joined r\<rparr>)))"
  by pat_completeness auto

termination
  by (relation "measure (\<lambda>(env, ev, p, pending, first). length pending)")
     (auto simp: MAX_PARALLEL_WORKERS_def)

declare parallel_loop.simps [simp del]

fun parallel_handlers :: "('v, 'w) registered_handler list \<Rightarrow> (u64 \<times> ('v any_val \<Rightarrow> ('w, unit) closure)) list" where
  "parallel_handlers [] = []"
| "parallel_handlers (h # hs) =
     (case h of HParallel i cb \<Rightarrow> (i, cb) # parallel_handlers hs | _ \<Rightarrow> parallel_handlers hs)"

definition parallel :: "'w parallel_env \<Rightarrow> event_key \<Rightarrow> 'v \<Rightarrow> ('v, 'w) event_bus \<Rightarrow> parallel_run" where
  "parallel env key payload b =
     (case bus_handlers key MParallel b of
        Inl e \<Rightarrow> \<lparr>par_result = Inl e, par_spawned = [], par_joined = []\<rparr>
      | Inr hs \<Rightarrow>
          parallel_loop env (key_name key) (Any (rt_id (key_type key)) payload)
            (enumerate 0 (parallel_handlers hs)) None)"

section \<open>Snapshots\<close>

record event_snapshot =
  es_name :: rstring
  es_type_name :: rstring
  es_mode :: event_mode
  es_handlers :: nat

definition bus_snapshot :: "('v, 'w) event_bus \<Rightarrow> (event_error, event_snapshot list) res" where
  "bus_snapshot b =
     (if bus_poisoned b then Inl EventPoisoned
      else Inr (map (\<lambda>(n, d). \<lparr>es_name = n, es_type_name = rt_name (def_type d), es_mode = def_mode d,
                              es_handlers = length (def_handlers d)\<rparr>) (bus_definitions b)))"

end
