(* ===== verification/Event_Bus_Claims.thy ===== *)
theory Event_Bus_Claims
  imports Event_Bus
begin

text \<open>
  What the event bus guarantees: the invariant of its definitions, under which every handler a
  dispatch reaches was registered at the payload's own type; unsubscribing as the inverse of
  subscribing; and what an \<open>emit\<close> and a parallel dispatch run and return.
\<close>

section \<open>The invariant\<close>

fun typed_handler :: "nat \<Rightarrow> event_mode \<Rightarrow> ('v, 'w) registered_handler \<Rightarrow> bool" where
  "typed_handler t m (HEmit i cb) = (m = MEmit \<and> (\<exists>f. cb = erase_ref t f))"
| "typed_handler t m (HWaterfall i cb) = (m = MWaterfall \<and> (\<exists>f. cb = erase_box t f))"
| "typed_handler t m (HParallel i cb) = (m = MParallel \<and> (\<exists>f. cb = erase_ref t f))"
| "typed_handler t m (HSerial i cb) = (m = MSerial \<and> (\<exists>f. cb = erase_mut t f))"
| "typed_handler t m (HBail i cb) = (m = MBail \<and> (\<exists>f. cb = erase_ref t f))"

definition definition_ok :: "u64 \<Rightarrow> ('v, 'w) event_definition \<Rightarrow> bool" where
  "definition_ok n d \<longleftrightarrow> def_handlers d \<noteq> [] \<and> length (def_handlers d) \<le> MAX_EVENT_HANDLERS \<and>
     distinct (map handler_id (def_handlers d)) \<and>
     (\<forall>h \<in> set (def_handlers d). handler_id h < n \<and> typed_handler (rt_id (def_type d)) (def_mode d) h)"

definition bus_inv :: "('v, 'w) event_bus \<Rightarrow> bool" where
  "bus_inv b \<longleftrightarrow> bt_wf (bus_definitions b) \<and> length (bus_definitions b) \<le> MAX_EVENT_DEFINITIONS \<and>
     (\<forall>n d. bt_get (bus_definitions b) n = Some d \<longrightarrow>
        validate_name n KindEvent = Inr () \<and> definition_ok (bus_next b) d) \<and> \<not> bus_poisoned b"

text \<open>Handler ids are drawn from a wrapping 64-bit counter; a run stops short of its last value.\<close>

definition registers :: "event_mode \<Rightarrow> event_key \<Rightarrow> ('v, 'w) event_bus \<Rightarrow> ((event_error, subscription) res \<times> ('v, 'w) event_bus) set" where
  "registers m key b =
     (case m of MEmit \<Rightarrow> {on_emit key f b | f. True} | MWaterfall \<Rightarrow> {on_waterfall key f b | f. True}
      | MParallel \<Rightarrow> {on_parallel key f b | f. True} | MSerial \<Rightarrow> {on_serial key f b | f. True}
      | MBail \<Rightarrow> {on_bail key f b | f. True})"

inductive bus_step :: "('v, 'w) event_bus \<Rightarrow> ('v, 'w) event_bus \<Rightarrow> bool" where
  bus_register: "bus_next b \<noteq> - 1 \<Longrightarrow> (r, b') \<in> registers m key b \<Longrightarrow> bus_step b b'"
| bus_unsubscribe: "unsubscribe alive (s, b) = (r, s', b') \<Longrightarrow> bus_step b b'"
| bus_drop: "bus_step b (drop_subscription alive s b)"

inductive_cases bus_step_cases: "bus_step b b'"

text \<open>Every registration is \<open>register_handler\<close> on a handler of its mode and type, under the next id.\<close>

lemma registers_shape:
  assumes "rb \<in> registers m key b"
  shows "\<exists>h. rb = register_handler key m h (b\<lparr>bus_next := bus_next b + 1\<rparr>) \<and>
    handler_id h = bus_next b \<and> typed_handler (rt_id (key_type key)) m h"
proof (cases m)
  case MEmit
  then obtain f where "rb = on_emit key f b" using assms by (auto simp: registers_def)
  with MEmit show ?thesis
    by (intro exI [of _ "HEmit (bus_next b) (erase_ref (rt_id (key_type key)) f)"])
       (auto simp: on_emit_def next_handler_id_def)
next
  case MWaterfall
  then obtain f where "rb = on_waterfall key f b" using assms by (auto simp: registers_def)
  with MWaterfall show ?thesis
    by (intro exI [of _ "HWaterfall (bus_next b) (erase_box (rt_id (key_type key)) f)"])
       (auto simp: on_waterfall_def next_handler_id_def)
next
  case MParallel
  then obtain f where "rb = on_parallel key f b" using assms by (auto simp: registers_def)
  with MParallel show ?thesis
    by (intro exI [of _ "HParallel (bus_next b) (erase_ref (rt_id (key_type key)) f)"])
       (auto simp: on_parallel_def next_handler_id_def)
next
  case MSerial
  then obtain f where "rb = on_serial key f b" using assms by (auto simp: registers_def)
  with MSerial show ?thesis
    by (intro exI [of _ "HSerial (bus_next b) (erase_mut (rt_id (key_type key)) f)"])
       (auto simp: on_serial_def next_handler_id_def)
next
  case MBail
  then obtain f where "rb = on_bail key f b" using assms by (auto simp: registers_def)
  with MBail show ?thesis
    by (intro exI [of _ "HBail (bus_next b) (erase_ref (rt_id (key_type key)) f)"])
       (auto simp: on_bail_def next_handler_id_def)
qed

lemma register_handler_inv:
  assumes "bus_inv b" "bus_next b \<noteq> - 1" "handler_id h = bus_next b"
    "typed_handler (rt_id (key_type key)) m h"
  shows "bus_inv (snd (register_handler key m h (b\<lparr>bus_next := bus_next b + 1\<rparr>)))"
proof -
  let ?b = "b\<lparr>bus_next := bus_next b + 1\<rparr>"
  have step: "definition_ok (bus_next b) d \<Longrightarrow> definition_ok (bus_next b + 1) d" for d :: "('a, 'b) event_definition"
    using inc_gt [OF assms(2)] by (auto simp: definition_ok_def intro: less_trans)
  have mono: "bus_inv ?b" using assms(1) step by (auto simp: bus_inv_def)
  have single: "definition_ok (bus_next b + 1) \<lparr>def_type = key_type key, def_mode = m, def_handlers = [h]\<rparr>"
    using assms by (simp add: definition_ok_def MAX_EVENT_HANDLERS_def)
  have push: "definition_ok (bus_next b + 1) (d\<lparr>def_handlers := def_handlers d @ [h]\<rparr>)"
    if "definition_ok (bus_next b) d" "rt_id (def_type d) = rt_id (key_type key)" "def_mode d = m"
      "\<not> MAX_EVENT_HANDLERS \<le> length (def_handlers d)" for d
    using that assms inc_gt [OF assms(2)] by (fastforce simp: definition_ok_def intro: less_trans)
  show ?thesis
  proof (cases "bt_get (bus_definitions b) (key_name key)")
    case None
    then show ?thesis
      using mono single
      by (auto simp: register_handler_def Let_def bus_inv_def not_le intro: length_bt_insert_le split: sum.splits)
  next
    case (Some d)
    then show ?thesis
      using mono push [of d] assms(1)
      by (auto simp: register_handler_def Let_def bus_inv_def split: sum.splits)
  qed
qed

lemma remove_inv: "bus_inv b \<Longrightarrow> bus_inv (snd (bus_remove n i b))"
  using length_bt_remove [of n "bus_definitions b"]
  by (auto simp: bus_remove_def Let_def bus_inv_def definition_ok_def distinct_map_filter filter_empty_conv
      intro: le_trans [OF length_filter_le] split: option.splits if_splits)

lemma unsubscribe_inv:
  assumes "bus_inv b" "unsubscribe alive (s, b) = (r, s', b')"
  shows "bus_inv b'"
  using assms remove_inv [OF assms(1), of "sub_event s" "sub_handler s"]
  by (auto simp: unsubscribe_def split: if_splits prod.splits sum.splits)

interpretation event_bus: component "\<lambda>b :: ('v, 'w) event_bus. b = bus_new" bus_step bus_inv
proof unfold_locales
  show "bus_inv b" if "b = bus_new" for b :: "('v, 'w) event_bus" using that by (simp add: bus_inv_def bus_new_def)
  show "bus_inv t" if "bus_inv s" "bus_step s t" for s t :: "('v, 'w) event_bus"
    using that(2)
  proof cases
    case (bus_register r m key)
    then show ?thesis using register_handler_inv [OF that(1)] by (metis registers_shape snd_conv)
  next
    case (bus_unsubscribe alive sb r s')
    then show ?thesis using unsubscribe_inv [OF that(1)] by blast
  next
    case (bus_drop alive sb)
    then show ?thesis using remove_inv [OF that(1)] that(1) by (simp add: drop_subscription_def)
  qed
qed

lemma bus_handlers_Inr:
  "bus_handlers key m b = Inr hs \<longleftrightarrow>
     validate_name (key_name key) KindEvent = Inr () \<and> \<not> bus_poisoned b \<and>
     (case bt_get (bus_definitions b) (key_name key) of
        None \<Rightarrow> hs = []
      | Some d \<Rightarrow> rt_id (def_type d) = rt_id (key_type key) \<and> def_mode d = m \<and> hs = def_handlers d)"
  by (auto simp: bus_handlers_def Let_def split: sum.splits option.splits)

definition demo_key :: event_key where
  "demo_key = \<lparr>key_name = lit ''demo.tick'', key_type = \<lparr>rt_id = 7, rt_name = lit ''u32''\<rparr>\<rparr>"

definition demo_handler :: "nat \<Rightarrow> (nat list, unit) closure" where
  "demo_handler v w = (Returned (Inr ()), w @ [v])"

lemma demo_key_valid [simp]: "validate_name (key_name demo_key) KindEvent = Inr ()"
  by (simp add: validate_name_def demo_key_def lit_def utf8_width_def is_ascii_def is_control_def
      is_whitespace_def MAX_SERVICE_NAME_BYTES_def)

lemma bus_inv_definition: "bus_inv b \<Longrightarrow> bt_get (bus_definitions b) n = Some d \<Longrightarrow> definition_ok (bus_next b) d"
  by (simp add: bus_inv_def)

text \<open>C25: type safety of dispatch. On any bus built by subscribing, unsubscribing and dropping
  subscriptions, the handlers a dispatch under a key reaches are at most 256, have distinct ids, and
  each is the erasure, at the key's own payload type and the dispatch's own mode, of the function
  that was subscribed, so no call ends in the payload type mismatch of a failed downcast.\<close>

theorem dispatch_reaches_typed_handlers:
  assumes "reach (\<lambda>b. b = bus_new) bus_step b" and "bus_handlers key m b = Inr hs"
  shows "length hs \<le> 256 \<and> distinct (map handler_id hs) \<and>
    list_all (typed_handler (rt_id (key_type key)) m) hs"
proof -
  have "bus_inv b" using assms(1) by (rule event_bus.reach_inv)
  then have ok: "definition_ok (bus_next b) d" if "bt_get (bus_definitions b) (key_name key) = Some d" for d
    using that by (rule bus_inv_definition)
  show ?thesis
  proof (cases "bt_get (bus_definitions b) (key_name key)")
    case None
    then show ?thesis using assms(2) by (simp add: bus_handlers_Inr)
  next
    case (Some d)
    then have "rt_id (def_type d) = rt_id (key_type key)" "def_mode d = m" "hs = def_handlers d"
      using assms(2) by (auto simp: bus_handlers_Inr)
    with ok [OF Some] show ?thesis
      by (simp add: definition_ok_def list_all_iff MAX_EVENT_HANDLERS_def)
  qed
qed

theorem dispatch_reaches_typed_handlers_witness:
  "list_all (typed_handler 7 MEmit) [HEmit 0 (erase_ref 7 demo_handler)]"
proof -
  let ?b = "snd (on_emit demo_key demo_handler bus_new)"
  have "(fst (on_emit demo_key demo_handler bus_new), ?b) \<in> registers MEmit demo_key bus_new"
    unfolding registers_def by (auto intro: exI [of _ demo_handler])
  then have "bus_step bus_new ?b"
    by (intro bus_register [where r = "fst (on_emit demo_key demo_handler bus_new)" and m = MEmit and key = demo_key])
       (simp_all add: bus_new_def)
  then have "reach (\<lambda>b. b = bus_new) bus_step ?b"
    using reach_start [of "\<lambda>b. b = bus_new", OF refl] by (rule reach_step [rotated])
  moreover have "bus_handlers demo_key MEmit ?b = Inr [HEmit 0 (erase_ref 7 demo_handler)]"
    by (simp add: bus_handlers_Inr on_emit_def next_handler_id_def register_handler_def bus_new_def Let_def
        MAX_EVENT_DEFINITIONS_def) (simp add: demo_key_def)
  ultimately show ?thesis
    using dispatch_reaches_typed_handlers [of ?b demo_key MEmit "[HEmit 0 (erase_ref 7 demo_handler)]"]
    by (simp add: demo_key_def)
qed

section \<open>Unsubscribing undoes subscribing\<close>

lemma register_then_remove:
  assumes "bus_inv b" and "handler_id h = bus_next b"
    and "register_handler key m h (b\<lparr>bus_next := x\<rparr>) = (Inr s, b')"
  shows "s = \<lparr>sub_event = key_name key, sub_handler = bus_next b, sub_active = True\<rparr> \<and>
    bus_remove (key_name key) (bus_next b) b' = (Inr (), b\<lparr>bus_next := x\<rparr>)"
proof (cases "bt_get (bus_definitions b) (key_name key)")
  case None
  then show ?thesis
    using assms btree.del_put [of "bus_definitions b" "key_name key"]
    by (auto simp: register_handler_def bus_remove_def Let_def bus_inv_def split: sum.splits if_splits)
next
  case (Some d)
  have d: "definition_ok (bus_next b) d" and wf: "bt_wf (bus_definitions b)"
    using assms(1) Some by (auto simp: bus_inv_def)
  have keep: "filter (\<lambda>h. handler_id h \<noteq> bus_next b) (def_handlers d) = def_handlers d"
    using d by (auto simp: definition_ok_def filter_id_conv)
  have restore: "bt_update (key_name key) (\<lambda>e. e\<lparr>def_handlers := def_handlers d\<rparr>)
      (bt_update (key_name key) f (bus_definitions b)) = bus_definitions b"
    if "f d = d\<lparr>def_handlers := hs\<rparr>" for f hs
    using Some that by (intro bt_ext) (auto simp: wf fun_eq_iff)
  show ?thesis
    using assms Some d keep
    by (auto simp: register_handler_def bus_remove_def Let_def bus_inv_def definition_ok_def restore
        split: sum.splits if_splits)
qed

text \<open>unsubscribing undoes subscribing. On any reachable bus, when a subscription of any mode
  succeeds, unsubscribing it succeeds, deactivates it and restores the bus exactly, except that the
  id it used is spent; dropping the subscription afterwards changes nothing more, and a second
  \<open>unsubscribe\<close> is a no-op.\<close>

theorem unsubscribe_restores:
  assumes "reach (\<lambda>b. b = bus_new) bus_step b" and "(Inr s, b') \<in> registers m key b"
  shows "unsubscribe True (s, b') = (Inr (), s\<lparr>sub_active := False\<rparr>, b\<lparr>bus_next := bus_next b + 1\<rparr>) \<and>
    drop_subscription True s (b\<lparr>bus_next := bus_next b + 1\<rparr>) = b\<lparr>bus_next := bus_next b + 1\<rparr> \<and>
    unsubscribe alive (s\<lparr>sub_active := False\<rparr>, b'') = (Inr (), s\<lparr>sub_active := False\<rparr>, b'')"
proof -
  have inv: "bus_inv b" using assms(1) by (rule event_bus.reach_inv)
  obtain h where h: "(Inr s, b') = register_handler key m h (b\<lparr>bus_next := bus_next b + 1\<rparr>)"
    "handler_id h = bus_next b"
    using registers_shape [OF assms(2)] by blast
  note undo = register_then_remove [OF inv h(2) h(1) [symmetric]]
  have absent: "filter (\<lambda>h. handler_id h \<noteq> bus_next b) (def_handlers d) = def_handlers d \<and> def_handlers d \<noteq> []"
    if "bt_get (bus_definitions b) n = Some d" for n d
    using bus_inv_definition [OF inv that] by (auto simp: definition_ok_def filter_id_conv)
  have same: "bt_update n (\<lambda>e. e\<lparr>def_handlers := def_handlers d\<rparr>) (bus_definitions b) = bus_definitions b"
    if "bt_get (bus_definitions b) n = Some d" for n d
    using inv that by (intro bt_ext) (auto simp: bus_inv_def fun_eq_iff)
  have "bus_remove (key_name key) (bus_next b) (b\<lparr>bus_next := bus_next b + 1\<rparr>) = (Inr (), b\<lparr>bus_next := bus_next b + 1\<rparr>)"
    using inv absent same by (auto simp: bus_remove_def Let_def bus_inv_def split: option.splits)
  with undo show ?thesis
    by (simp add: unsubscribe_def drop_subscription_def)
qed

theorem unsubscribe_restores_witness:
  "snd (snd (unsubscribe True (\<lparr>sub_event = lit ''demo.tick'', sub_handler = 0, sub_active = True\<rparr>,
     snd (on_emit demo_key demo_handler bus_new)))) = bus_new\<lparr>bus_next := 1\<rparr>"
proof -
  let ?s = "\<lparr>sub_event = lit ''demo.tick'', sub_handler = 0, sub_active = True\<rparr>"
  have "on_emit demo_key demo_handler bus_new = (Inr ?s, snd (on_emit demo_key demo_handler bus_new))"
    by (simp add: on_emit_def next_handler_id_def register_handler_def bus_new_def Let_def MAX_EVENT_DEFINITIONS_def)
       (simp add: demo_key_def)
  then have "(Inr ?s, snd (on_emit demo_key demo_handler bus_new)) \<in> registers MEmit demo_key bus_new"
    unfolding registers_def by (auto intro: exI [of _ demo_handler])
  from unsubscribe_restores [OF reach_start [of "\<lambda>b. b = bus_new", OF refl] this]
  have "unsubscribe True (?s, snd (on_emit demo_key demo_handler bus_new)) =
      (Inr (), ?s\<lparr>sub_active := False\<rparr>, bus_new\<lparr>bus_next := bus_next (bus_new :: (nat, nat list) event_bus) + 1\<rparr>)"
    by blast
  then show ?thesis by (simp only: snd_conv) (simp add: bus_new_def)
qed

section \<open>What an emit runs and returns\<close>

definition subscribe_all :: "event_key \<Rightarrow> ('v \<Rightarrow> ('w, unit) closure) list \<Rightarrow> ('v, 'w) event_bus" where
  "subscribe_all key fs = foldl (\<lambda>b f. snd (on_emit key f b)) bus_new fs"

text \<open>How the calls end when every function runs in turn, and the first failure among them.\<close>

fun call_trace :: "('v \<Rightarrow> ('w, unit) closure) list \<Rightarrow> 'v \<Rightarrow> 'w \<Rightarrow> unit call_end list" where
  "call_trace [] v w = []"
| "call_trace (f # fs) v w = fst (f v w) # call_trace fs v (snd (f v w))"

fun first_failure :: "rstring \<Rightarrow> nat \<Rightarrow> unit call_end list \<Rightarrow> (event_error, unit) res" where
  "first_failure ev n [] = Inr ()"
| "first_failure ev n (r # rs) =
     (case call_failure ev (of_nat n) r of Inl e \<Rightarrow> Inl e | Inr _ \<Rightarrow> first_failure ev (Suc n) rs)"

definition emit_handlers :: "nat \<Rightarrow> nat \<Rightarrow> ('v \<Rightarrow> ('w, unit) closure) list \<Rightarrow> ('v, 'w) registered_handler list" where
  "emit_handlers t n fs = map (\<lambda>(i, f). HEmit (of_nat i) (erase_ref t f)) (enumerate n fs)"

lemma emit_handlers_simps [simp]:
  "emit_handlers t n [] = []"
  "emit_handlers t n (f # fs) = HEmit (of_nat n) (erase_ref t f) # emit_handlers t (Suc n) fs"
  by (simp_all add: emit_handlers_def)

lemma emit_handlers_snoc: "emit_handlers t n (fs @ [f]) = emit_handlers t n fs @ [HEmit (of_nat (n + length fs)) (erase_ref t f)]"
  by (simp add: emit_handlers_def enumerate_append_eq)

lemma length_emit_handlers [simp]: "length (emit_handlers t n fs) = length fs"
  by (simp add: emit_handlers_def)

lemma keep_first_simps [simp]:
  "keep_first first (Inr u) = first" "keep_first None (Inl e) = Some e" "keep_first (Some d) r = Some d"
  by (simp_all add: keep_first_def split: sum.splits)

lemma emit_loop_handlers:
  "emit_loop ev (Any t v) (emit_handlers t n fs) first w =
     (case first of Some e \<Rightarrow> Some e | None \<Rightarrow> (case first_failure ev n (call_trace fs v w) of Inl e \<Rightarrow> Some e | Inr _ \<Rightarrow> None),
      fold (\<lambda>f w. snd (f v w)) fs w)"
proof (induction fs arbitrary: n first w)
  case (Cons f fs)
  obtain r w' where "f v w = (r, w')" by (cases "f v w")
  then show ?case
    by (cases "call_failure ev (of_nat n) r"; cases first)
       (simp_all add: Cons.IH invoke_immutable_def erase_ref_def)
qed (simp split: option.split)

lemma subscribe_all_handlers:
  assumes "validate_name (key_name key) KindEvent = Inr ()" and "length fs \<le> 256"
  shows "let b = subscribe_all key fs in
     bus_next b = of_nat (length fs) \<and> \<not> bus_poisoned b \<and>
     bus_definitions b = (if fs = [] then []
       else [(key_name key, \<lparr>def_type = key_type key, def_mode = MEmit, def_handlers = emit_handlers (rt_id (key_type key)) 0 fs\<rparr>)])"
  using assms(2)
proof (induction fs rule: rev_induct)
  case Nil
  show ?case by (simp add: subscribe_all_def bus_new_def)
next
  case (snoc f fs)
  have "subscribe_all key (fs @ [f]) = snd (on_emit key f (subscribe_all key fs))"
    by (simp add: subscribe_all_def)
  then show ?case
    using snoc assms(1)
    by (cases "fs = []")
       (simp_all add: Let_def on_emit_def next_handler_id_def register_handler_def emit_handlers_snoc
         MAX_EVENT_HANDLERS_def MAX_EVENT_DEFINITIONS_def bt_update_def)
qed

text \<open>what an emit does. After subscribing up to 256 functions to an event, an emit calls every
  one of them once, in the order they subscribed, whatever the others return and even when one of them
  panics, and returns the failure of the first that failed, naming that handler.\<close>

theorem emit_runs_every_subscriber:
  assumes "validate_name (key_name key) KindEvent = Inr ()" and "length fs \<le> 256"
  shows "emit key v (subscribe_all key fs) w =
    (first_failure (key_name key) 0 (call_trace fs v w), fold (\<lambda>f w. snd (f v w)) fs w)"
proof -
  let ?hs = "emit_handlers (rt_id (key_type key)) 0 fs"
  have "bus_handlers key MEmit (subscribe_all key fs) = Inr ?hs"
    using subscribe_all_handlers [OF assms] by (simp add: bus_handlers_Inr Let_def assms(1))
  then show ?thesis
    by (auto simp: emit_def emit_loop_handlers first_result_def split: sum.splits)
qed

definition demo_failing :: "nat \<Rightarrow> (nat list, unit) closure" where
  "demo_failing v w = (Panicked, w @ [v + 1])"

theorem emit_runs_every_subscriber_witness:
  "emit demo_key 5 (subscribe_all demo_key [demo_failing, demo_handler]) [] =
     (Inl (HandlerPanicked (lit ''demo.tick'') 0), [6, 5])"
  using emit_runs_every_subscriber [of demo_key "[demo_failing, demo_handler]" 5 "[]"]
  by (simp add: demo_failing_def demo_handler_def) (simp add: demo_key_def)

section \<open>What a parallel dispatch runs and returns\<close>

lemma keep_first_fold:
  "join_batch env ev p xs first =
     (case first of Some e \<Rightarrow> Some e
      | None \<Rightarrow> map_option projl (find isl (map (worker_answer env ev p) xs)))"
proof (induction xs arbitrary: first)
  case (Cons x xs)
  then show ?case by (cases "worker_answer env ev p x"; cases first) simp_all
qed (simp split: option.split)

lemma join_batch_result:
  "first_result (join_batch env ev p xs None) =
     (case find isl (map (worker_answer env ev p) xs) of None \<Rightarrow> Inr () | Some r \<Rightarrow> r)"
proof -
  have "Inl (projl r) = r" if "find isl rs = Some r" for r :: "(event_error, unit) res" and rs
    using that by (induction rs) (auto split: if_splits)
  then show ?thesis by (simp add: keep_first_fold first_result_def split: option.split)
qed

lemma join_batch_append:
  "join_batch env ev p (xs @ ys) first = join_batch env ev p ys (join_batch env ev p xs first)"
  by (induction xs arbitrary: first) simp_all

definition spawns :: "'w parallel_env \<Rightarrow> ('v, 'w) worker \<Rightarrow> bool" where
  "spawns env x \<longleftrightarrow> spawn_error env (fst x) = None"

lemma spawn_batch_takeWhile:
  "spawn_batch env xs =
     (case dropWhile (spawns env) xs of [] \<Rightarrow> None | x # _ \<Rightarrow> spawn_error env (fst x),
      takeWhile (spawns env) xs)"
  by (induction xs) (auto simp: spawns_def split: prod.splits)

lemma while_chunks:
  "takeWhile P xs = (if list_all P (take n xs) then take n xs @ takeWhile P (drop n xs) else takeWhile P (take n xs))"
  "dropWhile P xs = (if list_all P (take n xs) then dropWhile P (drop n xs) else dropWhile P (take n xs) @ drop n xs)"
proof -
  have xs: "xs = take n xs @ drop n xs" by simp
  show "takeWhile P xs = (if list_all P (take n xs) then take n xs @ takeWhile P (drop n xs) else takeWhile P (take n xs))"
    by (subst xs, subst takeWhile_append) (auto simp: list_all_iff)
  show "dropWhile P xs = (if list_all P (take n xs) then dropWhile P (drop n xs) else dropWhile P (take n xs) @ drop n xs)"
    by (subst xs, subst dropWhile_append) (auto simp: list_all_iff)
qed

lemma parallel_loop_spec:
  "parallel_loop env ev p xs first =
     \<lparr>par_result = (case dropWhile (spawns env) xs of
                      [] \<Rightarrow> first_result (join_batch env ev p xs first)
                    | x # _ \<Rightarrow> Inl (ThreadSpawn ev (the (spawn_error env (fst x))))),
      par_spawned = map fst (takeWhile (spawns env) xs), par_joined = map fst (takeWhile (spawns env) xs)\<rparr>"
proof (induction env ev p xs first rule: parallel_loop.induct)
  case (1 env ev p xs first)
  let ?n = MAX_PARALLEL_WORKERS
  show ?case
  proof (cases "xs = [] \<or> \<not> list_all (spawns env) (take ?n xs)")
    case True
    then show ?thesis
    proof
      assume "xs = []"
      then show ?thesis by (simp add: parallel_loop.simps)
    next
      assume no: "\<not> list_all (spawns env) (take ?n xs)"
      then obtain y ys where y: "dropWhile (spawns env) (take ?n xs) = y # ys"
        by (cases "dropWhile (spawns env) (take ?n xs)") (auto simp: dropWhile_eq_Nil_conv list_all_iff)
      then have "\<not> spawns env y" using hd_dropWhile [of "spawns env" "take ?n xs"] by simp
      with no y show ?thesis
        by (subst parallel_loop.simps)
           (auto simp: spawn_batch_takeWhile while_chunks [of "spawns env" xs ?n] spawns_def)
    qed
  next
    case False
    then have all: "list_all (spawns env) (take ?n xs)" and ne: "xs \<noteq> []" by auto
    have whole: "takeWhile (spawns env) (take ?n xs) = take ?n xs" "dropWhile (spawns env) (take ?n xs) = []"
      using all by (auto simp: takeWhile_eq_all_conv dropWhile_eq_Nil_conv list_all_iff)
    have rest: "join_batch env ev p xs first =
        join_batch env ev p (drop ?n xs) (join_batch env ev p (take ?n xs) first)"
      using join_batch_append [of env ev p "take ?n xs" "drop ?n xs"] by simp
    have IH: "parallel_loop env ev p (drop ?n xs) (join_batch env ev p (take ?n xs) first) =
        \<lparr>par_result = (case dropWhile (spawns env) (drop ?n xs) of
                      [] \<Rightarrow> first_result (join_batch env ev p (drop ?n xs) (join_batch env ev p (take ?n xs) first))
                    | x # _ \<Rightarrow> Inl (ThreadSpawn ev (the (spawn_error env (fst x))))),
         par_spawned = map fst (takeWhile (spawns env) (drop ?n xs)),
         par_joined = map fst (takeWhile (spawns env) (drop ?n xs))\<rparr>"
      by (rule "1.IH" [OF ne]) (simp_all add: spawn_batch_takeWhile whole)
    show ?thesis
      using ne by (subst parallel_loop.simps)
        (simp add: spawn_batch_takeWhile whole IH all while_chunks [of "spawns env" xs ?n] rest Let_def
          del: dropWhile_eq_Nil_conv split: list.split)
  qed
qed

text \<open>what a parallel dispatch does. For any scheduling of the workers and any spawn failures, the
  workers spawned are exactly the handlers before the first failed spawn, and every one of them has
  been joined when the dispatch returns. With no failed spawn the result is the failure of the first
  failing handler in subscription order, whichever worker finished first and wherever the batches of
  32 fall; otherwise it is the spawn failure.\<close>

theorem parallel_spawns_and_joins:
  assumes "bus_handlers key MParallel b = Inr hs"
  shows "let ws = enumerate 0 (parallel_handlers hs); run = parallel env key v b;
             ok = (\<lambda>x. spawn_error env (fst x) = None) in
    par_joined run = par_spawned run \<and> par_spawned run = map fst (takeWhile ok ws) \<and>
    par_result run = (case dropWhile ok ws of
        [] \<Rightarrow> (case find isl (map (worker_answer env (key_name key) (Any (rt_id (key_type key)) v)) ws) of
                 None \<Rightarrow> Inr () | Some r \<Rightarrow> r)
      | x # _ \<Rightarrow> Inl (ThreadSpawn (key_name key) (the (spawn_error env (fst x)))))"
proof -
  have ok: "spawns env = (\<lambda>x. spawn_error env (fst x) = None)" by (auto simp: spawns_def)
  show ?thesis
    unfolding Let_def parallel_def assms sum.case parallel_loop_spec ok join_batch_result by simp
qed

theorem parallel_spawns_and_joins_witness:
  "par_result (parallel \<lparr>spawn_error = Map.empty, world_seen = (\<lambda>_. []), join_died = (\<lambda>_. False)\<rparr> demo_key 5
     (snd (on_parallel demo_key demo_failing bus_new))) = Inl (HandlerPanicked (lit ''demo.tick'') 0)"
proof -
  have "bus_handlers demo_key MParallel (snd (on_parallel demo_key demo_failing bus_new))
      = Inr [HParallel 0 (erase_ref 7 demo_failing)]"
    by (simp add: bus_handlers_Inr on_parallel_def next_handler_id_def register_handler_def bus_new_def Let_def
        MAX_EVENT_DEFINITIONS_def) (simp add: demo_key_def)
  from parallel_spawns_and_joins [OF this, of "\<lparr>spawn_error = Map.empty, world_seen = (\<lambda>_. []), join_died = (\<lambda>_. False)\<rparr>" 5]
  show ?thesis
    by (simp add: worker_answer_def erase_ref_def demo_failing_def Let_def) (simp add: demo_key_def)
qed

end
