(* ===== verification/Cordis_Scope.thy ===== *)
theory Cordis_Scope
  imports Event_Bus
begin

text \<open>
  Scopes, services, effects and fibers of \<open>yunxi-cordis-core\<close> (\<open>context.rs\<close>, \<open>service.rs\<close>,
  \<open>effect.rs\<close>, \<open>plugin.rs\<close>, \<open>error.rs\<close>).

  Contexts, fiber records and buses are shared (\<open>Arc\<close>), so they live in a store \<open>cordis\<close> and are
  named by their ids, drawn from counters that stand for the process-wide atomics; a run allocates fewer
  than \<open>2^64\<close> of each. Nothing panics while it holds a lock, so no lock is ever poisoned and that
  error is never built. A disposer acts on the world outside (\<open>'w\<close>), by the function \<open>disposer\<close> of its
  effect's id, or drops the subscription it owns; \<open>cd_trace\<close> records the effects that were run.
  An \<open>Effect\<close> takes its id when it is built and is a value of its caller until it is installed;
  \<open>cd_held\<close> holds those values. Each operation is one call carried out to its end. In the code
  \<open>install_effect\<close> and \<open>dispose\<close> give the lock back in between; \<open>install_effect\<close> is therefore
  written as its check and its insertion, and \<open>Cordis_Claims\<close> shows what happens when a disposal
  comes between the two.
\<close>

section \<open>Identifiers and errors\<close>

definition MAX_PLUGIN_ID_BYTES :: nat where "MAX_PLUGIN_ID_BYTES = 128"
definition MAX_PLUGIN_DEPENDENCIES :: nat where "MAX_PLUGIN_DEPENDENCIES = 64"

datatype cordis_id_error =
    CordisIdEmpty
  | CordisIdTooLong nat nat
  | CordisIdCharacter nat rchar

fun show_cordis_id_error :: "cordis_id_error \<Rightarrow> rstring" where
  "show_cordis_id_error CordisIdEmpty = lit ''plugin id cannot be empty''"
| "show_cordis_id_error (CordisIdTooLong l m) =
     lit ''plugin id is '' @ show_nat l @ lit '' bytes; maximum is '' @ show_nat m"
| "show_cordis_id_error (CordisIdCharacter i c) =
     lit ''plugin id contains unsupported character '' @ quoted [c] @ lit '' at byte '' @ show_nat i"

definition cordis_id_new :: "rstring \<Rightarrow> (cordis_id_error, rstring) res" where
  "cordis_id_new value =
     (if value = [] then Inl CordisIdEmpty
      else if MAX_PLUGIN_ID_BYTES < str_len value then Inl (CordisIdTooLong (str_len value) MAX_PLUGIN_ID_BYTES)
      else (case find (\<lambda>(i, c). \<not> is_ascii c \<or> is_control c \<or> is_whitespace c) (char_indices value) of
              Some (i, c) \<Rightarrow> Inl (CordisIdCharacter i c)
            | None \<Rightarrow> Inr value))"

datatype scope_state = ScopeActive | ScopeDisposing | ScopeDisposed

fun show_scope_state :: "scope_state \<Rightarrow> rstring" where
  "show_scope_state ScopeActive = lit ''active''"
| "show_scope_state ScopeDisposing = lit ''disposing''"
| "show_scope_state ScopeDisposed = lit ''disposed''"

datatype effect_state = EffectActive | EffectDisposing | EffectDisposed | EffectFailed

fun show_effect_state :: "effect_state \<Rightarrow> rstring" where
  "show_effect_state EffectActive = lit ''active''"
| "show_effect_state EffectDisposing = lit ''disposing''"
| "show_effect_state EffectDisposed = lit ''disposed''"
| "show_effect_state EffectFailed = lit ''failed''"

datatype fiber_state = FiberMounting | FiberMounted | FiberFailed | FiberUnmounting | FiberUnmounted

fun show_fiber_state :: "fiber_state \<Rightarrow> rstring" where
  "show_fiber_state FiberMounting = lit ''mounting''"
| "show_fiber_state FiberMounted = lit ''mounted''"
| "show_fiber_state FiberFailed = lit ''failed''"
| "show_fiber_state FiberUnmounting = lit ''unmounting''"
| "show_fiber_state FiberUnmounted = lit ''unmounted''"

datatype cordis_error =
    CeInvalidIdentifier identifier_kind rstring
  | CeInvalidPluginId cordis_id_error
  | ContextClosed nat scope_state
  | DuplicateService nat rstring
  | MissingService rstring
  | ServiceTypeMismatch rstring rstring rstring
  | MissingDependency rstring rstring
  | DependencyLimit rstring nat
  | DuplicatePlugin rstring
  | PluginMountFailed rstring rstring
  | InvalidFiberState nat fiber_state rstring
  | EffectNotFound nat
  | EffectUnavailable nat effect_state
  | DisposerFailed nat rstring
  | CeEvent event_error
  | CePoisoned rstring

fun show_identifier_kind :: "identifier_kind \<Rightarrow> rstring" where
  "show_identifier_kind KindService = lit ''service''"
| "show_identifier_kind KindEvent = lit ''event''"

fun show_cordis_error :: "cordis_error \<Rightarrow> rstring" where
  "show_cordis_error (CeInvalidIdentifier k v) =
     lit ''invalid '' @ show_identifier_kind k @ lit '' identifier '' @ quoted v"
| "show_cordis_error (CeInvalidPluginId e) = show_cordis_id_error e"
| "show_cordis_error (ContextClosed c s) =
     lit ''scope scope-'' @ show_nat c @ lit '' is '' @ show_scope_state s"
| "show_cordis_error (DuplicateService c n) =
     lit ''service '' @ quoted n @ lit '' is already registered in scope scope-'' @ show_nat c"
| "show_cordis_error (MissingService n) = lit ''service '' @ quoted n @ lit '' is unavailable''"
| "show_cordis_error (ServiceTypeMismatch n e a) =
     lit ''service '' @ quoted n @ lit '' has type '' @ quoted a @ lit '', requested '' @ quoted e"
| "show_cordis_error (MissingDependency p s) =
     lit ''plugin '' @ quoted p @ lit '' requires missing service '' @ quoted s"
| "show_cordis_error (DependencyLimit p m) =
     lit ''plugin '' @ quoted p @ lit '' declares more than the maximum of '' @ show_nat m @ lit '' dependencies''"
| "show_cordis_error (DuplicatePlugin p) = lit ''plugin '' @ quoted p @ lit '' is already mounted''"
| "show_cordis_error (PluginMountFailed p m) =
     lit ''plugin '' @ quoted p @ lit '' failed to mount: '' @ m"
| "show_cordis_error (InvalidFiberState f s op) =
     lit ''fiber fiber-'' @ show_nat f @ lit '' cannot '' @ op @ lit '' while it is '' @ show_fiber_state s"
| "show_cordis_error (EffectNotFound i) = lit ''effect effect-'' @ show_nat i @ lit '' is not registered''"
| "show_cordis_error (EffectUnavailable i s) =
     lit ''effect effect-'' @ show_nat i @ lit '' cannot be disposed while it is '' @ show_effect_state s"
| "show_cordis_error (DisposerFailed i m) =
     lit ''disposer for effect effect-'' @ show_nat i @ lit '' failed: '' @ m"
| "show_cordis_error (CeEvent e) = show_event_error e"
| "show_cordis_error (CePoisoned c) = lit ''Cordis '' @ c @ lit '' lock is poisoned''"

definition validate_service_name :: "rstring \<Rightarrow> (cordis_error, unit) res" where
  "validate_service_name name =
     map_err (\<lambda>e. case e of InvalidIdentifier k v \<Rightarrow> CeInvalidIdentifier k v) (validate_name name KindService)"

section \<open>The store\<close>

record service_key =
  sk_name :: rstring
  sk_type :: rust_type

record service_dependency =
  sd_name :: rstring
  sd_required :: bool

definition dependency_required :: "service_key \<Rightarrow> service_dependency" where
  "dependency_required k = \<lparr>sd_name = sk_name k, sd_required = True\<rparr>"

definition dependency_optional :: "service_key \<Rightarrow> service_dependency" where
  "dependency_optional k = \<lparr>sd_name = sk_name k, sd_required = False\<rparr>"

record 'v service_entry =
  sv_value :: "'v any_val"
  sv_type :: rust_type

datatype effect = EffectClosure | EffectSubscription nat subscription

record effect_record =
  er_effect :: "effect option"
  er_state :: effect_state

record 'v scope =
  sc_parent :: "nat option"
  sc_bus :: nat
  sc_state :: scope_state
  sc_services :: "(rstring, 'v service_entry) btmap"
  sc_effects :: "(nat, effect_record) btmap"
  sc_fibers :: "nat list"

text \<open>\<open>fb_live\<close>: some handle still owns the record, so that \<open>Weak::upgrade\<close> succeeds.\<close>

record fiber_record =
  fb_plugin :: rstring
  fb_scope :: nat
  fb_parent :: nat
  fb_state :: fiber_state
  fb_live :: bool

record ('v, 'w) cordis =
  cd_scopes :: "(nat, 'v scope) btmap"
  cd_fibers :: "(nat, fiber_record) btmap"
  cd_buses :: "(nat, ('v, 'w) event_bus) btmap"
  cd_next_scope :: nat
  cd_next_effect :: nat
  cd_next_fiber :: nat
  cd_held :: "(nat, effect) btmap"
  cd_world :: 'w
  cd_trace :: "nat list"

type_synonym 'w disposer = "nat \<Rightarrow> 'w \<Rightarrow> (rstring, unit) res option \<times> 'w"

definition cordis_new :: "'w \<Rightarrow> ('v, 'w) cordis" where
  "cordis_new w = \<lparr>cd_scopes = [], cd_fibers = [], cd_buses = [], cd_next_scope = 1, cd_next_effect = 1,
     cd_next_fiber = 1, cd_held = [], cd_world = w, cd_trace = []\<rparr>"

definition on_scope :: "nat \<Rightarrow> ('v scope \<Rightarrow> 'v scope) \<Rightarrow> ('v, 'w) cordis \<Rightarrow> ('v, 'w) cordis" where
  "on_scope c f st = st\<lparr>cd_scopes := bt_update c f (cd_scopes st)\<rparr>"

definition set_fiber :: "nat \<Rightarrow> fiber_state \<Rightarrow> ('v, 'w) cordis \<Rightarrow> ('v, 'w) cordis" where
  "set_fiber f s st = st\<lparr>cd_fibers := bt_update f (\<lambda>r. r\<lparr>fb_state := s\<rparr>) (cd_fibers st)\<rparr>"

definition new_scope :: "nat option \<Rightarrow> nat \<Rightarrow> 'v scope" where
  "new_scope parent bus = \<lparr>sc_parent = parent, sc_bus = bus, sc_state = ScopeActive, sc_services = [],
     sc_effects = [], sc_fibers = []\<rparr>"

definition context_new :: "('v, 'w) cordis \<Rightarrow> nat \<times> ('v, 'w) cordis" where
  "context_new st = (let c = cd_next_scope st in
     (c, st\<lparr>cd_next_scope := c + 1, cd_scopes := bt_insert c (new_scope None c) (cd_scopes st),
            cd_buses := bt_insert c bus_new (cd_buses st)\<rparr>))"

section \<open>Walking up the scopes\<close>

text \<open>
  The three loops over a scope and its ancestors: each requires the scope to be active and stops when
  \<open>f\<close> finds something there. A parent is older than its children, which the guard \<open>p < c\<close> says.
\<close>

function walk :: "('v scope \<Rightarrow> 'b option) \<Rightarrow> nat \<Rightarrow> ('v, 'w) cordis \<Rightarrow> (cordis_error, 'b option) res" where
  "walk f c st =
     (case bt_get (cd_scopes st) c of
        None \<Rightarrow> Inr None
      | Some sc \<Rightarrow>
          if sc_state sc \<noteq> ScopeActive then Inl (ContextClosed c (sc_state sc))
          else (case f sc of
            Some x \<Rightarrow> Inr (Some x)
          | None \<Rightarrow> (case sc_parent sc of
              None \<Rightarrow> Inr None
            | Some p \<Rightarrow> if p < c then walk f p st else Inr None)))"
  by pat_completeness auto

termination by (relation "measure (\<lambda>(f, c, st). c)") auto

declare walk.simps [simp del]

definition ensure_hierarchy_active :: "nat \<Rightarrow> ('v, 'w) cordis \<Rightarrow> (cordis_error, unit) res" where
  "ensure_hierarchy_active c st = res_bind (walk (\<lambda>_. None :: unit option) c st) (\<lambda>_. Inr ())"

definition has_service_name :: "rstring \<Rightarrow> nat \<Rightarrow> ('v, 'w) cordis \<Rightarrow> (cordis_error, bool) res" where
  "has_service_name name c st =
     res_bind (validate_service_name name) (\<lambda>_.
     res_bind (walk (\<lambda>sc. if bt_has (sc_services sc) name then Some () else None) c st) (\<lambda>x. Inr (x \<noteq> None)))"

definition find_service :: "rstring \<Rightarrow> nat \<Rightarrow> ('v, 'w) cordis \<Rightarrow> (cordis_error, 'v service_entry) res" where
  "find_service name c st =
     res_bind (validate_service_name name) (\<lambda>_.
     res_bind (walk (\<lambda>sc. bt_get (sc_services sc) name) c st) (\<lambda>x.
     case x of Some e \<Rightarrow> Inr e | None \<Rightarrow> Inl (MissingService name)))"

section \<open>Scopes and services\<close>

definition child :: "nat \<Rightarrow> (('v, 'w) cordis, cordis_error, nat) act" where
  "child c st =
     (case ensure_hierarchy_active c st of
        Inl e \<Rightarrow> (Inl e, st)
      | Inr _ \<Rightarrow>
          (let d = cd_next_scope st;
               bus = (case bt_get (cd_scopes st) c of Some sc \<Rightarrow> sc_bus sc | None \<Rightarrow> c)
           in (Inr d, st\<lparr>cd_next_scope := d + 1, cd_scopes := bt_insert d (new_scope (Some c) bus) (cd_scopes st)\<rparr>)))"

definition services_of :: "nat \<Rightarrow> ('v, 'w) cordis \<Rightarrow> (rstring, 'v service_entry) btmap" where
  "services_of c st = (case bt_get (cd_scopes st) c of Some sc \<Rightarrow> sc_services sc | None \<Rightarrow> [])"

definition provide :: "nat \<Rightarrow> service_key \<Rightarrow> 'v \<Rightarrow> (('v, 'w) cordis, cordis_error, unit) act" where
  "provide c k x st =
     (case res_bind (validate_service_name (sk_name k)) (\<lambda>_. ensure_hierarchy_active c st) of
        Inl e \<Rightarrow> (Inl e, st)
      | Inr _ \<Rightarrow>
          if bt_has (services_of c st) (sk_name k) then (Inl (DuplicateService c (sk_name k)), st)
          else (Inr (), on_scope c (\<lambda>sc. sc\<lparr>sc_services :=
                 bt_insert (sk_name k) \<lparr>sv_value = Any (rt_id (sk_type k)) x, sv_type = sk_type k\<rparr> (sc_services sc)\<rparr>) st))"

definition service :: "nat \<Rightarrow> service_key \<Rightarrow> ('v, 'w) cordis \<Rightarrow> (cordis_error, 'v) res" where
  "service c k st =
     res_bind (find_service (sk_name k) c st) (\<lambda>e.
     let mismatch = Inl (ServiceTypeMismatch (sk_name k) (rt_name (sk_type k)) (rt_name (sv_type e))) in
     if rt_id (sv_type e) \<noteq> rt_id (sk_type k) then mismatch
     else if any_type (sv_value e) = rt_id (sk_type k) then Inr (any_value (sv_value e)) else mismatch)"

definition has_service :: "nat \<Rightarrow> service_key \<Rightarrow> ('v, 'w) cordis \<Rightarrow> (cordis_error, bool) res" where
  "has_service c k st = has_service_name (sk_name k) c st"

definition remove_service :: "nat \<Rightarrow> service_key \<Rightarrow> (('v, 'w) cordis, cordis_error, unit) act" where
  "remove_service c k st =
     (case res_bind (validate_service_name (sk_name k)) (\<lambda>_. ensure_hierarchy_active c st) of
        Inl e \<Rightarrow> (Inl e, st)
      | Inr _ \<Rightarrow>
          (case bt_get (services_of c st) (sk_name k) of
             None \<Rightarrow> (Inl (MissingService (sk_name k)), st)
           | Some e \<Rightarrow>
               if rt_id (sv_type e) \<noteq> rt_id (sk_type k)
               then (Inl (ServiceTypeMismatch (sk_name k) (rt_name (sk_type k)) (rt_name (sv_type e))), st)
               else (Inr (), on_scope c (\<lambda>sc. sc\<lparr>sc_services := bt_remove (sk_name k) (sc_services sc)\<rparr>) st)))"

section \<open>Effects\<close>

text \<open>Building an effect draws its id; the caller then holds it.\<close>

definition effect_new :: "effect \<Rightarrow> ('v, 'w) cordis \<Rightarrow> nat \<times> ('v, 'w) cordis" where
  "effect_new ef st = (let i = cd_next_effect st in
     (i, st\<lparr>cd_next_effect := i + 1, cd_held := bt_insert i ef (cd_held st)\<rparr>))"

text \<open>Running an effect consumes it.\<close>

definition effect_run :: "'w disposer \<Rightarrow> nat \<Rightarrow> effect \<Rightarrow> (('v, 'w) cordis, rstring, unit) act" where
  "effect_run dis i ef st0 =
     (let st = st0\<lparr>cd_trace := cd_trace st0 @ [i]\<rparr> in
      case ef of
        EffectClosure \<Rightarrow>
          (case dis i (cd_world st) of
             (Some r, w) \<Rightarrow> (r, st\<lparr>cd_world := w\<rparr>)
           | (None, w) \<Rightarrow> (Inl (lit ''effect disposer panicked''), st\<lparr>cd_world := w\<rparr>))
      | EffectSubscription b s \<Rightarrow>
          (Inr (), st\<lparr>cd_buses := bt_update b (drop_subscription True s) (cd_buses st)\<rparr>))"

text \<open>
  Installing hands an effect that was built before, \<open>(i, ef)\<close>, to the scope: it checks the hierarchy,
  and then inserts the effect under the scope's lock. A refused effect is dropped without being run, which
  still drops the subscription it owns; so is one its caller lets go (\<open>discard_effect\<close>).
\<close>

definition give_held :: "nat \<Rightarrow> ('v, 'w) cordis \<Rightarrow> ('v, 'w) cordis" where
  "give_held i st = st\<lparr>cd_held := bt_remove i (cd_held st)\<rparr>"

definition effect_drop :: "effect \<Rightarrow> ('v, 'w) cordis \<Rightarrow> ('v, 'w) cordis" where
  "effect_drop ef st =
     (case ef of
        EffectClosure \<Rightarrow> st
      | EffectSubscription b s \<Rightarrow> st\<lparr>cd_buses := bt_update b (drop_subscription True s) (cd_buses st)\<rparr>)"

definition discard_effect :: "nat \<times> effect \<Rightarrow> ('v, 'w) cordis \<Rightarrow> ('v, 'w) cordis" where
  "discard_effect e st = effect_drop (snd e) (give_held (fst e) st)"

definition insert_effect :: "nat \<Rightarrow> nat \<times> effect \<Rightarrow> (('v, 'w) cordis, cordis_error, nat) act" where
  "insert_effect c e st =
     (Inr (fst e), on_scope c (\<lambda>sc. sc\<lparr>sc_effects :=
        bt_insert (fst e) \<lparr>er_effect = Some (snd e), er_state = EffectActive\<rparr> (sc_effects sc)\<rparr>) (give_held (fst e) st))"

definition install_effect :: "nat \<Rightarrow> nat \<times> effect \<Rightarrow> (('v, 'w) cordis, cordis_error, nat) act" where
  "install_effect c e st =
     (case ensure_hierarchy_active c st of
        Inl err \<Rightarrow> (Inl err, discard_effect e st)
      | Inr _ \<Rightarrow> insert_effect c e st)"

definition own_subscription :: "nat \<Rightarrow> nat \<Rightarrow> subscription \<Rightarrow> (('v, 'w) cordis, cordis_error, nat) act" where
  "own_subscription c bus s st0 =
     (case effect_new (EffectSubscription bus s) st0 of (i, st) \<Rightarrow> install_effect c (i, EffectSubscription bus s) st)"

definition set_effect :: "nat \<Rightarrow> nat \<Rightarrow> effect_record \<Rightarrow> ('v, 'w) cordis \<Rightarrow> ('v, 'w) cordis" where
  "set_effect c i r = on_scope c (\<lambda>sc. sc\<lparr>sc_effects := bt_update i (\<lambda>_. r) (sc_effects sc)\<rparr>)"

definition run_taken :: "'w disposer \<Rightarrow> nat \<Rightarrow> nat \<Rightarrow> effect \<Rightarrow> (('v, 'w) cordis, cordis_error, unit) act" where
  "run_taken dis c i ef st =
     (case effect_run dis i ef st of (r, st') \<Rightarrow>
       (map_err (DisposerFailed i) r,
        set_effect c i \<lparr>er_effect = None, er_state = (if is_ok r then EffectDisposed else EffectFailed)\<rparr> st'))"

definition effects_of :: "nat \<Rightarrow> ('v, 'w) cordis \<Rightarrow> (nat, effect_record) btmap" where
  "effects_of c st = (case bt_get (cd_scopes st) c of Some sc \<Rightarrow> sc_effects sc | None \<Rightarrow> [])"

definition dispose_effect :: "'w disposer \<Rightarrow> nat \<Rightarrow> nat \<Rightarrow> (('v, 'w) cordis, cordis_error, unit) act" where
  "dispose_effect dis c i st =
     (case bt_get (effects_of c st) i of
        None \<Rightarrow> (Inl (EffectNotFound i), st)
      | Some r \<Rightarrow>
          if er_state r \<noteq> EffectActive then (Inl (EffectUnavailable i (er_state r)), st)
          else (case er_effect r of
            None \<Rightarrow> (Inl (EffectUnavailable i (er_state r)), st)
          | Some ef \<Rightarrow>
              run_taken dis c i ef (set_effect c i \<lparr>er_effect = None, er_state = EffectDisposing\<rparr> st)))"

section \<open>Disposing a scope\<close>

definition fibers_of :: "nat \<Rightarrow> ('v, 'w) cordis \<Rightarrow> nat list" where
  "fibers_of c st = (case bt_get (cd_scopes st) c of Some sc \<Rightarrow> sc_fibers sc | None \<Rightarrow> [])"

definition fiber_live :: "('v, 'w) cordis \<Rightarrow> nat \<Rightarrow> bool" where
  "fiber_live st f \<longleftrightarrow> (case bt_get (cd_fibers st) f of Some r \<Rightarrow> fb_live r | None \<Rightarrow> False)"

definition mark_unmounting :: "nat \<Rightarrow> ('v, 'w) cordis \<Rightarrow> ('v, 'w) cordis" where
  "mark_unmounting f st =
     (case bt_get (cd_fibers st) f of
        Some r \<Rightarrow> (if fb_state r \<in> {FiberMounting, FiberMounted} then set_fiber f FiberUnmounting st else st)
      | None \<Rightarrow> st)"

definition taken_effects :: "(nat, effect_record) btmap \<Rightarrow> (nat \<times> effect) list" where
  "taken_effects m =
     List.map_filter (\<lambda>(i, r). if er_state r = EffectActive then map_option (Pair i) (er_effect r) else None) (rev m)"

definition take_effects :: "(nat, effect_record) btmap \<Rightarrow> (nat, effect_record) btmap" where
  "take_effects m = bt_map (\<lambda>i r. if er_state r = EffectActive
     then \<lparr>er_effect = None, er_state = EffectDisposing\<rparr> else r) m"

definition keep_error :: "cordis_error option \<Rightarrow> (cordis_error, unit) res \<Rightarrow> cordis_error option" where
  "keep_error first r = (case r of Inl e \<Rightarrow> (if first = None then Some e else first) | Inr _ \<Rightarrow> first)"

definition error_result :: "cordis_error option \<Rightarrow> (cordis_error, unit) res" where
  "error_result first = (case first of None \<Rightarrow> Inr () | Some e \<Rightarrow> Inl e)"

fun dispose_fibers ::
  "(nat \<Rightarrow> (('v, 'w) cordis, cordis_error, unit) act) \<Rightarrow> nat list \<Rightarrow> cordis_error option \<Rightarrow> ('v, 'w) cordis \<Rightarrow>
   cordis_error option \<times> ('v, 'w) cordis" where
  "dispose_fibers dispose [] first st = (first, st)"
| "dispose_fibers dispose (f # fs) first st =
     (case bt_get (cd_fibers st) f of
        None \<Rightarrow> dispose_fibers dispose fs first st
      | Some r \<Rightarrow>
          (case dispose (fb_scope r) st of
             (x, st') \<Rightarrow> dispose_fibers dispose fs (keep_error first x) (set_fiber f FiberUnmounted st')))"

fun run_effects ::
  "'w disposer \<Rightarrow> nat \<Rightarrow> (nat \<times> effect) list \<Rightarrow> cordis_error option \<Rightarrow> ('v, 'w) cordis \<Rightarrow>
   cordis_error option \<times> ('v, 'w) cordis" where
  "run_effects dis c [] first st = (first, st)"
| "run_effects dis c ((i, ef) # es) first st =
     (case run_taken dis c i ef st of (x, st') \<Rightarrow> run_effects dis c es (keep_error first x) st')"

definition close_scope :: "nat \<Rightarrow> ('v, 'w) cordis \<Rightarrow> ('v, 'w) cordis" where
  "close_scope c = on_scope c (\<lambda>sc. sc\<lparr>sc_services := [], sc_fibers := [], sc_state := ScopeDisposed\<rparr>)"

text \<open>
  Disposing recurs into the scopes of the mounted fibers. The first argument bounds the depth; a scope is
  younger than the one it hangs off, so the number of scopes allocated so far is enough, which
  \<open>dispose_fuel\<close> shows.
\<close>

primrec dispose_scope :: "nat \<Rightarrow> 'w disposer \<Rightarrow> nat \<Rightarrow> (('v, 'w) cordis, cordis_error, unit) act" where
  "dispose_scope 0 dis c st = (Inr (), st)"
| "dispose_scope (Suc n) dis c st =
     (case bt_get (cd_scopes st) c of
        None \<Rightarrow> (Inr (), st)
      | Some sc \<Rightarrow>
          (case sc_state sc of
             ScopeDisposed \<Rightarrow> (Inr (), st)
           | ScopeDisposing \<Rightarrow> (Inl (ContextClosed c ScopeDisposing), st)
           | ScopeActive \<Rightarrow>
               (let fibers = filter (fiber_live st) (sc_fibers sc);
                    effects = taken_effects (sc_effects sc);
                    st1 = on_scope c (\<lambda>sc. sc\<lparr>sc_state := ScopeDisposing, sc_effects := take_effects (sc_effects sc)\<rparr>)
                            (fold mark_unmounting fibers st)
                in case dispose_fibers (dispose_scope n dis) fibers None st1 of (e1, st2) \<Rightarrow>
                   case run_effects dis c effects e1 st2 of (e2, st3) \<Rightarrow>
                   (error_result e2, close_scope c st3))))"

definition dispose :: "'w disposer \<Rightarrow> nat \<Rightarrow> (('v, 'w) cordis, cordis_error, unit) act" where
  "dispose dis c st = dispose_scope (cd_next_scope st) dis c st"

section \<open>Mounting plugins\<close>

definition unregister_fiber :: "nat \<Rightarrow> nat \<Rightarrow> ('v, 'w) cordis \<Rightarrow> ('v, 'w) cordis" where
  "unregister_fiber c f = on_scope c (\<lambda>sc. sc\<lparr>sc_fibers := bs_remove f (sc_fibers sc)\<rparr>)"

definition occupies :: "rstring \<Rightarrow> ('v, 'w) cordis \<Rightarrow> nat \<Rightarrow> bool" where
  "occupies plugin st f \<longleftrightarrow>
     (case bt_get (cd_fibers st) f of
        None \<Rightarrow> False
      | Some r \<Rightarrow> fb_live r \<and> fb_plugin r = plugin \<and> fb_state r \<in> {FiberMounting, FiberMounted})"

definition register_fiber :: "nat \<Rightarrow> nat \<Rightarrow> rstring \<Rightarrow> (('v, 'w) cordis, cordis_error, unit) act" where
  "register_fiber c f plugin st =
     (case ensure_hierarchy_active c st of
        Inl e \<Rightarrow> (Inl e, st)
      | Inr _ \<Rightarrow>
          if list_ex (occupies plugin st) (fibers_of c st) then (Inl (DuplicatePlugin plugin), st)
          else (Inr (), on_scope c (\<lambda>sc. sc\<lparr>sc_fibers := bs_insert f (sc_fibers sc)\<rparr>) st))"

definition unmount :: "'w disposer \<Rightarrow> nat \<Rightarrow> (('v, 'w) cordis, cordis_error, unit) act" where
  "unmount dis f st =
     (case bt_get (cd_fibers st) f of
        None \<Rightarrow> (Inr (), st)
      | Some r \<Rightarrow>
          (case fb_state r of
             FiberUnmounted \<Rightarrow> (Inr (), st)
           | FiberFailed \<Rightarrow> (Inr (), unregister_fiber (fb_parent r) f (set_fiber f FiberUnmounted st))
           | FiberMounting \<Rightarrow> (Inl (InvalidFiberState f (fb_state r) (lit ''unmount'')), st)
           | FiberUnmounting \<Rightarrow> (Inl (InvalidFiberState f (fb_state r) (lit ''unmount'')), st)
           | FiberMounted \<Rightarrow>
               (case dispose dis (fb_scope r) (set_fiber f FiberUnmounting st) of
                  (x, st') \<Rightarrow> (x, unregister_fiber (fb_parent r) f (set_fiber f FiberUnmounted st')))))"

definition release_record :: "nat \<Rightarrow> ('v, 'w) cordis \<Rightarrow> ('v, 'w) cordis" where
  "release_record f st = st\<lparr>cd_fibers := bt_update f (\<lambda>r. r\<lparr>fb_live := False\<rparr>) (cd_fibers st)\<rparr>"

definition drop_fiber :: "'w disposer \<Rightarrow> nat \<Rightarrow> ('v, 'w) cordis \<Rightarrow> ('v, 'w) cordis" where
  "drop_fiber dis f st = release_record f (snd (unmount dis f st))"

text \<open>\<open>pg_dependencies\<close> and the answer of \<open>pg_mount\<close> are \<open>None\<close> when the plugin's code panics.\<close>

record ('v, 'w) cordis_plugin =
  pg_id :: rstring
  pg_dependencies :: "service_dependency list option"
  pg_mount :: "nat \<Rightarrow> ('v, 'w) cordis \<Rightarrow> (cordis_error, unit) res option \<times> ('v, 'w) cordis"

fun check_dependencies :: "rstring \<Rightarrow> nat \<Rightarrow> service_dependency list \<Rightarrow> ('v, 'w) cordis \<Rightarrow> (cordis_error, unit) res" where
  "check_dependencies plugin c [] st = Inr ()"
| "check_dependencies plugin c (d # ds) st =
     res_bind (has_service_name (sd_name d) c st) (\<lambda>available.
     if sd_required d \<and> \<not> available then Inl (MissingDependency plugin (sd_name d))
     else check_dependencies plugin c ds st)"

text \<open>The checks of a mount and its child scope and record, up to the call of the plugin's own code.\<close>

definition begin_mount ::
  "'w disposer \<Rightarrow> nat \<Rightarrow> rstring \<Rightarrow> service_dependency list option \<Rightarrow> (('v, 'w) cordis, cordis_error, rstring \<times> nat \<times> nat) act" where
  "begin_mount dis c i deps st =
     (case map_err CeInvalidPluginId (cordis_id_new i) of
        Inl e \<Rightarrow> (Inl e, st)
      | Inr plugin \<Rightarrow>
          (case deps of
             None \<Rightarrow> (Inl (PluginMountFailed plugin (lit ''plugin dependency declaration panicked'')), st)
           | Some ds \<Rightarrow>
               if MAX_PLUGIN_DEPENDENCIES < length ds then (Inl (DependencyLimit plugin MAX_PLUGIN_DEPENDENCIES), st)
               else (case check_dependencies plugin c ds st of
                 Inl e \<Rightarrow> (Inl e, st)
               | Inr _ \<Rightarrow>
                   (case child c st of
                      (Inl e, st1) \<Rightarrow> (Inl e, st1)
                    | (Inr s, st1) \<Rightarrow>
                        (let f = cd_next_fiber st1;
                             st2 = st1\<lparr>cd_next_fiber := f + 1, cd_fibers := bt_insert f
                               \<lparr>fb_plugin = plugin, fb_scope = s, fb_parent = c, fb_state = FiberMounting, fb_live = True\<rparr>
                               (cd_fibers st1)\<rparr>
                         in case register_fiber c f plugin st2 of
                              (Inl e, st3) \<Rightarrow> (Inl e, release_record f (snd (dispose dis s st3)))
                            | (Inr _, st3) \<Rightarrow> (Inr (plugin, f, s), st3))))))"

definition fail_mount :: "'w disposer \<Rightarrow> nat \<Rightarrow> nat \<Rightarrow> nat \<Rightarrow> rstring \<Rightarrow> rstring \<Rightarrow> (('v, 'w) cordis, cordis_error, nat) act" where
  "fail_mount dis c f s plugin message st =
     (case dispose dis s (set_fiber f FiberFailed st) of
        (cleanup, st1) \<Rightarrow>
          (Inl (PluginMountFailed plugin (case cleanup of
              Inr _ \<Rightarrow> message
            | Inl e \<Rightarrow> message @ lit ''; cleanup failed: '' @ show_cordis_error e)),
           drop_fiber dis f (unregister_fiber c f st1)))"

definition finish_mount ::
  "'w disposer \<Rightarrow> nat \<Rightarrow> rstring \<times> nat \<times> nat \<Rightarrow> (cordis_error, unit) res option \<Rightarrow> (('v, 'w) cordis, cordis_error, nat) act" where
  "finish_mount dis c = (\<lambda>(plugin, f, s) result st.
     case result of
       Some (Inr _) \<Rightarrow> (Inr f, set_fiber f FiberMounted st)
     | Some (Inl e) \<Rightarrow> fail_mount dis c f s plugin (show_cordis_error e) st
     | None \<Rightarrow> fail_mount dis c f s plugin (lit ''plugin mount panicked'') st)"

definition mount :: "'w disposer \<Rightarrow> nat \<Rightarrow> ('v, 'w) cordis_plugin \<Rightarrow> (('v, 'w) cordis, cordis_error, nat) act" where
  "mount dis c p st =
     (case begin_mount dis c (pg_id p) (pg_dependencies p) st of
        (Inl e, st1) \<Rightarrow> (Inl e, st1)
      | (Inr m, st1) \<Rightarrow>
          (case pg_mount p (snd (snd m)) st1 of (result, st2) \<Rightarrow> finish_mount dis c m result st2))"

section \<open>Snapshots\<close>

record fiber_snapshot =
  fs_id :: nat
  fs_plugin :: rstring
  fs_scope :: nat
  fs_state :: fiber_state

record context_snapshot =
  xs_scope :: nat
  xs_parent :: "nat option"
  xs_state :: scope_state
  xs_services :: "(rstring \<times> rstring) list"
  xs_effects :: "(nat \<times> effect_state) list"
  xs_fibers :: "fiber_snapshot list"
  xs_events :: "event_snapshot list"

definition fiber_snapshot_of :: "nat \<Rightarrow> fiber_record \<Rightarrow> fiber_snapshot" where
  "fiber_snapshot_of f r = \<lparr>fs_id = f, fs_plugin = fb_plugin r, fs_scope = fb_scope r, fs_state = fb_state r\<rparr>"

definition context_snapshot_of :: "nat \<Rightarrow> ('v, 'w) cordis \<Rightarrow> (cordis_error, context_snapshot option) res" where
  "context_snapshot_of c st =
     (case bt_get (cd_scopes st) c of
        None \<Rightarrow> Inr None
      | Some sc \<Rightarrow>
          res_bind (case bt_get (cd_buses st) (sc_bus sc) of
              None \<Rightarrow> Inr [] | Some b \<Rightarrow> map_err CeEvent (bus_snapshot b)) (\<lambda>events.
          Inr (Some \<lparr>xs_scope = c, xs_parent = sc_parent sc, xs_state = sc_state sc,
             xs_services = map (\<lambda>(n, e). (n, rt_name (sv_type e))) (sc_services sc),
             xs_effects = map (\<lambda>(i, r). (i, er_state r)) (sc_effects sc),
             xs_fibers = List.map_filter (\<lambda>f. case bt_get (cd_fibers st) f of
                 Some r \<Rightarrow> (if fb_live r then Some (fiber_snapshot_of f r) else None) | None \<Rightarrow> None) (sc_fibers sc),
             xs_events = events\<rparr>)))"

end
