(* ===== verification/Cordis_Runtime.thy ===== *)
theory Cordis_Runtime
  imports Cordis_Scope
begin

text \<open>
  The static plugin runtime of \<open>yunxi-cordis-runtime\<close> (\<open>manifest.rs\<close>, \<open>registry.rs\<close>,
  \<open>error.rs\<close>, \<open>snapshot.rs\<close>, \<open>runtime.rs\<close>) over the scopes of \<open>Cordis_Scope\<close>.

  A factory acts on the world outside and answers \<open>None\<close> when it panics; an instance says what its id,
  its dependencies and its mount are, \<open>None\<close> again for a panic. The records of a runtime are those of its
  registry, whose ids are distinct, so a definition stands for the index the code passes around.
\<close>

section \<open>Manifests\<close>

definition MAX_DISPLAY_NAME_BYTES :: nat where "MAX_DISPLAY_NAME_BYTES = 128"

datatype plugin_role = RoleCore | RoleAgentSpine | RoleOptional

definition role_required :: "plugin_role \<Rightarrow> bool" where
  "role_required r \<longleftrightarrow> r = RoleCore \<or> r = RoleAgentSpine"

definition role_toggleable :: "plugin_role \<Rightarrow> bool" where
  "role_toggleable r \<longleftrightarrow> r = RoleOptional"

fun show_plugin_role :: "plugin_role \<Rightarrow> rstring" where
  "show_plugin_role RoleCore = lit ''core''"
| "show_plugin_role RoleAgentSpine = lit ''agent-spine''"
| "show_plugin_role RoleOptional = lit ''optional''"

datatype plugin_risk = RiskSafe | RiskExternal

fun show_plugin_risk :: "plugin_risk \<Rightarrow> rstring" where
  "show_plugin_risk RiskSafe = lit ''safe''"
| "show_plugin_risk RiskExternal = lit ''external''"

datatype default_enablement = EnableAlways | EnableSafe | EnableNever

fun show_default_enablement :: "default_enablement \<Rightarrow> rstring" where
  "show_default_enablement EnableAlways = lit ''always''"
| "show_default_enablement EnableSafe = lit ''safe''"
| "show_default_enablement EnableNever = lit ''never''"

fun default_for :: "plugin_role \<Rightarrow> plugin_risk \<Rightarrow> default_enablement" where
  "default_for RoleCore k = EnableAlways"
| "default_for RoleAgentSpine k = EnableAlways"
| "default_for RoleOptional RiskSafe = EnableSafe"
| "default_for RoleOptional RiskExternal = EnableNever"

fun resolves_to_enabled :: "default_enablement \<Rightarrow> plugin_role \<Rightarrow> plugin_risk \<Rightarrow> bool" where
  "resolves_to_enabled e RoleCore k = True"
| "resolves_to_enabled e RoleAgentSpine k = True"
| "resolves_to_enabled EnableAlways RoleOptional k = True"
| "resolves_to_enabled EnableSafe RoleOptional k = (k = RiskSafe)"
| "resolves_to_enabled EnableNever RoleOptional k = False"

record runtime_manifest =
  rm_id :: rstring
  rm_display_name :: rstring
  rm_role :: plugin_role
  rm_risk :: plugin_risk
  rm_default :: default_enablement

definition manifest_for_plugin :: "rstring \<Rightarrow> rstring \<Rightarrow> plugin_role \<Rightarrow> plugin_risk \<Rightarrow> runtime_manifest" where
  "manifest_for_plugin i name role risk = \<lparr>rm_id = i, rm_display_name = name, rm_role = role, rm_risk = risk,
     rm_default = default_for role risk\<rparr>"

definition manifest_core :: "rstring \<Rightarrow> rstring \<Rightarrow> runtime_manifest" where
  "manifest_core i name = \<lparr>rm_id = i, rm_display_name = name, rm_role = RoleCore, rm_risk = RiskSafe, rm_default = EnableAlways\<rparr>"

definition manifest_agent_spine :: "rstring \<Rightarrow> rstring \<Rightarrow> runtime_manifest" where
  "manifest_agent_spine i name =
     \<lparr>rm_id = i, rm_display_name = name, rm_role = RoleAgentSpine, rm_risk = RiskSafe, rm_default = EnableAlways\<rparr>"

definition manifest_safe_optional :: "rstring \<Rightarrow> rstring \<Rightarrow> runtime_manifest" where
  "manifest_safe_optional i name =
     \<lparr>rm_id = i, rm_display_name = name, rm_role = RoleOptional, rm_risk = RiskSafe, rm_default = EnableSafe\<rparr>"

definition manifest_external_optional :: "rstring \<Rightarrow> rstring \<Rightarrow> runtime_manifest" where
  "manifest_external_optional i name =
     \<lparr>rm_id = i, rm_display_name = name, rm_role = RoleOptional, rm_risk = RiskExternal, rm_default = EnableNever\<rparr>"

definition default_enabled :: "runtime_manifest \<Rightarrow> bool" where
  "default_enabled m = resolves_to_enabled (rm_default m) (rm_role m) (rm_risk m)"

datatype manifest_error =
    MfEmptyId
  | MfIdTooLong nat nat
  | MfInvalidIdCharacter nat rchar
  | MfEmptyDisplayName
  | MfDisplayNameTooLong nat nat
  | MfInvalidDisplayNameCharacter
  | MfInvalidDefaultPolicy plugin_role plugin_risk default_enablement

fun show_runtime_manifest_error :: "manifest_error \<Rightarrow> rstring" where
  "show_runtime_manifest_error MfEmptyId = lit ''plugin id cannot be empty''"
| "show_runtime_manifest_error (MfIdTooLong l m) =
     lit ''plugin id is '' @ show_nat l @ lit '' bytes; maximum is '' @ show_nat m"
| "show_runtime_manifest_error (MfInvalidIdCharacter i c) =
     lit ''plugin id contains unsupported character '' @ quoted [c] @ lit '' at byte '' @ show_nat i"
| "show_runtime_manifest_error MfEmptyDisplayName = lit ''plugin display name cannot be empty''"
| "show_runtime_manifest_error (MfDisplayNameTooLong l m) =
     lit ''plugin display name is '' @ show_nat l @ lit '' bytes; maximum is '' @ show_nat m"
| "show_runtime_manifest_error MfInvalidDisplayNameCharacter =
     lit ''plugin display name contains a control character''"
| "show_runtime_manifest_error (MfInvalidDefaultPolicy r k e) =
     lit ''invalid default policy '' @ show_default_enablement e @ lit '' for '' @ show_plugin_role r @ lit ''/'' @
     show_plugin_risk k @ lit '' plugin''"

definition runtime_validate_id :: "rstring \<Rightarrow> (manifest_error, unit) res" where
  "runtime_validate_id i =
     (if i = [] then Inl MfEmptyId
      else if MAX_PLUGIN_ID_BYTES < str_len i then Inl (MfIdTooLong (str_len i) MAX_PLUGIN_ID_BYTES)
      else (case find (\<lambda>(k, c). \<not> is_ascii c \<or> is_control c \<or> is_whitespace c) (char_indices i) of
              Some (k, c) \<Rightarrow> Inl (MfInvalidIdCharacter k c)
            | None \<Rightarrow> Inr ()))"

definition valid_policy :: "plugin_role \<Rightarrow> plugin_risk \<Rightarrow> default_enablement \<Rightarrow> bool" where
  "valid_policy r k e \<longleftrightarrow>
     (if r = RoleOptional then e \<noteq> EnableAlways \<and> \<not> (k = RiskExternal \<and> e = EnableSafe) else e = EnableAlways)"

definition validate_runtime_manifest :: "runtime_manifest \<Rightarrow> (manifest_error, unit) res" where
  "validate_runtime_manifest m =
     res_bind (runtime_validate_id (rm_id m)) (\<lambda>_.
     if blank (rm_display_name m) then Inl MfEmptyDisplayName
     else if MAX_DISPLAY_NAME_BYTES < str_len (rm_display_name m)
     then Inl (MfDisplayNameTooLong (str_len (rm_display_name m)) MAX_DISPLAY_NAME_BYTES)
     else if list_ex is_control (rm_display_name m) then Inl MfInvalidDisplayNameCharacter
     else if \<not> valid_policy (rm_role m) (rm_risk m) (rm_default m)
     then Inl (MfInvalidDefaultPolicy (rm_role m) (rm_risk m) (rm_default m))
     else Inr ())"

section \<open>Errors and states\<close>

datatype runtime_state =
    RtDisabled | RtPending | RtMounting | RtMounted | RtFailed | RtUnmounting

fun show_runtime_state :: "runtime_state \<Rightarrow> rstring" where
  "show_runtime_state RtDisabled = lit ''disabled''"
| "show_runtime_state RtPending = lit ''pending''"
| "show_runtime_state RtMounting = lit ''mounting''"
| "show_runtime_state RtMounted = lit ''mounted''"
| "show_runtime_state RtFailed = lit ''failed''"
| "show_runtime_state RtUnmounting = lit ''unmounting''"

datatype failure_phase = PhaseFactory | PhaseIdentity | PhaseMount | PhaseUnmount

fun show_failure_phase :: "failure_phase \<Rightarrow> rstring" where
  "show_failure_phase PhaseFactory = lit ''factory''"
| "show_failure_phase PhaseIdentity = lit ''identity''"
| "show_failure_phase PhaseMount = lit ''mount''"
| "show_failure_phase PhaseUnmount = lit ''unmount''"

record failure_info =
  fi_phase :: failure_phase
  fi_message :: rstring
  fi_attempts :: u32

datatype runtime_error =
    ReRegistryTooLarge nat nat
  | ReDuplicateRegistration rstring
  | ReInvalidManifest rstring manifest_error
  | ReUnknownPlugin rstring
  | ReClosed rstring
  | ReCannotDisable rstring plugin_role
  | ReInvalidState rstring runtime_state rstring
  | ReFactoryPanicked rstring
  | ReIdentityPanicked rstring
  | ReIdentityMismatch rstring rstring
  | ReMountFailed rstring cordis_error
  | ReUnmountFailed rstring cordis_error
  | ReRootFailed cordis_error

fun show_runtime_error :: "runtime_error \<Rightarrow> rstring" where
  "show_runtime_error (ReRegistryTooLarge c m) =
     lit ''static plugin registry has '' @ show_nat c @ lit '' entries; maximum is '' @ show_nat m"
| "show_runtime_error (ReDuplicateRegistration i) = lit ''plugin '' @ quoted i @ lit '' is registered more than once''"
| "show_runtime_error (ReInvalidManifest i e) =
     lit ''manifest for '' @ quoted i @ lit '' is invalid: '' @ show_runtime_manifest_error e"
| "show_runtime_error (ReUnknownPlugin i) = lit ''plugin '' @ quoted i @ lit '' is not in the static registry''"
| "show_runtime_error (ReClosed op) = lit ''cannot '' @ op @ lit '': Cordis runtime is closed''"
| "show_runtime_error (ReCannotDisable i r) =
     lit ''cannot disable '' @ show_plugin_role r @ lit '' plugin '' @ quoted i @ lit '' while the runtime is running''"
| "show_runtime_error (ReInvalidState i s op) =
     lit ''plugin '' @ quoted i @ lit '' cannot '' @ op @ lit '' while it is '' @ show_runtime_state s"
| "show_runtime_error (ReFactoryPanicked i) = lit ''factory for plugin '' @ quoted i @ lit '' panicked''"
| "show_runtime_error (ReIdentityPanicked i) = lit ''identity lookup for plugin '' @ quoted i @ lit '' panicked''"
| "show_runtime_error (ReIdentityMismatch e a) =
     lit ''plugin factory identity mismatch: expected '' @ quoted e @ lit '', got '' @ quoted a"
| "show_runtime_error (ReMountFailed i e) =
     lit ''plugin '' @ quoted i @ lit '' failed to mount: '' @ show_cordis_error e"
| "show_runtime_error (ReUnmountFailed i e) =
     lit ''plugin '' @ quoted i @ lit '' failed to unmount: '' @ show_cordis_error e"
| "show_runtime_error (ReRootFailed e) = lit ''root context operation failed: '' @ show_cordis_error e"

text \<open>Cut at a character boundary below the limit, with dots in place of what is cut.\<close>

definition dotted :: "nat \<Rightarrow> rstring \<Rightarrow> rstring" where
  "dotted maximum s = (if str_len s \<le> maximum then s else truncate_bytes s (maximum - 3) @ lit ''...'')"

definition MAX_FAILURE_MESSAGE_BYTES :: nat where "MAX_FAILURE_MESSAGE_BYTES = 1024"
definition MAX_MOUNT_ATTEMPTS :: u32 where "MAX_MOUNT_ATTEMPTS = 255"

definition runtime_message :: "rstring \<Rightarrow> rstring" where
  "runtime_message s = dotted MAX_FAILURE_MESSAGE_BYTES s"

definition bounded_plugin_id :: "rstring \<Rightarrow> rstring" where
  "bounded_plugin_id s = dotted MAX_PLUGIN_ID_BYTES s"

section \<open>The registry\<close>

definition MAX_STATIC_PLUGINS :: nat where "MAX_STATIC_PLUGINS = 256"

record ('v, 'w) runtime_instance =
  ri_id :: "rstring option"
  ri_dependencies :: "service_dependency list option"
  ri_mount :: "nat \<Rightarrow> ('v, 'w) cordis \<Rightarrow> (cordis_error, unit) res option \<times> ('v, 'w) cordis"

record ('v, 'w) plugin_definition =
  df_manifest :: runtime_manifest
  df_create :: "'w \<Rightarrow> ('v, 'w) runtime_instance option \<times> 'w"

abbreviation df_id :: "('v, 'w) plugin_definition \<Rightarrow> rstring" where
  "df_id d \<equiv> rm_id (df_manifest d)"

abbreviation df_required :: "('v, 'w) plugin_definition \<Rightarrow> bool" where
  "df_required d \<equiv> role_required (rm_role (df_manifest d))"

definition runtime_validate_definition :: "('v, 'w) plugin_definition \<Rightarrow> (runtime_error, unit) res" where
  "runtime_validate_definition d = map_err (ReInvalidManifest (df_id d)) (validate_runtime_manifest (df_manifest d))"

fun index_definitions ::
  "rstring list \<Rightarrow> ('v, 'w) plugin_definition list \<Rightarrow> (runtime_error, unit) res" where
  "index_definitions seen [] = Inr ()"
| "index_definitions seen (d # ds) =
     res_bind (runtime_validate_definition d) (\<lambda>_.
     if df_id d \<in> set seen then Inl (ReDuplicateRegistration (df_id d))
     else index_definitions (df_id d # seen) ds)"

text \<open>The registry is the slice; its index maps each id to the one definition that has it.\<close>

definition registry_new :: "('v, 'w) plugin_definition list \<Rightarrow> (runtime_error, ('v, 'w) plugin_definition list) res" where
  "registry_new ds =
     (if MAX_STATIC_PLUGINS < length ds then Inl (ReRegistryTooLarge (length ds) MAX_STATIC_PLUGINS)
      else res_bind (index_definitions [] ds) (\<lambda>_. Inr ds))"

definition registry_get :: "rstring \<Rightarrow> ('v, 'w) plugin_definition list \<Rightarrow> ('v, 'w) plugin_definition option" where
  "registry_get i ds = find (\<lambda>d. df_id d = i) ds"

definition registry_require :: "rstring \<Rightarrow> ('v, 'w) plugin_definition list \<Rightarrow> (runtime_error, ('v, 'w) plugin_definition) res" where
  "registry_require i ds =
     (case registry_get i ds of Some d \<Rightarrow> Inr d | None \<Rightarrow> Inl (ReUnknownPlugin (bounded_plugin_id i)))"

section \<open>Records\<close>

record plugin_record =
  ps_enabled :: bool
  ps_lifecycle :: runtime_state
  ps_fiber :: "nat option"
  ps_fiber_state :: "fiber_state option"
  ps_failure :: "failure_info option"
  ps_attempts :: u32

definition record_new :: "runtime_manifest \<Rightarrow> plugin_record" where
  "record_new m = \<lparr>ps_enabled = default_enabled m,
     ps_lifecycle = (if default_enabled m then RtPending else RtDisabled),
     ps_fiber = None, ps_fiber_state = None, ps_failure = None, ps_attempts = 0\<rparr>"

record ('v, 'w) cordis_runtime =
  cr_registry :: "('v, 'w) plugin_definition list"
  cr_root :: nat
  cr_records :: "(rstring, plugin_record) btmap"
  cr_overrides :: "(rstring, bool) btmap"
  cr_started :: bool
  cr_closed :: bool
  cr_store :: "('v, 'w) cordis"

definition runtime_new :: "('v, 'w) plugin_definition list \<Rightarrow> ('v, 'w) cordis \<Rightarrow> ('v, 'w) cordis_runtime" where
  "runtime_new ds st = (case context_new st of (root, st') \<Rightarrow>
     \<lparr>cr_registry = ds, cr_root = root,
      cr_records = fold (\<lambda>d. bt_insert (df_id d) (record_new (df_manifest d))) ds [],
      cr_overrides = [], cr_started = False, cr_closed = False, cr_store = st'\<rparr>)"

definition ensure_open :: "rstring \<Rightarrow> ('v, 'w) cordis_runtime \<Rightarrow> (runtime_error, unit) res" where
  "ensure_open operation rt = ensure (\<not> cr_closed rt) (ReClosed operation)"

definition effective_enabled :: "runtime_manifest \<Rightarrow> ('v, 'w) cordis_runtime \<Rightarrow> bool" where
  "effective_enabled m rt =
     (if role_required (rm_role m) then True
      else (case bt_get (cr_overrides rt) (rm_id m) of Some b \<Rightarrow> b | None \<Rightarrow> default_enabled m))"

definition fiber_of :: "rstring \<Rightarrow> ('v, 'w) cordis_runtime \<Rightarrow> nat option" where
  "fiber_of i rt = (case bt_get (cr_records rt) i of Some p \<Rightarrow> ps_fiber p | None \<Rightarrow> None)"

definition has_fiber :: "rstring \<Rightarrow> ('v, 'w) cordis_runtime \<Rightarrow> bool" where
  "has_fiber i rt \<longleftrightarrow> fiber_of i rt \<noteq> None"

definition on_record :: "rstring \<Rightarrow> (plugin_record \<Rightarrow> plugin_record) \<Rightarrow> ('v, 'w) cordis_runtime \<Rightarrow> ('v, 'w) cordis_runtime" where
  "on_record i f rt = rt\<lparr>cr_records := bt_update i f (cr_records rt)\<rparr>"

definition record_deactivated :: "plugin_record \<Rightarrow> plugin_record" where
  "record_deactivated p = p\<lparr>ps_enabled := False, ps_lifecycle := RtDisabled,
     ps_failure := None, ps_attempts := 0,
     ps_fiber_state := (if ps_fiber p = None then None else ps_fiber_state p)\<rparr>"

definition deactivate_without_mount :: "rstring \<Rightarrow> ('v, 'w) cordis_runtime \<Rightarrow> ('v, 'w) cordis_runtime" where
  "deactivate_without_mount i = on_record i record_deactivated"

definition record_reset :: "plugin_record \<Rightarrow> plugin_record" where
  "record_reset p = p\<lparr>ps_failure := None, ps_attempts := 0, ps_fiber_state := None, ps_lifecycle := RtPending\<rparr>"

definition reset_for_manual_mount :: "rstring \<Rightarrow> ('v, 'w) cordis_runtime \<Rightarrow> ('v, 'w) cordis_runtime" where
  "reset_for_manual_mount i = on_record i record_reset"

definition record_deferred :: "plugin_record \<Rightarrow> plugin_record" where
  "record_deferred p = p\<lparr>ps_lifecycle := RtPending, ps_fiber_state := None, ps_failure := None, ps_attempts := 0\<rparr>"

definition defer_missing_dependency :: "rstring \<Rightarrow> ('v, 'w) cordis_runtime \<Rightarrow> ('v, 'w) cordis_runtime" where
  "defer_missing_dependency i = on_record i record_deferred"

fun failed_fiber_state :: "failure_phase \<Rightarrow> fiber_state option" where
  "failed_fiber_state PhaseFactory = None"
| "failed_fiber_state PhaseIdentity = None"
| "failed_fiber_state PhaseMount = Some FiberFailed"
| "failed_fiber_state PhaseUnmount = Some FiberUnmounted"

definition record_failed :: "failure_phase \<Rightarrow> rstring \<Rightarrow> plugin_record \<Rightarrow> plugin_record" where
  "record_failed phase message p = p\<lparr>ps_lifecycle := RtFailed, ps_fiber_state := failed_fiber_state phase,
     ps_failure := Some \<lparr>fi_phase = phase, fi_message = runtime_message message, fi_attempts = max (ps_attempts p) 1\<rparr>\<rparr>"

definition record_failure ::
  "rstring \<Rightarrow> failure_phase \<Rightarrow> rstring \<Rightarrow> ('v, 'w) cordis_runtime \<Rightarrow> ('v, 'w) cordis_runtime" where
  "record_failure i phase message = on_record i (record_failed phase message)"

section \<open>Mounting and unmounting one plugin\<close>

definition record_mounting :: "plugin_record \<Rightarrow> plugin_record" where
  "record_mounting p = p\<lparr>ps_enabled := True, ps_lifecycle := RtMounting, ps_fiber_state := Some FiberMounting,
     ps_failure := None, ps_attempts := min (sat_inc (ps_attempts p)) MAX_MOUNT_ATTEMPTS\<rparr>"

definition record_mounted :: "nat \<Rightarrow> plugin_record \<Rightarrow> plugin_record" where
  "record_mounted f p = p\<lparr>ps_lifecycle := RtMounted, ps_fiber_state := Some FiberMounted, ps_failure := None,
     ps_attempts := 0, ps_fiber := Some f\<rparr>"

text \<open>A failure is recorded under the plugin's id and returned.\<close>

definition fail_plugin :: "rstring \<Rightarrow> failure_phase \<Rightarrow> runtime_error \<Rightarrow> (('v, 'w) cordis_runtime, runtime_error, 'a) act" where
  "fail_plugin i phase e rt = (Inl e, record_failure i phase (show_runtime_error e) rt)"

definition registered_plugin :: "rstring \<Rightarrow> ('v, 'w) runtime_instance \<Rightarrow> ('v, 'w) cordis_plugin" where
  "registered_plugin i p = \<lparr>pg_id = i, pg_dependencies = ri_dependencies p, pg_mount = ri_mount p\<rparr>"

definition mount_plugin ::
  "'w disposer \<Rightarrow> ('v, 'w) plugin_definition \<Rightarrow> (('v, 'w) cordis_runtime, runtime_error, nat) act" where
  "mount_plugin dis d rt0 =
     (let i = df_id d in
      if has_fiber i rt0
      then (Inl (ReInvalidState i (case bt_get (cr_records rt0) i of Some p \<Rightarrow> ps_lifecycle p | None \<Rightarrow> RtDisabled)
              (lit ''mount'')), rt0)
      else (case df_create d (cd_world (cr_store rt0)) of (made, w) \<Rightarrow>
        let rt = on_record i record_mounting (rt0\<lparr>cr_store := (cr_store rt0)\<lparr>cd_world := w\<rparr>\<rparr>) in
        case made of
          None \<Rightarrow> fail_plugin i PhaseFactory (ReFactoryPanicked i) rt
        | Some p \<Rightarrow>
            (case ri_id p of
               None \<Rightarrow> fail_plugin i PhaseIdentity (ReIdentityPanicked i) rt
             | Some a \<Rightarrow>
                 if a \<noteq> i then fail_plugin i PhaseIdentity (ReIdentityMismatch i (runtime_message a)) rt
                 else (case mount dis (cr_root rt) (registered_plugin i p) (cr_store rt) of
                     (Inr f, st) \<Rightarrow> (Inr f, on_record i (record_mounted f) (rt\<lparr>cr_store := st\<rparr>))
                   | (Inl e, st) \<Rightarrow> fail_plugin i PhaseMount (ReMountFailed i e) (rt\<lparr>cr_store := st\<rparr>)))))"

definition record_disabled :: "plugin_record \<Rightarrow> plugin_record" where
  "record_disabled p = p\<lparr>ps_enabled := False, ps_lifecycle := RtDisabled, ps_failure := None, ps_attempts := 0,
     ps_fiber_state := None\<rparr>"

definition record_unmounted :: "failure_info option \<Rightarrow> plugin_record \<Rightarrow> plugin_record" where
  "record_unmounted failure p = p\<lparr>ps_fiber := None, ps_enabled := False, ps_lifecycle := RtDisabled,
     ps_fiber_state := Some FiberUnmounted, ps_attempts := 0, ps_failure := failure\<rparr>"

text \<open>The handle that was taken out of the record is dropped last.\<close>

definition unmount_plugin ::
  "'w disposer \<Rightarrow> ('v, 'w) plugin_definition \<Rightarrow> bool \<Rightarrow> (('v, 'w) cordis_runtime, runtime_error, unit) act" where
  "unmount_plugin dis d allow_required rt =
     (let i = df_id d in
      if \<not> allow_required \<and> df_required d then (Inl (ReCannotDisable i (rm_role (df_manifest d))), rt)
      else (case fiber_of i rt of
          None \<Rightarrow> (Inr (), on_record i record_disabled rt)
        | Some f \<Rightarrow>
            (case unmount dis f (cr_store rt) of (r, st) \<Rightarrow>
              let result = map_err (ReUnmountFailed i) r;
                  failure = (case result of Inr _ \<Rightarrow> None
                    | Inl e \<Rightarrow> Some \<lparr>fi_phase = PhaseUnmount, fi_message = runtime_message (show_runtime_error e), fi_attempts = 1\<rparr>)
              in (result, on_record i (record_unmounted failure) (rt\<lparr>cr_store := drop_fiber dis f st\<rparr>)))))"

section \<open>Starting\<close>

record startup_failure =
  sf_plugin :: rstring
  sf_required :: bool
  sf_failure :: failure_info

record startup_report =
  sr_activated :: "rstring list"
  sr_skipped :: "rstring list"
  sr_failures :: "startup_failure list"

definition report_failure ::
  "failure_phase \<Rightarrow> ('v, 'w) plugin_definition \<Rightarrow> runtime_error \<Rightarrow> ('v, 'w) cordis_runtime \<Rightarrow> startup_failure" where
  "report_failure phase d e rt = \<lparr>sf_plugin = df_id d, sf_required = df_required d,
     sf_failure = (case Option.bind (bt_get (cr_records rt) (df_id d)) ps_failure of
         Some f \<Rightarrow> f
       | None \<Rightarrow> \<lparr>fi_phase = phase, fi_message = runtime_message (show_runtime_error e), fi_attempts = 1\<rparr>)\<rparr>"

text \<open>The first loop settles what is not to be mounted and leaves the rest pending.\<close>

fun start_scan ::
  "'w disposer \<Rightarrow> ('v, 'w) plugin_definition list \<Rightarrow> startup_report \<Rightarrow> ('v, 'w) cordis_runtime \<Rightarrow>
   ('v, 'w) plugin_definition list \<times> startup_report \<times> ('v, 'w) cordis_runtime" where
  "start_scan dis [] report rt = ([], report, rt)"
| "start_scan dis (d # ds) report rt =
     (if \<not> effective_enabled (df_manifest d) rt then
        (case (if has_fiber (df_id d) rt then unmount_plugin dis d False rt else (Inr (), rt)) of
           (Inl e, rt') \<Rightarrow> start_scan dis ds
             (report\<lparr>sr_failures := sr_failures report @ [report_failure PhaseUnmount d e rt']\<rparr>) rt'
         | (Inr _, rt') \<Rightarrow> start_scan dis ds (report\<lparr>sr_skipped := sr_skipped report @ [df_id d]\<rparr>)
             (deactivate_without_mount (df_id d) rt'))
      else if has_fiber (df_id d) rt
      then start_scan dis ds (report\<lparr>sr_activated := sr_activated report @ [df_id d]\<rparr>) rt
      else (case start_scan dis ds report rt of (pending, rest) \<Rightarrow> (d # pending, rest)))"

text \<open>\<open>sp_errors\<close> are the deferred errors, \<open>sp_required\<close> the first error of a required plugin.\<close>

record ('v, 'w) startup =
  sp_report :: startup_report
  sp_required :: "runtime_error option"
  sp_errors :: "(rstring, runtime_error) btmap"
  sp_waiting :: "('v, 'w) plugin_definition list"
  sp_mounted :: bool

fun is_missing_dependency :: "runtime_error \<Rightarrow> bool" where
  "is_missing_dependency (ReMountFailed i (MissingDependency p s)) = True"
| "is_missing_dependency e = False"

definition start_activated :: "('v, 'w) plugin_definition \<Rightarrow> ('v, 'w) startup \<Rightarrow> ('v, 'w) startup" where
  "start_activated d sp = sp\<lparr>sp_mounted := True, sp_errors := bt_remove (df_id d) (sp_errors sp),
     sp_report := (sp_report sp)\<lparr>sr_activated := sr_activated (sp_report sp) @ [df_id d]\<rparr>\<rparr>"

definition start_deferred :: "('v, 'w) plugin_definition \<Rightarrow> runtime_error \<Rightarrow> ('v, 'w) startup \<Rightarrow> ('v, 'w) startup" where
  "start_deferred d e sp = sp\<lparr>sp_errors := bt_insert (df_id d) e (sp_errors sp), sp_waiting := sp_waiting sp @ [d]\<rparr>"

definition start_failed ::
  "('v, 'w) plugin_definition \<Rightarrow> runtime_error \<Rightarrow> ('v, 'w) cordis_runtime \<Rightarrow> ('v, 'w) startup \<Rightarrow> ('v, 'w) startup" where
  "start_failed d e rt sp = sp\<lparr>
     sp_required := (if df_required d \<and> sp_required sp = None then Some e else sp_required sp),
     sp_report := (sp_report sp)\<lparr>sr_failures := sr_failures (sp_report sp) @ [report_failure PhaseMount d e rt]\<rparr>\<rparr>"

fun start_pass ::
  "'w disposer \<Rightarrow> ('v, 'w) plugin_definition list \<Rightarrow> ('v, 'w) startup \<Rightarrow> ('v, 'w) cordis_runtime \<Rightarrow>
   ('v, 'w) startup \<times> ('v, 'w) cordis_runtime" where
  "start_pass dis [] sp rt = (sp, rt)"
| "start_pass dis (d # ds) sp rt =
     (case mount_plugin dis d rt of
        (Inr _, rt') \<Rightarrow> start_pass dis ds (start_activated d sp) rt'
      | (Inl e, rt') \<Rightarrow>
          if is_missing_dependency e
          then start_pass dis ds (start_deferred d e sp) (defer_missing_dependency (df_id d) rt')
          else start_pass dis ds (start_failed d e rt' sp) rt')"

text \<open>When a pass mounted nothing, what still waits fails with the error it was deferred for.\<close>

fun fail_waiting ::
  "('v, 'w) plugin_definition list \<Rightarrow> ('v, 'w) startup \<Rightarrow> ('v, 'w) cordis_runtime \<Rightarrow> ('v, 'w) startup \<times> ('v, 'w) cordis_runtime" where
  "fail_waiting [] sp rt = (sp, rt)"
| "fail_waiting (d # ds) sp rt =
     (case bt_get (sp_errors sp) (df_id d) of
        None \<Rightarrow> (sp, rt)
      | Some e \<Rightarrow>
          (let rt' = record_failure (df_id d) PhaseMount (show_runtime_error e) rt
           in fail_waiting ds (start_failed d e rt' (sp\<lparr>sp_errors := bt_remove (df_id d) (sp_errors sp)\<rparr>)) rt'))"

lemma start_simps [simp]:
  "sp_waiting (start_activated d sp) = sp_waiting sp" "sp_mounted (start_activated d sp)"
  "sp_waiting (start_deferred d e sp) = sp_waiting sp @ [d]" "sp_mounted (start_deferred d e sp) = sp_mounted sp"
  "sp_waiting (start_failed d e rt sp) = sp_waiting sp" "sp_mounted (start_failed d e rt sp) = sp_mounted sp"
  by (simp_all add: start_activated_def start_deferred_def start_failed_def)

lemma start_pass_progress:
  assumes "start_pass dis ds sp rt = (sp', rt')"
  shows "length (sp_waiting sp') \<le> length (sp_waiting sp) + length ds \<and>
    (sp_mounted sp' \<and> \<not> sp_mounted sp \<longrightarrow> length (sp_waiting sp') < length (sp_waiting sp) + length ds)"
  using assms by (induction dis ds sp rt rule: start_pass.induct) (fastforce split: prod.splits sum.splits if_splits)+

text \<open>A pass that mounted something leaves fewer plugins waiting, so the passes end.\<close>

function start_passes ::
  "'w disposer \<Rightarrow> ('v, 'w) plugin_definition list \<Rightarrow> ('v, 'w) startup \<Rightarrow> ('v, 'w) cordis_runtime \<Rightarrow>
   ('v, 'w) startup \<times> ('v, 'w) cordis_runtime" where
  "start_passes dis pending sp rt =
     (if pending = [] then (sp, rt)
      else (case start_pass dis pending (sp\<lparr>sp_waiting := [], sp_mounted := False\<rparr>) rt of (sp', rt') \<Rightarrow>
        if sp_waiting sp' = [] then (sp', rt')
        else if sp_mounted sp' then start_passes dis (sp_waiting sp') sp' rt'
        else fail_waiting (sp_waiting sp') sp' rt'))"
  by pat_completeness auto

termination
  by (relation "measure (\<lambda>(dis, pending, sp, rt). length pending)")
     (auto dest!: start_pass_progress [OF sym])

declare start_passes.simps [simp del]

definition runtime_start :: "'w disposer \<Rightarrow> (('v, 'w) cordis_runtime, runtime_error, startup_report) act" where
  "runtime_start dis rt =
     (case ensure_open (lit ''start'') rt of
        Inl e \<Rightarrow> (Inl e, rt)
      | Inr _ \<Rightarrow>
          (case start_scan dis (cr_registry rt) \<lparr>sr_activated = [], sr_skipped = [], sr_failures = []\<rparr>
                  (rt\<lparr>cr_started := True\<rparr>) of (pending, report, rt1) \<Rightarrow>
           case start_passes dis pending
                  \<lparr>sp_report = report, sp_required = None, sp_errors = [], sp_waiting = [], sp_mounted = False\<rparr> rt1 of
             (sp, rt2) \<Rightarrow> (case sp_required sp of Some e \<Rightarrow> Inl e | None \<Rightarrow> Inr (sp_report sp), rt2)))"

definition runtime_from_static ::
  "'w disposer \<Rightarrow> ('v, 'w) plugin_definition list \<Rightarrow> ('v, 'w) cordis \<Rightarrow> (runtime_error, ('v, 'w) cordis_runtime) res" where
  "runtime_from_static dis ds st =
     res_bind (registry_new ds) (\<lambda>ds.
     case runtime_start dis (runtime_new ds st) of (r, rt) \<Rightarrow> res_bind r (\<lambda>_. Inr rt))"

section \<open>Operations by id\<close>

definition runtime_mount :: "'w disposer \<Rightarrow> rstring \<Rightarrow> (('v, 'w) cordis_runtime, runtime_error, nat) act" where
  "runtime_mount dis i rt =
     (case res_bind (ensure_open (lit ''mount'') rt) (\<lambda>_. registry_require i (cr_registry rt)) of
        Inl e \<Rightarrow> (Inl e, rt)
      | Inr d \<Rightarrow>
          (let rt1 = (if df_required d then rt else rt\<lparr>cr_overrides := bt_insert i True (cr_overrides rt)\<rparr>);
               rt2 = (if has_fiber i rt1 then rt1 else reset_for_manual_mount i rt1)
           in mount_plugin dis d rt2))"

text \<open>Before the runtime has started, switching a plugin only prepares its record.\<close>

definition record_prepared :: "plugin_record \<Rightarrow> plugin_record" where
  "record_prepared p = (if ps_fiber p \<noteq> None
     then p\<lparr>ps_enabled := True, ps_failure := None, ps_attempts := 0, ps_lifecycle := RtMounted\<rparr>
     else p\<lparr>ps_enabled := True, ps_failure := None, ps_attempts := 0, ps_fiber_state := None, ps_lifecycle := RtPending\<rparr>)"

definition prepare_enabled :: "rstring \<Rightarrow> ('v, 'w) cordis_runtime \<Rightarrow> ('v, 'w) cordis_runtime" where
  "prepare_enabled i = on_record i record_prepared"

definition switch_before_start ::
  "'w disposer \<Rightarrow> ('v, 'w) plugin_definition \<Rightarrow> bool \<Rightarrow> (('v, 'w) cordis_runtime, runtime_error, unit) act" where
  "switch_before_start dis d enabled rt =
     (if enabled then (Inr (), prepare_enabled (df_id d) rt)
      else if has_fiber (df_id d) rt then unmount_plugin dis d False rt
      else (Inr (), deactivate_without_mount (df_id d) rt))"

definition drop_ok :: "('s, 'e, 'a) act \<Rightarrow> ('s, 'e, unit) act" where
  "drop_ok m s = (case m s of (r, s') \<Rightarrow> (res_bind r (\<lambda>_. Inr ()), s'))"

definition runtime_set_enabled :: "'w disposer \<Rightarrow> rstring \<Rightarrow> bool \<Rightarrow> (('v, 'w) cordis_runtime, runtime_error, unit) act" where
  "runtime_set_enabled dis i enabled rt0 =
     (case res_bind (ensure_open (lit ''change plugin state'') rt0) (\<lambda>_. registry_require i (cr_registry rt0)) of
        Inl e \<Rightarrow> (Inl e, rt0)
      | Inr d \<Rightarrow>
          if \<not> enabled \<and> df_required d then (Inl (ReCannotDisable i (rm_role (df_manifest d))), rt0)
          else (let rt = rt0\<lparr>cr_overrides := bt_insert i enabled (cr_overrides rt0)\<rparr> in
            if \<not> cr_started rt then switch_before_start dis d enabled rt
            else if enabled then
              (if has_fiber i rt then (Inr (), rt) else drop_ok (mount_plugin dis d) (reset_for_manual_mount i rt))
            else unmount_plugin dis d False rt))"

definition runtime_disable :: "'w disposer \<Rightarrow> rstring \<Rightarrow> (('v, 'w) cordis_runtime, runtime_error, unit) act" where
  "runtime_disable dis i = runtime_set_enabled dis i False"

definition runtime_enable :: "'w disposer \<Rightarrow> rstring \<Rightarrow> (('v, 'w) cordis_runtime, runtime_error, unit) act" where
  "runtime_enable dis i = runtime_set_enabled dis i True"

definition runtime_unmount :: "'w disposer \<Rightarrow> rstring \<Rightarrow> (('v, 'w) cordis_runtime, runtime_error, unit) act" where
  "runtime_unmount dis i = runtime_disable dis i"

definition runtime_clear_override :: "'w disposer \<Rightarrow> rstring \<Rightarrow> (('v, 'w) cordis_runtime, runtime_error, unit) act" where
  "runtime_clear_override dis i rt0 =
     (case res_bind (ensure_open (lit ''clear plugin override'') rt0) (\<lambda>_. registry_require i (cr_registry rt0)) of
        Inl e \<Rightarrow> (Inl e, rt0)
      | Inr d \<Rightarrow>
          (let rt = rt0\<lparr>cr_overrides := bt_remove i (cr_overrides rt0)\<rparr>;
               desired = default_enabled (df_manifest d) in
           if df_required d then (Inr (), rt)
           else if \<not> cr_started rt then switch_before_start dis d desired rt
           else if desired then (if has_fiber i rt then (Inr (), rt) else drop_ok (mount_plugin dis d) rt)
           else unmount_plugin dis d False rt))"

section \<open>Shutdown\<close>

definition keep_first :: "'e option \<Rightarrow> ('e, unit) res \<Rightarrow> 'e option" where
  "keep_first first r = (case r of Inl e \<Rightarrow> (if first = None then Some e else first) | Inr _ \<Rightarrow> first)"

fun shutdown_plugins ::
  "'w disposer \<Rightarrow> ('v, 'w) plugin_definition list \<Rightarrow> runtime_error option \<Rightarrow> ('v, 'w) cordis_runtime \<Rightarrow>
   runtime_error option \<times> ('v, 'w) cordis_runtime" where
  "shutdown_plugins dis [] first rt = (first, rt)"
| "shutdown_plugins dis (d # ds) first rt =
     (if has_fiber (df_id d) rt
      then (case unmount_plugin dis d True rt of (r, rt') \<Rightarrow> shutdown_plugins dis ds (keep_first first r) rt')
      else shutdown_plugins dis ds first (deactivate_without_mount (df_id d) rt))"

definition runtime_shutdown :: "'w disposer \<Rightarrow> (('v, 'w) cordis_runtime, runtime_error, unit) act" where
  "runtime_shutdown dis rt0 =
     (if cr_closed rt0 then (Inr (), rt0)
      else (case shutdown_plugins dis (rev (cr_registry rt0)) None rt0 of (first, rt) \<Rightarrow>
        case dispose dis (cr_root rt) (cr_store rt) of (r, st) \<Rightarrow>
          (case keep_first first (map_err ReRootFailed r) of Some e \<Rightarrow> Inl e | None \<Rightarrow> Inr (),
           rt\<lparr>cr_store := st, cr_started := False, cr_closed := True\<rparr>)))"

section \<open>Snapshots\<close>

record plugin_snapshot =
  pn_manifest :: runtime_manifest
  pn_default_enabled :: bool
  pn_override :: "bool option"
  pn_enabled :: bool
  pn_state :: runtime_state
  pn_fiber :: "fiber_snapshot option"
  pn_fiber_state :: "fiber_state option"
  pn_failure :: "failure_info option"

definition handle_snapshot :: "('v, 'w) cordis \<Rightarrow> nat option \<Rightarrow> fiber_snapshot option" where
  "handle_snapshot st h =
     (case h of None \<Rightarrow> None | Some f \<Rightarrow> map_option (fiber_snapshot_of f) (bt_get (cd_fibers st) f))"

definition record_snapshot ::
  "('v, 'w) cordis \<Rightarrow> runtime_manifest \<Rightarrow> bool option \<Rightarrow> plugin_record \<Rightarrow> plugin_snapshot" where
  "record_snapshot st m override p =
     (let fiber = handle_snapshot st (ps_fiber p) in
      \<lparr>pn_manifest = m, pn_default_enabled = default_enabled m, pn_override = override, pn_enabled = ps_enabled p,
       pn_state = ps_lifecycle p, pn_fiber = fiber,
       pn_fiber_state = (case fiber of Some s \<Rightarrow> Some (fs_state s) | None \<Rightarrow> ps_fiber_state p),
       pn_failure = ps_failure p\<rparr>)"

definition definition_snapshot :: "('v, 'w) cordis_runtime \<Rightarrow> ('v, 'w) plugin_definition \<Rightarrow> plugin_snapshot option" where
  "definition_snapshot rt d = map_option (record_snapshot (cr_store rt) (df_manifest d) (bt_get (cr_overrides rt) (df_id d)))
     (bt_get (cr_records rt) (df_id d))"

definition runtime_plugin :: "rstring \<Rightarrow> ('v, 'w) cordis_runtime \<Rightarrow> (runtime_error, plugin_snapshot option) res" where
  "runtime_plugin i rt = res_bind (registry_require i (cr_registry rt)) (\<lambda>d. Inr (definition_snapshot rt d))"

definition runtime_fiber :: "rstring \<Rightarrow> ('v, 'w) cordis_runtime \<Rightarrow> (runtime_error, fiber_snapshot option) res" where
  "runtime_fiber i rt = res_bind (registry_require i (cr_registry rt)) (\<lambda>_.
     Inr (handle_snapshot (cr_store rt) (fiber_of i rt)))"

definition runtime_fiber_by_id :: "nat \<Rightarrow> ('v, 'w) cordis_runtime \<Rightarrow> fiber_snapshot option" where
  "runtime_fiber_by_id f rt =
     handle_snapshot (cr_store rt) (if Some f \<in> ps_fiber ` set (bt_values (cr_records rt)) then Some f else None)"

record runtime_snapshot =
  rs_root :: nat
  rs_root_state :: scope_state
  rs_started :: bool
  rs_closed :: bool
  rs_plugins :: "plugin_snapshot list"

definition runtime_snapshot_of :: "('v, 'w) cordis_runtime \<Rightarrow> runtime_snapshot" where
  "runtime_snapshot_of rt =
     \<lparr>rs_root = cr_root rt,
      rs_root_state = (case bt_get (cd_scopes (cr_store rt)) (cr_root rt) of Some sc \<Rightarrow> sc_state sc | None \<Rightarrow> ScopeDisposed),
      rs_started = cr_started rt, rs_closed = cr_closed rt,
      rs_plugins = List.map_filter (definition_snapshot rt) (cr_registry rt)\<rparr>"

end
