(* ===== verification/Cordis_Scope_Props.thy ===== *)
theory Cordis_Scope_Props
  imports Cordis_Scope
begin

text \<open>
  The store invariant of the scopes and what disposal does to the store: \<open>calm\<close> relates two stores when
  only scopes and fibers at or above a bound were wound down. Both are proved through \<open>dispose_scope\<close> by
  induction on its depth, for any set of effects that are taken but not yet run.
\<close>

named_theorems cordis_simps

section \<open>Reading the store\<close>

abbreviation scope_at :: "('v, 'w) cordis \<Rightarrow> nat \<Rightarrow> 'v scope option" where
  "scope_at st c \<equiv> bt_get (cd_scopes st) c"

abbreviation fiber_at :: "('v, 'w) cordis \<Rightarrow> nat \<Rightarrow> fiber_record option" where
  "fiber_at st f \<equiv> bt_get (cd_fibers st) f"

definition effect_at :: "('v, 'w) cordis \<Rightarrow> nat \<Rightarrow> nat \<Rightarrow> effect_record option" where
  "effect_at st c i = bt_get (effects_of c st) i"

definition active :: "('v, 'w) cordis \<Rightarrow> nat \<Rightarrow> nat \<Rightarrow> bool" where
  "active st c i \<longleftrightarrow> (\<exists>r. effect_at st c i = Some r \<and> er_state r = EffectActive)"

lemma on_scope_simps [cordis_simps]:
  "scope_at (on_scope c g st) d = (if d = c then map_option g (scope_at st c) else scope_at st d)"
  "cd_fibers (on_scope c g st) = cd_fibers st" "cd_buses (on_scope c g st) = cd_buses st"
  "cd_next_scope (on_scope c g st) = cd_next_scope st" "cd_next_effect (on_scope c g st) = cd_next_effect st"
  "cd_next_fiber (on_scope c g st) = cd_next_fiber st" "cd_trace (on_scope c g st) = cd_trace st"
  "cd_held (on_scope c g st) = cd_held st"
  by (simp_all add: on_scope_def)

lemma set_fiber_simps [cordis_simps]:
  "cd_scopes (set_fiber f s st) = cd_scopes st" "cd_buses (set_fiber f s st) = cd_buses st"
  "cd_next_scope (set_fiber f s st) = cd_next_scope st" "cd_next_effect (set_fiber f s st) = cd_next_effect st"
  "cd_next_fiber (set_fiber f s st) = cd_next_fiber st" "cd_trace (set_fiber f s st) = cd_trace st"
  "cd_held (set_fiber f s st) = cd_held st"
  "fiber_at (set_fiber f s st) g =
     (if g = f then map_option (\<lambda>r. r\<lparr>fb_state := s\<rparr>) (fiber_at st f) else fiber_at st g)"
  by (simp_all add: set_fiber_def)

lemma effect_run_simps [cordis_simps]:
  "cd_scopes (snd (effect_run dis i ef st)) = cd_scopes st" "cd_fibers (snd (effect_run dis i ef st)) = cd_fibers st"
  "cd_next_scope (snd (effect_run dis i ef st)) = cd_next_scope st"
  "cd_next_effect (snd (effect_run dis i ef st)) = cd_next_effect st"
  "cd_next_fiber (snd (effect_run dis i ef st)) = cd_next_fiber st"
  "cd_trace (snd (effect_run dis i ef st)) = cd_trace st @ [i]"
  "cd_held (snd (effect_run dis i ef st)) = cd_held st"
  by (cases ef; auto simp: effect_run_def Let_def split: option.split prod.split)+

lemma effect_drop_simps [cordis_simps]:
  "cd_scopes (effect_drop ef st) = cd_scopes st" "cd_fibers (effect_drop ef st) = cd_fibers st"
  "cd_next_scope (effect_drop ef st) = cd_next_scope st" "cd_next_effect (effect_drop ef st) = cd_next_effect st"
  "cd_next_fiber (effect_drop ef st) = cd_next_fiber st" "cd_trace (effect_drop ef st) = cd_trace st"
  "cd_held (effect_drop ef st) = cd_held st"
  by (cases ef; simp add: effect_drop_def)+

section \<open>The invariant\<close>

definition fiber_ok :: "('v, 'w) cordis \<Rightarrow> nat \<Rightarrow> fiber_record \<Rightarrow> bool" where
  "fiber_ok st f r \<longleftrightarrow> f < cd_next_fiber st \<and> fb_parent r < fb_scope r \<and> fb_scope r < cd_next_scope st"

definition scope_ok :: "('v, 'w) cordis \<Rightarrow> nat \<Rightarrow> 'v scope \<Rightarrow> bool" where
  "scope_ok st c sc \<longleftrightarrow> c < cd_next_scope st \<and> bt_wf (sc_effects sc) \<and> bs_wf (sc_fibers sc) \<and>
     (\<forall>p. sc_parent sc = Some p \<longrightarrow> p < c \<and> scope_at st p \<noteq> None) \<and>
     (\<forall>f \<in> set (sc_fibers sc). \<exists>r. fiber_at st f = Some r \<and> fb_parent r = c) \<and>
     (sc_state sc = ScopeDisposed \<longrightarrow>
        sc_services sc = [] \<and> sc_fibers sc = [] \<and> (\<forall>i. \<not> active st c i))"

text \<open>\<open>P\<close> holds the effects that are taken and about to be run.\<close>

definition effect_ok :: "nat list \<Rightarrow> ('v, 'w) cordis \<Rightarrow> nat \<Rightarrow> effect_record \<Rightarrow> bool" where
  "effect_ok P st i r \<longleftrightarrow> i < cd_next_effect st \<and> (er_effect r \<noteq> None) = (er_state r = EffectActive) \<and>
     (er_state r = EffectActive) = (i \<notin> set (cd_trace st @ P))"

text \<open>An effect that its caller still holds has not been run and lies in no scope.\<close>

definition held_ok :: "nat list \<Rightarrow> ('v, 'w) cordis \<Rightarrow> nat \<Rightarrow> bool" where
  "held_ok P st i \<longleftrightarrow> i < cd_next_effect st \<and> i \<notin> set (cd_trace st @ P) \<and> (\<forall>c. effect_at st c i = None)"

definition store_inv :: "nat list \<Rightarrow> ('v, 'w) cordis \<Rightarrow> bool" where
  "store_inv P st \<longleftrightarrow>
     (\<forall>c sc. scope_at st c = Some sc \<longrightarrow> scope_ok st c sc) \<and>
     (\<forall>f r. fiber_at st f = Some r \<longrightarrow> fiber_ok st f r) \<and>
     (\<forall>c i r. effect_at st c i = Some r \<longrightarrow> effect_ok P st i r) \<and>
     (\<forall>c d i. effect_at st c i \<noteq> None \<and> effect_at st d i \<noteq> None \<longrightarrow> c = d) \<and>
     distinct (cd_trace st @ P) \<and> (\<forall>i \<in> set (cd_trace st @ P). i < cd_next_effect st) \<and>
     (\<forall>i ef. bt_get (cd_held st) i = Some ef \<longrightarrow> held_ok P st i)"

definition settled :: "('v, 'w) cordis \<Rightarrow> bool" where
  "settled st \<longleftrightarrow> (\<forall>c sc. scope_at st c = Some sc \<longrightarrow> sc_state sc \<noteq> ScopeDisposing)"

definition cordis_inv :: "('v, 'w) cordis \<Rightarrow> bool" where
  "cordis_inv st \<longleftrightarrow> store_inv [] st \<and> settled st"

lemma store_invD:
  assumes "store_inv P st"
  shows "scope_at st c = Some sc \<Longrightarrow> scope_ok st c sc" "fiber_at st f = Some r \<Longrightarrow> fiber_ok st f r"
    "effect_at st c i = Some e \<Longrightarrow> effect_ok P st i e"
    "effect_at st c i \<noteq> None \<Longrightarrow> effect_at st d i \<noteq> None \<Longrightarrow> c = d"
    "distinct (cd_trace st @ P)" "i \<in> set (cd_trace st @ P) \<Longrightarrow> i < cd_next_effect st"
    "bt_get (cd_held st) i = Some ef \<Longrightarrow> held_ok P st i"
  using assms unfolding store_inv_def by blast+

lemma store_invI:
  assumes "\<And>c sc. scope_at st c = Some sc \<Longrightarrow> scope_ok st c sc" "\<And>f r. fiber_at st f = Some r \<Longrightarrow> fiber_ok st f r"
    "\<And>c i e. effect_at st c i = Some e \<Longrightarrow> effect_ok P st i e"
    "\<And>c d i. effect_at st c i \<noteq> None \<Longrightarrow> effect_at st d i \<noteq> None \<Longrightarrow> c = d"
    "distinct (cd_trace st @ P)" "\<And>i. i \<in> set (cd_trace st @ P) \<Longrightarrow> i < cd_next_effect st"
    "\<And>i ef. bt_get (cd_held st) i = Some ef \<Longrightarrow> held_ok P st i"
  shows "store_inv P st"
  using assms unfolding store_inv_def by blast

section \<open>Winding down\<close>

definition fiber_core :: "fiber_record \<Rightarrow> rstring \<times> nat \<times> nat \<times> bool" where
  "fiber_core r = (fb_plugin r, fb_scope r, fb_parent r, fb_live r)"

definition calm_scope :: "'v scope \<Rightarrow> 'v scope \<Rightarrow> bool" where
  "calm_scope sc sc' \<longleftrightarrow> sc_parent sc' = sc_parent sc \<and> sc_bus sc' = sc_bus sc \<and>
     set (sc_fibers sc') \<subseteq> set (sc_fibers sc) \<and> map fst (sc_effects sc') = map fst (sc_effects sc) \<and>
     (\<forall>i r. bt_get (sc_effects sc') i = Some r \<and> er_state r = EffectActive \<longrightarrow> bt_get (sc_effects sc) i = Some r) \<and>
     (sc_state sc' = sc_state sc \<or> sc_state sc = ScopeActive \<and> sc_state sc' = ScopeDisposed)"

text \<open>Scopes below \<open>s\<close> and fibers of parents below \<open>p\<close> are untouched, the others at most wound down.\<close>

definition calm :: "nat \<Rightarrow> nat \<Rightarrow> ('v, 'w) cordis \<Rightarrow> ('v, 'w) cordis \<Rightarrow> bool" where
  "calm s p st st' \<longleftrightarrow> cd_next_scope st' = cd_next_scope st \<and> cd_next_effect st' = cd_next_effect st \<and>
     cd_next_fiber st' = cd_next_fiber st \<and>
     (\<forall>d. rel_option calm_scope (scope_at st d) (scope_at st' d)) \<and>
     (\<forall>d < s. scope_at st' d = scope_at st d) \<and>
     (\<forall>f. map_option fiber_core (fiber_at st' f) = map_option fiber_core (fiber_at st f)) \<and>
     (\<forall>f r. fiber_at st f = Some r \<and> fb_parent r < p \<longrightarrow> fiber_at st' f = Some r) \<and>
     (\<exists>xs. cd_trace st' = cd_trace st @ xs \<and> (\<forall>i \<in> set xs. \<exists>d \<ge> s. active st d i))"

lemma calm_scope_refl [simp]: "calm_scope sc sc"
  by (simp add: calm_scope_def)

lemma calm_scope_trans: "calm_scope a b \<Longrightarrow> calm_scope b c \<Longrightarrow> calm_scope a c"
  unfolding calm_scope_def by auto

lemma calm_refl [simp]: "calm s p st st"
  by (auto simp: calm_def option.rel_refl)

lemma calm_scopeD: "calm s p st st' \<Longrightarrow> scope_at st d = Some sc \<Longrightarrow> \<exists>sc'. scope_at st' d = Some sc' \<and> calm_scope sc sc'"
  unfolding calm_def by (metis option_rel_Some1)

lemma calm_scope_back: "calm s p st st' \<Longrightarrow> scope_at st' d = Some sc' \<Longrightarrow> \<exists>sc. scope_at st d = Some sc \<and> calm_scope sc sc'"
  unfolding calm_def by (metis option_rel_Some2)

lemma calm_active: "calm s p st st' \<Longrightarrow> active st' d i \<Longrightarrow> active st d i"
proof -
  assume calm: "calm s p st st'" and "active st' d i"
  then obtain sc' r where sc': "scope_at st' d = Some sc'" "bt_get (sc_effects sc') i = Some r" "er_state r = EffectActive"
    by (auto simp: active_def effect_at_def effects_of_def split: option.splits)
  then show "active st d i"
    using calm_scope_back [OF calm sc'(1)]
    by (auto simp: active_def effect_at_def effects_of_def calm_scope_def)
qed

lemma calm_trans:
  assumes "calm s p a b" and "calm s p b c"
  shows "calm s p a c"
proof -
  have "rel_option calm_scope (scope_at a d) (scope_at c d)" for d
  proof (cases "scope_at a d")
    case None
    then show ?thesis using assms unfolding calm_def by (metis option.rel_distinct(1) option.rel_sel)
  next
    case (Some sc)
    then show ?thesis
      using calm_scopeD [OF assms(1) Some] calm_scopeD [OF assms(2), of d] calm_scope_trans by fastforce
  qed
  moreover have "\<exists>xs. cd_trace c = cd_trace a @ xs \<and> (\<forall>i \<in> set xs. \<exists>d \<ge> s. active a d i)"
    using assms calm_active [OF assms(1)] unfolding calm_def by (metis Un_iff append.assoc set_append)
  ultimately show ?thesis using assms by (simp add: calm_def)
qed

lemma calm_mono:
  assumes "calm s p a b" "s' \<le> s" "p' \<le> p"
  shows "calm s' p' a b"
proof -
  have "\<exists>xs. cd_trace b = cd_trace a @ xs \<and> (\<forall>i \<in> set xs. \<exists>d \<ge> s'. active a d i)"
    using assms unfolding calm_def by (meson le_trans)
  then show ?thesis using assms by (simp add: calm_def)
qed

lemma calm_fiber:
  assumes "calm s p st st'" "fiber_at st f = Some r"
  shows "\<exists>r'. fiber_at st' f = Some r' \<and> fiber_core r' = fiber_core r"
proof -
  have "map_option fiber_core (fiber_at st' f) = map_option fiber_core (fiber_at st f)"
    using assms(1) by (simp add: calm_def)
  then show ?thesis using assms(2) by (cases "fiber_at st' f") auto
qed

lemma fiber_core_state [simp]: "fiber_core (r\<lparr>fb_state := x\<rparr>) = fiber_core r"
  by (simp add: fiber_core_def)

lemma calm_set_fiber:
  assumes "\<And>r. fiber_at st f = Some r \<Longrightarrow> p \<le> fb_parent r"
  shows "calm s p st (set_fiber f x st)"
proof -
  have "map_option fiber_core (fiber_at (set_fiber f x st) g) = map_option fiber_core (fiber_at st g)" for g
    by (cases "fiber_at st f") (auto simp: cordis_simps)
  then show ?thesis
    unfolding calm_def using assms by (auto simp: cordis_simps option.rel_refl)
qed

section \<open>The steps of a disposal keep the invariant\<close>

lemma effects_of_set_fiber [simp]: "effects_of c (set_fiber f x st) = effects_of c st"
  by (simp add: effects_of_def cordis_simps)

lemma effect_at_set_fiber [simp]: "effect_at (set_fiber f x st) c i = effect_at st c i"
  by (simp add: effect_at_def)

lemma active_set_fiber [simp]: "active (set_fiber f x st) c i = active st c i"
  by (simp add: active_def)

lemma effect_at_on_scope:
  "effect_at (on_scope c g st) d i =
     (if d = c then (case scope_at st c of None \<Rightarrow> None | Some sc \<Rightarrow> bt_get (sc_effects (g sc)) i) else effect_at st d i)"
  by (simp add: effect_at_def effects_of_def cordis_simps split: option.split)

lemma effect_at_scope: "scope_at st c = Some sc \<Longrightarrow> effect_at st c i = bt_get (sc_effects sc) i"
  by (simp add: effect_at_def effects_of_def)

lemma effect_at_other: "cd_scopes st' = cd_scopes st \<Longrightarrow> effect_at st' c i = effect_at st c i"
  by (simp add: effect_at_def effects_of_def)

lemma store_inv_set_fiber: "store_inv P st \<Longrightarrow> store_inv P (set_fiber f x st)"
proof -
  assume inv: "store_inv P st"
  let ?t = "set_fiber f x st"
  have fibers: "\<exists>r'. fiber_at ?t g = Some r' \<and> fb_parent r' = fb_parent r" if "fiber_at st g = Some r" for g r
    using that by (auto simp: cordis_simps)
  show ?thesis
  proof (rule store_invI)
    show "scope_ok ?t c sc" if "scope_at ?t c = Some sc" for c sc
      using store_invD(1) [OF inv, of c sc] that fibers by (fastforce simp: scope_ok_def cordis_simps)
    show "fiber_ok ?t g r" if "fiber_at ?t g = Some r" for g r
      using store_invD(2) [OF inv, of g] that by (auto simp: fiber_ok_def cordis_simps split: if_splits)
    show "held_ok P ?t i" if "bt_get (cd_held ?t) i = Some ef" for i ef
      using store_invD(7) [OF inv, of i ef] that by (simp add: held_ok_def cordis_simps)
  qed (use store_invD(3-6) [OF inv] in \<open>auto simp: effect_ok_def cordis_simps\<close>)
qed

lemma mark_fold_simps:
  "cd_scopes (fold mark_unmounting fs st) = cd_scopes st" "cd_trace (fold mark_unmounting fs st) = cd_trace st"
  "cd_next_scope (fold mark_unmounting fs st) = cd_next_scope st"
  "cd_next_effect (fold mark_unmounting fs st) = cd_next_effect st"
  "cd_next_fiber (fold mark_unmounting fs st) = cd_next_fiber st"
  "cd_held (fold mark_unmounting fs st) = cd_held st"
  by (induction fs arbitrary: st) (auto simp: mark_unmounting_def cordis_simps split: option.splits)

lemma mark_unmounting_cases: "mark_unmounting f st = st \<or> mark_unmounting f st = set_fiber f FiberUnmounting st"
  by (auto simp: mark_unmounting_def split: option.split)

lemma store_inv_marks: "store_inv P st \<Longrightarrow> store_inv P (fold mark_unmounting fs st)"
proof (induction fs arbitrary: st)
  case (Cons f fs)
  then show ?case using mark_unmounting_cases [of f st] store_inv_set_fiber by (metis fold_simps(2))
qed simp

lemma calm_marks:
  assumes "\<forall>f \<in> set fs. \<exists>r. fiber_at st f = Some r \<and> p \<le> fb_parent r"
  shows "calm s p st (fold mark_unmounting fs st)"
  using assms
proof (induction fs arbitrary: st)
  case (Cons f fs)
  let ?m = "mark_unmounting f st"
  have one: "calm s p st ?m"
    using Cons.prems calm_set_fiber [of st f p s FiberUnmounting] mark_unmounting_cases [of f st] by fastforce
  have "\<forall>g \<in> set fs. \<exists>r. fiber_at ?m g = Some r \<and> p \<le> fb_parent r"
    using Cons.prems calm_fiber [OF one] by (fastforce simp: fiber_core_def)
  then show ?case using Cons.IH calm_trans [OF one] by simp
qed simp

text \<open>Taking the effects of a scope that starts to dispose.\<close>

definition active_ids :: "(nat, effect_record) btmap \<Rightarrow> nat list" where
  "active_ids m = map fst (filter (\<lambda>(i, r). er_state r = EffectActive) m)"

definition start_disposing :: "'v scope \<Rightarrow> 'v scope" where
  "start_disposing sc = sc\<lparr>sc_state := ScopeDisposing, sc_effects := take_effects (sc_effects sc)\<rparr>"

lemma active_ids_set: "bt_wf m \<Longrightarrow> i \<in> set (active_ids m) \<longleftrightarrow> (\<exists>r. bt_get m i = Some r \<and> er_state r = EffectActive)"
  by (auto simp: active_ids_def bt_get_in_set image_iff)

lemma active_ids_distinct: "bt_wf m \<Longrightarrow> distinct (active_ids m)"
  by (simp add: active_ids_def bt_wf_distinct distinct_map_filter)

lemma map_filter_append: "List.map_filter f (xs @ ys) = List.map_filter f xs @ List.map_filter f ys"
  by (induction xs) (auto simp: List.map_filter_def)

lemma map_filter_one: "List.map_filter f [x] = (case f x of None \<Rightarrow> [] | Some y \<Rightarrow> [y])"
  by (simp add: List.map_filter_def split: option.split)

lemma taken_ids:
  assumes "\<And>i r. (i, r) \<in> set m \<Longrightarrow> (er_effect r \<noteq> None) = (er_state r = EffectActive)"
  shows "map fst (taken_effects m) = rev (active_ids m)"
  using assms
proof (induction m)
  case Nil
  then show ?case by (simp add: taken_effects_def active_ids_def List.map_filter_def)
next
  case (Cons x m)
  obtain i r where x: "x = (i, r)" by (cases x)
  have "map fst (taken_effects m) = rev (active_ids m)"
    by (rule Cons.IH) (use Cons.prems in \<open>meson list.set_intros(2)\<close>)
  moreover have "(er_effect r \<noteq> None) = (er_state r = EffectActive)" using Cons.prems [of i r] x by simp
  ultimately show ?case
    by (cases "er_effect r") (auto simp: x taken_effects_def active_ids_def map_filter_append map_filter_one)
qed

lemma take_effects_get:
  "bt_get (take_effects m) i = map_option (\<lambda>r. if er_state r = EffectActive
     then \<lparr>er_effect = None, er_state = EffectDisposing\<rparr> else r) (bt_get m i)"
  by (simp add: take_effects_def)

lemma start_disposing_simps [simp]:
  "sc_parent (start_disposing sc) = sc_parent sc" "sc_bus (start_disposing sc) = sc_bus sc"
  "sc_fibers (start_disposing sc) = sc_fibers sc" "sc_services (start_disposing sc) = sc_services sc"
  "sc_state (start_disposing sc) = ScopeDisposing" "sc_effects (start_disposing sc) = take_effects (sc_effects sc)"
  "map fst (take_effects m) = map fst m" "bt_wf (take_effects m) = bt_wf m"
  by (simp_all add: start_disposing_def take_effects_def)

lemma store_inv_records:
  assumes "store_inv P st" "scope_at st c = Some sc" "(i, r) \<in> set (sc_effects sc)"
  shows "effect_ok P st i r"
proof -
  have "bt_wf (sc_effects sc)" using store_invD(1) [OF assms(1,2)] by (simp add: scope_ok_def)
  then have "effect_at st c i = Some r" using assms by (simp add: effect_at_scope bt_get_in_set)
  then show ?thesis by (rule store_invD(3) [OF assms(1)])
qed

lemma taken_ids_inv:
  assumes "store_inv P st" "scope_at st c = Some sc"
  shows "map fst (taken_effects (sc_effects sc)) = rev (active_ids (sc_effects sc))"
  using store_inv_records [OF assms] by (intro taken_ids) (simp add: effect_ok_def)

lemma active_ids_inv:
  assumes "store_inv P st" "scope_at st c = Some sc"
  shows "i \<in> set (active_ids (sc_effects sc)) \<longleftrightarrow> active st c i" "distinct (active_ids (sc_effects sc))"
proof -
  have "bt_wf (sc_effects sc)" using store_invD(1) [OF assms] by (simp add: scope_ok_def)
  then show "i \<in> set (active_ids (sc_effects sc)) \<longleftrightarrow> active st c i" "distinct (active_ids (sc_effects sc))"
    using assms by (simp_all add: active_ids_set active_ids_distinct active_def effect_at_scope)
qed

lemma active_ids_sorted: "bt_wf m \<Longrightarrow> sorted_wrt (<) (active_ids m)"
  by (induction m) (auto simp: active_ids_def bt_wf_def)

lemma active_pending: "store_inv P st \<Longrightarrow> active st c i \<Longrightarrow> i \<notin> set (cd_trace st @ P)"
  using store_invD(3) by (fastforce simp: active_def effect_ok_def)

lemma store_inv_take:
  assumes inv: "store_inv P st" and sc: "scope_at st c = Some sc"
  shows "store_inv (rev (active_ids (sc_effects sc)) @ P) (on_scope c start_disposing st)" (is "store_inv (?ids @ P) ?st")
proof (rule store_invI)
  note ids = active_ids_inv [OF inv sc]
  have at: "effect_at ?st c i = map_option (\<lambda>r. if er_state r = EffectActive
      then \<lparr>er_effect = None, er_state = EffectDisposing\<rparr> else r) (effect_at st c i)" for i
    using sc by (simp add: effect_at_on_scope effect_at_scope [OF sc] take_effects_get)
  have other: "effect_at ?st d i = effect_at st d i" if "d \<noteq> c" for d i
    using that by (simp add: effect_at_on_scope)
  have known: "effect_at st d i \<noteq> None" if "effect_at ?st d i \<noteq> None" for d i
    using that at [of i] other [of d i] by (cases "d = c") auto
  have dead: "\<not> active ?st c i" for i
    by (cases "effect_at st c i") (auto simp: active_def at)
  have sub: "active ?st d i \<Longrightarrow> active st d i" for d i
    using dead other [of d] by (cases "d = c") (auto simp: active_def)
  show "scope_ok ?st d x" if "scope_at ?st d = Some x" for d x
  proof (cases "d = c")
    case True
    then show ?thesis
      using that sc store_invD(1) [OF inv sc] by (auto simp: scope_ok_def cordis_simps)
  next
    case False
    then have "scope_at st d = Some x" using that by (simp add: cordis_simps)
    then show ?thesis
      using store_invD(1) [OF inv, of d x] sub [of d] by (auto simp: scope_ok_def cordis_simps)
  qed
  show "fiber_ok ?st f r" if "fiber_at ?st f = Some r" for f r
    using store_invD(2) [OF inv, of f r] that by (simp add: fiber_ok_def cordis_simps)
  show uniq: "c1 = c2" if "effect_at ?st c1 i \<noteq> None" "effect_at ?st c2 i \<noteq> None" for c1 c2 i
    using store_invD(4) [OF inv, of c1 i c2] that known by blast
  show "effect_ok (?ids @ P) ?st i e" if e: "effect_at ?st d i = Some e" for d i e
  proof (cases "d = c")
    case True
    then obtain r where r: "effect_at st c i = Some r"
      "e = (if er_state r = EffectActive then \<lparr>er_effect = None, er_state = EffectDisposing\<rparr> else r)"
      using e at [of i] by (cases "effect_at st c i") auto
    show ?thesis
      using store_invD(3) [OF inv r(1)] ids(1) [of i] r by (auto simp: effect_ok_def cordis_simps active_def)
  next
    case False
    then have d: "effect_at st d i = Some e" using e other by simp
    then have "i \<notin> set ?ids" using False store_invD(4) [OF inv, of c i d] ids(1) [of i] by (auto simp: active_def)
    then show ?thesis using store_invD(3) [OF inv d] by (simp add: effect_ok_def cordis_simps)
  qed
  show "held_ok (?ids @ P) ?st i" if held: "bt_get (cd_held ?st) i = Some ef" for i ef
  proof -
    have "held_ok P st i" using store_invD(7) [OF inv, of i ef] held by (simp add: cordis_simps)
    moreover from this have "effect_at ?st d i = None" for d
      using known [of d i] by (cases "effect_at ?st d i") (auto simp: held_ok_def)
    ultimately show ?thesis
      using ids(1) [of i] by (auto simp: held_ok_def active_def cordis_simps)
  qed
  show "distinct (cd_trace ?st @ ?ids @ P)"
    using store_invD(5) [OF inv] ids active_pending [OF inv] by (auto simp: cordis_simps)
  show "i < cd_next_effect ?st" if "i \<in> set (cd_trace ?st @ ?ids @ P)" for i
    using that ids(1) [of i] store_invD(3) [OF inv, of c i] store_invD(6) [OF inv, of i]
    by (auto simp: cordis_simps active_def effect_ok_def)
qed

text \<open>Running an effect that was taken.\<close>

lemma set_effect_simps [cordis_simps]:
  "cd_fibers (set_effect c i r st) = cd_fibers st" "cd_next_scope (set_effect c i r st) = cd_next_scope st"
  "cd_next_effect (set_effect c i r st) = cd_next_effect st" "cd_next_fiber (set_effect c i r st) = cd_next_fiber st"
  "cd_trace (set_effect c i r st) = cd_trace st" "cd_held (set_effect c i r st) = cd_held st"
  by (simp_all add: set_effect_def cordis_simps)

lemma effect_at_set_effect:
  "effect_at (set_effect c i r st) d j =
     (if d = c \<and> j = i then map_option (\<lambda>_. r) (effect_at st c i) else effect_at st d j)"
  unfolding set_effect_def effect_at_on_scope by (auto simp: effect_at_def effects_of_def split: option.split)

lemma scope_at_set_effect:
  "scope_at (set_effect c i r st) d =
     (if d = c then map_option (\<lambda>sc. sc\<lparr>sc_effects := bt_update i (\<lambda>_. r) (sc_effects sc)\<rparr>) (scope_at st c) else scope_at st d)"
  by (simp add: set_effect_def cordis_simps)

lemma store_inv_set_effect:
  assumes inv: "store_inv P st" and r: "er_effect r = None" "er_state r \<noteq> EffectActive"
    and i: "i \<in> set (cd_trace st @ P)"
  shows "store_inv P (set_effect c i r st)" (is "store_inv P ?st")
proof (rule store_invI)
  have sub: "active ?st d j \<Longrightarrow> active st d j" for d j
    using r(2) by (auto simp: active_def effect_at_set_effect split: if_splits)
  show "scope_ok ?st d x" if "scope_at ?st d = Some x" for d x
  proof -
    obtain y where y: "scope_at st d = Some y" "sc_parent x = sc_parent y" "sc_fibers x = sc_fibers y"
      "sc_state x = sc_state y" "sc_services x = sc_services y" "bt_wf (sc_effects x) = bt_wf (sc_effects y)"
      using \<open>scope_at ?st d = Some x\<close> by (auto simp: scope_at_set_effect split: if_splits)
    show ?thesis
      using store_invD(1) [OF inv y(1)] y sub [of d] by (auto simp: scope_ok_def cordis_simps scope_at_set_effect)
  qed
  show "fiber_ok ?st f x" if "fiber_at ?st f = Some x" for f x
    using store_invD(2) [OF inv, of f x] that by (simp add: fiber_ok_def cordis_simps)
  show "effect_ok P ?st j e" if "effect_at ?st d j = Some e" for d j e
    using that store_invD(3) [OF inv, of d j] r i store_invD(6) [OF inv i]
    by (auto simp: effect_at_set_effect effect_ok_def cordis_simps split: if_splits)
  show "c1 = c2" if "effect_at ?st c1 j \<noteq> None" "effect_at ?st c2 j \<noteq> None" for c1 c2 j
    using that store_invD(4) [OF inv, of c1 j c2] by (auto simp: effect_at_set_effect split: if_splits)
  show "held_ok P ?st j" if "bt_get (cd_held ?st) j = Some ef" for j ef
    using store_invD(7) [OF inv, of j ef] that by (auto simp: held_ok_def cordis_simps effect_at_set_effect)
qed (use store_invD(5,6) [OF inv] in \<open>auto simp: cordis_simps\<close>)

lemma store_inv_effect_run:
  assumes inv: "store_inv (i # P) st"
  shows "store_inv P (snd (effect_run dis i ef st))" (is "store_inv P ?st")
proof (rule store_invI)
  note at = effect_at_other [of ?st st, OF effect_run_simps(1)]
  show "scope_ok ?st c sc" if "scope_at ?st c = Some sc" for c sc
    using store_invD(1) [OF inv, of c sc] that by (simp add: scope_ok_def active_def at cordis_simps)
  show "fiber_ok ?st f x" if "fiber_at ?st f = Some x" for f x
    using store_invD(2) [OF inv, of f x] that by (simp add: fiber_ok_def cordis_simps)
  show "effect_ok P ?st j e" if "effect_at ?st c j = Some e" for c j e
    using store_invD(3) [OF inv, of c j e] that by (auto simp: at effect_ok_def cordis_simps)
  show "c1 = c2" if "effect_at ?st c1 j \<noteq> None" "effect_at ?st c2 j \<noteq> None" for c1 c2 j
    using store_invD(4) [OF inv, of c1 j c2] that by (simp add: at)
  show "held_ok P ?st j" if "bt_get (cd_held ?st) j = Some e" for j e
    using store_invD(7) [OF inv, of j e] that by (simp add: held_ok_def at cordis_simps)
qed (use store_invD(5,6) [OF inv] in \<open>auto simp: cordis_simps\<close>)

lemma run_taken_inv:
  assumes "store_inv (i # P) st"
  shows "store_inv P (snd (run_taken dis c i ef st))"
proof -
  have "store_inv P (snd (effect_run dis i ef st))" by (rule store_inv_effect_run [OF assms])
  then show ?thesis
    by (auto simp: run_taken_def cordis_simps intro!: store_inv_set_effect split: prod.split)
       (metis effect_run_simps(6) in_set_conv_decomp snd_conv)+
qed

lemma store_inv_close:
  assumes inv: "store_inv P st" and dead: "\<And>i. \<not> active st c i"
  shows "store_inv P (close_scope c st)" (is "store_inv P ?st")
proof (rule store_invI)
  have at: "effect_at ?st d i = effect_at st d i" for d i
    unfolding close_scope_def effect_at_on_scope by (simp add: effect_at_def effects_of_def split: option.split)
  show "scope_ok ?st d x" if x: "scope_at ?st d = Some x" for d x
  proof (cases "d = c")
    case True
    then obtain y where "scope_at st c = Some y" "x = y\<lparr>sc_services := [], sc_fibers := [], sc_state := ScopeDisposed\<rparr>"
      using x by (auto simp: close_scope_def cordis_simps)
    then show ?thesis
      using True store_invD(1) [OF inv, of c y] dead
      by (auto simp: scope_ok_def active_def at) (auto simp: close_scope_def cordis_simps)
  next
    case False
    then have "scope_at st d = Some x" using x by (simp add: close_scope_def cordis_simps)
    then show ?thesis
      using store_invD(1) [OF inv, of d x]
      by (auto simp: scope_ok_def active_def at) (auto simp: close_scope_def cordis_simps)
  qed
  show "fiber_ok ?st f x" if "fiber_at ?st f = Some x" for f x
    using store_invD(2) [OF inv, of f x] that by (simp add: close_scope_def fiber_ok_def cordis_simps)
  show "effect_ok P ?st j e" if "effect_at ?st d j = Some e" for d j e
    using store_invD(3) [OF inv, of d j e] that by (simp add: at effect_ok_def) (simp add: close_scope_def cordis_simps)
  show "c1 = c2" if "effect_at ?st c1 j \<noteq> None" "effect_at ?st c2 j \<noteq> None" for c1 c2 j
    using store_invD(4) [OF inv, of c1 j c2] that by (simp add: at)
  show "held_ok P ?st j" if "bt_get (cd_held ?st) j = Some e" for j e
    using store_invD(7) [OF inv, of j e] that by (simp add: held_ok_def at) (simp add: close_scope_def cordis_simps)
qed (use store_invD(5,6) [OF inv] in \<open>auto simp: close_scope_def cordis_simps\<close>)

end
