(* ===== verification/Cordis_Dispose.thy ===== *)
theory Cordis_Dispose
  imports Cordis_Scope_Props
begin

text \<open>
  Disposing a scope: the loops over its fibers and effects, what a disposal leaves (\<open>wound_down\<close>), and
  that the depth given to the recursion is enough.
\<close>

section \<open>The loops of a disposal\<close>

definition not_active :: "('v, 'w) cordis \<Rightarrow> nat \<Rightarrow> bool" where
  "not_active st c \<longleftrightarrow> (\<forall>sc. scope_at st c = Some sc \<longrightarrow> sc_state sc \<noteq> ScopeActive)"

definition unmounted :: "('v, 'w) cordis \<Rightarrow> nat \<Rightarrow> bool" where
  "unmounted st f \<longleftrightarrow> (\<exists>r. fiber_at st f = Some r \<and> fb_state r = FiberUnmounted \<and> not_active st (fb_scope r))"

text \<open>What the recursive call is known to do to the scopes above \<open>c\<close> of a store with \<open>n\<close> scopes.\<close>

definition disposes_above :: "nat \<Rightarrow> nat \<Rightarrow> (nat \<Rightarrow> (('v, 'w) cordis, cordis_error, unit) act) \<Rightarrow> bool" where
  "disposes_above c n D \<longleftrightarrow>
     (\<forall>e P st. c < e \<longrightarrow> store_inv P st \<longrightarrow> cd_next_scope st = n \<longrightarrow>
        store_inv P (snd (D e st)) \<and> calm e e st (snd (D e st)) \<and> not_active (snd (D e st)) e)"

lemma calm_not_active: "calm s p st st' \<Longrightarrow> not_active st c \<Longrightarrow> not_active st' c"
  unfolding not_active_def using calm_scope_back by (fastforce simp: calm_scope_def)

lemma not_active_set_fiber [simp]: "not_active (set_fiber f x st) c = not_active st c"
  by (simp add: not_active_def cordis_simps)

lemma calm_next: "calm s p st st' \<Longrightarrow> cd_next_scope st' = cd_next_scope st"
  by (simp add: calm_def)

lemma calm_keeps_fiber: "calm s p st st' \<Longrightarrow> fiber_at st f = Some r \<Longrightarrow> fb_parent r < p \<Longrightarrow> fiber_at st' f = Some r"
  by (simp add: calm_def)

lemma dispose_fibers_spec:
  assumes "disposes_above c n D" and "store_inv P st" and "cd_next_scope st = n"
    and "\<forall>f \<in> set fs. \<exists>r. fiber_at st f = Some r \<and> fb_parent r = c"
  shows "store_inv P (snd (dispose_fibers D fs first st)) \<and> calm (Suc c) c st (snd (dispose_fibers D fs first st)) \<and>
    (\<forall>f r. fiber_at st f = Some r \<and> fb_parent r = c \<and> unmounted st f \<longrightarrow> unmounted (snd (dispose_fibers D fs first st)) f) \<and>
    (\<forall>f \<in> set fs. unmounted (snd (dispose_fibers D fs first st)) f)"
  using assms(2-4)
proof (induction fs arbitrary: first st)
  case (Cons f fs)
  obtain r where r: "fiber_at st f = Some r" "fb_parent r = c" using Cons.prems(3) by auto
  have scope: "c < fb_scope r" using store_invD(2) [OF Cons.prems(1) r(1)] r(2) by (simp add: fiber_ok_def)
  obtain x st1 where run: "D (fb_scope r) st = (x, st1)" by (cases "D (fb_scope r) st")
  let ?st2 = "set_fiber f FiberUnmounted st1"
  have one: "store_inv P st1" "calm (fb_scope r) (fb_scope r) st st1" "not_active st1 (fb_scope r)"
    using assms(1) scope Cons.prems(1,2) run unfolding disposes_above_def by (metis snd_conv)+
  have fiber1: "fiber_at st1 f = Some r" using one(2) r(1) r(2) scope by (simp add: calm_keeps_fiber)
  have calm2: "calm (Suc c) c st ?st2"
    using calm_mono [OF one(2), of "Suc c" c] calm_set_fiber [of st1 f c "Suc c" FiberUnmounted] fiber1 r(2) scope
    by (auto intro: calm_trans)
  have inv2: "store_inv P ?st2" by (rule store_inv_set_fiber [OF one(1)])
  have keep2: "unmounted ?st2 g" if g: "fiber_at st g = Some q" "fb_parent q = c" "unmounted st g" for g q
  proof -
    have "fiber_at st1 g = Some q" using one(2) g scope by (simp add: calm_keeps_fiber)
    then show ?thesis
      using g calm_not_active [OF one(2)] by (auto simp: unmounted_def cordis_simps)
  qed
  have here: "unmounted ?st2 f" using fiber1 one(3) by (simp add: unmounted_def cordis_simps)
  have "\<forall>g \<in> set fs. \<exists>q. fiber_at ?st2 g = Some q \<and> fb_parent q = c"
    using Cons.prems(3) calm_fiber [OF calm2] by (fastforce simp: fiber_core_def)
  note rest = Cons.IH [OF inv2 _ this, of "keep_error first x"]
  have eq: "dispose_fibers D (f # fs) first st = dispose_fibers D fs (keep_error first x) ?st2"
    using r run by simp
  have parent2: "\<exists>q'. fiber_at ?st2 g = Some q' \<and> fb_parent q' = c" if "fiber_at st g = Some q" "fb_parent q = c" for g q
    using calm_fiber [OF calm2 that(1)] that(2) by (auto simp: fiber_core_def)
  have next2: "cd_next_scope ?st2 = n" using calm_next [OF calm2] Cons.prems(2) by simp
  note rest = rest [OF next2]
  show ?case
    unfolding eq using rest calm_trans [OF calm2] keep2 here parent2 r by (metis set_ConsD)
qed simp

lemma run_effects_spec:
  assumes "store_inv (map fst es @ P) st"
  shows "store_inv P (snd (run_effects dis c es first st)) \<and>
    cd_trace (snd (run_effects dis c es first st)) = cd_trace st @ map fst es \<and>
    cd_fibers (snd (run_effects dis c es first st)) = cd_fibers st \<and>
    cd_next_scope (snd (run_effects dis c es first st)) = cd_next_scope st \<and>
    cd_next_effect (snd (run_effects dis c es first st)) = cd_next_effect st \<and>
    cd_next_fiber (snd (run_effects dis c es first st)) = cd_next_fiber st \<and>
    (\<forall>d. d \<noteq> c \<longrightarrow> scope_at (snd (run_effects dis c es first st)) d = scope_at st d) \<and>
    (\<forall>sc. scope_at st c = Some sc \<longrightarrow> (\<exists>m. map fst m = map fst (sc_effects sc) \<and>
       scope_at (snd (run_effects dis c es first st)) c = Some (sc\<lparr>sc_effects := m\<rparr>))) \<and>
    (\<forall>i. active (snd (run_effects dis c es first st)) c i \<longrightarrow> active st c i)"
  using assms
proof (induction es arbitrary: first st)
  case (Cons x es)
  obtain i ef where x: "x = (i, ef)" by (cases x)
  obtain y st1 where run: "run_taken dis c i ef st = (y, st1)" by (cases "run_taken dis c i ef st")
  have inv1: "store_inv (map fst es @ P) st1"
    using run_taken_inv [of i "map fst es @ P" st dis c ef] Cons.prems run x by simp
  let ?r = "\<lambda>s. \<lparr>er_effect = None, er_state = s\<rparr>"
  obtain s where st1: "st1 = set_effect c i (?r s) (snd (effect_run dis i ef st))" "s \<noteq> EffectActive"
    using run by (auto simp: run_taken_def split: prod.splits)
  have scopes: "scope_at st1 d = (if d = c then map_option (\<lambda>sc. sc\<lparr>sc_effects := bt_update i (\<lambda>_. ?r s) (sc_effects sc)\<rparr>) (scope_at st c) else scope_at st d)" for d
    by (simp add: st1 scope_at_set_effect cordis_simps)
  have act: "active st1 c j \<Longrightarrow> active st c j" for j
    using st1(2) by (auto simp: st1(1) active_def effect_at_set_effect effect_at_other [OF effect_run_simps(1)] split: if_splits)
  have eq: "run_effects dis c (x # es) first st = run_effects dis c es (keep_error first y) st1" by (simp add: x run)
  have keys: "\<exists>m. map fst m = map fst (sc_effects sc) \<and> scope_at (snd (run_effects dis c (x # es) first st)) c = Some (sc\<lparr>sc_effects := m\<rparr>)"
    if "scope_at st c = Some sc" for sc
  proof -
    have "scope_at st1 c = Some (sc\<lparr>sc_effects := bt_update i (\<lambda>_. ?r s) (sc_effects sc)\<rparr>)" using that scopes by simp
    then show ?thesis unfolding eq using Cons.IH [OF inv1, of "keep_error first y"] by fastforce
  qed
  show ?case
    using Cons.IH [OF inv1, of "keep_error first y"] keys scopes act unfolding eq
    by (auto simp: x st1(1) cordis_simps)
qed auto

section \<open>Disposing a scope\<close>

text \<open>What disposing an active scope leaves.\<close>

definition wound_down :: "nat \<Rightarrow> ('v, 'w) cordis \<Rightarrow> ('v, 'w) cordis \<Rightarrow> bool" where
  "wound_down c st st' \<longleftrightarrow> (\<exists>sc sc' xs. scope_at st c = Some sc \<and> scope_at st' c = Some sc' \<and>
     sc_state sc' = ScopeDisposed \<and> sc_services sc' = [] \<and> sc_fibers sc' = [] \<and> (\<forall>i. \<not> active st' c i) \<and>
     cd_trace st' = cd_trace st @ xs @ rev (active_ids (sc_effects sc)) \<and>
     (\<forall>i \<in> set xs. \<exists>d > c. active st d i) \<and>
     (\<forall>f \<in> set (sc_fibers sc). fiber_live st f \<longrightarrow> unmounted st' f))"

lemma dispose_active:
  fixes st :: "('v, 'w) cordis"
  assumes D: "disposes_above c (cd_next_scope st) (dispose_scope n dis :: nat \<Rightarrow> (('v, 'w) cordis, cordis_error, unit) act)"
    and inv: "store_inv P st" and sc: "scope_at st c = Some sc" "sc_state sc = ScopeActive"
  defines "st' \<equiv> snd (dispose_scope (Suc n) dis c st)"
  shows "store_inv P st' \<and> calm c c st st' \<and> wound_down c st st'"
proof -
  define fs where "fs = filter (fiber_live st) (sc_fibers sc)"
  define es where "es = taken_effects (sc_effects sc)"
  define stm where "stm = fold mark_unmounting fs st"
  define st1 where "st1 = on_scope c start_disposing stm"
  define st2 where "st2 = snd (dispose_fibers (dispose_scope n dis) fs None st1)"
  define first where "first = fst (dispose_fibers (dispose_scope n dis) fs None st1)"
  define st3 where "st3 = snd (run_effects dis c es first st2)"
  have st': "st' = close_scope c st3"
    unfolding st'_def st3_def st2_def first_def st1_def stm_def es_def fs_def
    by (simp add: sc start_disposing_def [abs_def] case_prod_beta Let_def)
  have parents: "\<forall>f \<in> set fs. \<exists>r. fiber_at st f = Some r \<and> fb_parent r = c"
    using store_invD(1) [OF inv sc(1)] by (auto simp: fs_def scope_ok_def)
  have ids: "map fst es = rev (active_ids (sc_effects sc))" unfolding es_def by (rule taken_ids_inv [OF inv sc(1)])
  have calmm: "calm (Suc c) c st stm"
    unfolding stm_def using parents by (intro calm_marks) fastforce
  have scm: "scope_at stm d = scope_at st d" for d by (simp add: stm_def mark_fold_simps)
  have inv1: "store_inv (map fst es @ P) st1"
    unfolding st1_def ids using store_inv_take [OF store_inv_marks [OF inv]] sc(1) by (simp add: stm_def mark_fold_simps)
  have fibers1: "cd_fibers st1 = cd_fibers stm" by (simp add: st1_def cordis_simps)
  have next1: "cd_next_scope st1 = cd_next_scope st" by (simp add: st1_def stm_def cordis_simps mark_fold_simps)
  have "\<forall>f \<in> set fs. \<exists>r. fiber_at st1 f = Some r \<and> fb_parent r = c"
    using parents calm_fiber [OF calmm] unfolding fibers1 by (fastforce simp: fiber_core_def)
  note loop = dispose_fibers_spec [OF D inv1 next1 this, of None, folded st2_def]
  then have inv2: "store_inv (map fst es @ P) st2" and calm2: "calm (Suc c) c st1 st2"
    and done2: "\<forall>f \<in> set fs. unmounted st2 f" by simp_all
  note run = run_effects_spec [OF inv2, of dis c first, folded st3_def]
  have sc1: "scope_at st1 d = (if d = c then Some (start_disposing sc) else scope_at st d)" for d
    using sc(1) scm by (simp add: st1_def cordis_simps)
  have sc2: "scope_at st2 c = Some (start_disposing sc)" using calm2 sc1 [of c] by (simp add: calm_def)
  obtain m where m: "map fst m = map fst (sc_effects sc)" "scope_at st3 c = Some ((start_disposing sc)\<lparr>sc_effects := m\<rparr>)"
    using run sc2 by auto
  define sc' where "sc' = (start_disposing sc)\<lparr>sc_effects := m, sc_services := [], sc_fibers := [], sc_state := ScopeDisposed\<rparr>"
  have at: "scope_at st' d = (if d = c then Some sc' else scope_at st2 d)" for d
    using run m(2) by (simp add: st' close_scope_def cordis_simps sc'_def)
  have act1: "\<not> active st1 c i" for i
    using sc1 by (auto simp: active_def effect_at_def effects_of_def take_effects_get split: if_splits)
  have dead3: "\<not> active st3 c i" for i using run calm_active [OF calm2] act1 by blast
  have effects': "effect_at st' d i = effect_at st3 d i" for d i
    using at run m(2) by (auto simp: effect_at_def effects_of_def sc'_def)
  then have dead: "\<not> active st' c i" for i using dead3 by (simp add: active_def)
  have rest': "cd_fibers st' = cd_fibers st2" "cd_next_scope st' = cd_next_scope st2" "cd_next_effect st' = cd_next_effect st2"
    "cd_next_fiber st' = cd_next_fiber st2" "cd_trace st' = cd_trace st2 @ map fst es"
    using run by (simp_all add: st' close_scope_def cordis_simps)
  have inv': "store_inv P st'" unfolding st' using run dead3 by (blast intro: store_inv_close)
  obtain xs where xs: "cd_trace st2 = cd_trace st1 @ xs" "\<forall>i \<in> set xs. \<exists>d \<ge> Suc c. active st1 d i"
    using calm2 by (auto simp: calm_def)
  have trace1: "cd_trace st1 = cd_trace st" by (simp add: st1_def stm_def cordis_simps mark_fold_simps)
  have above: "active st1 d i \<Longrightarrow> active st d i" if "c < d" for d i
    using that sc1 [of d] by (simp add: active_def effect_at_def effects_of_def)
  have trace': "cd_trace st' = cd_trace st @ xs @ rev (active_ids (sc_effects sc))"
    using rest' xs(1) trace1 ids by simp
  have old: "\<forall>i \<in> set xs. \<exists>d > c. active st d i" using xs(2) above by (meson Suc_le_eq)
  have "calm_scope sc sc'"
    using m(1) sc(2) dead at by (auto simp: calm_scope_def sc'_def active_def effect_at_def effects_of_def)
  then have scopes: "rel_option calm_scope (scope_at st d) (scope_at st' d)" for d
    using at [of d] sc1 [of d] sc(1) calm2 by (cases "d = c") (simp_all add: calm_def, metis)
  have below: "scope_at st' d = scope_at st d" if "d < c" for d
    using at [of d] sc1 [of d] calm2 that by (simp add: calm_def)
  have marked: "cd_next_effect st1 = cd_next_effect st" "cd_next_fiber st1 = cd_next_fiber st"
    by (simp_all add: st1_def stm_def cordis_simps mark_fold_simps)
  have cores: "map_option fiber_core (fiber_at st' f) = map_option fiber_core (fiber_at st f)" for f
    using calm2 calmm fibers1 rest'(1) by (simp add: calm_def)
  have kept: "fiber_at st' f = Some r" if "fiber_at st f = Some r" "fb_parent r < c" for f r
    using calm_keeps_fiber [OF calm2] calm_keeps_fiber [OF calmm] that fibers1 rest'(1) by simp
  have "\<exists>d \<ge> c. active st d i" if i: "i \<in> set (xs @ rev (active_ids (sc_effects sc)))" for i
  proof (cases "i \<in> set xs")
    case True
    then obtain d where "c < d" "active st d i" using old by blast
    then show ?thesis by (intro exI [of _ d]) simp
  next
    case False
    then show ?thesis using i active_ids_inv(1) [OF inv sc(1)] by auto
  qed
  then have "\<exists>xs. cd_trace st' = cd_trace st @ xs \<and> (\<forall>i \<in> set xs. \<exists>d \<ge> c. active st d i)"
    using trace' by blast
  then have calm': "calm c c st st'"
    using scopes below cores kept calm2 rest' next1 marked by (simp add: calm_def)
  have "unmounted st' f" if f: "unmounted st2 f" "f \<in> set fs" for f
  proof -
    have "not_active st' d" if "not_active st2 d" for d
      using that at by (auto simp: not_active_def sc'_def)
    then show ?thesis using f(1) rest'(1) by (auto simp: unmounted_def)
  qed
  then have "wound_down c st st'"
    unfolding wound_down_def using sc(1) at [of c] dead trace' old done2
    by (intro exI [of _ sc] exI [of _ sc'] exI [of _ xs]) (auto simp: sc'_def fs_def)
  then show ?thesis using inv' calm' by blast
qed

lemma dispose_scope_spec:
  fixes st :: "('v, 'w) cordis"
  assumes "store_inv P st" and "cd_next_scope st - c \<le> n"
  shows "store_inv P (snd (dispose_scope n dis c st)) \<and> calm c c st (snd (dispose_scope n dis c st)) \<and>
    not_active (snd (dispose_scope n dis c st)) c"
  using assms
proof (induction n arbitrary: P st c)
  case 0
  then have "scope_at st c = None"
    using store_invD(1) [OF "0.prems"(1), of c] by (cases "scope_at st c") (auto simp: scope_ok_def)
  then show ?case using 0 by (simp add: not_active_def)
next
  case (Suc n)
  have above: "disposes_above c (cd_next_scope st) (dispose_scope n dis :: nat \<Rightarrow> (('v, 'w) cordis, cordis_error, unit) act)"
    unfolding disposes_above_def
  proof (intro allI impI)
    fix e Q and s :: "('v, 'w) cordis"
    assume e: "c < e" "store_inv Q s" "cd_next_scope s = cd_next_scope st"
    then have "cd_next_scope s - e \<le> n" using Suc.prems(2) by linarith
    with e(2) show "store_inv Q (snd (dispose_scope n dis e s)) \<and> calm e e s (snd (dispose_scope n dis e s)) \<and>
      not_active (snd (dispose_scope n dis e s)) e"
      by (rule Suc.IH)
  qed
  show ?case
  proof (cases "scope_at st c")
    case None
    then show ?thesis using Suc.prems by (simp add: not_active_def)
  next
    case (Some sc)
    show ?thesis
    proof (cases "sc_state sc")
      case ScopeActive
      show ?thesis
        using dispose_active [OF above Suc.prems(1) Some ScopeActive]
        by (auto simp: wound_down_def not_active_def simp del: dispose_scope.simps)
    qed (use Some Suc.prems in \<open>simp_all add: not_active_def\<close>)
  qed
qed

lemma dispose_spec:
  assumes "store_inv P st"
  shows "store_inv P (snd (dispose dis c st)) \<and> calm c c st (snd (dispose dis c st)) \<and> not_active (snd (dispose dis c st)) c"
  using dispose_scope_spec [OF assms] by (simp add: dispose_def)

section \<open>The depth is enough\<close>

lemma dispose_fibers_cong:
  assumes "disposes_above c n D" and agree: "\<And>e P st. c < e \<Longrightarrow> store_inv P st \<Longrightarrow> cd_next_scope st = n \<Longrightarrow> D e st = D' e st"
    and "store_inv P st" and "cd_next_scope st = n" and "\<forall>f \<in> set fs. \<exists>r. fiber_at st f = Some r \<and> fb_parent r = c"
  shows "dispose_fibers D fs first st = dispose_fibers D' fs first st"
  using assms(3-5)
proof (induction fs arbitrary: first st)
  case (Cons f fs)
  obtain r where r: "fiber_at st f = Some r" "fb_parent r = c" using Cons.prems(3) by auto
  have scope: "c < fb_scope r" using store_invD(2) [OF Cons.prems(1) r(1)] r(2) by (simp add: fiber_ok_def)
  note same = agree [OF scope Cons.prems(1,2)]
  let ?st2 = "set_fiber f FiberUnmounted (snd (D (fb_scope r) st))"
  have "\<forall>g \<in> set [f]. \<exists>r. fiber_at st g = Some r \<and> fb_parent r = c" using r by simp
  note one = dispose_fibers_spec [OF assms(1) Cons.prems(1,2) this, of None]
  have eq: "snd (dispose_fibers D [f] None st) = ?st2" using r by (simp add: case_prod_beta)
  have calm: "store_inv P ?st2" "calm (Suc c) c st ?st2" using one unfolding eq by simp_all
  have "\<forall>g \<in> set fs. \<exists>q. fiber_at ?st2 g = Some q \<and> fb_parent q = c"
    using Cons.prems(3) calm_fiber [OF calm(2)] by (fastforce simp: fiber_core_def)
  then show ?case
    using Cons.IH [OF calm(1)] calm_next [OF calm(2)] Cons.prems(2) r same by (simp add: case_prod_beta)
qed simp

lemma dispose_depth:
  fixes st :: "('v, 'w) cordis"
  assumes "store_inv P st" and "cd_next_scope st - c \<le> n" and "cd_next_scope st - c \<le> m"
  shows "dispose_scope n dis c st = dispose_scope m dis c st"
  using assms
proof (induction n arbitrary: m P st c)
  case 0
  then have "scope_at st c = None"
    using store_invD(1) [OF "0.prems"(1), of c] by (cases "scope_at st c") (auto simp: scope_ok_def)
  then show ?case by (cases m) simp_all
next
  case (Suc n)
  show ?case
  proof (cases "scope_at st c")
    case None
    then show ?thesis by (cases m) simp_all
  next
    case (Some sc)
    then have "c < cd_next_scope st" using store_invD(1) [OF Suc.prems(1)] by (simp add: scope_ok_def)
    then obtain k where m: "m = Suc k" using Suc.prems(3) by (cases m) auto
    have parents: "\<forall>f \<in> set (filter (fiber_live st) (sc_fibers sc)). \<exists>r. fiber_at st f = Some r \<and> fb_parent r = c"
      using store_invD(1) [OF Suc.prems(1) Some] by (auto simp: scope_ok_def)
    define stm where "stm = fold mark_unmounting (filter (fiber_live st) (sc_fibers sc)) st"
    define st1 where "st1 = on_scope c start_disposing stm"
    have calmm: "calm (Suc c) c st stm" unfolding stm_def using parents by (intro calm_marks) fastforce
    have scm: "scope_at stm c = Some sc" using Some by (simp add: stm_def mark_fold_simps)
    have inv1: "store_inv (rev (active_ids (sc_effects sc)) @ P) st1"
      unfolding st1_def by (rule store_inv_take [OF _ scm]) (simp add: stm_def store_inv_marks [OF Suc.prems(1)])
    have next1: "cd_next_scope st1 = cd_next_scope st" by (simp add: st1_def stm_def cordis_simps mark_fold_simps)
    have fibers1: "\<forall>f \<in> set (filter (fiber_live st) (sc_fibers sc)). \<exists>r. fiber_at st1 f = Some r \<and> fb_parent r = c"
    proof
      fix f assume "f \<in> set (filter (fiber_live st) (sc_fibers sc))"
      then obtain r where "fiber_at st f = Some r" "fb_parent r = c" using parents by blast
      then show "\<exists>r. fiber_at st1 f = Some r \<and> fb_parent r = c"
        using calm_fiber [OF calmm] by (fastforce simp: st1_def fiber_core_def cordis_simps)
    qed
    have below: "cd_next_scope s - e \<le> n" "cd_next_scope s - e \<le> k"
      if "c < e" "cd_next_scope s = cd_next_scope st" for e and s :: "('v, 'w) cordis"
      using that Suc.prems(2,3) m by auto
    have above: "disposes_above c (cd_next_scope st) (dispose_scope n dis :: nat \<Rightarrow> (('v, 'w) cordis, cordis_error, unit) act)"
      unfolding disposes_above_def using dispose_scope_spec below by blast
    have "dispose_fibers (dispose_scope n dis) (filter (fiber_live st) (sc_fibers sc)) None st1 =
        dispose_fibers (dispose_scope k dis) (filter (fiber_live st) (sc_fibers sc)) None st1"
      by (rule dispose_fibers_cong [OF above _ inv1 next1 fibers1]) (use Suc.IH below in blast)
    then show ?thesis
      by (simp add: m Some start_disposing_def [abs_def] st1_def stm_def split: scope_state.split)
  qed
qed

end
