(* ===== verification/Cordis_Scope_Steps.thy ===== *)
theory Cordis_Scope_Steps
  imports Cordis_Dispose
begin

text \<open>
  The operations on scopes as steps of the store. Each keeps the store invariant and touches only the
  scope it is called on and younger ones, which \<open>frame\<close> says.
\<close>

section \<open>Frames\<close>

definition frame :: "nat \<Rightarrow> ('v, 'w) cordis \<Rightarrow> ('v, 'w) cordis \<Rightarrow> bool" where
  "frame s st st' \<longleftrightarrow> cd_next_scope st \<le> cd_next_scope st' \<and> cd_next_fiber st \<le> cd_next_fiber st' \<and>
     (\<forall>d < s. scope_at st' d = scope_at st d) \<and>
     (\<forall>f r. fiber_at st f = Some r \<and> fb_parent r < s \<longrightarrow> fiber_at st' f = Some r) \<and>
     (\<forall>f r. fiber_at st f = Some r \<longrightarrow>
        (\<exists>r'. fiber_at st' f = Some r' \<and> fb_parent r' = fb_parent r \<and> fb_scope r' = fb_scope r)) \<and>
     (\<forall>d. scope_at st d \<noteq> None \<longrightarrow> scope_at st' d \<noteq> None)"

lemma frame_refl [simp]: "frame s st st"
  by (simp add: frame_def)

lemma frame_trans: "frame s a b \<Longrightarrow> frame s b c \<Longrightarrow> frame s a c"
proof -
  assume ab: "frame s a b" and bc: "frame s b c"
  have "\<exists>r'. fiber_at c f = Some r' \<and> fb_parent r' = fb_parent r \<and> fb_scope r' = fb_scope r"
    if r: "fiber_at a f = Some r" for f r
  proof -
    obtain q where q: "fiber_at b f = Some q" "fb_parent q = fb_parent r" "fb_scope q = fb_scope r"
      using ab r unfolding frame_def by blast
    obtain p where "fiber_at c f = Some p" "fb_parent p = fb_parent q" "fb_scope p = fb_scope q"
      using bc q(1) unfolding frame_def by blast
    with q show ?thesis by simp
  qed
  then show ?thesis using ab bc by (simp add: frame_def)
qed

lemma frame_mono: "frame s a b \<Longrightarrow> s' \<le> s \<Longrightarrow> frame s' a b"
  unfolding frame_def by (meson less_le_trans)

lemma calm_frame: "calm s p a b \<Longrightarrow> c \<le> s \<Longrightarrow> c \<le> p \<Longrightarrow> frame c a b"
proof -
  assume calm: "calm s p a b" and c: "c \<le> s" "c \<le> p"
  have "\<exists>r'. fiber_at b f = Some r' \<and> fb_parent r' = fb_parent r \<and> fb_scope r' = fb_scope r" if "fiber_at a f = Some r" for f r
    using calm_fiber [OF calm that] by (auto simp: fiber_core_def)
  moreover have "scope_at a d \<noteq> None \<Longrightarrow> scope_at b d \<noteq> None" for d
    using calm_scopeD [OF calm] by fastforce
  ultimately show ?thesis using calm c unfolding frame_def calm_def by simp
qed

lemma frame_on_scope: "s \<le> c \<Longrightarrow> frame s st (on_scope c g st)"
  by (auto simp: frame_def cordis_simps)

lemma frame_set_fiber: "(\<And>r. fiber_at st f = Some r \<Longrightarrow> s \<le> fb_parent r) \<Longrightarrow> frame s st (set_fiber f x st)"
  by (fastforce simp: frame_def cordis_simps)

section \<open>Updates that keep the invariant\<close>

lemma store_inv_on_scope:
  assumes inv: "store_inv P st"
    and g: "\<And>sc. scope_at st c = Some sc \<Longrightarrow> sc_parent (g sc) = sc_parent sc \<and> sc_effects (g sc) = sc_effects sc \<and>
      sc_state (g sc) = sc_state sc \<and> bs_wf (sc_fibers (g sc)) \<and>
      (\<forall>f \<in> set (sc_fibers (g sc)). \<exists>r. fiber_at st f = Some r \<and> fb_parent r = c) \<and>
      (sc_state sc = ScopeDisposed \<longrightarrow> sc_services (g sc) = [] \<and> sc_fibers (g sc) = [])"
  shows "store_inv P (on_scope c g st)" (is "store_inv P ?st")
proof (rule store_invI)
  have at: "effect_at ?st d i = effect_at st d i" for d i
    using g unfolding effect_at_on_scope by (simp add: effect_at_def effects_of_def split: option.split)
  show "scope_ok ?st d x" if x: "scope_at ?st d = Some x" for d x
  proof (cases "d = c")
    case True
    then obtain y where y: "scope_at st c = Some y" "x = g y" using x by (auto simp: cordis_simps)
    have "scope_at ?st p \<noteq> None" if "scope_at st p \<noteq> None" for p using that by (auto simp: cordis_simps)
    moreover have "scope_ok st c y" by (rule store_invD(1) [OF inv y(1)])
    ultimately show ?thesis
      using True y(2) g [OF y(1)] unfolding scope_ok_def active_def at by (simp add: cordis_simps)
  next
    case False
    then have y: "scope_at st d = Some x" using x by (simp add: cordis_simps)
    have "scope_at ?st p \<noteq> None" if "scope_at st p \<noteq> None" for p using that by (auto simp: cordis_simps)
    then show ?thesis
      using store_invD(1) [OF inv y] unfolding scope_ok_def active_def at by (simp add: cordis_simps)
  qed
  show "fiber_ok ?st f x" if "fiber_at ?st f = Some x" for f x
    using store_invD(2) [OF inv, of f x] that by (simp add: fiber_ok_def cordis_simps)
  show "effect_ok P ?st j e" if "effect_at ?st d j = Some e" for d j e
    using store_invD(3) [OF inv, of d j e] that by (simp add: at effect_ok_def cordis_simps)
  show "c1 = c2" if "effect_at ?st c1 j \<noteq> None" "effect_at ?st c2 j \<noteq> None" for c1 c2 j
    using store_invD(4) [OF inv, of c1 j c2] that by (simp add: at)
  show "held_ok P ?st j" if "bt_get (cd_held ?st) j = Some e" for j e
    using store_invD(7) [OF inv, of j e] that by (simp add: held_ok_def at cordis_simps)
qed (use store_invD(5,6) [OF inv] in \<open>auto simp: cordis_simps\<close>)

lemma settled_on_scope:
  "settled st \<Longrightarrow> (\<And>sc. scope_at st c = Some sc \<Longrightarrow> sc_state (g sc) = sc_state sc) \<Longrightarrow> settled (on_scope c g st)"
  unfolding settled_def by (auto simp: cordis_simps) metis

lemma settled_calm: "calm s p st st' \<Longrightarrow> settled st \<Longrightarrow> settled st'"
  unfolding settled_def using calm_scope_back by (fastforce simp: calm_scope_def)

text \<open>Changes of the store that leave the scopes, the trace and the counters alone.\<close>

lemma store_inv_fibers:
  assumes inv: "store_inv P st" and same: "cd_scopes st' = cd_scopes st" "cd_trace st' = cd_trace st"
    "cd_next_scope st' = cd_next_scope st" "cd_next_effect st' = cd_next_effect st" "cd_held st' = cd_held st"
    and old: "\<And>f r. fiber_at st f = Some r \<Longrightarrow> \<exists>r'. fiber_at st' f = Some r' \<and> fb_parent r' = fb_parent r"
    and new: "\<And>f r. fiber_at st' f = Some r \<Longrightarrow> fiber_ok st' f r"
  shows "store_inv P st'"
proof (rule store_invI)
  note at = effect_at_other [OF same(1)]
  show "scope_ok st' c sc" if "scope_at st' c = Some sc" for c sc
  proof -
    have "scope_ok st c sc" using that same store_invD(1) [OF inv] by simp
    then show ?thesis using old unfolding scope_ok_def active_def at same by fastforce
  qed
  show "fiber_ok st' f x" if "fiber_at st' f = Some x" for f x by (rule new [OF that])
  show "effect_ok P st' j e" if "effect_at st' c j = Some e" for c j e
    using store_invD(3) [OF inv, of c j e] that by (simp add: at effect_ok_def same)
  show "c1 = c2" if "effect_at st' c1 j \<noteq> None" "effect_at st' c2 j \<noteq> None" for c1 c2 j
    using store_invD(4) [OF inv, of c1 j c2] that by (simp add: at)
  show "held_ok P st' j" if "bt_get (cd_held st') j = Some e" for j e
    using store_invD(7) [OF inv, of j e] that by (simp add: held_ok_def at same)
qed (use store_invD(5,6) [OF inv] same in auto)

lemma release_simps [cordis_simps]:
  "cd_scopes (release_record f st) = cd_scopes st" "cd_trace (release_record f st) = cd_trace st"
  "cd_next_scope (release_record f st) = cd_next_scope st" "cd_next_effect (release_record f st) = cd_next_effect st"
  "cd_next_fiber (release_record f st) = cd_next_fiber st" "cd_held (release_record f st) = cd_held st"
  "fiber_at (release_record f st) g =
     (if g = f then map_option (\<lambda>r. r\<lparr>fb_live := False\<rparr>) (fiber_at st f) else fiber_at st g)"
  by (simp_all add: release_record_def)

lemma store_inv_release: "store_inv P st \<Longrightarrow> store_inv P (release_record f st)"
  by (rule store_inv_fibers [of P st])
     (auto simp: cordis_simps fiber_ok_def split: if_splits dest: store_invD(2))

lemma frame_release: "(\<And>r. fiber_at st f = Some r \<Longrightarrow> s \<le> fb_parent r) \<Longrightarrow> frame s st (release_record f st)"
  by (fastforce simp: frame_def cordis_simps)

lemma store_inv_new_fiber:
  assumes inv: "store_inv P st" and r: "fb_parent r < fb_scope r" "fb_scope r < cd_next_scope st"
  shows "store_inv P (st\<lparr>cd_next_fiber := cd_next_fiber st + 1, cd_fibers := bt_insert (cd_next_fiber st) r (cd_fibers st)\<rparr>)"
proof (rule store_inv_fibers [OF inv])
  have fresh: "fiber_at st (cd_next_fiber st) = None"
    using store_invD(2) [OF inv, of "cd_next_fiber st"] by (cases "fiber_at st (cd_next_fiber st)") (auto simp: fiber_ok_def)
  show "\<exists>q'. fiber_at (st\<lparr>cd_next_fiber := cd_next_fiber st + 1, cd_fibers := bt_insert (cd_next_fiber st) r (cd_fibers st)\<rparr>) f = Some q' \<and> fb_parent q' = fb_parent q"
    if "fiber_at st f = Some q" for f q
    using that fresh by auto
  show "fiber_ok (st\<lparr>cd_next_fiber := cd_next_fiber st + 1, cd_fibers := bt_insert (cd_next_fiber st) r (cd_fibers st)\<rparr>) f q"
    if "fiber_at (st\<lparr>cd_next_fiber := cd_next_fiber st + 1, cd_fibers := bt_insert (cd_next_fiber st) r (cd_fibers st)\<rparr>) f = Some q" for f q
    using that r store_invD(2) [OF inv, of f q] by (auto simp: fiber_ok_def split: if_splits)
qed simp_all

lemma store_inv_new_scope:
  assumes inv: "store_inv P st" and p: "p = None \<or> (\<exists>q. p = Some q \<and> scope_at st q \<noteq> None)"
    and st': "cd_scopes st' = bt_insert (cd_next_scope st) (new_scope p b) (cd_scopes st)"
      "cd_next_scope st' = cd_next_scope st + 1" "cd_next_effect st' = cd_next_effect st" "cd_next_fiber st' = cd_next_fiber st"
      "cd_fibers st' = cd_fibers st" "cd_trace st' = cd_trace st" "cd_held st' = cd_held st"
  shows "store_inv P st'"
proof (rule store_invI)
  have fresh: "scope_at st (cd_next_scope st) = None"
    using store_invD(1) [OF inv, of "cd_next_scope st"] by (cases "scope_at st (cd_next_scope st)") (auto simp: scope_ok_def)
  have at: "effect_at st' c i = effect_at st c i" for c i
    using fresh by (simp add: effect_at_def effects_of_def st' new_scope_def)
  have known: "scope_at st c = Some sc \<Longrightarrow> c < cd_next_scope st" for c sc
    using store_invD(1) [OF inv] by (simp add: scope_ok_def)
  show "scope_ok st' c sc" if sc: "scope_at st' c = Some sc" for c sc
  proof (cases "c = cd_next_scope st")
    case True
    then have "sc = new_scope p b" using sc by (simp add: st')
    then show ?thesis
      using True p known fresh by (auto simp: scope_ok_def new_scope_def st' bs_wf_def)
  next
    case False
    then have "scope_at st c = Some sc" using sc by (simp add: st')
    then show ?thesis
      using store_invD(1) [OF inv, of c sc] unfolding scope_ok_def active_def at by (auto simp: st')
  qed
  show "fiber_ok st' f x" if "fiber_at st' f = Some x" for f x
    using store_invD(2) [OF inv, of f x] that by (simp add: fiber_ok_def st')
  show "effect_ok P st' j e" if "effect_at st' c j = Some e" for c j e
    using store_invD(3) [OF inv, of c j e] that by (simp add: at effect_ok_def st')
  show "c1 = c2" if "effect_at st' c1 j \<noteq> None" "effect_at st' c2 j \<noteq> None" for c1 c2 j
    using store_invD(4) [OF inv, of c1 j c2] that by (simp add: at)
  show "held_ok P st' j" if "bt_get (cd_held st') j = Some e" for j e
    using store_invD(7) [OF inv, of j e] that by (simp add: held_ok_def at st')
qed (use store_invD(5,6) [OF inv] st' in auto)

section \<open>The operations\<close>

text \<open>The bound \<open>s\<close> is a scope the store already has, or the next one.\<close>

definition steps_well :: "nat \<Rightarrow> ('v, 'w) cordis \<Rightarrow> ('v, 'w) cordis \<Rightarrow> bool" where
  "steps_well s st st' \<longleftrightarrow> cordis_inv st' \<and> frame s st st'"

lemma steps_well_trans: "steps_well s a b \<Longrightarrow> steps_well s b c \<Longrightarrow> steps_well s a c"
  unfolding steps_well_def using frame_trans by blast

lemma steps_well_refl: "cordis_inv st \<Longrightarrow> steps_well s st st"
  by (simp add: steps_well_def)

lemma cordis_invD:
  assumes "cordis_inv st"
  shows "store_inv [] st" "settled st"
  using assms by (simp_all add: cordis_inv_def)

lemma scope_bound: "cordis_inv st \<Longrightarrow> scope_at st c = Some sc \<Longrightarrow> c < cd_next_scope st"
  using store_invD(1) [OF cordis_invD(1), of st c sc] by (simp add: scope_ok_def)

lemma hierarchy_active: "ensure_hierarchy_active c st = Inr () \<Longrightarrow> scope_at st c = Some sc \<Longrightarrow> sc_state sc = ScopeActive"
  by (subst (asm) ensure_hierarchy_active_def, subst (asm) walk.simps) (auto split: if_splits)

lemma settled_new_scope:
  "settled st \<Longrightarrow> cd_scopes st' = bt_insert c (new_scope p b) (cd_scopes st) \<Longrightarrow> settled st'"
  by (auto simp: settled_def new_scope_def)

lemma frame_new_scope:
  assumes "cordis_inv st" "s \<le> cd_next_scope st" "cd_scopes st' = bt_insert (cd_next_scope st) (new_scope p b) (cd_scopes st)"
    "cd_next_scope st' = cd_next_scope st + 1" "cd_next_fiber st' = cd_next_fiber st" "cd_fibers st' = cd_fibers st"
  shows "frame s st st'"
  using assms by (auto simp: frame_def)

lemma context_new_steps: "cordis_inv st \<Longrightarrow> s \<le> cd_next_scope st \<Longrightarrow> steps_well s st (snd (context_new st))"
  unfolding steps_well_def cordis_inv_def
  by (auto simp: context_new_def Let_def intro!: frame_new_scope store_inv_new_scope [of "[]" st] settled_new_scope [of st]
      simp: cordis_inv_def)

lemma child_steps:
  assumes "cordis_inv st" "scope_at st c \<noteq> None" "s \<le> cd_next_scope st"
  shows "steps_well s st (snd (child c st))"
proof (cases "ensure_hierarchy_active c st")
  case (Inr u)
  have "store_inv [] (snd (child c st))"
    by (rule store_inv_new_scope [OF cordis_invD(1) [OF assms(1)], of "Some c"])
       (use Inr assms(2) in \<open>auto simp: child_def Let_def\<close>)
  moreover have "settled (snd (child c st))"
    by (rule settled_new_scope [OF cordis_invD(2) [OF assms(1)]]) (simp add: child_def Let_def Inr)
  moreover have "frame s st (snd (child c st))"
    by (rule frame_new_scope [OF assms(1,3)]) (simp_all add: child_def Let_def Inr)
  ultimately show ?thesis by (simp add: steps_well_def cordis_inv_def)
qed (use assms(1) in \<open>simp add: child_def steps_well_refl\<close>)

lemma on_scope_steps:
  assumes inv: "cordis_inv st" and s: "s \<le> c"
    and g: "\<And>sc. scope_at st c = Some sc \<Longrightarrow> sc_parent (g sc) = sc_parent sc \<and> sc_effects (g sc) = sc_effects sc \<and>
      sc_state (g sc) = sc_state sc \<and> bs_wf (sc_fibers (g sc)) \<and>
      (\<forall>f \<in> set (sc_fibers (g sc)). \<exists>r. fiber_at st f = Some r \<and> fb_parent r = c) \<and>
      (sc_state sc = ScopeDisposed \<longrightarrow> sc_services (g sc) = [] \<and> sc_fibers (g sc) = [])"
  shows "steps_well s st (on_scope c g st)"
  unfolding steps_well_def cordis_inv_def
  using store_inv_on_scope [OF cordis_invD(1) [OF inv] g] settled_on_scope [OF cordis_invD(2) [OF inv]] frame_on_scope [OF s] g
  by blast

lemma scope_parts:
  assumes "cordis_inv st" "scope_at st c = Some sc"
  shows "bs_wf (sc_fibers sc)" "f \<in> set (sc_fibers sc) \<Longrightarrow> \<exists>r. fiber_at st f = Some r \<and> fb_parent r = c"
    "sc_state sc = ScopeDisposed \<Longrightarrow> sc_services sc = [] \<and> sc_fibers sc = []"
  using store_invD(1) [OF cordis_invD(1) [OF assms(1)] assms(2)] by (auto simp: scope_ok_def)

lemma provide_steps: "cordis_inv st \<Longrightarrow> s \<le> c \<Longrightarrow> steps_well s st (snd (provide c k x st))"
  using hierarchy_active [of c st] scope_parts [of st c]
  by (auto simp: provide_def steps_well_refl split: sum.split intro!: on_scope_steps)

lemma remove_service_steps: "cordis_inv st \<Longrightarrow> s \<le> c \<Longrightarrow> steps_well s st (snd (remove_service c k st))"
  using scope_parts [of st c]
  by (auto simp: remove_service_def steps_well_refl bt_remove_def split: sum.split option.split intro!: on_scope_steps)

lemma unregister_steps: "cordis_inv st \<Longrightarrow> s \<le> c \<Longrightarrow> steps_well s st (unregister_fiber c f st)"
  using scope_parts [of st c] unfolding unregister_fiber_def
  by (intro on_scope_steps) (auto, simp add: bs_remove_def)

lemma set_fiber_steps:
  assumes "cordis_inv st" "\<And>r. fiber_at st f = Some r \<Longrightarrow> s \<le> fb_parent r"
  shows "steps_well s st (set_fiber f x st)"
  using assms store_inv_set_fiber frame_set_fiber
  unfolding steps_well_def cordis_inv_def settled_def by (metis set_fiber_simps(1))

lemma release_steps:
  assumes "cordis_inv st" "\<And>r. fiber_at st f = Some r \<Longrightarrow> s \<le> fb_parent r"
  shows "steps_well s st (release_record f st)"
  using assms store_inv_release frame_release
  unfolding steps_well_def cordis_inv_def settled_def by (metis release_simps(1))

lemma dispose_steps: "cordis_inv st \<Longrightarrow> s \<le> c \<Longrightarrow> steps_well s st (snd (dispose dis c st))"
  unfolding steps_well_def cordis_inv_def
  using dispose_spec [of "[]" st dis c] settled_calm calm_frame by blast

text \<open>Effects.\<close>

lemma store_inv_effect_new: "store_inv P st \<Longrightarrow> store_inv P (snd (effect_new ef st))"
proof -
  assume inv: "store_inv P st"
  let ?st = "snd (effect_new ef st)"
  have new [simp]: "cd_scopes ?st = cd_scopes st" "cd_fibers ?st = cd_fibers st" "cd_trace ?st = cd_trace st"
    "cd_next_scope ?st = cd_next_scope st" "cd_next_fiber ?st = cd_next_fiber st"
    "cd_next_effect ?st = Suc (cd_next_effect st)" "cd_held ?st = bt_insert (cd_next_effect st) ef (cd_held st)"
    by (simp_all add: effect_new_def Let_def)
  have at: "effect_at ?st c i = effect_at st c i" for c i by (rule effect_at_other) simp
  have fresh: "effect_at st c (cd_next_effect st) = None" for c
    using store_invD(3) [OF inv, of c "cd_next_effect st"]
    by (cases "effect_at st c (cd_next_effect st)") (auto simp: effect_ok_def)
  show ?thesis
  proof (rule store_invI)
    show "scope_ok ?st c sc" if "scope_at ?st c = Some sc" for c sc
      using store_invD(1) [OF inv, of c sc] that unfolding scope_ok_def active_def at by simp
    show "fiber_ok ?st f r" if "fiber_at ?st f = Some r" for f r
      using store_invD(2) [OF inv, of f r] that by (simp add: fiber_ok_def)
    show "effect_ok P ?st i e" if "effect_at ?st c i = Some e" for c i e
      using store_invD(3) [OF inv, of c i e] that unfolding at by (auto simp: effect_ok_def)
    show "c = d" if "effect_at ?st c i \<noteq> None" "effect_at ?st d i \<noteq> None" for c d i
      using store_invD(4) [OF inv, of c i d] that unfolding at by simp
    show "i < cd_next_effect ?st" if "i \<in> set (cd_trace ?st @ P)" for i
      using store_invD(6) [OF inv, of i] that by auto
    show "held_ok P ?st i" if "bt_get (cd_held ?st) i = Some e" for i e
      using that store_invD(7) [OF inv, of i e] store_invD(6) [OF inv, of i] fresh
      by (auto simp: held_ok_def at split: if_splits)
  qed (use store_invD(5) [OF inv] in simp)
qed

lemma effect_new_steps: "cordis_inv st \<Longrightarrow> steps_well s st (snd (effect_new ef st))"
  using store_inv_effect_new [of "[]" st ef]
  by (auto simp: steps_well_def cordis_inv_def settled_def frame_def effect_new_def Let_def)

lemma give_held_simps [cordis_simps]:
  "cd_scopes (give_held i st) = cd_scopes st" "cd_fibers (give_held i st) = cd_fibers st"
  "cd_trace (give_held i st) = cd_trace st" "cd_next_scope (give_held i st) = cd_next_scope st"
  "cd_next_fiber (give_held i st) = cd_next_fiber st" "cd_next_effect (give_held i st) = cd_next_effect st"
  "cd_held (give_held i st) = bt_remove i (cd_held st)"
  by (simp_all add: give_held_def)

lemma store_inv_give_held: "store_inv P st \<Longrightarrow> store_inv P (give_held i st)"
proof -
  assume inv: "store_inv P st"
  have at: "effect_at (give_held i st) c j = effect_at st c j" for c j by (rule effect_at_other) (simp add: cordis_simps)
  show ?thesis
    using inv unfolding store_inv_def
    by (simp add: cordis_simps at scope_ok_def fiber_ok_def effect_ok_def held_ok_def active_def)
qed

lemma discard_effect_steps: "cordis_inv st \<Longrightarrow> steps_well s st (discard_effect e st)"
proof -
  assume inv: "cordis_inv st"
  note inv1 = store_inv_give_held [OF cordis_invD(1) [OF inv], of "fst e"]
  have "store_inv [] (discard_effect e st)"
    unfolding discard_effect_def
    by (rule store_inv_fibers [OF inv1]) (auto simp: cordis_simps fiber_ok_def dest: store_invD(2) [OF cordis_invD(1) [OF inv]])
  then show ?thesis
    using cordis_invD(2) [OF inv]
    by (simp add: steps_well_def cordis_inv_def settled_def frame_def discard_effect_def cordis_simps)
qed

definition with_effect :: "nat \<Rightarrow> effect \<Rightarrow> 'v scope \<Rightarrow> 'v scope" where
  "with_effect i ef sc = sc\<lparr>sc_effects := bt_insert i \<lparr>er_effect = Some ef, er_state = EffectActive\<rparr> (sc_effects sc)\<rparr>"

lemma store_inv_install:
  assumes inv: "store_inv P st" and held: "held_ok P st i" and gone: "bt_get (cd_held st) i = None"
    and live: "\<And>sc. scope_at st c = Some sc \<Longrightarrow> sc_state sc \<noteq> ScopeDisposed"
  shows "store_inv P (on_scope c (with_effect i ef) st)" (is "store_inv P ?st")
proof (rule store_invI)
  note i = held [unfolded held_ok_def, THEN conjunct1] held [unfolded held_ok_def, THEN conjunct2, THEN conjunct2, rule_format]
    held [unfolded held_ok_def, THEN conjunct2, THEN conjunct1]
  let ?r = "\<lparr>er_effect = Some ef, er_state = EffectActive\<rparr>"
  have at: "effect_at ?st d j = (if d = c \<and> j = i \<and> scope_at st c \<noteq> None then Some ?r else effect_at st d j)" for d j
    unfolding effect_at_on_scope by (simp add: effect_at_def effects_of_def with_effect_def split: option.split)
  show "scope_ok ?st d x" if x: "scope_at ?st d = Some x" for d x
  proof -
    obtain y where y: "scope_at st d = Some y" "x = (if d = c then with_effect i ef y else y)"
      using x by (auto simp: cordis_simps split: if_splits)
    have "d = c \<Longrightarrow> sc_state y \<noteq> ScopeDisposed" using live y(1) by simp
    then show ?thesis
      using store_invD(1) [OF inv y(1)] y(2)
      by (auto simp: scope_ok_def with_effect_def active_def at cordis_simps)
  qed
  show "fiber_ok ?st f r" if "fiber_at ?st f = Some r" for f r
    using store_invD(2) [OF inv, of f r] that by (simp add: fiber_ok_def cordis_simps)
  show "effect_ok P ?st j e" if "effect_at ?st d j = Some e" for d j e
    using store_invD(3) [OF inv, of d j e] that i by (auto simp: at effect_ok_def cordis_simps split: if_splits)
  show "c1 = c2" if "effect_at ?st c1 j \<noteq> None" "effect_at ?st c2 j \<noteq> None" for c1 c2 j
    using store_invD(4) [OF inv, of c1 j c2] that i(2) by (auto simp: at split: if_splits)
  show "held_ok P ?st j" if "bt_get (cd_held ?st) j = Some e" for j e
  proof -
    have "j \<noteq> i" using that gone by (auto simp: cordis_simps)
    then show ?thesis
      using store_invD(7) [OF inv, of j e] that by (simp add: held_ok_def at cordis_simps)
  qed
qed (use store_invD(5,6) [OF inv] in \<open>auto simp: cordis_simps\<close>)

lemma insert_effect_snd: "snd (insert_effect c e st) = on_scope c (with_effect (fst e) (snd e)) (give_held (fst e) st)"
  by (simp add: insert_effect_def with_effect_def [abs_def])

lemma install_effect_steps:
  assumes inv: "cordis_inv st" and s: "s \<le> c" and held: "bt_get (cd_held st) (fst e) \<noteq> None"
  shows "steps_well s st (snd (install_effect c e st))"
proof (cases "ensure_hierarchy_active c st")
  case (Inl err)
  then show ?thesis using discard_effect_steps [OF inv] by (simp add: install_effect_def)
next
  case (Inr u)
  let ?st = "give_held (fst e) st"
  obtain ef where ef: "bt_get (cd_held st) (fst e) = Some ef" using held by blast
  have at: "effect_at ?st d j = effect_at st d j" for d j by (rule effect_at_other) (simp add: cordis_simps)
  have eq: "snd (install_effect c e st) = on_scope c (with_effect (fst e) (snd e)) ?st"
    using Inr by (simp add: install_effect_def insert_effect_snd)
  have "store_inv [] (on_scope c (with_effect (fst e) (snd e)) ?st)"
    by (rule store_inv_install [OF store_inv_give_held [OF cordis_invD(1) [OF inv]]])
       (use store_invD(7) [OF cordis_invD(1) [OF inv] ef] hierarchy_active [of c st] Inr in
         \<open>auto simp: cordis_simps held_ok_def at\<close>)
  moreover have "settled (on_scope c (with_effect (fst e) (snd e)) ?st)"
    by (rule settled_on_scope) (use cordis_invD(2) [OF inv] in \<open>simp_all add: settled_def cordis_simps with_effect_def\<close>)
  moreover have "frame s st ?st" by (simp add: frame_def cordis_simps)
  ultimately show ?thesis
    unfolding eq steps_well_def cordis_inv_def using frame_trans [OF _ frame_on_scope [OF s]] by blast
qed

lemma store_inv_take_one:
  assumes inv: "store_inv P st" and i: "active st c i"
  shows "store_inv (i # P) (set_effect c i \<lparr>er_effect = None, er_state = EffectDisposing\<rparr> st)" (is "store_inv _ ?st")
proof (rule store_invI)
  have fresh: "i \<notin> set (cd_trace st @ P)" by (rule active_pending [OF inv i])
  have only: "d = c" if "effect_at st d i \<noteq> None" for d
    using i store_invD(4) [OF inv, of d i c] that by (auto simp: active_def)
  have sub: "active ?st d j \<Longrightarrow> active st d j" for d j
    by (auto simp: active_def effect_at_set_effect split: if_splits)
  show "scope_ok ?st d x" if x: "scope_at ?st d = Some x" for d x
  proof -
    obtain y where y: "scope_at st d = Some y" "sc_parent x = sc_parent y" "sc_fibers x = sc_fibers y"
      "sc_state x = sc_state y" "sc_services x = sc_services y" "bt_wf (sc_effects x) = bt_wf (sc_effects y)"
      using x by (auto simp: scope_at_set_effect split: if_splits)
    show ?thesis
      using store_invD(1) [OF inv y(1)] y sub [of d] by (auto simp: scope_ok_def cordis_simps scope_at_set_effect)
  qed
  show "fiber_ok ?st f x" if "fiber_at ?st f = Some x" for f x
    using store_invD(2) [OF inv, of f x] that by (simp add: fiber_ok_def cordis_simps)
  show "effect_ok (i # P) ?st j e" if e: "effect_at ?st d j = Some e" for d j e
  proof (cases "j = i")
    case True
    then have "d = c" using e only [of d] by (auto simp: effect_at_set_effect split: if_splits)
    moreover obtain r where "effect_at st c i = Some r" using i by (auto simp: active_def)
    ultimately show ?thesis
      using True e store_invD(3) [OF inv, of c i r] by (auto simp: effect_at_set_effect effect_ok_def cordis_simps)
  next
    case False
    then show ?thesis
      using e store_invD(3) [OF inv, of d j e] by (auto simp: effect_at_set_effect effect_ok_def cordis_simps split: if_splits)
  qed
  show "c1 = c2" if "effect_at ?st c1 j \<noteq> None" "effect_at ?st c2 j \<noteq> None" for c1 c2 j
    using that store_invD(4) [OF inv, of c1 j c2] by (auto simp: effect_at_set_effect split: if_splits)
  show "held_ok (i # P) ?st j" if "bt_get (cd_held ?st) j = Some e" for j e
    using store_invD(7) [OF inv, of j e] that i
    by (auto simp: held_ok_def cordis_simps effect_at_set_effect active_def)
  show "distinct (cd_trace ?st @ i # P)" using fresh store_invD(5) [OF inv] by (simp add: cordis_simps)
  show "j < cd_next_effect ?st" if "j \<in> set (cd_trace ?st @ i # P)" for j
    using that i store_invD(3) [OF inv, of c i] store_invD(6) [OF inv, of j]
    by (auto simp: cordis_simps active_def effect_ok_def)
qed

lemma run_taken_snd: "\<exists>r. snd (run_taken dis c i ef st) = set_effect c i r (snd (effect_run dis i ef st))"
  by (auto simp: run_taken_def split: prod.split)

lemma set_effect_frame: "s \<le> c \<Longrightarrow> frame s st (set_effect c i r st)"
  unfolding set_effect_def by (rule frame_on_scope)

lemma run_taken_frame:
  assumes "s \<le> c"
  shows "frame s st (snd (run_taken dis c i ef st))"
proof -
  obtain r where "snd (run_taken dis c i ef st) = set_effect c i r (snd (effect_run dis i ef st))"
    using run_taken_snd by blast
  moreover have "frame s st (snd (effect_run dis i ef st))" by (simp add: frame_def cordis_simps)
  ultimately show ?thesis using frame_trans [OF _ set_effect_frame [OF assms]] by simp
qed

lemma settled_set_effect: "settled st \<Longrightarrow> settled (set_effect c i r st)"
  by (auto simp: settled_def scope_at_set_effect)

lemma settled_run_taken: "settled st \<Longrightarrow> settled (snd (run_taken dis c i ef st))"
proof -
  assume "settled st"
  then have "settled (snd (effect_run dis i ef st))" by (simp add: settled_def cordis_simps)
  moreover obtain r where "snd (run_taken dis c i ef st) = set_effect c i r (snd (effect_run dis i ef st))"
    using run_taken_snd by blast
  ultimately show ?thesis by (simp add: settled_set_effect)
qed

lemma dispose_effect_steps:
  assumes inv: "cordis_inv st" and s: "s \<le> c"
  shows "steps_well s st (snd (dispose_effect dis c i st))"
proof (cases "active st c i")
  case True
  then obtain r where r: "bt_get (effects_of c st) i = Some r" "er_state r = EffectActive"
    by (auto simp: active_def effect_at_def)
  then obtain ef where ef: "er_effect r = Some ef"
    using store_invD(3) [OF cordis_invD(1) [OF inv], of c i r] by (auto simp: effect_at_def effect_ok_def)
  let ?st = "set_effect c i \<lparr>er_effect = None, er_state = EffectDisposing\<rparr> st"
  have eq: "snd (dispose_effect dis c i st) = snd (run_taken dis c i ef ?st)" by (simp add: dispose_effect_def r ef)
  have "store_inv [] (snd (run_taken dis c i ef ?st))"
    by (rule run_taken_inv) (rule store_inv_take_one [OF cordis_invD(1) [OF inv] True])
  moreover have "settled (snd (run_taken dis c i ef ?st))"
    using settled_run_taken settled_set_effect cordis_invD(2) [OF inv] by blast
  moreover have "frame s st (snd (run_taken dis c i ef ?st))"
    by (rule frame_trans [OF set_effect_frame [OF s] run_taken_frame [OF s]])
  ultimately show ?thesis unfolding eq steps_well_def cordis_inv_def by blast
next
  case False
  then have "snd (dispose_effect dis c i st) = st"
    by (auto simp: dispose_effect_def active_def effect_at_def split: option.split)
  then show ?thesis using steps_well_refl [OF inv] by simp
qed

text \<open>Fibers.\<close>

lemma steps_wellD:
  assumes "steps_well s st st'"
  shows "cordis_inv st'" "frame s st st'"
  using assms by (simp_all add: steps_well_def)

lemma own_subscription_steps:
  assumes "cordis_inv st" "s \<le> c"
  shows "steps_well s st (snd (own_subscription c bus u st))"
proof -
  let ?e = "effect_new (EffectSubscription bus u) st"
  have new: "steps_well s st (snd ?e)" by (rule effect_new_steps [OF assms(1)])
  have "bt_get (cd_held (snd ?e)) (fst ?e) \<noteq> None" by (simp add: effect_new_def Let_def)
  then have "steps_well s (snd ?e) (snd (install_effect c (fst ?e, EffectSubscription bus u) (snd ?e)))"
    by (intro install_effect_steps [OF steps_wellD(1) [OF new] assms(2)]) simp
  then show ?thesis using steps_well_trans [OF new] by (simp add: own_subscription_def case_prod_beta)
qed

lemma frame_fiber:
  "frame s st st' \<Longrightarrow> fiber_at st f = Some r \<Longrightarrow>
     \<exists>r'. fiber_at st' f = Some r' \<and> fb_parent r' = fb_parent r \<and> fb_scope r' = fb_scope r"
  by (simp add: frame_def)

lemma register_fiber_steps:
  assumes "cordis_inv st" "s \<le> c" "fiber_at st f = Some r" "fb_parent r = c"
  shows "steps_well s st (snd (register_fiber c f plugin st))"
  using assms hierarchy_active [of c st] scope_parts [of st c]
  by (auto simp: register_fiber_def steps_well_refl split: sum.split intro!: on_scope_steps)

lemma set_dispose_steps:
  assumes inv: "cordis_inv st" and s: "s \<le> fb_parent r" and r: "fiber_at st f = Some r"
  shows "steps_well s st (snd (dispose dis (fb_scope r) (set_fiber f x st)))"
proof -
  have "fb_parent r < fb_scope r" using store_invD(2) [OF cordis_invD(1) [OF inv] r] by (simp add: fiber_ok_def)
  then have "s \<le> fb_scope r" using s by simp
  moreover have "steps_well s st (set_fiber f x st)" by (rule set_fiber_steps [OF inv]) (use r s in simp)
  ultimately show ?thesis using dispose_steps steps_well_trans steps_wellD(1) by blast
qed

lemma settle_fiber_steps:
  assumes well: "steps_well s st st'" and r: "fiber_at st f = Some r" and s: "s \<le> fb_parent r"
  shows "steps_well s st (set_fiber f x st')" "steps_well s st (unregister_fiber (fb_parent r) g st')"
    "steps_well s st (release_record f st')"
proof -
  note r' = frame_fiber [OF steps_wellD(2) [OF well] r]
  show "steps_well s st (set_fiber f x st')"
    by (rule steps_well_trans [OF well], rule set_fiber_steps [OF steps_wellD(1) [OF well]]) (use r' s in auto)
  show "steps_well s st (unregister_fiber (fb_parent r) g st')"
    by (rule steps_well_trans [OF well], rule unregister_steps [OF steps_wellD(1) [OF well] s])
  show "steps_well s st (release_record f st')"
    by (rule steps_well_trans [OF well], rule release_steps [OF steps_wellD(1) [OF well]]) (use r' s in auto)
qed

lemma unmount_steps:
  assumes inv: "cordis_inv st" and r: "fiber_at st f = Some r" and s: "s \<le> fb_parent r"
  shows "steps_well s st (snd (unmount dis f st))"
proof (cases "fb_state r")
  case FiberMounted
  have eq: "snd (unmount dis f st) = unregister_fiber (fb_parent r) f
      (set_fiber f FiberUnmounted (snd (dispose dis (fb_scope r) (set_fiber f FiberUnmounting st))))"
    by (simp add: unmount_def r FiberMounted case_prod_beta)
  show ?thesis
    unfolding eq by (intro settle_fiber_steps [OF _ r s] set_dispose_steps [OF inv s r])
next
  case FiberFailed
  have eq: "snd (unmount dis f st) = unregister_fiber (fb_parent r) f (set_fiber f FiberUnmounted st)"
    by (simp add: unmount_def r FiberFailed)
  show ?thesis unfolding eq by (intro settle_fiber_steps [OF _ r s] steps_well_refl [OF inv])
qed (simp_all add: unmount_def r steps_well_refl [OF inv])

lemma drop_fiber_steps:
  assumes "cordis_inv st" "fiber_at st f = Some r" "s \<le> fb_parent r"
  shows "steps_well s st (drop_fiber dis f st)"
  unfolding drop_fiber_def by (rule settle_fiber_steps(3) [OF unmount_steps [OF assms] assms(2,3)])

text \<open>The store in which a failed mount ends.\<close>

definition mount_undone :: "'w disposer \<Rightarrow> nat \<Rightarrow> fiber_record \<Rightarrow> ('v, 'w) cordis \<Rightarrow> ('v, 'w) cordis" where
  "mount_undone dis f r st =
     release_record f (unregister_fiber (fb_parent r) f (set_fiber f FiberUnmounted (unregister_fiber (fb_parent r) f
       (snd (dispose dis (fb_scope r) (set_fiber f FiberFailed st))))))"

lemma unregister_simps [cordis_simps]:
  "cd_fibers (unregister_fiber c f st) = cd_fibers st" "cd_next_scope (unregister_fiber c f st) = cd_next_scope st"
  "scope_at (unregister_fiber c f st) d =
     (if d = c then map_option (\<lambda>sc. sc\<lparr>sc_fibers := bs_remove f (sc_fibers sc)\<rparr>) (scope_at st c) else scope_at st d)"
  "effect_at (unregister_fiber c f st) d i = effect_at st d i"
  unfolding unregister_fiber_def effect_at_on_scope
  by (simp_all add: cordis_simps, simp add: effect_at_def effects_of_def split: option.split)

lemma failed_fiber:
  assumes inv: "cordis_inv st" and r: "fiber_at st f = Some r"
  shows "fiber_at (snd (dispose dis (fb_scope r) (set_fiber f FiberFailed st))) f = Some (r\<lparr>fb_state := FiberFailed\<rparr>)"
proof -
  have less: "fb_parent r < fb_scope r" using store_invD(2) [OF cordis_invD(1) [OF inv] r] by (simp add: fiber_ok_def)
  have calm: "calm (fb_scope r) (fb_scope r) (set_fiber f FiberFailed st) (snd (dispose dis (fb_scope r) (set_fiber f FiberFailed st)))"
    using dispose_spec [OF store_inv_set_fiber [OF cordis_invD(1) [OF inv]]] by blast
  have "fiber_at (set_fiber f FiberFailed st) f = Some (r\<lparr>fb_state := FiberFailed\<rparr>)" using r by (simp add: cordis_simps)
  from calm_keeps_fiber [OF calm this] show ?thesis using less by simp
qed

lemma drop_failed_fiber:
  "fiber_at st f = Some r \<Longrightarrow> fb_state r = FiberFailed \<Longrightarrow>
     drop_fiber dis f st = release_record f (unregister_fiber (fb_parent r) f (set_fiber f FiberUnmounted st))"
  by (simp add: drop_fiber_def unmount_def)

lemma fail_mount_snd:
  "snd (fail_mount dis c f x plugin m st) =
     drop_fiber dis f (unregister_fiber c f (snd (dispose dis x (set_fiber f FiberFailed st))))"
  by (simp add: fail_mount_def case_prod_beta)

lemma fail_mount_state:
  assumes inv: "cordis_inv st" and r: "fiber_at st f = Some r"
  shows "snd (fail_mount dis (fb_parent r) f (fb_scope r) plugin m st) = mount_undone dis f r st"
proof -
  let ?st = "unregister_fiber (fb_parent r) f (snd (dispose dis (fb_scope r) (set_fiber f FiberFailed st)))"
  have "fiber_at ?st f = Some (r\<lparr>fb_state := FiberFailed\<rparr>)"
    unfolding unregister_simps by (rule failed_fiber [OF assms])
  from drop_failed_fiber [OF this, of dis] show ?thesis by (simp add: fail_mount_snd mount_undone_def)
qed

lemma mount_undone_steps:
  assumes "cordis_inv st" "fiber_at st f = Some r" "s \<le> fb_parent r"
  shows "steps_well s st (mount_undone dis f r st)"
  unfolding mount_undone_def by (intro settle_fiber_steps [OF _ assms(2,3)] set_dispose_steps [OF assms(1,3,2)])

lemma finish_mount_steps:
  assumes "cordis_inv st" "fiber_at st f = Some r" "s \<le> fb_parent r"
  shows "steps_well s st (snd (finish_mount dis (fb_parent r) (plugin, f, fb_scope r) result st))"
  using mount_undone_steps [OF assms] set_fiber_steps [OF assms(1), of f s FiberMounted] assms(2,3)
  by (auto simp: finish_mount_def fail_mount_state [OF assms(1,2)] split: option.split sum.split)

end
