(* ===== verification/Cordis_Claims.thy ===== *)
theory Cordis_Claims
  imports Cordis_Scope_Steps
begin

text \<open>
  What the scopes guarantee in every store that calls carried out one after another can reach: each effect
  is run at most once and disposed scopes hold nothing; disposal ends, closes what it should and runs
  effects from the youngest to the oldest; a failed mount leaves the scopes as they were; a provided
  service is found and can be taken back. Two theorems show limits of this: the order of disposal is not
  that of registration, and an installation that a disposal overtakes leaves an effect behind.
\<close>

section \<open>Reachable stores\<close>

lemma begin_mount_Inr:
  assumes "begin_mount dis c i deps st = (Inr (plugin, f, x), st')"
  shows "ensure_hierarchy_active c st = Inr () \<and> x = cd_next_scope st \<and> f = cd_next_fiber st \<and>
    st' = (let st1 = snd (child c st);
               st2 = st1\<lparr>cd_next_fiber := f + 1, cd_fibers := bt_insert f
                 \<lparr>fb_plugin = plugin, fb_scope = x, fb_parent = c, fb_state = FiberMounting, fb_live = True\<rparr> (cd_fibers st1)\<rparr>
           in on_scope c (\<lambda>sc. sc\<lparr>sc_fibers := bs_insert f (sc_fibers sc)\<rparr>) st2)"
  using assms
  by (auto simp: begin_mount_def child_def register_fiber_def Let_def split: sum.splits option.splits if_splits prod.splits)

lemma new_fiber_steps:
  assumes "cordis_inv st" "fb_parent r < fb_scope r" "fb_scope r < cd_next_scope st"
  shows "steps_well s st (st\<lparr>cd_next_fiber := cd_next_fiber st + 1, cd_fibers := bt_insert (cd_next_fiber st) r (cd_fibers st)\<rparr>)"
proof -
  have "fiber_at st (cd_next_fiber st) = None"
    using store_invD(2) [OF cordis_invD(1) [OF assms(1)], of "cd_next_fiber st"]
    by (cases "fiber_at st (cd_next_fiber st)") (auto simp: fiber_ok_def)
  then have "frame s st (st\<lparr>cd_next_fiber := cd_next_fiber st + 1, cd_fibers := bt_insert (cd_next_fiber st) r (cd_fibers st)\<rparr>)"
    by (auto simp: frame_def)
  then show ?thesis
    using store_inv_new_fiber [OF cordis_invD(1) [OF assms(1)] assms(2,3)] cordis_invD(2) [OF assms(1)]
    by (simp add: steps_well_def cordis_inv_def settled_def)
qed

definition mounting :: "nat \<Rightarrow> rstring \<Rightarrow> nat \<Rightarrow> ('v, 'w) cordis \<Rightarrow> ('v, 'w) cordis" where
  "mounting c plugin x st = st\<lparr>cd_next_fiber := Suc (cd_next_fiber st), cd_fibers := bt_insert (cd_next_fiber st)
     \<lparr>fb_plugin = plugin, fb_scope = x, fb_parent = c, fb_state = FiberMounting, fb_live = True\<rparr> (cd_fibers st)\<rparr>"

lemma begin_mount_cases:
  assumes "child c st = (Inr x, st1)"
  shows "snd (begin_mount dis c i deps st) = st \<or>
    (\<exists>plugin. snd (begin_mount dis c i deps st) = snd (register_fiber c (cd_next_fiber st1) plugin (mounting c plugin x st1)) \<or>
       snd (begin_mount dis c i deps st) = release_record (cd_next_fiber st1)
         (snd (dispose dis x (snd (register_fiber c (cd_next_fiber st1) plugin (mounting c plugin x st1))))))"
proof -
  have "snd (begin_mount dis c i deps st) \<in>
      {st, snd (register_fiber c (cd_next_fiber st1) plugin (mounting c plugin x st1)),
       release_record (cd_next_fiber st1) (snd (dispose dis x (snd (register_fiber c (cd_next_fiber st1) plugin (mounting c plugin x st1)))))}"
    if "cordis_id_new i = Inr plugin" for plugin
    using assms that
    by (auto simp: begin_mount_def Let_def mounting_def split: sum.split option.split prod.split)
  moreover have "snd (begin_mount dis c i deps st) = st" if "cordis_id_new i = Inl e" for e
    using that by (simp add: begin_mount_def)
  ultimately show ?thesis by (cases "cordis_id_new i") auto
qed

lemma begin_mount_steps:
  assumes inv: "cordis_inv st" and c: "scope_at st c \<noteq> None" and s: "s \<le> c"
  shows "steps_well s st (snd (begin_mount dis c i deps st))"
proof -
  obtain sc where "scope_at st c = Some sc" using c by blast
  then have young: "c < cd_next_scope st" by (rule scope_bound [OF inv])
  have child: "steps_well s st (snd (child c st))" using child_steps [OF inv c] s young by simp
  have next': "cd_next_scope (snd (child c st)) = Suc (cd_next_scope st)" "cd_next_fiber (snd (child c st)) = cd_next_fiber st"
    if "child c st = (Inr x, st1)" for x st1
    using that by (auto simp: child_def Let_def split: sum.splits)
  show ?thesis
  proof (cases "\<exists>x st1. child c st = (Inr x, st1)")
    case False
    then have "snd (begin_mount dis c i deps st) \<in> {st, snd (child c st)}"
      by (auto simp: begin_mount_def split: sum.splits option.splits prod.splits)
    then show ?thesis using child steps_well_refl [OF inv] by auto
  next
    case True
    then obtain x st1 where run: "child c st = (Inr x, st1)" by blast
    have x: "x = cd_next_scope st" using run by (auto simp: child_def Let_def split: sum.splits)
    have st1: "steps_well s st st1" using child run by simp
    have st2: "steps_well s st (mounting c plugin x st1)" for plugin
      unfolding mounting_def Suc_eq_plus1
      by (rule steps_well_trans [OF st1], rule new_fiber_steps [OF steps_wellD(1) [OF st1]])
         (use young x next' [OF run] run in simp_all)
    let ?f = "cd_next_fiber st1"
    have reg: "steps_well s (mounting c plugin x st1) (snd (register_fiber c ?f plugin (mounting c plugin x st1)))" for plugin
      by (rule register_fiber_steps [OF steps_wellD(1) [OF st2] s], simp add: mounting_def, simp)
    have "steps_well s (mounting c plugin x st1) (release_record ?f (snd (dispose dis x (snd (register_fiber c ?f plugin (mounting c plugin x st1))))))"
      for plugin
    proof -
      have "s \<le> x" using s x young by simp
      then have "steps_well s (mounting c plugin x st1) (snd (dispose dis x (snd (register_fiber c ?f plugin (mounting c plugin x st1)))))"
        using reg dispose_steps [OF steps_wellD(1) [OF reg]] steps_well_trans by blast
      then show ?thesis by (rule settle_fiber_steps(3), simp add: mounting_def, simp add: s)
    qed
    then show ?thesis
      using begin_mount_cases [OF run, of dis i deps] reg st2 steps_well_trans steps_well_refl [OF inv] by metis
  qed
qed

text \<open>
  One call on a scope, carried out to its end: calls of several threads are taken in some order, and none
  begins inside another. A mount is two steps, so that the plugin's own code, and any other calls, come
  between them. A context that is held names an existing scope; an effect that is installed or discarded
  is one that was built and is still held.
\<close>

inductive cordis_step :: "'w disposer \<Rightarrow> nat \<Rightarrow> ('v, 'w) cordis \<Rightarrow> ('v, 'w) cordis \<Rightarrow> bool"
  for dis :: "'w disposer" where
  step_new: "cordis_step dis (cd_next_scope st) st (snd (context_new st))"
| step_child: "scope_at st c \<noteq> None \<Longrightarrow> cordis_step dis c st (snd (child c st))"
| step_provide: "cordis_step dis c st (snd (provide c k x st))"
| step_remove: "cordis_step dis c st (snd (remove_service c k st))"
| step_build: "cordis_step dis c st (snd (effect_new ef st))"
| step_discard: "bt_get (cd_held st) i = Some ef \<Longrightarrow> cordis_step dis c st (discard_effect (i, ef) st)"
| step_install: "bt_get (cd_held st) i = Some ef \<Longrightarrow> cordis_step dis c st (snd (install_effect c (i, ef) st))"
| step_own: "cordis_step dis c st (snd (own_subscription c b u st))"
| step_dispose_effect: "cordis_step dis c st (snd (dispose_effect dis c i st))"
| step_dispose: "cordis_step dis c st (snd (dispose dis c st))"
| step_begin: "scope_at st c \<noteq> None \<Longrightarrow> cordis_step dis c st (snd (begin_mount dis c i deps st))"
| step_finish: "fiber_at st f = Some r \<Longrightarrow>
    cordis_step dis (fb_parent r) st (snd (finish_mount dis (fb_parent r) (plugin, f, fb_scope r) result st))"
| step_unmount: "fiber_at st f = Some r \<Longrightarrow> cordis_step dis (fb_parent r) st (snd (unmount dis f st))"
| step_drop: "fiber_at st f = Some r \<Longrightarrow> cordis_step dis (fb_parent r) st (drop_fiber dis f st)"

lemma cordis_step_well:
  assumes "cordis_step dis d st st'" and inv: "cordis_inv st" and s: "s \<le> d" "s \<le> cd_next_scope st"
  shows "steps_well s st st'"
  using assms(1)
proof cases
  case step_new
  then show ?thesis using context_new_steps [OF inv s(2)] by simp
next
  case step_child
  then show ?thesis using child_steps [OF inv _ s(2)] by blast
next
  case (step_provide k x)
  then show ?thesis using provide_steps [OF inv s(1)] by simp
next
  case (step_remove k)
  then show ?thesis using remove_service_steps [OF inv s(1)] by simp
next
  case (step_build ef)
  then show ?thesis using effect_new_steps [OF inv] by simp
next
  case (step_discard i ef)
  then show ?thesis using discard_effect_steps [OF inv] by simp
next
  case (step_install i ef)
  then show ?thesis using install_effect_steps [OF inv s(1), of "(i, ef)"] by simp
next
  case (step_own b u)
  then show ?thesis using own_subscription_steps [OF inv s(1)] by simp
next
  case (step_dispose_effect i)
  then show ?thesis using dispose_effect_steps [OF inv s(1)] by simp
next
  case step_dispose
  then show ?thesis using dispose_steps [OF inv s(1)] by simp
next
  case (step_begin i deps)
  then show ?thesis using begin_mount_steps [OF inv _ s(1)] by blast
next
  case (step_finish f r plugin result)
  then show ?thesis using finish_mount_steps [OF inv] s(1) by blast
next
  case (step_unmount f r)
  then show ?thesis using unmount_steps [OF inv] s(1) by blast
next
  case (step_drop f r)
  then show ?thesis using drop_fiber_steps [OF inv] s(1) by blast
qed

definition cordis_start :: "('v, 'w) cordis \<Rightarrow> bool" where
  "cordis_start st \<longleftrightarrow> (\<exists>w. st = cordis_new w)"

definition any_step :: "'w disposer \<Rightarrow> ('v, 'w) cordis \<Rightarrow> ('v, 'w) cordis \<Rightarrow> bool" where
  "any_step dis st st' \<longleftrightarrow> (\<exists>d. cordis_step dis d st st')"

interpretation scopes: component "cordis_start :: ('v, 'w) cordis \<Rightarrow> bool" "any_step dis" cordis_inv
proof unfold_locales
  show "cordis_inv st" if "cordis_start st" for st :: "('v, 'w) cordis"
    using that by (auto simp: cordis_start_def cordis_new_def cordis_inv_def store_inv_def settled_def effect_at_def effects_of_def)
  show "cordis_inv st'" if inv: "cordis_inv st" and step: "any_step dis st st'" for st st' :: "('v, 'w) cordis"
  proof -
    obtain d where "cordis_step dis d st st'" using step by (auto simp: any_step_def)
    then have "steps_well 0 st st'" by (rule cordis_step_well [OF _ inv]) simp_all
    then show ?thesis by (rule steps_wellD(1))
  qed
qed

section \<open>Effects and disposal\<close>

text \<open>A run that builds an effect and installs it in a fresh root scope.\<close>

definition demo_disposer :: "nat list disposer" where
  "demo_disposer i w = (Some (Inr ()), w @ [i])"

definition demo_root :: "(nat, nat list) cordis" where
  "demo_root = snd (context_new (cordis_new []))"

definition demo_built :: "(nat, nat list) cordis" where
  "demo_built = snd (effect_new EffectClosure demo_root)"

definition demo_scope :: "(nat, nat list) cordis" where
  "demo_scope = snd (install_effect 1 (1, EffectClosure) demo_built)"

lemmas demo_cordis_defs = demo_scope_def demo_built_def demo_root_def context_new_def cordis_new_def
  install_effect_def insert_effect_def give_held_def effect_new_def ensure_hierarchy_active_def walk.simps new_scope_def on_scope_def bt_update_def Let_def

lemma demo_root_reach: "reach cordis_start (any_step demo_disposer) demo_root"
proof -
  have "reach cordis_start (any_step demo_disposer) (cordis_new [] :: (nat, nat list) cordis)"
    by (rule reach_start) (auto simp: cordis_start_def)
  then show ?thesis
    unfolding demo_root_def by (rule reach_step) (use step_new in \<open>auto simp: any_step_def\<close>)
qed

lemma demo_built_reach: "reach cordis_start (any_step demo_disposer) demo_built"
  unfolding demo_built_def using demo_root_reach
  by (rule reach_step) (unfold any_step_def, use step_build in blast)

lemma demo_scope_reach: "reach cordis_start (any_step demo_disposer) demo_scope"
  unfolding demo_scope_def using demo_built_reach
proof (rule reach_step)
  have "bt_get (cd_held demo_built) 1 = Some EffectClosure" by (simp add: demo_cordis_defs)
  then show "any_step demo_disposer demo_built (snd (install_effect 1 (1, EffectClosure) demo_built))"
    unfolding any_step_def using step_install by blast
qed

lemma demo_scope_at: "scope_at demo_scope 1 = Some (with_effect 1 EffectClosure (new_scope None 1))"
  by (simp add: demo_cordis_defs with_effect_def)

text \<open>C23: every effect runs at most once. In any store reached by calls carried out one after another that
  create scopes, provide and remove services, build, install, discard and dispose effects, mount, unmount
  and drop fibers and dispose scopes, no effect has been run twice, an installed effect is active exactly
  as long as it has not been run, and a disposed scope has no services, no fibers and no active effect.
  (Calls that overlap are not covered: \<open>raced_install_never_runs\<close>.)\<close>

theorem effects_run_once:
  assumes "reach cordis_start (any_step dis) st"
  shows "distinct (cd_trace st) \<and>
    (\<forall>c i r. effect_at st c i = Some r \<longrightarrow> (er_state r = EffectActive) = (i \<notin> set (cd_trace st))) \<and>
    (\<forall>c sc. scope_at st c = Some sc \<and> sc_state sc = ScopeDisposed \<longrightarrow>
       sc_services sc = [] \<and> sc_fibers sc = [] \<and> (\<forall>i. \<not> active st c i))"
proof -
  have inv: "store_inv [] st" using scopes.reach_inv [OF assms] by (rule cordis_invD(1))
  show ?thesis
    using store_invD(1,3,5) [OF inv] by (fastforce simp: effect_ok_def scope_ok_def)
qed

theorem effects_run_once_witness:
  "distinct (cd_trace demo_scope) \<and> 1 \<notin> set (cd_trace demo_scope)"
proof -
  have "effect_at demo_scope 1 1 = Some \<lparr>er_effect = Some EffectClosure, er_state = EffectActive\<rparr>"
    using effect_at_scope [OF demo_scope_at, of 1] by (simp add: with_effect_def)
  then show ?thesis using effects_run_once [OF demo_scope_reach] by fastforce
qed

text \<open>C22: disposing a scope winds it down. On any store that calls carried out one after another can reach,
  disposing an active scope leaves it disposed and empty, with every fiber it had unmounted and that
  fiber's scope closed; it runs effects of scopes below it first and then its own active effects, all of
  them, from the one built last to the one built first (by falling id, whatever order they were installed
  in) and whatever the disposers return; older scopes are untouched, and disposing again does nothing.\<close>

theorem dispose_winds_down:
  assumes "reach cordis_start (any_step dis) st" and "scope_at st c = Some sc" and "sc_state sc = ScopeActive"
    and "dispose dis c st = (r, st')"
  shows "\<exists>sc' xs. scope_at st' c = Some sc' \<and> sc_state sc' = ScopeDisposed \<and> sc_services sc' = [] \<and> sc_fibers sc' = [] \<and>
    cd_trace st' = cd_trace st @ xs @ rev (active_ids (sc_effects sc)) \<and> (\<forall>i \<in> set xs. \<exists>d > c. active st d i) \<and>
    set (active_ids (sc_effects sc)) = {i. active st c i} \<and> sorted_wrt (<) (active_ids (sc_effects sc)) \<and>
    (\<forall>f \<in> set (sc_fibers sc). fiber_live st f \<longrightarrow> unmounted st' f) \<and>
    (\<forall>d < c. scope_at st' d = scope_at st d) \<and> dispose dis c st' = (Inr (), st')"
proof -
  have inv: "store_inv [] st" using scopes.reach_inv [OF assms(1)] by (rule cordis_invD(1))
  have "c < cd_next_scope st" by (rule scope_bound [OF scopes.reach_inv [OF assms(1)] assms(2)])
  then obtain n where n: "cd_next_scope st = Suc n" by (cases "cd_next_scope st") auto
  have "disposes_above c (Suc n) (dispose_scope n dis :: nat \<Rightarrow> (('a, 'b) cordis, cordis_error, unit) act)"
    unfolding disposes_above_def using dispose_scope_spec by (metis Suc_leI diff_le_mono2 diff_Suc_Suc diff_le_self le_trans)
  from dispose_active [OF this [folded n] inv assms(2,3)]
  have wound: "wound_down c st st'" and calm: "calm c c st st'"
    using assms(4) by (simp_all add: dispose_def n del: dispose_scope.simps)
  have again: "dispose dis c st' = (Inr (), st')" if "scope_at st' c = Some x" "sc_state x = ScopeDisposed" for x
    using that calm_next [OF calm] by (simp add: dispose_def n)
  have ids: "set (active_ids (sc_effects sc)) = {i. active st c i}" "sorted_wrt (<) (active_ids (sc_effects sc))"
    using active_ids_inv(1) [OF inv assms(2)] active_ids_sorted store_invD(1) [OF inv assms(2)] by (auto simp: scope_ok_def)
  show ?thesis
    using wound calm again ids assms(2) unfolding wound_down_def calm_def by fastforce
qed

text \<open>Two effects, the second of which is installed first.\<close>

definition demo_two :: "(nat, nat list) cordis" where
  "demo_two = snd (effect_new EffectClosure demo_built)"

definition demo_second :: "(nat, nat list) cordis" where
  "demo_second = snd (install_effect 1 (2, EffectClosure) demo_two)"

definition demo_pair :: "(nat, nat list) cordis" where
  "demo_pair = snd (install_effect 1 (1, EffectClosure) demo_second)"

lemmas demo_pair_defs = demo_pair_def demo_second_def demo_two_def demo_cordis_defs

lemma demo_pair_reach: "reach cordis_start (any_step demo_disposer) demo_pair"
  unfolding demo_pair_def
proof (rule reach_step)
  have "reach cordis_start (any_step demo_disposer) demo_two"
    unfolding demo_two_def using demo_built_reach by (rule reach_step) (unfold any_step_def, use step_build in blast)
  moreover have "bt_get (cd_held demo_two) 2 = Some EffectClosure" by (simp add: demo_pair_defs)
  then have "any_step demo_disposer demo_two demo_second"
    unfolding any_step_def demo_second_def using step_install by blast
  ultimately show "reach cordis_start (any_step demo_disposer) demo_second" by (rule reach_step)
  have "bt_get (cd_held demo_second) 1 = Some EffectClosure" by (simp add: demo_pair_defs bt_remove_def)
  then show "any_step demo_disposer demo_second (snd (install_effect 1 (1, EffectClosure) demo_second))"
    unfolding any_step_def using step_install by blast
qed

lemma demo_pair_at: "scope_at demo_pair 1 = Some (with_effect 1 EffectClosure (with_effect 2 EffectClosure (new_scope None 1)))"
  by (simp add: demo_pair_defs with_effect_def)

theorem dispose_winds_down_witness:
  "\<exists>sc' xs. scope_at (snd (dispose demo_disposer 1 demo_pair)) 1 = Some sc' \<and> sc_state sc' = ScopeDisposed \<and>
     cd_trace (snd (dispose demo_disposer 1 demo_pair)) = cd_trace demo_pair @ xs @ [2, 1]"
  using dispose_winds_down [OF demo_pair_reach demo_pair_at _ prod.collapse [symmetric]]
  by (auto simp: with_effect_def new_scope_def active_ids_def)

text \<open>
  The order of disposal is that of building, not of registration: here effect 2 was installed before
  effect 1, and is run before it, where the reverse of the registrations would run effect 1 first.
\<close>

theorem dispose_ignores_installation_order:
  "demo_second = snd (install_effect 1 (2, EffectClosure) demo_two) \<and>
   demo_pair = snd (install_effect 1 (1, EffectClosure) demo_second) \<and>
   cd_world (snd (dispose demo_disposer 1 demo_pair)) = [2, 1]"
proof -
  have "cd_world (snd (dispose demo_disposer 1 demo_pair)) = [2, 1]" by code_simp
  then show ?thesis by (simp add: demo_second_def demo_pair_def)
qed

text \<open>
  \<open>install_effect\<close> checks the hierarchy, lets the lock go and then inserts. When a disposal of the scope
  comes between the two, the effect ends up active in a disposed scope, has not been run, and disposing
  the scope again does not run it.
\<close>

theorem raced_install_never_runs:
  defines "raced \<equiv> snd (insert_effect 1 (1, EffectClosure) (snd (dispose demo_disposer 1 demo_built)))"
  shows "ensure_hierarchy_active 1 demo_built = Inr () \<and> map_option sc_state (scope_at raced 1) = Some ScopeDisposed \<and>
    active raced 1 1 \<and> cd_trace raced = [] \<and> dispose demo_disposer 1 raced = (Inr (), raced)"
proof -
  have at: "map_option sc_state (scope_at raced 1) = Some ScopeDisposed" unfolding raced_def by code_simp
  have "cd_next_scope raced = 2" unfolding raced_def by code_simp
  then have again: "dispose demo_disposer 1 raced = (Inr (), raced)"
    using at by (auto simp: dispose_def numeral_2_eq_2)
  have "map_option er_state (effect_at raced 1 1) = Some EffectActive" unfolding raced_def by code_simp
  then have active: "active raced 1 1" by (auto simp: active_def)
  have "cd_trace raced = []" "ensure_hierarchy_active 1 demo_built = Inr ()" unfolding raced_def by code_simp+
  then show ?thesis using at again active by blast
qed

text \<open>C40: disposal ends within its depth. On any reachable store the recursion of a disposal into the scopes of
  its fibers never needs more depth than there are scopes younger than the one disposed: every
  larger bound gives the same result.\<close>

theorem dispose_fuel:
  assumes "reach cordis_start (any_step dis) st" and "cd_next_scope st - c \<le> n"
  shows "dispose_scope n dis c st = dispose dis c st"
  unfolding dispose_def
  using dispose_depth [OF cordis_invD(1) [OF scopes.reach_inv [OF assms(1)]] assms(2)] by simp

theorem dispose_fuel_witness: "dispose_scope 9 demo_disposer 1 demo_scope = dispose demo_disposer 1 demo_scope"
  by (rule dispose_fuel [OF demo_scope_reach]) (simp add: demo_cordis_defs)

section \<open>Failed mounts\<close>

text \<open>What the plugin's code, and anyone it hands its context to, can do: steps on its scope or younger ones.\<close>

definition local_step :: "'w disposer \<Rightarrow> nat \<Rightarrow> ('v, 'w) cordis \<Rightarrow> ('v, 'w) cordis \<Rightarrow> bool" where
  "local_step dis s st st' \<longleftrightarrow> (\<exists>d \<ge> s. cordis_step dis d st st')"

lemma local_steps:
  assumes "(local_step dis s)\<^sup>*\<^sup>* st st'" and "cordis_inv st" and "s \<le> cd_next_scope st"
  shows "steps_well s st st'"
  using assms(1)
proof induction
  case base
  then show ?case by (rule steps_well_refl [OF assms(2)])
next
  case (step b c)
  obtain d where d: "s \<le> d" "cordis_step dis d b c" using step.hyps(2) by (auto simp: local_step_def)
  have "s \<le> cd_next_scope b" using steps_wellD(2) [OF step.IH] assms(3) by (simp add: frame_def)
  then have "steps_well s b c" by (rule cordis_step_well [OF d(2) steps_wellD(1) [OF step.IH] d(1)])
  then show ?case by (rule steps_well_trans [OF step.IH])
qed

lemma bs_remove_insert: "x \<notin> set xs \<Longrightarrow> bs_remove x (bs_insert x xs) = xs"
  unfolding bs_remove_def by (induction x xs rule: bs_insert.induct) (auto simp: filter_id_conv)

lemma bs_remove_absent: "x \<notin> set xs \<Longrightarrow> bs_remove x xs = xs"
  by (auto simp: bs_remove_def filter_id_conv)

lemma begin_mount_store:
  assumes inv: "cordis_inv st" and run: "begin_mount dis c i deps st = (Inr (plugin, f, x), st1)"
  defines "r \<equiv> \<lparr>fb_plugin = plugin, fb_scope = x, fb_parent = c, fb_state = FiberMounting, fb_live = True\<rparr>"
  shows "x = cd_next_scope st" "f = cd_next_fiber st" "cd_next_scope st1 = Suc x"
    "d < x \<Longrightarrow> scope_at st1 d = (if d = c then map_option (\<lambda>sc. sc\<lparr>sc_fibers := bs_insert f (sc_fibers sc)\<rparr>) (scope_at st c)
       else scope_at st d)"
    "c \<noteq> x \<Longrightarrow> scope_at st1 x \<noteq> None"
    "fiber_at st1 g = (if g = f then Some r else fiber_at st g)" "cd_next_effect st1 = cd_next_effect st"
  using begin_mount_Inr [OF run]
  by (auto simp: child_def Let_def r_def cordis_simps)

lemma begun_inv:
  assumes "cordis_inv st" "scope_at st c \<noteq> None" "begin_mount dis c i deps st = (Inr m, st1)"
  shows "cordis_inv st1"
  using begin_mount_steps [OF assms(1,2) order_refl, of dis i deps] assms(3) by (simp add: steps_well_def)

lemma failed_mount_undone:
  assumes inv: "cordis_inv st" and here: "scope_at st c \<noteq> None"
    and run: "begin_mount dis c i deps st = (Inr (plugin, f, x), st1)"
    and well2: "steps_well x st1 st2" and finish: "finish_mount dis c (plugin, f, x) result st2 = (Inl e, st3)"
  shows "(\<forall>d. scope_at st d \<noteq> None \<longrightarrow> scope_at st3 d = scope_at st d) \<and>
    (\<forall>g. fiber_at st g \<noteq> None \<longrightarrow> fiber_at st3 g = fiber_at st g) \<and>
    (\<exists>sc. scope_at st3 x = Some sc \<and> sc_state sc = ScopeDisposed \<and> sc_services sc = [] \<and> sc_fibers sc = []) \<and>
    (\<forall>i. \<not> active st3 x i) \<and> (\<exists>r. fiber_at st3 f = Some r \<and> fb_state r = FiberUnmounted \<and> \<not> fb_live r) \<and>
    (\<exists>m. e = PluginMountFailed plugin m)"
proof -
  note store1 = begin_mount_store [OF inv run]
  obtain sc where sc: "scope_at st c = Some sc" using here by blast
  have c: "c < x" using scope_bound [OF inv sc] store1(1) by simp
  define r where "r = \<lparr>fb_plugin = plugin, fb_scope = x, fb_parent = c, fb_state = FiberMounting, fb_live = True\<rparr>"
  note inv2 = steps_wellD(1) [OF well2]
  have fiber1: "fiber_at st1 f = Some r" by (simp add: store1(6) r_def)
  then have fiber2: "fiber_at st2 f = Some r" using steps_wellD(2) [OF well2] c by (simp add: frame_def r_def)
  define std where "std = snd (dispose dis x (set_fiber f FiberFailed st2))"
  have st3: "st3 = release_record f (unregister_fiber c f (set_fiber f FiberUnmounted (unregister_fiber c f std)))"
    and e: "\<exists>m. e = PluginMountFailed plugin m"
    using fail_mount_state [OF inv2 fiber2, of dis plugin] finish
    by (auto simp: r_def finish_mount_def mount_undone_def std_def split: option.splits sum.splits dest: arg_cong [where f = snd])
       (auto simp: fail_mount_def split: prod.splits)
  have inv3: "cordis_inv st3"
    using mount_undone_steps [OF inv2 fiber2 order_refl, of dis] unfolding st3 mount_undone_def std_def
    by (simp add: r_def steps_well_def)
  have "store_inv [] (set_fiber f FiberFailed st2)" by (rule store_inv_set_fiber [OF cordis_invD(1) [OF inv2]])
  from dispose_spec [OF this, of dis x]
  have calm: "calm x x (set_fiber f FiberFailed st2) std" and closed: "not_active std x" by (simp_all add: std_def)
  have scd: "scope_at std d = scope_at st1 d" if "d < x" for d
    using calm steps_wellD(2) [OF well2] that by (simp add: calm_def frame_def cordis_simps)
  have "f \<notin> set (sc_fibers sc)"
    using scope_parts(2) [OF inv sc, of f] store_invD(2) [OF cordis_invD(1) [OF inv], of f] store1(2)
    by (auto simp: fiber_ok_def)
  then have back_c: "scope_at st3 c = scope_at st c"
    using scd [OF c] store1(4) [OF c] sc by (simp add: st3 cordis_simps bs_remove_insert bs_remove_absent)
  have scopes: "scope_at st3 d = scope_at st d" if d: "scope_at st d \<noteq> None" for d
  proof (cases "d = c")
    case False
    have "d < x" using d scope_bound [OF inv] store1(1) by fastforce
    then show ?thesis using False scd store1(4) by (simp add: st3 cordis_simps)
  qed (use back_c in simp)
  have fibers: "fiber_at st3 g = fiber_at st g" if "fiber_at st g = Some q" for g q
  proof -
    have q: "g < f" "fb_parent q < x"
      using store_invD(2) [OF cordis_invD(1) [OF inv] that] store1(1,2) by (auto simp: fiber_ok_def)
    have "fiber_at st2 g = Some q"
      using steps_wellD(2) [OF well2] store1(6) [of g] that q by (simp add: frame_def)
    then have "fiber_at (set_fiber f FiberFailed st2) g = Some q" using q by (simp add: cordis_simps)
    then show ?thesis using calm_keeps_fiber [OF calm _ q(2)] q(1) that by (simp add: st3 cordis_simps)
  qed
  have "scope_at st2 x \<noteq> None" using steps_wellD(2) [OF well2] store1(5) c by (simp add: frame_def)
  then obtain y where "scope_at std x = Some y"
    using calm_scopeD [OF calm, of x] by (auto simp: cordis_simps)
  then have y: "scope_at st3 x = Some y" using c by (simp add: st3 cordis_simps)
  have "sc_state y \<noteq> ScopeActive" using closed \<open>scope_at std x = Some y\<close> by (simp add: not_active_def)
  then have disposed: "sc_state y = ScopeDisposed"
    using cordis_invD(2) [OF inv3] y by (cases "sc_state y") (auto simp: settled_def)
  have "fiber_at std f = Some (r\<lparr>fb_state := FiberFailed\<rparr>)"
    using failed_fiber [OF inv2 fiber2, of dis] by (simp add: std_def r_def)
  then have "\<exists>q. fiber_at st3 f = Some q \<and> fb_state q = FiberUnmounted \<and> \<not> fb_live q" by (simp add: st3 cordis_simps)
  then show ?thesis
    using scopes fibers y disposed store_invD(1) [OF cordis_invD(1) [OF inv3] y] e by (auto simp: scope_ok_def)
qed

text \<open>C21: a failed mount undoes itself. On any reachable store, when a mount gets as far as running the
  plugin's code, and that code, whatever it does to the scope it was given and to scopes made from there,
  returns an error or panics, then every scope and fiber there was before is exactly as it was before, the
  plugin's scope is disposed, empty and without an active effect, its fiber is unmounted and
  released, and the error names the plugin.\<close>

theorem failed_mount_restores:
  assumes "reach cordis_start (any_step dis) st" and "scope_at st c \<noteq> None"
    and "begin_mount dis c i deps st = (Inr (plugin, f, x), st1)"
    and "(local_step dis x)\<^sup>*\<^sup>* st1 st2" and "finish_mount dis c (plugin, f, x) result st2 = (Inl e, st3)"
  shows "(\<forall>d. scope_at st d \<noteq> None \<longrightarrow> scope_at st3 d = scope_at st d) \<and>
    (\<forall>g. fiber_at st g \<noteq> None \<longrightarrow> fiber_at st3 g = fiber_at st g) \<and>
    (\<exists>sc. scope_at st3 x = Some sc \<and> sc_state sc = ScopeDisposed \<and> sc_services sc = [] \<and> sc_fibers sc = []) \<and>
    (\<forall>i. \<not> active st3 x i) \<and> (\<exists>r. fiber_at st3 f = Some r \<and> fb_state r = FiberUnmounted \<and> \<not> fb_live r) \<and>
    (\<exists>m. e = PluginMountFailed plugin m)"
proof (rule failed_mount_undone [OF _ assms(2,3) _ assms(5)])
  show inv: "cordis_inv st" by (rule scopes.reach_inv [OF assms(1)])
  show "steps_well x st1 st2"
    by (rule local_steps [OF assms(4) begun_inv [OF inv assms(2,3)]]) (simp add: begin_mount_store(3) [OF inv assms(3)])
qed

definition demo_plugin :: rstring where
  "demo_plugin = lit ''demo.plugin''"

definition demo_mounting :: "(nat, nat list) cordis" where
  "demo_mounting = snd (begin_mount demo_disposer 1 demo_plugin (Some []) demo_root)"

definition demo_mounted :: "(nat, nat list) cordis" where
  "demo_mounted = snd (install_effect 2 (1, EffectClosure) (snd (effect_new EffectClosure demo_mounting)))"

lemma demo_plugin_valid: "cordis_id_new demo_plugin = Inr demo_plugin"
  by (simp add: cordis_id_new_def demo_plugin_def lit_def utf8_width_def char_indices_def is_ascii_def
      is_control_def is_whitespace_def MAX_PLUGIN_ID_BYTES_def)

lemma demo_begins:
  "begin_mount demo_disposer 1 demo_plugin (Some []) demo_root = (Inr (demo_plugin, 1, 2), demo_mounting)"
proof -
  have "fst (begin_mount demo_disposer 1 demo_plugin (Some []) demo_root) = Inr (demo_plugin, 1, 2)"
    by (simp add: begin_mount_def demo_plugin_valid MAX_PLUGIN_DEPENDENCIES_def child_def register_fiber_def
        fibers_of_def demo_cordis_defs)
  then show ?thesis by (simp add: demo_mounting_def prod_eq_iff)
qed

theorem failed_mount_restores_witness:
  "scope_at (snd (finish_mount demo_disposer 1 (demo_plugin, 1, 2) None demo_mounted)) 1 = scope_at demo_root 1 \<and>
   (\<forall>i. \<not> active (snd (finish_mount demo_disposer 1 (demo_plugin, 1, 2) None demo_mounted)) 2 i)"
proof -
  have root: "scope_at demo_root 1 \<noteq> None" by (simp add: demo_cordis_defs)
  have step: "(local_step demo_disposer 2)\<^sup>*\<^sup>* demo_mounting demo_mounted"
  proof (rule rtranclp_trans)
    let ?built = "snd (effect_new EffectClosure demo_mounting)"
    show "(local_step demo_disposer 2)\<^sup>*\<^sup>* demo_mounting ?built"
      unfolding local_step_def by (rule r_into_rtranclp) (use step_build in blast)
    have "cd_next_effect demo_mounting = 1" using begin_mount_store(7) [OF scopes.reach_inv [OF demo_root_reach] demo_begins]
      by (simp add: demo_cordis_defs)
    then have "bt_get (cd_held ?built) 1 = Some EffectClosure" by (simp add: effect_new_def)
    then show "(local_step demo_disposer 2)\<^sup>*\<^sup>* ?built demo_mounted"
      unfolding demo_mounted_def local_step_def by (intro r_into_rtranclp) (use step_install in blast)
  qed
  have fails: "\<exists>e. fst (finish_mount demo_disposer 1 (demo_plugin, 1, 2) None demo_mounted) = Inl e"
    by (simp add: finish_mount_def fail_mount_def split: prod.split)
  then obtain e where "finish_mount demo_disposer 1 (demo_plugin, 1, 2) None demo_mounted =
      (Inl e, snd (finish_mount demo_disposer 1 (demo_plugin, 1, 2) None demo_mounted))"
    by (metis prod.collapse)
  from failed_mount_restores [OF demo_root_reach root demo_begins step this] root show ?thesis by blast
qed

section \<open>Services\<close>

lemma walk_older:
  assumes "\<And>d. d \<le> c \<Longrightarrow> scope_at st' d = scope_at st d"
  shows "walk g c st' = walk g c st"
  using assms
proof (induction g c st arbitrary: st' rule: walk.induct)
  case (1 g c st)
  show ?case
    by (subst (1 2) walk.simps) (use 1 in \<open>auto split: option.split\<close>)
qed

lemma walk_here: "walk g c st = Inr (Some x)"
  if "scope_at st c = Some sc" "sc_state sc = ScopeActive" "g sc = Some x"
  using that by (subst walk.simps) simp

lemma ensure_walk: "ensure_hierarchy_active c st = Inr () \<Longrightarrow> scope_at st' c = Some sc' \<Longrightarrow> sc_state sc' = ScopeActive \<Longrightarrow>
    (\<And>d. d < c \<Longrightarrow> scope_at st' d = scope_at st d) \<Longrightarrow> scope_at st c = Some sc \<Longrightarrow> sc_parent sc' = sc_parent sc \<Longrightarrow>
    ensure_hierarchy_active c st' = Inr ()"
  unfolding ensure_hierarchy_active_def
  by (subst (asm) walk.simps, subst walk.simps)
     (auto split: option.splits if_splits simp: walk_older [of _ st' st])

lemma bt_remove_insert: "bt_get m k = None \<Longrightarrow> bt_remove k (bt_insert k v m) = m"
  unfolding bt_remove_def
  by (induction k v m rule: bt_insert.induct) (auto simp: filter_id_conv dest: map_of_SomeD split: if_splits, metis weak_map_of_SomeI option.distinct(1))

definition with_service :: "service_key \<Rightarrow> 'v \<Rightarrow> 'v scope \<Rightarrow> 'v scope" where
  "with_service k x sc = sc\<lparr>sc_services :=
     bt_insert (sk_name k) \<lparr>sv_value = Any (rt_id (sk_type k)) x, sv_type = sk_type k\<rparr> (sc_services sc)\<rparr>"

lemma with_service_simps [simp]:
  "sc_parent (with_service k x sc) = sc_parent sc" "sc_state (with_service k x sc) = sc_state sc"
  "bt_get (sc_services (with_service k x sc)) (sk_name k) = Some \<lparr>sv_value = Any (rt_id (sk_type k)) x, sv_type = sk_type k\<rparr>"
  by (simp_all add: with_service_def)

lemma provide_Inr:
  assumes "provide c k x st = (Inr (), st')" and "scope_at st c = Some sc"
  shows "validate_service_name (sk_name k) = Inr ()" "ensure_hierarchy_active c st = Inr ()"
    "bt_get (sc_services sc) (sk_name k) = None" "st' = on_scope c (with_service k x) st"
proof -
  obtain u where "validate_service_name (sk_name k) = Inr u"
    using assms(1) by (cases "validate_service_name (sk_name k)") (auto simp: provide_def)
  then show "validate_service_name (sk_name k) = Inr ()" "ensure_hierarchy_active c st = Inr ()"
      "bt_get (sc_services sc) (sk_name k) = None" "st' = on_scope c (with_service k x) st"
    using assms
    by (auto simp: provide_def services_of_def bt_has_def with_service_def [abs_def] split: sum.splits if_splits)
qed

lemma find_provided:
  assumes "validate_service_name (sk_name k) = Inr ()"
    and "walk (\<lambda>sc. bt_get (sc_services sc) (sk_name k)) c st =
      Inr (Some \<lparr>sv_value = Any (rt_id (sk_type k)) x, sv_type = sk_type k\<rparr>)"
  shows "service c k st = Inr x"
  using assms by (simp add: service_def find_service_def Let_def)

text \<open>a provided service is found and can be taken back. On any reachable store, when a service is provided
  in a scope, looking it up there gives the value at its own type, and so does looking it up in a child
  created afterwards; providing it again is refused, and removing it restores every scope.\<close>

theorem provided_service_found:
  assumes "reach cordis_start (any_step dis) st" and "scope_at st c \<noteq> None" and "provide c k x st = (Inr (), st')"
  shows "service c k st' = Inr x \<and>
    (\<forall>d st''. child c st' = (Inr d, st'') \<longrightarrow> service d k st'' = Inr x) \<and>
    provide c k y st' = (Inl (DuplicateService c (sk_name k)), st') \<and>
    fst (remove_service c k st') = Inr () \<and> (\<forall>d. scope_at (snd (remove_service c k st')) d = scope_at st d)"
proof -
  have inv: "cordis_inv st" by (rule scopes.reach_inv [OF assms(1)])
  obtain sc where sc: "scope_at st c = Some sc" using assms(2) by blast
  note provided = provide_Inr [OF assms(3) sc]
  have active: "sc_state sc = ScopeActive" by (rule hierarchy_active [OF provided(2) sc])
  have at: "scope_at st' d = (if d = c then Some (with_service k x sc) else scope_at st d)" for d
    using sc by (simp add: provided(4) cordis_simps)
  have hier: "ensure_hierarchy_active c st' = Inr ()"
    using ensure_walk [OF provided(2), of st' "with_service k x sc" sc] at sc active by simp
  let ?e = "\<lparr>sv_value = Any (rt_id (sk_type k)) x, sv_type = sk_type k\<rparr>"
  let ?g = "\<lambda>sc. bt_get (sc_services sc) (sk_name k)"
  have found: "walk ?g c st' = Inr (Some ?e)"
    by (rule walk_here [of st' c "with_service k x sc"]) (simp_all add: at active)
  have inherited: "service d k st'' = Inr x" if "child c st' = (Inr d, st'')" for d st''
  proof -
    have d: "d = cd_next_scope st'" "scope_at st'' e = (if e = d then Some (new_scope (Some c) (sc_bus (with_service k x sc))) else scope_at st' e)" for e
      using that at by (auto simp: child_def hier Let_def)
    have "c < d" using scope_bound [OF inv sc] d(1) by (simp add: provided(4) cordis_simps)
    then have "walk ?g d st'' = walk ?g c st''" using d(2) [of d] by (subst walk.simps) (simp add: new_scope_def)
    also have "\<dots> = walk ?g c st'" by (rule walk_older) (use d(2) \<open>c < d\<close> in simp)
    finally show ?thesis using found by (intro find_provided [OF provided(1)]) simp
  qed
  have again: "provide c k y st' = (Inl (DuplicateService c (sk_name k)), st')"
    by (simp add: provide_def provided(1) hier services_of_def at bt_has_def)
  have undo: "remove_service c k st' =
      (Inr (), on_scope c (\<lambda>sc. sc\<lparr>sc_services := bt_remove (sk_name k) (sc_services sc)\<rparr>) st')"
    by (simp add: remove_service_def provided(1) hier services_of_def at)
  have "scope_at (snd (remove_service c k st')) d = scope_at st d" for d
    using sc provided(3) by (simp add: undo at cordis_simps with_service_def bt_remove_insert)
  then show ?thesis using find_provided [OF provided(1) found] inherited again undo by simp
qed

definition demo_service :: service_key where
  "demo_service = \<lparr>sk_name = lit ''demo.clock'', sk_type = \<lparr>rt_id = 3, rt_name = lit ''u32''\<rparr>\<rparr>"

lemma demo_service_valid: "validate_service_name (sk_name demo_service) = Inr ()"
  by (simp add: validate_service_name_def validate_name_def demo_service_def lit_def utf8_width_def is_ascii_def
      is_control_def is_whitespace_def MAX_SERVICE_NAME_BYTES_def)

theorem provided_service_found_witness:
  "service 1 demo_service (snd (provide 1 demo_service 42 demo_root)) = Inr 42"
proof -
  have root: "scope_at demo_root 1 \<noteq> None" by (simp add: demo_cordis_defs)
  have "fst (provide 1 demo_service 42 demo_root) = Inr ()"
    by (simp add: provide_def demo_service_valid services_of_def bt_has_def demo_cordis_defs)
  then have "provide 1 demo_service 42 demo_root = (Inr (), snd (provide 1 demo_service 42 demo_root))"
    by (metis prod.collapse)
  from provided_service_found [OF demo_root_reach root this] show ?thesis by blast
qed

end
