(* ===== verification/Cordis_Runtime_Props.thy ===== *)
theory Cordis_Runtime_Props
  imports Cordis_Runtime Cordis_Claims
begin

text \<open>
  What mounting and unmounting do to the scopes when plugins only act on the scope they are given, and
  the invariant of the runtime: its records, its root scope and the fibers mounted there agree.
\<close>

section \<open>What plugin code can do\<close>

text \<open>
  Plugin code acts on the scope it was given and on scopes made from there, and on everything outside the
  scopes: the world and the event buses.
\<close>

definition outside_step :: "('v, 'w) cordis \<Rightarrow> ('v, 'w) cordis \<Rightarrow> bool" where
  "outside_step st st' \<longleftrightarrow> (\<exists>w b. st' = st\<lparr>cd_world := w, cd_buses := b\<rparr>)"

definition plugin_step :: "'w disposer \<Rightarrow> nat \<Rightarrow> ('v, 'w) cordis \<Rightarrow> ('v, 'w) cordis \<Rightarrow> bool" where
  "plugin_step dis x st st' \<longleftrightarrow> local_step dis x st st' \<or> outside_step st st'"

definition confined :: "'w disposer \<Rightarrow> ('v, 'w) plugin_definition \<Rightarrow> bool" where
  "confined dis d \<longleftrightarrow> (\<forall>w p w'. df_create d w = (Some p, w') \<longrightarrow>
     (\<forall>x st. (plugin_step dis x)\<^sup>*\<^sup>* st (snd (ri_mount p x st))))"

lemma effect_at_outside: "effect_at (st\<lparr>cd_world := w, cd_buses := b\<rparr>) = effect_at st"
  by (simp add: effect_at_def effects_of_def fun_eq_iff)

lemma outside_steps:
  assumes "cordis_inv st" "outside_step st st'"
  shows "steps_well s st st'"
proof -
  obtain w b where st': "st' = st\<lparr>cd_world := w, cd_buses := b\<rparr>" using assms(2) by (auto simp: outside_step_def)
  have "store_inv [] st'"
    using cordis_invD(1) [OF assms(1)]
    unfolding store_inv_def scope_ok_def fiber_ok_def effect_ok_def held_ok_def active_def st' effect_at_outside by simp
  moreover have "settled st'" using cordis_invD(2) [OF assms(1)] by (simp add: settled_def st')
  ultimately show ?thesis by (simp add: steps_well_def cordis_inv_def) (simp add: frame_def st')
qed

lemma plugin_steps:
  assumes "(plugin_step dis s)\<^sup>*\<^sup>* st st'" and "cordis_inv st" and "s \<le> cd_next_scope st"
  shows "steps_well s st st'"
  using assms(1)
proof induction
  case base
  then show ?case by (rule steps_well_refl [OF assms(2)])
next
  case (step b c)
  have "s \<le> cd_next_scope b" using steps_wellD(2) [OF step.IH] assms(3) by (simp add: frame_def)
  then have "steps_well s b c"
    using step.hyps(2) local_steps [OF r_into_rtranclp steps_wellD(1) [OF step.IH]] outside_steps [OF steps_wellD(1) [OF step.IH]]
    unfolding plugin_step_def by blast
  then show ?case by (rule steps_well_trans [OF step.IH])
qed

section \<open>Mounting on a scope\<close>

text \<open>Everything there was is still there and unchanged.\<close>

definition undisturbed :: "('v, 'w) cordis \<Rightarrow> ('v, 'w) cordis \<Rightarrow> bool" where
  "undisturbed st st' \<longleftrightarrow> (\<forall>d. scope_at st d \<noteq> None \<longrightarrow> scope_at st' d = scope_at st d) \<and>
     (\<forall>g. fiber_at st g \<noteq> None \<longrightarrow> fiber_at st' g = fiber_at st g)"

lemma undisturbed_refl [simp]: "undisturbed st st"
  by (simp add: undisturbed_def)

lemma begin_mount_Inl:
  assumes "begin_mount dis c i deps st = (Inl e, st')"
  shows "st' = st \<or> (\<exists>plugin x st1. child c st = (Inr x, st1) \<and>
    st' = release_record (cd_next_fiber st) (snd (dispose dis x (mounting c plugin x st1))))"
proof -
  have "cd_next_fiber st1 = cd_next_fiber st" if "child c st = (Inr x, st1)" for x st1
    using that by (auto simp: child_def Let_def split: sum.splits)
  moreover have "st1 = st" if "child c st = (Inl e, st1)" for e st1
    using that by (auto simp: child_def Let_def split: sum.splits)
  moreover have "st3 = st2" if "register_fiber c f plugin st2 = (Inl e, st3)" for f plugin st2 e st3
    using that by (auto simp: register_fiber_def split: sum.splits if_splits)
  ultimately show ?thesis
    using assms by (auto simp: begin_mount_def Let_def mounting_def split: sum.splits option.splits prod.splits if_splits) force
qed

lemma begin_mount_undisturbed:
  assumes inv: "cordis_inv st" and c: "scope_at st c \<noteq> None" and run: "begin_mount dis c i deps st = (Inl e, st')"
  shows "undisturbed st st'"
proof (cases "st' = st")
  case False
  then obtain plugin x st1 where child: "child c st = (Inr x, st1)"
    and st': "st' = release_record (cd_next_fiber st) (snd (dispose dis x (mounting c plugin x st1)))"
    using begin_mount_Inl [OF run] by blast
  let ?st = "mounting c plugin x st1"
  have x: "x = cd_next_scope st" using child by (auto simp: child_def Let_def split: sum.splits)
  have young: "c < x" using c scope_bound [OF inv] x by fastforce
  have st1: "steps_well c st st1" using child_steps [OF inv c, of c] young child x by simp
  have nexts: "cd_next_scope st1 = Suc x" "cd_next_fiber st1 = cd_next_fiber st"
    using child by (auto simp: child_def Let_def split: sum.splits)
  have "store_inv [] ?st"
    using store_inv_new_fiber [OF cordis_invD(1) [OF steps_wellD(1) [OF st1]],
        of "\<lparr>fb_plugin = plugin, fb_scope = x, fb_parent = c, fb_state = FiberMounting, fb_live = True\<rparr>"] young nexts(1)
    by (simp add: mounting_def)
  from dispose_spec [OF this, of dis x] have calm: "calm x x ?st (snd (dispose dis x ?st))" by simp
  have "scope_at st' d = scope_at st d" if "scope_at st d = Some sc" for d sc
  proof -
    have "d < x" using scope_bound [OF inv that] x by simp
    moreover have "scope_at ?st d = scope_at st d"
      using child \<open>d < x\<close> by (auto simp: mounting_def child_def Let_def split: sum.splits)
    ultimately show ?thesis using calm by (simp add: st' cordis_simps calm_def)
  qed
  moreover have "fiber_at st' g = Some r" if g: "fiber_at st g = Some r" for g r
  proof -
    have q: "g < cd_next_fiber st" "fb_parent r < x"
      using store_invD(2) [OF cordis_invD(1) [OF inv] g] x by (auto simp: fiber_ok_def)
    have "fiber_at ?st g = Some r"
      using g q nexts child by (auto simp: mounting_def child_def Let_def split: sum.splits)
    from calm_keeps_fiber [OF calm this q(2)] show ?thesis using q(1) by (simp add: st' cordis_simps)
  qed
  ultimately show ?thesis by (auto simp: undisturbed_def)
qed simp

lemma cordis_id_new_same: "cordis_id_new i = Inr plugin \<Longrightarrow> plugin = i"
  by (auto simp: cordis_id_new_def split: if_splits option.splits)

lemma begin_mount_plugin: "begin_mount dis c i deps st = (Inr (plugin, f, x), st') \<Longrightarrow> plugin = i"
  using cordis_id_new_same [of i plugin]
  by (cases "cordis_id_new i") (auto simp: begin_mount_def Let_def split: sum.splits option.splits prod.splits if_splits
      dest: cordis_id_new_same)

text \<open>A mount as its two halves, with the plugin's code between them.\<close>

lemma mount_begun:
  assumes "begin_mount dis c (pg_id p) (pg_dependencies p) st = (Inr (plugin, f, x), st1)"
  shows "mount dis c p st = finish_mount dis c (plugin, f, x) (fst (pg_mount p x st1)) (snd (pg_mount p x st1))"
  using assms by (simp add: mount_def case_prod_beta)

definition mounted_fiber :: "rstring \<Rightarrow> nat \<Rightarrow> fiber_record \<Rightarrow> bool" where
  "mounted_fiber i c r \<longleftrightarrow> fb_plugin r = i \<and> fb_parent r = c \<and> fb_state r = FiberMounted \<and> fb_live r"

definition mount_done :: "rstring \<Rightarrow> nat \<Rightarrow> nat \<Rightarrow> ('v, 'w) cordis \<Rightarrow> ('v, 'w) cordis \<Rightarrow> bool" where
  "mount_done i c f st st' \<longleftrightarrow> fiber_at st f = None \<and> (\<exists>r. fiber_at st' f = Some r \<and> mounted_fiber i c r) \<and>
     (\<forall>d. d \<noteq> c \<and> d < cd_next_scope st \<longrightarrow> scope_at st' d = scope_at st d) \<and>
     scope_at st' c = map_option (\<lambda>sc. sc\<lparr>sc_fibers := bs_insert f (sc_fibers sc)\<rparr>) (scope_at st c) \<and>
     (\<forall>g. fiber_at st g \<noteq> None \<longrightarrow> fiber_at st' g = fiber_at st g)"

lemma mount_outcome:
  assumes inv: "cordis_inv st" and c: "scope_at st c \<noteq> None"
    and code: "\<And>x st. (plugin_step dis x)\<^sup>*\<^sup>* st (snd (pg_mount p x st))"
  shows "cordis_inv (snd (mount dis c p st)) \<and>
    (case fst (mount dis c p st) of
       Inl e \<Rightarrow> undisturbed st (snd (mount dis c p st))
     | Inr f \<Rightarrow> mount_done (pg_id p) c f st (snd (mount dis c p st)))"
proof (cases "begin_mount dis c (pg_id p) (pg_dependencies p) st")
  case (Pair b st1)
  show ?thesis
  proof (cases b)
    case (Inl e)
    have "cordis_inv st1"
      using begin_mount_steps [OF inv c order_refl, of dis "pg_id p" "pg_dependencies p"] Pair by (simp add: steps_well_def)
    then show ?thesis using Pair Inl begin_mount_undisturbed [OF inv c] by (simp add: mount_def)
  next
    case (Inr m)
    obtain plugin f x where m: "m = (plugin, f, x)" by (cases m)
    note run = Pair [unfolded Inr m]
    define result st2 where "result = fst (pg_mount p x st1)" and "st2 = snd (pg_mount p x st1)"
    note mount = mount_begun [OF run, folded result_def st2_def]
    note store1 = begin_mount_store [OF inv run]
    have plugin: "plugin = pg_id p" by (rule begin_mount_plugin [OF run])
    obtain sc where sc: "scope_at st c = Some sc" using c by blast
    have young: "c < x" using scope_bound [OF inv sc] store1(1) by simp
    have inv1: "cordis_inv st1" by (rule begun_inv [OF inv c run])
    have well2: "steps_well x st1 st2"
      unfolding st2_def by (rule plugin_steps [OF code inv1]) (simp add: store1(3))
    note inv2 = steps_wellD(1) [OF well2]
    define r where "r = \<lparr>fb_plugin = plugin, fb_scope = x, fb_parent = c, fb_state = FiberMounting, fb_live = True\<rparr>"
    have f2: "fiber_at st2 f = Some r"
      using steps_wellD(2) [OF well2] store1(6) [of f] young by (simp add: frame_def r_def)
    have inv3: "cordis_inv (snd (mount dis c p st))"
      using finish_mount_steps [OF inv2 f2 order_refl, of dis plugin result] by (simp add: r_def steps_well_def mount)
    show ?thesis
    proof (cases "fst (mount dis c p st)")
      case (Inl e)
      then have "finish_mount dis c (plugin, f, x) result st2 = (Inl e, snd (mount dis c p st))"
        by (simp add: mount prod_eq_iff)
      from failed_mount_undone [OF inv c run well2 this] show ?thesis using inv3 Inl by (simp add: undisturbed_def)
    next
      case (Inr g)
      then have done': "g = f" "snd (mount dis c p st) = set_fiber f FiberMounted st2"
        unfolding mount by (auto simp: finish_mount_def fail_mount_def split: option.splits sum.splits prod.splits)
      have old: "fiber_at st2 h = fiber_at st h" if h: "fiber_at st h = Some q" for h q
      proof -
        have q: "h < f" "fb_parent q < x"
          using store_invD(2) [OF cordis_invD(1) [OF inv] h] store1(1,2) by (auto simp: fiber_ok_def)
        have "fiber_at st1 h = Some q" using h q store1(6) by simp
        then show ?thesis using steps_wellD(2) [OF well2] q(2) h unfolding frame_def by auto
      qed
      have fresh: "fiber_at st f = None"
        using store_invD(2) [OF cordis_invD(1) [OF inv], of f] store1(2)
        by (cases "fiber_at st f") (auto simp: fiber_ok_def)
      have scope: "scope_at st2 d = scope_at st1 d" if "d < x" for d
        using steps_wellD(2) [OF well2] that by (simp add: frame_def)
      have "mount_done (pg_id p) c f st (set_fiber f FiberMounted st2)"
        using fresh f2 old young scope store1(1) store1(4) sc
        unfolding mount_done_def by (auto simp: cordis_simps mounted_fiber_def r_def plugin)
      then show ?thesis using Inr done' inv3 by simp
    qed
  qed
qed

section \<open>Unmounting\<close>

definition unmount_done :: "nat \<Rightarrow> nat \<Rightarrow> ('v, 'w) cordis \<Rightarrow> ('v, 'w) cordis \<Rightarrow> bool" where
  "unmount_done c f st st' \<longleftrightarrow>
     (\<exists>r. fiber_at st f = Some r \<and> fiber_at st' f = Some (r\<lparr>fb_state := FiberUnmounted, fb_live := False\<rparr>) \<and>
        not_active st' (fb_scope r)) \<and>
     (\<forall>d < c. scope_at st' d = scope_at st d) \<and>
     scope_at st' c = map_option (\<lambda>sc. sc\<lparr>sc_fibers := bs_remove f (sc_fibers sc)\<rparr>) (scope_at st c) \<and>
     (\<forall>g r. g \<noteq> f \<and> fiber_at st g = Some r \<and> fb_parent r \<le> c \<longrightarrow> fiber_at st' g = Some r) \<and>
     (\<forall>d. not_active st d \<longrightarrow> not_active st' d)"

lemma unmount_outcome:
  assumes inv: "cordis_inv st" and r: "fiber_at st f = Some r" "fb_parent r = c" "fb_state r = FiberMounted"
  shows "cordis_inv (drop_fiber dis f (snd (unmount dis f st))) \<and>
    unmount_done c f st (drop_fiber dis f (snd (unmount dis f st)))"
proof -
  let ?st0 = "set_fiber f FiberUnmounting st"
  define std where "std = snd (dispose dis (fb_scope r) ?st0)"
  have less: "c < fb_scope r" using store_invD(2) [OF cordis_invD(1) [OF inv] r(1)] r(2) by (simp add: fiber_ok_def)
  have "store_inv [] ?st0" by (rule store_inv_set_fiber [OF cordis_invD(1) [OF inv]])
  from dispose_spec [OF this, of dis "fb_scope r"]
  have calm: "calm (fb_scope r) (fb_scope r) ?st0 std" and closed: "not_active std (fb_scope r)" by (simp_all add: std_def)
  have un: "snd (unmount dis f st) = unregister_fiber c f (set_fiber f FiberUnmounted std)"
    using r by (simp add: unmount_def std_def case_prod_beta)
  have "fiber_at std f = Some (r\<lparr>fb_state := FiberUnmounting\<rparr>)"
    by (rule calm_keeps_fiber [OF calm]) (use r less in \<open>simp_all add: cordis_simps\<close>)
  then have f': "fiber_at (snd (unmount dis f st)) f = Some (r\<lparr>fb_state := FiberUnmounted\<rparr>)"
    by (simp add: un cordis_simps)
  then have drop: "drop_fiber dis f (snd (unmount dis f st)) = release_record f (snd (unmount dis f st))"
    by (simp add: drop_fiber_def [of dis f "snd (unmount dis f st)"] unmount_def [of dis f "snd (unmount dis f st)"])
  have "steps_well c st (snd (unmount dis f st))" by (rule unmount_steps [OF inv r(1)]) (simp add: r)
  from settle_fiber_steps(3) [OF this r(1)] have "cordis_inv (release_record f (snd (unmount dis f st)))"
    using r(2) by (simp add: steps_well_def)
  moreover have "unmount_done c f st (release_record f (snd (unmount dis f st)))"
  proof -
    have "fiber_at std g = Some q" if "g \<noteq> f" "fiber_at st g = Some q" "fb_parent q \<le> c" for g q
      by (rule calm_keeps_fiber [OF calm]) (use that less in \<open>simp_all add: cordis_simps\<close>)
    moreover have "scope_at std d = scope_at st d" if "d \<le> c" for d
      using calm that less by (simp add: calm_def cordis_simps)
    moreover have "not_active std d" if "not_active st d" for d
      using calm_not_active [OF calm] that by simp
    ultimately show ?thesis
      using r(1) f' closed less
      by (auto simp: unmount_done_def un cordis_simps not_active_def)
  qed
  ultimately show ?thesis by (simp add: drop)
qed

section \<open>The invariant\<close>

definition record_ok :: "rstring \<Rightarrow> nat \<Rightarrow> ('v, 'w) cordis \<Rightarrow> plugin_record \<Rightarrow> bool" where
  "record_ok i c st p \<longleftrightarrow> ps_enabled p = (ps_lifecycle p \<noteq> RtDisabled) \<and>
     ps_lifecycle p \<notin> {RtMounting, RtUnmounting} \<and> (ps_lifecycle p = RtMounted) = (ps_fiber p \<noteq> None) \<and>
     (\<forall>f. ps_fiber p = Some f \<longrightarrow> (\<exists>r. fiber_at st f = Some r \<and> mounted_fiber i c r)) \<and>
     (ps_lifecycle p = RtFailed \<longrightarrow> ps_failure p \<noteq> None) \<and> ps_attempts p \<le> MAX_MOUNT_ATTEMPTS \<and>
     (\<forall>x. ps_failure p = Some x \<longrightarrow> str_len (fi_message x) \<le> MAX_FAILURE_MESSAGE_BYTES \<and>
        1 \<le> fi_attempts x \<and> fi_attempts x \<le> MAX_MOUNT_ATTEMPTS)"

text \<open>The argument \<open>R\<close> asks that required plugins are enabled, which holds until the runtime shuts down.\<close>

definition runtime_base :: "bool \<Rightarrow> 'w disposer \<Rightarrow> ('v, 'w) cordis_runtime \<Rightarrow> bool" where
  "runtime_base R dis rt \<longleftrightarrow> cordis_inv (cr_store rt) \<and> distinct (map df_id (cr_registry rt)) \<and>
     (\<forall>d \<in> set (cr_registry rt). confined dis d) \<and>
     (\<forall>i. bt_get (cr_records rt) i \<noteq> None \<longleftrightarrow> i \<in> df_id ` set (cr_registry rt)) \<and>
     (\<forall>i p. bt_get (cr_records rt) i = Some p \<longrightarrow> record_ok i (cr_root rt) (cr_store rt) p) \<and>
     (\<exists>sc. scope_at (cr_store rt) (cr_root rt) = Some sc \<and> sc_state sc = ScopeActive \<and>
        set (sc_fibers sc) = {f. \<exists>i. fiber_of i rt = Some f}) \<and>
     (\<forall>d \<in> set (cr_registry rt). R \<and> df_required d \<longrightarrow>
        (\<forall>p. bt_get (cr_records rt) (df_id d) = Some p \<longrightarrow> ps_enabled p))"

lemma runtime_baseD:
  assumes "runtime_base R dis rt"
  shows "cordis_inv (cr_store rt)" "distinct (map df_id (cr_registry rt))" "d \<in> set (cr_registry rt) \<Longrightarrow> confined dis d"
    "bt_get (cr_records rt) i = Some p \<Longrightarrow> record_ok i (cr_root rt) (cr_store rt) p"
    "\<exists>sc. scope_at (cr_store rt) (cr_root rt) = Some sc \<and> sc_state sc = ScopeActive \<and>
        set (sc_fibers sc) = {f. \<exists>i. fiber_of i rt = Some f}"
    "bt_get (cr_records rt) i \<noteq> None \<longleftrightarrow> i \<in> df_id ` set (cr_registry rt)"
  using assms by (simp_all add: runtime_base_def)

lemma runtime_base_fields [simp]:
  "runtime_base R dis (rt\<lparr>cr_overrides := x\<rparr>) = runtime_base R dis rt"
  "runtime_base R dis (rt\<lparr>cr_started := b\<rparr>) = runtime_base R dis rt"
  "runtime_base R dis (rt\<lparr>cr_closed := b\<rparr>) = runtime_base R dis rt"
  by (simp_all add: runtime_base_def fiber_of_def)

lemma runtime_base_mono: "runtime_base R dis rt \<Longrightarrow> (S \<Longrightarrow> R) \<Longrightarrow> runtime_base S dis rt"
  unfolding runtime_base_def by blast

lemma on_record_simps [simp]:
  "cr_registry (on_record i g rt) = cr_registry rt" "cr_root (on_record i g rt) = cr_root rt"
  "cr_overrides (on_record i g rt) = cr_overrides rt" "cr_started (on_record i g rt) = cr_started rt"
  "cr_closed (on_record i g rt) = cr_closed rt" "cr_store (on_record i g rt) = cr_store rt"
  "bt_get (cr_records (on_record i g rt)) = (bt_get (cr_records rt))(i := map_option g (bt_get (cr_records rt) i))"
  by (simp_all add: on_record_def fun_eq_iff)

lemma on_record_twice [simp]: "on_record i g (on_record i h rt) = on_record i (g \<circ> h) rt"
  by (simp add: on_record_def bt_update_def case_prod_beta comp_def)

lemma on_record_store [simp]: "(on_record i g rt)\<lparr>cr_store := st\<rparr> = on_record i g (rt\<lparr>cr_store := st\<rparr>)"
  by (simp add: on_record_def)

lemma fiber_of_store [simp]:
  "fiber_of i (rt\<lparr>cr_store := st\<rparr>) = fiber_of i rt" "fiber_of i (rt\<lparr>cr_overrides := x\<rparr>) = fiber_of i rt"
  "fiber_of i (rt\<lparr>cr_started := b\<rparr>) = fiber_of i rt" "fiber_of i (rt\<lparr>cr_closed := b\<rparr>) = fiber_of i rt"
  by (simp_all add: fiber_of_def)

lemma fiber_of_on_record:
  "fiber_of j (on_record i g rt) =
     (if j = i then (case bt_get (cr_records rt) i of Some p \<Rightarrow> ps_fiber (g p) | None \<Rightarrow> None) else fiber_of j rt)"
  by (simp add: fiber_of_def split: option.split)

lemma fiber_of_mounted:
  assumes "runtime_base R dis rt" "fiber_of i rt = Some f"
  shows "\<exists>r. fiber_at (cr_store rt) f = Some r \<and> mounted_fiber i (cr_root rt) r"
proof -
  obtain p where "bt_get (cr_records rt) i = Some p" "ps_fiber p = Some f"
    using assms(2) by (auto simp: fiber_of_def split: option.splits)
  then show ?thesis using runtime_baseD(4) [OF assms(1), of i p] by (auto simp: record_ok_def)
qed

lemma fibers_apart: "runtime_base R dis rt \<Longrightarrow> fiber_of i rt = Some f \<Longrightarrow> fiber_of j rt = Some f \<Longrightarrow> i = j"
  using fiber_of_mounted [of R dis rt i f] fiber_of_mounted [of R dis rt j f] by (auto simp: mounted_fiber_def)

text \<open>One record and the store change together.\<close>

lemma runtime_base_update:
  assumes base: "runtime_base R dis rt" and inv: "cordis_inv st"
    and root: "scope_at st (cr_root rt) = map_option (\<lambda>sc. sc\<lparr>sc_fibers := fs sc\<rparr>) (scope_at (cr_store rt) (cr_root rt))"
    and fibers: "\<And>sc. set (sc_fibers sc) = {f. \<exists>j. fiber_of j rt = Some f} \<Longrightarrow> set (fs sc) = {f. \<exists>j. fiber_of j (on_record i g rt) = Some f}"
    and others: "\<And>j f. j \<noteq> i \<Longrightarrow> fiber_of j rt = Some f \<Longrightarrow> fiber_at st f = fiber_at (cr_store rt) f"
    and mine: "\<And>p. bt_get (cr_records rt) i = Some p \<Longrightarrow> record_ok i (cr_root rt) (cr_store rt) p \<Longrightarrow> record_ok i (cr_root rt) st (g p)"
    and required: "\<And>d p. S \<Longrightarrow> d \<in> set (cr_registry rt) \<Longrightarrow> df_id d = i \<Longrightarrow> df_required d \<Longrightarrow> bt_get (cr_records rt) i = Some p \<Longrightarrow>
      ps_enabled (g p)"
    and S: "S \<Longrightarrow> R"
  shows "runtime_base S dis (on_record i g (rt\<lparr>cr_store := st\<rparr>))"
proof -
  let ?rt = "on_record i g (rt\<lparr>cr_store := st\<rparr>)"
  have fiber_eq: "fiber_of j ?rt = fiber_of j (on_record i g rt)" for j
    by (simp add: fiber_of_on_record)
  have records: "record_ok j (cr_root rt) st p" if p: "bt_get (cr_records ?rt) j = Some p" for j p
  proof (cases "j = i")
    case True
    then obtain q where "bt_get (cr_records rt) i = Some q" "p = g q" using p by auto
    then show ?thesis using mine runtime_baseD(4) [OF base] True by simp
  next
    case False
    then have q: "bt_get (cr_records rt) j = Some p" using p by simp
    have "fiber_at st f = fiber_at (cr_store rt) f" if "ps_fiber p = Some f" for f
      using others [OF False] q that by (simp add: fiber_of_def)
    then show ?thesis using runtime_baseD(4) [OF base q] by (auto simp: record_ok_def)
  qed
  obtain sc where sc: "scope_at (cr_store rt) (cr_root rt) = Some sc" "sc_state sc = ScopeActive"
    "set (sc_fibers sc) = {f. \<exists>j. fiber_of j rt = Some f}"
    using runtime_baseD(5) [OF base] by blast
  have scope: "\<exists>sc. scope_at st (cr_root rt) = Some sc \<and> sc_state sc = ScopeActive \<and>
      set (sc_fibers sc) = {f. \<exists>j. fiber_of j ?rt = Some f}"
    using sc(1,2) fibers [OF sc(3)] root by (simp add: fiber_eq)
  have required': "ps_enabled p"
    if "S" "d \<in> set (cr_registry rt)" "df_required d" "bt_get (cr_records ?rt) (df_id d) = Some p" for d p
  proof (cases "df_id d = i")
    case True
    then show ?thesis using required that by auto
  next
    case False
    then show ?thesis using that S base by (auto simp: runtime_base_def)
  qed
  have keys: "bt_get (cr_records ?rt) j \<noteq> None \<longleftrightarrow> j \<in> df_id ` set (cr_registry rt)" for j
    using runtime_baseD(6) [OF base, of j] by auto
  show ?thesis
    unfolding runtime_base_def
    using inv runtime_baseD(2,3) [OF base] keys records scope required' by simp
qed

lemma runtime_base_same:
  fixes rt :: "('v, 'w) cordis_runtime"
  assumes "runtime_base R dis rt" and "cordis_inv st" and "undisturbed (cr_store rt) st" and g: "\<And>p. ps_fiber (g p) = ps_fiber p"
    and "\<And>p. bt_get (cr_records rt) i = Some p \<Longrightarrow> record_ok i (cr_root rt) (cr_store rt) p \<Longrightarrow> record_ok i (cr_root rt) st (g p)"
    and "\<And>d p. S \<Longrightarrow> d \<in> set (cr_registry rt) \<Longrightarrow> df_id d = i \<Longrightarrow> df_required d \<Longrightarrow> bt_get (cr_records rt) i = Some p \<Longrightarrow>
      ps_enabled (g p)"
    and "S \<Longrightarrow> R"
  shows "runtime_base S dis (on_record i g (rt\<lparr>cr_store := st\<rparr>))"
proof (rule runtime_base_update [where fs = sc_fibers])
  have "fiber_of j (on_record i g rt) = fiber_of j rt" for j
    using g by (simp add: fiber_of_def split: option.split)
  then show "set (sc_fibers sc) = {f. \<exists>j. fiber_of j (on_record i g rt) = Some f}"
    if "set (sc_fibers sc) = {f. \<exists>j. fiber_of j rt = Some f}" for sc :: "'v scope" using that by simp
  show "scope_at st (cr_root rt) =
      map_option (\<lambda>sc. sc\<lparr>sc_fibers := sc_fibers sc\<rparr>) (scope_at (cr_store rt) (cr_root rt))"
    using assms(3) runtime_baseD(5) [OF assms(1)] by (auto simp: undisturbed_def)
  show "fiber_at st f = fiber_at (cr_store rt) f" if "fiber_of j rt = Some f" for j f
    using assms(3) fiber_of_mounted [OF assms(1) that] by (auto simp: undisturbed_def)
  show "record_ok i (cr_root rt) st (g p)"
    if "bt_get (cr_records rt) i = Some p" "record_ok i (cr_root rt) (cr_store rt) p" for p
    by (rule assms(5) [OF that])
  show "ps_enabled (g p)"
    if "S" "d \<in> set (cr_registry rt)" "df_id d = i" "df_required d" "bt_get (cr_records rt) i = Some p" for d p
    by (rule assms(6) [OF that])
  show R if S by (rule assms(7) [OF that])
qed (rule assms)+

lemma on_record_here: "on_record i g (rt\<lparr>cr_store := cr_store rt\<rparr>) = on_record i g rt"
  by simp

lemma on_record_id [simp]: "on_record i id rt = rt"
proof -
  have "bt_update i id m = m" for m :: "(rstring, plugin_record) btmap" by (induction m) (auto simp: bt_update_def)
  then show ?thesis by (simp add: on_record_def)
qed

lemma record_fiber_None: "fiber_of i rt = None \<Longrightarrow> bt_get (cr_records rt) i = Some p \<Longrightarrow> ps_fiber p = None"
  by (simp add: fiber_of_def)

lemma settle_record:
  assumes base: "runtime_base R dis rt" and i: "fiber_of i rt = None" and S: "S \<Longrightarrow> R"
    and required: "\<And>d. S \<Longrightarrow> d \<in> set (cr_registry rt) \<Longrightarrow> df_id d = i \<Longrightarrow> \<not> df_required d"
  shows "runtime_base S dis (deactivate_without_mount i rt)" "runtime_base S dis (on_record i record_disabled rt)"
  unfolding deactivate_without_mount_def
  by (subst on_record_here [symmetric], rule runtime_base_same [OF base runtime_baseD(1) [OF base] undisturbed_refl];
      use S required record_fiber_None [OF i] in \<open>auto simp: record_ok_def record_deactivated_def record_disabled_def MAX_MOUNT_ATTEMPTS_def\<close>)+

lemma prepare_base:
  assumes base: "runtime_base R dis rt"
  shows "runtime_base R dis (prepare_enabled i rt)"
  unfolding prepare_enabled_def
  by (subst on_record_here [symmetric], rule runtime_base_same [OF base runtime_baseD(1) [OF base] undisturbed_refl])
     (auto simp: record_ok_def record_prepared_def MAX_MOUNT_ATTEMPTS_def)

section \<open>Mounting and unmounting a plugin\<close>

lemma str_len_runtime_message: "str_len (runtime_message s) \<le> MAX_FAILURE_MESSAGE_BYTES"
  using str_len_truncate [of s "1021"]
  by (simp add: runtime_message_def dotted_def MAX_FAILURE_MESSAGE_BYTES_def lit_def utf8_width_def)

lemma undisturbed_outside: "undisturbed (st\<lparr>cd_world := w\<rparr>) st' = undisturbed st st'"
  by (simp add: undisturbed_def)

lemma mount_done_outside: "mount_done i c f (st\<lparr>cd_world := w\<rparr>) st' = mount_done i c f st st'"
  by (simp add: mount_done_def)

lemma world_inv: "cordis_inv st \<Longrightarrow> cordis_inv (st\<lparr>cd_world := w\<rparr>)"
proof -
  assume inv: "cordis_inv st"
  have "outside_step st (st\<lparr>cd_world := w\<rparr>)"
    unfolding outside_step_def by (rule exI [of _ w], rule exI [of _ "cd_buses st"]) simp
  then show ?thesis using outside_steps [OF inv] steps_wellD(1) by blast
qed

text \<open>What a mount leaves: a recorded failure with the scopes as they were, or one more fiber of the root.\<close>

definition mount_failed :: "rstring \<Rightarrow> ('v, 'w) cordis_runtime \<Rightarrow> ('v, 'w) cordis_runtime \<Rightarrow> bool" where
  "mount_failed i rt rt' \<longleftrightarrow> (\<exists>phase m st. cordis_inv st \<and> undisturbed (cr_store rt) st \<and>
     rt' = on_record i (record_failed phase m \<circ> record_mounting) (rt\<lparr>cr_store := st\<rparr>))"

definition mount_succeeded :: "rstring \<Rightarrow> nat \<Rightarrow> ('v, 'w) cordis_runtime \<Rightarrow> ('v, 'w) cordis_runtime \<Rightarrow> bool" where
  "mount_succeeded i f rt rt' \<longleftrightarrow> (\<exists>st. cordis_inv st \<and> mount_done i (cr_root rt) f (cr_store rt) st \<and>
     rt' = on_record i (record_mounted f \<circ> record_mounting) (rt\<lparr>cr_store := st\<rparr>))"

lemma registered_id: "pg_id (registered_plugin i p) = i"
  by (simp add: registered_plugin_def)

lemma mount_plugin_outcome:
  assumes inv: "cordis_inv (cr_store rt)" and root: "scope_at (cr_store rt) (cr_root rt) \<noteq> None"
    and conf: "confined dis d" and none: "fiber_of (df_id d) rt = None"
  shows "case fst (mount_plugin dis d rt) of
      Inl e \<Rightarrow> mount_failed (df_id d) rt (snd (mount_plugin dis d rt))
    | Inr f \<Rightarrow> mount_succeeded (df_id d) f rt (snd (mount_plugin dis d rt))"
proof -
  let ?i = "df_id d"
  obtain made w where made: "df_create d (cd_world (cr_store rt)) = (made, w)" by fastforce
  let ?st = "(cr_store rt)\<lparr>cd_world := w\<rparr>"
  have inv': "cordis_inv ?st" by (rule world_inv [OF inv])
  have quiet: "mount_failed ?i rt (on_record ?i (record_failed ph m \<circ> record_mounting) (rt\<lparr>cr_store := ?st\<rparr>))" for ph m
    unfolding mount_failed_def using inv' by (intro exI [of _ ph] exI [of _ m] exI [of _ ?st]) (simp add: undisturbed_def)
  show ?thesis
  proof (cases "\<exists>p. made = Some p \<and> ri_id p = Some ?i")
    case False
    then show ?thesis
      using none quiet
      by (auto simp: mount_plugin_def has_fiber_def made fail_plugin_def record_failure_def Let_def split: option.split)
  next
    case True
    then obtain p where p: "made = Some p" "ri_id p = Some ?i" by blast
    have code: "(plugin_step dis x)\<^sup>*\<^sup>* st (snd (pg_mount (registered_plugin ?i p) x st))" for x st
      using conf made p(1) unfolding confined_def registered_plugin_def by simp blast
    note out = mount_outcome [where p = "registered_plugin ?i p", OF inv' _ code, of "cr_root rt"]
    obtain r st where run: "mount dis (cr_root rt) (registered_plugin ?i p) ?st = (r, st)" by fastforce
    have result: "cordis_inv st" "case r of Inl e \<Rightarrow> undisturbed (cr_store rt) st
        | Inr f \<Rightarrow> mount_done ?i (cr_root rt) f (cr_store rt) st"
      using out root registered_id [of ?i p]
      by (simp_all add: run undisturbed_outside mount_done_outside split: sum.splits)
    show ?thesis
    proof (cases r)
      case (Inl e)
      then show ?thesis
        using none result
        by (auto simp: mount_plugin_def has_fiber_def made p run fail_plugin_def record_failure_def Let_def mount_failed_def
            intro!: exI [of _ st])
    next
      case (Inr f)
      then show ?thesis
        using none result
        by (auto simp: mount_plugin_def has_fiber_def made p run Let_def mount_succeeded_def intro!: exI [of _ st])
    qed
  qed
qed

lemma record_fibers [simp]:
  "ps_fiber (record_failed ph m p) = ps_fiber p" "ps_fiber (record_mounting p) = ps_fiber p"
  "ps_fiber (record_disabled p) = ps_fiber p" "ps_fiber (record_deactivated p) = ps_fiber p"
  "ps_fiber (record_deferred p) = ps_fiber p" "ps_fiber (record_reset p) = ps_fiber p"
  "ps_fiber (record_prepared p) = ps_fiber p" "ps_fiber (record_mounted f p) = Some f"
  "ps_fiber (record_unmounted x p) = None"
  by (simp_all add: record_failed_def record_mounting_def record_disabled_def record_deactivated_def record_deferred_def
      record_reset_def record_prepared_def record_mounted_def record_unmounted_def)

text \<open>What no operation on a plugin changes.\<close>

definition same_shape :: "('v, 'w) cordis_runtime \<Rightarrow> ('v, 'w) cordis_runtime \<Rightarrow> bool" where
  "same_shape rt rt' \<longleftrightarrow> cr_registry rt' = cr_registry rt \<and> cr_root rt' = cr_root rt \<and>
     cr_overrides rt' = cr_overrides rt \<and> cr_started rt' = cr_started rt \<and> cr_closed rt' = cr_closed rt"

lemma same_shape_refl [simp]: "same_shape rt rt"
  by (simp add: same_shape_def)

lemma same_shape_trans: "same_shape a b \<Longrightarrow> same_shape b c \<Longrightarrow> same_shape a c"
  by (simp add: same_shape_def)

lemma same_shape_on_record [simp]:
  "same_shape rt (on_record i g rt') = same_shape rt rt'" "same_shape (on_record i g rt) rt' = same_shape rt rt'"
  "same_shape rt (rt'\<lparr>cr_store := st\<rparr>) = same_shape rt rt'" "same_shape (rt\<lparr>cr_store := st\<rparr>) rt' = same_shape rt rt'"
  by (simp_all add: same_shape_def)

lemma settle_shape [simp]:
  "same_shape rt (deactivate_without_mount i rt') = same_shape rt rt'" "same_shape rt (prepare_enabled i rt') = same_shape rt rt'"
  "same_shape rt (defer_missing_dependency i rt') = same_shape rt rt'" "same_shape rt (record_failure i ph m rt') = same_shape rt rt'"
  "same_shape (defer_missing_dependency i rt) rt' = same_shape rt rt'" "same_shape (record_failure i ph m rt) rt' = same_shape rt rt'"
  by (simp_all add: deactivate_without_mount_def prepare_enabled_def defer_missing_dependency_def record_failure_def)

text \<open>An operation on a plugin changes its own record only.\<close>

definition only_record :: "rstring \<Rightarrow> ('v, 'w) cordis_runtime \<Rightarrow> ('v, 'w) cordis_runtime \<Rightarrow> bool" where
  "only_record i rt rt' \<longleftrightarrow> same_shape rt rt' \<and>
     (\<forall>j. j \<noteq> i \<longrightarrow> bt_get (cr_records rt') j = bt_get (cr_records rt) j)"

lemma only_record_refl [simp]: "only_record i rt rt"
  by (simp add: only_record_def)

lemma only_record_trans: "only_record i a b \<Longrightarrow> only_record i b c \<Longrightarrow> only_record i a c"
  unfolding only_record_def using same_shape_trans by metis

lemma only_record_on [simp]:
  "only_record i rt (on_record i g (rt\<lparr>cr_store := st\<rparr>))" "only_record i rt (on_record i g rt)"
  by (simp_all add: only_record_def)

lemma only_record_settle [simp]:
  "only_record i rt (deactivate_without_mount i rt)" "only_record i rt (prepare_enabled i rt)"
  "only_record i rt (defer_missing_dependency i rt)" "only_record i rt (record_failure i ph m rt)"
  by (simp_all add: deactivate_without_mount_def prepare_enabled_def defer_missing_dependency_def record_failure_def)

lemma only_record_fiber: "only_record i rt rt' \<Longrightarrow> j \<noteq> i \<Longrightarrow> fiber_of j rt' = fiber_of j rt"
  by (simp add: only_record_def fiber_of_def)

lemma only_record_shape: "only_record i rt rt' \<Longrightarrow> same_shape rt rt'"
  by (simp add: only_record_def)

lemmas record_defs = record_failed_def record_mounting_def record_mounted_def record_unmounted_def

lemma max_one: "a \<le> 255 \<Longrightarrow> max a 1 \<le> (255 :: u32)"
  by (simp add: max_def)

lemma record_failed_ok:
  assumes "ps_fiber p = None"
  shows "record_ok i c st (record_failed phase m (record_mounting p))"
  using assms str_len_runtime_message [of m]
  by (auto simp: record_ok_def record_defs MAX_MOUNT_ATTEMPTS_def max_one)

lemma mount_failed_base:
  assumes base: "runtime_base R dis rt" and none: "fiber_of i rt = None" and h: "\<And>p. ps_fiber (h p) = ps_fiber p"
    and out: "mount_failed i (on_record i h rt) rt'"
  shows "runtime_base R dis rt' \<and> only_record i rt rt' \<and> fiber_of i rt' = None \<and>
    (\<forall>p. bt_get (cr_records rt') i = Some p \<longrightarrow> ps_enabled p \<and> ps_lifecycle p = RtFailed)"
proof -
  obtain phase m st where st: "cordis_inv st" "undisturbed (cr_store rt) st"
    and rt': "rt' = on_record i (record_failed phase m \<circ> record_mounting \<circ> h) (rt\<lparr>cr_store := st\<rparr>)"
    using out by (auto simp: mount_failed_def comp_assoc)
  have "runtime_base R dis rt'"
    unfolding rt' using record_fiber_None [OF none] h
    by (intro runtime_base_same [OF base st]) (auto simp: record_failed_ok, auto simp: record_defs)
  moreover have "fiber_of j rt' = fiber_of j rt" for j
    using h by (simp add: rt' fiber_of_on_record) (simp add: fiber_of_def split: option.split)
  ultimately show ?thesis using none by (auto simp: rt' record_defs)
qed

lemma mount_succeeded_base:
  assumes base: "runtime_base R dis rt" and none: "fiber_of i rt = None" and i: "i \<in> df_id ` set (cr_registry rt)"
    and out: "mount_succeeded i f (on_record i h rt) rt'"
  shows "runtime_base R dis rt' \<and> only_record i rt rt' \<and> fiber_of i rt' = Some f"
proof -
  let ?g = "record_mounted f \<circ> record_mounting \<circ> h"
  obtain st where st: "cordis_inv st" and done': "mount_done i (cr_root rt) f (cr_store rt) st"
    and rt': "rt' = on_record i ?g (rt\<lparr>cr_store := st\<rparr>)"
    using out by (auto simp: mount_succeeded_def comp_assoc)
  obtain p where p: "bt_get (cr_records rt) i = Some p" using runtime_baseD(6) [OF base, of i] i by blast
  have fiber: "fiber_of j (on_record i ?g rt) = (if j = i then Some f else fiber_of j rt)" for j
    using p by (simp add: fiber_of_on_record)
  have "runtime_base R dis rt'"
    unfolding rt'
  proof (rule runtime_base_update [OF base st, where fs = "\<lambda>sc. bs_insert f (sc_fibers sc)"])
    show "scope_at st (cr_root rt) =
        map_option (\<lambda>sc. sc\<lparr>sc_fibers := bs_insert f (sc_fibers sc)\<rparr>) (scope_at (cr_store rt) (cr_root rt))"
      using done' by (simp add: mount_done_def)
    show "set (bs_insert f (sc_fibers sc)) = {f'. \<exists>j. fiber_of j (on_record i ?g rt) = Some f'}"
      if "set (sc_fibers sc) = {f. \<exists>j. fiber_of j rt = Some f}" for sc :: "'b scope"
      using that none unfolding fiber by (auto, metis option.distinct(1))
    show "fiber_at st g = fiber_at (cr_store rt) g" if "fiber_of j rt = Some g" for j g
      using fiber_of_mounted [OF base that] done' by (auto simp: mount_done_def)
    show "record_ok i (cr_root rt) st (?g q)" for q
      using done' by (auto simp: record_ok_def record_defs mount_done_def)
  qed (simp_all add: record_defs)
  moreover have "fiber_of j rt' = (if j = i then Some f else fiber_of j rt)" for j
    using fiber [of j] by (simp add: rt' fiber_of_on_record split: if_splits)
  ultimately show ?thesis by (simp add: rt')
qed

lemma runtime_root: "runtime_base R dis rt \<Longrightarrow> scope_at (cr_store rt) (cr_root rt) \<noteq> None"
  using runtime_baseD(5) by fastforce

text \<open>Mounting with or without the reset of the record that a manual mount makes first.\<close>

lemma mount_plugin_base:
  assumes base: "runtime_base R dis rt" and d: "d \<in> set (cr_registry rt)" and none: "fiber_of (df_id d) rt = None"
    and h: "\<And>p. ps_fiber (h p) = ps_fiber p" and run: "mount_plugin dis d (on_record (df_id d) h rt) = (r, rt')"
  shows "runtime_base R dis rt' \<and> only_record (df_id d) rt rt' \<and>
    (case r of Inr f \<Rightarrow> fiber_of (df_id d) rt' = Some f
     | Inl e \<Rightarrow> fiber_of (df_id d) rt' = None \<and>
         (\<forall>p. bt_get (cr_records rt') (df_id d) = Some p \<longrightarrow> ps_enabled p \<and> ps_lifecycle p = RtFailed))"
proof -
  have "fiber_of (df_id d) (on_record (df_id d) h rt) = None"
    using none h by (auto simp: fiber_of_def split: option.splits)
  from mount_plugin_outcome [OF _ _ runtime_baseD(3) [OF base d] this]
  have out: "case r of Inl e \<Rightarrow> mount_failed (df_id d) (on_record (df_id d) h rt) rt'
      | Inr f \<Rightarrow> mount_succeeded (df_id d) f (on_record (df_id d) h rt) rt'"
    using runtime_baseD(1) [OF base] runtime_root [OF base] run by (simp split: sum.splits)
  show ?thesis
  proof (cases r)
    case (Inl e)
    then show ?thesis using mount_failed_base [OF base none h, where rt' = rt'] out none by simp
  next
    case (Inr f)
    then show ?thesis using mount_succeeded_base [OF base none, of f h rt'] d out by simp
  qed
qed

lemma unmount_plugin_base:
  assumes base: "runtime_base R dis rt" and d: "d \<in> set (cr_registry rt)" and run: "unmount_plugin dis d allow rt = (r, rt')"
  shows "runtime_base (R \<and> \<not> allow) dis rt' \<and> only_record (df_id d) rt rt' \<and>
    (allow \<or> \<not> df_required d \<longrightarrow> fiber_of (df_id d) rt' = None \<and>
       (\<forall>p. bt_get (cr_records rt') (df_id d) = Some p \<longrightarrow> ps_lifecycle p = RtDisabled) \<and>
       (\<forall>f. fiber_of (df_id d) rt = Some f \<longrightarrow> unmount_done (cr_root rt) f (cr_store rt) (cr_store rt')))"
proof (cases "\<not> allow \<and> df_required d")
  case True
  then show ?thesis using base run by (auto simp: unmount_plugin_def intro: runtime_base_mono)
next
  case False
  let ?i = "df_id d"
  have unique: "e = d" if "e \<in> set (cr_registry rt)" "df_id e = ?i" for e
    using runtime_baseD(2) [OF base] d that by (auto simp: distinct_map dest: inj_onD)
  show ?thesis
  proof (cases "fiber_of ?i rt")
    case None
    have rt': "rt' = on_record ?i record_disabled rt"
      using run False None by (simp add: unmount_plugin_def Let_def)
    have "runtime_base (R \<and> \<not> allow) dis rt'"
      unfolding rt' using False unique by (intro settle_record(2) [OF base None]) blast+
    moreover have "fiber_of j rt' = fiber_of j rt" for j
      using None by (auto simp: rt' fiber_of_on_record fiber_of_def split: option.splits)
    ultimately show ?thesis using None by (auto simp: rt' record_disabled_def)
  next
    case (Some f)
    obtain r0 where r0: "fiber_at (cr_store rt) f = Some r0" "mounted_fiber ?i (cr_root rt) r0"
      using fiber_of_mounted [OF base Some] by blast
    define st where "st = drop_fiber dis f (snd (unmount dis f (cr_store rt)))"
    define failure where "failure = (case map_err (ReUnmountFailed ?i) (fst (unmount dis f (cr_store rt))) of
        Inr _ \<Rightarrow> None
      | Inl e \<Rightarrow> Some \<lparr>fi_phase = PhaseUnmount, fi_message = runtime_message (show_runtime_error e), fi_attempts = 1\<rparr>)"
    have rt': "rt' = on_record ?i (record_unmounted failure) (rt\<lparr>cr_store := st\<rparr>)"
      using run False Some by (auto simp: unmount_plugin_def Let_def st_def case_prod_beta failure_def)
    have bounded: "str_len (fi_message x) \<le> MAX_FAILURE_MESSAGE_BYTES \<and> fi_attempts x = 1" if "failure = Some x" for x
      using that str_len_runtime_message by (auto simp: failure_def split: sum.splits)
    have out: "cordis_inv st" "unmount_done (cr_root rt) f (cr_store rt) st"
      using unmount_outcome [OF runtime_baseD(1) [OF base] r0(1), of "cr_root rt" dis] r0(2)
      by (simp_all add: mounted_fiber_def st_def)
    have fiber: "fiber_of j (on_record ?i (record_unmounted failure) rt) = (if j = ?i then None else fiber_of j rt)" for j
      by (simp add: fiber_of_on_record record_defs split: option.split)
    have "runtime_base (R \<and> \<not> allow) dis rt'"
      unfolding rt'
    proof (rule runtime_base_update [OF base out(1), where fs = "\<lambda>sc. bs_remove f (sc_fibers sc)"])
      show "scope_at st (cr_root rt) =
          map_option (\<lambda>sc. sc\<lparr>sc_fibers := bs_remove f (sc_fibers sc)\<rparr>) (scope_at (cr_store rt) (cr_root rt))"
        using out(2) by (simp add: unmount_done_def)
      show "set (bs_remove f (sc_fibers sc)) = {f'. \<exists>j. fiber_of j (on_record ?i (record_unmounted failure) rt) = Some f'}"
        if "set (sc_fibers sc) = {f. \<exists>j. fiber_of j rt = Some f}" for sc :: "'b scope"
        using that Some fibers_apart [OF base] unfolding fiber by (auto, metis option.inject)
      show "fiber_at st g = fiber_at (cr_store rt) g" if "j \<noteq> ?i" "fiber_of j rt = Some g" for j g
      proof -
        have "g \<noteq> f" using fibers_apart [OF base Some, of j] that by blast
        then show ?thesis
          using fiber_of_mounted [OF base that(2)] out(2) by (auto simp: unmount_done_def mounted_fiber_def)
      qed
      show "record_ok ?i (cr_root rt) st (record_unmounted failure q)" for q
        using bounded by (auto simp: record_ok_def record_defs MAX_MOUNT_ATTEMPTS_def)
      show "ps_enabled (record_unmounted failure q)"
        if "R \<and> \<not> allow" "e \<in> set (cr_registry rt)" "df_id e = ?i" "df_required e" for e q
        using that False unique by blast
    qed simp
    moreover have "fiber_of j rt' = (if j = ?i then None else fiber_of j rt)" for j
      using fiber [of j] by (simp add: rt' fiber_of_on_record split: if_splits)
    ultimately show ?thesis using out(2) Some by (auto simp: rt' record_defs)
  qed
qed

end
