(* ===== verification/Cordis_Startup.thy ===== *)
theory Cordis_Startup
  imports Cordis_Runtime_Props "HOL-Library.Multiset"
begin

text \<open>
  The accounting of a start: every id of the registry is, at each moment, either still to be looked at,
  pending, waiting for a dependency, or in exactly one list of the report, and the report says what the
  records say.
\<close>

definition startup_ids :: "('v, 'w) startup \<Rightarrow> rstring multiset" where
  "startup_ids sp = mset (sr_activated (sp_report sp)) + mset (sr_skipped (sp_report sp)) +
     image_mset sf_plugin (mset (sr_failures (sp_report sp))) + image_mset df_id (mset (sp_waiting sp))"

definition report_true :: "('v, 'w) startup \<Rightarrow> ('v, 'w) cordis_runtime \<Rightarrow> bool" where
  "report_true sp rt \<longleftrightarrow> (\<forall>i \<in> set (sr_activated (sp_report sp)). fiber_of i rt \<noteq> None) \<and>
     (\<forall>i \<in> set (sr_skipped (sp_report sp)). fiber_of i rt = None \<and>
        (\<forall>d \<in> set (cr_registry rt). df_id d = i \<longrightarrow> \<not> df_required d)) \<and>
     (\<forall>f \<in> set (sr_failures (sp_report sp)). fiber_of (sf_plugin f) rt = None \<and>
        (\<forall>d \<in> set (cr_registry rt). df_id d = sf_plugin f \<longrightarrow> sf_required f = df_required d)) \<and>
     (sp_required sp = None) = (\<forall>f \<in> set (sr_failures (sp_report sp)). \<not> sf_required f)"

definition waits :: "('v, 'w) startup \<Rightarrow> ('v, 'w) cordis_runtime \<Rightarrow> ('v, 'w) plugin_definition \<Rightarrow> bool" where
  "waits sp rt d \<longleftrightarrow> bt_get (sp_errors sp) (df_id d) \<noteq> None \<and> fiber_of (df_id d) rt = None \<and>
     (\<forall>p. bt_get (cr_records rt) (df_id d) = Some p \<longrightarrow> ps_enabled p)"

definition start_ok :: "'w disposer \<Rightarrow> ('v, 'w) plugin_definition list \<Rightarrow> ('v, 'w) plugin_definition list \<Rightarrow>
    ('v, 'w) startup \<Rightarrow> ('v, 'w) cordis_runtime \<Rightarrow> bool" where
  "start_ok dis todo ds sp rt \<longleftrightarrow> runtime_base True dis rt \<and>
     startup_ids sp + image_mset df_id (mset todo) + image_mset df_id (mset ds) = mset (map df_id (cr_registry rt)) \<and>
     set (sp_waiting sp) \<union> set ds \<union> set todo \<subseteq> set (cr_registry rt) \<and>
     (\<forall>d \<in> set ds. fiber_of (df_id d) rt = None) \<and> (\<forall>d \<in> set (sp_waiting sp). waits sp rt d) \<and> report_true sp rt"

lemma start_okD:
  assumes "start_ok dis todo ds sp rt"
  shows "runtime_base True dis rt" "set (sp_waiting sp) \<union> set ds \<union> set todo \<subseteq> set (cr_registry rt)"
    "startup_ids sp + image_mset df_id (mset todo) + image_mset df_id (mset ds) = mset (map df_id (cr_registry rt))"
    "d \<in> set ds \<Longrightarrow> fiber_of (df_id d) rt = None" "d \<in> set (sp_waiting sp) \<Longrightarrow> waits sp rt d" "report_true sp rt"
  using assms by (simp_all add: start_ok_def)

lemma start_ok_registered: "start_ok dis todo ds sp rt \<Longrightarrow> d \<in> set ds \<or> d \<in> set todo \<or> d \<in> set (sp_waiting sp) \<Longrightarrow>
    d \<in> set (cr_registry rt)"
  using start_okD(2) by blast

lemma once_in_multiset:
  assumes "M + {#x#} = mset xs" "distinct xs"
  shows "x \<notin># M"
proof
  assume "x \<in># M"
  then have "2 \<le> count (M + {#x#}) x" by (simp add: Suc_leI)
  then show False using assms distinct_count_atmost_1 [of xs] by (metis Suc_1 Suc_n_not_le_n le_trans order_refl zero_le_one)
qed

text \<open>The id taken up next is in none of the other places.\<close>

definition elsewhere :: "rstring \<Rightarrow> ('v, 'w) plugin_definition list \<Rightarrow> ('v, 'w) plugin_definition list \<Rightarrow> ('v, 'w) startup \<Rightarrow> bool" where
  "elsewhere i todo ds sp \<longleftrightarrow> i \<notin># startup_ids sp + image_mset df_id (mset todo) + image_mset df_id (mset ds)"

lemma elsewhere_parts:
  assumes "elsewhere i todo ds sp"
  shows "j \<in> set (sr_activated (sp_report sp)) \<Longrightarrow> j \<noteq> i" "j \<in> set (sr_skipped (sp_report sp)) \<Longrightarrow> j \<noteq> i"
    "f \<in> set (sr_failures (sp_report sp)) \<Longrightarrow> sf_plugin f \<noteq> i" "d \<in> set (sp_waiting sp) \<Longrightarrow> df_id d \<noteq> i"
    "d \<in> set ds \<Longrightarrow> df_id d \<noteq> i" "d \<in> set todo \<Longrightarrow> df_id d \<noteq> i"
  using assms by (auto simp: elsewhere_def startup_ids_def)

lemma next_elsewhere:
  assumes "start_ok dis todo (d # ds) sp rt \<or> start_ok dis (d # todo) ds sp rt"
  shows "elsewhere (df_id d) todo ds sp"
proof -
  have eq: "(startup_ids sp + image_mset df_id (mset todo) + image_mset df_id (mset ds)) + {#df_id d#} = mset (map df_id (cr_registry rt))"
    using assms start_okD(3) [of dis todo "d # ds" sp rt] start_okD(3) [of dis "d # todo" ds sp rt] by auto
  have "distinct (map df_id (cr_registry rt))" using assms runtime_baseD(2) start_okD(1) by blast
  from once_in_multiset [OF eq this] show ?thesis by (simp add: elsewhere_def)
qed

lemma runtime_ids_unique:
  "runtime_base R dis rt \<Longrightarrow> d \<in> set (cr_registry rt) \<Longrightarrow> e \<in> set (cr_registry rt) \<Longrightarrow> df_id e = df_id d \<Longrightarrow> e = d"
  using runtime_baseD(2) [of R dis rt] by (auto simp: distinct_map dest: inj_onD)

text \<open>A step on one id keeps what is said of the others.\<close>

lemma waits_kept: "waits sp rt e \<Longrightarrow> only_record i rt rt' \<Longrightarrow> df_id e \<noteq> i \<Longrightarrow>
    bt_get (sp_errors sp') (df_id e) = bt_get (sp_errors sp) (df_id e) \<Longrightarrow> waits sp' rt' e"
  using only_record_fiber [of i rt rt' "df_id e"] by (simp add: waits_def only_record_def)

lemma report_kept:
  assumes "report_true sp rt" "only_record i rt rt'" "elsewhere i todo ds sp"
  shows "report_true sp rt'"
proof -
  have reg: "cr_registry rt' = cr_registry rt" using assms(2) by (simp add: only_record_def same_shape_def)
  show ?thesis
    using assms(1) only_record_fiber [OF assms(2)] elsewhere_parts [OF assms(3)]
    unfolding report_true_def reg by auto
qed

lemma start_ok_step:
  assumes before: "start_ok dis todo (d # ds) sp rt \<or> start_ok dis (d # todo) ds sp rt"
    and base: "runtime_base True dis rt'" and only: "only_record (df_id d) rt rt'"
    and ids: "startup_ids sp' = startup_ids sp + {#df_id d#}"
    and waiting: "set (sp_waiting sp') \<subseteq> insert d (set (sp_waiting sp))" "d \<in> set (sp_waiting sp') \<Longrightarrow> waits sp' rt' d"
    and errors: "\<And>j. j \<noteq> df_id d \<Longrightarrow> bt_get (sp_errors sp') j = bt_get (sp_errors sp) j"
    and report: "report_true sp' rt'"
  shows "start_ok dis todo ds sp' rt'"
proof -
  note other = elsewhere_parts [OF next_elsewhere [OF before]]
  have reg: "cr_registry rt' = cr_registry rt" using only by (simp add: only_record_def same_shape_def)
  have d: "d \<in> set (cr_registry rt)"
    using before start_ok_registered [of dis todo "d # ds" sp rt d] start_ok_registered [of dis "d # todo" ds sp rt d] by auto
  have "waits sp' rt' e" if "e \<in> set (sp_waiting sp')" for e
  proof (cases "e = d")
    case False
    then have e: "e \<in> set (sp_waiting sp)" using that waiting(1) by blast
    have "waits sp rt e" using before e start_okD(5) by blast
    then show ?thesis by (rule waits_kept [OF _ only other(4) [OF e]]) (rule errors [OF other(4) [OF e]])
  qed (use waiting(2) that in blast)
  moreover have "fiber_of (df_id e) rt' = None" if "e \<in> set ds" for e
  proof -
    have "fiber_of (df_id e) rt = None" using before that start_okD(4) by (metis list.set_intros(2))
    then show ?thesis using only_record_fiber [OF only other(5) [OF that]] by simp
  qed
  moreover have "startup_ids sp' + image_mset df_id (mset todo) + image_mset df_id (mset ds) = mset (map df_id (cr_registry rt))"
    using before start_okD(3) [of dis todo "d # ds" sp rt] start_okD(3) [of dis "d # todo" ds sp rt] by (auto simp: ids)
  moreover have "set (sp_waiting sp') \<union> set ds \<union> set todo \<subseteq> set (cr_registry rt)"
  proof -
    have "set (sp_waiting sp) \<union> set ds \<union> set todo \<subseteq> set (cr_registry rt)"
      using before start_okD(2) [of dis todo "d # ds" sp rt] start_okD(2) [of dis "d # todo" ds sp rt] by auto
    then show ?thesis using d waiting(1) by blast
  qed
  ultimately show ?thesis using base report unfolding start_ok_def reg by blast
qed

lemma report_activated:
  assumes "report_true sp rt" "fiber_of (df_id d) rt \<noteq> None"
  shows "report_true (start_activated d sp) rt"
  using assms by (auto simp: report_true_def start_activated_def)

lemma report_failed:
  assumes "report_true sp rt" "fiber_of (df_id d) rt = None" "runtime_base R dis rt" "d \<in> set (cr_registry rt)"
  shows "report_true (start_failed d e rt0 sp) rt"
  using assms runtime_ids_unique [OF assms(3,4)]
  by (auto simp: report_true_def start_failed_def report_failure_def)

text \<open>The mounts of a pass.\<close>

lemma start_ok_activated:
  assumes ok: "start_ok dis todo (d # ds) sp rt" and run: "mount_plugin dis d rt = (Inr f, rt')"
  shows "start_ok dis todo ds (start_activated d sp) rt'"
proof -
  note d = start_ok_registered [OF ok, of d]
  have "fiber_of (df_id d) rt = None" using start_okD(4) [OF ok] by simp
  then have out: "runtime_base True dis rt'" "only_record (df_id d) rt rt'" "fiber_of (df_id d) rt' = Some f"
    using mount_plugin_base [OF start_okD(1) [OF ok], of d id] d run by auto
  have at: "elsewhere (df_id d) todo ds sp" using ok next_elsewhere by blast
  have "report_true (start_activated d sp) rt'" "d \<notin> set (sp_waiting sp)"
    using report_activated [OF report_kept [OF start_okD(6) [OF ok] out(2) at]] out(3) elsewhere_parts(4) [OF at] by auto
  then show ?thesis
    by (intro start_ok_step [OF disjI1 [OF ok] out(1,2)]) (auto simp: startup_ids_def start_activated_def)
qed

lemma mount_plugin_Inl:
  assumes ok: "start_ok dis todo (d # ds) sp rt" and run: "mount_plugin dis d rt = (Inl e, rt')"
  shows "runtime_base True dis rt' \<and> only_record (df_id d) rt rt' \<and> fiber_of (df_id d) rt' = None \<and>
    (\<forall>p. bt_get (cr_records rt') (df_id d) = Some p \<longrightarrow> ps_enabled p)"
proof -
  have "fiber_of (df_id d) rt = None" using start_okD(4) [OF ok] by simp
  then show ?thesis
    using mount_plugin_base [OF start_okD(1) [OF ok], of d id] start_ok_registered [OF ok, of d] run by auto
qed

lemma start_ok_failed:
  assumes ok: "start_ok dis todo (d # ds) sp rt" and run: "mount_plugin dis d rt = (Inl e, rt')"
  shows "start_ok dis todo ds (start_failed d e rt' sp) rt'"
proof -
  have d: "d \<in> set (cr_registry rt)" using start_ok_registered [OF ok] by simp
  have out: "runtime_base True dis rt'" "only_record (df_id d) rt rt'" "fiber_of (df_id d) rt' = None"
    using mount_plugin_Inl [OF ok run] by simp_all
  have at: "elsewhere (df_id d) todo ds sp" using ok next_elsewhere by blast
  have "report_true (start_failed d e rt' sp) rt'"
    using report_failed [OF report_kept [OF start_okD(6) [OF ok] out(2) at] out(3,1)] d out(2)
    by (simp add: only_record_def same_shape_def)
  then show ?thesis
    using elsewhere_parts(4) [OF at]
    by (intro start_ok_step [OF disjI1 [OF ok] out(1,2)]) (auto simp: startup_ids_def start_failed_def report_failure_def)
qed

lemma defer_base:
  assumes base: "runtime_base True dis rt" and i: "fiber_of i rt = None" "\<And>p. bt_get (cr_records rt) i = Some p \<Longrightarrow> ps_enabled p"
  shows "runtime_base True dis (defer_missing_dependency i rt)"
  unfolding defer_missing_dependency_def
  using i(2) record_fiber_None [OF i(1)]
  by (subst on_record_here [symmetric], intro runtime_base_same [OF base runtime_baseD(1) [OF base] undisturbed_refl])
     (auto simp: record_ok_def record_deferred_def MAX_MOUNT_ATTEMPTS_def)

lemma start_ok_deferred:
  assumes ok: "start_ok dis todo (d # ds) sp rt" and run: "mount_plugin dis d rt = (Inl e, rt')"
  shows "start_ok dis todo ds (start_deferred d e sp) (defer_missing_dependency (df_id d) rt')"
proof -
  let ?rt = "defer_missing_dependency (df_id d) rt'"
  note out = mount_plugin_Inl [OF ok run]
  have base: "runtime_base True dis ?rt" using out by (intro defer_base) auto
  have only: "only_record (df_id d) rt ?rt" using only_record_trans [of "df_id d" rt rt' ?rt] out by simp
  have none: "fiber_of (df_id d) ?rt = None" "\<And>p. bt_get (cr_records ?rt) (df_id d) = Some p \<Longrightarrow> ps_enabled p"
    using out by (auto simp: defer_missing_dependency_def fiber_of_def record_deferred_def split: option.splits)
  have at: "elsewhere (df_id d) todo ds sp" using ok next_elsewhere by blast
  have "report_true (start_deferred d e sp) ?rt"
    using report_kept [OF start_okD(6) [OF ok] only at] by (simp add: report_true_def start_deferred_def)
  then show ?thesis
    using none
    by (intro start_ok_step [OF disjI1 [OF ok] base only]) (auto simp: startup_ids_def start_deferred_def waits_def)
qed

lemma start_pass_ok: "start_ok dis [] ds sp rt \<Longrightarrow> start_pass dis ds sp rt = (sp', rt') \<Longrightarrow>
    start_ok dis [] [] sp' rt' \<and> same_shape rt rt'"
proof (induction dis ds sp rt rule: start_pass.induct)
  case (2 dis d ds sp rt)
  have shape: "same_shape rt (snd (mount_plugin dis d rt))"
    using mount_plugin_base [OF start_okD(1) [OF "2.prems"(1)], of d id] start_ok_registered [OF "2.prems"(1), of d]
      start_okD(4) [OF "2.prems"(1)] by (cases "mount_plugin dis d rt") (auto dest: only_record_shape)
  show ?case
  proof (cases "mount_plugin dis d rt")
    case (Pair r rt1)
    show ?thesis
    proof (cases r)
      case (Inr f)
      then show ?thesis
        using "2.IH"(3) [OF _ _ start_ok_activated [OF "2.prems"(1)]] Pair "2.prems"(2) shape
        by (auto intro: same_shape_trans)
    next
      case (Inl e)
      show ?thesis
      proof (cases "is_missing_dependency e")
        case True
        then show ?thesis
          using "2.IH"(1) [OF _ _ True start_ok_deferred [OF "2.prems"(1)]] Pair Inl "2.prems"(2) shape
          by (auto intro: same_shape_trans)
      next
        case False
        then show ?thesis
          using "2.IH"(2) [OF _ _ False start_ok_failed [OF "2.prems"(1)]] Pair Inl "2.prems"(2) shape
          by (auto intro: same_shape_trans)
      qed
    qed
  qed
qed simp

text \<open>What still waits when a pass mounts nothing.\<close>

lemma record_failure_base:
  assumes base: "runtime_base True dis rt" and i: "fiber_of i rt = None" "\<And>p. bt_get (cr_records rt) i = Some p \<Longrightarrow> ps_enabled p"
  shows "runtime_base True dis (record_failure i phase m rt)"
  unfolding record_failure_def
  using i(2) record_fiber_None [OF i(1)] str_len_runtime_message [of m]
  by (subst on_record_here [symmetric], intro runtime_base_same [OF base runtime_baseD(1) [OF base] undisturbed_refl])
     (auto simp: record_ok_def record_failed_def MAX_MOUNT_ATTEMPTS_def max_one)

lemma fail_waiting_ok:
  assumes "start_ok dis [] ds (sp\<lparr>sp_waiting := []\<rparr>) rt" and "\<And>d. d \<in> set ds \<Longrightarrow> waits sp rt d"
    and "fail_waiting ds sp rt = (sp', rt')"
  shows "start_ok dis [] [] (sp'\<lparr>sp_waiting := []\<rparr>) rt' \<and> same_shape rt rt'"
  using assms
proof (induction ds arbitrary: sp rt)
  case (Cons d ds)
  let ?i = "df_id d" and ?sp = "sp\<lparr>sp_waiting := []\<rparr>"
  have w: "waits sp rt d" using Cons.prems(2) by simp
  then obtain e where e: "bt_get (sp_errors sp) ?i = Some e" by (auto simp: waits_def)
  define rt1 where "rt1 = record_failure ?i PhaseMount (show_runtime_error e) rt"
  define sp1 where "sp1 = start_failed d e rt1 (sp\<lparr>sp_errors := bt_remove ?i (sp_errors sp)\<rparr>)"
  have base: "runtime_base True dis rt1"
    using w unfolding rt1_def by (intro record_failure_base [OF start_okD(1) [OF Cons.prems(1)]]) (auto simp: waits_def)
  have only: "only_record ?i rt rt1" by (simp add: rt1_def)
  have none: "fiber_of ?i rt1 = None"
    using w by (auto simp: rt1_def record_failure_def waits_def fiber_of_on_record split: option.split dest: record_fiber_None)
  have reg: "cr_registry rt1 = cr_registry rt" using only by (simp add: only_record_def same_shape_def)
  have d: "d \<in> set (cr_registry rt1)" using start_ok_registered [OF Cons.prems(1), of d] by (simp add: reg)
  have at: "elsewhere ?i [] ds ?sp" using Cons.prems(1) next_elsewhere by blast
  have "report_true (start_failed d e rt1 ?sp) rt1"
    by (rule report_failed [OF report_kept [OF start_okD(6) [OF Cons.prems(1)] only at] none base d])
  then have "start_ok dis [] ds (sp1\<lparr>sp_waiting := []\<rparr>) rt1"
    by (intro start_ok_step [OF disjI1 [OF Cons.prems(1)] base only])
       (auto simp: startup_ids_def sp1_def start_failed_def report_failure_def report_true_def)
  moreover have "waits sp1 rt1 c" if "c \<in> set ds" for c
  proof -
    have "df_id c \<noteq> ?i" by (rule elsewhere_parts(5) [OF at that])
    then show ?thesis using Cons.prems(2) [of c] that by (intro waits_kept [OF _ only]) (simp_all add: sp1_def start_failed_def)
  qed
  moreover have "fail_waiting ds sp1 rt1 = (sp', rt')" using Cons.prems(3) e by (simp add: sp1_def rt1_def Let_def)
  ultimately have "start_ok dis [] [] (sp'\<lparr>sp_waiting := []\<rparr>) rt' \<and> same_shape rt1 rt'" by (rule Cons.IH)
  then show ?case by (simp add: rt1_def)
qed simp

text \<open>All passes, and the scan before them.\<close>

lemma start_passes_ok: "start_ok dis [] pending (sp\<lparr>sp_waiting := []\<rparr>) rt \<Longrightarrow> start_passes dis pending sp rt = (sp', rt') \<Longrightarrow>
    start_ok dis [] [] (sp'\<lparr>sp_waiting := []\<rparr>) rt' \<and> same_shape rt rt'"
proof (induction dis pending sp rt rule: start_passes.induct)
  case (1 dis pending sp rt)
  let ?sp = "sp\<lparr>sp_waiting := [], sp_mounted := False\<rparr>"
  show ?case
  proof (cases "pending = []")
    case True
    then show ?thesis using "1.prems" by (subst (asm) start_passes.simps) simp
  next
    case False
    obtain sp1 rt1 where run: "start_pass dis pending ?sp rt = (sp1, rt1)" by fastforce
    have "start_ok dis [] pending ?sp rt"
      using "1.prems"(1) by (simp add: start_ok_def startup_ids_def report_true_def)
    from start_pass_ok [OF this run] have ok: "start_ok dis [] [] sp1 rt1" and shape: "same_shape rt rt1" by simp_all
    have moved: "start_ok dis [] (sp_waiting sp1) (sp1\<lparr>sp_waiting := []\<rparr>) rt1"
      using ok by (simp add: start_ok_def startup_ids_def report_true_def waits_def)
    have result: "(if sp_waiting sp1 = [] then (sp1, rt1) else if sp_mounted sp1 then start_passes dis (sp_waiting sp1) sp1 rt1
        else fail_waiting (sp_waiting sp1) sp1 rt1) = (sp', rt')"
      using "1.prems"(2) False run by (subst (asm) start_passes.simps) simp
    have next_pass: "start_ok dis [] [] (sp'\<lparr>sp_waiting := []\<rparr>) rt' \<and> same_shape rt1 rt'"
      if "sp_waiting sp1 \<noteq> []" "sp_mounted sp1" "start_passes dis (sp_waiting sp1) sp1 rt1 = (sp', rt')"
      using "1.IH" [OF False run [symmetric] that(1,2) moved that(3)] .
    show ?thesis
      using result moved ok shape fail_waiting_ok [OF moved] start_okD(5) [OF ok] next_pass
      by (auto split: if_splits intro: same_shape_trans)
  qed
qed

lemma start_scan_ok:
  assumes "start_ok dis ds ps sp rt" and "sp_required sp = None" and "sp_waiting sp = []" and "sp_errors sp = []"
    and "start_scan dis ds (sp_report sp) rt = (pending, report, rt')"
  shows "start_ok dis [] (ps @ pending) (sp\<lparr>sp_report := report\<rparr>) rt' \<and> same_shape rt rt'"
  using assms
proof (induction ds arbitrary: ps sp rt pending)
  case Nil
  then show ?case by (cases sp) auto
next
  case (Cons d ds)
  let ?i = "df_id d"
  note base = start_okD(1) [OF Cons.prems(1)]
  have d: "d \<in> set (cr_registry rt)" using start_ok_registered [OF Cons.prems(1)] by simp
  have at: "elsewhere ?i ds ps sp" using Cons.prems(1) next_elsewhere by blast
  have go: "start_ok dis [] (ps @ pending) (sp\<lparr>sp_report := report\<rparr>) rt' \<and> same_shape rt rt'"
    if "runtime_base True dis rt1" "only_record ?i rt rt1" "report_true sp1 rt1" "startup_ids sp1 = startup_ids sp + {#?i#}"
      "sp1 = sp\<lparr>sp_report := sp_report sp1\<rparr>" "sp_required sp1 = None" "sp_waiting sp1 = []"
      "start_scan dis ds (sp_report sp1) rt1 = (pending, report, rt')" for sp1 rt1
  proof -
    have "sp_errors sp1 = []" using that(5) Cons.prems(4) by (metis startup.select_convs(3) startup.surjective startup.update_convs(1))
    moreover have "start_ok dis ds ps sp1 rt1"
      using that Cons.prems(4) calculation by (intro start_ok_step [OF disjI2 [OF Cons.prems(1)]]) auto
    ultimately have "start_ok dis [] (ps @ pending) (sp1\<lparr>sp_report := report\<rparr>) rt' \<and> same_shape rt1 rt'"
      using Cons.IH that(6,7,8) by blast
    moreover have "sp1\<lparr>sp_report := report\<rparr> = sp\<lparr>sp_report := report\<rparr>" by (subst that(5)) simp
    ultimately show ?thesis using only_record_shape [OF that(2)] same_shape_trans by auto
  qed
  show ?case
  proof (cases "effective_enabled (df_manifest d) rt")
    case True
    show ?thesis
    proof (cases "has_fiber ?i rt")
      case True
      let ?sp = "sp\<lparr>sp_report := (sp_report sp)\<lparr>sr_activated := sr_activated (sp_report sp) @ [?i]\<rparr>\<rparr>"
      have "report_true ?sp rt"
        using start_okD(6) [OF Cons.prems(1)] True by (auto simp: report_true_def has_fiber_def)
      then show ?thesis
        using Cons.prems \<open>effective_enabled (df_manifest d) rt\<close> True
        by (intro go [OF base only_record_refl, of ?sp]) (auto simp: startup_ids_def)
    next
      case False
      then obtain rest where rest: "pending = d # rest" "start_scan dis ds (sp_report sp) rt = (rest, report, rt')"
        using Cons.prems(5) \<open>effective_enabled (df_manifest d) rt\<close> by (auto split: prod.splits)
      have "start_ok dis ds (ps @ [d]) sp rt"
        using Cons.prems(1) False by (auto simp: start_ok_def has_fiber_def)
      from Cons.IH [OF this Cons.prems(2-4) rest(2)] show ?thesis by (simp add: rest(1))
    qed
  next
    case False
    then have opt: "\<not> df_required d" by (auto simp: effective_enabled_def split: if_splits)
    have unique: "e = d" if "e \<in> set (cr_registry rt)" "df_id e = ?i" for e
      by (rule runtime_ids_unique [OF base d that])
    define r1 where "r1 = (if has_fiber ?i rt then unmount_plugin dis d False rt else (Inr (), rt))"
    have un: "runtime_base True dis (snd r1) \<and> only_record ?i rt (snd r1) \<and> fiber_of ?i (snd r1) = None"
      using unmount_plugin_base [OF base d, of False] base opt
      by (cases "unmount_plugin dis d False rt") (auto simp: r1_def has_fiber_def)
    have reg: "cr_registry (snd r1) = cr_registry rt" using un by (simp add: only_record_def same_shape_def)
    have kept: "report_true sp (snd r1)" using report_kept [OF start_okD(6) [OF Cons.prems(1)] _ at] un by blast
    show ?thesis
    proof (cases "fst r1")
      case (Inl e)
      let ?f = "report_failure PhaseUnmount d e (snd r1)"
      let ?sp = "sp\<lparr>sp_report := (sp_report sp)\<lparr>sr_failures := sr_failures (sp_report sp) @ [?f]\<rparr>\<rparr>"
      have "report_true ?sp (snd r1)"
        using kept un opt unique Cons.prems(2) by (auto simp: report_true_def report_failure_def reg)
      then show ?thesis
        using un Cons.prems(2,3,5) False Inl
        by (intro go [of "snd r1" ?sp]) (auto simp: startup_ids_def report_failure_def r1_def [symmetric] case_prod_beta)
    next
      case (Inr u)
      let ?rt = "deactivate_without_mount ?i (snd r1)"
      let ?sp = "sp\<lparr>sp_report := (sp_report sp)\<lparr>sr_skipped := sr_skipped (sp_report sp) @ [?i]\<rparr>\<rparr>"
      have base': "runtime_base True dis ?rt"
        using un unique opt by (intro settle_record(1) [where R = True]) (auto simp: reg)
      have only: "only_record ?i rt ?rt" using un only_record_trans [of ?i rt "snd r1" ?rt] by simp
      have "fiber_of ?i ?rt = None"
        using un by (simp add: deactivate_without_mount_def fiber_of_on_record split: option.split) (auto simp: fiber_of_def)
      then have "report_true ?sp ?rt"
        using report_kept [OF kept only_record_settle(1) at] unique opt
        by (auto simp: report_true_def reg deactivate_without_mount_def)
      then show ?thesis
        using base' only Cons.prems(2,3,5) False Inr
        by (intro go [of ?rt ?sp]) (auto simp: startup_ids_def r1_def [symmetric] case_prod_beta)
    qed
  qed
qed

end
