(* ===== verification/Cordis_Runtime_Claims.thy ===== *)
theory Cordis_Runtime_Claims
  imports Cordis_Startup
begin

text \<open>
  What the runtime guarantees in every run in which plugins only act on their own scopes: records, fibers
  and the root scope agree, required plugins stay on, a start accounts for every plugin and a shutdown
  closes every one of them.
\<close>

section \<open>Every operation keeps the invariant\<close>

definition empty_startup :: "startup_report \<Rightarrow> ('v, 'w) startup" where
  "empty_startup report = \<lparr>sp_report = report, sp_required = None, sp_errors = [], sp_waiting = [], sp_mounted = False\<rparr>"

lemma empty_startup_simps [simp]:
  "sp_report (empty_startup r) = r" "sp_required (empty_startup r) = None" "sp_errors (empty_startup r) = []"
  "sp_waiting (empty_startup r) = []" "(empty_startup r)\<lparr>sp_waiting := []\<rparr> = empty_startup r"
  "(empty_startup r)\<lparr>sp_report := r'\<rparr> = empty_startup r'"
  by (simp_all add: empty_startup_def)

lemma runtime_start_ok:
  assumes base: "runtime_base True dis rt" and opened: "\<not> cr_closed rt" and run: "runtime_start dis rt = (r, rt')"
  shows "\<exists>sp. start_ok dis [] [] (sp\<lparr>sp_waiting := []\<rparr>) rt' \<and> same_shape (rt\<lparr>cr_started := True\<rparr>) rt' \<and>
    r = (case sp_required sp of Some e \<Rightarrow> Inl e | None \<Rightarrow> Inr (sp_report sp))"
proof -
  let ?rt = "rt\<lparr>cr_started := True\<rparr>" and ?r0 = "\<lparr>sr_activated = [], sr_skipped = [], sr_failures = []\<rparr>"
  obtain pending report rt1 where scan: "start_scan dis (cr_registry ?rt) ?r0 ?rt = (pending, report, rt1)"
    by (metis prod_cases3)
  obtain sp rt2 where passes: "start_passes dis pending (empty_startup report) rt1 = (sp, rt2)" by fastforce
  have "start_ok dis (cr_registry ?rt) [] (empty_startup ?r0) ?rt"
    using base by (simp add: start_ok_def startup_ids_def report_true_def)
  from start_scan_ok [OF this, of pending report rt1]
  have scanned: "start_ok dis [] pending (empty_startup report) rt1 \<and> same_shape ?rt rt1"
    using scan by simp
  then have "start_ok dis [] [] (sp\<lparr>sp_waiting := []\<rparr>) rt2 \<and> same_shape rt1 rt2"
    using start_passes_ok [OF _ passes] by simp
  moreover have "rt' = rt2" "r = (case sp_required sp of Some e \<Rightarrow> Inl e | None \<Rightarrow> Inr (sp_report sp))"
    using run opened scan passes
    by (auto simp: runtime_start_def ensure_open_def ensure_def empty_startup_def split: option.splits)
  ultimately show ?thesis using scanned same_shape_trans by blast
qed

lemma runtime_start_base:
  assumes "runtime_base True dis rt" and "runtime_start dis rt = (r, rt')"
  shows "runtime_base True dis rt' \<and> cr_closed rt' = cr_closed rt \<and> cr_registry rt' = cr_registry rt \<and> cr_root rt' = cr_root rt"
proof (cases "cr_closed rt")
  case True
  then show ?thesis using assms by (auto simp: runtime_start_def ensure_open_def ensure_def)
next
  case False
  then show ?thesis using runtime_start_ok [OF assms(1) False assms(2)] start_okD(1) by (fastforce simp: same_shape_def)
qed

lemma registry_requireD: "registry_require i ds = Inr d \<Longrightarrow> d \<in> set ds \<and> df_id d = i"
  by (auto simp: registry_require_def registry_get_def find_Some_iff split: option.splits dest: nth_mem)

lemma mount_with_base:
  assumes "runtime_base R dis rt" "d \<in> set (cr_registry rt)" "fiber_of (df_id d) rt = None"
    and "h = id \<or> h = record_reset"
  shows "runtime_base R dis (snd (mount_plugin dis d (on_record (df_id d) h rt))) \<and>
    same_shape rt (snd (mount_plugin dis d (on_record (df_id d) h rt)))"
proof -
  have "ps_fiber (h p) = ps_fiber p" for p using assms(4) by auto
  from mount_plugin_base [OF assms(1-3) this prod.collapse [symmetric]] show ?thesis
    using only_record_shape by blast
qed

lemma mount_again_base:
  assumes "runtime_base R dis rt" "d \<in> set (cr_registry rt)"
  shows "runtime_base R dis (snd (mount_plugin dis d (if has_fiber (df_id d) rt then rt else reset_for_manual_mount (df_id d) rt))) \<and>
    same_shape rt (snd (mount_plugin dis d (if has_fiber (df_id d) rt then rt else reset_for_manual_mount (df_id d) rt)))"
proof (cases "has_fiber (df_id d) rt")
  case True
  then show ?thesis using assms(1) by (simp add: mount_plugin_def Let_def)
next
  case False
  then show ?thesis
    using mount_with_base [OF assms, of record_reset] by (simp add: has_fiber_def reset_for_manual_mount_def)
qed

lemma unmount_optional_base:
  assumes "runtime_base True dis rt" "d \<in> set (cr_registry rt)"
  shows "runtime_base True dis (snd (unmount_plugin dis d False rt)) \<and> same_shape rt (snd (unmount_plugin dis d False rt))"
  using unmount_plugin_base [OF assms prod.collapse [symmetric], of False] by (auto dest: only_record_shape)

lemma switch_base:
  assumes base: "runtime_base True dis rt" and d: "d \<in> set (cr_registry rt)" and opt: "enabled \<or> \<not> df_required d"
  shows "runtime_base True dis (snd (switch_before_start dis d enabled rt)) \<and>
    same_shape rt (snd (switch_before_start dis d enabled rt))"
proof -
  have "runtime_base True dis (deactivate_without_mount (df_id d) rt)" if "fiber_of (df_id d) rt = None" "\<not> df_required d"
    using that runtime_ids_unique [OF base d] by (intro settle_record(1) [OF base]) auto
  then show ?thesis
    using prepare_base [OF base] unmount_optional_base [OF base d] opt
    by (auto simp: switch_before_start_def has_fiber_def)
qed

lemma drop_ok_snd [simp]: "snd (drop_ok m s) = snd (m s)"
  by (simp add: drop_ok_def case_prod_beta)

text \<open>The operations by id, on an open runtime.\<close>

definition stays_open :: "'w disposer \<Rightarrow> ('v, 'w) cordis_runtime \<Rightarrow> ('v, 'w) cordis_runtime \<Rightarrow> bool" where
  "stays_open dis rt rt' \<longleftrightarrow> runtime_base True dis rt' \<and> cr_closed rt' = cr_closed rt \<and>
     cr_registry rt' = cr_registry rt \<and> cr_root rt' = cr_root rt"

lemma stays_openI: "runtime_base True dis rt' \<and> same_shape rt1 rt' \<Longrightarrow> cr_closed rt1 = cr_closed rt \<Longrightarrow>
    cr_registry rt1 = cr_registry rt \<Longrightarrow> cr_root rt1 = cr_root rt \<Longrightarrow> stays_open dis rt rt'"
  by (simp add: stays_open_def same_shape_def)

lemma stays_open_refl: "runtime_base True dis rt \<Longrightarrow> stays_open dis rt rt"
  by (simp add: stays_open_def)

lemma runtime_mount_base:
  assumes base: "runtime_base True dis rt"
  shows "stays_open dis rt (snd (runtime_mount dis i rt))"
proof (cases "res_bind (ensure_open (lit ''mount'') rt) (\<lambda>_. registry_require i (cr_registry rt))")
  case (Inl e)
  then show ?thesis using stays_open_refl [OF base] by (simp add: runtime_mount_def)
next
  case (Inr d)
  then have d: "d \<in> set (cr_registry rt)" "df_id d = i"
    using registry_requireD [of i "cr_registry rt" d] by (cases "ensure_open (lit ''mount'') rt"; auto)+
  define rt1 where "rt1 = (if df_required d then rt else rt\<lparr>cr_overrides := bt_insert i True (cr_overrides rt)\<rparr>)"
  have "runtime_base True dis rt1" "d \<in> set (cr_registry rt1)" using base d by (simp_all add: rt1_def)
  from mount_again_base [OF this] show ?thesis
    using Inr d by (intro stays_openI [of _ _ rt1]) (auto simp: runtime_mount_def Let_def rt1_def)
qed

lemma runtime_set_enabled_base:
  assumes base: "runtime_base True dis rt"
  shows "stays_open dis rt (snd (runtime_set_enabled dis i enabled rt))"
proof (cases "res_bind (ensure_open (lit ''change plugin state'') rt) (\<lambda>_. registry_require i (cr_registry rt))")
  case (Inl e)
  then show ?thesis using stays_open_refl [OF base] by (simp add: runtime_set_enabled_def)
next
  case (Inr d)
  then have d: "d \<in> set (cr_registry rt)" "df_id d = i"
    using registry_requireD [of i "cr_registry rt" d] by (cases "ensure_open (lit ''change plugin state'') rt"; auto)+
  show ?thesis
  proof (cases "\<not> enabled \<and> df_required d")
    case True
    then show ?thesis using stays_open_refl [OF base] Inr by (simp add: runtime_set_enabled_def)
  next
    case False
    define rt1 where "rt1 = rt\<lparr>cr_overrides := bt_insert i enabled (cr_overrides rt)\<rparr>"
    have base1: "runtime_base True dis rt1" "d \<in> set (cr_registry rt1)" using base d by (simp_all add: rt1_def)
    let ?rt = "snd (runtime_set_enabled dis i enabled rt)"
    have eq: "?rt = (if \<not> cr_started rt1 then snd (switch_before_start dis d enabled rt1)
        else if enabled then (if has_fiber (df_id d) rt1 then rt1 else snd (mount_plugin dis d (reset_for_manual_mount (df_id d) rt1)))
        else snd (unmount_plugin dis d False rt1))"
      using Inr False d(2) by (auto simp: runtime_set_enabled_def Let_def rt1_def)
    have "runtime_base True dis ?rt \<and> same_shape rt1 ?rt"
      using mount_again_base [OF base1] switch_base [OF base1, of enabled] unmount_optional_base [OF base1] base1(1) False
      unfolding eq by (simp split: if_splits)
    then show ?thesis by (rule stays_openI) (simp_all add: rt1_def)
  qed
qed

lemma runtime_clear_override_base:
  assumes base: "runtime_base True dis rt"
  shows "stays_open dis rt (snd (runtime_clear_override dis i rt))"
proof (cases "res_bind (ensure_open (lit ''clear plugin override'') rt) (\<lambda>_. registry_require i (cr_registry rt))")
  case (Inl e)
  then show ?thesis using stays_open_refl [OF base] by (simp add: runtime_clear_override_def)
next
  case (Inr d)
  then have d: "d \<in> set (cr_registry rt)" "df_id d = i"
    using registry_requireD [of i "cr_registry rt" d] by (cases "ensure_open (lit ''clear plugin override'') rt"; auto)+
  define rt1 where "rt1 = rt\<lparr>cr_overrides := bt_remove i (cr_overrides rt)\<rparr>"
  have base1: "runtime_base True dis rt1" "d \<in> set (cr_registry rt1)" using base d by (simp_all add: rt1_def)
  let ?rt = "snd (runtime_clear_override dis i rt)" and ?desired = "default_enabled (df_manifest d)"
  have eq: "?rt = (if df_required d then rt1 else if \<not> cr_started rt1 then snd (switch_before_start dis d ?desired rt1)
      else if ?desired then (if has_fiber (df_id d) rt1 then rt1 else snd (mount_plugin dis d rt1))
      else snd (unmount_plugin dis d False rt1))"
    using Inr d(2) by (auto simp: runtime_clear_override_def Let_def rt1_def)
  have "runtime_base True dis ?rt \<and> same_shape rt1 ?rt"
    using mount_with_base [OF base1, of id] switch_base [OF base1, of ?desired] unmount_optional_base [OF base1] base1(1)
    unfolding eq by (simp add: has_fiber_def)
  then show ?thesis by (rule stays_openI) (simp_all add: rt1_def)
qed

section \<open>Shutdown\<close>

definition closed_fiber :: "nat \<Rightarrow> ('v, 'w) cordis \<Rightarrow> nat \<Rightarrow> bool" where
  "closed_fiber c st f \<longleftrightarrow> (\<exists>r. fiber_at st f = Some r \<and> fb_parent r = c \<and> fb_state r = FiberUnmounted \<and>
     not_active st (fb_scope r))"

lemma unmount_closes:
  assumes "unmount_done c f st st'" and "\<exists>r. fiber_at st f = Some r \<and> mounted_fiber i c r"
  shows "closed_fiber c st' f" "closed_fiber c st g \<Longrightarrow> closed_fiber c st' g"
proof -
  show "closed_fiber c st' f" using assms by (auto simp: unmount_done_def closed_fiber_def mounted_fiber_def)
  show "closed_fiber c st' g" if g: "closed_fiber c st g"
  proof -
    have "g \<noteq> f" using g assms(2) by (auto simp: closed_fiber_def mounted_fiber_def)
    moreover obtain r where r: "fiber_at st g = Some r" "fb_parent r = c" "fb_state r = FiberUnmounted" "not_active st (fb_scope r)"
      using g by (auto simp: closed_fiber_def)
    ultimately have "fiber_at st' g = Some r" "not_active st' (fb_scope r)"
      using assms(1) by (simp_all add: unmount_done_def)
    then show ?thesis using r by (simp add: closed_fiber_def)
  qed
qed

definition switched_off :: "rstring \<Rightarrow> ('v, 'w) cordis_runtime \<Rightarrow> bool" where
  "switched_off i rt \<longleftrightarrow> fiber_of i rt = None \<and>
     (\<forall>p. bt_get (cr_records rt) i = Some p \<longrightarrow> ps_lifecycle p = RtDisabled \<and> \<not> ps_enabled p)"

lemma switched_off_kept: "switched_off j rt \<Longrightarrow> only_record i rt rt' \<Longrightarrow> j \<noteq> i \<Longrightarrow> switched_off j rt'"
  using only_record_fiber [of i rt rt' j] by (simp add: switched_off_def only_record_def)

lemma switched_offI:
  assumes "runtime_base R dis rt" "fiber_of i rt = None" "\<forall>p. bt_get (cr_records rt) i = Some p \<longrightarrow> ps_lifecycle p = RtDisabled"
  shows "switched_off i rt"
  using assms runtime_baseD(4) [OF assms(1), of i] by (auto simp: switched_off_def record_ok_def)

lemma shutdown_plugins_off:
  assumes "runtime_base R dis rt" and "set ds \<subseteq> set (cr_registry rt)" and "shutdown_plugins dis ds first rt = (first', rt')"
  shows "runtime_base False dis rt' \<and> same_shape rt rt' \<and>
    (\<forall>i. i \<in> df_id ` set ds \<or> switched_off i rt \<longrightarrow> switched_off i rt') \<and>
    (\<forall>i f. i \<in> df_id ` set ds \<and> fiber_of i rt = Some f \<longrightarrow> closed_fiber (cr_root rt) (cr_store rt') f) \<and>
    (\<forall>f. closed_fiber (cr_root rt) (cr_store rt) f \<longrightarrow> closed_fiber (cr_root rt) (cr_store rt') f)"
  using assms
proof (induction ds arbitrary: R first rt)
  case Nil
  then show ?case by (auto intro: runtime_base_mono)
next
  case (Cons d ds)
  let ?i = "df_id d"
  have d: "d \<in> set (cr_registry rt)" using Cons.prems(2) by simp
  obtain first1 rt1 where run: "shutdown_plugins dis ds first1 rt1 = (first', rt')"
    and one: "runtime_base False dis rt1 \<and> only_record ?i rt rt1 \<and> switched_off ?i rt1 \<and>
      (\<forall>f. fiber_of ?i rt = Some f \<longrightarrow> closed_fiber (cr_root rt) (cr_store rt1) f) \<and>
      (\<forall>f. closed_fiber (cr_root rt) (cr_store rt) f \<longrightarrow> closed_fiber (cr_root rt) (cr_store rt1) f)"
  proof (cases "fiber_of ?i rt")
    case None
    let ?rt = "deactivate_without_mount ?i rt"
    have base: "runtime_base False dis ?rt" using None by (intro settle_record(1) [OF Cons.prems(1)]) auto
    moreover have "switched_off ?i ?rt"
      using None by (intro switched_offI [OF base])
        (auto simp: deactivate_without_mount_def fiber_of_def record_deactivated_def split: option.splits)
    moreover have "cr_store ?rt = cr_store rt" by (simp add: deactivate_without_mount_def)
    ultimately show ?thesis using that [of first ?rt] Cons.prems(3) None by (simp add: has_fiber_def)
  next
    case (Some f)
    obtain r rt1 where un: "unmount_plugin dis d True rt = (r, rt1)" by fastforce
    note out = unmount_plugin_base [OF Cons.prems(1) d un]
    have closes: "unmount_done (cr_root rt) f (cr_store rt) (cr_store rt1)" using out Some by simp
    note fiber = fiber_of_mounted [OF Cons.prems(1) Some]
    have base: "runtime_base False dis rt1" using out by simp
    moreover have "switched_off ?i rt1" using out by (intro switched_offI [OF base]) simp_all
    ultimately show ?thesis
      using that [of "keep_first first r" rt1] Cons.prems(3) Some un out unmount_closes [OF closes fiber]
      by (simp add: has_fiber_def)
  qed
  have shape: "same_shape rt rt1" using one only_record_shape by blast
  then have reg: "cr_registry rt1 = cr_registry rt" "cr_root rt1 = cr_root rt" by (simp_all add: same_shape_def)
  have rest: "runtime_base False dis rt' \<and> same_shape rt1 rt' \<and>
      (\<forall>i. i \<in> df_id ` set ds \<or> switched_off i rt1 \<longrightarrow> switched_off i rt') \<and>
      (\<forall>i f. i \<in> df_id ` set ds \<and> fiber_of i rt1 = Some f \<longrightarrow> closed_fiber (cr_root rt) (cr_store rt') f) \<and>
      (\<forall>f. closed_fiber (cr_root rt) (cr_store rt1) f \<longrightarrow> closed_fiber (cr_root rt) (cr_store rt') f)"
    using Cons.IH [of False rt1] one Cons.prems(2) run by (simp add: reg)
  have off: "switched_off i rt1" if "switched_off i rt" for i
    using switched_off_kept [OF that] one by (cases "i = ?i") auto
  have closes: "closed_fiber (cr_root rt) (cr_store rt') f" if "i \<in> df_id ` set (d # ds)" "fiber_of i rt = Some f" for i f
  proof (cases "i = ?i")
    case False
    then have "fiber_of i rt1 = Some f" using only_record_fiber [of ?i rt rt1 i] one that(2) by simp
    moreover have "i \<in> df_id ` set ds" using that(1) False by auto
    ultimately show ?thesis using rest by simp
  next
    case True
    then have "closed_fiber (cr_root rt) (cr_store rt1) f" using one that(2) by simp
    then show ?thesis using rest by simp
  qed
  show ?case
  proof (intro conjI allI impI)
    show "same_shape rt rt'" using rest shape same_shape_trans by blast
    show "switched_off i rt'" if "i \<in> df_id ` set (d # ds) \<or> switched_off i rt" for i
      using that off [of i] rest one by auto
    show "closed_fiber (cr_root rt) (cr_store rt') f" if "i \<in> df_id ` set (d # ds) \<and> fiber_of i rt = Some f" for i f
      using closes [of i f] that by simp
    show "closed_fiber (cr_root rt) (cr_store rt') f" if "closed_fiber (cr_root rt) (cr_store rt) f" for f
      using that rest one by simp
  qed (use rest in simp)
qed

lemma dispose_without_fibers:
  assumes "store_inv [] st" "scope_at st c = Some sc" "sc_state sc = ScopeActive" "sc_fibers sc = []"
  shows "cd_fibers (snd (dispose dis c st)) = cd_fibers st"
proof -
  have "c < cd_next_scope st" using store_invD(1) [OF assms(1,2)] by (simp add: scope_ok_def)
  then obtain n where n: "cd_next_scope st = Suc n" by (cases "cd_next_scope st") auto
  have fibers: "cd_fibers (snd (run_effects dis c es first st')) = cd_fibers st'" for es first and st' :: "('a, 'b) cordis"
  proof (induction es arbitrary: first st')
    case (Cons x es)
    obtain i ef where x: "x = (i, ef)" by (cases x)
    obtain y st1 where run: "run_taken dis c i ef st' = (y, st1)" by fastforce
    have "cd_fibers (snd (run_taken dis c i ef st')) = cd_fibers st'"
      by (simp add: run_taken_def case_prod_beta cordis_simps)
    then have "cd_fibers st1 = cd_fibers st'" by (simp add: run)
    then show ?case using Cons.IH by (simp add: x run)
  qed simp
  show ?thesis
    using assms(2-4) by (simp add: dispose_def n Let_def close_scope_def case_prod_beta cordis_simps fibers)
qed

text \<open>The state an open runtime shuts down to.\<close>

definition shut_down :: "('v, 'w) cordis_runtime \<Rightarrow> bool" where
  "shut_down rt \<longleftrightarrow> cr_closed rt \<and> \<not> cr_started rt \<and> cordis_inv (cr_store rt) \<and>
     (\<exists>sc. scope_at (cr_store rt) (cr_root rt) = Some sc \<and> sc_state sc = ScopeDisposed) \<and>
     (\<forall>i. switched_off i rt)"

lemma switched_off_fields: "switched_off i (rt\<lparr>cr_store := st, cr_started := b, cr_closed := c\<rparr>) = switched_off i rt"
  by (simp add: switched_off_def fiber_of_def)

lemma unknown_off: "runtime_base R dis rt \<Longrightarrow> i \<notin> df_id ` set (cr_registry rt) \<Longrightarrow> switched_off i rt"
  using runtime_baseD(6) [of R dis rt i] by (simp add: switched_off_def fiber_of_def)

lemma runtime_shutdown_off:
  assumes base: "runtime_base True dis rt" and opened: "\<not> cr_closed rt" and run: "runtime_shutdown dis rt = (r, rt')"
  shows "shut_down rt' \<and> cr_root rt' = cr_root rt \<and> cr_registry rt' = cr_registry rt \<and>
    (\<forall>i f. fiber_of i rt = Some f \<longrightarrow> closed_fiber (cr_root rt) (cr_store rt') f)"
proof -
  obtain first rt1 where plugins: "shutdown_plugins dis (rev (cr_registry rt)) None rt = (first, rt1)" by fastforce
  define st where "st = snd (dispose dis (cr_root rt1) (cr_store rt1))"
  have rt': "rt' = rt1\<lparr>cr_store := st, cr_started := False, cr_closed := True\<rparr>"
    using run opened plugins by (auto simp: runtime_shutdown_def st_def split: prod.splits)
  note off = shutdown_plugins_off [OF base _ plugins, simplified]
  have base1: "runtime_base False dis rt1" and shape: "cr_root rt1 = cr_root rt" "cr_registry rt1 = cr_registry rt"
    using off by (simp_all add: same_shape_def)
  have all_off: "switched_off i rt1" for i
    using off unknown_off [OF base1, of i] shape(2) by (cases "i \<in> df_id ` set (cr_registry rt)") auto
  obtain sc where sc: "scope_at (cr_store rt1) (cr_root rt1) = Some sc" "sc_state sc = ScopeActive"
    "set (sc_fibers sc) = {f. \<exists>i. fiber_of i rt1 = Some f}"
    using runtime_baseD(5) [OF base1] by blast
  have empty: "sc_fibers sc = []" using sc(3) all_off by (simp add: switched_off_def)
  have inv1: "cordis_inv (cr_store rt1)" by (rule runtime_baseD(1) [OF base1])
  have inv: "cordis_inv st" unfolding st_def using dispose_steps [OF inv1 order_refl] steps_wellD(1) by blast
  have spec: "calm (cr_root rt1) (cr_root rt1) (cr_store rt1) st" "not_active st (cr_root rt1)"
    using dispose_spec [OF cordis_invD(1) [OF inv1], of dis "cr_root rt1"] by (simp_all add: st_def)
  obtain y where y: "scope_at st (cr_root rt1) = Some y" using calm_scopeD [OF spec(1) sc(1)] by blast
  have "sc_state y = ScopeDisposed"
    using spec(2) y cordis_invD(2) [OF inv] by (cases "sc_state y") (auto simp: not_active_def settled_def)
  then have "shut_down rt'" using y inv all_off by (simp add: shut_down_def rt' switched_off_fields)
  moreover have "closed_fiber (cr_root rt) st f" if "fiber_of i rt = Some f" for i f
  proof -
    have "i \<in> df_id ` set (cr_registry rt)" using runtime_baseD(6) [OF base, of i] that by (auto simp: fiber_of_def split: option.splits)
    then have "closed_fiber (cr_root rt) (cr_store rt1) f" using off that by auto
    moreover have "cd_fibers st = cd_fibers (cr_store rt1)"
      unfolding st_def by (rule dispose_without_fibers [OF cordis_invD(1) [OF inv1] sc(1,2) empty])
    ultimately show ?thesis using calm_not_active [OF spec(1)] by (auto simp: closed_fiber_def)
  qed
  ultimately show ?thesis by (simp add: rt' shape)
qed

section \<open>Runs\<close>

text \<open>What else happens to the store: plugins act, and the host uses services and effects of the root scope.\<close>

definition root_kept :: "nat \<Rightarrow> ('v, 'w) cordis \<Rightarrow> ('v, 'w) cordis \<Rightarrow> bool" where
  "root_kept c st st' \<longleftrightarrow> cordis_inv st' \<and>
     (\<forall>sc. scope_at st c = Some sc \<longrightarrow>
       (\<exists>sc'. scope_at st' c = Some sc' \<and> sc_state sc' = sc_state sc \<and> sc_fibers sc' = sc_fibers sc)) \<and>
     (\<forall>f r. fiber_at st f = Some r \<and> fb_parent r = c \<longrightarrow> fiber_at st' f = Some r)"

inductive outer_step :: "'w disposer \<Rightarrow> nat \<Rightarrow> ('v, 'w) cordis \<Rightarrow> ('v, 'w) cordis \<Rightarrow> bool"
  for dis :: "'w disposer" and c :: nat where
  outer_plugin: "plugin_step dis (Suc c) st st' \<Longrightarrow> outer_step dis c st st'"
| outer_provide: "outer_step dis c st (snd (provide c k x st))"
| outer_remove: "outer_step dis c st (snd (remove_service c k st))"
| outer_build: "outer_step dis c st (snd (effect_new ef st))"
| outer_discard: "bt_get (cd_held st) i = Some ef \<Longrightarrow> outer_step dis c st (discard_effect (i, ef) st)"
| outer_install: "bt_get (cd_held st) i = Some ef \<Longrightarrow> outer_step dis c st (snd (install_effect c (i, ef) st))"
| outer_effect: "outer_step dis c st (snd (dispose_effect dis c i st))"

lemma outer_step_kept:
  assumes "outer_step dis c st st'" and inv: "cordis_inv st" and c: "scope_at st c \<noteq> None"
  shows "root_kept c st st'"
  using assms(1)
proof cases
  case outer_plugin
  have "c < cd_next_scope st" using c scope_bound [OF inv] by fastforce
  then have "steps_well (Suc c) st st'" using plugin_steps [OF r_into_rtranclp [of "plugin_step dis (Suc c)", OF outer_plugin] inv] by simp
  then show ?thesis by (simp add: root_kept_def steps_well_def frame_def)
next
  case (outer_provide k x)
  have "cordis_inv st'" using provide_steps [OF inv order_refl] steps_wellD(1) outer_provide by blast
  then show ?thesis
    by (simp add: root_kept_def outer_provide) (auto simp: provide_def cordis_simps split: sum.split)
next
  case (outer_remove k)
  have "cordis_inv st'" using remove_service_steps [OF inv order_refl] steps_wellD(1) outer_remove by blast
  then show ?thesis
    by (simp add: root_kept_def outer_remove) (auto simp: remove_service_def cordis_simps split: sum.split option.split)
next
  case (outer_build ef)
  have "cordis_inv st'" using effect_new_steps [OF inv] steps_wellD(1) outer_build by blast
  then show ?thesis by (simp add: root_kept_def outer_build effect_new_def Let_def)
next
  case (outer_discard i ef)
  have "cordis_inv st'" using discard_effect_steps [OF inv] steps_wellD(1) outer_discard by blast
  then show ?thesis by (simp add: root_kept_def outer_discard discard_effect_def cordis_simps)
next
  case (outer_install i ef)
  have "cordis_inv st'"
    using install_effect_steps [OF inv order_refl, of "(i, ef)"] steps_wellD(1) outer_install by fastforce
  then show ?thesis
    by (simp add: root_kept_def outer_install)
       (auto simp: install_effect_def insert_effect_def discard_effect_def cordis_simps split: sum.split)
next
  case (outer_effect i)
  have "cordis_inv st'" using dispose_effect_steps [OF inv order_refl] steps_wellD(1) outer_effect by blast
  then show ?thesis
    by (simp add: root_kept_def outer_effect)
       (auto simp: dispose_effect_def run_taken_def case_prod_beta cordis_simps scope_at_set_effect split: option.split)
qed

lemma runtime_base_outer:
  assumes base: "runtime_base R dis rt" and kept: "root_kept (cr_root rt) (cr_store rt) st"
  shows "runtime_base R dis (rt\<lparr>cr_store := st\<rparr>)"
proof -
  have "record_ok i (cr_root rt) st p" if p: "bt_get (cr_records rt) i = Some p" for i p
  proof -
    have ok: "record_ok i (cr_root rt) (cr_store rt) p" by (rule runtime_baseD(4) [OF base p])
    have "\<exists>r. fiber_at st f = Some r \<and> mounted_fiber i (cr_root rt) r" if "ps_fiber p = Some f" for f
      using ok that kept unfolding record_ok_def root_kept_def mounted_fiber_def by blast
    then show ?thesis using ok by (simp add: record_ok_def)
  qed
  moreover obtain sc where "scope_at (cr_store rt) (cr_root rt) = Some sc" "sc_state sc = ScopeActive"
    "set (sc_fibers sc) = {f. \<exists>i. fiber_of i rt = Some f}"
    using runtime_baseD(5) [OF base] by blast
  ultimately show ?thesis using base kept unfolding runtime_base_def by (auto simp: root_kept_def)
qed

inductive runtime_step :: "'w disposer \<Rightarrow> ('v, 'w) cordis_runtime \<Rightarrow> ('v, 'w) cordis_runtime \<Rightarrow> bool"
  for dis :: "'w disposer" where
  rt_start: "runtime_step dis rt (snd (runtime_start dis rt))"
| rt_mount: "runtime_step dis rt (snd (runtime_mount dis i rt))"
| rt_switch: "runtime_step dis rt (snd (runtime_set_enabled dis i enabled rt))"
| rt_clear: "runtime_step dis rt (snd (runtime_clear_override dis i rt))"
| rt_shutdown: "runtime_step dis rt (snd (runtime_shutdown dis rt))"
| rt_outer: "outer_step dis (cr_root rt) (cr_store rt) st \<Longrightarrow> runtime_step dis rt (rt\<lparr>cr_store := st\<rparr>)"

definition runtime_begin :: "'w disposer \<Rightarrow> ('v, 'w) cordis_runtime \<Rightarrow> bool" where
  "runtime_begin dis rt \<longleftrightarrow> (\<exists>ds st. registry_new ds = Inr ds \<and> (\<forall>d \<in> set ds. confined dis d) \<and> cordis_inv st \<and>
     rt = runtime_new ds st)"

definition runtime_inv :: "'w disposer \<Rightarrow> ('v, 'w) cordis_runtime \<Rightarrow> bool" where
  "runtime_inv dis rt \<longleftrightarrow> (if cr_closed rt then shut_down rt else runtime_base True dis rt)"

text \<open>The first state.\<close>

lemma index_definitions_distinct:
  "index_definitions seen ds = Inr u \<Longrightarrow> distinct (map df_id ds) \<and> set seen \<inter> df_id ` set ds = {}"
proof (induction seen ds rule: index_definitions.induct)
  case (2 seen d ds)
  then show ?case by (cases "runtime_validate_definition d") (auto split: if_splits)
qed simp

lemma new_records:
  "bt_get (fold (\<lambda>d. bt_insert (df_id d) (record_new (df_manifest d))) ds m) i = Some p \<Longrightarrow>
     (\<exists>d \<in> set ds. df_id d = i \<and> p = record_new (df_manifest d)) \<or> bt_get m i = Some p"
proof (induction ds arbitrary: m)
  case (Cons d ds)
  then show ?case using Cons.IH [of "bt_insert (df_id d) (record_new (df_manifest d)) m"] by (auto split: if_splits)
qed simp

lemma new_record_ids:
  "bt_get (fold (\<lambda>d. bt_insert (df_id d) (record_new (df_manifest d))) ds m) i \<noteq> None \<longleftrightarrow> i \<in> df_id ` set ds \<or> bt_get m i \<noteq> None"
  by (induction ds arbitrary: m) auto

lemma runtime_new_base:
  assumes "registry_new ds = Inr ds" "\<forall>d \<in> set ds. confined dis d" "cordis_inv st"
  shows "runtime_base True dis (runtime_new ds st)"
proof -
  let ?rt = "runtime_new ds st" and ?st = "snd (context_new st)"
  have "index_definitions [] ds \<noteq> Inl e" for e using assms(1) by (auto simp: registry_new_def split: if_splits)
  then have distinct: "distinct (map df_id ds)"
    using index_definitions_distinct [of "[]" ds] by (cases "index_definitions [] ds") auto
  have inv: "cordis_inv ?st" using context_new_steps [OF assms(3) order_refl] steps_wellD(1) by blast
  have fields: "cr_registry ?rt = ds" "cr_store ?rt = ?st" "cr_root ?rt = cd_next_scope st"
      "cr_records ?rt = fold (\<lambda>d. bt_insert (df_id d) (record_new (df_manifest d))) ds []"
    by (simp_all add: runtime_new_def context_new_def Let_def)
  have root: "scope_at ?st (cd_next_scope st) = Some (new_scope None (cd_next_scope st))"
    by (simp add: context_new_def Let_def)
  have made: "\<exists>d \<in> set ds. df_id d = i \<and> p = record_new (df_manifest d)" if "bt_get (cr_records ?rt) i = Some p" for i p
    using new_records [of ds "[]" i p] that by (simp add: fields)
  have ok: "record_ok i c s (record_new m)" for i c s m
    by (simp add: record_ok_def record_new_def MAX_MOUNT_ATTEMPTS_def)
  have records: "record_ok i c s p" if "bt_get (cr_records ?rt) i = Some p" for i p c s
    using made [OF that] ok by auto
  have none: "fiber_of i ?rt = None" for i
    using made [of i] by (auto simp: fiber_of_def record_new_def split: option.split)
  have required: "ps_enabled p" if h: "d \<in> set ds" "df_required d" "bt_get (cr_records ?rt) (df_id d) = Some p" for d p
  proof -
    obtain e where "e \<in> set ds" "df_id e = df_id d" "p = record_new (df_manifest e)" using made [OF h(3)] by blast
    moreover have "e = d" using distinct h(1) calculation by (auto simp: distinct_map dest: inj_onD)
    ultimately show ?thesis
      using h(2) by (auto simp: record_new_def default_enabled_def role_required_def)
  qed
  have "bt_get (cr_records ?rt) i \<noteq> None \<longleftrightarrow> i \<in> df_id ` set ds" for i
    using new_record_ids [of ds "[]" i] by (simp add: fields)
  then show ?thesis
    unfolding runtime_base_def fields(1-3)
    using inv distinct assms(2) root none required records by (auto simp: new_scope_def)
qed

interpretation runtimes: component "runtime_begin dis :: ('v, 'w) cordis_runtime \<Rightarrow> bool" "runtime_step dis" "runtime_inv dis"
proof unfold_locales
  show "runtime_inv dis rt" if "runtime_begin dis rt" for rt :: "('v, 'w) cordis_runtime"
    using that runtime_new_base by (auto simp: runtime_begin_def runtime_inv_def runtime_new_def split: prod.split)
  show "runtime_inv dis rt'" if inv: "runtime_inv dis rt" and step: "runtime_step dis rt rt'" for rt rt' :: "('v, 'w) cordis_runtime"
  proof (cases "cr_closed rt")
    case True
    then have shut: "shut_down rt" using inv by (simp add: runtime_inv_def)
    from step show ?thesis
    proof cases
      case (rt_outer st)
      obtain sc where "scope_at (cr_store rt) (cr_root rt) = Some sc" using shut by (auto simp: shut_down_def)
      then have "root_kept (cr_root rt) (cr_store rt) st"
        using outer_step_kept [OF rt_outer(2)] shut by (simp add: shut_down_def)
      then have "shut_down rt'"
        using shut rt_outer(1) by (auto simp: shut_down_def root_kept_def switched_off_def)
      then show ?thesis by (simp add: runtime_inv_def shut_down_def)
    qed (use True inv in \<open>simp_all add: runtime_start_def runtime_mount_def runtime_set_enabled_def runtime_clear_override_def
        runtime_shutdown_def ensure_open_def ensure_def\<close>)
  next
    case False
    then have base: "runtime_base True dis rt" using inv by (simp add: runtime_inv_def)
    from step show ?thesis
    proof cases
      case rt_start
      then show ?thesis
        using runtime_start_base [OF base prod.collapse [symmetric]] False by (simp add: runtime_inv_def)
    next
      case (rt_mount i)
      then show ?thesis using runtime_mount_base [OF base, of i] False by (simp add: runtime_inv_def stays_open_def)
    next
      case (rt_switch i enabled)
      then show ?thesis using runtime_set_enabled_base [OF base, of i enabled] False by (simp add: runtime_inv_def stays_open_def)
    next
      case (rt_clear i)
      then show ?thesis using runtime_clear_override_base [OF base, of i] False by (simp add: runtime_inv_def stays_open_def)
    next
      case rt_shutdown
      then have "shut_down rt'" using runtime_shutdown_off [OF base False prod.collapse [symmetric]] by simp
      then show ?thesis by (simp add: runtime_inv_def shut_down_def)
    next
      case (rt_outer st)
      then show ?thesis
        using runtime_base_outer [OF base outer_step_kept [OF _ runtime_baseD(1) [OF base] runtime_root [OF base]]] False
        by (simp add: runtime_inv_def)
    qed
  qed
qed

section \<open>The claims\<close>

text \<open>A runtime with one required plugin that mounts without doing anything.\<close>

definition demo_instance :: "(nat, nat list) runtime_instance" where
  "demo_instance = \<lparr>ri_id = Some (lit ''demo.core''), ri_dependencies = Some [], ri_mount = (\<lambda>x st. (Some (Inr ()), st))\<rparr>"

definition demo_definitions :: "(nat, nat list) plugin_definition list" where
  "demo_definitions = [\<lparr>df_manifest = manifest_core (lit ''demo.core'') (lit ''Core''),
     df_create = (\<lambda>w. (Some demo_instance, w))\<rparr>]"

definition demo_runtime :: "(nat, nat list) cordis_runtime" where
  "demo_runtime = runtime_new demo_definitions (cordis_new [])"

lemma demo_runtime_reach: "reach (runtime_begin demo_disposer) (runtime_step demo_disposer) demo_runtime"
proof (rule reach_start)
  have "validate_runtime_manifest (manifest_core (lit ''demo.core'') (lit ''Core'')) = Inr ()"
    by (simp add: validate_runtime_manifest_def manifest_core_def runtime_validate_id_def lit_def utf8_width_def char_indices_def
        is_ascii_def is_control_def is_whitespace_def MAX_PLUGIN_ID_BYTES_def MAX_DISPLAY_NAME_BYTES_def blank_iff valid_policy_def)
  then have "registry_new demo_definitions = Inr demo_definitions"
    by (simp add: registry_new_def demo_definitions_def MAX_STATIC_PLUGINS_def runtime_validate_definition_def)
  moreover have "cordis_inv (cordis_new [] :: (nat, nat list) cordis)"
    by (rule scopes.start_inv) (auto simp: cordis_start_def)
  moreover have "\<forall>d \<in> set demo_definitions. confined demo_disposer d"
    by (auto simp: demo_definitions_def confined_def demo_instance_def)
  ultimately show "runtime_begin demo_disposer demo_runtime" by (auto simp: runtime_begin_def demo_runtime_def)
qed

lemma demo_runtime_open: "\<not> cr_closed demo_runtime"
  by (simp add: demo_runtime_def runtime_new_def split: prod.split)

lemma demo_core_valid: "cordis_id_new (lit ''demo.core'') = Inr (lit ''demo.core'')"
  by (simp add: cordis_id_new_def lit_def utf8_width_def char_indices_def is_ascii_def
      is_control_def is_whitespace_def MAX_PLUGIN_ID_BYTES_def)

lemma demo_core_mounts:
  "fst (mount demo_disposer 1 (registered_plugin (lit ''demo.core'') demo_instance) (snd (context_new (cordis_new [])))) = Inr 1"
  by (simp add: mount_def registered_plugin_def demo_instance_def begin_mount_def demo_core_valid MAX_PLUGIN_DEPENDENCIES_def
      child_def register_fiber_def fibers_of_def finish_mount_def demo_cordis_defs)

lemma demo_plugin_mounts:
  assumes "bt_get (cr_records rt) (lit ''demo.core'') = Some p" "ps_fiber p = None" "cr_root rt = 1"
    "cr_store rt = snd (context_new (cordis_new []))"
  shows "fst (mount_plugin demo_disposer (hd demo_definitions) rt) = Inr 1"
proof -
  have [simp]: "snd (context_new (cordis_new []))\<lparr>cd_world := []\<rparr> = (snd (context_new (cordis_new [])) :: (nat, nat list) cordis)"
    by (simp add: context_new_def cordis_new_def Let_def)
  have "cd_world (snd (context_new (cordis_new [])) :: (nat, nat list) cordis) = []"
    by (simp add: context_new_def cordis_new_def Let_def)
  moreover have "ri_id demo_instance = Some (lit ''demo.core'')" by (simp add: demo_instance_def)
  ultimately show ?thesis
    using assms demo_core_mounts
    by (auto simp: mount_plugin_def has_fiber_def fiber_of_def demo_definitions_def manifest_core_def Let_def split: prod.split sum.split)
qed

lemma demo_started: "is_ok (fst (runtime_start demo_disposer demo_runtime))"
proof -
  let ?i = "lit ''demo.core''" and ?rt = "demo_runtime\<lparr>cr_started := True\<rparr>" and ?d = "hd demo_definitions"
  have d: "demo_definitions = [?d]" "df_id ?d = ?i" "df_required ?d"
    by (simp_all add: demo_definitions_def manifest_core_def role_required_def)
  have rt: "cr_registry demo_runtime = demo_definitions" "cr_root ?rt = 1" "cr_store ?rt = snd (context_new (cordis_new []))"
    by (simp_all add: demo_runtime_def runtime_new_def context_new_def cordis_new_def Let_def)
  have rec: "bt_get (cr_records ?rt) ?i = Some (record_new (df_manifest ?d))"
    by (simp add: demo_runtime_def runtime_new_def context_new_def demo_definitions_def manifest_core_def Let_def)
  have none: "fiber_of ?i ?rt = None" using rec by (simp add: fiber_of_def record_new_def)
  have "fst (mount_plugin demo_disposer ?d ?rt) = Inr 1"
    by (rule demo_plugin_mounts [OF rec _ rt(2,3)]) (simp add: record_new_def)
  then obtain rt' where mount: "mount_plugin demo_disposer ?d ?rt = (Inr 1, rt')" by (metis prod.collapse)
  have scan: "start_scan demo_disposer demo_definitions r ?rt = ([?d], r, ?rt)" for r
    using none d(2,3) by (subst d(1)) (simp add: has_fiber_def effective_enabled_def)
  show ?thesis
    using demo_runtime_open mount
    by (simp add: runtime_start_def ensure_open_def ensure_def rt(1) scan)
       (subst start_passes.simps, simp add: start_activated_def split: prod.split)
qed

text \<open>C18: records, fibers and the root scope agree. In every run of the runtime operations, interleaved with
  whatever plugins do on their own scopes and the host does with services and effects of the root, a plugin is
  enabled exactly when it is not disabled, it is mounted exactly when it holds a fiber, that fiber is its
  own, mounted under the root, the root's fibers are exactly those, and while the runtime is open every
  required plugin is enabled.\<close>

theorem runtime_records_agree:
  assumes "reach (runtime_begin dis) (runtime_step dis) rt"
  shows "(\<forall>i p. bt_get (cr_records rt) i = Some p \<longrightarrow> ps_enabled p = (ps_lifecycle p \<noteq> RtDisabled) \<and>
      (ps_lifecycle p = RtMounted) = (ps_fiber p \<noteq> None) \<and>
      (\<forall>f. ps_fiber p = Some f \<longrightarrow> (\<exists>r. fiber_at (cr_store rt) f = Some r \<and> fb_plugin r = i \<and>
         fb_parent r = cr_root rt \<and> fb_state r = FiberMounted \<and> fb_live r))) \<and>
    (\<not> cr_closed rt \<longrightarrow> (\<exists>sc. scope_at (cr_store rt) (cr_root rt) = Some sc \<and> sc_state sc = ScopeActive \<and>
       set (sc_fibers sc) = {f. \<exists>i p. bt_get (cr_records rt) i = Some p \<and> ps_fiber p = Some f}) \<and>
       (\<forall>d \<in> set (cr_registry rt). \<forall>p. df_required d \<and> bt_get (cr_records rt) (df_id d) = Some p \<longrightarrow> ps_enabled p))"
proof -
  have inv: "runtime_inv dis rt" by (rule runtimes.reach_inv [OF assms])
  have fibers: "{f. \<exists>i. fiber_of i rt = Some f} = {f. \<exists>i p. bt_get (cr_records rt) i = Some p \<and> ps_fiber p = Some f}"
    by (auto simp: fiber_of_def split: option.splits)
  show ?thesis
  proof (cases "cr_closed rt")
    case True
    then have off: "switched_off i rt" for i using inv by (simp add: runtime_inv_def shut_down_def)
    then have "ps_lifecycle p = RtDisabled \<and> \<not> ps_enabled p \<and> ps_fiber p = None" if "bt_get (cr_records rt) i = Some p" for i p
      using that off [of i] by (simp add: switched_off_def fiber_of_def)
    then show ?thesis using True by fastforce
  next
    case False
    then have base: "runtime_base True dis rt" using inv by (simp add: runtime_inv_def)
    then have "\<forall>d \<in> set (cr_registry rt). \<forall>p. df_required d \<and> bt_get (cr_records rt) (df_id d) = Some p \<longrightarrow> ps_enabled p"
      by (simp add: runtime_base_def)
    moreover have "record_ok i (cr_root rt) (cr_store rt) p" if "bt_get (cr_records rt) i = Some p" for i p
      by (rule runtime_baseD(4) [OF base that])
    ultimately show ?thesis
      using runtime_baseD(5) [OF base] unfolding fibers record_ok_def mounted_fiber_def by blast
  qed
qed

theorem runtime_records_agree_witness:
  "\<exists>sc. scope_at (cr_store demo_runtime) (cr_root demo_runtime) = Some sc \<and> sc_state sc = ScopeActive"
  using runtime_records_agree [OF demo_runtime_reach] demo_runtime_open by blast

text \<open>a start accounts for every plugin. On any reachable open runtime a start ends, and if it succeeds
  every registered plugin is in exactly one list of the report; the activated ones are exactly those that
  are now mounted, every required plugin is among them, and the failures are of optional plugins only. If it fails
  some required plugin is not mounted.\<close>

theorem start_accounts_for_all:
  assumes "reach (runtime_begin dis) (runtime_step dis) rt" and "\<not> cr_closed rt" and "runtime_start dis rt = (r, rt')"
  shows "case r of
      Inr report \<Rightarrow> mset (sr_activated report @ sr_skipped report @ map sf_plugin (sr_failures report)) = mset (map df_id (cr_registry rt)) \<and>
        (\<forall>i. i \<in> set (sr_activated report) \<longleftrightarrow> has_fiber i rt') \<and>
        (\<forall>d \<in> set (cr_registry rt). df_required d \<longrightarrow> df_id d \<in> set (sr_activated report)) \<and>
        (\<forall>f \<in> set (sr_failures report). \<not> sf_required f)
    | Inl e \<Rightarrow> \<exists>d \<in> set (cr_registry rt). df_required d \<and> \<not> has_fiber (df_id d) rt'"
proof -
  have base: "runtime_base True dis rt" using runtimes.reach_inv [OF assms(1)] assms(2) by (simp add: runtime_inv_def)
  obtain sp where ok: "start_ok dis [] [] (sp\<lparr>sp_waiting := []\<rparr>) rt'" and shape: "same_shape (rt\<lparr>cr_started := True\<rparr>) rt'"
    and r: "r = (case sp_required sp of Some e \<Rightarrow> Inl e | None \<Rightarrow> Inr (sp_report sp))"
    using runtime_start_ok [OF base assms(2,3)] by blast
  have reg: "cr_registry rt' = cr_registry rt" using shape by (simp add: same_shape_def)
  let ?rep = "sp_report sp"
  have ids: "mset (sr_activated ?rep @ sr_skipped ?rep @ map sf_plugin (sr_failures ?rep)) = mset (map df_id (cr_registry rt))"
    using start_okD(3) [OF ok] by (simp add: startup_ids_def reg add.assoc)
  note true = start_okD(6) [OF ok, unfolded report_true_def reg, simplified]
  have members: "i \<in> set (sr_activated ?rep) \<or> i \<in> set (sr_skipped ?rep) \<or> i \<in> sf_plugin ` set (sr_failures ?rep)"
    if "i \<in> df_id ` set (cr_registry rt)" for i
    using that arg_cong [OF ids, of set_mset] by auto
  have mounted: "i \<in> df_id ` set (cr_registry rt)" if "has_fiber i rt'" for i
    using that runtime_baseD(6) [OF start_okD(1) [OF ok], of i] by (auto simp: has_fiber_def fiber_of_def reg split: option.splits)
  show ?thesis
  proof (cases "sp_required sp")
    case (Some e)
    then obtain f where f: "f \<in> set (sr_failures ?rep)" "sf_required f" using true by auto
    then have "sf_plugin f \<in> df_id ` set (cr_registry rt)" using arg_cong [OF ids, of set_mset] by auto
    then obtain d where d: "d \<in> set (cr_registry rt)" "df_id d = sf_plugin f" by auto
    then have "df_required d" "fiber_of (df_id d) rt' = None" using f true by auto
    then show ?thesis using d(1) by (auto simp: r Some has_fiber_def)
  next
    case None
    have active: "i \<in> set (sr_activated ?rep) \<longleftrightarrow> has_fiber i rt'" for i
      using members [of i] mounted [of i] true by (auto simp: has_fiber_def)
    moreover have "df_id d \<in> set (sr_activated ?rep)" if "d \<in> set (cr_registry rt)" "df_required d" for d
      using members [of "df_id d"] that true None by auto
    ultimately show ?thesis using ids true None by (simp add: r)
  qed
qed

theorem start_accounts_for_all_witness:
  "\<exists>report. fst (runtime_start demo_disposer demo_runtime) = Inr report \<and> lit ''demo.core'' \<in> set (sr_activated report)"
proof -
  obtain report where report: "fst (runtime_start demo_disposer demo_runtime) = Inr report"
    using demo_started by (cases "fst (runtime_start demo_disposer demo_runtime)") auto
  have "hd demo_definitions \<in> set (cr_registry demo_runtime)" "df_required (hd demo_definitions)"
    "df_id (hd demo_definitions) = lit ''demo.core''"
    by (simp_all add: demo_definitions_def manifest_core_def role_required_def demo_runtime_def runtime_new_def split: prod.split)
  then have "lit ''demo.core'' \<in> set (sr_activated report)"
    using start_accounts_for_all [OF demo_runtime_reach demo_runtime_open prod.collapse [symmetric]] report by auto
  then show ?thesis using report by blast
qed

text \<open>C19: a shutdown closes every plugin. On any reachable open runtime a shutdown, whatever the disposers
  answer, leaves the runtime closed, the root scope disposed, every plugin switched off, and every fiber that
  was mounted unmounted with its scope closed; a second shutdown does nothing and a start is refused.\<close>

theorem shutdown_closes_plugins:
  assumes "reach (runtime_begin dis) (runtime_step dis) rt" and "\<not> cr_closed rt" and "runtime_shutdown dis rt = (r, rt')"
  shows "cr_closed rt' \<and> (\<exists>sc. scope_at (cr_store rt') (cr_root rt') = Some sc \<and> sc_state sc = ScopeDisposed) \<and>
    (\<forall>i p. bt_get (cr_records rt') i = Some p \<longrightarrow> ps_fiber p = None \<and> ps_lifecycle p = RtDisabled) \<and>
    (\<forall>i f. fiber_of i rt = Some f \<longrightarrow> (\<exists>q. fiber_at (cr_store rt') f = Some q \<and> fb_state q = FiberUnmounted \<and>
       (\<forall>sc. scope_at (cr_store rt') (fb_scope q) = Some sc \<longrightarrow> sc_state sc \<noteq> ScopeActive))) \<and>
    runtime_shutdown dis rt' = (Inr (), rt') \<and> runtime_start dis rt' = (Inl (ReClosed (lit ''start'')), rt')"
proof -
  have base: "runtime_base True dis rt" using runtimes.reach_inv [OF assms(1)] assms(2) by (simp add: runtime_inv_def)
  note off = runtime_shutdown_off [OF base assms(2,3)]
  then have "\<forall>i p. bt_get (cr_records rt') i = Some p \<longrightarrow> ps_fiber p = None \<and> ps_lifecycle p = RtDisabled"
    by (auto simp: shut_down_def switched_off_def fiber_of_def split: option.splits)
  moreover have "\<forall>i f. fiber_of i rt = Some f \<longrightarrow> (\<exists>q. fiber_at (cr_store rt') f = Some q \<and> fb_state q = FiberUnmounted \<and>
      (\<forall>sc. scope_at (cr_store rt') (fb_scope q) = Some sc \<longrightarrow> sc_state sc \<noteq> ScopeActive))"
    using off unfolding closed_fiber_def not_active_def by blast
  moreover have "cr_closed rt'" "\<exists>sc. scope_at (cr_store rt') (cr_root rt') = Some sc \<and> sc_state sc = ScopeDisposed"
    using conjunct1 [OF off] by (simp_all add: shut_down_def)
  ultimately show ?thesis by (simp add: runtime_shutdown_def runtime_start_def ensure_open_def ensure_def)
qed


theorem shutdown_closes_plugins_witness:
  "runtime_start demo_disposer (snd (runtime_shutdown demo_disposer demo_runtime)) =
     (Inl (ReClosed (lit ''start'')), snd (runtime_shutdown demo_disposer demo_runtime))"
  using shutdown_closes_plugins [OF demo_runtime_reach demo_runtime_open prod.collapse [symmetric]] by blast

end
