(* ===== verification/Tool_Protocol.thy ===== *)
theory Tool_Protocol
  imports Wire_Contract
begin

text \<open>
  The contract between a model, the tools and the approvals
  (\<open>yunxi-protocol/src/tool_calls.rs\<close>) and the chat types that carry it
  (\<open>message.rs\<close>): identifiers, definitions, batches of calls, results, approvals and the loop
  policy, with every validation the constructors and the deserializers run. JSON values are an
  arbitrary type \<open>'v\<close>; what serde answers about a value (the length of its encoding, whether
  it is an object) is an argument.
\<close>

section \<open>Limits and errors\<close>

definition TOOL_PROTOCOL_VERSION :: u32 where "TOOL_PROTOCOL_VERSION = 1"
definition DEFAULT_MAX_TOOL_ROUNDS :: u16 where "DEFAULT_MAX_TOOL_ROUNDS = 8"
definition DEFAULT_MAX_TOOL_CALLS_PER_ROUND :: u16 where "DEFAULT_MAX_TOOL_CALLS_PER_ROUND = 8"
definition MAX_TOOL_ROUNDS :: u16 where "MAX_TOOL_ROUNDS = 32"
definition MAX_TOOL_CALLS_PER_ROUND :: u16 where "MAX_TOOL_CALLS_PER_ROUND = 16"
definition MAX_TOOL_CALL_ID_BYTES :: nat where "MAX_TOOL_CALL_ID_BYTES = 128"
definition MAX_TOOL_NAME_BYTES :: nat where "MAX_TOOL_NAME_BYTES = 128"
definition MAX_TOOL_TEXT_BYTES :: nat where "MAX_TOOL_TEXT_BYTES = 4096"
definition MAX_TOOL_ARGUMENT_BYTES :: nat where "MAX_TOOL_ARGUMENT_BYTES = 256 * 1024"
definition MAX_TOOL_RESULT_BYTES :: nat where "MAX_TOOL_RESULT_BYTES = 1024 * 1024"
definition MAX_APPROVAL_GRANTS :: nat where "MAX_APPROVAL_GRANTS = 8"
definition MAX_TOOL_DEFINITIONS :: nat where "MAX_TOOL_DEFINITIONS = 64"
definition MAX_TOOL_SCHEMA_BYTES :: nat where "MAX_TOOL_SCHEMA_BYTES = 256 * 1024"

record 'v serde =
  encoded_size :: "'v \<Rightarrow> (rstring, nat) res"
  is_object :: "'v \<Rightarrow> bool"

datatype tool_protocol_error =
    TpUnsupportedVersion u32 u32
  | TpZeroRound
  | TpRoundLimitExceeded u16 u16
  | TpEmptyCallBatch
  | TpTooManyCalls nat nat
  | TpDuplicateCallId rstring
  | TpEmptyField rstring
  | TpFieldTooLong rstring nat nat
  | TpInvalidTokenCharacter rstring nat rchar
  | TpArgumentsTooLarge nat nat
  | TpResultTooLarge nat nat
  | TpSchemaTooLarge nat nat
  | TpToolSchemaMustBeObject
  | TpTooManyToolDefinitions nat nat
  | TpDuplicateToolDefinition rstring
  | TpNoApprovalGrants
  | TpTooManyApprovalGrants nat nat
  | TpDuplicateApprovalGrant grant_kind
  | TpInvalidPolicy rstring u16 u16
  | TpInvalidValue rstring

fun show_tool_protocol_error :: "tool_protocol_error \<Rightarrow> rstring" where
  "show_tool_protocol_error (TpUnsupportedVersion v e) =
     lit ''tool protocol version '' @ show_nat (unat v) @ lit '' is unsupported; expected '' @ show_nat (unat e)"
| "show_tool_protocol_error TpZeroRound = lit ''tool round must be greater than zero''"
| "show_tool_protocol_error (TpRoundLimitExceeded r m) =
     lit ''tool round '' @ show_nat (unat r) @ lit '' exceeds maximum '' @ show_nat (unat m)"
| "show_tool_protocol_error TpEmptyCallBatch = lit ''tool call batch cannot be empty''"
| "show_tool_protocol_error (TpTooManyCalls c m) =
     lit ''tool call batch contains '' @ show_nat c @ lit '' calls; maximum is '' @ show_nat m"
| "show_tool_protocol_error (TpDuplicateCallId i) =
     lit ''tool call id '' @ quoted i @ lit '' appears more than once''"
| "show_tool_protocol_error (TpEmptyField f) = f @ lit '' cannot be empty''"
| "show_tool_protocol_error (TpFieldTooLong f l m) =
     f @ lit '' is '' @ show_nat l @ lit '' bytes; maximum is '' @ show_nat m"
| "show_tool_protocol_error (TpInvalidTokenCharacter f i c) =
     f @ lit '' contains unsupported character '' @ quoted [c] @ lit '' at byte '' @ show_nat i"
| "show_tool_protocol_error (TpArgumentsTooLarge s m) =
     lit ''tool arguments are '' @ show_nat s @ lit '' bytes; maximum is '' @ show_nat m"
| "show_tool_protocol_error (TpResultTooLarge s m) =
     lit ''tool result is '' @ show_nat s @ lit '' bytes; maximum is '' @ show_nat m"
| "show_tool_protocol_error (TpSchemaTooLarge s m) =
     lit ''tool input schema is '' @ show_nat s @ lit '' bytes; maximum is '' @ show_nat m"
| "show_tool_protocol_error TpToolSchemaMustBeObject = lit ''tool input schema must be a JSON object''"
| "show_tool_protocol_error (TpTooManyToolDefinitions c m) =
     lit ''tool catalog contains '' @ show_nat c @ lit '' definitions; maximum is '' @ show_nat m"
| "show_tool_protocol_error (TpDuplicateToolDefinition n) =
     lit ''tool catalog repeats definition '' @ quoted n"
| "show_tool_protocol_error TpNoApprovalGrants = lit ''tool approval request must name at least one grant''"
| "show_tool_protocol_error (TpTooManyApprovalGrants c m) =
     lit ''tool approval request names '' @ show_nat c @ lit '' grants; maximum is '' @ show_nat m"
| "show_tool_protocol_error (TpDuplicateApprovalGrant g) =
     lit ''tool approval request repeats grant '' @ quoted (show_grant_kind g)"
| "show_tool_protocol_error (TpInvalidPolicy f v m) =
     f @ lit '' value '' @ show_nat (unat v) @ lit '' is outside 1..='' @ show_nat (unat m)"
| "show_tool_protocol_error (TpInvalidValue m) = lit ''tool value is invalid: '' @ m"

section \<open>Shared checks\<close>

definition validate_version :: "u32 \<Rightarrow> (tool_protocol_error, unit) res" where
  "validate_version v =
     (if v \<noteq> TOOL_PROTOCOL_VERSION then Inl (TpUnsupportedVersion v TOOL_PROTOCOL_VERSION) else Inr ())"

definition validate_round :: "u16 \<Rightarrow> (tool_protocol_error, unit) res" where
  "validate_round r =
     (if r = 0 then Inl TpZeroRound
      else if MAX_TOOL_ROUNDS < r then Inl (TpRoundLimitExceeded r MAX_TOOL_ROUNDS) else Inr ())"

definition validate_text :: "rstring \<Rightarrow> rstring \<Rightarrow> (tool_protocol_error, unit) res" where
  "validate_text field value =
     (if blank value then Inl (TpEmptyField field)
      else if MAX_TOOL_TEXT_BYTES < str_len value then Inl (TpFieldTooLong field (str_len value) MAX_TOOL_TEXT_BYTES)
      else Inr ())"

definition validate_token :: "rstring \<Rightarrow> rstring \<Rightarrow> nat \<Rightarrow> bool \<Rightarrow> (rchar \<Rightarrow> bool) \<Rightarrow> (tool_protocol_error, unit) res" where
  "validate_token field value maximum alnum_start allowed =
     (if value = [] then Inl (TpEmptyField field)
      else if maximum < str_len value then Inl (TpFieldTooLong field (str_len value) maximum)
      else case find (\<lambda>(i, c). \<not> allowed c) (char_indices value) of
        Some (i, c) \<Rightarrow> Inl (TpInvalidTokenCharacter field i c)
      | None \<Rightarrow>
          if alnum_start \<and> \<not> is_ascii_alphanumeric (hd value)
          then Inl (TpInvalidTokenCharacter field 0 (hd value)) else Inr ())"

definition call_id_char :: "rchar \<Rightarrow> bool" where
  "call_id_char c \<longleftrightarrow> is_ascii_alphanumeric c \<or> c = ch CHR ''-'' \<or> c = ch CHR ''_'' \<or> c = ch CHR ''.''"

definition tool_name_char :: "rchar \<Rightarrow> bool" where
  "tool_name_char c \<longleftrightarrow> is_ascii_lowercase c \<or> is_ascii_digit c \<or>
     c = ch CHR ''.'' \<or> c = ch CHR ''-'' \<or> c = ch CHR ''_''"

definition value_size :: "'v serde \<Rightarrow> 'v \<Rightarrow> (tool_protocol_error, nat) res" where
  "value_size j v = map_err TpInvalidValue (encoded_size j v)"

section \<open>Identifiers\<close>

datatype tool_call_id = ToolCallId (call_id_str: rstring)

datatype tool_name = ToolName (tool_name_str: rstring)

definition tool_call_id_new :: "rstring \<Rightarrow> (tool_protocol_error, tool_call_id) res" where
  "tool_call_id_new value =
     res_bind (validate_token (lit ''tool call id'') value MAX_TOOL_CALL_ID_BYTES True call_id_char)
       (\<lambda>_. Inr (ToolCallId value))"

definition tool_name_new :: "rstring \<Rightarrow> (tool_protocol_error, tool_name) res" where
  "tool_name_new value =
     res_bind (validate_token (lit ''tool name'') value MAX_TOOL_NAME_BYTES True tool_name_char)
       (\<lambda>_. Inr (ToolName value))"

section \<open>Definitions and catalogs\<close>

record 'v tool_definition =
  td_name :: tool_name
  td_description :: rstring
  td_input_schema :: 'v

definition validate_definition :: "'v serde \<Rightarrow> 'v tool_definition \<Rightarrow> (tool_protocol_error, unit) res" where
  "validate_definition j d =
     res_bind (validate_text (lit ''tool description'') (td_description d)) (\<lambda>_.
     if \<not> is_object j (td_input_schema d) then Inl TpToolSchemaMustBeObject
     else res_bind (value_size j (td_input_schema d)) (\<lambda>size.
     if MAX_TOOL_SCHEMA_BYTES < size then Inl (TpSchemaTooLarge size MAX_TOOL_SCHEMA_BYTES) else Inr ()))"

definition tool_definition_new :: "'v serde \<Rightarrow> tool_name \<Rightarrow> rstring \<Rightarrow> 'v \<Rightarrow> (tool_protocol_error, 'v tool_definition) res" where
  "tool_definition_new j name description schema =
     (let d = \<lparr>td_name = name, td_description = description, td_input_schema = schema\<rparr>
      in res_bind (validate_definition j d) (\<lambda>_. Inr d))"

record 'v tool_catalog =
  ct_version :: u32
  ct_tools :: "'v tool_definition list"

fun validate_definitions :: "'v serde \<Rightarrow> tool_name list \<Rightarrow> 'v tool_definition list \<Rightarrow> (tool_protocol_error, unit) res" where
  "validate_definitions j seen [] = Inr ()"
| "validate_definitions j seen (d # ds) =
     res_bind (validate_definition j d) (\<lambda>_.
     if td_name d \<in> set seen then Inl (TpDuplicateToolDefinition (tool_name_str (td_name d)))
     else validate_definitions j (td_name d # seen) ds)"

definition validate_tool_catalog :: "'v serde \<Rightarrow> 'v tool_catalog \<Rightarrow> (tool_protocol_error, unit) res" where
  "validate_tool_catalog j c =
     res_bind (validate_version (ct_version c)) (\<lambda>_.
     if MAX_TOOL_DEFINITIONS < length (ct_tools c)
     then Inl (TpTooManyToolDefinitions (length (ct_tools c)) MAX_TOOL_DEFINITIONS)
     else validate_definitions j [] (ct_tools c))"

definition tool_catalog_new :: "'v serde \<Rightarrow> 'v tool_definition list \<Rightarrow> (tool_protocol_error, 'v tool_catalog) res" where
  "tool_catalog_new j tools =
     (let c = \<lparr>ct_version = TOOL_PROTOCOL_VERSION, ct_tools = tools\<rparr>
      in res_bind (validate_tool_catalog j c) (\<lambda>_. Inr c))"

section \<open>Calls and batches\<close>

record 'v tool_call =
  tc_id :: tool_call_id
  tc_name :: tool_name
  tc_arguments :: 'v

definition validate_call :: "'v serde \<Rightarrow> 'v tool_call \<Rightarrow> (tool_protocol_error, unit) res" where
  "validate_call j c =
     res_bind (value_size j (tc_arguments c)) (\<lambda>size.
     if MAX_TOOL_ARGUMENT_BYTES < size then Inl (TpArgumentsTooLarge size MAX_TOOL_ARGUMENT_BYTES) else Inr ())"

definition tool_call_new :: "'v serde \<Rightarrow> rstring \<Rightarrow> rstring \<Rightarrow> 'v \<Rightarrow> (tool_protocol_error, 'v tool_call) res" where
  "tool_call_new j i n args =
     res_bind (tool_call_id_new i) (\<lambda>i.
     res_bind (tool_name_new n) (\<lambda>n.
     let c = \<lparr>tc_id = i, tc_name = n, tc_arguments = args\<rparr>
     in res_bind (validate_call j c) (\<lambda>_. Inr c)))"

record 'v call_batch =
  cb_version :: u32
  cb_round :: u16
  cb_calls :: "'v tool_call list"

record loop_policy =
  lp_max_rounds :: u16
  lp_max_calls :: u16

definition policy_new :: "u16 \<Rightarrow> u16 \<Rightarrow> loop_policy" where
  "policy_new r c = \<lparr>lp_max_rounds = r, lp_max_calls = c\<rparr>"

definition default_policy :: loop_policy where
  "default_policy = policy_new DEFAULT_MAX_TOOL_ROUNDS DEFAULT_MAX_TOOL_CALLS_PER_ROUND"

definition validate_policy :: "loop_policy \<Rightarrow> (tool_protocol_error, unit) res" where
  "validate_policy p =
     (if lp_max_rounds p = 0 \<or> MAX_TOOL_ROUNDS < lp_max_rounds p
      then Inl (TpInvalidPolicy (lit ''max rounds'') (lp_max_rounds p) MAX_TOOL_ROUNDS)
      else if lp_max_calls p = 0 \<or> MAX_TOOL_CALLS_PER_ROUND < lp_max_calls p
      then Inl (TpInvalidPolicy (lit ''max calls per round'') (lp_max_calls p) MAX_TOOL_CALLS_PER_ROUND)
      else Inr ())"

fun validate_each_call :: "'v serde \<Rightarrow> tool_call_id list \<Rightarrow> 'v tool_call list \<Rightarrow> (tool_protocol_error, unit) res" where
  "validate_each_call j seen [] = Inr ()"
| "validate_each_call j seen (c # cs) =
     res_bind (validate_call j c) (\<lambda>_.
     if tc_id c \<in> set seen then Inl (TpDuplicateCallId (call_id_str (tc_id c)))
     else validate_each_call j (tc_id c # seen) cs)"

definition validate_calls :: "'v serde \<Rightarrow> 'v tool_call list \<Rightarrow> u16 \<Rightarrow> (tool_protocol_error, unit) res" where
  "validate_calls j calls maximum =
     (if calls = [] then Inl TpEmptyCallBatch
      else if unat maximum < length calls then Inl (TpTooManyCalls (length calls) (unat maximum))
      else validate_each_call j [] calls)"

definition validate_batch :: "'v serde \<Rightarrow> 'v call_batch \<Rightarrow> (tool_protocol_error, unit) res" where
  "validate_batch j b =
     res_bind (validate_version (cb_version b)) (\<lambda>_.
     res_bind (validate_round (cb_round b)) (\<lambda>_.
     validate_calls j (cb_calls b) MAX_TOOL_CALLS_PER_ROUND))"

definition batch_new :: "'v serde \<Rightarrow> u16 \<Rightarrow> 'v tool_call list \<Rightarrow> (tool_protocol_error, 'v call_batch) res" where
  "batch_new j round calls =
     (let b = \<lparr>cb_version = TOOL_PROTOCOL_VERSION, cb_round = round, cb_calls = calls\<rparr>
      in res_bind (validate_batch j b) (\<lambda>_. Inr b))"

definition validate_with_policy :: "'v serde \<Rightarrow> loop_policy \<Rightarrow> 'v call_batch \<Rightarrow> (tool_protocol_error, unit) res" where
  "validate_with_policy j p b =
     res_bind (validate_batch j b) (\<lambda>_.
     res_bind (validate_policy p) (\<lambda>_.
     if lp_max_rounds p < cb_round b then Inl (TpRoundLimitExceeded (cb_round b) (lp_max_rounds p))
     else if unat (lp_max_calls p) < length (cb_calls b)
     then Inl (TpTooManyCalls (length (cb_calls b)) (unat (lp_max_calls p)))
     else Inr ()))"

section \<open>Results\<close>

datatype 'v tool_outcome =
    OutCompleted 'v
  | OutFailed rstring rstring bool
  | OutRejected rstring rstring
  | OutCancelled rstring

definition validate_code_message :: "rstring \<Rightarrow> rstring \<Rightarrow> (tool_protocol_error, unit) res" where
  "validate_code_message code message =
     res_bind (validate_token (lit ''tool error code'') code MAX_TOOL_NAME_BYTES True tool_name_char) (\<lambda>_.
     validate_text (lit ''tool error message'') message)"

fun validate_outcome :: "'v serde \<Rightarrow> 'v tool_outcome \<Rightarrow> (tool_protocol_error, unit) res" where
  "validate_outcome j (OutCompleted v) =
     res_bind (value_size j v) (\<lambda>size.
     if MAX_TOOL_RESULT_BYTES < size then Inl (TpResultTooLarge size MAX_TOOL_RESULT_BYTES) else Inr ())"
| "validate_outcome j (OutFailed code message retryable) = validate_code_message code message"
| "validate_outcome j (OutRejected code message) = validate_code_message code message"
| "validate_outcome j (OutCancelled reason) = validate_text (lit ''cancellation reason'') reason"

definition checked_outcome :: "'v serde \<Rightarrow> 'v tool_outcome \<Rightarrow> (tool_protocol_error, 'v tool_outcome) res" where
  "checked_outcome j out = res_bind (validate_outcome j out) (\<lambda>_. Inr out)"

definition outcome_completed :: "'v serde \<Rightarrow> 'v \<Rightarrow> (tool_protocol_error, 'v tool_outcome) res" where
  "outcome_completed j v = checked_outcome j (OutCompleted v)"

definition outcome_failed :: "'v serde \<Rightarrow> rstring \<Rightarrow> rstring \<Rightarrow> bool \<Rightarrow> (tool_protocol_error, 'v tool_outcome) res" where
  "outcome_failed j code message retryable = checked_outcome j (OutFailed code message retryable)"

definition outcome_rejected :: "'v serde \<Rightarrow> rstring \<Rightarrow> rstring \<Rightarrow> (tool_protocol_error, 'v tool_outcome) res" where
  "outcome_rejected j code message = checked_outcome j (OutRejected code message)"

definition outcome_cancelled :: "'v serde \<Rightarrow> rstring \<Rightarrow> (tool_protocol_error, 'v tool_outcome) res" where
  "outcome_cancelled j reason = checked_outcome j (OutCancelled reason)"

record 'v tool_result =
  tr_version :: u32
  tr_round :: u16
  tr_call_id :: tool_call_id
  tr_tool_name :: tool_name
  tr_outcome :: "'v tool_outcome"

definition validate_result :: "'v serde \<Rightarrow> 'v tool_result \<Rightarrow> (tool_protocol_error, unit) res" where
  "validate_result j r =
     res_bind (validate_version (tr_version r)) (\<lambda>_.
     res_bind (validate_round (tr_round r)) (\<lambda>_. validate_outcome j (tr_outcome r)))"

definition tool_result_new ::
  "'v serde \<Rightarrow> u16 \<Rightarrow> tool_call_id \<Rightarrow> tool_name \<Rightarrow> 'v tool_outcome \<Rightarrow> (tool_protocol_error, 'v tool_result) res" where
  "tool_result_new j round i n out =
     (let r = \<lparr>tr_version = TOOL_PROTOCOL_VERSION, tr_round = round, tr_call_id = i, tr_tool_name = n, tr_outcome = out\<rparr>
      in res_bind (validate_result j r) (\<lambda>_. Inr r))"

section \<open>Approvals and cancellations\<close>

definition validate_grants :: "grant_kind list \<Rightarrow> (tool_protocol_error, unit) res" where
  "validate_grants gs =
     (if gs = [] then Inl TpNoApprovalGrants
      else if MAX_APPROVAL_GRANTS < length gs then Inl (TpTooManyApprovalGrants (length gs) MAX_APPROVAL_GRANTS)
      else case first_dup gs of Some g \<Rightarrow> Inl (TpDuplicateApprovalGrant g) | None \<Rightarrow> Inr ())"

record approval_request =
  ar_version :: u32
  ar_round :: u16
  ar_call_id :: tool_call_id
  ar_tool_name :: tool_name
  ar_summary :: rstring
  ar_grants :: "grant_kind list"

definition validate_approval_request :: "approval_request \<Rightarrow> (tool_protocol_error, unit) res" where
  "validate_approval_request r =
     res_bind (validate_version (ar_version r)) (\<lambda>_.
     res_bind (validate_round (ar_round r)) (\<lambda>_.
     res_bind (validate_text (lit ''approval summary'') (ar_summary r)) (\<lambda>_.
     validate_grants (ar_grants r))))"

definition approval_request_new ::
  "u16 \<Rightarrow> tool_call_id \<Rightarrow> tool_name \<Rightarrow> rstring \<Rightarrow> grant_kind list \<Rightarrow> (tool_protocol_error, approval_request) res" where
  "approval_request_new round i n summary grants =
     (let r = \<lparr>ar_version = TOOL_PROTOCOL_VERSION, ar_round = round, ar_call_id = i, ar_tool_name = n,
               ar_summary = summary, ar_grants = grants\<rparr>
      in res_bind (validate_approval_request r) (\<lambda>_. Inr r))"

datatype approval_state = Approved rstring | Denied rstring

fun validate_approval_state :: "approval_state \<Rightarrow> (tool_protocol_error, unit) res" where
  "validate_approval_state (Approved ticket) =
     validate_token (lit ''approval ticket'') ticket MAX_TOOL_TEXT_BYTES True call_id_char"
| "validate_approval_state (Denied reason) = validate_text (lit ''approval denial reason'') reason"

record approval_decision =
  ad_version :: u32
  ad_round :: u16
  ad_call_id :: tool_call_id
  ad_tool_name :: tool_name
  ad_state :: approval_state

definition validate_decision :: "approval_decision \<Rightarrow> (tool_protocol_error, unit) res" where
  "validate_decision d =
     res_bind (validate_version (ad_version d)) (\<lambda>_.
     res_bind (validate_round (ad_round d)) (\<lambda>_. validate_approval_state (ad_state d)))"

definition decision_new ::
  "u16 \<Rightarrow> tool_call_id \<Rightarrow> tool_name \<Rightarrow> approval_state \<Rightarrow> (tool_protocol_error, approval_decision) res" where
  "decision_new round i n state =
     (let d = \<lparr>ad_version = TOOL_PROTOCOL_VERSION, ad_round = round, ad_call_id = i, ad_tool_name = n, ad_state = state\<rparr>
      in res_bind (validate_decision d) (\<lambda>_. Inr d))"

record tool_cancellation =
  tx_version :: u32
  tx_round :: u16
  tx_call_id :: tool_call_id
  tx_reason :: rstring

definition validate_cancellation :: "tool_cancellation \<Rightarrow> (tool_protocol_error, unit) res" where
  "validate_cancellation c =
     res_bind (validate_version (tx_version c)) (\<lambda>_.
     res_bind (validate_round (tx_round c)) (\<lambda>_. validate_text (lit ''cancellation reason'') (tx_reason c)))"

definition cancellation_new :: "u16 \<Rightarrow> tool_call_id \<Rightarrow> rstring \<Rightarrow> (tool_protocol_error, tool_cancellation) res" where
  "cancellation_new round i reason =
     (let c = \<lparr>tx_version = TOOL_PROTOCOL_VERSION, tx_round = round, tx_call_id = i, tx_reason = reason\<rparr>
      in res_bind (validate_cancellation c) (\<lambda>_. Inr c))"

datatype 'v tool_message =
    MsgCallBatch "'v call_batch"
  | MsgToolResult "'v tool_result"
  | MsgApprovalRequest approval_request
  | MsgApprovalDecision approval_decision
  | MsgCancel tool_cancellation

fun validate_tool_message :: "'v serde \<Rightarrow> 'v tool_message \<Rightarrow> (tool_protocol_error, unit) res" where
  "validate_tool_message j (MsgCallBatch b) = validate_batch j b"
| "validate_tool_message j (MsgToolResult r) = validate_result j r"
| "validate_tool_message j (MsgApprovalRequest r) = validate_approval_request r"
| "validate_tool_message j (MsgApprovalDecision d) = validate_decision d"
| "validate_tool_message j (MsgCancel c) = validate_cancellation c"

section \<open>Decoding\<close>

text \<open>
  The deserializers: identifiers are parsed from the wire strings, then the whole value is validated
  as the constructor would. A wire value is what the derived \<open>Deserialize\<close> of the inner struct
  hands over; serde stops at the first list element that fails.
\<close>

fun decode_all :: "('a \<Rightarrow> ('e, 'b) res) \<Rightarrow> 'a list \<Rightarrow> ('e, 'b list) res" where
  "decode_all f [] = Inr []"
| "decode_all f (x # xs) = res_bind (f x) (\<lambda>y. res_bind (decode_all f xs) (\<lambda>ys. Inr (y # ys)))"

type_synonym 'v wire_call = "rstring \<times> rstring \<times> 'v"

definition checked :: "('a \<Rightarrow> (tool_protocol_error, unit) res) \<Rightarrow> 'a \<Rightarrow> (rstring, 'a) res" where
  "checked v x = map_err show_tool_protocol_error (res_bind (v x) (\<lambda>_. Inr x))"

definition id_from_wire :: "rstring \<Rightarrow> (rstring, tool_call_id) res" where
  "id_from_wire s = map_err show_tool_protocol_error (tool_call_id_new s)"

definition name_from_wire :: "rstring \<Rightarrow> (rstring, tool_name) res" where
  "name_from_wire s = map_err show_tool_protocol_error (tool_name_new s)"

definition definition_from_wire :: "'v serde \<Rightarrow> rstring \<times> rstring \<times> 'v \<Rightarrow> (rstring, 'v tool_definition) res" where
  "definition_from_wire j = (\<lambda>(n, description, schema).
     res_bind (name_from_wire n) (\<lambda>n.
     checked (validate_definition j) \<lparr>td_name = n, td_description = description, td_input_schema = schema\<rparr>))"

definition catalog_from_wire :: "'v serde \<Rightarrow> u32 \<times> (rstring \<times> rstring \<times> 'v) list \<Rightarrow> (rstring, 'v tool_catalog) res" where
  "catalog_from_wire j = (\<lambda>(v, ds).
     res_bind (decode_all (definition_from_wire j) ds) (\<lambda>ds.
     checked (validate_tool_catalog j) \<lparr>ct_version = v, ct_tools = ds\<rparr>))"

definition call_from_wire :: "'v serde \<Rightarrow> 'v wire_call \<Rightarrow> (rstring, 'v tool_call) res" where
  "call_from_wire j = (\<lambda>(i, n, args).
     res_bind (id_from_wire i) (\<lambda>i. res_bind (name_from_wire n) (\<lambda>n.
     checked (validate_call j) \<lparr>tc_id = i, tc_name = n, tc_arguments = args\<rparr>)))"

definition batch_from_wire :: "'v serde \<Rightarrow> u32 \<times> u16 \<times> 'v wire_call list \<Rightarrow> (rstring, 'v call_batch) res" where
  "batch_from_wire j = (\<lambda>(v, r, cs).
     res_bind (decode_all (call_from_wire j) cs) (\<lambda>cs.
     checked (validate_batch j) \<lparr>cb_version = v, cb_round = r, cb_calls = cs\<rparr>))"

definition result_from_wire ::
  "'v serde \<Rightarrow> u32 \<times> u16 \<times> rstring \<times> rstring \<times> 'v tool_outcome \<Rightarrow> (rstring, 'v tool_result) res" where
  "result_from_wire j = (\<lambda>(v, r, i, n, out).
     res_bind (id_from_wire i) (\<lambda>i. res_bind (name_from_wire n) (\<lambda>n.
     checked (validate_result j) \<lparr>tr_version = v, tr_round = r, tr_call_id = i, tr_tool_name = n, tr_outcome = out\<rparr>)))"

definition approval_request_from_wire ::
  "u32 \<times> u16 \<times> rstring \<times> rstring \<times> rstring \<times> grant_kind list \<Rightarrow> (rstring, approval_request) res" where
  "approval_request_from_wire = (\<lambda>(v, r, i, n, s, gs).
     res_bind (id_from_wire i) (\<lambda>i. res_bind (name_from_wire n) (\<lambda>n.
     checked validate_approval_request
       \<lparr>ar_version = v, ar_round = r, ar_call_id = i, ar_tool_name = n, ar_summary = s, ar_grants = gs\<rparr>)))"

definition decision_from_wire ::
  "u32 \<times> u16 \<times> rstring \<times> rstring \<times> approval_state \<Rightarrow> (rstring, approval_decision) res" where
  "decision_from_wire = (\<lambda>(v, r, i, n, st).
     res_bind (id_from_wire i) (\<lambda>i. res_bind (name_from_wire n) (\<lambda>n.
     checked validate_decision \<lparr>ad_version = v, ad_round = r, ad_call_id = i, ad_tool_name = n, ad_state = st\<rparr>)))"

definition cancellation_from_wire :: "u32 \<times> u16 \<times> rstring \<times> rstring \<Rightarrow> (rstring, tool_cancellation) res" where
  "cancellation_from_wire = (\<lambda>(v, r, i, reason).
     res_bind (id_from_wire i) (\<lambda>i.
     checked validate_cancellation \<lparr>tx_version = v, tx_round = r, tx_call_id = i, tx_reason = reason\<rparr>))"

section \<open>Chat\<close>

datatype chat_role = RoleSystem | RoleUser | RoleAssistant | RoleTool

record 'v chat_message =
  cm_role :: chat_role
  cm_content :: rstring
  cm_call_id :: "tool_call_id option"
  cm_tool_name :: "tool_name option"
  cm_tool_calls :: "'v tool_call list"

definition message_new :: "chat_role \<Rightarrow> rstring \<Rightarrow> 'v chat_message" where
  "message_new role content =
     \<lparr>cm_role = role, cm_content = content, cm_call_id = None, cm_tool_name = None, cm_tool_calls = []\<rparr>"

definition message_system :: "rstring \<Rightarrow> 'v chat_message" where
  "message_system content = message_new RoleSystem content"

definition message_user :: "rstring \<Rightarrow> 'v chat_message" where
  "message_user content = message_new RoleUser content"

definition message_assistant :: "rstring \<Rightarrow> 'v chat_message" where
  "message_assistant content = message_new RoleAssistant content"

definition message_assistant_tool_calls :: "'v tool_call list \<Rightarrow> 'v chat_message" where
  "message_assistant_tool_calls calls =
     \<lparr>cm_role = RoleAssistant, cm_content = [], cm_call_id = None, cm_tool_name = None, cm_tool_calls = calls\<rparr>"

definition message_tool_result :: "tool_call_id \<Rightarrow> tool_name \<Rightarrow> rstring \<Rightarrow> 'v chat_message" where
  "message_tool_result i n content =
     \<lparr>cm_role = RoleTool, cm_content = content, cm_call_id = Some i, cm_tool_name = Some n, cm_tool_calls = []\<rparr>"

record 'v chat_request =
  cq_messages :: "'v chat_message list"
  cq_tools :: "'v tool_catalog option"

definition chat_request_new :: "'v chat_message list \<Rightarrow> 'v chat_request" where
  "chat_request_new ms = \<lparr>cq_messages = ms, cq_tools = None\<rparr>"

definition chat_request_with_tools :: "'v tool_catalog \<Rightarrow> 'v chat_request \<Rightarrow> 'v chat_request" where
  "chat_request_with_tools t q = q\<lparr>cq_tools := Some t\<rparr>"

record 'v chat_result =
  cr_content :: rstring
  cr_finish_reason :: "rstring option"
  cr_tool_calls :: "'v tool_call list"

definition chat_result_new :: "rstring \<Rightarrow> rstring option \<Rightarrow> 'v chat_result" where
  "chat_result_new content reason = \<lparr>cr_content = content, cr_finish_reason = reason, cr_tool_calls = []\<rparr>"

definition chat_result_with_calls :: "'v tool_call list \<Rightarrow> 'v chat_result \<Rightarrow> 'v chat_result" where
  "chat_result_with_calls calls r = r\<lparr>cr_tool_calls := calls\<rparr>"

end
