(* ===== verification/Tool_Protocol_Claims.thy ===== *)
theory Tool_Protocol_Claims
  imports Tool_Protocol
begin

text \<open>What the tool contract accepts, and that decoding accepts exactly what the constructors build.\<close>

lemmas tool_limits = TOOL_PROTOCOL_VERSION_def MAX_TOOL_ROUNDS_def MAX_TOOL_CALLS_PER_ROUND_def
  MAX_TOOL_ARGUMENT_BYTES_def MAX_TOOL_RESULT_BYTES_def

lemma validate_version_ok [simp]: "validate_version v = Inr () \<longleftrightarrow> v = 1"
  by (simp add: validate_version_def tool_limits)

lemma validate_round_ok [simp]: "validate_round r = Inr () \<longleftrightarrow> 1 \<le> r \<and> r \<le> 32"
proof -
  have "r \<noteq> 0 \<longleftrightarrow> 1 \<le> r"
    by (auto simp: word_le_nat_alt word_neq_0_conv unat_gt_0 Suc_le_eq)
  then show ?thesis by (auto simp: validate_round_def tool_limits not_less)
qed

lemma unat_max_calls [simp]: "unat MAX_TOOL_CALLS_PER_ROUND = 16"
  by (simp add: MAX_TOOL_CALLS_PER_ROUND_def)

lemma validate_call_ok:
  "validate_call j c = Inr () \<longleftrightarrow> (case encoded_size j (tc_arguments c) of Inl e \<Rightarrow> False | Inr n \<Rightarrow> n \<le> 256 * 1024)"
  by (cases "encoded_size j (tc_arguments c)")
     (simp_all add: validate_call_def value_size_def MAX_TOOL_ARGUMENT_BYTES_def)

lemma validate_each_call_ok:
  "validate_each_call j seen cs = Inr () \<longleftrightarrow>
     (\<forall>c \<in> set cs. validate_call j c = Inr ()) \<and> distinct (map tc_id cs) \<and> set seen \<inter> tc_id ` set cs = {}"
  by (induction j seen cs rule: validate_each_call.induct) auto

text \<open>What a batch of tool calls may be. A batch is accepted exactly when its version is 1, its round
  is between 1 and 32, it holds between 1 and 16 calls with pairwise distinct ids, and the arguments of
  each encode to at most 256 KiB.\<close>

theorem batch_accepted:
  "(validate_batch j b = Inr ()) =
     (cb_version b = 1 \<and> 1 \<le> cb_round b \<and> cb_round b \<le> 32 \<and>
      1 \<le> length (cb_calls b) \<and> length (cb_calls b) \<le> 16 \<and> distinct (map tc_id (cb_calls b)) \<and>
      list_all (\<lambda>c. case encoded_size j (tc_arguments c) of Inl e \<Rightarrow> False | Inr n \<Rightarrow> n \<le> 256 * 1024) (cb_calls b))"
proof -
  have "validate_batch j b = Inr () \<longleftrightarrow>
      cb_version b = 1 \<and> (1 \<le> cb_round b \<and> cb_round b \<le> 32) \<and> cb_calls b \<noteq> [] \<and> length (cb_calls b) \<le> 16 \<and>
      (\<forall>c \<in> set (cb_calls b). validate_call j c = Inr ()) \<and> distinct (map tc_id (cb_calls b))"
    by (simp add: validate_batch_def validate_calls_def validate_each_call_ok not_less)
  then show ?thesis
    by (auto simp: validate_call_ok list_all_iff Suc_le_eq)
qed

lemma res_bind_assoc [simp]: "res_bind (res_bind m f) g = res_bind m (\<lambda>x. res_bind (f x) g)"
  by (cases m) auto

lemma checked_ok [simp]: "checked v x = Inr y \<longleftrightarrow> v x = Inr () \<and> y = x"
  by (auto simp: checked_def)

lemma call_from_wire_ok [simp]:
  "call_from_wire j (i, n, a) = Inr c \<longleftrightarrow> tool_call_new j i n a = Inr c"
  by (auto simp: call_from_wire_def tool_call_new_def id_from_wire_def name_from_wire_def Let_def)

lemma decode_all_cong_ok:
  "(\<And>x y. f x = Inr y \<longleftrightarrow> g x = Inr y) \<Longrightarrow> decode_all f xs = Inr ys \<longleftrightarrow> decode_all g xs = Inr ys"
  by (induction xs arbitrary: ys) auto

text \<open>Decoding is the constructors. The wire fields of a batch decode to a batch exactly when the
  version is the current one and building the calls and then the batch with the checked constructors
  gives that batch, so what a constructor built survives the wire and nothing else gets in.\<close>

theorem batch_decode_is_construction:
  "(batch_from_wire j (v, r, ws) = Inr b) =
     (v = 1 \<and> (\<exists>calls. decode_all (\<lambda>(i, n, a). tool_call_new j i n a) ws = Inr calls \<and> batch_new j r calls = Inr b))"
proof -
  have calls: "decode_all (call_from_wire j) ws = Inr cs \<longleftrightarrow>
      decode_all (\<lambda>(i, n, a). tool_call_new j i n a) ws = Inr cs" for cs
    by (rule decode_all_cong_ok) auto
  show ?thesis
    by (auto simp: batch_from_wire_def batch_new_def calls Let_def tool_limits validate_batch_def)
qed

end
