(* ===== verification/Session_Log.thy ===== *)
theory Session_Log
  imports Tool_Protocol
begin

text \<open>
  The append-only session log of the agent spine (\<open>yunxi-agent-spine/src/session.rs\<close>): its
  limits, the events with their validation, bounded appending, the seed of an outer transcript and the
  conversation read back from the records. What serde answers about events and messages is an argument
  (\<open>session_serde\<close>); \<open>usize\<close> arithmetic is on naturals with the 64-bit overflow checks
  written out.
\<close>

section \<open>Limits and errors\<close>

definition DEFAULT_MAX_SESSION_EVENTS :: nat where "DEFAULT_MAX_SESSION_EVENTS = 512"
definition DEFAULT_MAX_SESSION_BYTES :: nat where "DEFAULT_MAX_SESSION_BYTES = 4 * 1024 * 1024"
definition DEFAULT_MAX_SESSION_EVENT_BYTES :: nat where "DEFAULT_MAX_SESSION_EVENT_BYTES = 1024 * 1024"
definition MAX_SESSION_TURN_ID_BYTES :: nat where "MAX_SESSION_TURN_ID_BYTES = 128"
definition MAX_SESSION_TEXT_BYTES :: nat where "MAX_SESSION_TEXT_BYTES = 256 * 1024"

record session_limits =
  sl_max_events :: nat
  sl_max_bytes :: nat
  sl_max_event_bytes :: nat

datatype session_error =
    InvalidLimit rstring nat
  | InvalidEvent rstring
  | InvalidSeed rstring
  | Serialization rstring
  | EventTooLarge nat nat
  | EventLimitReached nat
  | ByteLimitReached nat nat nat
  | SequenceExhausted

fun session_error_code :: "session_error \<Rightarrow> rstring" where
  "session_error_code (InvalidLimit f v) = lit ''invalid_session_limit''"
| "session_error_code (InvalidEvent m) = lit ''invalid_session_event''"
| "session_error_code (InvalidSeed m) = lit ''invalid_session_seed''"
| "session_error_code (Serialization m) = lit ''session_serialization_error''"
| "session_error_code (EventTooLarge s m) = lit ''session_event_too_large''"
| "session_error_code (EventLimitReached m) = lit ''session_event_limit''"
| "session_error_code (ByteLimitReached u i m) = lit ''session_byte_limit''"
| "session_error_code SequenceExhausted = lit ''session_sequence_exhausted''"

fun show_session_error :: "session_error \<Rightarrow> rstring" where
  "show_session_error (InvalidLimit f v) =
     lit ''session limit '' @ f @ lit '' has invalid value '' @ show_nat v"
| "show_session_error (InvalidEvent m) = lit ''invalid session event: '' @ m"
| "show_session_error (InvalidSeed m) = lit ''invalid session seed: '' @ m"
| "show_session_error (Serialization m) = lit ''session event serialization failed: '' @ m"
| "show_session_error (EventTooLarge s m) =
     lit ''session event is '' @ show_nat s @ lit '' bytes; maximum is '' @ show_nat m"
| "show_session_error (EventLimitReached m) =
     lit ''session event limit of '' @ show_nat m @ lit '' has been reached''"
| "show_session_error (ByteLimitReached u i m) =
     lit ''session byte limit exceeded: '' @ show_nat u @ lit '' + '' @ show_nat i @ lit '' > '' @ show_nat m"
| "show_session_error SequenceExhausted = lit ''session event sequence is exhausted''"

definition validate_limits :: "session_limits \<Rightarrow> (session_error, unit) res" where
  "validate_limits l =
     (if sl_max_events l = 0 then Inl (InvalidLimit (lit ''max_events'') (sl_max_events l))
      else if sl_max_bytes l = 0 then Inl (InvalidLimit (lit ''max_bytes'') (sl_max_bytes l))
      else if sl_max_event_bytes l = 0 \<or> sl_max_bytes l < sl_max_event_bytes l
      then Inl (InvalidLimit (lit ''max_event_bytes'') (sl_max_event_bytes l))
      else Inr ())"

definition default_session_limits :: session_limits where
  "default_session_limits = \<lparr>sl_max_events = DEFAULT_MAX_SESSION_EVENTS,
     sl_max_bytes = DEFAULT_MAX_SESSION_BYTES, sl_max_event_bytes = DEFAULT_MAX_SESSION_EVENT_BYTES\<rparr>"

section \<open>Events\<close>

datatype session_event_kind =
    KTurnStarted | KContextBuilt | KModelRequested | KModelResponded | KToolCallsRequested
  | KToolApprovalRequested | KToolApprovalResolved | KToolResultRecorded | KTurnCompleted | KTurnFailed
  | KTurnCancelled

datatype 'v session_event =
    TurnStarted rstring "'v chat_message"
  | ContextBuilt rstring nat nat
  | ModelRequested rstring u16 nat nat
  | ModelResponded rstring u16 "'v chat_result"
  | ToolCallsRequested rstring "'v call_batch"
  | ToolApprovalRequested rstring approval_request
  | ToolApprovalResolved rstring approval_decision
  | ToolResultRecorded rstring "'v tool_result"
  | TurnCompleted rstring rstring
  | TurnFailed rstring rstring rstring bool
  | TurnCancelled rstring rstring

fun event_kind :: "'v session_event \<Rightarrow> session_event_kind" where
  "event_kind (TurnStarted t m) = KTurnStarted"
| "event_kind (ContextBuilt t m n) = KContextBuilt"
| "event_kind (ModelRequested t r m n) = KModelRequested"
| "event_kind (ModelResponded t r x) = KModelResponded"
| "event_kind (ToolCallsRequested t b) = KToolCallsRequested"
| "event_kind (ToolApprovalRequested t q) = KToolApprovalRequested"
| "event_kind (ToolApprovalResolved t d) = KToolApprovalResolved"
| "event_kind (ToolResultRecorded t x) = KToolResultRecorded"
| "event_kind (TurnCompleted t c) = KTurnCompleted"
| "event_kind (TurnFailed t c m r) = KTurnFailed"
| "event_kind (TurnCancelled t r) = KTurnCancelled"

fun event_turn :: "'v session_event \<Rightarrow> rstring" where
  "event_turn (TurnStarted t m) = t"
| "event_turn (ContextBuilt t m n) = t"
| "event_turn (ModelRequested t r m n) = t"
| "event_turn (ModelResponded t r x) = t"
| "event_turn (ToolCallsRequested t b) = t"
| "event_turn (ToolApprovalRequested t q) = t"
| "event_turn (ToolApprovalResolved t d) = t"
| "event_turn (ToolResultRecorded t x) = t"
| "event_turn (TurnCompleted t c) = t"
| "event_turn (TurnFailed t c m r) = t"
| "event_turn (TurnCancelled t r) = t"

record 'v session_serde = "'v serde" +
  event_bytes :: "'v session_event \<Rightarrow> (rstring, nat) res"
  message_bytes :: "'v chat_message \<Rightarrow> (rstring, nat) res"
  outcome_text :: "'v tool_outcome \<Rightarrow> (rstring, rstring) res"

abbreviation values_of :: "'v session_serde \<Rightarrow> 'v serde" where
  "values_of j \<equiv> serde.truncate j"

definition session_text :: "rstring \<Rightarrow> rstring \<Rightarrow> nat \<Rightarrow> (session_error, unit) res" where
  "session_text field value maximum =
     (if blank value then Inl (InvalidEvent (field @ lit '' cannot be empty''))
      else if 0 \<in> set value then Inl (InvalidEvent (field @ lit '' contains a NUL character''))
      else if maximum < str_len value
      then Inl (InvalidEvent (field @ lit '' exceeds '' @ show_nat maximum @ lit '' bytes''))
      else Inr ())"

definition session_round :: "u16 \<Rightarrow> (session_error, unit) res" where
  "session_round r =
     (if r = 0 then Inl (InvalidEvent (lit ''round must be greater than zero'')) else Inr ())"

definition as_invalid_event :: "(tool_protocol_error, 'a) res \<Rightarrow> (session_error, 'a) res" where
  "as_invalid_event r = map_err (\<lambda>e. InvalidEvent (show_tool_protocol_error e)) r"

fun validate_event_body :: "'v session_serde \<Rightarrow> 'v session_event \<Rightarrow> (session_error, unit) res" where
  "validate_event_body j (TurnStarted t m) =
     (if cm_role m \<noteq> RoleUser
      then Inl (InvalidEvent (lit ''turn start message must have the user role''))
      else session_text (lit ''user message'') (cm_content m) MAX_SESSION_TEXT_BYTES)"
| "validate_event_body j (ContextBuilt t m n) = Inr ()"
| "validate_event_body j (ModelRequested t r m n) = Inr ()"
| "validate_event_body j (ModelResponded t r x) =
     res_bind (session_round r) (\<lambda>_.
     if cr_tool_calls x = [] then session_text (lit ''model response'') (cr_content x) MAX_SESSION_TEXT_BYTES
     else if MAX_SESSION_TEXT_BYTES < str_len (cr_content x) \<or> 0 \<in> set (cr_content x)
     then Inl (InvalidEvent (lit ''model response exceeds the session text bound''))
     else res_bind (as_invalid_event (batch_new (values_of j) r (cr_tool_calls x))) (\<lambda>_. Inr ()))"
| "validate_event_body j (ToolCallsRequested t b) = as_invalid_event (validate_batch (values_of j) b)"
| "validate_event_body j (ToolApprovalRequested t q) = as_invalid_event (validate_approval_request q)"
| "validate_event_body j (ToolApprovalResolved t d) = as_invalid_event (validate_decision d)"
| "validate_event_body j (ToolResultRecorded t x) = as_invalid_event (validate_result (values_of j) x)"
| "validate_event_body j (TurnCompleted t c) =
     res_bind (session_text (lit ''turn response'') c MAX_SESSION_TEXT_BYTES) (\<lambda>_.
     if blank c then Inl (InvalidEvent (lit ''completed turn response cannot be empty'')) else Inr ())"
| "validate_event_body j (TurnFailed t c m r) =
     res_bind (session_text (lit ''failure code'') c 128) (\<lambda>_.
     session_text (lit ''failure message'') m MAX_SESSION_TEXT_BYTES)"
| "validate_event_body j (TurnCancelled t r) =
     session_text (lit ''cancellation reason'') r MAX_SESSION_TEXT_BYTES"

definition validate_event :: "'v session_serde \<Rightarrow> 'v session_event \<Rightarrow> (session_error, unit) res" where
  "validate_event j e =
     res_bind (session_text (lit ''turn id'') (event_turn e) MAX_SESSION_TURN_ID_BYTES)
       (\<lambda>_. validate_event_body j e)"

section \<open>The log\<close>

record 'v session_record =
  sr_sequence :: u64
  sr_event :: "'v session_event"

record 'v session_log =
  sg_limits :: session_limits
  sg_seed :: "'v chat_message list"
  sg_records :: "'v session_record list"
  sg_bytes :: nat
  sg_next :: u64

definition session_with_limits :: "session_limits \<Rightarrow> (session_error, 'v session_log) res" where
  "session_with_limits l =
     res_bind (validate_limits l) (\<lambda>_.
     Inr \<lparr>sg_limits = l, sg_seed = [], sg_records = [], sg_bytes = 0, sg_next = 1\<rparr>)"

definition usize_add :: "nat \<Rightarrow> nat \<Rightarrow> nat option" where
  "usize_add a b = (if a + b < 2 ^ 64 then Some (a + b) else None)"

fun validate_seed_from :: "'v session_serde \<Rightarrow> nat \<Rightarrow> nat \<Rightarrow> 'v chat_message list \<Rightarrow> (session_error, unit) res" where
  "validate_seed_from j maximum used [] = Inr ()"
| "validate_seed_from j maximum used (m # ms) =
     (if 0 \<in> set (cm_content m) then Inl (InvalidSeed (lit ''conversation seed contains a NUL character''))
      else if MAX_SESSION_TEXT_BYTES < str_len (cm_content m)
      then Inl (InvalidSeed (lit ''conversation seed message exceeds the text bound''))
      else res_bind (map_err Serialization (message_bytes j m)) (\<lambda>n.
        case usize_add used n of
          None \<Rightarrow> Inl (ByteLimitReached used n maximum)
        | Some new_total \<Rightarrow>
            if maximum < new_total then Inl (ByteLimitReached (new_total - n) n maximum)
            else validate_seed_from j maximum new_total ms))"

definition validate_seed :: "'v session_serde \<Rightarrow> 'v chat_message list \<Rightarrow> nat \<Rightarrow> (session_error, unit) res" where
  "validate_seed j ms maximum = validate_seed_from j maximum 0 ms"

definition reset_with_messages :: "'v session_serde \<Rightarrow> 'v chat_message list \<Rightarrow> ('v session_log, session_error, unit) act" where
  "reset_with_messages j ms s =
     (case validate_seed j ms (sl_max_bytes (sg_limits s)) of
        Inl e \<Rightarrow> (Inl e, s)
      | Inr _ \<Rightarrow> (Inr (), s\<lparr>sg_seed := ms, sg_records := [], sg_bytes := 0, sg_next := 1\<rparr>))"

definition session_append :: "'v session_serde \<Rightarrow> 'v session_event \<Rightarrow> ('v session_log, session_error, u64) act" where
  "session_append j e s =
     (case validate_event j e of
        Inl er \<Rightarrow> (Inl er, s)
      | Inr _ \<Rightarrow>
        (case event_bytes j e of
           Inl m \<Rightarrow> (Inl (Serialization m), s)
         | Inr encoded \<Rightarrow>
             if sl_max_event_bytes (sg_limits s) < encoded
             then (Inl (EventTooLarge encoded (sl_max_event_bytes (sg_limits s))), s)
             else if sl_max_events (sg_limits s) \<le> length (sg_records s)
             then (Inl (EventLimitReached (sl_max_events (sg_limits s))), s)
             else (case usize_add (sg_bytes s) encoded of
               None \<Rightarrow> (Inl (ByteLimitReached (sg_bytes s) encoded (sl_max_bytes (sg_limits s))), s)
             | Some new_total \<Rightarrow>
                 if sl_max_bytes (sg_limits s) < new_total
                 then (Inl (ByteLimitReached (sg_bytes s) encoded (sl_max_bytes (sg_limits s))), s)
                 else (case checked_inc (sg_next s) of
                   None \<Rightarrow> (Inl SequenceExhausted, s)
                 | Some n \<Rightarrow>
                     (Inr (sg_next s),
                      s\<lparr>sg_next := n, sg_records := sg_records s @ [\<lparr>sr_sequence = sg_next s, sr_event = e\<rparr>],
                        sg_bytes := new_total\<rparr>)))))"

text \<open>The messages one record contributes to the conversation.\<close>

definition outcome_content :: "'v session_serde \<Rightarrow> 'v tool_outcome \<Rightarrow> rstring" where
  "outcome_content j out =
     (case outcome_text j out of
        Inr text \<Rightarrow> text
      | Inl e \<Rightarrow> lit ''{\"status\":\"failed\",\"message\":\"'' @ e @ lit ''\"}'')"

fun event_messages :: "'v session_serde \<Rightarrow> 'v session_event \<Rightarrow> 'v chat_message list" where
  "event_messages j (TurnStarted t m) = [m]"
| "event_messages j (ModelResponded t r x) =
     (if cr_tool_calls x = [] then [message_assistant (cr_content x)]
      else [message_assistant_tool_calls (cr_tool_calls x)])"
| "event_messages j (ToolResultRecorded t x) =
     [message_tool_result (tr_call_id x) (tr_tool_name x) (outcome_content j (tr_outcome x))]"
| "event_messages j _ = []"

definition conversation :: "'v session_serde \<Rightarrow> 'v session_log \<Rightarrow> 'v chat_message list" where
  "conversation j s = foldl (\<lambda>ms r. ms @ event_messages j (sr_event r)) (sg_seed s) (sg_records s)"

end
