(* ===== verification/Session_Claims.thy ===== *)
theory Session_Claims
  imports Session_Log
begin

text \<open>
  What the session log promises. \<open>append_only_store\<close> is the interface its client, the agent
  loop, relies on: a successful append adds one entry at the end and keeps the store well formed, a
  failed one changes nothing. The log's own invariant (bounds, byte accounting, consecutive sequence
  numbers) provides it.
\<close>

section \<open>Append-only stores\<close>

inductive grows :: "('e \<Rightarrow> ('s, 'x, 'n) act) \<Rightarrow> 's \<Rightarrow> 'e list \<Rightarrow> 's \<Rightarrow> bool"
  for put :: "'e \<Rightarrow> ('s, 'x, 'n) act" where
  grows_refl: "grows put s [] s"
| grows_step: "grows put s es t \<Longrightarrow> put e t = (Inr n, u) \<Longrightarrow> grows put s (es @ [e]) u"

lemma grows_one: "put e s = (Inr n, t) \<Longrightarrow> grows put s [e] t"
  using grows_step [OF grows_refl, of put e s n t] by simp

lemma grows_trans: "grows put t fs u \<Longrightarrow> grows put s es t \<Longrightarrow> grows put s (es @ fs) u"
  by (induction rule: grows.induct) (auto intro: grows_step simp flip: append_assoc)

locale append_only_store =
  fixes put :: "'e \<Rightarrow> ('s, 'x, 'n) act"
    and log :: "'s \<Rightarrow> 'e list"
    and ok :: "'s \<Rightarrow> bool"
  assumes put_adds: "put e s = (Inr n, s') \<Longrightarrow> log s' = log s @ [e]"
    and put_ok: "ok s \<Longrightarrow> put e s = (r, s') \<Longrightarrow> ok s'"
    and put_fails: "put e s = (Inl x, s') \<Longrightarrow> s' = s"
begin

lemma grows_log: "grows put s es t \<Longrightarrow> log t = log s @ es"
  by (induction rule: grows.induct) (auto dest: put_adds)

lemma grows_ok: "grows put s es t \<Longrightarrow> ok s \<Longrightarrow> ok t"
  by (induction rule: grows.induct) (auto dest: put_ok)

lemma put_grows: "put e s = (r, t) \<Longrightarrow> grows put s (if is_ok r then [e] else []) t"
  by (cases r) (auto dest: put_fails intro: grows_refl grows_one)

lemma grows_unique: "grows put s es t \<Longrightarrow> grows put s fs t \<Longrightarrow> es = fs"
  by (drule grows_log, drule grows_log) simp

end

section \<open>The session invariant\<close>

definition event_size :: "'v session_serde \<Rightarrow> 'v session_event \<Rightarrow> nat" where
  "event_size j e = (case event_bytes j e of Inl m \<Rightarrow> 0 | Inr n \<Rightarrow> n)"

definition session_events :: "'v session_log \<Rightarrow> 'v session_event list" where
  "session_events s = map sr_event (sg_records s)"

definition session_inv :: "'v session_serde \<Rightarrow> 'v session_log \<Rightarrow> bool" where
  "session_inv j s \<longleftrightarrow>
     validate_limits (sg_limits s) = Inr () \<and>
     length (sg_records s) \<le> sl_max_events (sg_limits s) \<and>
     sg_bytes s = sum_list (map (event_size j) (session_events s)) \<and> sg_bytes s \<le> sl_max_bytes (sg_limits s) \<and>
     length (sg_records s) + 1 < 2 ^ 64 \<and> sg_next s = of_nat (length (sg_records s) + 1) \<and>
     map (unat \<circ> sr_sequence) (sg_records s) = [1..<length (sg_records s) + 1] \<and>
     (\<forall>e \<in> set (session_events s). validate_event j e = Inr () \<and> event_size j e \<le> sl_max_event_bytes (sg_limits s))"

text \<open>One lemma for every branch of an append: it succeeds under exactly these conditions.\<close>

lemma session_append_Inr:
  "session_append j e s = (Inr n, s') \<longleftrightarrow>
     validate_event j e = Inr () \<and> is_ok (event_bytes j e) \<and>
     event_size j e \<le> sl_max_event_bytes (sg_limits s) \<and>
     length (sg_records s) < sl_max_events (sg_limits s) \<and>
     sg_bytes s + event_size j e < 2 ^ 64 \<and> sg_bytes s + event_size j e \<le> sl_max_bytes (sg_limits s) \<and>
     sg_next s \<noteq> - 1 \<and> n = sg_next s \<and>
     s' = s\<lparr>sg_next := sg_next s + 1, sg_records := sg_records s @ [\<lparr>sr_sequence = sg_next s, sr_event = e\<rparr>],
            sg_bytes := sg_bytes s + event_size j e\<rparr>"
  by (auto simp: session_append_def event_size_def usize_add_def checked_inc_def is_ok_def
      split: sum.splits if_splits option.splits)

lemma session_append_Inl: "session_append j e s = (Inl x, s') \<Longrightarrow> s' = s"
  by (auto simp: session_append_def split: sum.splits if_splits option.splits)

lemma session_append_inv:
  assumes "session_inv j s" and "session_append j e s = (r, s')"
  shows "session_inv j s'"
proof (cases r)
  case (Inl x)
  then show ?thesis using assms session_append_Inl by metis
next
  case (Inr n)
  note app = assms(2) [unfolded Inr session_append_Inr]
  have len: "length (sg_records s) + 1 < 2 ^ 64" and nxt: "sg_next s = of_nat (length (sg_records s) + 1)"
    using assms(1) by (auto simp: session_inv_def)
  have seq: "unat (sg_next s) = length (sg_records s) + 1"
    unfolding nxt by (rule unat_of_nat_64 [OF len])
  have "length (sg_records s) + 2 < 2 ^ 64"
  proof -
    have "unat (sg_next s + 1) = Suc (unat (sg_next s))" using app by (simp add: unat_inc)
    moreover have "unat (sg_next s + 1) < 2 ^ 64" using unsigned_less [of "sg_next s + 1"] by simp
    ultimately show ?thesis using seq by simp
  qed
  then show ?thesis
    using app assms(1) seq
    by (auto simp: session_inv_def session_events_def ac_simps)
qed

interpretation session: append_only_store "session_append j" session_events "session_inv j"
  by unfold_locales
     (auto simp: session_append_Inr session_events_def intro: session_append_inv dest: session_append_Inl)

inductive session_step :: "'v session_serde \<Rightarrow> 'v session_log \<Rightarrow> 'v session_log \<Rightarrow> bool"
  for j :: "'v session_serde" where
  step_append: "session_append j e s = (r, s') \<Longrightarrow> session_step j s s'"
| step_reset: "reset_with_messages j ms s = (r, s') \<Longrightarrow> session_step j s s'"

lemma session_reset_inv:
  assumes "session_inv j s" and "reset_with_messages j ms s = (r, s')"
  shows "session_inv j s'"
  using assms
  by (auto simp: session_inv_def reset_with_messages_def session_events_def split: sum.splits)

interpretation session_log: component "\<lambda>s :: 'v session_log. \<exists>l. session_with_limits l = Inr s" "session_step j" "session_inv j"
  for j :: "'v session_serde"
proof unfold_locales
  show "session_inv j s" if "\<exists>l. session_with_limits l = Inr s" for s :: "'v session_log"
    using that by (auto simp: session_with_limits_def session_inv_def session_events_def)
  show "session_inv j t" if "session_inv j s" "session_step j s t" for s t :: "'v session_log"
    using that(2) by cases (auto intro: session_append_inv [OF that(1)] session_reset_inv [OF that(1)])
qed

section \<open>Properties\<close>

definition demo_serde :: "unit session_serde" where
  "demo_serde = \<lparr>encoded_size = (\<lambda>_. Inr 4), is_object = (\<lambda>_. True), event_bytes = (\<lambda>_. Inr 10),
     message_bytes = (\<lambda>_. Inr 10), outcome_text = (\<lambda>_. Inr (lit ''done''))\<rparr>"

definition demo_limits :: session_limits where
  "demo_limits = \<lparr>sl_max_events = 20, sl_max_bytes = 1000, sl_max_event_bytes = 100\<rparr>"

definition demo_session :: "unit session_log" where
  "demo_session = \<lparr>sg_limits = demo_limits, sg_seed = [], sg_records = [], sg_bytes = 0, sg_next = 1\<rparr>"

lemma demo_session_new: "session_with_limits demo_limits = Inr demo_session"
  by (simp add: session_with_limits_def validate_limits_def demo_limits_def demo_session_def)

text \<open>C24: the session log stays within its bounds. After any sequence of appends and resets on a log
  created with valid limits, whatever serde answers, it holds at most the allowed number of events, its
  byte count is the sum of the encoded sizes of the events it holds and within the limit, every event is
  valid and within the event limit, and the sequence numbers are 1, 2, 3, up to the number of
  records.\<close>

theorem session_log_bounded:
  assumes "reach (\<lambda>s. \<exists>l. session_with_limits l = Inr s) (session_step j) s"
  shows "length (sg_records s) \<le> sl_max_events (sg_limits s) \<and>
    sg_bytes s = sum_list (map (event_size j) (session_events s)) \<and> sg_bytes s \<le> sl_max_bytes (sg_limits s) \<and>
    map (unat \<circ> sr_sequence) (sg_records s) = [1..<length (sg_records s) + 1] \<and>
    list_all (\<lambda>e. validate_event j e = Inr () \<and> event_size j e \<le> sl_max_event_bytes (sg_limits s)) (session_events s)"
  using session_log.reach_inv [OF assms] by (auto simp: session_inv_def list_all_iff)

theorem session_log_bounded_witness:
  "sg_bytes demo_session = sum_list (map (event_size demo_serde) (session_events demo_session))"
proof -
  have "reach (\<lambda>s. \<exists>l. session_with_limits l = Inr s) (session_step demo_serde) demo_session"
    using demo_session_new by (intro reach_start) blast
  from session_log_bounded [OF this] show ?thesis by blast
qed

text \<open>appending is all or nothing. On a log in its invariant an append succeeds exactly when the event
  is valid, serializes, and fits the event size, event count and byte limits (and a sequence number is
  left); it then returns the next sequence number, the event is the last of the log, and the
  conversation has grown by the messages of that event; in every other case the log is unchanged.\<close>

theorem session_append_all_or_nothing:
  assumes "session_inv j s"
  shows "is_ok (fst (session_append j e s)) =
      (validate_event j e = Inr () \<and> is_ok (event_bytes j e) \<and> event_size j e \<le> sl_max_event_bytes (sg_limits s) \<and>
       length (sg_records s) < sl_max_events (sg_limits s) \<and>
       sg_bytes s + event_size j e \<le> sl_max_bytes (sg_limits s) \<and> sg_bytes s + event_size j e < 2 ^ 64 \<and>
       length (sg_records s) + 2 < 2 ^ 64) \<and>
    (if is_ok (fst (session_append j e s))
     then fst (session_append j e s) = Inr (of_nat (length (sg_records s) + 1)) \<and>
          session_events (snd (session_append j e s)) = session_events s @ [e] \<and>
          conversation j (snd (session_append j e s)) = conversation j s @ event_messages j e
     else snd (session_append j e s) = s)"
proof -
  obtain r s' where app: "session_append j e s = (r, s')" by (cases "session_append j e s")
  have len: "length (sg_records s) + 1 < 2 ^ 64" and nxt: "sg_next s = of_nat (length (sg_records s) + 1)"
    using assms by (auto simp: session_inv_def)
  have seq: "unat (sg_next s) = length (sg_records s) + 1"
    unfolding nxt by (rule unat_of_nat_64 [OF len])
  have "sg_next s = - 1 \<longleftrightarrow> unat (sg_next s) = 2 ^ 64 - 1"
    by (simp add: word_unat_eq_iff unsigned_minus_1_eq_mask mask_eq_exp_minus_1)
  then have room: "sg_next s \<noteq> - 1 \<longleftrightarrow> length (sg_records s) + 2 < 2 ^ 64"
    using len seq by auto
  show ?thesis
  proof (cases r)
    case (Inl x)
    then have "s' = s" using app session_append_Inl by blast
    moreover have "\<not> (validate_event j e = Inr () \<and> is_ok (event_bytes j e) \<and>
        event_size j e \<le> sl_max_event_bytes (sg_limits s) \<and> length (sg_records s) < sl_max_events (sg_limits s) \<and>
        sg_bytes s + event_size j e < 2 ^ 64 \<and> sg_bytes s + event_size j e \<le> sl_max_bytes (sg_limits s) \<and>
        sg_next s \<noteq> - 1)"
      using session_append_Inr [of j e s "sg_next s"] app Inl by auto
    ultimately show ?thesis using app Inl room by auto
  next
    case (Inr n)
    note * = app [unfolded Inr session_append_Inr]
    have "conversation j s' = conversation j s @ event_messages j e"
      using * by (simp add: conversation_def)
    moreover have "session_events s' = session_events s @ [e]"
      using * by (simp add: session_events_def)
    ultimately show ?thesis using app Inr * nxt room by simp
  qed
qed

theorem session_append_all_or_nothing_witness:
  "is_ok (fst (session_append demo_serde (TurnStarted (lit ''turn-1'') (message_user (lit ''hi''))) demo_session))"
proof -
  have "session_inv demo_serde demo_session"
    using demo_session_new by (intro session_log.start_inv) blast
  from session_append_all_or_nothing [OF this, of "TurnStarted (lit ''turn-1'') (message_user (lit ''hi''))"]
  show ?thesis
    by (simp add: demo_session_def demo_limits_def demo_serde_def event_size_def validate_event_def session_text_def
        blank_def trim_def lit_def is_whitespace_def utf8_width_def message_user_def message_new_def
        MAX_SESSION_TURN_ID_BYTES_def MAX_SESSION_TEXT_BYTES_def)
qed

end
