(* ===== verification/Agent_Base.thy ===== *)
theory Agent_Base
  imports Session_Log
begin

text \<open>
  The small types of the agent spine: component errors and the agent's error type
  (\<open>error.rs\<close>), the cancellation token (\<open>cancellation.rs\<close>), the state types and
  snapshots (\<open>state.rs\<close>) and the model request (\<open>model.rs\<close>).
\<close>

section \<open>Component errors\<close>

definition MAX_ERROR_CODE_BYTES :: nat where "MAX_ERROR_CODE_BYTES = 128"
definition MAX_ERROR_MESSAGE_BYTES :: nat where "MAX_ERROR_MESSAGE_BYTES = 4096"

record component_error =
  ce_code :: rstring
  ce_message :: rstring
  ce_retryable :: bool

definition error_code_rest_char :: "rchar \<Rightarrow> bool" where
  "error_code_rest_char c \<longleftrightarrow> is_ascii_lowercase c \<or> is_ascii_digit c \<or>
     c = ch CHR ''.'' \<or> c = ch CHR ''-'' \<or> c = ch CHR ''_''"

definition normalize_code :: "rstring \<Rightarrow> rstring" where
  "normalize_code value =
     (let v = truncate_bytes value MAX_ERROR_CODE_BYTES in
      if v \<noteq> [] \<and> list_all (\<lambda>(i, c). (i = 0 \<and> is_ascii_lowercase c) \<or> (0 < i \<and> error_code_rest_char c)) (enumerate 0 v)
      then v else lit ''component_error'')"

definition error_message :: "rstring \<Rightarrow> rstring" where
  "error_message value =
     (let v = truncate_bytes value MAX_ERROR_MESSAGE_BYTES in
      if v = [] then lit ''component operation failed'' else v)"

definition component_error_new :: "rstring \<Rightarrow> rstring \<Rightarrow> bool \<Rightarrow> component_error" where
  "component_error_new code message retryable =
     \<lparr>ce_code = normalize_code code, ce_message = error_message message, ce_retryable = retryable\<rparr>"

definition show_component_error :: "component_error \<Rightarrow> rstring" where
  "show_component_error e = ce_code e @ lit '': '' @ ce_message e"

section \<open>Cancellation\<close>

definition MAX_CANCELLATION_REASON_BYTES :: nat where "MAX_CANCELLATION_REASON_BYTES = 4096"

definition bounded_reason :: "rstring \<Rightarrow> rstring" where
  "bounded_reason value =
     (if blank value then lit ''cancelled'' else truncate_bytes value MAX_CANCELLATION_REASON_BYTES)"

text \<open>The flag and the once-cell behind every clone of a token.\<close>

record cancellation_token =
  ck_cancelled :: bool
  ck_reason :: "rstring option"

definition token_new :: cancellation_token where
  "token_new = \<lparr>ck_cancelled = False, ck_reason = None\<rparr>"

definition token_cancel :: "rstring \<Rightarrow> cancellation_token \<Rightarrow> cancellation_token" where
  "token_cancel reason t =
     \<lparr>ck_cancelled = True,
      ck_reason = (case ck_reason t of None \<Rightarrow> Some (bounded_reason reason) | Some r \<Rightarrow> Some r)\<rparr>"

definition token_reason :: "cancellation_token \<Rightarrow> rstring option" where
  "token_reason t =
     (if ck_cancelled t
      then Some (case ck_reason t of Some r \<Rightarrow> r | None \<Rightarrow> lit ''cancelled'') else None)"

datatype cancellation_error = CancellationError (cancellation_reason: rstring)

definition cancellation_error_new :: "rstring \<Rightarrow> cancellation_error" where
  "cancellation_error_new reason = CancellationError (bounded_reason reason)"

definition token_check :: "cancellation_token \<Rightarrow> (cancellation_error, unit) res" where
  "token_check t = (case token_reason t of None \<Rightarrow> Inr () | Some r \<Rightarrow> Inl (cancellation_error_new r))"

section \<open>States\<close>

datatype agent_state = AgentReady | AgentRunning | AgentAwaitingApproval

fun show_agent_state :: "agent_state \<Rightarrow> rstring" where
  "show_agent_state AgentReady = lit ''ready''"
| "show_agent_state AgentRunning = lit ''running''"
| "show_agent_state AgentAwaitingApproval = lit ''awaiting_approval''"

datatype turn_state =
    TurnCreated | TurnContextBuilding | TurnModelCalling | TurnToolCalling | TurnAwaitingApproval
  | TurnStateCompleted | TurnStateFailed | TurnStateCancelled

fun show_turn_state :: "turn_state \<Rightarrow> rstring" where
  "show_turn_state TurnCreated = lit ''created''"
| "show_turn_state TurnContextBuilding = lit ''context_building''"
| "show_turn_state TurnModelCalling = lit ''model_calling''"
| "show_turn_state TurnToolCalling = lit ''tool_calling''"
| "show_turn_state TurnAwaitingApproval = lit ''awaiting_approval''"
| "show_turn_state TurnStateCompleted = lit ''completed''"
| "show_turn_state TurnStateFailed = lit ''failed''"
| "show_turn_state TurnStateCancelled = lit ''cancelled''"

record turn_snapshot =
  ts_id :: rstring
  ts_state :: turn_state
  ts_round :: u16
  ts_model_calls :: u32
  ts_tool_calls :: u32
  ts_error :: "component_error option"

record agent_snapshot =
  as_id :: rstring
  as_state :: agent_state
  as_turns_started :: u64
  as_last_turn_id :: "rstring option"

record 'v model_request =
  mq_turn_id :: rstring
  mq_round :: u16
  mq_chat :: "'v chat_request"

section \<open>The agent's errors\<close>

datatype budget_kind = BudgetRounds | BudgetModelCalls | BudgetToolCalls

fun show_budget_kind :: "budget_kind \<Rightarrow> rstring" where
  "show_budget_kind BudgetRounds = lit ''rounds''"
| "show_budget_kind BudgetModelCalls = lit ''model_calls''"
| "show_budget_kind BudgetToolCalls = lit ''tool_calls''"

datatype agent_error =
    AeInvalidInput component_error
  | AeInvalidState rstring agent_state
  | AeSession session_error
  | AeContext component_error
  | AeModel component_error
  | AeTool component_error
  | AeBudgetExceeded budget_kind u64 u64
  | AeCancelled cancellation_error
  | AeProtocol component_error

definition ae_invalid_input :: "rstring \<Rightarrow> rstring \<Rightarrow> agent_error" where
  "ae_invalid_input code message = AeInvalidInput (component_error_new code message False)"

definition ae_protocol :: "rstring \<Rightarrow> rstring \<Rightarrow> agent_error" where
  "ae_protocol code message = AeProtocol (component_error_new code message False)"

fun ae_code :: "agent_error \<Rightarrow> rstring" where
  "ae_code (AeInvalidInput e) = ce_code e"
| "ae_code (AeContext e) = ce_code e"
| "ae_code (AeModel e) = ce_code e"
| "ae_code (AeTool e) = ce_code e"
| "ae_code (AeProtocol e) = ce_code e"
| "ae_code (AeInvalidState op st) = lit ''invalid_state''"
| "ae_code (AeSession e) = session_error_code e"
| "ae_code (AeBudgetExceeded k l u) = lit ''budget_exceeded''"
| "ae_code (AeCancelled e) = lit ''cancelled''"

fun ae_message :: "agent_error \<Rightarrow> rstring" where
  "ae_message (AeInvalidInput e) = ce_message e"
| "ae_message (AeContext e) = ce_message e"
| "ae_message (AeModel e) = ce_message e"
| "ae_message (AeTool e) = ce_message e"
| "ae_message (AeProtocol e) = ce_message e"
| "ae_message (AeInvalidState op st) = lit ''cannot '' @ op @ lit '' while agent is '' @ show_agent_state st"
| "ae_message (AeSession e) = show_session_error e"
| "ae_message (AeBudgetExceeded k l u) =
     show_budget_kind k @ lit '' budget exhausted: used '' @ show_nat (unat u) @ lit '', limit '' @ show_nat (unat l)"
| "ae_message (AeCancelled e) = cancellation_reason e"

fun ae_retryable :: "agent_error \<Rightarrow> bool" where
  "ae_retryable (AeContext e) = ce_retryable e"
| "ae_retryable (AeModel e) = ce_retryable e"
| "ae_retryable (AeTool e) = ce_retryable e"
| "ae_retryable _ = False"

fun ae_cancellation_reason :: "agent_error \<Rightarrow> rstring option" where
  "ae_cancellation_reason (AeCancelled e) = Some (cancellation_reason e)"
| "ae_cancellation_reason _ = None"

definition ae_is_cancelled :: "agent_error \<Rightarrow> bool" where
  "ae_is_cancelled e = (case e of AeCancelled _ \<Rightarrow> True | _ \<Rightarrow> False)"

definition show_agent_error :: "agent_error \<Rightarrow> rstring" where
  "show_agent_error e = ae_code e @ lit '': '' @ ae_message e"

end
