(* ===== verification/Tool_Broker.thy ===== *)
theory Tool_Broker
  imports Agent_Base
begin

text \<open>
  The boundary between the agent and the tools (\<open>yunxi-agent-spine/src/tool.rs\<close>): requests,
  decisions, the approval policy, the broker trait with its default methods, the wrapper that puts a
  policy in front of a broker, and the empty broker.

  A broker is a record of its trait methods over its own state \<open>'t\<close>; the default methods of the
  trait are definitions that fill the fields an implementation leaves out.
\<close>

section \<open>Requests and decisions\<close>

record 'v tool_request =
  rq_turn_id :: rstring
  rq_round :: u16
  rq_call :: "'v tool_call"

datatype tool_decision =
    DecideExecute
  | DecideRequestApproval approval_request
  | DecideReject rstring rstring

datatype 'v tool_execution =
    Executed "'v tool_outcome"
  | AwaitingApproval approval_request

type_synonym ('v, 't) tool_policy = "'v tool_request \<Rightarrow> ('t, component_error, tool_decision) act"

definition require_approval :: "('v, 't) tool_policy" where
  "require_approval q = lift_res
     (map_err (\<lambda>e. component_error_new (lit ''invalid_approval_request'') (show_tool_protocol_error e) False)
       (res_bind
         (approval_request_new (rq_round q) (tc_id (rq_call q)) (tc_name (rq_call q))
           (lit ''Execute tool '' @ tool_name_str (tc_name (rq_call q))) [Approval])
         (\<lambda>r. Inr (DecideRequestApproval r))))"

section \<open>Checking an approval against its request\<close>

definition broker_validate_approval :: "'v tool_request \<Rightarrow> approval_decision \<Rightarrow> (component_error, unit) res" where
  "broker_validate_approval q d =
     (if ad_round d \<noteq> rq_round q \<or> ad_call_id d \<noteq> tc_id (rq_call q) \<or> ad_tool_name d \<noteq> tc_name (rq_call q)
      then Inl (component_error_new (lit ''approval_mismatch'') (lit ''approval does not match the pending tool call'') False)
      else map_err (\<lambda>e. component_error_new (lit ''invalid_approval'') (show_tool_protocol_error e) False)
             (validate_decision d))"

definition broker_validate_request :: "'v tool_request \<Rightarrow> approval_request \<Rightarrow> (component_error, unit) res" where
  "broker_validate_request q a =
     (if rq_round q \<noteq> ar_round a \<or> tc_id (rq_call q) \<noteq> ar_call_id a \<or> tc_name (rq_call q) \<noteq> ar_tool_name a
      then Inl (component_error_new (lit ''approval_request_mismatch'')
             (lit ''approval request does not match the pending tool call'') False)
      else map_err (\<lambda>e. component_error_new (lit ''invalid_approval_request'') (show_tool_protocol_error e) False)
             (validate_approval_request a))"

section \<open>The broker trait\<close>

type_synonym ('v, 't) tool_run =
  "'v tool_request \<Rightarrow> cancellation_token \<Rightarrow> ('t, component_error, 'v tool_outcome) act"

type_synonym ('v, 't) approved_run =
  "'v tool_request \<Rightarrow> approval_decision \<Rightarrow> cancellation_token \<Rightarrow> ('t, component_error, 'v tool_outcome) act"

type_synonym ('v, 't) approval_run =
  "'v tool_request \<Rightarrow> approval_decision option \<Rightarrow> cancellation_token \<Rightarrow> ('t, component_error, 'v tool_execution) act"

record ('v, 't) tool_broker =
  tb_catalog :: "'t \<Rightarrow> (component_error, 'v tool_catalog) res"
  tb_execute :: "('v, 't) tool_run"
  tb_execute_approved :: "('v, 't) approved_run"
  tb_execute_with_approval :: "('v, 't) approval_run"

definition default_execute_approved :: "('v, 't) tool_run \<Rightarrow> ('v, 't) approved_run" where
  "default_execute_approved execute q d t = execute q t"

definition rejected_execution :: "'v serde \<Rightarrow> rstring \<Rightarrow> rstring \<Rightarrow> ('t, component_error, 'v tool_execution) act" where
  "rejected_execution j code message = lift_res
     (map_err (\<lambda>e. component_error_new (lit ''invalid_tool_rejection'') (show_tool_protocol_error e) False)
       (res_bind (outcome_rejected j code message) (\<lambda>out. Inr (Executed out))))"

text \<open>
  The default \<open>execute_with_approval\<close>, over the three methods it calls. The wrapper's own
  version is the same code with its policy and the wrapped broker's methods.
\<close>

definition default_execute_with_approval ::
  "'v serde \<Rightarrow> ('v, 't) tool_policy \<Rightarrow> ('v, 't) tool_run \<Rightarrow> ('v, 't) approved_run \<Rightarrow> ('v, 't) approval_run" where
  "default_execute_with_approval j decide execute execute_approved q approval t =
     (case approval of
        Some d \<Rightarrow>
          act_then (lift_res (broker_validate_approval q d))
            (case ad_state d of
               Approved ticket \<Rightarrow> act_bind (execute_approved q d t) (\<lambda>out. ret (Executed out))
             | Denied reason \<Rightarrow> rejected_execution j (lit ''user_denied'') reason)
      | None \<Rightarrow>
          act_bind (decide q) (\<lambda>decision.
            case decision of
              DecideExecute \<Rightarrow> act_bind (execute q t) (\<lambda>out. ret (Executed out))
            | DecideRequestApproval a \<Rightarrow>
                act_then (lift_res (broker_validate_request q a)) (ret (AwaitingApproval a))
            | DecideReject code message \<Rightarrow> rejected_execution j code message))"

text \<open>A broker that implements only \<open>catalog\<close> and \<open>execute\<close>.\<close>

definition plain_broker ::
  "'v serde \<Rightarrow> ('t \<Rightarrow> (component_error, 'v tool_catalog) res) \<Rightarrow> ('v, 't) tool_run \<Rightarrow> ('v, 't) tool_broker" where
  "plain_broker j catalog execute =
     \<lparr>tb_catalog = catalog, tb_execute = execute, tb_execute_approved = default_execute_approved execute,
      tb_execute_with_approval =
        default_execute_with_approval j require_approval execute (default_execute_approved execute)\<rparr>"

section \<open>The approval-aware wrapper\<close>

definition on_first :: "('s, 'e, 'a) act \<Rightarrow> ('s \<times> 'p, 'e, 'a) act" where
  "on_first m = (\<lambda>(s, p). case m s of (r, s') \<Rightarrow> (r, s', p))"

definition on_second :: "('p, 'e, 'a) act \<Rightarrow> ('s \<times> 'p, 'e, 'a) act" where
  "on_second m = (\<lambda>(s, p). case m p of (r, p') \<Rightarrow> (r, s, p'))"

definition wrapped_execute :: "('v, 't) tool_run" where
  "wrapped_execute q t = throw
     (component_error_new (lit ''approval_required'')
       (lit ''approval is required before executing '' @ tool_name_str (tc_name (rq_call q))) False)"

definition approval_aware :: "'v serde \<Rightarrow> ('v, 'p) tool_policy \<Rightarrow> ('v, 't) tool_broker \<Rightarrow> ('v, 't \<times> 'p) tool_broker" where
  "approval_aware j policy b =
     \<lparr>tb_catalog = (\<lambda>(s, p). tb_catalog b s), tb_execute = wrapped_execute,
      tb_execute_approved = default_execute_approved wrapped_execute,
      tb_execute_with_approval =
        default_execute_with_approval j (\<lambda>q. on_second (policy q))
          (\<lambda>q t. on_first (tb_execute b q t)) (\<lambda>q d t. on_first (tb_execute_approved b q d t))\<rparr>"

definition approval_aware_new :: "'v serde \<Rightarrow> ('v, 't) tool_broker \<Rightarrow> ('v, 't \<times> unit) tool_broker" where
  "approval_aware_new j b = approval_aware j require_approval b"

section \<open>The empty broker\<close>

definition empty_broker :: "'v serde \<Rightarrow> ('v, unit) tool_broker" where
  "empty_broker j = plain_broker j
     (\<lambda>_. map_err (\<lambda>e. component_error_new (lit ''invalid_empty_catalog'') (show_tool_protocol_error e) False)
            (tool_catalog_new j []))
     (\<lambda>q t. throw (component_error_new (lit ''tool_unavailable'')
            (lit ''no broker is registered for '' @ tool_name_str (tc_name (rq_call q))) False))"

end
