(* ===== verification/Agent_Loop.thy ===== *)
theory Agent_Loop
  imports Tool_Broker
begin

text \<open>
  The agent's turn loop (\<open>yunxi-agent-spine/src/agent.rs\<close>) and the default context assembler
  (\<open>context.rs\<close>).

  An agent owns its model, context assembler and broker, as in the code; \<open>agent_env\<close> holds
  what those three compute over their own states, what serde answers, and the cancellation token as it
  stands each time the turn looks at it (other threads may cancel at any moment, so the \<open>n\<close>-th
  look sees an arbitrary token). The loop over rounds ends because the round number, a 16-bit
  word, grows and its overflow is an error.
\<close>

section \<open>Budget and configuration\<close>

record turn_budget =
  bg_max_rounds :: u16
  bg_max_calls :: u16
  bg_max_tool_calls :: u32
  bg_max_model_calls :: u32

definition conservative_budget :: turn_budget where
  "conservative_budget = \<lparr>bg_max_rounds = 8, bg_max_calls = 8, bg_max_tool_calls = 64, bg_max_model_calls = 9\<rparr>"

definition budget_policy :: "turn_budget \<Rightarrow> loop_policy" where
  "budget_policy b = policy_new (bg_max_rounds b) (bg_max_calls b)"

definition validate_budget :: "turn_budget \<Rightarrow> (agent_error, unit) res" where
  "validate_budget b =
     res_bind (map_err (\<lambda>e. ae_invalid_input (lit ''invalid_budget'') (show_tool_protocol_error e))
       (validate_policy (budget_policy b))) (\<lambda>_.
     if bg_max_tool_calls b = 0
     then Inl (ae_invalid_input (lit ''invalid_budget'') (lit ''max_tool_calls must be greater than zero''))
     else if bg_max_model_calls b = 0
     then Inl (ae_invalid_input (lit ''invalid_budget'') (lit ''max_model_calls must be greater than zero''))
     else Inr ())"

record agent_config =
  cfg_budget :: turn_budget
  cfg_limits :: session_limits

definition config_new :: "turn_budget \<Rightarrow> session_limits \<Rightarrow> (agent_error, agent_config) res" where
  "config_new b l =
     res_bind (validate_budget b) (\<lambda>_. res_bind (map_err AeSession (validate_limits l)) (\<lambda>_.
     Inr \<lparr>cfg_budget = b, cfg_limits = l\<rparr>))"

section \<open>Turns\<close>

record turn_tracker =
  tk_snapshot :: turn_snapshot
  tk_round :: u16
  tk_model_calls :: u32
  tk_tool_calls :: u32
  tk_state :: turn_state

definition tracker_new :: "rstring \<Rightarrow> turn_tracker" where
  "tracker_new i =
     \<lparr>tk_snapshot = \<lparr>ts_id = i, ts_state = TurnCreated, ts_round = 0, ts_model_calls = 0, ts_tool_calls = 0,
                      ts_error = None\<rparr>,
      tk_round = 0, tk_model_calls = 0, tk_tool_calls = 0, tk_state = TurnCreated\<rparr>"

definition tracker_sync :: "turn_tracker \<Rightarrow> turn_tracker" where
  "tracker_sync t = t\<lparr>tk_snapshot := (tk_snapshot t)\<lparr>ts_state := tk_state t, ts_round := tk_round t,
     ts_model_calls := tk_model_calls t, ts_tool_calls := tk_tool_calls t\<rparr>\<rparr>"

definition tracker_fail :: "agent_error \<Rightarrow> turn_tracker \<Rightarrow> turn_tracker" where
  "tracker_fail e t = tracker_sync (t\<lparr>tk_state := TurnStateFailed, tk_snapshot := (tk_snapshot t)
     \<lparr>ts_error := Some (component_error_new (ae_code e) (ae_message e) (ae_retryable e))\<rparr>\<rparr>)"

definition tracker_cancel :: "rstring \<Rightarrow> turn_tracker \<Rightarrow> turn_tracker" where
  "tracker_cancel reason t = tracker_sync (t\<lparr>tk_state := TurnStateCancelled, tk_snapshot := (tk_snapshot t)
     \<lparr>ts_error := Some (component_error_new (lit ''cancelled'') reason False)\<rparr>\<rparr>)"

definition into_snapshot :: "turn_tracker \<Rightarrow> turn_snapshot" where
  "into_snapshot t = tk_snapshot (tracker_sync t)"

datatype execution_mode = Legacy | ApprovalAware

record 'v pending_tool =
  pt_request :: approval_request
  pt_batch :: "'v call_batch"
  pt_next_call :: nat

datatype 'v inner_outcome =
    InnerCompleted "'v chat_result"
  | InnerAwaiting "'v pending_tool"

record 'v pending_turn =
  pn_tracker :: turn_tracker
  pn_user_message :: "'v chat_message"
  pn_request :: approval_request
  pn_batch :: "'v call_batch"
  pn_next_call :: nat

record 'v turn_result =
  tn_response :: "'v chat_result"
  tn_snapshot :: turn_snapshot

datatype 'v turn_outcome =
    TurnDone "'v turn_result"
  | TurnAwaiting approval_request

section \<open>The agent\<close>

record ('v, 'm, 'c, 't) agent =
  ag_id :: rstring
  ag_model :: 'm
  ag_context :: 'c
  ag_tools :: 't
  ag_config :: agent_config
  ag_session :: "'v session_log"
  ag_state :: agent_state
  ag_turns_started :: u64
  ag_next_turn :: u64
  ag_last_turn :: "turn_snapshot option"
  ag_pending :: "'v pending_turn option"

record ('v, 'm, 'c, 't) agent_env =
  en_complete :: "'v model_request \<Rightarrow> cancellation_token \<Rightarrow> ('m, component_error, 'v chat_result) act"
  en_assemble :: "rstring \<Rightarrow> 'v chat_message \<Rightarrow> 'v session_log \<Rightarrow> 'v tool_catalog \<Rightarrow>
                    ('c, component_error, 'v chat_request) act"
  en_broker :: "('v, 't) tool_broker"
  en_serde :: "'v session_serde"
  en_token :: "nat \<Rightarrow> cancellation_token"

definition validate_identifier :: "rstring \<Rightarrow> rstring \<Rightarrow> (agent_error, unit) res" where
  "validate_identifier field value =
     (if blank value then Inl (ae_invalid_input (lit ''empty_identifier'') (field @ lit '' cannot be empty''))
      else if 128 < str_len value \<or> 0 \<in> set value
      then Inl (ae_invalid_input (lit ''invalid_identifier'') (field @ lit '' is empty, contains NUL, or exceeds 128 bytes''))
      else Inr ())"

definition agent_new :: "rstring \<Rightarrow> 'm \<Rightarrow> 'c \<Rightarrow> 't \<Rightarrow> agent_config \<Rightarrow> (agent_error, ('v, 'm, 'c, 't) agent) res" where
  "agent_new i m c t cfg =
     res_bind (validate_identifier (lit ''agent id'') i) (\<lambda>_.
     res_bind (validate_budget (cfg_budget cfg)) (\<lambda>_.
     res_bind (map_err AeSession (validate_limits (cfg_limits cfg))) (\<lambda>_.
     res_bind (map_err AeSession (session_with_limits (cfg_limits cfg))) (\<lambda>g.
     Inr \<lparr>ag_id = i, ag_model = m, ag_context = c, ag_tools = t, ag_config = cfg, ag_session = g,
          ag_state = AgentReady, ag_turns_started = 0, ag_next_turn = 1, ag_last_turn = None,
          ag_pending = None\<rparr>))))"

definition agent_snapshot_of :: "('v, 'm, 'c, 't) agent \<Rightarrow> agent_snapshot" where
  "agent_snapshot_of a = \<lparr>as_id = ag_id a, as_state = ag_state a, as_turns_started = ag_turns_started a,
     as_last_turn_id = map_option ts_id (ag_last_turn a)\<rparr>"

definition pending_approval :: "('v, 'm, 'c, 't) agent \<Rightarrow> approval_request option" where
  "pending_approval a = map_option pn_request (ag_pending a)"

definition reset_conversation ::
  "('v, 'm, 'c, 't) agent_env \<Rightarrow> 'v chat_message list \<Rightarrow> (('v, 'm, 'c, 't) agent, agent_error, unit) act" where
  "reset_conversation env ms a =
     (if ag_state a \<noteq> AgentReady
      then (Inl (AeInvalidState (lit ''reset the conversation'') (ag_state a)), a)
      else (case reset_with_messages (en_serde env) ms (ag_session a) of
              (Inl e, g) \<Rightarrow> (Inl (AeSession e), a\<lparr>ag_session := g\<rparr>)
            | (Inr _, g) \<Rightarrow> (Inr (), a\<lparr>ag_session := g, ag_last_turn := None\<rparr>)))"

section \<open>One turn\<close>

record ('v, 'm, 'c, 't) turn_run =
  rn_agent :: "('v, 'm, 'c, 't) agent"
  rn_tracker :: turn_tracker
  rn_looks :: nat

type_synonym ('v, 'm, 'c, 't, 'a) turn_act = "(('v, 'm, 'c, 't) turn_run, agent_error, 'a) act"

definition on_agent :: "(('v, 'm, 'c, 't) agent \<Rightarrow> ('v, 'm, 'c, 't) agent) \<Rightarrow> ('v, 'm, 'c, 't) turn_run \<Rightarrow> ('v, 'm, 'c, 't) turn_run" where
  "on_agent f s = s\<lparr>rn_agent := f (rn_agent s)\<rparr>"

definition on_tracker :: "(turn_tracker \<Rightarrow> turn_tracker) \<Rightarrow> ('v, 'm, 'c, 't, unit) turn_act" where
  "on_tracker f s = (Inr (), s\<lparr>rn_tracker := f (rn_tracker s)\<rparr>)"

definition look :: "('v, 'm, 'c, 't) agent_env \<Rightarrow> ('v, 'm, 'c, 't, cancellation_token) turn_act" where
  "look env s = (Inr (en_token env (rn_looks s)), s\<lparr>rn_looks := Suc (rn_looks s)\<rparr>)"

definition check_cancelled :: "('v, 'm, 'c, 't) agent_env \<Rightarrow> ('v, 'm, 'c, 't, unit) turn_act" where
  "check_cancelled env = act_bind (look env) (\<lambda>t. lift_res (map_err AeCancelled (token_check t)))"

definition record_event :: "('v, 'm, 'c, 't) agent_env \<Rightarrow> 'v session_event \<Rightarrow> ('v, 'm, 'c, 't, unit) turn_act" where
  "record_event env e s =
     (case session_append (en_serde env) e (ag_session (rn_agent s)) of
        (r, g) \<Rightarrow> (map_err AeSession (res_bind r (\<lambda>_. Inr ())), on_agent (\<lambda>a. a\<lparr>ag_session := g\<rparr>) s))"

definition budget_of :: "('v, 'm, 'c, 't) turn_run \<Rightarrow> turn_budget" where
  "budget_of s = cfg_budget (ag_config (rn_agent s))"

definition charge_model_call :: "('v, 'm, 'c, 't, unit) turn_act" where
  "charge_model_call s =
     (let used = tk_model_calls (rn_tracker s); limit = bg_max_model_calls (budget_of s) in
      if limit \<le> used then (Inl (AeBudgetExceeded BudgetModelCalls (ucast limit) (ucast used)), s)
      else on_tracker (\<lambda>t. t\<lparr>tk_model_calls := sat_inc used, tk_state := TurnModelCalling\<rparr>) s)"

definition charge_tool_call :: "('v, 'm, 'c, 't, unit) turn_act" where
  "charge_tool_call s =
     (let used = tk_tool_calls (rn_tracker s); limit = bg_max_tool_calls (budget_of s) in
      if limit \<le> used then (Inl (AeBudgetExceeded BudgetToolCalls (ucast limit) (ucast used)), s)
      else on_tracker (\<lambda>t. t\<lparr>tk_tool_calls := sat_inc used, tk_state := TurnToolCalling\<rparr>) s)"

definition enter_round :: "u16 \<Rightarrow> ('v, 'm, 'c, 't, unit) turn_act" where
  "enter_round round s =
     (let limit = bg_max_rounds (budget_of s) in
      if limit < round then (Inl (AeBudgetExceeded BudgetRounds (ucast limit) (ucast round)), s)
      else on_tracker (\<lambda>t. t\<lparr>tk_round := round\<rparr>) s)"

definition read_catalog :: "('v, 'm, 'c, 't) agent_env \<Rightarrow> ('v, 'm, 'c, 't, 'v tool_catalog) turn_act" where
  "read_catalog env s = (map_err AeTool (tb_catalog (en_broker env) (ag_tools (rn_agent s))), s)"

definition assemble_context ::
  "('v, 'm, 'c, 't) agent_env \<Rightarrow> rstring \<Rightarrow> 'v chat_message \<Rightarrow> 'v tool_catalog \<Rightarrow> ('v, 'm, 'c, 't, 'v chat_request) turn_act" where
  "assemble_context env turn_id user catalog s =
     (case en_assemble env turn_id user (ag_session (rn_agent s)) catalog (ag_context (rn_agent s)) of
        (r, c) \<Rightarrow> (map_err AeContext r, on_agent (\<lambda>a. a\<lparr>ag_context := c\<rparr>) s))"

definition call_model ::
  "('v, 'm, 'c, 't) agent_env \<Rightarrow> 'v model_request \<Rightarrow> cancellation_token \<Rightarrow> ('v, 'm, 'c, 't, 'v chat_result) turn_act" where
  "call_model env q t s =
     (case en_complete env q t (ag_model (rn_agent s)) of
        (r, m) \<Rightarrow> (map_err AeModel r, on_agent (\<lambda>a. a\<lparr>ag_model := m\<rparr>) s))"

text \<open>Running a tool does not end the turn when it fails: its result is a value.\<close>

definition run_tool ::
  "('v, 'm, 'c, 't) agent_env \<Rightarrow> execution_mode \<Rightarrow> 'v tool_request \<Rightarrow> approval_decision option \<Rightarrow> cancellation_token \<Rightarrow>
   ('v, 'm, 'c, 't, (component_error, 'v tool_execution) res) turn_act" where
  "run_tool env mode q approval t s =
     (let call = (case mode of
          Legacy \<Rightarrow> act_bind (tb_execute (en_broker env) q t) (\<lambda>out. ret (Executed out))
        | ApprovalAware \<Rightarrow> tb_execute_with_approval (en_broker env) q approval t)
      in case call (ag_tools (rn_agent s)) of
           (r, ts) \<Rightarrow> (Inr r, on_agent (\<lambda>a. a\<lparr>ag_tools := ts\<rparr>) s))"

definition record_result ::
  "('v, 'm, 'c, 't) agent_env \<Rightarrow> rstring \<Rightarrow> 'v call_batch \<Rightarrow> 'v tool_call \<Rightarrow> approval_decision option \<Rightarrow> 'v tool_outcome \<Rightarrow>
   ('v, 'm, 'c, 't, 'v pending_tool option) turn_act" where
  "record_result env turn_id batch call approval out =
     act_then (case approval of None \<Rightarrow> ret () | Some d \<Rightarrow> record_event env (ToolApprovalResolved turn_id d))
       (act_bind (lift_res (map_err (\<lambda>e. ae_protocol (lit ''invalid_tool_result'') (show_tool_protocol_error e))
           (tool_result_new (values_of (en_serde env)) (cb_round batch) (tc_id call) (tc_name call) out)))
         (\<lambda>x. act_then (record_event env (ToolResultRecorded turn_id x)) (ret None)))"

definition process_call ::
  "('v, 'm, 'c, 't) agent_env \<Rightarrow> rstring \<Rightarrow> 'v call_batch \<Rightarrow> nat \<Rightarrow> approval_decision option \<Rightarrow> execution_mode \<Rightarrow>
   nat \<Rightarrow> 'v tool_call \<Rightarrow> ('v, 'm, 'c, 't, 'v pending_tool option) turn_act" where
  "process_call env turn_id batch start_call approval mode index call =
     (let given = (if index = start_call then approval else None);
          q = \<lparr>rq_turn_id = turn_id, rq_round = cb_round batch, rq_call = call\<rparr> in
      act_then (check_cancelled env) (
      act_then charge_tool_call (
      act_bind (look env) (\<lambda>t.
      act_bind (run_tool env mode q given t) (\<lambda>execution.
        case execution of
          Inr (AwaitingApproval a) \<Rightarrow>
            act_then (record_event env (ToolApprovalRequested turn_id a))
              (ret (Some \<lparr>pt_request = a, pt_batch = batch, pt_next_call = index\<rparr>))
        | Inr (Executed out) \<Rightarrow> record_result env turn_id batch call given out
        | Inl e \<Rightarrow>
            act_bind (lift_res (map_err (\<lambda>pe. ae_protocol (lit ''invalid_tool_failure'') (show_tool_protocol_error pe))
                (outcome_failed (values_of (en_serde env)) (ce_code e) (ce_message e) (ce_retryable e))))
              (record_result env turn_id batch call given))))))"

fun process_calls ::
  "('v, 'm, 'c, 't) agent_env \<Rightarrow> rstring \<Rightarrow> 'v call_batch \<Rightarrow> nat \<Rightarrow> approval_decision option \<Rightarrow> execution_mode \<Rightarrow>
   (nat \<times> 'v tool_call) list \<Rightarrow> ('v, 'm, 'c, 't, 'v pending_tool option) turn_act" where
  "process_calls env turn_id batch start_call approval mode [] s = (Inr None, s)"
| "process_calls env turn_id batch start_call approval mode ((index, call) # calls) s =
     (case process_call env turn_id batch start_call approval mode index call s of
        (Inl e, s') \<Rightarrow> (Inl e, s')
      | (Inr (Some p), s') \<Rightarrow> (Inr (Some p), s')
      | (Inr None, s') \<Rightarrow> process_calls env turn_id batch start_call approval mode calls s')"

definition process_tool_batch ::
  "('v, 'm, 'c, 't) agent_env \<Rightarrow> rstring \<Rightarrow> 'v call_batch \<Rightarrow> nat \<Rightarrow> approval_decision option \<Rightarrow> execution_mode \<Rightarrow>
   ('v, 'm, 'c, 't, 'v pending_tool option) turn_act" where
  "process_tool_batch env turn_id batch start_call approval mode =
     process_calls env turn_id batch start_call approval mode (drop start_call (enumerate 0 (cb_calls batch)))"

definition checked_batch :: "('v, 'm, 'c, 't) agent_env \<Rightarrow> u16 \<Rightarrow> 'v chat_result \<Rightarrow> ('v, 'm, 'c, 't, 'v call_batch option) turn_act" where
  "checked_batch env round response s =
     (let refuse = (\<lambda>e. ae_protocol (lit ''invalid_model_tool_calls'') (show_tool_protocol_error e)) in
      (if cr_tool_calls response = [] then Inr None
       else res_bind (map_err refuse (batch_new (values_of (en_serde env)) round (cr_tool_calls response))) (\<lambda>b.
            res_bind (map_err refuse (validate_with_policy (values_of (en_serde env)) (budget_policy (budget_of s)) b))
              (\<lambda>_. Inr (Some b))), s))"

text \<open>One pass of the loop: \<open>None\<close> when the next round is to follow.\<close>

definition run_round ::
  "('v, 'm, 'c, 't) agent_env \<Rightarrow> rstring \<Rightarrow> 'v chat_message \<Rightarrow> execution_mode \<Rightarrow> approval_decision option \<Rightarrow> u16 \<Rightarrow>
   ('v, 'm, 'c, 't, 'v inner_outcome option) turn_act" where
  "run_round env turn_id user mode approval round =
     act_then (check_cancelled env) (
     act_then (enter_round round) (
     act_bind (read_catalog env) (\<lambda>catalog.
     act_then (on_tracker (\<lambda>t. t\<lparr>tk_state := TurnContextBuilding\<rparr>)) (
     act_bind (assemble_context env turn_id user catalog) (\<lambda>chat.
     act_then (record_event env (ContextBuilt turn_id (length (cq_messages chat)) (length (ct_tools catalog)))) (
     act_then charge_model_call (
     act_then (record_event env (ModelRequested turn_id round (length (cq_messages chat)) (length (ct_tools catalog)))) (
     act_bind (look env) (\<lambda>t.
     act_bind (call_model env \<lparr>mq_turn_id = turn_id, mq_round = round, mq_chat = chat\<rparr> t) (\<lambda>response.
     act_bind (checked_batch env round response) (\<lambda>batch.
     act_then (record_event env (ModelResponded turn_id round response)) (
     case batch of
       None \<Rightarrow>
         if blank (cr_content response)
         then throw (ae_protocol (lit ''empty_model_response'') (lit ''model returned neither text nor tool calls''))
         else act_then (record_event env (TurnCompleted turn_id (cr_content response))) (
              act_then (on_tracker (\<lambda>t. t\<lparr>tk_state := TurnStateCompleted\<rparr>)) (
              ret (Some (InnerCompleted response))))
     | Some b \<Rightarrow>
         act_then (record_event env (ToolCallsRequested turn_id b)) (
         act_bind (process_tool_batch env turn_id b 0 approval mode) (\<lambda>pending.
         ret (map_option InnerAwaiting pending)))))))))))))))"

definition rounds_overflow :: "turn_budget \<Rightarrow> agent_error" where
  "rounds_overflow b = AeBudgetExceeded BudgetRounds (ucast (bg_max_rounds b)) (ucast (- 1 :: u16))"

function run_rounds ::
  "('v, 'm, 'c, 't) agent_env \<Rightarrow> rstring \<Rightarrow> 'v chat_message \<Rightarrow> execution_mode \<Rightarrow> approval_decision option \<Rightarrow> u16 \<Rightarrow>
   ('v, 'm, 'c, 't, 'v inner_outcome) turn_act" where
  "run_rounds env turn_id user mode approval round s =
     (case run_round env turn_id user mode approval round s of
        (Inl e, s') \<Rightarrow> (Inl e, s')
      | (Inr (Some out), s') \<Rightarrow> (Inr out, s')
      | (Inr None, s') \<Rightarrow>
          (case checked_inc round of
             None \<Rightarrow> (Inl (rounds_overflow (budget_of s')), s')
           | Some r \<Rightarrow> run_rounds env turn_id user mode approval r s'))"
  by pat_completeness auto

termination
proof (relation "measure (\<lambda>(env, turn_id, user, mode, approval, round, s). 2 ^ 16 - unat round)")
  fix round r :: u16
  assume "checked_inc round = Some r"
  then have "unat r = Suc (unat round)" by (auto simp: checked_inc_Some unat_inc)
  moreover have "unat r < 2 ^ 16" using unsigned_less [of r] by simp
  ultimately show "((env, turn_id, user, mode, approval, r, s'), env, turn_id, user, mode, approval, round, s)
      \<in> measure (\<lambda>(env, turn_id, user, mode, approval, round, s). 2 ^ 16 - unat round)"
    for env :: "('v, 'm, 'c, 't) agent_env" and turn_id :: rstring and user :: "'v chat_message"
      and mode :: execution_mode and approval :: "approval_decision option" and s s' :: "('v, 'm, 'c, 't) turn_run"
    by simp
qed simp

declare run_rounds.simps [simp del]

definition run_turn_inner ::
  "('v, 'm, 'c, 't) agent_env \<Rightarrow> rstring \<Rightarrow> 'v chat_message \<Rightarrow> u16 \<Rightarrow> bool \<Rightarrow> execution_mode \<Rightarrow> approval_decision option \<Rightarrow>
   ('v, 'm, 'c, 't, 'v inner_outcome) turn_act" where
  "run_turn_inner env turn_id user starting_round record_start mode approval =
     act_then (if record_start then record_event env (TurnStarted turn_id user) else ret ())
       (run_rounds env turn_id user mode approval starting_round)"

definition continue_pending_turn ::
  "('v, 'm, 'c, 't) agent_env \<Rightarrow> rstring \<Rightarrow> 'v chat_message \<Rightarrow> 'v call_batch \<Rightarrow> nat \<Rightarrow> approval_decision \<Rightarrow>
   ('v, 'm, 'c, 't, 'v inner_outcome) turn_act" where
  "continue_pending_turn env turn_id user batch next_call d =
     act_bind (process_tool_batch env turn_id batch next_call (Some d) ApprovalAware) (\<lambda>pending.
       case pending of
         Some p \<Rightarrow> ret (InnerAwaiting p)
       | None \<Rightarrow> (\<lambda>s. case checked_inc (cb_round batch) of
             None \<Rightarrow> (Inl (rounds_overflow (budget_of s)), s)
           | Some r \<Rightarrow> run_turn_inner env turn_id user r False ApprovalAware None s))"

section \<open>Starting and closing turns\<close>

definition append_ignoring :: "('v, 'm, 'c, 't) agent_env \<Rightarrow> 'v session_event \<Rightarrow> ('v, 'm, 'c, 't) agent \<Rightarrow> ('v, 'm, 'c, 't) agent" where
  "append_ignoring env e a = a\<lparr>ag_session := snd (session_append (en_serde env) e (ag_session a))\<rparr>"

text \<open>What both finishers do with an error.\<close>

definition close_failed ::
  "('v, 'm, 'c, 't) agent_env \<Rightarrow> rstring \<Rightarrow> agent_error \<Rightarrow> turn_tracker \<Rightarrow> ('v, 'm, 'c, 't) agent \<Rightarrow> ('v, 'm, 'c, 't) agent" where
  "close_failed env turn_id e tr a =
     (if ae_is_cancelled e
      then (let reason = (case ae_cancellation_reason e of None \<Rightarrow> lit ''cancelled'' | Some r \<Rightarrow> r)
            in (append_ignoring env (TurnCancelled turn_id reason) a)
                 \<lparr>ag_last_turn := Some (tk_snapshot (tracker_cancel reason tr))\<rparr>)
      else (append_ignoring env (TurnFailed turn_id (ae_code e) (ae_message e) (ae_retryable e)) a)
             \<lparr>ag_last_turn := Some (tk_snapshot (tracker_fail e tr))\<rparr>)"

definition begin_turn ::
  "('v, 'm, 'c, 't) agent_env \<Rightarrow> rstring \<Rightarrow> 'v chat_message \<Rightarrow> (('v, 'm, 'c, 't) agent, agent_error, rstring) act" where
  "begin_turn env operation user a =
     (if ag_state a \<noteq> AgentReady then (Inl (AeInvalidState operation (ag_state a)), a)
      else if cm_role user \<noteq> RoleUser
      then (Inl (ae_invalid_input (lit ''invalid_user_message'') (lit ''agent turns must start with a user message'')), a)
      else (case token_check (en_token env 0) of
        Inl e \<Rightarrow> (Inl (AeCancelled e), a)
      | Inr _ \<Rightarrow>
          (case checked_inc (ag_next_turn a) of
             None \<Rightarrow> (Inl (ae_protocol (lit ''turn_id_exhausted'') (lit ''turn id sequence exhausted'')), a)
           | Some n \<Rightarrow>
               (Inr (lit ''turn-'' @ show_nat (unat (ag_next_turn a))),
                a\<lparr>ag_next_turn := n, ag_state := AgentRunning, ag_turns_started := sat_inc (ag_turns_started a)\<rparr>))))"

definition run_turn ::
  "('v, 'm, 'c, 't) agent_env \<Rightarrow> 'v chat_message \<Rightarrow> (('v, 'm, 'c, 't) agent, agent_error, 'v turn_result) act" where
  "run_turn env user = act_bind (begin_turn env (lit ''start a turn'') user) (\<lambda>turn_id a.
     case run_turn_inner env turn_id user 1 True Legacy None
            \<lparr>rn_agent = a, rn_tracker = tracker_new turn_id, rn_looks = 1\<rparr> of
       (outcome, s) \<Rightarrow>
         (let a' = (rn_agent s)\<lparr>ag_state := AgentReady\<rparr> in
          case outcome of
            Inr (InnerCompleted response) \<Rightarrow>
              (let snap = into_snapshot (rn_tracker s)
               in (Inr \<lparr>tn_response = response, tn_snapshot = snap\<rparr>, a'\<lparr>ag_last_turn := Some snap\<rparr>))
          | Inr (InnerAwaiting p) \<Rightarrow>
              (Inl (ae_protocol (lit ''unexpected_approval_request'')
                 (lit ''legacy turn execution returned an approval request'')), a')
          | Inl e \<Rightarrow> (Inl e, close_failed env turn_id e (rn_tracker s) a')))"

definition finish_turn_outcome ::
  "('v, 'm, 'c, 't) agent_env \<Rightarrow> 'v chat_message \<Rightarrow> (agent_error, 'v inner_outcome) res \<times> ('v, 'm, 'c, 't) turn_run \<Rightarrow>
   (agent_error, 'v turn_outcome) res \<times> ('v, 'm, 'c, 't) agent" where
  "finish_turn_outcome env user = (\<lambda>(outcome, s).
     let a = rn_agent s; tr = rn_tracker s in
     case outcome of
       Inr (InnerCompleted response) \<Rightarrow>
         (let snap = into_snapshot tr
          in (Inr (TurnDone \<lparr>tn_response = response, tn_snapshot = snap\<rparr>),
              a\<lparr>ag_state := AgentReady, ag_last_turn := Some snap\<rparr>))
     | Inr (InnerAwaiting p) \<Rightarrow>
         (let tr' = tracker_sync (tr\<lparr>tk_state := TurnAwaitingApproval\<rparr>)
          in (Inr (TurnAwaiting (pt_request p)),
              a\<lparr>ag_state := AgentAwaitingApproval, ag_last_turn := Some (tk_snapshot tr'),
                ag_pending := Some \<lparr>pn_tracker = tr', pn_user_message = user, pn_request = pt_request p,
                                    pn_batch = pt_batch p, pn_next_call = pt_next_call p\<rparr>\<rparr>))
     | Inl e \<Rightarrow>
         (Inl e, close_failed env (ts_id (tk_snapshot tr)) e tr (a\<lparr>ag_state := AgentReady, ag_pending := None\<rparr>)))"

definition run_turn_with_approval ::
  "('v, 'm, 'c, 't) agent_env \<Rightarrow> 'v chat_message \<Rightarrow> (('v, 'm, 'c, 't) agent, agent_error, 'v turn_outcome) act" where
  "run_turn_with_approval env user =
     act_bind (begin_turn env (lit ''start an approval-aware turn'') user) (\<lambda>turn_id a.
       finish_turn_outcome env user
         (run_turn_inner env turn_id user 1 True ApprovalAware None
            \<lparr>rn_agent = a, rn_tracker = tracker_new turn_id, rn_looks = 1\<rparr>))"

definition run_text_turn ::
  "('v, 'm, 'c, 't) agent_env \<Rightarrow> rstring \<Rightarrow> (('v, 'm, 'c, 't) agent, agent_error, 'v turn_result) act" where
  "run_text_turn env content = run_turn env (message_user content)"

definition run_text_turn_with_approval ::
  "('v, 'm, 'c, 't) agent_env \<Rightarrow> rstring \<Rightarrow> (('v, 'm, 'c, 't) agent, agent_error, 'v turn_outcome) act" where
  "run_text_turn_with_approval env content = run_turn_with_approval env (message_user content)"

definition validate_pending_decision :: "approval_request \<Rightarrow> approval_decision \<Rightarrow> (agent_error, unit) res" where
  "validate_pending_decision q d =
     res_bind (map_err (\<lambda>e. ae_invalid_input (lit ''invalid_approval'') (show_tool_protocol_error e)) (validate_decision d)) (\<lambda>_.
     if ad_round d \<noteq> ar_round q \<or> ad_call_id d \<noteq> ar_call_id q \<or> ad_tool_name d \<noteq> ar_tool_name q
     then Inl (ae_invalid_input (lit ''approval_mismatch'') (lit ''approval does not match the pending tool call''))
     else if (case ad_state d of Approved ticket \<Rightarrow> blank ticket | Denied _ \<Rightarrow> False)
     then Inl (ae_invalid_input (lit ''invalid_approval'') (lit ''approved tool calls require a non-empty ticket''))
     else Inr ())"

definition approve_pending_tool ::
  "('v, 'm, 'c, 't) agent_env \<Rightarrow> approval_decision \<Rightarrow> (('v, 'm, 'c, 't) agent, agent_error, 'v turn_outcome) act" where
  "approve_pending_tool env d a =
     (let invalid = (Inl (AeInvalidState (lit ''approve a pending tool'') (ag_state a)), a) in
      case ag_pending a of
        None \<Rightarrow> invalid
      | Some p \<Rightarrow>
          if ag_state a \<noteq> AgentAwaitingApproval then invalid
          else (case validate_pending_decision (pn_request p) d of
            Inl e \<Rightarrow> (Inl e, a)
          | Inr _ \<Rightarrow>
              (case token_check (en_token env 0) of
                 Inl e \<Rightarrow> (Inl (AeCancelled e), a)
               | Inr _ \<Rightarrow>
                   finish_turn_outcome env (pn_user_message p)
                     (continue_pending_turn env (ts_id (tk_snapshot (pn_tracker p))) (pn_user_message p)
                        (pn_batch p) (pn_next_call p) d
                        \<lparr>rn_agent = a\<lparr>ag_pending := None, ag_state := AgentRunning\<rparr>,
                         rn_tracker = pn_tracker p, rn_looks = 1\<rparr>))))"

definition cancel_pending_turn ::
  "('v, 'm, 'c, 't) agent_env \<Rightarrow> rstring \<Rightarrow> (('v, 'm, 'c, 't) agent, agent_error, unit) act" where
  "cancel_pending_turn env reason a =
     (let invalid = (\<lambda>a. (Inl (AeInvalidState (lit ''cancel a pending tool'') (ag_state a)), a)) in
      if ag_state a \<noteq> AgentAwaitingApproval then invalid a
      else (case ag_pending a of
        None \<Rightarrow> invalid (a\<lparr>ag_pending := None\<rparr>)
      | Some p \<Rightarrow>
          (let tr = tracker_cancel reason (pn_tracker p) in
           case session_append (en_serde env) (TurnCancelled (ts_id (tk_snapshot (pn_tracker p))) reason) (ag_session a) of
             (Inl e, g) \<Rightarrow> (Inl (AeSession e), a\<lparr>ag_pending := None, ag_session := g\<rparr>)
           | (Inr _, g) \<Rightarrow>
               (Inr (), a\<lparr>ag_pending := None, ag_session := g, ag_last_turn := Some (tk_snapshot tr),
                          ag_state := AgentReady\<rparr>))))"

section \<open>The default context assembler\<close>

definition conversation_assemble ::
  "'v session_serde \<Rightarrow> rstring \<Rightarrow> 'v chat_message \<Rightarrow> 'v session_log \<Rightarrow> 'v tool_catalog \<Rightarrow> (component_error, 'v chat_request) res" where
  "conversation_assemble j turn_id user g catalog =
     (let ms = conversation j g;
          started = list_ex (\<lambda>r. event_turn (sr_event r) = turn_id) (sg_records g);
          ms = (if started then ms else ms @ [user]) in
      if ms = []
      then Inl (component_error_new (lit ''empty_context'') (lit ''context assembler produced no messages'') False)
      else Inr (if ct_tools catalog = [] then chat_request_new ms
                else chat_request_with_tools catalog (chat_request_new ms)))"

end
