(* ===== verification/Agent_Props.thy ===== *)
theory Agent_Props
  imports Agent_Loop Session_Claims
begin

text \<open>
  The library behind the agent's properties: triples for operations that may fail, the invariant of a
  running turn (what it may not touch, what it has recorded against what it has charged), and the
  invariant of an agent between operations.
\<close>

section \<open>Triples\<close>

text \<open>From a state in \<open>P\<close>, a result satisfies \<open>Q\<close> and an error leaves a state in
  \<open>E\<close>.\<close>

definition triple :: "('s \<Rightarrow> bool) \<Rightarrow> ('s, 'e, 'a) act \<Rightarrow> ('a \<Rightarrow> 's \<Rightarrow> bool) \<Rightarrow> ('s \<Rightarrow> bool) \<Rightarrow> bool" where
  "triple P m Q E \<longleftrightarrow>
     (\<forall>s. P s \<longrightarrow> (case m s of (Inr x, s') \<Rightarrow> Q x s' | (Inl e, s') \<Rightarrow> E s'))"

lemma tripleI:
  assumes "\<And>s e s'. P s \<Longrightarrow> m s = (Inl e, s') \<Longrightarrow> E s'" "\<And>s x s'. P s \<Longrightarrow> m s = (Inr x, s') \<Longrightarrow> Q x s'"
  shows "triple P m Q E"
  using assms by (auto simp: triple_def split: prod.splits sum.splits)

lemma triple_Inr: "triple P m Q E \<Longrightarrow> P s \<Longrightarrow> m s = (Inr x, s') \<Longrightarrow> Q x s'"
  by (fastforce simp: triple_def)

lemma triple_Inl: "triple P m Q E \<Longrightarrow> P s \<Longrightarrow> m s = (Inl e, s') \<Longrightarrow> E s'"
  by (fastforce simp: triple_def)

lemma triple_bind: "triple P m Q E \<Longrightarrow> (\<And>x. triple (Q x) (f x) R E) \<Longrightarrow> triple P (act_bind m f) R E"
  by (rule tripleI) (auto simp: act_bind_def split: prod.splits sum.splits dest: triple_Inr triple_Inl)

lemma triple_then: "triple P m (\<lambda>_. Q) E \<Longrightarrow> triple Q n R E \<Longrightarrow> triple P (act_then m n) R E"
  unfolding act_then_def by (rule triple_bind)

lemma triple_ret: "triple (Q x) (ret x) Q E"
  by (simp add: triple_def ret_def)

lemma triple_throw: "triple E (throw e) Q E"
  by (simp add: triple_def throw_def)

lemma triple_lift: "(\<And>s. P s \<Longrightarrow> E s) \<Longrightarrow> triple P (lift_res r) (\<lambda>_. P) E"
  by (auto simp: triple_def lift_res_def split: sum.splits)

lemma triple_pre: "triple P m Q E \<Longrightarrow> (\<And>s. P' s \<Longrightarrow> P s) \<Longrightarrow> triple P' m Q E"
  by (auto simp: triple_def)

lemma triple_post: "triple P m Q E \<Longrightarrow> (\<And>x s. Q x s \<Longrightarrow> Q' x s) \<Longrightarrow> triple P m Q' E"
  by (fastforce simp: triple_def split: prod.splits sum.splits)

lemma triple_err: "triple P m Q E \<Longrightarrow> (\<And>s. E s \<Longrightarrow> E' s) \<Longrightarrow> triple P m Q E'"
  by (fastforce simp: triple_def split: prod.splits sum.splits)

section \<open>Turn ids\<close>

definition turn_id_of :: "u64 \<Rightarrow> rstring" where
  "turn_id_of n = lit ''turn-'' @ show_nat (unat n)"

lemma turn_id_of_inject [simp]: "turn_id_of m = turn_id_of n \<longleftrightarrow> m = n"
  by (simp add: turn_id_of_def word_unat_eq_iff)

definition known_turn :: "u64 \<Rightarrow> rstring \<Rightarrow> bool" where
  "known_turn nxt t \<longleftrightarrow> (\<exists>k < nxt. t = turn_id_of k)"

lemma known_turn_mono: "known_turn n t \<Longrightarrow> n \<le> m \<Longrightarrow> known_turn m t"
  by (auto simp: known_turn_def intro: less_le_trans)

lemma known_turn_fresh: "\<not> known_turn n (turn_id_of n)"
  by (auto simp: known_turn_def)

section \<open>What a session says about a turn\<close>

definition count_events :: "rstring \<Rightarrow> session_event_kind \<Rightarrow> 'v session_log \<Rightarrow> nat" where
  "count_events t k g = length (filter (\<lambda>e. event_turn e = t \<and> event_kind e = k) (session_events g))"

definition model_requests :: "rstring \<Rightarrow> 'v session_log \<Rightarrow> nat" where
  "model_requests t g = count_events t KModelRequested g"

definition tool_results :: "rstring \<Rightarrow> 'v session_log \<Rightarrow> nat" where
  "tool_results t g = count_events t KToolResultRecorded g"

lemmas counts_def = model_requests_def tool_results_def count_events_def

definition within_budget :: "turn_budget \<Rightarrow> 'v session_log \<Rightarrow> bool" where
  "within_budget b g \<longleftrightarrow>
     (\<forall>t. model_requests t g \<le> unat (bg_max_model_calls b) \<and> tool_results t g \<le> unat (bg_max_tool_calls b))"

definition tracker_within :: "turn_budget \<Rightarrow> turn_tracker \<Rightarrow> bool" where
  "tracker_within b t \<longleftrightarrow> tk_model_calls t \<le> bg_max_model_calls b \<and> tk_tool_calls t \<le> bg_max_tool_calls b \<and>
     tk_round t \<le> bg_max_rounds b"

section \<open>The invariant of a running turn\<close>

text \<open>The parts of an agent a turn never writes.\<close>

definition agent_frame :: "('v, 'm, 'c, 't) agent \<Rightarrow> rstring \<times> agent_config \<times> agent_state \<times> u64 \<times> u64 \<times>
    turn_snapshot option \<times> 'v pending_turn option" where
  "agent_frame a = (ag_id a, ag_config a, ag_state a, ag_turns_started a, ag_next_turn a, ag_last_turn a, ag_pending a)"

text \<open>
  \<open>turn_inv j fr g0 t i k\<close>: the frame is \<open>fr\<close>; the session has grown from \<open>g0\<close> by
  events of turn \<open>t\<close> and keeps its invariant and the budget; and the turn's counters exceed what
  is recorded by at least \<open>i\<close> model calls and \<open>k\<close> tool calls already charged.
\<close>

definition turn_inv ::
  "'v session_serde \<Rightarrow> rstring \<times> agent_config \<times> agent_state \<times> u64 \<times> u64 \<times> turn_snapshot option \<times> 'v pending_turn option \<Rightarrow>
   'v session_log \<Rightarrow> rstring \<Rightarrow> nat \<Rightarrow> nat \<Rightarrow> ('v, 'm, 'c, 't) turn_run \<Rightarrow> bool" where
  "turn_inv j fr g0 t i k s \<longleftrightarrow>
     agent_frame (rn_agent s) = fr \<and> ts_id (tk_snapshot (rn_tracker s)) = t \<and>
     session_inv j (ag_session (rn_agent s)) \<and> within_budget (budget_of s) (ag_session (rn_agent s)) \<and>
     (\<exists>es. grows (session_append j) g0 es (ag_session (rn_agent s)) \<and> (\<forall>e \<in> set es. event_turn e = t)) \<and>
     tracker_within (budget_of s) (rn_tracker s) \<and>
     model_requests t (ag_session (rn_agent s)) + i \<le> unat (tk_model_calls (rn_tracker s)) \<and>
     tool_results t (ag_session (rn_agent s)) + k \<le> unat (tk_tool_calls (rn_tracker s))"

lemma turn_inv_weaken: "turn_inv j fr g0 t i k s \<Longrightarrow> i' \<le> i \<Longrightarrow> k' \<le> k \<Longrightarrow> turn_inv j fr g0 t i' k' s"
  by (simp add: turn_inv_def)

lemma turn_inv_frame: "turn_inv j fr g0 t i k s \<Longrightarrow> agent_frame (rn_agent s) = fr"
  by (simp add: turn_inv_def)

lemma triple_look: "triple (turn_inv j fr g0 t i k) (look env) (\<lambda>_. turn_inv j fr g0 t i k) E"
  by (auto simp: triple_def look_def turn_inv_def budget_of_def)

lemma triple_check: "triple (turn_inv j fr g0 t i k) (check_cancelled env) (\<lambda>_. turn_inv j fr g0 t i k) (turn_inv j fr g0 t 0 0)"
  unfolding check_cancelled_def
  by (rule triple_bind [OF triple_look triple_lift]) (auto intro: turn_inv_weaken)

lemma triple_state: "triple (turn_inv j fr g0 t i k) (on_tracker (\<lambda>tr. tr\<lparr>tk_state := st\<rparr>)) (\<lambda>_. turn_inv j fr g0 t i k) E"
  by (auto simp: triple_def on_tracker_def turn_inv_def budget_of_def tracker_within_def)

lemma triple_enter: "triple (turn_inv j fr g0 t i k) (enter_round r) (\<lambda>_. turn_inv j fr g0 t i k) (turn_inv j fr g0 t 0 0)"
  by (auto simp: triple_def enter_round_def on_tracker_def turn_inv_def budget_of_def tracker_within_def Let_def)

lemma triple_catalog: "triple (turn_inv j fr g0 t i k) (read_catalog env) (\<lambda>_. turn_inv j fr g0 t i k) (turn_inv j fr g0 t 0 0)"
  by (auto simp: triple_def read_catalog_def intro: turn_inv_weaken split: sum.splits)

lemma turn_inv_agent:
  assumes "turn_inv j fr g0 t i k s" and "agent_frame a = agent_frame (rn_agent s)" and "ag_session a = ag_session (rn_agent s)"
  shows "turn_inv j fr g0 t i k (s\<lparr>rn_agent := a\<rparr>)"
  using assms by (auto simp: turn_inv_def agent_frame_def budget_of_def)

lemma triple_assemble:
  "triple (turn_inv j fr g0 t i k) (assemble_context env tid u c) (\<lambda>_. turn_inv j fr g0 t i k) (turn_inv j fr g0 t 0 0)"
  by (rule tripleI)
     (auto simp: assemble_context_def on_agent_def agent_frame_def split: prod.splits
       intro!: turn_inv_agent intro: turn_inv_weaken)

lemma triple_model:
  "triple (turn_inv j fr g0 t i k) (call_model env q tok) (\<lambda>_. turn_inv j fr g0 t i k) (turn_inv j fr g0 t 0 0)"
  by (rule tripleI)
     (auto simp: call_model_def on_agent_def agent_frame_def split: prod.splits
       intro!: turn_inv_agent intro: turn_inv_weaken)

lemma triple_tool:
  "triple (turn_inv j fr g0 t i k) (run_tool env mode q d tok) (\<lambda>_. turn_inv j fr g0 t i k) E"
  by (rule tripleI)
     (auto simp: run_tool_def on_agent_def agent_frame_def Let_def split: prod.splits intro!: turn_inv_agent)

lemma triple_batch:
  "triple (turn_inv j fr g0 t i k) (checked_batch env r x) (\<lambda>_. turn_inv j fr g0 t i k) (turn_inv j fr g0 t 0 0)"
  by (rule tripleI) (auto simp: checked_batch_def Let_def intro: turn_inv_weaken)

lemma triple_charge_model:
  "triple (turn_inv j fr g0 t i k) charge_model_call (\<lambda>_. turn_inv j fr g0 t (Suc i) k) (turn_inv j fr g0 t 0 0)"
  using sat_inc_below
  by (auto simp: triple_def charge_model_call_def on_tracker_def turn_inv_def budget_of_def tracker_within_def Let_def not_le)

lemma triple_charge_tool:
  "triple (turn_inv j fr g0 t i k) charge_tool_call (\<lambda>_. turn_inv j fr g0 t i (Suc k)) (turn_inv j fr g0 t 0 0)"
  using sat_inc_below
  by (auto simp: triple_def charge_tool_call_def on_tracker_def turn_inv_def budget_of_def tracker_within_def Let_def not_le)

section \<open>Recording events\<close>

lemma count_events_snoc:
  "session_events g' = session_events g @ [e] \<Longrightarrow>
     count_events t k g' = count_events t k g + (if event_turn e = t \<and> event_kind e = k then 1 else 0)"
  by (simp add: count_events_def)

lemma triple_record:
  assumes "event_turn e = t"
    and "event_kind e = KModelRequested \<Longrightarrow> i = Suc i'" and "event_kind e \<noteq> KModelRequested \<Longrightarrow> i = i'"
    and "event_kind e = KToolResultRecorded \<Longrightarrow> k = Suc k'" and "event_kind e \<noteq> KToolResultRecorded \<Longrightarrow> k = k'"
    and "en_serde env = j"
  shows "triple (turn_inv j fr g0 t i k) (record_event env e) (\<lambda>_. turn_inv j fr g0 t i' k') (turn_inv j fr g0 t 0 0)"
proof (rule tripleI)
  fix s er s'
  assume inv: "turn_inv j fr g0 t i k s" and run: "record_event env e s = (Inl er, s')"
  obtain r g where app: "session_append j e (ag_session (rn_agent s)) = (r, g)"
    by (cases "session_append j e (ag_session (rn_agent s))")
  obtain x where "r = Inl x" using run app assms(6) by (cases r) (auto simp: record_event_def)
  then have "s' = s" using run app session_append_Inl [of j e "ag_session (rn_agent s)" x g] assms(6)
    by (auto simp: record_event_def on_agent_def)
  then show "turn_inv j fr g0 t 0 0 s'" using inv turn_inv_weaken by blast
next
  fix s u s'
  assume inv: "turn_inv j fr g0 t i k s" and run: "record_event env e s = (Inr u, s')"
  let ?g = "ag_session (rn_agent s)"
  obtain r g where app: "session_append j e ?g = (r, g)"
    by (cases "session_append j e ?g")
  obtain n where n: "r = Inr n" using run app assms(6) by (cases r) (auto simp: record_event_def)
  have s': "s' = on_agent (\<lambda>a. a\<lparr>ag_session := g\<rparr>) s"
    using run app n assms(6) by (auto simp: record_event_def)
  note app = app [unfolded n]
  have log: "session_events g = session_events ?g @ [e]" by (rule session.put_adds [OF app])
  have count: "model_requests u g = model_requests u ?g + (if event_turn e = u \<and> event_kind e = KModelRequested then 1 else 0)"
    "tool_results u g = tool_results u ?g + (if event_turn e = u \<and> event_kind e = KToolResultRecorded then 1 else 0)" for u
    unfolding model_requests_def tool_results_def by (rule count_events_snoc [OF log])+
  have charged: "model_requests t ?g + i \<le> unat (tk_model_calls (rn_tracker s))"
      "tool_results t ?g + k \<le> unat (tk_tool_calls (rn_tracker s))"
    and tr: "tracker_within (budget_of s) (rn_tracker s)" and wb: "within_budget (budget_of s) ?g"
    using inv by (auto simp: turn_inv_def)
  have bounds: "model_requests t g + i' \<le> unat (tk_model_calls (rn_tracker s))"
      "tool_results t g + k' \<le> unat (tk_tool_calls (rn_tracker s))"
    using charged assms(1-5) by (auto simp: count)
  have "within_budget (budget_of s) g"
    unfolding within_budget_def
  proof
    fix u
    show "model_requests u g \<le> unat (bg_max_model_calls (budget_of s)) \<and> tool_results u g \<le> unat (bg_max_tool_calls (budget_of s))"
    proof (cases "u = t")
      case True
      then show ?thesis using bounds tr by (auto simp: tracker_within_def word_le_nat_alt)
    next
      case False
      then show ?thesis using wb assms(1) by (auto simp: within_budget_def count)
    qed
  qed
  moreover obtain es where es: "grows (session_append j) g0 es ?g" "\<forall>e \<in> set es. event_turn e = t"
    using inv by (auto simp: turn_inv_def)
  have "grows (session_append j) g0 (es @ [e]) g" by (rule grows_step [OF es(1) app])
  then have "\<exists>es. grows (session_append j) g0 es g \<and> (\<forall>e \<in> set es. event_turn e = t)"
    using es(2) assms(1) by (intro exI [of _ "es @ [e]"]) auto
  moreover have "session_inv j g" using inv session.put_ok [OF _ app] by (auto simp: turn_inv_def)
  ultimately show "turn_inv j fr g0 t i' k' s'"
    using inv bounds unfolding s' by (auto simp: turn_inv_def on_agent_def agent_frame_def budget_of_def)
qed

lemma triple_record_plain:
  assumes "event_turn e = t" "event_kind e \<noteq> KModelRequested" "event_kind e \<noteq> KToolResultRecorded" "en_serde env = j"
  shows "triple (turn_inv j fr g0 t i k) (record_event env e) (\<lambda>_. turn_inv j fr g0 t i k) (turn_inv j fr g0 t 0 0)"
  by (rule triple_record) (auto simp: assms)

section \<open>The steps of a turn\<close>

lemma triple_record_result:
  assumes "en_serde env = j"
  shows "triple (turn_inv j fr g0 t 0 (Suc 0)) (record_result env t b c d out) (\<lambda>_. turn_inv j fr g0 t 0 0) (turn_inv j fr g0 t 0 0)"
  unfolding record_result_def
proof (rule triple_then)
  show "triple (turn_inv j fr g0 t 0 (Suc 0))
      (case d of None \<Rightarrow> ret () | Some d \<Rightarrow> record_event env (ToolApprovalResolved t d))
      (\<lambda>_. turn_inv j fr g0 t 0 (Suc 0)) (turn_inv j fr g0 t 0 0)"
  proof (cases d)
    case None
    show ?thesis unfolding None option.case by (rule triple_ret)
  next
    case (Some d')
    show ?thesis unfolding Some option.case by (rule triple_record_plain) (simp_all add: assms)
  qed
  show "triple (turn_inv j fr g0 t 0 (Suc 0)) (act_bind (lift_res r) (\<lambda>x. act_then (record_event env (ToolResultRecorded t x)) (ret None)))
      (\<lambda>_. turn_inv j fr g0 t 0 0) (turn_inv j fr g0 t 0 0)" for r
    by (rule triple_bind, rule triple_lift, erule turn_inv_weaken, simp, simp, rule triple_then,
        rule triple_record [where i' = 0 and k' = 0], simp_all add: assms, rule triple_ret)
qed

lemma triple_process_call:
  assumes "en_serde env = j"
  shows "triple (turn_inv j fr g0 t 0 0) (process_call env t b st d mode idx c) (\<lambda>_. turn_inv j fr g0 t 0 0) (turn_inv j fr g0 t 0 0)"
  unfolding process_call_def Let_def
proof (rule triple_then [OF triple_check triple_then [OF triple_charge_tool triple_bind [OF triple_look triple_bind [OF triple_tool]]]])
  fix x :: "(component_error, 'a tool_execution) res"
  show "triple (turn_inv j fr g0 t 0 (Suc 0))
      (case x of
         Inl e \<Rightarrow> act_bind (lift_res (map_err (\<lambda>pe. ae_protocol (lit ''invalid_tool_failure'') (show_tool_protocol_error pe))
             (outcome_failed (values_of (en_serde env)) (ce_code e) (ce_message e) (ce_retryable e))))
           (record_result env t b c (if idx = st then d else None))
       | Inr (Executed out) \<Rightarrow> record_result env t b c (if idx = st then d else None) out
       | Inr (AwaitingApproval a) \<Rightarrow>
           act_then (record_event env (ToolApprovalRequested t a))
             (ret (Some \<lparr>pt_request = a, pt_batch = b, pt_next_call = idx\<rparr>)))
      (\<lambda>_. turn_inv j fr g0 t 0 0) (turn_inv j fr g0 t 0 0)"
  proof (cases x)
    case (Inl e)
    show ?thesis unfolding Inl sum.case
      by (rule triple_bind [OF triple_lift triple_record_result [OF assms]]) (auto intro: turn_inv_weaken)
  next
    case (Inr ex)
    show ?thesis
    proof (cases ex)
      case (Executed out)
      show ?thesis unfolding Inr Executed sum.case tool_execution.case by (rule triple_record_result [OF assms])
    next
      case (AwaitingApproval a)
      show ?thesis unfolding Inr AwaitingApproval sum.case tool_execution.case
        by (rule triple_pre [OF triple_then [OF triple_record_plain triple_ret]])
           (auto simp: assms intro: turn_inv_weaken)
    qed
  qed
qed

lemma triple_process_calls:
  assumes "en_serde env = j"
  shows "triple (turn_inv j fr g0 t 0 0) (process_calls env t b st d mode calls) (\<lambda>_. turn_inv j fr g0 t 0 0) (turn_inv j fr g0 t 0 0)"
proof (induction calls)
  case Nil
  then show ?case by (simp add: triple_def)
next
  case (Cons ic calls)
  obtain idx c where ic: "ic = (idx, c)" by (cases ic)
  note step = triple_process_call [OF assms, of fr g0 t b st d mode idx c]
  let ?I = "turn_inv j fr g0 t 0 0"
  have "case process_calls env t b st d mode (ic # calls) s of (Inr x, s') \<Rightarrow> ?I s' | (Inl e, s') \<Rightarrow> ?I s'" if "?I s" for s
  proof -
    obtain r s1 where r: "process_call env t b st d mode idx c s = (r, s1)" by (cases "process_call env t b st d mode idx c s")
    have I1: "?I s1" using triple_Inl [OF step that] triple_Inr [OF step that] r by (cases r) auto
    show ?thesis
    proof (cases "r = Inr None")
      case True
      then show ?thesis using Cons.IH I1 r by (simp add: ic triple_def)
    next
      case False
      then show ?thesis using r I1 by (auto simp: ic split: sum.splits option.splits)
    qed
  qed
  then show ?case by (simp add: triple_def)
qed

lemma triple_process_tool_batch:
  "en_serde env = j \<Longrightarrow>
   triple (turn_inv j fr g0 t 0 0) (process_tool_batch env t b st d mode) (\<lambda>_. turn_inv j fr g0 t 0 0) (turn_inv j fr g0 t 0 0)"
  unfolding process_tool_batch_def by (rule triple_process_calls)

lemma triple_run_round:
  assumes "en_serde env = j"
  shows "triple (turn_inv j fr g0 t 0 0) (run_round env t u mode d r) (\<lambda>_. turn_inv j fr g0 t 0 0) (turn_inv j fr g0 t 0 0)"
proof -
  let ?I = "turn_inv j fr g0 t 0 0" and ?C = "turn_inv j fr g0 t (Suc 0) 0"
  note plain = triple_record_plain [where j = j and t = t and env = env, OF _ _ _ assms]
  have req: "triple ?C (record_event env (ModelRequested t r m n)) (\<lambda>_. ?I) ?I" for m n
    by (rule triple_record) (auto simp: assms)
  have tail: "triple ?I (case b of
       None \<Rightarrow>
         if blank (cr_content x)
         then throw (ae_protocol (lit ''empty_model_response'') (lit ''model returned neither text nor tool calls''))
         else act_then (record_event env (TurnCompleted t (cr_content x)))
               (act_then (on_tracker (\<lambda>t. t\<lparr>tk_state := TurnStateCompleted\<rparr>)) (ret (Some (InnerCompleted x))))
     | Some b \<Rightarrow>
         act_then (record_event env (ToolCallsRequested t b))
          (act_bind (process_tool_batch env t b 0 d mode) (\<lambda>pending. ret (map_option InnerAwaiting pending))))
     (\<lambda>_. ?I) ?I" for b x
  proof (cases b)
    case None
    show ?thesis
    proof (cases "blank (cr_content x)")
      case True
      then show ?thesis by (simp add: None triple_throw)
    next
      case False
      have "triple ?I (act_then (record_event env (TurnCompleted t (cr_content x)))
          (act_then (on_tracker (\<lambda>t. t\<lparr>tk_state := TurnStateCompleted\<rparr>)) (ret (Some (InnerCompleted x))))) (\<lambda>_. ?I) ?I"
        by (rule triple_then, rule plain, simp, simp, simp, rule triple_then, rule triple_state, rule triple_ret)
      then show ?thesis by (simp add: None False)
    qed
  next
    case (Some b')
    show ?thesis unfolding Some option.case
      by (rule triple_then, rule plain, simp, simp, simp, rule triple_bind, rule triple_process_tool_batch [OF assms], rule triple_ret)
  qed
  show ?thesis
    unfolding run_round_def
    apply (rule triple_then, rule triple_check)
    apply (rule triple_then, rule triple_enter)
    apply (rule triple_bind, rule triple_catalog)
    apply (rule triple_then, rule triple_state)
    apply (rule triple_bind, rule triple_assemble)
    apply (rule triple_then, rule plain, simp, simp, simp)
    apply (rule triple_then, rule triple_charge_model)
    apply (rule triple_then, rule req)
    apply (rule triple_bind, rule triple_look)
    apply (rule triple_bind, rule triple_model)
    apply (rule triple_bind, rule triple_batch)
    apply (rule triple_then, rule plain, simp, simp, simp)
    apply (rule tail)
    done
qed

lemma triple_run_rounds:
  assumes "en_serde env = j"
  shows "triple (turn_inv j fr g0 t 0 0) (run_rounds env t u mode d r) (\<lambda>_. turn_inv j fr g0 t 0 0) (turn_inv j fr g0 t 0 0)"
proof -
  let ?I = "turn_inv j fr g0 t 0 0"
  have "turn_inv (en_serde env) fr g0 t 0 0 s \<Longrightarrow>
      turn_inv (en_serde env) fr g0 t 0 0 (snd (run_rounds env t u mode d r s))" for s
  proof (induction env t u mode d r s rule: run_rounds.induct)
    case (1 env t u mode d r s)
    note step = triple_run_round [OF refl, of env fr g0 t u mode d r]
    obtain x s1 where x: "run_round env t u mode d r s = (x, s1)" by (cases "run_round env t u mode d r s")
    have I1: "turn_inv (en_serde env) fr g0 t 0 0 s1"
      using triple_Inl [OF step "1.prems"] triple_Inr [OF step "1.prems"] x by (cases x) auto
    show ?case
    proof (cases "x = Inr None \<and> checked_inc r \<noteq> None")
      case True
      then obtain r' where r': "checked_inc r = Some r'" by auto
      have "turn_inv (en_serde env) fr g0 t 0 0 (snd (run_rounds env t u mode d r' s1))"
        by (rule "1.IH" [OF x [symmetric]]) (use True I1 r' in auto)
      then show ?thesis using x True r' by (subst run_rounds.simps) simp
    next
      case False
      then show ?thesis using x I1 by (subst run_rounds.simps) (auto split: sum.splits option.splits)
    qed
  qed
  then show ?thesis
    unfolding triple_def assms [symmetric] by (auto split: prod.splits sum.splits) (metis snd_conv)+
qed

lemma triple_run_turn_inner:
  assumes "en_serde env = j"
  shows "triple (turn_inv j fr g0 t 0 0) (run_turn_inner env t u r b mode d) (\<lambda>_. turn_inv j fr g0 t 0 0) (turn_inv j fr g0 t 0 0)"
  unfolding run_turn_inner_def
  by (rule triple_then [OF _ triple_run_rounds [OF assms]])
     (cases b; auto intro!: triple_record_plain triple_ret simp: assms)

lemma triple_continue:
  assumes "en_serde env = j"
  shows "triple (turn_inv j fr g0 t 0 0) (continue_pending_turn env t u b n d) (\<lambda>_. turn_inv j fr g0 t 0 0) (turn_inv j fr g0 t 0 0)"
  unfolding continue_pending_turn_def
proof (rule triple_bind [OF triple_process_tool_batch [OF assms]])
  fix p :: "'a pending_tool option"
  show "triple (turn_inv j fr g0 t 0 0)
     (case p of
        None \<Rightarrow> (\<lambda>s. case checked_inc (cb_round b) of
            None \<Rightarrow> (Inl (rounds_overflow (budget_of s)), s)
          | Some r \<Rightarrow> run_turn_inner env t u r False ApprovalAware None s)
      | Some p \<Rightarrow> ret (InnerAwaiting p))
     (\<lambda>_. turn_inv j fr g0 t 0 0) (turn_inv j fr g0 t 0 0)"
    using triple_run_turn_inner [OF assms, of fr g0 t u _ False ApprovalAware None]
    by (auto simp: triple_def ret_def split: option.split)
qed

end
