(* ===== verification/Agent_Claims.thy ===== *)
theory Agent_Claims
  imports Agent_Props
begin

text \<open>
  The agent between operations: its invariant, the operations that keep it, and the properties that
  follow: budgets per turn, the state machine of turns and approvals, and two flaws of the approval
  path.
\<close>

section \<open>The invariant of an agent\<close>

definition session_good :: "'v session_serde \<Rightarrow> turn_budget \<Rightarrow> u64 \<Rightarrow> 'v session_log \<Rightarrow> bool" where
  "session_good j b n g \<longleftrightarrow> session_inv j g \<and> (\<forall>e \<in> set (session_events g). known_turn n (event_turn e)) \<and> within_budget b g"

definition pending_good :: "turn_budget \<Rightarrow> u64 \<Rightarrow> 'v session_log \<Rightarrow> 'v pending_turn \<Rightarrow> bool" where
  "pending_good b n g p \<longleftrightarrow>
     (let t = ts_id (tk_snapshot (pn_tracker p)) in
      known_turn n t \<and> tracker_within b (pn_tracker p) \<and>
      model_requests t g \<le> unat (tk_model_calls (pn_tracker p)) \<and>
      tool_results t g \<le> unat (tk_tool_calls (pn_tracker p)))"

definition agent_inv :: "'v session_serde \<Rightarrow> ('v, 'm, 'c, 't) agent \<Rightarrow> bool" where
  "agent_inv j a \<longleftrightarrow>
     session_good j (cfg_budget (ag_config a)) (ag_next_turn a) (ag_session a) \<and> ag_state a \<noteq> AgentRunning \<and>
     (\<forall>p. ag_pending a = Some p \<longrightarrow> ag_state a = AgentAwaitingApproval \<and>
        pending_good (cfg_budget (ag_config a)) (ag_next_turn a) (ag_session a) p)"

lemma turn_good:
  assumes "turn_inv j fr g0 t 0 0 s" and "session_good j b n g0" and "known_turn n t"
    and "b = budget_of s"
  shows "session_good j b n (ag_session (rn_agent s))"
proof -
  obtain es where es: "grows (session_append j) g0 es (ag_session (rn_agent s))" "\<forall>e \<in> set es. event_turn e = t"
    using assms(1) by (auto simp: turn_inv_def)
  then show ?thesis
    using session.grows_log [OF es(1)] assms by (auto simp: session_good_def turn_inv_def)
qed

lemma count_other:
  assumes "session_append j e g = (r, g')" and "event_kind e \<noteq> k"
  shows "count_events t k g' = count_events t k g"
proof (cases r)
  case (Inl x)
  then show ?thesis using assms session_append_Inl by metis
next
  case (Inr n)
  then have "session_events g' = session_events g @ [e]" using assms(1) session.put_adds by blast
  then show ?thesis using assms(2) by (simp add: count_events_snoc)
qed

lemma append_good:
  assumes "session_good j b n g" and "known_turn n (event_turn e)"
    and "event_kind e \<noteq> KModelRequested" "event_kind e \<noteq> KToolResultRecorded"
  shows "session_good j b n (snd (session_append j e g))"
proof -
  obtain r g' where app: "session_append j e g = (r, g')" by (cases "session_append j e g")
  have "session_inv j g'" using assms(1) session.put_ok [OF _ app] by (simp add: session_good_def)
  moreover have "within_budget b g'"
    using assms(1) count_other [OF app assms(3)] count_other [OF app assms(4)]
    by (simp add: session_good_def within_budget_def model_requests_def tool_results_def)
  moreover have "\<forall>e \<in> set (session_events g'). known_turn n (event_turn e)"
    using session.grows_log [OF session.put_grows [OF app]] assms(1,2) by (auto simp: session_good_def)
  ultimately show ?thesis by (simp add: app session_good_def)
qed

lemma close_failed_frame:
  "ag_config (close_failed env t e tr a) = ag_config a" "ag_next_turn (close_failed env t e tr a) = ag_next_turn a"
  "ag_state (close_failed env t e tr a) = ag_state a" "ag_pending (close_failed env t e tr a) = ag_pending a"
  by (simp_all add: close_failed_def append_ignoring_def Let_def)

lemma close_failed_good:
  assumes "session_good (en_serde env) b n (ag_session a)" and "known_turn n t"
  shows "session_good (en_serde env) b n (ag_session (close_failed env t e tr a))"
  using assms by (simp add: close_failed_def append_ignoring_def Let_def append_good)

lemma finish_inv:
  assumes inv: "turn_inv j (agent_frame a) g0 t 0 0 s" and good: "session_good j (cfg_budget (ag_config a)) (ag_next_turn a) g0"
    and known: "known_turn (ag_next_turn a) t" and idle: "ag_pending a = None" and j: "en_serde env = j"
    and fin: "finish_turn_outcome env user (outcome, s) = (r, a')"
  shows "agent_inv j a'"
proof -
  have fr: "ag_config (rn_agent s) = ag_config a" "ag_next_turn (rn_agent s) = ag_next_turn a" "ag_pending (rn_agent s) = None"
    using turn_inv_frame [OF inv] idle by (auto simp: agent_frame_def)
  have b: "budget_of s = cfg_budget (ag_config a)" using fr by (simp add: budget_of_def)
  have good': "session_good j (cfg_budget (ag_config a)) (ag_next_turn a) (ag_session (rn_agent s))"
    using turn_good [OF inv good known] b by simp
  have tid: "ts_id (tk_snapshot (rn_tracker s)) = t" using inv by (simp add: turn_inv_def)
  show ?thesis
  proof (cases outcome)
    case (Inl e)
    have "session_good (en_serde env) (cfg_budget (ag_config a)) (ag_next_turn a)
        (ag_session (close_failed env t e (rn_tracker s) ((rn_agent s)\<lparr>ag_state := AgentReady, ag_pending := None\<rparr>)))"
      by (rule close_failed_good [OF _ known]) (simp add: j good')
    then show ?thesis
      using fin Inl fr tid by (auto simp: finish_turn_outcome_def Let_def agent_inv_def close_failed_frame j)
  next
    case (Inr out)
    show ?thesis
    proof (cases out)
      case (InnerCompleted x)
      then show ?thesis
        using fin Inr fr good' by (auto simp: finish_turn_outcome_def Let_def agent_inv_def)
    next
      case (InnerAwaiting p)
      then show ?thesis
        using fin Inr fr good' inv known b tid
        by (auto simp: finish_turn_outcome_def Let_def agent_inv_def pending_good_def tracker_sync_def
            turn_inv_def tracker_within_def)
    qed
  qed
qed

lemma begin_turn_run:
  assumes inv: "agent_inv j a" and b: "begin_turn env op user a = (Inr t, a1)"
  shows "t = turn_id_of (ag_next_turn a) \<and> ag_config a1 = ag_config a \<and> ag_pending a1 = None \<and> ag_session a1 = ag_session a \<and>
    session_good j (cfg_budget (ag_config a1)) (ag_next_turn a1) (ag_session a) \<and> known_turn (ag_next_turn a1) t \<and>
    turn_inv j (agent_frame a1) (ag_session a) t 0 0 \<lparr>rn_agent = a1, rn_tracker = tracker_new t, rn_looks = 1\<rparr>"
proof -
  let ?n = "ag_next_turn a"
  have n: "?n \<noteq> - 1" "t = turn_id_of ?n" "a1 = a\<lparr>ag_next_turn := ?n + 1, ag_state := AgentRunning,
      ag_turns_started := sat_inc (ag_turns_started a)\<rparr>" "ag_state a = AgentReady"
    using b by (auto simp: begin_turn_def checked_inc_Some turn_id_of_def split: if_splits sum.splits option.splits)
  have idle: "ag_pending a = None" using inv n(4) by (cases "ag_pending a") (auto simp: agent_inv_def)
  have lt: "?n < ?n + 1" using n(1) by simp
  have fresh: "event_turn e \<noteq> t" if "e \<in> set (session_events (ag_session a))" for e
    using inv that known_turn_fresh n(2) by (auto simp: agent_inv_def session_good_def)
  have zero: "model_requests t (ag_session a) = 0" "tool_results t (ag_session a) = 0"
    using fresh by (auto simp: counts_def filter_empty_conv)
  have "session_good j (cfg_budget (ag_config a1)) (ag_next_turn a1) (ag_session a)"
    using inv lt unfolding n(3) by (auto simp: agent_inv_def session_good_def intro: known_turn_mono)
  moreover have "known_turn (ag_next_turn a1) t" using lt n by (auto simp: known_turn_def)
  ultimately show ?thesis
    using n idle zero
    by (auto simp: turn_inv_def agent_inv_def session_good_def budget_of_def tracker_new_def tracker_within_def
        intro: grows_refl)
qed

section \<open>Every operation keeps it\<close>

lemma begin_turn_Inl: "begin_turn env op user a = (Inl e, a') \<Longrightarrow> a' = a"
  by (auto simp: begin_turn_def split: if_splits sum.splits option.splits)

lemma triple_snd: "triple P m (\<lambda>_. Q) Q \<Longrightarrow> P s \<Longrightarrow> m s = (r, s') \<Longrightarrow> Q s'"
  by (cases r) (auto dest: triple_Inr triple_Inl)

lemma run_turn_inv:
  assumes inv: "agent_inv j a" and j: "en_serde env = j" and run: "run_turn env user a = (r, a')"
  shows "agent_inv j a'"
proof (cases "begin_turn env (lit ''start a turn'') user a")
  case (Pair t a1)
  show ?thesis
  proof (cases t)
    case (Inl e)
    then have "a1 = a" using Pair begin_turn_Inl by blast
    then show ?thesis using run Pair Inl inv by (auto simp: run_turn_def act_bind_def)
  next
    case (Inr t')
    note begun = begin_turn_run [OF inv Pair [unfolded Inr]]
    let ?s0 = "\<lparr>rn_agent = a1, rn_tracker = tracker_new t', rn_looks = 1\<rparr>"
    obtain out s where s: "run_turn_inner env t' user 1 True Legacy None ?s0 = (out, s)"
      by (cases "run_turn_inner env t' user 1 True Legacy None ?s0")
    have I: "turn_inv j (agent_frame a1) (ag_session a) t' 0 0 s"
      using triple_snd [OF triple_run_turn_inner [OF j] _ s] begun by blast
    have fr: "ag_config (rn_agent s) = ag_config a1" "ag_next_turn (rn_agent s) = ag_next_turn a1" "ag_pending (rn_agent s) = None"
      using turn_inv_frame [OF I] begun by (auto simp: agent_frame_def)
    have good: "session_good j (cfg_budget (ag_config a1)) (ag_next_turn a1) (ag_session (rn_agent s))"
      by (rule turn_good [OF I]) (use begun fr in \<open>auto simp: budget_of_def\<close>)
    have failed: "session_good (en_serde env) (cfg_budget (ag_config a1)) (ag_next_turn a1)
        (ag_session (close_failed env t' e (rn_tracker s) ((rn_agent s)\<lparr>ag_state := AgentReady\<rparr>)))" for e
      by (rule close_failed_good) (use begun good j in auto)
    then show ?thesis
      using run Pair Inr s fr good
      by (auto simp: run_turn_def act_bind_def agent_inv_def Let_def close_failed_frame j
          split: sum.splits inner_outcome.splits)
  qed
qed

lemma run_turn_with_approval_inv:
  assumes inv: "agent_inv j a" and j: "en_serde env = j" and run: "run_turn_with_approval env user a = (r, a')"
  shows "agent_inv j a'"
proof (cases "begin_turn env (lit ''start an approval-aware turn'') user a")
  case (Pair t a1)
  show ?thesis
  proof (cases t)
    case (Inl e)
    then have "a1 = a" using Pair begin_turn_Inl by blast
    then show ?thesis using run Pair Inl inv by (auto simp: run_turn_with_approval_def act_bind_def)
  next
    case (Inr t')
    note begun = begin_turn_run [OF inv Pair [unfolded Inr]]
    let ?s0 = "\<lparr>rn_agent = a1, rn_tracker = tracker_new t', rn_looks = 1\<rparr>"
    obtain out s where s: "run_turn_inner env t' user 1 True ApprovalAware None ?s0 = (out, s)"
      by (cases "run_turn_inner env t' user 1 True ApprovalAware None ?s0")
    have I: "turn_inv j (agent_frame a1) (ag_session a) t' 0 0 s"
      using triple_snd [OF triple_run_turn_inner [OF j] _ s] begun by blast
    show ?thesis
      by (rule finish_inv [OF I, where outcome = out and env = env and user = user and r = r])
         (use begun j run Pair Inr s in \<open>auto simp: run_turn_with_approval_def act_bind_def\<close>)
  qed
qed

lemma approve_pending_tool_inv:
  assumes inv: "agent_inv j a" and j: "en_serde env = j" and run: "approve_pending_tool env d a = (r, a')"
  shows "agent_inv j a'"
proof (cases "a' = a")
  case True
  then show ?thesis using inv by simp
next
  case False
  then obtain p where p: "ag_pending a = Some p"
    using run by (cases "ag_pending a") (auto simp: approve_pending_tool_def)
  let ?t = "ts_id (tk_snapshot (pn_tracker p))" and ?a1 = "a\<lparr>ag_pending := None, ag_state := AgentRunning\<rparr>"
  let ?s0 = "\<lparr>rn_agent = ?a1, rn_tracker = pn_tracker p, rn_looks = 1\<rparr>"
  obtain out s where s: "continue_pending_turn env ?t (pn_user_message p) (pn_batch p) (pn_next_call p) d ?s0 = (out, s)"
    by (cases "continue_pending_turn env ?t (pn_user_message p) (pn_batch p) (pn_next_call p) d ?s0")
  have fin: "finish_turn_outcome env (pn_user_message p) (out, s) = (r, a')"
    using run False p s by (auto simp: approve_pending_tool_def Let_def split: if_splits sum.splits)
  have good: "session_good j (cfg_budget (ag_config a)) (ag_next_turn a) (ag_session a)"
    and pg: "pending_good (cfg_budget (ag_config a)) (ag_next_turn a) (ag_session a) p"
    using inv p by (auto simp: agent_inv_def)
  have "turn_inv j (agent_frame ?a1) (ag_session a) ?t 0 0 ?s0"
    using good pg by (auto simp: turn_inv_def session_good_def pending_good_def Let_def budget_of_def intro: grows_refl)
  then have I: "turn_inv j (agent_frame ?a1) (ag_session a) ?t 0 0 s"
    by (rule triple_snd [OF triple_continue [OF j] _ s])
  show ?thesis
    by (rule finish_inv [OF I _ _ _ j fin]) (use good pg in \<open>auto simp: pending_good_def Let_def\<close>)
qed

lemma cancel_pending_turn_inv:
  assumes inv: "agent_inv j a" and j: "en_serde env = j" and run: "cancel_pending_turn env reason a = (r, a')"
  shows "agent_inv j a'"
proof (cases "ag_pending a")
  case None
  then show ?thesis using inv run by (auto simp: cancel_pending_turn_def agent_inv_def Let_def split: if_splits)
next
  case (Some p)
  let ?e = "TurnCancelled (ts_id (tk_snapshot (pn_tracker p))) reason"
  have await: "ag_state a = AgentAwaitingApproval" using inv Some by (simp add: agent_inv_def)
  obtain x g where app: "session_append j ?e (ag_session a) = (x, g)" by (cases "session_append j ?e (ag_session a)")
  have "session_good j (cfg_budget (ag_config a)) (ag_next_turn a) (snd (session_append j ?e (ag_session a)))"
    by (rule append_good) (use inv Some in \<open>auto simp: agent_inv_def pending_good_def Let_def\<close>)
  then show ?thesis
    using run Some await app j
    by (auto simp: cancel_pending_turn_def Let_def agent_inv_def split: sum.splits)
qed

lemma reset_conversation_inv:
  assumes inv: "agent_inv j a" and j: "en_serde env = j" and run: "reset_conversation env ms a = (r, a')"
  shows "agent_inv j a'"
proof -
  obtain x g where reset: "reset_with_messages j ms (ag_session a) = (x, g)"
    by (cases "reset_with_messages j ms (ag_session a)")
  have "session_good j (cfg_budget (ag_config a)) (ag_next_turn a) g"
    using inv session_reset_inv [OF _ reset] reset
    by (auto simp: agent_inv_def session_good_def within_budget_def counts_def reset_with_messages_def
        session_events_def split: sum.splits)
  then show ?thesis
    using run inv reset j
    by (auto simp: reset_conversation_def agent_inv_def split: if_splits prod.splits sum.splits)
qed

section \<open>The agent as a component\<close>

text \<open>
  Between operations the owner may replace the model, the assembler and the broker through the
  \<open>_mut\<close> accessors. What they compute, and the tokens, may differ from one operation to the
  next; what serde answers is fixed.
\<close>

inductive agent_step :: "'v session_serde \<Rightarrow> ('v, 'm, 'c, 't) agent \<Rightarrow> ('v, 'm, 'c, 't) agent \<Rightarrow> bool"
  for j :: "'v session_serde" where
  step_turn: "en_serde env = j \<Longrightarrow> run_turn env user a = (r, a') \<Longrightarrow> agent_step j a a'"
| step_turn_approval: "en_serde env = j \<Longrightarrow> run_turn_with_approval env user a = (r', a') \<Longrightarrow> agent_step j a a'"
| step_approve: "en_serde env = j \<Longrightarrow> approve_pending_tool env d a = (r', a') \<Longrightarrow> agent_step j a a'"
| step_cancel: "en_serde env = j \<Longrightarrow> cancel_pending_turn env reason a = (u, a') \<Longrightarrow> agent_step j a a'"
| step_reset: "en_serde env = j \<Longrightarrow> reset_conversation env ms a = (u, a') \<Longrightarrow> agent_step j a a'"
| step_replace: "agent_step j a (a\<lparr>ag_model := m, ag_context := c, ag_tools := t\<rparr>)"

definition agent_start :: "('v, 'm, 'c, 't) agent \<Rightarrow> bool" where
  "agent_start a \<longleftrightarrow> (\<exists>i m c t cfg. agent_new i m c t cfg = Inr a)"

lemma agent_start_inv: "agent_start a \<Longrightarrow> agent_inv j a"
proof -
  assume "agent_start a"
  then obtain g where g: "session_with_limits (cfg_limits (ag_config a)) = Inr g" "ag_session a = g"
    and rest: "ag_state a = AgentReady" "ag_pending a = None"
    by (auto simp: agent_start_def agent_new_def)
  have "session_inv j g" using g(1) by (intro session_log.start_inv) blast
  moreover have "session_events g = []"
    using g(1) by (auto simp: session_with_limits_def session_events_def)
  ultimately show "agent_inv j a"
    using g rest by (simp add: agent_inv_def session_good_def within_budget_def counts_def)
qed

interpretation agent: component "agent_start :: ('v, 'm, 'c, 't) agent \<Rightarrow> bool" "agent_step j" "agent_inv j"
  for j :: "'v session_serde"
proof unfold_locales
  show "agent_inv j a" if "agent_start a" for a :: "('v, 'm, 'c, 't) agent"
    using that by (rule agent_start_inv)
  show "agent_inv j a'" if "agent_inv j a" "agent_step j a a'" for a a' :: "('v, 'm, 'c, 't) agent"
    using that(2)
  proof cases
    case (step_replace m c t)
    then show ?thesis using that(1) by (simp add: agent_inv_def)
  qed (erule run_turn_inv [OF that(1)] run_turn_with_approval_inv [OF that(1)] approve_pending_tool_inv [OF that(1)]
      cancel_pending_turn_inv [OF that(1)] reset_conversation_inv [OF that(1)], assumption)+
qed

end
