(* ===== verification/Approval_Gate.thy ===== *)
theory Approval_Gate
  imports Agent_Claims
begin

text \<open>
  What stands between the model and the tools' side effects. \<open>approval_gate\<close> is the contract of
  a broker that runs nothing without an approval: neither its direct \<open>execute\<close> nor its
  approval-aware path without a decision, nor with a denial, changes the guarded state; with an approval
  it runs at most the call the approval names, once. Inside it, the agent's turn loop is shown to keep
  that contract; the policy wrapper \<open>ApprovalAwareToolBroker\<close> provides it for any broker.
\<close>

section \<open>The contract\<close>

lemma close_failed_tools [simp]: "ag_tools (close_failed env t e tr a) = ag_tools a"
  by (simp add: close_failed_def append_ignoring_def Let_def)

lemma finish_tools: "ag_tools (snd (finish_turn_outcome env u (out, s))) = ag_tools (rn_agent s)"
  by (auto simp: finish_turn_outcome_def Let_def split: sum.splits inner_outcome.splits)

lemma begin_turn_tools: "begin_turn env op u a = (r, a') \<Longrightarrow> ag_tools a' = ag_tools a"
  by (auto simp: begin_turn_def split: if_splits sum.splits option.splits)

definition approval_names :: "approval_decision \<Rightarrow> 'v tool_request \<Rightarrow> bool" where
  "approval_names d q \<longleftrightarrow> ad_round d = rq_round q \<and> ad_call_id d = tc_id (rq_call q) \<and> ad_tool_name d = tc_name (rq_call q)"

locale approval_gate =
  fixes broker :: "('v, 't) tool_broker"
    and guarded :: "'t \<Rightarrow> 'x"
    and effect :: "'v tool_request \<Rightarrow> approval_decision \<Rightarrow> cancellation_token \<Rightarrow> 'x \<Rightarrow> 'x"
  assumes execute_blocked: "tb_execute broker q tok s = (r, s') \<Longrightarrow> guarded s' = guarded s"
    and unapproved_blocked: "tb_execute_with_approval broker q None tok s = (r', s') \<Longrightarrow> guarded s' = guarded s"
    and denied_blocked: "ad_state d = Denied reason \<Longrightarrow>
          tb_execute_with_approval broker q (Some d) tok s = (r', s') \<Longrightarrow> guarded s' = guarded s"
    and approved_once: "tb_execute_with_approval broker q (Some d) tok s = (r', s') \<Longrightarrow>
          guarded s' = guarded s \<or> approval_names d q \<and> guarded s' = effect q d tok (guarded s)"
begin

definition guard :: "'x set \<Rightarrow> ('v, 'm, 'c, 't) turn_run \<Rightarrow> bool" where
  "guard x s \<longleftrightarrow> guarded (ag_tools (rn_agent s)) \<in> x"

lemma guard_look: "triple (guard x) (look env) (\<lambda>_. guard x) E"
  by (auto simp: triple_def look_def guard_def)

lemma guard_check: "triple (guard x) (check_cancelled env) (\<lambda>_. guard x) (guard x)"
  unfolding check_cancelled_def by (rule triple_bind, rule guard_look, rule triple_lift)

lemma guard_tracker: "triple (guard x) (on_tracker f) (\<lambda>_. guard x) E"
  by (auto simp: triple_def on_tracker_def guard_def)

lemma guard_enter: "triple (guard x) (enter_round r) (\<lambda>_. guard x) (guard x)"
  by (auto simp: triple_def enter_round_def on_tracker_def guard_def Let_def)

lemma guard_charge: "triple (guard x) charge_tool_call (\<lambda>_. guard x) (guard x)"
  "triple (guard x) charge_model_call (\<lambda>_. guard x) (guard x)"
  by (auto simp: triple_def charge_tool_call_def charge_model_call_def on_tracker_def guard_def Let_def)

lemma guard_catalog: "triple (guard x) (read_catalog env) (\<lambda>_. guard x) (guard x)"
  by (rule tripleI) (auto simp: read_catalog_def)

lemma guard_assemble: "triple (guard x) (assemble_context env t u c) (\<lambda>_. guard x) (guard x)"
  by (rule tripleI) (auto simp: assemble_context_def on_agent_def guard_def split: prod.splits)

lemma guard_model: "triple (guard x) (call_model env q tok) (\<lambda>_. guard x) (guard x)"
  by (rule tripleI) (auto simp: call_model_def on_agent_def guard_def split: prod.splits)

lemma guard_batch: "triple (guard x) (checked_batch env r y) (\<lambda>_. guard x) (guard x)"
  by (rule tripleI) (auto simp: checked_batch_def Let_def)

lemma guard_record: "triple (guard x) (record_event env e) (\<lambda>_. guard x) (guard x)"
  by (rule tripleI) (auto simp: record_event_def on_agent_def guard_def split: prod.splits)

lemma guard_result: "triple (guard x) (record_result env t b c d out) (\<lambda>_. guard x) (guard x)"
proof -
  have "triple (guard x) (case d of None \<Rightarrow> ret () | Some d \<Rightarrow> record_event env (ToolApprovalResolved t d)) (\<lambda>_. guard x) (guard x)"
    by (cases d) (simp_all add: guard_record, rule triple_ret)
  then show ?thesis
    unfolding record_result_def
    by (rule triple_then, intro triple_bind triple_then)
       (rule triple_lift, assumption, rule guard_record, rule triple_ret)
qed

text \<open>After the tool has run, the rest of the call leaves the guarded state alone.\<close>

lemma guard_execution:
  "triple (guard x)
     (case execution of
        Inr (AwaitingApproval a) \<Rightarrow>
          act_then (record_event env (ToolApprovalRequested t a))
            (ret (Some \<lparr>pt_request = a, pt_batch = batch, pt_next_call = index\<rparr>))
      | Inr (Executed out) \<Rightarrow> record_result env t batch call given out
      | Inl e \<Rightarrow> act_bind (lift_res (f e)) (record_result env t batch call given))
     (\<lambda>_. guard x) (guard x)"
proof (cases execution)
  case (Inl e)
  show ?thesis unfolding Inl sum.case by (rule triple_bind, rule triple_lift, assumption, rule guard_result)
next
  case (Inr ex)
  show ?thesis
  proof (cases ex)
    case (Executed out)
    show ?thesis unfolding Inr Executed sum.case tool_execution.case by (rule guard_result)
  next
    case (AwaitingApproval a)
    show ?thesis unfolding Inr AwaitingApproval sum.case tool_execution.case
      by (rule triple_then, rule guard_record, rule triple_ret)
  qed
qed

lemma process_call_guard:
  assumes tool: "\<And>q tok. triple (guard x) (run_tool env mode q (if index = st then d else None) tok) (\<lambda>_. guard y) (guard y)"
    and weaker: "\<And>s. guard x s \<Longrightarrow> E s" "\<And>s. guard y s \<Longrightarrow> E s"
  shows "triple (guard x) (process_call env t b st d mode index c) (\<lambda>_. guard y) E"
proof -
  have runs: "triple (guard x) (run_tool env mode q (if index = st then d else None) tok) (\<lambda>_. guard y) E" for q tok
    by (rule triple_err [OF tool weaker(2)])
  note tail = triple_err [OF guard_execution weaker(2)]
  note check = triple_err [OF guard_check weaker(1)] and charge = triple_err [OF guard_charge(1) weaker(1)]
  show ?thesis
    unfolding process_call_def Let_def
    apply (rule triple_then, rule check, assumption)
    apply (rule triple_then, rule charge, assumption)
    apply (rule triple_bind, rule guard_look)
    apply (rule triple_bind, rule runs)
    apply (rule tail, assumption)
    done
qed

lemma guard_tool_quiet:
  assumes "en_broker env = broker" and "d = None \<or> mode = ApprovalAware \<and> (\<exists>d' reason. d = Some d' \<and> ad_state d' = Denied reason)"
  shows "triple (guard x) (run_tool env mode q d tok) (\<lambda>_. guard x) (guard x)"
proof (rule tripleI)
  fix s r s'
  assume "guard x s" "run_tool env mode q d tok s = (Inr r, s')"
  then show "guard x s'"
    using assms execute_blocked unapproved_blocked denied_blocked
    by (fastforce simp: run_tool_def guard_def on_agent_def act_bind_def ret_def Let_def
        split: execution_mode.splits prod.splits sum.splits)
next
  fix s e s'
  assume "run_tool env mode q d tok s = (Inl e, s')"
  then show "guard x s'" by (auto simp: run_tool_def Let_def split: prod.splits)
qed

definition one_call :: "'v tool_request \<Rightarrow> approval_decision \<Rightarrow> 'x \<Rightarrow> 'x set" where
  "one_call q d x = insert x {effect q d tok x | tok. approval_names d q}"

lemma guard_tool_approved:
  assumes "en_broker env = broker"
  shows "triple (guard {x}) (run_tool env ApprovalAware q (Some d) tok) (\<lambda>_. guard (one_call q d x)) E"
proof (rule tripleI)
  fix s r s'
  assume g: "guard {x} s" and run: "run_tool env ApprovalAware q (Some d) tok s = (Inr r, s')"
  obtain r' ts where call: "tb_execute_with_approval broker q (Some d) tok (ag_tools (rn_agent s)) = (r', ts)"
    by (cases "tb_execute_with_approval broker q (Some d) tok (ag_tools (rn_agent s))")
  have "guarded ts \<in> one_call q d x"
    using approved_once [OF call] g by (auto simp: one_call_def guard_def)
  then show "guard (one_call q d x) s'"
    using run call assms by (auto simp: run_tool_def guard_def on_agent_def Let_def)
next
  fix s e s'
  assume "run_tool env ApprovalAware q (Some d) tok s = (Inl e, s')"
  then show "E s'" by (auto simp: run_tool_def Let_def split: prod.splits)
qed

section \<open>The loop keeps the contract\<close>

lemma process_calls_cons:
  assumes "triple P (process_call env t b st d mode i c) (\<lambda>_. Q) E" and "\<And>s. Q s \<Longrightarrow> R None s"
    and "triple Q (process_calls env t b st d mode calls) (\<lambda>_. Q) E" and "\<And>r s. Q s \<Longrightarrow> R r s"
  shows "triple P (process_calls env t b st d mode ((i, c) # calls)) R E"
proof (rule tripleI)
  fix s e s' assume P: "P s" and run: "process_calls env t b st d mode ((i, c) # calls) s = (Inl e, s')"
  obtain r s1 where r: "process_call env t b st d mode i c s = (r, s1)" by (cases "process_call env t b st d mode i c s")
  show "E s'"
    using run r triple_Inl [OF assms(1) P] triple_Inr [OF assms(1) P] triple_Inl [OF assms(3)]
    by (auto split: sum.splits option.splits)
next
  fix s x s' assume P: "P s" and run: "process_calls env t b st d mode ((i, c) # calls) s = (Inr x, s')"
  obtain r s1 where r: "process_call env t b st d mode i c s = (r, s1)" by (cases "process_call env t b st d mode i c s")
  have "Q s'"
    using run r triple_Inr [OF assms(1) P] triple_Inr [OF assms(3)]
    by (auto split: sum.splits option.splits)
  then show "R x s'" by (rule assms(4))
qed

lemma guard_calls_quiet:
  assumes "en_broker env = broker"
    and "d = None \<or> st \<notin> fst ` set calls \<or> mode = ApprovalAware \<and> (\<exists>d' reason. d = Some d' \<and> ad_state d' = Denied reason)"
  shows "triple (guard x) (process_calls env t b st d mode calls) (\<lambda>_. guard x) (guard x)"
  using assms(2)
proof (induction calls)
  case Nil
  then show ?case by (simp add: triple_def)
next
  case (Cons ic calls)
  obtain i c where ic: "ic = (i, c)" by (cases ic)
  have rest: "d = None \<or> st \<notin> fst ` set calls \<or> mode = ApprovalAware \<and> (\<exists>d' reason. d = Some d' \<and> ad_state d' = Denied reason)"
    using Cons.prems by auto
  have given: "(if i = st then d else None) = None \<or>
      mode = ApprovalAware \<and> (\<exists>d' reason. (if i = st then d else None) = Some d' \<and> ad_state d' = Denied reason)"
    using Cons.prems by (auto simp: ic)
  have step: "triple (guard x) (process_call env t b st d mode i c) (\<lambda>_. guard x) (guard x)"
    by (rule process_call_guard [OF guard_tool_quiet [OF assms(1) given]]) auto
  show ?case unfolding ic by (rule process_calls_cons [OF step _ Cons.IH [OF rest]])
qed

lemma drop_enumerate:
  "drop n (enumerate 0 xs) = (if n < length xs then (n, xs ! n) # drop (Suc n) (enumerate 0 xs) else [])"
  by (simp add: Cons_nth_drop_Suc nth_enumerate_eq flip: Cons_nth_drop_Suc)

lemma later_indices: "n \<notin> fst ` set (drop (Suc n) (enumerate 0 xs))"
proof
  assume "n \<in> fst ` set (drop (Suc n) (enumerate 0 xs))"
  then obtain m where "m < length (drop (Suc n) (enumerate 0 xs))" "fst (drop (Suc n) (enumerate 0 xs) ! m) = n"
    by (auto simp: in_set_conv_nth image_iff)
  then show False by (simp add: nth_enumerate_eq)
qed

lemma guard_batch_quiet:
  assumes "en_broker env = broker" and "d = None \<or> mode = ApprovalAware \<and> (\<exists>d' reason. d = Some d' \<and> ad_state d' = Denied reason)"
  shows "triple (guard x) (process_tool_batch env t b st d mode) (\<lambda>_. guard x) (guard x)"
  unfolding process_tool_batch_def by (rule guard_calls_quiet [OF assms(1)]) (use assms(2) in blast)

lemma guard_batch_approved:
  assumes "en_broker env = broker"
    and "q = \<lparr>rq_turn_id = t, rq_round = cb_round b, rq_call = cb_calls b ! st\<rparr>"
  shows "triple (guard {x}) (process_tool_batch env t b st (Some d) ApprovalAware)
    (\<lambda>_. guard (one_call q d x)) (guard (one_call q d x))"
proof (cases "st < length (cb_calls b)")
  case False
  then have "drop st (enumerate 0 (cb_calls b)) = []" by simp
  then show ?thesis by (auto simp: process_tool_batch_def triple_def guard_def one_call_def)
next
  case True
  then have calls: "drop st (enumerate 0 (cb_calls b)) = (st, cb_calls b ! st) # drop (Suc st) (enumerate 0 (cb_calls b))"
    by (simp add: drop_enumerate)
  have tool: "triple (guard {x}) (run_tool env ApprovalAware q' (if st = st then Some d else None) tok)
      (\<lambda>_. guard (one_call q' d x)) (guard (one_call q' d x))" for q' tok
    by (simp add: guard_tool_approved [OF assms(1)])
  have step: "triple (guard {x}) (process_call env t b st (Some d) ApprovalAware st (cb_calls b ! st))
      (\<lambda>_. guard (one_call q d x)) (guard (one_call q d x))"
    unfolding process_call_def Let_def assms(2) [symmetric] if_P [OF refl]
    apply (rule triple_then, rule triple_err, rule guard_check, simp add: guard_def one_call_def)
    apply (rule triple_then, rule triple_err, rule guard_charge, simp add: guard_def one_call_def)
    apply (rule triple_bind, rule guard_look)
    apply (rule triple_bind, rule guard_tool_approved [OF assms(1)])
    apply (rule guard_execution)
    done
  show ?thesis
    unfolding process_tool_batch_def calls
    by (rule process_calls_cons [OF step _ guard_calls_quiet [OF assms(1)]]) (use later_indices in auto)
qed

lemma guard_round:
  assumes "en_broker env = broker"
  shows "triple (guard x) (run_round env t u mode None r) (\<lambda>_. guard x) (guard x)"
proof -
  have tail: "triple (guard x) (case b of
       None \<Rightarrow>
         if blank (cr_content y)
         then throw (ae_protocol (lit ''empty_model_response'') (lit ''model returned neither text nor tool calls''))
         else act_then (record_event env (TurnCompleted t (cr_content y)))
               (act_then (on_tracker (\<lambda>t. t\<lparr>tk_state := TurnStateCompleted\<rparr>)) (ret (Some (InnerCompleted y))))
     | Some b \<Rightarrow>
         act_then (record_event env (ToolCallsRequested t b))
          (act_bind (process_tool_batch env t b 0 None mode) (\<lambda>pending. ret (map_option InnerAwaiting pending))))
     (\<lambda>_. guard x) (guard x)" for b y
  proof (cases b)
    case None
    have "triple (guard x) (act_then (record_event env (TurnCompleted t (cr_content y)))
          (act_then (on_tracker (\<lambda>t. t\<lparr>tk_state := TurnStateCompleted\<rparr>)) (ret (Some (InnerCompleted y))))) (\<lambda>_. guard x) (guard x)"
      by (rule triple_then, rule guard_record, rule triple_then, rule guard_tracker, rule triple_ret)
    then show ?thesis by (simp add: None triple_throw)
  next
    case (Some b')
    have quiet: "triple (guard x) (process_tool_batch env t b' 0 None mode) (\<lambda>_. guard x) (guard x)"
      by (rule guard_batch_quiet [OF assms]) simp
    show ?thesis unfolding Some option.case
      by (rule triple_then, rule guard_record, rule triple_bind, rule quiet, rule triple_ret)
  qed
  show ?thesis
    unfolding run_round_def
    by (intro triple_then [OF guard_check] triple_then [OF guard_enter] triple_bind [OF guard_catalog]
        triple_then [OF guard_tracker] triple_bind [OF guard_assemble] triple_then [OF guard_record]
        triple_then [OF guard_charge(2)] triple_bind [OF guard_look] triple_bind [OF guard_model]
        triple_bind [OF guard_batch] tail)
qed

lemma guard_rounds:
  assumes "en_broker env = broker"
  shows "triple (guard x) (run_rounds env t u mode None r) (\<lambda>_. guard x) (guard x)"
proof -
  have "guard x (snd (run_rounds env t u mode d r s))" if "guard x s" "d = None" "en_broker env = broker" for env t u mode d r s
    using that
  proof (induction env t u mode d r s rule: run_rounds.induct)
    case (1 env t u mode d r s)
    obtain y s1 where y: "run_round env t u mode d r s = (y, s1)" by (cases "run_round env t u mode d r s")
    have g1: "guard x s1" using triple_snd [OF guard_round [OF "1.prems"(3)] "1.prems"(1)] y "1.prems"(2) by blast
    show ?case
    proof (cases "y = Inr None \<and> checked_inc r \<noteq> None")
      case True
      then obtain r' where r': "checked_inc r = Some r'" by auto
      have "guard x (snd (run_rounds env t u mode d r' s1))"
        by (rule "1.IH" [OF y [symmetric]]) (use True r' g1 "1.prems" in auto)
      then show ?thesis using y True r' by (subst run_rounds.simps) simp
    next
      case False
      then show ?thesis using y g1 by (subst run_rounds.simps) (auto split: sum.splits option.splits)
    qed
  qed
  from this [OF _ refl assms] show ?thesis
    unfolding triple_def by (auto split: prod.splits sum.splits) (metis snd_conv)+
qed

lemma guard_inner:
  assumes "en_broker env = broker"
  shows "triple (guard x) (run_turn_inner env t u r b mode None) (\<lambda>_. guard x) (guard x)"
proof -
  have "triple (guard x) (if b then record_event env (TurnStarted t u) else ret ()) (\<lambda>_. guard x) (guard x)"
    by (cases b) (simp_all add: guard_record, rule triple_ret)
  then show ?thesis unfolding run_turn_inner_def by (rule triple_then) (rule guard_rounds [OF assms])
qed

lemma guard_continue:
  assumes "en_broker env = broker"
    and "triple (guard x) (process_tool_batch env t b n (Some d) ApprovalAware) (\<lambda>_. guard y) (guard y)"
  shows "triple (guard x) (continue_pending_turn env t u b n d) (\<lambda>_. guard y) (guard y)"
  unfolding continue_pending_turn_def
proof (rule triple_bind [OF assms(2)])
  show "triple (guard y)
     (case p of
        None \<Rightarrow> (\<lambda>s. case checked_inc (cb_round b) of
            None \<Rightarrow> (Inl (rounds_overflow (budget_of s)), s)
          | Some r \<Rightarrow> run_turn_inner env t u r False ApprovalAware None s)
      | Some p \<Rightarrow> ret (InnerAwaiting p))
     (\<lambda>_. guard y) (guard y)" for p
    using guard_inner [OF assms(1), of y t u _ False ApprovalAware]
    by (auto simp: triple_def ret_def split: option.split)
qed

lemma run_turn_guarded:
  assumes "en_broker env = broker" and "run_turn env user a = (r, a')"
  shows "guarded (ag_tools a') = guarded (ag_tools a)"
proof (cases "begin_turn env (lit ''start a turn'') user a")
  case (Pair t a1)
  show ?thesis
  proof (cases t)
    case (Inl e)
    then show ?thesis using assms(2) begin_turn_tools [OF Pair] Pair by (simp add: run_turn_def act_bind_def)
  next
    case (Inr t')
    let ?s0 = "\<lparr>rn_agent = a1, rn_tracker = tracker_new t', rn_looks = 1\<rparr>"
    obtain out s where s: "run_turn_inner env t' user 1 True Legacy None ?s0 = (out, s)"
      by (cases "run_turn_inner env t' user 1 True Legacy None ?s0")
    have "guard {guarded (ag_tools a)} s"
      by (rule triple_snd [OF guard_inner [OF assms(1)] _ s]) (simp add: guard_def begin_turn_tools [OF Pair])
    then show ?thesis
      using assms(2) Pair Inr s
      by (auto simp: run_turn_def act_bind_def Let_def guard_def split: sum.splits inner_outcome.splits)
  qed
qed

lemma run_turn_with_approval_guarded:
  assumes "en_broker env = broker" and "run_turn_with_approval env user a = (r, a')"
  shows "guarded (ag_tools a') = guarded (ag_tools a)"
proof (cases "begin_turn env (lit ''start an approval-aware turn'') user a")
  case (Pair t a1)
  show ?thesis
  proof (cases t)
    case (Inl e)
    then show ?thesis using assms(2) begin_turn_tools [OF Pair] Pair by (simp add: run_turn_with_approval_def act_bind_def)
  next
    case (Inr t')
    let ?s0 = "\<lparr>rn_agent = a1, rn_tracker = tracker_new t', rn_looks = 1\<rparr>"
    obtain out s where s: "run_turn_inner env t' user 1 True ApprovalAware None ?s0 = (out, s)"
      by (cases "run_turn_inner env t' user 1 True ApprovalAware None ?s0")
    have "guard {guarded (ag_tools a)} s"
      by (rule triple_snd [OF guard_inner [OF assms(1)] _ s]) (simp add: guard_def begin_turn_tools [OF Pair])
    then show ?thesis
      using assms(2) Pair Inr s finish_tools [of env user out s]
      by (simp add: run_turn_with_approval_def act_bind_def guard_def)
  qed
qed

lemma approve_guarded:
  assumes "en_broker env = broker" and "approve_pending_tool env d a = (r, a')"
  shows "guarded (ag_tools a') = guarded (ag_tools a) \<or>
    (\<exists>p tok. ag_pending a = Some p \<and> (\<exists>ticket. ad_state d = Approved ticket) \<and>
       (let q = \<lparr>rq_turn_id = ts_id (tk_snapshot (pn_tracker p)), rq_round = cb_round (pn_batch p),
                 rq_call = cb_calls (pn_batch p) ! pn_next_call p\<rparr>
        in approval_names d q \<and> guarded (ag_tools a') = effect q d tok (guarded (ag_tools a))))"
proof (cases "a' = a")
  case True
  then show ?thesis by simp
next
  case False
  then obtain p where p: "ag_pending a = Some p"
    using assms(2) by (cases "ag_pending a") (auto simp: approve_pending_tool_def)
  let ?t = "ts_id (tk_snapshot (pn_tracker p))" and ?a1 = "a\<lparr>ag_pending := None, ag_state := AgentRunning\<rparr>"
  let ?s0 = "\<lparr>rn_agent = ?a1, rn_tracker = pn_tracker p, rn_looks = 1\<rparr>"
  let ?q = "\<lparr>rq_turn_id = ?t, rq_round = cb_round (pn_batch p), rq_call = cb_calls (pn_batch p) ! pn_next_call p\<rparr>"
  let ?x = "guarded (ag_tools a)"
  obtain out s where s: "continue_pending_turn env ?t (pn_user_message p) (pn_batch p) (pn_next_call p) d ?s0 = (out, s)"
    by (cases "continue_pending_turn env ?t (pn_user_message p) (pn_batch p) (pn_next_call p) d ?s0")
  have tools: "ag_tools a' = ag_tools (rn_agent s)"
    using assms(2) False p s finish_tools [of env "pn_user_message p" out s]
    by (auto simp: approve_pending_tool_def Let_def split: if_splits sum.splits)
  have start: "guard {?x} ?s0" by (simp add: guard_def)
  show ?thesis
  proof (cases "ad_state d")
    case (Denied reason)
    have quiet: "triple (guard {?x}) (process_tool_batch env ?t (pn_batch p) (pn_next_call p) (Some d) ApprovalAware)
        (\<lambda>_. guard {?x}) (guard {?x})"
      by (rule guard_batch_quiet [OF assms(1)]) (use Denied in simp)
    have "guard {?x} s" by (rule triple_snd [OF guard_continue [OF assms(1) quiet] start s])
    then show ?thesis by (simp add: guard_def tools)
  next
    case (Approved ticket)
    have "guard (one_call ?q d ?x) s"
      by (rule triple_snd [OF guard_continue [OF assms(1) guard_batch_approved [OF assms(1) refl]] start s])
    then show ?thesis using p Approved by (auto simp: guard_def tools one_call_def Let_def)
  qed
qed

end

section \<open>The wrapper provides it\<close>

lemma require_approval_cases:
  "require_approval q p = (r, p') \<Longrightarrow> p' = p \<and> r \<noteq> Inr DecideExecute"
  by (auto simp: require_approval_def lift_res_def)

lemma rejected_execution_state: "rejected_execution j code m s = (r, s') \<Longrightarrow> s' = s"
  by (auto simp: rejected_execution_def lift_res_def)

lemma approval_aware_unapproved:
  assumes "tb_execute_with_approval (approval_aware_new j b) q None tok s = (r, s')"
  shows "fst s' = fst s"
proof -
  obtain dec p where dec: "require_approval q (snd s) = (dec, p)" by (cases "require_approval q (snd s)")
  then have "dec \<noteq> Inr DecideExecute" by (auto dest: require_approval_cases)
  then show ?thesis
    using assms dec
    by (cases s; cases dec)
       (auto simp: approval_aware_new_def approval_aware_def default_execute_with_approval_def on_second_def
         act_bind_def act_then_def lift_res_def ret_def dest!: rejected_execution_state
         split: tool_decision.splits sum.splits)
qed

lemma approval_aware_approved:
  assumes "tb_execute_with_approval (approval_aware_new j b) q (Some d) tok s = (r, s')"
  shows "fst s' = fst s \<or>
    (\<exists>ticket. ad_state d = Approved ticket) \<and> approval_names d q \<and> fst s' = snd (tb_execute_approved b q d tok (fst s))"
proof (cases "broker_validate_approval q d")
  case (Inl e)
  then show ?thesis
    using assms by (auto simp: approval_aware_new_def approval_aware_def default_execute_with_approval_def
        act_bind_def act_then_def lift_res_def)
next
  case (Inr u)
  have names: "approval_names d q"
    using Inr by (auto simp: broker_validate_approval_def approval_names_def split: if_splits)
  show ?thesis
  proof (cases "ad_state d")
    case (Approved ticket)
    then show ?thesis
      using assms Inr names
      by (cases s; cases "tb_execute_approved b q d tok (fst s)")
         (auto simp: approval_aware_new_def approval_aware_def default_execute_with_approval_def on_first_def
           act_bind_def act_then_def lift_res_def ret_def split: sum.splits)
  next
    case (Denied reason)
    then show ?thesis
      using assms Inr
      by (auto simp: approval_aware_new_def approval_aware_def default_execute_with_approval_def
          act_bind_def act_then_def lift_res_def dest!: rejected_execution_state)
  qed
qed

interpretation wrapper: approval_gate "approval_aware_new j b" fst "\<lambda>q d tok x. snd (tb_execute_approved b q d tok x)"
  for j :: "'v serde" and b :: "('v, 't) tool_broker"
proof unfold_locales
  show "fst s' = fst s" if "tb_execute (approval_aware_new j b) q tok s = (r, s')" for q tok s r s'
    using that by (auto simp: approval_aware_new_def approval_aware_def wrapped_execute_def throw_def)
  show "fst s' = fst s" if "tb_execute_with_approval (approval_aware_new j b) q None tok s = (r, s')" for q tok s r s'
    using that by (rule approval_aware_unapproved)
  show "fst s' = fst s" if "ad_state d = Denied reason" "tb_execute_with_approval (approval_aware_new j b) q (Some d) tok s = (r, s')"
    for d reason q tok s r s'
    using approval_aware_approved [OF that(2)] that(1) by auto
  show "fst s' = fst s \<or> approval_names d q \<and> fst s' = snd (tb_execute_approved b q d tok (fst s))"
    if "tb_execute_with_approval (approval_aware_new j b) q (Some d) tok s = (r, s')" for d q tok s r s'
    using approval_aware_approved [OF that] by auto
qed

end
