(* ===== verification/Agent_Demo.thy ===== *)
theory Agent_Demo
  imports Approval_Gate Tool_Protocol_Claims
begin

text \<open>
  A concrete agent for the witnesses: a model that answers from a script (a tool call, then text), a
  broker that counts the calls it executes behind the approval wrapper, the default context assembler,
  the turn it runs up to its approval request, and its resumption up to the response.
\<close>

definition demo_complete :: "unit model_request \<Rightarrow> cancellation_token \<Rightarrow> (unit chat_result list, component_error, unit chat_result) act" where
  "demo_complete q t script =
     (case script of [] \<Rightarrow> (Inl (component_error_new [] [] False), []) | x # xs \<Rightarrow> (Inr x, xs))"

definition demo_broker :: "(unit, nat) tool_broker" where
  "demo_broker = plain_broker (values_of demo_serde) (\<lambda>_. Inr \<lparr>ct_version = 1, ct_tools = []\<rparr>)
     (\<lambda>q t n. (Inr (OutCompleted ()), Suc n))"

definition demo_env :: "(unit, unit chat_result list, unit, nat \<times> unit) agent_env" where
  "demo_env = \<lparr>en_complete = demo_complete,
     en_assemble = (\<lambda>i u g c x. (conversation_assemble demo_serde i u g c, x)),
     en_broker = approval_aware_new (values_of demo_serde) demo_broker, en_serde = demo_serde,
     en_token = (\<lambda>_. token_new)\<rparr>"

definition demo_call :: "unit tool_call" where
  "demo_call = \<lparr>tc_id = ToolCallId (lit ''c''), tc_name = ToolName (lit ''t''), tc_arguments = ()\<rparr>"

definition demo_script :: "unit chat_result list" where
  "demo_script = [\<lparr>cr_content = [], cr_finish_reason = None, cr_tool_calls = [demo_call]\<rparr>,
                  \<lparr>cr_content = lit ''ok'', cr_finish_reason = None, cr_tool_calls = []\<rparr>]"

definition demo_config :: "u32 \<Rightarrow> agent_config" where
  "demo_config n = \<lparr>cfg_budget = \<lparr>bg_max_rounds = 8, bg_max_calls = 8, bg_max_tool_calls = n, bg_max_model_calls = 9\<rparr>,
     cfg_limits = demo_limits\<rparr>"

definition demo_agent :: "u32 \<Rightarrow> (unit, unit chat_result list, unit, nat \<times> unit) agent" where
  "demo_agent n = \<lparr>ag_id = lit ''a'', ag_model = demo_script, ag_context = (), ag_tools = (0, ()),
     ag_config = demo_config n, ag_session = demo_session, ag_state = AgentReady, ag_turns_started = 0,
     ag_next_turn = 1, ag_last_turn = None, ag_pending = None\<rparr>"

lemma demo_agent_new: "n \<noteq> 0 \<Longrightarrow> agent_new (lit ''a'') demo_script () (0, ()) (demo_config n) = Inr (demo_agent n)"
  by (simp add: agent_new_def validate_identifier_def validate_budget_def demo_config_def budget_policy_def policy_new_def
      validate_policy_def MAX_TOOL_ROUNDS_def MAX_TOOL_CALLS_PER_ROUND_def demo_session_new demo_agent_def blank_def trim_def lit_def is_whitespace_def
      utf8_width_def) (simp add: demo_limits_def validate_limits_def)

lemma demo_token [simp]: "token_check (en_token demo_env n) = Inr ()"
  by (simp add: demo_env_def token_new_def token_check_def token_reason_def)

lemma demo_append:
  "validate_event demo_serde e = Inr () \<Longrightarrow> sg_limits g = demo_limits \<Longrightarrow> length (sg_records g) < 20 \<Longrightarrow>
   sg_bytes g < 900 \<Longrightarrow> sg_next g \<noteq> - 1 \<Longrightarrow>
   session_append demo_serde e g = (Inr (sg_next g), g\<lparr>sg_next := sg_next g + 1,
     sg_records := sg_records g @ [\<lparr>sr_sequence = sg_next g, sr_event = e\<rparr>], sg_bytes := sg_bytes g + 10\<rparr>)"
  by (simp add: session_append_Inr demo_limits_def demo_serde_def event_size_def)

definition demo_turn :: rstring where "demo_turn = turn_id_of 1"

lemma demo_turn_fold: "lit ''turn-'' @ show_nat (Suc 0) = demo_turn"
  by (simp add: demo_turn_def turn_id_of_def)

lemma demo_turn_text: "session_text f demo_turn MAX_SESSION_TURN_ID_BYTES = Inr ()"
  by (simp add: session_text_def demo_turn_def turn_id_of_def lit_def show_nat.simps [of "Suc 0"] blank_def trim_def
      is_whitespace_def utf8_width_def MAX_SESSION_TURN_ID_BYTES_def)

definition demo_user :: "unit chat_message" where "demo_user = message_user (lit ''hi'')"

definition demo_batch :: "unit call_batch" where
  "demo_batch = \<lparr>cb_version = 1, cb_round = 1, cb_calls = [demo_call]\<rparr>"

definition demo_request :: approval_request where
  "demo_request = \<lparr>ar_version = 1, ar_round = 1, ar_call_id = ToolCallId (lit ''c''), ar_tool_name = ToolName (lit ''t''),
     ar_summary = lit ''Execute tool t'', ar_grants = [Approval]\<rparr>"

definition demo_decision :: approval_decision where
  "demo_decision = \<lparr>ad_version = 1, ad_round = 1, ad_call_id = ToolCallId (lit ''c''), ad_tool_name = ToolName (lit ''t''),
     ad_state = Approved (lit ''k'')\<rparr>"

lemmas demo_text = lit_def blank_def trim_def is_whitespace_def utf8_width_def

lemma demo_batch_valid: "validate_batch (values_of demo_serde) demo_batch = Inr ()"
  by (simp add: validate_batch_def demo_batch_def validate_calls_def validate_each_call_ok validate_call_ok demo_call_def
      demo_serde_def serde.truncate_def)

lemma demo_batch_new: "batch_new (values_of demo_serde) 1 [demo_call] = Inr demo_batch"
  using demo_batch_valid by (simp add: batch_new_def Let_def demo_batch_def TOOL_PROTOCOL_VERSION_def)

lemma demo_batch_policy: "validate_with_policy (values_of demo_serde) (policy_new 8 8) demo_batch = Inr ()"
  by (simp add: validate_with_policy_def demo_batch_valid validate_policy_def policy_new_def MAX_TOOL_ROUNDS_def
      MAX_TOOL_CALLS_PER_ROUND_def) (simp add: demo_batch_def)

lemma demo_event_valid:
  "event_turn e = demo_turn \<Longrightarrow> validate_event_body demo_serde e = Inr () \<Longrightarrow> validate_event demo_serde e = Inr ()"
  by (simp add: validate_event_def demo_turn_text)

lemma demo_valid_start: "validate_event_body demo_serde (TurnStarted demo_turn demo_user) = Inr ()"
  by (simp add: session_text_def demo_user_def message_user_def message_new_def demo_text MAX_SESSION_TEXT_BYTES_def)

lemma demo_valid_response:
  "validate_event_body demo_serde (ModelResponded demo_turn 1 \<lparr>cr_content = [], cr_finish_reason = None, cr_tool_calls = [demo_call]\<rparr>) = Inr ()"
  by (simp add: session_round_def demo_batch_new as_invalid_event_def)

lemma demo_request_valid: "validate_approval_request demo_request = Inr ()"
  by (simp add: validate_approval_request_def demo_request_def validate_text_def demo_text MAX_TOOL_TEXT_BYTES_def
      validate_grants_def MAX_APPROVAL_GRANTS_def first_dup_def)

lemma demo_asks:
  "require_approval \<lparr>rq_turn_id = i, rq_round = 1, rq_call = demo_call\<rparr> p = (Inr (DecideRequestApproval demo_request), p)"
proof -
  have "lit ''Execute tool '' @ lit ''t'' = lit ''Execute tool t''" by (simp add: lit_def)
  then show ?thesis
    using demo_request_valid
    by (simp add: require_approval_def lift_res_def approval_request_new_def Let_def demo_call_def demo_request_def
        TOOL_PROTOCOL_VERSION_def)
qed

lemma demo_request_matches: "broker_validate_request \<lparr>rq_turn_id = i, rq_round = 1, rq_call = demo_call\<rparr> demo_request = Inr ()"
  by (simp add: broker_validate_request_def demo_request_valid) (simp add: demo_request_def demo_call_def)

lemma demo_tool:
  "tb_execute_with_approval (en_broker demo_env) \<lparr>rq_turn_id = i, rq_round = 1, rq_call = demo_call\<rparr> None tok s
     = (Inr (AwaitingApproval demo_request), s)"
  by (cases s)
     (simp add: demo_env_def approval_aware_new_def approval_aware_def default_execute_with_approval_def on_second_def
       act_bind_def act_then_def lift_res_def ret_def demo_asks demo_request_matches)

lemma demo_record:
  "validate_event_body demo_serde e = Inr () \<Longrightarrow> event_turn e = demo_turn \<Longrightarrow>
   sg_limits (ag_session (rn_agent s)) = demo_limits \<Longrightarrow> length (sg_records (ag_session (rn_agent s))) < 20 \<Longrightarrow>
   sg_bytes (ag_session (rn_agent s)) < 900 \<Longrightarrow> sg_next (ag_session (rn_agent s)) \<noteq> - 1 \<Longrightarrow>
   record_event demo_env e s = (Inr (), s\<lparr>rn_agent := (rn_agent s)\<lparr>ag_session :=
     (ag_session (rn_agent s))\<lparr>sg_next := sg_next (ag_session (rn_agent s)) + 1,
       sg_records := sg_records (ag_session (rn_agent s)) @ [\<lparr>sr_sequence = sg_next (ag_session (rn_agent s)), sr_event = e\<rparr>],
       sg_bytes := sg_bytes (ag_session (rn_agent s)) + 10\<rparr>\<rparr>\<rparr>)"
  by (simp add: record_event_def on_agent_def demo_append demo_event_valid demo_env_def)

lemma demo_begin:
  "begin_turn demo_env op demo_user (demo_agent n) =
     (Inr demo_turn, (demo_agent n)\<lparr>ag_next_turn := 2, ag_state := AgentRunning, ag_turns_started := 1\<rparr>)"
  by (simp add: begin_turn_def demo_turn_fold demo_user_def message_user_def message_new_def checked_inc_def sat_inc_def)
     (simp add: demo_agent_def demo_turn_fold)

lemmas demo_monad = act_bind_def act_then_def lift_res_def ret_def look_def check_cancelled_def on_tracker_def on_agent_def
  enter_round_def read_catalog_def assemble_context_def charge_model_call_def charge_tool_call_def call_model_def
  run_tool_def checked_batch_def budget_of_def Let_def process_tool_batch_def process_call_def

lemma demo_env_simps:
  "en_complete demo_env = demo_complete" "en_assemble demo_env i u g c x = (conversation_assemble demo_serde i u g c, x)"
  "tb_catalog (en_broker demo_env) ts = Inr \<lparr>ct_version = 1, ct_tools = []\<rparr>" "en_serde demo_env = demo_serde"
  by (cases ts; simp add: demo_env_def approval_aware_new_def approval_aware_def demo_broker_def plain_broker_def)+

lemma demo_valid_others:
  "validate_event_body demo_serde (ContextBuilt t m k) = Inr ()"
  "validate_event_body demo_serde (ModelRequested t r m k) = Inr ()"
  "validate_event_body demo_serde (ToolCallsRequested t demo_batch) = Inr ()"
  "validate_event_body demo_serde (ToolApprovalRequested t demo_request) = Inr ()"
  by (simp_all add: as_invalid_event_def demo_batch_valid demo_request_valid)

lemma demo_batch_parts: "cb_calls demo_batch = [demo_call]" "cb_round demo_batch = 1"
  by (simp_all add: demo_batch_def)

definition demo_tracker :: turn_tracker where
  "demo_tracker =
     \<lparr>tk_snapshot = \<lparr>ts_id = demo_turn, ts_state = TurnAwaitingApproval, ts_round = 1, ts_model_calls = 1,
        ts_tool_calls = 1, ts_error = None\<rparr>,
      tk_round = 1, tk_model_calls = 1, tk_tool_calls = 1, tk_state = TurnAwaitingApproval\<rparr>"

definition demo_log :: "unit session_event list" where
  "demo_log = [TurnStarted demo_turn demo_user, ContextBuilt demo_turn 1 0, ModelRequested demo_turn 1 1 0,
     ModelResponded demo_turn 1 \<lparr>cr_content = [], cr_finish_reason = None, cr_tool_calls = [demo_call]\<rparr>,
     ToolCallsRequested demo_turn demo_batch, ToolApprovalRequested demo_turn demo_request]"

definition demo_waiting :: "u32 \<Rightarrow> (unit, unit chat_result list, unit, nat \<times> unit) agent" where
  "demo_waiting n = (demo_agent n)\<lparr>ag_model := tl demo_script,
     ag_session := demo_session\<lparr>sg_records := map (\<lambda>(i, e). \<lparr>sr_sequence = of_nat i, sr_event = e\<rparr>) (enumerate 1 demo_log),
       sg_bytes := 60, sg_next := 7\<rparr>,
     ag_state := AgentAwaitingApproval, ag_turns_started := 1, ag_next_turn := 2,
     ag_last_turn := Some (tk_snapshot demo_tracker),
     ag_pending := Some \<lparr>pn_tracker = demo_tracker, pn_user_message = demo_user, pn_request = demo_request,
       pn_batch = demo_batch, pn_next_call = 0\<rparr>\<rparr>"

lemma demo_turn_run:
  assumes "0 < n"
  shows "run_turn_with_approval demo_env demo_user (demo_agent n) = (Inr (TurnAwaiting demo_request), demo_waiting n)"
  unfolding run_turn_with_approval_def act_bind_def demo_begin prod.case sum.case
  unfolding run_turn_inner_def
  using assms
  by (simp add: demo_monad demo_record demo_valid_start run_rounds.simps run_round_def demo_env_simps
     demo_agent_def demo_config_def demo_session_def demo_complete_def demo_script_def conversation_assemble_def conversation_def
     chat_request_new_def budget_policy_def demo_batch_new demo_batch_policy demo_valid_response
     demo_tool demo_valid_others demo_batch_parts tracker_new_def sat_inc_def finish_turn_outcome_def tracker_sync_def
     demo_waiting_def demo_log_def demo_tracker_def del: validate_event_body.simps)

lemma demo_agent_reach: "n \<noteq> 0 \<Longrightarrow> reach agent_start (agent_step demo_serde) (demo_agent n)"
  unfolding agent_start_def by (intro reach_start) (use demo_agent_new in blast)

lemma demo_waiting_reach:
  assumes "n \<noteq> 0"
  shows "reach agent_start (agent_step demo_serde) (demo_waiting n)"
proof (rule reach_step [OF demo_agent_reach [OF assms]])
  show "agent_step demo_serde (demo_agent n) (demo_waiting n)"
    by (rule step_turn_approval [OF _ demo_turn_run]) (use assms in \<open>simp_all add: demo_env_simps word_neq_0_conv\<close>)
qed

lemma demo_decision_valid: "validate_decision demo_decision = Inr ()"
  by (simp add: validate_decision_def demo_decision_def validate_token_def demo_text MAX_TOOL_TEXT_BYTES_def
      char_indices_def call_id_char_def is_ascii_alphanumeric_def is_ascii_lowercase_def)

lemma demo_decision_matches: "validate_pending_decision demo_request demo_decision = Inr ()"
  by (simp add: validate_pending_decision_def demo_decision_valid)
     (simp add: demo_decision_def demo_request_def demo_text)

section \<open>The turn after its approval\<close>

definition demo_result :: "unit tool_result" where
  "demo_result = \<lparr>tr_version = 1, tr_round = 1, tr_call_id = ToolCallId (lit ''c''), tr_tool_name = ToolName (lit ''t''),
     tr_outcome = OutCompleted ()\<rparr>"

lemma demo_result_valid: "validate_result (values_of demo_serde) demo_result = Inr ()"
  by (simp add: validate_result_def demo_result_def TOOL_PROTOCOL_VERSION_def demo_serde_def serde.truncate_def value_size_def
      MAX_TOOL_RESULT_BYTES_def)

lemma demo_call_parts: "tc_id demo_call = ToolCallId (lit ''c'')" "tc_name demo_call = ToolName (lit ''t'')"
  by (simp_all add: demo_call_def)

lemma demo_result_new: "tool_result_new (values_of demo_serde) 1 (ToolCallId (lit ''c'')) (ToolName (lit ''t'')) (OutCompleted ()) = Inr demo_result"
  using demo_result_valid by (simp add: tool_result_new_def Let_def demo_result_def TOOL_PROTOCOL_VERSION_def)

lemma demo_tool_approved:
  "tb_execute_with_approval (en_broker demo_env) \<lparr>rq_turn_id = i, rq_round = 1, rq_call = demo_call\<rparr> (Some demo_decision) tok (n, u)
     = (Inr (Executed (OutCompleted ())), Suc n, u)"
  by (simp add: demo_env_def approval_aware_new_def approval_aware_def default_execute_with_approval_def on_first_def
       demo_broker_def plain_broker_def default_execute_approved_def broker_validate_approval_def demo_decision_valid
       act_bind_def act_then_def lift_res_def ret_def)
     (simp add: demo_decision_def demo_call_def act_bind_def ret_def)

definition demo_resumed :: "(agent_error, unit turn_outcome) res \<times> (unit, unit chat_result list, unit, nat \<times> unit) agent" where
  "demo_resumed = approve_pending_tool demo_env demo_decision (demo_waiting 2)"

lemma demo_valid_resumed:
  "validate_event_body demo_serde (ToolApprovalResolved t demo_decision) = Inr ()"
  "validate_event_body demo_serde (ToolResultRecorded t demo_result) = Inr ()"
  "validate_event_body demo_serde (ModelResponded t 2 \<lparr>cr_content = lit ''ok'', cr_finish_reason = None, cr_tool_calls = []\<rparr>) = Inr ()"
  "validate_event_body demo_serde (TurnCompleted t (lit ''ok'')) = Inr ()" "blank (lit ''ok'') = False"
  by (simp_all add: as_invalid_event_def demo_decision_valid demo_result_valid session_round_def session_text_def demo_text MAX_SESSION_TEXT_BYTES_def)

lemma demo_resumed_done:
  "\<exists>res. fst demo_resumed = Inr (TurnDone res) \<and> cr_content (tn_response res) = lit ''ok''"
  unfolding demo_resumed_def approve_pending_tool_def
  by (simp add: continue_pending_turn_def run_turn_inner_def demo_monad demo_record run_rounds.simps run_round_def demo_env_simps demo_waiting_def demo_tracker_def demo_log_def
     demo_decision_matches demo_tool_approved demo_batch_parts demo_result_new record_result_def demo_call_parts
     demo_agent_def demo_config_def demo_session_def demo_complete_def demo_script_def conversation_assemble_def conversation_def
     chat_request_new_def sat_inc_def checked_inc_def demo_valid_others demo_valid_resumed finish_turn_outcome_def del: validate_event_body.simps)
     (simp add: word_le_nat_alt)

end
