(* ===== verification/Agent_Transcript.thy ===== *)
theory Agent_Transcript
  imports Agent_Props
begin

text \<open>
  What a turn leaves in the conversation. Through each step of the loop the conversation is known
  exactly, in both modes: a turn that stops for an approval has answered the calls before the pending one,
  the resumed turn goes on from there, and a completed turn has answered every tool call it asked for, in
  order.
\<close>

section \<open>Exchanges\<close>

type_synonym 'v exchange = "'v tool_call list \<times> 'v tool_result list"

definition result_message :: "'v session_serde \<Rightarrow> 'v tool_result \<Rightarrow> 'v chat_message" where
  "result_message j x = message_tool_result (tr_call_id x) (tr_tool_name x) (outcome_content j (tr_outcome x))"

fun exchange_messages :: "'v session_serde \<Rightarrow> 'v exchange \<Rightarrow> 'v chat_message list" where
  "exchange_messages j (calls, xs) = message_assistant_tool_calls calls # map (result_message j) xs"

fun answered :: "'v exchange \<Rightarrow> bool" where
  "answered (calls, xs) \<longleftrightarrow>
     calls \<noteq> [] \<and> map tr_call_id xs = map tc_id calls \<and> map tr_tool_name xs = map tc_name calls"

section \<open>The conversation through each step\<close>

definition talk :: "'v session_serde \<Rightarrow> agent_config \<Rightarrow> 'v chat_message list \<Rightarrow> ('v, 'm, 'c, 't) turn_run \<Rightarrow> bool" where
  "talk j cfg ms s \<longleftrightarrow> conversation j (ag_session (rn_agent s)) = ms \<and> ag_config (rn_agent s) = cfg"

lemma talk_look: "triple (talk j cfg ms) (look env) (\<lambda>_. talk j cfg ms) E"
  by (auto simp: triple_def look_def talk_def)

lemma talk_check: "triple (talk j cfg ms) (check_cancelled env) (\<lambda>_. talk j cfg ms) (\<lambda>_. True)"
  unfolding check_cancelled_def by (rule triple_bind, rule talk_look, rule triple_lift, simp)

lemma talk_tracker: "triple (talk j cfg ms) (on_tracker f) (\<lambda>_. talk j cfg ms) E"
  by (auto simp: triple_def on_tracker_def talk_def)

lemma talk_charge: "triple (talk j cfg ms) charge_tool_call (\<lambda>_. talk j cfg ms) (\<lambda>_. True)"
  "triple (talk j cfg ms) charge_model_call (\<lambda>_. talk j cfg ms) (\<lambda>_. True)"
  by (auto simp: triple_def charge_tool_call_def charge_model_call_def on_tracker_def talk_def Let_def)

lemma talk_catalog: "triple (talk j cfg ms) (read_catalog env) (\<lambda>_. talk j cfg ms) (\<lambda>_. True)"
  by (rule tripleI) (auto simp: read_catalog_def)

lemma talk_assemble: "triple (talk j cfg ms) (assemble_context env t u c) (\<lambda>_. talk j cfg ms) (\<lambda>_. True)"
  by (rule tripleI) (auto simp: assemble_context_def on_agent_def talk_def split: prod.splits)

lemma talk_model: "triple (talk j cfg ms) (call_model env q tok) (\<lambda>_. talk j cfg ms) (\<lambda>_. True)"
  by (rule tripleI) (auto simp: call_model_def on_agent_def talk_def split: prod.splits)

lemma talk_record:
  assumes "en_serde env = j"
  shows "triple (talk j cfg ms) (record_event env e) (\<lambda>_. talk j cfg (ms @ event_messages j e)) (\<lambda>_. True)"
proof (rule tripleI)
  fix s x s'
  assume "talk j cfg ms s" "record_event env e s = (Inr x, s')"
  then show "talk j cfg (ms @ event_messages j e) s'"
    using assms
    by (cases "session_append j e (ag_session (rn_agent s))"; cases "fst (session_append j e (ag_session (rn_agent s)))")
       (auto simp: record_event_def on_agent_def talk_def session_append_Inr conversation_def)
qed simp

lemma talk_record_silent:
  "en_serde env = j \<Longrightarrow> event_messages j e = [] \<Longrightarrow> triple (talk j cfg ms) (record_event env e) (\<lambda>_. talk j cfg ms) (\<lambda>_. True)"
  using talk_record [of env j cfg ms e] by simp

lemma talk_enter:
  "triple (talk j cfg ms) (enter_round r) (\<lambda>_ s. talk j cfg ms s \<and> r \<le> bg_max_rounds (cfg_budget cfg)) (\<lambda>_. True)"
  by (auto simp: triple_def enter_round_def on_tracker_def talk_def budget_of_def Let_def not_less)

definition answers :: "'v tool_call \<Rightarrow> 'v tool_result \<Rightarrow> bool" where
  "answers c x \<longleftrightarrow> tr_call_id x = tc_id c \<and> tr_tool_name x = tc_name c"

lemma talk_resolved:
  assumes "en_serde env = j"
  shows "triple (talk j cfg ms) (case d of None \<Rightarrow> ret () | Some d \<Rightarrow> record_event env (ToolApprovalResolved t d))
    (\<lambda>_. talk j cfg ms) (\<lambda>_. True)"
  using talk_record_silent [OF assms, of "ToolApprovalResolved t (the d)"]
  by (cases d) (simp_all add: triple_def ret_def)

text \<open>Where the conversation stands after a call: answered, or put up for approval.\<close>

definition call_said ::
  "'v session_serde \<Rightarrow> agent_config \<Rightarrow> 'v chat_message list \<Rightarrow> 'v call_batch \<Rightarrow> execution_mode \<Rightarrow> nat \<Rightarrow> 'v tool_call \<Rightarrow>
   'v pending_tool option \<Rightarrow> ('v, 'm, 'c, 't) turn_run \<Rightarrow> bool" where
  "call_said j cfg ms b mode i c p s \<longleftrightarrow>
     (case p of
        None \<Rightarrow> \<exists>x. answers c x \<and> talk j cfg (ms @ [result_message j x]) s
      | Some p \<Rightarrow> mode = ApprovalAware \<and> pt_batch p = b \<and> pt_next_call p = i \<and> talk j cfg ms s)"

lemma talk_result:
  fixes j :: "'v session_serde"
  assumes "en_serde env = j"
  shows "triple (talk j cfg ms) (record_result env t b c d out) (call_said j cfg ms b mode i c) (\<lambda>_. True)"
proof -
  have step: "triple (talk j cfg ms) (act_then (record_event env (ToolResultRecorded t x)) (ret (None :: 'v pending_tool option)))
     (\<lambda>p s. p = None \<and> talk j cfg (ms @ [result_message j x]) s) (\<lambda>_. True)" for x
    by (rule triple_then, rule talk_record [OF assms], simp add: triple_def ret_def result_message_def)
  have rest: "triple (talk j cfg ms) (act_bind (lift_res (map_err f (tool_result_new (values_of j) (cb_round b) (tc_id c) (tc_name c) out)))
      (\<lambda>x. act_then (record_event env (ToolResultRecorded t x)) (ret (None :: 'v pending_tool option)))) (call_said j cfg ms b mode i c) (\<lambda>_. True)" for f
  proof (rule tripleI)
    fix s p s'
    assume s: "talk j cfg ms s" and run: "act_bind (lift_res (map_err f (tool_result_new (values_of j) (cb_round b) (tc_id c) (tc_name c) out)))
      (\<lambda>x. act_then (record_event env (ToolResultRecorded t x)) (ret (None :: 'v pending_tool option))) s = (Inr p, s')"
    obtain x where x: "tool_result_new (values_of j) (cb_round b) (tc_id c) (tc_name c) out = Inr x"
      and rest: "act_then (record_event env (ToolResultRecorded t x)) (ret (None :: 'v pending_tool option)) s = (Inr p, s')"
      using run
      by (cases "tool_result_new (values_of j) (cb_round b) (tc_id c) (tc_name c) out") (auto simp: act_bind_def lift_res_def)
    have "answers c x" using x by (auto simp: tool_result_new_def answers_def Let_def)
    then show "call_said j cfg ms b mode i c p s'"
      using triple_Inr [OF step s rest] by (auto simp: call_said_def)
  qed simp
  show ?thesis
    unfolding record_result_def assms by (rule triple_then, rule talk_resolved [OF assms], rule rest)
qed

lemma legacy_tool:
  "run_tool env Legacy q d tok s = (Inr (Inr ex), s') \<Longrightarrow> \<exists>out. ex = Executed out"
  by (auto simp: run_tool_def act_bind_def ret_def Let_def split: prod.splits sum.splits)

lemma talk_tool:
  "triple (talk j cfg ms) (run_tool env mode q d tok)
     (\<lambda>r s. talk j cfg ms s \<and> (\<forall>a. r = Inr (AwaitingApproval a) \<longrightarrow> mode = ApprovalAware)) E"
proof (rule tripleI)
  fix s r s'
  assume "talk j cfg ms s" and run: "run_tool env mode q d tok s = (Inr r, s')"
  then have "talk j cfg ms s'" by (auto simp: run_tool_def on_agent_def talk_def Let_def split: prod.splits)
  moreover have "mode = ApprovalAware" if "r = Inr (AwaitingApproval a)" for a
    using run that legacy_tool [of env q d tok s "AwaitingApproval a" s'] by (cases mode) auto
  ultimately show "talk j cfg ms s' \<and> (\<forall>a. r = Inr (AwaitingApproval a) \<longrightarrow> mode = ApprovalAware)" by blast
qed (auto simp: run_tool_def Let_def split: prod.splits)

lemma talk_process_call:
  assumes "en_serde env = j"
  shows "triple (talk j cfg ms) (process_call env t b st d mode i c) (call_said j cfg ms b mode i c) (\<lambda>_. True)"
proof -
  have tail: "triple (\<lambda>s. talk j cfg ms s \<and> (\<forall>a. execution = Inr (AwaitingApproval a) \<longrightarrow> mode = ApprovalAware))
     (case execution of
        Inr (AwaitingApproval a) \<Rightarrow>
          act_then (record_event env (ToolApprovalRequested t a))
            (ret (Some \<lparr>pt_request = a, pt_batch = b, pt_next_call = i\<rparr>))
      | Inr (Executed out) \<Rightarrow> record_result env t b c given out
      | Inl e \<Rightarrow> act_bind (lift_res (f e)) (record_result env t b c given))
     (call_said j cfg ms b mode i c) (\<lambda>_. True)" for execution f given
  proof (cases execution)
    case (Inl e)
    have "triple (talk j cfg ms) (act_bind (lift_res (f e)) (record_result env t b c given)) (call_said j cfg ms b mode i c) (\<lambda>_. True)"
      by (rule triple_bind, rule triple_lift, simp, rule talk_result [OF assms])
    then show ?thesis by (simp add: Inl)
  next
    case (Inr ex)
    show ?thesis
    proof (cases ex)
      case (Executed out)
      then show ?thesis using talk_result [OF assms] by (simp add: Inr)
    next
      case (AwaitingApproval a)
      have "triple (talk j cfg ms) (act_then (record_event env (ToolApprovalRequested t a))
            (ret (Some \<lparr>pt_request = a, pt_batch = b, pt_next_call = i\<rparr>))) (call_said j cfg ms b mode i c) (\<lambda>_. True)"
        if "mode = ApprovalAware"
        by (rule triple_then, rule talk_record_silent [OF assms], simp)
           (simp add: triple_def ret_def call_said_def that)
      then show ?thesis by (cases mode) (simp_all add: Inr AwaitingApproval triple_def)
    qed
  qed
  show ?thesis
    unfolding process_call_def Let_def
    apply (rule triple_then, rule talk_check)
    apply (rule triple_then, rule talk_charge)
    apply (rule triple_bind, rule talk_look)
    apply (rule triple_bind, rule talk_tool)
    apply (rule tail)
    done
qed

text \<open>After some of the calls: all answered, or those before the \<open>k\<close>-th, which is pending.\<close>

definition calls_said ::
  "'v session_serde \<Rightarrow> agent_config \<Rightarrow> 'v chat_message list \<Rightarrow> 'v call_batch \<Rightarrow> execution_mode \<Rightarrow> (nat \<times> 'v tool_call) list \<Rightarrow>
   'v pending_tool option \<Rightarrow> ('v, 'm, 'c, 't) turn_run \<Rightarrow> bool" where
  "calls_said j cfg ms b mode calls p s \<longleftrightarrow>
     (case p of
        None \<Rightarrow> \<exists>xs. list_all2 answers (map snd calls) xs \<and> talk j cfg (ms @ map (result_message j) xs) s
      | Some p \<Rightarrow> mode = ApprovalAware \<and> pt_batch p = b \<and> (\<exists>k < length calls. pt_next_call p = fst (calls ! k) \<and>
          (\<exists>xs. list_all2 answers (map snd (take k calls)) xs \<and> talk j cfg (ms @ map (result_message j) xs) s)))"

lemma calls_said_Cons:
  assumes "answers c x" and said: "calls_said j cfg (ms @ [result_message j x]) b mode calls p s"
  shows "calls_said j cfg ms b mode ((i, c) # calls) p s"
proof (cases p)
  case None
  then obtain xs where "list_all2 answers (map snd calls) xs" "talk j cfg (ms @ map (result_message j) (x # xs)) s"
    using said by (auto simp: calls_said_def)
  then show ?thesis
    using None assms(1) by (auto simp: calls_said_def intro!: exI [of _ "x # xs"])
next
  case (Some q)
  then obtain k xs where k: "mode = ApprovalAware" "pt_batch q = b" "k < length calls" "pt_next_call q = fst (calls ! k)"
      and xs: "list_all2 answers (map snd (take k calls)) xs" "talk j cfg (ms @ map (result_message j) (x # xs)) s"
    using said by (auto simp: calls_said_def)
  have "list_all2 answers (map snd (take (Suc k) ((i, c) # calls))) (x # xs)" using xs(1) assms(1) by simp
  then show ?thesis
    using Some k xs(2) by (auto simp: calls_said_def intro!: exI [of _ "Suc k"] exI [of _ "x # xs"])
qed

lemma talk_process_calls:
  assumes "en_serde env = j"
  shows "triple (talk j cfg ms) (process_calls env t b st d mode calls) (calls_said j cfg ms b mode calls) (\<lambda>_. True)"
proof (induction calls arbitrary: ms)
  case Nil
  then show ?case by (simp add: triple_def calls_said_def)
next
  case (Cons ic calls)
  obtain i c where ic: "ic = (i, c)" by (cases ic)
  show ?case
  proof (rule tripleI)
    fix s p s'
    assume s: "talk j cfg ms s" and run: "process_calls env t b st d mode (ic # calls) s = (Inr p, s')"
    obtain r s1 where r: "process_call env t b st d mode i c s = (r, s1)" by (cases "process_call env t b st d mode i c s")
    obtain q where q: "r = Inr q" using run r by (cases r) (auto simp: ic)
    have said: "call_said j cfg ms b mode i c q s1"
      by (rule triple_Inr [OF talk_process_call [OF assms] s r [unfolded q]])
    show "calls_said j cfg ms b mode (ic # calls) p s'"
    proof (cases q)
      case None
      then obtain x where x: "answers c x" "talk j cfg (ms @ [result_message j x]) s1"
        using said by (auto simp: call_said_def)
      have "process_calls env t b st d mode calls s1 = (Inr p, s')" using run r q None by (simp add: ic)
      from triple_Inr [OF Cons.IH x(2) this] show ?thesis unfolding ic by (rule calls_said_Cons [OF x(1)])
    next
      case (Some w)
      then have "p = Some w \<and> s' = s1" using run r q by (simp add: ic)
      then show ?thesis
        using said Some by (auto simp: calls_said_def call_said_def ic intro!: exI [of _ 0] exI [of _ "[]"])
    qed
  qed simp
qed

lemma answers_ids:
  "list_all2 answers calls xs \<Longrightarrow> map tr_call_id xs = map tc_id calls \<and> map tr_tool_name xs = map tc_name calls"
  by (induction rule: list_all2_induct) (auto simp: answers_def)

lemma answered_all2: "list_all2 answers calls xs \<Longrightarrow> calls \<noteq> [] \<Longrightarrow> answered (calls, xs)"
  using answers_ids by auto

section \<open>Rounds\<close>

text \<open>
  A batch of calls that is being worked on: \<open>begun n\<close> says that the first \<open>n\<close> calls are
  answered in the conversation.
\<close>

definition begun ::
  "'v session_serde \<Rightarrow> agent_config \<Rightarrow> 'v chat_message list \<Rightarrow> 'v call_batch \<Rightarrow> nat \<Rightarrow> ('v, 'm, 'c, 't) turn_run \<Rightarrow> bool" where
  "begun j cfg ms b n s \<longleftrightarrow> (\<exists>xs. list_all2 answers (take n (cb_calls b)) xs \<and>
     talk j cfg (ms @ message_assistant_tool_calls (cb_calls b) # map (result_message j) xs) s)"

text \<open>How work on a batch ends.\<close>

definition batch_said ::
  "'v session_serde \<Rightarrow> agent_config \<Rightarrow> 'v chat_message list \<Rightarrow> 'v call_batch \<Rightarrow> execution_mode \<Rightarrow> 'v pending_tool option \<Rightarrow>
   ('v, 'm, 'c, 't) turn_run \<Rightarrow> bool" where
  "batch_said j cfg ms b mode p s \<longleftrightarrow>
     (case p of
        None \<Rightarrow> \<exists>x. answered x \<and> talk j cfg (ms @ exchange_messages j x) s
      | Some p \<Rightarrow> mode = ApprovalAware \<and> pt_batch p = b \<and> pt_next_call p < length (cb_calls b) \<and>
          begun j cfg ms b (pt_next_call p) s)"

lemma talk_batch_run:
  assumes "en_serde env = j" and "cb_calls b \<noteq> []" and "n \<le> length (cb_calls b)"
  shows "triple (begun j cfg ms b n) (process_tool_batch env t b n d mode) (batch_said j cfg ms b mode) (\<lambda>_. True)"
proof (rule tripleI)
  let ?calls = "drop n (enumerate 0 (cb_calls b))"
  have snds: "map snd ?calls = drop n (cb_calls b)" by (simp add: drop_map [symmetric])
  fix s p s'
  assume "begun j cfg ms b n s" and run: "process_tool_batch env t b n d mode s = (Inr p, s')"
  then obtain xs where xs: "list_all2 answers (take n (cb_calls b)) xs"
    "talk j cfg (ms @ message_assistant_tool_calls (cb_calls b) # map (result_message j) xs) s"
    by (auto simp: begun_def)
  have said: "calls_said j cfg (ms @ message_assistant_tool_calls (cb_calls b) # map (result_message j) xs) b mode ?calls p s'"
    using triple_Inr [OF talk_process_calls [OF assms(1)] xs(2)] run by (simp add: process_tool_batch_def)
  show "batch_said j cfg ms b mode p s'"
  proof (cases p)
    case None
    then obtain ys where ys: "list_all2 answers (drop n (cb_calls b)) ys"
        "talk j cfg (ms @ exchange_messages j (cb_calls b, xs @ ys)) s'"
      using said by (auto simp: calls_said_def snds)
    have "list_all2 answers (cb_calls b) (xs @ ys)" using list_all2_appendI [OF xs(1) ys(1)] by simp
    from answered_all2 [OF this assms(2)] show ?thesis
      using None ys(2) by (auto simp: batch_said_def simp del: answered.simps exchange_messages.simps)
  next
    case (Some q)
    then obtain k ys where k: "mode = ApprovalAware" "pt_batch q = b" "k < length ?calls" "pt_next_call q = fst (?calls ! k)"
        and ys: "list_all2 answers (map snd (take k ?calls)) ys"
          "talk j cfg (ms @ message_assistant_tool_calls (cb_calls b) # map (result_message j) (xs @ ys)) s'"
      using said by (auto simp: calls_said_def)
    have at: "pt_next_call q = n + k" "n + k < length (cb_calls b)"
      using k(3,4) by (simp_all add: nth_enumerate_eq)
    have "map snd (take k ?calls) = take k (drop n (cb_calls b))" by (simp add: take_map [symmetric] snds)
    then have "list_all2 answers (take (n + k) (cb_calls b)) (xs @ ys)"
      using list_all2_appendI [OF xs(1)] ys(1) by (simp add: take_add)
    then show ?thesis using Some k(1,2) at ys(2) by (auto simp: batch_said_def begun_def)
  qed
qed simp

lemma begun_start: "talk j cfg (ms @ [message_assistant_tool_calls (cb_calls b)]) s \<Longrightarrow> begun j cfg ms b 0 s"
  by (simp add: begun_def)

text \<open>How a round ends, and what it has said.\<close>

definition round_said ::
  "'v session_serde \<Rightarrow> agent_config \<Rightarrow> 'v chat_message list \<Rightarrow> execution_mode \<Rightarrow> u16 \<Rightarrow> 'v inner_outcome option \<Rightarrow>
   ('v, 'm, 'c, 't) turn_run \<Rightarrow> bool" where
  "round_said j cfg ms mode r out s \<longleftrightarrow> r \<le> bg_max_rounds (cfg_budget cfg) \<and>
     (case out of
        None \<Rightarrow> \<exists>x. answered x \<and> talk j cfg (ms @ exchange_messages j x) s
      | Some (InnerCompleted y) \<Rightarrow> talk j cfg (ms @ [message_assistant (cr_content y)]) s
      | Some (InnerAwaiting p) \<Rightarrow> mode = ApprovalAware \<and> cb_round (pt_batch p) = r \<and>
          pt_next_call p < length (cb_calls (pt_batch p)) \<and> begun j cfg ms (pt_batch p) (pt_next_call p) s)"

definition batch_of :: "'v chat_result \<Rightarrow> u16 \<Rightarrow> 'v call_batch option \<Rightarrow> bool" where
  "batch_of y r b \<longleftrightarrow> (case b of
     None \<Rightarrow> cr_tool_calls y = []
   | Some b \<Rightarrow> cr_tool_calls y \<noteq> [] \<and> cb_calls b = cr_tool_calls y \<and> cb_round b = r)"

lemma checked_batch_calls: "checked_batch env r y s = (Inr b, s') \<Longrightarrow> s' = s \<and> batch_of y r b"
  by (auto simp: checked_batch_def batch_new_def Let_def batch_of_def split: if_splits)

lemma talk_batch:
  "triple (talk j cfg ms) (checked_batch env r y) (\<lambda>b s. talk j cfg ms s \<and> batch_of y r b) (\<lambda>_. True)"
  by (rule tripleI) (auto dest: checked_batch_calls)

lemma triple_assume: "(A \<Longrightarrow> triple P m Q E) \<Longrightarrow> triple (\<lambda>s. P s \<and> A) m Q E"
  by (auto simp: triple_def)

lemma talk_round:
  assumes "en_serde env = j"
  shows "triple (talk j cfg ms) (run_round env t u mode None r) (round_said j cfg ms mode r) (\<lambda>_. True)"
proof -
  note silent = talk_record_silent [OF assms]
  have tail: "triple (talk j cfg (ms @ event_messages j (ModelResponded t r y)))
     (case b of
       None \<Rightarrow>
         if blank (cr_content y)
         then throw (ae_protocol (lit ''empty_model_response'') (lit ''model returned neither text nor tool calls''))
         else act_then (record_event env (TurnCompleted t (cr_content y)))
               (act_then (on_tracker (\<lambda>t. t\<lparr>tk_state := TurnStateCompleted\<rparr>)) (ret (Some (InnerCompleted y))))
     | Some b \<Rightarrow>
         act_then (record_event env (ToolCallsRequested t b))
          (act_bind (process_tool_batch env t b 0 None mode) (\<lambda>pending. ret (map_option InnerAwaiting pending))))
     (round_said j cfg ms mode r) (\<lambda>_. True)"
    if b: "batch_of y r b" and r: "r \<le> bg_max_rounds (cfg_budget cfg)" for b y
  proof (cases b)
    case None
    have "triple (talk j cfg (ms @ [message_assistant (cr_content y)]))
        (act_then (record_event env (TurnCompleted t (cr_content y)))
               (act_then (on_tracker (\<lambda>t. t\<lparr>tk_state := TurnStateCompleted\<rparr>)) (ret (Some (InnerCompleted y)))))
        (round_said j cfg ms mode r) (\<lambda>_. True)"
      by (rule triple_then, rule silent, simp, rule triple_then, rule talk_tracker, simp add: triple_def ret_def round_said_def r)
    then show ?thesis using b None by (simp add: triple_def throw_def batch_of_def)
  next
    case (Some b')
    have calls: "cb_calls b' = cr_tool_calls y" "cr_tool_calls y \<noteq> []" "cb_round b' = r"
      using b Some by (auto simp: batch_of_def)
    have finish: "triple (batch_said j cfg ms b' mode p) (ret (map_option InnerAwaiting p)) (round_said j cfg ms mode r) (\<lambda>_. True)" for p
      by (cases p) (auto simp: triple_def ret_def round_said_def batch_said_def r calls)
    have start: "talk j cfg (ms @ event_messages j (ModelResponded t r y)) = talk j cfg (ms @ [message_assistant_tool_calls (cb_calls b')])"
      using calls by simp
    have run: "triple (talk j cfg (ms @ [message_assistant_tool_calls (cb_calls b')])) (process_tool_batch env t b' 0 None mode)
        (batch_said j cfg ms b' mode) (\<lambda>_. True)"
      by (rule triple_pre [OF talk_batch_run [OF assms]]) (simp_all add: calls begun_start)
    show ?thesis
      unfolding Some option.case start
      by (rule triple_then, rule silent, simp, rule triple_bind, rule run, rule finish)
  qed
  show ?thesis
    unfolding run_round_def
    apply (rule triple_then, rule talk_check)
    apply (rule triple_then, rule talk_enter, rule triple_assume)
    apply (rule triple_bind, rule talk_catalog)
    apply (rule triple_then, rule talk_tracker)
    apply (rule triple_bind, rule talk_assemble)
    apply (rule triple_then, rule silent, simp)
    apply (rule triple_then, rule talk_charge)
    apply (rule triple_then, rule silent, simp)
    apply (rule triple_bind, rule talk_look)
    apply (rule triple_bind, rule talk_model)
    apply (rule triple_bind, rule talk_batch, rule triple_assume)
    apply (rule triple_then, rule talk_record [OF assms])
    apply (rule tail, assumption, assumption)
    done
qed

text \<open>
  How the rounds from \<open>r\<close> on end: with the response after some answered exchanges, or with a call
  pending after some answered exchanges and the part of the batch before it.
\<close>

definition rounds_said ::
  "'v session_serde \<Rightarrow> agent_config \<Rightarrow> 'v chat_message list \<Rightarrow> execution_mode \<Rightarrow> nat \<Rightarrow> 'v inner_outcome \<Rightarrow>
   ('v, 'm, 'c, 't) turn_run \<Rightarrow> bool" where
  "rounds_said j cfg ms mode r out s \<longleftrightarrow> (\<exists>xs. list_all answered xs \<and>
     (case out of
        InnerCompleted y \<Rightarrow> r + length xs \<le> unat (bg_max_rounds (cfg_budget cfg)) \<and>
          talk j cfg (ms @ concat (map (exchange_messages j) xs) @ [message_assistant (cr_content y)]) s
      | InnerAwaiting p \<Rightarrow> mode = ApprovalAware \<and> r + length xs = unat (cb_round (pt_batch p)) \<and>
          cb_round (pt_batch p) \<le> bg_max_rounds (cfg_budget cfg) \<and> pt_next_call p < length (cb_calls (pt_batch p)) \<and>
          begun j cfg (ms @ concat (map (exchange_messages j) xs)) (pt_batch p) (pt_next_call p) s))"

lemma rounds_said_appends:
  assumes xs: "list_all answered xs" and said: "rounds_said j cfg (ms @ concat (map (exchange_messages j) xs)) mode (r + length xs) out s"
  shows "rounds_said j cfg ms mode r out s"
proof -
  obtain ys where "list_all answered ys" and "case out of
        InnerCompleted y \<Rightarrow> r + length xs + length ys \<le> unat (bg_max_rounds (cfg_budget cfg)) \<and>
          talk j cfg ((ms @ concat (map (exchange_messages j) xs)) @ concat (map (exchange_messages j) ys) @ [message_assistant (cr_content y)]) s
      | InnerAwaiting p \<Rightarrow> mode = ApprovalAware \<and> r + length xs + length ys = unat (cb_round (pt_batch p)) \<and>
          cb_round (pt_batch p) \<le> bg_max_rounds (cfg_budget cfg) \<and> pt_next_call p < length (cb_calls (pt_batch p)) \<and>
          begun j cfg ((ms @ concat (map (exchange_messages j) xs)) @ concat (map (exchange_messages j) ys)) (pt_batch p) (pt_next_call p) s"
    using said unfolding rounds_said_def by blast
  then show ?thesis
    unfolding rounds_said_def using xs by (intro exI [of _ "xs @ ys"]) (cases out; simp add: add.assoc)
qed

lemma rounds_said_Cons:
  "answered e \<Longrightarrow> rounds_said j cfg (ms @ exchange_messages j e) mode (Suc r) out s \<Longrightarrow> rounds_said j cfg ms mode r out s"
  using rounds_said_appends [of "[e]"] by simp

lemma talk_rounds:
  assumes "en_serde env = j"
  shows "talk j cfg ms s \<Longrightarrow> run_rounds env t u mode None r s = (Inr out, s') \<Longrightarrow> rounds_said j cfg ms mode (unat r) out s'"
  using assms
proof (induction env t u mode "None :: approval_decision option" r s arbitrary: ms out s' rule: run_rounds.induct)
  case (1 env t u mode r s)
  obtain x s1 where x: "run_round env t u mode None r s = (x, s1)" by (cases "run_round env t u mode None r s")
  obtain z where z: "x = Inr z" using "1.prems"(2) x by (cases x) (simp_all add: run_rounds.simps)
  have said: "round_said j cfg ms mode r z s1"
    using triple_Inr [OF talk_round [OF "1.prems"(3)] "1.prems"(1)] x z by blast
  show ?case
  proof (cases z)
    case None
    obtain e where e: "answered e" "talk j cfg (ms @ exchange_messages j e) s1"
      using said None by (auto simp: round_said_def)
    obtain r' where r': "checked_inc r = Some r'" and rest: "run_rounds env t u mode None r' s1 = (Inr out, s')"
      using "1.prems"(2) x z None by (subst (asm) run_rounds.simps) (auto split: option.splits)
    have suc: "unat r' = Suc (unat r)" using r' by (auto simp: checked_inc_Some unat_inc)
    have "rounds_said j cfg (ms @ exchange_messages j e) mode (unat r') out s'"
      using "1.hyps" [OF x [symmetric] _ None r' e(2) rest "1.prems"(3)] z by blast
    then show ?thesis unfolding suc by (rule rounds_said_Cons [OF e(1)])
  next
    case (Some w)
    have "out = w \<and> s' = s1" using "1.prems"(2) x z Some by (simp add: run_rounds.simps)
    then show ?thesis
      using said Some unfolding rounds_said_def
      by (intro exI [of _ "[]"]) (auto simp: round_said_def word_le_nat_alt split: inner_outcome.splits)
  qed
qed

section \<open>Turns\<close>

text \<open>What a turn that was started on \<open>a\<close> with \<open>user\<close> has said when it ends with \<open>out\<close>.\<close>

definition turn_said ::
  "'v session_serde \<Rightarrow> 'v chat_message \<Rightarrow> ('v, 'm, 'c, 't) agent \<Rightarrow> execution_mode \<Rightarrow> 'v inner_outcome \<Rightarrow>
   ('v, 'm, 'c, 't) turn_run \<Rightarrow> bool" where
  "turn_said j user a mode out s \<longleftrightarrow>
     rounds_said j (ag_config a) (conversation j (ag_session a) @ [user]) mode 1 out s"

lemma started_turn_said:
  assumes j: "en_serde env = j" and begun: "begin_turn env op user a = (Inr t, a1)"
    and run: "run_turn_inner env t user 1 True mode None \<lparr>rn_agent = a1, rn_tracker = tr, rn_looks = 1\<rparr> = (Inr out, s)"
  shows "turn_said j user a mode out s"
proof -
  let ?s0 = "\<lparr>rn_agent = a1, rn_tracker = tr, rn_looks = 1\<rparr>"
  have start: "talk j (ag_config a) (conversation j (ag_session a)) ?s0"
    using begun by (auto simp: talk_def begin_turn_def split: if_splits sum.splits option.splits)
  obtain s1 where rec: "record_event env (TurnStarted t user) ?s0 = (Inr (), s1)"
      and rounds: "run_rounds env t user mode None 1 s1 = (Inr out, s)"
    using run by (auto simp: run_turn_inner_def act_then_def act_bind_def split: prod.splits sum.splits)
  have "talk j (ag_config a) (conversation j (ag_session a) @ [user]) s1"
    using triple_Inr [OF talk_record [OF j] start rec] by simp
  from talk_rounds [OF j this rounds] show ?thesis by (simp add: turn_said_def)
qed

text \<open>A turn that waits for an approval, seen from the agent.\<close>

definition waiting_turn :: "'v session_serde \<Rightarrow> 'v chat_message \<Rightarrow> ('v, 'm, 'c, 't) agent \<Rightarrow> ('v, 'm, 'c, 't) agent \<Rightarrow> bool" where
  "waiting_turn j user a a' \<longleftrightarrow> ag_config a' = ag_config a \<and> (\<exists>p xs rs. ag_pending a' = Some p \<and> list_all answered xs \<and>
     Suc (length xs) = unat (cb_round (pn_batch p)) \<and> cb_round (pn_batch p) \<le> bg_max_rounds (cfg_budget (ag_config a)) \<and>
     pn_next_call p < length (cb_calls (pn_batch p)) \<and> list_all2 answers (take (pn_next_call p) (cb_calls (pn_batch p))) rs \<and>
     conversation j (ag_session a') = conversation j (ag_session a) @ [user] @ concat (map (exchange_messages j) xs) @
       message_assistant_tool_calls (cb_calls (pn_batch p)) # map (result_message j) rs)"

text \<open>The conversation of a completed turn.\<close>

definition complete_turn ::
  "'v session_serde \<Rightarrow> 'v chat_message \<Rightarrow> ('v, 'm, 'c, 't) agent \<Rightarrow> 'v turn_result \<Rightarrow> ('v, 'm, 'c, 't) agent \<Rightarrow> bool" where
  "complete_turn j user a res a' \<longleftrightarrow> (\<exists>xs. list_all answered xs \<and>
     length xs < unat (bg_max_rounds (cfg_budget (ag_config a))) \<and>
     conversation j (ag_session a') = conversation j (ag_session a) @
       [user] @ concat (map (exchange_messages j) xs) @ [message_assistant (cr_content (tn_response res))])"

lemma completed_said:
  assumes "turn_said j user a mode (InnerCompleted y) s" and "ag_session a' = ag_session (rn_agent s)" and "tn_response res = y"
  shows "complete_turn j user a res a'"
proof -
  obtain xs where "list_all answered xs" "1 + length xs \<le> unat (bg_max_rounds (cfg_budget (ag_config a)))"
      "talk j (ag_config a) ((conversation j (ag_session a) @ [user]) @ concat (map (exchange_messages j) xs) @ [message_assistant (cr_content y)]) s"
    using assms(1) by (auto simp: turn_said_def rounds_said_def)
  then show ?thesis
    unfolding complete_turn_def using assms(2,3) by (intro exI [of _ xs]) (simp add: talk_def)
qed

lemma finish_said:
  assumes "turn_said j user a mode out s" and "finish_turn_outcome env u (Inr out, s) = (Inr res, a')"
  shows "case res of TurnDone x \<Rightarrow> complete_turn j user a x a' | TurnAwaiting q \<Rightarrow> waiting_turn j user a a'"
proof (cases out)
  case (InnerCompleted y)
  have "complete_turn j user a \<lparr>tn_response = y, tn_snapshot = into_snapshot (rn_tracker s)\<rparr> a'"
    by (rule completed_said [OF assms(1) [unfolded InnerCompleted]])
       (use assms(2) in \<open>auto simp: InnerCompleted finish_turn_outcome_def Let_def\<close>)
  then show ?thesis
    using assms(2) by (auto simp: InnerCompleted finish_turn_outcome_def Let_def)
next
  case (InnerAwaiting p)
  then obtain xs where xs: "list_all answered xs" "1 + length xs = unat (cb_round (pt_batch p))"
      "cb_round (pt_batch p) \<le> bg_max_rounds (cfg_budget (ag_config a))" "pt_next_call p < length (cb_calls (pt_batch p))"
      "begun j (ag_config a) ((conversation j (ag_session a) @ [user]) @ concat (map (exchange_messages j) xs))
         (pt_batch p) (pt_next_call p) s"
    using assms(1) by (auto simp: turn_said_def rounds_said_def)
  obtain rs where rs: "list_all2 answers (take (pt_next_call p) (cb_calls (pt_batch p))) rs"
      "talk j (ag_config a) (((conversation j (ag_session a) @ [user]) @ concat (map (exchange_messages j) xs)) @
         message_assistant_tool_calls (cb_calls (pt_batch p)) # map (result_message j) rs) s"
    using xs(5) unfolding begun_def by blast
  have a': "res = TurnAwaiting (pt_request p)" "ag_config a' = ag_config (rn_agent s)"
      "ag_session a' = ag_session (rn_agent s)" "\<exists>q. ag_pending a' = Some q \<and> pn_batch q = pt_batch p \<and> pn_next_call q = pt_next_call p"
    using assms(2) by (auto simp: InnerAwaiting finish_turn_outcome_def Let_def)
  then show ?thesis using xs rs by (auto simp: waiting_turn_def talk_def intro!: exI [of _ xs])
qed

lemma aware_turn_said:
  assumes j: "en_serde env = j" and run: "run_turn_with_approval env user a = (Inr res, a')"
  shows "case res of TurnDone x \<Rightarrow> complete_turn j user a x a' | TurnAwaiting q \<Rightarrow> waiting_turn j user a a'"
proof -
  let ?op = "lit ''start an approval-aware turn''"
  obtain t a1 where begun: "begin_turn env ?op user a = (Inr t, a1)"
    using run by (cases "begin_turn env ?op user a"; cases "fst (begin_turn env ?op user a)")
      (auto simp: run_turn_with_approval_def act_bind_def)
  let ?s0 = "\<lparr>rn_agent = a1, rn_tracker = tracker_new t, rn_looks = 1\<rparr>"
  obtain out s where s: "run_turn_inner env t user 1 True ApprovalAware None ?s0 = (out, s)"
    by (cases "run_turn_inner env t user 1 True ApprovalAware None ?s0")
  have fin: "finish_turn_outcome env user (out, s) = (Inr res, a')"
    using run begun s by (simp add: run_turn_with_approval_def act_bind_def)
  then obtain o' where o': "out = Inr o'" by (cases out) (auto simp: finish_turn_outcome_def Let_def)
  show ?thesis
    by (rule finish_said [OF started_turn_said [OF j begun s [unfolded o']] fin [unfolded o']])
qed

text \<open>A resumed turn goes on from where the conversation stands.\<close>

lemma continued_turn_said:
  assumes j: "en_serde env = j" and waiting: "waiting_turn j user a b" and p: "ag_pending b = Some p"
    and start: "ag_config c = ag_config b" "ag_session c = ag_session b"
    and run: "continue_pending_turn env t u (pn_batch p) (pn_next_call p) d \<lparr>rn_agent = c, rn_tracker = tr, rn_looks = k\<rparr> = (Inr out, s)"
  shows "turn_said j user a ApprovalAware out s"
proof -
  let ?s0 = "\<lparr>rn_agent = c, rn_tracker = tr, rn_looks = k\<rparr>" and ?cfg = "ag_config a" and ?b = "pn_batch p"
  obtain xs rs where xs: "list_all answered xs" "Suc (length xs) = unat (cb_round ?b)"
      "cb_round ?b \<le> bg_max_rounds (cfg_budget ?cfg)" "pn_next_call p < length (cb_calls ?b)"
    and rs: "list_all2 answers (take (pn_next_call p) (cb_calls ?b)) rs"
      "conversation j (ag_session b) = conversation j (ag_session a) @ [user] @ concat (map (exchange_messages j) xs) @
       message_assistant_tool_calls (cb_calls ?b) # map (result_message j) rs"
    using waiting p by (auto simp: waiting_turn_def)
  define ms where "ms = (conversation j (ag_session a) @ [user]) @ concat (map (exchange_messages j) xs)"
  have cfg: "ag_config b = ag_config a" using waiting by (simp add: waiting_turn_def)
  have at: "begun j ?cfg ms ?b (pn_next_call p) ?s0"
    unfolding begun_def ms_def using rs start cfg by (intro exI [of _ rs]) (simp add: talk_def)
  obtain r s1 where batch: "process_tool_batch env t ?b (pn_next_call p) (Some d) ApprovalAware ?s0 = (r, s1)"
    by (cases "process_tool_batch env t ?b (pn_next_call p) (Some d) ApprovalAware ?s0")
  obtain q where q: "r = Inr q" using run batch by (cases r) (auto simp: continue_pending_turn_def act_bind_def)
  have said: "batch_said j ?cfg ms ?b ApprovalAware q s1"
    by (rule triple_Inr [OF talk_batch_run [OF j] at batch [unfolded q]]) (use xs(4) in auto)
  show ?thesis
  proof (cases q)
    case (Some w)
    then have "out = InnerAwaiting w \<and> s = s1"
      using run batch q by (simp add: continue_pending_turn_def act_bind_def ret_def)
    then show ?thesis
      using said Some xs unfolding turn_said_def rounds_said_def
      by (intro exI [of _ xs]) (simp add: batch_said_def ms_def)
  next
    case None
    obtain x where x: "answered x" "talk j ?cfg (ms @ exchange_messages j x) s1"
      using said None by (auto simp: batch_said_def)
    obtain r' where r': "checked_inc (cb_round ?b) = Some r'" and rest: "run_rounds env t u ApprovalAware None r' s1 = (Inr out, s)"
      using run batch q None
      by (auto simp: continue_pending_turn_def act_bind_def run_turn_inner_def act_then_def ret_def split: option.splits)
    have "unat r' = Suc (Suc (length xs))" using r' xs(2) by (auto simp: checked_inc_Some unat_inc)
    then have "rounds_said j ?cfg (ms @ exchange_messages j x) ApprovalAware (Suc (Suc (length xs))) out s"
      using talk_rounds [OF j x(2) rest] by (simp only:)
    then have "rounds_said j ?cfg ms ApprovalAware (1 + length xs) out s"
      using rounds_said_Cons [OF x(1)] by (simp only: plus_1_eq_Suc)
    then show ?thesis unfolding turn_said_def ms_def by (rule rounds_said_appends [OF xs(1)])
  qed
qed

lemma resumed_turn_said:
  assumes j: "en_serde env = j" and waiting: "waiting_turn j user a b"
    and run: "approve_pending_tool env d b = (Inr res, a')"
  shows "case res of TurnDone x \<Rightarrow> complete_turn j user a x a' | TurnAwaiting q \<Rightarrow> waiting_turn j user a a'"
proof -
  obtain p where p: "ag_pending b = Some p" using waiting by (auto simp: waiting_turn_def)
  let ?s0 = "\<lparr>rn_agent = b\<lparr>ag_pending := None, ag_state := AgentRunning\<rparr>, rn_tracker = pn_tracker p, rn_looks = 1\<rparr>"
  let ?t = "ts_id (tk_snapshot (pn_tracker p))"
  obtain out s where s: "continue_pending_turn env ?t (pn_user_message p) (pn_batch p) (pn_next_call p) d ?s0 = (out, s)"
    by (cases "continue_pending_turn env ?t (pn_user_message p) (pn_batch p) (pn_next_call p) d ?s0")
  have fin: "finish_turn_outcome env (pn_user_message p) (out, s) = (Inr res, a')"
    using run p s by (simp add: approve_pending_tool_def Let_def split: if_splits sum.splits)
  then obtain o' where o': "out = Inr o'" by (cases out) (auto simp: finish_turn_outcome_def Let_def)
  show ?thesis
    by (rule finish_said [OF continued_turn_said [OF j waiting p _ _ s [unfolded o']] fin [unfolded o']]) simp_all
qed

lemma legacy_turn_talk:
  assumes j: "en_serde env = j" and run: "run_turn env user a = (Inr res, a')"
  shows "complete_turn j user a res a'"
proof -
  obtain t a1 where begun: "begin_turn env (lit ''start a turn'') user a = (Inr t, a1)"
    using run by (cases "begin_turn env (lit ''start a turn'') user a"; cases "fst (begin_turn env (lit ''start a turn'') user a)")
      (auto simp: run_turn_def act_bind_def)
  let ?s0 = "\<lparr>rn_agent = a1, rn_tracker = tracker_new t, rn_looks = 1\<rparr>"
  obtain out s where s: "run_turn_inner env t user 1 True Legacy None ?s0 = (out, s)"
    by (cases "run_turn_inner env t user 1 True Legacy None ?s0")
  obtain y where y: "out = Inr (InnerCompleted y)"
    using run begun s by (cases out) (auto simp: run_turn_def act_bind_def Let_def split: inner_outcome.splits)
  have "turn_said j user a Legacy (InnerCompleted y) s"
    by (rule started_turn_said [OF j begun s [unfolded y]])
  then show ?thesis
    by (rule completed_said) (use run begun s y in \<open>auto simp: run_turn_def act_bind_def Let_def\<close>)
qed

section \<open>Whole turns\<close>

text \<open>
  A turn from its start to an answer of the agent: a direct turn, or an approval-aware one followed by as
  many resumptions as it asks for. Each call may find other tools, another model and another token.
\<close>

inductive turn_goes ::
  "'v session_serde \<Rightarrow> 'v chat_message \<Rightarrow> ('v, 'm, 'c, 't) agent \<Rightarrow> 'v turn_outcome \<Rightarrow> ('v, 'm, 'c, 't) agent \<Rightarrow> bool"
  for j :: "'v session_serde" and user :: "'v chat_message" and a :: "('v, 'm, 'c, 't) agent" where
  goes_direct: "en_serde env = j \<Longrightarrow> run_turn env user a = (Inr res, a') \<Longrightarrow> turn_goes j user a (TurnDone res) a'"
| goes_aware: "en_serde env = j \<Longrightarrow> run_turn_with_approval env user a = (Inr out, a') \<Longrightarrow> turn_goes j user a out a'"
| goes_resumed: "turn_goes j user a (TurnAwaiting q) b \<Longrightarrow> en_serde env = j \<Longrightarrow>
    approve_pending_tool env d b = (Inr out, a') \<Longrightarrow> turn_goes j user a out a'"

lemma turn_goes_said:
  assumes "turn_goes j user a out a'"
  shows "case out of TurnDone x \<Rightarrow> complete_turn j user a x a' | TurnAwaiting q \<Rightarrow> waiting_turn j user a a'"
  using assms
proof induction
  case goes_direct
  then show ?case using legacy_turn_talk by simp
next
  case goes_aware
  then show ?case by (rule aware_turn_said)
next
  case (goes_resumed q b env d out a')
  show ?case by (rule resumed_turn_said [OF goes_resumed.hyps(2) _ goes_resumed.hyps(3)]) (use goes_resumed.IH in simp)
qed

end
