(* ===== verification/Agent_Theorems.thy ===== *)
theory Agent_Theorems
  imports Agent_Demo Agent_Transcript
begin

text \<open>
  The properties of the agent: budgets per turn, the shape of a completed turn, the approval gate, and
  two flaws of the approval path.
\<close>

section \<open>Budgets\<close>

text \<open>C4: the budget holds for every turn. In any agent reached by running turns, resolving and cancelling
  approvals and resetting conversations, whatever the model, the tools, the cancellation and serde do,
  the session never records more model requests for one turn than the model budget, nor more tool
  results than the tool budget, approvals and resumptions included.\<close>

theorem turn_budget_respected:
  assumes "reach agent_start (agent_step j) a"
  shows "model_requests t (ag_session a) \<le> unat (bg_max_model_calls (cfg_budget (ag_config a))) \<and>
    tool_results t (ag_session a) \<le> unat (bg_max_tool_calls (cfg_budget (ag_config a)))"
  using agent.reach_inv [OF assms] by (simp add: agent_inv_def session_good_def within_budget_def)

lemma demo_waiting_simps:
  "ag_state (demo_waiting n) = AgentAwaitingApproval" "ag_config (demo_waiting n) = demo_config n"
  "ag_tools (demo_waiting n) = (0, ())"
  "ag_pending (demo_waiting n) = Some \<lparr>pn_tracker = demo_tracker, pn_user_message = demo_user,
     pn_request = demo_request, pn_batch = demo_batch, pn_next_call = 0\<rparr>"
  by (simp_all add: demo_waiting_def demo_agent_def)

theorem turn_budget_respected_witness:
  "model_requests demo_turn (ag_session (demo_waiting 1)) = 1 \<and>
   model_requests demo_turn (ag_session (demo_waiting 1)) \<le> 9"
proof -
  have "model_requests demo_turn (ag_session (demo_waiting 1)) = 1"
    by (simp add: demo_waiting_def counts_def session_events_def demo_log_def demo_session_def)
  moreover have "model_requests demo_turn (ag_session (demo_waiting 1)) \<le> unat (9 :: u32)"
    using turn_budget_respected [OF demo_waiting_reach, of 1 demo_turn]
    by (simp only: demo_waiting_simps demo_config_def agent_config.simps turn_budget.simps) simp
  ultimately show ?thesis by simp
qed

section \<open>Completed turns\<close>

text \<open>C7: a completed turn answers every call. When a turn completes, be it a direct one or an approval-aware
  one that was resumed by any number of decisions, the conversation has grown since its start by the user's
  message, then fewer exchanges than the round limit, each an assistant message asking for at least one
  tool call followed by one result per call, with the same ids and names in the same order, and last by the
  assistant message that is the turn's response. While it waits for an approval, the conversation has grown
  by the user's message, complete exchanges, and the message of the pending batch with the results of
  exactly the calls before the pending one.\<close>

theorem completed_turn_answers_calls:
  assumes "turn_goes j user a out a'"
  shows "case out of
      TurnDone res \<Rightarrow> \<exists>xs. list_all answered xs \<and> length xs < unat (bg_max_rounds (cfg_budget (ag_config a))) \<and>
        conversation j (ag_session a') = conversation j (ag_session a) @
          [user] @ concat (map (exchange_messages j) xs) @ [message_assistant (cr_content (tn_response res))]
    | TurnAwaiting q \<Rightarrow> \<exists>p xs rs. ag_pending a' = Some p \<and> list_all answered xs \<and>
        length xs < unat (bg_max_rounds (cfg_budget (ag_config a))) \<and> pn_next_call p < length (cb_calls (pn_batch p)) \<and>
        list_all2 answers (take (pn_next_call p) (cb_calls (pn_batch p))) rs \<and>
        conversation j (ag_session a') = conversation j (ag_session a) @ [user] @ concat (map (exchange_messages j) xs) @
          message_assistant_tool_calls (cb_calls (pn_batch p)) # map (result_message j) rs"
proof (cases out)
  case (TurnDone res)
  then show ?thesis using turn_goes_said [OF assms] by (simp add: complete_turn_def)
next
  case (TurnAwaiting q)
  then obtain p xs rs where "ag_pending a' = Some p" "list_all answered xs" "Suc (length xs) = unat (cb_round (pn_batch p))"
      "cb_round (pn_batch p) \<le> bg_max_rounds (cfg_budget (ag_config a))" "pn_next_call p < length (cb_calls (pn_batch p))"
      "list_all2 answers (take (pn_next_call p) (cb_calls (pn_batch p))) rs"
      "conversation j (ag_session a') = conversation j (ag_session a) @ [user] @ concat (map (exchange_messages j) xs) @
       message_assistant_tool_calls (cb_calls (pn_batch p)) # map (result_message j) rs"
    using turn_goes_said [OF assms] by (auto simp: waiting_turn_def)
  moreover from this have "length xs < unat (bg_max_rounds (cfg_budget (ag_config a)))" by (simp add: word_le_nat_alt)
  ultimately show ?thesis unfolding TurnAwaiting turn_outcome.case by blast
qed

theorem completed_turn_answers_calls_witness:
  "\<exists>xs. list_all answered xs \<and> conversation demo_serde (ag_session (snd demo_resumed)) =
     demo_user # concat (map (exchange_messages demo_serde) xs) @ [message_assistant (lit ''ok'')]"
proof -
  obtain res where res: "fst demo_resumed = Inr (TurnDone res)" "cr_content (tn_response res) = lit ''ok''"
    using demo_resumed_done by blast
  have "turn_goes demo_serde demo_user (demo_agent 2) (TurnAwaiting demo_request) (demo_waiting 2)"
    by (rule goes_aware [OF _ demo_turn_run]) (simp_all add: demo_env_simps)
  moreover have "approve_pending_tool demo_env demo_decision (demo_waiting 2) = (Inr (TurnDone res), snd demo_resumed)"
    using res(1) by (metis demo_resumed_def prod.collapse)
  ultimately have "turn_goes demo_serde demo_user (demo_agent 2) (TurnDone res) (snd demo_resumed)"
    using goes_resumed demo_env_simps(4) by blast
  moreover have "conversation demo_serde (ag_session (demo_agent 2)) = []"
    by (simp add: demo_agent_def demo_session_def conversation_def)
  ultimately show ?thesis
    using completed_turn_answers_calls [of demo_serde demo_user "demo_agent 2" "TurnDone res"] res(2) by auto
qed

section \<open>The approval gate\<close>

text \<open>C5: without an approval nothing runs. Behind the approval wrapper with its default policy, neither a
  direct turn, nor an approval-aware turn, nor the denial of a pending call changes the wrapped broker's
  state, whatever the model asks for; so no tool has run.\<close>

theorem unapproved_tools_never_run:
  assumes "en_broker env = approval_aware_new j b"
  shows "fst (ag_tools (snd (run_turn env user a))) = fst (ag_tools a) \<and>
    fst (ag_tools (snd (run_turn_with_approval env user a))) = fst (ag_tools a) \<and>
    fst (ag_tools (snd (approve_pending_tool env (d\<lparr>ad_state := Denied reason\<rparr>) a))) = fst (ag_tools a)"
proof -
  have "fst (ag_tools a') = fst (ag_tools a)" if "approve_pending_tool env (d\<lparr>ad_state := Denied reason\<rparr>) a = (r, a')" for r a'
    using wrapper.approve_guarded [OF assms that] by auto
  then show ?thesis
    using wrapper.run_turn_guarded [OF assms, of user a] wrapper.run_turn_with_approval_guarded [OF assms, of user a]
    by (metis prod.collapse)
qed

lemma demo_env_broker: "en_broker demo_env = approval_aware_new (values_of demo_serde) demo_broker"
  by (simp add: demo_env_def)

theorem unapproved_tools_never_run_witness:
  "fst (ag_tools (snd (run_turn_with_approval demo_env demo_user (demo_agent 1)))) = 0"
  using unapproved_tools_never_run [OF demo_env_broker, of demo_user "demo_agent 1"]
  by (simp add: demo_agent_def)

text \<open>C6: an approval runs at most the call it names, once. Resolving a pending call behind the wrapper
  leaves the wrapped broker either untouched or changed by exactly one approved execution, of the call
  that was pending, under the given decision, which names that call's round, id and tool; every further
  call of the turn has to ask again.\<close>

theorem approval_runs_one_call:
  assumes "en_broker env = approval_aware_new j b" and "ag_pending a = Some p"
    and "q = \<lparr>rq_turn_id = ts_id (tk_snapshot (pn_tracker p)), rq_round = cb_round (pn_batch p),
              rq_call = cb_calls (pn_batch p) ! pn_next_call p\<rparr>"
  shows "fst (ag_tools (snd (approve_pending_tool env d a))) = fst (ag_tools a) \<or>
    (approval_names d q \<and>
     (\<exists>tok. fst (ag_tools (snd (approve_pending_tool env d a))) = snd (tb_execute_approved b q d tok (fst (ag_tools a)))))"
proof -
  obtain r a' where run: "approve_pending_tool env d a = (r, a')" by (cases "approve_pending_tool env d a")
  show ?thesis
    using wrapper.approve_guarded [OF assms(1) run] assms(2,3) run by (auto simp: Let_def)
qed

theorem approval_runs_one_call_witness:
  "fst (ag_tools (snd (approve_pending_tool demo_env demo_decision (demo_waiting 2)))) \<le> 1"
proof -
  have "snd (tb_execute_approved demo_broker q d tok n) = Suc n" for q d tok n
    by (simp add: demo_broker_def plain_broker_def default_execute_approved_def)
  then show ?thesis
    using approval_runs_one_call [OF demo_env_broker demo_waiting_simps(4) [of 2] refl, of demo_decision]
    by (auto simp: demo_waiting_simps)
qed

section \<open>Flaws of the approval path\<close>

text \<open>C35: a pending call is charged twice. The tool budget is charged when a call is put up for approval and
  again when the approval resumes it, so once the charged calls, the pending one included, reach the
  limit, approving that call never runs it: the turn ends with the tool budget exceeded and the tools are
  untouched. With a budget of one call no approved call can ever run.\<close>

theorem approved_call_charged_twice:
  assumes "ag_state a = AgentAwaitingApproval" and "ag_pending a = Some p"
    and "validate_pending_decision (pn_request p) d = Inr ()" and "\<forall>n. token_check (en_token env n) = Inr ()"
    and "pn_next_call p < length (cb_calls (pn_batch p))"
    and "tk_tool_calls (pn_tracker p) = bg_max_tool_calls (cfg_budget (ag_config a))"
  shows "(let limit = bg_max_tool_calls (cfg_budget (ag_config a)); (r, a') = approve_pending_tool env d a in
    r = Inl (AeBudgetExceeded BudgetToolCalls (ucast limit) (ucast limit)) \<and> ag_tools a' = ag_tools a \<and>
    ag_state a' = AgentReady \<and> ag_pending a' = None)"
proof -
  have calls: "drop (pn_next_call p) (enumerate 0 (cb_calls (pn_batch p))) =
      (pn_next_call p, cb_calls (pn_batch p) ! pn_next_call p) # drop (Suc (pn_next_call p)) (enumerate 0 (cb_calls (pn_batch p)))"
    using assms(5) by (simp add: wrapper.drop_enumerate)
  show ?thesis
    using assms
    by (simp add: approve_pending_tool_def continue_pending_turn_def process_tool_batch_def calls process_call_def
        act_bind_def act_then_def check_cancelled_def look_def lift_res_def charge_tool_call_def budget_of_def Let_def
        finish_turn_outcome_def close_failed_frame)
qed

theorem approved_call_charged_twice_witness:
  "fst (approve_pending_tool demo_env demo_decision (demo_waiting 1)) = Inl (AeBudgetExceeded BudgetToolCalls 1 1)"
proof -
  have "\<forall>n. token_check (en_token demo_env n) = Inr ()" by simp
  from approved_call_charged_twice [OF demo_waiting_simps(1) demo_waiting_simps(4) _ this, of demo_decision 1]
  show ?thesis
    by (simp add: demo_decision_matches demo_batch_parts demo_tracker_def demo_waiting_simps demo_config_def Let_def
        split: prod.splits)
qed

definition stranded :: "('v, 'm, 'c, 't) agent \<Rightarrow> bool" where
  "stranded a \<longleftrightarrow> ag_state a = AgentAwaitingApproval \<and> ag_pending a = None"

lemma stranded_step: "agent_step j a a' \<Longrightarrow> stranded a \<Longrightarrow> stranded a'"
  by (cases rule: agent_step.cases)
     (auto simp: stranded_def run_turn_def run_turn_with_approval_def begin_turn_def act_bind_def
       approve_pending_tool_def cancel_pending_turn_def reset_conversation_def Let_def)

lemma stranded_steps: "(agent_step j)\<^sup>*\<^sup>* a a' \<Longrightarrow> stranded a \<Longrightarrow> stranded a'"
  by (induction rule: rtranclp_induct) (auto intro: stranded_step)

text \<open>C36: cancelling with a blank reason strands the agent. The pending turn is dropped before the
  cancellation is recorded; when recording fails, as it does for a blank reason, the agent is left waiting
  for an approval with nothing pending. From then on no sequence of operations changes that: it can
  neither run a turn, nor resolve or cancel the approval, nor reset its conversation.\<close>

theorem blank_cancel_strands_agent:
  assumes "ag_state a = AgentAwaitingApproval" and "ag_pending a = Some p" and "blank reason" and "en_serde env = j"
    and "(agent_step j)\<^sup>*\<^sup>* (snd (cancel_pending_turn env reason a)) a'"
  shows "\<not> is_ok (fst (cancel_pending_turn env reason a)) \<and> ag_state a' = AgentAwaitingApproval \<and> ag_pending a' = None"
proof -
  let ?e = "TurnCancelled (ts_id (tk_snapshot (pn_tracker p))) reason"
  have "validate_event j ?e \<noteq> Inr ()"
    using assms(3) by (simp add: validate_event_def session_text_def)
  then obtain x where app: "session_append j ?e (ag_session a) = (Inl x, ag_session a)"
    by (cases "validate_event j ?e") (auto simp: session_append_def)
  have "cancel_pending_turn env reason a = (Inl (AeSession x), a\<lparr>ag_pending := None, ag_session := ag_session a\<rparr>)"
    using assms(1,2,4) app by (simp add: cancel_pending_turn_def Let_def)
  then have "\<not> is_ok (fst (cancel_pending_turn env reason a)) \<and> stranded (snd (cancel_pending_turn env reason a))"
    using assms(1) by (simp add: stranded_def)
  then show ?thesis using stranded_steps [OF assms(5)] by (simp add: stranded_def)
qed

theorem blank_cancel_strands_agent_witness:
  "ag_state (snd (cancel_pending_turn demo_env [] (demo_waiting 1))) = AgentAwaitingApproval \<and>
   ag_pending (snd (cancel_pending_turn demo_env [] (demo_waiting 1))) = None"
proof -
  have "blank []" by (simp add: blank_def trim_def)
  from blank_cancel_strands_agent [OF demo_waiting_simps(1) demo_waiting_simps(4) this demo_env_simps(4) rtranclp.rtrancl_refl]
  show ?thesis by blast
qed

end
