(* ===== verification/Durable_File.thy ===== *)
theory Durable_File
  imports Rust_Std "HOL-Library.Sublist"
begin

text \<open>
  The files the stores persist in. A disk maps paths to nodes; what the operating system answers to a
  call is scripted, so that every call may be refused and a write may be torn; every state the disk
  goes through is remembered, because a process can be killed between any two of them. On it, the
  replacement of a file through a temporary file and a backup, which four stores of the workspace
  share word for word (\<open>replace_file\<close> of \<open>yunxi-multi-agent\<close>, \<open>yunxi-settings\<close>,
  \<open>yunxi-storage\<close> and \<open>yunxi-companion-mailbox\<close>), the clock they stamp with, and the
  workspace grant they are opened from (\<open>yunxi-protocol/src/grant.rs\<close>), with a calculus of weakest
  preconditions for what a program on the disk goes through.
\<close>

section \<open>Paths\<close>

type_synonym path = "rstring list"

definition dot :: rchar where "dot = ch CHR ''.''"

text \<open>The stem and the extension of a file name: the last dot separates them unless it is the first
  character.\<close>

definition file_parts :: "rstring \<Rightarrow> rstring \<times> rstring option" where
  "file_parts name =
     (if name = lit ''..'' then (name, None)
      else (case dropWhile (\<lambda>c. c \<noteq> dot) (rev name) of
              [] \<Rightarrow> (name, None)
            | _ # before \<Rightarrow>
                if before = [] then (name, None)
                else (rev before, Some (rev (takeWhile (\<lambda>c. c \<noteq> dot) (rev name))))))"

definition path_join :: "path \<Rightarrow> rstring \<Rightarrow> path" where
  "path_join p name = p @ [name]"

definition path_parent :: "path \<Rightarrow> path option" where
  "path_parent p = (if p = [] then None else Some (butlast p))"

definition with_extension :: "path \<Rightarrow> rstring \<Rightarrow> path" where
  "with_extension p ext =
     (if p = [] \<or> last p = lit ''..'' then p
      else butlast p @ [fst (file_parts (last p)) @ (if ext = [] then [] else dot # ext)])"

definition path_extension :: "path \<Rightarrow> rstring option" where
  "path_extension p = (if p = [] then None else snd (file_parts (last p)))"

definition backup_path :: "path \<Rightarrow> path" where
  "backup_path p = with_extension p (lit ''json.bak'')"

section \<open>The disk\<close>

datatype io_error = IoNotFound | IoAlreadyExists | IoOther rstring

datatype node = FileNode "u8 list" | DirNode

type_synonym files = "path \<rightharpoonup> node"

datatype io_answer = Granted | Refused rstring | Torn "u8 list" rstring

record disk =
  dk_files :: files
  dk_answers :: "io_answer list"
  dk_past :: "files list"
  dk_clock :: "nat list"

definition next_answer :: "'w disk_scheme \<Rightarrow> io_answer \<times> 'w disk_scheme" where
  "next_answer d =
     (case dk_answers d of [] \<Rightarrow> (Granted, d) | a # as \<Rightarrow> (a, d\<lparr>dk_answers := as\<rparr>))"

definition put_files :: "files \<Rightarrow> 'w disk_scheme \<Rightarrow> 'w disk_scheme" where
  "put_files f d = d\<lparr>dk_files := f, dk_past := dk_past d @ [f]\<rparr>"

text \<open>A call is either refused, or answered from the files it finds.\<close>

definition sys_call :: "(files \<Rightarrow> (io_error, files option \<times> 'a) res) \<Rightarrow> ('w disk_scheme, io_error, 'a) act" where
  "sys_call f d =
     (case next_answer d of
        (Granted, d') \<Rightarrow>
          (case f (dk_files d') of
             Inl e \<Rightarrow> (Inl e, d')
           | Inr (None, x) \<Rightarrow> (Inr x, d')
           | Inr (Some g, x) \<Rightarrow> (Inr x, put_files g d'))
      | (Refused m, d') \<Rightarrow> (Inl (IoOther m), d')
      | (Torn c m, d') \<Rightarrow> (Inl (IoOther m), d'))"

definition fs_metadata :: "path \<Rightarrow> ('w disk_scheme, io_error, node) act" where
  "fs_metadata p = sys_call (\<lambda>f. case f p of None \<Rightarrow> Inl IoNotFound | Some n \<Rightarrow> Inr (None, n))"

definition fs_read :: "path \<Rightarrow> ('w disk_scheme, io_error, u8 list) act" where
  "fs_read p = sys_call (\<lambda>f. case f p of
     None \<Rightarrow> Inl IoNotFound
   | Some DirNode \<Rightarrow> Inl (IoOther (lit ''is a directory''))
   | Some (FileNode c) \<Rightarrow> Inr (None, c))"

definition fs_create_new :: "path \<Rightarrow> ('w disk_scheme, io_error, unit) act" where
  "fs_create_new p = sys_call (\<lambda>f. case f p of
     Some n \<Rightarrow> Inl IoAlreadyExists | None \<Rightarrow> Inr (Some (f(p \<mapsto> FileNode [])), ()))"

definition fs_write_all :: "path \<Rightarrow> u8 list \<Rightarrow> ('w disk_scheme, io_error, unit) act" where
  "fs_write_all p c d =
     (case next_answer d of
        (Granted, d') \<Rightarrow> (Inr (), put_files ((dk_files d')(p \<mapsto> FileNode c)) d')
      | (Refused m, d') \<Rightarrow> (Inl (IoOther m), d')
      | (Torn c' m, d') \<Rightarrow> (Inl (IoOther m), put_files ((dk_files d')(p \<mapsto> FileNode c')) d'))"

definition fs_sync :: "('w disk_scheme, io_error, unit) act" where
  "fs_sync = sys_call (\<lambda>f. Inr (None, ()))"

definition fs_remove_file :: "path \<Rightarrow> ('w disk_scheme, io_error, unit) act" where
  "fs_remove_file p = sys_call (\<lambda>f. case f p of
     None \<Rightarrow> Inl IoNotFound
   | Some DirNode \<Rightarrow> Inl (IoOther (lit ''is a directory''))
   | Some (FileNode c) \<Rightarrow> Inr (Some (f(p := None)), ()))"

definition fs_rename :: "path \<Rightarrow> path \<Rightarrow> ('w disk_scheme, io_error, unit) act" where
  "fs_rename a b = sys_call (\<lambda>f. case f a of
     None \<Rightarrow> Inl IoNotFound
   | Some n \<Rightarrow>
       if f b = Some DirNode then Inl (IoOther (lit ''is a directory''))
       else Inr (Some (if a = b then f else f(a := None, b \<mapsto> n)), ()))"

fun is_file :: "node option \<Rightarrow> bool" where
  "is_file (Some (FileNode c)) = True"
| "is_file _ = False"

definition fs_create_dir_all :: "path \<Rightarrow> ('w disk_scheme, io_error, unit) act" where
  "fs_create_dir_all p = sys_call (\<lambda>f.
     if \<exists>q \<in> set (prefixes p). is_file (f q) then Inl IoAlreadyExists
     else Inr (Some (\<lambda>q. if q \<in> set (prefixes p) then Some DirNode else f q), ()))"

text \<open>\<open>Path::exists\<close> is a \<open>metadata\<close> call whose failure reads as absence.\<close>

definition fs_exists :: "path \<Rightarrow> ('w disk_scheme, 'e, bool) act" where
  "fs_exists p d = (case fs_metadata p d of (r, d') \<Rightarrow> (Inr (is_ok r), d'))"

definition at_path :: "path \<Rightarrow> ('s, io_error, 'a) act \<Rightarrow> ('s, path \<times> io_error, 'a) act" where
  "at_path p m d = (case m d of (r, d') \<Rightarrow> (map_err (\<lambda>e. (p, e)) r, d'))"

definition ignoring :: "('s, 'e, 'a) act \<Rightarrow> ('s, 'f, unit) act" where
  "ignoring m d = (Inr (), snd (m d))"

definition act_map_err :: "('e \<Rightarrow> 'f) \<Rightarrow> ('s, 'e, 'a) act \<Rightarrow> ('s, 'f, 'a) act" where
  "act_map_err f m d = (case m d of (r, d') \<Rightarrow> (map_err f r, d'))"

section \<open>The clock\<close>

text \<open>\<open>SystemTime::now\<close> since the epoch, in nanoseconds; an exhausted script reads as the epoch.\<close>

definition sys_nanos :: "('w disk_scheme, 'e, nat) act" where
  "sys_nanos d = (case dk_clock d of [] \<Rightarrow> (Inr 0, d) | t # ts \<Rightarrow> (Inr t, d\<lparr>dk_clock := ts\<rparr>))"

type_synonym u128 = "128 word"

definition now_millis :: "('w disk_scheme, 'e, u128) act" where
  "now_millis = act_bind sys_nanos (\<lambda>t. ret (of_nat (t div 1000000)))"

section \<open>Replacing a file\<close>

definition write_temporary :: "path \<Rightarrow> u8 list \<Rightarrow> ('w disk_scheme, path \<times> io_error, unit) act" where
  "write_temporary temporary content d =
     (case act_then (fs_write_all temporary content) fs_sync d of
        (Inl e, d') \<Rightarrow> (Inl (temporary, e), snd (fs_remove_file temporary d'))
      | (Inr _, d') \<Rightarrow> (Inr (), d'))"

definition set_aside :: "path \<Rightarrow> path \<Rightarrow> ('w disk_scheme, path \<times> io_error, unit) act" where
  "set_aside target backup =
     act_bind (fs_exists target) (\<lambda>present.
     if \<not> present then ret ()
     else
       act_then
         (act_bind (fs_exists backup) (\<lambda>stale.
            if stale then at_path backup (fs_remove_file backup) else ret ()))
         (at_path target (fs_rename target backup)))"

definition move_in :: "path \<Rightarrow> path \<Rightarrow> path \<Rightarrow> ('w disk_scheme, path \<times> io_error, unit) act" where
  "move_in target temporary backup d =
     (case fs_rename temporary target d of
        (Inl e, d') \<Rightarrow>
          (Inl (target, e),
           snd (act_then
                  (act_bind (fs_exists backup) (\<lambda>b. if b then ignoring (fs_rename backup target) else ret ()))
                  (ignoring (fs_remove_file temporary) :: (_, io_error, unit) act) d'))
      | (Inr _, d') \<Rightarrow>
          act_bind (fs_exists backup) (\<lambda>b. if b then ignoring (fs_remove_file backup) else ret ()) d')"

definition swap_file :: "path \<Rightarrow> path \<Rightarrow> path \<Rightarrow> u8 list \<Rightarrow> ('w disk_scheme, path \<times> io_error, unit) act" where
  "swap_file target temporary backup content =
     act_then (at_path temporary (fs_create_new temporary))
    (act_then (write_temporary temporary content)
    (act_then (set_aside target backup)
              (move_in target temporary backup)))"

section \<open>Workspace grants\<close>

record workspace_grant =
  wg_root :: path
  wg_state_root :: "path option"
  wg_legacy_read :: bool
  wg_next_write :: bool
  wg_workspace_write :: bool

definition grant_read_only :: "path \<Rightarrow> workspace_grant" where
  "grant_read_only root = \<lparr>wg_root = root, wg_state_root = None, wg_legacy_read = True,
     wg_next_write = False, wg_workspace_write = False\<rparr>"

definition grant_read_write :: "path \<Rightarrow> workspace_grant" where
  "grant_read_write root = \<lparr>wg_root = root, wg_state_root = None, wg_legacy_read = True,
     wg_next_write = True, wg_workspace_write = False\<rparr>"

definition grant_with_state_root :: "workspace_grant \<Rightarrow> path \<Rightarrow> workspace_grant" where
  "grant_with_state_root g p = g\<lparr>wg_state_root := Some p\<rparr>"

definition grant_with_workspace_write :: "workspace_grant \<Rightarrow> workspace_grant" where
  "grant_with_workspace_write g = g\<lparr>wg_workspace_write := True\<rparr>"

section \<open>What a program on the disk goes through\<close>

definition passes :: "(files \<Rightarrow> bool) \<Rightarrow> 'w disk_scheme \<Rightarrow> 'w disk_scheme \<Rightarrow> bool" where
  "passes I d d' \<longleftrightarrow>
     (\<exists>fs. dk_past d' = dk_past d @ fs \<and> dk_files d' = last (dk_files d # fs) \<and> (\<forall>f \<in> set fs. I f))"

definition wp :: "(files \<Rightarrow> bool) \<Rightarrow> ('w disk_scheme, 'e, 'a) act \<Rightarrow> (('e, 'a) res \<Rightarrow> files \<Rightarrow> bool) \<Rightarrow> files \<Rightarrow> bool" where
  "wp I m Q f \<longleftrightarrow>
     (\<forall>d. dk_files d = f \<longrightarrow> passes I d (snd (m d)) \<and> Q (fst (m d)) (dk_files (snd (m d))))"

named_theorems wp_rules \<open>weakest preconditions of the file operations\<close>

lemma passes_refl [simp]: "passes I d d"
  by (simp add: passes_def)

lemma passes_answers [simp]:
  "passes I d (d'\<lparr>dk_answers := as\<rparr>) = passes I d d'"
  "passes I (d\<lparr>dk_answers := as\<rparr>) d' = passes I d d'"
  by (simp_all add: passes_def)

lemma passes_trans: "passes I d d' \<Longrightarrow> passes I d' d'' \<Longrightarrow> passes I d d''"
proof -
  assume "passes I d d'" "passes I d' d''"
  then obtain fs gs where
    "dk_past d' = dk_past d @ fs" "dk_files d' = last (dk_files d # fs)" "\<forall>f \<in> set fs. I f"
    "dk_past d'' = dk_past d' @ gs" "dk_files d'' = last (dk_files d' # gs)" "\<forall>f \<in> set gs. I f"
    by (auto simp: passes_def)
  then show "passes I d d''" unfolding passes_def by (intro exI [of _ "fs @ gs"]) (auto simp: last_append)
qed

lemma passes_put [simp]: "I g \<Longrightarrow> passes I d (put_files g d)"
  unfolding passes_def by (intro exI [of _ "[g]"]) (simp add: put_files_def)

lemma put_files_simps [simp]:
  "dk_files (put_files g d) = g"
  "dk_past (put_files g d) = dk_past d @ [g]"
  by (simp_all add: put_files_def)

lemma next_answer_frame:
  "next_answer d = (a, d') \<Longrightarrow> dk_files d' = dk_files d \<and> passes I d d'"
  by (auto simp: next_answer_def split: list.splits)

lemma wp_mono: "wp I m Q f \<Longrightarrow> (\<And>r g. Q r g \<Longrightarrow> Q' r g) \<Longrightarrow> wp I m Q' f"
  by (auto simp: wp_def)

lemma wp_ret [wp_rules]: "Q (Inr x) f \<Longrightarrow> wp I (ret x) Q f"
  by (simp add: wp_def ret_def)

lemma wp_bind [wp_rules]:
  fixes m :: "('w disk_scheme, 'e, 'a) act"
  assumes "wp I m (\<lambda>r g. case r of Inl e \<Rightarrow> Q (Inl e) g | Inr x \<Rightarrow> wp I (k x) Q g) f"
  shows "wp I (act_bind m k) Q f"
  unfolding wp_def
proof (intro allI impI)
  fix d :: "'w disk_scheme"
  assume d: "dk_files d = f"
  obtain r d1 where m: "m d = (r, d1)" by fastforce
  have p: "passes I d d1" "case r of Inl e \<Rightarrow> Q (Inl e) (dk_files d1) | Inr x \<Rightarrow> wp I (k x) Q (dk_files d1)"
    using assms [unfolded wp_def [of I m], rule_format, OF d] unfolding m fst_conv snd_conv by simp_all
  show "passes I d (snd (act_bind m k d)) \<and> Q (fst (act_bind m k d)) (dk_files (snd (act_bind m k d)))"
  proof (cases r)
    case (Inl e)
    then show ?thesis using p m by (simp add: act_bind_def)
  next
    case (Inr x)
    then have "passes I d1 (snd (k x d1))" "Q (fst (k x d1)) (dk_files (snd (k x d1)))"
      using p(2) by (auto simp: wp_def)
    then show ?thesis using p(1) m Inr by (auto simp: act_bind_def intro: passes_trans)
  qed
qed

lemma wp_then [wp_rules]:
  "wp I m (\<lambda>r g. case r of Inl e \<Rightarrow> Q (Inl e) g | Inr x \<Rightarrow> wp I n Q g) f \<Longrightarrow> wp I (act_then m n) Q f"
  unfolding act_then_def by (rule wp_bind) simp

lemma wp_sys_call:
  assumes "\<And>m. Q (Inl (IoOther m)) f"
    and "\<And>e. c f = Inl e \<Longrightarrow> Q (Inl e) f"
    and "\<And>x. c f = Inr (None, x) \<Longrightarrow> Q (Inr x) f"
    and "\<And>g x. c f = Inr (Some g, x) \<Longrightarrow> I g \<and> Q (Inr x) g"
  shows "wp I (sys_call c) Q f"
  unfolding wp_def
proof (intro allI impI)
  fix d
  assume d: "dk_files d = f"
  obtain a d1 where n: "next_answer d = (a, d1)" by fastforce
  have f: "dk_files d1 = f" "passes I d d1" using next_answer_frame [OF n] d by auto
  show "passes I d (snd (sys_call c d)) \<and> Q (fst (sys_call c d)) (dk_files (snd (sys_call c d)))"
  proof (cases a)
    case Granted
    show ?thesis
    proof (cases "c f")
      case (Inl e)
      then show ?thesis using n Granted f assms(2) by (simp add: sys_call_def)
    next
      case (Inr y)
      obtain o' x where y: "y = (o', x)" by fastforce
      show ?thesis
      proof (cases o')
        case None
        then show ?thesis using n Granted f Inr y assms(3) by (simp add: sys_call_def)
      next
        case (Some g)
        with Inr y assms(4) have g: "I g" "Q (Inr x) g" by auto
        have "passes I d (put_files g d1)" using f(2) g(1) by (blast intro: passes_trans passes_put)
        then show ?thesis using n Granted f Inr y Some g by (simp add: sys_call_def)
      qed
    qed
  qed (use n f assms(1) in \<open>auto simp: sys_call_def\<close>)
qed

lemma wp_create_new [wp_rules]:
  assumes "\<And>e. Q (Inl e) f"
    and "f p = None \<Longrightarrow> I (f(p \<mapsto> FileNode []))"
    and "f p = None \<Longrightarrow> Q (Inr ()) (f(p \<mapsto> FileNode []))"
  shows "wp I (fs_create_new p) Q f"
  unfolding fs_create_new_def by (rule wp_sys_call) (use assms in \<open>auto split: option.splits\<close>)

lemma wp_remove_file [wp_rules]:
  assumes "\<And>e. Q (Inl e) f"
    and "f p \<noteq> None \<Longrightarrow> I (f(p := None))"
    and "f p \<noteq> None \<Longrightarrow> Q (Inr ()) (f(p := None))"
  shows "wp I (fs_remove_file p) Q f"
  unfolding fs_remove_file_def
  by (rule wp_sys_call) (use assms in \<open>auto split: option.splits node.splits\<close>)

lemma wp_rename [wp_rules]:
  assumes "\<And>e. Q (Inl e) f" "a \<noteq> b"
    and "\<And>n. f a = Some n \<Longrightarrow> f b \<noteq> Some DirNode \<Longrightarrow> I (f(a := None, b \<mapsto> n))"
    and "\<And>n. f a = Some n \<Longrightarrow> f b \<noteq> Some DirNode \<Longrightarrow> Q (Inr ()) (f(a := None, b \<mapsto> n))"
  shows "wp I (fs_rename a b) Q f"
  unfolding fs_rename_def
  by (rule wp_sys_call) (use assms in \<open>auto split: option.splits if_splits\<close>)

lemma wp_sync [wp_rules]: "(\<And>e. Q (Inl e) f) \<Longrightarrow> Q (Inr ()) f \<Longrightarrow> wp I fs_sync Q f"
  unfolding fs_sync_def by (rule wp_sys_call) auto

lemma wp_metadata [wp_rules]:
  "(\<And>e. Q (Inl e) f) \<Longrightarrow> (\<And>n. f p = Some n \<Longrightarrow> Q (Inr n) f) \<Longrightarrow> wp I (fs_metadata p) Q f"
  unfolding fs_metadata_def by (rule wp_sys_call) (auto split: option.splits)

lemma wp_exists [wp_rules]:
  assumes "Q (Inr False) f" "f p \<noteq> None \<Longrightarrow> Q (Inr True) f"
  shows "wp I (fs_exists p) Q f"
proof -
  have "wp I (fs_metadata p) (\<lambda>r g. Q (Inr (is_ok r)) g) f"
    by (rule wp_metadata) (use assms in auto)
  then show ?thesis by (auto simp: wp_def fs_exists_def split: prod.splits)
qed

lemma wp_write_all [wp_rules]:
  assumes "\<And>e. Q (Inl e) f" "\<And>c' e. Q (Inl e) (f(p \<mapsto> FileNode c'))"
    and "\<And>c'. I (f(p \<mapsto> FileNode c'))" "Q (Inr ()) (f(p \<mapsto> FileNode c))"
  shows "wp I (fs_write_all p c) Q f"
  unfolding wp_def
proof (intro allI impI)
  fix d
  assume d: "dk_files d = f"
  obtain a d1 where n: "next_answer d = (a, d1)" by fastforce
  have f: "dk_files d1 = f" "passes I d d1" using next_answer_frame [OF n] d by auto
  have "passes I d (put_files (f(p \<mapsto> FileNode c')) d1)" for c'
    using f(2) assms(3) by (blast intro: passes_trans passes_put)
  then show "passes I d (snd (fs_write_all p c d)) \<and> Q (fst (fs_write_all p c d)) (dk_files (snd (fs_write_all p c d)))"
    using n f assms by (cases a) (auto simp: fs_write_all_def)
qed

lemma wp_at_path [wp_rules]: "wp I m (\<lambda>r g. Q (map_err (\<lambda>e. (p, e)) r) g) f \<Longrightarrow> wp I (at_path p m) Q f"
  by (auto simp: wp_def at_path_def split: prod.splits)

lemma wp_map_err [wp_rules]: "wp I m (\<lambda>r g. Q (map_err h r) g) f \<Longrightarrow> wp I (act_map_err h m) Q f"
  by (auto simp: wp_def act_map_err_def split: prod.splits)

lemma wp_ignoring [wp_rules]: "wp I m (\<lambda>r g. Q (Inr ()) g) f \<Longrightarrow> wp I (ignoring m) Q f"
  by (auto simp: wp_def ignoring_def)

lemma wp_if [wp_rules]:
  "(b \<Longrightarrow> wp I m Q f) \<Longrightarrow> (\<not> b \<Longrightarrow> wp I n Q f) \<Longrightarrow> wp I (if b then m else n) Q f"
  by simp

lemma wp_lift_res [wp_rules]: "Q r f \<Longrightarrow> wp I (lift_res r) Q f"
  by (simp add: wp_def lift_res_def)

lemma wp_throw [wp_rules]: "Q (Inl e) f \<Longrightarrow> wp I (throw e) Q f"
  by (simp add: wp_def throw_def)

lemma wp_sys_nanos [wp_rules]: "(\<And>t. Q (Inr t) f) \<Longrightarrow> wp I sys_nanos Q f"
  by (auto simp: wp_def sys_nanos_def passes_def split: list.splits)

lemma wp_now_millis [wp_rules]: "(\<And>t. Q (Inr t) f) \<Longrightarrow> wp I now_millis Q f"
  unfolding now_millis_def by (auto intro!: wp_bind wp_sys_nanos wp_ret)

lemma is_file_iff: "is_file x \<longleftrightarrow> (\<exists>c. x = Some (FileNode c))"
  by (cases x rule: is_file.cases) auto

lemma wp_create_dir_all [wp_rules]:
  assumes "\<And>e. Q (Inl e) f"
    and "(\<And>q c. q \<in> set (prefixes p) \<Longrightarrow> f q \<noteq> Some (FileNode c)) \<Longrightarrow>
         I (\<lambda>q. if q \<in> set (prefixes p) then Some DirNode else f q) \<and>
         Q (Inr ()) (\<lambda>q. if q \<in> set (prefixes p) then Some DirNode else f q)"
  shows "wp I (fs_create_dir_all p) Q f"
  unfolding fs_create_dir_all_def by (rule wp_sys_call) (use assms in \<open>auto simp: is_file_iff split: if_splits\<close>)

text \<open>A metadata call followed by a choice on its answer.\<close>

lemma wp_on_metadata:
  fixes k :: "(io_error, node) res \<Rightarrow> ('w disk_scheme, 'e, 'a) act"
  assumes "f p = None \<Longrightarrow> wp I (k (Inl IoNotFound)) Q f"
    and "\<And>m. wp I (k (Inl (IoOther m))) Q f"
    and "\<And>n. f p = Some n \<Longrightarrow> wp I (k (Inr n)) Q f"
    and eq: "\<And>d. n d = (case fs_metadata p d of (r, d') \<Rightarrow> k r d')"
  shows "wp I n Q f"
  unfolding wp_def
proof (intro allI impI)
  fix d :: "'w disk_scheme"
  assume d: "dk_files d = f"
  obtain r d1 where m: "fs_metadata p d = (r, d1)" by fastforce
  have "wp I (fs_metadata p) (\<lambda>r g. g = f \<and> wp I (k r) Q g) f"
    unfolding fs_metadata_def by (rule wp_sys_call) (use assms(1-3) in \<open>auto split: option.splits\<close>)
  then have p: "passes I d d1" "dk_files d1 = f" "wp I (k r) Q f"
    using d m by (auto simp: wp_def [of I "fs_metadata p"])
  then have "passes I d1 (snd (k r d1))" "Q (fst (k r d1)) (dk_files (snd (k r d1)))"
    by (auto simp: wp_def)
  then show "passes I d (snd (n d)) \<and> Q (fst (n d)) (dk_files (snd (n d)))"
    using p(1) m eq [of d] by (auto intro: passes_trans)
qed

lemma wp_read [wp_rules]:
  "(\<And>e. Q (Inl e) f) \<Longrightarrow> (\<And>c. f p = Some (FileNode c) \<Longrightarrow> Q (Inr c) f) \<Longrightarrow> wp I (fs_read p) Q f"
  unfolding fs_read_def by (rule wp_sys_call) (auto split: option.splits node.splits)

text \<open>Recovery after a failed call: the failure is reported whatever the clean-up does.\<close>

lemma wp_recover:
  fixes m :: "('w disk_scheme, 'e, 'a) act"
  assumes "wp I m (\<lambda>r g. case r of Inl e \<Rightarrow> wp I (h e) (\<lambda>_. Q (Inl (u e))) g | Inr x \<Rightarrow> wp I (k x) Q g) f"
    and eq: "\<And>d. n d = (case m d of (Inl e, d') \<Rightarrow> (Inl (u e), snd (h e d')) | (Inr x, d') \<Rightarrow> k x d')"
  shows "wp I n Q f"
  unfolding wp_def
proof (intro allI impI)
  fix d :: "'w disk_scheme"
  assume d: "dk_files d = f"
  obtain r d1 where m: "m d = (r, d1)" by fastforce
  have p: "passes I d d1"
    "case r of Inl e \<Rightarrow> wp I (h e) (\<lambda>_. Q (Inl (u e))) (dk_files d1) | Inr x \<Rightarrow> wp I (k x) Q (dk_files d1)"
    using assms(1) [unfolded wp_def [of I m], rule_format, OF d] unfolding m fst_conv snd_conv by simp_all
  show "passes I d (snd (n d)) \<and> Q (fst (n d)) (dk_files (snd (n d)))"
  proof (cases r)
    case (Inl e)
    then have "passes I d1 (snd (h e d1))" "Q (Inl (u e)) (dk_files (snd (h e d1)))"
      using p(2) by (auto simp: wp_def)
    then show ?thesis using p(1) m Inl eq [of d] by (auto intro: passes_trans)
  next
    case (Inr x)
    then have "passes I d1 (snd (k x d1))" "Q (fst (k x d1)) (dk_files (snd (k x d1)))"
      using p(2) by (auto simp: wp_def)
    then show ?thesis using p(1) m Inr eq [of d] by (auto intro: passes_trans)
  qed
qed

section \<open>What a reader of the target and its backup sees\<close>

definition seen :: "path \<Rightarrow> path \<Rightarrow> files \<Rightarrow> node option" where
  "seen target backup f = (case f target of Some n \<Rightarrow> Some n | None \<Rightarrow> f backup)"

text \<open>
  A crash, a refused call or a torn write leaves the old node or the new one to be read. Only a backup
  that an earlier, incomplete clean-up left beside the target can take its place.
\<close>

definition keeps :: "path \<Rightarrow> path \<Rightarrow> files \<Rightarrow> node \<Rightarrow> files \<Rightarrow> bool" where
  "keeps target backup f new g \<longleftrightarrow>
     seen target backup g \<in> {seen target backup f, Some new} \<or>
     (f target \<noteq> None \<and> f backup \<noteq> None \<and> seen target backup g = f backup)"

lemma wp_write_temporary [wp_rules]:
  assumes I: "\<And>n. I (f(temporary := n))"
    and Q: "\<And>e n. Q (Inl (temporary, e)) (f(temporary := n))" "Q (Inr ()) (f(temporary \<mapsto> FileNode content))"
  shows "wp I (write_temporary temporary content) Q f"
proof (rule wp_recover [where u = "\<lambda>e. (temporary, e)"])
  have "Q (Inl (temporary, e)) f" for e using Q(1) [of e "f temporary"] by simp
  then show "wp I (act_then (fs_write_all temporary content) fs_sync)
      (\<lambda>r g. case r of Inl e \<Rightarrow> wp I (fs_remove_file temporary) (\<lambda>_. Q (Inl (temporary, e))) g
                     | Inr x \<Rightarrow> wp I (ret x) Q g) f"
    using I Q by (auto intro!: wp_rules)
qed (auto simp: write_temporary_def ret_def split: prod.splits sum.splits)

lemma wp_set_aside [wp_rules]:
  assumes "target \<noteq> backup" "\<And>e. Q (Inl e) f" "Q (Inr ()) f"
    and "\<And>e. f target \<noteq> None \<Longrightarrow> f backup \<noteq> None \<Longrightarrow> Q (Inl e) (f(backup := None))"
    and "f target \<noteq> None \<Longrightarrow> I (f(backup := None))"
    and "\<And>n. f target = Some n \<Longrightarrow> I (f(target := None, backup \<mapsto> n)) \<and> Q (Inr ()) (f(target := None, backup \<mapsto> n))"
  shows "wp I (set_aside target backup) Q f"
  using assms unfolding set_aside_def by (auto intro!: wp_rules simp: fun_upd_twist)

lemma wp_move_in [wp_rules]:
  assumes d: "target \<noteq> backup" "temporary \<noteq> target" "temporary \<noteq> backup"
    and fail: "\<And>e. Q (Inl (target, e)) f" "\<And>e. Q (Inl (target, e)) (f(temporary := None))"
      "\<And>e n. f backup = Some n \<Longrightarrow> Q (Inl (target, e)) (f(backup := None, target \<mapsto> n))"
      "\<And>e n. f backup = Some n \<Longrightarrow> Q (Inl (target, e)) (f(backup := None, target \<mapsto> n, temporary := None))"
    and failI: "I (f(temporary := None))" "\<And>n. f backup = Some n \<Longrightarrow> I (f(backup := None, target \<mapsto> n))"
      "\<And>n. f backup = Some n \<Longrightarrow> I (f(backup := None, target \<mapsto> n, temporary := None))"
    and ok: "\<And>n. f temporary = Some n \<Longrightarrow> I (f(temporary := None, target \<mapsto> n))"
      "\<And>n. f temporary = Some n \<Longrightarrow> I (f(temporary := None, target \<mapsto> n, backup := None))"
      "\<And>n. f temporary = Some n \<Longrightarrow> Q (Inr ()) (f(temporary := None, target \<mapsto> n))"
      "\<And>n. f temporary = Some n \<Longrightarrow> Q (Inr ()) (f(temporary := None, target \<mapsto> n, backup := None))"
  shows "wp I (move_in target temporary backup) Q f"
proof (rule wp_recover [where u = "\<lambda>e. (target, e)"
      and h = "\<lambda>_. act_then
                  (act_bind (fs_exists backup) (\<lambda>b. if b then ignoring (fs_rename backup target) else ret ()))
                  (ignoring (fs_remove_file temporary) :: (_, io_error, unit) act)"
      and k = "\<lambda>_. act_bind (fs_exists backup) (\<lambda>b. if b then ignoring (fs_remove_file backup) else ret ())"])
  show "wp I (fs_rename temporary target)
     (\<lambda>r g. case r of
         Inl e \<Rightarrow> wp I (act_then
                  (act_bind (fs_exists backup) (\<lambda>b. if b then ignoring (fs_rename backup target) else ret ()))
                  (ignoring (fs_remove_file temporary) :: (_, io_error, unit) act)) (\<lambda>_. Q (Inl (target, e))) g
       | Inr x \<Rightarrow> wp I (act_bind (fs_exists backup)
                  (\<lambda>b. if b then ignoring (fs_remove_file backup) else ret ())) Q g) f"
    using assms by (auto intro!: wp_rules)
qed (auto simp: move_in_def split: prod.splits sum.splits)

text \<open>What replacing a file promises, whatever the operating system answers.\<close>

definition swapped :: "path \<Rightarrow> path \<Rightarrow> path \<Rightarrow> u8 list \<Rightarrow> files \<Rightarrow> files \<Rightarrow> bool" where
  "swapped target temporary backup content f g \<longleftrightarrow>
     keeps target backup f (FileNode content) g \<and>
     {g target, g backup} \<subseteq> {f target, f backup, Some (FileNode content), None} \<and>
     (\<forall>q. q \<notin> {target, temporary, backup} \<longrightarrow> g q = f q)"

fun swap_result :: "path \<Rightarrow> path \<Rightarrow> path \<Rightarrow> u8 list \<Rightarrow> files \<Rightarrow> (path \<times> io_error, unit) res \<Rightarrow> files \<Rightarrow> bool" where
  "swap_result target temporary backup content f (Inr _) g \<longleftrightarrow>
     swapped target temporary backup content f g \<and> g target = Some (FileNode content)"
| "swap_result target temporary backup content f (Inl _) g \<longleftrightarrow>
     swapped target temporary backup content f g \<and> {g target, g backup} \<subseteq> {f target, f backup, None} \<and>
     (f target = None \<or> f backup = None \<longrightarrow> seen target backup g = seen target backup f)"

lemma wp_swap_file:
  assumes d: "target \<noteq> backup" "temporary \<noteq> target" "temporary \<noteq> backup"
  shows "wp (swapped target temporary backup content f) (swap_file target temporary backup content)
           (swap_result target temporary backup content f) f"
  unfolding swap_file_def
  using d d [symmetric]
  by (cases "f target"; cases "f backup")
    (auto intro!: wp_rules simp: swapped_def keeps_def seen_def)

lemma file_parts_append:
  assumes "x \<noteq> []" "dot \<notin> set e" "x @ dot # e \<noteq> lit ''..''"
  shows "file_parts (x @ dot # e) = (x, Some e)"
proof -
  have e: "\<forall>c \<in> set (rev e). c \<noteq> dot" using assms(2) by auto
  then have "dropWhile (\<lambda>c. c \<noteq> dot) (rev e @ dot # rev x) = dot # rev x"
    "takeWhile (\<lambda>c. c \<noteq> dot) (rev e @ dot # rev x) = rev e"
    by (subst dropWhile_append2 takeWhile_append2; simp)+
  then show ?thesis using assms by (simp add: file_parts_def)
qed

lemma json_bak_parts:
  "x \<noteq> [] \<Longrightarrow> file_parts (x @ dot # lit ''json.bak'') = (x @ dot # lit ''json'', Some (lit ''bak''))"
proof -
  assume "x \<noteq> []"
  have "file_parts ((x @ dot # lit ''json'') @ dot # lit ''bak'') = (x @ dot # lit ''json'', Some (lit ''bak''))"
    by (rule file_parts_append) (auto simp: dot_def ch_def lit_def append_eq_Cons_conv)
  then show ?thesis by (simp add: dot_def ch_def lit_def)
qed

text \<open>A JSON document, its backup and a temporary file with a leading dot are three files.\<close>

lemma backup_of_json: "x \<noteq> [] \<Longrightarrow> backup_path (p @ [x @ lit ''.json'']) = p @ [x @ lit ''.json.bak'']"
proof -
  assume x: "x \<noteq> []"
  then have "file_parts (x @ dot # lit ''json'') = (x, Some (lit ''json''))"
    by (intro file_parts_append) (auto simp: dot_def ch_def lit_def append_eq_Cons_conv)
  moreover have "lit ''.json'' = dot # lit ''json''" "lit ''.json.bak'' = dot # lit ''json.bak''"
    by (simp_all add: dot_def ch_def lit_def)
  moreover have "x @ dot # lit ''json'' \<noteq> lit ''..''"
    by (auto simp: dot_def ch_def lit_def append_eq_Cons_conv)
  ultimately show ?thesis by (simp add: backup_path_def with_extension_def)
       (simp add: lit_def)
qed

lemma json_paths_differ:
  assumes "x \<noteq> []" "hd x \<noteq> dot"
  shows "p @ [x @ lit ''.json''] \<noteq> p @ [x @ lit ''.json.bak'']"
    and "p @ [lit ''.'' @ t] \<noteq> p @ [x @ lit ''.json'']"
    and "p @ [lit ''.'' @ t] \<noteq> p @ [x @ lit ''.json.bak'']"
  using assms by (auto simp: lit_def dot_def ch_def Cons_eq_append_conv)

end
