(* ===== verification/Agent_Graph_Protocol.thy ===== *)
theory Agent_Graph_Protocol
  imports Durable_File Wire_Contract
begin

text \<open>
  The contracts of multi-agent coordination (\<open>yunxi-protocol/src/multi_agent.rs\<close>): budgets and
  delegation grants, the statuses, transcript entries, snapshots and events of the agents of a session,
  and the requests and results of the seven operations, each with the validation the code runs on it.
\<close>

section \<open>Limits and errors\<close>

definition ROOT_AGENT_ID :: rstring where "ROOT_AGENT_ID = lit ''root''"
definition MAX_AGENT_COUNT :: u16 where "MAX_AGENT_COUNT = 16"
definition MAX_AGENT_DEPTH :: u16 where "MAX_AGENT_DEPTH = 4"
definition MAX_AGENT_TURNS_PER_AGENT :: u16 where "MAX_AGENT_TURNS_PER_AGENT = 16"
definition MAX_AGENT_TOTAL_TURNS :: u16 where "MAX_AGENT_TOTAL_TURNS = 64"
definition MAX_AGENT_EVENTS :: nat where "MAX_AGENT_EVENTS = 256"
definition MAX_AGENT_TRANSCRIPT_ENTRIES :: nat where "MAX_AGENT_TRANSCRIPT_ENTRIES = 64"
definition MAX_AGENT_MESSAGE_BYTES :: nat where "MAX_AGENT_MESSAGE_BYTES = 64 * 1024"
definition MAX_AGENT_REPLY_BYTES :: nat where "MAX_AGENT_REPLY_BYTES = 256 * 1024"
definition MAX_AGENT_ID_BYTES :: nat where "MAX_AGENT_ID_BYTES = 128"
definition MAX_AGENT_SESSION_ID_BYTES :: nat where "MAX_AGENT_SESSION_ID_BYTES = 128"
definition MAX_AGENT_NAME_BYTES :: nat where "MAX_AGENT_NAME_BYTES = 64"
definition MAX_AGENT_TICKET_BYTES :: nat where "MAX_AGENT_TICKET_BYTES = 128"
definition MAX_AGENT_DETAIL_BYTES :: nat where "MAX_AGENT_DETAIL_BYTES = 4096"
definition MAX_DELEGATED_GRANTS :: nat where "MAX_DELEGATED_GRANTS = 8"

datatype agent_protocol_error =
    ApEmptyField rstring
  | ApFieldTooLong rstring nat nat
  | ApControlCharacter rstring
  | ApInvalidToken rstring rstring
  | ApLimitOutOfRange rstring u16 u16
  | ApTooManyDelegatedGrants nat nat
  | ApDuplicateDelegatedGrant grant_kind
  | ApUndelegableGrant grant_kind
  | ApGrantEscalation
  | ApTooManyAgents nat nat
  | ApTooManyEvents nat nat
  | ApTooManyTranscriptEntries nat nat
  | ApZeroEventSequence
  | ApRootCannotBeTargeted

fun show_agent_protocol_error :: "agent_protocol_error \<Rightarrow> rstring" where
  "show_agent_protocol_error (ApEmptyField f) = f @ lit '' cannot be empty''"
| "show_agent_protocol_error (ApFieldTooLong f l m) =
     f @ lit '' is '' @ show_nat l @ lit '' bytes; maximum is '' @ show_nat m"
| "show_agent_protocol_error (ApControlCharacter f) = f @ lit '' contains a NUL character''"
| "show_agent_protocol_error (ApInvalidToken f v) = f @ lit '' '' @ quoted v @ lit '' is not a valid identifier''"
| "show_agent_protocol_error (ApLimitOutOfRange f v m) =
     f @ lit '' value '' @ show_nat (unat v) @ lit '' is outside 1..='' @ show_nat (unat m)"
| "show_agent_protocol_error (ApTooManyDelegatedGrants c m) =
     lit ''agent delegation contains '' @ show_nat c @ lit '' grants; maximum is '' @ show_nat m"
| "show_agent_protocol_error (ApDuplicateDelegatedGrant g) =
     lit ''agent delegation repeats grant '' @ quoted (show_grant_kind g)"
| "show_agent_protocol_error (ApUndelegableGrant g) =
     lit ''grant '' @ quoted (show_grant_kind g) @ lit '' cannot be delegated to a child agent''"
| "show_agent_protocol_error ApGrantEscalation =
     lit ''requested child grants exceed the host-issued delegation authority''"
| "show_agent_protocol_error (ApTooManyAgents c m) =
     lit ''agent result contains '' @ show_nat c @ lit '' agents; maximum is '' @ show_nat m"
| "show_agent_protocol_error (ApTooManyEvents c m) =
     lit ''agent result contains '' @ show_nat c @ lit '' events; maximum is '' @ show_nat m"
| "show_agent_protocol_error (ApTooManyTranscriptEntries c m) =
     lit ''agent transcript contains '' @ show_nat c @ lit '' entries; maximum is '' @ show_nat m"
| "show_agent_protocol_error ApZeroEventSequence = lit ''agent event sequence must be greater than zero''"
| "show_agent_protocol_error ApRootCannotBeTargeted = lit ''the root agent cannot be interrupted''"

type_synonym 'a ap_res = "(agent_protocol_error, 'a) res"

section \<open>Field validation\<close>

definition validate_limit :: "rstring \<Rightarrow> u16 \<Rightarrow> u16 \<Rightarrow> unit ap_res" where
  "validate_limit field value maximum =
     (if value = 0 \<or> maximum < value then Inl (ApLimitOutOfRange field value maximum) else Inr ())"

definition token_char :: "rchar \<Rightarrow> bool" where
  "token_char c \<longleftrightarrow> is_ascii_alphanumeric c \<or> c = ch CHR ''-'' \<or> c = ch CHR ''_'' \<or> c = ch CHR ''.''"

definition agent_validate_token :: "rstring \<Rightarrow> rstring \<Rightarrow> nat \<Rightarrow> unit ap_res" where
  "agent_validate_token field value maximum =
     (if value = [] then Inl (ApEmptyField field)
      else if maximum < str_len value then Inl (ApFieldTooLong field (str_len value) maximum)
      else if \<not> is_ascii_alphanumeric (hd value) \<or> \<not> (\<forall>c \<in> set value. token_char c)
      then Inl (ApInvalidToken field value)
      else Inr ())"

definition validate_agent_id :: "rstring \<Rightarrow> unit ap_res" where
  "validate_agent_id value = agent_validate_token (lit ''agent id'') value MAX_AGENT_ID_BYTES"

definition agent_validate_text :: "rstring \<Rightarrow> rstring \<Rightarrow> nat \<Rightarrow> unit ap_res" where
  "agent_validate_text field value maximum =
     (if blank value then Inl (ApEmptyField field)
      else if maximum < str_len value then Inl (ApFieldTooLong field (str_len value) maximum)
      else if 0 \<in> set value then Inl (ApControlCharacter field)
      else Inr ())"

definition undelegable :: "grant_kind \<Rightarrow> bool" where
  "undelegable g \<longleftrightarrow> g \<in> {Approval, ProviderCredential, AgentDelegation, Device}"

fun grants_from :: "grant_kind list \<Rightarrow> grant_kind list \<Rightarrow> unit ap_res" where
  "grants_from seen_grants [] = Inr ()"
| "grants_from seen_grants (g # gs) =
     (if undelegable g then Inl (ApUndelegableGrant g)
      else if g \<in> set seen_grants then Inl (ApDuplicateDelegatedGrant g)
      else grants_from (bs_insert g seen_grants) gs)"

definition agent_validate_grants :: "grant_kind list \<Rightarrow> unit ap_res" where
  "agent_validate_grants gs =
     (if MAX_DELEGATED_GRANTS < length gs
      then Inl (ApTooManyDelegatedGrants (length gs) MAX_DELEGATED_GRANTS)
      else grants_from [] gs)"

fun validate_all :: "('a \<Rightarrow> ('e, unit) res) \<Rightarrow> 'a list \<Rightarrow> ('e, unit) res" where
  "validate_all v [] = Inr ()"
| "validate_all v (x # xs) = res_bind (v x) (\<lambda>_. validate_all v xs)"

section \<open>Budgets and delegation grants\<close>

record agent_budget =
  ab_max_agents :: u16
  ab_max_depth :: u16
  ab_max_turns_per_agent :: u16
  ab_max_total_turns :: u16

definition validate_budget :: "agent_budget \<Rightarrow> unit ap_res" where
  "validate_budget b =
     res_bind (validate_limit (lit ''max_agents'') (ab_max_agents b) MAX_AGENT_COUNT) (\<lambda>_.
     res_bind (validate_limit (lit ''max_depth'') (ab_max_depth b) MAX_AGENT_DEPTH) (\<lambda>_.
     res_bind (validate_limit (lit ''max_turns_per_agent'') (ab_max_turns_per_agent b) MAX_AGENT_TURNS_PER_AGENT) (\<lambda>_.
     validate_limit (lit ''max_total_turns'') (ab_max_total_turns b) MAX_AGENT_TOTAL_TURNS)))"

definition budget_new :: "u16 \<Rightarrow> u16 \<Rightarrow> u16 \<Rightarrow> u16 \<Rightarrow> agent_budget ap_res" where
  "budget_new a d t n =
     (let b = \<lparr>ab_max_agents = a, ab_max_depth = d, ab_max_turns_per_agent = t, ab_max_total_turns = n\<rparr>
      in res_bind (validate_budget b) (\<lambda>_. Inr b))"

definition conservative_budget :: agent_budget where
  "conservative_budget =
     \<lparr>ab_max_agents = 4, ab_max_depth = 2, ab_max_turns_per_agent = 4, ab_max_total_turns = 12\<rparr>"

definition budget_contains :: "agent_budget \<Rightarrow> agent_budget \<Rightarrow> bool" where
  "budget_contains b requested \<longleftrightarrow>
     ab_max_agents requested \<le> ab_max_agents b \<and> ab_max_depth requested \<le> ab_max_depth b \<and>
     ab_max_turns_per_agent requested \<le> ab_max_turns_per_agent b \<and>
     ab_max_total_turns requested \<le> ab_max_total_turns b"

record delegation_grant =
  dg_workspace :: workspace_grant
  dg_session_id :: rstring
  dg_ticket :: rstring
  dg_budget :: agent_budget
  dg_allowed :: "grant_kind list"

definition validate_delegation :: "delegation_grant \<Rightarrow> unit ap_res" where
  "validate_delegation g =
     res_bind (agent_validate_token (lit ''agent session id'') (dg_session_id g) MAX_AGENT_SESSION_ID_BYTES) (\<lambda>_.
     res_bind (agent_validate_text (lit ''agent delegation ticket'') (dg_ticket g) MAX_AGENT_TICKET_BYTES) (\<lambda>_.
     res_bind (validate_budget (dg_budget g)) (\<lambda>_.
     agent_validate_grants (dg_allowed g))))"

definition delegation_new :: "workspace_grant \<Rightarrow> rstring \<Rightarrow> rstring \<Rightarrow> agent_budget \<Rightarrow> delegation_grant ap_res" where
  "delegation_new w s t b =
     (let g = \<lparr>dg_workspace = w, dg_session_id = s, dg_ticket = t, dg_budget = b, dg_allowed = []\<rparr>
      in res_bind (validate_delegation g) (\<lambda>_. Inr g))"

definition with_allowed_child_grants :: "delegation_grant \<Rightarrow> grant_kind list \<Rightarrow> delegation_grant ap_res" where
  "with_allowed_child_grants g gs =
     (let g' = g\<lparr>dg_allowed := gs\<rparr> in res_bind (validate_delegation g') (\<lambda>_. Inr g'))"

definition permits :: "delegation_grant \<Rightarrow> grant_kind list \<Rightarrow> bool" where
  "permits g requested \<longleftrightarrow> (\<forall>k \<in> set requested. k \<in> set (dg_allowed g))"

section \<open>Agents, transcripts and events\<close>

datatype agent_status = AsPending | AsRunning | AsCompleted | AsFailed | AsInterrupted

datatype agent_event_kind = AeSpawned | AeTurnStarted | AeCompleted | AeFailed | AeInterrupted

datatype transcript_role = RoleOfUser | RoleOfAssistant

record transcript_entry =
  te_role :: transcript_role
  te_content :: rstring

definition transcript_entry_new :: "transcript_role \<Rightarrow> rstring \<Rightarrow> nat \<Rightarrow> transcript_entry ap_res" where
  "transcript_entry_new role content maximum =
     res_bind (agent_validate_text (lit ''agent transcript content'') content maximum)
       (\<lambda>_. Inr \<lparr>te_role = role, te_content = content\<rparr>)"

definition transcript_user :: "rstring \<Rightarrow> transcript_entry ap_res" where
  "transcript_user content = transcript_entry_new RoleOfUser content MAX_AGENT_MESSAGE_BYTES"

definition transcript_assistant :: "rstring \<Rightarrow> transcript_entry ap_res" where
  "transcript_assistant content = transcript_entry_new RoleOfAssistant content MAX_AGENT_REPLY_BYTES"

definition validate_transcript_entry :: "transcript_entry \<Rightarrow> unit ap_res" where
  "validate_transcript_entry e =
     agent_validate_text (lit ''agent transcript content'') (te_content e)
       (case te_role e of RoleOfUser \<Rightarrow> MAX_AGENT_MESSAGE_BYTES | RoleOfAssistant \<Rightarrow> MAX_AGENT_REPLY_BYTES)"

record agent_snapshot =
  sn_id :: rstring
  sn_parent_id :: rstring
  sn_name :: rstring
  sn_depth :: u16
  sn_status :: agent_status
  sn_turns_used :: u16
  sn_child_grants :: "grant_kind list"
  sn_created_at :: u128
  sn_updated_at :: u128

definition validate_agent_snapshot :: "agent_snapshot \<Rightarrow> unit ap_res" where
  "validate_agent_snapshot s =
     res_bind (validate_agent_id (sn_id s)) (\<lambda>_.
     res_bind (validate_agent_id (sn_parent_id s)) (\<lambda>_.
     res_bind (agent_validate_text (lit ''agent name'') (sn_name s) MAX_AGENT_NAME_BYTES) (\<lambda>_.
     res_bind (validate_limit (lit ''agent depth'') (sn_depth s) MAX_AGENT_DEPTH) (\<lambda>_.
     if MAX_AGENT_TURNS_PER_AGENT < sn_turns_used s
     then Inl (ApLimitOutOfRange (lit ''agent turns used'') (sn_turns_used s) MAX_AGENT_TURNS_PER_AGENT)
     else agent_validate_grants (sn_child_grants s)))))"

definition agent_snapshot_new :: "agent_snapshot \<Rightarrow> agent_snapshot ap_res" where
  "agent_snapshot_new s = res_bind (validate_agent_snapshot s) (\<lambda>_. Inr s)"

record agent_event =
  ev_sequence :: u64
  ev_agent_id :: rstring
  ev_kind :: agent_event_kind
  ev_detail :: rstring
  ev_at_millis :: u128

definition validate_agent_event :: "agent_event \<Rightarrow> unit ap_res" where
  "validate_agent_event e =
     (if ev_sequence e = 0 then Inl ApZeroEventSequence
      else res_bind (validate_agent_id (ev_agent_id e)) (\<lambda>_.
        agent_validate_text (lit ''agent event detail'') (ev_detail e) MAX_AGENT_DETAIL_BYTES))"

definition agent_event_new :: "u64 \<Rightarrow> rstring \<Rightarrow> agent_event_kind \<Rightarrow> rstring \<Rightarrow> u128 \<Rightarrow> agent_event ap_res" where
  "agent_event_new n i k detail t =
     (let e = \<lparr>ev_sequence = n, ev_agent_id = i, ev_kind = k, ev_detail = detail, ev_at_millis = t\<rparr>
      in res_bind (validate_agent_event e) (\<lambda>_. Inr e))"

section \<open>Requests and results\<close>

record spawn_request =
  sq_grant :: delegation_grant
  sq_parent_id :: rstring
  sq_name :: "rstring option"
  sq_task :: rstring
  sq_requested :: "grant_kind list"

definition validate_spawn :: "spawn_request \<Rightarrow> unit ap_res" where
  "validate_spawn q =
     res_bind (validate_delegation (sq_grant q)) (\<lambda>_.
     res_bind (validate_agent_id (sq_parent_id q)) (\<lambda>_.
     res_bind (case sq_name q of
         Some name \<Rightarrow> agent_validate_text (lit ''agent name'') name MAX_AGENT_NAME_BYTES
       | None \<Rightarrow> Inr ()) (\<lambda>_.
     res_bind (agent_validate_text (lit ''agent task'') (sq_task q) MAX_AGENT_MESSAGE_BYTES) (\<lambda>_.
     res_bind (agent_validate_grants (sq_requested q)) (\<lambda>_.
     if permits (sq_grant q) (sq_requested q) then Inr () else Inl ApGrantEscalation)))))"

definition spawn_request_new :: "delegation_grant \<Rightarrow> rstring \<Rightarrow> spawn_request ap_res" where
  "spawn_request_new g task =
     (let q = \<lparr>sq_grant = g, sq_parent_id = ROOT_AGENT_ID, sq_name = None, sq_task = task, sq_requested = []\<rparr>
      in res_bind (validate_spawn q) (\<lambda>_. Inr q))"

definition spawn_with_parent :: "spawn_request \<Rightarrow> rstring \<Rightarrow> spawn_request ap_res" where
  "spawn_with_parent q p = (let q' = q\<lparr>sq_parent_id := p\<rparr> in res_bind (validate_spawn q') (\<lambda>_. Inr q'))"

definition spawn_with_name :: "spawn_request \<Rightarrow> rstring \<Rightarrow> spawn_request ap_res" where
  "spawn_with_name q n = (let q' = q\<lparr>sq_name := Some n\<rparr> in res_bind (validate_spawn q') (\<lambda>_. Inr q'))"

definition spawn_with_grants :: "spawn_request \<Rightarrow> grant_kind list \<Rightarrow> spawn_request ap_res" where
  "spawn_with_grants q gs = (let q' = q\<lparr>sq_requested := gs\<rparr> in res_bind (validate_spawn q') (\<lambda>_. Inr q'))"

record spawn_result =
  sp_agent :: agent_snapshot
  sp_event :: agent_event

record list_result =
  lr_budget :: agent_budget
  lr_agents :: "agent_snapshot list"
  lr_events :: "agent_event list"
  lr_total_turns :: u16
  lr_truncated :: bool

definition list_result_new ::
  "agent_budget \<Rightarrow> agent_snapshot list \<Rightarrow> agent_event list \<Rightarrow> u16 \<Rightarrow> bool \<Rightarrow> list_result ap_res" where
  "list_result_new b as es n t =
     (if unat MAX_AGENT_COUNT < length as then Inl (ApTooManyAgents (length as) (unat MAX_AGENT_COUNT))
      else if MAX_AGENT_EVENTS < length es then Inl (ApTooManyEvents (length es) MAX_AGENT_EVENTS)
      else res_bind (validate_budget b) (\<lambda>_.
        res_bind (validate_all validate_agent_snapshot as) (\<lambda>_.
        res_bind (validate_all validate_agent_event es) (\<lambda>_.
        Inr \<lparr>lr_budget = b, lr_agents = as, lr_events = es, lr_total_turns = n, lr_truncated = t\<rparr>))))"

record inspect_request =
  iq_grant :: delegation_grant
  iq_agent_id :: rstring

definition validate_inspect :: "inspect_request \<Rightarrow> unit ap_res" where
  "validate_inspect q = res_bind (validate_delegation (iq_grant q)) (\<lambda>_. validate_agent_id (iq_agent_id q))"

record inspect_result =
  ir_agent :: agent_snapshot
  ir_transcript :: "transcript_entry list"

definition validate_transcript :: "transcript_entry list \<Rightarrow> unit ap_res" where
  "validate_transcript ts =
     (if MAX_AGENT_TRANSCRIPT_ENTRIES < length ts
      then Inl (ApTooManyTranscriptEntries (length ts) MAX_AGENT_TRANSCRIPT_ENTRIES)
      else validate_all validate_transcript_entry ts)"

definition inspect_result_new :: "agent_snapshot \<Rightarrow> transcript_entry list \<Rightarrow> inspect_result ap_res" where
  "inspect_result_new a ts =
     res_bind (validate_agent_snapshot a) (\<lambda>_.
     res_bind (validate_transcript ts) (\<lambda>_. Inr \<lparr>ir_agent = a, ir_transcript = ts\<rparr>))"

record turn_start_request =
  tq_grant :: delegation_grant
  tq_agent_id :: rstring
  tq_message :: rstring

definition validate_turn_start :: "turn_start_request \<Rightarrow> unit ap_res" where
  "validate_turn_start q =
     res_bind (validate_delegation (tq_grant q)) (\<lambda>_.
     res_bind (validate_agent_id (tq_agent_id q)) (\<lambda>_.
     agent_validate_text (lit ''agent message'') (tq_message q) MAX_AGENT_MESSAGE_BYTES))"

record turn_start_result =
  ts_agent :: agent_snapshot
  ts_transcript :: "transcript_entry list"
  ts_event :: agent_event

definition turn_start_result_new ::
  "agent_snapshot \<Rightarrow> transcript_entry list \<Rightarrow> agent_event \<Rightarrow> turn_start_result ap_res" where
  "turn_start_result_new a ts e =
     res_bind (validate_transcript ts) (\<lambda>_. Inr \<lparr>ts_agent = a, ts_transcript = ts, ts_event = e\<rparr>)"

record turn_complete_request =
  cq_grant :: delegation_grant
  cq_agent_id :: rstring
  cq_reply :: rstring

definition validate_turn_complete :: "turn_complete_request \<Rightarrow> unit ap_res" where
  "validate_turn_complete q =
     res_bind (validate_delegation (cq_grant q)) (\<lambda>_.
     res_bind (validate_agent_id (cq_agent_id q)) (\<lambda>_.
     agent_validate_text (lit ''agent reply'') (cq_reply q) MAX_AGENT_REPLY_BYTES))"

record turn_fail_request =
  fq_grant :: delegation_grant
  fq_agent_id :: rstring
  fq_code :: rstring
  fq_message :: rstring

definition validate_turn_fail :: "turn_fail_request \<Rightarrow> unit ap_res" where
  "validate_turn_fail q =
     res_bind (validate_delegation (fq_grant q)) (\<lambda>_.
     res_bind (validate_agent_id (fq_agent_id q)) (\<lambda>_.
     res_bind (agent_validate_token (lit ''agent failure code'') (fq_code q) 64) (\<lambda>_.
     agent_validate_text (lit ''agent failure message'') (fq_message q) MAX_AGENT_DETAIL_BYTES)))"

record interrupt_request =
  nq_grant :: delegation_grant
  nq_agent_id :: rstring
  nq_recursive :: bool

definition validate_interrupt :: "interrupt_request \<Rightarrow> unit ap_res" where
  "validate_interrupt q =
     res_bind (validate_delegation (nq_grant q)) (\<lambda>_.
     res_bind (validate_agent_id (nq_agent_id q)) (\<lambda>_.
     if nq_agent_id q = ROOT_AGENT_ID then Inl ApRootCannotBeTargeted else Inr ()))"

record mutation_result =
  mr_agents :: "agent_snapshot list"
  mr_events :: "agent_event list"

definition mutation_result_new :: "agent_snapshot list \<Rightarrow> agent_event list \<Rightarrow> mutation_result ap_res" where
  "mutation_result_new as es =
     (if unat MAX_AGENT_COUNT < length as then Inl (ApTooManyAgents (length as) (unat MAX_AGENT_COUNT))
      else if MAX_AGENT_EVENTS < length es then Inl (ApTooManyEvents (length es) MAX_AGENT_EVENTS)
      else Inr \<lparr>mr_agents = as, mr_events = es\<rparr>)"

section \<open>What validation establishes\<close>

lemma validate_all_Inr [simp]: "validate_all v xs = Inr u \<longleftrightarrow> (\<forall>x \<in> set xs. v x = Inr ())"
  by (induction xs) auto

lemma validate_limit_Inr [simp]: "validate_limit f v m = Inr u \<longleftrightarrow> v \<noteq> 0 \<and> v \<le> m"
  by (auto simp: validate_limit_def)

lemma grants_from_Inr:
  "grants_from s gs = Inr u \<longleftrightarrow> distinct gs \<and> set s \<inter> set gs = {} \<and> (\<forall>g \<in> set gs. \<not> undelegable g)"
  by (induction s gs rule: grants_from.induct) auto

lemma agent_validate_grants_Inr:
  "agent_validate_grants gs = Inr u \<longleftrightarrow>
     length gs \<le> MAX_DELEGATED_GRANTS \<and> distinct gs \<and> (\<forall>g \<in> set gs. \<not> undelegable g)"
  by (auto simp: agent_validate_grants_def grants_from_Inr)

lemma agent_validate_token_Inr:
  "agent_validate_token f v m = Inr u \<longleftrightarrow>
     v \<noteq> [] \<and> str_len v \<le> m \<and> is_ascii_alphanumeric (hd v) \<and> (\<forall>c \<in> set v. token_char c)"
  by (auto simp: agent_validate_token_def)

lemma agent_validate_text_Inr:
  "agent_validate_text f v m = Inr u \<longleftrightarrow> \<not> blank v \<and> str_len v \<le> m \<and> 0 \<notin> set v"
  by (auto simp: agent_validate_text_def)

lemma budget_contains_refl [simp]: "budget_contains b b"
  by (simp add: budget_contains_def)

lemma budget_contains_trans: "budget_contains a b \<Longrightarrow> budget_contains b c \<Longrightarrow> budget_contains a c"
  by (auto simp: budget_contains_def)

lemma hd_token_not_dot: "is_ascii_alphanumeric c \<Longrightarrow> c \<noteq> dot"
  by (auto simp: ascii_classes dot_def ch_def)

end
