(* ===== verification/Agent_Graph.thy ===== *)
theory Agent_Graph
  imports Agent_Graph_Protocol
begin

text \<open>
  The multi-agent coordinator (\<open>yunxi-multi-agent/src/store.rs\<close>, \<open>plugin.rs\<close>): the session
  document with its agents and events, the operations of the store opened from a request's own grant,
  recovery after a coordinator restart, and the typed dispatch of a request. What serde answers about a
  document, what \<open>canonicalize\<close> answers about a path and the process id are arguments
  (\<open>graph_env\<close>); the file system and the clock are the state.
\<close>

section \<open>Errors\<close>

datatype multi_agent_error =
    MaProtocol agent_protocol_error
  | MaWorkspace path io_error
  | MaNotDirectory path
  | MaInvalidPath path
  | MaWorkspaceEscape path
  | MaInvalidInstanceId rstring
  | MaWriteNotGranted
  | MaAuthorityMismatch
  | MaAuthorityEscalation
  | MaGrantEscalation
  | MaAgentNotFound rstring
  | MaParentNotFound rstring
  | MaParentUnavailable rstring
  | MaAgentLimitReached u16
  | MaDepthLimitReached u16
  | MaAgentTurnLimitReached rstring u16
  | MaTotalTurnLimitReached u16
  | MaTranscriptLimitReached rstring
  | MaAlreadyRunning rstring
  | MaNotRunning rstring
  | MaInterrupted rstring
  | MaUnsupportedVersion u32
  | MaInvalidDocument rstring
  | MaDocumentTooLarge path nat
  | MaIo path io_error
  | MaParse path rstring
  | MaSerialize rstring

fun multi_agent_error_code :: "multi_agent_error \<Rightarrow> rstring" where
  "multi_agent_error_code (MaProtocol e) = lit ''invalid_request''"
| "multi_agent_error_code (MaInvalidInstanceId v) = lit ''invalid_request''"
| "multi_agent_error_code MaWriteNotGranted = lit ''write_not_granted''"
| "multi_agent_error_code MaAuthorityMismatch = lit ''delegation_denied''"
| "multi_agent_error_code MaAuthorityEscalation = lit ''delegation_denied''"
| "multi_agent_error_code MaGrantEscalation = lit ''delegation_denied''"
| "multi_agent_error_code (MaAgentNotFound i) = lit ''agent_not_found''"
| "multi_agent_error_code (MaParentNotFound i) = lit ''agent_not_found''"
| "multi_agent_error_code (MaParentUnavailable i) = lit ''agent_interrupted''"
| "multi_agent_error_code (MaInterrupted i) = lit ''agent_interrupted''"
| "multi_agent_error_code (MaAgentLimitReached n) = lit ''agent_budget_exhausted''"
| "multi_agent_error_code (MaDepthLimitReached n) = lit ''agent_budget_exhausted''"
| "multi_agent_error_code (MaAgentTurnLimitReached i n) = lit ''agent_budget_exhausted''"
| "multi_agent_error_code (MaTotalTurnLimitReached n) = lit ''agent_budget_exhausted''"
| "multi_agent_error_code (MaTranscriptLimitReached i) = lit ''agent_budget_exhausted''"
| "multi_agent_error_code (MaAlreadyRunning i) = lit ''agent_busy''"
| "multi_agent_error_code (MaNotRunning i) = lit ''invalid_agent_state''"
| "multi_agent_error_code _ = lit ''multi_agent_storage_error''"

text \<open>How a path and an operating system error are displayed is the platform's.\<close>

record display =
  dp_path :: "path \<Rightarrow> rstring"
  dp_io :: "io_error \<Rightarrow> rstring"

fun show_multi_agent_error :: "display \<Rightarrow> multi_agent_error \<Rightarrow> rstring" where
  "show_multi_agent_error s (MaProtocol e) = show_agent_protocol_error e"
| "show_multi_agent_error s (MaWorkspace p e) = lit ''cannot resolve workspace '' @ dp_path s p @ lit '': '' @ dp_io s e"
| "show_multi_agent_error s (MaNotDirectory p) = lit ''workspace is not a directory: '' @ dp_path s p"
| "show_multi_agent_error s (MaInvalidPath p) = lit ''invalid state path: '' @ dp_path s p"
| "show_multi_agent_error s (MaWorkspaceEscape p) =
     lit ''multi-agent state resolved outside the granted workspace: '' @ dp_path s p"
| "show_multi_agent_error s (MaInvalidInstanceId v) = lit ''coordinator instance id '' @ quoted v @ lit '' is invalid''"
| "show_multi_agent_error s MaWriteNotGranted = lit ''Next state write access was not granted''"
| "show_multi_agent_error s MaAuthorityMismatch = lit ''request authority does not match this coordinator store''"
| "show_multi_agent_error s MaAuthorityEscalation =
     lit ''request authority exceeds the authority stored for this agent session''"
| "show_multi_agent_error s MaGrantEscalation = lit ''child grants exceed its parent agent grants''"
| "show_multi_agent_error s (MaAgentNotFound i) = lit ''agent '' @ quoted i @ lit '' was not found''"
| "show_multi_agent_error s (MaParentNotFound i) = lit ''parent agent '' @ quoted i @ lit '' was not found''"
| "show_multi_agent_error s (MaParentUnavailable i) = lit ''parent agent '' @ quoted i @ lit '' is interrupted''"
| "show_multi_agent_error s (MaAgentLimitReached n) =
     lit ''agent count budget of '' @ show_nat (unat n) @ lit '' is exhausted''"
| "show_multi_agent_error s (MaDepthLimitReached n) =
     lit ''agent depth budget of '' @ show_nat (unat n) @ lit '' is exhausted''"
| "show_multi_agent_error s (MaAgentTurnLimitReached i n) =
     lit ''agent '' @ quoted i @ lit '' exhausted its '' @ show_nat (unat n) @ lit ''-turn budget''"
| "show_multi_agent_error s (MaTotalTurnLimitReached n) =
     lit ''agent session exhausted its '' @ show_nat (unat n) @ lit ''-turn budget''"
| "show_multi_agent_error s (MaTranscriptLimitReached i) = lit ''agent '' @ quoted i @ lit '' transcript is full''"
| "show_multi_agent_error s (MaAlreadyRunning i) = lit ''agent '' @ quoted i @ lit '' is already running''"
| "show_multi_agent_error s (MaNotRunning i) = lit ''agent '' @ quoted i @ lit '' has no active turn''"
| "show_multi_agent_error s (MaInterrupted i) = lit ''agent '' @ quoted i @ lit '' is interrupted''"
| "show_multi_agent_error s (MaUnsupportedVersion v) =
     lit ''multi-agent document version '' @ show_nat (unat v) @ lit '' is unsupported''"
| "show_multi_agent_error s (MaInvalidDocument m) = lit ''multi-agent document is invalid: '' @ m"
| "show_multi_agent_error s (MaDocumentTooLarge p m) =
     lit ''multi-agent document '' @ dp_path s p @ lit '' exceeds '' @ show_nat m @ lit '' bytes''"
| "show_multi_agent_error s (MaIo p e) = lit ''multi-agent I/O failed at '' @ dp_path s p @ lit '': '' @ dp_io s e"
| "show_multi_agent_error s (MaParse p e) =
     lit ''cannot parse multi-agent document '' @ dp_path s p @ lit '': '' @ e"
| "show_multi_agent_error s (MaSerialize e) = lit ''cannot encode multi-agent state: '' @ e"

type_synonym 'a ma_res = "(multi_agent_error, 'a) res"
type_synonym 'a ma_act = "(disk, multi_agent_error, 'a) act"

section \<open>The session document\<close>

definition DOCUMENT_VERSION :: u32 where "DOCUMENT_VERSION = 1"
definition MAX_DOCUMENT_BYTES :: nat where "MAX_DOCUMENT_BYTES = 4 * 1024 * 1024"

record stored_agent =
  sa_id :: rstring
  sa_parent_id :: rstring
  sa_name :: rstring
  sa_depth :: u16
  sa_status :: agent_status
  sa_turns_used :: u16
  sa_child_grants :: "grant_kind list"
  sa_transcript :: "transcript_entry list"
  sa_created_at :: u128
  sa_updated_at :: u128

definition agent_snapshot_of :: "stored_agent \<Rightarrow> agent_snapshot ma_res" where
  "agent_snapshot_of a = map_err MaProtocol (agent_snapshot_new
     \<lparr>sn_id = sa_id a, sn_parent_id = sa_parent_id a, sn_name = sa_name a, sn_depth = sa_depth a,
      sn_status = sa_status a, sn_turns_used = sa_turns_used a, sn_child_grants = sa_child_grants a,
      sn_created_at = sa_created_at a, sn_updated_at = sa_updated_at a\<rparr>)"

definition validate_stored_agent :: "stored_agent \<Rightarrow> unit ma_res" where
  "validate_stored_agent a =
     res_bind (agent_snapshot_of a) (\<lambda>_.
     if MAX_AGENT_TRANSCRIPT_ENTRIES < length (sa_transcript a)
     then Inl (MaInvalidDocument (lit ''agent '' @ quoted (sa_id a) @ lit '' transcript exceeds its entry limit''))
     else map_err MaProtocol (validate_all validate_transcript_entry (sa_transcript a)))"

record session_document =
  sd_version :: u32
  sd_session_id :: rstring
  sd_instance_id :: rstring
  sd_budget :: agent_budget
  sd_allowed :: "grant_kind list"
  sd_total_turns :: u16
  sd_next_agent :: u64
  sd_next_event :: u64
  sd_agents :: "stored_agent list"
  sd_events :: "agent_event list"

definition document_new :: "delegation_grant \<Rightarrow> rstring \<Rightarrow> session_document" where
  "document_new g instance_id =
     \<lparr>sd_version = DOCUMENT_VERSION, sd_session_id = dg_session_id g, sd_instance_id = instance_id,
      sd_budget = dg_budget g, sd_allowed = dg_allowed g, sd_total_turns = 0, sd_next_agent = 1,
      sd_next_event = 1, sd_agents = [], sd_events = []\<rparr>"

definition instance_id_char :: "rchar \<Rightarrow> bool" where
  "instance_id_char c \<longleftrightarrow> is_ascii_alphanumeric c \<or> c = ch CHR ''-'' \<or> c = ch CHR ''_'' \<or> c = ch CHR ''.''"

definition validate_instance_id :: "rstring \<Rightarrow> unit ma_res" where
  "validate_instance_id v =
     (if v = [] \<or> 128 < str_len v \<or> \<not> (\<forall>c \<in> set v. instance_id_char c)
      then Inl (MaInvalidInstanceId v) else Inr ())"

fun validate_agents_from :: "rstring list \<Rightarrow> stored_agent list \<Rightarrow> rstring list ma_res" where
  "validate_agents_from ids [] = Inr ids"
| "validate_agents_from ids (a # as) =
     res_bind (validate_stored_agent a) (\<lambda>_.
     if sa_id a \<in> set ids
     then Inl (MaInvalidDocument (lit ''duplicate agent id '' @ quoted (sa_id a)))
     else validate_agents_from (bs_insert (sa_id a) ids) as)"

definition validate_parent :: "rstring list \<Rightarrow> stored_agent \<Rightarrow> unit ma_res" where
  "validate_parent ids a =
     (if sa_parent_id a \<noteq> ROOT_AGENT_ID \<and> sa_parent_id a \<notin> set ids
      then Inl (MaInvalidDocument (lit ''agent '' @ quoted (sa_id a) @ lit '' has missing parent '' @
                quoted (sa_parent_id a)))
      else Inr ())"

definition validate_document :: "session_document \<Rightarrow> unit ma_res" where
  "validate_document d =
     (if sd_version d \<noteq> DOCUMENT_VERSION then Inl (MaUnsupportedVersion (sd_version d))
      else
        res_bind (map_err MaProtocol (validate_budget (sd_budget d))) (\<lambda>_.
        res_bind (validate_instance_id (sd_instance_id d)) (\<lambda>_.
        if sd_next_agent d = 0 \<or> sd_next_event d = 0
        then Inl (MaInvalidDocument (lit ''stored sequences must be greater than zero''))
        else if unat MAX_AGENT_COUNT < length (sd_agents d) \<or> MAX_AGENT_EVENTS < length (sd_events d)
        then Inl (MaInvalidDocument (lit ''stored agent or event count exceeds protocol limits''))
        else
          res_bind (validate_agents_from [] (sd_agents d)) (\<lambda>ids.
          res_bind (validate_all (validate_parent ids) (sd_agents d)) (\<lambda>_.
          map_err MaProtocol (validate_all validate_agent_event (sd_events d)))))))"

definition agent_index :: "session_document \<Rightarrow> rstring \<Rightarrow> nat ma_res" where
  "agent_index d i =
     (case position (\<lambda>a. sa_id a = i) (sd_agents d) of None \<Rightarrow> Inl (MaAgentNotFound i) | Some n \<Rightarrow> Inr n)"

definition push_event ::
  "rstring \<Rightarrow> agent_event_kind \<Rightarrow> rstring \<Rightarrow> u128 \<Rightarrow> session_document \<Rightarrow> (agent_event \<times> session_document) ma_res" where
  "push_event i k detail t d =
     res_bind (map_err MaProtocol (agent_event_new (sd_next_event d) i k detail t)) (\<lambda>e.
       let events = sd_events d @ [e] in
       Inr (e, d\<lparr>sd_next_event := sat_inc (sd_next_event d),
                 sd_events := drop (length events - MAX_AGENT_EVENTS) events\<rparr>))"

definition update_agent :: "nat \<Rightarrow> (stored_agent \<Rightarrow> stored_agent) \<Rightarrow> session_document \<Rightarrow> session_document" where
  "update_agent n f d = d\<lparr>sd_agents := (sd_agents d)[n := f (sd_agents d ! n)]\<rparr>"

definition set_status :: "agent_status \<Rightarrow> u128 \<Rightarrow> stored_agent \<Rightarrow> stored_agent" where
  "set_status s t a = a\<lparr>sa_status := s, sa_updated_at := t\<rparr>"

section \<open>Reading and saving the document\<close>

record graph_env =
  ge_canonicalize :: "path \<Rightarrow> (io_error, path) res"
  ge_parse :: "u8 list \<Rightarrow> (rstring, session_document) res"
  ge_print :: "session_document \<Rightarrow> (rstring, u8 list) res"
  ge_pid :: nat

record coordinator_store =
  co_path :: path
  co_workspace_root :: path
  co_instance_id :: rstring
  co_authority :: delegation_grant
  co_writable :: bool

definition load_document_at :: "graph_env \<Rightarrow> path \<Rightarrow> session_document option ma_act" where
  "load_document_at env p d =
     (case fs_metadata p d of
        (Inl IoNotFound, d1) \<Rightarrow> (Inr None, d1)
      | (Inl e, d1) \<Rightarrow> (Inl (MaIo p e), d1)
      | (Inr DirNode, d1) \<Rightarrow> (Inl (MaInvalidPath p), d1)
      | (Inr (FileNode c), d1) \<Rightarrow>
          if MAX_DOCUMENT_BYTES < length c then (Inl (MaDocumentTooLarge p MAX_DOCUMENT_BYTES), d1)
          else act_bind (act_map_err (MaIo p) (fs_read p)) (\<lambda>content.
            lift_res (map_err (MaParse p) (res_bind (ge_parse env content) (\<lambda>doc. Inr (Some doc))))) d1)"

definition load_document :: "graph_env \<Rightarrow> path \<Rightarrow> session_document option ma_act" where
  "load_document env p d =
     (case load_document_at env p d of
        (Inr (Some doc), d1) \<Rightarrow> (Inr (Some doc), d1)
      | (Inr None, d1) \<Rightarrow> load_document_at env (backup_path p) d1
      | (Inl primary_error, d1) \<Rightarrow>
          (case load_document_at env (backup_path p) d1 of
             (Inr (Some doc), d2) \<Rightarrow> (Inr (Some doc), d2)
           | (_, d2) \<Rightarrow> (Inl primary_error, d2)))"

definition temporary_name :: "rstring \<Rightarrow> nat \<Rightarrow> nat \<Rightarrow> rstring" where
  "temporary_name tag pid stamp = tag @ show_nat pid @ lit ''-'' @ show_nat stamp @ lit ''.tmp''"

definition replace_document :: "graph_env \<Rightarrow> path \<Rightarrow> u8 list \<Rightarrow> unit ma_act" where
  "replace_document env p content =
     (case path_parent p of
        None \<Rightarrow> throw (MaInvalidPath p)
      | Some parent \<Rightarrow>
          act_bind sys_nanos (\<lambda>stamp.
            act_map_err (\<lambda>(q, e). MaIo q e)
              (swap_file p (path_join parent (temporary_name (lit ''.multi-agent-'') (ge_pid env) stamp))
                 (backup_path p) content)))"

definition require_write :: "coordinator_store \<Rightarrow> unit ma_res" where
  "require_write st = ensure (co_writable st) MaWriteNotGranted"

definition save_document :: "graph_env \<Rightarrow> coordinator_store \<Rightarrow> session_document \<Rightarrow> unit ma_act" where
  "save_document env st doc =
     act_then (lift_res (require_write st))
    (act_then (lift_res (validate_document doc))
    (act_bind (lift_res (case path_parent (co_path st) of
        None \<Rightarrow> Inl (MaInvalidPath (co_path st)) | Some parent \<Rightarrow> Inr parent)) (\<lambda>parent.
     act_then (act_map_err (MaIo parent) (fs_create_dir_all parent))
    (act_then (lift_res
       (if wg_state_root (dg_workspace (co_authority st)) = None
        then res_bind (map_err (MaIo parent) (ge_canonicalize env parent)) (\<lambda>canonical_parent.
          ensure (prefix (co_workspace_root st) canonical_parent) (MaWorkspaceEscape canonical_parent))
        else Inr ()))
    (act_bind (lift_res (map_err MaSerialize (ge_print env doc))) (\<lambda>printed.
       let content = printed @ [10] in
       if MAX_DOCUMENT_BYTES < length content
       then throw (MaDocumentTooLarge (co_path st) MAX_DOCUMENT_BYTES)
       else replace_document env (co_path st) content))))))"

section \<open>Opening a store\<close>

definition is_directory :: "path \<Rightarrow> (disk, 'e, bool) act" where
  "is_directory p d = (case fs_metadata p d of (r, d') \<Rightarrow> (Inr (r = Inr DirNode), d'))"

definition store_from_grant :: "graph_env \<Rightarrow> delegation_grant \<Rightarrow> rstring \<Rightarrow> coordinator_store ma_act" where
  "store_from_grant env authority instance_id =
     act_then (lift_res (map_err MaProtocol (validate_delegation authority)))
    (let root = wg_root (dg_workspace authority) in
     act_bind (lift_res (map_err (MaWorkspace root) (ge_canonicalize env root))) (\<lambda>workspace_root.
     act_bind (is_directory workspace_root) (\<lambda>directory.
     if \<not> directory then throw (MaNotDirectory workspace_root)
     else
       let state_root = (case wg_state_root (dg_workspace authority) of
             Some p \<Rightarrow> p | None \<Rightarrow> path_join workspace_root (lit ''.yunxi-next''))
       in act_then (lift_res (validate_instance_id instance_id))
         (ret \<lparr>co_path = path_join (path_join state_root (lit ''multi-agent''))
                           (dg_session_id authority @ lit ''.json''),
               co_workspace_root = workspace_root, co_instance_id = instance_id, co_authority = authority,
               co_writable = wg_next_write (dg_workspace authority)\<rparr>))))"

definition require_matching_authority :: "coordinator_store \<Rightarrow> delegation_grant \<Rightarrow> unit ma_res" where
  "require_matching_authority st authority =
     res_bind (map_err MaProtocol (validate_delegation authority)) (\<lambda>_.
     if dg_session_id authority \<noteq> dg_session_id (co_authority st) \<or>
        wg_root (dg_workspace authority) \<noteq> wg_root (dg_workspace (co_authority st)) \<or>
        \<not> budget_contains (dg_budget (co_authority st)) (dg_budget authority) \<or>
        \<not> (\<forall>g \<in> set (dg_allowed authority). g \<in> set (dg_allowed (co_authority st)))
     then Inl MaAuthorityMismatch else Inr ())"

section \<open>Loading, with recovery after a restart\<close>

fun fail_abandoned :: "u128 \<Rightarrow> rstring list \<Rightarrow> session_document \<Rightarrow> session_document ma_res" where
  "fail_abandoned now [] d = Inr d"
| "fail_abandoned now (i # is) d =
     res_bind (agent_index d i) (\<lambda>n.
     res_bind (push_event i AeFailed (lit ''child turn abandoned after coordinator restart'') now
                 (update_agent n (set_status AsFailed now) d)) (\<lambda>(e, d').
     fail_abandoned now is d'))"

definition running_ids :: "session_document \<Rightarrow> rstring list" where
  "running_ids d = map sa_id (filter (\<lambda>a. sa_status a = AsRunning) (sd_agents d))"

definition check_authority :: "coordinator_store \<Rightarrow> session_document \<Rightarrow> unit ma_res" where
  "check_authority st doc =
     (if sd_session_id doc \<noteq> dg_session_id (co_authority st) \<or>
         \<not> budget_contains (sd_budget doc) (dg_budget (co_authority st)) \<or>
         \<not> (\<forall>g \<in> set (dg_allowed (co_authority st)). g \<in> set (sd_allowed doc))
      then Inl MaAuthorityEscalation else Inr ())"

definition adopt :: "rstring \<Rightarrow> u128 \<Rightarrow> session_document \<Rightarrow> session_document ma_res" where
  "adopt instance_id now doc =
     res_bind (fail_abandoned now (running_ids doc) doc) (\<lambda>d. Inr (d\<lparr>sd_instance_id := instance_id\<rparr>))"

definition load_or_new :: "graph_env \<Rightarrow> coordinator_store \<Rightarrow> session_document ma_act" where
  "load_or_new env st =
     act_bind (load_document env (co_path st)) (\<lambda>found.
     case found of
       None \<Rightarrow> ret (document_new (co_authority st) (co_instance_id st))
     | Some doc \<Rightarrow>
         act_then (lift_res (validate_document doc))
        (act_then (lift_res (check_authority st doc))
        (if sd_instance_id doc = co_instance_id st then ret doc
         else
           act_bind now_millis (\<lambda>now.
           act_bind (lift_res (adopt (co_instance_id st) now doc)) (\<lambda>doc'.
           if co_writable st then act_then (save_document env st doc') (ret doc') else ret doc')))))"

section \<open>The operations\<close>

text \<open>Whether a child may be spawned, and at which depth.\<close>

definition admit_child :: "coordinator_store \<Rightarrow> spawn_request \<Rightarrow> session_document \<Rightarrow> u16 ma_res" where
  "admit_child st q doc =
     (let budget = dg_budget (co_authority st) in
      if unat (ab_max_agents budget) \<le> length (sd_agents doc)
      then Inl (MaAgentLimitReached (ab_max_agents budget))
      else
        res_bind
          (if sq_parent_id q = ROOT_AGENT_ID then Inr (0, dg_allowed (co_authority st))
           else (case find (\<lambda>a. sa_id a = sq_parent_id q) (sd_agents doc) of
               None \<Rightarrow> Inl (MaParentNotFound (sq_parent_id q))
             | Some parent \<Rightarrow>
                 if sa_status parent = AsInterrupted then Inl (MaParentUnavailable (sq_parent_id q))
                 else Inr (sa_depth parent, sa_child_grants parent)))
          (\<lambda>(parent_depth, parent_grants).
             if \<not> (\<forall>g \<in> set (sq_requested q). g \<in> set parent_grants) then Inl MaGrantEscalation
             else
               let depth = sat_inc parent_depth in
               if ab_max_depth budget < depth then Inl (MaDepthLimitReached (ab_max_depth budget))
               else Inr depth))"

definition add_child ::
  "spawn_request \<Rightarrow> u16 \<Rightarrow> u128 \<Rightarrow> session_document \<Rightarrow> (stored_agent \<times> agent_event \<times> session_document) ma_res" where
  "add_child q depth now doc =
     (let sequence = sd_next_agent doc;
          i = lit ''agent-'' @ show_nat (unat sequence);
          name = (case sq_name q of Some n \<Rightarrow> n | None \<Rightarrow> lit ''Agent '' @ show_nat (unat sequence));
          stored = \<lparr>sa_id = i, sa_parent_id = sq_parent_id q, sa_name = name, sa_depth = depth,
                    sa_status = AsPending, sa_turns_used = 0, sa_child_grants = sq_requested q,
                    sa_transcript = [], sa_created_at = now, sa_updated_at = now\<rparr>
      in res_bind (push_event i AeSpawned (lit ''spawned under '' @ sq_parent_id q) now
                     (doc\<lparr>sd_next_agent := sat_inc sequence\<rparr>)) (\<lambda>(event, doc').
         Inr (stored, event, doc'\<lparr>sd_agents := sd_agents doc' @ [stored]\<rparr>)))"

definition spawn_agent :: "graph_env \<Rightarrow> coordinator_store \<Rightarrow> spawn_request \<Rightarrow> spawn_result ma_act" where
  "spawn_agent env st q =
     act_then (lift_res (require_matching_authority st (sq_grant q)))
    (act_then (lift_res (map_err MaProtocol (validate_spawn q)))
    (act_then (lift_res (require_write st))
    (act_bind (load_or_new env st) (\<lambda>doc.
     act_bind (lift_res (admit_child st q doc)) (\<lambda>depth.
     act_bind now_millis (\<lambda>now.
     act_bind (lift_res (add_child q depth now doc)) (\<lambda>(stored, event, doc').
     act_then (save_document env st doc')
    (lift_res (res_bind (agent_snapshot_of stored) (\<lambda>s. Inr \<lparr>sp_agent = s, sp_event = event\<rparr>))))))))))"

fun collect_snapshots :: "stored_agent list \<Rightarrow> agent_snapshot list ma_res" where
  "collect_snapshots [] = Inr []"
| "collect_snapshots (a # as) =
     res_bind (agent_snapshot_of a) (\<lambda>s. res_bind (collect_snapshots as) (\<lambda>ss. Inr (s # ss)))"

definition list_agents :: "graph_env \<Rightarrow> coordinator_store \<Rightarrow> list_result ma_act" where
  "list_agents env st =
     act_bind (load_or_new env st) (\<lambda>doc.
     lift_res (res_bind (collect_snapshots (sd_agents doc)) (\<lambda>agents.
       let truncated = (length (sd_events doc) < unat (sd_next_event doc) - 1) in
       map_err MaProtocol (list_result_new (dg_budget (co_authority st)) agents (sd_events doc)
         (sd_total_turns doc) truncated))))"

definition inspect_agent :: "graph_env \<Rightarrow> coordinator_store \<Rightarrow> inspect_request \<Rightarrow> inspect_result ma_act" where
  "inspect_agent env st q =
     act_then (lift_res (require_matching_authority st (iq_grant q)))
    (act_then (lift_res (map_err MaProtocol (validate_inspect q)))
    (act_bind (load_or_new env st) (\<lambda>doc.
     lift_res (res_bind (agent_index doc (iq_agent_id q)) (\<lambda>n.
       let agent = sd_agents doc ! n in
       res_bind (agent_snapshot_of agent) (\<lambda>s.
       map_err MaProtocol (inspect_result_new s (sa_transcript agent))))))))"

definition begin_turn ::
  "coordinator_store \<Rightarrow> turn_start_request \<Rightarrow> u128 \<Rightarrow> session_document \<Rightarrow> (nat \<times> agent_event \<times> session_document) ma_res" where
  "begin_turn st q now doc =
     (let budget = dg_budget (co_authority st); i = tq_agent_id q in
      res_bind (agent_index doc i) (\<lambda>n.
      let agent = sd_agents doc ! n in
      if sa_status agent = AsRunning then Inl (MaAlreadyRunning i)
      else if sa_status agent = AsInterrupted then Inl (MaInterrupted i)
      else if ab_max_turns_per_agent budget \<le> sa_turns_used agent
      then Inl (MaAgentTurnLimitReached i (ab_max_turns_per_agent budget))
      else if MAX_AGENT_TRANSCRIPT_ENTRIES \<le> length (sa_transcript agent)
      then Inl (MaTranscriptLimitReached i)
      else
        res_bind (map_err MaProtocol (transcript_user (tq_message q))) (\<lambda>entry.
        let doc1 = update_agent n (\<lambda>a. a\<lparr>sa_transcript := sa_transcript a @ [entry],
                     sa_turns_used := sat_inc (sa_turns_used a), sa_status := AsRunning,
                     sa_updated_at := now\<rparr>) doc;
            doc2 = doc1\<lparr>sd_total_turns := sat_inc (sd_total_turns doc1)\<rparr>
        in res_bind (push_event i AeTurnStarted (lit ''child model turn started'') now doc2) (\<lambda>(event, doc3).
           Inr (n, event, doc3)))))"

definition start_agent_turn :: "graph_env \<Rightarrow> coordinator_store \<Rightarrow> turn_start_request \<Rightarrow> turn_start_result ma_act" where
  "start_agent_turn env st q =
     act_then (lift_res (require_matching_authority st (tq_grant q)))
    (act_then (lift_res (map_err MaProtocol (validate_turn_start q)))
    (act_then (lift_res (require_write st))
    (act_bind (load_or_new env st) (\<lambda>doc.
     let budget = dg_budget (co_authority st) in
     if ab_max_total_turns budget \<le> sd_total_turns doc
     then throw (MaTotalTurnLimitReached (ab_max_total_turns budget))
     else
       act_bind now_millis (\<lambda>now.
       act_bind (lift_res (begin_turn st q now doc)) (\<lambda>(n, event, doc').
       act_bind (lift_res (agent_snapshot_of (sd_agents doc' ! n))) (\<lambda>snapshot.
       let transcript = sa_transcript (sd_agents doc' ! n) in
       act_then (save_document env st doc')
      (lift_res (map_err MaProtocol (turn_start_result_new snapshot transcript event))))))))))"

definition end_turn ::
  "turn_complete_request \<Rightarrow> u128 \<Rightarrow> session_document \<Rightarrow> (nat \<times> agent_event \<times> session_document) ma_res" where
  "end_turn q now doc =
     (let i = cq_agent_id q in
      res_bind (agent_index doc i) (\<lambda>n.
      let agent = sd_agents doc ! n in
      if sa_status agent \<noteq> AsRunning then Inl (MaNotRunning i)
      else if MAX_AGENT_TRANSCRIPT_ENTRIES \<le> length (sa_transcript agent) then Inl (MaTranscriptLimitReached i)
      else
        res_bind (map_err MaProtocol (transcript_assistant (cq_reply q))) (\<lambda>entry.
        let doc1 = update_agent n (\<lambda>a. a\<lparr>sa_transcript := sa_transcript a @ [entry],
                     sa_status := AsCompleted, sa_updated_at := now\<rparr>) doc
        in res_bind (push_event i AeCompleted (lit ''child model turn completed'') now doc1) (\<lambda>(event, doc2).
           Inr (n, event, doc2)))))"

definition abort_turn ::
  "turn_fail_request \<Rightarrow> u128 \<Rightarrow> session_document \<Rightarrow> (nat \<times> agent_event \<times> session_document) ma_res" where
  "abort_turn q now doc =
     (let i = fq_agent_id q in
      res_bind (agent_index doc i) (\<lambda>n.
      if sa_status (sd_agents doc ! n) \<noteq> AsRunning then Inl (MaNotRunning i)
      else
        res_bind (push_event i AeFailed (fq_code q @ lit '': '' @ fq_message q) now
                    (update_agent n (set_status AsFailed now) doc)) (\<lambda>(event, doc1).
        Inr (n, event, doc1))))"

text \<open>The end of \<open>complete_turn\<close> and of \<open>fail_turn\<close> is the same code.\<close>

definition commit_turn ::
  "graph_env \<Rightarrow> coordinator_store \<Rightarrow> nat \<times> agent_event \<times> session_document \<Rightarrow> mutation_result ma_act" where
  "commit_turn env st = (\<lambda>(n, event, doc).
     act_bind (lift_res (agent_snapshot_of (sd_agents doc ! n))) (\<lambda>snapshot.
     act_then (save_document env st doc)
    (lift_res (map_err MaProtocol (mutation_result_new [snapshot] [event])))))"

definition complete_agent_turn :: "graph_env \<Rightarrow> coordinator_store \<Rightarrow> turn_complete_request \<Rightarrow> mutation_result ma_act" where
  "complete_agent_turn env st q =
     act_then (lift_res (require_matching_authority st (cq_grant q)))
    (act_then (lift_res (map_err MaProtocol (validate_turn_complete q)))
    (act_then (lift_res (require_write st))
    (act_bind (load_or_new env st) (\<lambda>doc.
     act_bind now_millis (\<lambda>now.
     act_bind (lift_res (end_turn q now doc)) (commit_turn env st))))))"

definition fail_agent_turn :: "graph_env \<Rightarrow> coordinator_store \<Rightarrow> turn_fail_request \<Rightarrow> mutation_result ma_act" where
  "fail_agent_turn env st q =
     act_then (lift_res (require_matching_authority st (fq_grant q)))
    (act_then (lift_res (map_err MaProtocol (validate_turn_fail q)))
    (act_then (lift_res (require_write st))
    (act_bind (load_or_new env st) (\<lambda>doc.
     act_bind now_millis (\<lambda>now.
     act_bind (lift_res (abort_turn q now doc)) (commit_turn env st))))))"

section \<open>Interruption\<close>

text \<open>
  The breadth-first collection of a branch: the targets are a \<open>BTreeSet\<close>, the queue is first in,
  first out. Every queued agent is a new target, so the loop ends: a round takes one agent off the queue
  and moves those it puts on it from the agents outside the targets.
\<close>

fun take_children :: "stored_agent list \<Rightarrow> rstring \<Rightarrow> rstring list \<times> rstring list \<Rightarrow> rstring list \<times> rstring list" where
  "take_children [] parent (targets, queue) = (targets, queue)"
| "take_children (a # as) parent (targets, queue) =
     (if sa_parent_id a = parent \<and> sa_id a \<notin> set targets
      then take_children as parent (bs_insert (sa_id a) targets, queue @ [sa_id a])
      else take_children as parent (targets, queue))"

definition outside :: "stored_agent list \<Rightarrow> rstring list \<Rightarrow> nat" where
  "outside as targets = card (sa_id ` set as - set targets)"

lemma take_children_balance:
  assumes "sa_id ` set as \<subseteq> sa_id ` set all"
    and "take_children as parent (targets, queue) = (targets', queue')"
  shows "outside all targets' + length queue' = outside all targets + length queue"
  using assms
proof (induction as parent "(targets, queue)" arbitrary: targets queue rule: take_children.induct)
  case (2 a as parent targets queue)
  show ?case
  proof (cases "sa_parent_id a = parent \<and> sa_id a \<notin> set targets")
    case True
    let ?rest = "sa_id ` set all - set targets"
    have "Suc (card (?rest - {sa_id a})) = card ?rest"
      by (rule card_Suc_Diff1) (use True "2.prems"(1) in auto)
    moreover have "sa_id ` set all - set (bs_insert (sa_id a) targets) = ?rest - {sa_id a}" by auto
    ultimately have "Suc (outside all (bs_insert (sa_id a) targets)) = outside all targets"
      by (simp only: outside_def)
    moreover have "outside all targets' + length queue' =
        outside all (bs_insert (sa_id a) targets) + length (queue @ [sa_id a])"
      by (rule "2.hyps"(1) [OF True]) (use "2.prems" True in auto)
    ultimately show ?thesis by simp
  next
    case False
    show ?thesis by (rule "2.hyps"(2) [OF False]) (use "2.prems" False in auto)
  qed
qed simp

function branch_loop :: "stored_agent list \<Rightarrow> rstring list \<Rightarrow> rstring list \<Rightarrow> rstring list" where
  "branch_loop as targets [] = targets"
| "branch_loop as targets (parent # queue) =
     (case take_children as parent (targets, queue) of (targets', queue') \<Rightarrow> branch_loop as targets' queue')"
  by pat_completeness auto
termination
  by (relation "measure (\<lambda>(as, targets, queue). outside as targets + length queue)")
    (auto split: prod.splits dest: take_children_balance [OF subset_refl])

definition interrupt_targets :: "interrupt_request \<Rightarrow> session_document \<Rightarrow> rstring list" where
  "interrupt_targets q doc =
     (if nq_recursive q then branch_loop (sd_agents doc) [nq_agent_id q] [nq_agent_id q]
      else [nq_agent_id q])"

fun interrupt_all ::
  "u128 \<Rightarrow> rstring list \<Rightarrow> session_document \<Rightarrow> (agent_snapshot list \<times> agent_event list \<times> session_document) ma_res" where
  "interrupt_all now [] doc = Inr ([], [], doc)"
| "interrupt_all now (i # is) doc =
     res_bind (agent_index doc i) (\<lambda>n.
     if sa_status (sd_agents doc ! n) = AsInterrupted then interrupt_all now is doc
     else
       res_bind (push_event i AeInterrupted (lit ''branch interrupted by the Host'') now
                   (update_agent n (set_status AsInterrupted now) doc)) (\<lambda>(event, doc1).
       res_bind (agent_snapshot_of (sd_agents doc1 ! n)) (\<lambda>snapshot.
       res_bind (interrupt_all now is doc1) (\<lambda>(changed, events, doc2).
       Inr (snapshot # changed, event # events, doc2)))))"

definition interrupt_branch :: "graph_env \<Rightarrow> coordinator_store \<Rightarrow> interrupt_request \<Rightarrow> mutation_result ma_act" where
  "interrupt_branch env st q =
     act_then (lift_res (require_matching_authority st (nq_grant q)))
    (act_then (lift_res (map_err MaProtocol (validate_interrupt q)))
    (act_then (lift_res (require_write st))
    (act_bind (load_or_new env st) (\<lambda>doc.
     act_then (lift_res (res_bind (agent_index doc (nq_agent_id q)) (\<lambda>_. Inr ())))
    (act_bind now_millis (\<lambda>now.
     act_bind (lift_res (interrupt_all now (interrupt_targets q doc) doc)) (\<lambda>(changed, events, doc').
     act_then (save_document env st doc')
    (lift_res (map_err MaProtocol (mutation_result_new changed events))))))))))"

section \<open>The plugin's answer to a host message\<close>

record 'v graph_serde =
  gs_spawn :: "'v \<Rightarrow> (rstring, spawn_request) res"
  gs_list :: "'v \<Rightarrow> (rstring, delegation_grant) res"
  gs_inspect :: "'v \<Rightarrow> (rstring, inspect_request) res"
  gs_start :: "'v \<Rightarrow> (rstring, turn_start_request) res"
  gs_complete :: "'v \<Rightarrow> (rstring, turn_complete_request) res"
  gs_fail :: "'v \<Rightarrow> (rstring, turn_fail_request) res"
  gs_interrupt :: "'v \<Rightarrow> (rstring, interrupt_request) res"
  gs_spawned :: "spawn_result \<Rightarrow> (rstring, 'v) res"
  gs_listed :: "list_result \<Rightarrow> (rstring, 'v) res"
  gs_inspected :: "inspect_result \<Rightarrow> (rstring, 'v) res"
  gs_started :: "turn_start_result \<Rightarrow> (rstring, 'v) res"
  gs_mutated :: "mutation_result \<Rightarrow> (rstring, 'v) res"

definition TOOL_MULTI_AGENT :: rstring where "TOOL_MULTI_AGENT = lit ''tool.multi-agent''"
definition TOOL_MULTI_AGENT_VERSION :: u32 where "TOOL_MULTI_AGENT_VERSION = 1"

datatype graph_plugin_error = GpInvocation codec_error | GpStore multi_agent_error

fun graph_plugin_error_code :: "graph_plugin_error \<Rightarrow> rstring" where
  "graph_plugin_error_code (GpInvocation e) = lit ''invalid_request''"
| "graph_plugin_error_code (GpStore e) = multi_agent_error_code e"

fun show_graph_plugin_error :: "display \<Rightarrow> graph_plugin_error \<Rightarrow> rstring" where
  "show_graph_plugin_error s (GpInvocation e) = show_codec_error e"
| "show_graph_plugin_error s (GpStore e) = show_multi_agent_error s e"

text \<open>Decode the payload, open the store from the payload's own grant, run the operation, encode.\<close>

definition graph_call ::
  "('v \<Rightarrow> (rstring, 'q) res) \<Rightarrow> ('q \<Rightarrow> delegation_grant) \<Rightarrow> graph_env \<Rightarrow> rstring \<Rightarrow>
   (coordinator_store \<Rightarrow> 'q \<Rightarrow> 'r ma_act) \<Rightarrow> ('r \<Rightarrow> (rstring, 'v) res) \<Rightarrow> 'v invocation_request \<Rightarrow>
   (disk, graph_plugin_error, 'v invocation_response) act" where
  "graph_call from_value grant_of env instance_id operation to_value r =
     act_bind (lift_res (map_err GpInvocation (request_payload from_value r))) (\<lambda>q.
     act_bind (act_map_err GpStore
         (act_bind (store_from_grant env (grant_of q) instance_id) (\<lambda>st. operation st q))) (\<lambda>x.
     lift_res (map_err GpInvocation (response_encode to_value (ir_request_id r) x))))"

definition graph_dispatch ::
  "'v graph_serde \<Rightarrow> graph_env \<Rightarrow> rstring \<Rightarrow> 'v invocation_request \<Rightarrow>
   (disk, graph_plugin_error, 'v invocation_response) act option" where
  "graph_dispatch j env i r =
     (let operation = ir_operation r in
      if operation = lit ''spawn'' then Some (graph_call (gs_spawn j) sq_grant env i (spawn_agent env) (gs_spawned j) r)
      else if operation = lit ''list''
      then Some (graph_call (gs_list j) (\<lambda>g. g) env i (\<lambda>st g. list_agents env st) (gs_listed j) r)
      else if operation = lit ''inspect''
      then Some (graph_call (gs_inspect j) iq_grant env i (inspect_agent env) (gs_inspected j) r)
      else if operation = lit ''turn_start''
      then Some (graph_call (gs_start j) tq_grant env i (start_agent_turn env) (gs_started j) r)
      else if operation = lit ''turn_complete''
      then Some (graph_call (gs_complete j) cq_grant env i (complete_agent_turn env) (gs_mutated j) r)
      else if operation = lit ''turn_fail''
      then Some (graph_call (gs_fail j) fq_grant env i (fail_agent_turn env) (gs_mutated j) r)
      else if operation = lit ''interrupt''
      then Some (graph_call (gs_interrupt j) nq_grant env i (interrupt_branch env) (gs_mutated j) r)
      else None)"

definition graph_answer ::
  "display \<Rightarrow> 'v graph_serde \<Rightarrow> graph_env \<Rightarrow> rstring \<Rightarrow> 'v invocation_request \<Rightarrow> disk \<Rightarrow> 'v plugin_message \<times> disk" where
  "graph_answer s j env i r d =
     (let request_id = ir_request_id r in
      if cap_str (cap_id (ir_capability r)) \<noteq> TOOL_MULTI_AGENT \<or>
         cap_version (ir_capability r) \<noteq> TOOL_MULTI_AGENT_VERSION
      then (InvocationFailed request_id (lit ''unsupported_capability'')
              (lit ''multi-agent plugin does not support the requested capability'') False, d)
      else (case graph_dispatch j env i r of
          None \<Rightarrow>
            (InvocationFailed request_id (lit ''unsupported_operation'')
               (lit ''multi-agent plugin does not support the requested operation'') False, d)
        | Some call \<Rightarrow>
            (case call d of
               (Inr response, d') \<Rightarrow> (InvocationCompleted response, d')
             | (Inl e, d') \<Rightarrow>
                 (InvocationFailed request_id (graph_plugin_error_code e) (show_graph_plugin_error s e) False, d'))))"

end
