(* ===== verification/Durable_Json.thy ===== *)
theory Durable_Json
  imports Durable_File
begin

text \<open>
  A directory of JSON documents, each with its backup beside it, as every store of the workspace keeps
  one: the paths of different documents never collide with each other, with the backups or with the
  temporary files, so replacing one document is stated once (\<open>written\<close>, \<open>write_result\<close>) for all of
  them. A quiet disk is one the operating system always serves, as a later process finds it.
\<close>

section \<open>The paths of the documents\<close>

definition json_path :: "path \<Rightarrow> path \<Rightarrow> bool" where
  "json_path dir p \<longleftrightarrow> (\<exists>s. s \<noteq> [] \<and> hd s \<noteq> dot \<and> p = dir @ [s @ lit ''.json''])"

lemma json_path_parent: "json_path dir p \<Longrightarrow> path_parent p = Some dir"
  by (auto simp: json_path_def path_parent_def)

lemma json_backup:
  assumes "json_path dir p"
  obtains s where "s \<noteq> []" "hd s \<noteq> dot" "p = dir @ [s @ lit ''.json'']" "backup_path p = dir @ [s @ lit ''.json.bak'']"
  using assms backup_of_json by (auto simp: json_path_def)

lemma suffix_json: "s @ lit ''.json'' \<noteq> t @ lit ''.json.bak''"
proof
  assume "s @ lit ''.json'' = t @ lit ''.json.bak''"
  then have "last (s @ lit ''.json'') = last (t @ lit ''.json.bak'')" by simp
  then show False by (simp add: lit_def)
qed

lemma json_paths_apart:
  assumes "json_path dir p" "json_path dir q"
  shows "p \<noteq> backup_path q" and "q \<noteq> p \<Longrightarrow> backup_path p \<noteq> backup_path q"
    and "t \<noteq> [] \<Longrightarrow> hd t = dot \<Longrightarrow> dir @ [t] \<notin> {p, backup_path p}"
proof -
  obtain s where s: "s \<noteq> []" "hd s \<noteq> dot" "p = dir @ [s @ lit ''.json'']" "backup_path p = dir @ [s @ lit ''.json.bak'']"
    using assms(1) by (rule json_backup)
  obtain u where u: "u \<noteq> []" "hd u \<noteq> dot" "q = dir @ [u @ lit ''.json'']" "backup_path q = dir @ [u @ lit ''.json.bak'']"
    using assms(2) by (rule json_backup)
  show "p \<noteq> backup_path q" using s u suffix_json by simp
  show "q \<noteq> p \<Longrightarrow> backup_path p \<noteq> backup_path q" using s u by simp
  show "t \<noteq> [] \<Longrightarrow> hd t = dot \<Longrightarrow> dir @ [t] \<notin> {p, backup_path p}" using s by auto
qed

lemma json_names:
  assumes "json_path dir p"
  obtains n m where "n \<noteq> []" "hd n \<noteq> dot" "p = dir @ [n]" "m \<noteq> []" "hd m \<noteq> dot" "backup_path p = dir @ [m]" "n \<noteq> m"
proof -
  obtain s where s: "s \<noteq> []" "hd s \<noteq> dot" "p = dir @ [s @ lit ''.json'']" "backup_path p = dir @ [s @ lit ''.json.bak'']"
    using assms by (rule json_backup)
  show thesis by (rule that [of "s @ lit ''.json''" "s @ lit ''.json.bak''"]) (use s suffix_json in auto)
qed

section \<open>Replacing a document\<close>

text \<open>
  A replacement leaves the old document or the new one to be read, and touches no other document, key
  or backup of the directory, at every moment.
\<close>

text \<open>A document without a backup that an incomplete clean-up left beside it.\<close>

definition lone_file :: "path \<Rightarrow> files \<Rightarrow> bool" where
  "lone_file p f \<longleftrightarrow> f p = None \<or> f (backup_path p) = None"

text \<open>The names of temporary files, hidden and with their own suffix, are nobody's documents.\<close>

definition kept_name :: "rstring \<Rightarrow> bool" where
  "kept_name n \<longleftrightarrow> n \<noteq> [] \<and> (hd n \<noteq> dot \<or> \<not> suffix (lit ''.tmp'') n)"

definition written :: "path \<Rightarrow> path \<Rightarrow> u8 list \<Rightarrow> files \<Rightarrow> files \<Rightarrow> bool" where
  "written dir p content f g \<longleftrightarrow>
     keeps p (backup_path p) f (FileNode content) g \<and>
     {g p, g (backup_path p)} \<subseteq> {f p, f (backup_path p), Some (FileNode content), None} \<and>
     (\<forall>n. kept_name n \<longrightarrow> dir @ [n] \<notin> {p, backup_path p} \<longrightarrow> g (dir @ [n]) = f (dir @ [n]))"

fun write_result :: "path \<Rightarrow> path \<Rightarrow> u8 list \<Rightarrow> files \<Rightarrow> ('e, 'a) res \<Rightarrow> files \<Rightarrow> bool" where
  "write_result dir p content f (Inr _) g \<longleftrightarrow> written dir p content f g \<and> g p = Some (FileNode content)"
| "write_result dir p content f (Inl _) g \<longleftrightarrow> written dir p content f g \<and>
     {g p, g (backup_path p)} \<subseteq> {f p, f (backup_path p), None} \<and>
     (f p = None \<or> f (backup_path p) = None \<longrightarrow> seen p (backup_path p) g = seen p (backup_path p) f)"

lemma written_refl: "written dir p content f f"
  by (simp add: written_def keeps_def)

lemma write_result_written: "write_result dir p content f r g \<Longrightarrow> written dir p content f g"
  by (cases r) simp_all

lemma write_result_map [simp]: "write_result dir p content f (map_err h r) g = write_result dir p content f r g"
  by (cases r) simp_all

lemma write_result_refl: "write_result dir p content f (Inl e) f"
  by (simp add: written_refl)

definition with_directories :: "path \<Rightarrow> files \<Rightarrow> files" where
  "with_directories dir f = (\<lambda>q. if q \<in> set (prefixes dir) then Some DirNode else f q)"

lemma with_directories_child [simp]: "with_directories dir f (dir @ [n]) = f (dir @ [n])"
  by (simp add: with_directories_def in_set_prefixes prefix_def)

lemma with_directories_json:
  assumes "json_path dir p"
  shows "with_directories dir f p = f p" "with_directories dir f (backup_path p) = f (backup_path p)"
proof -
  obtain n m where p: "p = dir @ [n]" "backup_path p = dir @ [m]"
    using assms by (rule json_names) blast
  show "with_directories dir f (backup_path p) = f (backup_path p)" unfolding p(2) by (rule with_directories_child)
  show "with_directories dir f p = f p" unfolding p(1) by (rule with_directories_child)
qed

lemma written_from_directories:
  assumes "json_path dir p"
  shows "written dir p content (with_directories dir f) g = written dir p content f g"
    and "write_result dir p content (with_directories dir f) r g = write_result dir p content f r g"
proof -
  show *: "written dir p content (with_directories dir f) g = written dir p content f g"
    by (simp only: written_def keeps_def seen_def with_directories_json [OF assms] with_directories_child)
  show "write_result dir p content (with_directories dir f) r g = write_result dir p content f r g"
    by (cases r) (simp_all only: write_result.simps * seen_def with_directories_json [OF assms])
qed

lemma written_directories:
  assumes "json_path dir p"
  shows "written dir p content f (with_directories dir f)"
  using written_refl [of dir p content "with_directories dir f"] by (simp only: written_from_directories(1) [OF assms])

lemma write_result_directories:
  assumes "json_path dir p"
  shows "write_result dir p content f (Inl e) (with_directories dir f)"
  using write_result_refl [of dir p content "with_directories dir f"] by (simp only: written_from_directories(2) [OF assms])

lemma wp_make_directories:
  assumes "\<And>e. Q (Inl e) f" "I (with_directories dir f)" "Q (Inr ()) (with_directories dir f)"
  shows "wp I (fs_create_dir_all dir) Q f"
  by (rule wp_create_dir_all) (use assms in \<open>auto simp only: with_directories_def\<close>)

lemma wp_weaken:
  "wp I m Q f \<Longrightarrow> (\<And>g. I g \<Longrightarrow> J g) \<Longrightarrow> (\<And>r g. Q r g \<Longrightarrow> R r g) \<Longrightarrow> wp J m R f"
  unfolding wp_def passes_def by blast

lemma wp_replace_json:
  assumes p: "json_path dir p" and t: "t \<noteq> []" "hd t = dot" "suffix (lit ''.tmp'') t"
  shows "wp (written dir p content f) (swap_file p (dir @ [t]) (backup_path p) content) (write_result dir p content f) f"
proof (rule wp_weaken [OF wp_swap_file])
  obtain n m where n: "hd n \<noteq> dot" "p = dir @ [n]" "hd m \<noteq> dot" "backup_path p = dir @ [m]" "n \<noteq> m"
    using p by (rule json_names) blast
  show "p \<noteq> backup_path p" "dir @ [t] \<noteq> p" "dir @ [t] \<noteq> backup_path p"
    using n t unfolding n(4) unfolding n(2) by auto
  show *: "written dir p content f g" if "swapped p (dir @ [t]) (backup_path p) content f g" for g
    using that t by (auto simp: swapped_def written_def kept_name_def)
  show "write_result dir p content f r g" if "swap_result p (dir @ [t]) (backup_path p) content f r g" for r g
    using that by (cases r) (simp_all add: *)
qed

section \<open>What a later process finds\<close>

definition quiet_disk :: "files \<Rightarrow> disk" where
  "quiet_disk f = \<lparr>dk_files = f, dk_answers = [], dk_past = [], dk_clock = []\<rparr>"

lemma quiet_files [simp]: "dk_files (quiet_disk f) = f"
  by (simp add: quiet_disk_def)

lemma quiet_metadata:
  "fs_metadata p (quiet_disk f) = ((case f p of None \<Rightarrow> Inl IoNotFound | Some n \<Rightarrow> Inr n), quiet_disk f)"
  "fs_read p (quiet_disk f) = ((case f p of None \<Rightarrow> Inl IoNotFound
     | Some DirNode \<Rightarrow> Inl (IoOther (lit ''is a directory'')) | Some (FileNode c) \<Rightarrow> Inr c), quiet_disk f)"
  by (auto simp: fs_metadata_def fs_read_def sys_call_def next_answer_def quiet_disk_def
      split: option.splits node.splits)

definition moments :: "'w disk_scheme \<Rightarrow> 'w disk_scheme \<Rightarrow> files set" where
  "moments d d' = set (drop (length (dk_past d)) (dk_past d'))"

lemma passes_moment: "passes I d d' \<Longrightarrow> f \<in> set (drop (length (dk_past d)) (dk_past d')) \<Longrightarrow> I f"
  by (auto simp: passes_def)

lemma wp_moments: "wp I m Q (dk_files d) \<Longrightarrow> m d = (r, d') \<Longrightarrow> f \<in> moments d d' \<Longrightarrow> I f"
  by (auto simp: wp_def passes_def moments_def)

lemma wp_run: "wp I m Q (dk_files d) \<Longrightarrow> m d = (r, d') \<Longrightarrow> Q r (dk_files d')"
  by (auto simp: wp_def)

section \<open>Readers that survive an interrupted replacement\<close>

text \<open>
  A reader of the documents kept at a target: what it recovers when the node it sees decodes. A store
  whose reader keeps this contract has, after any interruption of a replacement, its old or its new
  document.
\<close>

locale durable_reader =
  fixes recover :: "files \<Rightarrow> 'v option"
    and decode :: "u8 list \<Rightarrow> 'v option"
    and target backup :: path
  assumes recover_seen: "seen target backup f = Some (FileNode c) \<Longrightarrow> decode c = Some v \<Longrightarrow> recover f = Some v"
begin

lemma old_or_new:
  assumes "seen target backup f = Some (FileNode c)" "decode c = Some v" "decode content = Some w"
    and "f target = None \<or> f backup = None" "keeps target backup f (FileNode content) g"
  shows "recover g = Some v \<or> recover g = Some w"
  using assms recover_seen by (fastforce simp: keeps_def)

lemma new_after_success:
  assumes "decode content = Some w" "g target = Some (FileNode content)"
  shows "recover g = Some w"
  by (rule recover_seen [OF _ assms(1)]) (simp add: seen_def assms(2))

lemma first_write:
  assumes "seen target backup f = None" "decode content = Some w" "keeps target backup f (FileNode content) g"
  shows "seen target backup g = None \<or> recover g = Some w"
  using assms recover_seen by (auto simp: keeps_def seen_def split: option.splits)

end

end
