(* ===== verification/Agent_Graph_Steps.thy ===== *)
theory Agent_Graph_Steps
  imports Agent_Graph Durable_Json
begin

text \<open>
  From the document to the disk. The transitions the coordinator makes on a session document are a
  step relation; a predicate that every transition keeps (\<open>document_law\<close>) holds of every document
  that can be read back, at every moment of answering a request, whatever the operating system answers.
\<close>

section \<open>The transitions of a document\<close>

inductive graph_step :: "coordinator_store \<Rightarrow> session_document \<Rightarrow> session_document \<Rightarrow> bool" for st where
  step_adopt: "check_authority st doc = Inr () \<Longrightarrow> adopt (co_instance_id st) now doc = Inr doc' \<Longrightarrow>
     graph_step st doc doc'"
| step_spawn: "check_authority st doc = Inr () \<Longrightarrow> require_matching_authority st (sq_grant q) = Inr () \<Longrightarrow>
     validate_spawn q = Inr () \<Longrightarrow> admit_child st q doc = Inr depth \<Longrightarrow>
     add_child q depth now doc = Inr (stored, event, doc') \<Longrightarrow> graph_step st doc doc'"
| step_begin: "check_authority st doc = Inr () \<Longrightarrow>
     \<not> ab_max_total_turns (dg_budget (co_authority st)) \<le> sd_total_turns doc \<Longrightarrow>
     begin_turn st tq now doc = Inr (n, event, doc') \<Longrightarrow> graph_step st doc doc'"
| step_end: "check_authority st doc = Inr () \<Longrightarrow> end_turn cq now doc = Inr (n, event, doc') \<Longrightarrow>
     graph_step st doc doc'"
| step_abort: "check_authority st doc = Inr () \<Longrightarrow> abort_turn fq now doc = Inr (n, event, doc') \<Longrightarrow>
     graph_step st doc doc'"
| step_interrupt: "check_authority st doc = Inr () \<Longrightarrow> interrupt_all now ids doc = Inr (changed, events, doc') \<Longrightarrow>
     graph_step st doc doc'"

section \<open>Documents on the disk\<close>

definition readable :: "graph_env \<Rightarrow> (session_document \<Rightarrow> bool) \<Rightarrow> node option \<Rightarrow> bool" where
  "readable env \<Phi> x \<longleftrightarrow> (\<forall>c doc. x = Some (FileNode c) \<longrightarrow> ge_parse env c = Inr doc \<longrightarrow> \<Phi> doc)"

definition sound_node :: "graph_env \<Rightarrow> node option \<Rightarrow> bool" where
  "sound_node env x \<longleftrightarrow>
     x = None \<or> (\<exists>c doc. x = Some (FileNode c) \<and> length c \<le> MAX_DOCUMENT_BYTES \<and> ge_parse env c = Inr doc)"

text \<open>
  Every document at the path or its backup satisfies the predicate; with \<open>must\<close>, nothing else stands
  there and a document can be read.
\<close>

definition kept :: "graph_env \<Rightarrow> (session_document \<Rightarrow> bool) \<Rightarrow> bool \<Rightarrow> path \<Rightarrow> files \<Rightarrow> bool" where
  "kept env \<Phi> must p f \<longleftrightarrow>
     (\<forall>x \<in> {f p, f (backup_path p)}. readable env \<Phi> x \<and> (must \<longrightarrow> sound_node env x)) \<and>
     (must \<longrightarrow> seen p (backup_path p) f \<noteq> None)"

lemma agent_paths_apart:
  assumes "json_path dir p"
  shows "dir @ [lit ''.multi-agent-'' @ t] \<notin> {p, backup_path p}"
  by (rule json_paths_apart(3) [OF assms assms]) (simp_all add: lit_def dot_def ch_def)

section \<open>What the steps leave alone\<close>

definition authority_of :: "session_document \<Rightarrow> rstring \<times> agent_budget \<times> grant_kind list" where
  "authority_of d = (sd_session_id d, sd_budget d, sd_allowed d)"

lemma check_authority_cong: "authority_of d = authority_of d' \<Longrightarrow> check_authority st d = check_authority st d'"
  by (simp add: authority_of_def check_authority_def)

lemma update_agent_frame [simp]:
  "authority_of (update_agent n h d) = authority_of d"
  "sd_total_turns (update_agent n h d) = sd_total_turns d"
  "sd_next_agent (update_agent n h d) = sd_next_agent d"
  "sd_agents (update_agent n h d) = (sd_agents d)[n := h (sd_agents d ! n)]"
  by (simp_all add: update_agent_def authority_of_def)

lemma push_event_frame:
  assumes "push_event i k t now d = Inr (e, d')"
  shows "authority_of d' = authority_of d" "sd_total_turns d' = sd_total_turns d"
    "sd_next_agent d' = sd_next_agent d" "sd_agents d' = sd_agents d"
  using assms by (auto simp: push_event_def authority_of_def Let_def)

lemma fail_abandoned_authority: "fail_abandoned now is d = Inr d' \<Longrightarrow> authority_of d' = authority_of d"
  by (induction now "is" d arbitrary: d' rule: fail_abandoned.induct)
    (auto dest: push_event_frame(1) split: prod.splits)

lemma adopt_authority: "adopt i now doc = Inr doc' \<Longrightarrow> authority_of doc' = authority_of doc"
  by (auto simp: adopt_def authority_of_def dest: fail_abandoned_authority)

text \<open>What serde promises: a document that was printed parses back, the final newline included.\<close>

definition faithful_codec :: "graph_env \<Rightarrow> bool" where
  "faithful_codec env \<longleftrightarrow> (\<forall>doc b. ge_print env doc = Inr b \<longrightarrow> ge_parse env (b @ [10]) = Inr doc)"

locale document_law =
  fixes \<Phi> :: "session_document \<Rightarrow> bool"
    and must :: bool
  assumes step: "\<Phi> doc \<Longrightarrow> validate_delegation (co_authority st) = Inr () \<Longrightarrow> graph_step st doc doc' \<Longrightarrow> \<Phi> doc'"
    and fresh: "\<not> must \<Longrightarrow> validate_delegation g = Inr () \<Longrightarrow> \<Phi> (document_new g i)"
begin

abbreviation law :: "graph_env \<Rightarrow> path \<Rightarrow> files \<Rightarrow> bool" where
  "law env \<equiv> kept env \<Phi> must"

lemma wp_load_document_at:
  assumes none: "f p = None \<Longrightarrow> Q (Inr None) f" and err: "\<And>e. Q (Inl e) f"
    and some: "\<And>c doc. f p = Some (FileNode c) \<Longrightarrow> ge_parse env c = Inr doc \<Longrightarrow> Q (Inr (Some doc)) f"
  shows "wp I (load_document_at env p) Q f"
proof -
  define k :: "(io_error, node) res \<Rightarrow> session_document option ma_act" where
    "k = (\<lambda>r. case r of
        Inl IoNotFound \<Rightarrow> ret None
      | Inl e \<Rightarrow> throw (MaIo p e)
      | Inr DirNode \<Rightarrow> throw (MaInvalidPath p)
      | Inr (FileNode c) \<Rightarrow>
          if MAX_DOCUMENT_BYTES < length c then throw (MaDocumentTooLarge p MAX_DOCUMENT_BYTES)
          else act_bind (act_map_err (MaIo p) (fs_read p)) (\<lambda>content.
            lift_res (map_err (MaParse p) (res_bind (ge_parse env content) (\<lambda>doc. Inr (Some doc))))))"
  have found: "wp I (k (Inr n)) Q f" if "f p = Some n" for n
  proof (cases n)
    case (FileNode c)
    have "Q (map_err (MaParse p) (res_bind (ge_parse env c) (\<lambda>doc. Inr (Some doc)))) f"
      using err some that FileNode by (cases "ge_parse env c") auto
    then show ?thesis using FileNode that err by (auto intro!: wp_rules simp: k_def)
  qed (use err in \<open>auto intro!: wp_rules simp: k_def\<close>)
  have missing: "wp I (k (Inl IoNotFound)) Q f" if "f p = None"
    using none that by (auto intro!: wp_rules simp: k_def)
  have refused: "wp I (k (Inl (IoOther m))) Q f" for m
    using err by (auto intro!: wp_rules simp: k_def)
  have eq: "load_document_at env p d = (case fs_metadata p d of (r, d') \<Rightarrow> k r d')" for d
    by (auto simp: load_document_at_def k_def ret_def throw_def
        split: prod.splits sum.splits io_error.splits node.splits)
  show ?thesis by (rule wp_on_metadata [where p = p and k = k, OF missing refused found eq])
qed

lemma wp_load_any:
  assumes err: "\<And>e. Q (Inl e) f" and none: "f p = None \<Longrightarrow> f (backup_path p) = None \<Longrightarrow> Q (Inr None) f"
    and some: "\<And>q c doc. q \<in> {p, backup_path p} \<Longrightarrow> f q = Some (FileNode c) \<Longrightarrow> ge_parse env c = Inr doc \<Longrightarrow>
                 Q (Inr (Some doc)) f"
  shows "wp I (load_document env p) Q f"
  unfolding wp_def
proof (intro allI impI)
  fix d :: disk
  assume d: "dk_files d = f"
  let ?b = "backup_path p"
  define R where "R = (\<lambda>q (r :: session_document option ma_res) g. g = f \<and>
    (r = Inr None \<longrightarrow> f q = None) \<and>
    (\<forall>doc. r = Inr (Some doc) \<longrightarrow> (\<exists>c. f q = Some (FileNode c) \<and> ge_parse env c = Inr doc)))"
  have at: "wp I (load_document_at env q) (R q) f" for q
    by (auto intro!: wp_load_document_at simp: R_def)
  obtain r1 d1 where m1: "load_document_at env p d = (r1, d1)" by fastforce
  obtain r2 d2 where m2: "load_document_at env ?b d1 = (r2, d2)" by fastforce
  have 1: "passes I d d1" "R p r1 (dk_files d1)" using at [of p] m1 d by (auto simp: wp_def)
  then have "dk_files d1 = f" by (simp add: R_def)
  then have 2: "passes I d1 d2" "R ?b r2 (dk_files d2)" using at [of ?b] m2 by (auto simp: wp_def)
  have s1: "Q (Inr (Some doc)) f" if "r1 = Inr (Some doc)" for doc
    using 1(2) that some [of p] by (auto simp: R_def)
  have s2: "Q (Inr (Some doc)) f" if "r2 = Inr (Some doc)" for doc
    using 2(2) that some [of ?b] by (auto simp: R_def)
  have "Q r2 f" if "r1 = Inr None"
  proof (cases r2)
    case (Inr x)
    then show ?thesis using 1(2) 2(2) that none s2 by (cases x) (auto simp: R_def)
  qed (use err in simp)
  then show "passes I d (snd (load_document env p d)) \<and>
      Q (fst (load_document env p d)) (dk_files (snd (load_document env p d)))"
    using 1 2 m1 m2 err s1 s2 passes_trans [OF 1(1) 2(1)] unfolding R_def load_document_def
    by (auto split: prod.splits sum.splits option.splits)
qed

lemma wp_load_document:
  assumes "law env p f" "\<And>e. Q (Inl e) f" "\<not> must \<Longrightarrow> Q (Inr None) f" "\<And>doc. \<Phi> doc \<Longrightarrow> Q (Inr (Some doc)) f"
  shows "wp I (load_document env p) Q f"
proof (rule wp_load_any [where Q = Q, OF assms(2)])
  show "Q (Inr None) f" if "f p = None" "f (backup_path p) = None"
    using that assms(1,3) by (auto simp: kept_def seen_def)
  show "Q (Inr (Some doc)) f" if "q \<in> {p, backup_path p}" "f q = Some (FileNode c)" "ge_parse env c = Inr doc"
    for q c doc using that assms(1,4) by (auto simp: kept_def readable_def)
qed

lemma kept_swapped:
  assumes "law env p f" "json_path dir p" "json_path dir q"
    and "q = p \<Longrightarrow> \<Phi> doc" "ge_parse env content = Inr doc" "length content \<le> MAX_DOCUMENT_BYTES"
    and "swapped q (dir @ [lit ''.multi-agent-'' @ t]) (backup_path q) content f g"
  shows "law env p g"
proof (cases "q = p")
  case True
  then have new: "readable env \<Phi> (Some (FileNode content))" "sound_node env (Some (FileNode content))"
    "readable env \<Phi> None" "sound_node env None"
    using assms by (auto simp: readable_def sound_node_def)
  have old: "\<forall>x \<in> {f p, f (backup_path p)}. readable env \<Phi> x \<and> (must \<longrightarrow> sound_node env x)"
    using assms(1) by (simp add: kept_def)
  have "{g p, g (backup_path p)} \<subseteq> {f p, f (backup_path p), Some (FileNode content), None}"
    using assms(7) True by (simp add: swapped_def)
  then have "x = f p \<or> x = f (backup_path p) \<or> x = Some (FileNode content) \<or> x = None"
    if "x \<in> {g p, g (backup_path p)}" for x
    using that by (drule_tac c = x in subsetD) simp_all
  then have "\<forall>x \<in> {g p, g (backup_path p)}. readable env \<Phi> x \<and> (must \<longrightarrow> sound_node env x)"
    using new old by (metis insertCI)
  moreover have "seen p (backup_path p) g \<noteq> None" if must
  proof -
    have "seen p (backup_path p) f \<noteq> None" using assms(1) that by (simp add: kept_def)
    moreover have "keeps p (backup_path p) f (FileNode content) g" using assms(7) True by (simp add: swapped_def)
    ultimately show ?thesis by (auto simp: keeps_def)
  qed
  ultimately show ?thesis by (simp add: kept_def)
next
  case False
  let ?t = "dir @ [lit ''.multi-agent-'' @ t]"
  have "p \<notin> {q, ?t, backup_path q}" "backup_path p \<notin> {q, ?t, backup_path q}"
    using json_paths_apart(1,2) [OF assms(2,3)] json_paths_apart(1) [OF assms(3,2)] False
      agent_paths_apart [OF assms(2), of t] by auto
  then have "g p = f p" "g (backup_path p) = f (backup_path p)"
    using assms(7) by (auto simp: swapped_def)
  then show ?thesis using assms(1) by (simp add: kept_def seen_def split: option.splits)
qed

lemma kept_directories:
  assumes "law env p f" "json_path dir p"
  shows "law env p (\<lambda>q. if q \<in> set (prefixes dir) then Some DirNode else f q)"
proof -
  obtain s where s: "p = dir @ [s @ lit ''.json'']" "backup_path p = dir @ [s @ lit ''.json.bak'']"
    using assms(2) by (rule json_backup)
  then have "p \<notin> set (prefixes dir)" "backup_path p \<notin> set (prefixes dir)"
    by (auto simp: in_set_prefixes prefix_def)
  then show ?thesis using assms(1) by (simp add: kept_def seen_def)
qed

lemma wp_replace_document:
  assumes "law env p f" "json_path dir p" "json_path dir q"
    and "q = p \<Longrightarrow> \<Phi> doc" "ge_parse env content = Inr doc" "length content \<le> MAX_DOCUMENT_BYTES"
  shows "wp (law env p) (replace_document env q content) (\<lambda>r g. law env p g) f"
proof -
  have apart: "q \<noteq> backup_path q" "dir @ [lit ''.multi-agent-'' @ t] \<noteq> q"
    "dir @ [lit ''.multi-agent-'' @ t] \<noteq> backup_path q" for t
    using json_paths_apart(1) [OF assms(3,3)] agent_paths_apart [OF assms(3)] by auto
  have "wp (law env p) (swap_file q (dir @ [lit ''.multi-agent-'' @ t]) (backup_path q) content) (\<lambda>r g. law env p g) f" for t
  proof (rule wp_weaken [OF wp_swap_file [OF apart]])
    show "law env p g" if "swapped q (dir @ [lit ''.multi-agent-'' @ t]) (backup_path q) content f g" for g
      using assms that by (rule kept_swapped)
    show "law env p g" if "swap_result q (dir @ [lit ''.multi-agent-'' @ t]) (backup_path q) content f r g" for r g
      using that kept_swapped [OF assms] by (cases r) auto
  qed
  then show ?thesis
    by (auto intro!: wp_rules simp: replace_document_def json_path_parent [OF assms(3)] path_join_def temporary_name_def)
qed

lemma wp_save_document [wp_rules]:
  assumes "law env p f" "json_path dir p" "json_path dir (co_path st)" "co_path st = p \<Longrightarrow> \<Phi> doc"
    and codec: "faithful_codec env"
    and Q: "\<And>r g. law env p g \<Longrightarrow> Q r g"
  shows "wp (law env p) (save_document env st doc) Q f"
proof -
  let ?g = "\<lambda>q. if q \<in> set (prefixes dir) then Some DirNode else f q"
  have print_parse: "ge_parse env (b @ [10]) = Inr doc" if "ge_print env doc = Inr b" for b
    using codec that by (simp add: faithful_codec_def)
  have "wp (law env p) (replace_document env (co_path st) (b @ [10])) Q ?g"
    if "ge_print env doc = Inr b" "length (b @ [10]) \<le> MAX_DOCUMENT_BYTES" for b
    by (rule wp_weaken [OF wp_replace_document
          [OF kept_directories [OF assms(1,2)] assms(2,3,4) print_parse [OF that(1)] that(2)]])
      (auto intro: Q)
  then show ?thesis using assms(1) kept_directories [OF assms(1,2)] Q
    unfolding save_document_def json_path_parent [OF assms(3)]
    by (auto intro!: wp_rules simp: Let_def map_err_Inl split: sum.splits)
qed

text \<open>What an operation finds: a document of this session that the law holds of.\<close>

definition ready :: "graph_env \<Rightarrow> path \<Rightarrow> coordinator_store \<Rightarrow> (multi_agent_error, session_document) res \<Rightarrow> files \<Rightarrow> bool" where
  "ready env p st r g \<longleftrightarrow> law env p g \<and>
     (\<forall>doc. r = Inr doc \<longrightarrow> check_authority st doc = Inr () \<and> (co_path st = p \<longrightarrow> \<Phi> doc))"

lemma wp_load_or_new [wp_rules]:
  assumes "law env p f" "json_path dir p" "json_path dir (co_path st)"
    and codec: "faithful_codec env" and valid: "validate_delegation (co_authority st) = Inr ()"
    and Q: "\<And>r g. ready env p st r g \<Longrightarrow> Q r g"
  shows "wp (law env p) (load_or_new env st) Q f"
proof -
  have start: "ready env p st (Inr (document_new (co_authority st) (co_instance_id st))) f"
    if "co_path st = p \<Longrightarrow> \<not> must"
    using that assms(1) fresh [OF _ valid]
    by (auto simp: ready_def check_authority_def document_new_def)
  have failed: "Q (Inl e) g" if "law env p g" for e g using that by (intro Q) (simp add: ready_def)
  have found: "wp (law env p)
      (act_then (lift_res (validate_document doc))
        (act_then (lift_res (check_authority st doc))
        (if sd_instance_id doc = co_instance_id st then ret doc
         else
           act_bind now_millis (\<lambda>now.
           act_bind (lift_res (adopt (co_instance_id st) now doc)) (\<lambda>doc'.
           if co_writable st then act_then (save_document env st doc') (ret doc') else ret doc'))))) Q f"
    if doc: "co_path st = p \<Longrightarrow> \<Phi> doc" for doc
  proof -
    have same: "ready env p st (Inr doc) f" if "check_authority st doc = Inr ()"
      using that assms(1) doc by (simp add: ready_def)
    have adopted: "check_authority st doc' = Inr ()" "co_path st = p \<Longrightarrow> \<Phi> doc'"
      if "check_authority st doc = Inr ()" "adopt (co_instance_id st) now doc = Inr doc'" for now doc'
      using that doc step [OF _ valid step_adopt] check_authority_cong [OF adopt_authority] by auto
    show ?thesis
      using assms(1-3) codec adopted failed same
      by (auto intro!: wp_rules Q simp: ready_def split: sum.splits)
  qed
  define k :: "session_document option \<Rightarrow> session_document ma_act" where
    "k = (\<lambda>x. case x of
            None \<Rightarrow> ret (document_new (co_authority st) (co_instance_id st))
          | Some doc \<Rightarrow> act_then (lift_res (validate_document doc))
             (act_then (lift_res (check_authority st doc))
             (if sd_instance_id doc = co_instance_id st then ret doc
              else
                act_bind now_millis (\<lambda>now.
                act_bind (lift_res (adopt (co_instance_id st) now doc)) (\<lambda>doc'.
                if co_writable st then act_then (save_document env st doc') (ret doc') else ret doc')))))"
  have eq: "load_or_new env st = act_bind (load_document env (co_path st)) k"
    by (simp add: load_or_new_def k_def)
  have cont: "wp (law env p) (k x) Q f"
    if "co_path st = p \<Longrightarrow> x = None \<Longrightarrow> \<not> must" "\<And>doc. co_path st = p \<Longrightarrow> x = Some doc \<Longrightarrow> \<Phi> doc" for x
    unfolding k_def using that found start Q by (cases x) (auto intro!: wp_ret)
  show ?thesis
  proof (cases "co_path st = p")
    case True
    show ?thesis unfolding eq True
    proof (rule wp_bind, rule wp_load_document [OF assms(1)], unfold sum.case)
      show "Q (Inl e) f" for e using assms(1) by (rule failed)
      show "wp (law env p) (k None) Q f" if "\<not> must" by (rule cont) (use that in simp_all)
      show "wp (law env p) (k (Some doc)) Q f" if "\<Phi> doc" for doc by (rule cont) (use that in simp_all)
    qed
  next
    case False
    show ?thesis unfolding eq
      by (rule wp_bind, rule wp_load_any) (use assms(1) failed False in \<open>auto intro!: cont\<close>)
  qed
qed

text \<open>What every operation starts from: the laws at the path, a store of the directory, valid authority.\<close>

definition entry :: "graph_env \<Rightarrow> path \<Rightarrow> path \<Rightarrow> coordinator_store \<Rightarrow> files \<Rightarrow> bool" where
  "entry env dir p st f \<longleftrightarrow> law env p f \<and> json_path dir p \<and> json_path dir (co_path st) \<and>
     validate_delegation (co_authority st) = Inr () \<and> faithful_codec env"

lemma wp_loaded:
  assumes e: "entry env dir p st f"
    and err: "\<And>e g. law env p g \<Longrightarrow> Q (Inl e) g"
    and k: "\<And>doc g. entry env dir p st g \<Longrightarrow> check_authority st doc = Inr () \<Longrightarrow> (co_path st = p \<Longrightarrow> \<Phi> doc) \<Longrightarrow>
              wp (law env p) (k doc) Q g"
  shows "wp (law env p) (act_bind (load_or_new env st) k) Q f"
proof (rule wp_bind, rule wp_load_or_new)
  show "law env p f" "json_path dir p" "json_path dir (co_path st)" "faithful_codec env"
    "validate_delegation (co_authority st) = Inr ()"
    using e by (auto simp: entry_def)
  show "case r of Inl e \<Rightarrow> Q (Inl e) g | Inr doc \<Rightarrow> wp (law env p) (k doc) Q g" if "ready env p st r g" for r g
    using that e err k by (auto simp: ready_def entry_def split: sum.splits)
qed

lemma wp_saved:
  assumes e: "entry env dir p st f" and \<Phi>: "co_path st = p \<Longrightarrow> \<Phi> doc"
    and Q: "\<And>r g. law env p g \<Longrightarrow> Q r g"
  shows "wp (law env p) (act_then (save_document env st doc) (lift_res r)) Q f"
  using e \<Phi> Q by (auto intro!: wp_rules simp: entry_def split: sum.splits)

lemmas step_keeps = step [OF _ _ step_spawn] step [OF _ _ step_begin] step [OF _ _ step_end]
  step [OF _ _ step_abort] step [OF _ _ step_interrupt]

abbreviation safe :: "graph_env \<Rightarrow> path \<Rightarrow> 'a ma_act \<Rightarrow> files \<Rightarrow> bool" where
  "safe env p m f \<equiv> wp (law env p) m (\<lambda>r. law env p) f"

lemma entry_law: "entry env dir p st f \<Longrightarrow> law env p f"
  by (simp add: entry_def)

lemma safe_then:
  "entry env dir p st f \<Longrightarrow> (r = Inr () \<Longrightarrow> safe env p n f) \<Longrightarrow> safe env p (act_then (lift_res r) n) f"
  unfolding act_then_def
  by (rule wp_bind, rule wp_lift_res) (auto simp: entry_law split: sum.splits)

lemma safe_bind:
  "entry env dir p st f \<Longrightarrow> (\<And>x. r = Inr x \<Longrightarrow> safe env p (k x) f) \<Longrightarrow> safe env p (act_bind (lift_res r) k) f"
  by (rule wp_bind, rule wp_lift_res) (auto simp: entry_law split: sum.splits)

lemma safe_now: "(\<And>t. safe env p (k t) f) \<Longrightarrow> safe env p (act_bind now_millis k) f"
  by (rule wp_bind, rule wp_now_millis) simp

lemma safe_lift: "entry env dir p st f \<Longrightarrow> safe env p (lift_res r) f"
  by (rule wp_lift_res) (rule entry_law)

lemma safe_loaded:
  assumes "entry env dir p st f"
    and "\<And>doc g. entry env dir p st g \<Longrightarrow> check_authority st doc = Inr () \<Longrightarrow> (co_path st = p \<Longrightarrow> \<Phi> doc) \<Longrightarrow> safe env p (k doc) g"
  shows "safe env p (act_bind (load_or_new env st) k) f"
  by (rule wp_loaded [OF assms(1)]) (auto intro: assms(2))

text \<open>The save of a document one step away from the one that was found.\<close>

lemma safe_step:
  assumes "entry env dir p st f" "co_path st = p \<Longrightarrow> \<Phi> doc" "graph_step st doc doc'"
  shows "safe env p (act_then (save_document env st doc') (lift_res r)) f"
proof (rule wp_saved [OF assms(1)])
  show "\<Phi> doc'" if "co_path st = p"
    using assms that step [OF _ _ assms(3)] by (simp add: entry_def)
qed

lemma spawn_safe:
  assumes "entry env dir p st f"
  shows "safe env p (spawn_agent env st q) f"
  unfolding spawn_agent_def
proof (rule safe_then [OF assms], rule safe_then [OF assms], rule safe_then [OF assms], rule safe_loaded [OF assms])
  fix doc g
  assume h: "entry env dir p st g" "check_authority st doc = Inr ()" "co_path st = p \<Longrightarrow> \<Phi> doc"
    "require_matching_authority st (sq_grant q) = Inr ()" "map_err MaProtocol (validate_spawn q) = Inr ()"
  show "safe env p (act_bind (lift_res (admit_child st q doc)) (\<lambda>depth.
     act_bind now_millis (\<lambda>now.
     act_bind (lift_res (add_child q depth now doc)) (\<lambda>(stored, event, doc').
     act_then (save_document env st doc')
    (lift_res (res_bind (agent_snapshot_of stored) (\<lambda>s. Inr \<lparr>sp_agent = s, sp_event = event\<rparr>))))))) g"
  proof (rule safe_bind [OF h(1)], rule safe_now, rule safe_bind [OF h(1)])
    fix depth now x
    assume "admit_child st q doc = Inr depth" "add_child q depth now doc = Inr x"
    then show "safe env p (case x of (stored, event, doc') \<Rightarrow> act_then (save_document env st doc')
      (lift_res (res_bind (agent_snapshot_of stored) (\<lambda>s. Inr \<lparr>sp_agent = s, sp_event = event\<rparr>)))) g"
      using h by (cases x) (auto intro: safe_step [OF h(1,3)] step_spawn)
  qed
qed

lemma list_safe:
  assumes "entry env dir p st f"
  shows "safe env p (list_agents env st) f"
  unfolding list_agents_def by (rule safe_loaded [OF assms]) (rule safe_lift)

lemma inspect_safe:
  assumes "entry env dir p st f"
  shows "safe env p (inspect_agent env st q) f"
  unfolding inspect_agent_def
  by (rule safe_then [OF assms], rule safe_then [OF assms], rule safe_loaded [OF assms], rule safe_lift)

lemma start_safe:
  assumes "entry env dir p st f"
  shows "safe env p (start_agent_turn env st q) f"
  unfolding start_agent_turn_def Let_def
proof (rule safe_then [OF assms], rule safe_then [OF assms], rule safe_then [OF assms], rule safe_loaded [OF assms],
    rule wp_if, goal_cases)
  case (1 doc g)
  then show ?case by (intro wp_throw) (rule entry_law)
next
  case (2 doc g)
  show ?case
  proof (rule safe_now, rule safe_bind [OF 2(4)])
    fix now x
    assume x: "begin_turn st q now doc = Inr x"
    obtain n event doc' where [simp]: "x = (n, event, doc')" by (cases x)
    show "safe env p (case x of (n, event, doc') \<Rightarrow>
       act_bind (lift_res (agent_snapshot_of (sd_agents doc' ! n))) (\<lambda>snapshot.
       act_then (save_document env st doc')
      (lift_res (map_err MaProtocol (turn_start_result_new snapshot (sa_transcript (sd_agents doc' ! n)) event))))) g"
      using 2 x by (auto intro!: safe_bind safe_step [OF 2(4,6)] intro: step_begin)
  qed
qed

lemma commit_safe:
  assumes "entry env dir p st f" "co_path st = p \<Longrightarrow> \<Phi> doc" "\<And>n event doc'. x = (n, event, doc') \<Longrightarrow> graph_step st doc doc'"
  shows "safe env p (commit_turn env st x) f"
proof (cases x)
  case (fields n event doc')
  show ?thesis unfolding commit_turn_def fields prod.case
    by (rule safe_bind [OF assms(1)], rule safe_step [OF assms(1,2) assms(3) [OF fields]])
qed

lemma complete_safe:
  assumes "entry env dir p st f"
  shows "safe env p (complete_agent_turn env st q) f"
  unfolding complete_agent_turn_def
proof (rule safe_then [OF assms], rule safe_then [OF assms], rule safe_then [OF assms], rule safe_loaded [OF assms],
    rule safe_now, goal_cases)
  case (1 doc g now)
  show ?case by (rule safe_bind [OF 1(4)], rule commit_safe [OF 1(4,6)]) (auto intro: step_end [OF 1(5)])
qed

lemma fail_safe:
  assumes "entry env dir p st f"
  shows "safe env p (fail_agent_turn env st q) f"
  unfolding fail_agent_turn_def
proof (rule safe_then [OF assms], rule safe_then [OF assms], rule safe_then [OF assms], rule safe_loaded [OF assms],
    rule safe_now, goal_cases)
  case (1 doc g now)
  show ?case by (rule safe_bind [OF 1(4)], rule commit_safe [OF 1(4,6)]) (auto intro: step_abort [OF 1(5)])
qed

lemma interrupt_safe:
  assumes "entry env dir p st f"
  shows "safe env p (interrupt_branch env st q) f"
  unfolding interrupt_branch_def
proof (rule safe_then [OF assms], rule safe_then [OF assms], rule safe_then [OF assms], rule safe_loaded [OF assms],
    goal_cases)
  case (1 doc g)
  show ?case
  proof (rule safe_then [OF 1(4)], rule safe_now, rule safe_bind [OF 1(4)])
    fix now x
    assume x: "interrupt_all now (interrupt_targets q doc) doc = Inr x"
    show "safe env p (case x of (changed, events, doc') \<Rightarrow> act_then (save_document env st doc')
      (lift_res (map_err MaProtocol (mutation_result_new changed events)))) g"
      using x by (cases x) (auto intro!: safe_step [OF 1(4,6)] intro: step_interrupt [OF 1(5)])
  qed
qed

end

section \<open>A request of one coordinator directory\<close>

text \<open>Where the store of a grant keeps its documents, when its workspace resolves.\<close>

definition graph_directory :: "graph_env \<Rightarrow> delegation_grant \<Rightarrow> path option" where
  "graph_directory env g =
     (case wg_state_root (dg_workspace g) of
        Some p \<Rightarrow> Some (p @ [lit ''multi-agent''])
      | None \<Rightarrow>
          (case ge_canonicalize env (wg_root (dg_workspace g)) of
             Inl e \<Rightarrow> None
           | Inr w \<Rightarrow> Some (w @ [lit ''.yunxi-next'', lit ''multi-agent''])))"

text \<open>The grant a request carries.\<close>

definition graph_grant :: "'v graph_serde \<Rightarrow> 'v invocation_request \<Rightarrow> delegation_grant option" where
  "graph_grant j r =
     (let operation = ir_operation r; v = ir_payload r in
      if operation = lit ''spawn'' then map_option sq_grant (case gs_spawn j v of Inl e \<Rightarrow> None | Inr q \<Rightarrow> Some q)
      else if operation = lit ''list'' then (case gs_list j v of Inl e \<Rightarrow> None | Inr q \<Rightarrow> Some q)
      else if operation = lit ''inspect'' then map_option iq_grant (case gs_inspect j v of Inl e \<Rightarrow> None | Inr q \<Rightarrow> Some q)
      else if operation = lit ''turn_start'' then map_option tq_grant (case gs_start j v of Inl e \<Rightarrow> None | Inr q \<Rightarrow> Some q)
      else if operation = lit ''turn_complete'' then map_option cq_grant (case gs_complete j v of Inl e \<Rightarrow> None | Inr q \<Rightarrow> Some q)
      else if operation = lit ''turn_fail'' then map_option fq_grant (case gs_fail j v of Inl e \<Rightarrow> None | Inr q \<Rightarrow> Some q)
      else if operation = lit ''interrupt'' then map_option nq_grant (case gs_interrupt j v of Inl e \<Rightarrow> None | Inr q \<Rightarrow> Some q)
      else None)"

definition stays_in :: "path \<Rightarrow> graph_env \<Rightarrow> delegation_grant \<Rightarrow> bool" where
  "stays_in dir env g \<longleftrightarrow> graph_directory env g \<in> {None, Some dir}"

context document_law
begin

lemma wp_is_directory [wp_rules]: "(\<And>b. Q (Inr b) f) \<Longrightarrow> wp I (is_directory p) Q f"
proof -
  assume Q: "\<And>b. Q (Inr b) f"
  have "wp I (fs_metadata p) (\<lambda>r g. Q (Inr (r = Inr DirNode)) g) f"
    by (rule wp_metadata) (use Q in auto)
  then show ?thesis by (auto simp: wp_def is_directory_def split: prod.splits)
qed

lemma session_json_path:
  assumes "validate_delegation g = Inr ()"
  shows "json_path dir (path_join dir (dg_session_id g @ lit ''.json''))"
proof -
  have "dg_session_id g \<noteq> []" "is_ascii_alphanumeric (hd (dg_session_id g))"
    using assms by (auto simp: validate_delegation_def agent_validate_token_Inr)
  then show ?thesis
    using hd_token_not_dot unfolding json_path_def path_join_def
    by (intro exI [of _ "dg_session_id g"]) simp
qed

lemma wp_store_from_grant:
  assumes "law env p f" "json_path dir p" "faithful_codec env" "stays_in dir env g"
    and Q: "\<And>e. Q (Inl e) f" "\<And>st. entry env dir p st f \<Longrightarrow> Q (Inr st) f"
  shows "wp I (store_from_grant env g i) Q f"
proof (cases "validate_delegation g = Inr () \<and> (\<exists>w. ge_canonicalize env (wg_root (dg_workspace g)) = Inr w)")
  case True
  then obtain w where v: "validate_delegation g = Inr ()"
    and w: "ge_canonicalize env (wg_root (dg_workspace g)) = Inr w" by blast
  define state where "state = (case wg_state_root (dg_workspace g) of
    Some q \<Rightarrow> q | None \<Rightarrow> path_join w (lit ''.yunxi-next''))"
  have "path_join state (lit ''multi-agent'') = dir"
    using assms(4) w by (auto simp: stays_in_def graph_directory_def state_def path_join_def split: option.splits)
  then have "Q (Inr \<lparr>co_path = path_join (path_join state (lit ''multi-agent'')) (dg_session_id g @ lit ''.json''),
               co_workspace_root = w, co_instance_id = i, co_authority = g,
               co_writable = wg_next_write (dg_workspace g)\<rparr>) f"
    using assms(1-3) v session_json_path [OF v] by (intro Q(2)) (simp add: entry_def)
  then show ?thesis
    using v w Q(1) unfolding store_from_grant_def Let_def
    by (auto intro!: wp_rules simp: state_def split: sum.splits)
next
  case False
  then show ?thesis
    using Q(1) unfolding store_from_grant_def Let_def
    by (cases "validate_delegation g"; cases "ge_canonicalize env (wg_root (dg_workspace g))")
      (auto intro!: wp_rules split: sum.splits)
qed

lemma call_safe:
  assumes "law env p f" "json_path dir p" "faithful_codec env"
    and g: "\<And>q. from_value (ir_payload r) = Inr q \<Longrightarrow> stays_in dir env (grant_of q)"
    and op: "\<And>st q. entry env dir p st f \<Longrightarrow> safe env p (operation st q) f"
  shows "wp (law env p) (graph_call from_value grant_of env i operation to_value r) (\<lambda>r. law env p) f"
  unfolding graph_call_def
proof (rule wp_bind, rule wp_lift_res)
  have run: "wp (law env p) (act_map_err GpStore
         (act_bind (store_from_grant env (grant_of q) i) (\<lambda>st. operation st q))) (\<lambda>r. law env p) f"
    if "stays_in dir env (grant_of q)" for q
    by (intro wp_map_err wp_bind, rule wp_store_from_grant [OF assms(1-3) that])
      (use assms(1) op in auto)
  have "wp (law env p) (act_bind (act_map_err GpStore
         (act_bind (store_from_grant env (grant_of q) i) (\<lambda>st. operation st q))) (\<lambda>x.
      lift_res (map_err GpInvocation (response_encode to_value (ir_request_id r) x)))) (\<lambda>r. law env p) f"
    if "stays_in dir env (grant_of q)" for q
    by (rule wp_bind, rule wp_mono [OF run [OF that]]) (auto intro: wp_lift_res split: sum.splits)
  then show "case map_err GpInvocation (request_payload from_value r) of
      Inl e \<Rightarrow> law env p f
    | Inr q \<Rightarrow> wp (law env p) (act_bind (act_map_err GpStore
         (act_bind (store_from_grant env (grant_of q) i) (\<lambda>st. operation st q))) (\<lambda>x.
         lift_res (map_err GpInvocation (response_encode to_value (ir_request_id r) x)))) (\<lambda>r. law env p) f"
    using assms(1) g by (auto simp: request_payload_def split: sum.splits)
qed

lemmas operation_safe = spawn_safe list_safe inspect_safe start_safe complete_safe fail_safe interrupt_safe

lemma dispatch_safe:
  assumes "law env p f" "json_path dir p" "faithful_codec env"
    and "\<And>g. graph_grant j r = Some g \<Longrightarrow> stays_in dir env g"
    and "graph_dispatch j env i r = Some call"
  shows "wp (law env p) call (\<lambda>r. law env p) f"
  using assms(4,5) unfolding graph_dispatch_def graph_grant_def Let_def
  by (auto split: if_splits intro!: call_safe [OF assms(1-3)] operation_safe)

lemma answer_safe:
  assumes "law env p (dk_files d)" "json_path dir p" "faithful_codec env"
    and "\<And>g. graph_grant j r = Some g \<Longrightarrow> stays_in dir env g"
    and "graph_answer s j env i r d = (m, d')"
  shows "passes (law env p) d d' \<and> law env p (dk_files d')"
proof (cases "graph_dispatch j env i r")
  case None
  then show ?thesis using assms(1,5) by (auto simp: graph_answer_def Let_def split: if_splits)
next
  case (Some call)
  have "wp (law env p) call (\<lambda>r. law env p) (dk_files d)"
    by (rule dispatch_safe [OF assms(1-4) Some])
  then have "passes (law env p) d (snd (call d)) \<and> law env p (dk_files (snd (call d)))"
    by (simp add: wp_def)
  then show ?thesis
    using assms(1,5) Some by (auto simp: graph_answer_def Let_def split: if_splits prod.splits sum.splits)
qed

end

end
