(* ===== verification/Agent_Graph_Props.thy ===== *)
theory Agent_Graph_Props
  imports Agent_Graph_Steps
begin

text \<open>
  What every transition keeps of a session document: the agents form a tree under the root, numbered in
  order of creation, with depths, delegated grants and turns inside the budget (\<open>graph_ok\<close>), and a
  document only ever grows out of an earlier one (\<open>evolves\<close>): the authority is fixed, agents keep
  their identity, transcripts are only extended and an interrupted agent is never touched again.
\<close>

section \<open>The tree and its budgets\<close>

definition shape :: "stored_agent \<Rightarrow> rstring \<times> rstring \<times> u16 \<times> grant_kind list" where
  "shape a = (sa_id a, sa_parent_id a, sa_depth a, sa_child_grants a)"

definition numbered_id :: "nat \<Rightarrow> rstring" where
  "numbered_id k = lit ''agent-'' @ show_nat (Suc k)"

definition placed :: "grant_kind list \<Rightarrow> (rstring \<times> rstring \<times> u16 \<times> grant_kind list) list \<Rightarrow> nat \<Rightarrow> bool" where
  "placed allowed shapes k \<longleftrightarrow>
     (case shapes ! k of (i, parent, depth, grants) \<Rightarrow>
        i = numbered_id k \<and>
        (parent = ROOT_AGENT_ID \<and> depth = 1 \<and> set grants \<subseteq> set allowed \<or>
         (\<exists>j < k. case shapes ! j of (i', parent', depth', grants') \<Rightarrow>
            parent = i' \<and> depth = depth' + 1 \<and> set grants \<subseteq> set grants')))"

definition user_entries :: "stored_agent \<Rightarrow> nat" where
  "user_entries a = length (filter (\<lambda>e. te_role e = RoleOfUser) (sa_transcript a))"

definition in_budget :: "agent_budget \<Rightarrow> stored_agent \<Rightarrow> bool" where
  "in_budget b a \<longleftrightarrow> sa_depth a \<le> ab_max_depth b \<and> sa_turns_used a \<le> ab_max_turns_per_agent b \<and>
     user_entries a = unat (sa_turns_used a)"

definition turns_taken :: "session_document \<Rightarrow> nat" where
  "turns_taken d = (\<Sum>a \<leftarrow> sd_agents d. unat (sa_turns_used a))"

definition graph_ok :: "session_document \<Rightarrow> bool" where
  "graph_ok d \<longleftrightarrow>
     validate_budget (sd_budget d) = Inr () \<and> agent_validate_grants (sd_allowed d) = Inr () \<and>
     length (sd_agents d) \<le> unat (ab_max_agents (sd_budget d)) \<and>
     sd_next_agent d = of_nat (Suc (length (sd_agents d))) \<and>
     (\<forall>k < length (sd_agents d). placed (sd_allowed d) (map shape (sd_agents d)) k) \<and>
     (\<forall>a \<in> set (sd_agents d). in_budget (sd_budget d) a) \<and>
     unat (sd_total_turns d) = turns_taken d \<and> sd_total_turns d \<le> ab_max_total_turns (sd_budget d) \<and>
     length (sd_events d) \<le> MAX_AGENT_EVENTS"

lemma map_update_same: "h y = h (xs ! n) \<Longrightarrow> map h (xs[n := y]) = map h xs"
  by (cases "n < length xs") (simp_all add: map_update list_update_beyond list_update_same_conv)

lemma push_event_bound:
  "push_event i k t now d = Inr (e, d') \<Longrightarrow> length (sd_events d') \<le> MAX_AGENT_EVENTS"
  by (auto simp: push_event_def Let_def MAX_AGENT_EVENTS_def)

lemma agent_index_bound: "agent_index d i = Inr n \<Longrightarrow> n < length (sd_agents d) \<and> sa_id (sd_agents d ! n) = i"
proof -
  have "position P xs = Some n \<Longrightarrow> n < length xs \<and> P (xs ! n)" for P and xs :: "stored_agent list" and n
    by (induction xs arbitrary: n) (auto split: if_splits)
  then show "agent_index d i = Inr n \<Longrightarrow> n < length (sd_agents d) \<and> sa_id (sd_agents d ! n) = i"
    by (auto simp: agent_index_def split: option.splits)
qed

text \<open>A step that only touches statuses, transcripts, times and events.\<close>

lemma graph_ok_touch:
  assumes ok: "graph_ok d" and d': "authority_of d' = authority_of d" "sd_next_agent d' = sd_next_agent d"
    "map shape (sd_agents d') = map shape (sd_agents d)"
    "map sa_turns_used (sd_agents d') = map sa_turns_used (sd_agents d)"
    "map user_entries (sd_agents d') = map user_entries (sd_agents d)"
    "sd_total_turns d' = sd_total_turns d" "length (sd_events d') \<le> MAX_AGENT_EVENTS"
  shows "graph_ok d'"
proof -
  have len: "length (sd_agents d') = length (sd_agents d)" using d'(3) by (rule map_eq_imp_length_eq)
  have nth: "shape (sd_agents d' ! k) = shape (sd_agents d ! k)"
    "sa_turns_used (sd_agents d' ! k) = sa_turns_used (sd_agents d ! k)"
    "user_entries (sd_agents d' ! k) = user_entries (sd_agents d ! k)" if "k < length (sd_agents d)" for k
    using that len d'(3-5) by (metis nth_map)+
  have "in_budget (sd_budget d) a" if "a \<in> set (sd_agents d')" for a
  proof -
    obtain k where k: "k < length (sd_agents d)" "a = sd_agents d' ! k" using \<open>a \<in> _\<close> len by (auto simp: in_set_conv_nth)
    then have "in_budget (sd_budget d) (sd_agents d ! k)" using ok by (simp add: graph_ok_def)
    then show ?thesis using nth [OF k(1)] k(2) by (auto simp: in_budget_def shape_def)
  qed
  moreover have "turns_taken d' = turns_taken d"
    using d'(4) unfolding turns_taken_def by (metis (no_types, lifting) list.map_comp comp_def map_eq_conv)
  ultimately show ?thesis
    using ok d' len by (auto simp: graph_ok_def authority_of_def)
qed

lemma graph_ok_status:
  assumes "graph_ok d" "push_event i k t now (update_agent n (set_status s now) d) = Inr (e, d')"
  shows "graph_ok d'"
  by (rule graph_ok_touch [OF assms(1)])
    (use push_event_frame [OF assms(2)] push_event_bound [OF assms(2)] in
      \<open>auto simp: shape_def set_status_def user_entries_def map_update_same\<close>)

lemma fail_abandoned_ok: "fail_abandoned now is d = Inr d' \<Longrightarrow> graph_ok d \<Longrightarrow> graph_ok d'"
proof (induction now "is" d rule: fail_abandoned.induct)
  case (2 now i "is" d)
  then obtain n e d1 where "push_event i AeFailed (lit ''child turn abandoned after coordinator restart'') now
      (update_agent n (set_status AsFailed now) d) = Inr (e, d1)" "fail_abandoned now is d1 = Inr d'"
    by (auto split: prod.splits)
  with 2 show ?case by (auto dest: graph_ok_status)
qed simp

lemma graph_ok_instance [simp]: "graph_ok (d\<lparr>sd_instance_id := i\<rparr>) = graph_ok d"
  by (simp add: graph_ok_def turns_taken_def)

lemma adopt_ok: "adopt i now d = Inr d' \<Longrightarrow> graph_ok d \<Longrightarrow> graph_ok d'"
  by (auto simp: adopt_def dest: fail_abandoned_ok)

lemma interrupt_all_ok: "interrupt_all now is d = Inr (cs, es, d') \<Longrightarrow> graph_ok d \<Longrightarrow> graph_ok d'"
proof (induction now "is" d arbitrary: cs es rule: interrupt_all.induct)
  case (2 now i "is" d)
  then obtain n where n: "agent_index d i = Inr n" by auto
  show ?case
  proof (cases "sa_status (sd_agents d ! n) = AsInterrupted")
    case True
    then show ?thesis using 2 n by auto
  next
    case False
    with 2 n obtain e d1 cs' es' where "push_event i AeInterrupted (lit ''branch interrupted by the Host'') now
      (update_agent n (set_status AsInterrupted now) d) = Inr (e, d1)"
      "interrupt_all now is d1 = Inr (cs', es', d')"
      by (auto split: prod.splits)
    with 2 n False show ?thesis by (auto dest: graph_ok_status)
  qed
qed simp

lemma end_turn_ok: "end_turn q now d = Inr (n, e, d') \<Longrightarrow> graph_ok d \<Longrightarrow> graph_ok d'"
proof -
  assume e: "end_turn q now d = Inr (n, e, d')" and ok: "graph_ok d"
  then obtain entry where entry: "transcript_assistant (cq_reply q) = Inr entry"
    and p: "push_event (cq_agent_id q) AeCompleted (lit ''child model turn completed'') now
      (update_agent n (\<lambda>a. a\<lparr>sa_transcript := sa_transcript a @ [entry],
         sa_status := AsCompleted, sa_updated_at := now\<rparr>) d) = Inr (e, d')"
    by (auto simp: end_turn_def Let_def split: if_splits prod.splits)
  have "te_role entry = RoleOfAssistant"
    using entry by (auto simp: transcript_assistant_def transcript_entry_new_def)
  then show "graph_ok d'"
    by (intro graph_ok_touch [OF ok])
      (use push_event_frame [OF p] push_event_bound [OF p] in
        \<open>auto simp: shape_def user_entries_def map_update_same\<close>)
qed

lemma abort_turn_ok: "abort_turn q now d = Inr (n, e, d') \<Longrightarrow> graph_ok d \<Longrightarrow> graph_ok d'"
  by (auto simp: abort_turn_def Let_def split: if_splits prod.splits dest: graph_ok_status)

lemma begin_turn_Inr:
  assumes "begin_turn st q now d = Inr (n, e, d')"
  obtains entry where "te_role entry = RoleOfUser" "n < length (sd_agents d)" "sa_id (sd_agents d ! n) = tq_agent_id q"
    "sa_turns_used (sd_agents d ! n) < ab_max_turns_per_agent (dg_budget (co_authority st))"
    "sa_status (sd_agents d ! n) \<notin> {AsRunning, AsInterrupted}"
    "authority_of d' = authority_of d" "sd_next_agent d' = sd_next_agent d"
    "sd_total_turns d' = sat_inc (sd_total_turns d)" "length (sd_events d') \<le> MAX_AGENT_EVENTS"
    "sd_agents d' = (sd_agents d)[n := (sd_agents d ! n)\<lparr>sa_transcript := sa_transcript (sd_agents d ! n) @ [entry],
       sa_turns_used := sat_inc (sa_turns_used (sd_agents d ! n)), sa_status := AsRunning, sa_updated_at := now\<rparr>]"
proof -
  from assms obtain entry d2 where i: "agent_index d (tq_agent_id q) = Inr n"
    and entry: "transcript_user (tq_message q) = Inr entry"
    and guards: "sa_status (sd_agents d ! n) \<notin> {AsRunning, AsInterrupted}"
      "\<not> ab_max_turns_per_agent (dg_budget (co_authority st)) \<le> sa_turns_used (sd_agents d ! n)"
    and p: "push_event (tq_agent_id q) AeTurnStarted (lit ''child model turn started'') now d2 = Inr (e, d')"
    and d2: "d2 = (let d1 = update_agent n (\<lambda>a. a\<lparr>sa_transcript := sa_transcript a @ [entry],
                     sa_turns_used := sat_inc (sa_turns_used a), sa_status := AsRunning,
                     sa_updated_at := now\<rparr>) d in d1\<lparr>sd_total_turns := sat_inc (sd_total_turns d1)\<rparr>)"
    by (auto simp: begin_turn_def Let_def split: if_splits prod.splits)
  have "te_role entry = RoleOfUser" using entry by (auto simp: transcript_user_def transcript_entry_new_def)
  moreover have "authority_of d2 = authority_of d" using d2 by (simp add: Let_def authority_of_def update_agent_def)
  moreover have "sd_next_agent d2 = sd_next_agent d" "sd_total_turns d2 = sat_inc (sd_total_turns d)"
    using d2 by (simp_all add: Let_def)
  moreover have "sd_agents d2 = (sd_agents d)[n := (sd_agents d ! n)\<lparr>sa_transcript := sa_transcript (sd_agents d ! n) @ [entry],
       sa_turns_used := sat_inc (sa_turns_used (sd_agents d ! n)), sa_status := AsRunning, sa_updated_at := now\<rparr>]"
    using d2 by (simp add: Let_def)
  ultimately show thesis
    using guards agent_index_bound [OF i] push_event_frame [OF p] push_event_bound [OF p]
    by (intro that [of entry]) auto
qed

lemma contained_limits:
  assumes "check_authority st d = Inr ()"
  shows "ab_max_agents (dg_budget (co_authority st)) \<le> ab_max_agents (sd_budget d)"
    "ab_max_depth (dg_budget (co_authority st)) \<le> ab_max_depth (sd_budget d)"
    "ab_max_turns_per_agent (dg_budget (co_authority st)) \<le> ab_max_turns_per_agent (sd_budget d)"
    "ab_max_total_turns (dg_budget (co_authority st)) \<le> ab_max_total_turns (sd_budget d)"
    "set (dg_allowed (co_authority st)) \<subseteq> set (sd_allowed d)"
  using assms by (auto simp: check_authority_def budget_contains_def split: if_splits)

lemma begin_turn_ok:
  assumes auth: "check_authority st d = Inr ()"
    and total: "\<not> ab_max_total_turns (dg_budget (co_authority st)) \<le> sd_total_turns d"
    and b: "begin_turn st q now d = Inr (n, e, d')" and ok: "graph_ok d"
  shows "graph_ok d'"
proof -
  obtain entry where role: "te_role entry = RoleOfUser" and n: "n < length (sd_agents d)"
    and turns: "sa_turns_used (sd_agents d ! n) < ab_max_turns_per_agent (dg_budget (co_authority st))"
    and f: "authority_of d' = authority_of d" "sd_next_agent d' = sd_next_agent d"
      "sd_total_turns d' = sat_inc (sd_total_turns d)" "length (sd_events d') \<le> MAX_AGENT_EVENTS"
    and as: "sd_agents d' = (sd_agents d)[n := (sd_agents d ! n)\<lparr>sa_transcript := sa_transcript (sd_agents d ! n) @ [entry],
       sa_turns_used := sat_inc (sa_turns_used (sd_agents d ! n)), sa_status := AsRunning, sa_updated_at := now\<rparr>]"
    by (rule begin_turn_Inr [OF b])
  let ?a = "sd_agents d ! n"
  let ?b = "?a\<lparr>sa_transcript := sa_transcript ?a @ [entry],
       sa_turns_used := sat_inc (sa_turns_used ?a), sa_status := AsRunning, sa_updated_at := now\<rparr>"
  have "in_budget (sd_budget d) ?a" using ok n by (simp add: graph_ok_def)
  then have "in_budget (sd_budget d) ?b"
    using sat_inc_below [OF turns] contained_limits(3) [OF auth] role
    by (auto simp: in_budget_def user_entries_def)
  then have "\<forall>a \<in> set (sd_agents d'). in_budget (sd_budget d) a"
    using ok set_update_subset_insert [of "sd_agents d" n ?b] by (auto simp: as graph_ok_def)
  moreover have "map shape (sd_agents d') = map shape (sd_agents d)"
    unfolding as by (rule map_update_same) (simp add: shape_def)
  moreover have "turns_taken d' = Suc (turns_taken d)"
  proof -
    let ?ts = "map (\<lambda>a. unat (sa_turns_used a)) (sd_agents d)"
    have "?ts ! n \<le> sum_list ?ts" by (rule elem_le_sum_list) (simp add: n)
    then show ?thesis
      using n sat_inc_below [OF turns] by (simp add: turns_taken_def as map_update sum_list_update)
  qed
  moreover have "sd_total_turns d' \<le> ab_max_total_turns (sd_budget d)"
    "unat (sd_total_turns d') = Suc (unat (sd_total_turns d))"
    using sat_inc_below [of "sd_total_turns d" "ab_max_total_turns (dg_budget (co_authority st))"] total
      contained_limits(4) [OF auth] by (auto simp: f(3) not_le)
  moreover have "length (sd_agents d') = length (sd_agents d)" by (simp add: as)
  ultimately show ?thesis using ok f by (auto simp: graph_ok_def authority_of_def)
qed

lemma one_le_word: "b \<noteq> 0 \<Longrightarrow> 1 \<le> b" for b :: "'a::len word"
  by (metis not_less word_less_1)

lemma admit_child_Inr:
  assumes "admit_child st q d = Inr depth"
  obtains "length (sd_agents d) < unat (ab_max_agents (dg_budget (co_authority st)))"
    "depth \<le> ab_max_depth (dg_budget (co_authority st))"
    "sq_parent_id q = ROOT_AGENT_ID" "depth = 1" "set (sq_requested q) \<subseteq> set (dg_allowed (co_authority st))"
  | j where "length (sd_agents d) < unat (ab_max_agents (dg_budget (co_authority st)))"
    "depth \<le> ab_max_depth (dg_budget (co_authority st))"
    "j < length (sd_agents d)" "sq_parent_id q = sa_id (sd_agents d ! j)"
    "depth = sat_inc (sa_depth (sd_agents d ! j))" "sa_status (sd_agents d ! j) \<noteq> AsInterrupted"
    "set (sq_requested q) \<subseteq> set (sa_child_grants (sd_agents d ! j))"
proof (cases "sq_parent_id q = ROOT_AGENT_ID")
  case True
  then show thesis using assms by (intro that(1)) (auto simp: admit_child_def Let_def sat_inc_def one_le_word split: if_splits)
next
  case False
  then obtain a where a: "find (\<lambda>a. sa_id a = sq_parent_id q) (sd_agents d) = Some a"
    using assms by (auto simp: admit_child_def Let_def split: if_splits option.splits)
  then obtain j where "j < length (sd_agents d)" "a = sd_agents d ! j" "sq_parent_id q = sa_id a"
    by (auto simp: find_Some_iff)
  then show thesis
    using assms False a by (intro that(2) [of j]) (auto simp: admit_child_def Let_def split: if_splits)
qed

lemma add_child_Inr:
  assumes "add_child q depth now d = Inr (stored, e, d')"
  shows "authority_of d' = authority_of d" "sd_total_turns d' = sd_total_turns d"
    "sd_next_agent d' = sat_inc (sd_next_agent d)" "length (sd_events d') \<le> MAX_AGENT_EVENTS"
    "sd_agents d' = sd_agents d @ [stored]"
    "sa_id stored = lit ''agent-'' @ show_nat (unat (sd_next_agent d))" "sa_parent_id stored = sq_parent_id q"
    "sa_depth stored = depth" "sa_child_grants stored = sq_requested q" "sa_turns_used stored = 0"
    "sa_transcript stored = []" "sa_status stored = AsPending"
proof -
  obtain d1 where p: "push_event (lit ''agent-'' @ show_nat (unat (sd_next_agent d))) AeSpawned
      (lit ''spawned under '' @ sq_parent_id q) now (d\<lparr>sd_next_agent := sat_inc (sd_next_agent d)\<rparr>) = Inr (e, d1)"
    and d': "d' = d1\<lparr>sd_agents := sd_agents d1 @ [stored]\<rparr>"
    and st: "stored = \<lparr>sa_id = lit ''agent-'' @ show_nat (unat (sd_next_agent d)), sa_parent_id = sq_parent_id q,
        sa_name = (case sq_name q of Some n \<Rightarrow> n | None \<Rightarrow> lit ''Agent '' @ show_nat (unat (sd_next_agent d))),
        sa_depth = depth, sa_status = AsPending, sa_turns_used = 0, sa_child_grants = sq_requested q,
        sa_transcript = [], sa_created_at = now, sa_updated_at = now\<rparr>"
    using assms by (auto simp: add_child_def Let_def split: prod.splits)
  show "authority_of d' = authority_of d" "sd_total_turns d' = sd_total_turns d"
    "sd_next_agent d' = sat_inc (sd_next_agent d)" "length (sd_events d') \<le> MAX_AGENT_EVENTS"
    "sd_agents d' = sd_agents d @ [stored]"
    using push_event_frame [OF p] push_event_bound [OF p] by (auto simp: d' authority_of_def)
  show "sa_id stored = lit ''agent-'' @ show_nat (unat (sd_next_agent d))" "sa_parent_id stored = sq_parent_id q"
    "sa_depth stored = depth" "sa_child_grants stored = sq_requested q" "sa_turns_used stored = 0"
    "sa_transcript stored = []" "sa_status stored = AsPending"
    by (simp_all add: st)
qed

lemma placed_append: "k < length xs \<Longrightarrow> placed g xs k \<Longrightarrow> placed g (xs @ ys) k"
proof -
  assume k: "k < length xs" "placed g xs k"
  then have "(xs @ ys) ! j = xs ! j" if "j \<le> k" for j using that by (simp add: nth_append)
  then have "(\<exists>j < k. P ((xs @ ys) ! j)) = (\<exists>j < k. P (xs ! j))" for P by auto
  then show "placed g (xs @ ys) k" using k by (simp add: placed_def nth_append)
qed

lemma add_child_ok:
  assumes auth: "check_authority st d = Inr ()" and adm: "admit_child st q d = Inr depth"
    and add: "add_child q depth now d = Inr (stored, e, d')" and ok: "graph_ok d"
  shows "graph_ok d'"
proof -
  note f = add_child_Inr [OF add]
  note limits = contained_limits [OF auth]
  let ?n = "length (sd_agents d)"
  have n: "?n < unat (ab_max_agents (sd_budget d))" and depth: "depth \<le> ab_max_depth (sd_budget d)"
    using limits(1,2) by (rule_tac [!] admit_child_Inr [OF adm]) (auto simp: word_le_nat_alt)
  have valid: "ab_max_agents (sd_budget d) \<le> MAX_AGENT_COUNT" "ab_max_depth (sd_budget d) \<le> MAX_AGENT_DEPTH"
    using ok by (auto simp: graph_ok_def validate_budget_def)
  then have n16: "?n < 16" using n by (simp add: MAX_AGENT_COUNT_def word_le_nat_alt)
  have nextid: "sd_next_agent d = of_nat (Suc ?n)" using ok by (simp add: graph_ok_def)
  have u: "unat (sd_next_agent d) = Suc ?n"
    unfolding nextid by (rule unat_of_nat_64) (use n16 in simp)
  have "sd_next_agent d < 100" using u n16 by (simp add: word_less_nat_alt)
  then have "unat (sat_inc (sd_next_agent d)) = Suc (Suc ?n)" using sat_inc_below u by metis
  then have "sat_inc (sd_next_agent d) = of_nat (Suc (Suc ?n))" by (metis of_nat_unat ucast_id)
  then have "sd_next_agent d' = of_nat (Suc (length (sd_agents d')))" using f(3,5) by simp
  moreover have "placed (sd_allowed d) (map shape (sd_agents d')) k" if "k < length (sd_agents d')" for k
  proof (cases "k = ?n")
    case False
    then show ?thesis using that ok f(5) by (auto simp: graph_ok_def intro!: placed_append)
  next
    case True
    have id: "sa_id stored = numbered_id ?n" using f(6) u by (simp add: numbered_id_def)
    show ?thesis
    proof (rule admit_child_Inr [OF adm])
      assume "sq_parent_id q = ROOT_AGENT_ID" "depth = 1" "set (sq_requested q) \<subseteq> set (dg_allowed (co_authority st))"
      then show ?thesis using True f limits(5) id by (auto simp: placed_def shape_def nth_append)
    next
      fix j
      assume j: "j < ?n" "sq_parent_id q = sa_id (sd_agents d ! j)" "depth = sat_inc (sa_depth (sd_agents d ! j))"
        "set (sq_requested q) \<subseteq> set (sa_child_grants (sd_agents d ! j))"
      have "in_budget (sd_budget d) (sd_agents d ! j)" using ok j(1) by (simp add: graph_ok_def)
      then have "sa_depth (sd_agents d ! j) \<le> 4"
        using valid(2) by (auto simp: in_budget_def MAX_AGENT_DEPTH_def)
      then have "sa_depth (sd_agents d ! j) < 5" by (simp add: word_le_nat_alt word_less_nat_alt)
      then have "sa_depth (sd_agents d ! j) \<noteq> - 1" by (rule less_not_max)
      then have "depth = sa_depth (sd_agents d ! j) + 1" using j(3) by (simp add: sat_inc_def)
      then have "\<exists>j' < k. case map shape (sd_agents d') ! j' of (i', parent', depth', grants') \<Rightarrow>
          sa_parent_id stored = i' \<and> sa_depth stored = depth' + 1 \<and> set (sa_child_grants stored) \<subseteq> set grants'"
        using True j f by (intro exI [of _ j]) (simp add: shape_def nth_append)
      then show ?thesis using True f id by (simp add: placed_def shape_def nth_append)
    qed
  qed
  moreover have "in_budget (sd_budget d) stored"
    using f depth by (simp add: in_budget_def user_entries_def)
  moreover have "turns_taken d' = turns_taken d" using f by (simp add: turns_taken_def)
  ultimately show ?thesis
    using ok f n by (auto simp: graph_ok_def authority_of_def)
qed

lemma graph_ok_new: "validate_delegation g = Inr () \<Longrightarrow> graph_ok (document_new g i)"
  by (auto simp: graph_ok_def document_new_def turns_taken_def validate_delegation_def)

lemma graph_step_ok: "graph_step st d d' \<Longrightarrow> graph_ok d \<Longrightarrow> graph_ok d'"
  by (induction rule: graph_step.cases)
    (blast intro: adopt_ok add_child_ok begin_turn_ok end_turn_ok abort_turn_ok interrupt_all_ok)+

section \<open>A document only grows out of an earlier one\<close>

definition agent_evolves :: "stored_agent \<Rightarrow> stored_agent \<Rightarrow> bool" where
  "agent_evolves a b \<longleftrightarrow>
     shape b = shape a \<and> sa_name b = sa_name a \<and> sa_created_at b = sa_created_at a \<and>
     sa_turns_used a \<le> sa_turns_used b \<and> prefix (sa_transcript a) (sa_transcript b) \<and>
     (sa_status a = AsInterrupted \<longrightarrow> b = a)"

definition evolves :: "session_document \<Rightarrow> session_document \<Rightarrow> bool" where
  "evolves d d' \<longleftrightarrow>
     authority_of d' = authority_of d \<and> sd_total_turns d \<le> sd_total_turns d' \<and>
     (\<exists>old spawned. sd_agents d' = old @ spawned \<and> list_all2 agent_evolves (sd_agents d) old \<and>
        (\<forall>b \<in> set spawned. \<forall>a \<in> set (sd_agents d). sa_id a = sa_parent_id b \<longrightarrow> sa_status a \<noteq> AsInterrupted))"

lemma agent_evolves_refl [simp]: "agent_evolves a a"
  by (simp add: agent_evolves_def)

lemma agent_evolves_trans: "agent_evolves a b \<Longrightarrow> agent_evolves b c \<Longrightarrow> agent_evolves a c"
  by (auto simp: agent_evolves_def)

lemma agent_evolves_shape: "agent_evolves a b \<Longrightarrow> sa_id b = sa_id a \<and> sa_parent_id b = sa_parent_id a"
  by (simp add: agent_evolves_def shape_def)

lemma evolves_refl [simp]: "evolves d d"
  unfolding evolves_def
  by (intro conjI exI [of _ "sd_agents d"] exI [of _ "[]"]) (auto intro: list_all2_refl)

lemma evolves_trans:
  assumes "evolves d d1" "evolves d1 d2"
  shows "evolves d d2"
proof -
  obtain old spawned where 1: "sd_agents d1 = old @ spawned" "list_all2 agent_evolves (sd_agents d) old"
    "\<forall>b \<in> set spawned. \<forall>a \<in> set (sd_agents d). sa_id a = sa_parent_id b \<longrightarrow> sa_status a \<noteq> AsInterrupted"
    using assms(1) by (auto simp: evolves_def)
  obtain old' spawned' where 2: "sd_agents d2 = old' @ spawned'" "list_all2 agent_evolves (old @ spawned) old'"
    "\<forall>b \<in> set spawned'. \<forall>a \<in> set (old @ spawned). sa_id a = sa_parent_id b \<longrightarrow> sa_status a \<noteq> AsInterrupted"
    using assms(2) 1(1) by (auto simp: evolves_def)
  obtain xs ys where o: "old' = xs @ ys" "list_all2 agent_evolves old xs" "list_all2 agent_evolves spawned ys"
    using 2(2) by (auto simp: list_all2_append1)
  have xs: "list_all2 agent_evolves (sd_agents d) xs"
    using agent_evolves_trans 1(2) o(2) by (rule list_all2_trans)
  moreover have "sa_status a \<noteq> AsInterrupted"
    if b: "b \<in> set (ys @ spawned')" and a: "a \<in> set (sd_agents d)" and i: "sa_id a = sa_parent_id b" for a b
  proof (cases "b \<in> set ys")
    case True
    then obtain c where "c \<in> set spawned" "agent_evolves c b"
      using o(3) by (metis in_set_conv_nth list_all2_conv_all_nth)
    then show ?thesis using 1(3) a i agent_evolves_shape by metis
  next
    case False
    then have s: "b \<in> set spawned'" using b by simp
    obtain c where c: "c \<in> set old" "agent_evolves a c"
      using 1(2) a by (metis in_set_conv_nth list_all2_conv_all_nth)
    then have "sa_status c \<noteq> AsInterrupted" using 2(3) s i agent_evolves_shape [OF c(2)] by auto
    then show ?thesis using c(2) by (auto simp: agent_evolves_def)
  qed
  ultimately have "\<exists>old spawned. sd_agents d2 = old @ spawned \<and> list_all2 agent_evolves (sd_agents d) old \<and>
        (\<forall>b \<in> set spawned. \<forall>a \<in> set (sd_agents d). sa_id a = sa_parent_id b \<longrightarrow> sa_status a \<noteq> AsInterrupted)"
    using 2(1) o(1) by (intro exI [of _ xs] exI [of _ "ys @ spawned'"]) auto
  then show ?thesis using assms by (auto simp: evolves_def)
qed

lemma evolves_update:
  assumes "authority_of d' = authority_of d" "sd_total_turns d \<le> sd_total_turns d'"
    and "sd_agents d' = (sd_agents d)[n := b]" "n < length (sd_agents d)" "agent_evolves (sd_agents d ! n) b"
  shows "evolves d d'"
  unfolding evolves_def using assms
  by (intro conjI exI [of _ "(sd_agents d)[n := b]"] exI [of _ "[]"])
    (auto simp: list_all2_conv_all_nth nth_list_update)

lemma push_evolves:
  assumes "push_event i k t now (update_agent n h d) = Inr (e, d')" "n < length (sd_agents d)"
    and "agent_evolves (sd_agents d ! n) (h (sd_agents d ! n))"
  shows "evolves d d'"
  by (rule evolves_update [OF _ _ _ assms(2,3)]) (use push_event_frame [OF assms(1)] in auto)

lemma set_status_evolves: "sa_status a \<noteq> AsInterrupted \<Longrightarrow> agent_evolves a (set_status s t a)"
  by (simp add: agent_evolves_def set_status_def shape_def)

lemma numbered_id_inject [simp]: "numbered_id j = numbered_id k \<longleftrightarrow> j = k"
  by (simp add: numbered_id_def)

lemma numbered_id_not_root: "numbered_id k \<noteq> ROOT_AGENT_ID"
  by (simp add: numbered_id_def ROOT_AGENT_ID_def lit_def)

lemma graph_ok_id: "graph_ok d \<Longrightarrow> k < length (sd_agents d) \<Longrightarrow> sa_id (sd_agents d ! k) = numbered_id k"
  by (auto simp: graph_ok_def placed_def shape_def)

lemma graph_ok_same:
  assumes "graph_ok d" "a \<in> set (sd_agents d)" "b \<in> set (sd_agents d)" "sa_id a = sa_id b"
  shows "a = b"
  using assms by (auto simp: in_set_conv_nth graph_ok_id)

lemma fail_abandoned_evolves:
  "fail_abandoned now is d = Inr d' \<Longrightarrow>
   (\<forall>a \<in> set (sd_agents d). sa_id a \<in> set is \<longrightarrow> sa_status a \<noteq> AsInterrupted) \<Longrightarrow> evolves d d'"
proof (induction now "is" d rule: fail_abandoned.induct)
  case (2 now i "is" d)
  then obtain n e d1 where n: "agent_index d i = Inr n"
    and p: "push_event i AeFailed (lit ''child turn abandoned after coordinator restart'') now
      (update_agent n (set_status AsFailed now) d) = Inr (e, d1)" and r: "fail_abandoned now is d1 = Inr d'"
    by (auto split: prod.splits)
  have b: "n < length (sd_agents d)" "sa_id (sd_agents d ! n) = i" using agent_index_bound [OF n] by auto
  then have "sa_status (sd_agents d ! n) \<noteq> AsInterrupted" using "2.prems"(2) by auto
  then have "evolves d d1" by (rule push_evolves [OF p b(1) set_status_evolves])
  moreover have "\<forall>a \<in> set (sd_agents d1). sa_id a \<in> set is \<longrightarrow> sa_status a \<noteq> AsInterrupted"
    using "2.prems"(2) push_event_frame(4) [OF p]
    by (auto simp: set_status_def dest!: set_update_subset_insert [THEN subsetD])
  then have "evolves d1 d'" using "2.IH" n p r by auto
  ultimately show ?case by (rule evolves_trans)
qed simp

lemma evolves_instance: "evolves d d1 \<Longrightarrow> evolves d (d1\<lparr>sd_instance_id := i\<rparr>)"
  by (simp add: evolves_def authority_of_def)

lemma adopt_evolves: "adopt i now d = Inr d' \<Longrightarrow> graph_ok d \<Longrightarrow> evolves d d'"
proof -
  assume a: "adopt i now d = Inr d'" and ok: "graph_ok d"
  then obtain d1 where d1: "fail_abandoned now (running_ids d) d = Inr d1" "d' = d1\<lparr>sd_instance_id := i\<rparr>"
    by (auto simp: adopt_def)
  have "\<forall>a \<in> set (sd_agents d). sa_id a \<in> set (running_ids d) \<longrightarrow> sa_status a \<noteq> AsInterrupted"
    using graph_ok_same [OF ok] by (fastforce simp: running_ids_def)
  then show "evolves d d'" using d1 by (auto intro: evolves_instance fail_abandoned_evolves)
qed

lemma interrupt_all_evolves: "interrupt_all now is d = Inr (cs, es, d') \<Longrightarrow> evolves d d'"
proof (induction now "is" d arbitrary: cs es rule: interrupt_all.induct)
  case (2 now i "is" d)
  then obtain n where n: "agent_index d i = Inr n" by auto
  show ?case
  proof (cases "sa_status (sd_agents d ! n) = AsInterrupted")
    case True
    then show ?thesis using 2 n by auto
  next
    case False
    with 2 n obtain e d1 cs' es' where p: "push_event i AeInterrupted (lit ''branch interrupted by the Host'') now
      (update_agent n (set_status AsInterrupted now) d) = Inr (e, d1)"
      and r: "interrupt_all now is d1 = Inr (cs', es', d')"
      by (auto split: prod.splits)
    have "evolves d d1"
      using agent_index_bound [OF n] set_status_evolves [OF False] by (intro push_evolves [OF p]) auto
    moreover have "evolves d1 d'" using 2 n False p r by auto
    ultimately show ?thesis by (rule evolves_trans)
  qed
qed simp

lemma end_turn_evolves: "end_turn q now d = Inr (n, e, d') \<Longrightarrow> evolves d d'"
proof -
  assume "end_turn q now d = Inr (n, e, d')"
  then obtain entry where n: "agent_index d (cq_agent_id q) = Inr n" and s: "sa_status (sd_agents d ! n) = AsRunning"
    and p: "push_event (cq_agent_id q) AeCompleted (lit ''child model turn completed'') now
      (update_agent n (\<lambda>a. a\<lparr>sa_transcript := sa_transcript a @ [entry],
         sa_status := AsCompleted, sa_updated_at := now\<rparr>) d) = Inr (e, d')"
    by (auto simp: end_turn_def Let_def split: if_splits prod.splits)
  then show "evolves d d'"
    by (intro push_evolves [OF p]) (use agent_index_bound [OF n] in \<open>auto simp: agent_evolves_def shape_def\<close>)
qed

lemma abort_turn_evolves: "abort_turn q now d = Inr (n, e, d') \<Longrightarrow> evolves d d'"
proof -
  assume "abort_turn q now d = Inr (n, e, d')"
  then have n: "agent_index d (fq_agent_id q) = Inr n" and s: "sa_status (sd_agents d ! n) = AsRunning"
    and p: "push_event (fq_agent_id q) AeFailed (fq_code q @ lit '': '' @ fq_message q) now
      (update_agent n (set_status AsFailed now) d) = Inr (e, d')"
    by (auto simp: abort_turn_def Let_def split: if_splits prod.splits)
  then show "evolves d d'"
    by (intro push_evolves [OF p]) (use agent_index_bound [OF n] in \<open>auto intro: set_status_evolves\<close>)
qed

lemma begin_turn_evolves: "begin_turn st q now d = Inr (n, e, d') \<Longrightarrow> evolves d d'"
proof -
  assume "begin_turn st q now d = Inr (n, e, d')"
  then obtain entry where "n < length (sd_agents d)" "sa_status (sd_agents d ! n) \<notin> {AsRunning, AsInterrupted}"
    "authority_of d' = authority_of d" "sd_total_turns d' = sat_inc (sd_total_turns d)"
    "sd_agents d' = (sd_agents d)[n := (sd_agents d ! n)\<lparr>sa_transcript := sa_transcript (sd_agents d ! n) @ [entry],
       sa_turns_used := sat_inc (sa_turns_used (sd_agents d ! n)), sa_status := AsRunning, sa_updated_at := now\<rparr>]"
    by (rule begin_turn_Inr)
  then show "evolves d d'"
    by (intro evolves_update) (auto simp: agent_evolves_def shape_def)
qed

lemma add_child_evolves:
  assumes adm: "admit_child st q d = Inr depth" and add: "add_child q depth now d = Inr (stored, e, d')"
    and ok: "graph_ok d"
  shows "evolves d d'"
proof -
  note f = add_child_Inr [OF add]
  have "sa_status a \<noteq> AsInterrupted" if a: "a \<in> set (sd_agents d)" "sa_id a = sq_parent_id q" for a
  proof (rule admit_child_Inr [OF adm])
    assume "sq_parent_id q = ROOT_AGENT_ID"
    then show ?thesis using a graph_ok_id [OF ok] numbered_id_not_root by (metis in_set_conv_nth)
  next
    fix j
    assume "j < length (sd_agents d)" "sq_parent_id q = sa_id (sd_agents d ! j)"
      "sa_status (sd_agents d ! j) \<noteq> AsInterrupted"
    then show ?thesis using graph_ok_same [OF ok a(1), of "sd_agents d ! j"] a(2) by auto
  qed
  then show ?thesis
    unfolding evolves_def using f
    by (intro conjI exI [of _ "sd_agents d"] exI [of _ "[stored]"]) (auto intro: list_all2_refl)
qed

lemma graph_step_evolves: "graph_step st d d' \<Longrightarrow> graph_ok d \<Longrightarrow> evolves d d'"
  by (induction rule: graph_step.cases)
    (blast intro: adopt_evolves add_child_evolves begin_turn_evolves end_turn_evolves abort_turn_evolves
      interrupt_all_evolves)+

section \<open>Delegated grants come from the session\<close>

lemma graph_ok_grants:
  assumes "graph_ok d" "a \<in> set (sd_agents d)"
  shows "set (sa_child_grants a) \<subseteq> set (sd_allowed d)"
proof -
  have "set (sa_child_grants (sd_agents d ! k)) \<subseteq> set (sd_allowed d)" if "k < length (sd_agents d)" for k
    using that
  proof (induction k rule: less_induct)
    case (less k)
    then have "placed (sd_allowed d) (map shape (sd_agents d)) k" using assms(1) by (simp add: graph_ok_def)
    then consider "set (sa_child_grants (sd_agents d ! k)) \<subseteq> set (sd_allowed d)"
      | j where "j < k" "set (sa_child_grants (sd_agents d ! k)) \<subseteq> set (sa_child_grants (sd_agents d ! j))"
      using less.prems by (auto simp: placed_def shape_def)
    then show ?case using less.IH less.prems by cases (simp, meson less_trans subset_trans)
  qed
  then show ?thesis using assms(2) by (auto simp: in_set_conv_nth)
qed

lemma graph_ok_delegable: "graph_ok d \<Longrightarrow> a \<in> set (sd_agents d) \<Longrightarrow> g \<in> set (sa_child_grants a) \<Longrightarrow> \<not> undelegable g"
  using graph_ok_grants [of d a] by (auto simp: graph_ok_def agent_validate_grants_Inr)

section \<open>The branch of an agent\<close>

definition spawned_by :: "stored_agent list \<Rightarrow> rstring \<Rightarrow> rstring \<Rightarrow> bool" where
  "spawned_by as i c \<longleftrightarrow> (\<exists>a \<in> set as. sa_parent_id a = i \<and> sa_id a = c)"

lemma take_children_sets:
  assumes "take_children as parent (targets, queue) = (targets', queue')"
  shows "set targets' = set targets \<union> {c. spawned_by as parent c}"
    and "set queue' = set queue \<union> ({c. spawned_by as parent c} - set targets)"
    and "bs_wf targets \<Longrightarrow> bs_wf targets'"
proof -
  have "set targets' = set targets \<union> {c. spawned_by as parent c} \<and>
    set queue' = set queue \<union> ({c. spawned_by as parent c} - set targets) \<and> (bs_wf targets \<longrightarrow> bs_wf targets')"
    using assms
  proof (induction as parent "(targets, queue)" arbitrary: targets queue rule: take_children.induct)
    case (2 a as parent targets queue)
    show ?case
    proof (cases "sa_parent_id a = parent \<and> sa_id a \<notin> set targets")
      case True
      have "{c. spawned_by (a # as) parent c} = insert (sa_id a) {c. spawned_by as parent c}"
        using True by (auto simp: spawned_by_def)
      then show ?thesis using "2.hyps"(1) [OF True] "2.prems" True by auto
    next
      case False
      have "{c. spawned_by (a # as) parent c} - set targets = {c. spawned_by as parent c} - set targets"
        using False by (auto simp: spawned_by_def)
      then show ?thesis using "2.hyps"(2) [OF False] "2.prems" False by (auto simp: spawned_by_def)
    qed
  qed (auto simp: spawned_by_def)
  then show "set targets' = set targets \<union> {c. spawned_by as parent c}"
    "set queue' = set queue \<union> ({c. spawned_by as parent c} - set targets)"
    "bs_wf targets \<Longrightarrow> bs_wf targets'" by auto
qed

lemma branch_loop_set:
  assumes "set queue \<subseteq> set targets"
    and "\<And>i c. i \<in> set targets - set queue \<Longrightarrow> spawned_by as i c \<Longrightarrow> c \<in> set targets"
  shows "set (branch_loop as targets queue) = {c. \<exists>i \<in> set targets. (spawned_by as)\<^sup>*\<^sup>* i c}"
  using assms
proof (induction as targets queue rule: branch_loop.induct)
  case (1 as targets)
  have "c \<in> set targets" if "(spawned_by as)\<^sup>*\<^sup>* i c" "i \<in> set targets" for i c
    using that by (induction rule: rtranclp_induct) (use 1(2) in auto)
  then show ?case by auto
next
  case (2 as targets parent queue)
  obtain targets' queue' where t: "take_children as parent (targets, queue) = (targets', queue')" by fastforce
  note sets = take_children_sets [OF t]
  have "set (branch_loop as targets' queue') = {c. \<exists>i \<in> set targets'. (spawned_by as)\<^sup>*\<^sup>* i c}"
  proof (rule "2.IH" [OF t [symmetric]])
    show "set queue' \<subseteq> set targets'" using sets "2.prems"(1) by auto
    show "c \<in> set targets'" if "i \<in> set targets' - set queue'" "spawned_by as i c" for i c
      using that sets "2.prems"(2) [of i c] by (cases "i = parent") auto
  qed
  also have "\<dots> = {c. \<exists>i \<in> set targets. (spawned_by as)\<^sup>*\<^sup>* i c}"
    using sets(1) "2.prems"(1) by (auto intro: converse_rtranclp_into_rtranclp)
  finally show ?case using t by simp
qed

lemma branch_loop_wf: "bs_wf targets \<Longrightarrow> bs_wf (branch_loop as targets queue)"
  by (induction as targets queue rule: branch_loop.induct)
    (use take_children_sets(3) in \<open>fastforce split: prod.splits\<close>)+

lemma interrupt_targets_set:
  "set (interrupt_targets q d) =
     (if nq_recursive q then {i. (spawned_by (sd_agents d))\<^sup>*\<^sup>* (nq_agent_id q) i} else {nq_agent_id q})"
  unfolding interrupt_targets_def
  using branch_loop_set [of "[nq_agent_id q]" "[nq_agent_id q]" "sd_agents d"] by simp

section \<open>Marking several agents\<close>

definition mark :: "(stored_agent \<Rightarrow> bool) \<Rightarrow> agent_status \<Rightarrow> u128 \<Rightarrow> stored_agent \<Rightarrow> stored_agent" where
  "mark P s now a = (if P a then set_status s now a else a)"

definition valid_agents :: "session_document \<Rightarrow> bool" where
  "valid_agents d \<longleftrightarrow> distinct (map sa_id (sd_agents d)) \<and> sd_next_event d \<noteq> 0 \<and>
     (\<forall>a \<in> set (sd_agents d). \<exists>s. agent_snapshot_of a = Inr s)"

lemma snapshot_status: "(\<exists>s. agent_snapshot_of (set_status st now a) = Inr s) = (\<exists>s. agent_snapshot_of a = Inr s)"
  by (auto simp: agent_snapshot_of_def agent_snapshot_new_def set_status_def validate_agent_snapshot_def)

lemma snapshot_id: "agent_snapshot_of a = Inr s \<Longrightarrow> validate_agent_id (sa_id a) = Inr ()"
  by (auto simp: agent_snapshot_of_def agent_snapshot_new_def validate_agent_snapshot_def)

lemma agent_index_found: "i \<in> sa_id ` set (sd_agents d) \<Longrightarrow> \<exists>n. agent_index d i = Inr n"
proof -
  assume i: "i \<in> sa_id ` set (sd_agents d)"
  have "position P xs = None \<Longrightarrow> \<forall>x \<in> set xs. \<not> P x" for P and xs :: "stored_agent list"
    by (induction xs) (auto split: if_splits)
  then have "position (\<lambda>a. sa_id a = i) (sd_agents d) \<noteq> None" using i by fastforce
  then show ?thesis by (auto simp: agent_index_def)
qed

lemma update_is_mark:
  assumes "distinct (map sa_id as)" "n < length as" "sa_id (as ! n) = i"
  shows "as[n := set_status s now (as ! n)] = map (mark (\<lambda>a. sa_id a = i) s now) as"
proof (rule nth_equalityI)
  fix k
  assume "k < length (as[n := set_status s now (as ! n)])"
  moreover have "sa_id (as ! k) = i \<longleftrightarrow> k = n" if "k < length as"
    using assms that by (metis distinct_conv_nth length_map nth_map)
  ultimately show "as[n := set_status s now (as ! n)] ! k = map (mark (\<lambda>a. sa_id a = i) s now) as ! k"
    by (auto simp: nth_list_update mark_def)
qed simp

text \<open>One marked agent: the event is recorded and every agent stays valid.\<close>

lemma push_status:
  assumes v: "valid_agents d" and n: "agent_index d i = Inr n"
    and detail: "\<not> blank detail" "str_len detail \<le> MAX_AGENT_DETAIL_BYTES" "0 \<notin> set detail"
  obtains e d1 where "push_event i k detail now (update_agent n (set_status s now) d) = Inr (e, d1)"
    "sd_agents d1 = map (mark (\<lambda>a. sa_id a = i) s now) (sd_agents d)" "valid_agents d1"
proof -
  have b: "n < length (sd_agents d)" "sa_id (sd_agents d ! n) = i" using agent_index_bound [OF n] by auto
  then have "validate_agent_id i = Inr ()" using v snapshot_id by (metis nth_mem valid_agents_def)
  then obtain e d1 where p: "push_event i k detail now (update_agent n (set_status s now) d) = Inr (e, d1)"
    using v detail by (auto simp: push_event_def agent_event_new_def validate_agent_event_def Let_def
        agent_validate_text_Inr valid_agents_def update_agent_def)
  have as: "sd_agents d1 = map (mark (\<lambda>a. sa_id a = i) s now) (sd_agents d)"
    using push_event_frame(4) [OF p] update_is_mark [OF _ b] v by (simp add: valid_agents_def)
  have "sd_next_event d1 = sat_inc (sd_next_event d)"
    using p by (auto simp: push_event_def Let_def update_agent_def)
  then have "sd_next_event d1 \<noteq> 0"
    using v unfolding valid_agents_def by (metis sat_inc_ge word_gt_0 linorder_not_less)
  moreover have "map sa_id (sd_agents d1) = map sa_id (sd_agents d)"
    by (simp add: as mark_def set_status_def)
  moreover have "\<forall>a \<in> set (sd_agents d1). \<exists>s. agent_snapshot_of a = Inr s"
    using v by (auto simp: as mark_def valid_agents_def snapshot_status)
  ultimately have "valid_agents d1" using v by (simp add: valid_agents_def)
  then show thesis using that p as by blast
qed

definition event_text :: "rstring \<Rightarrow> bool" where
  "event_text t \<longleftrightarrow> \<not> blank t \<and> str_len t \<le> MAX_AGENT_DETAIL_BYTES \<and> 0 \<notin> set t"

lemma event_texts:
  "event_text (lit ''branch interrupted by the Host'')"
  "event_text (lit ''child turn abandoned after coordinator restart'')"
  by (simp_all add: event_text_def lit_def blank_iff is_whitespace_def str_len_def utf8_width_def
      MAX_AGENT_DETAIL_BYTES_def)

lemma same_agent: "distinct (map sa_id as) \<Longrightarrow> a \<in> set as \<Longrightarrow> n < length as \<Longrightarrow> sa_id a = sa_id (as ! n) \<Longrightarrow> a = as ! n"
  by (metis (no_types, lifting) distinct_map inj_onD nth_mem)

lemma interrupt_all_result:
  assumes "valid_agents d" "set is \<subseteq> sa_id ` set (sd_agents d)"
  shows "\<exists>cs es d'. interrupt_all now is d = Inr (cs, es, d') \<and>
    sd_agents d' = map (mark (\<lambda>a. sa_id a \<in> set is \<and> sa_status a \<noteq> AsInterrupted) AsInterrupted now) (sd_agents d)"
  using assms
proof (induction "is" arbitrary: d)
  case Nil
  then show ?case by (simp add: mark_def)
next
  case (Cons i "is")
  let ?P = "\<lambda>is a. sa_id a \<in> set is \<and> sa_status a \<noteq> AsInterrupted"
  have dist: "distinct (map sa_id (sd_agents d))" using Cons.prems(1) by (simp add: valid_agents_def)
  obtain n where n: "agent_index d i = Inr n" using agent_index_found Cons.prems(2) by fastforce
  have b: "n < length (sd_agents d)" "sa_id (sd_agents d ! n) = i" using agent_index_bound [OF n] by auto
  show ?case
  proof (cases "sa_status (sd_agents d ! n) = AsInterrupted")
    case True
    then have "map (mark (?P (i # is)) AsInterrupted now) (sd_agents d) = map (mark (?P is) AsInterrupted now) (sd_agents d)"
      using same_agent [OF dist _ b(1)] b(2) by (auto simp: mark_def)
    moreover have "interrupt_all now (i # is) d = interrupt_all now is d" using n True by simp
    moreover have "set is \<subseteq> sa_id ` set (sd_agents d)" using Cons.prems(2) by simp
    ultimately show ?thesis using Cons.IH [OF Cons.prems(1)] by (simp only:)
  next
    case False
    obtain e d1 where p: "push_event i AeInterrupted (lit ''branch interrupted by the Host'') now
        (update_agent n (set_status AsInterrupted now) d) = Inr (e, d1)"
      and as: "sd_agents d1 = map (mark (\<lambda>a. sa_id a = i) AsInterrupted now) (sd_agents d)" and v: "valid_agents d1"
      using push_status [OF Cons.prems(1) n] event_texts(1) unfolding event_text_def by blast
    have ids: "map sa_id (sd_agents d1) = map sa_id (sd_agents d)" by (simp add: as mark_def set_status_def)
    then have "set is \<subseteq> sa_id ` set (sd_agents d1)" using Cons.prems(2) by (metis list.set_map set_subset_Cons subset_trans)
    then obtain cs es d' where r: "interrupt_all now is d1 = Inr (cs, es, d')"
      "sd_agents d' = map (mark (?P is) AsInterrupted now) (sd_agents d1)"
      using Cons.IH [OF v] by blast
    have "n < length (sd_agents d1)" using b(1) as by simp
    then obtain snap where "agent_snapshot_of (sd_agents d1 ! n) = Inr snap"
      using v by (metis nth_mem valid_agents_def)
    moreover have "sd_agents d' = map (mark (?P (i # is)) AsInterrupted now) (sd_agents d)"
      using same_agent [OF dist _ b(1)] b(2) False unfolding r(2) as by (auto simp: mark_def set_status_def)
    ultimately show ?thesis using n False p r by auto
  qed
qed

lemma fail_abandoned_result:
  assumes "valid_agents d" "set is \<subseteq> sa_id ` set (sd_agents d)"
  shows "\<exists>d'. fail_abandoned now is d = Inr d' \<and>
    sd_agents d' = map (mark (\<lambda>a. sa_id a \<in> set is) AsFailed now) (sd_agents d)"
  using assms
proof (induction "is" arbitrary: d)
  case Nil
  then show ?case by (simp add: mark_def)
next
  case (Cons i "is")
  obtain n where n: "agent_index d i = Inr n" using agent_index_found Cons.prems(2) by fastforce
  obtain e d1 where p: "push_event i AeFailed (lit ''child turn abandoned after coordinator restart'') now
      (update_agent n (set_status AsFailed now) d) = Inr (e, d1)"
    and as: "sd_agents d1 = map (mark (\<lambda>a. sa_id a = i) AsFailed now) (sd_agents d)" and v: "valid_agents d1"
    using push_status [OF Cons.prems(1) n] event_texts(2) unfolding event_text_def by blast
  have ids: "map sa_id (sd_agents d1) = map sa_id (sd_agents d)" by (simp add: as mark_def set_status_def)
  then have "set is \<subseteq> sa_id ` set (sd_agents d1)" using Cons.prems(2) by (metis list.set_map set_subset_Cons subset_trans)
  then obtain d' where "fail_abandoned now is d1 = Inr d'"
    "sd_agents d' = map (mark (\<lambda>a. sa_id a \<in> set is) AsFailed now) (sd_agents d1)"
    using Cons.IH [OF v] by blast
  then show ?case using n p by (auto simp: as mark_def set_status_def)
qed

lemma graph_ok_distinct: "graph_ok d \<Longrightarrow> distinct (map sa_id (sd_agents d))"
  by (auto simp: distinct_conv_nth graph_ok_id)

lemma validated_agents:
  assumes "graph_ok d" "validate_document d = Inr ()"
  shows "valid_agents d"
proof -
  have "validate_agents_from ids as = Inr r \<Longrightarrow> \<forall>a \<in> set as. \<exists>s. agent_snapshot_of a = Inr s" for ids as r
    by (induction ids as rule: validate_agents_from.induct)
      (auto simp: validate_stored_agent_def split: if_splits)
  then show ?thesis
    using assms graph_ok_distinct by (auto simp: valid_agents_def validate_document_def split: if_splits)
qed

end
