(* ===== verification/Agent_Graph_Runs.thy ===== *)
theory Agent_Graph_Runs
  imports Agent_Graph_Props
begin

text \<open>
  The coordinator as it runs: the laws of the documents as instances of \<open>document_law\<close>, the reader of
  an interrupted replacement as an instance of \<open>durable_reader\<close>, and the steps of the disk under
  requests, refused calls, torn writes and kills as instances of \<open>component\<close>.
\<close>

section \<open>The laws of the documents\<close>

interpretation tree_law: document_law graph_ok False
  by unfold_locales (auto intro: graph_step_ok graph_ok_new)

interpretation history_law: document_law "\<lambda>doc. graph_ok doc \<and> (\<exists>old \<in> F. evolves old doc)" True for F
  by unfold_locales (blast intro: graph_step_ok evolves_trans graph_step_evolves)+

section \<open>Reading a document back\<close>

definition graph_recover :: "graph_env \<Rightarrow> path \<Rightarrow> files \<Rightarrow> session_document option" where
  "graph_recover env p f = (case fst (load_document env p (quiet_disk f)) of Inl e \<Rightarrow> None | Inr x \<Rightarrow> x)"

definition graph_decode :: "graph_env \<Rightarrow> u8 list \<Rightarrow> session_document option" where
  "graph_decode env c =
     (if MAX_DOCUMENT_BYTES < length c then None
      else (case ge_parse env c of Inl e \<Rightarrow> None | Inr doc \<Rightarrow> Some doc))"

lemma quiet_load_at:
  "graph_decode env c = Some doc \<Longrightarrow> f p = Some (FileNode c) \<Longrightarrow>
   load_document_at env p (quiet_disk f) = (Inr (Some doc), quiet_disk f)"
  "f p = None \<Longrightarrow> load_document_at env p (quiet_disk f) = (Inr None, quiet_disk f)"
  by (auto simp: load_document_at_def quiet_metadata graph_decode_def act_bind_def act_map_err_def lift_res_def
      split: if_splits sum.splits)

interpretation graph_reader: durable_reader "graph_recover env p" "graph_decode env" p "backup_path p" for env p
proof unfold_locales
  fix f c doc
  assume h: "seen p (backup_path p) f = Some (FileNode c)" "graph_decode env c = Some doc"
  show "graph_recover env p f = Some doc"
  proof (cases "f p")
    case None
    then have "f (backup_path p) = Some (FileNode c)" using h(1) by (simp add: seen_def)
    then show ?thesis using None quiet_load_at(1) [OF h(2)] quiet_load_at(2) [of f p env]
      by (simp add: graph_recover_def load_document_def)
  next
    case (Some n)
    then have "f p = Some (FileNode c)" using h(1) by (simp add: seen_def)
    then show ?thesis using quiet_load_at(1) [OF h(2)] by (simp add: graph_recover_def load_document_def)
  qed
qed

section \<open>Requests, refused calls and kills\<close>

text \<open>
  A request is answered by a coordinator process (with its process and instance id), or the process is
  killed at some moment of answering it; between requests only the answers of the operating system and
  the clock change.
\<close>

inductive graph_disk_step :: "'v graph_serde \<Rightarrow> graph_env \<Rightarrow> path \<Rightarrow> disk \<Rightarrow> disk \<Rightarrow> bool" for j env dir where
  answered: "(\<And>g. graph_grant j r = Some g \<Longrightarrow> stays_in dir (env\<lparr>ge_pid := n\<rparr>) g) \<Longrightarrow>
     graph_answer s j (env\<lparr>ge_pid := n\<rparr>) i r d = (m, d') \<Longrightarrow> graph_disk_step j env dir d d'"
| killed: "(\<And>g. graph_grant j r = Some g \<Longrightarrow> stays_in dir (env\<lparr>ge_pid := n\<rparr>) g) \<Longrightarrow>
     graph_answer s j (env\<lparr>ge_pid := n\<rparr>) i r d = (m, d') \<Longrightarrow>
     f \<in> set (drop (length (dk_past d)) (dk_past d')) \<Longrightarrow> graph_disk_step j env dir d (quiet_disk f)"
| elsewhere: "dk_files d' = dk_files d \<Longrightarrow> graph_disk_step j env dir d d'"

lemma kept_pid [simp]: "kept (env\<lparr>ge_pid := n\<rparr>) \<Phi> must = kept env \<Phi> must"
  by (simp add: fun_eq_iff kept_def readable_def sound_node_def)

lemma codec_pid [simp]: "faithful_codec (env\<lparr>ge_pid := n\<rparr>) = faithful_codec env"
  by (simp add: faithful_codec_def)

lemma law_step:
  assumes "graph_disk_step j env dir d d'" "document_law \<Phi> must" "json_path dir p" "faithful_codec env"
    and "kept env \<Phi> must p (dk_files d)"
  shows "kept env \<Phi> must p (dk_files d')"
  using assms(1)
proof cases
  case (answered r n s i m)
  then show ?thesis
    using document_law.answer_safe [OF assms(2), of "env\<lparr>ge_pid := n\<rparr>" p d dir j r s i m d'] assms by simp
next
  case (killed r n s i m d1 f)
  then have "passes (kept env \<Phi> must p) d d1"
    using document_law.answer_safe [OF assms(2), of "env\<lparr>ge_pid := n\<rparr>" p d dir j r s i m d1] assms by simp
  then show ?thesis using killed(1,4) by (simp add: quiet_disk_def passes_moment)
qed (use assms in simp)

definition no_document :: "path \<Rightarrow> disk \<Rightarrow> bool" where
  "no_document p d \<longleftrightarrow> dk_files d p = None \<and> dk_files d (backup_path p) = None"

text \<open>A session is stored: at its path, at its backup or at both, a document of \<open>F\<close>, and nothing else.\<close>

definition stores_documents :: "graph_env \<Rightarrow> path \<Rightarrow> session_document set \<Rightarrow> disk \<Rightarrow> bool" where
  "stores_documents env p F d \<longleftrightarrow>
     (dk_files d p \<noteq> None \<or> dk_files d (backup_path p) \<noteq> None) \<and>
     (\<forall>n \<in> {dk_files d p, dk_files d (backup_path p)} - {None}.
        \<exists>c doc. n = Some (FileNode c) \<and> graph_decode env c = Some doc \<and> doc \<in> F)"

lemma no_document_kept: "no_document p d \<Longrightarrow> kept env graph_ok False p (dk_files d)"
  by (simp add: no_document_def kept_def readable_def)

lemma stores_documents_kept:
  assumes "stores_documents env p F d" "\<forall>doc \<in> F. graph_ok doc"
  shows "kept env (\<lambda>doc. graph_ok doc \<and> (\<exists>old \<in> F. evolves old doc)) True p (dk_files d)"
proof -
  have "readable env (\<lambda>doc. graph_ok doc \<and> (\<exists>old \<in> F. evolves old doc)) x \<and> sound_node env x"
    if "x \<in> {dk_files d p, dk_files d (backup_path p)}" for x
  proof (cases x)
    case None
    then show ?thesis by (simp add: readable_def sound_node_def)
  next
    case (Some n)
    then have x: "x \<in> {dk_files d p, dk_files d (backup_path p)} - {None}" using that by simp
    obtain c doc where "x = Some (FileNode c)" "graph_decode env c = Some doc" "doc \<in> F"
      using bspec [OF conjunct2 [OF assms(1) [unfolded stores_documents_def]] x] by (elim exE conjE)
    then have "graph_ok doc \<and> (\<exists>old \<in> F. evolves old doc)" using assms(2) evolves_refl by blast
    moreover have "ge_parse env c = Inr doc" "length c \<le> MAX_DOCUMENT_BYTES"
      using \<open>graph_decode env c = Some doc\<close> by (auto simp: graph_decode_def split: if_splits sum.splits)
    ultimately show ?thesis using \<open>x = Some (FileNode c)\<close> by (simp add: readable_def sound_node_def)
  qed
  moreover have "dk_files d p \<noteq> None \<or> dk_files d (backup_path p) \<noteq> None"
    using assms(1) unfolding stores_documents_def by (rule conjunct1)
  then have "seen p (backup_path p) (dk_files d) \<noteq> None" by (auto simp: seen_def split: option.split)
  ultimately show ?thesis unfolding kept_def by blast
qed

interpretation trees: component "no_document p" "graph_disk_step j env dir"
  "\<lambda>d. json_path dir p \<longrightarrow> faithful_codec env \<longrightarrow> kept env graph_ok False p (dk_files d)" for j env dir p
proof unfold_locales
  fix d d'
  assume "json_path dir p \<longrightarrow> faithful_codec env \<longrightarrow> kept env graph_ok False p (dk_files d)"
    and "graph_disk_step j env dir d d'"
  then show "json_path dir p \<longrightarrow> faithful_codec env \<longrightarrow> kept env graph_ok False p (dk_files d')"
    using law_step [OF _ tree_law.document_law_axioms] by blast
qed (blast intro: no_document_kept)

interpretation histories: component "\<lambda>d. (\<forall>doc \<in> F. graph_ok doc) \<and> stores_documents env p F d" "graph_disk_step j env dir"
  "\<lambda>d. json_path dir p \<longrightarrow> faithful_codec env \<longrightarrow>
     kept env (\<lambda>doc. graph_ok doc \<and> (\<exists>old \<in> F. evolves old doc)) True p (dk_files d)" for j env dir p F
proof unfold_locales
  fix d d'
  assume "json_path dir p \<longrightarrow> faithful_codec env \<longrightarrow>
     kept env (\<lambda>doc. graph_ok doc \<and> (\<exists>old \<in> F. evolves old doc)) True p (dk_files d)"
    and "graph_disk_step j env dir d d'"
  then show "json_path dir p \<longrightarrow> faithful_codec env \<longrightarrow>
     kept env (\<lambda>doc. graph_ok doc \<and> (\<exists>old \<in> F. evolves old doc)) True p (dk_files d')"
    using law_step [OF _ history_law.document_law_axioms] by blast
qed (blast intro: stores_documents_kept)

end
