(* ===== verification/Agent_Graph_Demo.thy ===== *)
theory Agent_Graph_Demo
  imports Agent_Graph_Runs "HOL-Library.Code_Target_Nat"
begin

text \<open>
  A coordinator session small enough to be evaluated: a grant for one workspace, a request that spawns an
  agent, the document it leaves, and a document with a running branch.
\<close>

definition sample_grant :: delegation_grant where
  "sample_grant = \<lparr>dg_workspace = grant_read_write [lit ''w''], dg_session_id = lit ''s1'', dg_ticket = lit ''t'',
     dg_budget = conservative_budget, dg_allowed = [WorkspaceRead]\<rparr>"

definition sample_spawn :: spawn_request where
  "sample_spawn = \<lparr>sq_grant = sample_grant, sq_parent_id = ROOT_AGENT_ID, sq_name = None, sq_task = lit ''x'',
     sq_requested = [WorkspaceRead]\<rparr>"

definition sample_agent :: "nat \<Rightarrow> rstring \<Rightarrow> u16 \<Rightarrow> stored_agent" where
  "sample_agent k parent depth = \<lparr>sa_id = numbered_id k, sa_parent_id = parent, sa_name = lit ''Agent '' @ show_nat (Suc k),
     sa_depth = depth, sa_status = AsPending, sa_turns_used = 0, sa_child_grants = [WorkspaceRead],
     sa_transcript = [], sa_created_at = 0, sa_updated_at = 0\<rparr>"

definition sample_doc :: session_document where
  "sample_doc = (document_new sample_grant (lit ''c1''))
     \<lparr>sd_next_agent := 2, sd_next_event := 2, sd_agents := [sample_agent 0 ROOT_AGENT_ID 1],
      sd_events := [\<lparr>ev_sequence = 1, ev_agent_id = numbered_id 0, ev_kind = AeSpawned,
        ev_detail = lit ''spawned under root'', ev_at_millis = 0\<rparr>]\<rparr>"

definition sample_env :: graph_env where
  "sample_env = \<lparr>ge_canonicalize = Inr,
     ge_parse = (\<lambda>c. if c = [1, 10] then Inr sample_doc else Inl (lit ''unexpected content'')),
     ge_print = (\<lambda>doc. if doc = sample_doc then Inr [1] else Inl (lit ''unexpected document'')), ge_pid = 7\<rparr>"

definition sample_serde :: "unit graph_serde" where
  "sample_serde = \<lparr>gs_spawn = (\<lambda>_. Inr sample_spawn), gs_list = (\<lambda>_. Inl []), gs_inspect = (\<lambda>_. Inl []),
     gs_start = (\<lambda>_. Inl []), gs_complete = (\<lambda>_. Inl []), gs_fail = (\<lambda>_. Inl []), gs_interrupt = (\<lambda>_. Inl []),
     gs_spawned = (\<lambda>_. Inr ()), gs_listed = (\<lambda>_. Inr ()), gs_inspected = (\<lambda>_. Inr ()),
     gs_started = (\<lambda>_. Inr ()), gs_mutated = (\<lambda>_. Inr ())\<rparr>"

definition sample_request :: "unit invocation_request" where
  "sample_request = \<lparr>ir_request_id = 1, ir_capability = \<lparr>cap_id = CapabilityId TOOL_MULTI_AGENT, cap_version = 1\<rparr>,
     ir_operation = lit ''spawn'', ir_payload = ()\<rparr>"

definition sample_dir :: path where "sample_dir = [lit ''w'', lit ''.yunxi-next'', lit ''multi-agent'']"
definition sample_path :: path where "sample_path = sample_dir @ [lit ''s1.json'']"

definition sample_display :: display where
  "sample_display = \<lparr>dp_path = (\<lambda>_. []), dp_io = (\<lambda>_. [])\<rparr>"

definition sample_files :: files where "sample_files = (\<lambda>p. if p = [lit ''w''] then Some DirNode else None)"

definition sample_answer where
  "sample_answer = graph_answer sample_display sample_serde sample_env (lit ''c1'') sample_request (quiet_disk sample_files)"

lemma sample_answered: "case fst sample_answer of InvocationCompleted r \<Rightarrow> True | _ \<Rightarrow> False"
  by code_simp

lemma sample_loaded: "fst (load_document sample_env sample_path (snd sample_answer)) = Inr (Some sample_doc)"
  by code_simp

definition sample_disk :: disk where
  "sample_disk = quiet_disk (sample_files(sample_path \<mapsto> FileNode [1, 10]))"

lemma sample_delegation: "validate_delegation sample_grant = Inr ()"
  by code_simp

lemma sample_in_dir: "graph_grant sample_serde sample_request = Some g \<Longrightarrow> stays_in sample_dir sample_env g"
proof -
  have "graph_grant sample_serde sample_request = Some sample_grant"
    "graph_directory sample_env sample_grant = Some sample_dir"
    by code_simp+
  then show "graph_grant sample_serde sample_request = Some g \<Longrightarrow> stays_in sample_dir sample_env g"
    by (simp add: stays_in_def)
qed

lemma sample_json: "json_path sample_dir sample_path"
  unfolding json_path_def sample_path_def
  by (intro exI [of _ "lit ''s1''"]) (simp add: lit_def dot_def ch_def)

lemma sample_codec: "faithful_codec sample_env"
  by (simp add: faithful_codec_def sample_env_def)

definition sample_tree :: session_document where
  "sample_tree = (document_new sample_grant (lit ''c1''))
     \<lparr>sd_next_agent := 4, sd_next_event := 5, sd_total_turns := 1,
      sd_agents :=
        [(sample_agent 0 ROOT_AGENT_ID 1)\<lparr>sa_status := AsRunning, sa_turns_used := 1,
           sa_transcript := [\<lparr>te_role = RoleOfUser, te_content = lit ''go''\<rparr>]\<rparr>,
         sample_agent 1 (numbered_id 0) 2, sample_agent 2 ROOT_AGENT_ID 1]\<rparr>"

lemma sample_tree_ok: "graph_ok sample_tree"
proof -
  have "\<forall>k < length (sd_agents sample_tree). placed (sd_allowed sample_tree) (map shape (sd_agents sample_tree)) k"
    by (auto simp: sample_tree_def document_new_def less_Suc_eq placed_def shape_def sample_agent_def sample_grant_def)
  moreover have "validate_budget (sd_budget sample_tree) = Inr ()" "agent_validate_grants (sd_allowed sample_tree) = Inr ()"
    "length (sd_agents sample_tree) \<le> unat (ab_max_agents (sd_budget sample_tree))"
    "sd_next_agent sample_tree = of_nat (Suc (length (sd_agents sample_tree)))"
    "\<forall>a \<in> set (sd_agents sample_tree). in_budget (sd_budget sample_tree) a"
    "unat (sd_total_turns sample_tree) = turns_taken sample_tree"
    "sd_total_turns sample_tree \<le> ab_max_total_turns (sd_budget sample_tree)"
    "length (sd_events sample_tree) \<le> MAX_AGENT_EVENTS"
    by code_simp+
  ultimately show ?thesis unfolding graph_ok_def by blast
qed

lemma sample_tree_valid: "validate_document sample_tree = Inr ()"
  by code_simp

lemma sample_doc_ok: "graph_ok sample_doc"
proof -
  have "\<forall>k < length (sd_agents sample_doc). placed (sd_allowed sample_doc) (map shape (sd_agents sample_doc)) k"
    by (auto simp: sample_doc_def document_new_def less_Suc_eq placed_def shape_def sample_agent_def sample_grant_def)
  moreover have "validate_budget (sd_budget sample_doc) = Inr ()" "agent_validate_grants (sd_allowed sample_doc) = Inr ()"
    "length (sd_agents sample_doc) \<le> unat (ab_max_agents (sd_budget sample_doc))"
    "sd_next_agent sample_doc = of_nat (Suc (length (sd_agents sample_doc)))"
    "\<forall>a \<in> set (sd_agents sample_doc). in_budget (sd_budget sample_doc) a"
    "unat (sd_total_turns sample_doc) = turns_taken sample_doc"
    "sd_total_turns sample_doc \<le> ab_max_total_turns (sd_budget sample_doc)"
    "length (sd_events sample_doc) \<le> MAX_AGENT_EVENTS"
    by code_simp+
  ultimately show ?thesis unfolding graph_ok_def by blast
qed

end
