(* ===== verification/Agent_Graph_Claims.thy ===== *)
theory Agent_Graph_Claims
  imports Agent_Graph_Demo
begin

text \<open>
  What the coordinator guarantees across requests, refused calls, torn writes and kills of the process:
  the tree and its budgets (\<open>graph_documents_ok\<close>), a history that is never lost and goes
  back at most to a document that lay on the disk (\<open>graph_history_kept\<close>, \<open>refused_read_rewinds\<close>), the
  extent of a recursive interruption, and the turn that cannot be failed because its message is too long
  for an event.
\<close>

section \<open>The properties\<close>

text \<open>C9: from a disk without a document of the session, after any number of requests of the coordinator
  directory, with every file system call free to be refused, every write free to be torn and the process
  free to be killed at any moment and restarted, whatever document is read back is a tree of agents
  inside its budgets: at most \<open>max_agents\<close> agents, numbered in order of creation; each one level below
  a parent created before it and no deeper than \<open>max_depth\<close>; holding only grants its parent holds; its
  turns counted by its user messages and within \<open>max_turns_per_agent\<close>, the session's turns their sum
  and within \<open>max_total_turns\<close>. No agent ever holds a grant outside the session's, and none an
  undelegable one.\<close>

theorem graph_documents_ok:
  assumes "json_path dir p" "faithful_codec env"
    and "reach (no_document p) (graph_disk_step j env dir) d"
    and "load_document env p d = (Inr (Some doc), d')"
  shows "graph_ok doc \<and>
    (\<forall>a \<in> set (sd_agents doc). set (sa_child_grants a) \<subseteq> set (sd_allowed doc) \<and>
       (\<forall>g \<in> set (sa_child_grants a). \<not> undelegable g))"
proof -
  have "kept env graph_ok False p (dk_files d)" using trees.reach_inv [OF assms(3)] assms(1,2) by blast
  then have "wp (\<lambda>_. True) (load_document env p) (\<lambda>r g. \<forall>doc. r = Inr (Some doc) \<longrightarrow> graph_ok doc) (dk_files d)"
    by (rule tree_law.wp_load_document) auto
  then have "graph_ok doc" using wp_run assms(4) by blast
  then show ?thesis using graph_ok_grants graph_ok_delegable by blast
qed

text \<open>C8: a stored session is never lost, and goes back at most to what lay on the disk. Let the documents
  at the session's path and at its backup be those of a set; the set is one document when no earlier
  clean-up left a backup. After any further requests, refused calls, torn writes and kills, a reader of
  the quiet disk finds a document that evolved from one of the set: the session's authority is the same,
  every agent of that document is still there with its parent, depth, grants and name, transcripts were
  only extended and turns only added, an agent that was interrupted is exactly as it was, and no agent
  was spawned under it. With a leftover backup the document it evolved from may be the older one, as
  \<open>refused_read_rewinds\<close> shows.\<close>

theorem graph_history_kept:
  assumes "json_path dir p" "faithful_codec env" "\<forall>doc \<in> F. graph_ok doc"
    and "reach (\<lambda>d. (\<forall>doc \<in> F. graph_ok doc) \<and> stores_documents env p F d) (graph_disk_step j env dir) d"
  shows "\<exists>doc old. graph_recover env p (dk_files d) = Some doc \<and> graph_ok doc \<and> old \<in> F \<and> evolves old doc"
proof -
  let ?\<Phi> = "\<lambda>doc. graph_ok doc \<and> (\<exists>old \<in> F. evolves old doc)"
  have k: "kept env ?\<Phi> True p (dk_files d)" using histories.reach_inv [OF assms(4)] assms(1,2) by blast
  then obtain x where x: "seen p (backup_path p) (dk_files d) = Some x"
    "readable env ?\<Phi> (Some x)" "sound_node env (Some x)"
    by (auto simp: kept_def seen_def split: option.splits)
  then obtain c doc where "x = FileNode c" "graph_decode env c = Some doc" "?\<Phi> doc"
    by (auto simp: sound_node_def readable_def graph_decode_def)
  then show ?thesis using graph_reader.recover_seen x(1) by blast
qed

text \<open>C10: a recursive interruption stops exactly the branch. On a document the store accepts, the
  breadth-first walk ends with the descendants of the named agent (with itself, or itself alone when
  the request is not recursive), in order and without repetition; marking them always succeeds, every
  one of them that was not yet interrupted becomes interrupted, and every other agent is left as it
  was.\<close>

theorem interrupt_stops_the_branch:
  assumes "graph_ok doc" "validate_document doc = Inr ()" "agent_index doc (nq_agent_id q) = Inr n"
  shows "set (interrupt_targets q doc) =
      (if nq_recursive q then {i. (spawned_by (sd_agents doc))\<^sup>*\<^sup>* (nq_agent_id q) i} else {nq_agent_id q}) \<and>
    bs_wf (interrupt_targets q doc) \<and>
    (\<exists>changed events doc'. interrupt_all now (interrupt_targets q doc) doc = Inr (changed, events, doc') \<and>
      sd_agents doc' = map (mark (\<lambda>a. sa_id a \<in> set (interrupt_targets q doc) \<and> sa_status a \<noteq> AsInterrupted)
        AsInterrupted now) (sd_agents doc))"
proof (intro conjI)
  have "nq_agent_id q \<in> sa_id ` set (sd_agents doc)" using agent_index_bound [OF assms(3)] by (metis image_eqI nth_mem)
  moreover have "(spawned_by (sd_agents doc))\<^sup>*\<^sup>* i c \<Longrightarrow> c = i \<or> c \<in> sa_id ` set (sd_agents doc)" for i c
    by (induction rule: rtranclp_induct) (auto simp: spawned_by_def)
  ultimately have "set (interrupt_targets q doc) \<subseteq> sa_id ` set (sd_agents doc)"
    by (auto simp: interrupt_targets_set)
  then show "\<exists>changed events doc'. interrupt_all now (interrupt_targets q doc) doc = Inr (changed, events, doc') \<and>
      sd_agents doc' = map (mark (\<lambda>a. sa_id a \<in> set (interrupt_targets q doc) \<and> sa_status a \<noteq> AsInterrupted)
        AsInterrupted now) (sd_agents doc)"
    by (rule interrupt_all_result [OF validated_agents [OF assms(1,2)]])
  show "bs_wf (interrupt_targets q doc)" 
    unfolding interrupt_targets_def by (auto intro: branch_loop_wf simp del: branch_loop.simps)
qed (rule interrupt_targets_set)

text \<open>a coordinator that finds the document of another instance fails exactly the turns that were
  running: adoption always succeeds on a document the store accepts, every running agent becomes failed
  and every other agent is left as it was, whatever its status.\<close>

theorem restart_fails_running:
  assumes "graph_ok doc" "validate_document doc = Inr ()"
  shows "\<exists>doc'. adopt instance_id now doc = Inr doc' \<and> sd_instance_id doc' = instance_id \<and>
    sd_agents doc' = map (mark (\<lambda>a. sa_status a = AsRunning) AsFailed now) (sd_agents doc)"
proof -
  have ids: "set (running_ids doc) \<subseteq> sa_id ` set (sd_agents doc)" by (auto simp: running_ids_def)
  have "sa_id a \<in> set (running_ids doc) \<longleftrightarrow> sa_status a = AsRunning" if "a \<in> set (sd_agents doc)" for a
    using that graph_ok_same [OF assms(1)] by (fastforce simp: running_ids_def)
  then have "map (mark (\<lambda>a. sa_id a \<in> set (running_ids doc)) AsFailed now) (sd_agents doc) =
      map (mark (\<lambda>a. sa_status a = AsRunning) AsFailed now) (sd_agents doc)"
    by (auto simp: mark_def)
  then show ?thesis
    using fail_abandoned_result [OF validated_agents [OF assms] ids, of now] by (auto simp: adopt_def)
qed

text \<open>C37: a valid request to fail a turn can be impossible to carry out. The request's message may be as
  long as an event's detail, but the detail is the message with the code in front; when the two together
  are longer than 4096 bytes the store answers that the field is too long, writes nothing, and the agent
  stays running.\<close>

theorem long_failure_strands_agent:
  assumes "require_matching_authority st (fq_grant q) = Inr ()" "validate_turn_fail q = Inr ()" "co_writable st"
    and "load_or_new env st d = (Inr doc, d1)" "sd_next_event doc \<noteq> 0"
    and "agent_index doc (fq_agent_id q) = Inr n" "sa_status (sd_agents doc ! n) = AsRunning"
    and "MAX_AGENT_DETAIL_BYTES < str_len (fq_code q) + 2 + str_len (fq_message q)"
  shows "\<exists>d2. fail_agent_turn env st q d =
      (Inl (MaProtocol (ApFieldTooLong (lit ''agent event detail'')
         (str_len (fq_code q) + 2 + str_len (fq_message q)) MAX_AGENT_DETAIL_BYTES)), d2) \<and>
    dk_files d2 = dk_files d1"
proof -
  let ?detail = "fq_code q @ lit '': '' @ fq_message q"
  have len: "str_len ?detail = str_len (fq_code q) + 2 + str_len (fq_message q)"
    by (simp add: str_len_def lit_def utf8_width_def)
  have "\<not> blank ?detail"
    by (simp add: blank_iff lit_def is_whitespace_def)
  moreover have "validate_agent_id (fq_agent_id q) = Inr ()" using assms(2) by (simp add: validate_turn_fail_def)
  ultimately have "push_event (fq_agent_id q) AeFailed ?detail now (update_agent n (set_status AsFailed now) doc) =
      Inl (MaProtocol (ApFieldTooLong (lit ''agent event detail'')
         (str_len (fq_code q) + 2 + str_len (fq_message q)) MAX_AGENT_DETAIL_BYTES))" for now
    using assms(5,8) len
    by (simp add: push_event_def agent_event_new_def validate_agent_event_def Let_def update_agent_def
        agent_validate_text_def)
  then have "abort_turn q now doc = Inl (MaProtocol (ApFieldTooLong (lit ''agent event detail'')
         (str_len (fq_code q) + 2 + str_len (fq_message q)) MAX_AGENT_DETAIL_BYTES))" for now
    using assms(6,7) by (simp add: abort_turn_def Let_def)
  then show ?thesis
    using assms(1-4)
    by (auto simp: fail_agent_turn_def act_bind_def act_then_def lift_res_def require_write_def ensure_def
        now_millis_def sys_nanos_def ret_def split: list.splits)
qed

section \<open>Witnesses\<close>

lemma sample_env_pid: "sample_env\<lparr>ge_pid := 7\<rparr> = sample_env"
  by (simp add: sample_env_def)

lemma sample_step:
  assumes "graph_answer sample_display sample_serde sample_env (lit ''c1'') sample_request d = (m, d')"
  shows "graph_disk_step sample_serde sample_env sample_dir d d'"
proof (rule graph_disk_step.answered [where n = 7])
  show "graph_answer sample_display sample_serde (sample_env\<lparr>ge_pid := 7\<rparr>) (lit ''c1'') sample_request d = (m, d')"
    unfolding sample_env_pid by (rule assms)
qed (use sample_in_dir sample_env_pid in auto)

theorem graph_documents_ok_witness:
  "graph_ok sample_doc \<and> set (sa_child_grants (sd_agents sample_doc ! 0)) \<subseteq> set (sd_allowed sample_doc) \<and>
   \<not> undelegable (sa_child_grants (sd_agents sample_doc ! 0) ! 0)"
proof -
  have start: "no_document sample_path (quiet_disk sample_files)"
    by (simp add: no_document_def quiet_disk_def sample_files_def sample_path_def sample_dir_def
        backup_path_def with_extension_def lit_def)
  have step: "graph_disk_step sample_serde sample_env sample_dir (quiet_disk sample_files) (snd sample_answer)"
    by (rule sample_step [of _ "fst sample_answer"]) (simp add: sample_answer_def)
  have load: "load_document sample_env sample_path (snd sample_answer) =
      (Inr (Some sample_doc), snd (load_document sample_env sample_path (snd sample_answer)))"
    using sample_loaded by (metis prod.collapse)
  have ok: "graph_ok sample_doc \<and>
    (\<forall>a \<in> set (sd_agents sample_doc). set (sa_child_grants a) \<subseteq> set (sd_allowed sample_doc) \<and>
       (\<forall>g \<in> set (sa_child_grants a). \<not> undelegable g))"
    by (rule graph_documents_ok [OF sample_json sample_codec _ load], rule reach_one, rule start, rule step)
  have "sd_agents sample_doc = [sample_agent 0 ROOT_AGENT_ID 1]" "sa_child_grants (sample_agent 0 ROOT_AGENT_ID 1) = [WorkspaceRead]"
    by (simp_all add: sample_doc_def sample_agent_def)
  then show ?thesis using ok by simp
qed

theorem graph_history_kept_witness:
  "\<exists>doc. graph_recover sample_env sample_path (dk_files (snd (graph_answer sample_display sample_serde sample_env
      (lit ''c1'') sample_request sample_disk))) = Some doc \<and> graph_ok doc \<and> evolves sample_doc doc"
proof -
  have "graph_decode sample_env [1, 10] = Some sample_doc" by code_simp
  moreover have "sample_path \<noteq> backup_path sample_path" by code_simp
  ultimately have start: "(\<forall>doc \<in> {sample_doc}. graph_ok doc) \<and> stores_documents sample_env sample_path {sample_doc} sample_disk"
    using sample_doc_ok
    by (simp add: stores_documents_def sample_disk_def quiet_disk_def sample_files_def)
      (auto simp: sample_path_def sample_dir_def backup_path_def with_extension_def lit_def)
  have step: "graph_disk_step sample_serde sample_env sample_dir sample_disk
      (snd (graph_answer sample_display sample_serde sample_env (lit ''c1'') sample_request sample_disk))"
    by (rule sample_step [OF prod.collapse [symmetric]])
  have "\<exists>doc old. graph_recover sample_env sample_path (dk_files (snd (graph_answer sample_display sample_serde sample_env
      (lit ''c1'') sample_request sample_disk))) = Some doc \<and> graph_ok doc \<and> old \<in> {sample_doc} \<and> evolves old doc"
    by (rule graph_history_kept [OF sample_json sample_codec], simp add: sample_doc_ok, rule reach_one, rule start, rule step)
  then show ?thesis by simp
qed

definition sample_interrupt :: interrupt_request where
  "sample_interrupt = \<lparr>nq_grant = sample_grant, nq_agent_id = numbered_id 0, nq_recursive = True\<rparr>"

theorem interrupt_stops_the_branch_witness:
  "interrupt_targets sample_interrupt sample_tree = [numbered_id 0, numbered_id 1] \<and>
    (\<exists>changed events doc'. interrupt_all 5 (interrupt_targets sample_interrupt sample_tree) sample_tree =
        Inr (changed, events, doc') \<and>
      sd_agents doc' = map (mark (\<lambda>a. sa_id a \<in> set (interrupt_targets sample_interrupt sample_tree) \<and>
        sa_status a \<noteq> AsInterrupted) AsInterrupted 5) (sd_agents sample_tree))"
proof -
  have "agent_index sample_tree (nq_agent_id sample_interrupt) = Inr 0"
    "interrupt_targets sample_interrupt sample_tree = [numbered_id 0, numbered_id 1]"
    by code_simp+
  then show ?thesis using interrupt_stops_the_branch [OF sample_tree_ok sample_tree_valid] by blast
qed

theorem restart_fails_running_witness:
  "\<exists>doc'. adopt (lit ''c2'') 9 sample_tree = Inr doc' \<and> sd_instance_id doc' = lit ''c2'' \<and>
    sd_agents doc' = map (mark (\<lambda>a. sa_status a = AsRunning) AsFailed 9) (sd_agents sample_tree)"
  by (rule restart_fails_running [OF sample_tree_ok sample_tree_valid])

text \<open>A request whose code and message fill the event's detail twice over.\<close>

definition sample_running_env :: graph_env where
  "sample_running_env = sample_env\<lparr>ge_parse := (\<lambda>c. Inr sample_tree)\<rparr>"

definition sample_failure :: turn_fail_request where
  "sample_failure = \<lparr>fq_grant = sample_grant, fq_agent_id = numbered_id 0, fq_code = lit ''model_error'',
     fq_message = replicate 4096 120\<rparr>"

definition sample_store :: coordinator_store where
  "sample_store = \<lparr>co_path = sample_path, co_workspace_root = [lit ''w''], co_instance_id = lit ''c1'',
     co_authority = sample_grant, co_writable = True\<rparr>"

theorem long_failure_strands_agent_witness:
  "\<exists>d2. fail_agent_turn sample_running_env sample_store sample_failure sample_disk =
      (Inl (MaProtocol (ApFieldTooLong (lit ''agent event detail'') 4109 4096)), d2) \<and>
    dk_files d2 = dk_files (snd (load_or_new sample_running_env sample_store sample_disk))"
proof -
  have load: "load_or_new sample_running_env sample_store sample_disk =
      (Inr sample_tree, snd (load_or_new sample_running_env sample_store sample_disk))"
  proof -
    have "fst (load_or_new sample_running_env sample_store sample_disk) = Inr sample_tree" by code_simp
    then show ?thesis by (metis prod.collapse)
  qed
  have fields: "fq_grant sample_failure = sample_grant" "fq_agent_id sample_failure = numbered_id 0"
    "fq_code sample_failure = lit ''model_error''"
    by (simp_all add: sample_failure_def)
  have auth: "require_matching_authority sample_store (fq_grant sample_failure) = Inr ()"
    unfolding fields by code_simp
  have msg: "str_len (fq_message sample_failure) = 4096" "\<not> blank (fq_message sample_failure)"
    "0 \<notin> set (fq_message sample_failure)" "str_len (fq_code sample_failure) = 11"
    by (simp_all add: sample_failure_def str_len_def sum_list_replicate utf8_width_def blank_iff is_whitespace_def lit_def)
  have "validate_delegation (fq_grant sample_failure) = Inr ()" "validate_agent_id (fq_agent_id sample_failure) = Inr ()"
    "agent_validate_token (lit ''agent failure code'') (fq_code sample_failure) 64 = Inr ()"
    unfolding fields by code_simp+
  then have valid: "validate_turn_fail sample_failure = Inr ()"
    using msg by (simp add: validate_turn_fail_def agent_validate_text_def MAX_AGENT_DETAIL_BYTES_def)
  have tree: "sd_next_event sample_tree \<noteq> 0" "agent_index sample_tree (fq_agent_id sample_failure) = Inr 0"
    "sa_status (sd_agents sample_tree ! 0) = AsRunning" "co_writable sample_store"
    unfolding fields by code_simp+
  show ?thesis
    using long_failure_strands_agent [OF auth valid tree(4) load tree(1-3)] msg
    by (simp add: MAX_AGENT_DETAIL_BYTES_def)
qed

section \<open>A leftover backup\<close>

text \<open>
  A save ignores a backup it cannot remove, and a load takes the backup whenever the document cannot be
  read, for whatever reason. One refused read of the document is then enough: the next request is
  answered from the older backup and its result replaces the newer document, whose agents are gone.
\<close>

definition older_doc :: session_document where
  "older_doc = document_new sample_grant (lit ''c1'')"

definition rewind_env :: graph_env where
  "rewind_env = sample_env\<lparr>ge_parse := (\<lambda>c. if c = [1, 10] then Inr sample_doc else if c = [5, 10] then Inr older_doc
     else if c = [6, 10] then Inr sample_tree else Inl [])\<rparr>"

definition rewind_disk :: disk where
  "rewind_disk = (quiet_disk (sample_files(sample_path \<mapsto> FileNode [6, 10], backup_path sample_path \<mapsto> FileNode [5, 10])))
     \<lparr>dk_answers := [Granted, Refused []]\<rparr>"

definition rewind_run where
  "rewind_run = graph_answer sample_display sample_serde rewind_env (lit ''c1'') sample_request rewind_disk"

theorem refused_read_rewinds:
  "graph_recover rewind_env sample_path (dk_files rewind_disk) = Some sample_tree \<and>
   graph_recover rewind_env sample_path (dk_files (snd rewind_run)) = Some sample_doc \<and>
   (case fst rewind_run of InvocationCompleted r \<Rightarrow> True | _ \<Rightarrow> False) \<and>
   \<not> evolves sample_tree sample_doc"
proof (intro conjI)
  show "graph_recover rewind_env sample_path (dk_files rewind_disk) = Some sample_tree"
    "graph_recover rewind_env sample_path (dk_files (snd rewind_run)) = Some sample_doc"
    "case fst rewind_run of InvocationCompleted r \<Rightarrow> True | _ \<Rightarrow> False"
    by code_simp+
  have "length (sd_agents d) \<le> length (sd_agents d')" if "evolves d d'" for d d'
    using that by (auto simp: evolves_def dest: list_all2_lengthD)
  then show "\<not> evolves sample_tree sample_doc" by (force simp: sample_tree_def sample_doc_def)
qed

end
