(* ===== verification/Settings_Store.thy ===== *)
theory Settings_Store
  imports Durable_File
begin

text \<open>
  User settings (\<open>yunxi-settings\<close>): the fifteen capability switches with their defaults and the
  environment variables that override them (\<open>capabilities.rs\<close>), and the versioned document with the
  capability and plugin overrides, edited under a revision fence and replaced through a backup
  (\<open>store.rs\<close>). What serde answers about a document and the process environment are arguments.
\<close>

section \<open>Capability settings\<close>

datatype capability_setting =
    CsContext
  | CsPersona
  | CsMemory
  | CsCompanion
  | CsStorage
  | CsMailbox
  | CsScheduler
  | CsShell
  | CsPatch
  | CsFiles
  | CsMcp
  | CsSkills
  | CsMultiAgent
  | CsVoice
  | CsWeixin

definition all_settings :: "capability_setting list" where
  "all_settings = [CsContext, CsPersona, CsMemory, CsCompanion, CsStorage, CsMailbox, CsScheduler, CsShell, CsPatch, CsFiles, CsMcp, CsSkills, CsMultiAgent, CsVoice, CsWeixin]"

fun setting_key :: "capability_setting \<Rightarrow> rstring" where
  "setting_key CsContext = lit ''context''"
| "setting_key CsPersona = lit ''persona''"
| "setting_key CsMemory = lit ''memory''"
| "setting_key CsCompanion = lit ''companion''"
| "setting_key CsStorage = lit ''storage''"
| "setting_key CsMailbox = lit ''mailbox''"
| "setting_key CsScheduler = lit ''scheduler''"
| "setting_key CsShell = lit ''shell''"
| "setting_key CsPatch = lit ''patch''"
| "setting_key CsFiles = lit ''files''"
| "setting_key CsMcp = lit ''mcp''"
| "setting_key CsSkills = lit ''skills''"
| "setting_key CsMultiAgent = lit ''multi_agent''"
| "setting_key CsVoice = lit ''voice''"
| "setting_key CsWeixin = lit ''weixin''"

definition setting_parse :: "rstring \<Rightarrow> capability_setting option" where
  "setting_parse value = find (\<lambda>s. setting_key s = value) all_settings"

fun environment_names :: "capability_setting \<Rightarrow> rstring \<times> rstring option" where
  "environment_names CsContext = (lit ''YUNXI_NEXT_CONTEXT_ENABLED'', None)"
| "environment_names CsPersona = (lit ''YUNXI_NEXT_PERSONA_ENABLED'', Some (lit ''YUNXI_PERSONA_ENABLED''))"
| "environment_names CsMemory = (lit ''YUNXI_NEXT_MEMORY_ENABLED'', Some (lit ''YUNXI_MEMORY_ENABLED''))"
| "environment_names CsCompanion = (lit ''YUNXI_NEXT_COMPANION_ENABLED'', Some (lit ''YUNXI_COMPANION_ENABLED''))"
| "environment_names CsStorage = (lit ''YUNXI_NEXT_STORAGE_ENABLED'', None)"
| "environment_names CsMailbox = (lit ''YUNXI_NEXT_MAILBOX_ENABLED'', None)"
| "environment_names CsScheduler = (lit ''YUNXI_NEXT_SCHEDULER_ENABLED'', None)"
| "environment_names CsShell = (lit ''YUNXI_NEXT_SHELL_ENABLED'', None)"
| "environment_names CsPatch = (lit ''YUNXI_NEXT_PATCH_ENABLED'', None)"
| "environment_names CsFiles = (lit ''YUNXI_NEXT_FILES_ENABLED'', None)"
| "environment_names CsMcp = (lit ''YUNXI_NEXT_MCP_ENABLED'', None)"
| "environment_names CsSkills = (lit ''YUNXI_NEXT_SKILLS_ENABLED'', None)"
| "environment_names CsMultiAgent = (lit ''YUNXI_NEXT_MULTI_AGENT_ENABLED'', None)"
| "environment_names CsVoice = (lit ''YUNXI_NEXT_VOICE_ENABLED'', None)"
| "environment_names CsWeixin = (lit ''YUNXI_NEXT_WEIXIN_ENABLED'', None)"

record capability_overrides =
  ov_context :: "bool option"
  ov_persona :: "bool option"
  ov_memory :: "bool option"
  ov_companion :: "bool option"
  ov_storage :: "bool option"
  ov_mailbox :: "bool option"
  ov_scheduler :: "bool option"
  ov_shell :: "bool option"
  ov_patch :: "bool option"
  ov_files :: "bool option"
  ov_mcp :: "bool option"
  ov_skills :: "bool option"
  ov_multi_agent :: "bool option"
  ov_voice :: "bool option"
  ov_weixin :: "bool option"

definition no_overrides :: capability_overrides where
  "no_overrides = \<lparr>ov_context = None,
     ov_persona = None,
     ov_memory = None,
     ov_companion = None,
     ov_storage = None,
     ov_mailbox = None,
     ov_scheduler = None,
     ov_shell = None,
     ov_patch = None,
     ov_files = None,
     ov_mcp = None,
     ov_skills = None,
     ov_multi_agent = None,
     ov_voice = None,
     ov_weixin = None\<rparr>"

fun override_get :: "capability_overrides \<Rightarrow> capability_setting \<Rightarrow> bool option" where
  "override_get v CsContext = ov_context v"
| "override_get v CsPersona = ov_persona v"
| "override_get v CsMemory = ov_memory v"
| "override_get v CsCompanion = ov_companion v"
| "override_get v CsStorage = ov_storage v"
| "override_get v CsMailbox = ov_mailbox v"
| "override_get v CsScheduler = ov_scheduler v"
| "override_get v CsShell = ov_shell v"
| "override_get v CsPatch = ov_patch v"
| "override_get v CsFiles = ov_files v"
| "override_get v CsMcp = ov_mcp v"
| "override_get v CsSkills = ov_skills v"
| "override_get v CsMultiAgent = ov_multi_agent v"
| "override_get v CsVoice = ov_voice v"
| "override_get v CsWeixin = ov_weixin v"

text \<open>\<open>slot_mut\<close> with the value the caller stores in the slot.\<close>

fun override_slot :: "capability_setting \<Rightarrow> bool option \<Rightarrow> capability_overrides \<Rightarrow> capability_overrides" where
  "override_slot CsContext x v = v\<lparr>ov_context := x\<rparr>"
| "override_slot CsPersona x v = v\<lparr>ov_persona := x\<rparr>"
| "override_slot CsMemory x v = v\<lparr>ov_memory := x\<rparr>"
| "override_slot CsCompanion x v = v\<lparr>ov_companion := x\<rparr>"
| "override_slot CsStorage x v = v\<lparr>ov_storage := x\<rparr>"
| "override_slot CsMailbox x v = v\<lparr>ov_mailbox := x\<rparr>"
| "override_slot CsScheduler x v = v\<lparr>ov_scheduler := x\<rparr>"
| "override_slot CsShell x v = v\<lparr>ov_shell := x\<rparr>"
| "override_slot CsPatch x v = v\<lparr>ov_patch := x\<rparr>"
| "override_slot CsFiles x v = v\<lparr>ov_files := x\<rparr>"
| "override_slot CsMcp x v = v\<lparr>ov_mcp := x\<rparr>"
| "override_slot CsSkills x v = v\<lparr>ov_skills := x\<rparr>"
| "override_slot CsMultiAgent x v = v\<lparr>ov_multi_agent := x\<rparr>"
| "override_slot CsVoice x v = v\<lparr>ov_voice := x\<rparr>"
| "override_slot CsWeixin x v = v\<lparr>ov_weixin := x\<rparr>"

definition override_set :: "capability_setting \<Rightarrow> bool \<Rightarrow> capability_overrides \<Rightarrow> capability_overrides" where
  "override_set s b v = override_slot s (Some b) v"

definition override_unset :: "capability_setting \<Rightarrow> capability_overrides \<Rightarrow> capability_overrides" where
  "override_unset s v = override_slot s None v"

definition override_merge :: "capability_overrides \<Rightarrow> capability_overrides \<Rightarrow> capability_overrides" where
  "override_merge patch v =
     foldl (\<lambda>v s. case override_get patch s of Some b \<Rightarrow> override_set s b v | None \<Rightarrow> v) v all_settings"

section \<open>Resolved switches\<close>

record capability_switches =
  sw_context :: bool
  sw_persona :: bool
  sw_memory :: bool
  sw_companion :: bool
  sw_storage :: bool
  sw_mailbox :: bool
  sw_scheduler :: bool
  sw_shell :: bool
  sw_patch :: bool
  sw_files :: bool
  sw_mcp :: bool
  sw_skills :: bool
  sw_multi_agent :: bool
  sw_voice :: bool
  sw_weixin :: bool

definition or_default :: "'a option \<Rightarrow> 'a \<Rightarrow> 'a" where
  "or_default x d = (case x of Some y \<Rightarrow> y | None \<Rightarrow> d)"

definition switches_from :: "capability_overrides \<Rightarrow> capability_switches" where
  "switches_from v =
     (let companion = or_default (override_get v CsCompanion) False in
      \<lparr>sw_context = or_default (override_get v CsContext) True,
       sw_persona = or_default (override_get v CsPersona) True,
       sw_memory = or_default (override_get v CsMemory) False,
       sw_companion = companion,
       sw_storage = or_default (override_get v CsStorage) True,
       sw_mailbox = or_default (override_get v CsMailbox) companion,
       sw_scheduler = or_default (override_get v CsScheduler) companion,
       sw_shell = or_default (override_get v CsShell) False,
       sw_patch = or_default (override_get v CsPatch) False,
       sw_files = or_default (override_get v CsFiles) False,
       sw_mcp = or_default (override_get v CsMcp) False,
       sw_skills = or_default (override_get v CsSkills) False,
       sw_multi_agent = or_default (override_get v CsMultiAgent) False,
       sw_voice = or_default (override_get v CsVoice) False,
       sw_weixin = or_default (override_get v CsWeixin) False\<rparr>)"

fun switch_get :: "capability_switches \<Rightarrow> capability_setting \<Rightarrow> bool" where
  "switch_get w CsContext = sw_context w"
| "switch_get w CsPersona = sw_persona w"
| "switch_get w CsMemory = sw_memory w"
| "switch_get w CsCompanion = sw_companion w"
| "switch_get w CsStorage = sw_storage w"
| "switch_get w CsMailbox = sw_mailbox w"
| "switch_get w CsScheduler = sw_scheduler w"
| "switch_get w CsShell = sw_shell w"
| "switch_get w CsPatch = sw_patch w"
| "switch_get w CsFiles = sw_files w"
| "switch_get w CsMcp = sw_mcp w"
| "switch_get w CsSkills = sw_skills w"
| "switch_get w CsMultiAgent = sw_multi_agent w"
| "switch_get w CsVoice = sw_voice w"
| "switch_get w CsWeixin = sw_weixin w"

fun switch_set :: "capability_setting \<Rightarrow> bool \<Rightarrow> capability_switches \<Rightarrow> capability_switches" where
  "switch_set CsContext b w = w\<lparr>sw_context := b\<rparr>"
| "switch_set CsPersona b w = w\<lparr>sw_persona := b\<rparr>"
| "switch_set CsMemory b w = w\<lparr>sw_memory := b\<rparr>"
| "switch_set CsCompanion b w = w\<lparr>sw_companion := b\<rparr>"
| "switch_set CsStorage b w = w\<lparr>sw_storage := b\<rparr>"
| "switch_set CsMailbox b w = w\<lparr>sw_mailbox := b\<rparr>"
| "switch_set CsScheduler b w = w\<lparr>sw_scheduler := b\<rparr>"
| "switch_set CsShell b w = w\<lparr>sw_shell := b\<rparr>"
| "switch_set CsPatch b w = w\<lparr>sw_patch := b\<rparr>"
| "switch_set CsFiles b w = w\<lparr>sw_files := b\<rparr>"
| "switch_set CsMcp b w = w\<lparr>sw_mcp := b\<rparr>"
| "switch_set CsSkills b w = w\<lparr>sw_skills := b\<rparr>"
| "switch_set CsMultiAgent b w = w\<lparr>sw_multi_agent := b\<rparr>"
| "switch_set CsVoice b w = w\<lparr>sw_voice := b\<rparr>"
| "switch_set CsWeixin b w = w\<lparr>sw_weixin := b\<rparr>"

definition to_ascii_lowercase :: "rstring \<Rightarrow> rstring" where
  "to_ascii_lowercase s = map (\<lambda>c. if is_ascii_uppercase c then c + 32 else c) s"

text \<open>The environment: the value of a variable, if it is set (and is Unicode).\<close>

type_synonym environment = "rstring \<Rightarrow> rstring option"

definition read_bool :: "environment \<Rightarrow> rstring \<Rightarrow> bool option" where
  "read_bool read name =
     (case read name of
        None \<Rightarrow> None
      | Some v \<Rightarrow>
          let w = to_ascii_lowercase (trim v) in
          if w \<in> {lit ''1'', lit ''true'', lit ''yes'', lit ''on''} then Some True
          else if w \<in> {lit ''0'', lit ''false'', lit ''no'', lit ''off''} then Some False
          else None)"

definition environment_value :: "environment \<Rightarrow> capability_setting \<Rightarrow> bool option" where
  "environment_value read s =
     (case environment_names s of (primary, legacy) \<Rightarrow>
        (case read_bool read primary of
           Some b \<Rightarrow> Some b
         | None \<Rightarrow> (case legacy of None \<Rightarrow> None | Some name \<Rightarrow> read_bool read name)))"

definition with_environment :: "environment \<Rightarrow> capability_switches \<Rightarrow> capability_switches" where
  "with_environment read w =
     foldl (\<lambda>w s. case environment_value read s of Some b \<Rightarrow> switch_set s b w | None \<Rightarrow> w) w all_settings"

section \<open>Errors\<close>

definition SETTINGS_FILE_NAME :: rstring where "SETTINGS_FILE_NAME = lit ''settings.json''"
definition MAX_SETTINGS_FILE_BYTES :: nat where "MAX_SETTINGS_FILE_BYTES = 64 * 1024"
definition MAX_PLUGIN_ID_BYTES :: nat where "MAX_PLUGIN_ID_BYTES = 128"
definition MAX_PLUGIN_OVERRIDES :: nat where "MAX_PLUGIN_OVERRIDES = 256"
definition SETTINGS_DOCUMENT_VERSION :: u32 where "SETTINGS_DOCUMENT_VERSION = 1"

datatype settings_error =
    SeConflict u64 u64
  | SeInvalidSection rstring
  | SeInvalidPluginSection rstring
  | SeInvalidPluginId rstring
  | SeTooManyPluginOverrides nat nat
  | SeInvalidDocument path rstring
  | SeUnsupportedVersion path u32
  | SeTooLarge path nat
  | SeRevisionExhausted
  | SeIo path io_error
  | SeSerialize rstring

text \<open>How a path and an operating system error are displayed is the platform's.\<close>

record settings_display =
  se_show_path :: "path \<Rightarrow> rstring"
  se_show_io :: "io_error \<Rightarrow> rstring"

fun show_settings_error :: "settings_display \<Rightarrow> settings_error \<Rightarrow> rstring" where
  "show_settings_error t (SeConflict e c) =
     lit ''settings revision conflict: expected '' @ show_nat (unat e) @ lit '', current '' @ show_nat (unat c)"
| "show_settings_error t (SeInvalidSection m) = m"
| "show_settings_error t (SeInvalidPluginSection m) = m"
| "show_settings_error t (SeInvalidPluginId i) = lit ''invalid plugin id '' @ quoted i @ lit '' in settings''"
| "show_settings_error t (SeTooManyPluginOverrides c m) =
     lit ''settings contain '' @ show_nat c @ lit '' plugin overrides; maximum is '' @ show_nat m"
| "show_settings_error t (SeInvalidDocument p m) =
     lit ''invalid settings document '' @ se_show_path t p @ lit '': '' @ m"
| "show_settings_error t (SeUnsupportedVersion p v) =
     lit ''settings document '' @ se_show_path t p @ lit '' uses unsupported version '' @ show_nat (unat v)"
| "show_settings_error t (SeTooLarge p m) =
     lit ''settings document '' @ se_show_path t p @ lit '' exceeds '' @ show_nat m @ lit '' bytes''"
| "show_settings_error t SeRevisionExhausted = lit ''settings revision is exhausted''"
| "show_settings_error t (SeIo p e) =
     lit ''settings I/O failed at '' @ se_show_path t p @ lit '': '' @ se_show_io t e"
| "show_settings_error t (SeSerialize e) = lit ''failed to serialize settings: '' @ e"

section \<open>The document\<close>

type_synonym plugin_choices = "(rstring, bool) btmap"

record settings_document =
  sx_version :: u32
  sx_revision :: u64
  sx_capabilities :: capability_overrides
  sx_plugins :: plugin_choices

record settings_env =
  se_parse :: "u8 list \<Rightarrow> (rstring, settings_document) res"
  se_print :: "settings_document \<Rightarrow> (rstring, u8 list) res"
  se_pid :: nat
  se_show :: settings_display

definition validate_plugin_id :: "rstring \<Rightarrow> (settings_error, unit) res" where
  "validate_plugin_id i =
     (if i = [] \<or> MAX_PLUGIN_ID_BYTES < str_len i \<or>
         (\<exists>c \<in> set i. \<not> is_ascii c \<or> is_control c \<or> is_whitespace c)
      then Inl (SeInvalidPluginId i) else Inr ())"

fun validate_plugin_keys :: "rstring list \<Rightarrow> (settings_error, unit) res" where
  "validate_plugin_keys [] = Inr ()"
| "validate_plugin_keys (i # is) = res_bind (validate_plugin_id i) (\<lambda>_. validate_plugin_keys is)"

definition validate_plugin_overrides :: "plugin_choices \<Rightarrow> (settings_error, unit) res" where
  "validate_plugin_overrides ps =
     (if MAX_PLUGIN_OVERRIDES < length ps
      then Inl (SeTooManyPluginOverrides (length ps) MAX_PLUGIN_OVERRIDES)
      else validate_plugin_keys (map fst ps))"

definition settings_load_document :: "settings_env \<Rightarrow> path \<Rightarrow> ('w disk_scheme, settings_error, settings_document option) act" where
  "settings_load_document env p d =
     (case fs_metadata p d of
        (Inl IoNotFound, d1) \<Rightarrow> (Inr None, d1)
      | (Inl e, d1) \<Rightarrow> (Inl (SeIo p e), d1)
      | (Inr DirNode, d1) \<Rightarrow> (Inl (SeInvalidDocument p (lit ''settings path is not a regular file'')), d1)
      | (Inr (FileNode c), d1) \<Rightarrow>
          if MAX_SETTINGS_FILE_BYTES < length c then (Inl (SeTooLarge p MAX_SETTINGS_FILE_BYTES), d1)
          else act_bind (act_map_err (SeIo p) (fs_read p)) (\<lambda>content.
            act_bind (lift_res (map_err (SeInvalidDocument p) (se_parse env content))) (\<lambda>doc.
            act_then (lift_res (validate_plugin_overrides (sx_plugins doc)))
           (if sx_version doc \<noteq> SETTINGS_DOCUMENT_VERSION
            then throw (SeUnsupportedVersion p (sx_version doc)) else ret (Some doc)))) d1)"

definition settings_temporary :: "nat \<Rightarrow> nat \<Rightarrow> rstring" where
  "settings_temporary pid unique = lit ''.yunxi-settings-'' @ show_nat pid @ lit ''-'' @ show_nat unique @ lit ''.tmp''"

definition settings_replace_file :: "settings_env \<Rightarrow> path \<Rightarrow> u8 list \<Rightarrow> ('w disk_scheme, settings_error, unit) act" where
  "settings_replace_file env target content =
     (case path_parent target of
        None \<Rightarrow> throw (SeInvalidDocument target (lit ''settings path has no parent directory''))
      | Some parent \<Rightarrow>
          act_then (act_map_err (SeIo parent) (fs_create_dir_all parent))
         (act_bind sys_nanos (\<lambda>unique.
            act_map_err (\<lambda>(q, e). SeIo q e)
              (swap_file target (path_join parent (settings_temporary (se_pid env) unique)) (backup_path target) content))))"

section \<open>The store\<close>

record settings_store =
  ss_path :: path
  ss_overrides :: capability_overrides
  ss_plugins :: plugin_choices
  ss_revision :: u64
  ss_warnings :: "rstring list"

definition store_from_document :: "path \<Rightarrow> settings_document \<Rightarrow> rstring list \<Rightarrow> settings_store" where
  "store_from_document p doc ws = \<lparr>ss_path = p, ss_overrides = sx_capabilities doc,
     ss_plugins = sx_plugins doc, ss_revision = sx_revision doc, ss_warnings = ws\<rparr>"

definition empty_store :: "path \<Rightarrow> rstring list \<Rightarrow> settings_store" where
  "empty_store p ws = \<lparr>ss_path = p, ss_overrides = no_overrides, ss_plugins = [], ss_revision = 0, ss_warnings = ws\<rparr>"

definition settings_load :: "settings_env \<Rightarrow> path \<Rightarrow> 'w disk_scheme \<Rightarrow> settings_store \<times> 'w disk_scheme" where
  "settings_load env p d =
     (case settings_load_document env p d of
        (Inr (Some doc), d1) \<Rightarrow> (store_from_document p doc [], d1)
      | (r, d1) \<Rightarrow>
          let warnings = (case r of Inl e \<Rightarrow> [show_settings_error (se_show env) e] | Inr _ \<Rightarrow> []) in
          (case settings_load_document env (backup_path p) d1 of
             (Inr (Some doc), d2) \<Rightarrow>
               (store_from_document p doc
                  (warnings @ [lit ''capability settings recovered from an interrupted-write backup'']), d2)
           | (Inr None, d2) \<Rightarrow> (empty_store p warnings, d2)
           | (Inl e, d2) \<Rightarrow> (empty_store p (warnings @ [show_settings_error (se_show env) e]), d2)))"

definition plugin_enabled :: "settings_store \<Rightarrow> rstring \<Rightarrow> bool \<Rightarrow> bool" where
  "plugin_enabled s i d = or_default (bt_get (ss_plugins s) i) d"

definition settings_resolved :: "settings_store \<Rightarrow> capability_switches" where
  "settings_resolved s = switches_from (ss_overrides s)"

definition effective_switches :: "environment \<Rightarrow> settings_store \<Rightarrow> capability_switches" where
  "effective_switches read s = with_environment read (settings_resolved s)"

definition take_warnings :: "settings_store \<Rightarrow> rstring list \<times> settings_store" where
  "take_warnings s = (ss_warnings s, s\<lparr>ss_warnings := []\<rparr>)"

definition check_revision :: "settings_store \<Rightarrow> u64 option \<Rightarrow> (settings_error, unit) res" where
  "check_revision s expected =
     (case expected of
        None \<Rightarrow> Inr ()
      | Some e \<Rightarrow> if e \<noteq> ss_revision s then Inl (SeConflict e (ss_revision s)) else Inr ())"

text \<open>The operations change the store in memory and the disk.\<close>

type_synonym ('w, 'a) settings_act = "(settings_store \<times> 'w disk_scheme, settings_error, 'a) act"

definition settings_commit :: "settings_env \<Rightarrow> capability_overrides \<Rightarrow> plugin_choices \<Rightarrow> ('w, bool) settings_act" where
  "settings_commit env overrides plugins = (\<lambda>(s, d).
     if overrides = ss_overrides s \<and> plugins = ss_plugins s then (Inr False, (s, d))
     else (case checked_inc (ss_revision s) of
         None \<Rightarrow> (Inl SeRevisionExhausted, (s, d))
       | Some revision \<Rightarrow>
           (case se_print env \<lparr>sx_version = SETTINGS_DOCUMENT_VERSION, sx_revision = revision,
                   sx_capabilities = overrides, sx_plugins = plugins\<rparr> of
              Inl e \<Rightarrow> (Inl (SeSerialize e), (s, d))
            | Inr printed \<Rightarrow>
                let content = printed @ [10] in
                if MAX_SETTINGS_FILE_BYTES < length content
                then (Inl (SeTooLarge (ss_path s) MAX_SETTINGS_FILE_BYTES), (s, d))
                else (case settings_replace_file env (ss_path s) content d of
                    (Inl e, d') \<Rightarrow> (Inl e, (s, d'))
                  | (Inr _, d') \<Rightarrow>
                      (Inr True, (s\<lparr>ss_overrides := overrides, ss_plugins := plugins, ss_revision := revision\<rparr>, d'))))))"

text \<open>An edit first passes the fence, then prepares the next overrides, then commits.\<close>

definition fenced ::
  "settings_env \<Rightarrow> u64 option \<Rightarrow> (settings_store \<Rightarrow> (settings_error, capability_overrides \<times> plugin_choices) res) \<Rightarrow>
   ('w, bool) settings_act" where
  "fenced env expected prepare = (\<lambda>(s, d).
     case res_bind (check_revision s expected) (\<lambda>_. prepare s) of
       Inl e \<Rightarrow> (Inl e, (s, d))
     | Inr (overrides, plugins) \<Rightarrow> settings_commit env overrides plugins (s, d))"

definition settings_update :: "settings_env \<Rightarrow> capability_overrides \<Rightarrow> u64 option \<Rightarrow> ('w, bool) settings_act" where
  "settings_update env patch expected =
     fenced env expected (\<lambda>s. Inr (override_merge patch (ss_overrides s), ss_plugins s))"

definition settings_replace :: "settings_env \<Rightarrow> capability_overrides \<Rightarrow> u64 option \<Rightarrow> ('w, bool) settings_act" where
  "settings_replace env section expected = fenced env expected (\<lambda>s. Inr (section, ss_plugins s))"

datatype capability_edit = EditSet capability_setting bool | EditUnset capability_setting

fun apply_edit :: "capability_overrides \<Rightarrow> capability_edit \<Rightarrow> capability_overrides" where
  "apply_edit v (EditSet s b) = override_set s b v"
| "apply_edit v (EditUnset s) = override_unset s v"

definition settings_mutate :: "settings_env \<Rightarrow> capability_edit list \<Rightarrow> u64 option \<Rightarrow> ('w, bool) settings_act" where
  "settings_mutate env edits expected =
     fenced env expected (\<lambda>s. Inr (foldl apply_edit (ss_overrides s) edits, ss_plugins s))"

datatype plugin_edit = PluginSet rstring bool | PluginUnset rstring

fun apply_plugin_edits :: "plugin_choices \<Rightarrow> plugin_edit list \<Rightarrow> (settings_error, plugin_choices) res" where
  "apply_plugin_edits ps [] = Inr ps"
| "apply_plugin_edits ps (PluginSet i b # es) =
     res_bind (validate_plugin_id i) (\<lambda>_.
     if \<not> bt_has ps i \<and> MAX_PLUGIN_OVERRIDES \<le> length ps
     then Inl (SeTooManyPluginOverrides (length ps + 1) MAX_PLUGIN_OVERRIDES)
     else apply_plugin_edits (bt_insert i b ps) es)"
| "apply_plugin_edits ps (PluginUnset i # es) =
     res_bind (validate_plugin_id i) (\<lambda>_. apply_plugin_edits (bt_remove i ps) es)"

definition mutate_plugins :: "settings_env \<Rightarrow> plugin_edit list \<Rightarrow> u64 option \<Rightarrow> ('w, bool) settings_act" where
  "mutate_plugins env edits expected =
     fenced env expected (\<lambda>s. res_bind (apply_plugin_edits (ss_plugins s) edits) (\<lambda>ps. Inr (ss_overrides s, ps)))"

definition set_plugin :: "settings_env \<Rightarrow> rstring \<Rightarrow> bool \<Rightarrow> u64 option \<Rightarrow> ('w, bool) settings_act" where
  "set_plugin env i b expected = mutate_plugins env [PluginSet i b] expected"

definition unset_plugin :: "settings_env \<Rightarrow> rstring \<Rightarrow> u64 option \<Rightarrow> ('w, bool) settings_act" where
  "unset_plugin env i expected = mutate_plugins env [PluginUnset i] expected"

definition bt_extend :: "('k::linorder, 'v) btmap \<Rightarrow> ('k, 'v) btmap \<Rightarrow> ('k, 'v) btmap" where
  "bt_extend m patch = foldl (\<lambda>m (k, v). bt_insert k v m) m patch"

definition update_plugins :: "settings_env \<Rightarrow> plugin_choices \<Rightarrow> u64 option \<Rightarrow> ('w, bool) settings_act" where
  "update_plugins env patch expected =
     fenced env expected (\<lambda>s.
       res_bind (validate_plugin_overrides patch) (\<lambda>_.
       let ps = bt_extend (ss_plugins s) patch in
       res_bind (validate_plugin_overrides ps) (\<lambda>_. Inr (ss_overrides s, ps))))"

definition replace_plugins :: "settings_env \<Rightarrow> plugin_choices \<Rightarrow> u64 option \<Rightarrow> ('w, bool) settings_act" where
  "replace_plugins env plugins expected =
     fenced env expected (\<lambda>s. res_bind (validate_plugin_overrides plugins) (\<lambda>_. Inr (ss_overrides s, plugins)))"

text \<open>Sections of a request: whether a JSON value is an object, and what it decodes to, are answers.\<close>

definition parse_section :: "('v \<Rightarrow> bool) \<Rightarrow> ('v \<Rightarrow> (rstring, capability_overrides) res) \<Rightarrow> 'v \<Rightarrow>
  (settings_error, capability_overrides) res" where
  "parse_section is_object from_value value =
     (if \<not> is_object value then Inl (SeInvalidSection (lit ''capability settings section must be an object''))
      else map_err (\<lambda>e. SeInvalidSection (lit ''capability settings section is invalid: '' @ e)) (from_value value))"

definition parse_plugins :: "('v \<Rightarrow> bool) \<Rightarrow> ('v \<Rightarrow> (rstring, plugin_choices) res) \<Rightarrow> 'v \<Rightarrow>
  (settings_error, plugin_choices) res" where
  "parse_plugins is_object from_value value =
     (if \<not> is_object value then Inl (SeInvalidPluginSection (lit ''plugin settings section must be an object''))
      else res_bind (map_err (\<lambda>e. SeInvalidPluginSection (lit ''plugin settings section is invalid: '' @ e))
                       (from_value value)) (\<lambda>ps.
           res_bind (validate_plugin_overrides ps) (\<lambda>_. Inr ps)))"

text \<open>Where the settings live: the first of three variables that is set.\<close>

definition next_state_root :: "(rstring \<Rightarrow> path option) \<Rightarrow> path" where
  "next_state_root var =
     (case var (lit ''YUNXI_NEXT_HOME'') of
        Some p \<Rightarrow> p
      | None \<Rightarrow>
          (case var (lit ''USERPROFILE'') of
             Some p \<Rightarrow> path_join p (lit ''.yunxi-next'')
           | None \<Rightarrow>
               (case var (lit ''HOME'') of
                  Some p \<Rightarrow> path_join p (lit ''.yunxi-next'')
                | None \<Rightarrow> [lit ''.yunxi-next''])))"

definition settings_from_environment ::
  "settings_env \<Rightarrow> (rstring \<Rightarrow> path option) \<Rightarrow> 'w disk_scheme \<Rightarrow> settings_store \<times> 'w disk_scheme" where
  "settings_from_environment env var = settings_load env (path_join (next_state_root var) SETTINGS_FILE_NAME)"

end
