(* ===== verification/Settings_Props.thy ===== *)
theory Settings_Props
  imports Settings_Store Durable_Json
begin

text \<open>
  What an edit of the settings does to the store in memory and to the document on the disk: every edit is
  a fenced commit, a commit is one replacement of the document, and a process that loads the settings at
  any moment of it recovers the old choices or the new ones (\<open>durable_reader\<close> on \<open>settings_load\<close>).
\<close>

section \<open>Well-formed choices\<close>

definition choices_ok :: "plugin_choices \<Rightarrow> bool" where
  "choices_ok ps \<longleftrightarrow> bt_wf ps \<and> validate_plugin_overrides ps = Inr ()"

lemma validate_keys_ok: "validate_plugin_keys is = Inr () \<longleftrightarrow> (\<forall>i \<in> set is. validate_plugin_id i = Inr ())"
  by (induction "is") (auto simp: res_bind_Inr)

lemma choices_ok_alt:
  "choices_ok ps \<longleftrightarrow> bt_wf ps \<and> length ps \<le> MAX_PLUGIN_OVERRIDES \<and>
     (\<forall>i \<in> fst ` set ps. validate_plugin_id i = Inr ())"
  by (auto simp: choices_ok_def validate_plugin_overrides_def validate_keys_ok)

lemma choices_ok_Nil [simp]: "choices_ok []"
  by (simp add: choices_ok_alt)

lemma choices_ok_insert:
  assumes "choices_ok ps" "validate_plugin_id i = Inr ()" "bt_has ps i \<or> length ps < MAX_PLUGIN_OVERRIDES"
  shows "choices_ok (bt_insert i b ps)"
  using assms length_bt_insert_has [of ps i b] length_bt_insert_le [of ps MAX_PLUGIN_OVERRIDES i b]
  by (auto simp: choices_ok_alt)

lemma choices_ok_remove: "choices_ok ps \<Longrightarrow> choices_ok (bt_remove i ps)"
proof -
  assume ps: "choices_ok ps"
  have "set (bt_remove i ps) \<subseteq> set ps" by (auto simp: bt_remove_def)
  then have "\<forall>k \<in> fst ` set (bt_remove i ps). validate_plugin_id k = Inr ()"
    using ps unfolding choices_ok_alt by blast
  then show ?thesis
    using ps bt_wf_remove [of ps i] order.trans [OF length_bt_remove [of i ps]] by (simp add: choices_ok_alt)
qed

lemma apply_plugin_edits_ok: "apply_plugin_edits ps es = Inr ps' \<Longrightarrow> choices_ok ps \<Longrightarrow> choices_ok ps'"
proof (induction ps es rule: apply_plugin_edits.induct)
  case (2 ps i b es)
  then show ?case by (auto simp: res_bind_Inr not_le intro: choices_ok_insert split: if_splits)
next
  case (3 ps i es)
  then show ?case by (auto simp: res_bind_Inr intro: choices_ok_remove)
qed simp

lemma bt_extend_wf: "bt_wf m \<Longrightarrow> bt_wf (bt_extend m patch)"
  unfolding bt_extend_def by (induction patch arbitrary: m) auto

section \<open>The edits\<close>

datatype settings_request =
    RqUpdate capability_overrides
  | RqReplace capability_overrides
  | RqMutate "capability_edit list"
  | RqUpdatePlugins plugin_choices
  | RqReplacePlugins plugin_choices
  | RqMutatePlugins "plugin_edit list"

fun settings_edit :: "settings_env \<Rightarrow> settings_request \<Rightarrow> u64 option \<Rightarrow> ('w, bool) settings_act" where
  "settings_edit env (RqUpdate patch) e = settings_update env patch e"
| "settings_edit env (RqReplace section) e = settings_replace env section e"
| "settings_edit env (RqMutate edits) e = settings_mutate env edits e"
| "settings_edit env (RqUpdatePlugins patch) e = update_plugins env patch e"
| "settings_edit env (RqReplacePlugins plugins) e = replace_plugins env plugins e"
| "settings_edit env (RqMutatePlugins edits) e = mutate_plugins env edits e"

text \<open>The choices a request asks for, and the document that says so.\<close>

fun requested :: "settings_request \<Rightarrow> settings_store \<Rightarrow> (settings_error, capability_overrides \<times> plugin_choices) res" where
  "requested (RqUpdate patch) s = Inr (override_merge patch (ss_overrides s), ss_plugins s)"
| "requested (RqReplace section) s = Inr (section, ss_plugins s)"
| "requested (RqMutate edits) s = Inr (foldl apply_edit (ss_overrides s) edits, ss_plugins s)"
| "requested (RqUpdatePlugins patch) s =
     res_bind (validate_plugin_overrides patch) (\<lambda>_.
     res_bind (validate_plugin_overrides (bt_extend (ss_plugins s) patch)) (\<lambda>_.
     Inr (ss_overrides s, bt_extend (ss_plugins s) patch)))"
| "requested (RqReplacePlugins plugins) s =
     res_bind (validate_plugin_overrides plugins) (\<lambda>_. Inr (ss_overrides s, plugins))"
| "requested (RqMutatePlugins edits) s =
     res_bind (apply_plugin_edits (ss_plugins s) edits) (\<lambda>ps. Inr (ss_overrides s, ps))"

fun request_wf :: "settings_request \<Rightarrow> bool" where
  "request_wf (RqReplacePlugins plugins) = bt_wf plugins"
| "request_wf _ = True"

lemma settings_edit_fenced: "settings_edit env rq e = fenced env e (requested rq)"
  by (cases rq)
    (simp_all add: settings_update_def settings_replace_def settings_mutate_def update_plugins_def
      replace_plugins_def mutate_plugins_def fenced_def Let_def)

lemma requested_ok: "requested rq s = Inr (ov, ps) \<Longrightarrow> request_wf rq \<Longrightarrow> choices_ok (ss_plugins s) \<Longrightarrow> choices_ok ps"
  using apply_plugin_edits_ok [of "ss_plugins s"]
  by (cases rq) (auto simp: res_bind_Inr choices_ok_def bt_extend_wf)

definition settings_document_of :: "settings_store \<Rightarrow> settings_document" where
  "settings_document_of s = \<lparr>sx_version = SETTINGS_DOCUMENT_VERSION, sx_revision = ss_revision s,
     sx_capabilities = ss_overrides s, sx_plugins = ss_plugins s\<rparr>"

definition with_choices :: "settings_store \<Rightarrow> capability_overrides \<Rightarrow> plugin_choices \<Rightarrow> settings_store" where
  "with_choices s ov ps = s\<lparr>ss_overrides := ov, ss_plugins := ps, ss_revision := ss_revision s + 1\<rparr>"

text \<open>An edit either leaves everything as it is, or replaces the document and only then the store.\<close>

lemma settings_edit_cases:
  assumes "settings_edit env rq e (s, d) = (r, s', d')"
  obtains
    (untouched) "s' = s" "d' = d" "r \<noteq> Inr True"
  | (replaced) ov ps b r' where "check_revision s e = Inr ()" "requested rq s = Inr (ov, ps)"
      "ss_revision s \<noteq> - 1" "se_print env (settings_document_of (with_choices s ov ps)) = Inr b"
      "length (b @ [10]) \<le> MAX_SETTINGS_FILE_BYTES" "settings_replace_file env (ss_path s) (b @ [10]) d = (r', d')"
      "r = (case r' of Inl x \<Rightarrow> Inl x | Inr _ \<Rightarrow> Inr True)"
      "s' = (case r' of Inl x \<Rightarrow> s | Inr _ \<Rightarrow> with_choices s ov ps)"
proof -
  consider (refused) x where "res_bind (check_revision s e) (\<lambda>_. requested rq s) = Inl x"
    | (prepared) ov ps where "check_revision s e = Inr ()" "requested rq s = Inr (ov, ps)"
    by (cases "check_revision s e"; cases "requested rq s") auto
  then show thesis
  proof cases
    case refused
    then show thesis using assms untouched by (auto simp: settings_edit_fenced fenced_def)
  next
    case prepared
    have commit: "settings_commit env ov ps (s, d) = (r, s', d')"
      using assms prepared by (simp add: settings_edit_fenced fenced_def)
    show thesis
    proof (cases "ov = ss_overrides s \<and> ps = ss_plugins s \<or> ss_revision s = - 1")
      case True
      then show thesis using commit untouched by (auto simp: settings_commit_def checked_inc_def split: if_splits)
    next
      case False
      then have inc: "checked_inc (ss_revision s) = Some (ss_revision s + 1)" by (simp add: checked_inc_def)
      have doc: "\<lparr>sx_version = SETTINGS_DOCUMENT_VERSION, sx_revision = ss_revision s + 1,
          sx_capabilities = ov, sx_plugins = ps\<rparr> = settings_document_of (with_choices s ov ps)"
        by (simp add: settings_document_of_def with_choices_def)
      show thesis
      proof (cases "se_print env (settings_document_of (with_choices s ov ps))")
        case (Inl x)
        then show thesis using commit False inc untouched by (auto simp: settings_commit_def doc)
      next
        case (Inr b)
        show thesis
        proof (cases "MAX_SETTINGS_FILE_BYTES < length (b @ [10])")
          case True
          then show thesis using commit False inc Inr untouched by (auto simp: settings_commit_def doc)
        next
          case small: False
          obtain r' d1 where w: "settings_replace_file env (ss_path s) (b @ [10]) d = (r', d1)" by fastforce
          have "d1 = d'" using commit False inc Inr small w
            by (auto simp: settings_commit_def doc split: sum.splits)
          then show thesis
            by (intro replaced [OF prepared _ Inr _ w [unfolded \<open>d1 = d'\<close>]])
              (use commit False inc Inr small w in \<open>auto simp: settings_commit_def doc with_choices_def split: sum.splits\<close>)
        qed
      qed
    qed
  qed
qed

section \<open>Loading\<close>

definition settings_decode :: "settings_env \<Rightarrow> u8 list \<Rightarrow> settings_document option" where
  "settings_decode env c =
     (if MAX_SETTINGS_FILE_BYTES < length c then None
      else (case se_parse env c of
              Inl e \<Rightarrow> None
            | Inr doc \<Rightarrow>
                if validate_plugin_overrides (sx_plugins doc) = Inr () \<and> sx_version doc = SETTINGS_DOCUMENT_VERSION
                then Some doc else None))"

definition node_document :: "settings_env \<Rightarrow> node option \<Rightarrow> settings_document option" where
  "node_document env n = (case n of Some (FileNode c) \<Rightarrow> settings_decode env c | _ \<Rightarrow> None)"

definition first_document :: settings_document where
  "first_document = settings_document_of (empty_store [] [])"

definition settings_recover :: "settings_env \<Rightarrow> path \<Rightarrow> files \<Rightarrow> settings_document option" where
  "settings_recover env p f = Some (settings_document_of (fst (settings_load env p (quiet_disk f))))"

text \<open>A quiet load takes the target, or else the backup, or else starts afresh.\<close>

lemma quiet_load_document:
  "(case node_document env (f p) of
      Some doc \<Rightarrow> settings_load_document env p (quiet_disk f) = (Inr (Some doc), quiet_disk f)
    | None \<Rightarrow> \<exists>x. settings_load_document env p (quiet_disk f) = (x, quiet_disk f) \<and> (x = Inr None \<or> \<not> is_ok x))"
proof (cases "f p")
  case None
  then show ?thesis by (simp add: node_document_def settings_load_document_def quiet_metadata)
next
  case (Some n)
  show ?thesis
  proof (cases n)
    case DirNode
    then show ?thesis using Some by (simp add: node_document_def settings_load_document_def quiet_metadata)
  next
    case (FileNode c)
    then show ?thesis
      using Some
      by (cases "se_parse env c")
        (auto simp: node_document_def settings_decode_def settings_load_document_def quiet_metadata act_then_def
          act_bind_def act_map_err_def lift_res_def throw_def ret_def split: sum.splits)
  qed
qed

lemma quiet_load_found:
  "node_document env (f p) = Some doc \<Longrightarrow> settings_load_document env p (quiet_disk f) = (Inr (Some doc), quiet_disk f)"
  using quiet_load_document [where env = env and f = f and p = p] by simp

lemma quiet_load_missing:
  assumes "node_document env (f p) = None"
  shows "\<exists>x. settings_load_document env p (quiet_disk f) = (x, quiet_disk f) \<and> (\<forall>doc. x \<noteq> Inr (Some doc))"
  using quiet_load_document [where env = env and f = f and p = p] assms by auto

lemma settings_recover_pick:
  "settings_recover env p f =
     Some (case node_document env (f p) of
             Some doc \<Rightarrow> doc
           | None \<Rightarrow> (case node_document env (f (backup_path p)) of Some doc \<Rightarrow> doc | None \<Rightarrow> first_document))"
proof -
  have version: "sx_version doc = SETTINGS_DOCUMENT_VERSION" if "node_document env n = Some doc" for n doc
    using that by (auto simp: node_document_def settings_decode_def split: option.splits node.splits sum.splits if_splits)
  have stored: "settings_document_of (store_from_document p doc ws) = doc" if "node_document env n = Some doc" for n doc ws
    using version [OF that] by (simp add: settings_document_of_def store_from_document_def)
  have fresh: "settings_document_of (empty_store p ws) = first_document" for ws
    by (simp add: settings_document_of_def empty_store_def first_document_def)
  note missing = quiet_load_missing [of env f] and found = quiet_load_found [of env f]
  show ?thesis
  proof (cases "node_document env (f p)")
    case primary: None
    obtain x where x: "settings_load_document env p (quiet_disk f) = (x, quiet_disk f)" "\<forall>doc. x \<noteq> Inr (Some doc)"
      using missing [OF primary] by blast
    show ?thesis
    proof (cases "node_document env (f (backup_path p))")
      case None
      obtain y where "settings_load_document env (backup_path p) (quiet_disk f) = (y, quiet_disk f)"
        "\<forall>doc. y \<noteq> Inr (Some doc)" using missing [OF None] by blast
      then show ?thesis using primary None x fresh
        by (simp add: settings_recover_def settings_load_def split: sum.splits option.splits)
    next
      case (Some doc)
      then show ?thesis using primary x found [OF Some] stored [OF Some]
        by (simp add: settings_recover_def settings_load_def split: sum.splits option.splits)
    qed
  next
    case (Some doc)
    then show ?thesis using found [OF Some] stored [OF Some]
      by (simp add: settings_recover_def settings_load_def)
  qed
qed

interpretation settings_reader: durable_reader "settings_recover env p" "settings_decode env" p "backup_path p"
  for env p
  by unfold_locales (auto simp: settings_recover_pick seen_def node_document_def split: option.splits)

section \<open>The document while an edit is saved\<close>

definition settings_codec :: "settings_env \<Rightarrow> bool" where
  "settings_codec env \<longleftrightarrow>
     (\<forall>doc b. bt_wf (sx_plugins doc) \<longrightarrow> se_print env doc = Inr b \<longrightarrow> se_parse env (b @ [10]) = Inr doc) \<and>
     (\<forall>c doc. se_parse env c = Inr doc \<longrightarrow> bt_wf (sx_plugins doc))"

lemma recover_written:
  assumes "lone_file p f" "settings_decode env content = Some new" "written dir p content f g"
  shows "settings_recover env p g = settings_recover env p f \<or> settings_recover env p g = Some new"
proof -
  have new: "node_document env (Some (FileNode content)) = Some new" "node_document env None = None"
    using assms(2) by (simp_all add: node_document_def)
  have "seen p (backup_path p) g = seen p (backup_path p) f \<or> seen p (backup_path p) g = Some (FileNode content)"
    "{g p, g (backup_path p)} \<subseteq> {f p, f (backup_path p), Some (FileNode content), None}"
    using assms(1,3) by (auto simp: lone_file_def written_def keeps_def)
  then show ?thesis
    using assms(1) new by (auto simp: lone_file_def settings_recover_pick seen_def split: option.splits)
qed

text \<open>
  What a load can find while the file is replaced, whatever lay beside it: the old document, the new
  one, or what the document or the backup alone would give. The last two need both files to have been
  there.
\<close>

definition beside :: "settings_env \<Rightarrow> path \<Rightarrow> files \<Rightarrow> settings_document option set" where
  "beside env p f =
     (if lone_file p f then {}
      else {settings_recover env p (f(p := None)), settings_recover env p (f(backup_path p := None))})"

lemma recover_moment:
  assumes "p \<noteq> backup_path p" "settings_decode env content = Some new" "written dir p content f g"
  shows "settings_recover env p g \<in> {settings_recover env p f, Some new} \<union> beside env p f"
proof (cases "lone_file p f")
  case True
  then show ?thesis using recover_written [OF True assms(2,3)] by (simp add: beside_def)
next
  case False
  have new: "node_document env (Some (FileNode content)) = Some new" "node_document env None = None"
    using assms(2) by (simp_all add: node_document_def)
  have "{g p, g (backup_path p)} \<subseteq> {f p, f (backup_path p), Some (FileNode content), None}"
    using assms(3) by (simp add: written_def)
  moreover have "g p = None \<Longrightarrow> g (backup_path p) \<noteq> None"
    using assms(3) False by (auto simp: written_def keeps_def seen_def lone_file_def)
  ultimately show ?thesis
    using False assms(1) new
    by (cases "node_document env (f p)"; cases "node_document env (f (backup_path p))")
      (auto simp: beside_def settings_recover_pick)
qed

lemma recover_unwritten:
  assumes "lone_file p f" "write_result dir p content f (Inl e) g"
  shows "settings_recover env p g = settings_recover env p f"
proof -
  have "node_document env None = None" by (simp add: node_document_def)
  then show ?thesis
    using assms by (auto simp: lone_file_def settings_recover_pick seen_def split: option.splits)
qed

lemma wp_settings_replace:
  assumes "json_path dir p"
  shows "wp (written dir p content f) (settings_replace_file env p content) (write_result dir p content f) f"
proof -
  have t: "settings_temporary n u \<noteq> []" "hd (settings_temporary n u) = dot"
    "suffix (lit ''.tmp'') (settings_temporary n u)" for n u
    by (simp_all add: settings_temporary_def lit_def dot_def ch_def suffix_def)
  have swap: "wp (written dir p content f) (swap_file p (dir @ [settings_temporary n u]) (backup_path p) content)
     (write_result dir p content f) (with_directories dir f)" for n u
    by (rule wp_weaken [OF wp_replace_json [OF assms t]])
      (simp_all only: written_from_directories [OF assms])
  show ?thesis
    unfolding settings_replace_file_def json_path_parent [OF assms] option.case path_join_def
    by (intro wp_then wp_map_err wp_make_directories)
      (auto simp: write_result_refl written_directories [OF assms] write_result_directories [OF assms]
        intro!: wp_bind wp_sys_nanos wp_map_err wp_mono [OF swap] simp del: write_result.simps)
qed

end
