(* ===== verification/Settings_Claims.thy ===== *)
theory Settings_Claims
  imports Settings_Props "HOL-Library.Code_Target_Nat"
begin

text \<open>
  The properties of the user settings: an edit is saved atomically, under a fence on the revision the
  store holds in memory, and the switches in force follow the environment, then the document, then the
  defaults. Two stores loaded from one file both pass the fence: the second edit replaces the first.
\<close>

section \<open>Saving an edit\<close>

lemma edited_document:
  assumes "settings_codec env" "se_print env (settings_document_of (with_choices s ov ps)) = Inr b"
    and "length (b @ [10]) \<le> MAX_SETTINGS_FILE_BYTES" "choices_ok ps"
  shows "settings_decode env (b @ [10]) = Some (settings_document_of (with_choices s ov ps))"
proof -
  let ?doc = "settings_document_of (with_choices s ov ps)"
  have "sx_plugins ?doc = ps" "sx_version ?doc = SETTINGS_DOCUMENT_VERSION"
    by (simp_all add: settings_document_of_def with_choices_def)
  moreover have "se_parse env (b @ [10]) = Inr ?doc"
    using assms(1,2,4) calculation(1) by (auto simp: settings_codec_def choices_ok_def)
  ultimately show ?thesis using assms(3,4) by (simp add: settings_decode_def choices_ok_def)
qed

text \<open>C11: a crash at any moment of an edit, and any failure of the file system, leave the old settings or
  the requested ones to be loaded, whole, when no leftover backup lies beside the settings file; when one
  does, a crash can also leave what the file alone or the backup alone gives, and nothing else. When the
  edit returns, the next load finds what the store holds in memory: always after a success, and after a
  failure when no leftover backup lay beside the file.\<close>

theorem settings_edit_atomic:
  assumes "settings_codec env" "json_path dir (ss_path s)"
    and "choices_ok (ss_plugins s)" "request_wf rq"
    and "settings_recover env (ss_path s) (dk_files d) = Some (settings_document_of s)"
    and "settings_edit env rq e (s, d) = (r, s', d')"
  shows "(\<forall>f \<in> moments d d'.
       settings_recover env (ss_path s) f = Some (settings_document_of s) \<or>
       (\<exists>ov ps. requested rq s = Inr (ov, ps) \<and>
          settings_recover env (ss_path s) f = Some (settings_document_of (with_choices s ov ps))) \<or>
       dk_files d (ss_path s) \<noteq> None \<and> dk_files d (backup_path (ss_path s)) \<noteq> None \<and>
         settings_recover env (ss_path s) f \<in>
           {settings_recover env (ss_path s) ((dk_files d)(ss_path s := None)),
            settings_recover env (ss_path s) ((dk_files d)(backup_path (ss_path s) := None))}) \<and>
    choices_ok (ss_plugins s') \<and>
    (is_ok r \<or> dk_files d (ss_path s) = None \<or> dk_files d (backup_path (ss_path s)) = None \<longrightarrow>
       settings_recover env (ss_path s) (dk_files d') = Some (settings_document_of s'))"
  using assms(6)
proof (cases rule: settings_edit_cases)
  case untouched
  then show ?thesis using assms by (simp add: moments_def)
next
  case (replaced ov ps b r')
  note ps = requested_ok [OF replaced(2) assms(4,3)]
  note decode = edited_document [OF assms(1) replaced(4,5) ps]
  note run = wp_settings_replace [OF assms(2), of "b @ [10]" "dk_files d" env]
  have apart: "ss_path s \<noteq> backup_path (ss_path s)" by (rule json_paths_apart(1) [OF assms(2,2)])
  have moment: "settings_recover env (ss_path s) f \<in>
      {Some (settings_document_of s), Some (settings_document_of (with_choices s ov ps))} \<union>
      beside env (ss_path s) (dk_files d)" if "f \<in> moments d d'" for f
    using recover_moment [OF apart decode wp_moments [OF run replaced(6) that]] assms(5) by simp
  have result: "write_result dir (ss_path s) (b @ [10]) (dk_files d) r' (dk_files d')"
    by (rule wp_run [OF run replaced(6)])
  have "settings_recover env (ss_path s) (dk_files d') = Some (settings_document_of s')"
    if "is_ok r \<or> lone_file (ss_path s) (dk_files d)"
  proof (cases r')
    case (Inl x)
    then have "lone_file (ss_path s) (dk_files d)" using that replaced(7) by auto
    then show ?thesis using Inl recover_unwritten [OF _ result [unfolded Inl]] assms(5) replaced(8) by (simp del: write_result.simps)
  next
    case (Inr x)
    then show ?thesis using settings_reader.new_after_success [OF decode] result replaced(8) by simp
  qed
  moreover have "choices_ok (ss_plugins s')"
    using ps assms(3) replaced(8) by (cases r') (simp_all add: with_choices_def)
  ultimately show ?thesis
    using replaced(2) moment unfolding beside_def lone_file_def by (fastforce split: if_splits)
qed

text \<open>A stale expected revision is refused with both revisions and nothing changes; an edit that
  reports a change made exactly the requested one and counted the revision up by one; any other answer
  leaves the store in memory as it was.\<close>

theorem settings_edit_outcome:
  assumes "settings_edit env rq e (s, d) = (r, s', d')"
  shows "(\<forall>x. e = Some x \<and> x \<noteq> ss_revision s \<longrightarrow> r = Inl (SeConflict x (ss_revision s)) \<and> s' = s \<and> d' = d) \<and>
    (r = Inr True \<longrightarrow>
       (\<exists>ov ps. requested rq s = Inr (ov, ps) \<and> (ov, ps) \<noteq> (ss_overrides s, ss_plugins s) \<and> s' = with_choices s ov ps) \<and>
       unat (ss_revision s') = unat (ss_revision s) + 1) \<and>
    (r = Inr False \<longrightarrow> requested rq s = Inr (ss_overrides s, ss_plugins s)) \<and>
    (r \<noteq> Inr True \<longrightarrow> s' = s)"
proof -
  have edit: "settings_edit env rq e (s, d) =
      (case res_bind (check_revision s e) (\<lambda>_. requested rq s) of
         Inl x \<Rightarrow> (Inl x, (s, d)) | Inr (ov, ps) \<Rightarrow> settings_commit env ov ps (s, d))"
    by (simp add: settings_edit_fenced fenced_def)
  note run = assms [unfolded edit]
  have "r = Inl (SeConflict x (ss_revision s)) \<and> s' = s \<and> d' = d" if "e = Some x" "x \<noteq> ss_revision s" for x
    using run that by (auto simp: check_revision_def)
  moreover have "requested rq s = Inr (ss_overrides s, ss_plugins s)" if "r = Inr False"
    using assms that by (auto simp: edit settings_commit_def Let_def split: sum.splits if_splits option.splits prod.splits)
  moreover have "(\<exists>ov ps. requested rq s = Inr (ov, ps) \<and> (ov, ps) \<noteq> (ss_overrides s, ss_plugins s) \<and>
      s' = with_choices s ov ps) \<and> unat (ss_revision s') = unat (ss_revision s) + 1" if "r = Inr True"
    using assms
  proof (cases rule: settings_edit_cases)
    case (replaced ov ps b r')
    have "(ov, ps) \<noteq> (ss_overrides s, ss_plugins s)"
      using assms replaced(1,2) that by (auto simp: edit settings_commit_def)
    moreover have "s' = with_choices s ov ps" using replaced(7,8) that by (cases r') simp_all
    ultimately show ?thesis using replaced(2,3) by (simp add: with_choices_def unat_inc)
  qed (use that in simp)
  moreover have "s' = s" if "r \<noteq> Inr True"
    using assms by (cases rule: settings_edit_cases) (use that in \<open>auto split: sum.splits\<close>)
  ultimately show ?thesis by blast
qed

section \<open>The switches in force\<close>

lemma switch_set_get [simp]: "switch_get (switch_set c b w) c' = (if c = c' then b else switch_get w c')"
  by (cases c; cases c') simp_all

lemma fold_environment:
  "switch_get (foldl (\<lambda>w c. case environment_value read c of Some b \<Rightarrow> switch_set c b w | None \<Rightarrow> w) w cs) c =
     (case environment_value read c of Some b \<Rightarrow> if c \<in> set cs then b else switch_get w c | None \<Rightarrow> switch_get w c)"
  by (induction cs arbitrary: w) (auto split: option.splits)

lemma all_settings_complete [simp]: "c \<in> set all_settings"
  by (cases c) (simp_all add: all_settings_def)

text \<open>Each of the fifteen switches is the value of its environment variable, else of its legacy
  variable, else of the stored override, else its default: on for context, persona and storage, the
  stored companion override for mailbox and scheduler (an environment variable that turns the companion
  on does not turn these on), off for the others.\<close>

theorem effective_switch:
  "switch_get (effective_switches read s) c =
     (case environment_value read c of
        Some b \<Rightarrow> b
      | None \<Rightarrow>
          (case override_get (ss_overrides s) c of
             Some b \<Rightarrow> b
           | None \<Rightarrow> c \<in> {CsContext, CsPersona, CsStorage} \<or>
               c \<in> {CsMailbox, CsScheduler} \<and> override_get (ss_overrides s) CsCompanion = Some True))"
proof -
  have stored: "switch_get (settings_resolved s) c =
     (case override_get (ss_overrides s) c of
             Some b \<Rightarrow> b
           | None \<Rightarrow> c \<in> {CsContext, CsPersona, CsStorage} \<or>
               c \<in> {CsMailbox, CsScheduler} \<and> override_get (ss_overrides s) CsCompanion = Some True)"
    by (cases c)
      (auto simp: settings_resolved_def switches_from_def or_default_def Let_def split: option.splits)
  show ?thesis
    by (simp only: effective_switches_def with_environment_def fold_environment all_settings_complete stored if_True)
qed

section \<open>Two stores on one document\<close>

text \<open>C26: The fence compares the expected revision with the one the store loaded, not with the one on
  the disk: when two processes loaded the same settings, an edit of the second passes the fence after an
  edit of the first was saved, replaces the document without the first edit, and stores it under the
  revision the first had been given.\<close>

theorem stale_revision_overwrites:
  assumes "settings_codec env" "json_path dir (ss_path s)" "choices_ok (ss_plugins s)" "request_wf rq'"
    and "settings_edit env rq (Some (ss_revision s)) (s, d) = (Inr True, s1, d1)"
    and "settings_edit env rq' (Some (ss_revision s)) (s, d1) = (Inr True, s2, d2)"
  shows "(\<exists>ov ps. requested rq' s = Inr (ov, ps) \<and> s2 = with_choices s ov ps) \<and>
    ss_revision s2 = ss_revision s1 \<and>
    settings_recover env (ss_path s) (dk_files d2) = Some (settings_document_of s2)"
proof -
  obtain ov ps where first: "s1 = with_choices s ov ps"
    using assms(5) by (cases rule: settings_edit_cases) (auto split: sum.splits)
  show ?thesis
    using assms(6)
  proof (cases rule: settings_edit_cases)
    case (replaced ov' ps' b r')
    then obtain u where r': "r' = Inr u" by (cases r') simp_all
    have "write_result dir (ss_path s) (b @ [10]) (dk_files d1) r' (dk_files d2)"
      by (rule wp_run [OF wp_settings_replace [OF assms(2)] replaced(6)])
    then have "settings_recover env (ss_path s) (dk_files d2) = Some (settings_document_of (with_choices s ov' ps'))"
      using settings_reader.new_after_success
        [OF edited_document [OF assms(1) replaced(4,5) requested_ok [OF replaced(2) assms(4,3)]]] r' by simp
    then show ?thesis using replaced(2,8) r' first by (simp add: with_choices_def)
  qed simp
qed

section \<open>Witnesses\<close>

definition sample_home :: path where "sample_home = [lit ''h'']"
definition sample_settings_path :: path where "sample_settings_path = sample_home @ [SETTINGS_FILE_NAME]"

definition mcp_on :: capability_overrides where "mcp_on = override_set CsMcp True no_overrides"
definition skills_on :: capability_overrides where "skills_on = override_set CsSkills True no_overrides"

definition first_edit :: settings_document where
  "first_edit = \<lparr>sx_version = 1, sx_revision = 1, sx_capabilities = mcp_on, sx_plugins = []\<rparr>"
definition second_edit :: settings_document where
  "second_edit = \<lparr>sx_version = 1, sx_revision = 1, sx_capabilities = skills_on, sx_plugins = []\<rparr>"

definition sample_settings_env :: settings_env where
  "sample_settings_env = \<lparr>
     se_parse = (\<lambda>c. if c = [1, 10] then Inr first_edit else if c = [2, 10] then Inr second_edit else Inl []),
     se_print = (\<lambda>doc. if doc = first_edit then Inr [1] else if doc = second_edit then Inr [2] else Inl []),
     se_pid = 7, se_show = \<lparr>se_show_path = (\<lambda>_. []), se_show_io = (\<lambda>_. [])\<rparr>\<rparr>"

definition sample_settings :: settings_store where "sample_settings = empty_store sample_settings_path []"

definition sample_home_disk :: disk where
  "sample_home_disk = quiet_disk (\<lambda>p. if p = [lit ''h''] then Some DirNode else None)"

definition run_first where
  "run_first = settings_edit sample_settings_env (RqMutate [EditSet CsMcp True]) (Some 0) (sample_settings, sample_home_disk)"

definition run_second where
  "run_second = settings_edit sample_settings_env (RqMutate [EditSet CsSkills True]) (Some 0)
     (sample_settings, snd (snd run_first))"

lemma sample_settings_codec: "settings_codec sample_settings_env"
  by (auto simp: settings_codec_def sample_settings_env_def first_edit_def second_edit_def split: if_splits)

lemma sample_settings_json: "json_path sample_home (ss_path sample_settings)"
  unfolding json_path_def sample_settings_def sample_settings_path_def empty_store_def SETTINGS_FILE_NAME_def
  by (intro exI [of _ "lit ''settings''"]) (simp add: lit_def dot_def ch_def)

lemma sample_settings_runs: "fst run_first = Inr True" "fst run_second = Inr True"
  by code_simp+

lemma sample_settings_start:
  "lone_file (ss_path sample_settings) (dk_files sample_home_disk)"
  "choices_ok (ss_plugins sample_settings)"
  "settings_recover sample_settings_env (ss_path sample_settings) (dk_files sample_home_disk) =
     Some (settings_document_of sample_settings)"
  by code_simp+

theorem settings_edit_atomic_witness:
  "settings_recover sample_settings_env (ss_path sample_settings) (dk_files (snd (snd run_first))) =
     Some (settings_document_of (fst (snd run_first))) \<and> fst run_first = Inr True"
  using settings_edit_atomic [OF sample_settings_codec sample_settings_json sample_settings_start(2) _
      sample_settings_start(3), of "RqMutate [EditSet CsMcp True]" "Some 0" "fst run_first"
      "fst (snd run_first)" "snd (snd run_first)"] sample_settings_runs(1)
  by (simp add: run_first_def)

theorem settings_edit_outcome_witness:
  "unat (ss_revision (fst (snd run_first))) = unat (ss_revision sample_settings) + 1"
proof -
  have "settings_edit sample_settings_env (RqMutate [EditSet CsMcp True]) (Some 0) (sample_settings, sample_home_disk)
      = (Inr True, fst (snd run_first), snd (snd run_first))"
    using sample_settings_runs(1) by (simp add: run_first_def prod_eq_iff)
  from settings_edit_outcome [OF this] show ?thesis by blast
qed

theorem stale_revision_overwrites_witness:
  "settings_recover sample_settings_env (ss_path sample_settings) (dk_files (snd (snd run_second))) =
     Some (settings_document_of (fst (snd run_second))) \<and>
   ss_revision (fst (snd run_second)) = ss_revision (fst (snd run_first))"
proof -
  have "settings_edit sample_settings_env (RqMutate [EditSet CsMcp True]) (Some (ss_revision sample_settings))
      (sample_settings, sample_home_disk) = (Inr True, fst (snd run_first), snd (snd run_first))"
    using sample_settings_runs(1) by (simp add: run_first_def sample_settings_def empty_store_def prod_eq_iff)
  moreover have "settings_edit sample_settings_env (RqMutate [EditSet CsSkills True]) (Some (ss_revision sample_settings))
      (sample_settings, snd (snd run_first)) = (Inr True, fst (snd run_second), snd (snd run_second))"
    using sample_settings_runs(2) by (simp add: run_second_def sample_settings_def empty_store_def prod_eq_iff)
  ultimately show ?thesis
    using stale_revision_overwrites [OF sample_settings_codec sample_settings_json sample_settings_start(2)]
    by (metis request_wf.simps(4))
qed

section \<open>A damaged file beside a good backup\<close>

text \<open>
  A load takes the backup when the file itself does not parse. The next edit then removes that backup
  before it moves the damaged file aside: a crash in between leaves the damaged file alone, and the next
  load starts from the defaults, with neither the settings that had been recovered nor the requested ones.
\<close>

definition damaged_edit :: settings_document where
  "damaged_edit = \<lparr>sx_version = 1, sx_revision = 2, sx_capabilities = override_set CsSkills True mcp_on, sx_plugins = []\<rparr>"

definition damaged_env :: settings_env where
  "damaged_env = sample_settings_env\<lparr>se_print := (\<lambda>doc. if doc = damaged_edit then Inr [3] else Inl [])\<rparr>"

definition damaged_disk :: disk where
  "damaged_disk = quiet_disk (\<lambda>p. if p = [lit ''h''] then Some DirNode
     else if p = sample_settings_path then Some (FileNode [9])
     else if p = backup_path sample_settings_path then Some (FileNode [1, 10]) else None)"

definition damaged_run where
  "damaged_run = settings_edit damaged_env (RqMutate [EditSet CsSkills True]) (Some 1)
     (fst (settings_load damaged_env sample_settings_path damaged_disk), damaged_disk)"

theorem damaged_file_loses_backup:
  "settings_recover damaged_env sample_settings_path (dk_files damaged_disk) = Some first_edit \<and>
   fst damaged_run = Inr True \<and>
   (\<exists>f \<in> moments damaged_disk (snd (snd damaged_run)).
      settings_recover damaged_env sample_settings_path f = Some first_document) \<and>
   first_document \<noteq> first_edit \<and> first_document \<noteq> damaged_edit"
  by code_simp

end
