(* ===== verification/Plugin_Loop.thy ===== *)
theory Plugin_Loop
  imports Wire_Handshake
begin

text \<open>
  The process of a capability plugin, which every plugin crate writes the same way: declare the
  capabilities, connect, then receive messages one at a time and answer each invocation before the next
  one is received. The locale \<open>answering\<close> states what an answer owes its request; it gives the order of the
  answers of a whole run.
\<close>

section \<open>Answering one request\<close>

text \<open>An invocation is answered by a message, ends the process with an error, or panics.\<close>

datatype ('v, 'e) reply = Sends "'v plugin_message" | Ends 'e | Panics

text \<open>Decode the payload, run the operation on it, encode what it returns.\<close>

definition typed_call ::
  "(codec_error \<Rightarrow> 'e) \<Rightarrow> ('v \<Rightarrow> (rstring, 'q) res) \<Rightarrow> ('q \<Rightarrow> ('s, 'e, 'r) act) \<Rightarrow> ('r \<Rightarrow> (rstring, 'v) res) \<Rightarrow>
   'v invocation_request \<Rightarrow> ('s, 'e, 'v invocation_response) act" where
  "typed_call failed from_value operation to_value r =
     act_bind (lift_res (map_err failed (request_payload from_value r))) (\<lambda>q.
     act_bind (operation q) (\<lambda>x.
     lift_res (map_err failed (response_encode to_value (ir_request_id r) x))))"

record 'e answer_texts =
  at_capability :: rstring
  at_version :: u32
  at_name :: rstring
  at_code :: "'e \<Rightarrow> rstring"
  at_show :: "'e \<Rightarrow> rstring"
  at_panics :: "'e \<Rightarrow> bool"

definition send_failure :: "u64 \<Rightarrow> rstring \<Rightarrow> rstring \<Rightarrow> ('v, 'e) reply" where
  "send_failure request_id code message = Sends (InvocationFailed request_id code message False)"

definition answer_request ::
  "'e answer_texts \<Rightarrow> ('v invocation_request \<Rightarrow> ('s, 'e, 'v invocation_response) act option) \<Rightarrow>
   'v invocation_request \<Rightarrow> 's \<Rightarrow> ('v, 'e) reply \<times> 's" where
  "answer_request t dispatch r s =
     (let request_id = ir_request_id r in
      if cap_str (cap_id (ir_capability r)) \<noteq> at_capability t \<or> cap_version (ir_capability r) \<noteq> at_version t
      then (send_failure request_id (lit ''unsupported_capability'')
              (at_name t @ lit '' plugin does not support the requested capability''), s)
      else (case dispatch r of
          None \<Rightarrow>
            (send_failure request_id (lit ''unsupported_operation'')
               (at_name t @ lit '' plugin does not support the requested operation''), s)
        | Some call \<Rightarrow>
            (case call s of
               (Inr response, s') \<Rightarrow> (Sends (InvocationCompleted response), s')
             | (Inl e, s') \<Rightarrow>
                 (if at_panics t e then Panics else send_failure request_id (at_code t e) (at_show t e), s'))))"

text \<open>A plugin with one operation refuses every other invocation alike, and an answer that cannot be encoded
  ends it. The operation fails with the code and the message of the refusal.\<close>

definition answer_single ::
  "(codec_error \<Rightarrow> 'e) \<Rightarrow> rstring \<Rightarrow> u32 \<Rightarrow> rstring \<Rightarrow> rstring \<Rightarrow> ('v \<Rightarrow> (rstring, 'q) res) \<Rightarrow>
   ('q \<Rightarrow> ('s, rstring \<times> rstring, 'r) act) \<Rightarrow> ('r \<Rightarrow> (rstring, 'v) res) \<Rightarrow>
   'v invocation_request \<Rightarrow> 's \<Rightarrow> ('v, 'e) reply \<times> 's" where
  "answer_single failed capability version operation name from_value perform to_value r s =
     (let request_id = ir_request_id r in
      if cap_str (cap_id (ir_capability r)) \<noteq> capability \<or> cap_version (ir_capability r) \<noteq> version \<or> ir_operation r \<noteq> operation
      then (send_failure request_id (lit ''unsupported_operation'')
              (name @ lit '' plugin does not support the requested operation''), s)
      else (case request_payload from_value r of
          Inl e \<Rightarrow> (send_failure request_id (lit ''invalid_request'') (show_codec_error e), s)
        | Inr payload \<Rightarrow>
            (case perform payload s of
               (Inl (code, message), s') \<Rightarrow> (send_failure request_id code message, s')
             | (Inr x, s') \<Rightarrow>
                 ((case response_encode to_value request_id x of
                     Inl e \<Rightarrow> Ends (failed e) | Inr response \<Rightarrow> Sends (InvocationCompleted response)), s'))))"

section \<open>The loop\<close>

text \<open>A script pairs what each call of \<open>receive\<close> returns with what sending the answer to it returns; when
  the script is over, the process waits for its next message.\<close>

type_synonym 'v script = "((protocol_error, 'v host_message) res \<times> (protocol_error, unit) res) list"

datatype 'e plugin_end = Waiting | Panicked | Ended "('e, unit) res"

record 'e plugin_errors =
  pe_capability :: "capability_error \<Rightarrow> 'e"
  pe_protocol :: "protocol_error \<Rightarrow> 'e"
  pe_unexpected :: "rstring \<Rightarrow> 'e"

fun plugin_loop ::
  "'e plugin_errors \<Rightarrow> ('v invocation_request \<Rightarrow> 's \<Rightarrow> ('v, 'e) reply \<times> 's) \<Rightarrow> 'v script \<Rightarrow> 's \<Rightarrow>
   'e plugin_end \<times> 'v plugin_message list \<times> 's" where
  "plugin_loop pe answer [] s = (Waiting, [], s)"
| "plugin_loop pe answer ((Inl e, sent) # rest) s = (Ended (Inl (pe_protocol pe e)), [], s)"
| "plugin_loop pe answer ((Inr Shutdown, sent) # rest) s = (Ended (Inr ()), [], s)"
| "plugin_loop pe answer ((Inr (Welcome v), sent) # rest) s =
     (Ended (Inl (pe_unexpected pe (lit ''received a second welcome after readiness''))), [], s)"
| "plugin_loop pe answer ((Inr (Invoke r), sent) # rest) s =
     (case answer r s of
        (Panics, s1) \<Rightarrow> (Panicked, [], s1)
      | (Ends e, s1) \<Rightarrow> (Ended (Inl e), [], s1)
      | (Sends m, s1) \<Rightarrow>
          (case sent of
             Inl e \<Rightarrow> (Ended (Inl (pe_protocol pe e)), [], s1)
           | Inr _ \<Rightarrow> (case plugin_loop pe answer rest s1 of (w, ms, s2) \<Rightarrow> (w, m # ms, s2))))"

text \<open>The capabilities are checked in order, then the plugin connects.\<close>

fun plugin_capabilities :: "(rstring \<times> u32) list \<Rightarrow> (capability_error, capability list) res" where
  "plugin_capabilities [] = Inr []"
| "plugin_capabilities ((i, v) # xs) =
     res_bind (capability_new i v) (\<lambda>c. res_bind (plugin_capabilities xs) (\<lambda>cs. Inr (c # cs)))"

definition run_plugin ::
  "'e plugin_errors \<Rightarrow> (rstring \<times> u32) list \<Rightarrow> (capability list \<Rightarrow> (protocol_error, unit) res) \<Rightarrow>
   ('v invocation_request \<Rightarrow> 's \<Rightarrow> ('v, 'e) reply \<times> 's) \<Rightarrow> 'v script \<Rightarrow> 's \<Rightarrow>
   'e plugin_end \<times> 'v plugin_message list \<times> 's" where
  "run_plugin pe declared connect answer script s =
     (case plugin_capabilities declared of
        Inl e \<Rightarrow> (Ended (Inl (pe_capability pe e)), [], s)
      | Inr caps \<Rightarrow>
          (case connect caps of
             Inl e \<Rightarrow> (Ended (Inl (pe_protocol pe e)), [], s)
           | Inr _ \<Rightarrow> plugin_loop pe answer script s))"

section \<open>The order of the answers\<close>

fun answers :: "u64 \<Rightarrow> 'v plugin_message \<Rightarrow> bool" where
  "answers i (InvocationCompleted r) = (is_request_id r = i)"
| "answers i (InvocationFailed j code message retry) = (j = i)"
| "answers i m = False"

text \<open>The requests the process receives before anything else ends it.\<close>

fun requests :: "'v script \<Rightarrow> 'v invocation_request list" where
  "requests ((Inr (Invoke r), sent) # rest) = r # requests rest"
| "requests script = []"

locale answering =
  fixes answer :: "'v invocation_request \<Rightarrow> 's \<Rightarrow> ('v, 'e) reply \<times> 's"
  assumes answer_id: "answer r s = (Sends m, s') \<Longrightarrow> answers (ir_request_id r) m"
begin

lemma loop_in_order:
  "plugin_loop pe answer script s = (w, ms, s') \<Longrightarrow>
   list_all2 (\<lambda>r m. answers (ir_request_id r) m) (take (length ms) (requests script)) ms \<and>
   (w = Waiting \<or> w = Ended (Inr ()) \<longrightarrow> length ms = length (requests script))"
proof (induction script arbitrary: s w ms s')
  case Nil
  then show ?case by simp
next
  case (Cons x rest)
  obtain got sent where x: "x = (got, sent)" by fastforce
  show ?case
  proof (cases "\<exists>r. got = Inr (Invoke r)")
    case False
    then show ?thesis using Cons.prems unfolding x by (cases got rule: sum.exhaust; cases "projr got") auto
  next
    case True
    then obtain r where r: "got = Inr (Invoke r)" by blast
    obtain y s1 where y: "answer r s = (y, s1)" by fastforce
    show ?thesis
      using Cons.prems answer_id y unfolding x r
      by (auto split: reply.splits sum.splits prod.splits dest!: Cons.IH)
  qed
qed

lemma run_in_order:
  "run_plugin pe declared connect answer script s = (w, ms, s') \<Longrightarrow>
   list_all2 (\<lambda>r m. answers (ir_request_id r) m) (take (length ms) (requests script)) ms"
  by (auto simp: run_plugin_def split: sum.splits dest: loop_in_order)

end

lemma typed_call_id:
  "typed_call failed from_value operation to_value r s = (Inr x, s') \<Longrightarrow> is_request_id x = ir_request_id r"
  by (auto simp: typed_call_def act_bind_def lift_res_def response_encode_def split: prod.splits sum.splits)

lemma answer_request_id:
  assumes "\<And>r call s x s'. dispatch r = Some call \<Longrightarrow> call s = (Inr x, s') \<Longrightarrow> is_request_id x = ir_request_id r"
  shows "answering (answer_request t dispatch)"
  by unfold_locales
    (use assms in \<open>fastforce simp: answer_request_def send_failure_def Let_def split: if_splits option.splits prod.splits sum.splits\<close>)

lemma response_encode_id: "response_encode to_value i x = Inr r \<Longrightarrow> is_request_id r = i"
  by (auto simp: response_encode_def)

lemma answer_single_id:
  "answering (answer_single failed capability version operation name from_value perform to_value)"
  by unfold_locales
    (fastforce simp: answer_single_def send_failure_def Let_def dest: response_encode_id
      split: if_splits prod.splits sum.splits)

end
