(* ===== verification/Utf8.thy ===== *)
theory Utf8
  imports Rust_Std
begin

text \<open>
  Strings as bytes: \<open>as_bytes\<close>, \<open>String::from_utf8\<close>, slices at byte offsets (which panic off a character
  boundary) and \<open>u8::from_str_radix(_, 16)\<close>, as far as the stores use them, and the stable
  \<open>sort_by\<close> of their listings.
\<close>

section \<open>Encoding\<close>

definition is_scalar :: "rchar \<Rightarrow> bool" where
  "is_scalar c \<longleftrightarrow> c < 0xD800 \<or> (0xE000 \<le> c \<and> c < 0x110000)"

definition encode_scalar :: "rchar \<Rightarrow> nat list" where
  "encode_scalar c =
     (if c < 0x80 then [c]
      else if c < 0x800 then [0xC0 + c div 64, 0x80 + c mod 64]
      else if c < 0x10000 then [0xE0 + c div 4096, 0x80 + c div 64 mod 64, 0x80 + c mod 64]
      else [0xF0 + c div 262144, 0x80 + c div 4096 mod 64, 0x80 + c div 64 mod 64, 0x80 + c mod 64])"

definition as_bytes :: "rstring \<Rightarrow> u8 list" where
  "as_bytes s = map of_nat (concat (map encode_scalar s))"

definition continues :: "nat \<Rightarrow> bool" where
  "continues b \<longleftrightarrow> 0x80 \<le> b \<and> b < 0xC0"

text \<open>A sequence is accepted if it is the shortest one and encodes a scalar value.\<close>

fun decode_bytes :: "nat list \<Rightarrow> rstring option" where
  "decode_bytes [] = Some []"
| "decode_bytes (a # s) =
     (if a < 0x80 then map_option (Cons a) (decode_bytes s)
      else (case s of
          [] \<Rightarrow> None
        | b # s2 \<Rightarrow>
            if \<not> continues b then None
            else if 0xC2 \<le> a \<and> a < 0xE0
            then map_option (Cons ((a - 0xC0) * 64 + (b - 0x80))) (decode_bytes s2)
            else (case s2 of
                [] \<Rightarrow> None
              | c # s3 \<Rightarrow>
                  if \<not> continues c then None
                  else if 0xE0 \<le> a \<and> a < 0xF0
                  then (let x = (a - 0xE0) * 4096 + (b - 0x80) * 64 + (c - 0x80) in
                        if 0x800 \<le> x \<and> is_scalar x then map_option (Cons x) (decode_bytes s3) else None)
                  else (case s3 of
                      [] \<Rightarrow> None
                    | d # s4 \<Rightarrow>
                        if \<not> continues d \<or> a < 0xF0 then None
                        else (let x = (a - 0xF0) * 262144 + (b - 0x80) * 4096 + (c - 0x80) * 64 + (d - 0x80) in
                              if 0x10000 \<le> x \<and> is_scalar x then map_option (Cons x) (decode_bytes s4) else None)))))"

definition from_utf8 :: "u8 list \<Rightarrow> rstring option" where
  "from_utf8 bs = decode_bytes (map unat bs)"

lemma decode_two:
  "continues b \<Longrightarrow> 0xC2 \<le> a \<Longrightarrow> a < 0xE0 \<Longrightarrow> x = (a - 0xC0) * 64 + (b - 0x80) \<Longrightarrow>
   decode_bytes (a # b # s) = map_option (Cons x) (decode_bytes s)"
  by simp

lemma decode_three:
  "continues b \<Longrightarrow> continues c \<Longrightarrow> 0xE0 \<le> a \<Longrightarrow> a < 0xF0 \<Longrightarrow>
   x = (a - 0xE0) * 4096 + (b - 0x80) * 64 + (c - 0x80) \<Longrightarrow> 0x800 \<le> x \<Longrightarrow> is_scalar x \<Longrightarrow>
   decode_bytes (a # b # c # s) = map_option (Cons x) (decode_bytes s)"
  by (simp add: Let_def)

lemma decode_four:
  "continues b \<Longrightarrow> continues c \<Longrightarrow> continues d \<Longrightarrow> 0xF0 \<le> a \<Longrightarrow>
   x = (a - 0xF0) * 262144 + (b - 0x80) * 4096 + (c - 0x80) * 64 + (d - 0x80) \<Longrightarrow> 0x10000 \<le> x \<Longrightarrow> is_scalar x \<Longrightarrow>
   decode_bytes (a # b # c # d # s) = map_option (Cons x) (decode_bytes s)"
  by (simp add: Let_def)

lemma decode_encode_scalar:
  "is_scalar c \<Longrightarrow> decode_bytes (encode_scalar c @ s) = map_option (Cons c) (decode_bytes s)"
proof -
  assume c: "is_scalar c"
  have e: "c div 4096 = c div 64 div 64" "c div 262144 = c div 64 div 64 div 64"
    by (simp_all add: div_mult2_eq [symmetric])
  note parts = div_mult_mod_eq [of c 64] div_mult_mod_eq [of "c div 64" 64] div_mult_mod_eq [of "c div 64 div 64" 64]
  have d2: "(c div 64) * 64 + c mod 64 = c"
    and d3: "(c div 4096) * 4096 + (c div 64 mod 64) * 64 + c mod 64 = c"
    and d4: "(c div 262144) * 262144 + (c div 4096 mod 64) * 4096 + (c div 64 mod 64) * 64 + c mod 64 = c"
    unfolding e using parts by linarith+
  consider "c < 0x80" | "0x80 \<le> c" "c < 0x800" | "0x800 \<le> c" "c < 0x10000" | "0x10000 \<le> c" "c < 0x110000"
    using c by (force simp: is_scalar_def)
  then show ?thesis
  proof cases
    case 1
    then show ?thesis by (simp add: encode_scalar_def)
  next
    case 2
    then have "2 \<le> c div 64" "c div 64 < 32" by linarith+
    then have "decode_bytes ((0xC0 + c div 64) # (0x80 + c mod 64) # s) = map_option (Cons c) (decode_bytes s)"
      using d2 by (intro decode_two) (simp_all add: continues_def)
    then show ?thesis using 2 by (simp add: encode_scalar_def del: decode_bytes.simps)
  next
    case 3
    then have "c div 4096 < 16" by linarith
    then have "decode_bytes ((0xE0 + c div 4096) # (0x80 + c div 64 mod 64) # (0x80 + c mod 64) # s) =
        map_option (Cons c) (decode_bytes s)"
      using d3 c 3 by (intro decode_three) (simp_all add: continues_def)
    then show ?thesis using 3 by (simp add: encode_scalar_def del: decode_bytes.simps)
  next
    case 4
    then have "decode_bytes ((0xF0 + c div 262144) # (0x80 + c div 4096 mod 64) # (0x80 + c div 64 mod 64) #
        (0x80 + c mod 64) # s) = map_option (Cons c) (decode_bytes s)"
      using d4 c by (intro decode_four) (simp_all add: continues_def)
    then show ?thesis using 4 by (simp add: encode_scalar_def del: decode_bytes.simps)
  qed
qed

lemma from_utf8_as_bytes:
  assumes "\<forall>c \<in> set s. is_scalar c"
  shows "from_utf8 (as_bytes s) = Some s"
proof -
  have small: "unat (of_nat b :: u8) = b" if "b \<in> set (encode_scalar c)" "is_scalar c" for b c
    using that by (auto simp: encode_scalar_def is_scalar_def unat_of_nat take_bit_nat_eq_self split: if_splits)
  then have "map unat (as_bytes s) = concat (map encode_scalar s)"
    using assms unfolding as_bytes_def map_map by (intro map_idI) auto
  moreover have "decode_bytes (concat (map encode_scalar s)) = Some s"
    using assms by (induction s) (simp_all add: decode_encode_scalar del: decode_bytes.simps(2))
  ultimately show ?thesis by (simp add: from_utf8_def)
qed

section \<open>Slices and hexadecimal\<close>

definition str_slice :: "rstring \<Rightarrow> nat \<Rightarrow> nat \<Rightarrow> rstring option" where
  "str_slice s i j =
     (if i \<le> j \<and> is_char_boundary s i \<and> is_char_boundary s j
      then Some (map snd (filter (\<lambda>(k, c). i \<le> k \<and> k < j) (char_indices s))) else None)"

definition hex_digit :: "rchar \<Rightarrow> nat option" where
  "hex_digit c =
     (if is_ascii_digit c then Some (c - 48)
      else if 97 \<le> c \<and> c \<le> 102 then Some (c - 87)
      else if 65 \<le> c \<and> c \<le> 70 then Some (c - 55)
      else None)"

fun hex_digits :: "nat \<Rightarrow> rstring \<Rightarrow> nat option" where
  "hex_digits n [] = Some n"
| "hex_digits n (c # s) = (case hex_digit c of None \<Rightarrow> None | Some d \<Rightarrow> hex_digits (16 * n + d) s)"

text \<open>\<open>from_str_radix\<close> of an unsigned type: an optional plus sign, at least one digit, no overflow.\<close>

definition u8_from_hex :: "rstring \<Rightarrow> u8 option" where
  "u8_from_hex s =
     (let digits = (case s of c # r \<Rightarrow> if c = 43 then r else s | [] \<Rightarrow> []) in
      if digits = [] then None
      else (case hex_digits 0 digits of Some n \<Rightarrow> if n < 256 then Some (of_nat n) else None | None \<Rightarrow> None))"

definition hex_char :: "nat \<Rightarrow> rchar" where
  "hex_char d = (if d < 10 then 48 + d else 87 + d)"

definition show_hex :: "nat \<Rightarrow> nat \<Rightarrow> rstring" where
  "show_hex width n = map (\<lambda>k. hex_char (n div 16 ^ k mod 16)) (rev [0..<width])"

text \<open>An ASCII string is sliced like a list, and its bytes are its characters.\<close>

lemma slice_middle: "str_slice (u @ v @ w) (str_len u) (str_len (u @ v)) = Some v"
proof -
  have u: "filter (\<lambda>(k, c). str_len u \<le> k \<and> k < str_len (u @ v)) (char_indices_from 0 u) = []"
    by (rule filter_False) (auto dest: char_indices_from_bound)
  have v: "filter (\<lambda>(k, c). str_len u \<le> k \<and> k < str_len (u @ v)) (char_indices_from (str_len u) v)
      = char_indices_from (str_len u) v"
    by (rule filter_True) (auto dest: char_indices_from_bound)
  have w: "filter (\<lambda>(k, c). str_len u \<le> k \<and> k < str_len (u @ v)) (char_indices_from (str_len (u @ v)) w) = []"
    by (rule filter_False) (auto dest: char_indices_from_bound)
  have "is_char_boundary (u @ v @ w) (str_len u)" "is_char_boundary ((u @ v) @ w) (str_len (u @ v))"
    by (rule is_char_boundary_append)+
  then show ?thesis
    using u v w
    by (simp add: str_slice_def char_indices_def char_indices_from_append snd_char_indices_from add.assoc)
qed

lemma ascii_slice:
  assumes "\<forall>c \<in> set s. is_ascii c" "i \<le> j" "j \<le> length s"
  shows "str_slice s i j = Some (take (j - i) (drop i s))"
proof -
  let ?u = "take i s" and ?v = "take (j - i) (drop i s)" and ?w = "drop j s"
  have s: "s = ?u @ ?v @ ?w"
    using assms(2) by (metis append_take_drop_id drop_drop le_add_diff_inverse2)
  have "\<forall>c \<in> set ?u. c < 128" "\<forall>c \<in> set ?v. c < 128"
    using assms(1) by (auto simp: is_ascii_def dest: in_set_takeD in_set_dropD)
  then have "str_len ?u = i" "str_len (?u @ ?v) = j"
    using assms(2,3) by (simp_all add: ascii_len)
  then show ?thesis using slice_middle [of ?u ?v ?w] s by metis
qed

lemma as_bytes_ascii: "\<forall>c \<in> set s. is_ascii c \<Longrightarrow> as_bytes s = map of_nat s"
  by (induction s) (auto simp: as_bytes_def encode_scalar_def is_ascii_def)

lemma from_utf8_ascii: "\<forall>c \<in> set s. is_ascii c \<Longrightarrow> from_utf8 (as_bytes s) = Some s"
  by (rule from_utf8_as_bytes) (auto simp: is_ascii_def is_scalar_def)

lemma trim_no_space: "\<forall>c \<in> set s. \<not> is_whitespace c \<Longrightarrow> trim s = s"
proof -
  have gen: "dropWhile is_whitespace t = t" if "\<forall>c \<in> set t. \<not> is_whitespace c" for t
    using that by (cases t) auto
  show "\<forall>c \<in> set s. \<not> is_whitespace c \<Longrightarrow> trim s = s" by (simp add: trim_def gen)
qed

lemma hex_digit_char: "d < 16 \<Longrightarrow> hex_digit (hex_char d) = Some d"
  by (auto simp: hex_digit_def hex_char_def is_ascii_digit_def)

lemma show_hex_two: "show_hex 2 n = [hex_char (n div 16 mod 16), hex_char (n mod 16)]"
  by (simp add: show_hex_def upt_rec)

lemma hex_char_plain: "is_ascii (hex_char (d mod 16))" "\<not> is_whitespace (hex_char (d mod 16))"
proof -
  have "d mod 16 < 16" by simp
  then show "is_ascii (hex_char (d mod 16))" "\<not> is_whitespace (hex_char (d mod 16))"
    by (auto simp: hex_char_def is_ascii_def is_whitespace_def)
qed

lemma u8_from_show_hex: "u8_from_hex (show_hex 2 (unat b)) = Some b" for b :: u8
proof -
  have b: "unat b < 256" using unsigned_less [of b] by simp
  then have "16 * (unat b div 16 mod 16) + unat b mod 16 = unat b" by simp
  moreover have "hex_char (unat b div 16 mod 16) \<noteq> 43" by (simp add: hex_char_def)
  ultimately show ?thesis
    using b by (simp add: show_hex_two u8_from_hex_def hex_digit_char Let_def)
qed

section \<open>Sorting\<close>

fun insort_by :: "('a \<Rightarrow> 'a \<Rightarrow> bool) \<Rightarrow> 'a \<Rightarrow> 'a list \<Rightarrow> 'a list" where
  "insort_by le x [] = [x]"
| "insort_by le x (y # ys) = (if le x y then x # y # ys else y # insort_by le x ys)"

definition sort_by :: "('a \<Rightarrow> 'a \<Rightarrow> bool) \<Rightarrow> 'a list \<Rightarrow> 'a list" where
  "sort_by le xs = foldr (insort_by le) xs []"

lemma set_insort_by [simp]: "set (insort_by le x xs) = insert x (set xs)"
  by (induction xs) auto

lemma set_sort_by [simp]: "set (sort_by le xs) = set xs"
  unfolding sort_by_def by (induction xs) auto

lemma length_insort_by [simp]: "length (insort_by le x xs) = Suc (length xs)"
  by (induction xs) auto

lemma length_sort_by [simp]: "length (sort_by le xs) = length xs"
  unfolding sort_by_def by (induction xs) auto

lemma sorted_insort_by:
  assumes "\<And>x y. le x y \<or> le y x" "\<And>x y z. le x y \<Longrightarrow> le y z \<Longrightarrow> le x z"
  shows "sorted_wrt le xs \<Longrightarrow> sorted_wrt le (insort_by le x xs)"
proof (induction xs)
  case (Cons y ys)
  then have ys: "sorted_wrt le (insort_by le x ys)" "\<forall>z \<in> set ys. le y z" "sorted_wrt le ys" by simp_all
  show ?case
  proof (cases "le x y")
    case True
    then have "\<forall>z \<in> set ys. le x z" using ys(2) assms(2) by blast
    then show ?thesis using True ys by simp
  next
    case False
    then show ?thesis using ys assms(1) [of x y] by simp
  qed
qed simp

lemma sorted_sort_by:
  assumes "\<And>x y. le x y \<or> le y x" "\<And>x y z. le x y \<Longrightarrow> le y z \<Longrightarrow> le x z"
  shows "sorted_wrt le (sort_by le xs)"
  unfolding sort_by_def by (induction xs) (simp_all add: sorted_insort_by [OF assms])

end
