(* ===== verification/Store_Plugin.thy ===== *)
theory Store_Plugin
  imports Plugin_Loop Durable_Json Utf8
begin

text \<open>
  What the store plugins share: reading a directory, whose entries come in an order (and with failures)
  the platform chooses, reading a file as text, appending to a file, and showing paths and operating system
  errors.
\<close>

section \<open>Directories\<close>

type_synonym dir_listing = "files \<Rightarrow> path \<Rightarrow> (rstring, rstring) res list"

definition fs_read_dir :: "dir_listing \<Rightarrow> path \<Rightarrow> ('w disk_scheme, io_error, (rstring, rstring) res list) act" where
  "fs_read_dir ls p = sys_call (\<lambda>f. case f p of
     None \<Rightarrow> Inl IoNotFound
   | Some (FileNode c) \<Rightarrow> Inl (IoOther (lit ''not a directory''))
   | Some DirNode \<Rightarrow> Inr (None, ls f p))"

text \<open>A listing names every entry of the directory, in some order.\<close>

definition lists_all :: "dir_listing \<Rightarrow> path \<Rightarrow> files \<Rightarrow> bool" where
  "lists_all ls p f \<longleftrightarrow>
     (\<exists>names. ls f p = map Inr names \<and> distinct names \<and> (\<forall>n. n \<in> set names \<longleftrightarrow> f (p @ [n]) \<noteq> None))"

definition fs_is_dir :: "path \<Rightarrow> ('w disk_scheme, 'e, bool) act" where
  "fs_is_dir p d = (case fs_metadata p d of (r, d') \<Rightarrow> (Inr (r = Inr DirNode), d'))"

lemma wp_read_dir [wp_rules]:
  "(\<And>e. Q (Inl e) f) \<Longrightarrow> (f p = Some DirNode \<Longrightarrow> Q (Inr (ls f p)) f) \<Longrightarrow> wp I (fs_read_dir ls p) Q f"
  unfolding fs_read_dir_def by (rule wp_sys_call) (auto split: option.splits node.splits)

text \<open>A call followed by a choice on its answer, whatever the answer is.\<close>

lemma wp_either:
  fixes m :: "('w disk_scheme, 'e, 'a) act" and k :: "('e, 'a) res \<Rightarrow> ('w disk_scheme, 'e1, 'b) act"
  assumes "wp I m (\<lambda>r g. wp I (k r) Q g) f" and eq: "\<And>d. n d = (case m d of (r, d') \<Rightarrow> k r d')"
  shows "wp I n Q f"
  unfolding wp_def
proof (intro allI impI)
  fix d :: "'w disk_scheme"
  assume d: "dk_files d = f"
  obtain r d1 where m: "m d = (r, d1)" by fastforce
  have "passes I d d1 \<and> wp I (k r) Q (dk_files d1)"
    using assms(1) [unfolded wp_def [of I m], rule_format, OF d] unfolding m fst_conv snd_conv by simp
  then show "passes I d (snd (n d)) \<and> Q (fst (n d)) (dk_files (snd (n d)))"
    using m eq [of d] by (auto simp: wp_def intro: passes_trans)
qed

lemma wp_is_dir [wp_rules]:
  assumes "\<And>b. Q (Inr b) f"
  shows "wp I (fs_is_dir p) Q f"
proof -
  have "wp I (fs_metadata p) (\<lambda>r g. Q (Inr (r = Inr DirNode)) g) f"
    by (rule wp_metadata) (use assms in auto)
  then show ?thesis by (auto simp: wp_def fs_is_dir_def split: prod.splits)
qed

section \<open>Text files and appending\<close>

definition fs_read_to_string :: "path \<Rightarrow> ('w disk_scheme, io_error, rstring) act" where
  "fs_read_to_string p = act_bind (fs_read p) (\<lambda>content.
     case from_utf8 content of
       None \<Rightarrow> throw (IoOther (lit ''stream did not contain valid UTF-8'')) | Some s \<Rightarrow> ret s)"

text \<open>Opening for appending creates the file; a torn append leaves a first part of what was to be written.\<close>

definition fs_open_append :: "path \<Rightarrow> ('w disk_scheme, io_error, unit) act" where
  "fs_open_append p = sys_call (\<lambda>f. case f p of
     None \<Rightarrow> Inr (Some (f(p \<mapsto> FileNode [])), ())
   | Some DirNode \<Rightarrow> Inl (IoOther (lit ''is a directory''))
   | Some (FileNode c) \<Rightarrow> Inr (None, ()))"

fun file_bytes :: "node option \<Rightarrow> u8 list" where
  "file_bytes (Some (FileNode c)) = c"
| "file_bytes n = []"

definition fs_append_all :: "path \<Rightarrow> u8 list \<Rightarrow> ('w disk_scheme, io_error, unit) act" where
  "fs_append_all p c d =
     (let put = (\<lambda>more d'. put_files ((dk_files d')(p \<mapsto> FileNode (file_bytes (dk_files d' p) @ more))) d') in
      case next_answer d of
        (Granted, d') \<Rightarrow> (Inr (), put c d')
      | (Refused m, d') \<Rightarrow> (Inl (IoOther m), d')
      | (Torn c' m, d') \<Rightarrow> (Inl (IoOther m), put (take (length c') c) d'))"

lemma wp_open_append [wp_rules]:
  assumes "\<And>e. Q (Inl e) f"
    and "f p = None \<Longrightarrow> I (f(p \<mapsto> FileNode [])) \<and> Q (Inr ()) (f(p \<mapsto> FileNode []))"
    and "\<And>c. f p = Some (FileNode c) \<Longrightarrow> Q (Inr ()) f"
  shows "wp I (fs_open_append p) Q f"
  unfolding fs_open_append_def by (rule wp_sys_call) (use assms in \<open>auto split: option.splits node.splits\<close>)

lemma wp_append_all [wp_rules]:
  assumes "\<And>e. Q (Inl e) f"
    and "\<And>n e. Q (Inl e) (f(p \<mapsto> FileNode (file_bytes (f p) @ take n c)))"
    and "\<And>n. I (f(p \<mapsto> FileNode (file_bytes (f p) @ take n c)))"
    and "Q (Inr ()) (f(p \<mapsto> FileNode (file_bytes (f p) @ c)))"
  shows "wp I (fs_append_all p c) Q f"
  unfolding wp_def
proof (intro allI impI)
  fix d
  assume d: "dk_files d = f"
  obtain a d1 where n: "next_answer d = (a, d1)" by fastforce
  have f: "dk_files d1 = f" "passes I d d1" using next_answer_frame [OF n] d by auto
  have torn: "passes I d (put_files (f(p \<mapsto> FileNode (file_bytes (f p) @ take k c))) d1)" for k
    using f(2) assms(3) by (blast intro: passes_trans passes_put)
  have "passes I d (put_files (f(p \<mapsto> FileNode (file_bytes (f p) @ c))) d1)" using torn [of "length c"] by simp
  then show "passes I d (snd (fs_append_all p c d)) \<and> Q (fst (fs_append_all p c d)) (dk_files (snd (fs_append_all p c d)))"
    using n f assms torn by (cases a) (auto simp: fs_append_all_def)
qed

lemma wp_read_to_string [wp_rules]:
  assumes "\<And>e. Q (Inl e) f" "\<And>c s. f p = Some (FileNode c) \<Longrightarrow> from_utf8 c = Some s \<Longrightarrow> Q (Inr s) f"
  shows "wp I (fs_read_to_string p) Q f"
  unfolding fs_read_to_string_def using assms by (auto intro!: wp_rules split: option.splits)

section \<open>A disk that serves every call\<close>

definition serving :: "'w disk_scheme \<Rightarrow> bool" where
  "serving d \<longleftrightarrow> dk_answers d = []"

lemma serving_put [simp]: "serving (put_files f d) = serving d"
  by (simp add: serving_def put_files_def)

lemma serving_call:
  "serving d \<Longrightarrow> sys_call c d =
     (case c (dk_files d) of
        Inl e \<Rightarrow> (Inl e, d) | Inr (None, x) \<Rightarrow> (Inr x, d) | Inr (Some g, x) \<Rightarrow> (Inr x, put_files g d))"
  by (simp add: serving_def sys_call_def next_answer_def)

lemma serving_exists [simp]: "serving d \<Longrightarrow> fs_exists p d = (Inr (dk_files d p \<noteq> None), d)"
  by (auto simp: fs_exists_def fs_metadata_def serving_call is_ok_def split: option.splits)

lemma serving_metadata: "serving d \<Longrightarrow>
  fs_metadata p d = ((case dk_files d p of None \<Rightarrow> Inl IoNotFound | Some n \<Rightarrow> Inr n), d)"
  by (auto simp: fs_metadata_def serving_call split: option.splits)

lemma serving_read: "serving d \<Longrightarrow>
  fs_read p d = ((case dk_files d p of None \<Rightarrow> Inl IoNotFound
     | Some DirNode \<Rightarrow> Inl (IoOther (lit ''is a directory'')) | Some (FileNode c) \<Rightarrow> Inr c), d)"
  by (auto simp: fs_read_def serving_call split: option.splits node.splits)

lemma serving_open_append: "serving d \<Longrightarrow> dk_files d p \<noteq> Some DirNode \<Longrightarrow>
  fs_open_append p d = (Inr (), if dk_files d p = None then put_files ((dk_files d)(p \<mapsto> FileNode [])) d else d)"
  by (auto simp: fs_open_append_def serving_call split: option.splits node.splits)

lemma serving_append_all: "serving d \<Longrightarrow>
  fs_append_all p c d = (Inr (), put_files ((dk_files d)(p \<mapsto> FileNode (file_bytes (dk_files d p) @ c))) d)"
  by (simp add: serving_def fs_append_all_def next_answer_def)

lemma serving_write [simp]:
  "serving d \<Longrightarrow> fs_write_all p c d = (Inr (), put_files ((dk_files d)(p \<mapsto> FileNode c)) d)"
  by (simp add: serving_def fs_write_all_def next_answer_def)

lemma serving_sync [simp]: "serving d \<Longrightarrow> fs_sync d = (Inr (), d)"
  by (simp add: fs_sync_def serving_call)

lemma serving_create [simp]:
  "serving d \<Longrightarrow> dk_files d p = None \<Longrightarrow> fs_create_new p d = (Inr (), put_files ((dk_files d)(p \<mapsto> FileNode [])) d)"
  by (simp add: fs_create_new_def serving_call)

lemma serving_remove [simp]:
  "serving d \<Longrightarrow> dk_files d p = Some (FileNode c) \<Longrightarrow> fs_remove_file p d = (Inr (), put_files ((dk_files d)(p := None)) d)"
  by (simp add: fs_remove_file_def serving_call)

lemma serving_rename [simp]:
  "serving d \<Longrightarrow> dk_files d a = Some n \<Longrightarrow> dk_files d b \<noteq> Some DirNode \<Longrightarrow> a \<noteq> b \<Longrightarrow>
   fs_rename a b d = (Inr (), put_files ((dk_files d)(a := None, b \<mapsto> n)) d)"
  by (simp add: fs_rename_def serving_call)

text \<open>Replacing an existing file passes through a moment at which only its backup exists.\<close>

lemma serving_swap_gap:
  assumes "serving d" "target \<noteq> backup" "temporary \<noteq> target" "temporary \<noteq> backup"
    and "dk_files d temporary = None" "dk_files d target = Some (FileNode c)" "dk_files d backup = None"
  shows "\<exists>d'. swap_file target temporary backup content d = (Inr (), d') \<and> serving d' \<and>
    dk_files d' = (dk_files d)(target \<mapsto> FileNode content) \<and>
    (dk_files d)(temporary \<mapsto> FileNode content, target := None, backup \<mapsto> FileNode c) \<in> moments d d'"
proof -
  define d1 where "d1 = put_files ((dk_files d)(temporary \<mapsto> FileNode [])) d"
  define d2 where "d2 = put_files ((dk_files d1)(temporary \<mapsto> FileNode content)) d1"
  define d3 where "d3 = put_files ((dk_files d2)(target := None, backup \<mapsto> FileNode c)) d2"
  define d4 where "d4 = put_files ((dk_files d3)(temporary := None, target \<mapsto> FileNode content)) d3"
  define d5 where "d5 = put_files ((dk_files d4)(backup := None)) d4"
  note ds = d1_def d2_def d3_def d4_def d5_def
  have "swap_file target temporary backup content d = (Inr (), d5)"
    using assms unfolding swap_file_def write_temporary_def set_aside_def move_in_def at_path_def ignoring_def
    by (simp add: act_then_def act_bind_def ret_def ds)
  moreover have "dk_files d5 = (dk_files d)(target \<mapsto> FileNode content)"
    using assms by (auto simp: ds fun_eq_iff)
  moreover have "dk_files d3 = (dk_files d)(temporary \<mapsto> FileNode content, target := None, backup \<mapsto> FileNode c)"
    by (simp add: ds)
  moreover have "dk_files d3 \<in> moments d d5" by (simp add: moments_def ds)
  ultimately show ?thesis using assms(1) by (auto simp: ds)
qed

lemma serving_directories:
  "serving d \<Longrightarrow> \<forall>q \<in> set (prefixes p). \<not> is_file (dk_files d q) \<Longrightarrow>
   fs_create_dir_all p d = (Inr (), put_files (with_directories p (dk_files d)) d)"
  by (auto simp: fs_create_dir_all_def serving_call with_directories_def)

lemma serving_swap_new:
  assumes "serving d" "target \<noteq> backup" "temporary \<noteq> target" "temporary \<noteq> backup"
    and "dk_files d temporary = None" "dk_files d target = None" "dk_files d backup = None"
  shows "\<exists>d'. swap_file target temporary backup content d = (Inr (), d') \<and>
    dk_files d' = (dk_files d)(target \<mapsto> FileNode content)"
  using assms unfolding swap_file_def write_temporary_def set_aside_def move_in_def at_path_def ignoring_def
  by (auto simp: act_then_def act_bind_def ret_def fun_eq_iff)

lemma serving_sys_nanos: "\<exists>t d1. sys_nanos d = (Inr t, d1) \<and> dk_files d1 = dk_files d \<and> dk_past d1 = dk_past d \<and> (serving d \<longrightarrow> serving d1)"
  by (auto simp: sys_nanos_def serving_def split: list.splits)

section \<open>Display\<close>

record platform_display =
  pd_path :: "path \<Rightarrow> rstring"
  pd_io :: "io_error \<Rightarrow> rstring"

end
