(* ===== verification/Mailbox.thy ===== *)
theory Mailbox
  imports Store_Plugin Utf8
begin

text \<open>
  The encrypted companion mailbox: the requests and results of \<open>yunxi-protocol/src/mailbox.rs\<close>, the
  store of \<open>yunxi-companion-mailbox/src/store.rs\<close> (one encrypted item per file, an idempotency key
  whose hash names the item, a data key kept in a file) and the dispatch of \<open>plugin.rs\<close>. The cipher, the
  base64 codec, serde, the random bytes and the process environment are arguments.
\<close>

unbundle bit_operations_syntax

section \<open>Requests and results\<close>

datatype mailbox_item_kind = ProactiveMessage | LoveLetter | Reminder

record mailbox_enqueue_request =
  eq_grant :: workspace_grant
  eq_kind :: mailbox_item_kind
  eq_subject :: rstring
  eq_content :: rstring
  eq_reason :: rstring
  eq_idempotency_key :: rstring

record mailbox_summary =
  my_id :: rstring
  my_kind :: mailbox_item_kind
  my_subject :: rstring
  my_reason :: rstring
  my_read :: bool
  my_created_at :: u128

record mailbox_entry =
  me_summary :: mailbox_summary
  me_content :: rstring

record mailbox_list_request =
  lq_grant :: workspace_grant
  lq_limit :: nat
  lq_unread_only :: bool

definition mailbox_list_request_new :: "workspace_grant \<Rightarrow> mailbox_list_request" where
  "mailbox_list_request_new g = \<lparr>lq_grant = g, lq_limit = 50, lq_unread_only = False\<rparr>"

definition list_with_limit :: "nat \<Rightarrow> mailbox_list_request \<Rightarrow> mailbox_list_request" where
  "list_with_limit n q = q\<lparr>lq_limit := n\<rparr>"

definition list_unread_only :: "bool \<Rightarrow> mailbox_list_request \<Rightarrow> mailbox_list_request" where
  "list_unread_only b q = q\<lparr>lq_unread_only := b\<rparr>"

record mailbox_list_result =
  lr_items :: "mailbox_summary list"
  lr_unread_count :: nat
  lr_warnings :: "rstring list"
  lr_truncated :: bool

record mailbox_get_request =
  gq_grant :: workspace_grant
  gq_item_id :: rstring

record mailbox_get_result =
  gr_entry :: "mailbox_entry option"
  gr_warnings :: "rstring list"

record mailbox_mark_request =
  kq_grant :: workspace_grant
  kq_item_id :: rstring
  kq_read :: bool

record mailbox_mutation_result =
  mu_item :: "mailbox_summary option"
  mu_created :: bool
  mu_warnings :: "rstring list"

section \<open>Errors\<close>

definition MAILBOX_SCHEMA_VERSION :: u32 where "MAILBOX_SCHEMA_VERSION = 1"
definition MAX_ITEM_FILE_BYTES :: nat where "MAX_ITEM_FILE_BYTES = 256 * 1024"
definition MAX_CONTENT_CHARS :: nat where "MAX_CONTENT_CHARS = 64 * 1024"
definition MAX_SUBJECT_CHARS :: nat where "MAX_SUBJECT_CHARS = 200"
definition MAX_REASON_CHARS :: nat where "MAX_REASON_CHARS = 500"
definition MAX_IDEMPOTENCY_CHARS :: nat where "MAX_IDEMPOTENCY_CHARS = 256"
definition MAX_SCANNED_ITEMS :: nat where "MAX_SCANNED_ITEMS = 2000"
definition MAX_LIST_LIMIT :: nat where "MAX_LIST_LIMIT = 200"
definition NONCE_BYTES :: nat where "NONCE_BYTES = 12"

text \<open>The last constructor is not an error value: a slice off a character boundary panics.\<close>

datatype mailbox_error =
    MbWorkspace path io_error
  | MbNotDirectory path
  | MbWriteNotGranted
  | MbInvalidItem rstring
  | MbItemTooLarge nat
  | MbIdempotencyCollision rstring
  | MbIo path io_error
  | MbSerialize rstring
  | MbCrypto rstring
  | MbPanic

fun show_mailbox_error :: "platform_display \<Rightarrow> mailbox_error \<Rightarrow> rstring" where
  "show_mailbox_error t (MbWorkspace p e) =
     lit ''failed to resolve workspace '' @ pd_path t p @ lit '': '' @ pd_io t e"
| "show_mailbox_error t (MbNotDirectory p) = lit ''workspace is not a directory: '' @ pd_path t p"
| "show_mailbox_error t MbWriteNotGranted = lit ''mailbox write access was not granted''"
| "show_mailbox_error t (MbInvalidItem m) = m"
| "show_mailbox_error t (MbItemTooLarge n) = lit ''mailbox item exceeds '' @ show_nat n @ lit '' bytes''"
| "show_mailbox_error t (MbIdempotencyCollision k) =
     lit ''mailbox idempotency hash collided with existing key '' @ quoted k"
| "show_mailbox_error t (MbIo p e) = lit ''mailbox I/O failed at '' @ pd_path t p @ lit '': '' @ pd_io t e"
| "show_mailbox_error t (MbSerialize e) = lit ''mailbox serialization failed: '' @ e"
| "show_mailbox_error t (MbCrypto m) = m"
| "show_mailbox_error t MbPanic = lit ''byte index is not a char boundary''"

type_synonym 'a mb_res = "(mailbox_error, 'a) res"
type_synonym 'a mb_act = "(disk, mailbox_error, 'a) act"

definition validate_text :: "rstring \<Rightarrow> rstring \<Rightarrow> nat \<Rightarrow> unit mb_res" where
  "validate_text name value maximum =
     (if blank value \<or> maximum < length value
      then Inl (MbInvalidItem (name @ lit '' must contain 1 to '' @ show_nat maximum @ lit '' characters''))
      else Inr ())"

definition validate_item_id :: "rstring \<Rightarrow> unit mb_res" where
  "validate_item_id i =
     (if i = [] \<or> 64 < str_len i \<or> \<not> (\<forall>c \<in> set i. is_ascii_alphanumeric c \<or> c = 45)
      then Inl (MbInvalidItem (lit ''mailbox item id is invalid'')) else Inr ())"

section \<open>Encrypted items\<close>

record encrypted_item =
  ei_schema_version :: u32
  ei_id :: rstring
  ei_kind :: mailbox_item_kind
  ei_subject :: rstring
  ei_reason :: rstring
  ei_key :: rstring
  ei_read :: bool
  ei_created_at :: u128
  ei_updated_at :: u128
  ei_algorithm :: rstring
  ei_nonce :: rstring
  ei_ciphertext :: rstring

definition item_summary :: "encrypted_item \<Rightarrow> mailbox_summary" where
  "item_summary i = \<lparr>my_id = ei_id i, my_kind = ei_kind i, my_subject = ei_subject i, my_reason = ei_reason i,
     my_read = ei_read i, my_created_at = ei_created_at i\<rparr>"

definition item_aad :: "encrypted_item \<Rightarrow> u8 list" where
  "item_aad i = as_bytes (lit ''yunxi-next-mailbox-v1|'' @ ei_id i @ lit ''|'' @ show_nat (unat (ei_created_at i)))"

definition CIPHER_NAME :: rstring where "CIPHER_NAME = lit ''chacha20poly1305''"

definition validate_item :: "encrypted_item \<Rightarrow> unit mb_res" where
  "validate_item i =
     (if ei_schema_version i \<noteq> MAILBOX_SCHEMA_VERSION
      then Inl (MbInvalidItem (lit ''unsupported mailbox schema_version='' @ show_nat (unat (ei_schema_version i))))
      else res_bind (validate_item_id (ei_id i)) (\<lambda>_.
           res_bind (validate_text (lit ''subject'') (ei_subject i) MAX_SUBJECT_CHARS) (\<lambda>_.
           res_bind (validate_text (lit ''reason'') (ei_reason i) MAX_REASON_CHARS) (\<lambda>_.
           res_bind (validate_text (lit ''idempotency key'') (ei_key i) MAX_IDEMPOTENCY_CHARS) (\<lambda>_.
           if ei_algorithm i \<noteq> CIPHER_NAME
           then Inl (MbInvalidItem (lit ''unsupported mailbox encryption algorithm'')) else Inr ())))))"

definition stable_hash64 :: "u8 list \<Rightarrow> u64" where
  "stable_hash64 value = foldl (\<lambda>hash byte. (hash XOR ucast byte) * 0x100000001b3) 0xcbf29ce484222325 value"

definition item_id_of :: "rstring \<Rightarrow> rstring" where
  "item_id_of key = lit ''mail-'' @ show_hex 16 (unat (stable_hash64 (as_bytes key)))"

section \<open>The store and its environment\<close>

record mailbox_env =
  mb_canonicalize :: "path \<Rightarrow> (io_error, path) res"
  mb_parse :: "u8 list \<Rightarrow> (rstring, encrypted_item) res"
  mb_print :: "encrypted_item \<Rightarrow> (rstring, u8 list) res"
  mb_pid :: nat
  mb_list :: dir_listing
  mb_var :: "rstring \<Rightarrow> rstring option"
  mb_random_key :: "(rstring, u8 list) res"
  mb_random_nonce :: "(rstring, u8 list) res"
  mb_seal :: "u8 list \<Rightarrow> u8 list \<Rightarrow> u8 list \<Rightarrow> u8 list \<Rightarrow> u8 list option"
  mb_open :: "u8 list \<Rightarrow> u8 list \<Rightarrow> u8 list \<Rightarrow> u8 list \<Rightarrow> u8 list option"
  mb_base64 :: "u8 list \<Rightarrow> rstring"
  mb_unbase64 :: "rstring \<Rightarrow> u8 list option"
  mb_show :: platform_display

record mailbox_store =
  ms_root :: path
  ms_writable :: bool

definition mailbox_from_grant :: "mailbox_env \<Rightarrow> workspace_grant \<Rightarrow> mailbox_store mb_act" where
  "mailbox_from_grant env g =
     act_bind (lift_res (map_err (MbWorkspace (wg_root g)) (mb_canonicalize env (wg_root g)))) (\<lambda>workspace.
     act_bind (fs_is_dir workspace) (\<lambda>directory.
     if \<not> directory then throw (MbNotDirectory workspace)
     else ret \<lparr>ms_root = path_join (path_join workspace (lit ''.yunxi-next'')) (lit ''mailbox''),
                ms_writable = wg_next_write g\<rparr>))"

definition mailbox_require_write :: "mailbox_store \<Rightarrow> unit mb_res" where
  "mailbox_require_write st = ensure (ms_writable st) MbWriteNotGranted"

definition read_item :: "mailbox_env \<Rightarrow> path \<Rightarrow> encrypted_item option mb_act" where
  "read_item env p d =
     (case fs_metadata p d of
        (Inl IoNotFound, d1) \<Rightarrow> (Inr None, d1)
      | (Inl e, d1) \<Rightarrow> (Inl (MbIo p e), d1)
      | (Inr n, d1) \<Rightarrow>
          if (case n of FileNode c \<Rightarrow> MAX_ITEM_FILE_BYTES < length c | DirNode \<Rightarrow> False)
          then (Inl (MbItemTooLarge MAX_ITEM_FILE_BYTES), d1)
          else act_bind (act_map_err (MbIo p) (fs_read p)) (\<lambda>content.
            act_bind (lift_res (map_err (\<lambda>e. MbInvalidItem
                (lit ''failed to parse '' @ pd_path (mb_show env) p @ lit '': '' @ e)) (mb_parse env content))) (\<lambda>item.
            act_then (lift_res (validate_item item)) (ret (Some item)))) d1)"

definition is_json :: "path \<Rightarrow> bool" where
  "is_json p \<longleftrightarrow> path_extension p = Some (lit ''json'')"

text \<open>The scan keeps the items it can read and turns every failure into a warning.\<close>

fun scan_items ::
  "mailbox_env \<Rightarrow> path \<Rightarrow> nat \<Rightarrow> (rstring, rstring) res list \<Rightarrow> encrypted_item list \<Rightarrow> rstring list \<Rightarrow>
   (encrypted_item list \<times> rstring list) mb_act" where
  "scan_items env root k [] items warnings d = (Inr (items, warnings), d)"
| "scan_items env root k (x # xs) items warnings d =
     (if MAX_SCANNED_ITEMS \<le> k
      then (Inr (items, warnings @ [lit ''mailbox scan stopped after '' @ show_nat MAX_SCANNED_ITEMS @ lit '' entries'']), d)
      else (case x of
          Inl e \<Rightarrow> scan_items env root (Suc k) xs items (warnings @ [lit ''failed to read mailbox entry: '' @ e]) d
        | Inr name \<Rightarrow>
            if \<not> is_json (path_join root name) then scan_items env root (Suc k) xs items warnings d
            else (case read_item env (path_join root name) d of
                (Inr (Some item), d1) \<Rightarrow> scan_items env root (Suc k) xs (items @ [item]) warnings d1
              | (Inr None, d1) \<Rightarrow> scan_items env root (Suc k) xs items warnings d1
              | (Inl e, d1) \<Rightarrow>
                  scan_items env root (Suc k) xs items (warnings @ [show_mailbox_error (mb_show env) e]) d1)))"

definition load_items :: "mailbox_env \<Rightarrow> mailbox_store \<Rightarrow> (encrypted_item list \<times> rstring list) mb_act" where
  "load_items env st d =
     (case fs_read_dir (mb_list env) (ms_root st) d of
        (Inl IoNotFound, d1) \<Rightarrow> (Inr ([], []), d1)
      | (Inl e, d1) \<Rightarrow> (Inl (MbIo (ms_root st) e), d1)
      | (Inr entries, d1) \<Rightarrow> scan_items env (ms_root st) 0 entries [] [] d1)"

definition mailbox_temporary :: "nat \<Rightarrow> nat \<Rightarrow> rstring" where
  "mailbox_temporary pid unique = lit ''.mailbox-'' @ show_nat pid @ lit ''-'' @ show_nat unique @ lit ''.tmp''"

definition mailbox_replace_file :: "mailbox_env \<Rightarrow> path \<Rightarrow> u8 list \<Rightarrow> unit mb_act" where
  "mailbox_replace_file env target content =
     (case path_parent target of
        None \<Rightarrow> throw (MbInvalidItem (lit ''mailbox item path has no parent''))
      | Some parent \<Rightarrow>
          act_bind sys_nanos (\<lambda>unique.
            act_map_err (\<lambda>(q, e). MbIo q e)
              (swap_file target (path_join parent (mailbox_temporary (mb_pid env) unique)) (backup_path target) content)))"

definition item_path :: "mailbox_store \<Rightarrow> rstring \<Rightarrow> path" where
  "item_path st i = path_join (ms_root st) (i @ lit ''.json'')"

definition save_item :: "mailbox_env \<Rightarrow> mailbox_store \<Rightarrow> encrypted_item \<Rightarrow> unit mb_act" where
  "save_item env st item =
     act_then (lift_res (validate_item item))
    (act_then (act_map_err (MbIo (ms_root st)) (fs_create_dir_all (ms_root st)))
    (act_bind (lift_res (map_err MbSerialize (mb_print env item))) (\<lambda>content.
     if MAX_ITEM_FILE_BYTES < length content then throw (MbItemTooLarge MAX_ITEM_FILE_BYTES)
     else mailbox_replace_file env (item_path st (ei_id item)) content)))"

section \<open>The data key\<close>

definition key_path :: "mailbox_store \<Rightarrow> path" where
  "key_path st = path_join (ms_root st) (lit ''data-key.hex'')"

text \<open>Two characters of the value per byte; a slice through a character panics.\<close>

fun decode_hex_bytes :: "rstring \<Rightarrow> nat list \<Rightarrow> u8 list mb_res" where
  "decode_hex_bytes value [] = Inr []"
| "decode_hex_bytes value (k # ks) =
     (case str_slice value (k * 2) (k * 2 + 2) of
        None \<Rightarrow> Inl MbPanic
      | Some digits \<Rightarrow>
          (case u8_from_hex digits of
             None \<Rightarrow> Inl (MbCrypto (lit ''mailbox key contains invalid hex''))
           | Some b \<Rightarrow> res_bind (decode_hex_bytes value ks) (\<lambda>bs. Inr (b # bs))))"

definition decode_hex_key :: "rstring \<Rightarrow> u8 list mb_res" where
  "decode_hex_key value =
     (if str_len value \<noteq> 64 then Inl (MbCrypto (lit ''mailbox key must contain 64 hex characters''))
      else decode_hex_bytes value [0..<32])"

definition encode_hex_key :: "u8 list \<Rightarrow> rstring" where
  "encode_hex_key key = concat (map (\<lambda>b. show_hex 2 (unat b)) key)"

definition load_key :: "mailbox_env \<Rightarrow> mailbox_store \<Rightarrow> u8 list mb_act" where
  "load_key env st =
     (case mb_var env (lit ''YUNXI_NEXT_MAILBOX_KEY_HEX'') of
        Some value \<Rightarrow> lift_res (decode_hex_key value)
      | None \<Rightarrow>
          (case mb_var env (lit ''YUNXI_MAILBOX_KEY_HEX'') of
             Some value \<Rightarrow> lift_res (decode_hex_key value)
           | None \<Rightarrow>
               act_bind (act_map_err (MbIo (key_path st)) (fs_read_to_string (key_path st))) (\<lambda>value.
               lift_res (decode_hex_key (trim value)))))"

definition create_key :: "mailbox_env \<Rightarrow> mailbox_store \<Rightarrow> u8 list mb_act" where
  "create_key env st =
     act_then (act_map_err (MbIo (ms_root st)) (fs_create_dir_all (ms_root st)))
    (act_bind (lift_res (map_err (\<lambda>e. MbCrypto (lit ''key generation failed: '' @ e)) (mb_random_key env))) (\<lambda>key.
     (\<lambda>d. case fs_create_new (key_path st) d of
        (Inr _, d1) \<Rightarrow>
          act_then (act_map_err (MbIo (key_path st))
                     (act_then (fs_write_all (key_path st) (as_bytes (encode_hex_key key))) fs_sync))
                   (ret key) d1
      | (Inl IoAlreadyExists, d1) \<Rightarrow> load_key env st d1
      | (Inl e, d1) \<Rightarrow> (Inl (MbIo (key_path st) e), d1))))"

definition load_or_create_key :: "mailbox_env \<Rightarrow> mailbox_store \<Rightarrow> u8 list mb_act" where
  "load_or_create_key env st d =
     (case load_key env st d of
        (Inr key, d1) \<Rightarrow> (Inr key, d1)
      | (Inl (MbIo p IoNotFound), d1) \<Rightarrow> create_key env st d1
      | (Inl e, d1) \<Rightarrow> (Inl e, d1))"

definition mailbox_encrypt :: "mailbox_env \<Rightarrow> u8 list \<Rightarrow> u8 list \<Rightarrow> u8 list \<Rightarrow> (u8 list \<times> u8 list) mb_res" where
  "mailbox_encrypt env key plaintext aad =
     (if length key \<noteq> 32 then Inl (MbCrypto (lit ''mailbox key is invalid''))
      else res_bind (map_err (\<lambda>e. MbCrypto (lit ''nonce generation failed: '' @ e)) (mb_random_nonce env)) (\<lambda>nonce.
        case mb_seal env key nonce plaintext aad of
          None \<Rightarrow> Inl (MbCrypto (lit ''mailbox encryption failed''))
        | Some ciphertext \<Rightarrow> Inr (nonce, ciphertext)))"

definition mailbox_decrypt :: "mailbox_env \<Rightarrow> u8 list \<Rightarrow> u8 list \<Rightarrow> u8 list \<Rightarrow> u8 list \<Rightarrow> u8 list mb_res" where
  "mailbox_decrypt env key nonce ciphertext aad =
     (if length key \<noteq> 32 then Inl (MbCrypto (lit ''mailbox key is invalid''))
      else (case mb_open env key nonce ciphertext aad of
          None \<Rightarrow> Inl (MbCrypto (lit ''mailbox authentication failed'')) | Some plaintext \<Rightarrow> Inr plaintext))"

section \<open>The operations\<close>

definition validate_enqueue :: "mailbox_enqueue_request \<Rightarrow> unit mb_res" where
  "validate_enqueue q =
     res_bind (validate_text (lit ''subject'') (eq_subject q) MAX_SUBJECT_CHARS) (\<lambda>_.
     res_bind (validate_text (lit ''content'') (eq_content q) MAX_CONTENT_CHARS) (\<lambda>_.
     res_bind (validate_text (lit ''reason'') (eq_reason q) MAX_REASON_CHARS) (\<lambda>_.
     validate_text (lit ''idempotency key'') (eq_idempotency_key q) MAX_IDEMPOTENCY_CHARS)))"

definition unsealed_item :: "mailbox_enqueue_request \<Rightarrow> u128 \<Rightarrow> encrypted_item" where
  "unsealed_item q now = \<lparr>ei_schema_version = MAILBOX_SCHEMA_VERSION, ei_id = item_id_of (eq_idempotency_key q),
     ei_kind = eq_kind q, ei_subject = eq_subject q, ei_reason = eq_reason q, ei_key = eq_idempotency_key q,
     ei_read = False, ei_created_at = now, ei_updated_at = now, ei_algorithm = CIPHER_NAME,
     ei_nonce = [], ei_ciphertext = []\<rparr>"

definition mailbox_enqueue :: "mailbox_env \<Rightarrow> mailbox_store \<Rightarrow> mailbox_enqueue_request \<Rightarrow> mailbox_mutation_result mb_act" where
  "mailbox_enqueue env st q =
     act_then (lift_res (mailbox_require_write st))
    (act_then (lift_res (validate_enqueue q))
    (act_bind (load_items env st) (\<lambda>(items, warnings).
     case find (\<lambda>i. ei_key i = eq_idempotency_key q) items of
       Some existing \<Rightarrow> ret \<lparr>mu_item = Some (item_summary existing), mu_created = False, mu_warnings = warnings\<rparr>
     | None \<Rightarrow>
         act_then (act_map_err (MbIo (ms_root st)) (fs_create_dir_all (ms_root st)))
        (act_bind now_millis (\<lambda>now.
         let item = unsealed_item q now in
         case find (\<lambda>i. ei_id i = ei_id item) items of
           Some existing \<Rightarrow> throw (MbIdempotencyCollision (ei_key existing))
         | None \<Rightarrow>
             act_bind (load_or_create_key env st) (\<lambda>key.
             act_bind (lift_res (mailbox_encrypt env key (as_bytes (eq_content q)) (item_aad item))) (\<lambda>(nonce, ciphertext).
             let sealed = item\<lparr>ei_nonce := mb_base64 env nonce, ei_ciphertext := mb_base64 env ciphertext\<rparr> in
             act_then (lift_res (validate_item sealed))
            (act_then (save_item env st sealed)
            (ret \<lparr>mu_item = Some (item_summary sealed), mu_created = True, mu_warnings = warnings\<rparr>)))))))))"

definition newest_first :: "encrypted_item \<Rightarrow> encrypted_item \<Rightarrow> bool" where
  "newest_first l r \<longleftrightarrow> ei_created_at r < ei_created_at l \<or> (ei_created_at r = ei_created_at l \<and> ei_id r \<le> ei_id l)"

definition mailbox_list :: "mailbox_env \<Rightarrow> mailbox_store \<Rightarrow> mailbox_list_request \<Rightarrow> mailbox_list_result mb_act" where
  "mailbox_list env st q =
     act_bind (load_items env st) (\<lambda>(items, warnings).
     let unread_count = length (filter (\<lambda>i. \<not> ei_read i) items);
         wanted = sort_by newest_first (filter (\<lambda>i. \<not> lq_unread_only q \<or> \<not> ei_read i) items);
         limit = max 1 (min (lq_limit q) MAX_LIST_LIMIT)
     in ret \<lparr>lr_items = map item_summary (take limit wanted), lr_unread_count = unread_count,
             lr_warnings = warnings, lr_truncated = (limit < length wanted)\<rparr>)"

definition open_item :: "mailbox_env \<Rightarrow> u8 list \<Rightarrow> encrypted_item \<Rightarrow> rstring mb_res" where
  "open_item env key item =
     (case mb_unbase64 env (ei_nonce item) of
        None \<Rightarrow> Inl (MbCrypto (lit ''mailbox nonce is invalid''))
      | Some nonce \<Rightarrow>
          if length nonce \<noteq> NONCE_BYTES then Inl (MbCrypto (lit ''mailbox nonce length is invalid''))
          else (case mb_unbase64 env (ei_ciphertext item) of
              None \<Rightarrow> Inl (MbCrypto (lit ''mailbox ciphertext is invalid''))
            | Some ciphertext \<Rightarrow>
                res_bind (mailbox_decrypt env key nonce ciphertext (item_aad item)) (\<lambda>plaintext.
                case from_utf8 plaintext of
                  None \<Rightarrow> Inl (MbCrypto (lit ''mailbox content is not UTF-8'')) | Some content \<Rightarrow> Inr content)))"

definition mailbox_get :: "mailbox_env \<Rightarrow> mailbox_store \<Rightarrow> mailbox_get_request \<Rightarrow> mailbox_get_result mb_act" where
  "mailbox_get env st q =
     act_then (lift_res (validate_item_id (gq_item_id q)))
    (act_bind (load_items env st) (\<lambda>(items, warnings).
     case find (\<lambda>i. ei_id i = gq_item_id q) items of
       None \<Rightarrow> ret \<lparr>gr_entry = None, gr_warnings = warnings\<rparr>
     | Some item \<Rightarrow>
         act_bind (load_key env st) (\<lambda>key.
         act_bind (lift_res (open_item env key item)) (\<lambda>content.
         ret \<lparr>gr_entry = Some \<lparr>me_summary = item_summary item, me_content = content\<rparr>, gr_warnings = warnings\<rparr>))))"

definition mailbox_mark_read :: "mailbox_env \<Rightarrow> mailbox_store \<Rightarrow> mailbox_mark_request \<Rightarrow> mailbox_mutation_result mb_act" where
  "mailbox_mark_read env st q =
     act_then (lift_res (mailbox_require_write st))
    (act_then (lift_res (validate_item_id (kq_item_id q)))
    (act_bind (load_items env st) (\<lambda>(items, warnings).
     case find (\<lambda>i. ei_id i = kq_item_id q) items of
       None \<Rightarrow> ret \<lparr>mu_item = None, mu_created = False, mu_warnings = warnings\<rparr>
     | Some item \<Rightarrow>
         act_bind now_millis (\<lambda>now.
         let marked = item\<lparr>ei_read := kq_read q, ei_updated_at := now\<rparr> in
         act_then (save_item env st marked)
        (ret \<lparr>mu_item = Some (item_summary marked), mu_created = False, mu_warnings = warnings\<rparr>)))))"

section \<open>The plugin\<close>

definition COMPANION_MAILBOX :: rstring where "COMPANION_MAILBOX = lit ''companion.mailbox''"
definition COMPANION_MAILBOX_VERSION :: u32 where "COMPANION_MAILBOX_VERSION = 1"
definition MAILBOX_PLUGIN_ID :: rstring where "MAILBOX_PLUGIN_ID = lit ''yunxi.companion-mailbox''"

datatype mailbox_plugin_error =
    MpCapability capability_error
  | MpInvocation codec_error
  | MpMailbox mailbox_error
  | MpProtocol protocol_error
  | MpUnexpectedHostMessage rstring

fun mailbox_plugin_error_code :: "mailbox_plugin_error \<Rightarrow> rstring" where
  "mailbox_plugin_error_code (MpInvocation e) = lit ''invalid_request''"
| "mailbox_plugin_error_code (MpMailbox MbWriteNotGranted) = lit ''write_not_granted''"
| "mailbox_plugin_error_code (MpMailbox e) = lit ''mailbox_error''"
| "mailbox_plugin_error_code e = lit ''plugin_error''"

fun show_mailbox_plugin_error :: "platform_display \<Rightarrow> mailbox_plugin_error \<Rightarrow> rstring" where
  "show_mailbox_plugin_error t (MpCapability e) = lit ''invalid capability: '' @ show_capability_error e"
| "show_mailbox_plugin_error t (MpInvocation e) = show_codec_error e"
| "show_mailbox_plugin_error t (MpMailbox e) = show_mailbox_error t e"
| "show_mailbox_plugin_error t (MpProtocol e) = show_protocol_error e"
| "show_mailbox_plugin_error t (MpUnexpectedHostMessage m) = m"

record 'v mailbox_serde =
  mj_enqueue :: "'v \<Rightarrow> (rstring, mailbox_enqueue_request) res"
  mj_list :: "'v \<Rightarrow> (rstring, mailbox_list_request) res"
  mj_get :: "'v \<Rightarrow> (rstring, mailbox_get_request) res"
  mj_mark :: "'v \<Rightarrow> (rstring, mailbox_mark_request) res"
  mj_mutated :: "mailbox_mutation_result \<Rightarrow> (rstring, 'v) res"
  mj_listed :: "mailbox_list_result \<Rightarrow> (rstring, 'v) res"
  mj_got :: "mailbox_get_result \<Rightarrow> (rstring, 'v) res"

definition on_mailbox ::
  "mailbox_env \<Rightarrow> ('q \<Rightarrow> workspace_grant) \<Rightarrow> (mailbox_store \<Rightarrow> 'q \<Rightarrow> 'r mb_act) \<Rightarrow> 'q \<Rightarrow>
   (disk, mailbox_plugin_error, 'r) act" where
  "on_mailbox env grant_of operation q =
     act_map_err MpMailbox (act_bind (mailbox_from_grant env (grant_of q)) (\<lambda>st. operation st q))"

definition mailbox_dispatch ::
  "'v mailbox_serde \<Rightarrow> mailbox_env \<Rightarrow> 'v invocation_request \<Rightarrow> (disk, mailbox_plugin_error, 'v invocation_response) act option" where
  "mailbox_dispatch j env r =
     (let operation = ir_operation r in
      if operation = lit ''enqueue''
      then Some (typed_call MpInvocation (mj_enqueue j) (on_mailbox env eq_grant (mailbox_enqueue env)) (mj_mutated j) r)
      else if operation = lit ''list''
      then Some (typed_call MpInvocation (mj_list j) (on_mailbox env lq_grant (mailbox_list env)) (mj_listed j) r)
      else if operation = lit ''get''
      then Some (typed_call MpInvocation (mj_get j) (on_mailbox env gq_grant (mailbox_get env)) (mj_got j) r)
      else if operation = lit ''mark_read''
      then Some (typed_call MpInvocation (mj_mark j) (on_mailbox env kq_grant (mailbox_mark_read env)) (mj_mutated j) r)
      else None)"

definition mailbox_texts :: "mailbox_env \<Rightarrow> mailbox_plugin_error answer_texts" where
  "mailbox_texts env = \<lparr>at_capability = COMPANION_MAILBOX, at_version = COMPANION_MAILBOX_VERSION,
     at_name = lit ''mailbox'', at_code = mailbox_plugin_error_code, at_show = show_mailbox_plugin_error (mb_show env),
     at_panics = (\<lambda>e. e = MpMailbox MbPanic)\<rparr>"

definition mailbox_answer ::
  "'v mailbox_serde \<Rightarrow> mailbox_env \<Rightarrow> 'v invocation_request \<Rightarrow> disk \<Rightarrow> ('v, mailbox_plugin_error) reply \<times> disk" where
  "mailbox_answer j env = answer_request (mailbox_texts env) (mailbox_dispatch j env)"

definition mailbox_errors :: "mailbox_plugin_error plugin_errors" where
  "mailbox_errors = \<lparr>pe_capability = MpCapability, pe_protocol = MpProtocol, pe_unexpected = MpUnexpectedHostMessage\<rparr>"

definition run_mailbox_plugin ::
  "'v mailbox_serde \<Rightarrow> mailbox_env \<Rightarrow> rstring \<Rightarrow> ('v host_message \<Rightarrow> rstring) \<Rightarrow> 'v connect_env \<Rightarrow> 'v script \<Rightarrow> disk \<Rightarrow>
   mailbox_plugin_error plugin_end \<times> 'v plugin_message list \<times> disk" where
  "run_mailbox_plugin j env version debug cenv =
     run_plugin mailbox_errors [(COMPANION_MAILBOX, COMPANION_MAILBOX_VERSION)]
       (\<lambda>caps. fst (connect_plugin MAILBOX_PLUGIN_ID (lit ''Encrypted companion mailbox'') version caps debug cenv))
       (mailbox_answer j env)"

interpretation mailbox_plugin: answering "mailbox_answer j env"
  unfolding mailbox_answer_def
  by (rule answer_request_id) (auto simp: mailbox_dispatch_def Let_def split: if_splits dest: typed_call_id)

end
