(* ===== verification/Mailbox_Props.thy ===== *)
theory Mailbox_Props
  imports Mailbox
begin

text \<open>
  What the mailbox reads from a directory, what it leaves there when it saves an item, which key it uses,
  and the sealing and opening of a content.
\<close>

section \<open>The items of a directory\<close>

definition item_at :: "mailbox_env \<Rightarrow> files \<Rightarrow> path \<Rightarrow> encrypted_item option" where
  "item_at env f p =
     (case f p of
        Some (FileNode c) \<Rightarrow>
          if MAX_ITEM_FILE_BYTES < length c then None
          else (case mb_parse env c of
              Inl e \<Rightarrow> None | Inr item \<Rightarrow> if validate_item item = Inr () then Some item else None)
      | _ \<Rightarrow> None)"

definition entry_item :: "mailbox_env \<Rightarrow> path \<Rightarrow> files \<Rightarrow> (rstring, rstring) res \<Rightarrow> encrypted_item option" where
  "entry_item env root f x =
     (case x of Inl e \<Rightarrow> None | Inr name \<Rightarrow> if is_json (root @ [name]) then item_at env f (root @ [name]) else None)"

definition stored_items :: "mailbox_env \<Rightarrow> mailbox_store \<Rightarrow> files \<Rightarrow> encrypted_item list" where
  "stored_items env st f = List.map_filter (entry_item env (ms_root st) f) (mb_list env f (ms_root st))"

lemma set_map_filter: "set (List.map_filter h xs) = {y. \<exists>x \<in> set xs. h x = Some y}"
  by (induction xs) (auto simp: List.map_filter_def)

lemma item_at_Some:
  "item_at env f p = Some i \<longleftrightarrow>
     (\<exists>c. f p = Some (FileNode c) \<and> length c \<le> MAX_ITEM_FILE_BYTES \<and> mb_parse env c = Inr i \<and> validate_item i = Inr ())"
  by (auto simp: item_at_def split: option.splits node.splits sum.splits)

lemma serving_read_found:
  "serving d \<Longrightarrow> item_at env (dk_files d) p = Some i \<Longrightarrow> read_item env p d = (Inr (Some i), d)"
  by (auto simp: item_at_Some read_item_def serving_metadata serving_read act_bind_def act_then_def
      act_map_err_def lift_res_def ret_def)

lemma serving_read_other:
  assumes "serving d" "item_at env (dk_files d) p = None"
  shows "\<exists>r. read_item env p d = (r, d) \<and> (\<forall>i. r \<noteq> Inr (Some i))"
proof (cases "dk_files d p")
  case None
  then show ?thesis using assms by (simp add: read_item_def serving_metadata)
next
  case (Some n)
  show ?thesis
  proof (cases n)
    case DirNode
    then show ?thesis using assms Some
      by (simp add: read_item_def serving_metadata serving_read act_bind_def act_map_err_def)
  next
    case (FileNode c)
    then show ?thesis using assms Some
      by (cases "mb_parse env c")
        (auto simp: item_at_def read_item_def serving_metadata serving_read act_bind_def act_then_def
          act_map_err_def lift_res_def ret_def split: sum.splits if_splits)
  qed
qed

lemma serving_scan:
  assumes "serving d" "k + length xs \<le> MAX_SCANNED_ITEMS"
  shows "\<exists>w. scan_items env root k xs items warnings d =
     (Inr (items @ List.map_filter (entry_item env root (dk_files d)) xs, w), d)"
  using assms(2)
proof (induction xs arbitrary: k items warnings)
  case (Cons x xs)
  then have rest: "\<exists>w. scan_items env root (Suc k) xs items' warnings' d =
      (Inr (items' @ List.map_filter (entry_item env root (dk_files d)) xs, w), d)" for items' warnings'
    by simp
  have k: "\<not> MAX_SCANNED_ITEMS \<le> k" using Cons.prems by simp
  show ?case
  proof (cases "entry_item env root (dk_files d) x")
    case (Some i)
    then obtain name where "x = Inr name" "is_json (root @ [name])" "item_at env (dk_files d) (root @ [name]) = Some i"
      by (auto simp: entry_item_def split: sum.splits if_splits)
    then show ?thesis
      using k Some rest [of "items @ [i]" warnings] serving_read_found [OF assms(1)]
      by (simp add: List.map_filter_def path_join_def)
  next
    case None
    show ?thesis
    proof (cases x)
      case (Inl e)
      then show ?thesis using k None rest by (simp add: List.map_filter_def)
    next
      case (Inr name)
      show ?thesis
      proof (cases "is_json (root @ [name])")
        case True
        then have "item_at env (dk_files d) (root @ [name]) = None" using None Inr by (simp add: entry_item_def)
        then obtain r where "read_item env (root @ [name]) d = (r, d)" "\<forall>i. r \<noteq> Inr (Some i)"
          using serving_read_other [OF assms(1)] by blast
        then show ?thesis using k None rest Inr True
          by (cases r) (auto simp: List.map_filter_def path_join_def split: option.splits)
      qed (use k None rest Inr in \<open>simp add: List.map_filter_def path_join_def\<close>)
    qed
  qed
qed (simp add: List.map_filter_def)

lemma serving_load_items:
  assumes "serving d" "dk_files d (ms_root st) = Some DirNode"
    and "length (mb_list env (dk_files d) (ms_root st)) \<le> MAX_SCANNED_ITEMS"
  shows "\<exists>w. load_items env st d = (Inr (stored_items env st (dk_files d), w), d)"
proof -
  have "fs_read_dir (mb_list env) (ms_root st) d = (Inr (mb_list env (dk_files d) (ms_root st)), d)"
    using assms(1,2) by (simp add: fs_read_dir_def serving_call)
  then show ?thesis
    using serving_scan [OF assms(1), of 0 "mb_list env (dk_files d) (ms_root st)" env "ms_root st" "[]" "[]"] assms(3)
    by (simp add: load_items_def stored_items_def)
qed

section \<open>Whatever the operating system answers\<close>

lemma wp_read_item:
  assumes "\<And>e. Q (Inl e) f" "Q (Inr None) f" "\<And>i. item_at env f p = Some i \<Longrightarrow> Q (Inr (Some i)) f"
  shows "wp I (read_item env p) Q f"
proof (rule wp_on_metadata [where p = p and k = "\<lambda>r. case r of
      Inl IoNotFound \<Rightarrow> ret None
    | Inl e \<Rightarrow> throw (MbIo p e)
    | Inr n \<Rightarrow>
        if (case n of FileNode c \<Rightarrow> MAX_ITEM_FILE_BYTES < length c | DirNode \<Rightarrow> False)
        then throw (MbItemTooLarge MAX_ITEM_FILE_BYTES)
        else act_bind (act_map_err (MbIo p) (fs_read p)) (\<lambda>content.
            act_bind (lift_res (map_err (\<lambda>e. MbInvalidItem
                (lit ''failed to parse '' @ pd_path (mb_show env) p @ lit '': '' @ e)) (mb_parse env content))) (\<lambda>item.
            act_then (lift_res (validate_item item)) (ret (Some item))))"])
  show "read_item env p d = (case fs_metadata p d of (r, d') \<Rightarrow> (case r of
      Inl IoNotFound \<Rightarrow> ret None
    | Inl e \<Rightarrow> throw (MbIo p e)
    | Inr n \<Rightarrow>
        if (case n of FileNode c \<Rightarrow> MAX_ITEM_FILE_BYTES < length c | DirNode \<Rightarrow> False)
        then throw (MbItemTooLarge MAX_ITEM_FILE_BYTES)
        else act_bind (act_map_err (MbIo p) (fs_read p)) (\<lambda>content.
            act_bind (lift_res (map_err (\<lambda>e. MbInvalidItem
                (lit ''failed to parse '' @ pd_path (mb_show env) p @ lit '': '' @ e)) (mb_parse env content))) (\<lambda>item.
            act_then (lift_res (validate_item item)) (ret (Some item))))) d')" for d
    by (auto simp: read_item_def ret_def throw_def split: prod.splits sum.splits io_error.splits)
  show "wp I (case Inr n of
      Inl IoNotFound \<Rightarrow> ret None
    | Inl e \<Rightarrow> throw (MbIo p e)
    | Inr n \<Rightarrow>
        if (case n of FileNode c \<Rightarrow> MAX_ITEM_FILE_BYTES < length c | DirNode \<Rightarrow> False)
        then throw (MbItemTooLarge MAX_ITEM_FILE_BYTES)
        else act_bind (act_map_err (MbIo p) (fs_read p)) (\<lambda>content.
            act_bind (lift_res (map_err (\<lambda>e. MbInvalidItem
                (lit ''failed to parse '' @ pd_path (mb_show env) p @ lit '': '' @ e)) (mb_parse env content))) (\<lambda>item.
            act_then (lift_res (validate_item item)) (ret (Some item))))) Q f" if "f p = Some n" for n
    using assms that
    by (auto intro!: wp_rules simp: item_at_Some split: sum.splits)
qed (use assms in \<open>auto intro!: wp_rules\<close>)

lemma wp_scan_items:
  assumes "\<And>items w. set items \<subseteq> found \<Longrightarrow> Q (Inr (items, w)) f"
    and "set items \<subseteq> found" "set (List.map_filter (entry_item env root f) xs) \<subseteq> found"
  shows "wp I (scan_items env root k xs items warnings) Q f"
  using assms(2,3)
proof (induction xs arbitrary: k items warnings)
  case Nil
  then show ?case using assms(1) by (simp add: wp_def)
next
  case (Cons x xs)
  have sub: "set (List.map_filter (entry_item env root f) xs) \<subseteq> found"
    using Cons.prems(2) unfolding set_map_filter by auto
  have rest: "wp I (scan_items env root (Suc k) xs items' warnings') Q f" if "set items' \<subseteq> found" for items' warnings'
    using Cons.IH that sub by blast
  have here: "i \<in> found" if "x = Inr name" "is_json (root @ [name])" "item_at env f (root @ [name]) = Some i" for name i
    using that Cons.prems(2) unfolding set_map_filter by (auto simp: entry_item_def)
  show ?case
  proof (cases "MAX_SCANNED_ITEMS \<le> k")
    case True
    then show ?thesis using assms(1) Cons.prems(1) by (simp add: wp_def)
  next
    case k: False
    show ?thesis
    proof (cases x)
      case (Inl e)
      then show ?thesis using k rest [OF Cons.prems(1)] by (simp add: wp_def)
    next
      case (Inr name)
      show ?thesis
      proof (cases "is_json (root @ [name])")
        case False
        then show ?thesis using k Inr rest [OF Cons.prems(1)] by (simp add: wp_def path_join_def)
      next
        case True
        show ?thesis
        proof (rule wp_either [where m = "read_item env (root @ [name])" and k = "\<lambda>r. case r of
            Inr (Some item) \<Rightarrow> scan_items env root (Suc k) xs (items @ [item]) warnings
          | Inr None \<Rightarrow> scan_items env root (Suc k) xs items warnings
          | Inl e \<Rightarrow> scan_items env root (Suc k) xs items (warnings @ [show_mailbox_error (mb_show env) e])"])
          show "wp I (read_item env (root @ [name])) (\<lambda>r. wp I (case r of
              Inr (Some item) \<Rightarrow> scan_items env root (Suc k) xs (items @ [item]) warnings
            | Inr None \<Rightarrow> scan_items env root (Suc k) xs items warnings
            | Inl e \<Rightarrow> scan_items env root (Suc k) xs items (warnings @ [show_mailbox_error (mb_show env) e])) Q) f"
            by (rule wp_read_item) (use rest here [OF Inr True] Cons.prems(1) in simp_all)
        qed (use k Inr True in \<open>auto simp: path_join_def split: prod.splits sum.splits option.splits\<close>)
      qed
    qed
  qed
qed

lemma wp_load_items:
  assumes "\<And>e. Q (Inl e) f"
    and "\<And>items w. set items \<subseteq> set (stored_items env st f) \<Longrightarrow> Q (Inr (items, w)) f"
  shows "wp I (load_items env st) Q f"
proof (rule wp_either [where m = "fs_read_dir (mb_list env) (ms_root st)" and k = "\<lambda>r. case r of
      Inl IoNotFound \<Rightarrow> ret ([], [])
    | Inl e \<Rightarrow> throw (MbIo (ms_root st) e)
    | Inr entries \<Rightarrow> scan_items env (ms_root st) 0 entries [] []"])
  have scan: "wp I (scan_items env (ms_root st) 0 (mb_list env f (ms_root st)) [] []) Q f"
    by (rule wp_scan_items) (use assms(2) in \<open>auto simp: stored_items_def\<close>)
  show "wp I (fs_read_dir (mb_list env) (ms_root st)) (\<lambda>r. wp I (case r of
      Inl IoNotFound \<Rightarrow> ret ([], [])
    | Inl e \<Rightarrow> throw (MbIo (ms_root st) e)
    | Inr entries \<Rightarrow> scan_items env (ms_root st) 0 entries [] []) Q) f"
    by (rule wp_read_dir) (use assms scan in \<open>auto intro!: wp_rules split: io_error.splits\<close>)
qed (auto simp: load_items_def ret_def throw_def split: prod.splits sum.splits io_error.splits)

section \<open>Saving an item\<close>

text \<open>What a saved item promises: it is read back, and the other files are as they were.\<close>

definition mailbox_codec :: "mailbox_env \<Rightarrow> bool" where
  "mailbox_codec env \<longleftrightarrow> (\<forall>i c. mb_print env i = Inr c \<longrightarrow> mb_parse env c = Inr i)"

definition other_names :: "path \<Rightarrow> path \<Rightarrow> files \<Rightarrow> files \<Rightarrow> bool" where
  "other_names root p f g \<longleftrightarrow>
     (\<forall>n. kept_name n \<longrightarrow> root @ [n] \<notin> {p, backup_path p} \<longrightarrow> g (root @ [n]) = f (root @ [n]))"

lemma valid_id_name:
  assumes "validate_item_id i = Inr ()"
  shows "i \<noteq> []" "hd i \<noteq> dot" "json_path (ms_root st) (item_path st i)" "is_json (item_path st i)"
proof -
  show i: "i \<noteq> []" using assms by (auto simp: validate_item_id_def)
  have "\<forall>c \<in> set i. is_ascii_alphanumeric c \<or> c = 45" using assms by (auto simp: validate_item_id_def split: if_splits)
  then have "is_ascii_alphanumeric (hd i) \<or> hd i = 45" using i by simp
  then show d: "hd i \<noteq> dot"
    by (auto simp: dot_def ch_def is_ascii_alphanumeric_def is_ascii_lowercase_def is_ascii_uppercase_def is_ascii_digit_def)
  show "json_path (ms_root st) (item_path st i)"
    using i d by (auto simp: json_path_def item_path_def path_join_def)
  have "file_parts (i @ dot # lit ''json'') = (i, Some (lit ''json''))"
    using i d by (intro file_parts_append) (auto simp: dot_def ch_def lit_def append_eq_Cons_conv Cons_eq_append_conv)
  moreover have "lit ''.json'' = dot # lit ''json''" by (simp add: dot_def ch_def lit_def)
  ultimately show "is_json (item_path st i)"
    by (simp add: is_json_def path_extension_def item_path_def path_join_def)
qed

lemma other_names_written: "written root p c f g \<Longrightarrow> other_names root p f g"
  by (simp add: written_def other_names_def)

lemma other_names_refl: "other_names root p f f"
  by (simp add: other_names_def)

lemma other_names_directories: "other_names root p f (with_directories root f)"
  by (simp add: other_names_def)

lemma other_names_from_directories [simp]:
  "other_names root p (with_directories root f) g = other_names root p f g"
  by (simp add: other_names_def)

lemma wp_mailbox_replace:
  assumes "json_path root p"
  shows "wp (written root p content f) (mailbox_replace_file env p content) (write_result root p content f) f"
proof -
  have t: "mailbox_temporary n u \<noteq> []" "hd (mailbox_temporary n u) = dot"
    "suffix (lit ''.tmp'') (mailbox_temporary n u)" for n u
    by (simp_all add: mailbox_temporary_def lit_def dot_def ch_def suffix_def)
  show ?thesis
    unfolding mailbox_replace_file_def json_path_parent [OF assms] option.case path_join_def
    by (auto intro!: wp_bind wp_sys_nanos wp_map_err wp_mono [OF wp_replace_json [OF assms t]] simp del: write_result.simps)
qed

lemma wp_save_item:
  assumes "mailbox_codec env"
    and "\<And>e g. other_names (ms_root st) (item_path st (ei_id i)) f g \<Longrightarrow> Q (Inl e) g"
    and "\<And>g. other_names (ms_root st) (item_path st (ei_id i)) f g \<Longrightarrow>
       item_at env g (item_path st (ei_id i)) = Some i \<Longrightarrow> Q (Inr ()) g"
  shows "wp (other_names (ms_root st) (item_path st (ei_id i)) f) (save_item env st i) Q f"
proof (cases "validate_item i")
  case (Inl e)
  then show ?thesis using assms(2) [OF other_names_refl]
    by (auto simp: save_item_def intro!: wp_then wp_lift_res)
next
  case (Inr u)
  let ?p = "item_path st (ei_id i)"
  let ?o = "other_names (ms_root st) ?p f"
  have p: "json_path (ms_root st) ?p"
    using Inr valid_id_name(3) by (auto simp: validate_item_def res_bind_Inr split: if_splits)
  have replace: "wp ?o (mailbox_replace_file env ?p c) Q (with_directories (ms_root st) f)"
    if "mb_print env i = Inr c" "length c \<le> MAX_ITEM_FILE_BYTES" for c
  proof (rule wp_weaken [OF wp_mailbox_replace [OF p]])
    show "?o g" if "written (ms_root st) ?p c (with_directories (ms_root st) f) g" for g
      using other_names_written [OF that] by simp
    show "Q r g" if "write_result (ms_root st) ?p c (with_directories (ms_root st) f) r g" for r g
    proof (cases r)
      case (Inl e)
      then show ?thesis using assms(2) other_names_written [OF write_result_written [OF that]] by simp
    next
      case ok: (Inr v)
      then have "g ?p = Some (FileNode c)" using that by simp
      then have "item_at env g ?p = Some i"
        using Inr \<open>length c \<le> _\<close> \<open>mb_print env i = Inr c\<close> assms(1) by (simp add: item_at_Some mailbox_codec_def)
      then show ?thesis using assms(3) ok other_names_written [OF write_result_written [OF that]] by simp
    qed
  qed
  show ?thesis
    unfolding save_item_def
    by (rule wp_then, rule wp_lift_res)
      (auto simp: Inr split: sum.splits intro!: wp_then wp_map_err wp_make_directories wp_bind wp_lift_res wp_if wp_throw
        assms(2) other_names_refl other_names_directories replace)
qed

section \<open>The data key\<close>

lemma encode_hex_plain: "c \<in> set (encode_hex_key key) \<Longrightarrow> is_ascii c \<and> \<not> is_whitespace c"
  using hex_char_plain by (auto simp: encode_hex_key_def show_hex_two)

lemma encode_hex_length: "length (encode_hex_key key) = 2 * length key"
  by (induction key) (simp_all add: encode_hex_key_def show_hex_two)

lemma encode_hex_drop: "drop (2 * k) (encode_hex_key key) = encode_hex_key (drop k key)"
proof (induction k arbitrary: key)
  case (Suc k)
  then show ?case by (cases key) (simp_all add: encode_hex_key_def show_hex_two)
qed simp

lemma encode_hex_slice:
  assumes "k < length key"
  shows "str_slice (encode_hex_key key) (k * 2) (k * 2 + 2) = Some (show_hex 2 (unat (key ! k)))"
proof -
  have "str_slice (encode_hex_key key) (k * 2) (k * 2 + 2) = Some (take 2 (drop (2 * k) (encode_hex_key key)))"
    using ascii_slice [of "encode_hex_key key" "k * 2" "k * 2 + 2"] encode_hex_plain assms
    by (simp add: encode_hex_length mult.commute)
  also have "drop (2 * k) (encode_hex_key key) = encode_hex_key (key ! k # drop (Suc k) key)"
    using assms by (simp add: encode_hex_drop Cons_nth_drop_Suc)
  finally show ?thesis by (simp add: encode_hex_key_def show_hex_two)
qed

lemma decode_encode_bytes:
  "\<forall>k \<in> set ks. k < length key \<Longrightarrow> decode_hex_bytes (encode_hex_key key) ks = Inr (map ((!) key) ks)"
  by (induction ks) (simp_all add: encode_hex_slice u8_from_show_hex del: add_2_eq_Suc add_2_eq_Suc')

lemma decode_encode_key:
  assumes "length key = 32"
  shows "decode_hex_key (encode_hex_key key) = Inr key"
proof -
  have "str_len (encode_hex_key key) = 64"
    using ascii_len [of "encode_hex_key key"] encode_hex_plain assms by (auto simp: is_ascii_def encode_hex_length)
  moreover have "map ((!) key) [0..<32] = key" using assms map_nth [of key] by simp
  ultimately show ?thesis
    using decode_encode_bytes [of "[0..<32]" key] assms by (simp add: decode_hex_key_def)
qed

text \<open>The key a store has at hand: that of the environment, else that of the key file.\<close>

definition key_in :: "mailbox_env \<Rightarrow> mailbox_store \<Rightarrow> files \<Rightarrow> u8 list mb_res option" where
  "key_in env st f =
     (case mb_var env (lit ''YUNXI_NEXT_MAILBOX_KEY_HEX'') of
        Some value \<Rightarrow> Some (decode_hex_key value)
      | None \<Rightarrow>
          (case mb_var env (lit ''YUNXI_MAILBOX_KEY_HEX'') of
             Some value \<Rightarrow> Some (decode_hex_key value)
           | None \<Rightarrow>
               (case f (key_path st) of
                  Some (FileNode c) \<Rightarrow> map_option (\<lambda>s. decode_hex_key (trim s)) (from_utf8 c)
                | _ \<Rightarrow> None)))"

lemma key_in_cong: "f (key_path st) = g (key_path st) \<Longrightarrow> key_in env st f = key_in env st g"
  by (simp add: key_in_def cong: option.case_cong)

lemma serving_load_key: "serving d \<Longrightarrow> key_in env st (dk_files d) = Some r \<Longrightarrow> load_key env st d = (r, d)"
  by (auto simp: key_in_def load_key_def lift_res_def act_bind_def act_map_err_def fs_read_to_string_def
      serving_read ret_def split: option.splits node.splits)

lemma decode_hex_bytes_error: "decode_hex_bytes value ks \<noteq> Inl (MbIo p x)"
  by (induction ks) (auto simp: res_bind_Inl split: option.splits)

lemma decode_hex_key_error: "decode_hex_key value \<noteq> Inl (MbIo p x)"
  by (simp add: decode_hex_key_def decode_hex_bytes_error)

abbreviation no_variable :: "mailbox_env \<Rightarrow> bool" where
  "no_variable env \<equiv> mb_var env (lit ''YUNXI_NEXT_MAILBOX_KEY_HEX'') = None \<and> mb_var env (lit ''YUNXI_MAILBOX_KEY_HEX'') = None"

lemma wp_load_key:
  assumes "\<And>e. (\<And>p x. e = MbIo p x \<Longrightarrow> no_variable env) \<Longrightarrow> Q (Inl e) f"
    and "\<And>k. key_in env st f = Some (Inr k) \<Longrightarrow> Q (Inr k) f"
  shows "wp I (load_key env st) Q f"
proof -
  have "Q (decode_hex_key v) f" if "key_in env st f = Some (decode_hex_key v)" for v
  proof (cases "decode_hex_key v")
    case (Inl e)
    have "Q (Inl e) f" by (rule assms(1)) (use decode_hex_key_error [of v] Inl in auto)
    then show ?thesis using Inl by simp
  qed (use assms(2) that in simp)
  then show ?thesis
    using assms
    by (auto simp: load_key_def fs_read_to_string_def key_in_def intro!: wp_rules split: option.splits)
qed

lemma new_key_in:
  assumes "mb_var env (lit ''YUNXI_NEXT_MAILBOX_KEY_HEX'') = None" "mb_var env (lit ''YUNXI_MAILBOX_KEY_HEX'') = None"
    and "f (key_path st) = Some (FileNode (as_bytes (encode_hex_key key)))" "length key = 32"
  shows "key_in env st f = Some (Inr key)"
  using assms encode_hex_plain [of _ key]
  by (simp add: key_in_def from_utf8_ascii trim_no_space decode_encode_key)

definition KEY_NAME :: rstring where "KEY_NAME = lit ''data-key.hex''"

definition but_key :: "path \<Rightarrow> files \<Rightarrow> files \<Rightarrow> bool" where
  "but_key root f g \<longleftrightarrow> (\<forall>n. kept_name n \<longrightarrow> n \<noteq> KEY_NAME \<longrightarrow> g (root @ [n]) = f (root @ [n]))"

lemma but_key_refl: "but_key root f f"
  by (simp add: but_key_def)

lemma but_key_directories [simp]: "but_key root f (with_directories root g) = but_key root f g"
  by (simp add: but_key_def)

lemma but_key_write [simp]: "but_key (ms_root st) f (g(key_path st := x)) = but_key (ms_root st) f g"
  by (auto simp: but_key_def key_path_def path_join_def KEY_NAME_def)

definition random_ok :: "mailbox_env \<Rightarrow> bool" where
  "random_ok env \<longleftrightarrow> (\<forall>k. mb_random_key env = Inr k \<longrightarrow> length k = 32) \<and>
     (\<forall>n. mb_random_nonce env = Inr n \<longrightarrow> length n = NONCE_BYTES)"

lemma wp_create_key:
  assumes "random_ok env" "no_variable env" "but_key (ms_root st) f0 f"
    and err: "\<And>e g. but_key (ms_root st) f0 g \<Longrightarrow> Q (Inl e) g"
    and ok: "\<And>k g. but_key (ms_root st) f0 g \<Longrightarrow> key_in env st g = Some (Inr k) \<Longrightarrow> Q (Inr k) g"
  shows "wp (but_key (ms_root st) f0) (create_key env st) Q f"
proof -
  let ?b = "but_key (ms_root st) f0"
  let ?p = "key_path st"
  have make: "wp ?b (\<lambda>d. case fs_create_new ?p d of
        (Inr _, d1) \<Rightarrow>
          act_then (act_map_err (MbIo ?p) (act_then (fs_write_all ?p (as_bytes (encode_hex_key key))) fs_sync)) (ret key) d1
      | (Inl IoAlreadyExists, d1) \<Rightarrow> load_key env st d1
      | (Inl e, d1) \<Rightarrow> (Inl (MbIo ?p e), d1)) Q g"
    if g: "?b g" and key: "length key = 32" for key g
  proof (rule wp_either [where m = "fs_create_new ?p" and k = "\<lambda>r. case r of
        Inr _ \<Rightarrow> act_then (act_map_err (MbIo ?p) (act_then (fs_write_all ?p (as_bytes (encode_hex_key key))) fs_sync)) (ret key)
      | Inl IoAlreadyExists \<Rightarrow> load_key env st
      | Inl e \<Rightarrow> throw (MbIo ?p e)"])
    have key': "key_in env st (g(?p \<mapsto> FileNode (as_bytes (encode_hex_key key)))) = Some (Inr key)"
      using assms(2) key by (intro new_key_in) simp_all
    show "wp ?b (fs_create_new ?p) (\<lambda>r. wp ?b (case r of
        Inr _ \<Rightarrow> act_then (act_map_err (MbIo ?p) (act_then (fs_write_all ?p (as_bytes (encode_hex_key key))) fs_sync)) (ret key)
      | Inl IoAlreadyExists \<Rightarrow> load_key env st
      | Inl e \<Rightarrow> throw (MbIo ?p e)) Q) g"
      using g err ok key'
      by (intro wp_create_new) (auto intro!: wp_rules wp_load_key split: io_error.splits)
  qed (auto simp: throw_def split: prod.splits sum.splits io_error.splits)
  have "wp ?b (act_bind (lift_res (map_err (\<lambda>e. MbCrypto (lit ''key generation failed: '' @ e)) (mb_random_key env))) (\<lambda>key.
     (\<lambda>d. case fs_create_new ?p d of
        (Inr _, d1) \<Rightarrow>
          act_then (act_map_err (MbIo ?p)
                     (act_then (fs_write_all ?p (as_bytes (encode_hex_key key))) fs_sync))
                   (ret key) d1
      | (Inl IoAlreadyExists, d1) \<Rightarrow> load_key env st d1
      | (Inl e, d1) \<Rightarrow> (Inl (MbIo ?p e), d1)))) Q (with_directories (ms_root st) f)"
    by (rule wp_bind, rule wp_lift_res)
      (use assms(1,3) err in \<open>cases "mb_random_key env"; simp add: make random_ok_def\<close>)
  then show ?thesis
    using assms(3) err unfolding create_key_def
    by (intro wp_then wp_map_err wp_make_directories) simp_all
qed

lemma wp_load_or_create_key:
  assumes "random_ok env" "but_key (ms_root st) f0 f"
    and err: "\<And>e g. but_key (ms_root st) f0 g \<Longrightarrow> Q (Inl e) g"
    and ok: "\<And>k g. but_key (ms_root st) f0 g \<Longrightarrow> key_in env st g = Some (Inr k) \<Longrightarrow> Q (Inr k) g"
  shows "wp (but_key (ms_root st) f0) (load_or_create_key env st) Q f"
proof (rule wp_either [where m = "load_key env st" and k = "\<lambda>r. case r of
      Inr key \<Rightarrow> ret key | Inl (MbIo p IoNotFound) \<Rightarrow> create_key env st | Inl e \<Rightarrow> throw e"])
  show "wp (but_key (ms_root st) f0) (load_key env st) (\<lambda>r. wp (but_key (ms_root st) f0) (case r of
      Inr key \<Rightarrow> ret key | Inl (MbIo p IoNotFound) \<Rightarrow> create_key env st | Inl e \<Rightarrow> throw e) Q) f"
  proof (rule wp_load_key)
    fix e
    assume "\<And>p x. e = MbIo p x \<Longrightarrow> no_variable env"
    then show "wp (but_key (ms_root st) f0) (case Inl e of
      Inr key \<Rightarrow> ret key | Inl (MbIo p IoNotFound) \<Rightarrow> create_key env st | Inl e \<Rightarrow> throw e) Q f"
      using assms by (auto intro!: wp_rules wp_create_key split: mailbox_error.splits io_error.splits)
  qed (use assms in \<open>auto intro!: wp_rules\<close>)
qed (auto simp: load_or_create_key_def ret_def throw_def split: prod.splits sum.splits mailbox_error.splits io_error.splits)

end
