(* ===== verification/Mailbox_Claims.thy ===== *)
theory Mailbox_Claims
  imports Mailbox_Props "HOL-Library.Code_Target_Nat"
begin

text \<open>
  The properties of the mailbox: an item is enqueued once per idempotency key and is opened to the content
  that was enqueued; a listing is bounded and sorted; and two crashes the store does not recover from.
\<close>

section \<open>What an enqueue leaves behind\<close>

definition seal_and_save ::
  "mailbox_env \<Rightarrow> mailbox_store \<Rightarrow> mailbox_enqueue_request \<Rightarrow> rstring list \<Rightarrow> encrypted_item \<Rightarrow> u8 list \<Rightarrow>
   mailbox_mutation_result mb_act" where
  "seal_and_save env st q warnings item key =
     act_bind (lift_res (mailbox_encrypt env key (as_bytes (eq_content q)) (item_aad item))) (\<lambda>(nonce, ciphertext).
       let sealed = item\<lparr>ei_nonce := mb_base64 env nonce, ei_ciphertext := mb_base64 env ciphertext\<rparr> in
       act_then (lift_res (validate_item sealed))
      (act_then (save_item env st sealed)
      (ret \<lparr>mu_item = Some (item_summary sealed), mu_created = True, mu_warnings = warnings\<rparr>)))"

definition enqueue_rest ::
  "mailbox_env \<Rightarrow> mailbox_store \<Rightarrow> mailbox_enqueue_request \<Rightarrow> encrypted_item list \<Rightarrow> rstring list \<Rightarrow> mailbox_mutation_result mb_act" where
  "enqueue_rest env st q items warnings =
     (case find (\<lambda>i. ei_key i = eq_idempotency_key q) items of
       Some existing \<Rightarrow> ret \<lparr>mu_item = Some (item_summary existing), mu_created = False, mu_warnings = warnings\<rparr>
     | None \<Rightarrow>
         act_then (act_map_err (MbIo (ms_root st)) (fs_create_dir_all (ms_root st)))
        (act_bind now_millis (\<lambda>now.
         case find (\<lambda>i. ei_id i = item_id_of (eq_idempotency_key q)) items of
           Some existing \<Rightarrow> throw (MbIdempotencyCollision (ei_key existing))
         | None \<Rightarrow> act_bind (load_or_create_key env st) (seal_and_save env st q warnings (unsealed_item q now)))))"

lemma mailbox_enqueue_rest:
  "mailbox_enqueue env st q =
     act_then (lift_res (mailbox_require_write st))
    (act_then (lift_res (validate_enqueue q))
    (act_bind (load_items env st) (\<lambda>(items, warnings). enqueue_rest env st q items warnings)))"
proof -
  have "ei_id (unsealed_item q now) = item_id_of (eq_idempotency_key q)" for now
    by (simp add: unsealed_item_def)
  then show ?thesis
    by (simp add: mailbox_enqueue_def enqueue_rest_def seal_and_save_def [abs_def] Let_def cong: option.case_cong)
qed

definition sealed_for :: "mailbox_env \<Rightarrow> mailbox_enqueue_request \<Rightarrow> u8 list \<Rightarrow> encrypted_item \<Rightarrow> bool" where
  "sealed_for env q k i \<longleftrightarrow> (\<exists>now nonce ciphertext.
     mailbox_encrypt env k (as_bytes (eq_content q)) (item_aad (unsealed_item q now)) = Inr (nonce, ciphertext) \<and>
     i = (unsealed_item q now)\<lparr>ei_nonce := mb_base64 env nonce, ei_ciphertext := mb_base64 env ciphertext\<rparr>)"

text \<open>The item is saved under its id, its key is at hand, and every other name is as it was.\<close>

definition enqueued ::
  "mailbox_env \<Rightarrow> mailbox_store \<Rightarrow> mailbox_enqueue_request \<Rightarrow> files \<Rightarrow> encrypted_item \<Rightarrow> u8 list \<Rightarrow> files \<Rightarrow> bool" where
  "enqueued env st q f i k g \<longleftrightarrow>
     sealed_for env q k i \<and> validate_item i = Inr () \<and> key_in env st g = Some (Inr k) \<and>
     item_at env g (item_path st (ei_id i)) = Some i \<and>
     (\<forall>n. kept_name n \<longrightarrow> n \<noteq> KEY_NAME \<longrightarrow> ms_root st @ [n] \<notin> {item_path st (ei_id i), backup_path (item_path st (ei_id i))} \<longrightarrow>
       g (ms_root st @ [n]) = f (ms_root st @ [n]))"

lemma sealed_for_fields:
  "sealed_for env q k i \<Longrightarrow> ei_id i = item_id_of (eq_idempotency_key q) \<and> ei_key i = eq_idempotency_key q \<and> \<not> ei_read i"
  by (auto simp: sealed_for_def unsealed_item_def)

lemma enqueued_fields:
  "enqueued env st q f i k g \<Longrightarrow>
   ei_id i = item_id_of (eq_idempotency_key q) \<and> ei_key i = eq_idempotency_key q \<and> \<not> ei_read i"
  unfolding enqueued_def by (elim conjE) (rule sealed_for_fields)

lemma key_not_json: "\<not> is_json (root @ [KEY_NAME])"
proof -
  have "snd (file_parts KEY_NAME) = Some (lit ''hex'')" by code_simp
  then show ?thesis by (simp add: is_json_def path_extension_def lit_def)
qed

lemma key_apart:
  assumes "json_path root p"
  shows "root @ [KEY_NAME] \<notin> {p, backup_path p}"
proof -
  obtain s where s: "p = root @ [s @ lit ''.json'']" "backup_path p = root @ [s @ lit ''.json.bak'']"
    using assms by (rule json_backup)
  have "last KEY_NAME = ch CHR ''x''" "last (s @ lit ''.json'') = ch CHR ''n''" "last (s @ lit ''.json.bak'') = ch CHR ''k''"
    by (simp_all add: KEY_NAME_def lit_def ch_def)
  then have "KEY_NAME \<noteq> s @ lit ''.json''" "KEY_NAME \<noteq> s @ lit ''.json.bak''"
    by (auto simp: ch_def)
  then show ?thesis using s by simp
qed

lemma wp_seal_and_save:
  assumes "mailbox_codec env" "but_key (ms_root st) f g" "key_in env st g = Some (Inr k)"
    and err: "\<And>e g. Q (Inl e) g"
    and created: "\<And>i g. enqueued env st q f i k g \<Longrightarrow>
       Q (Inr \<lparr>mu_item = Some (item_summary i), mu_created = True, mu_warnings = w\<rparr>) g"
    and sealed: "sealed_for env q k i"
  shows "wp (\<lambda>_. True) (act_then (lift_res (validate_item i)) (act_then (save_item env st i)
      (ret \<lparr>mu_item = Some (item_summary i), mu_created = True, mu_warnings = w\<rparr>))) Q g"
proof (cases "validate_item i")
  case (Inl e)
  then show ?thesis using err by (auto intro!: wp_rules)
next
  case (Inr u)
  let ?p = "item_path st (ei_id i)"
  have p: "json_path (ms_root st) ?p"
    using Inr valid_id_name(3) by (auto simp: validate_item_def res_bind_Inr split: if_splits)
  have "enqueued env st q f i k h" if "other_names (ms_root st) ?p g h" "item_at env h ?p = Some i" for h
  proof -
    have "h (key_path st) = g (key_path st)"
      using that(1) key_apart [OF p] unfolding other_names_def key_path_def path_join_def KEY_NAME_def
      by (auto simp: lit_def dot_def ch_def kept_name_def)
    then have key: "key_in env st h = Some (Inr k)" using assms(3) key_in_cong by metis
    have names: "h (ms_root st @ [n]) = f (ms_root st @ [n])"
      if "kept_name n" "n \<noteq> KEY_NAME" "ms_root st @ [n] \<notin> {?p, backup_path ?p}" for n
    proof -
      have "h (ms_root st @ [n]) = g (ms_root st @ [n])"
        using that \<open>other_names (ms_root st) ?p g h\<close> unfolding other_names_def by blast
      also have "\<dots> = f (ms_root st @ [n])" using that assms(2) unfolding but_key_def by blast
      finally show ?thesis .
    qed
    have "validate_item i = Inr ()" using Inr by simp
    then show ?thesis
      unfolding enqueued_def by (intro conjI allI impI sealed key that(2) names)
  qed
  then have "wp (other_names (ms_root st) ?p g) (save_item env st i) (\<lambda>r h. case r of
      Inl e \<Rightarrow> Q (Inl e) h
    | Inr x \<Rightarrow> Q (Inr \<lparr>mu_item = Some (item_summary i), mu_created = True, mu_warnings = w\<rparr>) h) g"
    using err created by (intro wp_save_item assms(1)) auto
  then have "wp (\<lambda>_. True) (save_item env st i) (\<lambda>r h. case r of
      Inl e \<Rightarrow> Q (Inl e) h
    | Inr x \<Rightarrow> Q (Inr \<lparr>mu_item = Some (item_summary i), mu_created = True, mu_warnings = w\<rparr>) h) g"
    by (rule wp_weaken) simp_all
  then have "wp (\<lambda>_. True) (act_then (save_item env st i)
      (ret \<lparr>mu_item = Some (item_summary i), mu_created = True, mu_warnings = w\<rparr>)) Q g"
    by (intro wp_then) (auto elim!: wp_mono intro: wp_ret split: sum.splits)
  then show ?thesis using Inr by (intro wp_then wp_lift_res) simp
qed

lemma wp_enqueue_rest:
  assumes "mailbox_codec env" "random_ok env"
    and err: "\<And>e g. Q (Inl e) g"
    and existing: "\<And>i. find (\<lambda>i. ei_key i = eq_idempotency_key q) items = Some i \<Longrightarrow>
       Q (Inr \<lparr>mu_item = Some (item_summary i), mu_created = False, mu_warnings = w\<rparr>) f"
    and created: "\<And>i k g. find (\<lambda>i. ei_key i = eq_idempotency_key q) items = None \<Longrightarrow>
       find (\<lambda>i. ei_id i = item_id_of (eq_idempotency_key q)) items = None \<Longrightarrow> enqueued env st q f i k g \<Longrightarrow>
       Q (Inr \<lparr>mu_item = Some (item_summary i), mu_created = True, mu_warnings = w\<rparr>) g"
  shows "wp (\<lambda>_. True) (enqueue_rest env st q items w) Q f"
proof (cases "find (\<lambda>i. ei_key i = eq_idempotency_key q) items")
  case (Some i)
  then show ?thesis using existing by (auto simp: enqueue_rest_def intro!: wp_ret)
next
  case no_key: None
  let ?wd = "with_directories (ms_root st) f"
  have seal: "wp (\<lambda>_. True) (seal_and_save env st q w (unsealed_item q now) key) Q g"
    if g: "but_key (ms_root st) f g" "key_in env st g = Some (Inr key)"
      and no_id: "find (\<lambda>i. ei_id i = item_id_of (eq_idempotency_key q)) items = None" for g key now
  proof (cases "mailbox_encrypt env key (as_bytes (eq_content q)) (item_aad (unsealed_item q now))")
    case (Inl e)
    then show ?thesis unfolding seal_and_save_def by (intro wp_bind wp_lift_res) (simp add: err)
  next
    case (Inr x)
    obtain nonce ciphertext where x: "x = (nonce, ciphertext)" by fastforce
    have "sealed_for env q key ((unsealed_item q now)\<lparr>ei_nonce := mb_base64 env nonce, ei_ciphertext := mb_base64 env ciphertext\<rparr>)"
      using Inr x by (auto simp: sealed_for_def)
    from wp_seal_and_save [OF assms(1) g err created [OF no_key no_id] this] show ?thesis
      using Inr x unfolding seal_and_save_def by (intro wp_bind wp_lift_res) (simp add: Let_def)
  qed
  have keyed: "wp (\<lambda>_. True) (act_bind (load_or_create_key env st) (seal_and_save env st q w (unsealed_item q now))) Q ?wd"
    if no_id: "find (\<lambda>i. ei_id i = item_id_of (eq_idempotency_key q)) items = None" for now
  proof (rule wp_bind, rule wp_weaken [OF wp_load_or_create_key [OF assms(2), where ?f0.0 = f]])
    show "but_key (ms_root st) f ?wd" by (simp add: but_key_refl)
  next
    fix r :: "u8 list mb_res" and g
    assume "case r of Inl e \<Rightarrow> True | Inr key \<Rightarrow> but_key (ms_root st) f g \<and> key_in env st g = Some (Inr key)"
    then show "case r of Inl e \<Rightarrow> Q (Inl e) g
        | Inr key \<Rightarrow> wp (\<lambda>_. True) (seal_and_save env st q w (unsealed_item q now) key) Q g"
      using seal no_id err by (cases r) simp_all
  qed simp_all
  have "wp (\<lambda>_. True) (case find (\<lambda>i. ei_id i = item_id_of (eq_idempotency_key q)) items of
           Some existing \<Rightarrow> throw (MbIdempotencyCollision (ei_key existing))
         | None \<Rightarrow> act_bind (load_or_create_key env st) (seal_and_save env st q w (unsealed_item q now))) Q ?wd" for now
    using keyed err by (cases "find (\<lambda>i. ei_id i = item_id_of (eq_idempotency_key q)) items") (auto intro!: wp_throw)
  then have "wp (\<lambda>_. True) (act_bind now_millis (\<lambda>now.
         case find (\<lambda>i. ei_id i = item_id_of (eq_idempotency_key q)) items of
           Some existing \<Rightarrow> throw (MbIdempotencyCollision (ei_key existing))
         | None \<Rightarrow> act_bind (load_or_create_key env st) (seal_and_save env st q w (unsealed_item q now)))) Q ?wd"
    by (intro wp_bind wp_now_millis) simp
  then show ?thesis
    unfolding enqueue_rest_def no_key option.case
    by (intro wp_then wp_map_err wp_make_directories) (simp_all add: err)
qed

lemma wp_enqueue:
  assumes "mailbox_codec env" "random_ok env"
    and err: "\<And>e g. Q (Inl e) g"
    and existing: "\<And>i w. i \<in> set (stored_items env st f) \<Longrightarrow> ei_key i = eq_idempotency_key q \<Longrightarrow>
       Q (Inr \<lparr>mu_item = Some (item_summary i), mu_created = False, mu_warnings = w\<rparr>) f"
    and created: "\<And>i k g w. enqueued env st q f i k g \<Longrightarrow>
       Q (Inr \<lparr>mu_item = Some (item_summary i), mu_created = True, mu_warnings = w\<rparr>) g"
  shows "wp (\<lambda>_. True) (mailbox_enqueue env st q) Q f"
proof -
  have "wp (\<lambda>_. True) (enqueue_rest env st q items w) Q f" if "set items \<subseteq> set (stored_items env st f)" for items w
    using that by (intro wp_enqueue_rest assms) (auto simp: find_Some_iff)
  then show ?thesis
    unfolding mailbox_enqueue_rest by (intro wp_then wp_lift_res)
      (auto intro!: wp_then wp_lift_res wp_bind wp_load_items err split: sum.splits)
qed

section \<open>One item per idempotency key\<close>

text \<open>The mailbox directory can be listed in full: it is there (or empty) and within the scan limit.\<close>

definition listable :: "mailbox_env \<Rightarrow> mailbox_store \<Rightarrow> files \<Rightarrow> bool" where
  "listable env st f \<longleftrightarrow>
     lists_all (mb_list env) (ms_root st) f \<and> length (mb_list env f (ms_root st)) \<le> MAX_SCANNED_ITEMS \<and>
     (f (ms_root st) = Some DirNode \<or> f (ms_root st) = None \<and> mb_list env f (ms_root st) = [])"

lemma listable_load:
  assumes "serving d" "listable env st (dk_files d)"
  shows "\<exists>w. load_items env st d = (Inr (stored_items env st (dk_files d), w), d)"
proof (cases "dk_files d (ms_root st) = Some DirNode")
  case True
  then show ?thesis using serving_load_items assms by (simp add: listable_def)
next
  case False
  then have "dk_files d (ms_root st) = None" "mb_list env (dk_files d) (ms_root st) = []"
    using assms(2) by (auto simp: listable_def)
  then show ?thesis
    using assms(1) by (simp add: load_items_def fs_read_dir_def serving_call stored_items_def List.map_filter_def)
qed

lemma stored_iff:
  assumes "lists_all (mb_list env) (ms_root st) f"
  shows "i \<in> set (stored_items env st f) \<longleftrightarrow>
    (\<exists>n. is_json (ms_root st @ [n]) \<and> item_at env f (ms_root st @ [n]) = Some i)"
proof -
  obtain names where names: "mb_list env f (ms_root st) = map Inr names" "\<forall>n. n \<in> set names \<longleftrightarrow> f (ms_root st @ [n]) \<noteq> None"
    using assms by (auto simp: lists_all_def)
  have "f (ms_root st @ [n]) \<noteq> None" if "item_at env f (ms_root st @ [n]) = Some i" for n
    using that by (auto simp: item_at_Some)
  then show ?thesis
    using names unfolding stored_items_def set_map_filter by (force simp: entry_item_def split: if_splits)
qed

lemma enqueued_stored:
  assumes "enqueued env st q f i k g" "lists_all (mb_list env) (ms_root st) g"
  shows "i \<in> set (stored_items env st g)"
proof -
  have "is_json (item_path st (ei_id i))"
    using assms(1) valid_id_name(4) by (auto simp: enqueued_def validate_item_def res_bind_Inr split: if_splits)
  then show ?thesis
    using assms unfolding stored_iff [OF assms(2)] by (auto simp: enqueued_def item_path_def path_join_def)
qed

text \<open>C27: An enqueue whose idempotency key was enqueued before answers with the item stored under that key,
  creates nothing and changes no file, whatever subject, content and reason it carries; this holds as
  long as the directory can be read and stays within the scan limit of two thousand entries.\<close>

theorem enqueue_once_per_key:
  assumes "mailbox_codec env" "random_ok env"
    and "mailbox_enqueue env st q d = (Inr res, d1)"
    and "serving d2" "dk_files d2 = dk_files d1" "listable env st (dk_files d2)"
    and "eq_idempotency_key q2 = eq_idempotency_key q" "validate_enqueue q2 = Inr ()"
  shows "\<exists>i w. i \<in> set (stored_items env st (dk_files d2)) \<and> ei_key i = eq_idempotency_key q \<and>
    mailbox_enqueue env st q2 d2 =
      (Inr \<lparr>mu_item = Some (item_summary i), mu_created = False, mu_warnings = w\<rparr>, d2)"
proof -
  let ?Q = "\<lambda>r g. case r of Inl e \<Rightarrow> True | Inr res \<Rightarrow> lists_all (mb_list env) (ms_root st) g \<longrightarrow>
      (\<exists>i \<in> set (stored_items env st g). ei_key i = eq_idempotency_key q)"
  have "wp (\<lambda>_. True) (mailbox_enqueue env st q) ?Q (dk_files d)"
  proof (rule wp_enqueue [OF assms(1,2)])
    fix i k g w
    assume e: "enqueued env st q (dk_files d) i k g"
    show "?Q (Inr \<lparr>mu_item = Some (item_summary i), mu_created = True, mu_warnings = w\<rparr>) g"
      using enqueued_stored [OF e] enqueued_fields [OF e] by auto
  qed auto
  from wp_run [OF this assms(3)] obtain i0 where
    i0: "i0 \<in> set (stored_items env st (dk_files d2))" "ei_key i0 = eq_idempotency_key q"
    using assms(5,6) by (auto simp: listable_def)
  then have "find (\<lambda>i. ei_key i = eq_idempotency_key q2) (stored_items env st (dk_files d2)) \<noteq> None"
    using assms(7) by (auto simp: find_None_iff)
  then obtain i where i: "find (\<lambda>i. ei_key i = eq_idempotency_key q2) (stored_items env st (dk_files d2)) = Some i"
    by blast
  then have "i \<in> set (stored_items env st (dk_files d2))" "ei_key i = eq_idempotency_key q"
    using assms(7) by (auto simp: find_Some_iff)
  moreover have "mailbox_require_write st = Inr ()"
    using assms(3) by (cases "mailbox_require_write st") (auto simp: mailbox_enqueue_def act_then_def act_bind_def lift_res_def)
  moreover obtain w where "load_items env st d2 = (Inr (stored_items env st (dk_files d2), w), d2)"
    using listable_load [OF assms(4,6)] by blast
  ultimately show ?thesis
    using i assms(8)
    by (auto simp: mailbox_enqueue_rest enqueue_rest_def act_then_def act_bind_def lift_res_def ret_def)
qed

section \<open>Opening what was enqueued\<close>

text \<open>What the cipher and base64 promise.\<close>

definition mailbox_crypto :: "mailbox_env \<Rightarrow> bool" where
  "mailbox_crypto env \<longleftrightarrow>
     (\<forall>k n p a c. length k = 32 \<longrightarrow> mb_seal env k n p a = Some c \<longrightarrow> mb_open env k n c a = Some p) \<and>
     (\<forall>b. mb_unbase64 env (mb_base64 env b) = Some b)"

lemma sealed_opens:
  assumes "mailbox_crypto env" "random_ok env" "sealed_for env q k i" "\<forall>c \<in> set (eq_content q). is_scalar c"
  shows "open_item env k i = Inr (eq_content q)"
proof -
  obtain now nonce c where i: "i = (unsealed_item q now)\<lparr>ei_nonce := mb_base64 env nonce, ei_ciphertext := mb_base64 env c\<rparr>"
    and e: "mailbox_encrypt env k (as_bytes (eq_content q)) (item_aad (unsealed_item q now)) = Inr (nonce, c)"
    using assms(3) by (auto simp: sealed_for_def)
  have k: "length k = 32" and n: "length nonce = NONCE_BYTES"
    and seal: "mb_seal env k nonce (as_bytes (eq_content q)) (item_aad (unsealed_item q now)) = Some c"
    using e assms(2) by (auto simp: mailbox_encrypt_def res_bind_Inr random_ok_def split: if_splits option.splits)
  have "item_aad i = item_aad (unsealed_item q now)" by (simp add: i item_aad_def)
  then show ?thesis
    using assms(1,4) k n seal i
    by (simp add: open_item_def mailbox_decrypt_def mailbox_crypto_def from_utf8_as_bytes)
qed

lemma json_kept: "is_json (root @ [n]) \<Longrightarrow> kept_name n \<and> n \<noteq> KEY_NAME"
proof -
  assume j: "is_json (root @ [n])"
  then have ext: "snd (file_parts n) = Some (lit ''json'')" by (simp add: is_json_def path_extension_def)
  have "\<not> suffix (lit ''.tmp'') n"
  proof
    assume "suffix (lit ''.tmp'') n"
    then obtain s where "n = s @ lit ''.tmp''" by (auto simp: suffix_def)
    moreover have "lit ''.tmp'' = dot # lit ''tmp''" by (simp add: dot_def ch_def lit_def)
    ultimately have n: "n = s @ dot # lit ''tmp''" by simp
    show False
    proof (cases "s = []")
      case True
      then have "snd (file_parts n) = None" using n by (simp, code_simp)
      then show False using ext by simp
    next
      case False
      have "file_parts n = (s, Some (lit ''tmp''))"
        unfolding n using False
        by (intro file_parts_append) (auto simp: dot_def ch_def lit_def append_eq_Cons_conv Cons_eq_append_conv)
      then show False using ext by (simp add: lit_def)
    qed
  qed
  moreover have "snd (file_parts []) = None" by code_simp
  then have "n \<noteq> []" using ext by auto
  ultimately show ?thesis using key_not_json j by (auto simp: kept_name_def)
qed

lemma backup_not_json:
  assumes "json_path root p"
  shows "\<not> is_json (backup_path p)"
proof -
  obtain s where s: "s \<noteq> []" "backup_path p = root @ [s @ lit ''.json.bak'']"
    using assms by (rule json_backup)
  have "lit ''.json.bak'' = dot # lit ''json.bak''" by (simp add: dot_def ch_def lit_def)
  then have "snd (file_parts (s @ lit ''.json.bak'')) = Some (lit ''bak'')"
    using json_bak_parts [OF s(1)] by simp
  then show ?thesis using s(2) by (simp add: is_json_def path_extension_def lit_def)
qed

text \<open>Only the new item has its id: the others were read before the id was taken.\<close>

lemma enqueued_unique:
  assumes e: "enqueued env st q f i k g"
    and "lists_all (mb_list env) (ms_root st) f" "lists_all (mb_list env) (ms_root st) g"
    and fresh: "find (\<lambda>i. ei_id i = item_id_of (eq_idempotency_key q)) (stored_items env st f) = None"
    and j: "j \<in> set (stored_items env st g)" "ei_id j = item_id_of (eq_idempotency_key q)"
  shows "j = i"
proof -
  let ?p = "item_path st (ei_id i)"
  have p: "json_path (ms_root st) ?p"
    using e valid_id_name(3) by (auto simp: enqueued_def validate_item_def res_bind_Inr split: if_splits)
  obtain n where n: "is_json (ms_root st @ [n])" "item_at env g (ms_root st @ [n]) = Some j"
    using j(1) unfolding stored_iff [OF assms(3)] by blast
  show ?thesis
  proof (cases "ms_root st @ [n] = ?p")
    case True
    then show ?thesis using n(2) e by (simp add: enqueued_def)
  next
    case False
    then have "g (ms_root st @ [n]) = f (ms_root st @ [n])"
      using e n(1) json_kept [OF n(1)] backup_not_json [OF p] unfolding enqueued_def by auto
    then have "item_at env f (ms_root st @ [n]) = Some j" using n(2) by (simp add: item_at_def)
    then have "j \<in> set (stored_items env st f)" using n(1) unfolding stored_iff [OF assms(2)] by blast
    then show ?thesis using fresh j(2) by (auto simp: find_None_iff)
  qed
qed

text \<open>C28: What an enqueue created is what a get opens: the id the enqueue answered with leads to the item
  with its summary and the very content that was enqueued, under the key of the environment, of the key
  file, or freshly generated by the enqueue.\<close>

theorem enqueued_content_is_opened:
  assumes "mailbox_codec env" "random_ok env" "mailbox_crypto env" "\<forall>c \<in> set (eq_content q). is_scalar c"
    and "serving d" "listable env st (dk_files d)"
    and "mailbox_enqueue env st q d = (Inr res, d1)" "mu_created res" "mu_item res = Some s"
    and "serving d2" "dk_files d2 = dk_files d1" "listable env st (dk_files d2)"
  shows "\<exists>w. mailbox_get env st \<lparr>gq_grant = g, gq_item_id = my_id s\<rparr> d2 =
    (Inr \<lparr>gr_entry = Some \<lparr>me_summary = s, me_content = eq_content q\<rparr>, gr_warnings = w\<rparr>, d2)"
proof -
  obtain w where load: "load_items env st d = (Inr (stored_items env st (dk_files d), w), d)"
    using listable_load [OF assms(5,6)] by blast
  have rest: "enqueue_rest env st q (stored_items env st (dk_files d)) w d = (Inr res, d1)"
    using assms(7) load
    by (cases "mailbox_require_write st"; cases "validate_enqueue q")
      (simp_all add: mailbox_enqueue_rest act_then_def act_bind_def lift_res_def)
  let ?Q = "\<lambda>r g. case r of Inl e \<Rightarrow> True | Inr res \<Rightarrow> mu_created res \<longrightarrow>
      find (\<lambda>i. ei_id i = item_id_of (eq_idempotency_key q)) (stored_items env st (dk_files d)) = None \<and>
      (\<exists>i k. mu_item res = Some (item_summary i) \<and> enqueued env st q (dk_files d) i k g)"
  have "wp (\<lambda>_. True) (enqueue_rest env st q (stored_items env st (dk_files d)) w) ?Q (dk_files d)"
    by (rule wp_enqueue_rest [OF assms(1,2)]) auto
  from wp_run [OF this rest] assms(8,9,11) obtain i k where
    fresh: "find (\<lambda>i. ei_id i = item_id_of (eq_idempotency_key q)) (stored_items env st (dk_files d)) = None"
    and s: "s = item_summary i" and e: "enqueued env st q (dk_files d) i k (dk_files d2)"
    by auto
  note all = assms(6) [unfolded listable_def, THEN conjunct1] assms(12) [unfolded listable_def, THEN conjunct1]
  have id: "my_id s = ei_id i" "ei_id i = item_id_of (eq_idempotency_key q)"
    using s enqueued_fields [OF e] by (simp_all add: item_summary_def)
  have found: "find (\<lambda>j. ei_id j = ei_id i) (stored_items env st (dk_files d2)) = Some i"
  proof (cases "find (\<lambda>j. ei_id j = ei_id i) (stored_items env st (dk_files d2))")
    case None
    then have False using enqueued_stored [OF e all(2)] by (auto simp: find_None_iff)
    then show ?thesis ..
  next
    case (Some j)
    then have "j \<in> set (stored_items env st (dk_files d2))" "ei_id j = item_id_of (eq_idempotency_key q)"
      using id(2) by (auto simp: find_Some_iff)
    then show ?thesis using Some enqueued_unique [OF e all fresh] by blast
  qed
  have "validate_item_id (ei_id i) = Inr ()"
    using e by (auto simp: enqueued_def validate_item_def res_bind_Inr split: if_splits)
  moreover have "load_key env st d2 = (Inr k, d2)"
    using serving_load_key [OF assms(10)] e by (simp add: enqueued_def)
  moreover have "open_item env k i = Inr (eq_content q)"
    using sealed_opens [OF assms(3,2) _ assms(4)] e by (simp add: enqueued_def)
  moreover obtain w' where "load_items env st d2 = (Inr (stored_items env st (dk_files d2), w'), d2)"
    using listable_load [OF assms(10,12)] by blast
  ultimately show ?thesis
    using found s id
    by (simp add: mailbox_get_def act_then_def act_bind_def lift_res_def ret_def)
qed

section \<open>Listing\<close>

definition summary_order :: "mailbox_summary \<Rightarrow> mailbox_summary \<Rightarrow> bool" where
  "summary_order l r \<longleftrightarrow> my_created_at r < my_created_at l \<or> (my_created_at r = my_created_at l \<and> my_id r \<le> my_id l)"

lemma newest_first_summary: "newest_first l r = summary_order (item_summary l) (item_summary r)"
  by (simp add: newest_first_def summary_order_def item_summary_def)

lemma sorted_newest: "sorted_wrt newest_first (sort_by newest_first xs)"
  by (rule sorted_sort_by) (auto simp: newest_first_def)

text \<open>A listing answers with at most the limit (at least one and at most two hundred items), newest
  first and then by descending id, of the stored items (of the unread ones when asked), all of them
  unless it says it is truncated; the unread count is over all stored items, whatever is shown.\<close>

theorem listing_is_newest_first:
  assumes "serving d" "listable env st (dk_files d)"
  shows "\<exists>res. mailbox_list env st q d = (Inr res, d) \<and>
    length (lr_items res) \<le> max 1 (min (lq_limit q) MAX_LIST_LIMIT) \<and>
    sorted_wrt summary_order (lr_items res) \<and>
    set (lr_items res) \<subseteq> item_summary ` {i \<in> set (stored_items env st (dk_files d)). lq_unread_only q \<longrightarrow> \<not> ei_read i} \<and>
    (\<not> lr_truncated res \<longrightarrow>
       set (lr_items res) = item_summary ` {i \<in> set (stored_items env st (dk_files d)). lq_unread_only q \<longrightarrow> \<not> ei_read i}) \<and>
    lr_unread_count res = length (filter (\<lambda>i. \<not> ei_read i) (stored_items env st (dk_files d)))"
proof -
  let ?stored = "stored_items env st (dk_files d)"
  let ?wanted = "sort_by newest_first (filter (\<lambda>i. \<not> lq_unread_only q \<or> \<not> ei_read i) ?stored)"
  let ?limit = "max 1 (min (lq_limit q) MAX_LIST_LIMIT)"
  obtain w where "load_items env st d = (Inr (?stored, w), d)"
    using listable_load [OF assms] by blast
  then have run: "mailbox_list env st q d = (Inr \<lparr>lr_items = map item_summary (take ?limit ?wanted),
      lr_unread_count = length (filter (\<lambda>i. \<not> ei_read i) ?stored), lr_warnings = w, lr_truncated = (?limit < length ?wanted)\<rparr>, d)"
    by (simp add: mailbox_list_def act_bind_def ret_def Let_def)
  have all: "set ?wanted = {i \<in> set ?stored. lq_unread_only q \<longrightarrow> \<not> ei_read i}" by auto
  have sub: "set (take ?limit ?wanted) \<subseteq> set ?wanted" by (rule set_take_subset)
  have sorted: "sorted_wrt summary_order (map item_summary (take ?limit ?wanted))"
    unfolding sorted_wrt_map newest_first_summary [symmetric] by (intro sorted_wrt_take sorted_newest)
  have whole: "take ?limit ?wanted = ?wanted" if "\<not> ?limit < length ?wanted"
    using that unfolding not_less by (rule take_all)
  show ?thesis
    unfolding run all [symmetric]
    by (intro exI conjI, rule refl) (use sorted sub whole in auto)
qed

section \<open>A replacement that is interrupted\<close>

definition sole_file :: "mailbox_env \<Rightarrow> mailbox_store \<Rightarrow> files \<Rightarrow> encrypted_item \<Rightarrow> bool" where
  "sole_file env st f i \<longleftrightarrow> item_at env f (item_path st (ei_id i)) = Some i \<and>
     (\<forall>n j. is_json (ms_root st @ [n]) \<longrightarrow> item_at env f (ms_root st @ [n]) = Some j \<longrightarrow> ei_id j = ei_id i \<longrightarrow>
       ms_root st @ [n] = item_path st (ei_id i))"

lemma serving_now: "\<exists>t d1. now_millis d = (Inr t, d1) \<and> dk_files d1 = dk_files d \<and> dk_past d1 = dk_past d \<and> (serving d \<longrightarrow> serving d1)"
  by (auto simp: now_millis_def sys_nanos_def act_bind_def ret_def serving_def split: list.splits)

lemma moments_later: "dk_past d1 = dk_past d @ xs \<Longrightarrow> moments d1 d' \<subseteq> moments d d'"
  by (auto simp: moments_def set_drop_subset_set_drop le_add1 dest: subsetD [OF set_drop_subset_set_drop])

text \<open>Saving over an existing item passes through a moment at which the item is in the backup only.\<close>

lemma save_item_gap:
  assumes "serving d" "validate_item i = Inr ()" "dk_files d (item_path st (ei_id i)) = Some (FileNode c)"
    and "dk_files d (backup_path (item_path st (ei_id i))) = None"
    and "\<And>u. dk_files d (ms_root st @ [mailbox_temporary (mb_pid env) u]) = None"
    and "save_item env st i d = (Inr (), d')"
  shows "\<exists>f \<in> moments d d'. \<exists>u content.
    f = (with_directories (ms_root st) (dk_files d))(ms_root st @ [mailbox_temporary (mb_pid env) u] \<mapsto> FileNode content,
          item_path st (ei_id i) := None, backup_path (item_path st (ei_id i)) \<mapsto> FileNode c)"
proof -
  let ?p = "item_path st (ei_id i)" and ?wd = "with_directories (ms_root st) (dk_files d)"
  have p: "json_path (ms_root st) ?p"
    using assms(2) valid_id_name(3) by (auto simp: validate_item_def res_bind_Inr split: if_splits)
  obtain n m where names: "?p = ms_root st @ [n]" "backup_path ?p = ms_root st @ [m]" "hd n \<noteq> dot" "hd m \<noteq> dot" "n \<noteq> m"
    using p by (rule json_names) blast
  have create: "fs_create_dir_all (ms_root st) d = (Inr (), put_files ?wd d)"
    using assms(1,6)
    by (auto simp: save_item_def assms(2) act_then_def act_bind_def lift_res_def act_map_err_def fs_create_dir_all_def
        serving_call with_directories_def split: if_splits)
  define d1 where "d1 = put_files ?wd d"
  obtain content where content: "mailbox_replace_file env ?p content d1 = (Inr (), d')"
    using assms(6) create
    by (auto simp: save_item_def assms(2) act_then_def act_bind_def lift_res_def act_map_err_def throw_def d1_def
        split: if_splits sum.splits)
  obtain u d2 where u: "(sys_nanos :: nat mb_act) d1 = (Inr u, d2)" "dk_files d2 = ?wd" "dk_past d2 = dk_past d1" "serving d2"
    using serving_sys_nanos [of d1] assms(1) by (auto simp: d1_def)
  let ?t = "ms_root st @ [mailbox_temporary (mb_pid env) u]"
  have t: "hd (mailbox_temporary (mb_pid env) u) = dot" by (simp add: mailbox_temporary_def lit_def dot_def ch_def)
  have swap: "fst (swap_file ?p ?t (backup_path ?p) content d2) = Inr () \<and> snd (swap_file ?p ?t (backup_path ?p) content d2) = d'"
    using content u(1)
    by (simp add: mailbox_replace_file_def json_path_parent [OF p] path_join_def act_bind_def act_map_err_def
        split: prod.splits)
  have files: "dk_files d2 ?t = None" "dk_files d2 ?p = Some (FileNode c)" "dk_files d2 (backup_path ?p) = None"
    using assms(3,4,5) u(2) with_directories_json [OF p, of "dk_files d"] by simp_all
  have "?p \<noteq> backup_path ?p" "?t \<noteq> ?p" "?t \<noteq> backup_path ?p"
    using names t unfolding names(2) unfolding names(1) by auto
  from serving_swap_gap [OF u(4) this files, of content] swap
  have "(dk_files d2)(?t \<mapsto> FileNode content, ?p := None, backup_path ?p \<mapsto> FileNode c) \<in> moments d2 d'" by auto
  moreover have "moments d2 d' \<subseteq> moments d d'"
    by (rule moments_later) (simp add: u(3) d1_def)
  ultimately show ?thesis using u(2) by auto
qed

text \<open>C33: While the read mark of an item is saved there is a moment at which no operation finds the item:
  its only copy is the backup file, which the mailbox never reads. A crash at that moment loses the item:
  a later get and every later listing answer as if it had never been there.\<close>

theorem interrupted_mark_read_loses_item:
  assumes "serving d" "listable env st (dk_files d)" "dk_files d (ms_root st) = Some DirNode"
    and "sole_file env st (dk_files d) i" "kq_item_id q = ei_id i"
    and "dk_files d (backup_path (item_path st (ei_id i))) = None"
    and "\<And>u. dk_files d (ms_root st @ [mailbox_temporary (mb_pid env) u]) = None"
    and "mailbox_mark_read env st q d = (Inr res, d')"
  shows "\<exists>f \<in> moments d d'.
    f (backup_path (item_path st (ei_id i))) = dk_files d (item_path st (ei_id i)) \<and>
    (listable env st f \<longrightarrow> (\<forall>d2. serving d2 \<and> dk_files d2 = f \<longrightarrow>
       ei_id i \<notin> ei_id ` set (stored_items env st f) \<and>
       (\<exists>w. mailbox_get env st \<lparr>gq_grant = g, gq_item_id = ei_id i\<rparr> d2 = (Inr \<lparr>gr_entry = None, gr_warnings = w\<rparr>, d2))))"
proof -
  let ?p = "item_path st (ei_id i)"
  have stored: "item_at env (dk_files d) ?p = Some i" using assms(4) by (simp add: sole_file_def)
  then obtain c where c: "dk_files d ?p = Some (FileNode c)" "validate_item i = Inr ()" by (auto simp: item_at_Some)
  have id: "validate_item_id (ei_id i) = Inr ()" using c(2) by (auto simp: validate_item_def res_bind_Inr split: if_splits)
  have p: "json_path (ms_root st) ?p" by (rule valid_id_name(3) [OF id])
  note all = assms(2) [unfolded listable_def, THEN conjunct1]
  obtain w where load: "load_items env st d = (Inr (stored_items env st (dk_files d), w), d)"
    using listable_load [OF assms(1,2)] by blast
  have "i \<in> set (stored_items env st (dk_files d))"
    using stored valid_id_name(4) [OF id, of st] unfolding stored_iff [OF all] by (auto simp: item_path_def path_join_def)
  then obtain j where j: "find (\<lambda>j. ei_id j = ei_id i) (stored_items env st (dk_files d)) = Some j"
    by (cases "find (\<lambda>j. ei_id j = ei_id i) (stored_items env st (dk_files d))") (auto simp: find_None_iff)
  obtain now d1 where now: "(now_millis :: u128 mb_act) d = (Inr now, d1)" "dk_files d1 = dk_files d" "dk_past d1 = dk_past d" "serving d1"
    using serving_now [of d] assms(1) by auto
  define marked where "marked = j\<lparr>ei_read := kq_read q, ei_updated_at := now\<rparr>"
  have mid: "ei_id marked = ei_id i" using j by (auto simp: marked_def find_Some_iff)
  obtain u where save: "save_item env st marked d1 = (Inr u, d')"
    using assms(8) load j now(1) id assms(5)
    by (cases "mailbox_require_write st"; cases "save_item env st marked d1"; cases "fst (save_item env st marked d1)")
      (auto simp: mailbox_mark_read_def act_then_def act_bind_def lift_res_def ret_def Let_def marked_def)
  then have valid: "validate_item marked = Inr ()"
    by (cases "validate_item marked") (auto simp: save_item_def act_then_def act_bind_def lift_res_def)
  obtain t content f where f: "f \<in> moments d1 d'"
    "f = (with_directories (ms_root st) (dk_files d))(ms_root st @ [mailbox_temporary (mb_pid env) t] \<mapsto> FileNode content,
          ?p := None, backup_path ?p \<mapsto> FileNode c)"
    using save_item_gap [OF now(4) valid, of st c env d'] save c(1) assms(6,7) now(2) mid by auto
  have gone: "ei_id i \<notin> ei_id ` set (stored_items env st f)" if "listable env st f"
  proof
    have listed: "lists_all (mb_list env) (ms_root st) f" using that by (simp add: listable_def)
    assume "ei_id i \<in> ei_id ` set (stored_items env st f)"
    then obtain k n where k: "ei_id k = ei_id i" "is_json (ms_root st @ [n])" "item_at env f (ms_root st @ [n]) = Some k"
      by (auto simp: stored_iff [OF listed])
    have n: "ms_root st @ [n] \<noteq> backup_path ?p" using k(2) backup_not_json [OF p] by auto
    have "ms_root st @ [n] \<noteq> ms_root st @ [mailbox_temporary (mb_pid env) t]"
      using json_kept [OF k(2)] by (auto simp: kept_name_def mailbox_temporary_def lit_def dot_def ch_def suffix_def)
    then have same: "ms_root st @ [n] \<noteq> ?p \<Longrightarrow> f (ms_root st @ [n]) = dk_files d (ms_root st @ [n])"
      using f(2) n by simp
    have "ms_root st @ [n] \<noteq> ?p" using k(3) f(2) n by (auto simp: item_at_def)
    then show False using same k assms(4) by (auto simp: sole_file_def item_at_def)
  qed
  have "f \<in> moments d d'" using f(1) now(3) moments_later [of d1 d "[]" d'] by auto
  moreover have "f (backup_path ?p) = dk_files d ?p" using f(2) c(1) by simp
  moreover have "\<exists>w. mailbox_get env st \<lparr>gq_grant = g, gq_item_id = ei_id i\<rparr> d2 = (Inr \<lparr>gr_entry = None, gr_warnings = w\<rparr>, d2)"
    if "listable env st f" "serving d2" "dk_files d2 = f" for d2
  proof -
    note h = that
    have "listable env st (dk_files d2)" using h(1) unfolding h(3) .
    from listable_load [OF h(2) this] obtain w' where "load_items env st d2 = (Inr (stored_items env st f, w'), d2)"
      unfolding h(3) by blast
    moreover have "find (\<lambda>j. ei_id j = ei_id i) (stored_items env st f) = None"
      using gone [OF h(1)] unfolding find_None_iff image_iff by metis
    ultimately show ?thesis using id
      by (simp add: mailbox_get_def act_then_def act_bind_def lift_res_def ret_def)
  qed
  ultimately show ?thesis using gone by blast
qed

section \<open>A key file that is interrupted\<close>

definition empty_key :: "mailbox_store \<Rightarrow> files \<Rightarrow> bool" where
  "empty_key st f \<longleftrightarrow> f (key_path st) = Some (FileNode [])"

lemma empty_key_directories [simp]: "empty_key st (with_directories (ms_root st) f) = empty_key st f"
  by (simp add: empty_key_def key_path_def path_join_def)

lemma wp_empty_load_key:
  assumes "no_variable env" "empty_key st f" "\<And>e. Q (Inl e) f"
  shows "wp I (load_key env st) Q f"
proof (rule wp_load_key)
  have "key_in env st f = Some (Inl (MbCrypto (lit ''mailbox key must contain 64 hex characters'')))"
    using assms(1,2) by (simp add: key_in_def empty_key_def from_utf8_def decode_hex_key_def trim_def)
  then show "Q (Inr k) f" if "key_in env st f = Some (Inr k)" for k using that by simp
qed (rule assms(3))

lemma wp_empty_create_key:
  assumes "no_variable env" "empty_key st f" "\<And>e g. empty_key st g \<Longrightarrow> Q (Inl e) g"
  shows "wp (empty_key st) (create_key env st) Q f"
proof -
  have make: "wp (empty_key st) (\<lambda>d. case fs_create_new (key_path st) d of
        (Inr _, d1) \<Rightarrow>
          act_then (act_map_err (MbIo (key_path st))
                     (act_then (fs_write_all (key_path st) (as_bytes (encode_hex_key key))) fs_sync))
                   (ret key) d1
      | (Inl IoAlreadyExists, d1) \<Rightarrow> load_key env st d1
      | (Inl e, d1) \<Rightarrow> (Inl (MbIo (key_path st) e), d1)) Q g"
    if g: "empty_key st g" for key g
  proof (rule wp_either [where m = "fs_create_new (key_path st)" and k = "\<lambda>r. case r of
        Inr _ \<Rightarrow> act_then (act_map_err (MbIo (key_path st))
                     (act_then (fs_write_all (key_path st) (as_bytes (encode_hex_key key))) fs_sync)) (ret key)
      | Inl IoAlreadyExists \<Rightarrow> load_key env st
      | Inl e \<Rightarrow> throw (MbIo (key_path st) e)"])
    have failed: "wp (empty_key st) (case Inl e of
        Inr (_ :: unit) \<Rightarrow> act_then (act_map_err (MbIo (key_path st))
                     (act_then (fs_write_all (key_path st) (as_bytes (encode_hex_key key))) fs_sync)) (ret key)
      | Inl IoAlreadyExists \<Rightarrow> load_key env st
      | Inl e \<Rightarrow> throw (MbIo (key_path st) e)) Q g" for e
      using assms g by (auto intro!: wp_throw wp_empty_load_key split: io_error.splits)
    show "wp (empty_key st) (fs_create_new (key_path st)) (\<lambda>r. wp (empty_key st) (case r of
        Inr _ \<Rightarrow> act_then (act_map_err (MbIo (key_path st))
                     (act_then (fs_write_all (key_path st) (as_bytes (encode_hex_key key))) fs_sync)) (ret key)
      | Inl IoAlreadyExists \<Rightarrow> load_key env st
      | Inl e \<Rightarrow> throw (MbIo (key_path st) e)) Q) g"
      by (rule wp_create_new) (use failed g in \<open>auto simp: empty_key_def\<close>)
  qed (auto simp: throw_def split: prod.splits sum.splits io_error.splits)
  have "wp (empty_key st) (act_bind (lift_res (map_err (\<lambda>e. MbCrypto (lit ''key generation failed: '' @ e)) (mb_random_key env))) (\<lambda>key.
     (\<lambda>d. case fs_create_new (key_path st) d of
        (Inr _, d1) \<Rightarrow>
          act_then (act_map_err (MbIo (key_path st))
                     (act_then (fs_write_all (key_path st) (as_bytes (encode_hex_key key))) fs_sync))
                   (ret key) d1
      | (Inl IoAlreadyExists, d1) \<Rightarrow> load_key env st d1
      | (Inl e, d1) \<Rightarrow> (Inl (MbIo (key_path st) e), d1)))) Q (with_directories (ms_root st) f)"
    by (rule wp_bind, rule wp_lift_res)
      (use assms in \<open>cases "mb_random_key env"; simp add: make\<close>)
  then show ?thesis
    using assms unfolding create_key_def
    by (intro wp_then wp_map_err wp_make_directories) simp_all
qed

lemma wp_empty_load_or_create_key:
  assumes "no_variable env" "empty_key st f" "\<And>e g. empty_key st g \<Longrightarrow> Q (Inl e) g"
  shows "wp (empty_key st) (load_or_create_key env st) Q f"
proof (rule wp_either [where m = "load_key env st" and k = "\<lambda>r. case r of
      Inr key \<Rightarrow> ret key | Inl (MbIo p IoNotFound) \<Rightarrow> create_key env st | Inl e \<Rightarrow> throw e"])
  show "wp (empty_key st) (load_key env st) (\<lambda>r. wp (empty_key st) (case r of
      Inr key \<Rightarrow> ret key | Inl (MbIo p IoNotFound) \<Rightarrow> create_key env st | Inl e \<Rightarrow> throw e) Q) f"
    by (rule wp_empty_load_key)
      (use assms in \<open>auto intro!: wp_throw wp_empty_create_key split: mailbox_error.splits io_error.splits\<close>)
qed (auto simp: load_or_create_key_def ret_def throw_def split: prod.splits sum.splits mailbox_error.splits io_error.splits)

definition nothing_created :: "mailbox_store \<Rightarrow> mailbox_mutation_result mb_res \<Rightarrow> files \<Rightarrow> bool" where
  "nothing_created st r g \<longleftrightarrow> empty_key st g \<and> (\<forall>res. r = Inr res \<longrightarrow> \<not> mu_created res)"

lemma wp_empty_enqueue:
  assumes "no_variable env" "empty_key st f"
  shows "wp (empty_key st) (mailbox_enqueue env st q) (nothing_created st) f"
proof -
  have failed: "nothing_created st (Inl e) g" if "empty_key st g" for e g
    using that by (simp add: nothing_created_def)
  have rest: "wp (empty_key st) (enqueue_rest env st q items w) (nothing_created st) f" for items w
  proof (cases "find (\<lambda>i. ei_key i = eq_idempotency_key q) items")
    case (Some i)
    then show ?thesis using assms by (auto simp: enqueue_rest_def nothing_created_def intro!: wp_ret)
  next
    case no_key: None
    let ?wd = "with_directories (ms_root st) f"
    have "wp (empty_key st) (act_bind (load_or_create_key env st) (seal_and_save env st q w (unsealed_item q now)))
        (nothing_created st) ?wd" for now
      by (intro wp_bind wp_empty_load_or_create_key) (use assms failed in simp_all)
    then have "wp (empty_key st) (case find (\<lambda>i. ei_id i = item_id_of (eq_idempotency_key q)) items of
           Some existing \<Rightarrow> throw (MbIdempotencyCollision (ei_key existing))
         | None \<Rightarrow> act_bind (load_or_create_key env st) (seal_and_save env st q w (unsealed_item q now)))
        (nothing_created st) ?wd" for now
      using assms failed by (auto intro!: wp_throw split: option.splits)
    then have "wp (empty_key st) (act_bind now_millis (\<lambda>now.
         case find (\<lambda>i. ei_id i = item_id_of (eq_idempotency_key q)) items of
           Some existing \<Rightarrow> throw (MbIdempotencyCollision (ei_key existing))
         | None \<Rightarrow> act_bind (load_or_create_key env st) (seal_and_save env st q w (unsealed_item q now))))
        (nothing_created st) ?wd"
      by (intro wp_bind wp_now_millis) simp
    then show ?thesis
      unfolding enqueue_rest_def no_key option.case
      by (intro wp_then wp_map_err wp_make_directories) (use assms failed in simp_all)
  qed
  show ?thesis
    unfolding mailbox_enqueue_rest by (intro wp_then wp_lift_res)
      (use assms(2) failed rest in \<open>auto intro!: wp_then wp_lift_res wp_bind wp_load_items split: sum.splits\<close>)
qed

lemma wp_empty_get:
  assumes "no_variable env" "empty_key st f"
  shows "wp (empty_key st) (mailbox_get env st q) (\<lambda>r g. empty_key st g \<and> (\<forall>res. r = Inr res \<longrightarrow> gr_entry res = None)) f"
proof -
  have opened: "wp (empty_key st) (case find (\<lambda>i. ei_id i = gq_item_id q) items of
       None \<Rightarrow> ret \<lparr>gr_entry = None, gr_warnings = w\<rparr>
     | Some item \<Rightarrow>
         act_bind (load_key env st) (\<lambda>key.
         act_bind (lift_res (open_item env key item)) (\<lambda>content.
         ret \<lparr>gr_entry = Some \<lparr>me_summary = item_summary item, me_content = content\<rparr>, gr_warnings = w\<rparr>)))
     (\<lambda>r g. empty_key st g \<and> (\<forall>res. r = Inr res \<longrightarrow> gr_entry res = None)) f" for items w
    by (cases "find (\<lambda>i. ei_id i = gq_item_id q) items")
      (use assms in \<open>auto intro!: wp_ret wp_bind wp_empty_load_key\<close>)
  show ?thesis
    unfolding mailbox_get_def by (intro wp_then wp_lift_res)
      (use assms(2) opened in \<open>auto intro!: wp_bind wp_load_items split: sum.splits\<close>)
qed

text \<open>C34: The key file is created before it is written. When the process ends in between, the empty file
  stays and is never replaced: whatever the operating system answers, no enqueue creates an item and no
  get opens one, ever again.\<close>

theorem interrupted_key_strands_mailbox:
  assumes "no_variable env" "dk_files d (key_path st) = Some (FileNode [])"
  shows "(\<forall>res d1. mailbox_enqueue env st q d = (Inr res, d1) \<longrightarrow> \<not> mu_created res) \<and>
    (\<forall>res d1. mailbox_get env st gq d = (Inr res, d1) \<longrightarrow> gr_entry res = None) \<and>
    dk_files (snd (mailbox_enqueue env st q d)) (key_path st) = Some (FileNode []) \<and>
    dk_files (snd (mailbox_get env st gq d)) (key_path st) = Some (FileNode [])"
proof -
  have f: "empty_key st (dk_files d)" using assms(2) by (simp add: empty_key_def)
  note enqueue = wp_empty_enqueue [OF assms(1) f, of q] and get = wp_empty_get [OF assms(1) f, of gq]
  show ?thesis
    using wp_run [OF enqueue surjective_pairing] wp_run [OF get surjective_pairing]
    by (auto simp: nothing_created_def empty_key_def)
qed

section \<open>A concrete mailbox\<close>

definition box_store :: mailbox_store where
  "box_store = \<lparr>ms_root = [lit ''w'', lit ''mailbox''], ms_writable = True\<rparr>"

definition box_request :: mailbox_enqueue_request where
  "box_request = \<lparr>eq_grant = grant_read_write [lit ''w''], eq_kind = Reminder, eq_subject = lit ''s'', eq_content = lit ''hello'',
     eq_reason = lit ''r'', eq_idempotency_key = lit ''k1''\<rparr>"

definition box_key :: "u8 list" where "box_key = replicate 32 7"

definition box_item :: encrypted_item where
  "box_item = (unsealed_item box_request 5)\<lparr>ei_nonce := replicate 12 1, ei_ciphertext := lit ''hello''\<rparr>"

definition box_read_item :: encrypted_item where
  "box_read_item = box_item\<lparr>ei_read := True\<rparr>"

definition box_names :: "rstring list" where
  "box_names = [ei_id box_item @ lit ''.json'', ei_id box_item @ lit ''.json.bak'', KEY_NAME]"

definition box_env :: mailbox_env where
  "box_env = \<lparr>mb_canonicalize = Inr,
     mb_parse = (\<lambda>c. if c = [1] then Inr box_item else if c = [2] then Inr box_read_item else Inl []),
     mb_print = (\<lambda>i. if i = box_item then Inr [1] else if i = box_read_item then Inr [2] else Inl []),
     mb_pid = 7, mb_list = (\<lambda>f p. map Inr (filter (\<lambda>n. f (p @ [n]) \<noteq> None) box_names)), mb_var = (\<lambda>_. None),
     mb_random_key = Inr box_key, mb_random_nonce = Inr (replicate 12 1),
     mb_seal = (\<lambda>k n p a. Some p), mb_open = (\<lambda>k n c a. Some c),
     mb_base64 = map unat, mb_unbase64 = (\<lambda>s. Some (map of_nat s)),
     mb_show = \<lparr>pd_path = (\<lambda>_. []), pd_io = (\<lambda>_. [])\<rparr>\<rparr>"

definition box_base :: files where
  "box_base = (\<lambda>p. if p \<in> {[], [lit ''w''], [lit ''w'', lit ''mailbox'']} then Some DirNode else None)"

definition box_with_key :: files where
  "box_with_key = box_base(key_path box_store \<mapsto> FileNode (as_bytes (encode_hex_key box_key)))"

definition box_full :: files where
  "box_full = box_with_key(item_path box_store (ei_id box_item) \<mapsto> FileNode [1])"

definition box_disk :: "files \<Rightarrow> disk" where
  "box_disk f = \<lparr>dk_files = f, dk_answers = [], dk_past = [], dk_clock = [5000000, 6000000]\<rparr>"

lemma box_serving [simp]: "serving (box_disk f)" "dk_files (box_disk f) = f"
  by (simp_all add: serving_def box_disk_def)

lemma box_codec: "mailbox_codec box_env"
  by (auto simp: mailbox_codec_def box_env_def split: if_splits)

lemma box_random: "random_ok box_env"
  by (simp add: random_ok_def box_env_def box_key_def NONCE_BYTES_def)

lemma box_crypto: "mailbox_crypto box_env"
  by (simp add: mailbox_crypto_def box_env_def comp_def)

text \<open>The directory holds no other name than those it can be listed with.\<close>

lemma box_listable:
  assumes "f [lit ''w'', lit ''mailbox''] = Some DirNode" "\<And>n. n \<notin> set box_names \<Longrightarrow> f ([lit ''w'', lit ''mailbox''] @ [n]) = None"
  shows "listable box_env box_store f"
proof -
  have "length (filter P box_names) \<le> 3" for P
    using length_filter_le [of P box_names] by (simp add: box_names_def)
  then have "length (filter P box_names) \<le> MAX_SCANNED_ITEMS" for P
    by (rule order_trans) (simp add: MAX_SCANNED_ITEMS_def)
  moreover have "distinct box_names" by code_simp
  moreover have "n \<in> set box_names" if "f [lit ''w'', lit ''mailbox'', n] = Some y" for n y
    using assms(2) [of n] that by auto
  ultimately show ?thesis
    using assms(1) unfolding listable_def lists_all_def
    by (auto simp: box_env_def box_store_def
        intro!: exI [of _ "filter (\<lambda>n. f [lit ''w'', lit ''mailbox'', n] \<noteq> None) box_names"])
qed

lemma box_paths:
  "key_path box_store = [lit ''w'', lit ''mailbox'', KEY_NAME]"
  "item_path box_store (ei_id box_item) = [lit ''w'', lit ''mailbox'', ei_id box_item @ lit ''.json'']"
  by (simp_all add: key_path_def item_path_def path_join_def box_store_def KEY_NAME_def)

lemma box_files_listable:
  "listable box_env box_store box_base" "listable box_env box_store box_with_key" "listable box_env box_store box_full"
  by (rule box_listable; simp add: box_base_def box_with_key_def box_full_def box_paths box_names_def)+

lemma box_stored: "stored_items box_env box_store box_full = [box_item]"
  by code_simp

theorem listing_is_newest_first_witness:
  "\<exists>res. mailbox_list box_env box_store (mailbox_list_request_new (grant_read_only [lit ''w''])) (box_disk box_full) =
     (Inr res, box_disk box_full) \<and> lr_unread_count res = 1"
  using listing_is_newest_first [of "box_disk box_full" box_env box_store "mailbox_list_request_new (grant_read_only [lit ''w''])"]
    box_files_listable(3) box_stored
  by (auto simp: box_item_def unsealed_item_def)

lemma box_directories [simp]:
  "with_directories (ms_root box_store) box_with_key = box_with_key"
  "with_directories (ms_root box_store) box_full = box_full"
  by (auto simp: with_directories_def box_full_def box_with_key_def box_base_def box_store_def key_path_def item_path_def
      path_join_def fun_eq_iff)

lemma box_no_file:
  "\<forall>q \<in> set (prefixes (ms_root box_store)). \<not> is_file (box_with_key q)"
  "\<forall>q \<in> set (prefixes (ms_root box_store)). \<not> is_file (box_full q)"
  by code_simp+

lemma box_mb: "mb_pid box_env = 7"
  by (simp add: box_env_def)

lemma box_item_unread: "box_read_item \<noteq> box_item"
  by (simp add: box_read_item_def box_item_def unsealed_item_def)

lemma box_pieces:
  "stored_items box_env box_store box_with_key = []"
  "mailbox_encrypt box_env box_key (as_bytes (eq_content box_request)) (item_aad (unsealed_item box_request 5)) =
     Inr (replicate 12 1, as_bytes (lit ''hello''))"
  "validate_enqueue box_request = Inr ()"
  by code_simp+

lemma box_item_valid: "validate_item box_item = Inr ()"
  by code_simp

lemma box_key_in: "key_in box_env box_store box_with_key = Some (Inr box_key)"
  by (rule new_key_in) (simp_all add: box_env_def box_with_key_def box_key_def)

lemma box_sealed:
  "(unsealed_item box_request 5)\<lparr>ei_nonce := mb_base64 box_env (replicate 12 1),
     ei_ciphertext := mb_base64 box_env (as_bytes (lit ''hello''))\<rparr> = box_item"
  by code_simp

lemma box_save:
  assumes "serving d" "dk_files d = f" "f = box_with_key \<or> f = box_full"
    and "ei_id i = ei_id box_item" "validate_item i = Inr ()" "mb_print box_env i = Inr [c]"
  shows "\<exists>d'. save_item box_env box_store i d = (Inr (), d') \<and>
    dk_files d' = f(item_path box_store (ei_id box_item) \<mapsto> FileNode [c])"
proof -
  let ?p = "item_path box_store (ei_id box_item)"
  have p: "json_path (ms_root box_store) ?p"
    by (rule valid_id_name(3)) code_simp
  define d1 where "d1 = put_files f d"
  have d1: "serving d1" "dk_files d1 = f" using assms(1) by (simp_all add: d1_def)
  obtain u d2 where u: "(sys_nanos :: nat mb_act) d1 = (Inr u, d2)" "dk_files d2 = f" "serving d2"
    using serving_sys_nanos [of d1] d1 by auto
  let ?t = "ms_root box_store @ [mailbox_temporary 7 u]"
  obtain n m where names: "?p = ms_root box_store @ [n]" "backup_path ?p = ms_root box_store @ [m]" "hd n \<noteq> dot" "hd m \<noteq> dot" "n \<noteq> m"
    using p by (rule json_names) blast
  have t: "hd (mailbox_temporary 7 u) = dot" by (simp add: mailbox_temporary_def lit_def dot_def ch_def)
  have paths: "?p \<noteq> backup_path ?p" "?t \<noteq> ?p" "?t \<noteq> backup_path ?p"
    using names t unfolding names(2) unfolding names(1) by auto
  have "hd KEY_NAME \<noteq> dot" by code_simp
  then have "box_with_key ?t = None"
    using t by (auto simp: box_with_key_def box_base_def key_path_def path_join_def box_store_def KEY_NAME_def)
  then have temporary: "f ?t = None" using assms(3) paths(2) by (auto simp: box_full_def)
  have "box_with_key ?p = None" "box_with_key (backup_path ?p) = None" by code_simp+
  then have found: "f ?p = None \<or> f ?p = Some (FileNode [1])" "f (backup_path ?p) = None"
    using assms(3) paths(1) by (auto simp: box_full_def)
  then obtain d' where "swap_file ?p ?t (backup_path ?p) [c] d2 = (Inr (), d')" "dk_files d' = f(?p \<mapsto> FileNode [c])"
    using serving_swap_new [OF u(3) paths(1), of ?t "[c]"] serving_swap_gap [OF u(3) paths(1), of ?t "[1]" "[c]"] paths temporary
    unfolding u(2) by auto
  moreover have "with_directories (ms_root box_store) f = f" "\<forall>q \<in> set (prefixes (ms_root box_store)). \<not> is_file (f q)"
    using assms(3) box_directories box_no_file by auto
  then have "fs_create_dir_all (ms_root box_store) d = (Inr (), d1)"
    using serving_directories [OF assms(1), of "ms_root box_store"] assms(2) by (simp add: d1_def)
  ultimately show ?thesis
    using u(1) assms(4-6)
    by (simp add: save_item_def act_then_def act_bind_def lift_res_def act_map_err_def
        mailbox_replace_file_def json_path_parent [OF p] path_join_def box_mb MAX_ITEM_FILE_BYTES_def)
qed

lemma box_item_printed: "mb_print box_env box_item = Inr [1]" "mb_print box_env box_read_item = Inr [2]"
  using box_item_unread by (simp_all add: box_env_def)

lemma box_run: "\<exists>w d1. mailbox_enqueue box_env box_store box_request (box_disk box_with_key) =
    (Inr \<lparr>mu_item = Some (item_summary box_item), mu_created = True, mu_warnings = w\<rparr>, d1) \<and> dk_files d1 = box_full"
proof -
  let ?d = "box_disk box_with_key"
  obtain w where load: "load_items box_env box_store ?d = (Inr ([], w), ?d)"
    using listable_load [of ?d box_env box_store] box_files_listable(2) box_pieces(1) by auto
  define d1 where "d1 = put_files box_with_key ?d"
  have dirs: "fs_create_dir_all (ms_root box_store) ?d = (Inr (), d1)"
    using serving_directories [of ?d "ms_root box_store"] box_no_file by (simp add: d1_def)
  define d2 where "d2 = d1\<lparr>dk_clock := [6000000]\<rparr>"
  have now: "(now_millis :: u128 mb_act) d1 = (Inr 5, d2)"
    by (simp add: now_millis_def sys_nanos_def act_bind_def ret_def d1_def d2_def box_disk_def put_files_def)
  have d2: "serving d2" "dk_files d2 = box_with_key"
    by (simp_all add: d2_def d1_def serving_def box_disk_def put_files_def)
  have key: "load_or_create_key box_env box_store d2 = (Inr box_key, d2)"
    using serving_load_key [OF d2(1), of box_env box_store] d2(2) box_key_in by (simp add: load_or_create_key_def)
  obtain d' where save: "save_item box_env box_store box_item d2 = (Inr (), d')" "dk_files d' = box_full"
    using box_save [OF d2 _ refl box_item_valid box_item_printed(1)] by (auto simp: box_full_def)
  have "mailbox_require_write box_store = Inr ()" by (simp add: mailbox_require_write_def box_store_def ensure_def)
  then show ?thesis
    using load dirs now key save box_pieces box_item_valid box_sealed
    by (simp add: mailbox_enqueue_rest enqueue_rest_def seal_and_save_def act_then_def act_bind_def lift_res_def
        act_map_err_def ret_def Let_def)
qed

text \<open>The sent content and the answer's summary come back, and a second enqueue creates nothing.\<close>

theorem enqueued_content_is_opened_witness:
  "\<exists>w. mailbox_get box_env box_store \<lparr>gq_grant = grant_read_only [lit ''w''], gq_item_id = ei_id box_item\<rparr> (box_disk box_full) =
    (Inr \<lparr>gr_entry = Some \<lparr>me_summary = item_summary box_item, me_content = lit ''hello''\<rparr>, gr_warnings = w\<rparr>, box_disk box_full)"
proof -
  obtain w d1 where run: "mailbox_enqueue box_env box_store box_request (box_disk box_with_key) =
    (Inr \<lparr>mu_item = Some (item_summary box_item), mu_created = True, mu_warnings = w\<rparr>, d1)" "dk_files d1 = box_full"
    using box_run by blast
  have "\<forall>c \<in> set (eq_content box_request). is_scalar c" by code_simp
  from enqueued_content_is_opened [OF box_codec box_random box_crypto this _ _ run(1), of "item_summary box_item" "box_disk box_full"
      "grant_read_only [lit ''w'']"] run(2) box_files_listable
  show ?thesis by (simp add: item_summary_def) (simp add: box_request_def)
qed

theorem enqueue_once_per_key_witness:
  "\<exists>i w. ei_key i = lit ''k1'' \<and> mailbox_enqueue box_env box_store (box_request\<lparr>eq_content := lit ''other''\<rparr>) (box_disk box_full) =
      (Inr \<lparr>mu_item = Some (item_summary i), mu_created = False, mu_warnings = w\<rparr>, box_disk box_full)"
proof -
  obtain w d1 where run: "mailbox_enqueue box_env box_store box_request (box_disk box_with_key) =
    (Inr \<lparr>mu_item = Some (item_summary box_item), mu_created = True, mu_warnings = w\<rparr>, d1)" "dk_files d1 = box_full"
    using box_run by blast
  have "validate_enqueue (box_request\<lparr>eq_content := lit ''other''\<rparr>) = Inr ()" by code_simp
  from enqueue_once_per_key [OF box_codec box_random run(1), of "box_disk box_full", OF _ _ _ _ this] run(2) box_files_listable(3)
  show ?thesis by (auto simp: box_request_def)
qed

definition box_mark :: mailbox_mark_request where
  "box_mark = \<lparr>kq_grant = grant_read_write [lit ''w''], kq_item_id = ei_id box_item, kq_read = True\<rparr>"

lemma box_marked: "box_item\<lparr>ei_read := True, ei_updated_at := 5\<rparr> = box_read_item" "validate_item box_read_item = Inr ()"
  by code_simp+

lemma box_marks: "\<exists>res d'. mailbox_mark_read box_env box_store box_mark (box_disk box_full) = (Inr res, d')"
proof -
  let ?d = "box_disk box_full"
  obtain w where load: "load_items box_env box_store ?d = (Inr ([box_item], w), ?d)"
    using listable_load [of ?d box_env box_store] box_files_listable(3) box_stored by auto
  define d1 where "d1 = ?d\<lparr>dk_clock := [6000000]\<rparr>"
  have now: "(now_millis :: u128 mb_act) ?d = (Inr 5, d1)"
    by (simp add: now_millis_def sys_nanos_def act_bind_def ret_def d1_def box_disk_def)
  have d1: "serving d1" "dk_files d1 = box_full" by (simp_all add: d1_def serving_def box_disk_def)
  have "ei_id box_read_item = ei_id box_item" by (simp add: box_read_item_def)
  from box_save [OF d1 _ this box_marked(2) box_item_printed(2)] obtain d' where
    "save_item box_env box_store box_read_item d1 = (Inr (), d')" by blast
  moreover have "mailbox_require_write box_store = Inr ()" by (simp add: mailbox_require_write_def box_store_def ensure_def)
  moreover have "validate_item_id (ei_id box_item) = Inr ()" by code_simp
  ultimately show ?thesis
    using load now box_marked(1)
    by (simp add: mailbox_mark_read_def box_mark_def act_then_def act_bind_def lift_res_def ret_def Let_def)
qed

lemma box_sole: "sole_file box_env box_store box_full box_item"
proof -
  have "item_at box_env box_full (item_path box_store (ei_id box_item)) = Some box_item" by code_simp
  moreover have "[lit ''w'', lit ''mailbox'', n] = item_path box_store (ei_id box_item)"
    if "is_json ([lit ''w'', lit ''mailbox''] @ [n])" "item_at box_env box_full [lit ''w'', lit ''mailbox'', n] = Some j" for n j
    using that json_kept [OF that(1)]
    by (auto simp: item_at_Some box_full_def box_with_key_def box_base_def box_paths split: if_splits)
  ultimately show ?thesis by (simp add: sole_file_def box_store_def)
qed

theorem interrupted_mark_read_loses_item_witness:
  "\<exists>f. f \<in> moments (box_disk box_full) (snd (mailbox_mark_read box_env box_store box_mark (box_disk box_full))) \<and>
     f (backup_path (item_path box_store (ei_id box_item))) = Some (FileNode [1])"
proof -
  obtain res d' where run: "mailbox_mark_read box_env box_store box_mark (box_disk box_full) = (Inr res, d')"
    using box_marks by blast
  have backup: "box_full (backup_path (item_path box_store (ei_id box_item))) = None" by code_simp
  have item: "box_full (item_path box_store (ei_id box_item)) = Some (FileNode [1])" by (simp add: box_full_def)
  have root: "box_full (ms_root box_store) = Some DirNode"
    by (simp add: box_full_def box_with_key_def box_base_def box_paths) (simp add: box_store_def)
  have id: "kq_item_id box_mark = ei_id box_item" by (simp add: box_mark_def)
  have free: "box_full (ms_root box_store @ [mailbox_temporary (mb_pid box_env) u]) = None" for u
    by (auto simp: box_full_def box_with_key_def box_base_def box_store_def key_path_def item_path_def path_join_def
        mailbox_temporary_def lit_def ch_def box_item_def unsealed_item_def item_id_of_def)
  from interrupted_mark_read_loses_item [where g = "grant_read_only []", OF _ _ _ _ id _ _ run] box_files_listable(3) backup item root free box_sole
  show ?thesis unfolding run by auto
qed

text \<open>A crash while the first key is generated does leave the file empty.\<close>

lemma create_key_gap:
  assumes "serving d" "\<forall>q \<in> set (prefixes (ms_root st)). \<not> is_file (dk_files d q)"
    and "dk_files d (key_path st) = None" "mb_random_key env = Inr key"
  shows "\<exists>f \<in> moments d (snd (create_key env st d)). empty_key st f"
proof -
  let ?wd = "with_directories (ms_root st) (dk_files d)"
  have "?wd (key_path st) = None" using assms(3) by (simp add: key_path_def path_join_def)
  then have "\<exists>xs. dk_past (snd (create_key env st d)) = dk_past d @ ?wd # ?wd(key_path st \<mapsto> FileNode []) # xs"
    using assms(1,4) serving_directories [OF assms(1,2)]
    by (simp add: create_key_def act_then_def act_bind_def act_map_err_def lift_res_def ret_def)
  then show ?thesis by (auto simp: moments_def empty_key_def)
qed

theorem interrupted_key_strands_mailbox_witness:
  "dk_files (snd (mailbox_enqueue box_env box_store box_request
      (box_disk (box_base(key_path box_store \<mapsto> FileNode []))))) (key_path box_store) = Some (FileNode [])"
  using interrupted_key_strands_mailbox [of box_env "box_disk (box_base(key_path box_store \<mapsto> FileNode []))" box_store]
  by (simp add: box_env_def)

end
