(* ===== verification/Text_Std.thy ===== *)
theory Text_Std
  imports Rust_Std
begin

text \<open>
  The string operations of the standard library that the text policies use: lower case of ASCII letters,
  substrings, splitting at white space, and lists of markers.
\<close>

definition to_ascii_lowercase :: "rchar \<Rightarrow> rchar" where
  "to_ascii_lowercase c = (if is_ascii_uppercase c then c + 32 else c)"

definition str_lowercase :: "rstring \<Rightarrow> rstring" where
  "str_lowercase = map to_ascii_lowercase"

fun str_starts :: "rstring \<Rightarrow> rstring \<Rightarrow> bool" where
  "str_starts s [] = True"
| "str_starts [] (c # cs) = False"
| "str_starts (x # xs) (c # cs) = (x = c \<and> str_starts xs cs)"

fun str_contains :: "rstring \<Rightarrow> rstring \<Rightarrow> bool" where
  "str_contains [] needle = (needle = [])"
| "str_contains (x # xs) needle = (str_starts (x # xs) needle \<or> str_contains xs needle)"

definition str_ends :: "rstring \<Rightarrow> rstring \<Rightarrow> bool" where
  "str_ends s needle = str_starts (rev s) (rev needle)"

fun split_white_from :: "rstring \<Rightarrow> rstring \<Rightarrow> rstring list" where
  "split_white_from word [] = (if word = [] then [] else [word])"
| "split_white_from word (c # cs) =
     (if is_whitespace c then (if word = [] then [] else [word]) @ split_white_from [] cs
      else split_white_from (word @ [c]) cs)"

definition split_whitespace :: "rstring \<Rightarrow> rstring list" where
  "split_whitespace = split_white_from []"

lemma str_starts_iff: "str_starts s p \<longleftrightarrow> (\<exists>t. s = p @ t)"
  by (induction s p rule: str_starts.induct) auto

lemma str_contains_iff: "str_contains s p \<longleftrightarrow> (\<exists>a b. s = a @ p @ b)"
proof (induction s)
  case (Cons x xs)
  have "(\<exists>a b. x # xs = a @ p @ b) \<longleftrightarrow> (\<exists>b. x # xs = p @ b) \<or> (\<exists>a b. xs = a @ p @ b)"
    by (metis append_Cons append_Nil neq_Nil_conv list.inject)
  then show ?case using Cons by (simp add: str_starts_iff)
qed auto

lemma str_contains_take: "str_contains (take n s) p \<Longrightarrow> str_contains s p"
  unfolding str_contains_iff by (metis append.assoc append_take_drop_id)

lemma str_contains_append: "str_contains s p \<Longrightarrow> str_contains (a @ s @ b) p"
  unfolding str_contains_iff by (metis append.assoc)

lemma str_contains_drop: "str_contains (drop n s) p \<Longrightarrow> str_contains s p"
  unfolding str_contains_iff by (metis append.assoc append_take_drop_id)

lemma str_lowercase_append [simp]: "str_lowercase (a @ b) = str_lowercase a @ str_lowercase b"
  by (simp add: str_lowercase_def)

end
