(* ===== verification/Scheduler.thy ===== *)
theory Scheduler
  imports Plugin_Loop Text_Std
begin

text \<open>
  The proactive scheduler: the request and the plans of \<open>yunxi-protocol/src/scheduler.rs\<close>, the policy of
  \<open>yunxi-scheduler/src/policy.rs\<close> and its plugin.
\<close>

section \<open>Requests and plans\<close>

record quiet_hours =
  qh_start :: u16
  qh_end :: u16

definition quiet_hours_new :: "u16 \<Rightarrow> u16 \<Rightarrow> quiet_hours option" where
  "quiet_hours_new s e = (if s < 1440 \<and> e < 1440 then Some \<lparr>qh_start = s, qh_end = e\<rparr> else None)"

definition quiet_contains :: "quiet_hours \<Rightarrow> u16 \<Rightarrow> bool" where
  "quiet_contains h minute =
     (if qh_start h \<le> qh_end h then qh_start h \<le> minute \<and> minute \<le> qh_end h
      else qh_start h \<le> minute \<or> minute \<le> qh_end h)"

datatype proactive_trigger =
  ReminderDue | UnfinishedTask | LongIdleCheckIn | TopicContinuation | PeriodicSummary | RelationshipMilestone

datatype proactive_action = MessageOnly | SuggestNextStep | SummarizeStage | AskPermissionForTool

record scheduler_request =
  sr_now_minute :: u16
  sr_in_session :: u32
  sr_today :: u32
  sr_idle_minutes :: u64
  sr_reminder_due :: bool
  sr_unfinished_task :: "rstring option"
  sr_topic :: "rstring option"
  sr_summary_due :: bool
  sr_milestone :: "rstring option"
  sr_tool_request :: "rstring option"
  sr_max_per_session :: u32
  sr_max_per_day :: u32
  sr_quiet_hours :: "quiet_hours option"
  sr_allow_tools :: bool

definition scheduler_request_new :: "u16 \<Rightarrow> scheduler_request" where
  "scheduler_request_new minute = \<lparr>sr_now_minute = min minute 1439, sr_in_session = 0, sr_today = 0, sr_idle_minutes = 0,
     sr_reminder_due = False, sr_unfinished_task = None, sr_topic = None, sr_summary_due = False, sr_milestone = None,
     sr_tool_request = None, sr_max_per_session = 3, sr_max_per_day = 8, sr_quiet_hours = None, sr_allow_tools = False\<rparr>"

definition with_counts :: "u32 \<Rightarrow> u32 \<Rightarrow> scheduler_request \<Rightarrow> scheduler_request" where
  "with_counts s d q = q\<lparr>sr_in_session := s, sr_today := d\<rparr>"
definition with_limits :: "u32 \<Rightarrow> u32 \<Rightarrow> scheduler_request \<Rightarrow> scheduler_request" where
  "with_limits s d q = q\<lparr>sr_max_per_session := s, sr_max_per_day := d\<rparr>"
definition with_quiet_hours :: "quiet_hours \<Rightarrow> scheduler_request \<Rightarrow> scheduler_request" where
  "with_quiet_hours h q = q\<lparr>sr_quiet_hours := Some h\<rparr>"
definition with_idle_minutes :: "u64 \<Rightarrow> scheduler_request \<Rightarrow> scheduler_request" where
  "with_idle_minutes m q = q\<lparr>sr_idle_minutes := m\<rparr>"
definition with_reminder_due :: "bool \<Rightarrow> scheduler_request \<Rightarrow> scheduler_request" where
  "with_reminder_due b q = q\<lparr>sr_reminder_due := b\<rparr>"
definition with_unfinished_task :: "rstring \<Rightarrow> scheduler_request \<Rightarrow> scheduler_request" where
  "with_unfinished_task t q = q\<lparr>sr_unfinished_task := Some t\<rparr>"
definition with_topic_continuation :: "rstring \<Rightarrow> scheduler_request \<Rightarrow> scheduler_request" where
  "with_topic_continuation t q = q\<lparr>sr_topic := Some t\<rparr>"
definition with_periodic_summary_due :: "bool \<Rightarrow> scheduler_request \<Rightarrow> scheduler_request" where
  "with_periodic_summary_due b q = q\<lparr>sr_summary_due := b\<rparr>"
definition with_relationship_milestone :: "rstring \<Rightarrow> scheduler_request \<Rightarrow> scheduler_request" where
  "with_relationship_milestone m q = q\<lparr>sr_milestone := Some m\<rparr>"
definition with_tool_request :: "rstring \<Rightarrow> scheduler_request \<Rightarrow> scheduler_request" where
  "with_tool_request t q = q\<lparr>sr_tool_request := Some t\<rparr>"
definition allow_tool_requests :: "bool \<Rightarrow> scheduler_request \<Rightarrow> scheduler_request" where
  "allow_tool_requests b q = q\<lparr>sr_allow_tools := b\<rparr>"

definition has_signal :: "scheduler_request \<Rightarrow> bool" where
  "has_signal q \<longleftrightarrow> sr_reminder_due q \<or> sr_unfinished_task q \<noteq> None \<or> sr_topic q \<noteq> None \<or> sr_summary_due q \<or>
     sr_milestone q \<noteq> None \<or> sr_tool_request q \<noteq> None \<or> 120 \<le> sr_idle_minutes q"

record proactive_plan =
  pp_trigger :: proactive_trigger
  pp_action :: proactive_action
  pp_reason :: rstring
  pp_message :: rstring
  pp_confirm :: bool

record scheduler_result =
  sx_plans :: "proactive_plan list"
  sx_suppressed :: "rstring option"

section \<open>The policy\<close>

definition scheduler_compact :: "rstring \<Rightarrow> rstring" where
  "scheduler_compact value =
     (let v = trim value in if length v \<le> 80 then v else take 77 v @ lit ''...'')"

definition plan :: "proactive_trigger \<Rightarrow> proactive_action \<Rightarrow> rstring \<Rightarrow> rstring \<Rightarrow> bool \<Rightarrow> proactive_plan" where
  "plan t a r m c = \<lparr>pp_trigger = t, pp_action = a, pp_reason = r, pp_message = m, pp_confirm = c\<rparr>"

definition suppressed :: "rstring \<Rightarrow> scheduler_result" where
  "suppressed reason = \<lparr>sx_plans = [], sx_suppressed = Some reason\<rparr>"

text \<open>The plan of the first signal, in the order of the policy, or why there is none.\<close>

definition choose_plan :: "scheduler_request \<Rightarrow> (rstring, proactive_plan) res" where
  "choose_plan q =
     (case sr_tool_request q of
        Some tool \<Rightarrow>
          if \<not> sr_allow_tools q then Inl (lit ''tool_requests_disabled'')
          else Inr (plan UnfinishedTask AskPermissionForTool (lit ''a proactive tool action was suggested'')
                 ([22914, 26524, 20320, 30830, 35748, 65292, 25105, 21487, 20197, 35831, 27714, 25191, 34892, 65306] @ scheduler_compact tool @ [12290]) True)
      | None \<Rightarrow>
      if sr_reminder_due q
      then Inr (plan ReminderDue MessageOnly (lit ''a reminder is due'') [25552, 37266, 65306, 26377, 19968, 39033, 21040, 26399, 20107, 39033, 38656, 35201, 20320, 30041, 24847, 12290] False)
      else (case sr_unfinished_task q of
        Some task \<Rightarrow> Inr (plan UnfinishedTask SuggestNextStep (lit ''an unfinished task was observed'')
            ([36731, 25552, 31034, 65306, 36824, 21487, 20197, 32487, 32493, 22788, 29702, 8220] @ scheduler_compact task @ [8221, 12290]) False)
      | None \<Rightarrow>
      if 120 \<le> sr_idle_minutes q
      then Inr (plan LongIdleCheckIn MessageOnly (lit ''the session has been idle for an extended period'')
            [22909, 20037, 27809, 26377, 32487, 32493, 20102, 65292, 22238, 26469, 26102, 21487, 20197, 20174, 19978, 27425, 20572, 19979, 30340, 22320, 26041, 25509, 30528, 20570, 12290] False)
      else (case sr_topic q of
        Some topic \<Rightarrow> Inr (plan TopicContinuation SuggestNextStep (lit ''recent context suggests a topic can be continued'')
            ([21487, 20197, 32487, 32493, 20851, 27880, 8220] @ scheduler_compact topic @ [8221, 12290]) False)
      | None \<Rightarrow>
      if sr_summary_due q
      then Inr (plan PeriodicSummary SummarizeStage (lit ''a bounded stage summary is due'')
            [38454, 27573, 23567, 32467, 65306, 21487, 20197, 25972, 29702, 19968, 19979, 24403, 21069, 36827, 23637, 12289, 26410, 23436, 25104, 20107, 39033, 21644, 19979, 19968, 27493, 12290] False)
      else (case sr_milestone q of
        Some change \<Rightarrow> Inr (plan RelationshipMilestone MessageOnly (lit ''a relationship or context milestone changed'')
            ([26368, 36817, 30340, 19978, 19979, 25991, 26377, 21464, 21270, 65306] @ scheduler_compact change @ [12290]) False)
      | None \<Rightarrow> Inl (lit ''no_action'')))))"

definition evaluate :: "scheduler_request \<Rightarrow> scheduler_result" where
  "evaluate q =
     (if \<not> has_signal q then suppressed (lit ''no_signal'')
      else if sr_max_per_session q \<le> sr_in_session q then suppressed (lit ''session_limit_reached'')
      else if sr_max_per_day q \<le> sr_today q then suppressed (lit ''daily_limit_reached'')
      else if (case sr_quiet_hours q of None \<Rightarrow> False | Some h \<Rightarrow> quiet_contains h (sr_now_minute q))
        then suppressed (lit ''quiet_hours'')
      else (case choose_plan q of
          Inl reason \<Rightarrow> suppressed reason
        | Inr p \<Rightarrow> \<lparr>sx_plans = [p], sx_suppressed = None\<rparr>))"

section \<open>The plugin\<close>

definition SCHEDULER_PROACTIVE :: rstring where "SCHEDULER_PROACTIVE = lit ''scheduler.proactive''"
definition SCHEDULER_PROACTIVE_VERSION :: u32 where "SCHEDULER_PROACTIVE_VERSION = 1"
definition SCHEDULER_PROACTIVE_EVALUATE_OPERATION :: rstring where "SCHEDULER_PROACTIVE_EVALUATE_OPERATION = lit ''evaluate''"
definition SCHEDULER_PLUGIN_ID :: rstring where "SCHEDULER_PLUGIN_ID = lit ''yunxi.scheduler''"

datatype scheduler_plugin_error =
    ScCapability capability_error
  | ScInvocation codec_error
  | ScProtocol protocol_error
  | ScUnexpectedHostMessage rstring

fun show_scheduler_plugin_error :: "scheduler_plugin_error \<Rightarrow> rstring" where
  "show_scheduler_plugin_error (ScCapability e) = lit ''invalid capability: '' @ show_capability_error e"
| "show_scheduler_plugin_error (ScInvocation e) = show_codec_error e"
| "show_scheduler_plugin_error (ScProtocol e) = show_protocol_error e"
| "show_scheduler_plugin_error (ScUnexpectedHostMessage m) = m"

definition scheduler_errors :: "scheduler_plugin_error plugin_errors" where
  "scheduler_errors = \<lparr>pe_capability = ScCapability, pe_protocol = ScProtocol, pe_unexpected = ScUnexpectedHostMessage\<rparr>"

definition scheduler_answer ::
  "('v \<Rightarrow> (rstring, scheduler_request) res) \<Rightarrow> (scheduler_result \<Rightarrow> (rstring, 'v) res) \<Rightarrow>
   'v invocation_request \<Rightarrow> 's \<Rightarrow> ('v, scheduler_plugin_error) reply \<times> 's" where
  "scheduler_answer from_value to_value =
     answer_single ScInvocation SCHEDULER_PROACTIVE SCHEDULER_PROACTIVE_VERSION SCHEDULER_PROACTIVE_EVALUATE_OPERATION
       (lit ''scheduler'') from_value (\<lambda>q. ret (evaluate q)) to_value"

definition run_scheduler_plugin ::
  "('v \<Rightarrow> (rstring, scheduler_request) res) \<Rightarrow> (scheduler_result \<Rightarrow> (rstring, 'v) res) \<Rightarrow> rstring \<Rightarrow>
   ('v host_message \<Rightarrow> rstring) \<Rightarrow> 'v connect_env \<Rightarrow> 'v script \<Rightarrow> 's \<Rightarrow>
   scheduler_plugin_error plugin_end \<times> 'v plugin_message list \<times> 's" where
  "run_scheduler_plugin from_value to_value version debug cenv =
     run_plugin scheduler_errors [(SCHEDULER_PROACTIVE, SCHEDULER_PROACTIVE_VERSION)]
       (\<lambda>caps. fst (connect_plugin SCHEDULER_PLUGIN_ID (lit ''Bounded proactive scheduler'') version caps debug cenv))
       (scheduler_answer from_value to_value)"

interpretation scheduler_plugin: answering "scheduler_answer from_value to_value"
  unfolding scheduler_answer_def by (rule answer_single_id)

section \<open>What the policy promises\<close>

lemma choose_plan_tool:
  "choose_plan q = Inr p \<Longrightarrow> (pp_action p = AskPermissionForTool) = (sr_tool_request q \<noteq> None)"
  "choose_plan q = Inr p \<Longrightarrow> pp_confirm p = (sr_tool_request q \<noteq> None)"
  "choose_plan q = Inr p \<Longrightarrow> sr_tool_request q \<noteq> None \<Longrightarrow> sr_allow_tools q"
  by (auto simp: choose_plan_def plan_def split: option.splits if_splits)

lemma choose_plan_signal:
  "has_signal q \<Longrightarrow> choose_plan q = Inl e \<Longrightarrow> sr_tool_request q \<noteq> None \<and> \<not> sr_allow_tools q"
  by (auto simp: choose_plan_def has_signal_def split: option.splits if_splits)

text \<open>A minute is quiet when it is no further after the start than the end is, around midnight.\<close>

lemma quiet_contains_cyclic:
  assumes "quiet_hours_new s e = Some h" "m < 1440"
  shows "quiet_contains h m \<longleftrightarrow>
    (int (unat m) - int (unat s)) mod 1440 \<le> (int (unat e) - int (unat s)) mod 1440"
proof -
  have h: "unat s < 1440" "unat e < 1440" "unat m < 1440" "h = \<lparr>qh_start = s, qh_end = e\<rparr>"
    using assms by (auto simp: quiet_hours_new_def word_less_nat_alt split: if_splits)
  have cyc: "(int a - int b) mod 1440 = (if b \<le> a then int a - int b else 1440 + int a - int b)"
    if "a < 1440" "b < 1440" for a b :: nat
  proof (cases "b \<le> a")
    case True
    then show ?thesis using that by (simp add: mod_pos_pos_trivial)
  next
    case False
    have "(int a - int b) mod 1440 = (int a - int b + 1440) mod 1440" by (rule mod_add_self2 [symmetric])
    also have "\<dots> = int a - int b + 1440" using False that by (intro mod_pos_pos_trivial) linarith+
    finally show ?thesis using False by simp
  qed
  show ?thesis
    unfolding cyc [OF h(3,1)] cyc [OF h(2,1)] h(4)
    using h(1-3) by (auto simp: quiet_contains_def word_le_nat_alt simp del: of_nat_unat)
qed

text \<open>The scheduler proposes at most one plan, and exactly when there is a signal, neither limit is
  reached, the minute is not quiet, and a tool suggestion, when there is one, is allowed; otherwise it says why.
  A quiet minute is one no further after the start than the end is, across midnight. A plan asks
  for a tool only when that is allowed and then always needs the user's confirmation.\<close>

theorem scheduler_plan_allowed:
  assumes "r = evaluate q" "sr_quiet_hours q = Some h" "quiet_hours_new s e = Some h" "sr_now_minute q < 1440"
  shows "(sx_suppressed r = None) = (sx_plans r \<noteq> []) \<and> length (sx_plans r) \<le> 1 \<and>
    (sx_plans r \<noteq> [] \<longleftrightarrow> has_signal q \<and> sr_in_session q < sr_max_per_session q \<and> sr_today q < sr_max_per_day q \<and>
       (int (unat e) - int (unat s)) mod 1440 < (int (unat (sr_now_minute q)) - int (unat s)) mod 1440 \<and>
       (sr_tool_request q \<noteq> None \<longrightarrow> sr_allow_tools q)) \<and>
    (\<forall>p \<in> set (sx_plans r). (pp_action p = AskPermissionForTool \<longrightarrow> pp_confirm p \<and> sr_allow_tools q))"
proof -
  define awake where "awake \<longleftrightarrow>
    (int (unat e) - int (unat s)) mod 1440 < (int (unat (sr_now_minute q)) - int (unat s)) mod 1440"
  have quiet: "quiet_contains h (sr_now_minute q) = (\<not> awake)"
    unfolding quiet_contains_cyclic [OF assms(3,4)] awake_def by (rule not_less [symmetric])
  have allowed: "(\<exists>p. choose_plan q = Inr p) \<longleftrightarrow> (sr_tool_request q \<noteq> None \<longrightarrow> sr_allow_tools q)" if "has_signal q"
    using choose_plan_signal [OF that] choose_plan_tool(3) by (cases "choose_plan q") (auto simp: choose_plan_def)
  show ?thesis
    unfolding assms(1) awake_def [symmetric]
    using assms(2) quiet allowed choose_plan_tool
    by (cases "choose_plan q") (auto simp: evaluate_def suppressed_def leD simp flip: linorder_not_less)
qed

definition demo_scheduler_request :: scheduler_request where
  "demo_scheduler_request = (scheduler_request_new 720)\<lparr>sr_reminder_due := True,
     sr_quiet_hours := Some \<lparr>qh_start = 1320, qh_end = 420\<rparr>\<rparr>"

theorem scheduler_plan_allowed_witness:
  "sx_plans (evaluate demo_scheduler_request) \<noteq> [] \<and> length (sx_plans (evaluate demo_scheduler_request)) \<le> 1"
  using scheduler_plan_allowed [OF refl, of demo_scheduler_request "\<lparr>qh_start = 1320, qh_end = 420\<rparr>" 1320 420]
  by (simp add: demo_scheduler_request_def scheduler_request_new_def quiet_hours_new_def has_signal_def)

end
