(* ===== verification/Identity_Protocol.thy ===== *)
theory Identity_Protocol
  imports Durable_File
begin

text \<open>
  The payloads of the read-only context, persona and memory capabilities:
  \<open>yunxi-protocol/src/identity.rs\<close>.
\<close>

definition CONTEXT_COMPOSE_OPERATION :: rstring where "CONTEXT_COMPOSE_OPERATION = lit ''compose''"
definition MEMORY_RECALL_OPERATION :: rstring where "MEMORY_RECALL_OPERATION = lit ''recall''"
definition PERSONA_CONTEXT_COMPILE_OPERATION :: rstring where "PERSONA_CONTEXT_COMPILE_OPERATION = lit ''compile''"

record compose_request =
  cr_cwd :: path

record compose_result =
  cx_instructions :: rstring
  cx_sources :: "path list"

datatype memory_context_kind =
    McPreference | McPersonalFact | McRelationshipNote | McEmotionalState | McGoal | McProjectContext
  | McCorrection | McEvent | McToolTraceSummary

record memory_context_record =
  mc_id :: rstring
  mc_scope :: rstring
  mc_kind :: memory_context_kind
  mc_content :: rstring

record recall_request =
  rr_cwd :: path
  rr_query :: rstring
  rr_boot :: bool

definition recall_request_new :: "path \<Rightarrow> rstring \<Rightarrow> recall_request" where
  "recall_request_new cwd query = \<lparr>rr_cwd = cwd, rr_query = query, rr_boot = True\<rparr>"

definition with_boot_context :: "bool \<Rightarrow> recall_request \<Rightarrow> recall_request" where
  "with_boot_context b q = q\<lparr>rr_boot := b\<rparr>"

record recall_result =
  rx_fingerprint :: rstring
  rx_boot :: "memory_context_record list"
  rx_dynamic :: "memory_context_record list"
  rx_warnings :: "rstring list"
  rx_truncated :: bool

record persona_request =
  pq_boot :: "memory_context_record list"
  pq_dynamic :: "memory_context_record list"
  pq_include_boot :: bool

record persona_result =
  px_content :: "rstring option"
  px_profile_id :: rstring
  px_display_name :: rstring
  px_memory_count :: nat
  px_warnings :: "rstring list"

end
