(* ===== verification/Companion.thy ===== *)
theory Companion
  imports Plugin_Loop Text_Std Identity_Protocol
begin

text \<open>
  The companion policy: the request and the decision of \<open>yunxi-protocol/src/companion.rs\<close>, the marker based
  policy of \<open>yunxi-companion/src/decision.rs\<close> and its plugin.
\<close>

section \<open>Requests and decisions\<close>

datatype companion_tone = Neutral | Warm | Direct | Supportive

datatype emotion_kind =
  EmoNone | EmoAnxiety | EmoSadness | EmoFatigue | EmoFrustration | EmoJoy | EmoUncertainty | EmoLoneliness

record companion_request =
  cd_prompt :: rstring
  cd_profile_id :: "rstring option"
  cd_display_name :: "rstring option"
  cd_memories :: "memory_context_record list"
  cd_unfinished_task :: "rstring option"
  cd_topic :: "rstring option"

definition companion_request_new :: "rstring \<Rightarrow> companion_request" where
  "companion_request_new prompt = \<lparr>cd_prompt = prompt, cd_profile_id = None, cd_display_name = None, cd_memories = [],
     cd_unfinished_task = None, cd_topic = None\<rparr>"

definition with_persona :: "rstring \<Rightarrow> rstring \<Rightarrow> companion_request \<Rightarrow> companion_request" where
  "with_persona i n q = q\<lparr>cd_profile_id := Some i, cd_display_name := Some n\<rparr>"
definition with_memories :: "memory_context_record list \<Rightarrow> companion_request \<Rightarrow> companion_request" where
  "with_memories ms q = q\<lparr>cd_memories := ms\<rparr>"
definition companion_with_task :: "rstring \<Rightarrow> companion_request \<Rightarrow> companion_request" where
  "companion_with_task t q = q\<lparr>cd_unfinished_task := Some t\<rparr>"
definition companion_with_topic :: "rstring \<Rightarrow> companion_request \<Rightarrow> companion_request" where
  "companion_with_topic t q = q\<lparr>cd_topic := Some t\<rparr>"

record companion_decision =
  dc_tone :: companion_tone
  dc_emotion :: emotion_kind
  dc_intensity :: u8
  dc_proactive_care :: bool
  dc_instruction :: "rstring option"
  dc_follow_up :: "rstring option"

definition companion_decision_new ::
  "companion_tone \<Rightarrow> emotion_kind \<Rightarrow> u8 \<Rightarrow> bool \<Rightarrow> rstring option \<Rightarrow> rstring option \<Rightarrow> companion_decision" where
  "companion_decision_new t e i c ins f = \<lparr>dc_tone = t, dc_emotion = e, dc_intensity = min i 100, dc_proactive_care = c,
     dc_instruction = ins, dc_follow_up = f\<rparr>"

section \<open>Emotions\<close>

definition EMOTION_PATTERNS :: "(emotion_kind \<times> rstring list) list" where
  "EMOTION_PATTERNS = [
    (EmoAnxiety, [
     [28966, 34385], [32039, 24352], [21387, 21147], [25285, 24515], [24908], [23475, 24597],
      lit ''anxious'', lit ''anxiety'', lit ''stressed'', lit ''worried'', lit ''panic'']),
    (EmoSadness, [
     [38590, 36807], [20260, 24515], [20302, 33853], [22996, 23624], [27822, 20007], lit ''sad'',
      lit ''depressed'', lit ''down'', lit ''upset'']),
    (EmoFatigue, [
     [30130, 24811], [24456, 32047], [22826, 32047], [32047, 20102], [22256], [29100, 19981, 20303],
      [25745, 19981, 20303], lit ''tired'', lit ''exhausted'', lit ''burnout'']),
    (EmoFrustration, [
     [28902], [29983, 27668], [28779, 22823], [26080, 35821], [23849, 28291], [21345, 20303], [24700, 28779],
      lit ''angry'', lit ''frustrated'', lit ''annoyed'', lit ''stuck'']),
    (EmoJoy, [
     [24320, 24515], [39640, 20852], [22826, 22909, 20102], [26377, 36215, 33394], [39034, 20102],
      [23436, 25104, 20102], lit ''happy'', lit ''great'', lit ''progress'', lit ''done'']),
    (EmoUncertainty, [
     [19981, 30693, 36947], [19981, 30830, 23450], [22256, 24785], [30097, 24785], [36855, 33579],
      [24590, 20040, 20570], [27809, 24605, 36335], lit ''confused'', lit ''uncertain'', lit ''not sure'',
      lit ''lost'']),
    (EmoLoneliness, [
     [23396, 29420], [23396, 21333], [27809, 20154], [38506, 25105], [24819, 26377, 20154], lit ''lonely'',
      lit ''alone'', lit ''companionship''])]"

definition INTENSIFIERS :: "rstring list" where
  "INTENSIFIERS = [[24456], [29305, 21035], [38750, 24120], [22826], [30495, 30340], [23849, 28291], [25745, 19981, 20303], [21463, 19981, 20102],
     lit ''extremely'', lit ''very'', lit ''really'']"

definition DIMINISHERS :: "rstring list" where
  "DIMINISHERS = [[26377, 28857], [19968, 28857], [31245, 24494], lit ''somewhat'', lit ''a little'', lit ''kind of'']"

fun base_intensity :: "emotion_kind \<Rightarrow> u8" where
  "base_intensity EmoJoy = 45"
| "base_intensity EmoUncertainty = 50"
| "base_intensity EmoFrustration = 55"
| "base_intensity EmoNone = 0"
| "base_intensity e = 60"

definition sat_add :: "'a::len word \<Rightarrow> 'a word \<Rightarrow> 'a word" where
  "sat_add x y = (if unat x + unat y < 2 ^ LENGTH('a) then x + y else - 1)"

definition sat_sub :: "'a::len word \<Rightarrow> 'a word \<Rightarrow> 'a word" where
  "sat_sub x y = (if y \<le> x then x - y else 0)"

definition mentions :: "rstring \<Rightarrow> rstring \<Rightarrow> bool" where
  "mentions value marker \<longleftrightarrow> str_contains value marker \<or> str_contains (str_lowercase value) marker"

definition marker_matches :: "rstring \<Rightarrow> rstring list \<Rightarrow> nat" where
  "marker_matches value markers = length (filter (mentions value) markers)"

definition emotion_strength :: "rstring \<Rightarrow> emotion_kind \<Rightarrow> nat \<Rightarrow> u8" where
  "emotion_strength value kind matches =
     (let intensity = sat_add (base_intensity kind) (of_nat (min (matches - 1) 3) * 8);
          intensity = (if list_ex (mentions value) INTENSIFIERS then sat_add intensity 25 else intensity);
          intensity = (if list_ex (mentions value) DIMINISHERS then sat_sub intensity 15 else intensity)
      in min intensity 100)"

definition better :: "rstring \<Rightarrow> emotion_kind \<times> u8 \<times> nat \<Rightarrow> emotion_kind \<times> rstring list \<Rightarrow> emotion_kind \<times> u8 \<times> nat" where
  "better value best pattern =
     (let (kind, markers) = pattern; matches = marker_matches value markers in
      if matches = 0 then best
      else (let intensity = emotion_strength value kind matches in
        if fst (snd best) < intensity \<or> (intensity = fst (snd best) \<and> snd (snd best) < matches)
        then (kind, intensity, matches) else best))"

definition classify_emotion :: "rstring \<Rightarrow> emotion_kind \<times> u8" where
  "classify_emotion value =
     (case foldl (better value) (EmoNone, 0, 0) EMOTION_PATTERNS of (kind, intensity, matches) \<Rightarrow> (kind, intensity))"

section \<open>The decision\<close>

definition needs_supportive_tone :: "emotion_kind \<Rightarrow> bool" where
  "needs_supportive_tone e \<longleftrightarrow> e = EmoAnxiety \<or> e = EmoSadness \<or> e = EmoFatigue \<or> e = EmoLoneliness"

fun tone_rule :: "companion_tone \<Rightarrow> rstring" where
  "tone_rule Neutral = lit ''Keep the response neutral and task-focused.''"
| "tone_rule Warm = lit ''Respond warmly while remaining concrete and concise.''"
| "tone_rule Direct = lit ''Acknowledge the friction briefly, then give the clearest actionable next step.''"
| "tone_rule Supportive = lit ''Acknowledge the user's feeling without diagnosis, then offer one manageable next step.''"

fun emotion_rule :: "emotion_kind \<Rightarrow> rstring" where
  "emotion_rule EmoNone = []"
| "emotion_rule EmoAnxiety = lit '' Avoid adding urgency or pressure.''"
| "emotion_rule EmoSadness = lit '' Do not minimize or prematurely reframe the feeling.''"
| "emotion_rule EmoFatigue = lit '' Reduce cognitive load and avoid a long task list.''"
| "emotion_rule EmoFrustration = lit '' Do not be defensive or repeat failed advice.''"
| "emotion_rule EmoJoy = lit '' Recognize the progress without exaggeration.''"
| "emotion_rule EmoUncertainty = lit '' Present a small number of concrete options.''"
| "emotion_rule EmoLoneliness = lit '' Be present without implying human consciousness.''"

definition instruction_for :: "companion_tone \<Rightarrow> emotion_kind \<Rightarrow> bool \<Rightarrow> rstring option" where
  "instruction_for tone emotion has_context =
     (if tone = Neutral \<and> \<not> has_context then None
      else Some (lit ''<yunxi_companion_policy>'' @ tone_rule tone @ emotion_rule emotion @ lit ''</yunxi_companion_policy>''))"

fun follow_up_for :: "emotion_kind \<Rightarrow> rstring" where
  "follow_up_for EmoAnxiety = [35201, 19981, 35201, 20808, 25226, 26368, 21387, 30528, 20320, 30340, 28857, 25286, 25104, 19968, 23567, 27493, 65311]"
| "follow_up_for EmoSadness = [20320, 24076, 26395, 25105, 20808, 21548, 20320, 35828, 23436, 65292, 36824, 26159, 19968, 36215, 25972, 29702, 19979, 19968, 27493, 65311]"
| "follow_up_for EmoFatigue = [35201, 19981, 35201, 20808, 25226, 24403, 21069, 20219, 21153, 25910, 26463, 25104, 19968, 20010, 26368, 23567, 21487, 20570, 27493, 39588, 65311]"
| "follow_up_for EmoFrustration = [35201, 19981, 35201, 25105, 20808, 24110, 20320, 23450, 20301, 26368, 21345, 20303, 30340, 20855, 20307, 28857, 65311]"
| "follow_up_for EmoJoy = [35201, 19981, 35201, 39034, 25163, 25226, 36825, 27425, 26377, 25928, 30340, 20570, 27861, 35760, 24405, 19979, 26469, 65311]"
| "follow_up_for EmoUncertainty = [35201, 19981, 35201, 25105, 32473, 20320, 20004, 20010, 21487, 36873, 26041, 21521, 65292, 20877, 19968, 36215, 21462, 33293, 65311]"
| "follow_up_for EmoLoneliness = [20320, 24076, 26395, 25105, 20808, 38506, 20320, 32842, 19968, 20250, 20799, 65292, 36824, 26159, 19968, 36215, 20570, 28857, 36731, 37327, 30340, 20107, 65311]"
| "follow_up_for EmoNone = [20320, 24076, 26395, 25105, 32487, 32493, 36319, 36827, 36825, 20214, 20107, 21527, 65311]"

definition decide :: "companion_request \<Rightarrow> companion_decision" where
  "decide q =
     (let (emotion, intensity) = classify_emotion (cd_prompt q);
          has_context = (cd_profile_id q \<noteq> None \<or> cd_display_name q \<noteq> None \<or> cd_memories q \<noteq> []);
          tone = (if needs_supportive_tone emotion then Supportive
                  else if emotion = EmoFrustration then Direct
                  else if emotion \<noteq> EmoNone \<or> has_context then Warm
                  else Neutral);
          proactive_care = (emotion \<noteq> EmoNone \<or> cd_unfinished_task q \<noteq> None \<or> cd_topic q \<noteq> None)
      in companion_decision_new tone emotion intensity proactive_care (instruction_for tone emotion has_context)
           (if proactive_care then Some (follow_up_for emotion) else None))"

section \<open>The plugin\<close>

definition COMPANION_DECIDE :: rstring where "COMPANION_DECIDE = lit ''companion.decide''"
definition COMPANION_DECIDE_VERSION :: u32 where "COMPANION_DECIDE_VERSION = 1"
definition COMPANION_DECIDE_OPERATION :: rstring where "COMPANION_DECIDE_OPERATION = lit ''decide''"
definition COMPANION_PLUGIN_ID :: rstring where "COMPANION_PLUGIN_ID = lit ''yunxi.companion''"

datatype companion_plugin_error =
    CoCapability capability_error
  | CoInvocation codec_error
  | CoProtocol protocol_error
  | CoUnexpectedHostMessage rstring

fun show_companion_plugin_error :: "companion_plugin_error \<Rightarrow> rstring" where
  "show_companion_plugin_error (CoCapability e) = lit ''invalid capability: '' @ show_capability_error e"
| "show_companion_plugin_error (CoInvocation e) = show_codec_error e"
| "show_companion_plugin_error (CoProtocol e) = show_protocol_error e"
| "show_companion_plugin_error (CoUnexpectedHostMessage m) = m"

definition companion_errors :: "companion_plugin_error plugin_errors" where
  "companion_errors = \<lparr>pe_capability = CoCapability, pe_protocol = CoProtocol, pe_unexpected = CoUnexpectedHostMessage\<rparr>"

definition companion_answer ::
  "('v \<Rightarrow> (rstring, companion_request) res) \<Rightarrow> (companion_decision \<Rightarrow> (rstring, 'v) res) \<Rightarrow>
   'v invocation_request \<Rightarrow> 's \<Rightarrow> ('v, companion_plugin_error) reply \<times> 's" where
  "companion_answer from_value to_value =
     answer_single CoInvocation COMPANION_DECIDE COMPANION_DECIDE_VERSION COMPANION_DECIDE_OPERATION
       (lit ''companion'') from_value (\<lambda>q. ret (decide q)) to_value"

definition run_companion_plugin ::
  "('v \<Rightarrow> (rstring, companion_request) res) \<Rightarrow> (companion_decision \<Rightarrow> (rstring, 'v) res) \<Rightarrow> rstring \<Rightarrow>
   ('v host_message \<Rightarrow> rstring) \<Rightarrow> 'v connect_env \<Rightarrow> 'v script \<Rightarrow> 's \<Rightarrow>
   companion_plugin_error plugin_end \<times> 'v plugin_message list \<times> 's" where
  "run_companion_plugin from_value to_value version debug cenv =
     run_plugin companion_errors [(COMPANION_DECIDE, COMPANION_DECIDE_VERSION)]
       (\<lambda>caps. fst (connect_plugin COMPANION_PLUGIN_ID (lit ''Deterministic companion policy'') version caps debug cenv))
       (companion_answer from_value to_value)"

interpretation companion_plugin: answering "companion_answer from_value to_value"
  unfolding companion_answer_def by (rule answer_single_id)

section \<open>The emotion a decision reads\<close>

lemma pattern_kinds: "fst ` set EMOTION_PATTERNS = UNIV - {EmoNone}" "distinct (map fst EMOTION_PATTERNS)"
proof -
  show "fst ` set EMOTION_PATTERNS = UNIV - {EmoNone}"
  proof (intro equalityI subsetI)
    fix k :: emotion_kind
    assume "k \<in> UNIV - {EmoNone}"
    then show "k \<in> fst ` set EMOTION_PATTERNS" by (cases k) (simp_all add: EMOTION_PATTERNS_def)
  qed (auto simp: EMOTION_PATTERNS_def)
qed (simp add: EMOTION_PATTERNS_def)

lemma sat_add_ge: "x \<le> sat_add x (y :: 'a::len word)"
proof (cases "unat x + unat y < 2 ^ LENGTH('a)")
  case True
  then show ?thesis by (simp add: sat_add_def word_le_nat_alt unat_add_lem [THEN iffD1])
qed (simp add: sat_add_def)

lemma sat_sub_pos: "y < x \<Longrightarrow> 0 < sat_sub x y"
  by (auto simp: sat_sub_def word_gt_0)

lemma strength_bounds:
  assumes "kind \<noteq> EmoNone"
  shows "0 < emotion_strength value kind matches" "emotion_strength value kind matches \<le> 100"
proof -
  have "15 < base_intensity kind" using assms by (cases kind) simp_all
  then have above: "15 < sat_add (base_intensity kind) y" for y by (rule less_le_trans) (rule sat_add_ge)
  then have "15 < sat_add (sat_add (base_intensity kind) y) 25" for y by (rule less_le_trans) (rule sat_add_ge)
  moreover have "(0::u8) < x" if "15 < x" for x :: u8 using that by (rule le_less_trans [rotated]) simp
  ultimately show "0 < emotion_strength value kind matches"
    using above by (simp add: emotion_strength_def Let_def sat_sub_pos)
  show "emotion_strength value kind matches \<le> 100"
    by (simp add: emotion_strength_def Let_def)
qed

text \<open>What holds of the best candidate after the patterns tried so far.\<close>

definition best_of :: "rstring \<Rightarrow> (emotion_kind \<times> rstring list) set \<Rightarrow> emotion_kind \<times> u8 \<times> nat \<Rightarrow> bool" where
  "best_of value tried best \<longleftrightarrow>
     (\<forall>(k, ms) \<in> tried. marker_matches value ms \<noteq> 0 \<longrightarrow> emotion_strength value k (marker_matches value ms) \<le> fst (snd best)) \<and>
     (if fst best = EmoNone then fst (snd best) = 0 \<and> (\<forall>(k, ms) \<in> tried. marker_matches value ms = 0)
      else (\<exists>ms. (fst best, ms) \<in> tried \<and> marker_matches value ms \<noteq> 0 \<and>
        fst (snd best) = emotion_strength value (fst best) (marker_matches value ms)))"

lemma best_of_step:
  assumes "best_of value tried best" "fst p \<noteq> EmoNone"
  shows "best_of value (insert p tried) (better value best p)"
proof -
  obtain k ms kind i n where p: "p = (k, ms)" and best: "best = (kind, i, n)" by (cases p; cases best) auto
  have "0 < emotion_strength value k (marker_matches value ms)" using strength_bounds assms(2) p by simp
  note positive = this
  show ?thesis
  proof (cases "marker_matches value ms = 0 \<or> \<not> (i < emotion_strength value k (marker_matches value ms) \<or>
      i = emotion_strength value k (marker_matches value ms) \<and> n < marker_matches value ms)")
    case True
    then have keep: "better value best p = best"
      "marker_matches value ms \<noteq> 0 \<Longrightarrow> emotion_strength value k (marker_matches value ms) \<le> i"
      unfolding p best by (auto simp: better_def Let_def)
    moreover have "marker_matches value ms = 0" if "kind = EmoNone"
      by (rule ccontr) (use that keep(2) positive assms(1) in \<open>auto simp: best_of_def best\<close>)
    ultimately show ?thesis using assms(1) unfolding keep(1) unfolding p best by (auto simp: best_of_def split: if_splits)
  next
    case False
    then have "better value best p = (k, emotion_strength value k (marker_matches value ms), marker_matches value ms)"
      unfolding p best by (auto simp: better_def Let_def)
    moreover have "i \<le> emotion_strength value k (marker_matches value ms)" using False by auto
    ultimately show ?thesis
      using assms False unfolding p best by (fastforce simp: best_of_def)
  qed
qed

lemma best_of_fold:
  "best_of value tried best \<Longrightarrow> EmoNone \<notin> fst ` set ps \<Longrightarrow> best_of value (tried \<union> set ps) (foldl (better value) best ps)"
proof (induction ps arbitrary: tried best)
  case (Cons p ps)
  have "best_of value (insert p tried) (better value best p)"
    using Cons.prems best_of_step by (metis image_eqI list.set_intros(1))
  from Cons.IH [OF this] Cons.prems(2) show ?case by simp
qed simp

text \<open>A decision names an emotion exactly when the prompt mentions one of its markers, as written or in
  lower case, and then one of the strongest: no emotion the prompt mentions is stronger, and the intensity
  lies between 1 and 100. It offers a follow-up exactly when it cares, and an instruction exactly when it names an
  emotion or knows a persona or memories; the tone is supportive, direct or warm accordingly.\<close>

theorem companion_names_strongest:
  assumes "r = decide q"
  shows "(dc_emotion r = EmoNone \<longleftrightarrow> (\<forall>(k, ms) \<in> set EMOTION_PATTERNS. \<forall>m \<in> set ms. \<not> mentions (cd_prompt q) m)) \<and>
    (\<forall>(k, ms) \<in> set EMOTION_PATTERNS. (\<exists>m \<in> set ms. mentions (cd_prompt q) m) \<longrightarrow>
       emotion_strength (cd_prompt q) k (marker_matches (cd_prompt q) ms) \<le> dc_intensity r) \<and>
    (dc_emotion r \<noteq> EmoNone \<longrightarrow> 0 < dc_intensity r \<and> (\<exists>ms. (dc_emotion r, ms) \<in> set EMOTION_PATTERNS \<and>
       (\<exists>m \<in> set ms. mentions (cd_prompt q) m) \<and>
       dc_intensity r = emotion_strength (cd_prompt q) (dc_emotion r) (marker_matches (cd_prompt q) ms))) \<and>
    dc_intensity r \<le> 100 \<and>
    (dc_follow_up r \<noteq> None) = dc_proactive_care r \<and>
    (dc_instruction r = None \<longleftrightarrow> dc_tone r = Neutral) \<and>
    (dc_tone r = Supportive \<longleftrightarrow> needs_supportive_tone (dc_emotion r))"
proof -
  let ?v = "cd_prompt q"
  obtain kind i n where f: "foldl (better ?v) (EmoNone, 0, 0) EMOTION_PATTERNS = (kind, i, n)" by (metis prod_cases3)
  have "best_of ?v {} (EmoNone, 0, 0)" by (simp add: best_of_def)
  from best_of_fold [OF this, of EMOTION_PATTERNS] have best: "best_of ?v (set EMOTION_PATTERNS) (kind, i, n)"
    unfolding f pattern_kinds by simp
  have matches: "(\<forall>m \<in> set ms. \<not> mentions ?v m) = (marker_matches ?v ms = 0)"
    "(\<exists>m \<in> set ms. mentions ?v m) = (marker_matches ?v ms \<noteq> 0)" for ms
    by (simp_all add: marker_matches_def filter_empty_conv)
  have bound: "i \<le> 100" "kind \<noteq> EmoNone \<Longrightarrow> 0 < i"
    using best strength_bounds by (auto simp: best_of_def split: if_splits)
  have r: "dc_emotion r = kind" "dc_intensity r = i"
    using f bound(1) unfolding assms by (simp_all add: decide_def classify_emotion_def companion_decision_new_def Let_def min_def)
  have rest: "(dc_follow_up r \<noteq> None) = dc_proactive_care r" "dc_instruction r = None \<longleftrightarrow> dc_tone r = Neutral"
    "dc_tone r = Supportive \<longleftrightarrow> needs_supportive_tone (dc_emotion r)"
    unfolding assms by (auto simp: decide_def classify_emotion_def companion_decision_new_def instruction_for_def
        Let_def split: prod.splits)
  have first: "kind = EmoNone \<longleftrightarrow> (\<forall>(k, ms) \<in> set EMOTION_PATTERNS. marker_matches ?v ms = 0)"
    by (cases "kind = EmoNone") (use best in \<open>fastforce simp: best_of_def\<close>)+
  show ?thesis
    unfolding rest unfolding r matches
    using best bound first by (simp add: best_of_def split: if_splits)
qed

end
