(* ===== verification/Float32.thy ===== *)
theory Float32
  imports Rust_Std "HOL-Library.Log_Nat"
begin

text \<open>
  The \<open>f32\<close> numbers the memory policy scores with: rationals rounded to 24 significant binary digits, to
  the even neighbour in a tie, the infinities and the value that is not a number. The sign of zero is not kept; no
  comparison sees it.
\<close>

datatype f32 = Finite rat | Infinite bool | NotANumber

definition exp2 :: "int \<Rightarrow> rat" where
  "exp2 e = (if 0 \<le> e then 2 ^ nat e else 1 / 2 ^ nat (- e))"

text \<open>The exponent of a positive rational: \<open>exp2 k \<le> x < exp2 (k + 1)\<close>.\<close>

definition exponent_of :: "rat \<Rightarrow> int" where
  "exponent_of x = (case quotient_of x of (a, b) \<Rightarrow>
     let k = bitlen a - bitlen b in if exp2 k \<le> x then k else k - 1)"

definition round_even :: "rat \<Rightarrow> int" where
  "round_even q =
     (let f = \<lfloor>q\<rfloor>; r = q - of_int f in
      if r < 1 / 2 then f else if r = 1 / 2 then (if even f then f else f + 1) else f + 1)"

definition f32_round :: "rat \<Rightarrow> f32" where
  "f32_round x =
     (if x = 0 then Finite 0
      else (let e = max (exponent_of \<bar>x\<bar> - 23) (- 149);
                v = of_int (round_even (\<bar>x\<bar> / exp2 e)) * exp2 e
            in if exp2 128 \<le> v then Infinite (x < 0) else Finite (if x < 0 then - v else v)))"

fun is_finite :: "f32 \<Rightarrow> bool" where
  "is_finite (Finite x) = True"
| "is_finite y = False"

fun f32_less :: "f32 \<Rightarrow> f32 \<Rightarrow> bool" where
  "f32_less (Finite x) (Finite y) = (x < y)"
| "f32_less (Finite x) (Infinite neg) = (\<not> neg)"
| "f32_less (Infinite neg) (Finite y) = neg"
| "f32_less (Infinite neg) (Infinite neg') = (neg \<and> \<not> neg')"
| "f32_less x y = False"

definition f32_le :: "f32 \<Rightarrow> f32 \<Rightarrow> bool" where
  "f32_le x y \<longleftrightarrow> f32_less x y \<or> (x = y \<and> x \<noteq> NotANumber)"

fun f32_add :: "f32 \<Rightarrow> f32 \<Rightarrow> f32" where
  "f32_add (Finite x) (Finite y) = f32_round (x + y)"
| "f32_add (Finite x) (Infinite neg) = Infinite neg"
| "f32_add (Infinite neg) (Finite y) = Infinite neg"
| "f32_add (Infinite neg) (Infinite neg') = (if neg = neg' then Infinite neg else NotANumber)"
| "f32_add x y = NotANumber"

text \<open>A product with a finite constant.\<close>

fun f32_scale :: "f32 \<Rightarrow> rat \<Rightarrow> f32" where
  "f32_scale (Finite x) c = f32_round (x * c)"
| "f32_scale (Infinite neg) c = (if c = 0 then NotANumber else Infinite (neg \<noteq> (c < 0)))"
| "f32_scale NotANumber c = NotANumber"

definition f32_clamp :: "f32 \<Rightarrow> f32 \<Rightarrow> f32 \<Rightarrow> f32" where
  "f32_clamp lo hi x = (if f32_less x lo then lo else if f32_less hi x then hi else x)"

lemma f32_round_82: "f32_round (82 / 100) = Finite (13757317 / 16777216)"
  by code_simp

end
