(* ===== verification/Memory_Record.thy ===== *)
theory Memory_Record
  imports Float32 Text_Std Identity_Protocol
begin

text \<open>
  The records of the long-term memory: \<open>yunxi-memory/src/record.rs\<close>.
\<close>

definition CURRENT_SCHEMA_VERSION :: u32 where "CURRENT_SCHEMA_VERSION = 3"
definition MAX_MEMORY_ID_CHARS :: nat where "MAX_MEMORY_ID_CHARS = 256"
definition MAX_MEMORY_CONTENT_CHARS :: nat where "MAX_MEMORY_CONTENT_CHARS = 64 * 1024"

section \<open>Scopes, kinds and states\<close>

datatype memory_scope = GlobalUser | Workspace rstring | AgentIdentity | Relationship

fun scope_label :: "memory_scope \<Rightarrow> rstring" where
  "scope_label GlobalUser = lit ''global_user''"
| "scope_label (Workspace f) = lit ''workspace:'' @ f"
| "scope_label AgentIdentity = lit ''agent_identity''"
| "scope_label Relationship = lit ''relationship''"

fun matches_workspace :: "memory_scope \<Rightarrow> rstring \<Rightarrow> bool" where
  "matches_workspace (Workspace f) fingerprint = (f = fingerprint)"
| "matches_workspace s fingerprint = True"

datatype memory_kind =
    Preference | PersonalFact | RelationshipNote | EmotionalState | Goal | ProjectContext | Correction | Event
  | ToolTraceSummary

fun kind_rank :: "memory_kind \<Rightarrow> nat" where
  "kind_rank Preference = 0"
| "kind_rank PersonalFact = 1"
| "kind_rank RelationshipNote = 2"
| "kind_rank EmotionalState = 3"
| "kind_rank Goal = 4"
| "kind_rank ProjectContext = 5"
| "kind_rank Correction = 6"
| "kind_rank Event = 7"
| "kind_rank ToolTraceSummary = 8"

lemma kind_rank_inject [simp]: "kind_rank a = kind_rank b \<longleftrightarrow> a = b"
  by (cases a; cases b) simp_all

instantiation memory_kind :: linorder
begin

definition less_eq_memory_kind :: "memory_kind \<Rightarrow> memory_kind \<Rightarrow> bool" where
  "less_eq_memory_kind a b \<longleftrightarrow> kind_rank a \<le> kind_rank b"

definition less_memory_kind :: "memory_kind \<Rightarrow> memory_kind \<Rightarrow> bool" where
  "less_memory_kind a b \<longleftrightarrow> kind_rank a < kind_rank b"

instance
  by standard (auto simp: less_eq_memory_kind_def less_memory_kind_def)

end

fun memory_protocol_kind :: "memory_kind \<Rightarrow> memory_context_kind" where
  "memory_protocol_kind Preference = McPreference"
| "memory_protocol_kind PersonalFact = McPersonalFact"
| "memory_protocol_kind RelationshipNote = McRelationshipNote"
| "memory_protocol_kind EmotionalState = McEmotionalState"
| "memory_protocol_kind Goal = McGoal"
| "memory_protocol_kind ProjectContext = McProjectContext"
| "memory_protocol_kind Correction = McCorrection"
| "memory_protocol_kind Event = McEvent"
| "memory_protocol_kind ToolTraceSummary = McToolTraceSummary"

fun storage_key :: "memory_kind \<Rightarrow> rstring" where
  "storage_key Preference = lit ''preference''"
| "storage_key PersonalFact = lit ''personal_fact''"
| "storage_key RelationshipNote = lit ''relationship_note''"
| "storage_key EmotionalState = lit ''emotional_state''"
| "storage_key Goal = lit ''goal''"
| "storage_key ProjectContext = lit ''project_context''"
| "storage_key Correction = lit ''correction''"
| "storage_key Event = lit ''event''"
| "storage_key ToolTraceSummary = lit ''tool_trace_summary''"

datatype memory_sensitivity = LowSensitivity | MediumSensitivity | HighSensitivity

datatype memory_status = ActiveMemory | PendingMemory | RejectedMemory | ArchivedMemory

fun storage_group :: "memory_status \<Rightarrow> rstring" where
  "storage_group ActiveMemory = lit ''active''"
| "storage_group PendingMemory = lit ''pending''"
| "storage_group RejectedMemory = lit ''rejected''"
| "storage_group ArchivedMemory = lit ''archived''"

datatype memory_layer =
  LayerProfile | LayerPreference | LayerRelationship | LayerWorkspace | LayerEpisode | LayerToolTrace | LayerUnknown

fun layer_for_kind :: "memory_kind \<Rightarrow> memory_layer" where
  "layer_for_kind Preference = LayerPreference"
| "layer_for_kind PersonalFact = LayerProfile"
| "layer_for_kind RelationshipNote = LayerRelationship"
| "layer_for_kind EmotionalState = LayerRelationship"
| "layer_for_kind ProjectContext = LayerWorkspace"
| "layer_for_kind Correction = LayerWorkspace"
| "layer_for_kind Goal = LayerEpisode"
| "layer_for_kind Event = LayerEpisode"
| "layer_for_kind ToolTraceSummary = LayerToolTrace"

section \<open>Records\<close>

record memory_temporal =
  mt_observed :: u128
  mt_event :: "u128 option"
  mt_valid_from :: "u128 option"
  mt_expires :: "u128 option"

record memory_invalidation =
  mv_supersedes :: "rstring list"
  mv_superseded_by :: "rstring option"
  mv_conflicts :: "rstring list"
  mv_expires_reason :: "rstring option"
  mv_invalidated :: "u128 option"

definition no_invalidation :: memory_invalidation where
  "no_invalidation = \<lparr>mv_supersedes = [], mv_superseded_by = None, mv_conflicts = [], mv_expires_reason = None,
     mv_invalidated = None\<rparr>"

record memory_record =
  mr_id :: rstring
  mr_schema_version :: u32
  mr_scope :: memory_scope
  mr_kind :: memory_kind
  mr_content :: rstring
  mr_session :: "rstring option"
  mr_confidence :: f32
  mr_importance :: f32
  mr_sensitivity :: memory_sensitivity
  mr_status :: memory_status
  mr_created :: u128
  mr_updated :: u128
  mr_dedup_key :: rstring
  mr_revision :: u32
  mr_merged_count :: u32
  mr_layer :: memory_layer
  mr_temporal :: memory_temporal
  mr_invalidation :: memory_invalidation

definition contains_any :: "rstring \<Rightarrow> rstring list \<Rightarrow> bool" where
  "contains_any value needles =
     list_ex (\<lambda>n. str_contains value n \<or> str_contains (str_lowercase value) (str_lowercase n)) needles"

definition is_cjk :: "rchar \<Rightarrow> bool" where
  "is_cjk c \<longleftrightarrow> (0x4e00 \<le> c \<and> c \<le> 0x9fff) \<or> (0x3400 \<le> c \<and> c \<le> 0x4dbf) \<or> (0xf900 \<le> c \<and> c \<le> 0xfaff)"

definition normalize_step :: "rstring \<times> bool \<Rightarrow> rchar \<Rightarrow> rstring \<times> bool" where
  "normalize_step st c =
     (let (output, last_space) = st in
      if is_ascii_alphanumeric c then (output @ [to_ascii_lowercase c], False)
      else if is_whitespace c then (if \<not> last_space \<and> output \<noteq> [] then (output @ [32], True) else st)
      else if is_cjk c then (output @ [c], False)
      else st)"

definition normalized_content :: "memory_kind \<Rightarrow> rstring \<Rightarrow> rstring" where
  "normalized_content kind content =
     (if kind = Preference \<and> contains_any content [[20013, 25991], [27721, 35821], lit ''Chinese'', lit ''Mandarin''] then lit ''language:zh''
      else if kind = Preference \<and> contains_any content [[33521, 25991], [33521, 35821], lit ''English''] then lit ''language:en''
      else trim (fst (foldl normalize_step ([], False) content)))"

definition dedup_key :: "memory_record \<Rightarrow> rstring" where
  "dedup_key r =
     (if \<not> blank (mr_dedup_key r) then mr_dedup_key r
      else scope_label (mr_scope r) @ lit ''|'' @ storage_key (mr_kind r) @ lit ''|'' @
        normalized_content (mr_kind r) (mr_content r))"

definition memory_record_new :: "rstring \<Rightarrow> memory_scope \<Rightarrow> memory_kind \<Rightarrow> rstring \<Rightarrow> u128 \<Rightarrow> memory_record" where
  "memory_record_new i scope kind content now =
     (let r = \<lparr>mr_id = i, mr_schema_version = CURRENT_SCHEMA_VERSION, mr_scope = scope, mr_kind = kind, mr_content = content,
         mr_session = None, mr_confidence = f32_round (82 / 100), mr_importance = f32_round (65 / 100),
         mr_sensitivity = LowSensitivity, mr_status = PendingMemory, mr_created = now, mr_updated = now,
         mr_dedup_key = [], mr_revision = 1, mr_merged_count = 1, mr_layer = layer_for_kind kind,
         mr_temporal = \<lparr>mt_observed = now, mt_event = None, mt_valid_from = Some now, mt_expires = None\<rparr>,
         mr_invalidation = no_invalidation\<rparr>
      in r\<lparr>mr_dedup_key := dedup_key r\<rparr>)"

text \<open>Validation refuses a record or repairs it.\<close>

definition memory_problem :: "memory_record \<Rightarrow> rstring option" where
  "memory_problem r =
     (if CURRENT_SCHEMA_VERSION < mr_schema_version r
      then Some (lit ''unsupported future memory schema_version='' @ show_nat (unat (mr_schema_version r)) @
             lit ''; current='' @ show_nat (unat CURRENT_SCHEMA_VERSION))
      else if blank (mr_id r) \<or> MAX_MEMORY_ID_CHARS < length (mr_id r)
      then Some (lit ''memory id must contain 1 to '' @ show_nat MAX_MEMORY_ID_CHARS @ lit '' characters'')
      else if blank (mr_content r) \<or> MAX_MEMORY_CONTENT_CHARS < length (mr_content r)
      then Some (lit ''memory content must contain 1 to '' @ show_nat MAX_MEMORY_CONTENT_CHARS @ lit '' characters'')
      else if \<not> is_finite (mr_confidence r) \<or> \<not> is_finite (mr_importance r)
      then Some (lit ''memory confidence and importance must be finite'')
      else None)"

definition repair_temporal :: "u128 \<Rightarrow> memory_temporal \<Rightarrow> memory_temporal" where
  "repair_temporal created t = t\<lparr>
     mt_observed := if mt_observed t = 0 then created else mt_observed t,
     mt_valid_from := if mt_valid_from t = None \<and> created \<noteq> 0 then Some created else mt_valid_from t\<rparr>"

definition repair_memory :: "memory_record \<Rightarrow> memory_record" where
  "repair_memory r = r\<lparr>
     mr_confidence := f32_clamp (Finite 0) (Finite 1) (mr_confidence r),
     mr_importance := f32_clamp (Finite 0) (Finite 1) (mr_importance r),
     mr_updated := if mr_updated r = 0 then mr_created r else mr_updated r,
     mr_temporal := repair_temporal (mr_created r) (mr_temporal r),
     mr_revision := if mr_revision r = 0 then 1 else mr_revision r,
     mr_merged_count := if mr_merged_count r = 0 then 1 else mr_merged_count r,
     mr_layer := if mr_layer r = LayerUnknown then layer_for_kind (mr_kind r) else mr_layer r\<rparr>"

definition validate_memory :: "memory_record \<Rightarrow> (rstring, memory_record) res" where
  "validate_memory r = (case memory_problem r of Some e \<Rightarrow> Inl e | None \<Rightarrow> Inr (repair_memory r))"

definition is_recallable :: "u128 \<Rightarrow> memory_record \<Rightarrow> bool" where
  "is_recallable now r \<longleftrightarrow>
     mr_status r = ActiveMemory \<and>
     (case mt_valid_from (mr_temporal r) of None \<Rightarrow> True | Some t \<Rightarrow> t \<le> now) \<and>
     (case mt_expires (mr_temporal r) of None \<Rightarrow> True | Some t \<Rightarrow> now < t) \<and>
     mv_invalidated (mr_invalidation r) = None \<and> mv_superseded_by (mr_invalidation r) = None"

definition ordering_time :: "memory_record \<Rightarrow> u128" where
  "ordering_time r =
     max (max (case mt_event (mr_temporal r) of Some t \<Rightarrow> t | None \<Rightarrow> mt_observed (mr_temporal r)) (mr_updated r)) (mr_created r)"

definition to_context_record :: "memory_record \<Rightarrow> memory_context_record" where
  "to_context_record r = \<lparr>mc_id = mr_id r, mc_scope = scope_label (mr_scope r), mc_kind = memory_protocol_kind (mr_kind r),
     mc_content = mr_content r\<rparr>"

definition memory_set_status :: "memory_status \<Rightarrow> u128 \<Rightarrow> memory_record \<Rightarrow> memory_record" where
  "memory_set_status s now r = r\<lparr>mr_status := s, mr_updated := now, mr_revision := sat_inc (mr_revision r)\<rparr>"

section \<open>What validation keeps\<close>

lemma repair_memory_keeps [simp]:
  "mr_id (repair_memory r) = mr_id r" "mr_scope (repair_memory r) = mr_scope r" "mr_kind (repair_memory r) = mr_kind r"
  "mr_content (repair_memory r) = mr_content r" "mr_sensitivity (repair_memory r) = mr_sensitivity r"
  "mr_status (repair_memory r) = mr_status r" "mr_invalidation (repair_memory r) = mr_invalidation r"
  "mr_dedup_key (repair_memory r) = mr_dedup_key r" "mr_schema_version (repair_memory r) = mr_schema_version r"
  "mr_created (repair_memory r) = mr_created r" "mr_session (repair_memory r) = mr_session r"
  by (simp_all add: repair_memory_def)

lemma dedup_key_repair [simp]: "dedup_key (repair_memory r) = dedup_key r"
  by (simp add: dedup_key_def)

lemma validate_memory_Inr: "validate_memory r = Inr r' \<longleftrightarrow> memory_problem r = None \<and> r' = repair_memory r"
  by (auto simp: validate_memory_def split: option.splits)

lemma clamp_again [simp]: "f32_clamp (Finite 0) (Finite 1) (f32_clamp (Finite 0) (Finite 1) x) = f32_clamp (Finite 0) (Finite 1) x"
  by (simp add: f32_clamp_def)

lemma layer_known [simp]: "layer_for_kind k \<noteq> LayerUnknown"
  by (cases k) simp_all

lemma repair_temporal_again [simp]: "repair_temporal c (repair_temporal c t) = repair_temporal c t"
  by (simp add: repair_temporal_def)

lemma repair_memory_again [simp]: "repair_memory (repair_memory r) = repair_memory r"
  by (simp add: repair_memory_def)

end
