(* ===== verification/Memory_Store.thy ===== *)
theory Memory_Store
  imports Memory_Record Store_Plugin
begin

text \<open>
  Loading and appending memory records: \<open>yunxi-memory/src/store.rs\<close>. The files hold one record per line; the
  files of the Next namespace are read before the legacy ones, only the former are ever written. The process-wide
  counter of record ids lives beside the disk. serde, the default hasher, the environment and the text of a path
  are arguments.
\<close>

definition MAX_MEMORY_FILE_BYTES :: nat where "MAX_MEMORY_FILE_BYTES = 16 * 1024 * 1024"
definition MAX_MEMORY_LINE_BYTES :: nat where "MAX_MEMORY_LINE_BYTES = 1024 * 1024"
definition MAX_LOADED_RECORDS :: nat where "MAX_LOADED_RECORDS = 50000"

section \<open>Errors and the environment\<close>

datatype memory_store_error =
    MsWorkspace path io_error
  | MsNotDirectory path
  | MsIo path io_error
  | MsSerialize rstring
  | MsRecordTooLarge nat

fun show_memory_store_error :: "platform_display \<Rightarrow> memory_store_error \<Rightarrow> rstring" where
  "show_memory_store_error t (MsWorkspace p e) =
     lit ''failed to resolve workspace '' @ pd_path t p @ lit '': '' @ pd_io t e"
| "show_memory_store_error t (MsNotDirectory p) = lit ''memory workspace is not a directory: '' @ pd_path t p"
| "show_memory_store_error t (MsIo p e) = lit ''memory I/O failed at '' @ pd_path t p @ lit '': '' @ pd_io t e"
| "show_memory_store_error t (MsSerialize e) = lit ''failed to serialize memory: '' @ e"
| "show_memory_store_error t (MsRecordTooLarge n) = lit ''memory record exceeds '' @ show_nat n @ lit '' bytes''"

record memory_env =
  me_canonicalize :: "path \<Rightarrow> (io_error, path) res"
  me_var :: "rstring \<Rightarrow> path option"
  me_lossy :: "path \<Rightarrow> rstring"
  me_hash :: "u8 list \<Rightarrow> u64"
  me_parse :: "rstring \<Rightarrow> (rstring, memory_record) res"
  me_print :: "memory_record \<Rightarrow> (rstring, u8 list) res"
  me_show :: platform_display

record memory_world = disk +
  mw_counter :: u64

type_synonym ('e, 'a) mem_act = "(memory_world, 'e, 'a) act"

section \<open>The store\<close>

record memory_store =
  ms_legacy_global :: path
  ms_next_global :: path
  ms_legacy_workspace :: path
  ms_next_workspace :: path
  ms_fingerprint :: rstring

definition legacy_home_dir :: "memory_env \<Rightarrow> path" where
  "legacy_home_dir env =
     (case me_var env (lit ''YUNXI_HOME'') of
        Some p \<Rightarrow> p
      | None \<Rightarrow>
          (case me_var env (lit ''USERPROFILE'') of
             Some p \<Rightarrow> path_join p (lit ''.yunxi'')
           | None \<Rightarrow>
               (case me_var env (lit ''HOME'') of
                  Some p \<Rightarrow> path_join p (lit ''.yunxi'')
                | None \<Rightarrow> [lit ''.yunxi''])))"

definition next_home_dir :: "memory_env \<Rightarrow> path" where
  "next_home_dir env =
     (case me_var env (lit ''YUNXI_NEXT_HOME'') of
        Some p \<Rightarrow> p
      | None \<Rightarrow>
          (case me_var env (lit ''USERPROFILE'') of
             Some p \<Rightarrow> path_join p (lit ''.yunxi-next'')
           | None \<Rightarrow>
               (case me_var env (lit ''HOME'') of
                  Some p \<Rightarrow> path_join p (lit ''.yunxi-next'')
                | None \<Rightarrow> [lit ''.yunxi-next''])))"

text \<open>Hashing a string feeds its bytes and a terminating \<open>0xff\<close> to the hasher.\<close>

definition workspace_fingerprint :: "memory_env \<Rightarrow> path \<Rightarrow> rstring" where
  "workspace_fingerprint env p =
     (let canonical = (case me_canonicalize env p of Inr q \<Rightarrow> q | Inl e \<Rightarrow> p)
      in show_hex 16 (unat (me_hash env (as_bytes (str_lowercase (me_lossy env canonical)) @ [255]))))"

definition with_homes :: "memory_env \<Rightarrow> path \<Rightarrow> path \<Rightarrow> path \<Rightarrow> (memory_store_error, memory_store) mem_act" where
  "with_homes env cwd legacy_home next_home =
     act_bind (lift_res (map_err (MsWorkspace cwd) (me_canonicalize env cwd))) (\<lambda>canonical.
     act_bind (fs_is_dir canonical) (\<lambda>directory.
     if \<not> directory then throw (MsNotDirectory canonical)
     else ret \<lparr>
       ms_legacy_global = path_join legacy_home (lit ''memory''),
       ms_next_global = path_join next_home (lit ''memory''),
       ms_legacy_workspace = path_join (path_join canonical (lit ''.yunxi'')) (lit ''memory''),
       ms_next_workspace = path_join (path_join canonical (lit ''.yunxi-next'')) (lit ''memory''),
       ms_fingerprint = workspace_fingerprint env canonical\<rparr>))"

definition for_workspace :: "memory_env \<Rightarrow> path \<Rightarrow> (memory_store_error, memory_store) mem_act" where
  "for_workspace env cwd = with_homes env cwd (legacy_home_dir env) (next_home_dir env)"

definition memory_from_grant :: "memory_env \<Rightarrow> workspace_grant \<Rightarrow> (memory_store_error, memory_store) mem_act" where
  "memory_from_grant env g =
     with_homes env (wg_root g) (legacy_home_dir env)
       (case wg_state_root g of Some p \<Rightarrow> p | None \<Rightarrow> path_join (wg_root g) (lit ''.yunxi-next''))"

section \<open>Loading\<close>

record memory_load =
  ml_records :: "memory_record list"
  ml_warnings :: "rstring list"

definition no_memories :: memory_load where
  "no_memories = \<lparr>ml_records = [], ml_warnings = []\<rparr>"

definition warn :: "rstring \<Rightarrow> memory_load \<Rightarrow> memory_load" where
  "warn w load = load\<lparr>ml_warnings := ml_warnings load @ [w]\<rparr>"

definition push_record :: "memory_record \<Rightarrow> memory_load \<Rightarrow> memory_load" where
  "push_record r load = load\<lparr>ml_records := ml_records load @ [r]\<rparr>"

text \<open>\<open>str::lines\<close>: no empty line after the last line feed, no carriage return before a line feed.\<close>

definition strip_cr :: "rstring \<Rightarrow> rstring" where
  "strip_cr l = (if l \<noteq> [] \<and> last l = 13 then butlast l else l)"

definition str_lines :: "rstring \<Rightarrow> rstring list" where
  "str_lines s =
     (let parts = split_on 10 s in
      map strip_cr (butlast parts) @ (if last parts = [] then [] else [last parts]))"

definition read_line :: "memory_env \<Rightarrow> path \<Rightarrow> nat \<Rightarrow> rstring \<Rightarrow> memory_load \<Rightarrow> memory_load" where
  "read_line env p index line load =
     (let line = trim line;
          where_text = lit '' line '' @ show_nat (index + 1) @ lit '' in '' @ pd_path (me_show env) p in
      if line = [] then load
      else if MAX_MEMORY_LINE_BYTES < str_len line
      then warn (lit ''memory'' @ where_text @ lit '' exceeds '' @ show_nat MAX_MEMORY_LINE_BYTES @ lit '' bytes'') load
      else (case me_parse env line of
          Inl e \<Rightarrow> warn (lit ''failed to parse memory'' @ where_text @ lit '': '' @ e) load
        | Inr r \<Rightarrow>
            (case validate_memory r of
               Inl e \<Rightarrow> warn (lit ''invalid memory'' @ where_text @ lit '': '' @ e) load
             | Inr r' \<Rightarrow> push_record r' load)))"

fun read_lines :: "memory_env \<Rightarrow> path \<Rightarrow> nat \<Rightarrow> rstring list \<Rightarrow> memory_load \<Rightarrow> memory_load" where
  "read_lines env p index [] load = load"
| "read_lines env p index (line # rest) load =
     (if MAX_LOADED_RECORDS \<le> length (ml_records load) then load
      else read_lines env p (Suc index) rest (read_line env p index line load))"

definition read_memory_file :: "memory_env \<Rightarrow> path \<Rightarrow> memory_load \<Rightarrow> memory_world \<Rightarrow> memory_load \<times> memory_world" where
  "read_memory_file env p load d =
     (case fs_metadata p d of
        (Inl IoNotFound, d1) \<Rightarrow> (load, d1)
      | (Inl e, d1) \<Rightarrow> (warn (lit ''failed to inspect '' @ pd_path (me_show env) p @ lit '': '' @ pd_io (me_show env) e) load, d1)
      | (Inr DirNode, d1) \<Rightarrow> (warn (lit ''memory path is not a file: '' @ pd_path (me_show env) p) load, d1)
      | (Inr (FileNode c), d1) \<Rightarrow>
          if MAX_MEMORY_FILE_BYTES < length c
          then (warn (lit ''memory file '' @ pd_path (me_show env) p @ lit '' is '' @ show_nat (length c) @
                  lit '' bytes; maximum is '' @ show_nat MAX_MEMORY_FILE_BYTES) load, d1)
          else (case fs_read_to_string p d1 of
              (Inl e, d2) \<Rightarrow>
                (warn (lit ''failed to read '' @ pd_path (me_show env) p @ lit '': '' @ pd_io (me_show env) e) load, d2)
            | (Inr content, d2) \<Rightarrow> (read_lines env p 0 (str_lines content) load, d2)))"

fun load_paths :: "memory_env \<Rightarrow> path list \<Rightarrow> memory_load \<Rightarrow> memory_world \<Rightarrow> memory_load \<times> memory_world" where
  "load_paths env [] load d = (load, d)"
| "load_paths env (p # ps) load d =
     (case read_memory_file env p load d of (load1, d1) \<Rightarrow>
        if MAX_LOADED_RECORDS \<le> length (ml_records load1)
        then (warn (lit ''memory record limit reached at '' @ show_nat MAX_LOADED_RECORDS @
                lit ''; remaining files were skipped'') load1, d1)
        else load_paths env ps load1 d1)"

definition should_replace :: "memory_record \<Rightarrow> memory_record \<Rightarrow> bool" where
  "should_replace existing candidate \<longleftrightarrow>
     mr_updated existing < mr_updated candidate \<or>
     (mr_updated candidate = mr_updated existing \<and> mr_revision existing < mr_revision candidate) \<or>
     (mr_updated candidate = mr_updated existing \<and> mr_revision candidate = mr_revision existing \<and>
      f32_less (mr_importance existing) (mr_importance candidate))"

definition keep_latest :: "(memory_record \<Rightarrow> rstring) \<Rightarrow> (rstring, memory_record) btmap \<Rightarrow> memory_record \<Rightarrow> (rstring, memory_record) btmap" where
  "keep_latest key m r =
     (case bt_get m (key r) of
        Some existing \<Rightarrow> if should_replace existing r then bt_insert (key r) r m else m
      | None \<Rightarrow> bt_insert (key r) r m)"

definition status_key :: "memory_record \<Rightarrow> rstring" where
  "status_key r = dedup_key r @ lit ''|'' @ storage_group (mr_status r)"

definition collapse_latest :: "memory_record list \<Rightarrow> memory_record list" where
  "collapse_latest records =
     bt_values (foldl (keep_latest status_key) [] (bt_values (foldl (keep_latest mr_id) [] records)))"

definition newest_memory :: "memory_record \<Rightarrow> memory_record \<Rightarrow> bool" where
  "newest_memory l r \<longleftrightarrow> mr_updated r < mr_updated l \<or> (mr_updated r = mr_updated l \<and> mr_id l \<le> mr_id r)"

definition memory_paths :: "memory_store \<Rightarrow> path list" where
  "memory_paths st =
    [path_join (ms_next_global st) (lit ''global-memory.jsonl''), path_join (ms_next_global st) (lit ''pending.jsonl''),
     path_join (ms_next_workspace st) (lit ''workspace-memory.jsonl''), path_join (ms_next_workspace st) (lit ''pending.jsonl''),
     path_join (ms_legacy_global st) (lit ''global-memory.jsonl''), path_join (ms_legacy_global st) (lit ''pending.jsonl''),
     path_join (ms_legacy_workspace st) (lit ''workspace-memory.jsonl''), path_join (ms_legacy_workspace st) (lit ''pending.jsonl'')]"

definition memory_load_all :: "memory_env \<Rightarrow> memory_store \<Rightarrow> ('e, memory_load) mem_act" where
  "memory_load_all env st d =
     (case load_paths env (memory_paths st) no_memories d of (load, d1) \<Rightarrow>
        (Inr (load\<lparr>ml_records := sort_by newest_memory (collapse_latest (ml_records load))\<rparr>), d1))"

section \<open>Appending\<close>

fun in_workspace :: "memory_scope \<Rightarrow> bool" where
  "in_workspace (Workspace f) = True"
| "in_workspace s = False"

definition append_root :: "memory_store \<Rightarrow> memory_record \<Rightarrow> path" where
  "append_root st r = (if in_workspace (mr_scope r) then ms_next_workspace st else ms_next_global st)"

definition append_path :: "memory_store \<Rightarrow> memory_record \<Rightarrow> path" where
  "append_path st r = path_join (append_root st r)
     (if mr_status r = PendingMemory then lit ''pending.jsonl''
      else if in_workspace (mr_scope r) then lit ''workspace-memory.jsonl''
      else lit ''global-memory.jsonl'')"

definition memory_append :: "memory_env \<Rightarrow> memory_store \<Rightarrow> memory_record \<Rightarrow> (memory_store_error, unit) mem_act" where
  "memory_append env st r =
     (let p = append_path st r in
      act_then (act_map_err (MsIo (append_root st r)) (fs_create_dir_all (append_root st r)))
     (act_bind (lift_res (map_err MsSerialize (me_print env r))) (\<lambda>line.
      if MAX_MEMORY_LINE_BYTES < length line then throw (MsRecordTooLarge MAX_MEMORY_LINE_BYTES)
      else
        act_then (act_map_err (MsIo p) (fs_open_append p))
          (act_map_err (MsIo p) (act_then (fs_append_all p (line @ [10])) fs_sync)))))"

end
