(* ===== verification/Memory_Recall.thy ===== *)
theory Memory_Recall
  imports Memory_Store
begin

text \<open>
  Recalling memories for a prompt: \<open>yunxi-memory/src/recall.rs\<close>.
\<close>

definition MAX_QUERY_CHARS :: nat where "MAX_QUERY_CHARS = 16 * 1024"
definition BOOT_MAX_RECORDS :: nat where "BOOT_MAX_RECORDS = 6"
definition BOOT_BUDGET_CHARS :: nat where "BOOT_BUDGET_CHARS = 1000"
definition DYNAMIC_MAX_RECORDS :: nat where "DYNAMIC_MAX_RECORDS = 8"
definition DYNAMIC_BUDGET_CHARS :: nat where "DYNAMIC_BUDGET_CHARS = 1200"
definition RECALL_RELEVANCE_THRESHOLD :: f32 where "RECALL_RELEVANCE_THRESHOLD = Finite 2"
definition BOOT_MIN_CONFIDENCE :: f32 where "BOOT_MIN_CONFIDENCE = f32_round (6 / 10)"
definition BOOT_MIN_IMPORTANCE :: f32 where "BOOT_MIN_IMPORTANCE = f32_round (4 / 10)"

datatype memory_recall_error = MrStore memory_store_error | MrQueryTooLong nat

fun show_memory_recall_error :: "platform_display \<Rightarrow> memory_recall_error \<Rightarrow> rstring" where
  "show_memory_recall_error t (MrStore e) = show_memory_store_error t e"
| "show_memory_recall_error t (MrQueryTooLong n) = lit ''memory query exceeds '' @ show_nat n @ lit '' characters''"

section \<open>Scores and triggers\<close>

definition is_boot_candidate :: "memory_record \<Rightarrow> bool" where
  "is_boot_candidate r \<longleftrightarrow>
     f32_le BOOT_MIN_CONFIDENCE (mr_confidence r) \<and> f32_le BOOT_MIN_IMPORTANCE (mr_importance r) \<and>
     mr_layer r \<in> {LayerProfile, LayerPreference, LayerRelationship, LayerWorkspace} \<and>
     mr_kind r \<in> {Preference, PersonalFact, RelationshipNote, ProjectContext, Correction}"

fun layer_bonus :: "memory_layer \<Rightarrow> f32" where
  "layer_bonus LayerPreference = Finite 1"
| "layer_bonus LayerWorkspace = Finite 1"
| "layer_bonus LayerProfile = Finite (3 / 4)"
| "layer_bonus LayerRelationship = Finite (3 / 4)"
| "layer_bonus l = Finite 0"

definition boot_score :: "memory_record \<Rightarrow> f32" where
  "boot_score r = f32_add (f32_add (f32_scale (mr_importance r) 2) (mr_confidence r)) (layer_bonus (mr_layer r))"

definition project_words :: "rstring list" where
  "project_words = [[39033, 30446], [20179, 24211], [20195, 30721], [28304, 30721], lit ''workspace'', lit ''repo'', lit ''project'']"

fun kind_trigger_matches :: "memory_kind \<Rightarrow> rstring \<Rightarrow> rstring \<Rightarrow> bool" where
  "kind_trigger_matches ProjectContext query content = (contains_any query project_words \<and> contains_any content project_words)"
| "kind_trigger_matches ToolTraceSummary query content = (contains_any query project_words \<and> contains_any content project_words)"
| "kind_trigger_matches PersonalFact query content =
     contains_any query [[25105], [25105, 30340], [20010, 20154], [20559, 22909], lit ''profile'', lit ''me'', lit ''my'']"
| "kind_trigger_matches Goal query content = contains_any query [[30446, 26631], [35745, 21010], [19979, 19968, 27493], lit ''goal'', lit ''plan'']"
| "kind_trigger_matches Correction query content =
     contains_any query [[35201, 27714], [32422, 26463], [19981, 35201], [32416, 27491], lit ''rule'', lit ''constraint'']"
| "kind_trigger_matches RelationshipNote query content =
     contains_any query [[20851, 31995], [24773, 32490], [24863, 21463], lit ''relationship'', lit ''emotion'']"
| "kind_trigger_matches EmotionalState query content =
     contains_any query [[20851, 31995], [24773, 32490], [24863, 21463], lit ''relationship'', lit ''emotion'']"
| "kind_trigger_matches Preference query content = False"
| "kind_trigger_matches Event query content = False"

definition is_graph_memory :: "memory_kind \<Rightarrow> bool" where
  "is_graph_memory k \<longleftrightarrow> k \<in> {Preference, Correction, RelationshipNote, EmotionalState, Goal, ProjectContext, Event}"

definition is_timeline_query :: "rstring \<Rightarrow> bool" where
  "is_timeline_query query = contains_any query [[20851, 31995, 21464, 21270], [24863, 24773, 21464, 21270], [26102, 38388, 32447], [20160, 20040, 26102, 20505], [20043, 21069, 21457, 29983],
     lit ''relationship timeline'', lit ''how has our relationship'', lit ''when did'']"

definition score_record :: "memory_record \<Rightarrow> rstring \<Rightarrow> f32" where
  "score_record r query =
     (let query_lower = str_lowercase query;
          content_lower = str_lowercase (mr_content r);
          terms = filter (\<lambda>t. 2 \<le> str_len t) (split_whitespace query_lower);
          score = foldl (\<lambda>s t. if str_contains content_lower t then f32_add s (Finite 2) else s) (Finite 0) terms;
          score = (if in_workspace (mr_scope r) then f32_add score (Finite (1 / 2)) else score);
          score = (if kind_trigger_matches (mr_kind r) query_lower content_lower then f32_add score (Finite 2) else score)
      in if f32_less (Finite 0) score then f32_add score (f32_add (mr_importance r) (f32_scale (mr_confidence r) (1 / 2)))
         else score)"

section \<open>Choosing and bounding\<close>

text \<open>Descending score, then the newest, then by id; scores that do not compare count as equal.\<close>

definition by_score :: "(memory_record \<Rightarrow> f32) \<Rightarrow> memory_record \<Rightarrow> memory_record \<Rightarrow> bool" where
  "by_score score l r \<longleftrightarrow>
     f32_less (score r) (score l) \<or>
     (\<not> f32_less (score l) (score r) \<and> newest_memory l r)"

definition by_time :: "memory_record \<Rightarrow> memory_record \<Rightarrow> bool" where
  "by_time l r \<longleftrightarrow> ordering_time r < ordering_time l \<or> (ordering_time r = ordering_time l \<and> mr_id l \<le> mr_id r)"

fun take_budget :: "nat \<Rightarrow> nat \<Rightarrow> nat \<Rightarrow> memory_record list \<Rightarrow> memory_record list \<Rightarrow> memory_record list \<times> bool" where
  "take_budget max_records budget used taken [] = (taken, False)"
| "take_budget max_records budget used taken (r # rs) =
     (let chars = length (mr_content r) in
      if max_records \<le> length taken \<or> budget < used + chars
      then (fst (take_budget max_records budget used taken rs), True)
      else take_budget max_records budget (used + chars) (taken @ [r]) rs)"

definition recall_visible :: "rstring \<Rightarrow> memory_record \<Rightarrow> bool" where
  "recall_visible fingerprint r \<longleftrightarrow> mr_sensitivity r \<noteq> HighSensitivity \<and> matches_workspace (mr_scope r) fingerprint"

definition recall_loaded ::
  "memory_load \<Rightarrow> rstring \<Rightarrow> rstring \<Rightarrow> bool \<Rightarrow> u128 \<Rightarrow> recall_result" where
  "recall_loaded load fingerprint query include_boot now =
     (let timeline = is_timeline_query query;
          visible = filter (recall_visible fingerprint) (ml_records load);
          recallable = filter (is_recallable now) visible;
          historical = filter (\<lambda>r. \<not> is_recallable now r \<and> timeline \<and> mr_status r = ActiveMemory \<and> is_graph_memory (mr_kind r)) visible;
          candidates = filter (\<lambda>r. is_boot_candidate r \<and> \<not> (timeline \<and> is_graph_memory (mr_kind r))) recallable;
          (boot, boot_truncated) =
            (if include_boot then take_budget BOOT_MAX_RECORDS BOOT_BUDGET_CHARS 0 [] (sort_by (by_score boot_score) candidates)
             else ([], False));
          others = filter (\<lambda>r. mr_id r \<notin> set (map mr_id boot)) recallable @ historical;
          dynamic_candidates =
            (if timeline then sort_by by_time others
             else sort_by (by_score (\<lambda>r. score_record r query))
               (filter (\<lambda>r. \<not> blank query \<and> f32_le RECALL_RELEVANCE_THRESHOLD (score_record r query)) others));
          (dynamic, dynamic_truncated) = take_budget DYNAMIC_MAX_RECORDS DYNAMIC_BUDGET_CHARS 0 [] dynamic_candidates
      in \<lparr>rx_fingerprint = fingerprint, rx_boot = map to_context_record boot, rx_dynamic = map to_context_record dynamic,
          rx_warnings = ml_warnings load, rx_truncated = (boot_truncated \<or> dynamic_truncated)\<rparr>)"

definition recall :: "memory_env \<Rightarrow> recall_request \<Rightarrow> (memory_recall_error, recall_result) mem_act" where
  "recall env q =
     (if MAX_QUERY_CHARS < length (rr_query q) then throw (MrQueryTooLong MAX_QUERY_CHARS)
      else act_bind (act_map_err MrStore (for_workspace env (rr_cwd q))) (\<lambda>st.
           act_bind (memory_load_all env st) (\<lambda>load.
           act_bind now_millis (\<lambda>now.
           ret (recall_loaded load (ms_fingerprint st) (rr_query q) (rr_boot q) now)))))"

section \<open>What is recalled\<close>

lemma take_budget_within:
  assumes "length taken \<le> m" "sum_list (map (\<lambda>r. length (mr_content r)) taken) = used" "used \<le> b"
  shows "length (fst (take_budget m b used taken rs)) \<le> m \<and>
    sum_list (map (\<lambda>r. length (mr_content r)) (fst (take_budget m b used taken rs))) \<le> b \<and>
    set (fst (take_budget m b used taken rs)) \<subseteq> set taken \<union> set rs"
  using assms
proof (induction rs arbitrary: used taken)
  case (Cons r rs)
  show ?case
  proof (cases "m \<le> length taken \<or> b < used + length (mr_content r)")
    case True
    then show ?thesis using Cons.IH [OF Cons.prems] by (auto simp: Let_def)
  next
    case False
    have "length (taken @ [r]) \<le> m" "sum_list (map (\<lambda>r. length (mr_content r)) (taken @ [r])) = used + length (mr_content r)"
      "used + length (mr_content r) \<le> b"
      using False Cons.prems by auto
    from Cons.IH [OF this] show ?thesis using False by (auto simp: Let_def)
  qed
qed auto

lemma take_budget_all:
  "\<not> snd (take_budget m b used taken rs) \<Longrightarrow> fst (take_budget m b used taken rs) = taken @ rs"
  by (induction m b used taken rs rule: take_budget.induct) (auto simp: Let_def split: if_splits)

text \<open>What a recalled record is: visible, active, and in force unless the question is about the past.\<close>

definition recall_allowed :: "memory_load \<Rightarrow> rstring \<Rightarrow> rstring \<Rightarrow> u128 \<Rightarrow> memory_record \<Rightarrow> bool" where
  "recall_allowed load fingerprint query now r \<longleftrightarrow>
     r \<in> set (ml_records load) \<and> mr_sensitivity r \<noteq> HighSensitivity \<and> matches_workspace (mr_scope r) fingerprint \<and>
     mr_status r = ActiveMemory \<and> (is_recallable now r \<or> is_timeline_query query)"

lemma recallable_active: "is_recallable now r \<Longrightarrow> mr_status r = ActiveMemory"
  by (simp add: is_recallable_def)

lemma recall_loaded_parts:
  obtains boot dynamic where
    "rx_boot (recall_loaded load fp query b now) = map to_context_record boot"
    "rx_dynamic (recall_loaded load fp query b now) = map to_context_record dynamic"
    "\<forall>r \<in> set boot. recall_allowed load fp query now r \<and> is_recallable now r \<and> is_boot_candidate r"
    "\<forall>r \<in> set dynamic. recall_allowed load fp query now r"
    "length boot \<le> BOOT_MAX_RECORDS" "sum_list (map (\<lambda>r. length (mr_content r)) boot) \<le> BOOT_BUDGET_CHARS"
    "length dynamic \<le> DYNAMIC_MAX_RECORDS" "sum_list (map (\<lambda>r. length (mr_content r)) dynamic) \<le> DYNAMIC_BUDGET_CHARS"
    "\<not> b \<Longrightarrow> boot = []"
proof -
  define visible where "visible = filter (recall_visible fp) (ml_records load)"
  define recallable where "recallable = filter (is_recallable now) visible"
  define candidates where "candidates = filter (\<lambda>r. is_boot_candidate r \<and> \<not> (is_timeline_query query \<and> is_graph_memory (mr_kind r))) recallable"
  define sorted_boot where "sorted_boot = sort_by (by_score boot_score) candidates"
  define boot where "boot = (if b then fst (take_budget BOOT_MAX_RECORDS BOOT_BUDGET_CHARS 0 [] sorted_boot) else [])"
  define others where "others = filter (\<lambda>r. mr_id r \<notin> set (map mr_id boot)) recallable @
    filter (\<lambda>r. \<not> is_recallable now r \<and> is_timeline_query query \<and> mr_status r = ActiveMemory \<and> is_graph_memory (mr_kind r)) visible"
  define sorted_dynamic where "sorted_dynamic =
    (if is_timeline_query query then sort_by by_time others
     else sort_by (by_score (\<lambda>r. score_record r query))
       (filter (\<lambda>r. \<not> blank query \<and> f32_le RECALL_RELEVANCE_THRESHOLD (score_record r query)) others))"
  define dynamic where "dynamic = fst (take_budget DYNAMIC_MAX_RECORDS DYNAMIC_BUDGET_CHARS 0 [] sorted_dynamic)"
  note boot_within = take_budget_within [of "[]" BOOT_MAX_RECORDS 0 BOOT_BUDGET_CHARS sorted_boot]
  note dynamic_within = take_budget_within [of "[]" DYNAMIC_MAX_RECORDS 0 DYNAMIC_BUDGET_CHARS sorted_dynamic]
  have "rx_boot (recall_loaded load fp query b now) = map to_context_record boot"
    "rx_dynamic (recall_loaded load fp query b now) = map to_context_record dynamic"
    unfolding recall_loaded_def Let_def dynamic_def sorted_dynamic_def others_def boot_def sorted_boot_def candidates_def
      recallable_def visible_def
    by (simp_all split: prod.split)
  moreover have "set boot \<subseteq> set candidates" using boot_within by (auto simp: boot_def sorted_boot_def)
  then have "\<forall>r \<in> set boot. recall_allowed load fp query now r \<and> is_recallable now r \<and> is_boot_candidate r"
    by (auto simp: candidates_def recallable_def visible_def recall_visible_def recall_allowed_def recallable_active)
  moreover have "set dynamic \<subseteq> set others" using dynamic_within by (auto simp: dynamic_def sorted_dynamic_def split: if_splits)
  then have "\<forall>r \<in> set dynamic. recall_allowed load fp query now r"
    by (auto simp: others_def recallable_def visible_def recall_visible_def recall_allowed_def recallable_active)
  moreover have "length boot \<le> BOOT_MAX_RECORDS" "sum_list (map (\<lambda>r. length (mr_content r)) boot) \<le> BOOT_BUDGET_CHARS"
    using boot_within by (auto simp: boot_def)
  moreover have "length dynamic \<le> DYNAMIC_MAX_RECORDS" "sum_list (map (\<lambda>r. length (mr_content r)) dynamic) \<le> DYNAMIC_BUDGET_CHARS"
    using dynamic_within by (auto simp: dynamic_def)
  moreover have "\<not> b \<Longrightarrow> boot = []" by (simp add: boot_def)
  ultimately show thesis by (rule that)
qed

end
