(* ===== verification/Memory_Write.thy ===== *)
theory Memory_Write
  imports Memory_Recall "HOL-Library.Product_Lexorder"
begin

text \<open>
  Extracting memories from a prompt, storing and reviewing them: the payloads of
  \<open>yunxi-protocol/src/memory_write.rs\<close>, the rules of \<open>yunxi-memory/src/write.rs\<close>, and the plugin with its three
  operations (\<open>plugin.rs\<close>).
\<close>

section \<open>Payloads\<close>

record memory_write_request =
  wq_grant :: workspace_grant
  wq_prompt :: rstring
  wq_response :: "rstring option"
  wq_session :: "rstring option"

definition memory_write_request_new :: "workspace_grant \<Rightarrow> rstring \<Rightarrow> memory_write_request" where
  "memory_write_request_new g prompt = \<lparr>wq_grant = g, wq_prompt = prompt, wq_response = None, wq_session = None\<rparr>"
definition with_assistant_response :: "rstring \<Rightarrow> memory_write_request \<Rightarrow> memory_write_request" where
  "with_assistant_response r q = q\<lparr>wq_response := Some r\<rparr>"
definition with_source_session_id :: "rstring \<Rightarrow> memory_write_request \<Rightarrow> memory_write_request" where
  "with_source_session_id i q = q\<lparr>wq_session := Some i\<rparr>"

datatype memory_write_status = WriteActive | WritePending | WriteRejected | WriteDiscarded

fun memory_protocol_status :: "memory_status \<Rightarrow> memory_write_status" where
  "memory_protocol_status ActiveMemory = WriteActive"
| "memory_protocol_status PendingMemory = WritePending"
| "memory_protocol_status RejectedMemory = WriteRejected"
| "memory_protocol_status ArchivedMemory = WriteRejected"

record memory_write_summary =
  wu_id :: "rstring option"
  wu_kind :: memory_context_kind
  wu_content :: rstring
  wu_status :: memory_write_status
  wu_reason :: rstring

record memory_write_result =
  wr_records :: "memory_write_summary list"
  wr_warnings :: "rstring list"

datatype memory_review_action = Approve | Reject

record memory_review_request =
  vq_grant :: workspace_grant
  vq_memory_id :: rstring
  vq_action :: memory_review_action

record memory_review_result =
  vr_record :: "memory_write_summary option"
  vr_warnings :: "rstring list"

section \<open>Errors\<close>

definition MAX_PROMPT_CHARS :: nat where "MAX_PROMPT_CHARS = 64 * 1024"
definition MAX_RESPONSE_CHARS :: nat where "MAX_RESPONSE_CHARS = 128 * 1024"

datatype memory_write_error =
    MwStore memory_store_error
  | MwWriteNotGranted
  | MwInvalidMemoryId
  | MwPromptTooLong nat
  | MwResponseTooLong nat

fun show_memory_write_error :: "platform_display \<Rightarrow> memory_write_error \<Rightarrow> rstring" where
  "show_memory_write_error t (MwStore e) = show_memory_store_error t e"
| "show_memory_write_error t MwWriteNotGranted = lit ''memory write access was not granted''"
| "show_memory_write_error t MwInvalidMemoryId = lit ''memory id is invalid''"
| "show_memory_write_error t (MwPromptTooLong n) = lit ''memory prompt exceeds '' @ show_nat n @ lit '' characters''"
| "show_memory_write_error t (MwResponseTooLong n) = lit ''assistant response exceeds '' @ show_nat n @ lit '' characters''"

section \<open>Reading a prompt\<close>

record candidate =
  ca_kind :: memory_kind
  ca_content :: rstring
  ca_reason :: rstring

text \<open>Where a string first occurs. Lower case keeps the length of every character, so an offset found in the lower
  case text is the offset in the text.\<close>

fun str_find :: "rstring \<Rightarrow> rstring \<Rightarrow> nat option" where
  "str_find [] needle = (if needle = [] then Some 0 else None)"
| "str_find (x # xs) needle = (if str_starts (x # xs) needle then Some 0 else map_option Suc (str_find xs needle))"

definition trim_start_in :: "rchar list \<Rightarrow> rstring \<Rightarrow> rstring" where
  "trim_start_in cs s = dropWhile (\<lambda>c. c \<in> set cs) s"

definition trim_end_in :: "rchar list \<Rightarrow> rstring \<Rightarrow> rstring" where
  "trim_end_in cs s = rev (dropWhile (\<lambda>c. c \<in> set cs) (rev s))"

definition leading_separators :: rstring where
  "leading_separators = ([65306] @ lit '':'' @ [65292] @ lit '','' @ [12290] @ lit ''.'' @ [65307] @ lit ''; '')"

definition trailing_separators :: rstring where
  "trailing_separators = ([12290] @ lit ''.'' @ [65307] @ lit '';'' @ [65292] @ lit '', '')"

definition trim_payload :: "rstring \<Rightarrow> rstring" where
  "trim_payload value = trim (trim_end_in trailing_separators (trim (trim_start_in leading_separators (trim value))))"

definition followup_markers :: "rstring list" where
  "followup_markers = [[35831, 21482, 22238, 22797], [21482, 22238, 22797], [19981, 29992, 35299, 37322], [19981, 35201, 35299, 37322], (lit ''only reply''), (lit ''reply only''), (lit ''respond only''),
     (lit ''do not explain''), (lit ''don't explain'')]"

definition trim_followup :: "rstring \<Rightarrow> rstring" where
  "trim_followup value =
     (let lower = str_lowercase value;
          stop = foldl (\<lambda>e m. case str_find lower m of Some i \<Rightarrow> min e i | None \<Rightarrow> e) (length value) followup_markers
      in trim_payload (take stop value))"

definition remember_markers :: "rstring list" where
  "remember_markers = [[25105, 24076, 26395, 20320, 35760, 20303], [35831, 20320, 35760, 20303], [35831, 35760, 20303], [24110, 25105, 35760, 20303], [20320, 35201, 35760, 20303], (lit ''please remember that''),
     (lit ''please remember''), (lit ''remember that''), (lit ''keep in mind that'')]"

fun payload_after :: "rstring \<Rightarrow> rstring \<Rightarrow> rstring list \<Rightarrow> rstring option" where
  "payload_after value lower [] = None"
| "payload_after value lower (m # ms) =
     (case str_find lower m of
        Some start \<Rightarrow>
          (let payload = trim_followup (trim_payload (drop (start + length m) value))
           in if payload \<noteq> [] then Some payload else payload_after value lower ms)
      | None \<Rightarrow> payload_after value lower ms)"

definition explicit_memory_payload :: "rstring \<Rightarrow> rstring \<Rightarrow> rstring option" where
  "explicit_memory_payload value lower = payload_after value lower remember_markers"

definition classify_explicit_kind :: "rstring \<Rightarrow> memory_kind" where
  "classify_explicit_kind value =
     (let lower = str_lowercase value in
      if contains_any value [[20559, 22909], [21916, 27426], [24076, 26395], [20197, 21518], (lit ''prefer''), (lit ''preference''), (lit ''from now on''), (lit ''by default'')]
        then Preference
      else if str_contains value [30446, 26631] \<or> str_contains lower (lit ''goal'') then Goal
      else if contains_any value [[39033, 30446], [30828, 24615, 35201, 27714], [30828, 32422, 26463], (lit ''project'')] then ProjectContext
      else if str_contains value [20851, 31995] \<or> str_contains lower (lit ''relationship'') then RelationshipNote
      else if contains_any value [[24773, 32490], [24863, 21040], (lit ''emotion'')] then EmotionalState
      else PersonalFact)"

definition memory_compact :: "nat \<Rightarrow> rstring \<Rightarrow> rstring" where
  "memory_compact maximum value =
     (if length value \<le> maximum then value else take (maximum - 3) value @ lit ''...'')"

fun explicit_prefix :: "memory_kind \<Rightarrow> rstring" where
  "explicit_prefix Preference = [29992, 25143, 20559, 22909, 65306]"
| "explicit_prefix Goal = [29992, 25143, 30446, 26631, 65306]"
| "explicit_prefix ProjectContext = [39033, 30446, 19978, 19979, 25991, 65306]"
| "explicit_prefix RelationshipNote = [20851, 31995, 20107, 20214, 20505, 36873, 65306]"
| "explicit_prefix EmotionalState = [24773, 32490, 29366, 24577, 20505, 36873, 65306]"
| "explicit_prefix PersonalFact = [29992, 25143, 33258, 36848, 20107, 23454, 20505, 36873, 65306]"
| "explicit_prefix Correction = ([29992, 25143, 32416, 27491] @ lit ''/'' @ [38480, 21046, 65306])"
| "explicit_prefix Event = [20107, 20214, 20505, 36873, 65306]"
| "explicit_prefix ToolTraceSummary = [24037, 20855, 36712, 36857, 25688, 35201, 65306]"

definition normalize_explicit_content :: "memory_kind \<Rightarrow> rstring \<Rightarrow> rstring" where
  "normalize_explicit_content kind payload = explicit_prefix kind @ memory_compact 180 payload"

definition noted :: "bool \<Rightarrow> memory_kind \<Rightarrow> rstring \<Rightarrow> rstring \<Rightarrow> candidate list" where
  "noted found kind content reason =
     (if found then [\<lparr>ca_kind = kind, ca_content = content, ca_reason = reason\<rparr>] else [])"

definition detect_prompt_memories :: "rstring \<Rightarrow> candidate list" where
  "detect_prompt_memories prompt =
     (let value = trim prompt in
      if value = [] then []
      else
       (let lower = str_lowercase value in
        (case explicit_memory_payload value lower of
           Some payload \<Rightarrow>
             (let kind = classify_explicit_kind payload in
              [\<lparr>ca_kind = kind, ca_content = normalize_explicit_content kind payload,
                ca_reason = lit ''rule:explicit-remember-'' @ storage_key kind\<rparr>])
         | None \<Rightarrow> []) @
        noted ((str_contains value [20197, 21518] \<and> contains_any value [[20013, 25991], [35828, 20013, 25991]]) \<or> contains_any value [[35828, 20013, 25991], [29992, 20013, 25991]])
          Preference [29992, 25143, 20559, 22909, 21518, 32493, 40664, 35748, 20351, 29992, 20013, 25991, 20132, 27969, 12290] (lit ''rule:language-preference'') @
        noted (contains_any value [[33521, 25991], [33521, 35821], (lit ''english'')] \<and>
            (str_contains value [20197, 21518] \<or>
             contains_any lower [(lit ''from now on''), (lit ''by default''), (lit ''answer in english''), (lit ''reply in english''), (lit ''use english'')]))
          Preference [29992, 25143, 20559, 22909, 21518, 32493, 40664, 35748, 20351, 29992, 33521, 25991, 20132, 27969, 12290] (lit ''rule:language-preference'') @
        noted (str_contains value [19981, 35201] \<or> str_contains lower (lit ''do not''))
          Correction (([29992, 25143, 32416, 27491] @ lit ''/'' @ [38480, 21046, 65306]) @ memory_compact 160 value) (lit ''rule:correction'') @
        noted (str_contains value [30828, 24615, 35201, 27714] \<or> str_contains value [30828, 32422, 26463])
          ProjectContext ([39033, 30446, 30828, 24615, 32422, 26463, 65306] @ memory_compact 180 value) (lit ''rule:project-hard-constraint'') @
        noted (str_contains value [25105, 30340] \<or> str_contains lower (lit ''my ''))
          PersonalFact ([29992, 25143, 33258, 36848, 20107, 23454, 20505, 36873, 65306] @ memory_compact 160 value) (lit ''rule:self-disclosure'') @
        noted (str_contains value [20851, 31995] \<or> str_contains lower (lit ''relationship''))
          RelationshipNote ([20851, 31995, 20107, 20214, 20505, 36873, 65306] @ memory_compact 160 value) (lit ''rule:relationship-note'') @
        noted (contains_any value [[24773, 32490], [24863, 21040], (lit ''i feel''), (lit ''emotion'')])
          EmotionalState ([24773, 32490, 29366, 24577, 20505, 36873, 65306] @ memory_compact 160 value) (lit ''rule:emotional-state'') @
        noted (str_contains value [30446, 26631] \<or> str_contains lower (lit ''my goal''))
          Goal ([30446, 26631, 20505, 36873, 65306] @ memory_compact 160 value) (lit ''rule:goal'')))"

definition deduplicate_candidates :: "candidate list \<Rightarrow> candidate list" where
  "deduplicate_candidates cs =
     bt_values (foldl (\<lambda>m c. let key = (ca_kind c, ca_content c) in
        case bt_get m key of Some x \<Rightarrow> m | None \<Rightarrow> bt_insert key c m) [] cs)"

section \<open>The privacy policy\<close>

definition secret_markers :: "rstring list" where
  "secret_markers = [(lit ''api key''), (lit ''apikey''), (lit ''authorization:''), (lit ''bearer ''), (lit ''password''), (lit ''token''), (lit ''secret''), (lit ''sk-''),
     (lit ''github_pat_''), (lit ''ghp_'')]"

definition contains_secret :: "rstring \<Rightarrow> bool" where
  "contains_secret value = list_ex (str_contains (str_lowercase value)) secret_markers"

definition classify_sensitivity :: "rstring \<Rightarrow> memory_sensitivity" where
  "classify_sensitivity value =
     (if contains_secret value then HighSensitivity
      else if contains_any value [(lit ''health''), (lit ''medical''), (lit ''finance''), (lit ''bank''), (lit ''emotion''), (lit ''relationship''), [24773, 32490], [20851, 31995],
          [20581, 24247], [36130, 21153], [36523, 20221, 35777], [38134, 34892, 21345]] \<or> str_contains (str_lowercase value) (lit ''private'')
      then MediumSensitivity else LowSensitivity)"

definition scope_for_kind :: "memory_kind \<Rightarrow> rstring \<Rightarrow> memory_scope" where
  "scope_for_kind kind fingerprint =
     (if kind \<in> {ProjectContext, Correction, ToolTraceSummary} then Workspace fingerprint
      else if kind \<in> {RelationshipNote, EmotionalState} then Relationship
      else GlobalUser)"

definition write_status :: "memory_kind \<Rightarrow> memory_sensitivity \<Rightarrow> memory_status" where
  "write_status kind sensitivity =
     (if sensitivity \<noteq> LowSensitivity then PendingMemory
      else if kind \<in> {Preference, Correction, ProjectContext} then ActiveMemory else PendingMemory)"

definition is_language_key :: "rstring \<Rightarrow> bool" where
  "is_language_key key \<longleftrightarrow> str_ends key (lit ''language:zh'') \<or> str_ends key (lit ''language:en'')"

definition language_conflict :: "memory_record list \<Rightarrow> memory_record \<Rightarrow> memory_record option" where
  "language_conflict records incoming =
     (if mr_kind incoming \<noteq> Preference \<or> \<not> is_language_key (dedup_key incoming) then None
      else find (\<lambda>r. mr_kind r = Preference \<and> mr_status r = ActiveMemory \<and> dedup_key r \<noteq> dedup_key incoming \<and>
             is_language_key (dedup_key r)) records)"

section \<open>Storing and reviewing\<close>

definition memory_summary :: "memory_record \<Rightarrow> rstring \<Rightarrow> memory_write_summary" where
  "memory_summary r reason = \<lparr>wu_id = Some (mr_id r), wu_kind = memory_protocol_kind (mr_kind r), wu_content = mr_content r,
     wu_status = memory_protocol_status (mr_status r), wu_reason = reason\<rparr>"

definition redacted_summary :: "memory_kind \<Rightarrow> memory_write_summary" where
  "redacted_summary kind = \<lparr>wu_id = None, wu_kind = memory_protocol_kind kind,
     wu_content = lit ''[redacted: secret-like memory was not stored]'', wu_status = WriteDiscarded,
     wu_reason = lit ''privacy:secret-like-content''\<rparr>"

definition generate_memory_id :: "u128 \<Rightarrow> ('e, rstring) mem_act" where
  "generate_memory_id now d =
     (Inr (lit ''yn-mem-'' @ show_nat (unat now) @ lit ''-'' @ show_nat (unat (mw_counter d))),
      d\<lparr>mw_counter := mw_counter d + 1\<rparr>)"

definition candidate_record ::
  "memory_store \<Rightarrow> memory_write_request \<Rightarrow> u128 \<Rightarrow> rstring \<Rightarrow> candidate \<Rightarrow> memory_record" where
  "candidate_record st q now i c =
     (memory_record_new i (scope_for_kind (ca_kind c) (ms_fingerprint st)) (ca_kind c) (ca_content c) now)\<lparr>
       mr_sensitivity := classify_sensitivity (ca_content c),
       mr_status := write_status (ca_kind c) (classify_sensitivity (ca_content c)),
       mr_session := wq_session q\<rparr>"

definition conflicted :: "memory_record list \<Rightarrow> memory_record \<Rightarrow> memory_record" where
  "conflicted records r =
     (case language_conflict records r of
        Some c \<Rightarrow> r\<lparr>mr_status := PendingMemory,
          mr_invalidation := (mr_invalidation r)\<lparr>mv_conflicts := mv_conflicts (mr_invalidation r) @ [mr_id c]\<rparr>\<rparr>
      | None \<Rightarrow> r)"

definition store_candidate ::
  "memory_env \<Rightarrow> memory_store \<Rightarrow> memory_load \<Rightarrow> memory_write_request \<Rightarrow> u128 \<Rightarrow> candidate \<Rightarrow>
   (memory_write_error, memory_write_summary) mem_act" where
  "store_candidate env st load q now c =
     (if contains_secret (ca_content c) \<or> contains_secret (wq_prompt q) then ret (redacted_summary (ca_kind c))
      else act_bind (generate_memory_id now) (\<lambda>i.
        let r = candidate_record st q now i c in
        case find (\<lambda>existing. dedup_key existing = dedup_key r) (ml_records load) of
          Some existing \<Rightarrow> ret (memory_summary existing (ca_reason c @ lit '':deduplicated''))
        | None \<Rightarrow>
            (let r = conflicted (ml_records load) r in
             act_then (act_map_err MwStore (memory_append env st r)) (ret (memory_summary r (ca_reason c))))))"

fun store_candidates ::
  "memory_env \<Rightarrow> memory_store \<Rightarrow> memory_load \<Rightarrow> memory_write_request \<Rightarrow> u128 \<Rightarrow> candidate list \<Rightarrow>
   (memory_write_error, memory_write_summary list) mem_act" where
  "store_candidates env st load q now [] = ret []"
| "store_candidates env st load q now (c # cs) =
     act_bind (store_candidate env st load q now c) (\<lambda>s.
     act_bind (store_candidates env st load q now cs) (\<lambda>ss. ret (s # ss)))"

definition extract_and_store :: "memory_env \<Rightarrow> memory_write_request \<Rightarrow> (memory_write_error, memory_write_result) mem_act" where
  "extract_and_store env q =
     (if \<not> wg_next_write (wq_grant q) then throw MwWriteNotGranted
      else if MAX_PROMPT_CHARS < length (wq_prompt q) then throw (MwPromptTooLong MAX_PROMPT_CHARS)
      else if (case wq_response q of None \<Rightarrow> False | Some r \<Rightarrow> MAX_RESPONSE_CHARS < length r)
        then throw (MwResponseTooLong MAX_RESPONSE_CHARS)
      else act_bind (act_map_err MwStore (memory_from_grant env (wq_grant q))) (\<lambda>st.
        act_bind (memory_load_all env st) (\<lambda>load.
        act_bind now_millis (\<lambda>now.
        act_bind (store_candidates env st load q now (deduplicate_candidates (detect_prompt_memories (wq_prompt q)))) (\<lambda>summaries.
        ret \<lparr>wr_records = summaries, wr_warnings = ml_warnings load\<rparr>)))))"

definition review_memory :: "memory_env \<Rightarrow> memory_review_request \<Rightarrow> (memory_write_error, memory_review_result) mem_act" where
  "review_memory env q =
     (if \<not> wg_next_write (vq_grant q) then throw MwWriteNotGranted
      else if blank (vq_memory_id q) \<or> 256 < length (vq_memory_id q) then throw MwInvalidMemoryId
      else act_bind (act_map_err MwStore (memory_from_grant env (vq_grant q))) (\<lambda>st.
        act_bind (memory_load_all env st) (\<lambda>load.
        case find (\<lambda>r. mr_id r = vq_memory_id q) (ml_records load) of
          None \<Rightarrow> ret \<lparr>vr_record = None, vr_warnings = ml_warnings load\<rparr>
        | Some r \<Rightarrow>
            if mr_status r = PendingMemory
            then act_bind now_millis (\<lambda>now.
              let r' = memory_set_status (case vq_action q of Approve \<Rightarrow> ActiveMemory | Reject \<Rightarrow> RejectedMemory) now r in
              act_then (act_map_err MwStore (memory_append env st r'))
                (ret \<lparr>vr_record = Some (memory_summary r' (lit ''reviewed'')), vr_warnings = ml_warnings load\<rparr>))
            else ret \<lparr>vr_record = Some (memory_summary r (lit ''reviewed'')), vr_warnings = ml_warnings load\<rparr>)))"

section \<open>The plugin\<close>

definition MEMORY_RECALL :: rstring where "MEMORY_RECALL = lit ''memory.recall''"
definition MEMORY_RECALL_VERSION :: u32 where "MEMORY_RECALL_VERSION = 1"
definition MEMORY_WRITE :: rstring where "MEMORY_WRITE = lit ''memory.write''"
definition MEMORY_WRITE_VERSION :: u32 where "MEMORY_WRITE_VERSION = 1"
definition MEMORY_WRITE_EXTRACT_OPERATION :: rstring where "MEMORY_WRITE_EXTRACT_OPERATION = lit ''extract''"
definition MEMORY_WRITE_REVIEW_OPERATION :: rstring where "MEMORY_WRITE_REVIEW_OPERATION = lit ''review''"
definition MEMORY_PLUGIN_ID :: rstring where "MEMORY_PLUGIN_ID = lit ''yunxi.memory''"

datatype memory_plugin_error =
    MyCapability capability_error
  | MyRecall memory_recall_error
  | MyWrite memory_write_error
  | MyInvocation codec_error
  | MyProtocol protocol_error
  | MyUnexpectedHostMessage rstring

fun memory_plugin_error_code :: "memory_plugin_error \<Rightarrow> rstring" where
  "memory_plugin_error_code (MyInvocation e) = lit ''invalid_request''"
| "memory_plugin_error_code (MyRecall e) = lit ''memory_recall_error''"
| "memory_plugin_error_code (MyWrite MwWriteNotGranted) = lit ''write_not_granted''"
| "memory_plugin_error_code (MyWrite e) = lit ''memory_write_error''"
| "memory_plugin_error_code e = lit ''plugin_error''"

fun show_memory_plugin_error :: "platform_display \<Rightarrow> memory_plugin_error \<Rightarrow> rstring" where
  "show_memory_plugin_error t (MyCapability e) = lit ''invalid capability: '' @ show_capability_error e"
| "show_memory_plugin_error t (MyRecall e) = show_memory_recall_error t e"
| "show_memory_plugin_error t (MyWrite e) = show_memory_write_error t e"
| "show_memory_plugin_error t (MyInvocation e) = show_codec_error e"
| "show_memory_plugin_error t (MyProtocol e) = show_protocol_error e"
| "show_memory_plugin_error t (MyUnexpectedHostMessage m) = m"

record 'v memory_serde =
  mj_recall :: "'v \<Rightarrow> (rstring, recall_request) res"
  mj_extract :: "'v \<Rightarrow> (rstring, memory_write_request) res"
  mj_review :: "'v \<Rightarrow> (rstring, memory_review_request) res"
  mj_recalled :: "recall_result \<Rightarrow> (rstring, 'v) res"
  mj_extracted :: "memory_write_result \<Rightarrow> (rstring, 'v) res"
  mj_reviewed :: "memory_review_result \<Rightarrow> (rstring, 'v) res"

definition memory_dispatch ::
  "'v memory_serde \<Rightarrow> memory_env \<Rightarrow> 'v invocation_request \<Rightarrow> (memory_plugin_error, 'v invocation_response) mem_act option" where
  "memory_dispatch j env r =
     (let capability = cap_str (cap_id (ir_capability r)); version = cap_version (ir_capability r); operation = ir_operation r in
      if capability = MEMORY_RECALL \<and> version = MEMORY_RECALL_VERSION \<and> operation = MEMORY_RECALL_OPERATION
      then Some (typed_call MyInvocation (mj_recall j) (\<lambda>q. act_map_err MyRecall (recall env q)) (mj_recalled j) r)
      else if capability = MEMORY_WRITE \<and> version = MEMORY_WRITE_VERSION \<and> operation = MEMORY_WRITE_EXTRACT_OPERATION
      then Some (typed_call MyInvocation (mj_extract j) (\<lambda>q. act_map_err MyWrite (extract_and_store env q)) (mj_extracted j) r)
      else if capability = MEMORY_WRITE \<and> version = MEMORY_WRITE_VERSION \<and> operation = MEMORY_WRITE_REVIEW_OPERATION
      then Some (typed_call MyInvocation (mj_review j) (\<lambda>q. act_map_err MyWrite (review_memory env q)) (mj_reviewed j) r)
      else None)"

definition memory_answer ::
  "'v memory_serde \<Rightarrow> memory_env \<Rightarrow> 'v invocation_request \<Rightarrow> memory_world \<Rightarrow> ('v, memory_plugin_error) reply \<times> memory_world" where
  "memory_answer j env r d =
     (case memory_dispatch j env r of
        None \<Rightarrow>
          (send_failure (ir_request_id r) (lit ''unsupported_operation'')
             (lit ''memory plugin does not support the requested operation''), d)
      | Some call \<Rightarrow>
          (case call d of
             (Inr response, d') \<Rightarrow> (Sends (InvocationCompleted response), d')
           | (Inl e, d') \<Rightarrow>
               (send_failure (ir_request_id r) (memory_plugin_error_code e) (show_memory_plugin_error (me_show env) e), d')))"

definition memory_errors :: "memory_plugin_error plugin_errors" where
  "memory_errors = \<lparr>pe_capability = MyCapability, pe_protocol = MyProtocol, pe_unexpected = MyUnexpectedHostMessage\<rparr>"

definition run_memory_plugin ::
  "'v memory_serde \<Rightarrow> memory_env \<Rightarrow> rstring \<Rightarrow> ('v host_message \<Rightarrow> rstring) \<Rightarrow> 'v connect_env \<Rightarrow> 'v script \<Rightarrow> memory_world \<Rightarrow>
   memory_plugin_error plugin_end \<times> 'v plugin_message list \<times> memory_world" where
  "run_memory_plugin j env version debug cenv =
     run_plugin memory_errors [(MEMORY_RECALL, MEMORY_RECALL_VERSION), (MEMORY_WRITE, MEMORY_WRITE_VERSION)]
       (\<lambda>caps. fst (connect_plugin MEMORY_PLUGIN_ID (lit ''Read-only long-term memory'') version caps debug cenv))
       (memory_answer j env)"

lemma memory_dispatch_id:
  "memory_dispatch j env r = Some call \<Longrightarrow> call d = (Inr x, d') \<Longrightarrow> is_request_id x = ir_request_id r"
  by (auto simp: memory_dispatch_def Let_def split: if_splits dest: typed_call_id)

interpretation memory_plugin: answering "memory_answer j env"
  by unfold_locales
    (auto simp: memory_answer_def send_failure_def split: option.splits prod.splits sum.splits dest: memory_dispatch_id)

end
