(* ===== verification/Memory_Files.thy ===== *)
theory Memory_Files
  imports Memory_Write
begin

text \<open>
  What a memory file gives back: the lines of a text, what an append adds to them, and what a torn append does to
  every line of the file.
\<close>

section \<open>Lines\<close>

lemma split_on_line_end: "split_on d (s @ [d]) = split_on d s @ [[]]"
  by (induction s) (auto split: list.splits)

lemma split_on_nonempty: "split_on d s \<noteq> []"
  by (cases s) (auto split: list.splits)

lemma split_on_last_line: "d \<notin> set t \<Longrightarrow> split_on d (s @ [d] @ t) = split_on d s @ [t]"
proof (induction s)
  case Nil
  then show ?case using split_on_append [of d "[]" t] by (simp add: split_on_word)
next
  case (Cons c s)
  then show ?case using split_on_nonempty [of d s] by (auto split: list.splits)
qed

text \<open>A text that is empty or ends with a line feed.\<close>

definition whole_lines :: "rstring \<Rightarrow> bool" where
  "whole_lines s \<longleftrightarrow> s = [] \<or> last s = 10"

lemma str_lines_append:
  assumes "whole_lines s" "10 \<notin> set j"
  shows "str_lines (s @ j @ [10]) = str_lines s @ [strip_cr j]"
proof (cases "s = []")
  case True
  then show ?thesis using assms(2) by (simp add: str_lines_def split_on_line_end split_on_word)
next
  case False
  then obtain u where u: "s = u @ [10]" using assms(1) by (metis append_butlast_last_id whole_lines_def)
  then show ?thesis
    using split_on_line_end [of 10 "u @ [10] @ j"] assms(2)
    by (simp add: str_lines_def split_on_last_line [simplified] split_on_line_end butlast_append)
qed

lemma dropWhile_same_length: "length xs \<le> length (dropWhile P xs) \<Longrightarrow> dropWhile P xs = xs"
  by (metis append_Nil append_eq_append_conv length_append le_add2 le_antisym takeWhile_dropWhile_id)

lemma strip_cr_trimmed:
  assumes "trim j = j" "j \<noteq> []"
  shows "strip_cr j = j"
proof -
  let ?k = "dropWhile is_whitespace j"
  have "length j = length (dropWhile is_whitespace (rev ?k))" using assms(1) by (metis length_rev trim_def)
  also have "\<dots> \<le> length ?k" by (metis length_dropWhile_le length_rev)
  finally have k: "?k = j" by (rule dropWhile_same_length)
  then have "dropWhile is_whitespace (rev j) = rev j" using assms(1) by (simp add: trim_def) (metis rev_rev_ident)
  then have "\<not> is_whitespace (hd (rev j))" using assms(2) by (metis dropWhile_eq_Cons_conv hd_Cons_tl rev_is_Nil_conv)
  then show ?thesis using assms(2) by (auto simp: strip_cr_def is_whitespace_def hd_rev)
qed

lemma read_lines_append:
  "length (ml_records (read_lines env p k xs load)) < MAX_LOADED_RECORDS \<Longrightarrow>
   read_lines env p k (xs @ [l]) load = read_line env p (k + length xs) l (read_lines env p k xs load)"
proof (induction env p k xs load rule: read_lines.induct)
  case (2 env p index line rest load)
  then show ?case by (auto split: if_splits)
qed simp

section \<open>Reading back what was appended\<close>

lemma length_encode_scalar: "length (encode_scalar c) = utf8_width c"
  by (simp add: encode_scalar_def utf8_width_def)

lemma length_as_bytes: "length (as_bytes s) = str_len s"
  by (induction s) (simp_all add: as_bytes_def length_encode_scalar)

lemma as_bytes_append [simp]: "as_bytes (a @ b) = as_bytes a @ as_bytes b"
  by (simp add: as_bytes_def)

lemma as_bytes_newline: "as_bytes [10] = [10]"
  by (simp add: as_bytes_def encode_scalar_def)

text \<open>What printing a record to one line of JSON promises.\<close>

definition prints_line :: "memory_env \<Rightarrow> memory_record \<Rightarrow> rstring \<Rightarrow> bool" where
  "prints_line env r j \<longleftrightarrow> me_print env r = Inr (as_bytes j) \<and> me_parse env j = Inr r \<and>
     j \<noteq> [] \<and> 10 \<notin> set j \<and> trim j = j \<and> (\<forall>c \<in> set j. is_scalar c)"

definition holds_text :: "files \<Rightarrow> path \<Rightarrow> rstring \<Rightarrow> bool" where
  "holds_text f p s \<longleftrightarrow> (f p = Some (FileNode (as_bytes s)) \<or> f p = None \<and> s = []) \<and> (\<forall>c \<in> set s. is_scalar c)"

lemma serving_read_file:
  assumes "serving d" "dk_files d p = Some (FileNode (as_bytes s))" "\<forall>c \<in> set s. is_scalar c"
    and "length (as_bytes s) \<le> MAX_MEMORY_FILE_BYTES"
  shows "read_memory_file env p load d = (read_lines env p 0 (str_lines s) load, d)"
  using assms
  by (simp add: read_memory_file_def serving_metadata fs_read_to_string_def act_bind_def serving_read from_utf8_as_bytes ret_def)

lemma appended_content:
  assumes "serving d" "memory_append env st r d = (Inr (), d')" "prints_line env r j" "holds_text (dk_files d) (append_path st r) s"
  shows "dk_files d' (append_path st r) = Some (FileNode (as_bytes (s @ j @ [10])))" "str_len j \<le> MAX_MEMORY_LINE_BYTES"
proof -
  let ?p = "append_path st r"
  obtain d1 where d1: "fs_create_dir_all (append_root st r) d = (Inr (), d1)" "serving d1"
    using assms(1,2) by (auto simp: memory_append_def Let_def act_then_def act_bind_def act_map_err_def fs_create_dir_all_def
        serving_call split: if_splits)
  then have f1: "dk_files d1 ?p = dk_files d ?p"
    using assms(1) by (auto simp: fs_create_dir_all_def serving_call append_path_def path_join_def split: if_splits)
  have small: "length (as_bytes j) \<le> MAX_MEMORY_LINE_BYTES"
    using assms(2,3) d1 by (auto simp: prints_line_def memory_append_def Let_def act_then_def act_bind_def act_map_err_def
        lift_res_def throw_def split: if_splits)
  have no_dir: "dk_files d1 ?p \<noteq> Some DirNode" using f1 assms(4) by (auto simp: holds_text_def)
  define d2 where "d2 = (if dk_files d1 ?p = None then put_files ((dk_files d1)(?p \<mapsto> FileNode [])) d1 else d1)"
  have d2: "fs_open_append ?p d1 = (Inr (), d2)" "serving d2"
    using serving_open_append [OF d1(2) no_dir] d1(2) by (auto simp: d2_def)
  have bytes: "file_bytes (dk_files d2 ?p) = as_bytes s"
    using assms(4) f1 by (auto simp: d2_def holds_text_def as_bytes_def)
  have "dk_files d' ?p = Some (FileNode (file_bytes (dk_files d2 ?p) @ as_bytes j @ [10]))"
    using assms(2,3) d1 d2 small
    by (auto simp: prints_line_def memory_append_def Let_def act_then_def act_bind_def act_map_err_def lift_res_def
        serving_append_all split: if_splits)
  then show "dk_files d' ?p = Some (FileNode (as_bytes (s @ j @ [10])))" by (simp add: bytes as_bytes_newline)
  show "str_len j \<le> MAX_MEMORY_LINE_BYTES" using small by (simp add: length_as_bytes)
qed

section \<open>A torn append\<close>

lemma decode_stops:
  assumes "x = [] \<or> \<not> continues (hd x)"
  shows "0x80 \<le> a \<Longrightarrow> decode_bytes (a # x) = None"
    and "0xE0 \<le> a \<Longrightarrow> decode_bytes (a # b # x) = None"
    and "0xF0 \<le> a \<Longrightarrow> decode_bytes (a # b # c # x) = None"
  using assms by (cases x; simp)+

lemma decode_torn:
  assumes "0 < n" "n < length (encode_scalar c)" "x = [] \<or> hd x < 128"
  shows "decode_bytes (take n (encode_scalar c) @ x) = None"
proof -
  have x: "x = [] \<or> \<not> continues (hd x)" using assms(3) by (auto simp: continues_def)
  have "n = 1 \<or> n = 2 \<or> n = 3" using assms(1,2) by (auto simp: encode_scalar_def split: if_splits)
  then show ?thesis
    using assms(1,2) decode_stops [OF x]
    by (elim disjE) (auto simp: encode_scalar_def numeral_2_eq_2 numeral_3_eq_3 simp del: decode_bytes.simps split: if_splits)
qed

lemma decode_after_text: "(\<forall>c \<in> set s. is_scalar c) \<Longrightarrow>
  decode_bytes (concat (map encode_scalar s) @ x) = map_option ((@) s) (decode_bytes x)"
proof (induction s)
  case (Cons a s)
  then show ?case
    by (simp add: decode_encode_scalar option.map_comp comp_def del: decode_bytes.simps)
qed (simp add: option.map_ident [unfolded id_def] option.map_id [unfolded id_def] comp_def append_Nil [abs_def])

end
