(* ===== verification/Memory_Claims.thy ===== *)
theory Memory_Claims
  imports Memory_Files
begin

text \<open>
  The properties of the long-term memory.
\<close>

section \<open>An appended record is read back\<close>

text \<open>C29: What was appended is what a reading of the file ends with: after a successful append of a valid record
  to a file of whole lines, reading the file gives the records it gave before followed by the appended one, as
  long as the file stays under its 16 MiB and the load under its record limit.\<close>

theorem appended_record_is_read:
  assumes "serving d" "memory_append env st r d = (Inr (), d')"
    and "prints_line env r j" "memory_problem r = None"
    and "holds_text (dk_files d) (append_path st r) s" "whole_lines s"
    and "str_len s + str_len j < MAX_MEMORY_FILE_BYTES"
    and "length (ml_records (fst (read_memory_file env (append_path st r) load d))) < MAX_LOADED_RECORDS"
    and "serving d2" "dk_files d2 = dk_files d'"
  shows "ml_records (fst (read_memory_file env (append_path st r) load d2)) =
    ml_records (fst (read_memory_file env (append_path st r) load d)) @ [repair_memory r]"
proof -
  let ?p = "append_path st r"
  have j: "10 \<notin> set j" "trim j = j" "j \<noteq> []" "me_parse env j = Inr r" "\<forall>c \<in> set j. is_scalar c"
    using assms(3) by (auto simp: prints_line_def)
  have s: "\<forall>c \<in> set s. is_scalar c" using assms(5) by (simp add: holds_text_def)
  note content = appended_content [OF assms(1-3,5)]
  have before: "fst (read_memory_file env ?p load d) = read_lines env ?p 0 (str_lines s) load"
  proof (cases "dk_files d ?p = None")
    case True
    then have "s = []" using assms(5) by (simp add: holds_text_def)
    then show ?thesis using True assms(1) by (simp add: read_memory_file_def serving_metadata str_lines_def)
  next
    case False
    then have "dk_files d ?p = Some (FileNode (as_bytes s))" using assms(5) by (auto simp: holds_text_def)
    then show ?thesis using serving_read_file [OF assms(1) _ s] assms(7) by (simp add: length_as_bytes)
  qed
  have "read_memory_file env ?p load d2 = (read_lines env ?p 0 (str_lines (s @ j @ [10])) load, d2)"
  proof (rule serving_read_file [OF assms(9)])
    show "dk_files d2 ?p = Some (FileNode (as_bytes (s @ j @ [10])))" using content(1) assms(10) by simp
    show "\<forall>c \<in> set (s @ j @ [10]). is_scalar c" using s j(5) by (auto simp: is_scalar_def)
    show "length (as_bytes (s @ j @ [10])) \<le> MAX_MEMORY_FILE_BYTES"
      using assms(7) by (simp add: as_bytes_newline length_as_bytes)
  qed
  then have "fst (read_memory_file env ?p load d2) =
      read_line env ?p (0 + length (str_lines s)) j (read_lines env ?p 0 (str_lines s) load)"
    using assms(8) unfolding before str_lines_append [OF assms(6) j(1)] strip_cr_trimmed [OF j(2,3)]
    by (simp add: read_lines_append)
  then show ?thesis
    unfolding before using j content(2) assms(4)
    by (simp add: read_line_def Let_def validate_memory_def push_record_def not_less)
qed

section \<open>A torn append\<close>

text \<open>A file that cannot be read as text, whatever is appended to it that starts with an ASCII character.\<close>

definition blinded :: "path \<Rightarrow> files \<Rightarrow> bool" where
  "blinded p f \<longleftrightarrow> (\<exists>c. f p = Some (FileNode c) \<and> (\<forall>x. x = [] \<or> unat (hd x) < 128 \<longrightarrow> from_utf8 (c @ x) = None))"

lemma blinded_torn:
  assumes "\<forall>c \<in> set s. is_scalar c" "is_scalar a" "0 < n" "n < length (encode_scalar a)"
    and "f p = Some (FileNode (as_bytes s @ map of_nat (take n (encode_scalar a))))"
  shows "blinded p f"
  unfolding blinded_def
proof (intro exI conjI allI impI)
  fix x :: "u8 list"
  assume x: "x = [] \<or> unat (hd x) < 128"
  have small: "map unat (map of_nat (encode_scalar c) :: u8 list) = encode_scalar c" if "is_scalar c" for c
    using that unfolding map_map
    by (intro map_idI) (auto simp: encode_scalar_def is_scalar_def unat_of_nat take_bit_nat_eq_self split: if_splits)
  have "map unat (as_bytes s) = concat (map encode_scalar s)"
    using assms(1) small by (induction s) (simp_all add: as_bytes_def)
  moreover have "map unat (map of_nat (take n (encode_scalar a)) :: u8 list) = take n (encode_scalar a)"
    using arg_cong [OF small [OF assms(2)], of "take n"] by (simp add: take_map)
  moreover have "decode_bytes (take n (encode_scalar a) @ map unat x) = None"
    by (rule decode_torn [OF assms(3,4)]) (use x in \<open>cases x; simp\<close>)
  ultimately show "from_utf8 ((as_bytes s @ map of_nat (take n (encode_scalar a))) @ x) = None"
    using assms(1) by (simp add: from_utf8_def decode_after_text)
qed (rule assms(5))

text \<open>Printed JSON starts with an ASCII character.\<close>

definition prints_ascii_first :: "memory_env \<Rightarrow> bool" where
  "prints_ascii_first env \<longleftrightarrow> (\<forall>r c. me_print env r = Inr c \<longrightarrow> c \<noteq> [] \<and> unat (hd c) < 128)"

lemma blinded_extended:
  assumes "blinded p f" "x = [] \<or> unat (hd x) < 128" "g p = Some (FileNode (file_bytes (f p) @ x))"
  shows "blinded p g"
proof -
  obtain c where c: "f p = Some (FileNode c)" "\<forall>x. x = [] \<or> unat (hd x) < 128 \<longrightarrow> from_utf8 (c @ x) = None"
    using assms(1) unfolding blinded_def by blast
  have "from_utf8 ((c @ x) @ y) = None" if "y = [] \<or> unat (hd y) < 128" for y
    using that assms(2) c(2) [rule_format, of "x @ y"] by (cases x) auto
  note this [simplified append_assoc]
  then have "\<forall>y. y = [] \<or> unat (hd y) < 128 \<longrightarrow> from_utf8 ((c @ x) @ y) = None" by simp
  moreover have "g p = Some (FileNode (c @ x))" using assms(3) c(1) by simp
  ultimately show ?thesis unfolding blinded_def by blast
qed

lemma wp_blinded_append:
  assumes "prints_ascii_first env" "blinded p f"
  shows "wp (blinded p) (memory_append env st r) (\<lambda>_. blinded p) f"
proof -
  have dirs: "blinded p (\<lambda>q. if q \<in> set (prefixes root) then Some DirNode else g q)"
    if "blinded p g" "\<And>q c. q \<in> set (prefixes root) \<Longrightarrow> g q \<noteq> Some (FileNode c)" for g root
    using that by (auto simp: blinded_def)
  have other: "blinded p (g(q \<mapsto> n))" if "blinded p g" "q \<noteq> p" for g q n
    using that by (auto simp: blinded_def)
  have fresh: "blinded p (g(q \<mapsto> n))" if "blinded p g" "g q = None" for g q n
    using that by (auto simp: blinded_def)
  have more: "blinded p (g(q \<mapsto> FileNode (file_bytes (g q) @ take n (line @ [10]))))"
    if "blinded p g" "line \<noteq> []" "unat (hd line) < 128" for g q n line
  proof (cases "q = p")
    case True
    show ?thesis
      by (rule blinded_extended [OF that(1), of "take n (line @ [10])"]) (use that True in \<open>cases n; cases line; simp\<close>)+
  qed (use that other in blast)
  have full: "blinded p (g(q \<mapsto> FileNode (file_bytes (g q) @ line @ [10])))"
    if "blinded p g" "line \<noteq> []" "unat (hd line) < 128" for g q line
    using more [OF that, of q "Suc (length line)"] by simp
  have line: "line \<noteq> [] \<and> unat (hd line) < 128" if "me_print env r = Inr line" for line
    using assms(1) that by (auto simp: prints_ascii_first_def)
  have append: "wp (blinded p) (act_map_err h (act_then (fs_append_all q (line @ [10])) fs_sync)) (\<lambda>_. blinded p) g"
    if "blinded p g" "me_print env r = Inr line" for g q line and h :: "io_error \<Rightarrow> memory_store_error"
  proof -
    have "wp (blinded p) (fs_append_all q (line @ [10])) (\<lambda>_. blinded p) g"
      by (rule wp_append_all) (use that line more full in auto)
    then have "wp (blinded p) (act_then (fs_append_all q (line @ [10])) fs_sync) (\<lambda>_. blinded p) g"
      by (intro wp_then wp_mono [OF \<open>wp _ (fs_append_all _ _) _ _\<close>]) (auto intro!: wp_sync split: sum.splits)
    then show ?thesis by (intro wp_map_err)
  qed
  have opened: "wp (blinded p) (act_map_err h (fs_open_append q)) (\<lambda>_. blinded p) g"
    if "blinded p g" for g q and h :: "io_error \<Rightarrow> memory_store_error"
    by (intro wp_map_err wp_open_append) (use that fresh in auto)
  have made: "wp (blinded p) (act_map_err h (fs_create_dir_all q)) (\<lambda>_. blinded p) g"
    if "blinded p g" for g q and h :: "io_error \<Rightarrow> memory_store_error"
    by (intro wp_map_err wp_create_dir_all) (use that dirs in auto)
  have rest: "wp (blinded p) (if b then throw e else act_then (act_map_err h (fs_open_append q))
      (act_map_err h (act_then (fs_append_all q (line @ [10])) fs_sync))) (\<lambda>_. blinded p) g"
    if "blinded p g" "me_print env r = Inr line" for g q line b e and h :: "io_error \<Rightarrow> memory_store_error"
    by (intro wp_if wp_then wp_throw wp_mono [OF opened [OF that(1)]]) (use that append in \<open>auto split: sum.splits\<close>)
  show ?thesis
    unfolding memory_append_def Let_def
    by (intro wp_then wp_mono [OF made [OF assms(2)]])
      (cases "me_print env r"; auto intro!: wp_bind wp_lift_res rest split: sum.splits split del: if_split)
qed

fun memory_appends :: "memory_env \<Rightarrow> (memory_store \<times> memory_record) list \<Rightarrow> memory_world \<Rightarrow> memory_world" where
  "memory_appends env [] d = d"
| "memory_appends env ((st, r) # rs) d = memory_appends env rs (snd (memory_append env st r d))"

lemma blinded_appends:
  "prints_ascii_first env \<Longrightarrow> blinded p (dk_files d) \<Longrightarrow> blinded p (dk_files (memory_appends env rs d))"
proof (induction rs arbitrary: d)
  case (Cons x rs)
  obtain st r where x: "x = (st, r)" by fastforce
  have "blinded p (dk_files (snd (memory_append env st r d)))"
    using wp_blinded_append [OF Cons.prems(1), of p "dk_files d" st r] Cons.prems(2) by (simp add: wp_def)
  then show ?case using Cons by (simp add: x)
qed simp

lemma blinded_reads_nothing:
  assumes "blinded p (dk_files d)"
  shows "ml_records (fst (read_memory_file env p load d)) = ml_records load"
proof -
  obtain c where c: "dk_files d p = Some (FileNode c)" "from_utf8 c = None"
    using assms unfolding blinded_def by (metis append_Nil2)
  obtain r d1 where m: "fs_metadata p d = (r, d1)" by fastforce
  have f: "dk_files d1 = dk_files d"
    using wp_metadata [of "\<lambda>r g. g = dk_files d" "dk_files d" p "\<lambda>_. True"] m by (auto simp: wp_def)
  obtain t d2 where t: "fs_read_to_string p d1 = (t, d2)" by fastforce
  have "wp (\<lambda>_. True) (fs_read_to_string p) (\<lambda>r g. \<exists>e. r = Inl e) (dk_files d1)"
    by (rule wp_read_to_string) (use c f in auto)
  then have "\<exists>e. t = Inl e" using t by (auto simp: wp_def)
  then show ?thesis
    using m t by (auto simp: read_memory_file_def warn_def split: sum.splits io_error.splits node.splits)
qed

text \<open>C30: When the operating system tears an append in the middle of a character, the whole file is lost: it is no longer
  UTF-8, and neither it nor anything appended later is ever read again, whatever the operating system answers, even
  though the later appends report success.\<close>

theorem torn_append_blinds_file:
  assumes "prints_ascii_first env" "\<forall>c \<in> set s. is_scalar c" "is_scalar a" "0 < n" "n < length (encode_scalar a)"
    and "dk_files d p = Some (FileNode (as_bytes s @ map of_nat (take n (encode_scalar a))))"
  shows "ml_records (fst (read_memory_file env p load (memory_appends env rs d))) = ml_records load"
proof -
  have "blinded p (dk_files d)" by (rule blinded_torn [where f = "dk_files d", OF assms(2-5)]) (rule assms(6))
  then show ?thesis by (intro blinded_reads_nothing blinded_appends assms(1))
qed

section \<open>Recalling\<close>

definition untouched :: "memory_world \<Rightarrow> memory_world \<Rightarrow> bool" where
  "untouched d d' \<longleftrightarrow> dk_files d' = dk_files d \<and> dk_past d' = dk_past d"

lemma untouched_refl [simp]: "untouched d d"
  by (simp add: untouched_def)

lemma untouched_trans: "untouched a b \<Longrightarrow> untouched b c \<Longrightarrow> untouched a c"
  by (simp add: untouched_def)

lemma wp_untouched:
  assumes "wp (\<lambda>_. False) m (\<lambda>_ g. g = dk_files d) (dk_files d)" "m d = (r, d')"
  shows "untouched d d'"
proof -
  have "passes (\<lambda>_. False) d d'" using assms by (auto simp: wp_def)
  then show ?thesis by (auto simp: passes_def untouched_def)
qed

lemma metadata_untouched: "fs_metadata p d = (r, d') \<Longrightarrow> untouched d d'"
  by (rule wp_untouched [where m = "fs_metadata p"]) (auto intro!: wp_metadata)

lemma read_text_untouched: "fs_read_to_string p d = (r, d') \<Longrightarrow> untouched d d'"
  by (rule wp_untouched [where m = "fs_read_to_string p"]) (auto intro!: wp_read_to_string)

lemma is_dir_untouched: "fs_is_dir p d = (r, d') \<Longrightarrow> untouched d d'"
  by (rule wp_untouched [where m = "fs_is_dir p"]) (auto intro!: wp_is_dir)

lemma now_untouched: "now_millis d = (r, d') \<Longrightarrow> untouched d d'"
  by (rule wp_untouched [where m = now_millis]) (auto intro!: wp_now_millis)

lemma read_memory_untouched: "read_memory_file env p load d = (l, d') \<Longrightarrow> untouched d d'"
  by (auto simp: read_memory_file_def dest!: metadata_untouched read_text_untouched
      intro: untouched_trans split: prod.splits sum.splits io_error.splits node.splits if_splits)

lemma load_paths_untouched: "load_paths env ps load d = (l, d') \<Longrightarrow> untouched d d'"
proof (induction env ps load d rule: load_paths.induct)
  case (2 env p ps load d)
  then show ?case
    by (auto split: prod.splits if_splits dest: read_memory_untouched intro: untouched_trans)
qed simp

lemma memory_load_untouched: "memory_load_all env st d = (r, d') \<Longrightarrow> untouched d d'"
  by (auto simp: memory_load_all_def split: prod.splits dest: load_paths_untouched)

lemma with_homes_untouched: "with_homes env cwd l n d = (r, d') \<Longrightarrow> untouched d d'"
  by (auto simp: with_homes_def act_bind_def lift_res_def throw_def ret_def split: prod.splits sum.splits if_splits
      dest: is_dir_untouched)

lemma recall_loaded_shown:
  "\<exists>boot dynamic.
     rx_boot (recall_loaded load fp query b now) = map to_context_record boot \<and>
     rx_dynamic (recall_loaded load fp query b now) = map to_context_record dynamic \<and>
     (\<forall>r \<in> set boot. recall_allowed load fp query now r \<and> is_recallable now r \<and> is_boot_candidate r) \<and>
     (\<forall>r \<in> set dynamic. recall_allowed load fp query now r) \<and>
     length boot \<le> BOOT_MAX_RECORDS \<and> sum_list (map (\<lambda>r. length (mr_content r)) boot) \<le> BOOT_BUDGET_CHARS \<and>
     length dynamic \<le> DYNAMIC_MAX_RECORDS \<and> sum_list (map (\<lambda>r. length (mr_content r)) dynamic) \<le> DYNAMIC_BUDGET_CHARS \<and>
     (b \<or> boot = [])"
  by (rule recall_loaded_parts [of load fp query b now]) blast

text \<open>C13: A recall changes no file and only shows active memories that are not of high sensitivity and belong to this
  workspace or to no workspace, and, unless the question asks about the past, are in force now: neither expired nor
  superseded nor invalidated. At most six boot memories of 1000 characters and eight others of 1200 are shown, and
  no boot memories when none are asked for.\<close>

theorem recall_shows_only_allowed:
  assumes "recall env q d = (Inr res, d')"
  shows "dk_files d' = dk_files d \<and> dk_past d' = dk_past d \<and>
    (\<exists>st d1 load d2 now boot dynamic.
      for_workspace env (rr_cwd q) d = (Inr st, d1) \<and>
      (memory_load_all env st d1 :: (memory_recall_error, memory_load) res \<times> memory_world) = (Inr load, d2) \<and>
      rx_boot res = map to_context_record boot \<and> rx_dynamic res = map to_context_record dynamic \<and>
      (\<forall>r \<in> set boot \<union> set dynamic. r \<in> set (ml_records load) \<and> mr_sensitivity r \<noteq> HighSensitivity \<and>
         matches_workspace (mr_scope r) (ms_fingerprint st) \<and> mr_status r = ActiveMemory \<and>
         (is_recallable now r \<or> is_timeline_query (rr_query q))) \<and>
      (\<forall>r \<in> set boot. is_recallable now r) \<and>
      length boot \<le> 6 \<and> sum_list (map (\<lambda>r. length (mr_content r)) boot) \<le> 1000 \<and>
      length dynamic \<le> 8 \<and> sum_list (map (\<lambda>r. length (mr_content r)) dynamic) \<le> 1200 \<and>
      (\<not> rr_boot q \<longrightarrow> boot = []))"
proof -
  obtain st d1 where st: "for_workspace env (rr_cwd q) d = (Inr st, d1)"
    using assms by (auto simp: recall_def act_bind_def act_map_err_def throw_def split: if_splits prod.splits sum.splits)
  obtain load d2 where load:
    "(memory_load_all env st d1 :: (memory_recall_error, memory_load) res \<times> memory_world) = (Inr load, d2)"
    by (cases "load_paths env (memory_paths st) no_memories d1") (auto simp: memory_load_all_def)
  obtain now where now: "(now_millis :: (memory_recall_error, u128) mem_act) d2 = (Inr now, d')"
    and res: "res = recall_loaded load (ms_fingerprint st) (rr_query q) (rr_boot q) now"
    using assms st load
    by (auto simp: recall_def act_bind_def act_map_err_def throw_def ret_def split: if_splits prod.splits sum.splits)
  have "untouched d d'"
    using with_homes_untouched [OF st [unfolded for_workspace_def]] memory_load_untouched [OF load] now_untouched [OF now]
    by (blast intro: untouched_trans)
  moreover obtain boot dynamic where parts:
    "rx_boot res = map to_context_record boot" "rx_dynamic res = map to_context_record dynamic"
    "\<forall>r \<in> set boot. recall_allowed load (ms_fingerprint st) (rr_query q) now r \<and> is_recallable now r \<and> is_boot_candidate r"
    "\<forall>r \<in> set dynamic. recall_allowed load (ms_fingerprint st) (rr_query q) now r"
    "length boot \<le> BOOT_MAX_RECORDS" "sum_list (map (\<lambda>r. length (mr_content r)) boot) \<le> BOOT_BUDGET_CHARS"
    "length dynamic \<le> DYNAMIC_MAX_RECORDS" "sum_list (map (\<lambda>r. length (mr_content r)) dynamic) \<le> DYNAMIC_BUDGET_CHARS"
    "rr_boot q \<or> boot = []"
    using recall_loaded_shown [of load "ms_fingerprint st" "rr_query q" "rr_boot q" now] unfolding res by blast
  note limits = parts(5-8) [unfolded BOOT_MAX_RECORDS_def BOOT_BUDGET_CHARS_def DYNAMIC_MAX_RECORDS_def DYNAMIC_BUDGET_CHARS_def]
  have "\<forall>r \<in> set boot \<union> set dynamic. recall_allowed load (ms_fingerprint st) (rr_query q) now r" "\<forall>r \<in> set boot. is_recallable now r"
    using parts(3,4) by auto
  ultimately show ?thesis
    using st load parts(1,2,9) limits unfolding untouched_def recall_allowed_def by blast
qed

section \<open>Extracting\<close>

definition clean_line :: "memory_env \<Rightarrow> u8 list \<Rightarrow> bool" where
  "clean_line env l \<longleftrightarrow> (\<exists>r c. me_print env r = Inr c \<and> l = c @ [10] \<and> \<not> contains_secret (mr_content r))"

definition next_files :: "memory_store \<Rightarrow> path set" where
  "next_files st = {path_join (ms_next_global st) (lit ''global-memory.jsonl''), path_join (ms_next_global st) (lit ''pending.jsonl''),
     path_join (ms_next_workspace st) (lit ''workspace-memory.jsonl''), path_join (ms_next_workspace st) (lit ''pending.jsonl'')}"

text \<open>A file grew by complete lines, the last of which may be cut; anything else is as it was or a new directory.\<close>

definition grown_file :: "memory_env \<Rightarrow> bool \<Rightarrow> node option \<Rightarrow> node option \<Rightarrow> bool" where
  "grown_file env whole old new \<longleftrightarrow> old \<noteq> Some DirNode \<and>
     (\<exists>ls n. new = Some (FileNode (file_bytes old @ take n (concat ls))) \<and> (\<forall>l \<in> set ls. clean_line env l) \<and>
        (whole \<longrightarrow> length (concat ls) \<le> n))"

definition grown :: "memory_env \<Rightarrow> memory_store \<Rightarrow> bool \<Rightarrow> files \<Rightarrow> files \<Rightarrow> bool" where
  "grown env st whole f g \<longleftrightarrow>
     (\<forall>p. g p = f p \<or> (f p = None \<and> g p = Some DirNode) \<or> (p \<in> next_files st \<and> grown_file env whole (f p) (g p)))"

lemma grown_refl [simp]: "grown env st w f f"
  by (simp add: grown_def)

lemma grown_file_any: "grown_file env True old n \<Longrightarrow> grown_file env w old n"
  unfolding grown_file_def by blast

lemma grown_torn: "grown env st w f g \<Longrightarrow> grown env st False f g"
  unfolding grown_def grown_file_def by blast

lemma grown_directories:
  assumes "grown env st w f g" "\<And>q c. q \<in> set (prefixes dir) \<Longrightarrow> g q \<noteq> Some (FileNode c)"
  shows "grown env st w f (\<lambda>q. if q \<in> set (prefixes dir) then Some DirNode else g q)"
  unfolding grown_def
proof
  fix q
  have "f q = None \<or> f q = Some DirNode" if "q \<in> set (prefixes dir)"
  proof (rule ccontr)
    assume "\<not> ?thesis"
    then obtain c where "f q = Some (FileNode c)" by (metis node.exhaust option.exhaust)
    then have "\<exists>c. g q = Some (FileNode c)" using assms(1) by (auto simp: grown_def grown_file_def dest: spec [of _ q])
    then show False using assms(2) [OF that] by blast
  qed
  then show "(if q \<in> set (prefixes dir) then Some DirNode else g q) = f q \<or>
      (f q = None \<and> (if q \<in> set (prefixes dir) then Some DirNode else g q) = Some DirNode) \<or>
      (q \<in> next_files st \<and> grown_file env w (f q) (if q \<in> set (prefixes dir) then Some DirNode else g q))"
    using assms(1) by (auto simp: grown_def)
qed

lemma grown_append:
  assumes "grown env st True f g" "p \<in> next_files st" "g p \<noteq> Some DirNode" "clean_line env l"
  shows "grown env st (length l \<le> k) f (g(p \<mapsto> FileNode (file_bytes (g p) @ take k l)))"
  unfolding grown_def
proof
  fix q
  show "(g(p \<mapsto> FileNode (file_bytes (g p) @ take k l))) q = f q \<or>
      (f q = None \<and> (g(p \<mapsto> FileNode (file_bytes (g p) @ take k l))) q = Some DirNode) \<or>
      (q \<in> next_files st \<and> grown_file env (length l \<le> k) (f q) ((g(p \<mapsto> FileNode (file_bytes (g p) @ take k l))) q))"
  proof (cases "q = p")
    case False
    then show ?thesis using assms(1) [unfolded grown_def, rule_format, of q] grown_file_any by (simp, blast)
  next
    case True
    have "f p \<noteq> Some DirNode \<and> (\<exists>ls. file_bytes (g p) = file_bytes (f p) @ concat ls \<and> (\<forall>l \<in> set ls. clean_line env l))"
    proof (cases "g p = f p")
      case True
      then show ?thesis using assms(3) by (intro conjI exI [of _ "[]"]) auto
    next
      case False
      then show ?thesis
        using assms(1,3) unfolding grown_def grown_file_def by (metis file_bytes.simps(1) take_all)
    qed
    then obtain ls where ls: "f p \<noteq> Some DirNode" "file_bytes (g p) = file_bytes (f p) @ concat ls" "\<forall>l \<in> set ls. clean_line env l"
      by blast
    then have "grown_file env (length l \<le> k) (f p) (Some (FileNode (file_bytes (g p) @ take k l)))"
      unfolding grown_file_def using assms(4)
      by (intro conjI exI [of _ "ls @ [l]"] exI [of _ "length (concat ls) + k"]) auto
    then show ?thesis using True assms(2) by simp
  qed
qed

lemma grown_created:
  assumes "grown env st True f g" "p \<in> next_files st" "g p = None" "clean_line env l"
  shows "grown env st True f (g(p \<mapsto> FileNode []))"
proof -
  have "f p = None" using assms(1,3) by (auto simp: grown_def grown_file_def dest: spec [of _ p])
  then have "grown_file env True (f p) (Some (FileNode []))" unfolding grown_file_def by (intro conjI exI [of _ "[]"]) auto
  then show ?thesis using assms(1,2) by (auto simp: grown_def)
qed

text \<open>What storing keeps: the files grew by clean lines, whole ones when it succeeds.\<close>

definition clean_outcome :: "memory_env \<Rightarrow> memory_store \<Rightarrow> files \<Rightarrow> ('e, 'a) res \<Rightarrow> files \<Rightarrow> bool" where
  "clean_outcome env st f r h \<longleftrightarrow> grown env st (is_ok r) f h"

lemma clean_outcome_simps [simp]:
  "clean_outcome env st f (Inl e) h \<longleftrightarrow> grown env st False f h"
  "clean_outcome env st f (Inr x) h \<longleftrightarrow> grown env st True f h"
  by (simp_all add: clean_outcome_def)

lemma clean_outcome_map_err [simp]: "clean_outcome env st f (map_err h r) g = clean_outcome env st f r g"
  by (cases r) simp_all

text \<open>A step that keeps the files clean, followed by one that does.\<close>

abbreviation clean_step :: "memory_env \<Rightarrow> memory_store \<Rightarrow> files \<Rightarrow> ('e, 'a) mem_act \<Rightarrow> files \<Rightarrow> bool" where
  "clean_step env st f m g \<equiv> wp (grown env st False f) m (clean_outcome env st f) g"

lemma clean_map_err: "clean_step env st f m g \<Longrightarrow> clean_step env st f (act_map_err h m) g"
  by (intro wp_map_err) simp

lemma clean_bind:
  assumes "clean_step env st f m g" "\<And>x h. grown env st True f h \<Longrightarrow> clean_step env st f (k x) h"
  shows "clean_step env st f (act_bind m k) g"
  by (intro wp_bind wp_mono [OF assms(1)]) (auto intro: assms(2) split: sum.split)

lemma clean_then:
  assumes "clean_step env st f m g" "\<And>h. grown env st True f h \<Longrightarrow> clean_step env st f n h"
  shows "clean_step env st f (act_then m n) g"
  unfolding act_then_def using assms by (rule clean_bind)

lemma clean_ret: "grown env st True f g \<Longrightarrow> clean_step env st f (ret x) g"
  by (rule wp_ret) simp

lemma clean_throw: "grown env st True f g \<Longrightarrow> clean_step env st f (throw e) g"
  by (rule wp_throw) (simp add: grown_torn)

lemma clean_append_all:
  assumes "grown env st True f g" "p \<in> next_files st" "g p \<noteq> Some DirNode" "clean_line env l"
  shows "clean_step env st f (fs_append_all p l) g"
proof -
  note step = grown_append [OF assms]
  have torn: "grown env st False f (g(p \<mapsto> FileNode (file_bytes (g p) @ take k l)))" for k by (rule grown_torn [OF step])
  have full: "grown env st True f (g(p \<mapsto> FileNode (file_bytes (g p) @ l)))" using step [of "length l"] by simp
  show ?thesis by (rule wp_append_all) (simp_all only: clean_outcome_simps grown_torn [OF assms(1)] torn full)
qed

lemma clean_append:
  assumes "grown env st True f g" "append_path st r \<in> next_files st" "\<not> contains_secret (mr_content r)"
  shows "clean_step env st f (memory_append env st r) g"
proof -
  let ?p = "append_path st r" and ?I = "grown env st False f"
  have made: "clean_step env st f (act_map_err e (fs_create_dir_all q)) g" for q and e :: "io_error \<Rightarrow> memory_store_error"
    by (intro clean_map_err wp_create_dir_all)
      (auto simp del: in_set_prefixes intro: grown_torn assms(1) grown_directories)
  have sync: "clean_step env st f fs_sync h" if "grown env st True f h" for h
    using that by (auto intro!: wp_sync intro: grown_torn)
  have opened: "wp ?I (act_map_err e (fs_open_append ?p))
      (\<lambda>x h. clean_outcome env st f x h \<and> (is_ok x \<longrightarrow> h ?p \<noteq> Some DirNode)) h"
    if "grown env st True f h" "clean_line env l" for h l and e :: "io_error \<Rightarrow> memory_store_error"
  proof -
    have created: "h ?p = None \<Longrightarrow> grown env st True f (h(?p \<mapsto> FileNode []))"
      using grown_created [OF that(1) assms(2) _ that(2)] .
    show ?thesis
      by (intro wp_map_err wp_open_append) (use created that(1) in \<open>auto intro: grown_torn\<close>)
  qed
  have written: "clean_step env st f (if b then throw x else act_then (act_map_err e (fs_open_append ?p))
      (act_map_err e (act_then (fs_append_all ?p (c @ [10])) fs_sync))) h"
    if "grown env st True f h" "me_print env r = Inr c" for h c b x and e :: "io_error \<Rightarrow> memory_store_error"
  proof -
    have l: "clean_line env (c @ [10])" using that(2) assms(3) by (auto simp: clean_line_def)
    show ?thesis
      by (intro wp_if clean_throw that(1) wp_then wp_mono [OF opened [OF that(1) l]])
        (auto intro!: clean_map_err clean_then clean_append_all sync assms(2) l split: sum.split)
  qed
  show ?thesis
    unfolding memory_append_def Let_def
  proof (rule clean_then [OF made])
    fix h
    assume h: "grown env st True f h"
    show "clean_step env st f (act_bind (lift_res (map_err MsSerialize (me_print env r)))
        (\<lambda>line. if MAX_MEMORY_LINE_BYTES < length line then throw (MsRecordTooLarge MAX_MEMORY_LINE_BYTES)
          else act_then (act_map_err (MsIo ?p) (fs_open_append ?p))
            (act_map_err (MsIo ?p) (act_then (fs_append_all ?p (line @ [10])) fs_sync)))) h"
      by (cases "me_print env r") (auto intro!: wp_bind wp_lift_res grown_torn [OF h] written [OF h] split del: if_split)
  qed
qed

lemma append_path_next [simp]: "append_path st r \<in> next_files st"
  by (auto simp: append_path_def append_root_def next_files_def)

lemma conflicted_content [simp]: "mr_content (conflicted rs r) = mr_content r"
  by (simp add: conflicted_def split: option.splits)

lemma candidate_record_content [simp]: "mr_content (candidate_record st q now i c) = ca_content c"
  by (simp add: candidate_record_def memory_record_new_def)

lemma clean_memory_id: "grown env st True f g \<Longrightarrow> clean_step env st f (generate_memory_id now) g"
  by (simp add: wp_def generate_memory_id_def passes_def)

lemma clean_store_candidate:
  assumes "grown env st True f g"
  shows "clean_step env st f (store_candidate env st load q now c) g"
  unfolding store_candidate_def Let_def
  by (intro wp_if clean_ret assms clean_bind [OF clean_memory_id [OF assms]])
    (auto intro!: clean_ret clean_then clean_map_err clean_append split: option.split)

lemma clean_store_candidates:
  "grown env st True f g \<Longrightarrow> clean_step env st f (store_candidates env st load q now cs) g"
  by (induction cs arbitrary: g) (auto intro!: clean_ret clean_bind clean_store_candidate)

lemma secret_prompt_stores_nothing:
  "contains_secret (wq_prompt q) \<Longrightarrow>
   store_candidates env st load q now cs d = (Inr (map (\<lambda>c. redacted_summary (ca_kind c)) cs), d)"
  by (induction cs) (simp_all add: store_candidate_def act_bind_def ret_def)

lemma now_millis_ok:
  obtains now d' where "(now_millis :: ('e, u128) mem_act) d = (Inr now, d')" "untouched d d'"
proof -
  obtain n d' where n: "(now_millis :: ('e, u128) mem_act) d = (n, d')" by fastforce
  then obtain now where "n = Inr now"
    by (auto simp: now_millis_def sys_nanos_def act_bind_def ret_def split: prod.splits list.splits)
  then show thesis using that n now_untouched [OF n] by blast
qed

lemma from_grant_untouched: "memory_from_grant env g d = (r, d') \<Longrightarrow> untouched d d'"
  unfolding memory_from_grant_def by (rule with_homes_untouched)

lemma passes_untouched: "untouched d d1 \<Longrightarrow> passes I d1 d' \<Longrightarrow> passes I d d'"
  by (simp add: untouched_def passes_def)

lemma load_all_ok:
  fixes d :: memory_world
  obtains load d' where "\<And>k. act_bind (memory_load_all env st) k d = (k load d' :: ('e, 'a) res \<times> memory_world)" "untouched d d'"
proof -
  obtain load d' where l: "(memory_load_all env st d :: ('e, memory_load) res \<times> memory_world) = (Inr load, d')"
    by (cases "load_paths env (memory_paths st) no_memories d") (auto simp: memory_load_all_def)
  show thesis by (rule that [OF _ memory_load_untouched [OF l]]) (simp add: act_bind_def l)
qed

lemma extraction_steps:
  fixes d :: memory_world
  assumes "extract_and_store env q d = (res, d')"
  obtains (refused) "untouched d d'" "\<not> is_ok res"
  | (stores) st d1 load now d2 ss where
      "wg_next_write (wq_grant q)" "memory_from_grant env (wq_grant q) d = (Inr st, d1)" "untouched d d2"
      "store_candidates env st load q now (deduplicate_candidates (detect_prompt_memories (wq_prompt q))) d2 = (ss, d')"
      "res = map_sum id (\<lambda>x. \<lparr>wr_records = x, wr_warnings = ml_warnings load\<rparr>) ss"
proof (cases "wg_next_write (wq_grant q) \<and> \<not> MAX_PROMPT_CHARS < length (wq_prompt q) \<and>
    \<not> (case wq_response q of None \<Rightarrow> False | Some r \<Rightarrow> MAX_RESPONSE_CHARS < length r)")
  case False
  then show thesis using assms by (intro refused) (auto simp: extract_and_store_def throw_def split: if_splits)
next
  case allowed: True
  let ?cs = "deduplicate_candidates (detect_prompt_memories (wq_prompt q))"
  obtain r d1 where g: "memory_from_grant env (wq_grant q) d = (r, d1)" by fastforce
  note u1 = from_grant_untouched [OF g]
  show thesis
  proof (cases r)
    case (Inl e)
    then show thesis using assms allowed g u1
      by (intro refused) (auto simp: extract_and_store_def act_bind_def act_map_err_def)
  next
    case st: (Inr st)
    obtain load d2 where l: "\<And>k. act_bind (memory_load_all env st) k d1 =
        (k load d2 :: (memory_write_error, memory_write_result) res \<times> memory_world)" "untouched d1 d2"
      by (rule load_all_ok [of env st d1]) blast
    obtain now d3 where n: "(now_millis :: (memory_write_error, u128) mem_act) d2 = (Inr now, d3)" "untouched d2 d3"
      by (rule now_millis_ok)
    obtain ss d4 where ss: "store_candidates env st load q now ?cs d3 = (ss, d4)" by fastforce
    have "extract_and_store env q d = (map_sum id (\<lambda>x. \<lparr>wr_records = x, wr_warnings = ml_warnings load\<rparr>) ss, d4)"
      using allowed g st l(1) n(1) ss
      by (cases ss) (simp_all add: extract_and_store_def act_bind_def [of "act_map_err _ _"] act_map_err_def
          act_bind_def [of now_millis] act_bind_def [of "store_candidates _ _ _ _ _ _"] ret_def)
    moreover have "untouched d d3" using u1 l(2) n(2) by (blast intro: untouched_trans)
    ultimately show thesis using assms allowed g st ss by (intro stores) auto
  qed
qed

text \<open>C12: Extracting memories from a prompt never writes a secret. Either no file changes - always so without the write
  grant, and when the prompt looks like it holds a secret, every candidate is then reported redacted - or, at every
  moment a crash could leave on the disk, the four memory files of this grant have only grown by whole printed
  records whose content holds no secret, the last one possibly cut, every other file is as it was, and no line is
  cut when the extraction succeeds.\<close>

theorem extraction_keeps_secrets_out:
  assumes "extract_and_store env q d = (res, d')"
  shows "untouched d d' \<and> (is_ok res \<longrightarrow> wg_next_write (wq_grant q)) \<and>
      (case res of Inl e \<Rightarrow> True | Inr r \<Rightarrow> contains_secret (wq_prompt q) \<longrightarrow> (\<forall>s \<in> set (wr_records r). \<exists>k. s = redacted_summary k)) \<or>
    wg_next_write (wq_grant q) \<and> \<not> contains_secret (wq_prompt q) \<and>
      (\<exists>st d1. memory_from_grant env (wq_grant q) d = (Inr st, d1) \<and>
         passes (grown env st False (dk_files d)) d d' \<and> grown env st (is_ok res) (dk_files d) (dk_files d'))"
  using assms
proof (cases rule: extraction_steps)
  case refused
  then show ?thesis by (cases res) auto
next
  case (stores st d1 load now d2 ss)
  show ?thesis
  proof (cases "contains_secret (wq_prompt q)")
    case True
    then show ?thesis using stores by (auto simp: secret_prompt_stores_nothing)
  next
    case False
    have "clean_step env st (dk_files d2) (store_candidates env st load q now
        (deduplicate_candidates (detect_prompt_memories (wq_prompt q)))) (dk_files d2)"
      by (rule clean_store_candidates) simp
    then have "passes (grown env st False (dk_files d2)) d2 d'" "clean_outcome env st (dk_files d2) ss (dk_files d')"
      using stores(4) by (auto simp: wp_def)
    moreover have "dk_files d2 = dk_files d" using stores(3) by (simp add: untouched_def)
    moreover have "is_ok res = is_ok ss" using stores(5) by (cases ss) auto
    ultimately show ?thesis
      using False stores(1,2) passes_untouched [OF stores(3)] by (auto simp: clean_outcome_def)
  qed
qed

section \<open>Concrete runs\<close>

definition shelf_record :: memory_record where
  "shelf_record = (memory_record_new (lit ''m1'') GlobalUser Preference (lit ''tea'') 1)\<lparr>mr_confidence := Finite 1, mr_importance := Finite 1\<rparr>"

definition shelf_env :: memory_env where
  "shelf_env = \<lparr>me_canonicalize = Inr, me_var = (\<lambda>_. None), me_lossy = concat, me_hash = (\<lambda>_. 7),
     me_parse = (\<lambda>s. if s = [123, 125] then Inr shelf_record else Inl (lit ''bad'')),
     me_print = (\<lambda>_. Inr (as_bytes [123, 125])), me_show = \<lparr>pd_path = (\<lambda>_. []), pd_io = (\<lambda>_. [])\<rparr>\<rparr>"

definition shelf :: memory_store where
  "shelf = \<lparr>ms_legacy_global = [lit ''a''], ms_next_global = [lit ''b''], ms_legacy_workspace = [lit ''c''],
     ms_next_workspace = [lit ''d''], ms_fingerprint = lit ''f''\<rparr>"

definition shelf_disk :: "files \<Rightarrow> memory_world" where
  "shelf_disk f = \<lparr>dk_files = f, dk_answers = [], dk_past = [], dk_clock = [], mw_counter = 0\<rparr>"

lemma shelf_disk_simps [simp]: "serving (shelf_disk f)" "dk_files (shelf_disk f) = f"
  by (simp_all add: shelf_disk_def serving_def)

lemma shelf_record_simps [simp]:
  "mr_status shelf_record = PendingMemory" "mr_scope shelf_record = GlobalUser" "mr_id shelf_record = lit ''m1''"
  "mr_content shelf_record = lit ''tea''" "mr_schema_version shelf_record = CURRENT_SCHEMA_VERSION"
  by (simp_all add: shelf_record_def memory_record_new_def)

lemma shelf_path: "append_path shelf shelf_record = [lit ''b'', lit ''pending.jsonl'']"
  by (simp add: append_path_def append_root_def shelf_def path_join_def)

lemma shelf_prints: "prints_line shelf_env shelf_record [123, 125]"
  unfolding prints_line_def by (simp add: shelf_env_def is_scalar_def trim_def is_whitespace_def)

lemma shelf_valid: "memory_problem shelf_record = None"
proof -
  have "is_finite (mr_confidence shelf_record)" "is_finite (mr_importance shelf_record)" by (simp_all add: shelf_record_def)
  moreover have "\<not> blank (lit ''m1'')" "\<not> blank (lit ''tea'')"
    by (simp_all add: blank_def trim_def lit_def is_whitespace_def)
  moreover have "length (lit ''m1'') = 2" "length (lit ''tea'') = 3" by (simp_all add: lit_def)
  ultimately show ?thesis by (simp add: memory_problem_def MAX_MEMORY_ID_CHARS_def MAX_MEMORY_CONTENT_CHARS_def)
qed

lemma shelf_root: "append_root shelf shelf_record = [lit ''b'']"
  by (simp add: append_root_def shelf_def)

lemma shelf_append:
  obtains d where "memory_append shelf_env shelf shelf_record (shelf_disk Map.empty) = (Inr (), d)" "serving d"
proof -
  have "me_print shelf_env shelf_record = Inr [123, 125]" by (simp add: shelf_env_def as_bytes_def encode_scalar_def)
  moreover have "fs_create_dir_all [lit ''b''] (shelf_disk Map.empty) =
      (Inr (), put_files (\<lambda>q. if q \<in> set (prefixes [lit ''b'']) then Some DirNode else None) (shelf_disk Map.empty))"
    by (simp add: fs_create_dir_all_def serving_call cong: if_cong)
  ultimately have "fst (memory_append shelf_env shelf shelf_record (shelf_disk Map.empty)) = Inr () \<and>
      serving (snd (memory_append shelf_env shelf shelf_record (shelf_disk Map.empty)))"
    by (simp add: memory_append_def Let_def shelf_path shelf_root act_then_def act_bind_def act_map_err_def lift_res_def
        MAX_MEMORY_LINE_BYTES_def serving_open_append serving_append_all)
  then show thesis using that by (metis prod.collapse)
qed

theorem appended_record_is_read_witness:
  "\<exists>d. memory_append shelf_env shelf shelf_record (shelf_disk Map.empty) = (Inr (), d) \<and>
    ml_records (fst (read_memory_file shelf_env [lit ''b'', lit ''pending.jsonl''] no_memories d)) = [repair_memory shelf_record]"
proof -
  obtain d where run: "memory_append shelf_env shelf shelf_record (shelf_disk Map.empty) = (Inr (), d)" "serving d"
    by (rule shelf_append)
  have before: "fst (read_memory_file shelf_env (append_path shelf shelf_record) no_memories (shelf_disk Map.empty)) = no_memories"
    by (simp add: read_memory_file_def serving_metadata)
  show ?thesis
    using appended_record_is_read [OF _ run(1) shelf_prints shelf_valid, of "[]" no_memories d] before run
    by (simp add: holds_text_def whole_lines_def shelf_path MAX_LOADED_RECORDS_def MAX_MEMORY_FILE_BYTES_def no_memories_def
        str_len_def utf8_width_def)
qed

theorem torn_append_blinds_file_witness:
  "ml_records (fst (read_memory_file shelf_env [lit ''b''] no_memories
     (memory_appends shelf_env [(shelf, shelf_record)] (shelf_disk [[lit ''b''] \<mapsto> FileNode [0xE4, 0xB8]])))) = []"
proof -
  have "map of_nat (take 2 (encode_scalar 0x4E2D)) = [0xE4, 0xB8 :: u8]" "length (encode_scalar 0x4E2D) = 3"
    by (simp_all add: encode_scalar_def)
  moreover have "is_scalar 0x4E2D" "prints_ascii_first shelf_env"
    by (simp_all add: is_scalar_def prints_ascii_first_def shelf_env_def as_bytes_def encode_scalar_def)
  ultimately show ?thesis
    using torn_append_blinds_file [of shelf_env "[]" "0x4E2D" 2 "shelf_disk [[lit ''b''] \<mapsto> FileNode [0xE4, 0xB8]]"
        "[lit ''b'']" no_memories "[(shelf, shelf_record)]"]
    by (simp add: as_bytes_def no_memories_def)
qed

definition shelf_question :: recall_request where
  "shelf_question = recall_request_new [lit ''w''] (lit ''tea'')"

theorem recall_shows_only_allowed_witness:
  "\<exists>res d. recall shelf_env shelf_question (shelf_disk [[lit ''w''] \<mapsto> DirNode]) = (Inr res, d) \<and>
    dk_files d = [[lit ''w''] \<mapsto> DirNode] \<and> length (rx_boot res) \<le> 6 \<and> length (rx_dynamic res) \<le> 8"
proof -
  let ?d = "shelf_disk [[lit ''w''] \<mapsto> DirNode]"
  obtain st where st: "(for_workspace shelf_env [lit ''w''] ?d) = (Inr st, ?d)"
    by (simp add: for_workspace_def with_homes_def shelf_env_def act_bind_def lift_res_def fs_is_dir_def serving_metadata ret_def)
  obtain load d1 where load: "\<And>k. act_bind (memory_load_all shelf_env st) k ?d =
      (k load d1 :: (memory_recall_error, recall_result) res \<times> memory_world)" "untouched ?d d1"
    by (rule load_all_ok [of shelf_env st ?d]) blast
  obtain now d2 where now: "(now_millis :: (memory_recall_error, u128) mem_act) d1 = (Inr now, d2)" by (rule now_millis_ok)
  have "length (lit ''tea'') \<le> MAX_QUERY_CHARS" by (simp add: lit_def MAX_QUERY_CHARS_def)
  then obtain res d where run: "recall shelf_env shelf_question ?d = (Inr res, d)"
    using st load(1) now
    by (simp add: recall_def shelf_question_def recall_request_new_def act_bind_def [of "act_map_err _ _"] act_map_err_def
        act_bind_def [of now_millis] ret_def)
  from recall_shows_only_allowed [OF run] run show ?thesis by auto
qed

definition shelf_prompt :: memory_write_request where
  "shelf_prompt = memory_write_request_new (grant_read_write [lit ''w'']) (lit ''my token'')"

theorem extraction_keeps_secrets_out_witness:
  "dk_files (snd (extract_and_store shelf_env shelf_prompt (shelf_disk [[lit ''w''] \<mapsto> DirNode]))) = [[lit ''w''] \<mapsto> DirNode]"
proof -
  obtain res d where run: "extract_and_store shelf_env shelf_prompt (shelf_disk [[lit ''w''] \<mapsto> DirNode]) = (res, d)" by fastforce
  have "contains_secret (wq_prompt shelf_prompt)" by code_simp
  then show ?thesis using extraction_keeps_secrets_out [OF run] by (simp add: untouched_def run)
qed

end
