(* ===== verification/Session_Record.thy ===== *)
theory Session_Record
  imports Store_Plugin Text_Std Tool_Protocol
begin

text \<open>
  The conversations kept for a workspace: the payloads of \<open>yunxi-protocol/src/sessions.rs\<close> and the records of
  \<open>yunxi-storage/src/record.rs\<close>, with the projection of the records the predecessor program wrote.
\<close>

section \<open>Payloads\<close>

record session_create_request =
  cq_grant :: workspace_grant

record 'v session_snapshot =
  sn_id :: rstring
  sn_cwd :: path
  sn_messages :: "'v chat_message list"
  sn_provider :: "rstring option"
  sn_model :: "rstring option"
  sn_parent :: "rstring option"
  sn_title :: rstring
  sn_archived :: bool
  sn_pinned :: bool
  sn_legacy :: bool
  sn_created :: u128
  sn_updated :: u128

record session_append_request =
  aq_grant :: workspace_grant
  aq_session :: "rstring option"
  aq_user :: rstring
  aq_assistant :: rstring
  aq_provider :: "rstring option"
  aq_model :: "rstring option"

definition append_request_new :: "workspace_grant \<Rightarrow> rstring \<Rightarrow> rstring \<Rightarrow> session_append_request" where
  "append_request_new g user assistant = \<lparr>aq_grant = g, aq_session = None, aq_user = user, aq_assistant = assistant,
     aq_provider = None, aq_model = None\<rparr>"
definition with_session_id :: "rstring \<Rightarrow> session_append_request \<Rightarrow> session_append_request" where
  "with_session_id i q = q\<lparr>aq_session := Some i\<rparr>"
definition with_provider :: "rstring \<Rightarrow> session_append_request \<Rightarrow> session_append_request" where
  "with_provider p q = q\<lparr>aq_provider := Some p\<rparr>"
definition with_model :: "rstring \<Rightarrow> session_append_request \<Rightarrow> session_append_request" where
  "with_model m q = q\<lparr>aq_model := Some m\<rparr>"

record session_summary =
  sy_id :: rstring
  sy_title :: rstring
  sy_message_count :: nat
  sy_archived :: bool
  sy_pinned :: bool
  sy_legacy :: bool
  sy_updated :: u128

definition session_summary_of :: "'v session_snapshot \<Rightarrow> session_summary" where
  "session_summary_of s = \<lparr>sy_id = sn_id s, sy_title = sn_title s, sy_message_count = length (sn_messages s),
     sy_archived = sn_archived s, sy_pinned = sn_pinned s, sy_legacy = sn_legacy s, sy_updated = sn_updated s\<rparr>"

record session_load_request =
  lo_grant :: workspace_grant
  lo_session :: rstring

record 'v session_load_result =
  lx_session :: "'v session_snapshot option"
  lx_warnings :: "rstring list"

record session_list_request =
  li_grant :: workspace_grant
  li_archived :: bool
  li_limit :: nat

definition list_request_new :: "workspace_grant \<Rightarrow> session_list_request" where
  "list_request_new g = \<lparr>li_grant = g, li_archived = False, li_limit = 50\<rparr>"
definition with_archived :: "bool \<Rightarrow> session_list_request \<Rightarrow> session_list_request" where
  "with_archived b q = q\<lparr>li_archived := b\<rparr>"
definition with_limit :: "nat \<Rightarrow> session_list_request \<Rightarrow> session_list_request" where
  "with_limit n q = q\<lparr>li_limit := n\<rparr>"

record session_list_result =
  ly_sessions :: "session_summary list"
  ly_warnings :: "rstring list"
  ly_truncated :: bool

datatype session_mutation = MutArchive | MutUnarchive | MutPin | MutUnpin | MutFork

record session_mutation_request =
  mq_grant :: workspace_grant
  mq_session :: rstring
  mq_mutation :: session_mutation

record 'v session_mutation_result =
  mx_session :: "'v session_snapshot option"
  mx_warnings :: "rstring list"

section \<open>Records\<close>

definition SESSION_SCHEMA_VERSION :: u32 where "SESSION_SCHEMA_VERSION = 1"
definition MAX_SESSION_ID_CHARS :: nat where "MAX_SESSION_ID_CHARS = 128"
definition MAX_MESSAGE_CHARS :: nat where "MAX_MESSAGE_CHARS = 256 * 1024"
definition MAX_SESSION_MESSAGES :: nat where "MAX_SESSION_MESSAGES = 512"

record 'v stored_session =
  st_schema :: u32
  st_id :: rstring
  st_cwd :: path
  st_messages :: "'v chat_message list"
  st_provider :: "rstring option"
  st_model :: "rstring option"
  st_parent :: "rstring option"
  st_title :: rstring
  st_archived :: bool
  st_pinned :: bool
  st_created :: u128
  st_updated :: u128

definition session_id_char :: "rchar \<Rightarrow> bool" where
  "session_id_char c \<longleftrightarrow> is_ascii_alphanumeric c \<or> c = ch CHR ''-'' \<or> c = ch CHR ''_''"

definition validate_session_id :: "rstring \<Rightarrow> (rstring, unit) res" where
  "validate_session_id i =
     (if i = [] \<or> MAX_SESSION_ID_CHARS < length i
      then Inl (lit ''session id must contain 1 to '' @ show_nat MAX_SESSION_ID_CHARS @ lit '' characters'')
      else if str_contains i (lit ''..'') \<or> \<not> list_all session_id_char i
      then Inl (lit ''session id contains unsupported characters'') else Inr ())"

definition validate_session :: "'v stored_session \<Rightarrow> (rstring, unit) res" where
  "validate_session s =
     (if st_schema s \<noteq> SESSION_SCHEMA_VERSION
      then Inl (lit ''unsupported session schema_version='' @ show_nat (unat (st_schema s)) @ lit ''; expected '' @
             show_nat (unat SESSION_SCHEMA_VERSION))
      else res_bind (validate_session_id (st_id s)) (\<lambda>_.
        if MAX_SESSION_MESSAGES < length (st_messages s)
        then Inl (lit ''session has more than '' @ show_nat MAX_SESSION_MESSAGES @ lit '' messages'')
        else if list_ex (\<lambda>m. MAX_MESSAGE_CHARS < length (cm_content m)) (st_messages s)
        then Inl (lit ''session message exceeds '' @ show_nat MAX_MESSAGE_CHARS @ lit '' characters'')
        else Inr ()))"

definition preview_title :: "rstring \<Rightarrow> rstring" where
  "preview_title value =
     (let value = trim value in
      if value = [] then lit ''untitled session''
      else if length value \<le> 48 then value
      else take (48 - 3) value @ lit ''...'')"

text \<open>The world of a store: its disk and the counter of this process.\<close>

record session_world = disk +
  sw_counter :: u64

type_synonym ('e, 'a) sess_act = "(session_world, 'e, 'a) act"

definition generate_session_id :: "u128 \<Rightarrow> ('e, rstring) sess_act" where
  "generate_session_id now d =
     (Inr (lit ''yn-'' @ show_nat (unat now) @ lit ''-'' @ show_nat (unat (sw_counter d))),
      d\<lparr>sw_counter := sw_counter d + 1\<rparr>)"

definition fresh_session :: "path \<Rightarrow> rstring \<Rightarrow> 'v chat_message list \<Rightarrow> rstring \<Rightarrow> u128 \<Rightarrow> 'v stored_session" where
  "fresh_session cwd i messages title now = \<lparr>st_schema = SESSION_SCHEMA_VERSION, st_id = i, st_cwd = cwd,
     st_messages = messages, st_provider = None, st_model = None, st_parent = None, st_title = title,
     st_archived = False, st_pinned = False, st_created = now, st_updated = now\<rparr>"

definition session_empty :: "path \<Rightarrow> (rstring, 'v stored_session) sess_act" where
  "session_empty cwd =
     act_bind now_millis (\<lambda>now.
     act_bind (generate_session_id now) (\<lambda>i.
       let s = fresh_session cwd i [] (lit ''untitled session'') now in
       act_then (lift_res (validate_session s)) (ret s)))"

definition session_new :: "path \<Rightarrow> rstring \<Rightarrow> rstring \<Rightarrow> (rstring, 'v stored_session) sess_act" where
  "session_new cwd user assistant =
     act_bind now_millis (\<lambda>now.
     act_bind (generate_session_id now) (\<lambda>i.
       let s = fresh_session cwd i [message_user user, message_assistant assistant] (preview_title user) now in
       act_then (lift_res (validate_session s)) (ret s)))"

text \<open>How the fields of a JSON value are reached.\<close>

record 'v json_access =
  jx_object :: "'v \<Rightarrow> (rstring \<Rightarrow> 'v option) option"
  jx_str :: "'v \<Rightarrow> rstring option"
  jx_u64 :: "'v \<Rightarrow> u64 option"
  jx_bool :: "'v \<Rightarrow> bool option"

definition optional_string_field :: "'v json_access \<Rightarrow> (rstring \<Rightarrow> 'v option) \<Rightarrow> rstring \<Rightarrow> rstring option" where
  "optional_string_field jx obj name = Option.bind (obj name) (jx_str jx)"

definition string_field :: "'v json_access \<Rightarrow> (rstring \<Rightarrow> 'v option) \<Rightarrow> rstring \<Rightarrow> (rstring, rstring) res" where
  "string_field jx obj name =
     (case optional_string_field jx obj name of
        Some s \<Rightarrow> Inr s
      | None \<Rightarrow> Inl (lit ''legacy session field `'' @ name @ lit ''` must be a string''))"

definition integer_field :: "'v json_access \<Rightarrow> (rstring \<Rightarrow> 'v option) \<Rightarrow> rstring \<Rightarrow> u128 option" where
  "integer_field jx obj name = map_option ucast (Option.bind (obj name) (jx_u64 jx))"

definition bool_field :: "'v json_access \<Rightarrow> (rstring \<Rightarrow> 'v option) \<Rightarrow> rstring \<Rightarrow> bool option" where
  "bool_field jx obj name = Option.bind (obj name) (jx_bool jx)"

definition session_from_legacy :: "'v json_access \<Rightarrow> (rstring \<Rightarrow> path) \<Rightarrow> 'v \<Rightarrow> (rstring, 'v stored_session) res" where
  "session_from_legacy jx to_path value =
     (case jx_object jx value of
        None \<Rightarrow> Inl (lit ''legacy session root must be an object'')
      | Some obj \<Rightarrow>
          res_bind (string_field jx obj (lit ''id'')) (\<lambda>i.
          res_bind (string_field jx obj (lit ''cwd'')) (\<lambda>cwd.
          res_bind (string_field jx obj (lit ''prompt'')) (\<lambda>prompt.
            let answer = optional_string_field jx obj (lit ''final_response'');
                created = (case integer_field jx obj (lit ''created_at_millis'') of Some t \<Rightarrow> t | None \<Rightarrow> 0);
                s = \<lparr>st_schema = SESSION_SCHEMA_VERSION, st_id = i, st_cwd = to_path cwd,
                  st_messages = message_user prompt # (case answer of Some a \<Rightarrow> [message_assistant a] | None \<Rightarrow> []),
                  st_provider = optional_string_field jx obj (lit ''provider''),
                  st_model = optional_string_field jx obj (lit ''model''),
                  st_parent = optional_string_field jx obj (lit ''parent_id''),
                  st_title = (case optional_string_field jx obj (lit ''title'') of Some t \<Rightarrow> t | None \<Rightarrow> preview_title prompt),
                  st_archived = (bool_field jx obj (lit ''archived'') = Some True),
                  st_pinned = (bool_field jx obj (lit ''pinned'') = Some True),
                  st_created = created,
                  st_updated = (case integer_field jx obj (lit ''updated_at_millis'') of Some t \<Rightarrow> t | None \<Rightarrow> created)\<rparr>
            in res_bind (validate_session s) (\<lambda>_. Inr s)))))"

definition set_provider_model :: "rstring option \<Rightarrow> rstring option \<Rightarrow> 'v stored_session \<Rightarrow> 'v stored_session" where
  "set_provider_model provider model s = s\<lparr>
     st_provider := (case provider of Some p \<Rightarrow> Some p | None \<Rightarrow> st_provider s),
     st_model := (case model of Some m \<Rightarrow> Some m | None \<Rightarrow> st_model s)\<rparr>"

definition session_extend ::
  "rstring \<Rightarrow> rstring \<Rightarrow> rstring option \<Rightarrow> rstring option \<Rightarrow> 'v stored_session \<Rightarrow> (rstring, 'v stored_session) sess_act" where
  "session_extend user assistant provider model s =
     (if MAX_SESSION_MESSAGES < length (st_messages s) + 2
      then throw (lit ''session has reached '' @ show_nat MAX_SESSION_MESSAGES @ lit '' messages'')
      else if list_ex (\<lambda>m. MAX_MESSAGE_CHARS < length m) [user, assistant]
      then throw (lit ''session message exceeds '' @ show_nat MAX_MESSAGE_CHARS @ lit '' characters'')
      else act_bind now_millis (\<lambda>now. ret ((set_provider_model provider model s)\<lparr>
             st_messages := st_messages s @ [message_user user, message_assistant assistant], st_updated := now\<rparr>)))"

definition successor_session :: "rstring \<Rightarrow> 'v stored_session \<Rightarrow> ('e, 'v stored_session) sess_act" where
  "successor_session title s =
     act_bind now_millis (\<lambda>now.
     act_bind (generate_session_id now) (\<lambda>i.
       ret (s\<lparr>st_id := i, st_parent := Some (st_id s), st_title := title, st_archived := False, st_pinned := False,
              st_created := now, st_updated := now\<rparr>)))"

definition import_from_legacy :: "'v stored_session \<Rightarrow> ('e, 'v stored_session) sess_act" where
  "import_from_legacy s = successor_session (lit ''Imported: '' @ st_title s) s"

definition fork_session :: "'v stored_session \<Rightarrow> ('e, 'v stored_session) sess_act" where
  "fork_session s = successor_session (lit ''Fork of '' @ st_title s) s"

definition set_archived :: "bool \<Rightarrow> 'v stored_session \<Rightarrow> ('e, 'v stored_session) sess_act" where
  "set_archived b s = act_bind now_millis (\<lambda>now. ret (s\<lparr>st_archived := b, st_updated := now\<rparr>))"

definition set_pinned :: "bool \<Rightarrow> 'v stored_session \<Rightarrow> ('e, 'v stored_session) sess_act" where
  "set_pinned b s = act_bind now_millis (\<lambda>now. ret (s\<lparr>st_pinned := b, st_updated := now\<rparr>))"

definition session_snapshot :: "bool \<Rightarrow> 'v stored_session \<Rightarrow> 'v session_snapshot" where
  "session_snapshot legacy s = \<lparr>sn_id = st_id s, sn_cwd = st_cwd s, sn_messages = st_messages s, sn_provider = st_provider s,
     sn_model = st_model s, sn_parent = st_parent s, sn_title = st_title s, sn_archived = st_archived s,
     sn_pinned = st_pinned s, sn_legacy = legacy, sn_created = st_created s, sn_updated = st_updated s\<rparr>"

end
