(* ===== verification/Session_Store.thy ===== *)
theory Session_Store
  imports Session_Record
begin

text \<open>
  The files of the conversations: reading, scanning, saving and the five operations of
  \<open>yunxi-storage/src/store.rs\<close>, and the plugin (\<open>plugin.rs\<close>). The sessions of the predecessor program have
  their own directory, which is only read.
\<close>

definition MAX_SESSION_FILE_BYTES :: nat where "MAX_SESSION_FILE_BYTES = 8 * 1024 * 1024"
definition MAX_SCANNED_FILES :: nat where "MAX_SCANNED_FILES = 2000"
definition MAX_SESSION_LIST_LIMIT :: nat where "MAX_SESSION_LIST_LIMIT = 200"

datatype storage_error =
    SgWorkspace path io_error
  | SgNotDirectory path
  | SgWriteNotGranted
  | SgNotFound rstring
  | SgLegacyReadOnly rstring
  | SgInvalidRecord rstring
  | SgFileTooLarge path nat
  | SgIo path io_error
  | SgSerialize rstring

fun show_storage_error :: "platform_display \<Rightarrow> storage_error \<Rightarrow> rstring" where
  "show_storage_error t (SgWorkspace p e) = lit ''failed to resolve workspace '' @ pd_path t p @ lit '': '' @ pd_io t e"
| "show_storage_error t (SgNotDirectory p) = lit ''workspace is not a directory: '' @ pd_path t p"
| "show_storage_error t SgWriteNotGranted = lit ''session write access was not granted''"
| "show_storage_error t (SgNotFound i) = lit ''session `'' @ i @ lit ''` was not found''"
| "show_storage_error t (SgLegacyReadOnly i) = lit ''legacy session `'' @ i @ lit ''` is read-only; fork it first''"
| "show_storage_error t (SgInvalidRecord m) = m"
| "show_storage_error t (SgFileTooLarge p n) = lit ''session file '' @ pd_path t p @ lit '' exceeds '' @ show_nat n @ lit '' bytes''"
| "show_storage_error t (SgIo p e) = lit ''session I/O failed at '' @ pd_path t p @ lit '': '' @ pd_io t e"
| "show_storage_error t (SgSerialize e) = lit ''session serialization failed: '' @ e"

type_synonym 'a st_act = "(storage_error, 'a) sess_act"

section \<open>The store and its environment\<close>

record 'v storage_env =
  sv_canonicalize :: "path \<Rightarrow> (io_error, path) res"
  sv_parse :: "u8 list \<Rightarrow> (rstring, 'v stored_session) res"
  sv_print :: "'v stored_session \<Rightarrow> (rstring, u8 list) res"
  sv_value :: "u8 list \<Rightarrow> (rstring, 'v) res"
  sv_json :: "'v json_access"
  sv_path :: "rstring \<Rightarrow> path"
  sv_pid :: nat
  sv_list :: dir_listing
  sv_show :: platform_display

record storage_store =
  so_workspace :: path
  so_next :: path
  so_legacy :: "path option"
  so_writable :: bool

definition storage_from_grant :: "'v storage_env \<Rightarrow> workspace_grant \<Rightarrow> storage_store st_act" where
  "storage_from_grant env g =
     act_bind (lift_res (map_err (SgWorkspace (wg_root g)) (sv_canonicalize env (wg_root g)))) (\<lambda>workspace.
     act_bind (fs_is_dir workspace) (\<lambda>directory.
     if \<not> directory then throw (SgNotDirectory workspace)
     else ret \<lparr>so_workspace = workspace,
                so_next = path_join (path_join workspace (lit ''.yunxi-next'')) (lit ''sessions''),
                so_legacy = (if wg_legacy_read g
                  then Some (path_join (path_join workspace (lit ''.yunxi'')) (lit ''sessions'')) else None),
                so_writable = wg_next_write g\<rparr>))"

definition storage_require_write :: "storage_store \<Rightarrow> (storage_error, unit) res" where
  "storage_require_write st = ensure (so_writable st) SgWriteNotGranted"

definition session_path :: "path \<Rightarrow> rstring \<Rightarrow> path" where
  "session_path dir i = path_join dir (i @ lit ''.json'')"

section \<open>Reading\<close>

definition storage_read_bounded :: "path \<Rightarrow> u8 list option st_act" where
  "storage_read_bounded p d =
     (case fs_metadata p d of
        (Inl IoNotFound, d1) \<Rightarrow> (Inr None, d1)
      | (Inl e, d1) \<Rightarrow> (Inl (SgIo p e), d1)
      | (Inr DirNode, d1) \<Rightarrow> (Inr None, d1)
      | (Inr (FileNode c), d1) \<Rightarrow>
          if MAX_SESSION_FILE_BYTES < length c then (Inl (SgFileTooLarge p MAX_SESSION_FILE_BYTES), d1)
          else act_bind (act_map_err (SgIo p) (fs_read p)) (\<lambda>content. ret (Some content)) d1)"

definition decode_session :: "'v storage_env \<Rightarrow> path \<Rightarrow> u8 list \<Rightarrow> (storage_error, 'v stored_session) res" where
  "decode_session env source content =
     res_bind (map_err (\<lambda>e. SgInvalidRecord (lit ''failed to parse session '' @ pd_path (sv_show env) source @ lit '': '' @ e))
       (sv_parse env content)) (\<lambda>s.
     res_bind (map_err (\<lambda>e. SgInvalidRecord (lit ''invalid session '' @ pd_path (sv_show env) source @ lit '': '' @ e))
       (validate_session s)) (\<lambda>_. Inr s))"

definition read_next_record :: "'v storage_env \<Rightarrow> path \<Rightarrow> 'v stored_session option st_act" where
  "read_next_record env p =
     act_bind (storage_read_bounded p) (\<lambda>found.
     case found of
       Some content \<Rightarrow> act_bind (lift_res (decode_session env p content)) (\<lambda>s. ret (Some s))
     | None \<Rightarrow>
         act_bind (storage_read_bounded (backup_path p)) (\<lambda>saved.
         case saved of
           None \<Rightarrow> ret None
         | Some content \<Rightarrow> act_bind (lift_res (decode_session env (backup_path p) content)) (\<lambda>s. ret (Some s))))"

definition decode_legacy :: "'v storage_env \<Rightarrow> path \<Rightarrow> u8 list \<Rightarrow> (storage_error, 'v stored_session) res" where
  "decode_legacy env p content =
     res_bind (map_err (\<lambda>e. SgInvalidRecord (lit ''failed to parse legacy session '' @ pd_path (sv_show env) p @ lit '': '' @ e))
       (sv_value env content)) (\<lambda>value.
     map_err (\<lambda>e. SgInvalidRecord (lit ''invalid legacy session '' @ pd_path (sv_show env) p @ lit '': '' @ e))
       (session_from_legacy (sv_json env) (sv_path env) value))"

definition read_legacy_record :: "'v storage_env \<Rightarrow> path \<Rightarrow> 'v stored_session option st_act" where
  "read_legacy_record env p =
     act_bind (storage_read_bounded p) (\<lambda>found.
     case found of
       None \<Rightarrow> ret None
     | Some content \<Rightarrow> act_bind (lift_res (decode_legacy env p content)) (\<lambda>s. ret (Some s)))"

text \<open>A session by its id, and whether it is one of the predecessor's.\<close>

definition load_record :: "'v storage_env \<Rightarrow> storage_store \<Rightarrow> rstring \<Rightarrow> ('v stored_session \<times> bool) option st_act" where
  "load_record env st i =
     act_then (lift_res (map_err SgInvalidRecord (validate_session_id i)))
    (act_bind (read_next_record env (session_path (so_next st) i)) (\<lambda>found.
     case found of
       Some s \<Rightarrow> ret (Some (s, False))
     | None \<Rightarrow>
         (case so_legacy st of
            None \<Rightarrow> ret None
          | Some dir \<Rightarrow>
              act_bind (read_legacy_record env (session_path dir i)) (\<lambda>old.
              ret (map_option (\<lambda>s. (s, True)) old)))))"

section \<open>Scanning\<close>

text \<open>What an entry of a directory is read as; a backup stands for its session while that is missing.\<close>

definition read_entry :: "'v storage_env \<Rightarrow> bool \<Rightarrow> path \<Rightarrow> 'v stored_session option st_act" where
  "read_entry env legacy p =
     (if legacy then
        (if path_extension p = Some (lit ''json'') then read_legacy_record env p else ret None)
      else if path_extension p = Some (lit ''json'') then read_next_record env p
      else if p \<noteq> [] \<and> str_ends (last p) (lit ''.json.bak'') then
        act_bind (fs_exists (with_extension p [])) (\<lambda>present.
          if present then ret None else read_next_record env (with_extension p []))
      else ret None)"

fun scan_sessions ::
  "'v storage_env \<Rightarrow> path \<Rightarrow> bool \<Rightarrow> nat \<Rightarrow> (rstring, rstring) res list \<Rightarrow> 'v session_snapshot list \<Rightarrow> rstring list \<Rightarrow>
   ('v session_snapshot list \<times> rstring list) st_act" where
  "scan_sessions env dir legacy k [] found warnings d = (Inr (found, warnings), d)"
| "scan_sessions env dir legacy k (x # xs) found warnings d =
     (if MAX_SCANNED_FILES \<le> k
      then (Inr (found, warnings @ [lit ''session scan stopped after '' @ show_nat MAX_SCANNED_FILES @ lit '' files in '' @
              pd_path (sv_show env) dir]), d)
      else (case x of
          Inl e \<Rightarrow> scan_sessions env dir legacy (Suc k) xs found (warnings @ [lit ''failed to read session entry: '' @ e]) d
        | Inr name \<Rightarrow>
            (case read_entry env legacy (path_join dir name) d of
               (Inr (Some s), d1) \<Rightarrow> scan_sessions env dir legacy (Suc k) xs (found @ [session_snapshot legacy s]) warnings d1
             | (Inr None, d1) \<Rightarrow> scan_sessions env dir legacy (Suc k) xs found warnings d1
             | (Inl e, d1) \<Rightarrow>
                 scan_sessions env dir legacy (Suc k) xs found (warnings @ [show_storage_error (sv_show env) e]) d1)))"

definition scan_root ::
  "'v storage_env \<Rightarrow> path \<Rightarrow> bool \<Rightarrow> 'v session_snapshot list \<Rightarrow> rstring list \<Rightarrow>
   ('v session_snapshot list \<times> rstring list) st_act" where
  "scan_root env dir legacy found warnings d =
     (case fs_read_dir (sv_list env) dir d of
        (Inl IoNotFound, d1) \<Rightarrow> (Inr (found, warnings), d1)
      | (Inl e, d1) \<Rightarrow> (Inl (SgIo dir e), d1)
      | (Inr entries, d1) \<Rightarrow> scan_sessions env dir legacy 0 entries found warnings d1)"

section \<open>Saving\<close>

definition session_temporary :: "nat \<Rightarrow> nat \<Rightarrow> rstring" where
  "session_temporary pid unique = lit ''.session-'' @ show_nat pid @ lit ''-'' @ show_nat unique @ lit ''.tmp''"

definition session_replace_file :: "'v storage_env \<Rightarrow> path \<Rightarrow> u8 list \<Rightarrow> unit st_act" where
  "session_replace_file env target content =
     (case path_parent target of
        None \<Rightarrow> throw (SgInvalidRecord (lit ''session path has no parent directory''))
      | Some parent \<Rightarrow>
          act_bind sys_nanos (\<lambda>unique.
            act_map_err (\<lambda>(q, e). SgIo q e)
              (swap_file target (path_join parent (session_temporary (sv_pid env) unique)) (backup_path target) content)))"

definition save_session :: "'v storage_env \<Rightarrow> storage_store \<Rightarrow> 'v stored_session \<Rightarrow> unit st_act" where
  "save_session env st s =
     act_then (lift_res (map_err SgInvalidRecord (validate_session s)))
    (act_then (act_map_err (SgIo (so_next st)) (fs_create_dir_all (so_next st)))
    (act_bind (lift_res (map_err SgSerialize (sv_print env s))) (\<lambda>content.
     if MAX_SESSION_FILE_BYTES < length content
     then throw (SgFileTooLarge (session_path (so_next st) (st_id s)) MAX_SESSION_FILE_BYTES)
     else session_replace_file env (session_path (so_next st) (st_id s)) content)))"

section \<open>The operations\<close>

definition storage_append :: "'v storage_env \<Rightarrow> storage_store \<Rightarrow> session_append_request \<Rightarrow> 'v session_snapshot st_act" where
  "storage_append env st q =
     act_then (lift_res (storage_require_write st))
    (act_bind (case aq_session q of
         Some i \<Rightarrow>
           act_bind (load_record env st i) (\<lambda>found.
           act_bind (case found of
               Some (s, False) \<Rightarrow> ret s
             | Some (s, True) \<Rightarrow> import_from_legacy s
             | None \<Rightarrow> throw (SgNotFound i)) (\<lambda>s.
           act_map_err SgInvalidRecord (session_extend (aq_user q) (aq_assistant q) (aq_provider q) (aq_model q) s)))
       | None \<Rightarrow>
           act_bind (act_map_err SgInvalidRecord (session_new (so_workspace st) (aq_user q) (aq_assistant q))) (\<lambda>s.
           ret (set_provider_model (aq_provider q) (aq_model q) s))) (\<lambda>s.
     act_then (save_session env st s) (ret (session_snapshot False s))))"

definition storage_create :: "'v storage_env \<Rightarrow> storage_store \<Rightarrow> session_create_request \<Rightarrow> 'v session_snapshot st_act" where
  "storage_create env st q =
     act_then (lift_res (storage_require_write st))
    (act_bind (act_map_err SgInvalidRecord (session_empty (so_workspace st))) (\<lambda>s.
     act_then (save_session env st s) (ret (session_snapshot False s))))"

definition storage_load :: "'v storage_env \<Rightarrow> storage_store \<Rightarrow> session_load_request \<Rightarrow> 'v session_load_result st_act" where
  "storage_load env st q d =
     (case load_record env st (lo_session q) d of
        (Inr (Some (s, legacy)), d1) \<Rightarrow> (Inr \<lparr>lx_session = Some (session_snapshot legacy s), lx_warnings = []\<rparr>, d1)
      | (Inr None, d1) \<Rightarrow> (Inr \<lparr>lx_session = None, lx_warnings = []\<rparr>, d1)
      | (Inl (SgInvalidRecord m), d1) \<Rightarrow> (Inr \<lparr>lx_session = None, lx_warnings = [m]\<rparr>, d1)
      | (Inl e, d1) \<Rightarrow> (Inl e, d1))"

definition listed_before :: "'v session_snapshot \<Rightarrow> 'v session_snapshot \<Rightarrow> bool" where
  "listed_before l r \<longleftrightarrow>
     (sn_pinned l \<and> \<not> sn_pinned r) \<or>
     (sn_pinned l = sn_pinned r \<and>
        (sn_updated r < sn_updated l \<or> (sn_updated r = sn_updated l \<and> sn_id l \<le> sn_id r)))"

definition storage_list :: "'v storage_env \<Rightarrow> storage_store \<Rightarrow> session_list_request \<Rightarrow> session_list_result st_act" where
  "storage_list env st q =
     act_bind (scan_root env (so_next st) False [] []) (\<lambda>(found, warnings).
     act_bind (case so_legacy st of
         Some dir \<Rightarrow> scan_root env dir True found warnings | None \<Rightarrow> ret (found, warnings)) (\<lambda>(found, warnings).
       let wanted = sort_by listed_before (filter (\<lambda>s. li_archived q \<or> \<not> sn_archived s) found);
           limit = min MAX_SESSION_LIST_LIMIT (max 1 (li_limit q))
       in ret \<lparr>ly_sessions = map session_summary_of (take limit wanted), ly_warnings = warnings,
               ly_truncated = (limit < length wanted)\<rparr>))"

definition mutated_session :: "bool \<Rightarrow> session_mutation \<Rightarrow> 'v stored_session \<Rightarrow> ('e, 'v stored_session) sess_act" where
  "mutated_session legacy m s =
     (case m of
        MutArchive \<Rightarrow> set_archived True s
      | MutUnarchive \<Rightarrow> set_archived False s
      | MutPin \<Rightarrow> set_pinned True s
      | MutUnpin \<Rightarrow> set_pinned False s
      | MutFork \<Rightarrow> if legacy then import_from_legacy s else fork_session s)"

definition storage_mutate :: "'v storage_env \<Rightarrow> storage_store \<Rightarrow> session_mutation_request \<Rightarrow> 'v session_mutation_result st_act" where
  "storage_mutate env st q =
     act_then (lift_res (storage_require_write st))
    (act_bind (load_record env st (mq_session q)) (\<lambda>found.
     case found of
       None \<Rightarrow> ret \<lparr>mx_session = None, mx_warnings = []\<rparr>
     | Some (s, legacy) \<Rightarrow>
         if legacy \<and> mq_mutation q \<noteq> MutFork then throw (SgLegacyReadOnly (mq_session q))
         else act_bind (mutated_session legacy (mq_mutation q) s) (\<lambda>s'.
           act_then (save_session env st s') (ret \<lparr>mx_session = Some (session_snapshot False s'), mx_warnings = []\<rparr>))))"

section \<open>The plugin\<close>

definition STORAGE_SESSIONS :: rstring where "STORAGE_SESSIONS = lit ''storage.sessions''"
definition STORAGE_SESSIONS_VERSION :: u32 where "STORAGE_SESSIONS_VERSION = 1"
definition STORAGE_PLUGIN_ID :: rstring where "STORAGE_PLUGIN_ID = lit ''yunxi.storage''"

datatype storage_plugin_error =
    SpCapability capability_error
  | SpInvocation codec_error
  | SpStorage storage_error
  | SpProtocol protocol_error
  | SpUnexpectedHostMessage rstring

fun storage_plugin_error_code :: "storage_plugin_error \<Rightarrow> rstring" where
  "storage_plugin_error_code (SpInvocation e) = lit ''invalid_request''"
| "storage_plugin_error_code (SpStorage SgWriteNotGranted) = lit ''write_not_granted''"
| "storage_plugin_error_code (SpStorage (SgNotFound i)) = lit ''session_not_found''"
| "storage_plugin_error_code (SpStorage (SgLegacyReadOnly i)) = lit ''legacy_read_only''"
| "storage_plugin_error_code (SpStorage e) = lit ''storage_error''"
| "storage_plugin_error_code e = lit ''plugin_error''"

fun show_storage_plugin_error :: "platform_display \<Rightarrow> storage_plugin_error \<Rightarrow> rstring" where
  "show_storage_plugin_error t (SpCapability e) = lit ''invalid capability: '' @ show_capability_error e"
| "show_storage_plugin_error t (SpInvocation e) = show_codec_error e"
| "show_storage_plugin_error t (SpStorage e) = show_storage_error t e"
| "show_storage_plugin_error t (SpProtocol e) = show_protocol_error e"
| "show_storage_plugin_error t (SpUnexpectedHostMessage m) = m"

record 'v storage_serde =
  sj_create :: "'v \<Rightarrow> (rstring, session_create_request) res"
  sj_append :: "'v \<Rightarrow> (rstring, session_append_request) res"
  sj_load :: "'v \<Rightarrow> (rstring, session_load_request) res"
  sj_list :: "'v \<Rightarrow> (rstring, session_list_request) res"
  sj_mutate :: "'v \<Rightarrow> (rstring, session_mutation_request) res"
  sj_snapshot :: "'v session_snapshot \<Rightarrow> (rstring, 'v) res"
  sj_created :: "'v session_snapshot \<Rightarrow> (rstring, 'v) res"
  sj_loaded :: "'v session_load_result \<Rightarrow> (rstring, 'v) res"
  sj_listed :: "session_list_result \<Rightarrow> (rstring, 'v) res"
  sj_mutated :: "'v session_mutation_result \<Rightarrow> (rstring, 'v) res"

definition on_sessions ::
  "'v storage_env \<Rightarrow> ('q \<Rightarrow> workspace_grant) \<Rightarrow> (storage_store \<Rightarrow> 'q \<Rightarrow> 'r st_act) \<Rightarrow> 'q \<Rightarrow>
   (storage_plugin_error, 'r) sess_act" where
  "on_sessions env grant operation q =
     act_map_err SpStorage (act_bind (storage_from_grant env (grant q)) (\<lambda>st. operation st q))"

definition storage_dispatch ::
  "'v storage_serde \<Rightarrow> 'v storage_env \<Rightarrow> 'v invocation_request \<Rightarrow> (storage_plugin_error, 'v invocation_response) sess_act option" where
  "storage_dispatch j env r =
     (let operation = ir_operation r in
      if operation = lit ''create''
      then Some (typed_call SpInvocation (sj_create j) (on_sessions env cq_grant (storage_create env)) (sj_created j) r)
      else if operation = lit ''append''
      then Some (typed_call SpInvocation (sj_append j) (on_sessions env aq_grant (storage_append env)) (sj_snapshot j) r)
      else if operation = lit ''load''
      then Some (typed_call SpInvocation (sj_load j) (on_sessions env lo_grant (storage_load env)) (sj_loaded j) r)
      else if operation = lit ''list''
      then Some (typed_call SpInvocation (sj_list j) (on_sessions env li_grant (storage_list env)) (sj_listed j) r)
      else if operation = lit ''mutate''
      then Some (typed_call SpInvocation (sj_mutate j) (on_sessions env mq_grant (storage_mutate env)) (sj_mutated j) r)
      else None)"

definition storage_texts :: "platform_display \<Rightarrow> storage_plugin_error answer_texts" where
  "storage_texts t = \<lparr>at_capability = STORAGE_SESSIONS, at_version = STORAGE_SESSIONS_VERSION,
     at_name = lit ''storage'', at_code = storage_plugin_error_code, at_show = show_storage_plugin_error t,
     at_panics = (\<lambda>e. False)\<rparr>"

definition storage_answer ::
  "'v storage_serde \<Rightarrow> 'v storage_env \<Rightarrow> 'v invocation_request \<Rightarrow> session_world \<Rightarrow>
   ('v, storage_plugin_error) reply \<times> session_world" where
  "storage_answer j env = answer_request (storage_texts (sv_show env)) (storage_dispatch j env)"

definition storage_errors :: "storage_plugin_error plugin_errors" where
  "storage_errors = \<lparr>pe_capability = SpCapability, pe_protocol = SpProtocol, pe_unexpected = SpUnexpectedHostMessage\<rparr>"

definition run_storage_plugin ::
  "'v storage_serde \<Rightarrow> 'v storage_env \<Rightarrow> rstring \<Rightarrow> ('v host_message \<Rightarrow> rstring) \<Rightarrow> 'v connect_env \<Rightarrow> 'v script \<Rightarrow>
   session_world \<Rightarrow> storage_plugin_error plugin_end \<times> 'v plugin_message list \<times> session_world" where
  "run_storage_plugin j env version debug cenv =
     run_plugin storage_errors [(STORAGE_SESSIONS, STORAGE_SESSIONS_VERSION)]
       (\<lambda>caps. fst (connect_plugin STORAGE_PLUGIN_ID (lit ''Persistent conversation sessions'') version caps debug cenv))
       (storage_answer j env)"

interpretation storage_plugin: answering "storage_answer j env"
  unfolding storage_answer_def
  by (rule answer_request_id) (auto simp: storage_dispatch_def Let_def split: if_splits dest: typed_call_id)

end
