(* ===== verification/Session_Store_Props.thy ===== *)
theory Session_Store_Props
  imports Session_Store
begin

text \<open>
  What the readers of the session files find in a state of the disk, and what saving a session leaves there, at
  every moment and whatever the operating system answers.
\<close>

section \<open>What is stored\<close>

fun node_bytes :: "node option \<Rightarrow> u8 list option" where
  "node_bytes (Some (FileNode c)) = Some c"
| "node_bytes n = None"

definition file_at :: "files \<Rightarrow> path \<Rightarrow> u8 list option" where
  "file_at f p = node_bytes (f p)"

definition first_bytes :: "node option \<Rightarrow> node option \<Rightarrow> u8 list option" where
  "first_bytes a b = (case node_bytes a of Some c \<Rightarrow> Some c | None \<Rightarrow> node_bytes b)"

definition small_file :: "u8 list option \<Rightarrow> u8 list option" where
  "small_file x = (case x of Some c \<Rightarrow> if length c \<le> MAX_SESSION_FILE_BYTES then Some c else None | None \<Rightarrow> None)"

definition session_content :: "files \<Rightarrow> path \<Rightarrow> u8 list option" where
  "session_content f p = first_bytes (f p) (f (backup_path p))"

definition parsed_session :: "'v storage_env \<Rightarrow> u8 list \<Rightarrow> 'v stored_session option" where
  "parsed_session env c =
     (case sv_parse env c of Inr s \<Rightarrow> if validate_session s = Inr () then Some s else None | Inl e \<Rightarrow> None)"

definition session_at :: "'v storage_env \<Rightarrow> storage_store \<Rightarrow> files \<Rightarrow> rstring \<Rightarrow> 'v stored_session option" where
  "session_at env st f i = Option.bind (small_file (session_content f (session_path (so_next st) i))) (parsed_session env)"

definition legacy_at :: "'v storage_env \<Rightarrow> path \<Rightarrow> files \<Rightarrow> rstring \<Rightarrow> 'v stored_session option" where
  "legacy_at env dir f i = Option.bind (small_file (file_at f (session_path dir i)))
     (\<lambda>c. case decode_legacy env (session_path dir i) c of Inr s \<Rightarrow> Some s | Inl e \<Rightarrow> None)"

text \<open>The session a request names, and whether it is one of the predecessor's.\<close>

definition named_session :: "'v storage_env \<Rightarrow> storage_store \<Rightarrow> files \<Rightarrow> rstring \<Rightarrow> ('v stored_session \<times> bool) option" where
  "named_session env st f i =
     (case session_at env st f i of
        Some s \<Rightarrow> Some (s, False)
      | None \<Rightarrow> Option.bind (so_legacy st) (\<lambda>dir. map_option (\<lambda>s. (s, True)) (legacy_at env dir f i)))"

lemma decode_session_Inr: "decode_session env p c = Inr s \<longleftrightarrow> parsed_session env c = Some s"
  by (auto simp: decode_session_def parsed_session_def res_bind_Inr map_err_Inr split: sum.splits)

section \<open>Reading, whatever the operating system answers\<close>

lemma wp_read_bounded:
  assumes "\<And>e. Q (Inl e) f" "file_at f p = None \<Longrightarrow> Q (Inr None) f"
    and "\<And>c. file_at f p = Some c \<Longrightarrow> length c \<le> MAX_SESSION_FILE_BYTES \<Longrightarrow> Q (Inr (Some c)) f"
  shows "wp I (storage_read_bounded p) Q f"
proof (rule wp_on_metadata [where p = p and k = "\<lambda>r. case r of
      Inl IoNotFound \<Rightarrow> ret None
    | Inl e \<Rightarrow> throw (SgIo p e)
    | Inr DirNode \<Rightarrow> ret None
    | Inr (FileNode c) \<Rightarrow>
        if MAX_SESSION_FILE_BYTES < length c then throw (SgFileTooLarge p MAX_SESSION_FILE_BYTES)
        else act_bind (act_map_err (SgIo p) (fs_read p)) (\<lambda>content. ret (Some content))"])
  show "storage_read_bounded p d = (case fs_metadata p d of (r, d') \<Rightarrow> (case r of
      Inl IoNotFound \<Rightarrow> ret None
    | Inl e \<Rightarrow> throw (SgIo p e)
    | Inr DirNode \<Rightarrow> ret None
    | Inr (FileNode c) \<Rightarrow>
        if MAX_SESSION_FILE_BYTES < length c then throw (SgFileTooLarge p MAX_SESSION_FILE_BYTES)
        else act_bind (act_map_err (SgIo p) (fs_read p)) (\<lambda>content. ret (Some content))) d')" for d
    by (auto simp: storage_read_bounded_def ret_def throw_def split: prod.splits sum.splits io_error.splits node.splits)
  show "wp I (case Inr n of
      Inl IoNotFound \<Rightarrow> ret None
    | Inl e \<Rightarrow> throw (SgIo p e)
    | Inr DirNode \<Rightarrow> ret None
    | Inr (FileNode c) \<Rightarrow>
        if MAX_SESSION_FILE_BYTES < length c then throw (SgFileTooLarge p MAX_SESSION_FILE_BYTES)
        else act_bind (act_map_err (SgIo p) (fs_read p)) (\<lambda>content. ret (Some content))) Q f" if "f p = Some n" for n
    using assms that by (cases n) (auto intro!: wp_rules simp: file_at_def split: sum.splits)
qed (use assms in \<open>auto intro!: wp_rules simp: file_at_def\<close>)

lemma wp_read_next:
  assumes "\<And>e. Q (Inl e) f" "session_content f p = None \<Longrightarrow> Q (Inr None) f"
    and "\<And>s. Option.bind (small_file (session_content f p)) (parsed_session env) = Some s \<Longrightarrow> Q (Inr (Some s)) f"
  shows "wp I (read_next_record env p) Q f"
  unfolding read_next_record_def
  by (intro wp_bind wp_read_bounded)
    (auto simp: session_content_def first_bytes_def file_at_def small_file_def decode_session_Inr assms(1)
      intro!: wp_bind wp_read_bounded wp_lift_res wp_ret assms(2,3) split: sum.splits)

lemma wp_read_legacy:
  assumes "\<And>e. Q (Inl e) f" "Q (Inr None) f" "\<And>s. legacy_at env dir f i = Some s \<Longrightarrow> Q (Inr (Some s)) f"
  shows "wp I (read_legacy_record env (session_path dir i)) Q f"
  unfolding read_legacy_record_def
  by (intro wp_bind wp_read_bounded)
    (auto simp: legacy_at_def small_file_def assms(1,2) intro!: wp_bind wp_lift_res wp_ret assms(3) split: sum.splits)

lemma wp_load_record:
  assumes "\<And>e. Q (Inl e) f" "Q (Inr None) f"
    and "\<And>s legacy. validate_session_id i = Inr () \<Longrightarrow> named_session env st f i = Some (s, legacy) \<Longrightarrow> Q (Inr (Some (s, legacy))) f"
  shows "wp I (load_record env st i) Q f"
proof (cases "validate_session_id i")
  case (Inl e)
  then show ?thesis using assms(1) by (auto simp: load_record_def intro!: wp_then wp_lift_res)
next
  case (Inr u)
  have old: "wp I (act_bind (read_legacy_record env (session_path dir i)) (\<lambda>old. ret (map_option (\<lambda>s. (s, True)) old))) Q f"
    if "session_at env st f i = None" "so_legacy st = Some dir" for dir
    by (intro wp_bind wp_read_legacy)
      (use that Inr in \<open>auto simp: named_session_def assms(1,2) intro!: wp_ret assms(3)\<close>)
  show ?thesis
    unfolding load_record_def
    by (rule wp_then, rule wp_lift_res, simp add: Inr, rule wp_bind, rule wp_read_next)
      (use Inr in \<open>auto simp: session_at_def named_session_def small_file_def assms(1,2)
        intro!: wp_ret assms(3) old split: option.splits\<close>)
qed

section \<open>Saving\<close>

definition storage_codec :: "'v storage_env \<Rightarrow> bool" where
  "storage_codec env \<longleftrightarrow> (\<forall>s c. sv_print env s = Inr c \<longrightarrow> sv_parse env c = Inr s)"

text \<open>Every session is as it was, but one, which may be the given one instead, and no file outside the directory of
  the sessions changed; only directories above it were made.\<close>

definition outside_kept :: "path \<Rightarrow> files \<Rightarrow> files \<Rightarrow> bool" where
  "outside_kept dir f g \<longleftrightarrow>
     (\<forall>q. g q = f q \<or> (\<exists>n. q = dir @ [n]) \<or> (prefix q dir \<and> \<not> is_file (f q) \<and> g q = Some DirNode))"

definition one_replaced :: "'v storage_env \<Rightarrow> storage_store \<Rightarrow> 'v stored_session \<Rightarrow> files \<Rightarrow> files \<Rightarrow> bool" where
  "one_replaced env st s f g \<longleftrightarrow> outside_kept (so_next st) f g \<and>
     (\<forall>i. validate_session_id i = Inr () \<longrightarrow>
        session_at env st g i = session_at env st f i \<or> (i = st_id s \<and> session_at env st g i = Some s))"

definition none_replaced :: "'v storage_env \<Rightarrow> storage_store \<Rightarrow> files \<Rightarrow> files \<Rightarrow> bool" where
  "none_replaced env st f g \<longleftrightarrow> outside_kept (so_next st) f g \<and>
     (\<forall>i. validate_session_id i = Inr () \<longrightarrow> session_at env st g i = session_at env st f i)"

lemma none_replaced_refl: "none_replaced env st f f"
  by (simp add: none_replaced_def outside_kept_def)

lemma none_one_replaced: "none_replaced env st f g \<Longrightarrow> one_replaced env st s f g"
  by (simp add: none_replaced_def one_replaced_def)

lemma session_id_path:
  assumes "validate_session_id i = Inr ()"
  shows "json_path dir (session_path dir i)"
proof -
  have i: "i \<noteq> []" using assms by (auto simp: validate_session_id_def)
  have "list_all session_id_char i" using assms by (auto simp: validate_session_id_def split: if_splits)
  then have "session_id_char (hd i)" using i by (cases i) auto
  then have "hd i \<noteq> dot"
    by (auto simp: session_id_char_def dot_def ch_def is_ascii_alphanumeric_def is_ascii_lowercase_def is_ascii_uppercase_def
        is_ascii_digit_def)
  then show ?thesis using i by (auto simp: json_path_def session_path_def path_join_def)
qed

lemma first_bytes_simps [simp]:
  "first_bytes None b = node_bytes b" "first_bytes (Some (FileNode c)) b = Some c" "first_bytes a None = node_bytes a"
  by (simp_all add: first_bytes_def split: option.split)

lemma node_written:
  assumes "a = None \<or> b = None" "a \<noteq> Some DirNode" "b \<noteq> Some DirNode"
    and "{a', b'} \<subseteq> {a, b, Some (FileNode c), None}"
    and "(case a' of Some n \<Rightarrow> Some n | None \<Rightarrow> b') = (case a of Some n \<Rightarrow> Some n | None \<Rightarrow> b) \<or>
      (case a' of Some n \<Rightarrow> Some n | None \<Rightarrow> b') = Some (FileNode c)"
  shows "first_bytes a' b' = first_bytes a b \<or> first_bytes a' b' = Some c"
proof -
  have pick: "first_bytes x y = node_bytes (case x of Some n \<Rightarrow> Some n | None \<Rightarrow> y)" if "x \<noteq> Some DirNode" for x y
    using that by (cases x rule: node_bytes.cases) simp_all
  have "a' \<noteq> Some DirNode" using assms(2-4) by auto
  then show ?thesis using assms(5) pick [OF assms(2)] pick [of a' b'] by auto
qed

definition lone_session :: "path \<Rightarrow> files \<Rightarrow> bool" where
  "lone_session p f \<longleftrightarrow> lone_file p f \<and> f p \<noteq> Some DirNode \<and> f (backup_path p) \<noteq> Some DirNode"

definition lone_sessions :: "storage_store \<Rightarrow> files \<Rightarrow> bool" where
  "lone_sessions st f \<longleftrightarrow> (\<forall>i. lone_session (session_path (so_next st) i) f)"

lemma content_written:
  assumes "lone_session p f" "written dir p content f g"
  shows "session_content g p = session_content f p \<or> session_content g p = Some content"
  unfolding session_content_def
  by (rule node_written) (use assms in \<open>auto simp: lone_session_def lone_file_def written_def keeps_def seen_def\<close>)

lemma content_unwritten:
  assumes "lone_session p f" "write_result dir p content f (Inl e) g"
  shows "session_content g p = session_content f p"
proof -
  have "seen p (backup_path p) g = seen p (backup_path p) f" "{g p, g (backup_path p)} \<subseteq> {f p, f (backup_path p), None}"
    using assms by (auto simp: lone_session_def lone_file_def)
  moreover have pick: "first_bytes x y = node_bytes (case x of Some n \<Rightarrow> Some n | None \<Rightarrow> y)" if "x \<noteq> Some DirNode" for x y
    using that by (cases x rule: node_bytes.cases) simp_all
  moreover have "g p \<noteq> Some DirNode" "f p \<noteq> Some DirNode" using assms(1) calculation(2) by (auto simp: lone_session_def)
  ultimately show ?thesis by (simp add: session_content_def seen_def)
qed

text \<open>A replacement touches nothing outside the directory.\<close>

lemma swapped_outside: "swapped (dir @ [n]) (dir @ [t]) (dir @ [m]) c f g \<Longrightarrow> outside_kept dir f g"
  by (auto simp: swapped_def outside_kept_def)

lemma wp_both:
  fixes m :: "('w disk_scheme, 'e, 'a) act"
  assumes "wp I m Q f" "wp J m R f"
  shows "wp (\<lambda>g. I g \<and> J g) m (\<lambda>r g. Q r g \<and> R r g) f"
  unfolding wp_def
proof (intro allI impI)
  fix d :: "'w disk_scheme"
  assume d: "dk_files d = f"
  obtain fs where fs: "dk_past (snd (m d)) = dk_past d @ fs" "dk_files (snd (m d)) = last (dk_files d # fs)" "\<forall>x \<in> set fs. I x"
    using assms(1) d by (auto simp: wp_def passes_def)
  obtain gs where gs: "dk_past (snd (m d)) = dk_past d @ gs" "\<forall>x \<in> set gs. J x"
    using assms(2) d by (auto simp: wp_def passes_def)
  have "fs = gs" using fs(1) gs(1) by simp
  then have "passes (\<lambda>g. I g \<and> J g) d (snd (m d))" using fs gs unfolding passes_def by blast
  then show "passes (\<lambda>g. I g \<and> J g) d (snd (m d)) \<and>
      Q (fst (m d)) (dk_files (snd (m d))) \<and> R (fst (m d)) (dk_files (snd (m d)))"
    using assms d by (simp add: wp_def)
qed

lemma session_temporary:
  "session_temporary n u \<noteq> []" "hd (session_temporary n u) = dot" "suffix (lit ''.tmp'') (session_temporary n u)"
  by (simp_all add: session_temporary_def lit_def dot_def ch_def suffix_def)

lemma wp_session_replace:
  assumes "json_path dir p"
  shows "wp (\<lambda>g. written dir p content f g \<and> outside_kept dir f g) (session_replace_file env p content)
    (\<lambda>r g. write_result dir p content f r g \<and> outside_kept dir f g) f"
proof -
  note t = session_temporary
  obtain n m where p: "n \<noteq> []" "hd n \<noteq> dot" "p = dir @ [n]" "m \<noteq> []" "hd m \<noteq> dot" "backup_path p = dir @ [m]" "n \<noteq> m"
    using assms by (rule json_names)
  have outside: "wp (outside_kept dir f) (swap_file p (dir @ [session_temporary k u]) (backup_path p) content)
      (\<lambda>r. outside_kept dir f) f" for k u
  proof (rule wp_weaken [OF wp_swap_file])
    show "p \<noteq> backup_path p" "dir @ [session_temporary k u] \<noteq> p" "dir @ [session_temporary k u] \<noteq> backup_path p"
      using p t [of k u] unfolding p(6) unfolding p(3) by auto
    show "outside_kept dir f g" if "swapped p (dir @ [session_temporary k u]) (backup_path p) content f g" for g
      using that unfolding p(6) unfolding p(3) by (rule swapped_outside)
    then show "outside_kept dir f g" if "swap_result p (dir @ [session_temporary k u]) (backup_path p) content f r g" for r g
      using that by (cases r) auto
  qed
  show ?thesis
    unfolding session_replace_file_def json_path_parent [OF assms] option.case path_join_def
    by (auto intro!: wp_bind wp_sys_nanos wp_map_err wp_mono [OF wp_both [OF wp_replace_json [OF assms t] outside]]
        simp del: write_result.simps)
qed

lemma outside_directories:
  assumes "outside_kept dir (with_directories dir f) g" "\<And>q c. prefix q dir \<Longrightarrow> f q \<noteq> Some (FileNode c)"
  shows "outside_kept dir f g"
  unfolding outside_kept_def
proof
  fix q
  have "\<not> is_file (f q)" if "prefix q dir" using assms(2) that by (auto simp: is_file_iff)
  then show "g q = f q \<or> (\<exists>n. q = dir @ [n]) \<or> (prefix q dir \<and> \<not> is_file (f q) \<and> g q = Some DirNode)"
    using assms(1) [unfolded outside_kept_def, rule_format, of q] by (cases "prefix q dir") (auto simp: with_directories_def)
qed

lemma outside_with_directories:
  "(\<And>q c. prefix q dir \<Longrightarrow> f q \<noteq> Some (FileNode c)) \<Longrightarrow> outside_kept dir f (with_directories dir f)"
  by (rule outside_directories) (simp add: outside_kept_def)

lemma wp_directories_made:
  assumes "\<And>e. Q (Inl e) f"
    and "(\<And>q c. prefix q dir \<Longrightarrow> f q \<noteq> Some (FileNode c)) \<Longrightarrow> I (with_directories dir f) \<and> Q (Inr ()) (with_directories dir f)"
  shows "wp I (fs_create_dir_all dir) Q f"
  by (rule wp_create_dir_all) (use assms in \<open>auto simp: with_directories_def in_set_prefixes\<close>)

lemma session_at_cong:
  assumes "g (session_path (so_next st) i) = f (session_path (so_next st) i)"
    and "g (backup_path (session_path (so_next st) i)) = f (backup_path (session_path (so_next st) i))"
  shows "session_at env st g i = session_at env st f i"
  using assms by (simp add: session_at_def session_content_def)

lemma session_at_directories:
  "validate_session_id i = Inr () \<Longrightarrow> session_at env st (with_directories (so_next st) f) i = session_at env st f i"
  by (intro session_at_cong with_directories_json session_id_path)

lemma other_session_kept:
  assumes "written (so_next st) (session_path (so_next st) j) c f g"
    and "validate_session_id i = Inr ()" "validate_session_id j = Inr ()" "i \<noteq> j"
  shows "session_at env st g i = session_at env st f i"
proof -
  let ?p = "session_path (so_next st) i" and ?q = "session_path (so_next st) j"
  note p = session_id_path [OF assms(2), of "so_next st"] and q = session_id_path [OF assms(3), of "so_next st"]
  obtain n m where n: "n \<noteq> []" "hd n \<noteq> dot" "?p = so_next st @ [n]" "m \<noteq> []" "hd m \<noteq> dot" "backup_path ?p = so_next st @ [m]"
    using p by (rule json_names) blast
  have "?p \<noteq> ?q" using assms(4) by (simp add: session_path_def path_join_def)
  then have "{?p, backup_path ?p} \<inter> {?q, backup_path ?q} = {}"
    using json_paths_apart(1) [OF p q] json_paths_apart(1) [OF q p] json_paths_apart(2) [OF p q] by auto
  then have apart: "so_next st @ [n] \<notin> {?q, backup_path ?q}" "so_next st @ [m] \<notin> {?q, backup_path ?q}"
    using n(3,6) by auto
  have kept: "kept_name n" "kept_name m" using n by (simp_all add: kept_name_def)
  have "\<forall>x. kept_name x \<longrightarrow> so_next st @ [x] \<notin> {?q, backup_path ?q} \<longrightarrow> g (so_next st @ [x]) = f (so_next st @ [x])"
    using assms(1) unfolding written_def by blast
  then have "g (so_next st @ [n]) = f (so_next st @ [n])" "g (so_next st @ [m]) = f (so_next st @ [m])"
    using kept apart by blast+
  then have "g ?p = f ?p" "g (backup_path ?p) = f (backup_path ?p)" unfolding n(6) unfolding n(3) by blast+
  then show ?thesis by (rule session_at_cong)
qed

lemma saved_session:
  assumes "storage_codec env" "validate_session s = Inr ()" "sv_print env s = Inr c" "length c \<le> MAX_SESSION_FILE_BYTES"
    and "session_content g (session_path (so_next st) (st_id s)) = Some c"
  shows "session_at env st g (st_id s) = Some s"
  using assms by (simp add: session_at_def small_file_def parsed_session_def storage_codec_def)

lemma valid_session_id: "validate_session s = Inr () \<Longrightarrow> validate_session_id (st_id s) = Inr ()"
  by (auto simp: validate_session_def res_bind_Inr split: if_splits)

text \<open>What a save leaves, whatever happens during it.\<close>

fun save_outcome ::
  "'v storage_env \<Rightarrow> storage_store \<Rightarrow> 'v stored_session \<Rightarrow> files \<Rightarrow> (storage_error, unit) res \<Rightarrow> files \<Rightarrow> bool" where
  "save_outcome env st s f (Inl e) g \<longleftrightarrow> none_replaced env st f g"
| "save_outcome env st s f (Inr u) g \<longleftrightarrow> one_replaced env st s f g \<and> session_at env st g (st_id s) = Some s"

lemma wp_save_session:
  assumes "storage_codec env" "lone_sessions st f"
  shows "wp (one_replaced env st s f) (save_session env st s) (save_outcome env st s f) f"
proof (cases "validate_session s")
  case (Inl e)
  then show ?thesis by (auto simp: save_session_def none_replaced_refl intro!: wp_then wp_lift_res)
next
  case (Inr u)
  let ?dir = "so_next st" and ?p = "session_path (so_next st) (st_id s)" and ?f = "with_directories (so_next st) f"
  have valid: "validate_session s = Inr ()" using Inr by simp
  note ident = valid_session_id [OF valid]
  note p = session_id_path [OF ident, of ?dir]
  have lone: "lone_session ?p ?f"
    using assms(2) with_directories_json [OF p, of f] by (simp add: lone_sessions_def lone_session_def lone_file_def)
  have replaced: "one_replaced env st s f g \<and> (is_ok r \<longrightarrow> session_at env st g (st_id s) = Some s) \<and>
      (\<not> is_ok r \<longrightarrow> write_result ?dir ?p c ?f r g \<longrightarrow> none_replaced env st f g)"
    if "written ?dir ?p c ?f g" "outside_kept ?dir ?f g" "sv_print env s = Inr c" "length c \<le> MAX_SESSION_FILE_BYTES"
      and free: "\<And>q b. prefix q ?dir \<Longrightarrow> f q \<noteq> Some (FileNode b)"
      and r: "is_ok r \<Longrightarrow> g ?p = Some (FileNode c)" for c g and r :: "(storage_error, unit) res"
  proof -
    note out = outside_directories [OF that(2) free]
    have others: "session_at env st g i = session_at env st f i" if "validate_session_id i = Inr ()" "i \<noteq> st_id s" for i
      using other_session_kept [OF \<open>written ?dir ?p c ?f g\<close> that(1) ident that(2)] session_at_directories [OF that(1)] by metis
    have "session_content g ?p = session_content ?f ?p \<or> session_content g ?p = Some c"
      by (rule content_written [OF lone that(1)])
    then have here: "session_at env st g (st_id s) = session_at env st f (st_id s) \<or> session_at env st g (st_id s) = Some s"
      using saved_session [OF assms(1) valid that(3,4)] session_at_directories [OF ident, of env st f]
      by (auto simp: session_at_def)
    have "session_at env st g (st_id s) = Some s" if "is_ok r"
      using saved_session [OF assms(1) valid \<open>sv_print env s = Inr c\<close> \<open>length c \<le> _\<close>] r [OF that] by (simp add: session_content_def)
    moreover have "none_replaced env st f g" if "\<not> is_ok r" "write_result ?dir ?p c ?f r g"
    proof -
      have "session_content g ?p = session_content ?f ?p" using content_unwritten [OF lone, of ?dir c] that by (cases r) auto
      then have "session_at env st g (st_id s) = session_at env st f (st_id s)"
        using session_at_directories [OF ident, of env st f] by (simp add: session_at_def)
      then show ?thesis using others out unfolding none_replaced_def by metis
    qed
    ultimately show ?thesis using others here out unfolding one_replaced_def by metis
  qed
  have save: "wp (one_replaced env st s f) (session_replace_file env ?p c) (save_outcome env st s f) ?f"
    if c: "sv_print env s = Inr c" "length c \<le> MAX_SESSION_FILE_BYTES" and free: "\<And>q b. prefix q ?dir \<Longrightarrow> f q \<noteq> Some (FileNode b)" for c
  proof (rule wp_weaken [OF wp_session_replace [OF p]])
    show "one_replaced env st s f g" if "written ?dir ?p c ?f g \<and> outside_kept ?dir ?f g" for g
      using replaced [of c g "Inl SgWriteNotGranted"] that c free by simp
    show "save_outcome env st s f r g" if "write_result ?dir ?p c ?f r g \<and> outside_kept ?dir ?f g" for r g
      using replaced [of c g r] write_result_written [of ?dir ?p c ?f r g] that c free by (cases r) auto
  qed
  have dirs: "none_replaced env st f ?f" if "\<And>q b. prefix q ?dir \<Longrightarrow> f q \<noteq> Some (FileNode b)"
    using outside_with_directories [of ?dir f] that by (simp add: none_replaced_def session_at_directories)
  show ?thesis
    unfolding save_session_def
    by (rule wp_then, rule wp_lift_res)
      (auto simp: valid none_replaced_refl split: sum.splits intro!: wp_then wp_map_err wp_directories_made wp_bind wp_lift_res
        wp_if wp_throw save dirs none_one_replaced split del: if_split)
qed

end
