(* ===== verification/Session_Store_Claims.thy ===== *)
theory Session_Store_Claims
  imports Session_Store_Props
begin

text \<open>
  The properties of the session store: a request replaces at most one session, whole and by what the request
  asks for, at every moment of the disk; what it answers is loaded later; and what happens when two processes
  draw the same session id.
\<close>

section \<open>The requests that write\<close>

datatype session_request =
    SrCreate session_create_request
  | SrAppend session_append_request
  | SrMutate session_mutation_request

fun serve_session :: "'v storage_env \<Rightarrow> storage_store \<Rightarrow> session_request \<Rightarrow> 'v session_snapshot option st_act" where
  "serve_session env st (SrCreate q) = act_bind (storage_create env st q) (\<lambda>s. ret (Some s))"
| "serve_session env st (SrAppend q) = act_bind (storage_append env st q) (\<lambda>s. ret (Some s))"
| "serve_session env st (SrMutate q) = act_bind (storage_mutate env st q) (\<lambda>x. ret (mx_session x))"

text \<open>What a request makes of the sessions stored: a conversation is only ever extended, and keeps its id unless it is
  forked or imported from the predecessor's.\<close>

fun derived_session :: "'v storage_env \<Rightarrow> storage_store \<Rightarrow> files \<Rightarrow> session_request \<Rightarrow> 'v stored_session \<Rightarrow> bool" where
  "derived_session env st f (SrCreate q) s \<longleftrightarrow> st_messages s = []"
| "derived_session env st f (SrAppend q) s \<longleftrightarrow>
     (case aq_session q of
        None \<Rightarrow> st_messages s = [message_user (aq_user q), message_assistant (aq_assistant q)]
      | Some i \<Rightarrow> (\<exists>old legacy. named_session env st f i = Some (old, legacy) \<and>
          st_messages s = st_messages old @ [message_user (aq_user q), message_assistant (aq_assistant q)] \<and>
          (st_id s = st_id old \<or> legacy \<and> st_parent s = Some (st_id old))))"
| "derived_session env st f (SrMutate q) s \<longleftrightarrow>
     (\<exists>old legacy. named_session env st f (mq_session q) = Some (old, legacy) \<and> st_messages s = st_messages old \<and>
        (st_id s = st_id old \<and> \<not> legacy \<and> mq_mutation q \<noteq> MutFork \<or>
         st_parent s = Some (st_id old) \<and> mq_mutation q = MutFork))"

definition request_moment :: "'v storage_env \<Rightarrow> storage_store \<Rightarrow> files \<Rightarrow> session_request \<Rightarrow> files \<Rightarrow> bool" where
  "request_moment env st f rq g \<longleftrightarrow>
     none_replaced env st f g \<or> (\<exists>s. derived_session env st f rq s \<and> one_replaced env st s f g)"

fun request_outcome ::
  "'v storage_env \<Rightarrow> storage_store \<Rightarrow> files \<Rightarrow> session_request \<Rightarrow> (storage_error, 'v session_snapshot option) res \<Rightarrow> files \<Rightarrow> bool" where
  "request_outcome env st f rq (Inl e) g \<longleftrightarrow> none_replaced env st f g"
| "request_outcome env st f rq (Inr None) g \<longleftrightarrow> none_replaced env st f g"
| "request_outcome env st f rq (Inr (Some snap)) g \<longleftrightarrow>
     (\<exists>s. derived_session env st f rq s \<and> snap = session_snapshot False s \<and> one_replaced env st s f g \<and>
        session_at env st g (st_id s) = Some s)"

lemma request_outcome_saved:
  "derived_session env st f rq s \<Longrightarrow> one_replaced env st s f g \<Longrightarrow> session_at env st g (st_id s) = Some s \<Longrightarrow>
   request_outcome env st f rq (Inr (Some (session_snapshot False s))) g"
  by auto

declare request_outcome.simps(3) [simp del]

lemma fresh_session_simps [simp]: "st_messages (fresh_session cwd i ms t now) = ms"
  by (simp add: fresh_session_def)

lemma wp_save_reply:
  assumes "storage_codec env" "lone_sessions st f" "derived_session env st f rq s"
    and "\<And>e g. none_replaced env st f g \<Longrightarrow> Q (Inl e) g"
    and "\<And>g. one_replaced env st s f g \<Longrightarrow> session_at env st g (st_id s) = Some s \<Longrightarrow> Q (Inr x) g"
  shows "wp (request_moment env st f rq) (act_then (save_session env st s) (ret x)) Q f"
proof (intro wp_then, rule wp_weaken [OF wp_save_session [OF assms(1,2)]])
  show "request_moment env st f rq g" if "one_replaced env st s f g" for g
    using that assms(3) by (auto simp: request_moment_def)
  show "case r of Inl e \<Rightarrow> Q (Inl e) g | Inr y \<Rightarrow> wp (request_moment env st f rq) (ret x) Q g"
    if "save_outcome env st s f r g" for r g
    using that assms(4,5) by (cases r) (auto intro!: wp_ret)
qed

lemma wp_generate_session_id [wp_rules]: "(\<And>i. Q (Inr i) f) \<Longrightarrow> wp I (generate_session_id now) Q f"
  by (simp add: wp_def generate_session_id_def passes_def)

lemma set_provider_model_keeps [simp]:
  "st_messages (set_provider_model p m s) = st_messages s" "st_id (set_provider_model p m s) = st_id s"
  "st_parent (set_provider_model p m s) = st_parent s"
  by (simp_all add: set_provider_model_def)

lemma wp_session_extend:
  assumes "\<And>e. Q (Inl e) f"
    and "\<And>s'. st_messages s' = st_messages s @ [message_user u, message_assistant a] \<Longrightarrow> st_id s' = st_id s \<Longrightarrow>
      st_parent s' = st_parent s \<Longrightarrow> Q (Inr s') f"
  shows "wp I (session_extend u a p m s) Q f"
  unfolding session_extend_def
  by (intro wp_if wp_throw wp_bind wp_now_millis) (auto intro!: assms wp_ret)

lemma wp_successor:
  assumes "\<And>s'. st_messages s' = st_messages s \<Longrightarrow> st_parent s' = Some (st_id s) \<Longrightarrow> Q (Inr s') f"
  shows "wp I (successor_session t s) Q f"
  unfolding successor_session_def
  by (intro wp_bind wp_now_millis) (auto intro!: assms wp_ret wp_bind wp_generate_session_id)

lemma wp_fresh:
  assumes "\<And>e. Q (Inl e) f"
    and "\<And>i now. Q (Inr (fresh_session cwd i [] (lit ''untitled session'') now)) f"
  shows "wp I (session_empty cwd) Q f"
  unfolding session_empty_def Let_def
  by (intro wp_bind wp_now_millis) (auto intro!: assms wp_bind wp_generate_session_id wp_then wp_lift_res wp_ret split: sum.split)

lemma wp_session_new:
  assumes "\<And>e. Q (Inl e) f"
    and "\<And>i now. Q (Inr (fresh_session cwd i [message_user u, message_assistant a] (preview_title u) now)) f"
  shows "wp I (session_new cwd u a) Q f"
  unfolding session_new_def Let_def
  by (intro wp_bind wp_now_millis) (auto intro!: assms wp_bind wp_generate_session_id wp_then wp_lift_res wp_ret split: sum.split)

lemma wp_mutated:
  assumes "\<And>s'. st_messages s' = st_messages s \<Longrightarrow>
      (m \<noteq> MutFork \<Longrightarrow> st_id s' = st_id s) \<Longrightarrow> (m = MutFork \<Longrightarrow> st_parent s' = Some (st_id s)) \<Longrightarrow> Q (Inr s') f"
  shows "wp I (mutated_session legacy m s) Q f"
  unfolding mutated_session_def set_archived_def set_pinned_def import_from_legacy_def fork_session_def
  by (cases m) (auto intro!: wp_bind wp_now_millis wp_ret wp_successor assms)

lemma wp_serve_session:
  assumes "storage_codec env" "lone_sessions st f"
  shows "wp (request_moment env st f rq) (serve_session env st rq) (request_outcome env st f rq) f"
proof -
  note save = wp_save_reply [OF assms]
  have writable: "wp I (lift_res (storage_require_write st)) Q f" if "\<And>e. Q (Inl e) f" "Q (Inr ()) f" for I Q
    using that by (cases "storage_require_write st") (auto intro!: wp_lift_res)
  show ?thesis
  proof (cases rq)
    case (SrCreate q)
    show ?thesis
      unfolding SrCreate serve_session.simps storage_create_def
      by (intro wp_bind wp_then writable)
        (auto simp: none_replaced_refl intro!: request_outcome_saved wp_bind wp_map_err wp_fresh save wp_ret)
  next
    case (SrMutate q)
    show ?thesis
      unfolding SrMutate serve_session.simps storage_mutate_def
      by (rule wp_bind, rule wp_then, rule writable, simp add: none_replaced_refl, simp, rule wp_bind, rule wp_load_record)
        (auto simp: none_replaced_refl ex_bool_eq intro!: request_outcome_saved wp_ret wp_if wp_throw wp_bind wp_mutated save)
  next
    case (SrAppend q)
    show ?thesis
    proof (cases "aq_session q")
      case None
      show ?thesis
        unfolding SrAppend serve_session.simps storage_append_def None option.case
        by (intro wp_bind wp_then writable)
          (auto simp: none_replaced_refl None intro!: request_outcome_saved wp_bind wp_map_err wp_session_new save wp_ret)
    next
      case (Some i)
      show ?thesis
        unfolding SrAppend serve_session.simps storage_append_def Some option.case
        by (rule wp_bind, rule wp_then, rule writable, simp add: none_replaced_refl, simp, rule wp_bind, rule wp_bind, rule wp_load_record)
          (auto simp: none_replaced_refl Some import_from_legacy_def ex_bool_eq split: bool.split
            intro!: request_outcome_saved wp_bind wp_ret wp_throw wp_successor wp_map_err wp_session_extend save)
    qed
  qed
qed

section \<open>Requests and the disk\<close>

text \<open>C14: A request to the session store changes at most one session, and that one as a whole: at every moment a crash or
  a failure could leave on the disk, each session that can be read is the one there was before or the one the request
  makes, which extends the conversation it was made from; no file outside the directory of the sessions changes, the
  predecessor's sessions among them. A failed request leaves every session as it was; an answer is the stored session.\<close>

theorem session_request_atomic:
  assumes "storage_codec env" "lone_sessions st (dk_files d)" "serve_session env st rq d = (r, d')"
  shows "(\<forall>g \<in> moments d d'. request_moment env st (dk_files d) rq g) \<and>
    request_outcome env st (dk_files d) rq r (dk_files d')"
  using wp_moments [OF wp_serve_session [OF assms(1,2)] assms(3)] wp_run [OF wp_serve_session [OF assms(1,2)] assms(3)]
  by blast

section \<open>Loading what was answered\<close>

lemma serving_read_bounded:
  assumes "serving d"
  shows "file_at (dk_files d) p = None \<Longrightarrow> storage_read_bounded p d = (Inr None, d)"
    and "file_at (dk_files d) p = Some c \<Longrightarrow> length c \<le> MAX_SESSION_FILE_BYTES \<Longrightarrow> storage_read_bounded p d = (Inr (Some c), d)"
  using assms
  by (auto simp: storage_read_bounded_def serving_metadata serving_read file_at_def act_bind_def act_map_err_def ret_def
      split: option.splits node.splits elim: node_bytes.elims)

lemma small_file_Some: "small_file x = Some c \<longleftrightarrow> x = Some c \<and> length c \<le> MAX_SESSION_FILE_BYTES"
  by (auto simp: small_file_def split: option.splits if_splits)

lemma serving_read_next:
  assumes "serving d" "Option.bind (small_file (session_content (dk_files d) p)) (parsed_session env) = Some s"
  shows "read_next_record env p d = (Inr (Some s), d)"
proof -
  obtain c where c: "session_content (dk_files d) p = Some c" "length c \<le> MAX_SESSION_FILE_BYTES" "parsed_session env c = Some s"
    using assms(2) by (auto simp: bind_eq_Some_conv small_file_Some)
  then have "decode_session env q c = Inr s" for q by (simp add: decode_session_Inr)
  then show ?thesis
    using c(1,2) serving_read_bounded [OF assms(1)]
    by (cases "file_at (dk_files d) p")
      (simp_all add: read_next_record_def act_bind_def lift_res_def ret_def session_content_def first_bytes_def file_at_def)
qed

lemma serving_load_session:
  assumes "serving d" "session_at env st (dk_files d) i = Some s" "validate_session_id i = Inr ()"
  shows "storage_load env st \<lparr>lo_grant = w, lo_session = i\<rparr> d = (Inr \<lparr>lx_session = Some (session_snapshot False s), lx_warnings = []\<rparr>, d)"
  using assms serving_read_next [OF assms(1), of "session_path (so_next st) i" env s]
  by (simp add: storage_load_def load_record_def act_then_def act_bind_def lift_res_def ret_def session_at_def)

lemma session_at_valid: "session_at env st f i = Some s \<Longrightarrow> validate_session s = Inr ()"
proof -
  assume "session_at env st f i = Some s"
  then obtain c where "parsed_session env c = Some s" by (auto simp: session_at_def bind_eq_Some_conv)
  then show ?thesis by (auto simp: parsed_session_def split: sum.splits if_splits)
qed

text \<open>C31: What a request answered is what a later load of that id gives, message for message.\<close>

theorem answered_session_is_loaded:
  assumes "storage_codec env" "lone_sessions st (dk_files d)" "serve_session env st rq d = (Inr (Some snap), d')"
    and "serving e" "dk_files e = dk_files d'"
  shows "storage_load env st \<lparr>lo_grant = w, lo_session = sn_id snap\<rparr> e = (Inr \<lparr>lx_session = Some snap, lx_warnings = []\<rparr>, e)"
proof -
  obtain s where s: "snap = session_snapshot False s" "session_at env st (dk_files d') (st_id s) = Some s"
    using wp_run [OF wp_serve_session [OF assms(1,2)] assms(3)] by (auto simp: request_outcome.simps(3))
  have "validate_session_id (st_id s) = Inr ()" using session_at_valid [OF s(2)] by (rule valid_session_id)
  then show ?thesis using serving_load_session [OF assms(4), of env st "st_id s" s] s assms(5)
    by (simp add: session_snapshot_def)
qed

section \<open>Two processes\<close>

text \<open>The id a process draws: the millisecond and how many it drew before.\<close>

definition drawn_id :: "session_world \<Rightarrow> rstring" where
  "drawn_id d = lit ''yn-'' @ show_nat (unat (of_nat ((case dk_clock d of [] \<Rightarrow> 0 | t # ts \<Rightarrow> t) div 1000000) :: u128)) @
     lit ''-'' @ show_nat (unat (sw_counter d))"

lemma append_draws_id:
  assumes "aq_session q = None" "storage_append env st q d = (Inr snap, d')"
  shows "sn_id snap = drawn_id d \<and> sn_messages snap = [message_user (aq_user q), message_assistant (aq_assistant q)]"
  using assms
  by (auto simp: storage_append_def act_then_def act_bind_def act_map_err_def lift_res_def session_new_def Let_def now_millis_def
      sys_nanos_def generate_session_id_def ret_def drawn_id_def session_snapshot_def set_provider_model_def fresh_session_def
      simp del: of_nat_unat split: prod.splits sum.splits option.splits list.splits)

text \<open>C32: A new session replaces one that is stored under the same id, whatever it holds: two processes that have each
  drawn as many ids and draw in the same millisecond write the same file, both report success, and the first
  conversation is lost.\<close>

theorem colliding_sessions_overwrite:
  assumes "storage_codec env" "lone_sessions st (dk_files d)" "lone_sessions st (dk_files e)"
    and "aq_session q = None" "storage_append env st q d = (Inr snap, d')"
    and "dk_files e = dk_files d'" "drawn_id e = drawn_id d"
    and "aq_session p = None" "storage_append env st p e = (Inr snap', e')"
    and "serving x" "dk_files x = dk_files e'"
  shows "storage_load env st \<lparr>lo_grant = w, lo_session = sn_id snap\<rparr> x = (Inr \<lparr>lx_session = Some snap', lx_warnings = []\<rparr>, x) \<and>
    sn_messages snap' = [message_user (aq_user p), message_assistant (aq_assistant p)]"
proof -
  have "serve_session env st (SrAppend p) e = (Inr (Some snap'), e')"
    using assms(9) by (simp add: act_bind_def ret_def)
  from answered_session_is_loaded [OF assms(1,3) this assms(10,11)]
  show ?thesis using append_draws_id [OF assms(4,5)] append_draws_id [OF assms(8,9)] assms(7) by simp
qed

section \<open>Concrete runs\<close>

definition desk_session :: "rstring \<Rightarrow> unit stored_session" where
  "desk_session u = fresh_session [lit ''w''] (lit ''yn-0-1'') [message_user u, message_assistant []] (preview_title u) 0"

definition desk_env :: "unit storage_env" where
  "desk_env = \<lparr>sv_canonicalize = Inr,
     sv_parse = (\<lambda>c. if c = [1] then Inr (desk_session (lit ''hi'')) else if c = [2] then Inr (desk_session (lit ''ho'')) else Inl []),
     sv_print = (\<lambda>s. if s = desk_session (lit ''hi'') then Inr [1] else if s = desk_session (lit ''ho'') then Inr [2] else Inl []),
     sv_value = (\<lambda>_. Inl []), sv_json = \<lparr>jx_object = (\<lambda>_. None), jx_str = (\<lambda>_. None), jx_u64 = (\<lambda>_. None), jx_bool = (\<lambda>_. None)\<rparr>,
     sv_path = (\<lambda>s. [s]), sv_pid = 7, sv_list = (\<lambda>f p. []), sv_show = \<lparr>pd_path = (\<lambda>_. []), pd_io = (\<lambda>_. [])\<rparr>\<rparr>"

definition desk :: storage_store where
  "desk = \<lparr>so_workspace = [lit ''w''], so_next = [lit ''s''], so_legacy = None, so_writable = True\<rparr>"

definition desk_world :: "files \<Rightarrow> session_world" where
  "desk_world f = \<lparr>dk_files = f, dk_answers = [], dk_past = [], dk_clock = [], sw_counter = 1\<rparr>"

definition desk_request :: "rstring \<Rightarrow> session_append_request" where
  "desk_request u = append_request_new (grant_read_write [lit ''w'']) u []"

definition desk_path :: path where "desk_path = [lit ''s'', lit ''yn-0-1.json'']"

lemma desk_world_simps [simp]: "serving (desk_world f)" "dk_files (desk_world f) = f"
  by (simp_all add: desk_world_def serving_def)

lemma desk_codec: "storage_codec desk_env"
  by (auto simp: storage_codec_def desk_env_def split: if_splits)

lemma desk_valid:
  assumes "u = lit ''hi'' \<or> u = lit ''ho''"
  shows "validate_session (desk_session u) = Inr ()"
proof -
  have "validate_session_id (lit ''yn-0-1'') = Inr ()" by code_simp
  moreover have "length u \<le> MAX_MESSAGE_CHARS" using assms by (auto simp: lit_def MAX_MESSAGE_CHARS_def)
  ultimately show ?thesis
    by (simp add: validate_session_def desk_session_def fresh_session_def message_user_def message_assistant_def message_new_def
        MAX_SESSION_MESSAGES_def)
qed

lemma desk_drawn: "drawn_id (desk_world f) = lit ''yn-0-1''"
proof -
  have "show_nat 0 = lit ''0''" "show_nat 1 = lit ''1''" by code_simp+
  then show ?thesis by (simp add: drawn_id_def desk_world_def lit_def)
qed

text \<open>The directory of the sessions, with the conversation in it or without.\<close>

definition desk_files :: "u8 list option \<Rightarrow> files" where
  "desk_files c = (\<lambda>q. if q = [] \<or> q = [lit ''s''] then Some DirNode else if q = desk_path then map_option FileNode c else None)"

lemma desk_backup: "backup_path desk_path = [lit ''s'', lit ''yn-0-1.json.bak'']"
  by code_simp

lemma desk_names: "desk_path \<noteq> [lit ''s'']" "backup_path desk_path \<noteq> [lit ''s'']" "backup_path desk_path \<noteq> desk_path"
  unfolding desk_backup by (simp_all add: desk_path_def lit_def)

lemma desk_save:
  assumes "serving d" "dk_files d = desk_files c" "sv_print desk_env (desk_session u) = Inr [b]" "u = lit ''hi'' \<or> u = lit ''ho''"
  shows "\<exists>d'. save_session desk_env desk (desk_session u) d = (Inr (), d') \<and> dk_files d' = desk_files (Some [b])"
proof -
  have path: "session_path (so_next desk) (st_id (desk_session u)) = desk_path"
    by (simp add: session_path_def path_join_def desk_def desk_session_def fresh_session_def desk_path_def lit_def)
  have dirs: "with_directories (so_next desk) (desk_files c) = desk_files c"
    by (auto simp: with_directories_def desk_files_def desk_def fun_eq_iff)
  have made: "fs_create_dir_all (so_next desk) d = (Inr (), put_files (desk_files c) d)"
    using serving_directories [OF assms(1), of "so_next desk"] dirs
    by (auto simp: assms(2) desk_def desk_files_def desk_names)
  define d1 where "d1 = put_files (desk_files c) d"
  have d1: "serving d1" "dk_files d1 = desk_files c" using assms(1) by (simp_all add: d1_def)
  obtain n d2 where n: "(sys_nanos :: nat st_act) d1 = (Inr n, d2)" "dk_files d2 = desk_files c" "serving d2"
    using serving_sys_nanos [of d1] d1 by auto
  let ?t = "[lit ''s'', session_temporary 7 n]"
  have t: "?t \<noteq> desk_path" "?t \<noteq> backup_path desk_path"
    using session_temporary(2) [of 7 n] unfolding desk_backup by (auto simp: desk_path_def lit_def dot_def ch_def)
  then have "desk_files c ?t = None" "desk_files c (backup_path desk_path) = None"
    using desk_names by (auto simp: desk_files_def desk_backup)
  moreover have "desk_files c desk_path = map_option FileNode c"
    by (simp add: desk_files_def desk_path_def)
  ultimately obtain d3 where d3: "swap_file desk_path ?t (backup_path desk_path) [b] d2 = (Inr (), d3)"
    "dk_files d3 = (desk_files c)(desk_path \<mapsto> FileNode [b])"
    using serving_swap_new [OF n(3), of desk_path "backup_path desk_path" ?t "[b]"]
      serving_swap_gap [OF n(3), of desk_path "backup_path desk_path" ?t "the c" "[b]"] t desk_names
    unfolding n(2) by (cases c) auto
  have "(desk_files c)(desk_path \<mapsto> FileNode [b]) = desk_files (Some [b])"
    by (auto simp: desk_files_def desk_path_def fun_eq_iff)
  moreover have "path_parent desk_path = Some [lit ''s'']" by (simp add: path_parent_def desk_path_def)
  moreover have "sv_pid desk_env = 7" by (simp add: desk_env_def)
  ultimately have "save_session desk_env desk (desk_session u) d = (Inr (), d3)"
    using made n(1) d3(1) assms(3) desk_valid [OF assms(4)] path
    by (simp add: save_session_def act_then_def act_bind_def act_map_err_def lift_res_def d1_def [symmetric]
        session_replace_file_def path_join_def MAX_SESSION_FILE_BYTES_def)
  then show ?thesis using d3(2) \<open>(desk_files c)(desk_path \<mapsto> FileNode [b]) = _\<close> by auto
qed

lemma desk_append:
  assumes "sv_print desk_env (desk_session u) = Inr [b]" "u = lit ''hi'' \<or> u = lit ''ho''"
  obtains d where "storage_append desk_env desk (desk_request u) (desk_world (desk_files c)) = (Inr (session_snapshot False (desk_session u)), d)"
    "dk_files d = desk_files (Some [b])"
proof -
  let ?d = "(desk_world (desk_files c))\<lparr>sw_counter := 2\<rparr>"
  have new: "(session_new [lit ''w''] u [] :: (rstring, unit stored_session) sess_act) (desk_world (desk_files c)) = (Inr (desk_session u), ?d)"
  proof -
    have "show_nat 0 = lit ''0''" "show_nat 1 = lit ''1''" by code_simp+
    then have "generate_session_id 0 (desk_world (desk_files c)) = (Inr (lit ''yn-0-1'') :: (rstring, rstring) res, ?d)"
      by (simp add: generate_session_id_def desk_world_def lit_def)
    then show ?thesis
      using desk_valid [OF assms(2)]
      by (simp add: session_new_def now_millis_def sys_nanos_def act_bind_def ret_def Let_def act_then_def lift_res_def
          desk_session_def) (simp add: desk_world_def act_bind_def)
  qed
  have keep: "set_provider_model None None s = s" for s :: "unit stored_session" by (simp add: set_provider_model_def)
  obtain d where d: "save_session desk_env desk (desk_session u) ?d = (Inr (), d)" "dk_files d = desk_files (Some [b])"
    using desk_save [of ?d c u b] assms by (auto simp: desk_world_def serving_def)
  have "storage_append desk_env desk (desk_request u) (desk_world (desk_files c)) = (Inr (session_snapshot False (desk_session u)), d)"
    using new d(1) keep
    by (simp add: storage_append_def desk_request_def append_request_new_def storage_require_write_def ensure_def act_then_def
        act_bind_def lift_res_def act_map_err_def ret_def) (simp add: desk_def ensure_def)
  then show thesis using d(2) by (rule that)
qed

lemma desk_lone: "lone_sessions desk (desk_files c)"
  unfolding lone_sessions_def
proof
  fix i
  let ?p = "session_path (so_next desk) i"
  have p: "?p = [lit ''s'', i @ lit ''.json'']" by (simp add: session_path_def path_join_def desk_def)
  have "last (i @ lit ''.json'') \<noteq> last (lit ''..'')" by (simp add: lit_def)
  then have "i @ lit ''.json'' \<noteq> lit ''..''" by metis
  then obtain x where b: "backup_path ?p = [lit ''s'', x @ dot # lit ''json.bak'']"
    by (simp add: p backup_path_def with_extension_def lit_def)
  have "last (x @ dot # lit ''json.bak'') \<noteq> last (lit ''yn-0-1.json'')" by (simp add: lit_def dot_def ch_def)
  then have "x @ dot # lit ''json.bak'' \<noteq> lit ''yn-0-1.json''" by (rule contrapos_nn) (rule arg_cong)
  then have "backup_path ?p \<noteq> desk_path" unfolding b desk_path_def list.inject by blast
  then have "desk_files c (backup_path ?p) = None" unfolding b by (simp add: desk_files_def)
  moreover have "desk_files c ?p \<noteq> Some DirNode" unfolding p by (auto simp: desk_files_def)
  ultimately show "lone_session ?p (desk_files c)" by (simp add: lone_session_def lone_file_def)
qed

lemma desk_printed:
  "sv_print desk_env (desk_session (lit ''hi'')) = Inr [1]" "sv_print desk_env (desk_session (lit ''ho'')) = Inr [2]"
proof -
  have "lit ''hi'' \<noteq> lit ''ho''" by (simp add: lit_def)
  then have "desk_session (lit ''ho'') \<noteq> desk_session (lit ''hi'')"
    by (simp add: desk_session_def fresh_session_def message_user_def message_new_def)
  then show "sv_print desk_env (desk_session (lit ''hi'')) = Inr [1]" "sv_print desk_env (desk_session (lit ''ho'')) = Inr [2]"
    by (simp_all add: desk_env_def)
qed

theorem session_request_atomic_witness:
  "\<exists>d s. serve_session desk_env desk (SrAppend (desk_request (lit ''hi''))) (desk_world (desk_files None)) =
      (Inr (Some (session_snapshot False s)), d) \<and>
    st_messages s = [message_user (lit ''hi''), message_assistant []] \<and>
    session_at desk_env desk (dk_files d) (st_id s) = Some s"
proof -
  obtain d where run: "storage_append desk_env desk (desk_request (lit ''hi'')) (desk_world (desk_files None)) =
      (Inr (session_snapshot False (desk_session (lit ''hi''))), d)"
    by (rule desk_append [OF desk_printed(1)]) simp
  then have served: "serve_session desk_env desk (SrAppend (desk_request (lit ''hi''))) (desk_world (desk_files None)) =
      (Inr (Some (session_snapshot False (desk_session (lit ''hi'')))), d)" by (simp add: act_bind_def ret_def)
  have "request_outcome desk_env desk (desk_files None) (SrAppend (desk_request (lit ''hi'')))
      (Inr (Some (session_snapshot False (desk_session (lit ''hi''))))) (dk_files d)"
    using session_request_atomic [OF desk_codec _ served] desk_lone by simp
  then show ?thesis
    unfolding request_outcome.simps(3) using served by (auto simp: desk_request_def append_request_new_def)
qed

theorem answered_session_is_loaded_witness:
  "\<exists>snap. storage_load desk_env desk \<lparr>lo_grant = grant_read_only [lit ''w''], lo_session = sn_id snap\<rparr>
      (desk_world (desk_files (Some [1]))) =
    (Inr \<lparr>lx_session = Some snap, lx_warnings = []\<rparr>, desk_world (desk_files (Some [1]))) \<and>
    sn_messages snap = [message_user (lit ''hi''), message_assistant []]"
proof -
  obtain d where run: "storage_append desk_env desk (desk_request (lit ''hi'')) (desk_world (desk_files None)) =
      (Inr (session_snapshot False (desk_session (lit ''hi''))), d)" "dk_files d = desk_files (Some [1])"
    by (rule desk_append [OF desk_printed(1)]) simp
  have "serve_session desk_env desk (SrAppend (desk_request (lit ''hi''))) (desk_world (desk_files None)) =
      (Inr (Some (session_snapshot False (desk_session (lit ''hi'')))), d)" using run(1) by (simp add: act_bind_def ret_def)
  from answered_session_is_loaded [OF desk_codec _ this, of "desk_world (desk_files (Some [1]))" "grant_read_only [lit ''w'']"]
  show ?thesis using desk_lone run(2)
    by (intro exI [of _ "session_snapshot False (desk_session (lit ''hi''))"])
      (simp add: session_snapshot_def desk_session_def fresh_session_def)
qed

theorem colliding_sessions_overwrite_witness:
  "\<exists>snap. storage_load desk_env desk \<lparr>lo_grant = grant_read_only [lit ''w''], lo_session = lit ''yn-0-1''\<rparr>
      (desk_world (desk_files (Some [2]))) =
    (Inr \<lparr>lx_session = Some snap, lx_warnings = []\<rparr>, desk_world (desk_files (Some [2]))) \<and>
    sn_messages snap = [message_user (lit ''ho''), message_assistant []]"
proof -
  let ?q = "desk_request (lit ''hi'')" and ?p = "desk_request (lit ''ho'')"
  obtain d where first: "storage_append desk_env desk ?q (desk_world (desk_files None)) =
      (Inr (session_snapshot False (desk_session (lit ''hi''))), d)" "dk_files d = desk_files (Some [1])"
    by (rule desk_append [OF desk_printed(1)]) simp
  obtain e where second: "storage_append desk_env desk ?p (desk_world (desk_files (Some [1]))) =
      (Inr (session_snapshot False (desk_session (lit ''ho''))), e)" "dk_files e = desk_files (Some [2])"
    by (rule desk_append [OF desk_printed(2)]) simp
  have new: "aq_session ?q = None" "aq_session ?p = None" "aq_user ?p = lit ''ho''" "aq_assistant ?p = []"
    by (simp_all add: desk_request_def append_request_new_def)
  have "sn_id (session_snapshot False (desk_session (lit ''hi''))) = lit ''yn-0-1''"
    by (simp add: session_snapshot_def desk_session_def fresh_session_def)
  with colliding_sessions_overwrite [OF desk_codec _ _ new(1) first(1) _ _ new(2) second(1),
      of "desk_world (desk_files (Some [2]))" "grant_read_only [lit ''w'']"]
  show ?thesis using desk_lone desk_drawn first(2) second(2) new(3,4) by auto
qed

end
