(* ===== verification/Composition.thy ===== *)
theory Composition
  imports Rust_Std
begin

text \<open>
  The composition of a profile (\<open>yunxi-composition\<close>): plugin entries with their validated identities
  and bounded configuration (\<open>entry.rs\<close>), the role, risk and default enablement of a plugin
  (\<open>manifest.rs\<close>), layers of insert, replace, enable, disable and remove operations
  (\<open>layer.rs\<close>), the profile that applies bundles, its own layer and overlays in order
  (\<open>profile.rs\<close>), and the inventory shown to the user (\<open>inventory.rs\<close>). A configuration is a
  value of a type of its own: how JSON prints it and the empty object are arguments.
\<close>

definition MAX_COMPOSED_ENTRIES :: nat where "MAX_COMPOSED_ENTRIES = 256"
definition MAX_LAYER_OPERATIONS :: nat where "MAX_LAYER_OPERATIONS = 512"
definition MAX_PROFILE_NAME_BYTES :: nat where "MAX_PROFILE_NAME_BYTES = 64"
definition MAX_LAYER_NAME_BYTES :: nat where "MAX_LAYER_NAME_BYTES = 128"
definition MAX_ENTRY_ID_BYTES :: nat where "MAX_ENTRY_ID_BYTES = 128"
definition MAX_MODULE_NAME_BYTES :: nat where "MAX_MODULE_NAME_BYTES = 512"
definition MAX_ENTRY_CONFIG_BYTES :: nat where "MAX_ENTRY_CONFIG_BYTES = 64 * 1024"

section \<open>Plugin policy metadata\<close>

datatype manifest_role = RlCore | RlAgentSpine | RlOptional

fun is_user_toggleable :: "manifest_role \<Rightarrow> bool" where
  "is_user_toggleable RlOptional = True"
| "is_user_toggleable RlCore = False"
| "is_user_toggleable RlAgentSpine = False"

datatype manifest_risk = RkNone | RkExternal

fun has_external_side_effects :: "manifest_risk \<Rightarrow> bool" where
  "has_external_side_effects RkExternal = True"
| "has_external_side_effects RkNone = False"

datatype enablement = DfAlways | DfSafe | DfNever

fun enablement_default_for :: "manifest_role \<Rightarrow> manifest_risk \<Rightarrow> enablement" where
  "enablement_default_for RlCore k = DfAlways"
| "enablement_default_for RlAgentSpine k = DfAlways"
| "enablement_default_for RlOptional k = (if k = RkNone then DfSafe else DfNever)"

fun enablement_resolves :: "enablement \<Rightarrow> manifest_risk \<Rightarrow> manifest_role \<Rightarrow> bool" where
  "enablement_resolves e k RlCore = True"
| "enablement_resolves e k RlAgentSpine = True"
| "enablement_resolves DfAlways k RlOptional = True"
| "enablement_resolves DfSafe k RlOptional = (k = RkNone)"
| "enablement_resolves DfNever k RlOptional = False"

record plugin_policy =
  mf_role :: manifest_role
  mf_risk :: manifest_risk
  mf_default :: enablement

definition policy_for :: "manifest_role \<Rightarrow> manifest_risk \<Rightarrow> plugin_policy" where
  "policy_for r k = \<lparr>mf_role = r, mf_risk = k, mf_default = enablement_default_for r k\<rparr>"

definition policy_core :: plugin_policy where
  "policy_core = policy_for RlCore RkNone"

definition policy_agent_spine :: plugin_policy where
  "policy_agent_spine = policy_for RlAgentSpine RkNone"

definition policy_optional :: "manifest_risk \<Rightarrow> plugin_policy" where
  "policy_optional k = policy_for RlOptional k"

definition policy_enabled :: "plugin_policy \<Rightarrow> bool" where
  "policy_enabled m = enablement_resolves (mf_default m) (mf_risk m) (mf_role m)"

section \<open>Entries\<close>

text \<open>An identity is a string that passed \<open>entry_id_new\<close>.\<close>

type_synonym entry_id = rstring

datatype entry_id_error =
    EiEmpty
  | EiTooLong nat nat
  | EiInvalidCharacter nat rchar

fun show_entry_id_error :: "entry_id_error \<Rightarrow> rstring" where
  "show_entry_id_error EiEmpty = lit ''entry id cannot be empty''"
| "show_entry_id_error (EiTooLong l m) =
     lit ''entry id is '' @ show_nat l @ lit '' bytes; maximum is '' @ show_nat m"
| "show_entry_id_error (EiInvalidCharacter i c) =
     lit ''entry id contains unsupported character '' @ quoted [c] @ lit '' at byte '' @ show_nat i"

text \<open>The first character of a name that is not printable ASCII, with its offset.\<close>

definition unsupported_character :: "rstring \<Rightarrow> (nat \<times> rchar) option" where
  "unsupported_character value =
     find (\<lambda>(index, c). \<not> is_ascii c \<or> is_control c \<or> is_whitespace c) (char_indices value)"

definition entry_id_new :: "rstring \<Rightarrow> (entry_id_error, entry_id) res" where
  "entry_id_new value =
     (if value = [] then Inl EiEmpty
      else if MAX_ENTRY_ID_BYTES < str_len value then Inl (EiTooLong (str_len value) MAX_ENTRY_ID_BYTES)
      else (case unsupported_character value of
          Some (index, c) \<Rightarrow> Inl (EiInvalidCharacter index c)
        | None \<Rightarrow> Inr value))"

text \<open>Decoding an identity: serde reports the display of the error.\<close>

definition entry_id_decode :: "rstring \<Rightarrow> (rstring, entry_id) res" where
  "entry_id_decode value = map_err show_entry_id_error (entry_id_new value)"

datatype entry_error =
    EnInvalidId entry_id_error
  | EnEmptyModuleName
  | EnModuleNameTooLong nat nat
  | EnInvalidModuleCharacter nat rchar
  | EnConfigTooLarge nat nat
  | EnConfigNotSerializable

fun show_entry_error :: "entry_error \<Rightarrow> rstring" where
  "show_entry_error (EnInvalidId e) = show_entry_id_error e"
| "show_entry_error EnEmptyModuleName = lit ''entry module name cannot be empty''"
| "show_entry_error (EnModuleNameTooLong l m) =
     lit ''entry module name is '' @ show_nat l @ lit '' bytes; maximum is '' @ show_nat m"
| "show_entry_error (EnInvalidModuleCharacter i c) =
     lit ''entry module name contains unsupported character '' @ quoted [c] @ lit '' at byte '' @ show_nat i"
| "show_entry_error (EnConfigTooLarge b m) =
     lit ''entry config is '' @ show_nat b @ lit '' bytes; maximum is '' @ show_nat m"
| "show_entry_error EnConfigNotSerializable = lit ''entry config is not valid JSON''"

text \<open>What serde answers about a configuration.\<close>

record 'j config_env =
  cg_print :: "'j \<Rightarrow> (rstring, u8 list) res"
  cg_empty :: 'j

record 'j composition_entry =
  ce_id :: entry_id
  ce_module_name :: rstring
  ce_enabled :: bool
  ce_config :: 'j
  ce_group :: "entry_id option"
  ce_manifest :: "plugin_policy option"

definition validate_module_name :: "rstring \<Rightarrow> (entry_error, unit) res" where
  "validate_module_name value =
     (if value = [] then Inl EnEmptyModuleName
      else if MAX_MODULE_NAME_BYTES < str_len value
      then Inl (EnModuleNameTooLong (str_len value) MAX_MODULE_NAME_BYTES)
      else (case unsupported_character value of
          Some (index, c) \<Rightarrow> Inl (EnInvalidModuleCharacter index c)
        | None \<Rightarrow> Inr ()))"

definition validate_entry_config :: "'j config_env \<Rightarrow> 'j \<Rightarrow> (entry_error, unit) res" where
  "validate_entry_config env value =
     res_bind (map_err (\<lambda>_. EnConfigNotSerializable) (cg_print env value)) (\<lambda>bytes.
     if MAX_ENTRY_CONFIG_BYTES < length bytes
     then Inl (EnConfigTooLarge (length bytes) MAX_ENTRY_CONFIG_BYTES) else Inr ())"

definition entry_from_id :: "'j config_env \<Rightarrow> entry_id \<Rightarrow> rstring \<Rightarrow> (entry_error, 'j composition_entry) res" where
  "entry_from_id env i module =
     res_bind (validate_module_name module) (\<lambda>_.
     Inr \<lparr>ce_id = i, ce_module_name = module, ce_enabled = True, ce_config = cg_empty env,
          ce_group = None, ce_manifest = None\<rparr>)"

definition entry_new :: "'j config_env \<Rightarrow> rstring \<Rightarrow> rstring \<Rightarrow> (entry_error, 'j composition_entry) res" where
  "entry_new env i module =
     res_bind (map_err EnInvalidId (entry_id_new i)) (\<lambda>i. entry_from_id env i module)"

definition with_manifest :: "plugin_policy \<Rightarrow> 'j composition_entry \<Rightarrow> 'j composition_entry" where
  "with_manifest m e = e\<lparr>ce_enabled := policy_enabled m, ce_manifest := Some m\<rparr>"

definition entry_new_with_manifest ::
  "'j config_env \<Rightarrow> rstring \<Rightarrow> rstring \<Rightarrow> plugin_policy \<Rightarrow> (entry_error, 'j composition_entry) res" where
  "entry_new_with_manifest env i module m =
     res_bind (entry_new env i module) (\<lambda>e. Inr (with_manifest m e))"

definition with_config :: "'j config_env \<Rightarrow> 'j \<Rightarrow> 'j composition_entry \<Rightarrow> (entry_error, 'j composition_entry) res" where
  "with_config env config e =
     res_bind (validate_entry_config env config) (\<lambda>_. Inr (e\<lparr>ce_config := config\<rparr>))"

definition with_enabled :: "bool \<Rightarrow> 'j composition_entry \<Rightarrow> 'j composition_entry" where
  "with_enabled b e = e\<lparr>ce_enabled := b\<rparr>"

definition with_group :: "entry_id \<Rightarrow> 'j composition_entry \<Rightarrow> 'j composition_entry" where
  "with_group g e = e\<lparr>ce_group := Some g\<rparr>"

definition entry_role :: "'j composition_entry \<Rightarrow> manifest_role option" where
  "entry_role e = map_option mf_role (ce_manifest e)"

definition entry_risk :: "'j composition_entry \<Rightarrow> manifest_risk option" where
  "entry_risk e = map_option mf_risk (ce_manifest e)"

definition entry_default_enabled :: "'j composition_entry \<Rightarrow> bool option" where
  "entry_default_enabled e = map_option policy_enabled (ce_manifest e)"

definition entry_user_toggleable :: "'j composition_entry \<Rightarrow> bool" where
  "entry_user_toggleable e =
     (case ce_manifest e of None \<Rightarrow> True | Some m \<Rightarrow> is_user_toggleable (mf_role m))"

definition entry_set_enabled :: "bool \<Rightarrow> 'j composition_entry \<Rightarrow> 'j composition_entry" where
  "entry_set_enabled b e = e\<lparr>ce_enabled := b\<rparr>"

text \<open>An entry as serde read it: fields the document leaves out are \<open>None\<close>.\<close>

record 'j wire_entry =
  we_id :: entry_id
  we_module_name :: rstring
  we_enabled :: "bool option"
  we_config :: "'j option"
  we_group :: "entry_id option"
  we_manifest :: "plugin_policy option"

definition entry_from_wire :: "'j config_env \<Rightarrow> 'j wire_entry \<Rightarrow> (rstring, 'j composition_entry) res" where
  "entry_from_wire env w =
     res_bind (map_err show_entry_error (entry_from_id env (we_id w) (we_module_name w))) (\<lambda>e.
     let config = (case we_config w of Some c \<Rightarrow> c | None \<Rightarrow> cg_empty env);
         enabled = (case we_enabled w of
             Some b \<Rightarrow> b
           | None \<Rightarrow> (case we_manifest w of None \<Rightarrow> True | Some m \<Rightarrow> policy_enabled m));
         e = e\<lparr>ce_group := we_group w, ce_config := config, ce_manifest := we_manifest w, ce_enabled := enabled\<rparr>
     in res_bind (map_err show_entry_error (validate_entry_config env (ce_config e))) (\<lambda>_. Inr e))"

section \<open>Errors\<close>

datatype composition_error =
    CxEntry entry_error
  | CxInvalidProfileName rstring
  | CxInvalidLayerName rstring
  | CxTooManyOperations nat nat
  | CxTooManyEntries nat nat
  | CxDuplicateLayer rstring
  | CxDuplicateEntry entry_id rstring
  | CxMissingEntry entry_id rstring rstring
  | CxReplacementIdMismatch entry_id entry_id

fun show_composition_error :: "composition_error \<Rightarrow> rstring" where
  "show_composition_error (CxEntry e) = show_entry_error e"
| "show_composition_error (CxInvalidProfileName v) = lit ''invalid profile name '' @ quoted v"
| "show_composition_error (CxInvalidLayerName v) = lit ''invalid layer name '' @ quoted v"
| "show_composition_error (CxTooManyOperations c m) =
     lit ''config layer contains '' @ show_nat c @ lit '' operations; maximum is '' @ show_nat m"
| "show_composition_error (CxTooManyEntries c m) =
     lit ''composition contains '' @ show_nat c @ lit '' entries; maximum is '' @ show_nat m"
| "show_composition_error (CxDuplicateLayer n) =
     lit ''composition layer '' @ quoted n @ lit '' is already registered''"
| "show_composition_error (CxDuplicateEntry i l) =
     lit ''layer '' @ quoted l @ lit '' inserts duplicate entry '' @ quoted i"
| "show_composition_error (CxMissingEntry i l operation) =
     lit ''layer '' @ quoted l @ lit '' cannot '' @ operation @ lit '' missing entry '' @ quoted i"
| "show_composition_error (CxReplacementIdMismatch t r) =
     lit ''replacement entry '' @ quoted r @ lit '' does not match target '' @ quoted t"

definition validate_label :: "rstring \<Rightarrow> nat \<Rightarrow> bool \<Rightarrow> (composition_error, unit) res" where
  "validate_label value maximum profile =
     (if trim value \<noteq> [] \<and> str_len value \<le> maximum \<and> list_all is_ascii value \<and>
         list_all (\<lambda>c. \<not> is_control c \<and> \<not> is_whitespace c) value
      then Inr ()
      else if profile then Inl (CxInvalidProfileName value) else Inl (CxInvalidLayerName value))"

section \<open>Layers\<close>

datatype 'j layer_operation =
    LyInsert "'j composition_entry list"
  | LyReplace entry_id "'j composition_entry"
  | LyEnable entry_id
  | LyDisable entry_id
  | LyRemove entry_id

fun operation_name :: "'j layer_operation \<Rightarrow> rstring" where
  "operation_name (LyInsert es) = lit ''insert''"
| "operation_name (LyReplace i e) = lit ''replace''"
| "operation_name (LyEnable i) = lit ''enable''"
| "operation_name (LyDisable i) = lit ''disable''"
| "operation_name (LyRemove i) = lit ''remove''"

record 'j config_layer =
  ly_name :: rstring
  ly_operations :: "'j layer_operation list"

definition layer_new :: "rstring \<Rightarrow> (composition_error, 'j config_layer) res" where
  "layer_new name =
     res_bind (validate_label name MAX_LAYER_NAME_BYTES False) (\<lambda>_. Inr \<lparr>ly_name = name, ly_operations = []\<rparr>)"

definition layer_push :: "'j layer_operation \<Rightarrow> ('j config_layer, composition_error, unit) act" where
  "layer_push operation l =
     (let count = length (ly_operations l) + 1 in
      if MAX_LAYER_OPERATIONS < count then (Inl (CxTooManyOperations count MAX_LAYER_OPERATIONS), l)
      else (Inr (), l\<lparr>ly_operations := ly_operations l @ [operation]\<rparr>))"

fun layer_push_all :: "'j layer_operation list \<Rightarrow> ('j config_layer, composition_error, unit) act" where
  "layer_push_all [] = ret ()"
| "layer_push_all (operation # os) = act_then (layer_push operation) (layer_push_all os)"

definition layer_from_operations :: "rstring \<Rightarrow> 'j layer_operation list \<Rightarrow> (composition_error, 'j config_layer) res" where
  "layer_from_operations name os =
     res_bind (layer_new name) (\<lambda>l.
     case layer_push_all os l of (Inl e, _) \<Rightarrow> Inl e | (Inr _, l') \<Rightarrow> Inr l')"

definition layer_insert :: "'j composition_entry list \<Rightarrow> ('j config_layer, composition_error, unit) act" where
  "layer_insert es = layer_push (LyInsert es)"

definition layer_replace :: "entry_id \<Rightarrow> 'j composition_entry \<Rightarrow> ('j config_layer, composition_error, unit) act" where
  "layer_replace i e = layer_push (LyReplace i e)"

definition layer_enable :: "entry_id \<Rightarrow> ('j config_layer, composition_error, unit) act" where
  "layer_enable i = layer_push (LyEnable i)"

definition layer_disable :: "entry_id \<Rightarrow> ('j config_layer, composition_error, unit) act" where
  "layer_disable i = layer_push (LyDisable i)"

definition layer_remove :: "entry_id \<Rightarrow> ('j config_layer, composition_error, unit) act" where
  "layer_remove i = layer_push (LyRemove i)"

text \<open>A layer that serde read, its operations already decoded.\<close>

definition layer_from_wire :: "rstring \<Rightarrow> 'j layer_operation list \<Rightarrow> (rstring, 'j config_layer) res" where
  "layer_from_wire name os = map_err show_composition_error (layer_from_operations name os)"

section \<open>Profiles\<close>

record 'j profile =
  pf_name :: rstring
  pf_bundles :: "'j config_layer list"
  pf_layer :: "'j config_layer option"
  pf_overlays :: "'j config_layer list"

definition profile_new :: "rstring \<Rightarrow> (composition_error, 'j profile) res" where
  "profile_new name =
     res_bind (validate_label name MAX_PROFILE_NAME_BYTES True) (\<lambda>_.
     Inr \<lparr>pf_name = name, pf_bundles = [], pf_layer = None, pf_overlays = []\<rparr>)"

definition profile_layers :: "'j profile \<Rightarrow> 'j config_layer list" where
  "profile_layers p =
     pf_bundles p @ (case pf_layer p of None \<Rightarrow> [] | Some l \<Rightarrow> [l]) @ pf_overlays p"

definition register_layer_name :: "'j profile \<Rightarrow> rstring \<Rightarrow> (composition_error, unit) res" where
  "register_layer_name p name =
     (if list_ex (\<lambda>l. ly_name l = name) (profile_layers p) then Inl (CxDuplicateLayer name) else Inr ())"

definition add_bundle :: "'j config_layer \<Rightarrow> ('j profile, composition_error, unit) act" where
  "add_bundle l p =
     (case register_layer_name p (ly_name l) of
        Inl e \<Rightarrow> (Inl e, p)
      | Inr _ \<Rightarrow> (Inr (), p\<lparr>pf_bundles := pf_bundles p @ [l]\<rparr>))"

definition set_profile_layer :: "'j config_layer \<Rightarrow> ('j profile, composition_error, unit) act" where
  "set_profile_layer l p =
     (if list_ex (\<lambda>existing. ly_name existing = ly_name l)
           (pf_bundles p @ pf_overlays p @ (case pf_layer p of None \<Rightarrow> [] | Some x \<Rightarrow> [x]))
      then (Inl (CxDuplicateLayer (ly_name l)), p)
      else (Inr (), p\<lparr>pf_layer := Some l\<rparr>))"

definition add_overlay :: "'j config_layer \<Rightarrow> ('j profile, composition_error, unit) act" where
  "add_overlay l p =
     (case register_layer_name p (ly_name l) of
        Inl e \<Rightarrow> (Inl e, p)
      | Inr _ \<Rightarrow> (Inr (), p\<lparr>pf_overlays := pf_overlays p @ [l]\<rparr>))"

section \<open>Composition\<close>

text \<open>\<open>position\<close>: the index of the first entry of that identity.\<close>

fun entry_position :: "'j composition_entry list \<Rightarrow> entry_id \<Rightarrow> nat option" where
  "entry_position [] i = None"
| "entry_position (e # es) i = (if ce_id e = i then Some 0 else map_option Suc (entry_position es i))"

definition find_entry ::
  "'j composition_entry list \<Rightarrow> entry_id \<Rightarrow> 'j config_layer \<Rightarrow> 'j layer_operation \<Rightarrow> (composition_error, nat) res" where
  "find_entry es i l operation =
     (case entry_position es i of
        Some index \<Rightarrow> Inr index
      | None \<Rightarrow> Inl (CxMissingEntry i (ly_name l) (operation_name operation)))"

fun check_additions ::
  "'j config_layer \<Rightarrow> 'j composition_entry list \<Rightarrow> entry_id list \<Rightarrow> 'j composition_entry list \<Rightarrow>
   (composition_error, unit) res" where
  "check_additions l es inserted [] = Inr ()"
| "check_additions l es inserted (a # as) =
     (if ce_id a \<in> set inserted \<or> list_ex (\<lambda>current. ce_id current = ce_id a) es
      then Inl (CxDuplicateEntry (ce_id a) (ly_name l))
      else check_additions l es (bs_insert (ce_id a) inserted) as)"

definition apply_operation ::
  "'j config_layer \<Rightarrow> 'j layer_operation \<Rightarrow> ('j composition_entry list, composition_error, unit) act" where
  "apply_operation l operation es =
     (case operation of
        LyInsert additions \<Rightarrow>
          let projected = length es + length additions in
          if MAX_COMPOSED_ENTRIES < projected then (Inl (CxTooManyEntries projected MAX_COMPOSED_ENTRIES), es)
          else (case check_additions l es [] additions of
              Inl e \<Rightarrow> (Inl e, es)
            | Inr _ \<Rightarrow> (Inr (), es @ additions))
      | LyReplace i e \<Rightarrow>
          if i \<noteq> ce_id e then (Inl (CxReplacementIdMismatch i (ce_id e)), es)
          else (case find_entry es i l operation of
              Inl x \<Rightarrow> (Inl x, es)
            | Inr index \<Rightarrow> (Inr (), es[index := e]))
      | LyEnable i \<Rightarrow>
          (case find_entry es i l operation of
             Inl x \<Rightarrow> (Inl x, es)
           | Inr index \<Rightarrow> (Inr (), es[index := entry_set_enabled True (es ! index)]))
      | LyDisable i \<Rightarrow>
          (case find_entry es i l operation of
             Inl x \<Rightarrow> (Inl x, es)
           | Inr index \<Rightarrow> (Inr (), es[index := entry_set_enabled False (es ! index)]))
      | LyRemove i \<Rightarrow>
          (case find_entry es i l operation of
             Inl x \<Rightarrow> (Inl x, es)
           | Inr index \<Rightarrow> (Inr (), take index es @ drop (Suc index) es)))"

fun apply_operations ::
  "'j config_layer \<Rightarrow> 'j layer_operation list \<Rightarrow> ('j composition_entry list, composition_error, unit) act" where
  "apply_operations l [] = ret ()"
| "apply_operations l (operation # os) = act_then (apply_operation l operation) (apply_operations l os)"

definition apply_layer :: "'j config_layer \<Rightarrow> ('j composition_entry list, composition_error, unit) act" where
  "apply_layer l = apply_operations l (ly_operations l)"

text \<open>The entries and the names of the layers applied so far.\<close>

type_synonym 'j composing = "'j composition_entry list \<times> rstring list"

fun apply_layers :: "'j config_layer list \<Rightarrow> ('j composing, composition_error, unit) act" where
  "apply_layers [] s = (Inr (), s)"
| "apply_layers (l # ls) (es, applied) =
     (case apply_layer l es of
        (Inl e, es') \<Rightarrow> (Inl e, (es', applied))
      | (Inr _, es') \<Rightarrow> apply_layers ls (es', applied @ [ly_name l]))"

record 'j composition_snapshot =
  sn_profile_name :: rstring
  sn_entries :: "'j composition_entry list"
  sn_applied_layers :: "rstring list"

definition compose_profile :: "'j profile \<Rightarrow> (composition_error, 'j composition_snapshot) res" where
  "compose_profile p =
     (case act_then (apply_layers (pf_bundles p))
          (act_then (apply_layers (case pf_layer p of None \<Rightarrow> [] | Some l \<Rightarrow> [l]))
          (apply_layers (pf_overlays p))) ([], []) of
        (Inl e, _) \<Rightarrow> Inl e
      | (Inr _, (entries, applied)) \<Rightarrow>
          Inr \<lparr>sn_profile_name = pf_name p, sn_entries = entries, sn_applied_layers = applied\<rparr>)"

definition snapshot_entry :: "'j composition_snapshot \<Rightarrow> entry_id \<Rightarrow> 'j composition_entry option" where
  "snapshot_entry s i = find (\<lambda>e. ce_id e = i) (sn_entries s)"

section \<open>The inventory\<close>

datatype fiber_phase = PhDisabled | PhPending | PhLoading | PhActive | PhFailed | PhUnloading

fun show_fiber_phase :: "fiber_phase \<Rightarrow> rstring" where
  "show_fiber_phase PhDisabled = lit ''disabled''"
| "show_fiber_phase PhPending = lit ''pending''"
| "show_fiber_phase PhLoading = lit ''loading''"
| "show_fiber_phase PhActive = lit ''active''"
| "show_fiber_phase PhFailed = lit ''failed''"
| "show_fiber_phase PhUnloading = lit ''unloading''"

record inventory_entry =
  iv_entry_id :: entry_id
  iv_module_name :: rstring
  iv_enabled :: bool
  iv_phase :: "fiber_phase option"
  iv_manifest :: "plugin_policy option"

definition inventory_from_entry :: "'j composition_entry \<Rightarrow> fiber_phase option \<Rightarrow> inventory_entry" where
  "inventory_from_entry e phase =
     \<lparr>iv_entry_id = ce_id e, iv_module_name = ce_module_name e, iv_enabled = ce_enabled e,
      iv_phase = (case phase of
          Some x \<Rightarrow> Some x
        | None \<Rightarrow> map_option (\<lambda>_. if ce_enabled e then PhPending else PhDisabled) (ce_manifest e)),
      iv_manifest = ce_manifest e\<rparr>"

definition inventory_with_phases ::
  "'j composition_snapshot \<Rightarrow> (entry_id, fiber_phase) btmap \<Rightarrow> inventory_entry list" where
  "inventory_with_phases s phases =
     map (\<lambda>e. inventory_from_entry e (bt_get phases (ce_id e))) (sn_entries s)"

definition composition_inventory :: "'j composition_snapshot \<Rightarrow> inventory_entry list" where
  "composition_inventory s = inventory_with_phases s []"

end
