(* ===== verification/Plugin_Startup.thy ===== *)
theory Plugin_Startup
  imports Settings_Store Plugin_Kernel Composition Companion Mailbox Memory_Write Scheduler Session_Store
begin

text \<open>
  The plugins the command line host starts with (\<open>yunxi-cli/src/session/plugin_policy.rs\<close> and
  \<open>build_composition\<close> of \<open>session.rs\<close>): the policy of each built-in plugin, the precedence of
  plugin choices, environment and stored capability settings, the composition of the built-in layer, and
  the inventory with the phases of the running host (\<open>session/stateful.rs\<close>).
\<close>

definition MODEL_PLUGIN_ID :: rstring where "MODEL_PLUGIN_ID = lit ''yunxi.model.openai-compatible''"
definition CONTEXT_PLUGIN_ID :: rstring where "CONTEXT_PLUGIN_ID = lit ''yunxi.context''"
definition PERSONA_PLUGIN_ID :: rstring where "PERSONA_PLUGIN_ID = lit ''yunxi.persona''"
definition SHELL_PLUGIN_ID :: rstring where "SHELL_PLUGIN_ID = lit ''yunxi.tool.shell''"
definition PATCH_PLUGIN_ID :: rstring where "PATCH_PLUGIN_ID = lit ''yunxi.tool.patch''"
definition FILES_PLUGIN_ID :: rstring where "FILES_PLUGIN_ID = lit ''yunxi.tool.files''"
definition MCP_PLUGIN_ID :: rstring where "MCP_PLUGIN_ID = lit ''yunxi.tool.mcp''"
definition SKILLS_PLUGIN_ID :: rstring where "SKILLS_PLUGIN_ID = lit ''yunxi.tool.skills''"
definition MULTI_AGENT_PLUGIN_ID :: rstring where "MULTI_AGENT_PLUGIN_ID = lit ''yunxi.multi-agent''"
definition VOICE_FIXTURE_PLUGIN_ID :: rstring where "VOICE_FIXTURE_PLUGIN_ID = lit ''yunxi.voice.fixture''"
definition WEIXIN_PLUGIN_ID :: rstring where "WEIXIN_PLUGIN_ID = lit ''yunxi.channel.weixin''"

section \<open>Policy\<close>

definition manifest_for :: "rstring \<Rightarrow> plugin_policy" where
  "manifest_for i =
     (if i = MODEL_PLUGIN_ID then policy_agent_spine
      else if i \<in> {CONTEXT_PLUGIN_ID, PERSONA_PLUGIN_ID} then policy_optional RkNone
      else if i = STORAGE_PLUGIN_ID then policy_optional RkNone
      else if i \<in> {MEMORY_PLUGIN_ID, COMPANION_PLUGIN_ID, MAILBOX_PLUGIN_ID, SCHEDULER_PLUGIN_ID,
                   SHELL_PLUGIN_ID, PATCH_PLUGIN_ID, FILES_PLUGIN_ID, MCP_PLUGIN_ID, SKILLS_PLUGIN_ID,
                   MULTI_AGENT_PLUGIN_ID, WEIXIN_PLUGIN_ID} then policy_optional RkExternal
      else if i = VOICE_FIXTURE_PLUGIN_ID then policy_optional RkExternal
      else policy_optional RkExternal)"

definition resolve_value :: "plugin_policy \<Rightarrow> bool option \<Rightarrow> bool option \<Rightarrow> bool" where
  "resolve_value m plugin_override legacy_override =
     (if \<not> is_user_toggleable (mf_role m) then True
      else (case plugin_override of
          Some b \<Rightarrow> b
        | None \<Rightarrow> or_default legacy_override (policy_enabled m)))"

fun policy_environment_names :: "capability_setting \<Rightarrow> rstring \<times> rstring option" where
  "policy_environment_names CsContext = (lit ''YUNXI_NEXT_CONTEXT_ENABLED'', None)"
| "policy_environment_names CsPersona = (lit ''YUNXI_NEXT_PERSONA_ENABLED'', Some (lit ''YUNXI_PERSONA_ENABLED''))"
| "policy_environment_names CsMemory = (lit ''YUNXI_NEXT_MEMORY_ENABLED'', Some (lit ''YUNXI_MEMORY_ENABLED''))"
| "policy_environment_names CsCompanion =
     (lit ''YUNXI_NEXT_COMPANION_ENABLED'', Some (lit ''YUNXI_COMPANION_ENABLED''))"
| "policy_environment_names CsStorage = (lit ''YUNXI_NEXT_STORAGE_ENABLED'', None)"
| "policy_environment_names CsMailbox = (lit ''YUNXI_NEXT_MAILBOX_ENABLED'', None)"
| "policy_environment_names CsScheduler = (lit ''YUNXI_NEXT_SCHEDULER_ENABLED'', None)"
| "policy_environment_names CsShell = (lit ''YUNXI_NEXT_SHELL_ENABLED'', None)"
| "policy_environment_names CsPatch = (lit ''YUNXI_NEXT_PATCH_ENABLED'', None)"
| "policy_environment_names CsFiles = (lit ''YUNXI_NEXT_FILES_ENABLED'', None)"
| "policy_environment_names CsMcp = (lit ''YUNXI_NEXT_MCP_ENABLED'', None)"
| "policy_environment_names CsSkills = (lit ''YUNXI_NEXT_SKILLS_ENABLED'', None)"
| "policy_environment_names CsMultiAgent = (lit ''YUNXI_NEXT_MULTI_AGENT_ENABLED'', None)"
| "policy_environment_names CsVoice = (lit ''YUNXI_NEXT_VOICE_ENABLED'', None)"
| "policy_environment_names CsWeixin = (lit ''YUNXI_NEXT_WEIXIN_ENABLED'', None)"

definition policy_read_bool :: "environment \<Rightarrow> rstring \<Rightarrow> bool option" where
  "policy_read_bool env name =
     (case env name of
        None \<Rightarrow> None
      | Some value \<Rightarrow>
          let v = Settings_Store.to_ascii_lowercase (trim value) in
          if v \<in> {lit ''1'', lit ''true'', lit ''yes'', lit ''on''} then Some True
          else if v \<in> {lit ''0'', lit ''false'', lit ''no'', lit ''off''} then Some False
          else None)"

definition or_else :: "'a option \<Rightarrow> 'a option \<Rightarrow> 'a option" where
  "or_else x y = (case x of Some a \<Rightarrow> Some a | None \<Rightarrow> y)"

definition legacy_override_with ::
  "(rstring \<Rightarrow> bool option) \<Rightarrow> settings_store \<Rightarrow> capability_switches \<Rightarrow> capability_setting \<Rightarrow> bool option" where
  "legacy_override_with read settings legacy s =
     (case policy_environment_names s of (primary, legacy_name) \<Rightarrow>
        (case or_else (read primary) (case legacy_name of None \<Rightarrow> None | Some n \<Rightarrow> read n) of
           Some value \<Rightarrow> Some value
         | None \<Rightarrow>
             if override_get (ss_overrides settings) s \<noteq> None then Some (switch_get legacy s)
             else if s \<in> {CsMailbox, CsScheduler} \<and>
                (override_get (ss_overrides settings) CsCompanion \<noteq> None \<or>
                 or_else (read (lit ''YUNXI_NEXT_COMPANION_ENABLED'')) (read (lit ''YUNXI_COMPANION_ENABLED'')) \<noteq> None)
             then Some (switch_get legacy s)
             else None))"

definition legacy_override :: "environment \<Rightarrow> settings_store \<Rightarrow> capability_switches \<Rightarrow> capability_setting \<Rightarrow> bool option" where
  "legacy_override env settings legacy s = legacy_override_with (policy_read_bool env) settings legacy s"

definition resolve_optional ::
  "environment \<Rightarrow> settings_store \<Rightarrow> capability_switches \<Rightarrow> rstring \<Rightarrow> capability_setting \<Rightarrow> bool" where
  "resolve_optional env settings legacy i s =
     resolve_value (manifest_for i) (bt_get (ss_plugins settings) i) (legacy_override env settings legacy s)"

record plugin_switches =
  pw_context :: bool
  pw_persona :: bool
  pw_memory :: bool
  pw_companion :: bool
  pw_storage :: bool
  pw_mailbox :: bool
  pw_scheduler :: bool
  pw_shell :: bool
  pw_patch :: bool
  pw_files :: bool
  pw_mcp :: bool
  pw_skills :: bool
  pw_multi_agent :: bool
  pw_voice :: bool
  pw_weixin :: bool

definition resolve_switches :: "environment \<Rightarrow> settings_store \<Rightarrow> capability_switches \<Rightarrow> plugin_switches" where
  "resolve_switches env settings legacy =
     \<lparr>pw_context = resolve_optional env settings legacy CONTEXT_PLUGIN_ID CsContext,
      pw_persona = resolve_optional env settings legacy PERSONA_PLUGIN_ID CsPersona,
      pw_memory = resolve_optional env settings legacy MEMORY_PLUGIN_ID CsMemory,
      pw_companion = resolve_optional env settings legacy COMPANION_PLUGIN_ID CsCompanion,
      pw_storage = resolve_optional env settings legacy STORAGE_PLUGIN_ID CsStorage,
      pw_mailbox = resolve_optional env settings legacy MAILBOX_PLUGIN_ID CsMailbox,
      pw_scheduler = resolve_optional env settings legacy SCHEDULER_PLUGIN_ID CsScheduler,
      pw_shell = resolve_optional env settings legacy SHELL_PLUGIN_ID CsShell,
      pw_patch = resolve_optional env settings legacy PATCH_PLUGIN_ID CsPatch,
      pw_files = resolve_optional env settings legacy FILES_PLUGIN_ID CsFiles,
      pw_mcp = resolve_optional env settings legacy MCP_PLUGIN_ID CsMcp,
      pw_skills = resolve_optional env settings legacy SKILLS_PLUGIN_ID CsSkills,
      pw_multi_agent = resolve_optional env settings legacy MULTI_AGENT_PLUGIN_ID CsMultiAgent,
      pw_voice = resolve_optional env settings legacy VOICE_FIXTURE_PLUGIN_ID CsVoice,
      pw_weixin = resolve_optional env settings legacy WEIXIN_PLUGIN_ID CsWeixin\<rparr>"

section \<open>The built-in composition\<close>

definition builtin_requests :: "plugin_switches \<Rightarrow> (rstring \<times> bool) list" where
  "builtin_requests w =
     (let persona_process_needed = pw_persona w in
      [(MODEL_PLUGIN_ID, True),
       (CONTEXT_PLUGIN_ID, pw_context w),
       (PERSONA_PLUGIN_ID, persona_process_needed),
       (MEMORY_PLUGIN_ID, pw_memory w),
       (STORAGE_PLUGIN_ID, pw_storage w),
       (COMPANION_PLUGIN_ID, pw_companion w),
       (MAILBOX_PLUGIN_ID, pw_mailbox w),
       (SCHEDULER_PLUGIN_ID, pw_scheduler w),
       (SHELL_PLUGIN_ID, pw_shell w),
       (PATCH_PLUGIN_ID, pw_patch w),
       (FILES_PLUGIN_ID, pw_files w),
       (MCP_PLUGIN_ID, pw_mcp w),
       (SKILLS_PLUGIN_ID, pw_skills w),
       (MULTI_AGENT_PLUGIN_ID, pw_multi_agent w),
       (VOICE_FIXTURE_PLUGIN_ID, pw_voice w),
       (WEIXIN_PLUGIN_ID, pw_weixin w)])"

definition builtin_entry :: "'j config_env \<Rightarrow> rstring \<Rightarrow> bool \<Rightarrow> (entry_error, 'j composition_entry) res" where
  "builtin_entry cg i requested =
     (let m = manifest_for i;
          enabled = (if is_user_toggleable (mf_role m) then requested else True) in
      res_bind (entry_new_with_manifest cg i (lit ''yunxi.plugin.'' @ i) m) (\<lambda>e. Inr (with_enabled enabled e)))"

text \<open>Collecting results stops at the first error.\<close>

fun builtin_entries :: "'j config_env \<Rightarrow> (rstring \<times> bool) list \<Rightarrow> (entry_error, 'j composition_entry list) res" where
  "builtin_entries cg [] = Inr []"
| "builtin_entries cg ((i, requested) # rs) =
     res_bind (builtin_entry cg i requested) (\<lambda>e. res_bind (builtin_entries cg rs) (\<lambda>es. Inr (e # es)))"

definition build_composition :: "'j config_env \<Rightarrow> plugin_switches \<Rightarrow> (composition_error, 'j composition_snapshot) res" where
  "build_composition cg w =
     res_bind (profile_new (lit ''yunxi-next'')) (\<lambda>p.
     res_bind (layer_new (lit ''yunxi-next.builtin'')) (\<lambda>builtin.
     res_bind (map_err CxEntry (builtin_entries cg (builtin_requests w))) (\<lambda>es.
     case layer_insert es builtin of
       (Inl e, _) \<Rightarrow> Inl e
     | (Inr _, builtin) \<Rightarrow>
         (case add_bundle builtin p of
            (Inl e, _) \<Rightarrow> Inl e
          | (Inr _, p) \<Rightarrow> compose_profile p))))"

text \<open>What a launch of the host does with the settings it loaded.\<close>

definition startup_switches :: "environment \<Rightarrow> settings_store \<Rightarrow> plugin_switches" where
  "startup_switches env settings = resolve_switches env settings (effective_switches env settings)"

definition startup_composition ::
  "'j config_env \<Rightarrow> environment \<Rightarrow> settings_store \<Rightarrow> (composition_error, 'j composition_snapshot) res" where
  "startup_composition cg env settings = build_composition cg (startup_switches env settings)"

section \<open>The inventory of the running host\<close>

fun state_phase :: "plugin_state \<Rightarrow> fiber_phase option" where
  "state_phase Registered = Some PhPending"
| "state_phase Starting = Some PhLoading"
| "state_phase (Running pid) = Some PhActive"
| "state_phase Stopping = Some PhUnloading"
| "state_phase Stopped = None"
| "state_phase (Failed f) = Some PhFailed"

definition snapshot_phase :: "plugin_snapshot \<Rightarrow> (entry_id \<times> fiber_phase) option" where
  "snapshot_phase p =
     (case entry_id_new (pid_str (snap_id p)) of
        Inl e \<Rightarrow> None
      | Inr i \<Rightarrow> map_option (Pair i) (state_phase (snap_state p)))"

definition host_phases :: "plugin_snapshot list \<Rightarrow> (entry_id, fiber_phase) btmap" where
  "host_phases ps = foldl (\<lambda>m (i, x). bt_insert i x m) [] (List.map_filter snapshot_phase ps)"

definition plugin_inventory :: "'j composition_snapshot \<Rightarrow> plugin_snapshot list \<Rightarrow> inventory_entry list" where
  "plugin_inventory composition ps = inventory_with_phases composition (host_phases ps)"

end
