(* ===== verification/Composition_Props.thy ===== *)
theory Composition_Props
  imports Composition
begin

text \<open>
  What composing a profile means: the operations of its layers, in order, as steps on a finite map from
  identities to entries (\<open>plan_step\<close>), and the proof that the indexed lists of \<open>profile.rs\<close>
  implement it, errors included. \<open>entries_ok\<close> is the invariant of the entry list.
\<close>

section \<open>The abstract plan\<close>

text \<open>A plan gives each identity at most one entry; a step that the code refuses is \<open>None\<close>.\<close>

type_synonym 'j plan = "entry_id \<Rightarrow> 'j composition_entry option"

fun plan_step :: "'j layer_operation \<Rightarrow> 'j plan \<Rightarrow> 'j plan option" where
  "plan_step (LyInsert es) m =
     (if distinct (map ce_id es) \<and> dom m \<inter> ce_id ` set es = {} \<and>
         card (dom m) + length es \<le> MAX_COMPOSED_ENTRIES
      then Some (m ++ map_of (map (\<lambda>e. (ce_id e, e)) es)) else None)"
| "plan_step (LyReplace i e) m = (if i = ce_id e \<and> m i \<noteq> None then Some (m(i \<mapsto> e)) else None)"
| "plan_step (LyEnable i) m = map_option (\<lambda>e. m(i \<mapsto> entry_set_enabled True e)) (m i)"
| "plan_step (LyDisable i) m = map_option (\<lambda>e. m(i \<mapsto> entry_set_enabled False e)) (m i)"
| "plan_step (LyRemove i) m = (if m i \<noteq> None then Some (m(i := None)) else None)"

fun plan_run :: "'j layer_operation list \<Rightarrow> 'j plan \<Rightarrow> 'j plan option" where
  "plan_run [] m = Some m"
| "plan_run (x # xs) m = (case plan_step x m of None \<Rightarrow> None | Some m' \<Rightarrow> plan_run xs m')"

lemma plan_run_append:
  "plan_run (xs @ ys) m = (case plan_run xs m of None \<Rightarrow> None | Some m' \<Rightarrow> plan_run ys m')"
  by (induction xs arbitrary: m) (auto split: option.splits)

section \<open>Entry lists\<close>

definition entries_map :: "'j composition_entry list \<Rightarrow> 'j plan" where
  "entries_map es = map_of (map (\<lambda>e. (ce_id e, e)) es)"

definition entries_ok :: "'j composition_entry list \<Rightarrow> bool" where
  "entries_ok es \<longleftrightarrow> distinct (map ce_id es) \<and> length es \<le> MAX_COMPOSED_ENTRIES"

lemma entries_map_Nil [simp]: "entries_map [] = Map.empty"
  by (simp add: entries_map_def)

lemma entries_ok_Nil [simp]: "entries_ok []"
  by (simp add: entries_ok_def)

lemma entries_ok_ids: "entries_ok es \<Longrightarrow> distinct (map ce_id es)"
  by (simp add: entries_ok_def)

lemma entries_map_Cons [simp]: "entries_map (e # es) = (entries_map es)(ce_id e \<mapsto> e)"
  by (simp add: entries_map_def)

lemma dom_entries_map: "dom (entries_map es) = ce_id ` set es"
  by (force simp: entries_map_def dom_map_of_conv_image_fst)

lemma card_entries: "entries_ok es \<Longrightarrow> card (dom (entries_map es)) = length es"
  by (metis dom_entries_map distinct_card entries_ok_def length_map list.set_map)

lemma entries_map_find: "entries_map es i = find (\<lambda>e. ce_id e = i) es"
  by (induction es) auto

lemma entries_map_append: "distinct (map ce_id (es @ as)) \<Longrightarrow> entries_map (es @ as) = entries_map es ++ entries_map as"
proof -
  assume "distinct (map ce_id (es @ as))"
  then have "dom (entries_map es) \<inter> dom (entries_map as) = {}" by (auto simp: dom_entries_map)
  then have "entries_map as ++ entries_map es = entries_map es ++ entries_map as" by (rule map_add_comm [symmetric])
  then show ?thesis by (simp add: entries_map_def map_of_append)
qed

lemma entry_position_None: "entry_position es i = None \<longleftrightarrow> entries_map es i = None"
  by (induction es) auto

lemma entry_position_Some:
  "entry_position es i = Some n \<Longrightarrow> n < length es \<and> ce_id (es ! n) = i \<and> entries_map es i = Some (es ! n)"
  by (induction es arbitrary: n) (auto split: if_splits)

lemma entries_map_update:
  "entry_position es i = Some n \<Longrightarrow> ce_id e = i \<Longrightarrow> entries_map (es[n := e]) = (entries_map es)(i \<mapsto> e)"
  by (induction es arbitrary: n) (auto simp: fun_eq_iff split: if_splits)

lemma entries_map_remove:
  "entry_position es i = Some n \<Longrightarrow> distinct (map ce_id es) \<Longrightarrow>
   entries_map (take n es @ drop (Suc n) es) = (entries_map es)(i := None)"
proof (induction es arbitrary: n)
  case (Cons e es)
  show ?case
  proof (cases "ce_id e = i")
    case True
    then have "i \<notin> dom (entries_map es)" using Cons.prems(2) by (auto simp: dom_entries_map)
    then show ?thesis using True Cons.prems(1) by (auto simp: fun_eq_iff domIff)
  next
    case False
    then show ?thesis using Cons by (auto simp: fun_eq_iff)
  qed
qed simp

lemma ids_update: "entry_position es i = Some n \<Longrightarrow> ce_id e = i \<Longrightarrow> map ce_id (es[n := e]) = map ce_id es"
  using entry_position_Some [of es i n] by (auto simp: map_update list_update_same_conv)

lemma entries_ok_update: "entries_ok es \<Longrightarrow> entry_position es i = Some n \<Longrightarrow> ce_id e = i \<Longrightarrow> entries_ok (es[n := e])"
  by (simp add: entries_ok_def ids_update)

lemma entries_ok_remove: "entries_ok es \<Longrightarrow> entries_ok (take n es @ drop (Suc n) es)"
proof -
  assume ok: "entries_ok es"
  have "distinct (take n (map ce_id es) @ drop (Suc n) (map ce_id es))"
    using ok set_take_disj_set_drop_if_distinct [of "map ce_id es" n "Suc n"] by (simp add: entries_ok_def)
  then show ?thesis using ok by (auto simp: entries_ok_def take_map drop_map)
qed

lemma list_ex_image: "list_ex (\<lambda>x. f x = y) xs \<longleftrightarrow> y \<in> f ` set xs"
  by (auto simp: list_ex_iff)

lemma check_additions_Inr:
  "check_additions l es inserted as = Inr u \<longleftrightarrow>
   distinct (map ce_id as) \<and> ce_id ` set as \<inter> (set inserted \<union> ce_id ` set es) = {}"
  by (induction as arbitrary: inserted) (auto simp: list_ex_image)

section \<open>Refinement\<close>

text \<open>An outcome of the code and one of the plan agree.\<close>

definition plan_agrees :: "(composition_error, unit) res \<times> 'j composition_entry list \<Rightarrow> 'j plan option \<Rightarrow> bool" where
  "plan_agrees r p \<longleftrightarrow>
     (case r of
        (Inl e, es) \<Rightarrow> p = None
      | (Inr u, es) \<Rightarrow> entries_ok es \<and> p = Some (entries_map es))"

lemma plan_agrees_simps [simp]:
  "plan_agrees (Inl e, es) p \<longleftrightarrow> p = None"
  "plan_agrees (Inr u, es) p \<longleftrightarrow> entries_ok es \<and> p = Some (entries_map es)"
  by (simp_all add: plan_agrees_def)

lemma set_enabled_id [simp]: "ce_id (entry_set_enabled b e) = ce_id e"
  by (simp add: entry_set_enabled_def)

lemma insert_refines:
  "entries_ok es \<Longrightarrow> plan_agrees (apply_operation l (LyInsert as) es) (plan_step (LyInsert as) (entries_map es))"
proof -
  assume ok: "entries_ok es"
  show ?thesis
  proof (cases "check_additions l es [] as")
    case (Inl e)
    then have "\<not> (distinct (map ce_id as) \<and> ce_id ` set as \<inter> ce_id ` set es = {})"
      using check_additions_Inr [of l es "[]" as "()"] by auto
    then show ?thesis using Inl by (auto simp: apply_operation_def Let_def dom_entries_map)
  next
    case (Inr u)
    then have d: "distinct (map ce_id as)" "ce_id ` set as \<inter> ce_id ` set es = {}"
      using check_additions_Inr [of l es "[]" as u] by auto
    then have "distinct (map ce_id (es @ as))" using ok by (auto simp: entries_ok_def)
    then show ?thesis
      using Inr d ok entries_map_append [of es as] card_entries [OF ok]
      by (auto simp: apply_operation_def Let_def dom_entries_map entries_ok_def simp flip: entries_map_def)
  qed
qed

lemma toggle_refines:
  assumes "entries_ok es" "entry_position es i = Some n"
  shows "entries_ok (es[n := entry_set_enabled b (es ! n)])"
    "entries_map (es[n := entry_set_enabled b (es ! n)]) = (entries_map es)(i \<mapsto> entry_set_enabled b (es ! n))"
    "entries_map es i = Some (es ! n)"
  using assms entry_position_Some [of es i n] by (simp_all add: entries_ok_update entries_map_update)

lemma apply_operation_refines:
  assumes "entries_ok es"
  shows "plan_agrees (apply_operation l x es) (plan_step x (entries_map es))"
proof (cases x)
  case (LyInsert as)
  then show ?thesis using insert_refines [OF assms] by simp
qed (use assms in \<open>auto simp: apply_operation_def find_entry_def entry_position_None entries_map_update
      entries_map_remove entries_ok_update entries_ok_remove toggle_refines split: option.splits
      dest: entry_position_Some entries_ok_ids\<close>)

lemma apply_operations_refines:
  "entries_ok es \<Longrightarrow> plan_agrees (apply_operations l xs es) (plan_run xs (entries_map es))"
proof (induction xs arbitrary: es)
  case (Cons x xs)
  obtain r es' where a: "apply_operation l x es = (r, es')" by (cases "apply_operation l x es")
  show ?case
    using Cons apply_operation_refines [OF Cons.prems, of l x] a
    by (cases r) (auto simp: act_then_def act_bind_def)
qed (simp add: ret_def)

text \<open>A run over several layers: entries as the plan says, and the names of the layers in order.\<close>

lemma apply_layers_refines:
  "entries_ok es \<Longrightarrow> apply_layers ls (es, applied) = (r, (es', applied')) \<Longrightarrow>
   plan_agrees (r, es') (plan_run (concat (map ly_operations ls)) (entries_map es)) \<and>
   (\<forall>u. r = Inr u \<longrightarrow> applied' = applied @ map ly_name ls)"
proof (induction ls arbitrary: es applied)
  case (Cons l ls)
  obtain q es1 where a: "apply_layer l es = (q, es1)" by (cases "apply_layer l es")
  have "plan_agrees (q, es1) (plan_run (ly_operations l) (entries_map es))"
    using apply_operations_refines [OF Cons.prems(1), of l "ly_operations l"] a by (simp add: apply_layer_def)
  then show ?case
    using Cons.prems Cons.IH [of es1 "applied @ [ly_name l]"] a by (cases q) (auto simp: plan_run_append)
qed auto

lemma apply_layers_append: "apply_layers (ls @ ks) = act_then (apply_layers ls) (apply_layers ks)"
proof
  fix s :: "'a composing"
  show "apply_layers (ls @ ks) s = act_then (apply_layers ls) (apply_layers ks) s"
    by (induction ls s rule: apply_layers.induct) (auto simp: act_then_def act_bind_def split: prod.split sum.split)
qed

lemma compose_profile_layers:
  "compose_profile p =
     (case apply_layers (profile_layers p) ([], []) of
        (Inl e, _) \<Rightarrow> Inl e
      | (Inr _, (es, applied)) \<Rightarrow>
          Inr \<lparr>sn_profile_name = pf_name p, sn_entries = es, sn_applied_layers = applied\<rparr>)"
  by (simp add: compose_profile_def profile_layers_def apply_layers_append)

definition profile_plan :: "'j profile \<Rightarrow> 'j plan option" where
  "profile_plan p = plan_run (concat (map ly_operations (profile_layers p))) Map.empty"

text \<open>What a composed snapshot promises.\<close>

definition snapshot_ok :: "'j profile \<Rightarrow> 'j composition_snapshot \<Rightarrow> bool" where
  "snapshot_ok p s \<longleftrightarrow> sn_profile_name s = pf_name p \<and> sn_applied_layers s = map ly_name (profile_layers p) \<and>
     entries_ok (sn_entries s) \<and> profile_plan p = Some (snapshot_entry s)"

lemma compose_refines:
  "case compose_profile p of Inl e \<Rightarrow> profile_plan p = None | Inr s \<Rightarrow> snapshot_ok p s"
proof -
  obtain r es applied where a: "apply_layers (profile_layers p) ([], []) = (r, (es, applied))"
    by (metis prod.exhaust)
  have "snapshot_entry \<lparr>sn_profile_name = n, sn_entries = es, sn_applied_layers = k\<rparr> = entries_map es" for n k
    by (simp add: snapshot_entry_def entries_map_find fun_eq_iff)
  then show ?thesis
    using apply_layers_refines [OF entries_ok_Nil a]
    by (cases r) (auto simp: compose_profile_layers a profile_plan_def snapshot_ok_def)
qed

section \<open>Profiles built by their operations\<close>

inductive built_profile :: "'j profile \<Rightarrow> bool" where
  bp_new: "profile_new n = Inr p \<Longrightarrow> built_profile p"
| bp_bundle: "built_profile p \<Longrightarrow> add_bundle l p = (r, p') \<Longrightarrow> built_profile p'"
| bp_layer: "built_profile p \<Longrightarrow> set_profile_layer l p = (r, p') \<Longrightarrow> built_profile p'"
| bp_overlay: "built_profile p \<Longrightarrow> add_overlay l p = (r, p') \<Longrightarrow> built_profile p'"

lemma distinct_insert_name:
  "distinct (map f (xs @ ys)) \<Longrightarrow> f x \<notin> f ` set (xs @ ys) \<Longrightarrow> distinct (map f (xs @ x # ys))"
  by auto

lemma built_profile_distinct: "built_profile p \<Longrightarrow> distinct (map ly_name (profile_layers p))"
proof (induction rule: built_profile.induct)
  case (bp_new n p)
  then show ?case by (auto simp: profile_new_def profile_layers_def)
next
  case (bp_bundle p l r p')
  define rest where "rest = (case pf_layer p of None \<Rightarrow> [] | Some x \<Rightarrow> [x]) @ pf_overlays p"
  have "profile_layers p = pf_bundles p @ rest"
    "profile_layers (p\<lparr>pf_bundles := pf_bundles p @ [l]\<rparr>) = pf_bundles p @ l # rest"
    by (simp_all add: profile_layers_def rest_def)
  then show ?case
    using bp_bundle distinct_insert_name [of ly_name "pf_bundles p" rest l]
    by (auto simp: add_bundle_def register_layer_name_def list_ex_image split: if_splits)
next
  case (bp_layer p l r p')
  have "distinct (map ly_name (pf_bundles p @ pf_overlays p))"
    using bp_layer(3) by (auto simp: profile_layers_def split: option.splits)
  note new = distinct_insert_name [OF this]
  have "p' = p \<or> p' = p\<lparr>pf_layer := Some l\<rparr> \<and> ly_name l \<notin> ly_name ` set (pf_bundles p @ pf_overlays p)"
    using bp_layer(2) by (auto simp: set_profile_layer_def list_ex_image split: if_splits)
  moreover have "profile_layers (p\<lparr>pf_layer := Some l\<rparr>) = pf_bundles p @ l # pf_overlays p"
    by (simp add: profile_layers_def)
  ultimately show ?case using new [of l] bp_layer(3) by metis
next
  case (bp_overlay p l r p')
  have "p' = p \<or> p' = p\<lparr>pf_overlays := pf_overlays p @ [l]\<rparr> \<and> ly_name l \<notin> ly_name ` set (profile_layers p @ [])"
    using bp_overlay(2) by (auto simp: add_overlay_def register_layer_name_def list_ex_image split: if_splits)
  moreover have "profile_layers (p\<lparr>pf_overlays := pf_overlays p @ [l]\<rparr>) = profile_layers p @ [l]"
    by (simp add: profile_layers_def)
  ultimately show ?case
    using distinct_insert_name [of ly_name "profile_layers p" "[]" l] bp_overlay(3) by (metis append_Nil2)
qed

end
