(* ===== verification/Plugin_Startup_Props.thy ===== *)
theory Plugin_Startup_Props
  imports Plugin_Startup Settings_Claims Composition_Props
begin

text \<open>
  Lemmas on the startup of the host: the built-in layer always composes, into one entry per built-in
  plugin, and the switch of an optional plugin is decided by the plugin's own choice, then by the
  environment, the stored capability, and the default of its policy.
\<close>

section \<open>Printable identities\<close>

definition plain_char :: "rchar \<Rightarrow> bool" where
  "plain_char c \<longleftrightarrow> 33 \<le> c \<and> c < 127"

lemma plain_char_facts: "plain_char c \<Longrightarrow> is_ascii c \<and> \<not> is_control c \<and> \<not> is_whitespace c \<and> utf8_width c = 1"
  by (auto simp: plain_char_def is_ascii_def is_control_def is_whitespace_def utf8_width_def)

lemma str_len_plain: "list_all plain_char s \<Longrightarrow> str_len s = length s"
  by (induction s) (auto dest: plain_char_facts)

lemma unsupported_plain: "list_all plain_char s \<Longrightarrow> unsupported_character s = None"
proof -
  have "find (\<lambda>(index, c). \<not> is_ascii c \<or> is_control c \<or> is_whitespace c) (char_indices_from k s) = None"
    if "list_all plain_char s" for k
    using that by (induction s arbitrary: k) (auto dest: plain_char_facts)
  then show "list_all plain_char s \<Longrightarrow> ?thesis"
    by (simp add: unsupported_character_def char_indices_def)
qed

lemma entry_id_new_plain:
  "list_all plain_char s \<Longrightarrow> s \<noteq> [] \<Longrightarrow> length s \<le> 128 \<Longrightarrow> entry_id_new s = Inr s"
  by (simp add: entry_id_new_def unsupported_plain str_len_plain MAX_ENTRY_ID_BYTES_def)

lemma validate_label_plain:
  "list_all plain_char s \<Longrightarrow> s \<noteq> [] \<Longrightarrow> length s \<le> m \<Longrightarrow> validate_label s m b = Inr ()"
proof -
  assume s: "list_all plain_char s" "s \<noteq> []" "length s \<le> m"
  have all: "\<forall>c \<in> set s. is_ascii c \<and> \<not> is_control c \<and> \<not> is_whitespace c"
    using s(1) by (auto simp: list_all_iff dest: plain_char_facts)
  then have "dropWhile is_whitespace s = s" "dropWhile is_whitespace (rev s) = rev s"
    using s(2) by (auto simp: dropWhile_eq_self_iff hd_rev)
  then have "trim s = s" by (simp add: trim_def)
  then show ?thesis using s all by (auto simp: validate_label_def list_all_iff str_len_plain)
qed

section \<open>Built-in plugins\<close>

lemmas plugin_id_defs =
  MODEL_PLUGIN_ID_def CONTEXT_PLUGIN_ID_def PERSONA_PLUGIN_ID_def MEMORY_PLUGIN_ID_def STORAGE_PLUGIN_ID_def
  COMPANION_PLUGIN_ID_def MAILBOX_PLUGIN_ID_def SCHEDULER_PLUGIN_ID_def SHELL_PLUGIN_ID_def PATCH_PLUGIN_ID_def
  FILES_PLUGIN_ID_def MCP_PLUGIN_ID_def SKILLS_PLUGIN_ID_def MULTI_AGENT_PLUGIN_ID_def
  VOICE_FIXTURE_PLUGIN_ID_def WEIXIN_PLUGIN_ID_def

fun plugin_of :: "capability_setting \<Rightarrow> rstring" where
  "plugin_of CsContext = CONTEXT_PLUGIN_ID"
| "plugin_of CsPersona = PERSONA_PLUGIN_ID"
| "plugin_of CsMemory = MEMORY_PLUGIN_ID"
| "plugin_of CsCompanion = COMPANION_PLUGIN_ID"
| "plugin_of CsStorage = STORAGE_PLUGIN_ID"
| "plugin_of CsMailbox = MAILBOX_PLUGIN_ID"
| "plugin_of CsScheduler = SCHEDULER_PLUGIN_ID"
| "plugin_of CsShell = SHELL_PLUGIN_ID"
| "plugin_of CsPatch = PATCH_PLUGIN_ID"
| "plugin_of CsFiles = FILES_PLUGIN_ID"
| "plugin_of CsMcp = MCP_PLUGIN_ID"
| "plugin_of CsSkills = SKILLS_PLUGIN_ID"
| "plugin_of CsMultiAgent = MULTI_AGENT_PLUGIN_ID"
| "plugin_of CsVoice = VOICE_FIXTURE_PLUGIN_ID"
| "plugin_of CsWeixin = WEIXIN_PLUGIN_ID"

lemma plugin_ids_distinct: "distinct (MODEL_PLUGIN_ID # map plugin_of all_settings)"
  by (simp add: all_settings_def plugin_id_defs lit_def)

lemma plugin_of_inject [simp]: "plugin_of s = plugin_of t \<longleftrightarrow> s = t"
  using plugin_ids_distinct by (auto simp: distinct_map dest: inj_onD)

lemma plugin_of_not_model [simp]: "plugin_of s \<noteq> MODEL_PLUGIN_ID" "MODEL_PLUGIN_ID \<noteq> plugin_of s"
  using plugin_ids_distinct by (metis all_settings_complete distinct.simps(2) image_eqI list.set_map)+

lemma manifest_for_model [simp]: "manifest_for MODEL_PLUGIN_ID = policy_agent_spine"
  by (simp add: manifest_for_def)

lemma manifest_for_setting [simp]:
  "manifest_for (plugin_of s) =
     policy_optional (if s \<in> {CsContext, CsPersona, CsStorage} then RkNone else RkExternal)"
  by (cases s) (simp_all add: manifest_for_def plugin_id_defs lit_def)

lemma policy_optional_facts [simp]:
  "mf_role (policy_optional k) = RlOptional" "mf_risk (policy_optional k) = k"
  "policy_enabled (policy_optional k) \<longleftrightarrow> k = RkNone"
  by (cases k; simp add: policy_optional_def policy_for_def policy_enabled_def)+

lemma plugin_of_plain: "list_all plain_char (plugin_of s) \<and> plugin_of s \<noteq> [] \<and> length (plugin_of s) \<le> 40"
  by (cases s) (simp_all add: plugin_id_defs lit_def plain_char_def)

lemma model_plain: "list_all plain_char MODEL_PLUGIN_ID \<and> MODEL_PLUGIN_ID \<noteq> [] \<and> length MODEL_PLUGIN_ID \<le> 40"
  by (simp add: plugin_id_defs lit_def plain_char_def)

section \<open>The switch of a plugin\<close>

text \<open>Both readings of a variable agree, so both precedences look at the same values.\<close>

lemma policy_names [simp]: "policy_environment_names s = environment_names s"
  by (cases s) simp_all

lemma policy_read [simp]: "policy_read_bool env = read_bool env"
  by (simp add: fun_eq_iff policy_read_bool_def read_bool_def)

lemma legacy_override_value:
  "environment_value env s = Some b \<Longrightarrow> legacy_override env st w s = Some b"
  "environment_value env s = None \<Longrightarrow> override_get (ss_overrides st) s \<noteq> None \<Longrightarrow> legacy_override env st w s = Some (switch_get w s)"
  "environment_value env s = None \<Longrightarrow> override_get (ss_overrides st) s = None \<Longrightarrow>
     legacy_override env st w s \<in> {None, Some (switch_get w s)}"
  "environment_value env s = None \<Longrightarrow> s \<in> {CsMailbox, CsScheduler} \<Longrightarrow> override_get (ss_overrides st) CsCompanion \<noteq> None \<Longrightarrow>
     legacy_override env st w s = Some (switch_get w s)"
  by (cases "environment_names s"; auto simp: legacy_override_def legacy_override_with_def environment_value_def or_else_def
      split: option.splits)+

text \<open>
  An optional plugin runs by its own choice, else by its environment variable, else by the stored
  override; without any of them context, persona and storage run, mailbox and scheduler run when the
  companion is stored as on, and no other plugin does: whatever has effects outside runs only when the
  user or the operator asked for it.
\<close>

theorem startup_switch:
  "resolve_optional env st (effective_switches env st) (plugin_of s) s =
     (case bt_get (ss_plugins st) (plugin_of s) of
        Some b \<Rightarrow> b
      | None \<Rightarrow>
          (case environment_value env s of
             Some b \<Rightarrow> b
           | None \<Rightarrow>
               (case override_get (ss_overrides st) s of
                  Some b \<Rightarrow> b
                | None \<Rightarrow> s \<in> {CsContext, CsPersona, CsStorage} \<or>
                    s \<in> {CsMailbox, CsScheduler} \<and> override_get (ss_overrides st) CsCompanion = Some True)))"
proof (cases "bt_get (ss_plugins st) (plugin_of s)")
  case None
  have resolve: "resolve_optional env st w (plugin_of s) s =
      or_default (legacy_override env st w s) (s \<in> {CsContext, CsPersona, CsStorage})" for w
    using None by (simp add: resolve_optional_def resolve_value_def)
  show ?thesis
  proof (cases "environment_value env s")
    case (Some b)
    then show ?thesis using None by (simp add: resolve legacy_override_value(1) or_default_def)
  next
    case env: None
    note switch = effective_switch [of env st s, unfolded env option.case]
    show ?thesis
    proof (cases "override_get (ss_overrides st) s")
      case (Some b)
      then show ?thesis
        using None env switch by (simp add: resolve legacy_override_value(2) or_default_def)
    next
      case stored: None
      show ?thesis
      proof (cases "s \<in> {CsMailbox, CsScheduler} \<and> override_get (ss_overrides st) CsCompanion \<noteq> None")
        case True
        then show ?thesis
          using None env stored switch legacy_override_value(4) [OF env, of st "effective_switches env st"]
          by (auto simp: resolve or_default_def)
      next
        case False
        then have "switch_get (effective_switches env st) s \<longleftrightarrow> s \<in> {CsContext, CsPersona, CsStorage}"
          using switch stored by auto
        then show ?thesis
          using None env stored False legacy_override_value(3) [OF env stored, of "effective_switches env st"]
          by (auto simp: resolve or_default_def)
      qed
    qed
  qed
qed (simp add: resolve_optional_def resolve_value_def)

text \<open>
  The documentation gives mailbox and scheduler the companion's value by default, and the code means
  to accept it when the companion was set by a variable, but the switches it reads then do not carry
  that value: a variable that turns the companion on leaves both off.
\<close>

theorem companion_variable_not_inherited:
  fixes st :: settings_store
  assumes "ss_plugins st = []" and "ss_overrides st = no_overrides"
    and "env = (\<lambda>n. if n = lit ''YUNXI_NEXT_COMPANION_ENABLED'' then Some (lit ''true'') else None)"
  shows "pw_companion (startup_switches env st) \<and> \<not> pw_mailbox (startup_switches env st) \<and>
    \<not> pw_scheduler (startup_switches env st)"
proof -
  have "environment_value env CsCompanion = Some True" "environment_value env CsMailbox = None"
      "environment_value env CsScheduler = None"
    by (simp_all add: assms(3) environment_value_def read_bool_def trim_def is_whitespace_def
        Settings_Store.to_ascii_lowercase_def is_ascii_uppercase_def lit_def)
  then show ?thesis
    using startup_switch [of env st CsCompanion] startup_switch [of env st CsMailbox] startup_switch [of env st CsScheduler]
    by (simp add: startup_switches_def resolve_switches_def assms(1,2) no_overrides_def)
qed

section \<open>The composition at startup\<close>

definition builtin_composed :: "'j config_env \<Rightarrow> rstring \<times> bool \<Rightarrow> 'j composition_entry" where
  "builtin_composed cg = (\<lambda>(i, b).
     \<lparr>ce_id = i, ce_module_name = lit ''yunxi.plugin.'' @ i,
      ce_enabled = (b \<or> \<not> is_user_toggleable (mf_role (manifest_for i))), ce_config = cg_empty cg,
      ce_group = None, ce_manifest = Some (manifest_for i)\<rparr>)"

lemma builtin_entry_plain:
  assumes "list_all plain_char i" "i \<noteq> []" "length i \<le> 40"
  shows "builtin_entry cg i b = Inr (builtin_composed cg (i, b))"
proof -
  have "list_all plain_char (lit ''yunxi.plugin.'')" by (simp add: lit_def plain_char_def)
  then have "list_all plain_char (lit ''yunxi.plugin.'' @ i)" using assms(1) by simp
  then have "validate_module_name (lit ''yunxi.plugin.'' @ i) = Inr ()"
    using assms by (simp add: validate_module_name_def unsupported_plain str_len_plain MAX_MODULE_NAME_BYTES_def)
      (simp add: lit_def)
  then show ?thesis
    using entry_id_new_plain [OF assms(1,2)] assms(3)
    by (simp add: builtin_entry_def entry_new_with_manifest_def entry_new_def entry_from_id_def with_manifest_def
        with_enabled_def builtin_composed_def Let_def)
qed

lemma builtin_entries_plain:
  "list_all (\<lambda>(i, b). list_all plain_char i \<and> i \<noteq> [] \<and> length i \<le> 40) rs \<Longrightarrow>
   builtin_entries cg rs = Inr (map (builtin_composed cg) rs)"
  by (induction rs) (auto simp: builtin_entry_plain)

lemma builtin_requests_ids: "map fst (builtin_requests w) = MODEL_PLUGIN_ID # map plugin_of
    [CsContext, CsPersona, CsMemory, CsStorage, CsCompanion, CsMailbox, CsScheduler, CsShell, CsPatch, CsFiles, CsMcp,
     CsSkills, CsMultiAgent, CsVoice, CsWeixin]"
  by (simp add: builtin_requests_def Let_def)

lemma builtin_requests_plain:
  "list_all (\<lambda>(i, b). list_all plain_char i \<and> i \<noteq> [] \<and> length i \<le> 40) (builtin_requests w)"
  using plugin_of_plain model_plain
  by (simp add: builtin_requests_def Let_def flip: plugin_of.simps)

text \<open>
  The built-in layer always composes: one entry per built-in plugin, in the order of the code, enabled
  when it was requested, and the model plugin always.
\<close>

theorem builtin_composes:
  "build_composition cg w = Inr \<lparr>sn_profile_name = lit ''yunxi-next'',
     sn_entries = map (builtin_composed cg) (builtin_requests w), sn_applied_layers = [lit ''yunxi-next.builtin'']\<rparr>"
proof -
  define es where "es = map (builtin_composed cg) (builtin_requests w)"
  have ids: "map ce_id es = map fst (builtin_requests w)"
    by (auto simp: es_def builtin_composed_def)
  have "distinct (map ce_id es)"
    unfolding ids builtin_requests_ids by (simp del: plugin_of.simps)
  then have add: "check_additions l [] [] es = Inr ()" for l
    by (simp add: check_additions_Inr)
  have count: "length es = 16" by (simp add: es_def builtin_requests_def Let_def)
  have "list_all plain_char (lit ''yunxi-next'')" "list_all plain_char (lit ''yunxi-next.builtin'')"
    by (simp_all add: lit_def plain_char_def)
  then have labels: "validate_label (lit ''yunxi-next'') MAX_PROFILE_NAME_BYTES True = Inr ()"
      "validate_label (lit ''yunxi-next.builtin'') MAX_LAYER_NAME_BYTES False = Inr ()"
    by (simp_all add: validate_label_plain MAX_PROFILE_NAME_BYTES_def MAX_LAYER_NAME_BYTES_def lit_def)
  have "builtin_entries cg (builtin_requests w) = Inr es"
    unfolding es_def by (rule builtin_entries_plain [OF builtin_requests_plain])
  then show ?thesis
    unfolding es_def [symmetric]
    by (simp add: build_composition_def profile_new_def layer_new_def labels layer_insert_def layer_push_def
        MAX_LAYER_OPERATIONS_def add_bundle_def register_layer_name_def profile_layers_def compose_profile_def
        act_then_def act_bind_def apply_layer_def apply_operation_def add count MAX_COMPOSED_ENTRIES_def ret_def)
qed

end
