(* ===== verification/Spec2Isabelle.thy ===== *)
theory Spec2Isabelle
  imports Plugin_Kernel_Claims Plugin_Host_Claims Event_Bus_Claims
    Cordis_Runtime_Claims Tool_Protocol_Claims Session_Claims Agent_Theorems Agent_Graph_Claims
    Settings_Claims Mailbox_Claims Scheduler Companion Memory_Claims Session_Store_Claims
    Plugin_Startup_Props
begin

text \<open>
  YunXi Next is a personal agent built around a small trusted kernel: capabilities run as separate
  plugin processes, a host launches, routes to and restarts them, a typed event bus connects the parts
  of one process, and the agent loop turns a user's message into model calls and approved tool calls.
  This development models those parts as functions over explicit states, translated from the Rust
  sources under \<open>src/crates\<close>, and proves what they promise.

  \<^bold>\<open>Conventions.\<close> \<open>Rust_Std\<close> holds what the sources use of the
  standard library: strings as lists of scalar values with their UTF-8 lengths and boundaries, fixed width
  integers as words with checked and saturating increments, \<open>BTreeMap\<close> and \<open>BTreeSet\<close> as
  sorted lists, results as sums (\<open>Inl\<close> is the error), and stateful fallible operations as
  functions \<open>act\<close> that return a result and the new state. Lengths and byte counts of type
  \<open>usize\<close> are naturals, with the overflow checks the code makes written out. What comes from
  outside the sources (sockets, processes, threads, clocks, the model, JSON encoding, closures) is an
  argument: a record of answers, or a function, given to the operation that uses it.

  \<^bold>\<open>Plugin processes.\<close>
  \<^item> \<open>Plugin_Kernel\<close>: \<open>yunxi-kernel\<close>. The registry of slots (state, generation,
    worker, command sender, forced failure), the supervisor of one process, and start, stop, fail,
    refresh and shutdown. A trace records spawns, stop signals and joins. \<open>Plugin_Kernel_Props\<close> has the
    kernel invariant and its preservation; \<open>Plugin_Kernel_Claims\<close> the properties.
  \<^item> \<open>Retry_Control\<close>: \<open>yunxi-plugin-host/src/retry.rs\<close>, the generation fence
    and the restart budget of one plugin.
  \<^item> \<open>Wire_Transport\<close>, \<open>Wire_Contract\<close>, \<open>Wire_Handshake\<close>: framing, message and
    manifest validation and the readiness handshake of \<open>yunxi-protocol\<close>.
  \<^item> \<open>Capability_Catalog\<close> and \<open>Plugin_Host\<close>: \<open>yunxi-plugin-host/src/catalog.rs\<close>
    and \<open>runtime.rs\<close>: routing, launch, invocation, recovery, disabling and shutdown. The host
    operations call the kernel, the catalog, the retry controllers and the handshake as the code does.
    \<open>Plugin_Host_Props\<close> has the host invariant and the accounting of starts, \<open>Plugin_Host_Claims\<close> the properties.

  \<^bold>\<open>Events.\<close> \<open>Event_Bus\<close> is \<open>yunxi-cordis-core/src/event.rs\<close>: subscriptions and the
    five dispatch modes; a payload carries its type identity, so the downcasts are checks of the model.
    Its properties are in \<open>Event_Bus_Claims\<close>.

  \<^bold>\<open>Scopes and the plugin runtime.\<close>
  \<^item> \<open>Cordis_Scope\<close>: \<open>context.rs\<close>, \<open>effect.rs\<close>, \<open>plugin.rs\<close>, \<open>service.rs\<close> and \<open>error.rs\<close> of
    \<open>yunxi-cordis-core\<close>. Contexts and fibers are shared, so they live in a store and are named by their ids;
    an effect draws its id when it is built and is installed later. Each operation is one call carried out
    to its end; \<open>raced_install_never_runs\<close> shows what an overlap of \<open>install_effect\<close> and \<open>dispose\<close> does.
    \<open>Cordis_Scope_Props\<close> has the store invariant, \<open>Cordis_Dispose\<close> what a disposal does and the depth it needs,
    \<open>Cordis_Scope_Steps\<close> the other operations as steps that touch one scope and younger ones,
    \<open>Cordis_Claims\<close> the step relation and the properties.
  \<^item> \<open>Cordis_Runtime\<close>: \<open>yunxi-cordis-runtime\<close>, the registry of plugins and their startup, switching and
    shutdown, over the scopes. \<open>Cordis_Runtime_Props\<close> has the invariant that ties records, fibers and the root
    scope, \<open>Cordis_Startup\<close> the accounting of a start, \<open>Cordis_Runtime_Claims\<close> the properties. They
    assume that plugin code only acts on the scope it is given and on what it makes from it, and on the world.

  \<^bold>\<open>The agent.\<close>
  \<^item> \<open>Tool_Protocol\<close>: \<open>yunxi-protocol/src/tool_calls.rs\<close> and \<open>message.rs\<close>.
  \<^item> \<open>Session_Log\<close>, \<open>Agent_Base\<close>, \<open>Tool_Broker\<close>, \<open>Agent_Loop\<close>: \<open>yunxi-agent-spine\<close>:
    the bounded session log, errors and cancellation, the broker trait with the approval wrapper, and the
    turn loop with budgets, approval, resumption and cancellation.
  \<^item> \<open>Agent_Props\<close> has rules for state, result and error of a stateful step and the invariant of a
    running turn; \<open>Agent_Claims\<close> the agent's step relation and invariant; \<open>Approval_Gate\<close> what an
    approval-checking broker guarantees to the loop; \<open>Agent_Transcript\<close> the conversation a turn leaves when
    it completes or waits, resumptions included; \<open>Agent_Demo\<close> a concrete run through a pending approval; \<open>Agent_Theorems\<close> the properties.

  \<^bold>\<open>Stores.\<close>
  \<^item> \<open>Durable_File\<close>: a disk whose every call may be refused and every write torn, with all the states it
    went through, the file replacement the stores share, and weakest preconditions that follow a program
    through every such state.
  \<^item> \<open>Agent_Graph_Protocol\<close> and \<open>Agent_Graph\<close>: the contracts of \<open>yunxi-protocol/src/multi_agent.rs\<close> and
    the coordinator of \<open>yunxi-multi-agent\<close> (\<open>store.rs\<close>, \<open>plugin.rs\<close>): the session document with its agents,
    the seven operations, recovery after a restart, persistence and dispatch. \<open>Agent_Graph_Steps\<close> has the
    transitions of a document and the locale \<open>document_law\<close>, which carries a law of the transitions to every
    state of the disk; \<open>Agent_Graph_Props\<close> the two laws (a tree inside its budgets, a history that only
    goes on from a document that lay on the disk), \<open>Agent_Graph_Runs\<close> their interpretations and the steps of the disk, \<open>Agent_Graph_Demo\<close> a concrete
    session, \<open>Agent_Graph_Claims\<close> the properties. They assume that a printed document parses back. A backup that
    a failed clean-up left beside its document is allowed for; \<open>refused_read_rewinds\<close> shows what it can cost.
  \<^item> \<open>Durable_Json\<close>: a directory of JSON documents with their backups: replacing one leaves the old or the
    new one to be read at every moment and the others alone, whichever store it belongs to. A reader that
    survives an interrupted replacement is the locale \<open>durable_reader\<close>.
  \<^item> \<open>Settings_Store\<close>: \<open>yunxi-settings\<close>: the capability switches and their precedence
    (\<open>capabilities.rs\<close>), the document under its revision fence (\<open>store.rs\<close>). \<open>Settings_Props\<close> follows an
    edit to the disk, with or without a leftover backup, \<open>Settings_Claims\<close> has the properties and, in
    \<open>damaged_file_loses_backup\<close>, what an edit over a damaged file risks.
  \<^item> \<open>Plugin_Loop\<close>: the process every plugin crate writes the same way: declare capabilities, connect, answer
    one message at a time. The locale \<open>answering\<close> states what an answer owes its request; each plugin
    interprets it on its own dispatch.
  \<^item> \<open>Mailbox\<close>: \<open>yunxi-companion-mailbox\<close> (\<open>store.rs\<close>, \<open>plugin.rs\<close>) with \<open>yunxi-protocol/src/mailbox.rs\<close>: item files
    named by the hash of their idempotency key, the data key and its file, the four operations. \<open>Utf8\<close> has
    the byte encoding of strings it relies on, \<open>Store_Plugin\<close> reading directories, \<open>Mailbox_Props\<close> what loading
    finds and saving leaves, \<open>Mailbox_Claims\<close> the properties. They assume that a printed item parses back, that the
    cipher opens what it sealed under the same key, nonce and associated data, that base64 decodes what it
    encoded, and that random keys and nonces have their lengths.

  \<^item> \<open>Memory_Record\<close>, \<open>Memory_Store\<close>, \<open>Memory_Recall\<close>, \<open>Memory_Write\<close>: \<open>yunxi-memory\<close>
    (\<open>record.rs\<close>, \<open>store.rs\<close>, \<open>recall.rs\<close>, \<open>write.rs\<close>, \<open>plugin.rs\<close>) with
    \<open>yunxi-protocol/src/memory_write.rs\<close>: validated records in files of JSON lines, what a question recalls of
    them, what a prompt adds to them and how a review settles it. \<open>Float32\<close> has the \<open>f32\<close> numbers the scores
    are computed in, rounded as IEEE 754 does. \<open>Memory_Files\<close> shows what an append leaves in a file of lines,
    \<open>Memory_Claims\<close> the properties; reading back assumes that a printed record is one line that parses back, the
    torn append that printing starts with an ASCII character.

  \<^item> \<open>Session_Record\<close> and \<open>Session_Store\<close>: \<open>yunxi-storage\<close> (\<open>record.rs\<close>, \<open>store.rs\<close>,
    \<open>plugin.rs\<close>) with \<open>yunxi-protocol/src/sessions.rs\<close>: the conversations of a workspace, one file each, and the
    read-only sessions of the predecessor program. \<open>Session_Store_Props\<close> has what the readers find in a state of
    the disk and what a save leaves there, \<open>Session_Store_Claims\<close> the properties. They assume that a printed
    session parses back and that no session has both its file and a backup left by an incomplete clean-up.

  \<^bold>\<open>Policies.\<close> \<open>Scheduler\<close> is \<open>yunxi-scheduler\<close>: which proactive plan a request allows. \<open>Companion\<close> is
  \<open>yunxi-companion\<close>: the emotion a prompt shows and the tone of the answer. Both have their plugins and what they
  promise; \<open>Text_Std\<close> has the string operations they read prompts with, \<open>Identity_Protocol\<close> the payloads of
  \<open>yunxi-protocol/src/identity.rs\<close>.

  \<^bold>\<open>Startup.\<close> \<open>Composition\<close> is \<open>yunxi-composition\<close>: entries, layers of operations on them, profiles and the
  inventory. \<open>Composition_Props\<close> proves that composing a profile implements its operations as steps on a finite
  map, errors included (\<open>compose_refines\<close>). \<open>Plugin_Startup\<close> is what the command line host starts with
  (\<open>session/plugin_policy.rs\<close>, \<open>build_composition\<close> in \<open>session.rs\<close>, the inventory of \<open>session/stateful.rs\<close>);
  \<open>Plugin_Startup_Props\<close> gives the precedence of choices, variables and stored settings
  (\<open>startup_switch\<close>), shows that the built-in layer always composes, and that a variable that turns the companion on
  is not inherited by the mailbox and the scheduler.

  \<^bold>\<open>Interfaces.\<close> The locale \<open>component\<close> of \<open>Rust_Std\<close> states what a component with an
  initial condition, a step relation and an invariant owes its users, and is interpreted for the
  kernel, the host, the catalog, the retry controller, the bus, the scopes, the plugin runtime, the session log, the agent and the coordinator's disk; the properties about
  every reachable state rest on those interpretations. \<open>Session_Claims\<close> states the log as an append-only
  store and \<open>Approval_Gate\<close> the broker as an approval gate.

  \<^bold>\<open>Bounds and termination.\<close> Every function is total. The loops with a bound in the source keep it: 200 polls
  when the host stops a plugin, the timeout divided by ten polls of the handshake, four rounds of
  recovery. The agent's loop over rounds recurs on the 16-bit round number, whose overflow is an error of the
  loop. Disposing a scope recurs on the number of scopes younger than it, a bound \<open>dispose_fuel\<close> shows to be
  enough; starting plugins and dispatching over joined workers recur on the list that is left, reading a frame on
  the bytes that are left, and a branch of agents on the agents not reached yet.

  \<^bold>\<open>Not modelled.\<close> Threads are not interleaved inside an operation: the operations of the kernel and the host
  run one at a time, as their owners call them, and what other threads did is in the answers. Contexts can be
  shared between threads and give their lock back inside some operations; the theorems about scopes are about
  calls that do not overlap. Of the
  other crates (context and persona, the tool plugins, the network front ends, and of the command line
  everything but its plugin policy and composition) nothing is modelled.
\<close>

end
